(* ===== verification/Prelude.thy ===== *)
theory Prelude
  imports Main "HOL-Library.Word"
begin

text \<open>
  Shared vocabulary of the development: machine integers and byte strings, Rust's
  \<^verbatim>\<open>Result\<close> with a third outcome for panics, big-endian integer encodings, and the
  facts about them that the component theories use.
\<close>

section \<open>Machine integers and byte strings\<close>

type_synonym u8 = "8 word"
type_synonym u16 = "16 word"
type_synonym u32 = "32 word"
type_synonym u64 = "64 word"
type_synonym bytes = "8 word list"

named_theorems res_simps \<open>case analysis of Rust results\<close>
named_theorems be_simps \<open>big-endian encodings and their inverses\<close>

section \<open>Rust results\<close>

text \<open>
  \<open>Ok\<close> and \<open>Err\<close> are the constructors of \<^verbatim>\<open>std::result::Result\<close>; \<open>Panic\<close> is a thread that
  panicked (a failed \<^verbatim>\<open>expect\<close>, an out-of-range slice, checked arithmetic that overflowed).
  \<open>and_then\<close> is the propagation that the \<^verbatim>\<open>?\<close> operator performs.
\<close>

datatype ('e, 'a) result = Ok 'a | Err 'e | Panic

primrec and_then :: "('e, 'a) result \<Rightarrow> ('a \<Rightarrow> ('e, 'b) result) \<Rightarrow> ('e, 'b) result" where
  "and_then (Ok x) f = f x"
| "and_then (Err e) f = Err e"
| "and_then Panic f = Panic"

primrec map_err :: "('e \<Rightarrow> 'f) \<Rightarrow> ('e, 'a) result \<Rightarrow> ('f, 'a) result" where
  "map_err g (Ok x) = Ok x"
| "map_err g (Err e) = Err (g e)"
| "map_err g Panic = Panic"

definition expect :: "'a option \<Rightarrow> ('e, 'a) result" where
  "expect x = (case x of None \<Rightarrow> Panic | Some v \<Rightarrow> Ok v)"

definition unwrap_or :: "'a \<Rightarrow> 'a option \<Rightarrow> 'a" where
  "unwrap_or d x = (case x of None \<Rightarrow> d | Some v \<Rightarrow> v)"

primrec is_ok :: "('e, 'a) result \<Rightarrow> bool" where
  "is_ok (Ok x) = True"
| "is_ok (Err e) = False"
| "is_ok Panic = False"

lemma unwrap_or_simps [simp]:
  "unwrap_or d None = d" "unwrap_or d (Some v) = v"
  by (simp_all add: unwrap_or_def)

lemma expect_simps [simp]:
  "expect None = Panic" "expect (Some v) = Ok v"
  by (simp_all add: expect_def)

lemma and_then_eq_Ok [res_simps]:
  "and_then m f = Ok y \<longleftrightarrow> (\<exists>x. m = Ok x \<and> f x = Ok y)"
  by (cases m) auto

lemma and_then_eq_Err [res_simps]:
  "and_then m f = Err e \<longleftrightarrow> m = Err e \<or> (\<exists>x. m = Ok x \<and> f x = Err e)"
  by (cases m) auto

lemma and_then_eq_Panic [res_simps]:
  "and_then m f = Panic \<longleftrightarrow> m = Panic \<or> (\<exists>x. m = Ok x \<and> f x = Panic)"
  by (cases m) auto

lemma and_then_assoc:
  "and_then (and_then m f) g = and_then m (\<lambda>x. and_then (f x) g)"
  by (cases m) auto

lemma and_then_not_Panic:
  assumes "m \<noteq> Panic" and "\<And>x. m = Ok x \<Longrightarrow> f x \<noteq> Panic"
  shows "and_then m f \<noteq> Panic"
  using assms by (cases m) auto

lemma expect_eq_Panic [res_simps]: "expect x = Panic \<longleftrightarrow> x = None"
  by (cases x) auto

lemma expect_eq_Ok [res_simps]: "expect x = Ok v \<longleftrightarrow> x = Some v"
  by (cases x) auto

lemma expect_neq_Err [res_simps]: "expect x \<noteq> Err e"
  by (cases x) auto

section \<open>Big-endian integers\<close>

text \<open>
  \<open>be_bytes k n\<close> is the \<open>k\<close>-byte big-endian encoding of \<open>n\<close> (the low \<open>8 * k\<close> bits, as
  \<^verbatim>\<open>to_be_bytes\<close> of an integer cast to that width); \<open>from_be\<close> reads one back.
\<close>

fun be_bytes :: "nat \<Rightarrow> nat \<Rightarrow> bytes" where
  "be_bytes 0 n = []"
| "be_bytes (Suc k) n = be_bytes k (n div 256) @ [word_of_nat n]"

definition from_be :: "bytes \<Rightarrow> nat" where
  "from_be bs = foldl (\<lambda>acc b. acc * 256 + unat b) 0 bs"

definition u16_to_be :: "u16 \<Rightarrow> bytes" where
  "u16_to_be w = be_bytes 2 (unat w)"

definition u32_to_be :: "u32 \<Rightarrow> bytes" where
  "u32_to_be w = be_bytes 4 (unat w)"

definition u64_to_be :: "u64 \<Rightarrow> bytes" where
  "u64_to_be w = be_bytes 8 (unat w)"

definition u16_from_be :: "bytes \<Rightarrow> u16" where
  "u16_from_be bs = word_of_nat (from_be bs)"

definition u32_from_be :: "bytes \<Rightarrow> u32" where
  "u32_from_be bs = word_of_nat (from_be bs)"

definition u64_from_be :: "bytes \<Rightarrow> u64" where
  "u64_from_be bs = word_of_nat (from_be bs)"

lemma length_be_bytes [simp]: "length (be_bytes k n) = k"
  by (induction k n rule: be_bytes.induct) auto

lemma from_be_Nil [simp]: "from_be [] = 0"
  by (simp add: from_be_def)

lemma from_be_snoc [simp]: "from_be (bs @ [b]) = from_be bs * 256 + unat b"
  by (simp add: from_be_def)

lemma from_be_single [simp]: "from_be [b] = unat b"
  using from_be_snoc [of "[]" b] by simp

lemma unat_less_2p: "unat (w :: 'n :: len word) < 2 ^ LENGTH('n)"
  by (rule unsigned_less)

lemma unat_byte: "unat (word_of_nat n :: u8) = n mod 256"
  by (simp add: unat_of_nat)

lemma from_be_bytes: "from_be (be_bytes k n) = n mod 256 ^ k"
proof (induction k n rule: be_bytes.induct)
  case (2 k n)
  have "n mod (256 * 256 ^ k) = 256 * (n div 256 mod 256 ^ k) + n mod 256"
    by (rule mod_mult2_eq)
  with 2 show ?case by (simp add: unat_byte)
qed simp

lemma from_be_bound: "from_be bs < 256 ^ length bs"
proof (induction bs rule: rev_induct)
  case (snoc b bs)
  have "unat b < 256" using unat_less_2p [of b] by simp
  moreover have "from_be bs * 256 + 256 \<le> 256 ^ length bs * 256"
    using snoc.IH by (metis Suc_leI add.commute mult_Suc mult_le_mono1)
  ultimately show ?case by (simp add: mult.commute)
qed simp

lemma be_bytes_from_be: "be_bytes (length bs) (from_be bs) = bs"
proof (induction bs rule: rev_induct)
  case (snoc b bs)
  have b: "unat b < 256" using unat_less_2p [of b] by simp
  then have "(from_be bs * 256 + unat b) div 256 = from_be bs" by simp
  moreover have "unat (word_of_nat (from_be bs * 256 + unat b) :: u8) = unat b"
    using b by (simp only: unat_byte) simp
  then have "word_of_nat (from_be bs * 256 + unat b) = b"
    by (rule word_unat_eq_iff [THEN iffD2])
  ultimately show ?case using snoc.IH by simp
qed simp

lemma length_u_to_be [simp]:
  "length (u16_to_be w) = 2" "length (u32_to_be v) = 4" "length (u64_to_be x) = 8"
  by (simp_all add: u16_to_be_def u32_to_be_def u64_to_be_def)

lemma u16_from_to_be [be_simps]: "u16_from_be (u16_to_be w) = w"
  using unat_less_2p [of w] by (simp add: u16_from_be_def u16_to_be_def from_be_bytes)

lemma u32_from_to_be [be_simps]: "u32_from_be (u32_to_be w) = w"
  using unat_less_2p [of w] by (simp add: u32_from_be_def u32_to_be_def from_be_bytes)

lemma u64_from_to_be [be_simps]: "u64_from_be (u64_to_be w) = w"
  using unat_less_2p [of w] by (simp add: u64_from_be_def u64_to_be_def from_be_bytes)

lemma u16_to_from_be: "length bs = 2 \<Longrightarrow> u16_to_be (u16_from_be bs) = bs"
  using from_be_bound [of bs] be_bytes_from_be [of bs]
  by (simp add: u16_from_be_def u16_to_be_def unat_of_nat)

lemma u32_to_from_be: "length bs = 4 \<Longrightarrow> u32_to_be (u32_from_be bs) = bs"
  using from_be_bound [of bs] be_bytes_from_be [of bs]
  by (simp add: u32_from_be_def u32_to_be_def unat_of_nat)

lemma u64_to_from_be: "length bs = 8 \<Longrightarrow> u64_to_be (u64_from_be bs) = bs"
  using from_be_bound [of bs] be_bytes_from_be [of bs]
  by (simp add: u64_from_be_def u64_to_be_def unat_of_nat)

section \<open>Reading from a buffer\<close>

text \<open>
  The readers of \<^verbatim>\<open>bytes::Buf\<close> and \<^verbatim>\<open>BytesMut::split_to\<close>: each takes bytes off the front and
  panics when too few are left. \<open>usize_sub\<close> is subtraction of lengths, which panics below zero.
\<close>

definition get_u8 :: "bytes \<Rightarrow> ('e, u8 \<times> bytes) result" where
  "get_u8 bs = (case bs of [] \<Rightarrow> Panic | b # r \<Rightarrow> Ok (b, r))"

definition get_u16 :: "bytes \<Rightarrow> ('e, u16 \<times> bytes) result" where
  "get_u16 bs = (if length bs < 2 then Panic else Ok (u16_from_be (take 2 bs), drop 2 bs))"

definition get_u32 :: "bytes \<Rightarrow> ('e, u32 \<times> bytes) result" where
  "get_u32 bs = (if length bs < 4 then Panic else Ok (u32_from_be (take 4 bs), drop 4 bs))"

definition get_u64 :: "bytes \<Rightarrow> ('e, u64 \<times> bytes) result" where
  "get_u64 bs = (if length bs < 8 then Panic else Ok (u64_from_be (take 8 bs), drop 8 bs))"

definition split_to :: "nat \<Rightarrow> bytes \<Rightarrow> ('e, bytes \<times> bytes) result" where
  "split_to n bs = (if length bs < n then Panic else Ok (take n bs, drop n bs))"

definition usize_sub :: "nat \<Rightarrow> nat \<Rightarrow> ('e, nat) result" where
  "usize_sub a b = (if b \<le> a then Ok (a - b) else Panic)"

lemma get_u8_Cons [simp]: "get_u8 (b # r) = Ok (b, r)"
  by (simp add: get_u8_def)

lemma get_u16_append [simp]: "get_u16 (u16_to_be w @ r) = Ok (w, r)"
  by (simp add: get_u16_def be_simps)

lemma get_u32_append [simp]: "get_u32 (u32_to_be w @ r) = Ok (w, r)"
  by (simp add: get_u32_def be_simps)

lemma get_u64_append [simp]: "get_u64 (u64_to_be w @ r) = Ok (w, r)"
  by (simp add: get_u64_def be_simps)

lemma split_to_append [simp]: "length xs = n \<Longrightarrow> split_to n (xs @ r) = Ok (xs, r)"
  by (simp add: split_to_def)

section \<open>Text\<close>

text \<open>Decimal text of a number, for the values that error messages interpolate.\<close>

fun show_nat :: "nat \<Rightarrow> string" where
  "show_nat n = (if n < 10 then [char_of (48 + n)] else show_nat (n div 10) @ [char_of (48 + n mod 10)])"

declare show_nat.simps [simp del]

text \<open>A character of a \<open>string\<close> is one byte of UTF-8 text.\<close>

definition as_bytes :: "string \<Rightarrow> bytes" where
  "as_bytes s = map (\<lambda>c. word_of_nat (of_char c)) s"

definition from_utf8 :: "bytes \<Rightarrow> string" where
  "from_utf8 bs = map (\<lambda>b. char_of (unat b)) bs"

lemma length_as_bytes [simp]: "length (as_bytes s) = length s"
  by (simp add: as_bytes_def)

lemma from_utf8_as_bytes [simp]: "from_utf8 (as_bytes s) = s"
  by (induction s) (simp_all add: as_bytes_def from_utf8_def unat_of_nat)

section \<open>Lists\<close>

lemma take_append_exact [simp]: "length xs = n \<Longrightarrow> take n (xs @ ys) = xs"
  by simp

lemma drop_append_exact [simp]: "length xs = n \<Longrightarrow> drop n (xs @ ys) = ys"
  by simp

lemma list_eq_length_one: "length xs = 1 \<Longrightarrow> [hd xs] = xs"
  by (cases xs) auto

text \<open>
  A slice write \<^verbatim>\<open>buf[i..i + n].copy_from_slice(xs)\<close> and an in-range write \<^verbatim>\<open>buf[i] = x\<close>: the
  callers below establish the range first, otherwise the write panics.
\<close>

definition write_slice :: "'a list \<Rightarrow> nat \<Rightarrow> 'a list \<Rightarrow> 'a list" where
  "write_slice buf i xs = take i buf @ xs @ drop (i + length xs) buf"

lemma length_write_slice [simp]:
  "i + length xs \<le> length buf \<Longrightarrow> length (write_slice buf i xs) = length buf"
  by (simp add: write_slice_def)

lemma take_write_slice:
  "i + length xs \<le> length buf \<Longrightarrow> take (i + length xs) (write_slice buf i xs) = take i buf @ xs"
  by (simp add: write_slice_def)


lemma write_slice_Nil [simp]: "write_slice buf i [] = buf"
  by (simp add: write_slice_def)


text \<open>A range-checked slice write.\<close>

definition write_at :: "bytes \<Rightarrow> nat \<Rightarrow> bytes \<Rightarrow> ('e, bytes) result" where
  "write_at buf i xs = (if i + length xs \<le> length buf then Ok (write_slice buf i xs) else Panic)"

lemma write_at_append [simp]:
  assumes "length pre = i" and "length ys = length xs"
  shows "write_at (pre @ ys @ rest) i xs = Ok (pre @ xs @ rest)"
  using assms by (simp add: write_at_def write_slice_def)

end
