(* ===== verification/Memdx_Codes.thy ===== *)
theory Memdx_Codes
  imports Prelude
begin

text \<open>
  The enumerations of the memcached binary protocol and their wire values, from
  \<^verbatim>\<open>memdx/opcode.rs\<close>, \<^verbatim>\<open>status.rs\<close>, \<^verbatim>\<open>datatype.rs\<close>, \<^verbatim>\<open>ext_frame_code.rs\<close>, \<^verbatim>\<open>hello_feature.rs\<close>,
  \<^verbatim>\<open>durability_level.rs\<close> and \<^verbatim>\<open>magic.rs\<close>. Constructors keep the source's names and are written
  with the type in front (\<^verbatim>\<open>Status.Success\<close>) as in the code. Each pair of conversions comes with
  the facts about how far it is a round trip.
\<close>

section \<open>Magic bytes\<close>

datatype Magic = Req | Res | ReqExt | ResExt | ServerReq | ServerRes

primrec magic_is_extended :: "Magic \<Rightarrow> bool" where
    "magic_is_extended Magic.Req = False"
  | "magic_is_extended Magic.Res = False"
  | "magic_is_extended Magic.ReqExt = True"
  | "magic_is_extended Magic.ResExt = True"
  | "magic_is_extended Magic.ServerReq = False"
  | "magic_is_extended Magic.ServerRes = False"

definition magic_is_request :: "Magic \<Rightarrow> bool" where
  "magic_is_request m \<longleftrightarrow> m = Magic.Req \<or> m = Magic.ReqExt"

definition magic_is_response :: "Magic \<Rightarrow> bool" where
  "magic_is_response m \<longleftrightarrow> m = Magic.Res \<or> m = Magic.ResExt"

primrec magic_to_u8 :: "Magic \<Rightarrow> u8" where
    "magic_to_u8 Magic.Req = 0x80"
  | "magic_to_u8 Magic.Res = 0x81"
  | "magic_to_u8 Magic.ReqExt = 0x08"
  | "magic_to_u8 Magic.ResExt = 0x18"
  | "magic_to_u8 Magic.ServerReq = 0x82"
  | "magic_to_u8 Magic.ServerRes = 0x83"

section \<open>Operation codes\<close>

datatype OpCode =
    Get
  | Set
  | Add
  | Replace
  | Delete
  | Increment
  | Decrement
  | Noop
  | Touch
  | GAT
  | Append
  | Prepend
  | Hello
  | GetClusterConfig
  | GetCollectionId
  | SubDocGet
  | SubDocExists
  | SubDocDictAdd
  | SubDocDictSet
  | SubDocDelete
  | SubDocReplace
  | SubDocArrayPushLast
  | SubDocArrayPushFirst
  | SubDocArrayInsert
  | SubDocArrayAddUnique
  | SubDocCounter
  | SubDocMultiLookup
  | SubDocMultiMutation
  | SubDocGetCount
  | SubDocReplaceBodyWithXattr
  | GetErrorMap
  | SelectBucket
  | GetLocked
  | UnlockKey
  | GetMeta
  | SASLAuth
  | SASLListMechs
  | SASLStep
  | Unknown u8

primrec opcode_to_u8 :: "OpCode \<Rightarrow> u8" where
    "opcode_to_u8 OpCode.Get = 0x00"
  | "opcode_to_u8 OpCode.Set = 0x01"
  | "opcode_to_u8 OpCode.Add = 0x02"
  | "opcode_to_u8 OpCode.Replace = 0x03"
  | "opcode_to_u8 OpCode.Delete = 0x04"
  | "opcode_to_u8 OpCode.Increment = 0x05"
  | "opcode_to_u8 OpCode.Decrement = 0x06"
  | "opcode_to_u8 OpCode.Noop = 0x0a"
  | "opcode_to_u8 OpCode.Append = 0x0e"
  | "opcode_to_u8 OpCode.Prepend = 0x0f"
  | "opcode_to_u8 OpCode.Touch = 0x1c"
  | "opcode_to_u8 OpCode.GAT = 0x1d"
  | "opcode_to_u8 OpCode.Hello = 0x1f"
  | "opcode_to_u8 OpCode.SASLListMechs = 0x20"
  | "opcode_to_u8 OpCode.SASLAuth = 0x21"
  | "opcode_to_u8 OpCode.SASLStep = 0x22"
  | "opcode_to_u8 OpCode.SelectBucket = 0x89"
  | "opcode_to_u8 OpCode.GetLocked = 0x94"
  | "opcode_to_u8 OpCode.UnlockKey = 0x95"
  | "opcode_to_u8 OpCode.GetMeta = 0xa0"
  | "opcode_to_u8 OpCode.GetClusterConfig = 0xb5"
  | "opcode_to_u8 OpCode.GetCollectionId = 0xbb"
  | "opcode_to_u8 OpCode.SubDocGet = 0xc5"
  | "opcode_to_u8 OpCode.SubDocExists = 0xc6"
  | "opcode_to_u8 OpCode.SubDocDictAdd = 0xc7"
  | "opcode_to_u8 OpCode.SubDocDictSet = 0xc8"
  | "opcode_to_u8 OpCode.SubDocDelete = 0xc9"
  | "opcode_to_u8 OpCode.SubDocReplace = 0xca"
  | "opcode_to_u8 OpCode.SubDocArrayPushLast = 0xcb"
  | "opcode_to_u8 OpCode.SubDocArrayPushFirst = 0xcc"
  | "opcode_to_u8 OpCode.SubDocArrayInsert = 0xcd"
  | "opcode_to_u8 OpCode.SubDocArrayAddUnique = 0xce"
  | "opcode_to_u8 OpCode.SubDocCounter = 0xcf"
  | "opcode_to_u8 OpCode.SubDocMultiLookup = 0xd0"
  | "opcode_to_u8 OpCode.SubDocMultiMutation = 0xd1"
  | "opcode_to_u8 OpCode.SubDocGetCount = 0xd2"
  | "opcode_to_u8 OpCode.SubDocReplaceBodyWithXattr = 0xd3"
  | "opcode_to_u8 OpCode.GetErrorMap = 0xfe"
  | "opcode_to_u8 (OpCode.Unknown code) = code"

definition opcode_from_u8 :: "u8 \<Rightarrow> OpCode" where
  "opcode_from_u8 v =
    (if v = 0x00 then OpCode.Get
     else if v = 0x01 then OpCode.Set
     else if v = 0x02 then OpCode.Add
     else if v = 0x03 then OpCode.Replace
     else if v = 0x04 then OpCode.Delete
     else if v = 0x05 then OpCode.Increment
     else if v = 0x06 then OpCode.Decrement
     else if v = 0x0a then OpCode.Noop
     else if v = 0x0e then OpCode.Append
     else if v = 0x0f then OpCode.Prepend
     else if v = 0x1c then OpCode.Touch
     else if v = 0x1d then OpCode.GAT
     else if v = 0x1f then OpCode.Hello
     else if v = 0x20 then OpCode.SASLListMechs
     else if v = 0x21 then OpCode.SASLAuth
     else if v = 0x22 then OpCode.SASLStep
     else if v = 0x89 then OpCode.SelectBucket
     else if v = 0x94 then OpCode.GetLocked
     else if v = 0x95 then OpCode.UnlockKey
     else if v = 0xb5 then OpCode.GetClusterConfig
     else if v = 0xbb then OpCode.GetCollectionId
     else if v = 0xc5 then OpCode.SubDocGet
     else if v = 0xc6 then OpCode.SubDocExists
     else if v = 0xc7 then OpCode.SubDocDictAdd
     else if v = 0xc8 then OpCode.SubDocDictSet
     else if v = 0xc9 then OpCode.SubDocDelete
     else if v = 0xca then OpCode.SubDocReplace
     else if v = 0xcb then OpCode.SubDocArrayPushLast
     else if v = 0xcc then OpCode.SubDocArrayPushFirst
     else if v = 0xcd then OpCode.SubDocArrayInsert
     else if v = 0xce then OpCode.SubDocArrayAddUnique
     else if v = 0xcf then OpCode.SubDocCounter
     else if v = 0xd0 then OpCode.SubDocMultiLookup
     else if v = 0xd1 then OpCode.SubDocMultiMutation
     else if v = 0xd2 then OpCode.SubDocGetCount
     else if v = 0xd3 then OpCode.SubDocReplaceBodyWithXattr
     else if v = 0xfe then OpCode.GetErrorMap
     else OpCode.Unknown v)"

section \<open>Status codes\<close>

datatype Status =
    Success
  | KeyNotFound
  | KeyExists
  | TooBig
  | InvalidArgs
  | NotStored
  | BadDelta
  | NotMyVbucket
  | NoBucket
  | Locked
  | OpaqueNoMatch
  | WouldThrottle
  | ConfigOnly
  | NotLocked
  | AuthStale
  | AuthError
  | AuthContinue
  | RangeError
  | AccessError
  | NotInitialized
  | RateLimitedNetworkIngress
  | RateLimitedNetworkEgress
  | RateLimitedMaxConnections
  | RateLimitedMaxCommands
  | RateLimitedScopeSizeLimitExceeded
  | CommandUnknown
  | OutOfMemory
  | NotSupported
  | InternalError
  | Busy
  | TmpFail
  | CollectionUnknown
  | ScopeUnknown
  | DurabilityInvalidLevel
  | DurabilityImpossible
  | SyncWriteInProgress
  | SyncWriteAmbiguous
  | SyncWriteRecommitInProgress
  | RangeScanCancelled
  | RangeScanMore
  | RangeScanComplete
  | RangeScanVBUUIDNotEqual
  | SubDocPathNotFound
  | SubDocPathMismatch
  | SubDocPathInvalid
  | SubDocPathTooBig
  | SubDocDocTooDeep
  | SubDocCantInsert
  | SubDocNotJSON
  | SubDocBadRange
  | SubDocBadDelta
  | SubDocPathExists
  | SubDocValueTooDeep
  | SubDocInvalidCombo
  | SubDocMultiPathFailure
  | SubDocSuccessDeleted
  | SubDocXattrInvalidFlagCombo
  | SubDocXattrInvalidKeyCombo
  | SubDocXattrUnknownMacro
  | SubDocXattrUnknownVAttr
  | SubDocXattrCannotModifyVAttr
  | SubDocMultiPathFailureDeleted
  | SubDocInvalidXattrOrder
  | SubDocXattrUnknownVattrMacro
  | SubDocCanOnlyReviveDeletedDocuments
  | SubDocDeletedDocumentCantHaveValue
  | Unknown u16

primrec status_to_u16 :: "Status \<Rightarrow> u16" where
    "status_to_u16 Status.Success = 0x00"
  | "status_to_u16 Status.KeyNotFound = 0x01"
  | "status_to_u16 Status.KeyExists = 0x02"
  | "status_to_u16 Status.TooBig = 0x03"
  | "status_to_u16 Status.InvalidArgs = 0x04"
  | "status_to_u16 Status.NotStored = 0x05"
  | "status_to_u16 Status.BadDelta = 0x06"
  | "status_to_u16 Status.NotMyVbucket = 0x07"
  | "status_to_u16 Status.NoBucket = 0x08"
  | "status_to_u16 Status.Locked = 0x09"
  | "status_to_u16 Status.OpaqueNoMatch = 0x0b"
  | "status_to_u16 Status.WouldThrottle = 0x0c"
  | "status_to_u16 Status.ConfigOnly = 0x0d"
  | "status_to_u16 Status.NotLocked = 0x0e"
  | "status_to_u16 Status.AuthStale = 0x1f"
  | "status_to_u16 Status.AuthError = 0x20"
  | "status_to_u16 Status.AuthContinue = 0x21"
  | "status_to_u16 Status.RangeError = 0x22"
  | "status_to_u16 Status.AccessError = 0x24"
  | "status_to_u16 Status.NotInitialized = 0x25"
  | "status_to_u16 Status.RateLimitedNetworkIngress = 0x30"
  | "status_to_u16 Status.RateLimitedNetworkEgress = 0x31"
  | "status_to_u16 Status.RateLimitedMaxConnections = 0x32"
  | "status_to_u16 Status.RateLimitedMaxCommands = 0x33"
  | "status_to_u16 Status.RateLimitedScopeSizeLimitExceeded = 0x34"
  | "status_to_u16 Status.CommandUnknown = 0x81"
  | "status_to_u16 Status.OutOfMemory = 0x82"
  | "status_to_u16 Status.NotSupported = 0x83"
  | "status_to_u16 Status.InternalError = 0x84"
  | "status_to_u16 Status.Busy = 0x85"
  | "status_to_u16 Status.TmpFail = 0x86"
  | "status_to_u16 Status.CollectionUnknown = 0x88"
  | "status_to_u16 Status.ScopeUnknown = 0x8c"
  | "status_to_u16 Status.DurabilityInvalidLevel = 0xa0"
  | "status_to_u16 Status.DurabilityImpossible = 0xa1"
  | "status_to_u16 Status.SyncWriteInProgress = 0xa2"
  | "status_to_u16 Status.SyncWriteAmbiguous = 0xa3"
  | "status_to_u16 Status.SyncWriteRecommitInProgress = 0xa4"
  | "status_to_u16 Status.RangeScanCancelled = 0xa5"
  | "status_to_u16 Status.RangeScanMore = 0xa6"
  | "status_to_u16 Status.RangeScanComplete = 0xa7"
  | "status_to_u16 Status.RangeScanVBUUIDNotEqual = 0xa8"
  | "status_to_u16 Status.SubDocPathNotFound = 0xc0"
  | "status_to_u16 Status.SubDocPathMismatch = 0xc1"
  | "status_to_u16 Status.SubDocPathInvalid = 0xc2"
  | "status_to_u16 Status.SubDocPathTooBig = 0xc3"
  | "status_to_u16 Status.SubDocDocTooDeep = 0xc4"
  | "status_to_u16 Status.SubDocCantInsert = 0xc5"
  | "status_to_u16 Status.SubDocNotJSON = 0xc6"
  | "status_to_u16 Status.SubDocBadRange = 0xc7"
  | "status_to_u16 Status.SubDocBadDelta = 0xc8"
  | "status_to_u16 Status.SubDocPathExists = 0xc9"
  | "status_to_u16 Status.SubDocValueTooDeep = 0xca"
  | "status_to_u16 Status.SubDocInvalidCombo = 0xcb"
  | "status_to_u16 Status.SubDocMultiPathFailure = 0xcc"
  | "status_to_u16 Status.SubDocSuccessDeleted = 0xcd"
  | "status_to_u16 Status.SubDocXattrInvalidFlagCombo = 0xce"
  | "status_to_u16 Status.SubDocXattrInvalidKeyCombo = 0xcf"
  | "status_to_u16 Status.SubDocXattrUnknownMacro = 0xd0"
  | "status_to_u16 Status.SubDocXattrUnknownVAttr = 0xd1"
  | "status_to_u16 Status.SubDocXattrCannotModifyVAttr = 0xd2"
  | "status_to_u16 Status.SubDocMultiPathFailureDeleted = 0xd3"
  | "status_to_u16 Status.SubDocInvalidXattrOrder = 0xd4"
  | "status_to_u16 Status.SubDocXattrUnknownVattrMacro = 0xd5"
  | "status_to_u16 Status.SubDocCanOnlyReviveDeletedDocuments = 0xd6"
  | "status_to_u16 Status.SubDocDeletedDocumentCantHaveValue = 0xd7"
  | "status_to_u16 (Status.Unknown code) = code"

definition status_from_u16 :: "u16 \<Rightarrow> Status" where
  "status_from_u16 v =
    (if v = 0x00 then Status.Success
     else if v = 0x01 then Status.KeyNotFound
     else if v = 0x02 then Status.KeyExists
     else if v = 0x03 then Status.TooBig
     else if v = 0x04 then Status.InvalidArgs
     else if v = 0x05 then Status.NotStored
     else if v = 0x06 then Status.BadDelta
     else if v = 0x07 then Status.NotMyVbucket
     else if v = 0x08 then Status.NoBucket
     else if v = 0x09 then Status.Locked
     else if v = 0x0b then Status.OpaqueNoMatch
     else if v = 0x0c then Status.WouldThrottle
     else if v = 0x0d then Status.ConfigOnly
     else if v = 0x0e then Status.NotLocked
     else if v = 0x1f then Status.AuthStale
     else if v = 0x20 then Status.AuthError
     else if v = 0x21 then Status.AuthContinue
     else if v = 0x22 then Status.RangeError
     else if v = 0x24 then Status.AccessError
     else if v = 0x25 then Status.NotInitialized
     else if v = 0x30 then Status.RateLimitedNetworkIngress
     else if v = 0x31 then Status.RateLimitedNetworkEgress
     else if v = 0x32 then Status.RateLimitedMaxConnections
     else if v = 0x33 then Status.RateLimitedMaxCommands
     else if v = 0x34 then Status.RateLimitedScopeSizeLimitExceeded
     else if v = 0x81 then Status.CommandUnknown
     else if v = 0x82 then Status.OutOfMemory
     else if v = 0x83 then Status.NotSupported
     else if v = 0x84 then Status.InternalError
     else if v = 0x85 then Status.Busy
     else if v = 0x86 then Status.TmpFail
     else if v = 0x88 then Status.CollectionUnknown
     else if v = 0x8c then Status.ScopeUnknown
     else if v = 0xa0 then Status.DurabilityInvalidLevel
     else if v = 0xa1 then Status.DurabilityImpossible
     else if v = 0xa2 then Status.SyncWriteInProgress
     else if v = 0xa3 then Status.SyncWriteAmbiguous
     else if v = 0xa4 then Status.SyncWriteRecommitInProgress
     else if v = 0xa5 then Status.RangeScanCancelled
     else if v = 0xa6 then Status.RangeScanMore
     else if v = 0xa7 then Status.RangeScanComplete
     else if v = 0xa8 then Status.RangeScanVBUUIDNotEqual
     else if v = 0xc0 then Status.SubDocPathNotFound
     else if v = 0xc1 then Status.SubDocPathMismatch
     else if v = 0xc2 then Status.SubDocPathInvalid
     else if v = 0xc3 then Status.SubDocPathTooBig
     else if v = 0xc4 then Status.SubDocDocTooDeep
     else if v = 0xc5 then Status.SubDocCantInsert
     else if v = 0xc6 then Status.SubDocNotJSON
     else if v = 0xc7 then Status.SubDocBadRange
     else if v = 0xc8 then Status.SubDocBadDelta
     else if v = 0xc9 then Status.SubDocPathExists
     else if v = 0xca then Status.SubDocValueTooDeep
     else if v = 0xcb then Status.SubDocInvalidCombo
     else if v = 0xcc then Status.SubDocMultiPathFailure
     else if v = 0xcd then Status.SubDocSuccessDeleted
     else if v = 0xce then Status.SubDocXattrInvalidFlagCombo
     else if v = 0xcf then Status.SubDocXattrInvalidKeyCombo
     else if v = 0xd0 then Status.SubDocXattrUnknownMacro
     else if v = 0xd1 then Status.SubDocXattrUnknownVAttr
     else if v = 0xd2 then Status.SubDocXattrCannotModifyVAttr
     else if v = 0xd3 then Status.SubDocMultiPathFailureDeleted
     else if v = 0xd4 then Status.SubDocInvalidXattrOrder
     else if v = 0xd5 then Status.SubDocXattrUnknownVattrMacro
     else if v = 0xd6 then Status.SubDocCanOnlyReviveDeletedDocuments
     else if v = 0xd7 then Status.SubDocDeletedDocumentCantHaveValue
     else Status.Unknown v)"

section \<open>HELLO features\<close>

datatype HelloFeature =
    DataType
  | Tls
  | TCPNoDelay
  | SeqNo
  | TCPDelay
  | Xattr
  | Xerror
  | SelectBucket
  | Snappy
  | SnappyEverywhere
  | Json
  | Duplex
  | ClusterMapNotif
  | UnorderedExec
  | Durations
  | AltRequests
  | SyncReplication
  | Collections
  | PreserveExpiry
  | PointInTimeRecovery
  | CreateAsDeleted
  | ReplaceBodyWithXattr
  | ClusterMapKnownVersion
  | DedupeNotMyVbucketClustermap
  | ClusterMapChangeNotificationBrief
  | Unknown u16

primrec hello_feature_to_u16 :: "HelloFeature \<Rightarrow> u16" where
    "hello_feature_to_u16 HelloFeature.DataType = 0x01"
  | "hello_feature_to_u16 HelloFeature.Tls = 0x02"
  | "hello_feature_to_u16 HelloFeature.TCPNoDelay = 0x03"
  | "hello_feature_to_u16 HelloFeature.SeqNo = 0x04"
  | "hello_feature_to_u16 HelloFeature.TCPDelay = 0x05"
  | "hello_feature_to_u16 HelloFeature.Xattr = 0x06"
  | "hello_feature_to_u16 HelloFeature.Xerror = 0x07"
  | "hello_feature_to_u16 HelloFeature.SelectBucket = 0x08"
  | "hello_feature_to_u16 HelloFeature.Snappy = 0x0a"
  | "hello_feature_to_u16 HelloFeature.Json = 0x0b"
  | "hello_feature_to_u16 HelloFeature.Duplex = 0x0c"
  | "hello_feature_to_u16 HelloFeature.ClusterMapNotif = 0x0d"
  | "hello_feature_to_u16 HelloFeature.UnorderedExec = 0x0e"
  | "hello_feature_to_u16 HelloFeature.Durations = 0x0f"
  | "hello_feature_to_u16 HelloFeature.AltRequests = 0x10"
  | "hello_feature_to_u16 HelloFeature.SyncReplication = 0x11"
  | "hello_feature_to_u16 HelloFeature.Collections = 0x12"
  | "hello_feature_to_u16 HelloFeature.SnappyEverywhere = 0x13"
  | "hello_feature_to_u16 HelloFeature.PreserveExpiry = 0x14"
  | "hello_feature_to_u16 HelloFeature.PointInTimeRecovery = 0x16"
  | "hello_feature_to_u16 HelloFeature.CreateAsDeleted = 0x17"
  | "hello_feature_to_u16 HelloFeature.ReplaceBodyWithXattr = 0x19"
  | "hello_feature_to_u16 HelloFeature.ClusterMapKnownVersion = 0x1d"
  | "hello_feature_to_u16 HelloFeature.DedupeNotMyVbucketClustermap = 0x1e"
  | "hello_feature_to_u16 HelloFeature.ClusterMapChangeNotificationBrief = 0x1f"
  | "hello_feature_to_u16 (HelloFeature.Unknown code) = code"

definition hello_feature_from_u16 :: "u16 \<Rightarrow> HelloFeature" where
  "hello_feature_from_u16 v =
    (if v = 0x01 then HelloFeature.DataType
     else if v = 0x02 then HelloFeature.Tls
     else if v = 0x03 then HelloFeature.TCPNoDelay
     else if v = 0x04 then HelloFeature.SeqNo
     else if v = 0x05 then HelloFeature.TCPDelay
     else if v = 0x06 then HelloFeature.Xattr
     else if v = 0x07 then HelloFeature.Xerror
     else if v = 0x08 then HelloFeature.SelectBucket
     else if v = 0x0a then HelloFeature.Snappy
     else if v = 0x0b then HelloFeature.Json
     else if v = 0x0c then HelloFeature.Duplex
     else if v = 0x0d then HelloFeature.ClusterMapNotif
     else if v = 0x0e then HelloFeature.UnorderedExec
     else if v = 0x0f then HelloFeature.Durations
     else if v = 0x10 then HelloFeature.AltRequests
     else if v = 0x11 then HelloFeature.SyncReplication
     else if v = 0x12 then HelloFeature.Collections
     else if v = 0x13 then HelloFeature.SnappyEverywhere
     else if v = 0x14 then HelloFeature.PreserveExpiry
     else if v = 0x16 then HelloFeature.PointInTimeRecovery
     else if v = 0x17 then HelloFeature.CreateAsDeleted
     else if v = 0x19 then HelloFeature.ReplaceBodyWithXattr
     else if v = 0x1d then HelloFeature.ClusterMapKnownVersion
     else if v = 0x1e then HelloFeature.DedupeNotMyVbucketClustermap
     else if v = 0x1f then HelloFeature.ClusterMapChangeNotificationBrief
     else HelloFeature.Unknown v)"

section \<open>Extended frame codes\<close>

datatype ExtReqFrameCode =
    Barrier
  | Durability
  | StreamID
  | OtelContext
  | OnBehalfOf
  | PreserveTTL
  | ExtraPerm
  | Unknown u16

primrec ext_req_frame_code_to_u16 :: "ExtReqFrameCode \<Rightarrow> u16" where
    "ext_req_frame_code_to_u16 ExtReqFrameCode.Barrier = 0x00"
  | "ext_req_frame_code_to_u16 ExtReqFrameCode.Durability = 0x01"
  | "ext_req_frame_code_to_u16 ExtReqFrameCode.StreamID = 0x02"
  | "ext_req_frame_code_to_u16 ExtReqFrameCode.OtelContext = 0x03"
  | "ext_req_frame_code_to_u16 ExtReqFrameCode.OnBehalfOf = 0x04"
  | "ext_req_frame_code_to_u16 ExtReqFrameCode.PreserveTTL = 0x05"
  | "ext_req_frame_code_to_u16 ExtReqFrameCode.ExtraPerm = 0x06"
  | "ext_req_frame_code_to_u16 (ExtReqFrameCode.Unknown code) = code"

datatype ExtResFrameCode =
    ServerDuration
  | ReadUnits
  | WriteUnits
  | ThrottleDuration
  | Unknown u16

primrec ext_res_frame_code_to_u16 :: "ExtResFrameCode \<Rightarrow> u16" where
    "ext_res_frame_code_to_u16 ExtResFrameCode.ServerDuration = 0x00"
  | "ext_res_frame_code_to_u16 ExtResFrameCode.ReadUnits = 0x01"
  | "ext_res_frame_code_to_u16 ExtResFrameCode.WriteUnits = 0x02"
  | "ext_res_frame_code_to_u16 ExtResFrameCode.ThrottleDuration = 0x03"
  | "ext_res_frame_code_to_u16 (ExtResFrameCode.Unknown code) = code"

definition ext_res_frame_code_from_u16 :: "u16 \<Rightarrow> ExtResFrameCode" where
  "ext_res_frame_code_from_u16 v =
    (if v = 0x00 then ExtResFrameCode.ServerDuration
     else if v = 0x01 then ExtResFrameCode.ReadUnits
     else if v = 0x02 then ExtResFrameCode.WriteUnits
     else if v = 0x03 then ExtResFrameCode.ThrottleDuration
     else ExtResFrameCode.Unknown v)"

section \<open>Data types and durability levels\<close>

datatype DataTypeFlag = None_flag | Json | Compressed | Xattrs

primrec datatype_flag_to_u8 :: "DataTypeFlag \<Rightarrow> u8" where
    "datatype_flag_to_u8 DataTypeFlag.None_flag = 0"
  | "datatype_flag_to_u8 DataTypeFlag.Json = 1"
  | "datatype_flag_to_u8 DataTypeFlag.Compressed = 2"
  | "datatype_flag_to_u8 DataTypeFlag.Xattrs = 4"

datatype DurabilityLevel = Majority | MajorityAndPersistActive | PersistToMajority | Other u8

primrec durability_level_to_u8 :: "DurabilityLevel \<Rightarrow> u8" where
    "durability_level_to_u8 DurabilityLevel.Majority = 1"
  | "durability_level_to_u8 DurabilityLevel.MajorityAndPersistActive = 2"
  | "durability_level_to_u8 DurabilityLevel.PersistToMajority = 3"
  | "durability_level_to_u8 (DurabilityLevel.Other v) = 0"

definition durability_level_from_u8 :: "u8 \<Rightarrow> DurabilityLevel" where
  "durability_level_from_u8 v =
    (if v = 1 then DurabilityLevel.Majority
     else if v = 2 then DurabilityLevel.MajorityAndPersistActive
     else if v = 3 then DurabilityLevel.PersistToMajority
     else DurabilityLevel.Other v)"

section \<open>Round trips\<close>

lemma magic_to_u8_inject: "magic_to_u8 a = magic_to_u8 b \<longleftrightarrow> a = b"
  by (cases a; cases b) simp_all

text \<open>Every byte decodes to an operation code that encodes back to the same byte.\<close>

lemma opcode_to_from_u8: "opcode_to_u8 (opcode_from_u8 v) = v"
  by (simp add: opcode_from_u8_def)

lemma status_to_from_u16: "status_to_u16 (status_from_u16 v) = v"
  by (simp add: status_from_u16_def)

lemma hello_feature_to_from_u16: "hello_feature_to_u16 (hello_feature_from_u16 v) = v"
  by (simp add: hello_feature_from_u16_def)

lemma ext_res_frame_code_to_from_u16:
  "ext_res_frame_code_to_u16 (ext_res_frame_code_from_u16 v) = v"
  by (simp add: ext_res_frame_code_from_u16_def)

text \<open>
  In the other direction an enumeration value survives the wire unless it is an
  \<open>Unknown\<close> value that names a known code.
\<close>

definition status_canonical :: "Status \<Rightarrow> bool" where
  "status_canonical s \<longleftrightarrow> (\<forall>v. s = Status.Unknown v \<longrightarrow> status_from_u16 v = s)"

lemma status_from_to_u16: "status_canonical s \<Longrightarrow> status_from_u16 (status_to_u16 s) = s"
  by (cases s) (simp_all add: status_canonical_def, simp_all add: status_from_u16_def)

lemma status_from_u16_inject: "status_from_u16 v = status_from_u16 w \<longleftrightarrow> v = w"
  by (metis status_to_from_u16)

lemma opcode_from_u8_inject: "opcode_from_u8 v = opcode_from_u8 w \<longleftrightarrow> v = w"
  by (metis opcode_to_from_u8)

definition hello_feature_canonical :: "HelloFeature \<Rightarrow> bool" where
  "hello_feature_canonical f \<longleftrightarrow>
    (\<forall>v. f = HelloFeature.Unknown v \<longrightarrow> hello_feature_from_u16 v = f)"

lemma hello_feature_from_to_u16:
  "hello_feature_canonical f \<Longrightarrow> hello_feature_from_u16 (hello_feature_to_u16 f) = f"
  by (cases f) (simp_all add: hello_feature_canonical_def, simp_all add: hello_feature_from_u16_def)

end
