(* ===== verification/Memdx_Error.thy ===== *)
theory Memdx_Error
  imports Memdx_Codes
begin

text \<open>
  The error values of the protocol layer (\<^verbatim>\<open>memdx/error.rs\<close>): error kinds with the source's
  constructors, the server error record with its optional config and context blobs, the chained
  source of an error, and the inspectors the layers above use.
\<close>

section \<open>Error data\<close>

datatype SubdocErrorKind =
    PathNotFound
  | PathMismatch
  | PathInvalid
  | PathTooBig
  | DocTooDeep
  | CantInsert
  | NotJSON
  | BadRange
  | BadDelta
  | PathExists
  | ValueTooDeep
  | InvalidCombo
  | XattrInvalidFlagCombo
  | XattrInvalidKeyCombo
  | XattrUnknownMacro
  | XattrUnknownVAttr
  | XattrCannotModifyVAttr
  | InvalidXattrOrder
  | XattrUnknownVattrMacro
  | CanOnlyReviveDeletedDocuments
  | DeletedDocumentCantHaveValue
  | UnknownStatus Status

datatype SubdocError = SubdocError (sde_kind: SubdocErrorKind) (sde_op_index: "u8 option")

datatype ServerErrorKind =
    KeyNotFound
  | KeyExists
  | TooBig
  | NotStored
  | BadDelta
  | NotMyVbucket
  | NoBucket
  | Locked
  | NotLocked
  | Auth string
  | RangeError
  | Access
  | RateLimitedNetworkIngress
  | RateLimitedNetworkEgress
  | RateLimitedMaxConnections
  | RateLimitedMaxCommands
  | RateLimitedScopeSizeLimitExceeded
  | UnknownCommand
  | NotSupported
  | InternalError
  | Busy
  | TmpFail
  | UnknownCollectionID
  | UnknownScopeName
  | UnknownCollectionName
  | DurabilityInvalid
  | DurabilityImpossible
  | SyncWriteInProgress
  | SyncWriteAmbiguous
  | SyncWriteRecommitInProgress
  | RangeScanCancelled
  | RangeScanVBUUIDNotEqual
  | InvalidArgs
  | AuthStale
  | ConfigNotSet
  | UnknownBucketName
  | CasMismatch
  | Subdoc SubdocError
  | UnknownStatus Status

record ServerError =
  se_kind :: ServerErrorKind
  se_config :: "bytes option"
  se_context :: "bytes option"
  se_op_code :: OpCode
  se_status :: Status
  se_opaque :: u32

record ResourceError =
  re_cause :: ServerError
  re_scope_name :: string
  re_collection_name :: string

datatype CancellationErrorKind = Timeout | RequestCancelled | ClosedInFlight

datatype ErrorKind =
    Server ServerError
  | Resource ResourceError
  | Dispatch u32 OpCode
  | Close string
  | Protocol string
  | Cancelled CancellationErrorKind
  | ConnectionFailed string
  | Io
  | InvalidArgument string "string option"
  | Decompression
  | Message string

text \<open>
  \<^verbatim>\<open>Box<dyn Error>\<close> of an error's \<open>source\<close>: the sources this layer attaches are a server error, one
  of its own errors, or an error of a library, kept as its text.
\<close>

datatype Error = Error (err_kind: ErrorKind) (err_source: "Source option")
and Source = SrcServer ServerError | SrcError Error | SrcLib string

section \<open>Constructors\<close>

definition new_protocol_error :: "string \<Rightarrow> Error" where
  "new_protocol_error msg = Error (ErrorKind.Protocol msg) None"

definition new_decompression_error :: Error where
  "new_decompression_error = Error ErrorKind.Decompression None"

definition new_message_error :: "string \<Rightarrow> Error" where
  "new_message_error msg = Error (ErrorKind.Message msg) None"

definition new_cancelled_error :: "CancellationErrorKind \<Rightarrow> Error" where
  "new_cancelled_error k = Error (ErrorKind.Cancelled k) None"

definition new_invalid_argument_error :: "string \<Rightarrow> string option \<Rightarrow> Error" where
  "new_invalid_argument_error msg arg = Error (ErrorKind.InvalidArgument msg arg) None"

definition new_connection_failed_error :: "string \<Rightarrow> Source \<Rightarrow> Error" where
  "new_connection_failed_error reason src = Error (ErrorKind.ConnectionFailed reason) (Some src)"

definition new_dispatch_error :: "u32 \<Rightarrow> OpCode \<Rightarrow> Error \<Rightarrow> Error" where
  "new_dispatch_error opaque op_code src =
    Error (ErrorKind.Dispatch opaque op_code) (Some (SrcError src))"

definition new_close_error :: "string \<Rightarrow> Error \<Rightarrow> Error" where
  "new_close_error msg src = Error (ErrorKind.Close msg) (Some (SrcError src))"

definition with_source :: "Source \<Rightarrow> Error \<Rightarrow> Error" where
  "with_source src e = Error (err_kind e) (Some src)"

definition server_error_new :: "ServerErrorKind \<Rightarrow> OpCode \<Rightarrow> Status \<Rightarrow> u32 \<Rightarrow> ServerError" where
  "server_error_new kind op_code status opaque =
    \<lparr>se_kind = kind, se_config = None, se_context = None,
     se_op_code = op_code, se_status = status, se_opaque = opaque\<rparr>"

definition with_context :: "bytes \<Rightarrow> ServerError \<Rightarrow> ServerError" where
  "with_context ctx e = e\<lparr>se_context := Some ctx\<rparr>"

definition with_config :: "bytes \<Rightarrow> ServerError \<Rightarrow> ServerError" where
  "with_config cfg e = e\<lparr>se_config := Some cfg\<rparr>"

definition resource_error_new :: "ServerError \<Rightarrow> string \<Rightarrow> string \<Rightarrow> ResourceError" where
  "resource_error_new cause scope_name collection_name =
    \<lparr>re_cause = cause, re_scope_name = scope_name, re_collection_name = collection_name\<rparr>"

definition error_from_server :: "ServerError \<Rightarrow> Error" where
  "error_from_server e = Error (ErrorKind.Server e) None"

definition error_from_resource :: "ResourceError \<Rightarrow> Error" where
  "error_from_resource e = Error (ErrorKind.Resource e) None"

definition error_from_io :: "string \<Rightarrow> Error" where
  "error_from_io e = Error ErrorKind.Io (Some (SrcLib e))"

lemmas error_ctor_defs =
  new_protocol_error_def new_decompression_error_def new_message_error_def
  new_cancelled_error_def new_invalid_argument_error_def new_connection_failed_error_def
  new_dispatch_error_def new_close_error_def with_source_def error_from_server_def
  error_from_resource_def error_from_io_def

section \<open>Inspectors\<close>

definition has_server_config :: "Error \<Rightarrow> bytes option" where
  "has_server_config e = (case err_kind e of ErrorKind.Server s \<Rightarrow> se_config s | _ \<Rightarrow> None)"

definition has_server_error_context :: "Error \<Rightarrow> bytes option" where
  "has_server_error_context e =
    (case err_kind e of
       ErrorKind.Server s \<Rightarrow> se_context s
     | ErrorKind.Resource r \<Rightarrow> se_context (re_cause r)
     | _ \<Rightarrow> None)"

definition has_opaque :: "Error \<Rightarrow> u32 option" where
  "has_opaque e =
    (case err_kind e of
       ErrorKind.Server s \<Rightarrow> Some (se_opaque s)
     | ErrorKind.Resource r \<Rightarrow> Some (se_opaque (re_cause r))
     | ErrorKind.Dispatch opaque _ \<Rightarrow> Some opaque
     | _ \<Rightarrow> None)"

definition is_cancellation_error :: "Error \<Rightarrow> bool" where
  "is_cancellation_error e = (case err_kind e of ErrorKind.Cancelled _ \<Rightarrow> True | _ \<Rightarrow> False)"

definition is_dispatch_error :: "Error \<Rightarrow> bool" where
  "is_dispatch_error e = (case err_kind e of ErrorKind.Dispatch _ _ \<Rightarrow> True | _ \<Rightarrow> False)"

definition is_server_error_kind :: "ServerErrorKind \<Rightarrow> Error \<Rightarrow> bool" where
  "is_server_error_kind k e =
    (case err_kind e of
       ErrorKind.Server s \<Rightarrow> se_kind s = k
     | ErrorKind.Resource r \<Rightarrow> se_kind (re_cause r) = k
     | _ \<Rightarrow> False)"

text \<open>\<open>PartialEq\<close> of the source compares kinds only: two errors may differ in their source.\<close>

definition error_eq :: "Error \<Rightarrow> Error \<Rightarrow> bool" where
  "error_eq a b \<longleftrightarrow> err_kind a = err_kind b"

lemmas error_inspect_defs =
  has_server_config_def has_server_error_context_def has_opaque_def is_cancellation_error_def
  is_dispatch_error_def is_server_error_kind_def

lemma with_source_kind [simp]: "err_kind (with_source src e) = err_kind e"
  by (simp add: with_source_def)

lemma error_eq_with_source: "error_eq (with_source src e) e"
  by (simp add: error_eq_def)

lemma server_error_new_sel [simp]:
  "se_kind (server_error_new k oc st op) = k"
  "se_config (server_error_new k oc st op) = None"
  "se_context (server_error_new k oc st op) = None"
  "se_op_code (server_error_new k oc st op) = oc"
  "se_status (server_error_new k oc st op) = st"
  "se_opaque (server_error_new k oc st op) = op"
  by (simp_all add: server_error_new_def)

lemma with_blob_sel [simp]:
  "se_kind (with_context c e) = se_kind e" "se_kind (with_config c e) = se_kind e"
  "se_config (with_context c e) = se_config e" "se_config (with_config c e) = Some c"
  "se_context (with_context c e) = Some c" "se_context (with_config c e) = se_context e"
  "se_status (with_context c e) = se_status e" "se_status (with_config c e) = se_status e"
  "se_opaque (with_context c e) = se_opaque e" "se_opaque (with_config c e) = se_opaque e"
  "se_op_code (with_context c e) = se_op_code e" "se_op_code (with_config c e) = se_op_code e"
  by (simp_all add: with_context_def with_config_def)

lemma error_from_server_kind [simp]: "err_kind (error_from_server e) = ErrorKind.Server e"
  by (simp add: error_from_server_def)

lemma error_from_resource_kind [simp]: "err_kind (error_from_resource e) = ErrorKind.Resource e"
  by (simp add: error_from_resource_def)

end
