(* ===== verification/Memdx_Subdoc.thy ===== *)
theory Memdx_Subdoc
  imports Memdx_Error "HOL-Library.Multiset"
begin

text \<open>
  Sub-document operations (\<^verbatim>\<open>memdx/subdoc.rs\<close>): the operation types and their protocol codes, the
  flag sets as bit masks, and the reordering that puts extended-attribute operations first.
\<close>

unbundle bit_operations_syntax

section \<open>Operations\<close>

type_synonym SubdocOpFlag = u8
type_synonym SubdocDocFlag = u8

definition MKDIR_P :: SubdocOpFlag where "MKDIR_P = 0x01"
definition XATTR_PATH :: SubdocOpFlag where "XATTR_PATH = 0x04"
definition EXPAND_MACROS :: SubdocOpFlag where "EXPAND_MACROS = 0x10"

definition DocFlag_MkDoc :: SubdocDocFlag where "DocFlag_MkDoc = 0x01"
definition DocFlag_AddDoc :: SubdocDocFlag where "DocFlag_AddDoc = 0x02"
definition DocFlag_AccessDeleted :: SubdocDocFlag where "DocFlag_AccessDeleted = 0x04"
definition DocFlag_CreateAsDeleted :: SubdocDocFlag where "DocFlag_CreateAsDeleted = 0x08"
definition DocFlag_ReviveDocument :: SubdocDocFlag where "DocFlag_ReviveDocument = 0x10"

text \<open>\<^verbatim>\<open>contains\<close> and \<^verbatim>\<open>is_empty\<close> of a flag set.\<close>

definition flags_contains :: "u8 \<Rightarrow> u8 \<Rightarrow> bool" where
  "flags_contains fs f \<longleftrightarrow> fs AND f = f"

definition flags_is_empty :: "u8 \<Rightarrow> bool" where
  "flags_is_empty fs \<longleftrightarrow> fs = 0"

datatype LookupInOpType = Get | Exists | GetCount | GetDoc

primrec lookup_in_op_code :: "LookupInOpType \<Rightarrow> OpCode" where
    "lookup_in_op_code LookupInOpType.Get = OpCode.SubDocGet"
  | "lookup_in_op_code LookupInOpType.Exists = OpCode.SubDocExists"
  | "lookup_in_op_code LookupInOpType.GetCount = OpCode.SubDocGetCount"
  | "lookup_in_op_code LookupInOpType.GetDoc = OpCode.Get"

datatype MutateInOpType =
    DictAdd | DictSet | Delete | Replace | ArrayPushLast | ArrayPushFirst | ArrayInsert
  | ArrayAddUnique | Counter | SetDoc | AddDoc | DeleteDoc | ReplaceBodyWithXattr

primrec mutate_in_op_code :: "MutateInOpType \<Rightarrow> OpCode" where
    "mutate_in_op_code MutateInOpType.DictAdd = OpCode.SubDocDictAdd"
  | "mutate_in_op_code MutateInOpType.DictSet = OpCode.SubDocDictSet"
  | "mutate_in_op_code MutateInOpType.Delete = OpCode.SubDocDelete"
  | "mutate_in_op_code MutateInOpType.Replace = OpCode.SubDocReplace"
  | "mutate_in_op_code MutateInOpType.ArrayPushLast = OpCode.SubDocArrayPushLast"
  | "mutate_in_op_code MutateInOpType.ArrayPushFirst = OpCode.SubDocArrayPushFirst"
  | "mutate_in_op_code MutateInOpType.ArrayInsert = OpCode.SubDocArrayInsert"
  | "mutate_in_op_code MutateInOpType.ArrayAddUnique = OpCode.SubDocArrayAddUnique"
  | "mutate_in_op_code MutateInOpType.Counter = OpCode.SubDocCounter"
  | "mutate_in_op_code MutateInOpType.SetDoc = OpCode.Set"
  | "mutate_in_op_code MutateInOpType.AddDoc = OpCode.Add"
  | "mutate_in_op_code MutateInOpType.DeleteDoc = OpCode.Delete"
  | "mutate_in_op_code MutateInOpType.ReplaceBodyWithXattr = OpCode.SubDocReplaceBodyWithXattr"

record LookupInOp =
  lio_op :: LookupInOpType
  lio_flags :: SubdocOpFlag
  lio_path :: bytes

record MutateInOp =
  mio_op :: MutateInOpType
  mio_flags :: SubdocOpFlag
  mio_path :: bytes
  mio_value :: bytes

definition lookup_in_is_xattr_op :: "LookupInOp \<Rightarrow> bool" where
  "lookup_in_is_xattr_op op = flags_contains (lio_flags op) XATTR_PATH"

definition mutate_in_is_xattr_op :: "MutateInOp \<Rightarrow> bool" where
  "mutate_in_is_xattr_op op = flags_contains (mio_flags op) XATTR_PATH"

record SubdocRequestInfo =
  sri_flags :: SubdocDocFlag
  sri_op_count :: u8

record SubDocResult =
  sdr_err :: "Error option"
  sdr_value :: "bytes option"

section \<open>Reordering\<close>

text \<open>
  Two passes over the enumerated operations push the operations that satisfy (then those that do
  not satisfy) the test, together with their original positions.
\<close>

fun push_ops :: "('op \<Rightarrow> bool) \<Rightarrow> (nat \<times> 'op) list \<Rightarrow> 'op list \<times> nat list \<Rightarrow> 'op list \<times> nat list" where
  "push_ops p [] acc = acc"
| "push_ops p ((i, op) # rest) (ordered_ops, op_indexes) =
    push_ops p rest
      (if p op then (ordered_ops @ [op], op_indexes @ [i]) else (ordered_ops, op_indexes))"

definition reorder_subdoc_ops :: "('op \<Rightarrow> bool) \<Rightarrow> 'op list \<Rightarrow> 'op list \<times> nat list" where
  "reorder_subdoc_ops is_xattr_op ops =
    push_ops (\<lambda>op. \<not> is_xattr_op op) (enumerate 0 ops)
      (push_ops is_xattr_op (enumerate 0 ops) ([], []))"

lemma push_ops_eq:
  "push_ops p xs (os, is) =
    (os @ map snd (filter (\<lambda>(i, op). p op) xs), is @ map fst (filter (\<lambda>(i, op). p op) xs))"
  by (induction xs arbitrary: os "is") auto

definition reordered_pairs :: "('op \<Rightarrow> bool) \<Rightarrow> 'op list \<Rightarrow> (nat \<times> 'op) list" where
  "reordered_pairs p ops =
    filter (\<lambda>(i, op). p op) (enumerate 0 ops) @ filter (\<lambda>(i, op). \<not> p op) (enumerate 0 ops)"

lemma reorder_pairs:
  "reorder_subdoc_ops p ops = (map snd (reordered_pairs p ops), map fst (reordered_pairs p ops))"
  by (simp add: reorder_subdoc_ops_def push_ops_eq reordered_pairs_def)

lemma mset_reordered_pairs: "mset (reordered_pairs p ops) = mset (enumerate 0 ops)"
proof -
  have "(\<lambda>(i :: nat, op). \<not> p op) = (\<lambda>x. \<not> (\<lambda>(i, op). p op) x)" by auto
  then show ?thesis
    by (simp add: reordered_pairs_def multiset_partition [symmetric])
qed

text \<open>
  Placing the i-th reordered result back at its recorded position restores the original order.
\<close>

definition restore_order :: "nat list \<Rightarrow> 'r list \<Rightarrow> nat \<Rightarrow> 'r option" where
  "restore_order is rs = map_of (zip is rs)"

lemma reordered_set: "(i, op) \<in> set (reordered_pairs p ops) \<longleftrightarrow> i < length ops \<and> op = ops ! i"
proof -
  have "set (reordered_pairs p ops) = set (enumerate 0 ops)"
    by (rule mset_eq_setD [OF mset_reordered_pairs])
  then show ?thesis by (auto simp only: in_set_enumerate_eq fst_conv snd_conv diff_zero add_0_right)
qed

lemma mset_reordered_indexes: "mset (map fst (reordered_pairs p ops)) = mset [0..<length ops]"
proof -
  have "mset (map fst (reordered_pairs p ops)) = mset (map fst (enumerate 0 ops))"
    by (simp only: mset_map mset_reordered_pairs)
  then show ?thesis by (simp only: map_fst_enumerate add_0)
qed

lemma distinct_reordered: "distinct (map fst (reordered_pairs p ops))"
  using mset_eq_imp_distinct_iff [OF mset_reordered_indexes [of p ops]] by simp

lemma restore_reordered:
  "restore_order (map fst (reordered_pairs p ops)) (map f (map snd (reordered_pairs p ops))) i
    = (if i < length ops then Some (f (ops ! i)) else None)"
proof -
  let ?ps = "reordered_pairs p ops"
  have "zip (map fst ?ps) (map f (map snd ?ps)) = map (\<lambda>(i, op). (i, f op)) ?ps"
    by (simp add: zip_map_map zip_same_conv_map split_def)
  then have eq: "restore_order (map fst ?ps) (map f (map snd ?ps)) i = map_option f (map_of ?ps i)"
    by (simp add: restore_order_def map_of_map)
  have "map_of ?ps i = Some op \<longleftrightarrow> i < length ops \<and> op = ops ! i" for op
    by (simp only: map_of_eq_Some_iff [OF distinct_reordered] reordered_set)
  then have "map_of ?ps i = (if i < length ops then Some (ops ! i) else None)"
    by (metis (full_types) not_None_eq)
  with eq show ?thesis by simp
qed

section \<open>Properties\<close>

text \<open>
  C35. Reordering sub-document operations keeps every operation exactly once, puts the
  extended-attribute operations first without changing the order within either group, and records
  for each the position it came from, so that results computed in the new order map back to the
  original positions.
\<close>

theorem reorder_subdoc_ops_correct:
  "case reorder_subdoc_ops p ops of (ordered, indexes) \<Rightarrow>
     ordered = filter p ops @ filter (\<lambda>op. \<not> p op) ops \<and> mset ordered = mset ops
     \<and> mset indexes = mset [0..<length ops]
     \<and> restore_order indexes (map f ordered)
       = (\<lambda>i. if i < length ops then Some (f (ops ! i)) else None)"
proof -
  let ?ps = "reordered_pairs p ops"
  have flt: "map snd (filter (\<lambda>(i, op). q op) (enumerate n ops)) = filter q ops" for q n
    by (induction ops arbitrary: n) auto
  have o: "map snd ?ps = filter p ops @ filter (\<lambda>op. \<not> p op) ops"
    by (simp add: reordered_pairs_def flt)
  then have "mset (map snd ?ps) = mset ops"
    by (simp add: multiset_partition [symmetric])
  moreover have "mset (map fst ?ps) = mset [0..<length ops]"
    by (rule mset_reordered_indexes)
  moreover have "restore_order (map fst ?ps) (map f (map snd ?ps)) i
      = (if i < length ops then Some (f (ops ! i)) else None)" for i
    by (rule restore_reordered)
  ultimately show ?thesis using o by (auto simp: reorder_pairs)
qed

end
