(* ===== verification/Memdx_Extframe.thy ===== *)
theory Memdx_Extframe
  imports Memdx_Error
begin

text \<open>
  Flexible framing extras (\<^verbatim>\<open>memdx/extframe.rs\<close>): frame encoding into a fixed buffer, frame
  decoding, the unsigned LEB128 collection prefix and the durability frame. A \<open>Duration\<close> is a number
  of nanoseconds. Mutable buffers are passed and returned; on an error the callers drop them.
\<close>

unbundle bit_operations_syntax

section \<open>Run-time environment\<close>

text \<open>
  Two things the source leaves to its environment: whether the build checks integer overflow
  (a panic) or wraps, and the floating point power \<^verbatim>\<open>((x as f32).powf(1.74) / 2.0).round()\<close>, whose
  precision Rust leaves to the platform.
\<close>

record rust_env =
  overflow_checks :: bool
  server_dura_micros :: "u32 \<Rightarrow> u64"

definition add_u8 :: "rust_env \<Rightarrow> u8 \<Rightarrow> u8 \<Rightarrow> ('e, u8) result" where
  "add_u8 env a b =
    (if unat a + unat b < 256 \<or> \<not> overflow_checks env then Ok (a + b) else Panic)"

type_synonym Duration = nat

definition as_millis :: "Duration \<Rightarrow> nat" where
  "as_millis d = d div 1000000"

definition from_millis :: "nat \<Rightarrow> Duration" where
  "from_millis ms = ms * 1000000"

definition from_micros :: "nat \<Rightarrow> Duration" where
  "from_micros us = us * 1000"

section \<open>Decoding frames\<close>

definition ext_frame_eof :: Error where
  "ext_frame_eof = new_protocol_error ''unexpected eof decoding ext frame''"

definition decode_ext_frame ::
    "rust_env \<Rightarrow> bytes \<Rightarrow> (Error, ExtResFrameCode \<times> bytes \<times> nat) result" where
  "decode_ext_frame env buf =
    (if buf = [] then Err (new_protocol_error ''empty value buffer when decoding ext frame'')
     else
       let frame_header = buf ! 0;
           u_frame_code = drop_bit 4 (frame_header AND 0xF0);
           frame_len = frame_header AND 0x0F;
           buf_pos = 1 in
       and_then
         (if u_frame_code = 15 then
            if length buf < buf_pos + 1 then Err ext_frame_eof
            else and_then (add_u8 env 15 (buf ! buf_pos)) (\<lambda>c. Ok (c, buf_pos + 1))
          else Ok (u_frame_code, buf_pos)) (\<lambda>(u_frame_code, buf_pos).
       and_then
         (if frame_len = 15 then
            if length buf < buf_pos + 1 then Err ext_frame_eof
            else and_then (add_u8 env 15 (buf ! buf_pos)) (\<lambda>l. Ok (l, buf_pos + 1))
          else Ok (frame_len, buf_pos)) (\<lambda>(frame_len, buf_pos).
       let u_frame_len = unat frame_len in
       if length buf < buf_pos + u_frame_len then Err ext_frame_eof
       else Ok (ext_res_frame_code_from_u16 (ucast u_frame_code),
                take u_frame_len (drop buf_pos buf), buf_pos + u_frame_len))))"

text \<open>
  \<open>iter_ext_frames\<close> runs its callback on the frames it visits; the model returns them in order with
  the bytes left over. As in the source it visits one frame.
\<close>

definition iter_ext_frames ::
    "rust_env \<Rightarrow> bytes \<Rightarrow> (Error, (ExtResFrameCode \<times> bytes) list \<times> bytes) result" where
  "iter_ext_frames env buf =
    (if buf \<noteq> [] then
       and_then (decode_ext_frame env buf) (\<lambda>(frame_code, frame_body, buf_pos).
         Ok ([(frame_code, frame_body)], drop buf_pos buf))
     else Ok ([], buf))"

definition decode_server_duration_ext_frame :: "rust_env \<Rightarrow> bytes \<Rightarrow> (Error, Duration) result" where
  "decode_server_duration_ext_frame env data =
    (if length data \<noteq> 2 then Err (new_protocol_error ''invalid server duration ext frame length'')
     else
       let dura_enc = push_bit 8 (ucast (data ! 0)) OR ucast (data ! 1) in
       Ok (from_micros (unat (server_dura_micros env dura_enc))))"

fun last_server_duration ::
    "rust_env \<Rightarrow> (ExtResFrameCode \<times> bytes) list \<Rightarrow> (Error, Duration) result option" where
  "last_server_duration env [] = None"
| "last_server_duration env ((code, data) # fs) =
    (case last_server_duration env fs of
       Some d \<Rightarrow> Some d
     | None \<Rightarrow>
         if code = ExtResFrameCode.ServerDuration
         then Some (decode_server_duration_ext_frame env data) else None)"

definition decode_res_ext_frames :: "rust_env \<Rightarrow> bytes \<Rightarrow> (Error, Duration option) result" where
  "decode_res_ext_frames env buf =
    and_then (iter_ext_frames env buf) (\<lambda>(fs, _).
      case last_server_duration env fs of
        Some d \<Rightarrow> and_then d (\<lambda>d. Ok (Some d))
      | None \<Rightarrow> Ok None)"

section \<open>Encoding frames\<close>

definition ext_frame_overflow :: Error where
  "ext_frame_overflow = new_invalid_argument_error ''buffer overflow'' (Some ''ext frame'')"

definition append_ext_frame ::
    "ExtReqFrameCode \<Rightarrow> bytes \<Rightarrow> bytes \<Rightarrow> nat \<Rightarrow> (Error, bytes \<times> nat) result" where
  "append_ext_frame frame_code frame_body buf offset =
    (let frame_len = length frame_body in
     if offset \<ge> length buf then Err ext_frame_overflow
     else
       let buf = buf[offset := 0];
           hdr_byte_ptr = offset;
           offset = offset + 1;
           u_frame_code = ext_req_frame_code_to_u16 frame_code in
       and_then
         (if u_frame_code < 15 then
            Ok (buf[hdr_byte_ptr := (buf ! hdr_byte_ptr) OR ucast (push_bit 4 (u_frame_code AND 0x0f))],
                offset)
          else if u_frame_code - 15 \<ge> 15 then
            Err (new_invalid_argument_error ''ext frame code too large to encode'' (Some ''ext frame''))
          else
            let buf = buf[hdr_byte_ptr := (buf ! hdr_byte_ptr) OR 0xF0] in
            if offset + 2 > length buf then Err ext_frame_overflow
            else Ok (write_slice buf offset (u16_to_be u_frame_code), offset + 2))
         (\<lambda>(buf, offset).
       and_then
         (if frame_len < 15 then
            Ok (buf[hdr_byte_ptr := (buf ! hdr_byte_ptr) OR (word_of_nat frame_len AND 0xF)], offset)
          else if frame_len - 15 \<ge> 15 then
            Err (new_invalid_argument_error ''ext frame len too large to encode'' (Some ''ext frame''))
          else
            let buf = buf[hdr_byte_ptr := (buf ! hdr_byte_ptr) OR 0x0F] in
            if offset + 2 > length buf then Err ext_frame_overflow
            else Ok (write_slice buf offset (u16_to_be (word_of_nat (frame_len - 15))), offset + 2))
         (\<lambda>(buf, offset).
       if frame_len > 0 then
         if offset + frame_len > length buf then Err ext_frame_overflow
         else Ok (write_slice buf offset frame_body, offset + frame_len)
       else Ok (buf, offset))))"

definition encode_durability_ext_frame ::
    "DurabilityLevel \<Rightarrow> Duration option \<Rightarrow> (Error, bytes) result" where
  "encode_durability_ext_frame level timeout =
    (case timeout of
       None \<Rightarrow> Ok [durability_level_to_u8 level]
     | Some timeout \<Rightarrow>
         let timeout_millis = as_millis timeout in
         if timeout_millis > 65535 then
           Err (new_invalid_argument_error
                 ''cannot encode durability timeout greater than 65535 milliseconds''
                 (Some ''durability_level_timeout''))
         else
           let timeout_millis = (if timeout_millis = 0 then 1 else timeout_millis) in
           Ok ([durability_level_to_u8 level] @ [word_of_nat (timeout_millis div 2 ^ 8)]
               @ [word_of_nat timeout_millis]))"

record DurabilityLevelSettings =
  dls_durability_level :: DurabilityLevel
  dls_timeout :: "Duration option"

definition decode_durability_level_ext_frame ::
    "bytes \<Rightarrow> (Error, DurabilityLevelSettings) result" where
  "decode_durability_level_ext_frame data =
    (if length data = 1 then
       Ok \<lparr>dls_durability_level = durability_level_from_u8 (data ! 0), dls_timeout = None\<rparr>
     else if length data = 3 then
       Ok \<lparr>dls_durability_level = durability_level_from_u8 (data ! 0),
           dls_timeout = Some (from_millis
             (unat (push_bit 8 (ucast (data ! 1)) OR ucast (data ! 2) :: u32)))\<rparr>
     else Err (new_message_error ''invalid durability ext frame length''))"

section \<open>Collection prefix\<close>

definition uleb_byte :: "u32 \<Rightarrow> u8" where
  "uleb_byte cid =
    (let c = ucast (cid AND 0x7f) in if drop_bit 7 cid \<noteq> 0 then c OR 0x80 else c)"

lemma bit7_uleb_byte: "bit (uleb_byte cid) 7 \<longleftrightarrow> drop_bit 7 cid \<noteq> 0"
proof -
  have "\<not> bit (ucast (cid AND 0x7f) :: u8) 7"
    by (simp add: bit_simps)
  moreover have "bit (0x80 :: u8) 7" by simp
  ultimately show ?thesis by (auto simp: uleb_byte_def Let_def bit_simps)
qed

lemma uleb_byte_stops: "uleb_byte cid AND 0x80 = 0 \<longleftrightarrow> drop_bit 7 cid = 0"
proof -
  have "(0x80 :: u8) = push_bit 7 1" by simp
  then have "uleb_byte cid AND 0x80 = 0 \<longleftrightarrow> \<not> bit (uleb_byte cid) 7"
    by (metis and_exp_eq_0_iff_not_bit push_bit_of_1)
  then show ?thesis by (simp add: bit7_uleb_byte)
qed

function make_uleb128_loop :: "u32 \<Rightarrow> bytes \<Rightarrow> nat \<Rightarrow> (Error, bytes \<times> nat) result" where
  "make_uleb128_loop cid buf count =
    (let c = uleb_byte cid; cid = drop_bit 7 cid in
     if length buf \<le> count then Panic
     else
       let buf = buf[count := c]; count = count + 1 in
       if c AND 0x80 = 0 then Ok (buf, count) else make_uleb128_loop cid buf count)"
  by pat_completeness auto
termination
  by (relation "measure (\<lambda>(cid, buf, count). length buf - count)") auto

declare make_uleb128_loop.simps [simp del]

definition make_uleb128_32 :: "u32 \<Rightarrow> bytes \<Rightarrow> (Error, bytes \<times> nat) result" where
  "make_uleb128_32 collection_id buf = make_uleb128_loop collection_id buf 0"


text \<open>
  The bytes the loop writes, and the reader a peer uses: seven bits per byte, least significant
  first, until a byte with a clear top bit.
\<close>

lemma unat_drop_bit_7: "unat (drop_bit 7 (cid :: u32)) = unat cid div 128"
  by (simp only: unat_drop_bit_eq) (simp add: drop_bit_eq_div)

function uleb128 :: "u32 \<Rightarrow> bytes" where
  "uleb128 cid =
    (if drop_bit 7 cid = 0 then [uleb_byte cid] else uleb_byte cid # uleb128 (drop_bit 7 cid))"
  by pat_completeness auto
termination
proof (relation "measure unat")
  fix cid :: u32
  assume "drop_bit 7 cid \<noteq> 0"
  then have "unat (drop_bit 7 cid) \<noteq> 0" by (simp add: unat_eq_zero)
  then show "(drop_bit 7 cid, cid) \<in> measure unat" by (simp add: unat_drop_bit_7)
qed simp

declare uleb128.simps [simp del]

fun uleb_read :: "bytes \<Rightarrow> (nat \<times> bytes) option" where
  "uleb_read [] = None"
| "uleb_read (b # bs) =
    (if bit b 7
     then map_option (\<lambda>(n, r). (unat b mod 128 + 128 * n, r)) (uleb_read bs)
     else Some (unat b mod 128, bs))"

lemma unat_uleb_byte: "unat (uleb_byte cid) mod 128 = unat cid mod 128"
proof -
  have "take_bit 7 (uleb_byte cid) = ucast (take_bit 7 cid)"
  proof (rule bit_word_eqI)
    fix n
    have m: "(0x7f :: u32) = mask 7" by (simp add: mask_eq_exp_minus_1)
    have f: "take_bit 7 (0x80 :: u8) = 0" by simp
    show "bit (take_bit 7 (uleb_byte cid)) n = bit (ucast (take_bit 7 cid) :: u8) n"
      unfolding uleb_byte_def Let_def m by (simp add: f) (auto simp: bit_simps)
  qed
  then have "unat (take_bit 7 (uleb_byte cid)) = unat (ucast (take_bit 7 cid) :: u8)" by simp
  moreover have "unat (ucast (take_bit 7 cid) :: u8) = unat (take_bit 7 cid)"
    by (simp add: unsigned_ucast_eq unsigned_take_bit_eq min_def)
  ultimately show ?thesis
    by (simp add: take_bit_eq_mod unat_mod)
qed

lemma uleb_read_uleb128: "uleb_read (uleb128 cid @ rest) = Some (unat cid, rest)"
proof (induction cid rule: uleb128.induct)
  case (1 cid)
  show ?case
  proof (cases "drop_bit 7 cid = 0")
    case True
    then have "unat cid div 128 = 0" using unat_drop_bit_7 [of cid] by simp
    then have "unat cid mod 128 = unat cid" by (simp add: div_eq_0_iff)
    with True show ?thesis
      by (simp add: uleb128.simps [of cid] bit7_uleb_byte unat_uleb_byte)
  next
    case False
    with 1 show ?thesis
      by (simp add: uleb128.simps [of cid] bit7_uleb_byte unat_uleb_byte unat_drop_bit_7)
  qed
qed

lemma length_uleb128_le: "unat cid < 128 ^ Suc n \<Longrightarrow> length (uleb128 cid) \<le> Suc n"
proof (induction n arbitrary: cid)
  case 0
  then have "unat (drop_bit 7 cid) = 0" by (simp add: unat_drop_bit_7)
  then have "drop_bit 7 cid = 0" by (rule unat_eq_zero [THEN iffD1])
  then show ?case by (simp add: uleb128.simps [of cid])
next
  case (Suc n)
  have "unat (drop_bit 7 cid) < 128 ^ Suc n"
    using Suc.prems by (simp add: unat_drop_bit_7 less_mult_imp_div_less mult.commute)
  then have "length (uleb128 (drop_bit 7 cid)) \<le> Suc n" by (rule Suc.IH)
  then show ?case by (simp add: uleb128.simps [of cid])
qed

lemma length_uleb128: "1 \<le> length (uleb128 cid) \<and> length (uleb128 cid) \<le> 5"
proof
  show "1 \<le> length (uleb128 cid)" by (simp add: uleb128.simps [of cid])
  have "unat cid < 128 ^ Suc 4" using unat_less_2p [of cid] by simp
  then show "length (uleb128 cid) \<le> 5" using length_uleb128_le by fastforce
qed

lemma uleb128_zero [simp]: "uleb128 0 = [0]"
  by (simp add: uleb128.simps [of 0] uleb_byte_def)

lemma write_slice_Cons:
  assumes "Suc i + length xs \<le> length buf"
  shows "write_slice (buf[i := x]) (Suc i) xs = write_slice buf i (x # xs)"
  using assms by (simp add: write_slice_def take_Suc_conv_app_nth)

lemma make_uleb128_loop_eq:
  "make_uleb128_loop cid buf count =
    (if count + length (uleb128 cid) \<le> length buf
     then Ok (write_slice buf count (uleb128 cid), count + length (uleb128 cid)) else Panic)"
proof (induction cid buf count rule: make_uleb128_loop.induct)
  case (1 cid buf count)
  show ?case
  proof (cases "drop_bit 7 cid = 0 \<or> length buf \<le> count")
    case True
    then show ?thesis
      using length_uleb128 [of cid]
      by (auto simp: make_uleb128_loop.simps [of cid] uleb128.simps [of cid] uleb_byte_stops Let_def
          write_slice_def upd_conv_take_nth_drop)
  next
    case False
    then have IH: "make_uleb128_loop (drop_bit 7 cid) (buf[count := uleb_byte cid]) (Suc count) =
        (if Suc count + length (uleb128 (drop_bit 7 cid)) \<le> length buf
         then Ok (write_slice (buf[count := uleb_byte cid]) (Suc count) (uleb128 (drop_bit 7 cid)),
                  Suc count + length (uleb128 (drop_bit 7 cid)))
         else Panic)"
      using 1 [OF refl refl _ refl refl] by (simp add: uleb_byte_stops)
    then show ?thesis
      using False
      by (simp add: make_uleb128_loop.simps [of cid] uleb128.simps [of cid] uleb_byte_stops Let_def
          write_slice_Cons)
  qed
qed

lemma make_uleb128_32_Ok:
  assumes "5 \<le> length buf"
  shows "make_uleb128_32 cid buf = Ok (write_slice buf 0 (uleb128 cid), length (uleb128 cid))"
  using assms length_uleb128 [of cid] by (simp add: make_uleb128_32_def make_uleb128_loop_eq)


section \<open>Frames that fit one header byte\<close>

text \<open>
  A frame whose code and length are below 15: a header byte with the code in the high and the
  length in the low half, then the body.
\<close>

definition ext_frame_bytes :: "u16 \<Rightarrow> bytes \<Rightarrow> bytes" where
  "ext_frame_bytes code body = (push_bit 4 (ucast code) OR word_of_nat (length body)) # body"

lemma write_slice_snoc:
  assumes "i + length xs + length ys \<le> length buf"
  shows "write_slice (write_slice buf i xs) (i + length xs) ys = write_slice buf i (xs @ ys)"
  using assms by (simp add: write_slice_def add.assoc add.commute [of "length ys"])

lemma low_nibble_code: "(code :: u16) < 15 \<Longrightarrow> code AND 0x0f = code"
  using less_mask_eq [of code 4] by (simp add: mask_eq_exp_minus_1 word_less_nat_alt)

lemma low_nibble_len: "n < 15 \<Longrightarrow> (word_of_nat n :: u8) AND 0xF = word_of_nat n"
  using less_mask_eq [of "word_of_nat n :: u8" 4]
  by (simp add: mask_eq_exp_minus_1 word_less_nat_alt unat_of_nat)

lemma header_byte:
  fixes code :: u16
  assumes "code < 15" and "n < 15"
  shows "ucast (push_bit 4 (code AND 0x0f)) OR (word_of_nat n AND 0xF)
    = (push_bit 4 (ucast code) OR word_of_nat n :: u8)"
proof -
  have "ucast (push_bit 4 code) = (push_bit 4 (ucast code) :: u8)"
    by (rule bit_word_eqI) (auto simp: bit_simps)
  then show ?thesis using assms by (simp add: low_nibble_code low_nibble_len)
qed

lemma append_ext_frame_small:
  assumes "ext_req_frame_code_to_u16 fc < 15" and "length body < 15"
    and "offset + 1 + length body \<le> length buf"
  shows "append_ext_frame fc body buf offset =
    Ok (write_slice buf offset (ext_frame_bytes (ext_req_frame_code_to_u16 fc) body),
        offset + 1 + length body)"
proof -
  let ?h = "push_bit 4 (ucast (ext_req_frame_code_to_u16 fc)) OR word_of_nat (length body) :: u8"
  have "write_slice buf offset [?h] = buf[offset := ?h]"
    using assms(3) by (simp add: write_slice_def upd_conv_take_nth_drop)
  then have "write_slice (buf[offset := ?h]) (offset + 1) body = write_slice buf offset (?h # body)"
    using assms(3) write_slice_snoc [of offset "[?h]" body buf] by simp
  moreover have "write_slice buf offset [?h] = buf[offset := ?h]" by fact
  ultimately show ?thesis
    using assms header_byte [OF assms(1,2)]
    by (auto simp: append_ext_frame_def ext_frame_bytes_def Let_def)
qed

lemma unat_code_byte:
  assumes "(code :: u16) < 15"
  shows "unat (ucast code :: u8) = unat code" "unat code < 15"
proof -
  show c: "unat code < 15" using assms by (simp add: word_less_nat_alt)
  have "unat (ucast code :: u8) = take_bit LENGTH(8) (unat code)" by (rule unsigned_ucast_eq)
  with c show "unat (ucast code :: u8) = unat code" by (simp add: take_bit_nat_eq_self)
qed

lemma header_byte_parts:
  fixes code :: u16
  assumes "code < 15" and "n < 16"
  defines "h \<equiv> push_bit 4 (ucast code) OR word_of_nat n :: u8"
  shows "drop_bit 4 (h AND 0xF0) = ucast code" "h AND 0x0F = word_of_nat n"
proof -
  have m: "(0xF0 :: u8) = push_bit 4 (mask 4)" "(0x0F :: u8) = mask 4"
    by (simp_all add: mask_eq_exp_minus_1)
  have "take_bit 4 code = code"
    using low_nibble_code [OF assms(1)] unfolding take_bit_eq_mask
    by (simp add: mask_eq_exp_minus_1)
  then have c: "bit code k \<Longrightarrow> k < 4" for k by (metis bit_take_bit_iff)
  have "take_bit 4 n = n" using assms(2) by (simp add: take_bit_nat_eq_self)
  then have l: "bit n k \<Longrightarrow> k < 4" for k by (metis bit_take_bit_iff)
  show "drop_bit 4 (h AND 0xF0) = ucast code"
    unfolding h_def m by (rule bit_word_eqI) (use c in \<open>auto simp: bit_simps dest: l\<close>)
  show "h AND 0x0F = word_of_nat n"
    unfolding h_def m by (rule bit_word_eqI) (auto simp: bit_simps dest: l)
qed

lemma decode_ext_frame_small:
  assumes "code < 15" and "length body < 15"
  shows "decode_ext_frame env (ext_frame_bytes code body @ rest) =
    Ok (ext_res_frame_code_from_u16 code, body, 1 + length body)"
proof -
  note c = unat_code_byte [OF assms(1)]
  have n15: "(ucast code :: u8) \<noteq> 15" "(word_of_nat (length body) :: u8) \<noteq> 15"
    using c assms(2) by (auto simp only: word_unat_eq_iff unat_of_nat) auto
  have "unat (ucast (ucast code :: u8) :: u16) = take_bit LENGTH(16) (unat (ucast code :: u8))"
    by (rule unsigned_ucast_eq)
  then have "ucast (ucast code :: u8) = code"
    using c by (simp add: word_unat_eq_iff take_bit_nat_eq_self)
  moreover have "unat (word_of_nat (length body) :: u8) = length body"
    using assms(2) by (simp add: unat_of_nat)
  ultimately show ?thesis
    using n15 header_byte_parts [of code "length body"] assms
    by (simp add: decode_ext_frame_def ext_frame_bytes_def Let_def)
qed


lemma ucast_push_bit_4: "ucast (push_bit 4 (code :: u16)) = (push_bit 4 (ucast code) :: u8)"
  by (rule bit_word_eqI) (auto simp: bit_simps)

text \<open>What is written for a body of 15 to 29 bytes: a two-byte extended length.\<close>

definition long_frame_bytes :: "u16 \<Rightarrow> bytes \<Rightarrow> bytes" where
  "long_frame_bytes code body =
    [push_bit 4 (ucast code) OR 0x0F, 0, word_of_nat (length body - 15)] @ body"

lemma u16_to_be_small: "n < 256 \<Longrightarrow> u16_to_be (word_of_nat n) = [0, word_of_nat n]"
proof -
  assume n: "n < 256"
  have "be_bytes 2 n = be_bytes (Suc (Suc 0)) n" by (simp only: numeral_2_eq_2)
  with n show ?thesis by (simp add: u16_to_be_def unat_of_nat)
qed

lemma append_ext_frame_long:
  assumes "ext_req_frame_code_to_u16 fc < 15" and "15 \<le> length body" "length body < 30"
    and "offset + 3 + length body \<le> length buf"
  shows "append_ext_frame fc body buf offset =
    Ok (write_slice buf offset (long_frame_bytes (ext_req_frame_code_to_u16 fc) body),
        offset + 3 + length body)"
proof -
  let ?h = "push_bit 4 (ucast (ext_req_frame_code_to_u16 fc)) OR 0x0F :: u8"
  let ?l = "[0, word_of_nat (length body - 15)] :: bytes"
  have "write_slice buf offset [?h] = buf[offset := ?h]"
    using assms by (simp add: write_slice_def upd_conv_take_nth_drop)
  then have "write_slice (buf[offset := ?h]) (offset + 1) ?l = write_slice buf offset (?h # ?l)"
    using assms write_slice_snoc [of offset "[?h]" ?l buf] by simp
  moreover have "write_slice (write_slice buf offset (?h # ?l)) (Suc (Suc (Suc offset))) body
      = write_slice buf offset (?h # ?l @ body)"
    using assms write_slice_snoc [of offset "?h # ?l" body buf] by simp
  ultimately show ?thesis
    using assms u16_to_be_small [of "length body - 15"]
    by (auto simp: append_ext_frame_def long_frame_bytes_def Let_def low_nibble_code
        ucast_push_bit_4)
qed

lemma decode_ext_frame_long:
  assumes "code < 15" and "15 \<le> length body" "length body < 30"
  shows "decode_ext_frame env (long_frame_bytes code body @ rest) =
    Ok (ext_res_frame_code_from_u16 code, word_of_nat (length body - 15) # take 14 body, 17)"
proof -
  note c = unat_code_byte [OF assms(1)]
  have n15: "(ucast code :: u8) \<noteq> 15" using c by (auto simp only: word_unat_eq_iff) auto
  have "unat (ucast (ucast code :: u8) :: u16) = take_bit LENGTH(16) (unat (ucast code :: u8))"
    by (rule unsigned_ucast_eq)
  then have "ucast (ucast code :: u8) = code"
    using c by (simp add: word_unat_eq_iff take_bit_nat_eq_self)
  then show ?thesis
    using n15 header_byte_parts [of code 15] assms
    by (simp add: decode_ext_frame_def long_frame_bytes_def add_u8_def Let_def)
qed

lemma unat_two_bytes:
  "unat (push_bit 8 (ucast (a :: u8)) OR ucast (b :: u8) :: u32) = unat a * 256 + unat b"
proof -
  have "push_bit 8 (ucast a) OR ucast b = push_bit 8 (ucast a) + (ucast b :: u32)"
    by (rule disjunctive_add_eq_or [symmetric], rule bit_word_eqI)
       (auto simp: bit_simps dest: bit_imp_le_length)
  moreover have "unat (ucast a :: u32) = unat a" "unat (ucast b :: u32) = unat b"
    using unat_less_2p [of a] unat_less_2p [of b]
    by (simp_all add: unsigned_ucast_eq take_bit_nat_eq_self)
  ultimately show ?thesis
    using unat_less_2p [of a] unat_less_2p [of b]
    by (simp add: push_bit_eq_mult unat_word_ariths)
qed

section \<open>Properties\<close>

definition sample_env :: rust_env where
  "sample_env = \<lparr>overflow_checks = True, server_dura_micros = (\<lambda>x. ucast x)\<rparr>"

text \<open>
  A request frame whose code and body length are below 15 is written at the offset without
  touching the bytes before it, and decoding at that offset gives back the code and the body and
  stops at the end of the frame.
\<close>

theorem ext_frame_round_trip:
  assumes "ext_req_frame_code_to_u16 fc < 15" and "length body < 15"
    and "offset + 1 + length body \<le> length buf"
  shows "\<exists>buf'. append_ext_frame fc body buf offset = Ok (buf', offset + 1 + length body)
    \<and> length buf' = length buf \<and> take offset buf' = take offset buf
    \<and> decode_ext_frame env (drop offset buf')
      = Ok (ext_res_frame_code_from_u16 (ext_req_frame_code_to_u16 fc), body, 1 + length body)"
  using append_ext_frame_small [OF assms] decode_ext_frame_small [OF assms(1,2)] assms(3)
  by (simp add: write_slice_def ext_frame_bytes_def)

theorem ext_frame_round_trip_witness:
  "\<exists>buf'. append_ext_frame ExtReqFrameCode.Durability [1] (replicate 128 0) 0 = Ok (buf', 2)
    \<and> length buf' = 128 \<and> take 0 buf' = []
    \<and> decode_ext_frame sample_env (drop 0 buf') = Ok (ExtResFrameCode.ReadUnits, [1], 2)"
  using ext_frame_round_trip [of ExtReqFrameCode.Durability "[1]" 0 "replicate 128 0" sample_env]
  by (simp add: ext_res_frame_code_from_u16_def) (simp add: numeral_2_eq_2)

text \<open>
  A body of 15 to 29 bytes does not survive: the encoder writes a two-byte extended length,
  the decoder reads a one-byte one, so it returns the low length byte followed by the first
  fourteen body bytes and stops inside the frame.
\<close>

theorem ext_frame_long_body_mismatch:
  assumes "ext_req_frame_code_to_u16 fc < 15" and "15 \<le> length body" and "length body < 30"
    and "offset + 3 + length body \<le> length buf"
  shows "\<exists>buf'. append_ext_frame fc body buf offset = Ok (buf', offset + 3 + length body)
    \<and> decode_ext_frame env (drop offset buf')
      = Ok (ext_res_frame_code_from_u16 (ext_req_frame_code_to_u16 fc),
            word_of_nat (length body - 15) # take 14 body, 17)
    \<and> 17 < 3 + length body"
  using append_ext_frame_long [OF assms] decode_ext_frame_long [OF assms(1-3)] assms
  by (simp add: write_slice_def long_frame_bytes_def)

theorem ext_frame_long_body_mismatch_witness:
  "\<exists>buf'. append_ext_frame ExtReqFrameCode.OnBehalfOf (replicate 16 0x61) (replicate 128 0) 0
      = Ok (buf', 19)
    \<and> decode_ext_frame sample_env (drop 0 buf')
      = Ok (ExtResFrameCode.Unknown 4, 1 # replicate 14 0x61, 17)"
  using ext_frame_long_body_mismatch [of ExtReqFrameCode.OnBehalfOf "replicate 16 0x61" 0
      "replicate 128 0" sample_env]
  by (simp add: ext_res_frame_code_from_u16_def)

text \<open>
  A collection id is written as one to five bytes that a reader of unsigned LEB128 turns back
  into the same id, leaving the bytes that follow.
\<close>

theorem collection_prefix_round_trip:
  assumes "5 \<le> length buf"
  shows "\<exists>buf' n. make_uleb128_32 cid buf = Ok (buf', n) \<and> 1 \<le> n \<and> n \<le> 5
    \<and> length buf' = length buf \<and> drop n buf' = drop n buf
    \<and> uleb_read (take n buf' @ rest) = Some (unat cid, rest)"
  using make_uleb128_32_Ok [OF assms, of cid] length_uleb128 [of cid] assms uleb_read_uleb128
  by (simp add: write_slice_def)

theorem collection_prefix_round_trip_witness:
  "\<exists>buf' n. make_uleb128_32 0xfff (replicate 251 0) = Ok (buf', n) \<and> 1 \<le> n \<and> n \<le> 5
    \<and> length buf' = 251 \<and> drop n buf' = drop n (replicate 251 0)
    \<and> uleb_read (take n buf' @ [0x61]) = Some (0xfff, [0x61])"
  using collection_prefix_round_trip [where buf = "replicate 251 0" and cid = "0xfff" and rest = "[0x61]"]
  by simp

text \<open>
  A durability level and timeout survive the frame up to what the frame can say: an unknown
  level becomes level zero, a zero timeout becomes one millisecond, fractions of a millisecond are
  dropped, and more than 65535 milliseconds is refused.
\<close>

theorem durability_frame_round_trip:
  "and_then (encode_durability_ext_frame level timeout) decode_durability_level_ext_frame =
    (case timeout of
       None \<Rightarrow> Ok \<lparr>dls_durability_level =
                 (case level of DurabilityLevel.Other _ \<Rightarrow> DurabilityLevel.Other 0 | _ \<Rightarrow> level),
               dls_timeout = None\<rparr>
     | Some t \<Rightarrow>
         if as_millis t > 65535
         then Err (new_invalid_argument_error
                 ''cannot encode durability timeout greater than 65535 milliseconds''
                 (Some ''durability_level_timeout''))
         else Ok \<lparr>dls_durability_level =
                 (case level of DurabilityLevel.Other _ \<Rightarrow> DurabilityLevel.Other 0 | _ \<Rightarrow> level),
               dls_timeout = Some (from_millis (max 1 (as_millis t)))\<rparr>)"
proof (cases timeout)
  case None
  then show ?thesis
    by (cases level) (simp_all add: encode_durability_ext_frame_def
        decode_durability_level_ext_frame_def durability_level_from_u8_def)
next
  case (Some t)
  let ?ms = "max 1 (as_millis t)"
  have "unat (push_bit 8 (ucast (word_of_nat (?ms div 2 ^ 8) :: u8)) OR
        ucast (word_of_nat ?ms :: u8) :: u32) = ?ms" if "as_millis t \<le> 65535"
    using that by (simp add: unat_two_bytes unat_byte div_less_iff_less_mult)
  moreover have "(if as_millis t = 0 then 1 else as_millis t) = ?ms" by auto
  ultimately show ?thesis
    using Some
    by (cases level) (simp_all add: encode_durability_ext_frame_def
        decode_durability_level_ext_frame_def durability_level_from_u8_def Let_def)
qed

text \<open>
  Only the first response frame is looked at: when it is well formed, the frames behind it do
  not affect the result, and a server duration is found only if it comes first.
\<close>

theorem server_duration_first_frame_only:
  assumes "code < 15" and "length body < 15"
  shows "decode_res_ext_frames env (ext_frame_bytes code body @ rest) =
    (if code = 0 then and_then (decode_server_duration_ext_frame env body) (\<lambda>d. Ok (Some d))
     else Ok None)"
  using decode_ext_frame_small [OF assms, of env rest]
  by (simp add: decode_res_ext_frames_def iter_ext_frames_def ext_frame_bytes_def
      ext_res_frame_code_from_u16_def)

theorem server_duration_first_frame_only_witness:
  "decode_res_ext_frames sample_env (ext_frame_bytes 1 [0, 9] @ ext_frame_bytes 0 [0, 8]) = Ok None"
  using server_duration_first_frame_only [of 1 "[0, 9]" sample_env "ext_frame_bytes 0 [0, 8]"]
  by simp

end
