(* ===== verification/Framing.thy ===== *)
theory Framing
  imports Prelude
begin

text \<open>
  The contract between a frame decoder and the loop that drives it. A decoder takes at most one
  frame off the read buffer; the driver appends each chunk that the transport delivers and calls
  the decoder until it asks for more bytes. The locale states what a decoder owes its driver and
  proves once that the frames delivered do not depend on how the transport cuts the byte stream.
\<close>

type_synonym ('e, 'r) decoder = "bytes \<Rightarrow> bytes \<times> ('e, 'r option) result"

text \<open>
  \<open>frames\<close> drains a buffer: the frames decoded, the bytes left, and \<open>Ok ()\<close> when the decoder waits
  for more bytes. \<open>feeds\<close> processes a sequence of chunks and stops at the first failure.
\<close>

fun frames :: "nat \<Rightarrow> ('e, 'r) decoder \<Rightarrow> bytes \<Rightarrow> 'r list \<times> bytes \<times> ('e, unit) result" where
  "frames 0 dec buf = ([], buf, Ok ())"
| "frames (Suc fuel) dec buf =
    (case dec buf of
       (b, Ok None) \<Rightarrow> ([], b, Ok ())
     | (b, Ok (Some r)) \<Rightarrow> (let (rs, rest) = frames fuel dec b in (r # rs, rest))
     | (b, Err e) \<Rightarrow> ([], b, Err e)
     | (b, Panic) \<Rightarrow> ([], b, Panic))"

definition feed :: "('e, 'r) decoder \<Rightarrow> bytes \<Rightarrow> bytes \<Rightarrow> 'r list \<times> bytes \<times> ('e, unit) result" where
  "feed dec buf chunk = frames (Suc (length buf + length chunk)) dec (buf @ chunk)"

fun feeds :: "('e, 'r) decoder \<Rightarrow> bytes \<Rightarrow> bytes list \<Rightarrow> 'r list \<times> bytes \<times> ('e, unit) result" where
  "feeds dec buf [] = ([], buf, Ok ())"
| "feeds dec buf (c # cs) =
    (case feed dec buf c of
       (rs, b, Ok _) \<Rightarrow> (let (rs', rest) = feeds dec b cs in (rs @ rs', rest))
     | (rs, b, Err e) \<Rightarrow> (rs, b, Err e)
     | (rs, b, Panic) \<Rightarrow> (rs, b, Panic))"

definition delivered :: "'r list \<times> bytes \<times> ('e, unit) result \<Rightarrow> 'r list \<times> ('e, unit) result" where
  "delivered x = (fst x, snd (snd x))"

locale frame_decoder =
  fixes dec :: "('e, 'r) decoder"
  assumes waits: "snd (dec b) = Ok None \<Longrightarrow> fst (dec b) = b"
    and stable: "snd (dec b) \<noteq> Ok None \<Longrightarrow> dec (b @ m) = (fst (dec b) @ m, snd (dec b))"
    and consumes: "snd (dec b) \<noteq> Ok None \<Longrightarrow> length (fst (dec b)) < length b"
begin

text \<open>More fuel than bytes changes nothing, so \<open>feed\<close> never runs out.\<close>

lemma frames_fuel:
  assumes "length b < n" and "length b < n'"
  shows "frames n dec b = frames n' dec b"
  using assms
proof (induction n arbitrary: b n')
  case (Suc n)
  then obtain k where k: "n' = Suc k" by (cases n') auto
  show ?case
  proof (cases "dec b")
    case (Pair b' r)
    have "frames n dec b' = frames k dec b'" if "r = Ok (Some x)" for x
      using Suc.prems consumes [of b] that Pair k by (intro Suc.IH) auto
    then show ?thesis
      using Pair k by (auto split: result.splits option.splits)
  qed
qed simp

definition drain :: "bytes \<Rightarrow> 'r list \<times> bytes \<times> ('e, unit) result" where
  "drain b = frames (Suc (length b)) dec b"

lemma frames_drain: "length b < n \<Longrightarrow> frames n dec b = drain b"
  unfolding drain_def by (rule frames_fuel) auto

lemma feed_drain: "feed dec b c = drain (b @ c)"
  by (simp add: feed_def drain_def)

lemma drain_unfold:
  "drain b =
    (case snd (dec b) of
       Ok None \<Rightarrow> ([], b, Ok ())
     | Ok (Some r) \<Rightarrow> (let (rs, rest) = drain (fst (dec b)) in (r # rs, rest))
     | Err e \<Rightarrow> ([], fst (dec b), Err e)
     | Panic \<Rightarrow> ([], fst (dec b), Panic))"
proof (cases "dec b")
  case (Pair b' r)
  have "frames (length b) dec b' = drain b'" if "r = Ok (Some x)" for x
    using consumes [of b] that Pair by (intro frames_drain) auto
  moreover have "r = Ok None \<Longrightarrow> b' = b" using waits [of b] Pair by simp
  ultimately show ?thesis
    using Pair by (auto simp: drain_def split: result.splits option.splits)
qed

lemma drain_append:
  assumes "drain b = (rs, b', Ok ())"
  shows "drain (b @ m) = (let (rs', rest) = drain (b' @ m) in (rs @ rs', rest))"
  using assms
proof (induction "length b" arbitrary: b rs rule: less_induct)
  case less
  show ?case
  proof (cases "snd (dec b)")
    case (Ok x)
    show ?thesis
    proof (cases x)
      case None
      with less.prems Ok show ?thesis by (simp add: drain_unfold [of b])
    next
      case (Some r)
      then obtain rs1 where d: "drain (fst (dec b)) = (rs1, b', result.Ok ())" "rs = r # rs1"
        using less.prems Ok by (auto simp: drain_unfold [of b] split: prod.splits)
      have "length (fst (dec b)) < length b" using consumes [of b] Ok Some by simp
      from less.hyps [OF this d(1)] Ok Some d(2) stable [of b m] show ?thesis
        by (simp add: drain_unfold [of "b @ m"] split: prod.splits)
    qed
  qed (use less.prems in \<open>simp_all add: drain_unfold [of b]\<close>)
qed

lemma drain_append_stop:
  assumes "drain b = (rs, b', r)" and "r \<noteq> Ok ()"
  shows "drain (b @ m) = (rs, b' @ m, r)"
  using assms
proof (induction "length b" arbitrary: b rs rule: less_induct)
  case less
  show ?case
  proof (cases "snd (dec b)")
    case (Ok x)
    show ?thesis
    proof (cases x)
      case None
      with less.prems Ok show ?thesis by (simp add: drain_unfold [of b])
    next
      case (Some y)
      then obtain rs1 where d: "drain (fst (dec b)) = (rs1, b', r)" "rs = y # rs1"
        using less.prems Ok by (auto simp: drain_unfold [of b] split: prod.splits)
      have "length (fst (dec b)) < length b" using consumes [of b] Ok Some by simp
      from less.hyps [OF this d(1) less.prems(2)] Ok Some d(2) stable [of b m] show ?thesis
        by (simp add: drain_unfold [of "b @ m"])
    qed
  qed (use less.prems stable [of b m] in
        \<open>simp_all add: drain_unfold [of b] drain_unfold [of "b @ m"]\<close>)
qed

text \<open>The frames delivered and how reading ended do not depend on the chunks.\<close>

lemma feeds_drain:
  assumes "snd (dec b) = Ok None"
  shows "delivered (feeds dec b cs) = delivered (drain (b @ concat cs))"
  using assms
proof (induction cs arbitrary: b)
  case Nil
  then show ?case by (simp add: drain_unfold [of b] delivered_def)
next
  case (Cons c cs)
  obtain rs b' r where d: "drain (b @ c) = (rs, b', r)" by (metis surj_pair)
  show ?case
  proof (cases "r = Ok ()")
    case True
    have idle: "snd (dec b') = Ok None"
      using d unfolding True
    proof (induction "length (b @ c)" arbitrary: b c rs rule: less_induct)
      case less
      show ?case
        using less.prems less.hyps [of "fst (dec (b @ c))" "[]"] consumes [of "b @ c"]
        by (auto simp: drain_unfold [of "b @ c"] split: result.splits option.splits prod.splits)
    qed
    have "delivered (feeds dec b' cs) = delivered (drain (b' @ concat cs))"
      by (rule Cons.IH [OF idle])
    then show ?thesis
      using d True drain_append [of "b @ c" rs b' "concat cs"]
      by (auto simp: feed_drain delivered_def split: prod.splits)
  next
    case False
    then show ?thesis
      using d drain_append_stop [of "b @ c" rs b' r "concat cs"]
      by (auto simp: feed_drain delivered_def split: result.splits)
  qed
qed

end

text \<open>A codec adds an encoder whose frames the decoder reads back one by one.\<close>

locale frame_codec = frame_decoder dec for dec :: "('e, 'r) decoder" +
  fixes enc :: "'p \<Rightarrow> bytes" and view :: "'p \<Rightarrow> 'r" and ok :: "'p \<Rightarrow> bool"
  assumes dec_enc: "ok p \<Longrightarrow> dec (enc p @ rest) = (rest, Ok (Some (view p)))"
    and empty_waits: "snd (dec []) = Ok None"
begin

lemma drain_encoded:
  assumes "list_all ok ps" and "snd (dec tail) = Ok None"
  shows "drain (concat (map enc ps) @ tail) = (map view ps, tail, Ok ())"
  using assms by (induction ps) (simp_all add: drain_unfold [of tail] drain_unfold [of "enc _ @ _"] dec_enc)

lemma stream_round_trip:
  assumes "list_all ok ps" and "snd (dec tail) = Ok None"
    and "concat chunks = concat (map enc ps) @ tail"
  shows "delivered (feeds dec [] chunks) = (map view ps, Ok ())"
  using feeds_drain [OF empty_waits, of chunks] drain_encoded [OF assms(1,2)] assms(3)
  by (simp add: delivered_def)

end

end
