(* ===== verification/Memdx_Codec.thy ===== *)
theory Memdx_Codec
  imports Memdx_Error Framing
begin

text \<open>
  Packets and the key-value frame codec (\<^verbatim>\<open>memdx/packet.rs\<close>, \<^verbatim>\<open>memdx/codec.rs\<close>). The encoder
  appends to the write buffer and returns the buffer even when it fails, because the bytes written
  before the failure stay there. The decoder takes at most one frame off the read buffer.
\<close>

section \<open>Packets\<close>

record ResponsePacket =
  rp_magic :: Magic
  rp_op_code :: OpCode
  rp_datatype :: u8
  rp_status :: Status
  rp_opaque :: u32
  rp_vbucket_id :: "u16 option"
  rp_cas :: "u64 option"
  rp_extras :: "bytes option"
  rp_key :: "bytes option"
  rp_value :: "bytes option"
  rp_framing_extras :: "bytes option"

definition response_packet_new :: "Magic \<Rightarrow> OpCode \<Rightarrow> u8 \<Rightarrow> Status \<Rightarrow> u32 \<Rightarrow> ResponsePacket" where
  "response_packet_new magic op_code datatype status opaque =
    \<lparr>rp_magic = magic, rp_op_code = op_code, rp_datatype = datatype, rp_status = status,
     rp_opaque = opaque, rp_vbucket_id = None, rp_cas = None, rp_extras = None, rp_key = None,
     rp_value = None, rp_framing_extras = None\<rparr>"

record RequestPacket =
  rq_magic :: Magic
  rq_op_code :: OpCode
  rq_datatype :: u8
  rq_vbucket_id :: "u16 option"
  rq_cas :: "u64 option"
  rq_extras :: "bytes option"
  rq_key :: "bytes option"
  rq_value :: "bytes option"
  rq_framing_extras :: "bytes option"
  rq_opaque :: "u32 option"

definition request_packet_new :: "Magic \<Rightarrow> OpCode \<Rightarrow> u8 \<Rightarrow> RequestPacket" where
  "request_packet_new magic op_code datatype =
    \<lparr>rq_magic = magic, rq_op_code = op_code, rq_datatype = datatype, rq_vbucket_id = None,
     rq_cas = None, rq_extras = None, rq_key = None, rq_value = None, rq_framing_extras = None,
     rq_opaque = None\<rparr>"

definition magic_try_from :: "u8 \<Rightarrow> (Error, Magic) result" where
  "magic_try_from v =
    (if v = 0x80 then Ok Magic.Req
     else if v = 0x81 then Ok Magic.Res
     else if v = 0x08 then Ok Magic.ReqExt
     else if v = 0x18 then Ok Magic.ResExt
     else if v = 0x82 then Ok Magic.ServerReq
     else if v = 0x83 then Ok Magic.ServerRes
     else Err (new_message_error (''unknown magic '' @ show_nat (unat v))))"

lemma magic_try_from_to_u8 [simp]: "magic_try_from (magic_to_u8 m) = Ok m"
  by (cases m) (simp_all add: magic_try_from_def)

lemma magic_try_from_Ok: "magic_try_from v = Ok m \<longleftrightarrow> magic_to_u8 m = v"
  by (cases m) (auto simp: magic_try_from_def)

lemma magic_try_from_not_Panic [simp]: "magic_try_from v \<noteq> Panic"
  by (simp add: magic_try_from_def)

section \<open>Decoder\<close>

definition HEADER_SIZE :: nat where
  "HEADER_SIZE = 24"

definition take_section :: "nat \<Rightarrow> bytes \<Rightarrow> (Error, bytes option \<times> bytes) result" where
  "take_section n sl =
    (if n > 0 then and_then (split_to n sl) (\<lambda>(b, sl). Ok (Some b, sl)) else Ok (None, sl))"

definition decode_body ::
    "ResponsePacket \<Rightarrow> nat \<Rightarrow> nat \<Rightarrow> nat \<Rightarrow> nat \<Rightarrow> bytes \<Rightarrow> (Error, ResponsePacket) result" where
  "decode_body packet flexible_extras_len extras_len key_len body_len sl =
    and_then (take_section flexible_extras_len sl) (\<lambda>(f, sl).
    and_then (take_section extras_len sl) (\<lambda>(e, sl).
    and_then (take_section key_len sl) (\<lambda>(k, sl).
    Ok (packet\<lparr>rp_framing_extras := f, rp_extras := e, rp_key := k,
               rp_value := if body_len > 0 then Some sl else None\<rparr>))))"

definition decode_slice :: "bytes \<Rightarrow> (Error, ResponsePacket) result" where
  "decode_slice sl =
    and_then (get_u8 sl) (\<lambda>(magic_byte, sl).
    and_then (magic_try_from magic_byte) (\<lambda>magic.
    let flexible = magic_is_extended magic in
    and_then (get_u8 sl) (\<lambda>(op_byte, sl).
    let opcode = opcode_from_u8 op_byte in
    and_then (if flexible
              then and_then (get_u8 sl) (\<lambda>(l, sl). Ok (unat l, sl))
              else Ok (0, sl)) (\<lambda>(flexible_extras_len, sl).
    and_then (if flexible
              then and_then (get_u8 sl) (\<lambda>(l, sl). Ok (unat l, sl))
              else and_then (get_u16 sl) (\<lambda>(l, sl). Ok (unat l, sl)))
             (\<lambda>(key_len, sl).
    and_then (get_u8 sl) (\<lambda>(extras_len_byte, sl).
    let extras_len = unat extras_len_byte in
    and_then (get_u8 sl) (\<lambda>(datatype, sl).
    and_then (get_u16 sl) (\<lambda>(status_word, sl).
    let status = status_from_u16 status_word in
    and_then (get_u32 sl) (\<lambda>(total_word, sl).
    let total_body_len = unat total_word in
    and_then (get_u32 sl) (\<lambda>(opaque, sl).
    and_then (get_u64 sl) (\<lambda>(cas, sl).
    and_then (usize_sub total_body_len key_len) (\<lambda>n1.
    and_then (usize_sub n1 extras_len) (\<lambda>n2.
    and_then (usize_sub n2 flexible_extras_len) (\<lambda>body_len.
    let packet = (response_packet_new magic opcode datatype status opaque)\<lparr>rp_cas := Some cas\<rparr> in
    decode_body packet flexible_extras_len extras_len key_len body_len sl))))))))))))))"

definition decode :: "bytes \<Rightarrow> bytes \<times> (Error, ResponsePacket option) result" where
  "decode buf =
    (let buf_len = length buf in
     if buf_len < HEADER_SIZE then (buf, Ok None)
     else
       let total_body_len = unat (u32_from_be (take 4 (drop 8 buf))) in
       if buf_len < HEADER_SIZE + total_body_len then (buf, Ok None)
       else
         (drop (HEADER_SIZE + total_body_len) buf,
          and_then (decode_slice (take (HEADER_SIZE + total_body_len) buf)) (\<lambda>p. Ok (Some p))))"

section \<open>Encoder\<close>

definition opt_len :: "bytes option \<Rightarrow> nat" where
  "opt_len x = (case x of None \<Rightarrow> 0 | Some b \<Rightarrow> length b)"

definition opt_bytes :: "bytes option \<Rightarrow> bytes" where
  "opt_bytes x = (case x of None \<Rightarrow> [] | Some b \<Rightarrow> b)"

definition encode :: "RequestPacket \<Rightarrow> bytes \<Rightarrow> bytes \<times> (Error, unit) result" where
  "encode item dst =
    (let key_size = opt_len (rq_key item);
         extras_size = opt_len (rq_extras item);
         framing_extras_size = opt_len (rq_framing_extras item);
         body_size = opt_len (rq_value item);
         total_body_size = key_size + extras_size + framing_extras_size + body_size;
         dst = dst @ [magic_to_u8 (rq_magic item)];
         dst = dst @ [opcode_to_u8 (rq_op_code item)];
         finish = (\<lambda>dst.
           dst @ [word_of_nat extras_size] @ [rq_datatype item]
             @ u16_to_be (unwrap_or 0 (rq_vbucket_id item))
             @ u32_to_be (word_of_nat total_body_size)
             @ u32_to_be (unwrap_or 0 (rq_opaque item))
             @ u64_to_be (unwrap_or 0 (rq_cas item))
             @ opt_bytes (rq_framing_extras item)
             @ opt_bytes (rq_extras item)
             @ opt_bytes (rq_key item)
             @ opt_bytes (rq_value item))
     in
       if rq_framing_extras item \<noteq> None then
         if key_size > 255 then
           (dst, Err (new_invalid_argument_error ''key size too large'' (Some ''key'')))
         else if framing_extras_size > 255 then
           (dst, Err (new_invalid_argument_error ''frame extras too large'' (Some ''frame extras'')))
         else
           (finish (dst @ [word_of_nat framing_extras_size] @ [word_of_nat key_size]), Ok ())
       else
         if key_size > 65535 then
           (dst, Err (new_invalid_argument_error ''key size too large'' (Some ''key'')))
         else
           (finish (dst @ u16_to_be (word_of_nat key_size)), Ok ()))"

section \<open>What a frame says of itself\<close>

text \<open>
  The length fields at their fixed offsets, and the packet that a frame whose lengths add up
  stands for. \<open>decode_slice_eq\<close> shows that reading the header field by field computes exactly this.
\<close>

definition hdr_framing_len :: "Magic \<Rightarrow> bytes \<Rightarrow> nat" where
  "hdr_framing_len m fr = (if magic_is_extended m then unat (fr ! 2) else 0)"

definition hdr_key_len :: "Magic \<Rightarrow> bytes \<Rightarrow> nat" where
  "hdr_key_len m fr =
    (if magic_is_extended m then unat (fr ! 3) else unat (u16_from_be (take 2 (drop 2 fr))))"

definition hdr_extras_len :: "bytes \<Rightarrow> nat" where
  "hdr_extras_len fr = unat (fr ! 4)"

definition hdr_total_len :: "bytes \<Rightarrow> nat" where
  "hdr_total_len fr = unat (u32_from_be (take 4 (drop 8 fr)))"

definition nonempty :: "bytes \<Rightarrow> bytes option" where
  "nonempty b = (if b = [] then None else Some b)"

definition frame_packet :: "Magic \<Rightarrow> bytes \<Rightarrow> ResponsePacket" where
  "frame_packet m fr =
    (let body = drop HEADER_SIZE fr; fl = hdr_framing_len m fr; el = hdr_extras_len fr;
         kl = hdr_key_len m fr in
     \<lparr>rp_magic = m, rp_op_code = opcode_from_u8 (fr ! 1), rp_datatype = fr ! 5,
      rp_status = status_from_u16 (u16_from_be (take 2 (drop 6 fr))),
      rp_opaque = u32_from_be (take 4 (drop 12 fr)), rp_vbucket_id = None,
      rp_cas = Some (u64_from_be (take 8 (drop 16 fr))),
      rp_extras = nonempty (take el (drop fl body)),
      rp_key = nonempty (take kl (drop (fl + el) body)),
      rp_value = nonempty (drop (fl + el + kl) body),
      rp_framing_extras = nonempty (take fl body)\<rparr>)"

lemma six_byte_prefix:
  assumes "24 \<le> length fr"
  obtains b0 b1 b2 b3 b4 b5 r where "fr = b0 # b1 # b2 # b3 # b4 # b5 # r" and "18 \<le> length r"
proof -
  have "fr = take 6 fr @ drop 6 fr" by simp
  moreover obtain b0 b1 b2 b3 b4 b5 where "take 6 fr = [b0, b1, b2, b3, b4, b5]"
  proof -
    have "length (take 6 fr) = Suc (Suc (Suc (Suc (Suc (Suc 0)))))" using assms by simp
    then show ?thesis using that by (auto simp only: length_Suc_conv length_0_conv)
  qed
  ultimately show ?thesis
    using assms by (intro that [of b0 b1 b2 b3 b4 b5 "drop 6 fr"]) auto
qed

lemma usize_sub_chain:
  "and_then (usize_sub a b) (\<lambda>n1. and_then (usize_sub n1 c) (\<lambda>n2. and_then (usize_sub n2 d) f)) =
    (if b + c + d \<le> a then f (a - b - c - d) else Panic)"
  by (auto simp: usize_sub_def)

lemma take_section_eq:
  "n \<le> length sl \<Longrightarrow> take_section n sl = Ok (nonempty (take n sl), drop n sl)"
  by (auto simp: take_section_def split_to_def nonempty_def)

lemma decode_body_eq:
  assumes "length sl = fl + el + kl + bl"
  shows "decode_body packet fl el kl bl sl =
    Ok (packet\<lparr>rp_framing_extras := nonempty (take fl sl),
               rp_extras := nonempty (take el (drop fl sl)),
               rp_key := nonempty (take kl (drop (fl + el) sl)),
               rp_value := nonempty (drop (fl + el + kl) sl)\<rparr>)"
  using assms
  by (cases "bl = 0")
     (simp_all add: decode_body_def take_section_eq nonempty_def add.commute add.left_commute)

lemma decode_slice_magic_error:
  "magic_try_from b0 = Err e \<Longrightarrow> decode_slice (b0 # r) = Err e"
  by (simp add: decode_slice_def)

lemma decode_slice_fields:
  assumes m: "magic_try_from b0 = Ok m" and r: "18 \<le> length r"
    and fr: "fr = b0 # b1 # b2 # b3 # b4 # b5 # r"
  shows "decode_slice fr =
    (if hdr_key_len m fr + hdr_extras_len fr + hdr_framing_len m fr \<le> hdr_total_len fr
     then decode_body
       ((response_packet_new m (opcode_from_u8 b1) b5 (status_from_u16 (u16_from_be (take 2 r)))
          (u32_from_be (take 4 (drop 6 r))))\<lparr>rp_cas := Some (u64_from_be (take 8 (drop 10 r)))\<rparr>)
       (hdr_framing_len m fr) (hdr_extras_len fr) (hdr_key_len m fr)
       (hdr_total_len fr - hdr_key_len m fr - hdr_extras_len fr - hdr_framing_len m fr)
       (drop 18 r)
     else Panic)"
proof -
  have fits: "\<not> length r < 2" "\<not> length r - 2 < 4" "\<not> length r - 6 < 4" "\<not> length r - 10 < 8"
    using r by auto
  show ?thesis
    using m
    by (cases "magic_is_extended m")
       (simp_all add: fits decode_slice_def fr get_u16_def get_u32_def get_u64_def usize_sub_chain
          hdr_framing_len_def hdr_key_len_def hdr_extras_len_def hdr_total_len_def Let_def)
qed

lemma decode_slice_eq:
  assumes len: "length fr = HEADER_SIZE + hdr_total_len fr"
  shows "decode_slice fr =
    and_then (magic_try_from (fr ! 0)) (\<lambda>m.
      if hdr_key_len m fr + hdr_extras_len fr + hdr_framing_len m fr \<le> hdr_total_len fr
      then Ok (frame_packet m fr) else Panic)"
proof -
  have "24 \<le> length fr" using len by (simp add: HEADER_SIZE_def)
  then obtain b0 b1 b2 b3 b4 b5 r
    where fr: "fr = b0 # b1 # b2 # b3 # b4 # b5 # r" and r: "18 \<le> length r"
    by (rule six_byte_prefix)
  have lr: "length (drop 18 r) = hdr_total_len fr"
    using len fr by (simp add: HEADER_SIZE_def)
  show ?thesis
  proof (cases "magic_try_from b0")
    case (Ok m)
    show ?thesis
    proof (cases "hdr_key_len m fr + hdr_extras_len fr + hdr_framing_len m fr \<le> hdr_total_len fr")
      case True
      then have sum: "length (drop 18 r) = hdr_framing_len m fr + hdr_extras_len fr + hdr_key_len m fr
          + (hdr_total_len fr - hdr_key_len m fr - hdr_extras_len fr - hdr_framing_len m fr)"
        using lr by simp
      show ?thesis
        using Ok True unfolding decode_slice_fields [OF Ok r fr] decode_body_eq [OF sum]
        by (simp add: frame_packet_def response_packet_new_def HEADER_SIZE_def Let_def fr)
    next
      case False
      then show ?thesis using Ok by (simp add: decode_slice_fields [OF Ok r fr]) (simp add: fr)
    qed
  qed (simp_all add: fr decode_slice_magic_error)
qed


section \<open>Framing\<close>

lemma hdr_take [simp]:
  assumes "24 \<le> n"
  shows "hdr_total_len (take n fr) = hdr_total_len fr"
  using assms by (simp add: hdr_total_len_def drop_take)

text \<open>The whole decoder as one equation over the frame at the front of the buffer.\<close>

lemma decode_eq:
  "decode buf =
    (let n = HEADER_SIZE + hdr_total_len buf; fr = take n buf in
     if length buf < HEADER_SIZE \<or> length buf < n then (buf, Ok None)
     else (drop n buf,
       and_then (magic_try_from (buf ! 0)) (\<lambda>m.
         if hdr_key_len m fr + hdr_extras_len fr + hdr_framing_len m fr \<le> hdr_total_len buf
         then Ok (Some (frame_packet m fr)) else Panic)))"
proof (cases "length buf < HEADER_SIZE \<or> length buf < HEADER_SIZE + hdr_total_len buf")
  case True
  then show ?thesis by (auto simp: decode_def hdr_total_len_def Let_def)
next
  case False
  define fr where "fr = take (HEADER_SIZE + hdr_total_len buf) buf"
  have tot: "hdr_total_len fr = hdr_total_len buf"
    by (simp add: fr_def HEADER_SIZE_def)
  have len: "length fr = HEADER_SIZE + hdr_total_len fr"
    using False tot by (simp add: fr_def)
  have hd: "fr ! 0 = buf ! 0" by (simp add: fr_def HEADER_SIZE_def)
  have "decode buf =
      (drop (HEADER_SIZE + hdr_total_len buf) buf, and_then (decode_slice fr) (\<lambda>p. Ok (Some p)))"
    using False by (simp add: decode_def fr_def hdr_total_len_def Let_def)
  then show ?thesis
    using False by (simp add: decode_slice_eq [OF len] hd tot and_then_assoc fr_def [symmetric] Let_def
        if_distrib [where f = "\<lambda>r. and_then r _"] cong: if_cong)
qed

lemma hdr_append [simp]:
  "24 \<le> length fr \<Longrightarrow> hdr_total_len (fr @ rest) = hdr_total_len fr"
  by (simp add: hdr_total_len_def)

lemma decode_incomplete_iff:
  "snd (decode buf) = Ok None \<longleftrightarrow>
    length buf < HEADER_SIZE \<or> length buf < HEADER_SIZE + hdr_total_len buf"
  by (auto simp: decode_eq Let_def res_simps split: if_splits)

lemma decode_incomplete_keeps_buffer: "snd (decode buf) = Ok None \<Longrightarrow> fst (decode buf) = buf"
  by (auto simp: decode_eq Let_def res_simps split: if_splits)

lemma decode_append:
  assumes "snd (decode buf) \<noteq> Ok None"
  shows "decode (buf @ rest) = (fst (decode buf) @ rest, snd (decode buf))"
proof -
  have len: "24 \<le> length buf" "HEADER_SIZE + hdr_total_len buf \<le> length buf"
    using assms unfolding decode_incomplete_iff by (auto simp: HEADER_SIZE_def)
  then have tk: "take (24 + hdr_total_len buf) (buf @ rest) = take (24 + hdr_total_len buf) buf"
    and "buf \<noteq> []"
    by (auto simp: HEADER_SIZE_def)
  with len show ?thesis
    by (simp add: decode_eq [of buf] decode_eq [of "buf @ rest"] HEADER_SIZE_def Let_def nth_append
        cong: if_cong)
qed

lemma decode_consumes:
  assumes "snd (decode buf) \<noteq> Ok None"
  shows "length (fst (decode buf)) < length buf"
  using assms unfolding decode_incomplete_iff
  by (auto simp: decode_eq HEADER_SIZE_def Let_def)

section \<open>Encoded frames\<close>

definition encodable :: "RequestPacket \<Rightarrow> bool" where
  "encodable item \<longleftrightarrow>
    (if rq_framing_extras item = None then opt_len (rq_key item) \<le> 65535
     else opt_len (rq_key item) \<le> 255 \<and> opt_len (rq_framing_extras item) \<le> 255)"

definition frame_fits :: "RequestPacket \<Rightarrow> bool" where
  "frame_fits item \<longleftrightarrow>
    encodable item \<and> opt_len (rq_extras item) \<le> 255 \<and>
    opt_len (rq_key item) + opt_len (rq_extras item) + opt_len (rq_framing_extras item)
      + opt_len (rq_value item) < 2 ^ 32 \<and>
    magic_is_extended (rq_magic item) = (rq_framing_extras item \<noteq> None)"

definition request_body :: "RequestPacket \<Rightarrow> bytes" where
  "request_body item = opt_bytes (rq_framing_extras item) @ opt_bytes (rq_extras item)
     @ opt_bytes (rq_key item) @ opt_bytes (rq_value item)"

definition request_frame :: "RequestPacket \<Rightarrow> bytes" where
  "request_frame item =
    [magic_to_u8 (rq_magic item), opcode_to_u8 (rq_op_code item)]
     @ (if rq_framing_extras item = None then u16_to_be (word_of_nat (opt_len (rq_key item)))
        else [word_of_nat (opt_len (rq_framing_extras item)), word_of_nat (opt_len (rq_key item))])
     @ [word_of_nat (opt_len (rq_extras item)), rq_datatype item]
     @ u16_to_be (unwrap_or 0 (rq_vbucket_id item))
     @ u32_to_be (word_of_nat (length (request_body item)))
     @ u32_to_be (unwrap_or 0 (rq_opaque item)) @ u64_to_be (unwrap_or 0 (rq_cas item))
     @ request_body item"

text \<open>The response that a peer which echoed a request frame would be decoded as.\<close>

definition echo :: "RequestPacket \<Rightarrow> ResponsePacket" where
  "echo item =
    \<lparr>rp_magic = rq_magic item, rp_op_code = opcode_from_u8 (opcode_to_u8 (rq_op_code item)),
     rp_datatype = rq_datatype item,
     rp_status = status_from_u16 (unwrap_or 0 (rq_vbucket_id item)),
     rp_opaque = unwrap_or 0 (rq_opaque item), rp_vbucket_id = None,
     rp_cas = Some (unwrap_or 0 (rq_cas item)),
     rp_extras = nonempty (opt_bytes (rq_extras item)),
     rp_key = nonempty (opt_bytes (rq_key item)),
     rp_value = nonempty (opt_bytes (rq_value item)),
     rp_framing_extras = nonempty (opt_bytes (rq_framing_extras item))\<rparr>"

lemma length_opt_bytes [simp]: "length (opt_bytes x) = opt_len x"
  by (cases x) (simp_all add: opt_bytes_def opt_len_def)

lemma length_request_body:
  "length (request_body item) = opt_len (rq_framing_extras item) + opt_len (rq_extras item)
     + opt_len (rq_key item) + opt_len (rq_value item)"
  by (simp add: request_body_def)

lemma encode_Ok: "encodable item \<Longrightarrow> encode item dst = (dst @ request_frame item, Ok ())"
  by (auto simp: encode_def encodable_def request_frame_def length_request_body request_body_def
      Let_def add.commute add.left_commute split: if_splits)

definition encode_error :: "RequestPacket \<Rightarrow> Error" where
  "encode_error item =
    (if rq_framing_extras item \<noteq> None \<and> opt_len (rq_key item) \<le> 255
     then new_invalid_argument_error ''frame extras too large'' (Some ''frame extras'')
     else new_invalid_argument_error ''key size too large'' (Some ''key''))"

lemma encode_Err:
  assumes "\<not> encodable item"
  shows "encode item dst =
    (dst @ [magic_to_u8 (rq_magic item), opcode_to_u8 (rq_op_code item)], Err (encode_error item))"
  using assms by (auto simp: encode_def encodable_def encode_error_def Let_def split: if_splits)


lemma frame_shape:
  assumes fr: "fr = b0 # b1 # b2 # b3 # b4 # b5 # (u16_to_be st @ u32_to_be tot @ u32_to_be opq
    @ u64_to_be c @ body)"
  shows "hdr_total_len fr = unat tot" "u16_from_be (take 2 (drop 6 fr)) = st"
    "u32_from_be (take 4 (drop 12 fr)) = opq" "u64_from_be (take 8 (drop 16 fr)) = c"
    "drop HEADER_SIZE fr = body" "length fr = HEADER_SIZE + length body"
  by (simp_all add: fr hdr_total_len_def be_simps HEADER_SIZE_def)

lemma unat_of_nat_byte: "n \<le> 255 \<Longrightarrow> unat (word_of_nat n :: u8) = n"
  by (simp add: unat_of_nat)

lemma request_frame_header:
  assumes "frame_fits item"
  defines "fr \<equiv> request_frame item" and "m \<equiv> rq_magic item"
  shows "hdr_framing_len m fr = opt_len (rq_framing_extras item)"
    "hdr_extras_len fr = opt_len (rq_extras item)"
    "hdr_key_len m fr = opt_len (rq_key item)"
    "hdr_total_len fr = length (request_body item)"
    "length fr = HEADER_SIZE + length (request_body item)"
    "frame_packet m fr = echo item"
proof -
  let ?lens = "if rq_framing_extras item = None
        then u16_to_be (word_of_nat (opt_len (rq_key item)))
        else [word_of_nat (opt_len (rq_framing_extras item)), word_of_nat (opt_len (rq_key item))]"
  have "length ?lens = Suc (Suc 0)" by simp
  then obtain b2 b3 where kb: "?lens = [b2, b3]"
    by (auto simp only: length_Suc_conv length_0_conv)
  have fr: "fr = magic_to_u8 m # opcode_to_u8 (rq_op_code item) # b2 # b3
      # word_of_nat (opt_len (rq_extras item)) # rq_datatype item
      # (u16_to_be (unwrap_or 0 (rq_vbucket_id item))
         @ u32_to_be (word_of_nat (length (request_body item)))
         @ u32_to_be (unwrap_or 0 (rq_opaque item)) @ u64_to_be (unwrap_or 0 (rq_cas item))
         @ request_body item)"
    by (simp add: fr_def m_def request_frame_def kb)
  note shape = frame_shape [OF fr]
  have small: "length (request_body item) < 2 ^ 32"
    using assms(1) by (simp add: frame_fits_def length_request_body)
  show fl: "hdr_framing_len m fr = opt_len (rq_framing_extras item)"
    using assms(1) kb
    by (auto simp: fr hdr_framing_len_def m_def frame_fits_def encodable_def unat_of_nat_byte
        opt_len_def split: if_splits)
  show el: "hdr_extras_len fr = opt_len (rq_extras item)"
    using assms(1) by (simp add: fr hdr_extras_len_def frame_fits_def unat_of_nat_byte)
  have "u16_from_be [b2, b3] = word_of_nat (opt_len (rq_key item))"
    if "rq_framing_extras item = None"
    using kb that u16_from_to_be by (metis (full_types))
  then show kl: "hdr_key_len m fr = opt_len (rq_key item)"
    using assms(1) kb
    by (auto simp: fr hdr_key_len_def m_def frame_fits_def encodable_def unat_of_nat_byte
        unat_of_nat split: if_splits)
  show "hdr_total_len fr = length (request_body item)"
    using shape(1) small by (simp add: unat_of_nat)
  show "length fr = HEADER_SIZE + length (request_body item)" by (rule shape(6))
  show "frame_packet m fr = echo item"
    unfolding frame_packet_def fl el kl shape Let_def
    by (simp add: echo_def fr m_def request_body_def)
qed

lemma decode_request_frame:
  assumes "frame_fits item"
  shows "decode (request_frame item @ rest) = (rest, Ok (Some (echo item)))"
proof -
  note h = request_frame_header [OF assms]
  have "decode (request_frame item) = ([], Ok (Some (echo item)))"
    by (subst decode_eq)
       (use h in \<open>auto simp: Let_def length_request_body request_frame_def\<close>)
  then show ?thesis by (simp add: decode_append)
qed


interpretation kv: frame_codec decode request_frame echo frame_fits
proof unfold_locales
  fix b rest :: bytes
  show "snd (decode b) = Ok None \<Longrightarrow> fst (decode b) = b"
    by (rule decode_incomplete_keeps_buffer)
  show "snd (decode b) \<noteq> Ok None \<Longrightarrow> decode (b @ rest) = (fst (decode b) @ rest, snd (decode b))"
    by (rule decode_append)
  show "snd (decode b) \<noteq> Ok None \<Longrightarrow> length (fst (decode b)) < length b"
    by (rule decode_consumes)
  show "frame_fits p \<Longrightarrow> decode (request_frame p @ rest) = (rest, Ok (Some (echo p)))" for p
    by (rule decode_request_frame)
  show "snd (decode []) = Ok None"
    by (simp add: decode_incomplete_iff HEADER_SIZE_def)
qed

section \<open>Properties\<close>

definition sample_request :: RequestPacket where
  "sample_request = (request_packet_new Magic.Req OpCode.Get 0)
     \<lparr>rq_vbucket_id := Some 1, rq_key := Some [0x61, 0x62], rq_opaque := Some 7\<rparr>"

lemma sample_request_fits: "frame_fits sample_request"
  by (simp add: sample_request_def frame_fits_def encodable_def request_packet_new_def opt_len_def)

text \<open>
  C1. Encoding any sequence of well-sized request packets and delivering the bytes in any chunks,
  followed by an incomplete frame, makes the decoder hand out exactly those packets in order and
  then wait for more bytes.
\<close>

theorem codec_stream_round_trip:
  assumes "list_all frame_fits ps" and "snd (decode tail) = Ok None"
    and "concat chunks = concat (map (\<lambda>p. fst (encode p [])) ps) @ tail"
  shows "delivered (feeds decode [] chunks) = (map echo ps, Ok ())"
proof -
  have "map (\<lambda>p. fst (encode p [])) ps = map request_frame ps"
    using assms(1) by (auto simp: list_all_iff frame_fits_def encode_Ok)
  with assms show ?thesis by (simp add: kv.stream_round_trip)
qed

theorem codec_stream_round_trip_witness:
  "delivered (feeds decode [] [fst (encode sample_request []) @ [0x81], [0]])
     = ([echo sample_request], Ok ())"
proof -
  have "snd (decode [0x81, 0]) = Ok None"
    by (simp add: decode_incomplete_iff HEADER_SIZE_def)
  then show ?thesis
    using codec_stream_round_trip [of "[sample_request]" "[0x81, 0]"
        "[fst (encode sample_request []) @ [0x81], [0]]"] sample_request_fits
    by simp
qed

text \<open>
  Splitting the byte stream differently never changes what is decoded: two deliveries of the
  same bytes yield the same packets and the same outcome, valid or not.
\<close>

theorem codec_chunk_independence:
  assumes "concat chunks = concat chunks'"
  shows "delivered (feeds decode [] chunks) = delivered (feeds decode [] chunks')"
  using kv.feeds_drain [OF kv.empty_waits, of chunks]
    kv.feeds_drain [OF kv.empty_waits, of chunks'] assms
  by simp

theorem codec_chunk_independence_witness:
  "delivered (feeds decode [] [[0x81], [0, 0]]) = delivered (feeds decode [] [[0x81, 0], [], [0]])"
  using codec_chunk_independence [of "[[0x81], [0, 0]]" "[[0x81, 0], [], [0]]"] by simp

text \<open>
  The decoder panics exactly on a complete frame with a known magic byte whose key, extras and
  framing extras lengths add up to more than its total body length.
\<close>

theorem decode_panics_iff:
  "snd (decode buf) = Panic \<longleftrightarrow>
    (HEADER_SIZE + hdr_total_len buf \<le> length buf \<and> HEADER_SIZE \<le> length buf \<and>
     (\<exists>m. magic_to_u8 m = buf ! 0 \<and>
        hdr_total_len buf < hdr_key_len m (take (HEADER_SIZE + hdr_total_len buf) buf)
          + hdr_extras_len (take (HEADER_SIZE + hdr_total_len buf) buf)
          + hdr_framing_len m (take (HEADER_SIZE + hdr_total_len buf) buf)))"
  by (auto simp: decode_eq Let_def res_simps magic_try_from_Ok not_le not_less split: if_splits)

text \<open>
  The encoder succeeds exactly when the lengths fit its header fields; when it fails it has
  already appended the magic and operation code bytes to the output buffer.
\<close>

theorem encode_outcome:
  "encode item dst =
    (if encodable item then (dst @ request_frame item, Ok ())
     else (dst @ [magic_to_u8 (rq_magic item), opcode_to_u8 (rq_op_code item)],
           Err (encode_error item)))"
  by (simp add: encode_Ok encode_Err)

end
