(* ===== verification/Memdx_Request.thy ===== *)
theory Memdx_Request
  imports Memdx_Subdoc Memdx_Extframe Memdx_Codec
begin

text \<open>
  Request structures (\<^verbatim>\<open>memdx/request.rs\<close>), the context a client keeps for the response
  (\<^verbatim>\<open>memdx/client.rs\<close>), and the encoders that do not depend on the negotiated features
  (\<^verbatim>\<open>memdx/ops_core.rs\<close>, \<^verbatim>\<open>memdx/ops_util.rs\<close>). Every key operation carries the four fields of
  \<open>KeyRequest\<close>; durable mutations add two. The builder methods of the source are record updates.
\<close>

section \<open>Request structures\<close>

record KeyRequest =
  kr_collection_id :: u32
  kr_key :: bytes
  kr_vbucket_id :: u16
  kr_on_behalf_of :: "string option"

type_synonym GetRequest = KeyRequest
type_synonym GetMetaRequest = KeyRequest

definition get_request_new :: "u32 \<Rightarrow> bytes \<Rightarrow> u16 \<Rightarrow> GetRequest" where
  "get_request_new collection_id key vbucket_id =
    \<lparr>kr_collection_id = collection_id, kr_key = key, kr_vbucket_id = vbucket_id,
     kr_on_behalf_of = None\<rparr>"

record MutationRequest = KeyRequest +
  mr_durability_level :: "DurabilityLevel option"
  mr_durability_level_timeout :: "Duration option"

record SetRequest = MutationRequest +
  set_flags :: u32
  set_value :: bytes
  set_datatype :: u8
  set_expiry :: "u32 option"
  set_preserve_expiry :: "bool option"
  set_cas :: "u64 option"

definition set_request_new :: "u32 \<Rightarrow> bytes \<Rightarrow> u16 \<Rightarrow> u32 \<Rightarrow> bytes \<Rightarrow> u8 \<Rightarrow> SetRequest" where
  "set_request_new collection_id key vbucket_id flags value datatype =
    \<lparr>kr_collection_id = collection_id, kr_key = key, kr_vbucket_id = vbucket_id,
     kr_on_behalf_of = None, mr_durability_level = None, mr_durability_level_timeout = None,
     set_flags = flags, set_value = value, set_datatype = datatype, set_expiry = None,
     set_preserve_expiry = None, set_cas = None\<rparr>"

text \<open>\<open>ReplaceRequest\<close> has the fields of \<open>SetRequest\<close>.\<close>

type_synonym ReplaceRequest = SetRequest

record DeleteRequest = MutationRequest +
  del_cas :: "u64 option"

record GetAndLockRequest = KeyRequest +
  gal_lock_time :: u32

record GetAndTouchRequest = KeyRequest +
  gat_expiry :: u32

record UnlockRequest = KeyRequest +
  unl_cas :: u64

record TouchRequest = KeyRequest +
  tch_expiry :: u32

record AddRequest = MutationRequest +
  add_flags :: u32
  add_value :: bytes
  add_datatype :: u8
  add_expiry :: "u32 option"

record AppendRequest = MutationRequest +
  app_value :: bytes
  app_datatype :: u8
  app_cas :: "u64 option"

type_synonym PrependRequest = AppendRequest

record IncrementRequest = MutationRequest +
  inc_initial :: "u64 option"
  inc_delta :: u64
  inc_expiry :: "u32 option"

type_synonym DecrementRequest = IncrementRequest

record LookupInRequest = KeyRequest +
  lir_flags :: SubdocDocFlag
  lir_ops :: "LookupInOp list"

record MutateInRequest = MutationRequest +
  mir_flags :: SubdocDocFlag
  mir_ops :: "MutateInOp list"
  mir_expiry :: "u32 option"
  mir_preserve_expiry :: "bool option"
  mir_cas :: "u64 option"

section \<open>Response context\<close>

record ResponseContext =
  rc_cas :: "u64 option"
  rc_subdoc_info :: "SubdocRequestInfo option"
  rc_scope_name :: "string option"
  rc_collection_name :: "string option"

text \<open>
  What an encoder hands to \<^verbatim>\<open>Dispatcher::dispatch\<close>: the packet and the context for its response (the
  operation is never persistent).
\<close>

type_synonym dispatch_call = "RequestPacket \<times> ResponseContext option"

section \<open>Authentication mechanisms\<close>

datatype AuthMechanism = Plain | ScramSha1 | ScramSha256 | ScramSha512 | OAuthBearer

primrec auth_mechanism_name :: "AuthMechanism \<Rightarrow> string" where
    "auth_mechanism_name AuthMechanism.Plain = ''PLAIN''"
  | "auth_mechanism_name AuthMechanism.ScramSha1 = ''SCRAM-SHA1''"
  | "auth_mechanism_name AuthMechanism.ScramSha256 = ''SCRAM-SHA256''"
  | "auth_mechanism_name AuthMechanism.ScramSha512 = ''SCRAM-SHA512''"
  | "auth_mechanism_name AuthMechanism.OAuthBearer = ''OAUTHBEARER''"

definition auth_mechanism_try_from :: "string \<Rightarrow> (Error, AuthMechanism) result" where
  "auth_mechanism_try_from v =
    (if v = ''PLAIN'' then Ok AuthMechanism.Plain
     else if v = ''SCRAM-SHA1'' then Ok AuthMechanism.ScramSha1
     else if v = ''SCRAM-SHA256'' then Ok AuthMechanism.ScramSha256
     else if v = ''SCRAM-SHA512'' then Ok AuthMechanism.ScramSha512
     else if v = ''OAUTHBEARER'' then Ok AuthMechanism.OAuthBearer
     else Err (new_protocol_error (''unsupported auth mechanism '' @ v)))"

lemma auth_mechanism_try_from_name [simp]:
  "auth_mechanism_try_from (auth_mechanism_name m) = Ok m"
  by (cases m) (simp_all add: auth_mechanism_try_from_def)

section \<open>Core and utility encoders\<close>

definition hello :: "HelloFeature list \<Rightarrow> dispatch_call" where
  "hello requested_features =
    ((request_packet_new Magic.Req OpCode.Hello 0)
       \<lparr>rq_value := Some (concat (map (\<lambda>f. u16_to_be (hello_feature_to_u16 f)) requested_features))\<rparr>,
     None)"

definition get_error_map :: "u16 \<Rightarrow> dispatch_call" where
  "get_error_map version =
    ((request_packet_new Magic.Req OpCode.GetErrorMap 0)\<lparr>rq_value := Some (u16_to_be version)\<rparr>, None)"

definition select_bucket :: "string \<Rightarrow> dispatch_call" where
  "select_bucket bucket_name =
    ((request_packet_new Magic.Req OpCode.SelectBucket 0)\<lparr>rq_key := Some (as_bytes bucket_name)\<rparr>, None)"

text \<open>A known configuration version is an (epoch, revision) pair of 64-bit integers.\<close>

definition get_cluster_config :: "(u64 \<times> u64) option \<Rightarrow> dispatch_call" where
  "get_cluster_config known_version =
    ((request_packet_new Magic.Req OpCode.GetClusterConfig 0)
       \<lparr>rq_extras := (case known_version of
            Some (rev_epoch, rev_id) \<Rightarrow> Some (u64_to_be rev_epoch @ u64_to_be rev_id)
          | None \<Rightarrow> None)\<rparr>, None)"

definition sasl_auth :: "AuthMechanism \<Rightarrow> bytes \<Rightarrow> dispatch_call" where
  "sasl_auth auth_mechanism payload =
    ((request_packet_new Magic.Req OpCode.SASLAuth 0)
       \<lparr>rq_key := Some (as_bytes (auth_mechanism_name auth_mechanism)), rq_value := Some payload\<rparr>, None)"

definition sasl_list_mechs :: dispatch_call where
  "sasl_list_mechs = (request_packet_new Magic.Req OpCode.SASLListMechs 0, None)"

definition sasl_step :: "AuthMechanism \<Rightarrow> bytes \<Rightarrow> dispatch_call" where
  "sasl_step auth_mechanism payload =
    ((request_packet_new Magic.Req OpCode.SASLStep 0)
       \<lparr>rq_key := Some (as_bytes (auth_mechanism_name auth_mechanism)), rq_value := Some payload\<rparr>, None)"

definition get_collection_id :: "string \<Rightarrow> string \<Rightarrow> dispatch_call" where
  "get_collection_id scope_name collection_name =
    ((request_packet_new Magic.Req OpCode.GetCollectionId 0)
       \<lparr>rq_value := Some (as_bytes (scope_name @ ''.'' @ collection_name))\<rparr>,
     Some \<lparr>rc_cas = None, rc_subdoc_info = None, rc_scope_name = Some scope_name,
           rc_collection_name = Some collection_name\<rparr>)"

definition ping :: dispatch_call where
  "ping = (request_packet_new Magic.Req OpCode.Noop 0, None)"

end
