(* ===== verification/Memdx_Crud.thy ===== *)
theory Memdx_Crud
  imports Memdx_Request
begin

text \<open>
  The document operations (\<^verbatim>\<open>memdx/ops_crud.rs\<close>): for each, the packet and response context it
  dispatches, or the error it returns before anything is sent. Every operation starts with the
  same two steps, framing extras and then the collection-prefixed key, here \<open>crud_header\<close>.
\<close>

section \<open>Keys and framing extras\<close>

definition MAX_KEY_SIZE :: nat where "MAX_KEY_SIZE = 250"
definition MAX_KEY_SIZE_USING_COLLECTIONS :: nat where "MAX_KEY_SIZE_USING_COLLECTIONS = 246"

record OpsCrud =
  collections_enabled :: bool
  durability_enabled :: bool
  preserve_expiry_enabled :: bool
  ext_frames_enabled :: bool

definition encode_collection_and_key ::
    "OpsCrud \<Rightarrow> u32 \<Rightarrow> bytes \<Rightarrow> bytes \<Rightarrow> (Error, bytes) result" where
  "encode_collection_and_key self collection_id key buf =
    (let key_len = length key in
     if \<not> collections_enabled self then
       if key_len > MAX_KEY_SIZE then
         Err (new_invalid_argument_error
               (''key too long, '' @ show_nat MAX_KEY_SIZE @ '' bytes max but is ''
                @ show_nat key_len @ '' bytes'') (Some ''key''))
       else if collection_id \<noteq> 0 then
         Err (new_invalid_argument_error ''collections not enabled'' (Some ''collection_id''))
       else Ok key
     else
       let max_key_size =
         (if collection_id = 0 then MAX_KEY_SIZE else MAX_KEY_SIZE_USING_COLLECTIONS) in
       and_then (make_uleb128_32 collection_id buf) (\<lambda>(buf, encoded_size).
       if key_len > max_key_size then
         Err (new_invalid_argument_error
               (''key too long, '' @ show_nat max_key_size @ '' bytes max but is ''
                @ show_nat key_len @ '' bytes including collection prefix'') (Some ''key''))
       else
         and_then (write_at buf encoded_size key) (\<lambda>buf.
         Ok (take (key_len + encoded_size) buf))))"

text \<open>The frames are appended in a fixed order; the choice of magic follows.\<close>

definition req_frames ::
    "OpsCrud \<Rightarrow> DurabilityLevel option \<Rightarrow> Duration option \<Rightarrow> bool option \<Rightarrow> string option \<Rightarrow> bytes
      \<Rightarrow> (Error, bytes \<times> nat) result" where
  "req_frames self durability_level durability_timeout preserve_expiry on_behalf_of buf =
    and_then
      (case on_behalf_of of Some obo \<Rightarrow> append_ext_frame ExtReqFrameCode.OnBehalfOf (as_bytes obo) buf 0
       | None \<Rightarrow> Ok (buf, 0)) (\<lambda>(buf, offset).
    and_then
      (case durability_level of
         Some dura \<Rightarrow>
           if \<not> durability_enabled self then
             Err (new_invalid_argument_error
                   ''cannot use synchronous durability when its not enabled''
                   (Some ''durability_level''))
           else
             and_then (encode_durability_ext_frame dura durability_timeout) (\<lambda>dura_buf.
               append_ext_frame ExtReqFrameCode.Durability dura_buf buf offset)
       | None \<Rightarrow>
           if durability_timeout \<noteq> None then
             Err (new_invalid_argument_error
                   ''cannot encode durability timeout without durability level''
                   (Some ''durability_timeout''))
           else Ok (buf, offset)) (\<lambda>(buf, offset).
    if preserve_expiry \<noteq> None then
      if \<not> preserve_expiry_enabled self then
        Err (new_invalid_argument_error ''cannot use preserve expiry when its not enabled''
              (Some ''preserve_expiry''))
      else append_ext_frame ExtReqFrameCode.PreserveTTL [] buf offset
    else Ok (buf, offset)))"

definition encode_req_ext_frames ::
    "OpsCrud \<Rightarrow> DurabilityLevel option \<Rightarrow> Duration option \<Rightarrow> bool option \<Rightarrow> string option \<Rightarrow> bytes
      \<Rightarrow> (Error, Magic \<times> nat \<times> bytes) result" where
  "encode_req_ext_frames self durability_level durability_timeout preserve_expiry on_behalf_of buf =
    and_then (req_frames self durability_level durability_timeout preserve_expiry on_behalf_of buf)
      (\<lambda>(buf, offset).
    if offset > 0 then
      if \<not> ext_frames_enabled self then
        Err (new_invalid_argument_error ''cannot use framing extras when its not enabled''
              (Some ''ext_frames_enabled''))
      else Ok (Magic.ReqExt, offset, buf)
    else Ok (Magic.Req, offset, buf))"

definition crud_header ::
    "OpsCrud \<Rightarrow> DurabilityLevel option \<Rightarrow> Duration option \<Rightarrow> bool option \<Rightarrow> ('a) KeyRequest_scheme
      \<Rightarrow> (Error, Magic \<times> bytes option \<times> bytes) result" where
  "crud_header self durability_level durability_timeout preserve_expiry request =
    and_then (encode_req_ext_frames self durability_level durability_timeout preserve_expiry
                (kr_on_behalf_of request) (replicate 128 0)) (\<lambda>(magic, used, ext_frame_buf).
    and_then (encode_collection_and_key self (kr_collection_id request) (kr_key request)
                (replicate 251 0)) (\<lambda>key.
    Ok (magic, if used > 0 then Some (take used ext_frame_buf) else None, key)))"

section \<open>Operations\<close>

definition set_op :: "OpsCrud \<Rightarrow> SetRequest \<Rightarrow> (Error, dispatch_call) result" where
  "set_op self request =
    and_then (crud_header self (mr_durability_level request) (mr_durability_level_timeout request)
                (set_preserve_expiry request) request) (\<lambda>(magic, framing_extras, key).
    Ok (\<lparr>rq_magic = magic, rq_op_code = OpCode.Set, rq_datatype = set_datatype request,
         rq_vbucket_id = Some (kr_vbucket_id request), rq_cas = set_cas request,
         rq_extras = Some (u32_to_be (set_flags request)
                           @ u32_to_be (unwrap_or 0 (set_expiry request))),
         rq_key = Some key, rq_value = Some (set_value request),
         rq_framing_extras = framing_extras, rq_opaque = None\<rparr>, None))"

definition get_op :: "OpsCrud \<Rightarrow> GetRequest \<Rightarrow> (Error, dispatch_call) result" where
  "get_op self request =
    and_then (crud_header self None None None request) (\<lambda>(magic, framing_extras, key).
    Ok (\<lparr>rq_magic = magic, rq_op_code = OpCode.Get, rq_datatype = 0,
         rq_vbucket_id = Some (kr_vbucket_id request), rq_cas = None, rq_extras = None,
         rq_key = Some key, rq_value = None,
         rq_framing_extras = framing_extras, rq_opaque = None\<rparr>, None))"

definition get_meta :: "OpsCrud \<Rightarrow> GetMetaRequest \<Rightarrow> (Error, dispatch_call) result" where
  "get_meta self request =
    and_then (crud_header self None None None request) (\<lambda>(magic, framing_extras, key).
    Ok (\<lparr>rq_magic = magic, rq_op_code = OpCode.GetMeta, rq_datatype = 0,
         rq_vbucket_id = Some (kr_vbucket_id request), rq_cas = None, rq_extras = Some [2],
         rq_key = Some key, rq_value = None,
         rq_framing_extras = framing_extras, rq_opaque = None\<rparr>, None))"

definition delete_op :: "OpsCrud \<Rightarrow> DeleteRequest \<Rightarrow> (Error, dispatch_call) result" where
  "delete_op self request =
    and_then (crud_header self (mr_durability_level request) (mr_durability_level_timeout request)
                None request) (\<lambda>(magic, framing_extras, key).
    Ok (\<lparr>rq_magic = magic, rq_op_code = OpCode.Delete, rq_datatype = 0,
         rq_vbucket_id = Some (kr_vbucket_id request), rq_cas = del_cas request, rq_extras = None,
         rq_key = Some key, rq_value = None,
         rq_framing_extras = framing_extras, rq_opaque = None\<rparr>, None))"

definition get_and_lock :: "OpsCrud \<Rightarrow> GetAndLockRequest \<Rightarrow> (Error, dispatch_call) result" where
  "get_and_lock self request =
    and_then (crud_header self None None None request) (\<lambda>(magic, framing_extras, key).
    Ok (\<lparr>rq_magic = magic, rq_op_code = OpCode.GetLocked, rq_datatype = 0,
         rq_vbucket_id = Some (kr_vbucket_id request), rq_cas = None,
         rq_extras = Some (u32_to_be (gal_lock_time request)),
         rq_key = Some key, rq_value = None,
         rq_framing_extras = framing_extras, rq_opaque = None\<rparr>, None))"

definition get_and_touch :: "OpsCrud \<Rightarrow> GetAndTouchRequest \<Rightarrow> (Error, dispatch_call) result" where
  "get_and_touch self request =
    and_then (crud_header self None None None request) (\<lambda>(magic, framing_extras, key).
    Ok (\<lparr>rq_magic = magic, rq_op_code = OpCode.GAT, rq_datatype = 0,
         rq_vbucket_id = Some (kr_vbucket_id request), rq_cas = None,
         rq_extras = Some (u32_to_be (gat_expiry request)),
         rq_key = Some key, rq_value = None,
         rq_framing_extras = framing_extras, rq_opaque = None\<rparr>, None))"

definition unlock_op :: "OpsCrud \<Rightarrow> UnlockRequest \<Rightarrow> (Error, dispatch_call) result" where
  "unlock_op self request =
    and_then (crud_header self None None None request) (\<lambda>(magic, framing_extras, key).
    Ok (\<lparr>rq_magic = magic, rq_op_code = OpCode.UnlockKey, rq_datatype = 0,
         rq_vbucket_id = Some (kr_vbucket_id request), rq_cas = Some (unl_cas request),
         rq_extras = None, rq_key = Some key, rq_value = None,
         rq_framing_extras = framing_extras, rq_opaque = None\<rparr>, None))"

definition touch_op :: "OpsCrud \<Rightarrow> TouchRequest \<Rightarrow> (Error, dispatch_call) result" where
  "touch_op self request =
    and_then (crud_header self None None None request) (\<lambda>(magic, framing_extras, key).
    Ok (\<lparr>rq_magic = magic, rq_op_code = OpCode.Touch, rq_datatype = 0,
         rq_vbucket_id = Some (kr_vbucket_id request), rq_cas = None,
         rq_extras = Some (u32_to_be (tch_expiry request)),
         rq_key = Some key, rq_value = None,
         rq_framing_extras = framing_extras, rq_opaque = None\<rparr>, None))"

definition add_op :: "OpsCrud \<Rightarrow> AddRequest \<Rightarrow> (Error, dispatch_call) result" where
  "add_op self request =
    and_then (crud_header self (mr_durability_level request) (mr_durability_level_timeout request)
                None request) (\<lambda>(magic, framing_extras, key).
    Ok (\<lparr>rq_magic = magic, rq_op_code = OpCode.Add, rq_datatype = add_datatype request,
         rq_vbucket_id = Some (kr_vbucket_id request), rq_cas = None,
         rq_extras = Some (u32_to_be (add_flags request)
                           @ u32_to_be (unwrap_or 0 (add_expiry request))),
         rq_key = Some key, rq_value = Some (add_value request),
         rq_framing_extras = framing_extras, rq_opaque = None\<rparr>, None))"

definition replace_op :: "OpsCrud \<Rightarrow> ReplaceRequest \<Rightarrow> (Error, dispatch_call) result" where
  "replace_op self request =
    (if set_expiry request \<noteq> None \<and> set_preserve_expiry request \<noteq> None then
       Err (new_invalid_argument_error ''cannot specify expiry and preserve expiry together'' None)
     else
       and_then (crud_header self (mr_durability_level request)
                   (mr_durability_level_timeout request) (set_preserve_expiry request) request)
                (\<lambda>(magic, framing_extras, key).
       Ok (\<lparr>rq_magic = magic, rq_op_code = OpCode.Replace, rq_datatype = set_datatype request,
            rq_vbucket_id = Some (kr_vbucket_id request), rq_cas = set_cas request,
            rq_extras = Some (u32_to_be (set_flags request)
                              @ u32_to_be (unwrap_or 0 (set_expiry request))),
            rq_key = Some key, rq_value = Some (set_value request),
            rq_framing_extras = framing_extras, rq_opaque = None\<rparr>, None)))"

definition append_op :: "OpsCrud \<Rightarrow> AppendRequest \<Rightarrow> (Error, dispatch_call) result" where
  "append_op self request =
    and_then (crud_header self (mr_durability_level request) (mr_durability_level_timeout request)
                None request) (\<lambda>(magic, framing_extras, key).
    Ok (\<lparr>rq_magic = magic, rq_op_code = OpCode.Append, rq_datatype = app_datatype request,
         rq_vbucket_id = Some (kr_vbucket_id request), rq_cas = app_cas request,
         rq_extras = None, rq_key = Some key, rq_value = Some (app_value request),
         rq_framing_extras = framing_extras, rq_opaque = None\<rparr>,
        Some \<lparr>rc_cas = app_cas request, rc_subdoc_info = None, rc_scope_name = None,
              rc_collection_name = None\<rparr>))"

definition prepend_op :: "OpsCrud \<Rightarrow> PrependRequest \<Rightarrow> (Error, dispatch_call) result" where
  "prepend_op self request =
    and_then (crud_header self (mr_durability_level request) (mr_durability_level_timeout request)
                None request) (\<lambda>(magic, framing_extras, key).
    Ok (\<lparr>rq_magic = magic, rq_op_code = OpCode.Prepend, rq_datatype = app_datatype request,
         rq_vbucket_id = Some (kr_vbucket_id request), rq_cas = app_cas request,
         rq_extras = None, rq_key = Some key, rq_value = Some (app_value request),
         rq_framing_extras = framing_extras, rq_opaque = None\<rparr>,
        Some \<lparr>rc_cas = app_cas request, rc_subdoc_info = None, rc_scope_name = None,
              rc_collection_name = None\<rparr>))"

definition encode_counter_values :: "u64 \<Rightarrow> u64 option \<Rightarrow> u32 option \<Rightarrow> bytes" where
  "encode_counter_values delta initial expiry =
    u64_to_be delta @
    (case initial of
       Some initial \<Rightarrow> u64_to_be initial @ u32_to_be (unwrap_or 0 expiry)
     | None \<Rightarrow> u64_to_be 0x0000000000000000 @ u32_to_be 0xFFFFFFFF)"

definition increment_op :: "OpsCrud \<Rightarrow> IncrementRequest \<Rightarrow> (Error, dispatch_call) result" where
  "increment_op self request =
    and_then (crud_header self (mr_durability_level request) (mr_durability_level_timeout request)
                None request) (\<lambda>(magic, framing_extras, key).
    Ok (\<lparr>rq_magic = magic, rq_op_code = OpCode.Increment, rq_datatype = 0,
         rq_vbucket_id = Some (kr_vbucket_id request), rq_cas = None,
         rq_extras = Some (encode_counter_values (inc_delta request) (inc_initial request)
                             (inc_expiry request)),
         rq_key = Some key, rq_value = None,
         rq_framing_extras = framing_extras, rq_opaque = None\<rparr>, None))"

definition decrement_op :: "OpsCrud \<Rightarrow> DecrementRequest \<Rightarrow> (Error, dispatch_call) result" where
  "decrement_op self request =
    and_then (crud_header self (mr_durability_level request) (mr_durability_level_timeout request)
                None request) (\<lambda>(magic, framing_extras, key).
    Ok (\<lparr>rq_magic = magic, rq_op_code = OpCode.Decrement, rq_datatype = 0,
         rq_vbucket_id = Some (kr_vbucket_id request), rq_cas = None,
         rq_extras = Some (encode_counter_values (inc_delta request) (inc_initial request)
                             (inc_expiry request)),
         rq_key = Some key, rq_value = None,
         rq_framing_extras = framing_extras, rq_opaque = None\<rparr>, None))"

section \<open>Sub-document operations\<close>

text \<open>
  Both operations fill a zeroed buffer of the summed size; every write is range checked.
\<close>

fun lookup_in_ops_loop :: "LookupInOp list \<Rightarrow> bytes \<Rightarrow> nat \<Rightarrow> (Error, bytes) result" where
  "lookup_in_ops_loop [] value_buf value_iter = Ok value_buf"
| "lookup_in_ops_loop (op # ops) value_buf value_iter =
    (let path_bytes_len = length (lio_path op) in
     and_then (write_at value_buf value_iter [opcode_to_u8 (lookup_in_op_code (lio_op op))]) (\<lambda>value_buf.
     and_then (write_at value_buf (value_iter + 1) [lio_flags op]) (\<lambda>value_buf.
     and_then (write_at value_buf (value_iter + 2) (u16_to_be (word_of_nat path_bytes_len))) (\<lambda>value_buf.
     and_then (write_at value_buf (value_iter + 4) (lio_path op)) (\<lambda>value_buf.
     lookup_in_ops_loop ops value_buf (value_iter + (4 + path_bytes_len)))))))"

definition lookup_in :: "OpsCrud \<Rightarrow> LookupInRequest \<Rightarrow> (Error, dispatch_call) result" where
  "lookup_in self request =
    and_then (crud_header self None None None request) (\<lambda>(magic, framing_extras, key).
    let len_ops = length (lir_ops request);
        path_bytes_total = sum_list (map (\<lambda>op. length (lio_path op)) (lir_ops request)) in
    and_then (lookup_in_ops_loop (lir_ops request) (replicate (len_ops * 4 + path_bytes_total) 0) 0)
             (\<lambda>value_buf.
    Ok (\<lparr>rq_magic = magic, rq_op_code = OpCode.SubDocMultiLookup, rq_datatype = 0,
         rq_vbucket_id = Some (kr_vbucket_id request), rq_cas = None,
         rq_extras = Some (if flags_is_empty (lir_flags request) then [] else [lir_flags request]),
         rq_key = Some key, rq_value = Some value_buf,
         rq_framing_extras = framing_extras, rq_opaque = None\<rparr>,
        Some \<lparr>rc_cas = None,
              rc_subdoc_info = Some \<lparr>sri_flags = lir_flags request, sri_op_count = word_of_nat len_ops\<rparr>,
              rc_scope_name = None, rc_collection_name = None\<rparr>)))"

fun mutate_in_ops_loop :: "MutateInOp list \<Rightarrow> bytes \<Rightarrow> nat \<Rightarrow> (Error, bytes) result" where
  "mutate_in_ops_loop [] value_buf value_iter = Ok value_buf"
| "mutate_in_ops_loop (op # ops) value_buf value_iter =
    (let path_bytes_len = length (mio_path op); value_bytes_len = length (mio_value op) in
     and_then (write_at value_buf value_iter [opcode_to_u8 (mutate_in_op_code (mio_op op))]) (\<lambda>value_buf.
     and_then (write_at value_buf (value_iter + 1) [mio_flags op]) (\<lambda>value_buf.
     and_then (write_at value_buf (value_iter + 2) (u16_to_be (word_of_nat path_bytes_len))) (\<lambda>value_buf.
     and_then (write_at value_buf (value_iter + 4) (u32_to_be (word_of_nat value_bytes_len))) (\<lambda>value_buf.
     and_then (write_at value_buf (value_iter + 8) (mio_path op)) (\<lambda>value_buf.
     and_then (write_at value_buf (value_iter + 8 + path_bytes_len) (mio_value op)) (\<lambda>value_buf.
     mutate_in_ops_loop ops value_buf (value_iter + (8 + path_bytes_len + value_bytes_len)))))))))"

definition mutate_in :: "OpsCrud \<Rightarrow> MutateInRequest \<Rightarrow> (Error, dispatch_call) result" where
  "mutate_in self request =
    (if mir_expiry request \<noteq> None \<and> mir_preserve_expiry request \<noteq> None then
       Err (new_invalid_argument_error ''cannot specify expiry and preserve expiry together'' None)
     else
       and_then (crud_header self (mr_durability_level request)
                   (mr_durability_level_timeout request) (mir_preserve_expiry request) request)
                (\<lambda>(magic, framing_extras, key).
       let len_ops = length (mir_ops request);
           path_bytes_total = sum_list (map (\<lambda>op. length (mio_path op)) (mir_ops request));
           value_bytes_total = sum_list (map (\<lambda>op. length (mio_value op)) (mir_ops request)) in
       and_then (mutate_in_ops_loop (mir_ops request)
                   (replicate (len_ops * 8 + path_bytes_total + value_bytes_total) 0) 0)
                (\<lambda>value_buf.
       Ok (\<lparr>rq_magic = magic, rq_op_code = OpCode.SubDocMultiMutation, rq_datatype = 0,
            rq_vbucket_id = Some (kr_vbucket_id request), rq_cas = mir_cas request,
            rq_extras = Some (u32_to_be (unwrap_or 0 (mir_expiry request))
                              @ (if flags_is_empty (mir_flags request) then [] else [mir_flags request])),
            rq_key = Some key, rq_value = Some value_buf,
            rq_framing_extras = framing_extras, rq_opaque = None\<rparr>,
           Some \<lparr>rc_cas = mir_cas request,
                 rc_subdoc_info = Some \<lparr>sri_flags = mir_flags request, sri_op_count = word_of_nat len_ops\<rparr>,
                 rc_scope_name = None, rc_collection_name = None\<rparr>))))"

section \<open>Any operation\<close>

datatype CrudRequest =
    CrudSet SetRequest | CrudGet GetRequest | CrudGetMeta GetMetaRequest | CrudDelete DeleteRequest
  | CrudGetAndLock GetAndLockRequest | CrudGetAndTouch GetAndTouchRequest
  | CrudUnlock UnlockRequest | CrudTouch TouchRequest | CrudAdd AddRequest
  | CrudReplace ReplaceRequest | CrudAppend AppendRequest | CrudPrepend PrependRequest
  | CrudIncrement IncrementRequest | CrudDecrement DecrementRequest
  | CrudLookupIn LookupInRequest | CrudMutateIn MutateInRequest

text \<open>Calling one of the sixteen operations.\<close>

primrec crud_call :: "OpsCrud \<Rightarrow> CrudRequest \<Rightarrow> (Error, dispatch_call) result" where
  "crud_call self (CrudSet r) = set_op self r"
| "crud_call self (CrudGet r) = get_op self r"
| "crud_call self (CrudGetMeta r) = get_meta self r"
| "crud_call self (CrudDelete r) = delete_op self r"
| "crud_call self (CrudGetAndLock r) = get_and_lock self r"
| "crud_call self (CrudGetAndTouch r) = get_and_touch self r"
| "crud_call self (CrudUnlock r) = unlock_op self r"
| "crud_call self (CrudTouch r) = touch_op self r"
| "crud_call self (CrudAdd r) = add_op self r"
| "crud_call self (CrudReplace r) = replace_op self r"
| "crud_call self (CrudAppend r) = append_op self r"
| "crud_call self (CrudPrepend r) = prepend_op self r"
| "crud_call self (CrudIncrement r) = increment_op self r"
| "crud_call self (CrudDecrement r) = decrement_op self r"
| "crud_call self (CrudLookupIn r) = lookup_in self r"
| "crud_call self (CrudMutateIn r) = mutate_in self r"

lemmas crud_op_defs =
  set_op_def get_op_def get_meta_def delete_op_def get_and_lock_def get_and_touch_def unlock_op_def
  touch_op_def add_op_def replace_op_def append_op_def prepend_op_def increment_op_def
  decrement_op_def lookup_in_def mutate_in_def

section \<open>Keys\<close>

definition max_key :: "OpsCrud \<Rightarrow> u32 \<Rightarrow> nat" where
  "max_key self collection_id =
    (if collections_enabled self \<and> collection_id \<noteq> 0 then MAX_KEY_SIZE_USING_COLLECTIONS
     else MAX_KEY_SIZE)"

definition key_error :: "Error \<Rightarrow> bool" where
  "key_error e \<longleftrightarrow>
    (\<exists>msg arg. e = new_invalid_argument_error msg (Some arg) \<and> arg \<in> {''key'', ''collection_id''})"

definition wire_key :: "OpsCrud \<Rightarrow> u32 \<Rightarrow> bytes \<Rightarrow> bytes" where
  "wire_key self collection_id key =
    (if collections_enabled self then uleb128 collection_id @ key else key)"

lemmas key_limits = MAX_KEY_SIZE_def MAX_KEY_SIZE_USING_COLLECTIONS_def max_key_def

lemma wire_key_fits:
  assumes "length key \<le> max_key self cid"
  shows "length (wire_key self cid key) \<le> 251"
  using assms length_uleb128 [of cid]
  by (auto simp: wire_key_def key_limits split: if_splits)

lemma encode_collection_and_key_Ok:
  assumes "length key \<le> max_key self cid" and "collections_enabled self \<or> cid = 0"
  shows "encode_collection_and_key self cid key (replicate 251 0) = Ok (wire_key self cid key)"
proof (cases "collections_enabled self")
  case True
  let ?p = "uleb128 cid" and ?z = "replicate 251 0 :: bytes"
  have fit: "length ?p + length key \<le> 251"
    using wire_key_fits [OF assms(1)] True by (simp add: wire_key_def)
  have key: "\<not> max_key self cid < length key" using assms(1) by simp
  have "write_at (write_slice ?z 0 ?p) (length ?p) key
      = (Ok (write_slice (write_slice ?z 0 ?p) (length ?p) key) :: (Error, bytes) result)"
    using fit by (simp add: write_at_def)
  moreover have "write_slice (write_slice ?z 0 ?p) (length ?p) key = write_slice ?z 0 (?p @ key)"
    using fit write_slice_snoc [of 0 ?p key ?z] by simp
  moreover have "take (length key + length ?p) (write_slice ?z 0 (?p @ key)) = ?p @ key"
    using fit by (simp add: write_slice_def)
  ultimately show ?thesis
    using True key
    by (cases "cid = 0")
       (simp_all add: encode_collection_and_key_def make_uleb128_32_Ok wire_key_def max_key_def Let_def)
next
  case False
  then show ?thesis
    using assms by (simp add: encode_collection_and_key_def wire_key_def key_limits)
qed

lemma encode_collection_and_key_Err:
  assumes "\<not> (length key \<le> max_key self cid \<and> (collections_enabled self \<or> cid = 0))"
  shows "\<exists>e. encode_collection_and_key self cid key (replicate 251 0) = Err e \<and> key_error e"
  using assms
  by (auto simp: encode_collection_and_key_def make_uleb128_32_Ok key_limits key_error_def Let_def
      split: if_splits)

text \<open>The key step, for every request.\<close>

lemma encode_collection_and_key_cases:
  obtains (ok) "encode_collection_and_key self cid key (replicate 251 0) = Ok (wire_key self cid key)"
      "length key \<le> max_key self cid" "collections_enabled self \<or> cid = 0"
  | (err) e where "encode_collection_and_key self cid key (replicate 251 0) = Err e" "key_error e"
  using encode_collection_and_key_Ok encode_collection_and_key_Err by blast

section \<open>Framing extras\<close>

definition argument_error :: "Error \<Rightarrow> bool" where
  "argument_error e \<longleftrightarrow> (\<exists>msg arg. e = new_invalid_argument_error msg arg)"

lemma argument_errorI [simp]: "argument_error (new_invalid_argument_error msg arg)"
  by (auto simp: argument_error_def)

lemma key_error_argument: "key_error e \<Longrightarrow> argument_error e"
  by (auto simp: key_error_def)

text \<open>
  A step on the buffer either refuses the arguments or moves the offset forward inside the buffer.
\<close>

definition frame_step :: "bytes \<Rightarrow> nat \<Rightarrow> (Error, bytes \<times> nat) result \<Rightarrow> bool" where
  "frame_step buf offset r =
    (case r of Ok (buf', offset') \<Rightarrow> length buf' = length buf \<and> offset \<le> offset' \<and> offset' \<le> length buf
     | Err e \<Rightarrow> argument_error e
     | Panic \<Rightarrow> False)"

lemma append_ext_frame_step: "frame_step buf offset (append_ext_frame fc body buf offset)"
  by (simp add: frame_step_def append_ext_frame_def Let_def ext_frame_overflow_def)

lemma frame_step_then:
  assumes "frame_step buf offset m" and "offset \<le> length buf"
    and "\<And>buf' offset'. length buf' = length buf \<Longrightarrow> offset' \<le> length buf'
      \<Longrightarrow> frame_step buf' offset' (f (buf', offset'))"
  shows "frame_step buf offset (and_then m f)"
proof (cases m)
  case (Ok x)
  obtain buf' offset' where x: "x = (buf', offset')" by (cases x)
  have m: "length buf' = length buf" "offset \<le> offset'" "offset' \<le> length buf"
    using assms(1) by (simp_all add: Ok x frame_step_def)
  then have "frame_step buf' offset' (f (buf', offset'))" by (intro assms(3)) simp_all
  with m show ?thesis
    by (auto simp: Ok x frame_step_def split: result.splits)
qed (use assms(1) in \<open>simp_all add: frame_step_def\<close>)

lemma encode_durability_ext_frame_not_Panic: "encode_durability_ext_frame level timeout \<noteq> Panic"
  by (simp add: encode_durability_ext_frame_def Let_def split: option.splits)

lemma encode_durability_ext_frame_Err:
  "encode_durability_ext_frame level timeout = Err e \<Longrightarrow> argument_error e"
  by (auto simp: encode_durability_ext_frame_def Let_def split: option.splits if_splits)

lemma durability_step:
  "frame_step buf offset
    (and_then (encode_durability_ext_frame level timeout) (\<lambda>dura_buf.
       append_ext_frame ExtReqFrameCode.Durability dura_buf buf offset))"
proof (cases "encode_durability_ext_frame level timeout")
  case (Ok d)
  then show ?thesis by (simp add: append_ext_frame_step)
next
  case (Err e)
  then show ?thesis using encode_durability_ext_frame_Err [OF Err] by (simp add: frame_step_def)
next
  case Panic
  then show ?thesis using encode_durability_ext_frame_not_Panic by blast
qed

lemma frame_step_Ok: "offset \<le> length buf \<Longrightarrow> frame_step buf offset (Ok (buf, offset))"
  by (simp add: frame_step_def)

lemma frame_step_Err: "argument_error e \<Longrightarrow> frame_step buf offset (Err e)"
  by (simp add: frame_step_def)

lemma req_frames_step: "frame_step buf 0 (req_frames self level timeout preserve obo buf)"
  unfolding req_frames_def
proof (rule frame_step_then)
  show "frame_step buf 0
      (case obo of Some obo \<Rightarrow> append_ext_frame ExtReqFrameCode.OnBehalfOf (as_bytes obo) buf 0
       | None \<Rightarrow> Ok (buf, 0))"
    by (simp add: append_ext_frame_step frame_step_Ok split: option.split)
qed (auto intro!: frame_step_then durability_step append_ext_frame_step frame_step_Ok frame_step_Err
    split: option.split)

lemma encode_req_ext_frames_cases:
  obtains (ok) used b where
      "encode_req_ext_frames self level timeout preserve obo buf
        = Ok (if used > 0 then Magic.ReqExt else Magic.Req, used, b)"
      "used \<le> length buf" "length b = length buf" "used > 0 \<Longrightarrow> ext_frames_enabled self"
  | (err) e where "encode_req_ext_frames self level timeout preserve obo buf = Err e"
      "argument_error e"
proof (cases "req_frames self level timeout preserve obo buf")
  case (Ok x)
  obtain b used where x: "x = (b, used)" by (cases x)
  show ?thesis
    using req_frames_step [of buf self level timeout preserve obo] Ok x ok [of used b] err
    by (cases "used > 0 \<and> \<not> ext_frames_enabled self")
       (auto simp: encode_req_ext_frames_def frame_step_def)
next
  case (Err e)
  then show ?thesis
    using req_frames_step [of buf self level timeout preserve obo] err
    by (auto simp: encode_req_ext_frames_def frame_step_def)
next
  case Panic
  then show ?thesis
    using req_frames_step [of buf self level timeout preserve obo] by (simp add: frame_step_def)
qed

section \<open>What every operation sends\<close>

text \<open>
  The size limits of the header fields, with room to spare: at most 251 key bytes and 128 bytes of
  framing extras, present exactly when the magic is the extended one.
\<close>

definition header_ok :: "OpsCrud \<Rightarrow> Magic \<times> bytes option \<times> bytes \<Rightarrow> bool" where
  "header_ok self h =
    (case h of (magic, framing_extras, key) \<Rightarrow>
       length key \<le> 251 \<and> opt_len framing_extras \<le> 128 \<and> framing_extras \<noteq> Some []
       \<and> magic = (if framing_extras = None then Magic.Req else Magic.ReqExt)
       \<and> (framing_extras = None \<or> ext_frames_enabled self))"

lemma crud_header_cases:
  obtains (ok) magic fe key where "crud_header self level timeout preserve r = Ok (magic, fe, key)"
      "header_ok self (magic, fe, key)" "key = wire_key self (kr_collection_id r) (kr_key r)"
  | (err) e where "crud_header self level timeout preserve r = Err e" "argument_error e"
proof (cases rule: encode_req_ext_frames_cases [of self level timeout preserve "kr_on_behalf_of r"
      "replicate 128 0"])
  case f: (ok used b)
  show ?thesis
  proof (cases rule: encode_collection_and_key_cases [of self "kr_collection_id r" "kr_key r"])
    case k: ok
    let ?fe = "if used > 0 then Some (take used b) else None"
    have "header_ok self (if used > 0 then Magic.ReqExt else Magic.Req, ?fe,
        wire_key self (kr_collection_id r) (kr_key r))"
      using f wire_key_fits [OF k(2)] by (auto simp: header_ok_def opt_len_def)
    moreover have "crud_header self level timeout preserve r
        = Ok (if used > 0 then Magic.ReqExt else Magic.Req, ?fe,
            wire_key self (kr_collection_id r) (kr_key r))"
      unfolding crud_header_def f(1) and_then.simps prod.case k(1) ..
    ultimately show ?thesis by (intro ok) auto
  next
    case k: (err e)
    have "crud_header self level timeout preserve r = Err e"
      unfolding crud_header_def f(1) and_then.simps prod.case k(1) ..
    then show ?thesis using key_error_argument [OF k(2)] by (rule err)
  qed
next
  case (err e)
  then show ?thesis using that(2) [of e] by (simp add: crud_header_def)
qed

section \<open>Sub-document operation lists\<close>

definition lookup_op_bytes :: "LookupInOp \<Rightarrow> bytes" where
  "lookup_op_bytes op =
    [opcode_to_u8 (lookup_in_op_code (lio_op op)), lio_flags op]
    @ u16_to_be (word_of_nat (length (lio_path op))) @ lio_path op"

definition mutate_op_bytes :: "MutateInOp \<Rightarrow> bytes" where
  "mutate_op_bytes op =
    [opcode_to_u8 (mutate_in_op_code (mio_op op)), mio_flags op]
    @ u16_to_be (word_of_nat (length (mio_path op)))
    @ u32_to_be (word_of_nat (length (mio_value op))) @ mio_path op @ mio_value op"

lemma write_at_zeros:
  assumes "length pre = i" and "length xs \<le> n"
  shows "write_at (pre @ replicate n 0) i xs = Ok ((pre @ xs) @ replicate (n - length xs) 0)"
  using assms by (simp add: write_at_def write_slice_def)

lemma lookup_in_ops_loop_eq:
  "lookup_in_ops_loop ops (pre @ replicate (length ops * 4 + sum_list (map (\<lambda>op. length (lio_path op)) ops)) 0)
      (length pre) = Ok (pre @ concat (map lookup_op_bytes ops))"
proof (induction ops arbitrary: pre)
  case (Cons op ops)
  show ?case
    using Cons.IH [of "pre @ lookup_op_bytes op"]
    by (simp add: write_at_zeros lookup_op_bytes_def Let_def add.commute add.left_commute
        del: append_assoc replicate_Suc)
       (simp add: eval_nat_numeral add.commute add.left_commute)
qed simp

lemma mutate_in_ops_loop_eq:
  "mutate_in_ops_loop ops (pre @ replicate (length ops * 8 + sum_list (map (\<lambda>op. length (mio_path op)) ops)
        + sum_list (map (\<lambda>op. length (mio_value op)) ops)) 0) (length pre)
    = Ok (pre @ concat (map mutate_op_bytes ops))"
proof (induction ops arbitrary: pre)
  case (Cons op ops)
  show ?case
    using Cons.IH [of "pre @ mutate_op_bytes op"]
    by (simp add: write_at_zeros mutate_op_bytes_def Let_def add.commute add.left_commute
        del: append_assoc replicate_Suc)
       (simp add: eval_nat_numeral add.commute add.left_commute)
qed simp

section \<open>Properties of the operations\<close>

primrec crud_key_request :: "CrudRequest \<Rightarrow> KeyRequest" where
  "crud_key_request (CrudSet r) = KeyRequest.truncate r"
| "crud_key_request (CrudGet r) = r"
| "crud_key_request (CrudGetMeta r) = r"
| "crud_key_request (CrudDelete r) = KeyRequest.truncate r"
| "crud_key_request (CrudGetAndLock r) = KeyRequest.truncate r"
| "crud_key_request (CrudGetAndTouch r) = KeyRequest.truncate r"
| "crud_key_request (CrudUnlock r) = KeyRequest.truncate r"
| "crud_key_request (CrudTouch r) = KeyRequest.truncate r"
| "crud_key_request (CrudAdd r) = KeyRequest.truncate r"
| "crud_key_request (CrudReplace r) = KeyRequest.truncate r"
| "crud_key_request (CrudAppend r) = KeyRequest.truncate r"
| "crud_key_request (CrudPrepend r) = KeyRequest.truncate r"
| "crud_key_request (CrudIncrement r) = KeyRequest.truncate r"
| "crud_key_request (CrudDecrement r) = KeyRequest.truncate r"
| "crud_key_request (CrudLookupIn r) = KeyRequest.truncate r"
| "crud_key_request (CrudMutateIn r) = KeyRequest.truncate r"

definition packet_ok :: "OpsCrud \<Rightarrow> KeyRequest \<Rightarrow> RequestPacket \<Rightarrow> bool" where
  "packet_ok self kr p \<longleftrightarrow>
    header_ok self (rq_magic p, rq_framing_extras p, opt_bytes (rq_key p))
    \<and> rq_key p = Some (wire_key self (kr_collection_id kr) (kr_key kr))
    \<and> rq_vbucket_id p = Some (kr_vbucket_id kr) \<and> rq_opaque p = None \<and> opt_len (rq_extras p) \<le> 20"

definition call_ok :: "OpsCrud \<Rightarrow> KeyRequest \<Rightarrow> (Error, dispatch_call) result \<Rightarrow> bool" where
  "call_ok self kr r =
    (case r of Ok (p, ctx) \<Rightarrow> packet_ok self kr p | Err e \<Rightarrow> argument_error e | Panic \<Rightarrow> False)"

lemma call_ok_header:
  assumes "\<And>magic fe key. header_ok self (magic, fe, key)
      \<Longrightarrow> key = wire_key self (kr_collection_id r) (kr_key r) \<Longrightarrow> call_ok self kr (f (magic, fe, key))"
  shows "call_ok self kr (and_then (crud_header self level timeout preserve r) f)"
proof (cases rule: crud_header_cases [of self level timeout preserve r])
  case (ok magic fe key)
  then show ?thesis using assms [OF ok(2,3)] by simp
next
  case (err e)
  then show ?thesis by (simp add: call_ok_def)
qed

lemma length_encode_counter_values [simp]: "length (encode_counter_values d i e) = 20"
  by (simp add: encode_counter_values_def split: option.split)

lemmas crud_loop_eqs = lookup_in_ops_loop_eq [of _ "[]", simplified] mutate_in_ops_loop_eq [of _ "[]", simplified]

lemma crud_call_ok: "call_ok self (crud_key_request r) (crud_call self r)"
  by (cases r)
     (auto simp: crud_op_defs crud_loop_eqs Let_def call_ok_def [of _ _ "Ok _"] call_ok_def [of _ _ "Err _"]
        packet_ok_def opt_bytes_def opt_len_def KeyRequest.truncate_def
        intro!: call_ok_header)

text \<open>The frames a request asks for, in the order in which they are written.\<close>

definition requested_frames ::
    "DurabilityLevel option \<Rightarrow> Duration option \<Rightarrow> bool option \<Rightarrow> string option \<Rightarrow> bytes" where
  "requested_frames level timeout preserve obo =
    (case obo of None \<Rightarrow> [] | Some u \<Rightarrow> ext_frame_bytes 4 (as_bytes u))
    @ (case level of
         None \<Rightarrow> []
       | Some l \<Rightarrow>
           (case encode_durability_ext_frame l timeout of Ok d \<Rightarrow> ext_frame_bytes 1 d | _ \<Rightarrow> []))
    @ (if preserve = None then [] else ext_frame_bytes 5 [])"

definition frames_allowed ::
    "OpsCrud \<Rightarrow> DurabilityLevel option \<Rightarrow> Duration option \<Rightarrow> bool option \<Rightarrow> string option \<Rightarrow> bool" where
  "frames_allowed self level timeout preserve obo \<longleftrightarrow>
    (case obo of None \<Rightarrow> True | Some u \<Rightarrow> length u < 15)
    \<and> (case level of
         None \<Rightarrow> timeout = None
       | Some l \<Rightarrow> durability_enabled self \<and> is_ok (encode_durability_ext_frame l timeout))
    \<and> (preserve = None \<or> preserve_expiry_enabled self) \<and> ext_frames_enabled self"

lemma append_frame_zeros:
  assumes "ext_req_frame_code_to_u16 fc < 15" and "length body < 15" and "1 + length body \<le> n"
  shows "append_ext_frame fc body (pre @ replicate n 0) (length pre) =
    Ok ((pre @ ext_frame_bytes (ext_req_frame_code_to_u16 fc) body) @ replicate (n - (1 + length body)) 0,
        length (pre @ ext_frame_bytes (ext_req_frame_code_to_u16 fc) body))"
  using assms append_ext_frame_small [OF assms(1,2), of "length pre" "pre @ replicate n 0"]
  by (simp add: write_slice_def ext_frame_bytes_def)

lemma append_frame_zeros_start:
  assumes "ext_req_frame_code_to_u16 fc < 15" and "length body < 15" and "1 + length body \<le> n"
  shows "append_ext_frame fc body (replicate n 0) 0 =
    Ok (ext_frame_bytes (ext_req_frame_code_to_u16 fc) body @ replicate (n - (1 + length body)) 0,
        length (ext_frame_bytes (ext_req_frame_code_to_u16 fc) body))"
  using append_frame_zeros [OF assms, of "[]"] by simp

lemma length_encode_durability_ext_frame:
  "encode_durability_ext_frame l t = Ok d \<Longrightarrow> length d \<le> 3"
  by (auto simp: encode_durability_ext_frame_def Let_def split: option.splits if_splits)

lemma length_ext_frame_bytes [simp]: "length (ext_frame_bytes c b) = 1 + length b"
  by (simp add: ext_frame_bytes_def)

text \<open>The three steps, each from a buffer whose unused part is zero.\<close>

lemma obo_step:
  assumes "case obo of None \<Rightarrow> True | Some u \<Rightarrow> length u < 15"
  shows "(case obo of Some obo \<Rightarrow> append_ext_frame ExtReqFrameCode.OnBehalfOf (as_bytes obo) (replicate 128 0) 0
           | None \<Rightarrow> Ok (replicate 128 0, 0)) =
    (let pre = (case obo of None \<Rightarrow> [] | Some u \<Rightarrow> ext_frame_bytes 4 (as_bytes u)) in
     Ok (pre @ replicate (128 - length pre) 0, length pre))"
  using assms by (auto simp: append_frame_zeros_start Let_def split: option.split)

lemma req_frames_exact:
  assumes "frames_allowed self level timeout preserve obo"
  shows "req_frames self level timeout preserve obo (replicate 128 0) =
    (let fs = requested_frames level timeout preserve obo in
     Ok (fs @ replicate (128 - length fs) 0, length fs))"
proof -
  let ?o = "case obo of None \<Rightarrow> [] | Some u \<Rightarrow> ext_frame_bytes 4 (as_bytes u)"
  let ?d = "case level of None \<Rightarrow> []
       | Some l \<Rightarrow> (case encode_durability_ext_frame l timeout of Ok d \<Rightarrow> ext_frame_bytes 1 d | _ \<Rightarrow> [])"
  have lo: "length ?o \<le> 15"
    using assms by (auto simp: frames_allowed_def split: option.split)
  have ld: "length ?d \<le> 4"
    by (auto split: option.split result.split dest: length_encode_durability_ext_frame)
  have ok: "case obo of None \<Rightarrow> True | Some u \<Rightarrow> length u < 15"
    using assms by (simp add: frames_allowed_def)
  have dura: "(case level of
         Some dura \<Rightarrow>
           if \<not> durability_enabled self then
             Err (new_invalid_argument_error
                   ''cannot use synchronous durability when its not enabled''
                   (Some ''durability_level''))
           else
             and_then (encode_durability_ext_frame dura timeout) (\<lambda>dura_buf.
               append_ext_frame ExtReqFrameCode.Durability dura_buf
                 (?o @ replicate (128 - length ?o) 0) (length ?o))
       | None \<Rightarrow>
           if timeout \<noteq> None then
             Err (new_invalid_argument_error
                   ''cannot encode durability timeout without durability level''
                   (Some ''durability_timeout''))
           else Ok (?o @ replicate (128 - length ?o) 0, length ?o))
     = Ok ((?o @ ?d) @ replicate (128 - length (?o @ ?d)) 0, length (?o @ ?d))"
  proof (cases level)
    case (Some l)
    then obtain d where d: "encode_durability_ext_frame l timeout = Ok d" and "durability_enabled self"
      using assms by (cases "encode_durability_ext_frame l timeout") (auto simp: frames_allowed_def)
    then show ?thesis
      using Some lo length_encode_durability_ext_frame [OF d]
        append_frame_zeros [of ExtReqFrameCode.Durability d "128 - length ?o" ?o]
      by simp
  qed (use assms in \<open>simp add: frames_allowed_def\<close>)
  show ?thesis
    using assms lo ld append_frame_zeros [of ExtReqFrameCode.PreserveTTL "[]" "128 - length (?o @ ?d)" "?o @ ?d"]
    unfolding req_frames_def obo_step [OF ok]
    by (simp only: Let_def and_then.simps prod.case dura)
       (auto simp: requested_frames_def frames_allowed_def Let_def)
qed

text \<open>
  How a peer reads a list of \<open>n\<close> mutation specs: code, flags, two length fields, path and value.
\<close>

primrec read_mutate_ops :: "nat \<Rightarrow> bytes \<Rightarrow> ((OpCode \<times> u8 \<times> bytes \<times> bytes) list \<times> bytes) option" where
  "read_mutate_ops 0 bs = Some ([], bs)"
| "read_mutate_ops (Suc n) bs =
    (let pl = unat (u16_from_be (take 2 (drop 2 bs))); vl = unat (u32_from_be (take 4 (drop 4 bs))) in
     if length bs < 8 + pl + vl then None
     else map_option (\<lambda>(ops, rest).
            ((opcode_from_u8 (bs ! 0), bs ! 1, take pl (drop 8 bs), take vl (drop (8 + pl) bs)) # ops, rest))
          (read_mutate_ops n (drop (8 + pl + vl) bs)))"

definition mutate_op_fits :: "MutateInOp \<Rightarrow> bool" where
  "mutate_op_fits op \<longleftrightarrow> length (mio_path op) < 2 ^ 16 \<and> length (mio_value op) < 2 ^ 32"

lemma mutate_in_op_code_canonical [simp]:
  "opcode_from_u8 (opcode_to_u8 (mutate_in_op_code t)) = mutate_in_op_code t"
  by (cases t) (simp_all add: opcode_from_u8_def)

lemma read_mutate_op:
  assumes "mutate_op_fits op"
  shows "read_mutate_ops (Suc n) (mutate_op_bytes op @ bs) =
    map_option (\<lambda>(ops, rest).
        ((mutate_in_op_code (mio_op op), mio_flags op, mio_path op, mio_value op) # ops, rest))
      (read_mutate_ops n bs)"
proof -
  have "unat (word_of_nat (length (mio_path op)) :: u16) = length (mio_path op)"
    "unat (word_of_nat (length (mio_value op)) :: u32) = length (mio_value op)"
    using assms by (simp_all add: mutate_op_fits_def unat_of_nat)
  moreover have "drop (8 + a) xs = drop a (drop 8 xs)" "drop (8 + a + b) xs = drop b (drop a (drop 8 xs))"
    for a b and xs :: bytes
    by (simp_all add: add.commute add.left_commute)
  ultimately show ?thesis by (simp add: mutate_op_bytes_def be_simps Let_def del: drop_drop)
qed

lemma read_mutate_ops_concat:
  "list_all mutate_op_fits ops \<Longrightarrow>
    read_mutate_ops (length ops) (concat (map mutate_op_bytes ops) @ bs) =
    Some (map (\<lambda>op. (mutate_in_op_code (mio_op op), mio_flags op, mio_path op, mio_value op)) ops, bs)"
  by (induction ops) (simp_all add: read_mutate_op del: read_mutate_ops.simps(2))

section \<open>Properties\<close>

text \<open>
  Each of the sixteen document operations, for any request and any negotiated features, either
  refuses the arguments or dispatches a packet with the collection-prefixed key of the request, its
  vbucket id, at most 251 key bytes, 20 bytes of extras and 128 bytes of framing extras, the
  extended magic exactly when framing extras are present, and framing extras only when they are
  enabled. None of them panics.
\<close>

theorem crud_call_outcome:
  "case crud_call self r of
     Ok (p, ctx) \<Rightarrow>
       rq_key p = Some (wire_key self (kr_collection_id (crud_key_request r)) (kr_key (crud_key_request r)))
       \<and> rq_vbucket_id p = Some (kr_vbucket_id (crud_key_request r)) \<and> rq_opaque p = None
       \<and> opt_len (rq_key p) \<le> 251 \<and> opt_len (rq_extras p) \<le> 20 \<and> opt_len (rq_framing_extras p) \<le> 128
       \<and> rq_magic p = (if rq_framing_extras p = None then Magic.Req else Magic.ReqExt)
       \<and> (rq_framing_extras p = None \<or> ext_frames_enabled self)
   | Err e \<Rightarrow> argument_error e
   | Panic \<Rightarrow> False"
  using crud_call_ok [of self r]
  by (auto simp: call_ok_def packet_ok_def header_ok_def opt_bytes_def opt_len_def
      split: result.splits prod.splits option.splits)

text \<open>
  A key is accepted exactly when it is within the limit for its collection and a non-default
  collection is used only with collections enabled; an accepted key can be read back from the wire
  form together with its collection id.
\<close>

theorem crud_key_outcome:
  "case encode_collection_and_key self cid key (replicate 251 0) of
     Ok k \<Rightarrow> length key \<le> max_key self cid \<and> length k \<le> 251
       \<and> (if collections_enabled self then uleb_read k = Some (unat cid, key) else cid = 0 \<and> k = key)
   | Err e \<Rightarrow> key_error e
       \<and> \<not> (length key \<le> max_key self cid \<and> (collections_enabled self \<or> cid = 0))
   | Panic \<Rightarrow> False"
proof (cases rule: encode_collection_and_key_cases [of self cid key])
  case ok
  then show ?thesis
    using uleb_read_uleb128 [of cid key] wire_key_fits [OF ok(2)] by (auto simp: wire_key_def)
next
  case (err e)
  then show ?thesis using encode_collection_and_key_Ok [of key self cid] by auto
qed

text \<open>
  When the requested framing extras are allowed and the impersonated user name is below 15
  bytes, the buffer holds exactly the on-behalf-of frame, the durability frame and the
  preserve-expiry frame, in this order and nothing else. The preserve-expiry frame is present
  whenever the option is set, whatever its value.
\<close>

theorem req_ext_frames_exact:
  assumes "frames_allowed self level timeout preserve obo"
  shows "\<exists>buf. encode_req_ext_frames self level timeout preserve obo (replicate 128 0) =
      Ok (if requested_frames level timeout preserve obo = [] then Magic.Req else Magic.ReqExt,
          length (requested_frames level timeout preserve obo), buf)
    \<and> take (length (requested_frames level timeout preserve obo)) buf
      = requested_frames level timeout preserve obo
    \<and> requested_frames level timeout (Some False) obo = requested_frames level timeout (Some True) obo"
  using assms req_frames_exact [OF assms]
  by (auto simp: encode_req_ext_frames_def frames_allowed_def requested_frames_def Let_def)

theorem req_ext_frames_exact_witness:
  "\<exists>buf. encode_req_ext_frames \<lparr>collections_enabled = True, durability_enabled = True,
        preserve_expiry_enabled = True, ext_frames_enabled = True\<rparr>
      (Some DurabilityLevel.Majority) None (Some False) None (replicate 128 0) = Ok (Magic.ReqExt, 3, buf)
    \<and> take 3 buf = [0x11, 0x01, 0x50]"
proof -
  let ?s = "\<lparr>collections_enabled = True, durability_enabled = True,
        preserve_expiry_enabled = True, ext_frames_enabled = True\<rparr>"
  have "frames_allowed ?s (Some DurabilityLevel.Majority) None (Some False) None"
    by (simp add: frames_allowed_def encode_durability_ext_frame_def)
  moreover have "requested_frames (Some DurabilityLevel.Majority) None (Some False) None = [0x11, 0x01, 0x50]"
    by (simp add: requested_frames_def encode_durability_ext_frame_def ext_frame_bytes_def)
  ultimately show ?thesis
    using req_ext_frames_exact [of ?s "Some DurabilityLevel.Majority" None "Some False" None]
    by (auto simp: numeral_3_eq_3)
qed

text \<open>
  The value of a mutate-in packet is a list of specs from which a reader recovers each
  operation's code, flags, path and value in order with nothing left over, when every path and value
  fits its length field.
\<close>

theorem mutate_in_value_round_trip:
  assumes "mutate_in self r = Ok (p, ctx)" and "list_all mutate_op_fits (mir_ops r)"
  shows "\<exists>v. rq_value p = Some v \<and> read_mutate_ops (length (mir_ops r)) v =
    Some (map (\<lambda>op. (mutate_in_op_code (mio_op op), mio_flags op, mio_path op, mio_value op)) (mir_ops r), [])"
  using assms read_mutate_ops_concat [OF assms(2), of "[]"]
  by (auto simp: mutate_in_def crud_loop_eqs Let_def res_simps split: if_splits)

theorem mutate_in_value_round_trip_witness:
  "\<exists>p ctx v. mutate_in \<lparr>collections_enabled = False, durability_enabled = False,
        preserve_expiry_enabled = False, ext_frames_enabled = False\<rparr>
      \<lparr>kr_collection_id = 0, kr_key = [0x61], kr_vbucket_id = 1, kr_on_behalf_of = None,
       mr_durability_level = None, mr_durability_level_timeout = None, mir_flags = 0,
       mir_ops = [\<lparr>mio_op = MutateInOpType.DictSet, mio_flags = MKDIR_P, mio_path = [0x70], mio_value = [0x31]\<rparr>],
       mir_expiry = None, mir_preserve_expiry = None, mir_cas = None\<rparr> = Ok (p, ctx)
    \<and> rq_value p = Some v
    \<and> read_mutate_ops 1 v = Some ([(OpCode.SubDocDictSet, 1, [0x70], [0x31])], [])"
proof -
  let ?s = "\<lparr>collections_enabled = False, durability_enabled = False,
        preserve_expiry_enabled = False, ext_frames_enabled = False\<rparr>"
  let ?r = "\<lparr>kr_collection_id = 0, kr_key = [0x61], kr_vbucket_id = 1, kr_on_behalf_of = None,
       mr_durability_level = None, mr_durability_level_timeout = None, mir_flags = 0,
       mir_ops = [\<lparr>mio_op = MutateInOpType.DictSet, mio_flags = MKDIR_P, mio_path = [0x70], mio_value = [0x31]\<rparr>],
       mir_expiry = None, mir_preserve_expiry = None, mir_cas = None\<rparr>"
  have "\<exists>p ctx. mutate_in ?s ?r = Ok (p, ctx)"
    by (simp add: mutate_in_def crud_header_def encode_req_ext_frames_def req_frames_def
        encode_collection_and_key_def key_limits flags_is_empty_def write_at_def)
  then obtain p ctx where call: "mutate_in ?s ?r = Ok (p, ctx)" by blast
  have "list_all mutate_op_fits (mir_ops ?r)" by (simp add: mutate_op_fits_def)
  from mutate_in_value_round_trip [OF call this] obtain v where
    "rq_value p = Some v"
    "read_mutate_ops 1 v = Some ([(OpCode.SubDocDictSet, 1, [0x70], [0x31])], [])"
    by (auto simp: MKDIR_P_def simp del: read_mutate_ops.simps)
  with call show ?thesis by blast
qed

end
