(* ===== verification/Rust_Text.thy ===== *)
theory Rust_Text
  imports Prelude
begin

text \<open>
  The operations on \<^verbatim>\<open>str\<close> that the parsers of server messages use, on texts as lists of their UTF-8
  bytes: searching, splitting at an ASCII character, splitting at white space and joining.
\<close>

section \<open>Searching\<close>

definition str_contains :: "string \<Rightarrow> string \<Rightarrow> bool" where
  "str_contains pat s = (\<exists>i \<in> set [0..<Suc (length s)]. take (length pat) (drop i s) = pat)"

lemma str_contains_iff: "str_contains pat s \<longleftrightarrow> (\<exists>a b. s = a @ pat @ b)"
proof
  assume "str_contains pat s"
  then obtain i where i: "take (length pat) (drop i s) = pat" by (auto simp: str_contains_def)
  have "s = take i s @ drop i s" by simp
  also have "drop i s = pat @ drop (length pat) (drop i s)" using i by (metis append_take_drop_id)
  finally show "\<exists>a b. s = a @ pat @ b" by blast
next
  assume "\<exists>a b. s = a @ pat @ b"
  then obtain a b where "s = a @ pat @ b" by blast
  then show "str_contains pat s" by (auto simp: str_contains_def intro!: bexI [of _ "length a"])
qed

lemma str_contains_char [simp]: "str_contains [c] s \<longleftrightarrow> c \<in> set s"
  by (auto simp: str_contains_iff in_set_conv_decomp)

section \<open>Splitting\<close>

text \<open>\<^verbatim>\<open>str::split\<close> at a character: one piece more than there are separators.\<close>

fun split_char :: "char \<Rightarrow> string \<Rightarrow> string list" where
  "split_char c [] = [[]]"
| "split_char c (x # s) =
    (if x = c then [] # split_char c s
     else case split_char c s of p # ps \<Rightarrow> (x # p) # ps | [] \<Rightarrow> [[x]])"

fun str_join :: "string \<Rightarrow> string list \<Rightarrow> string" where
  "str_join sep [] = []"
| "str_join sep [s] = s"
| "str_join sep (s # t # ss) = s @ sep @ str_join sep (t # ss)"

lemma split_char_not_Nil [simp]: "split_char c s \<noteq> []"
  by (induction s) (auto split: list.splits)

lemma split_char_none: "c \<notin> set s \<Longrightarrow> split_char c s = [s]"
  by (induction s) auto

lemma split_char_append: "c \<notin> set a \<Longrightarrow> split_char c (a @ c # s) = a # split_char c s"
  by (induction a) auto

lemma str_join_Cons: "xs \<noteq> [] \<Longrightarrow> str_join sep (s # xs) = s @ sep @ str_join sep xs"
  by (cases xs) simp_all

lemma str_join_hd: "str_join sep ((x # p) # ps) = x # str_join sep (p # ps)"
  by (cases ps) simp_all

lemma str_join_split: "str_join [c] (split_char c s) = s"
proof (induction s)
  case (Cons x s)
  then show ?case by (cases "split_char c s") (auto simp: str_join_Cons str_join_hd)
qed simp

text \<open>The pieces of a text are the last piece behind those of what is before the last separator.\<close>

lemma split_char_last:
  "c \<notin> set b \<Longrightarrow> split_char c (a @ c # b) = split_char c a @ [b]"
  by (induction a) (auto simp: split_char_none split: list.splits)

text \<open>The length of the white space character at the front of a text, zero if there is none.\<close>

definition white_space_len :: "string \<Rightarrow> nat" where
  "white_space_len s =
    (let b = (\<lambda>i. if i < length s then of_char (s ! i) else 0 :: nat) in
     if b 0 = 32 \<or> (9 \<le> b 0 \<and> b 0 \<le> 13) then 1
     else if b 0 = 0xC2 \<and> (b 1 = 0x85 \<or> b 1 = 0xA0) then 2
     else if b 0 = 0xE1 \<and> b 1 = 0x9A \<and> b 2 = 0x80 then 3
     else if b 0 = 0xE2 \<and> b 1 = 0x80 \<and> (0x80 \<le> b 2 \<and> b 2 \<le> 0x8A \<or> b 2 \<in> {0xA8, 0xA9, 0xAF}) then 3
     else if b 0 = 0xE2 \<and> b 1 = 0x81 \<and> b 2 = 0x9F then 3
     else if b 0 = 0xE3 \<and> b 1 = 0x80 \<and> b 2 = 0x80 then 3
     else 0)"

function split_words :: "string \<Rightarrow> string \<Rightarrow> string list" where
  "split_words word s =
    (let words = (if word = [] then [] else [rev word]) in
     if s = [] then words
     else if white_space_len s > 0 then words @ split_words [] (drop (white_space_len s) s)
     else split_words (hd s # word) (tl s))"
  by pat_completeness auto
termination
  by (relation "measure (\<lambda>(word, s). length s)") auto

declare split_words.simps [simp del]

definition split_whitespace :: "string \<Rightarrow> string list" where
  "split_whitespace = split_words []"

section \<open>Words\<close>

text \<open>A text without white space: every byte of it is printable ASCII.\<close>

definition plain_word :: "string \<Rightarrow> bool" where
  "plain_word w \<longleftrightarrow> w \<noteq> [] \<and> (\<forall>c \<in> set w. 33 \<le> (of_char c :: nat) \<and> (of_char c :: nat) < 127)"

lemma white_space_len_plain:
  "33 \<le> (of_char c :: nat) \<Longrightarrow> (of_char c :: nat) < 127 \<Longrightarrow> white_space_len (c # s) = 0"
  by (simp add: white_space_len_def Let_def)

lemma white_space_len_space [simp]: "white_space_len (CHR '' '' # s) = 1"
  by (simp add: white_space_len_def Let_def)

lemma split_words_plain:
  assumes "\<forall>c \<in> set w. 33 \<le> (of_char c :: nat) \<and> (of_char c :: nat) < 127"
  shows "split_words acc (w @ s) = split_words (rev w @ acc) s"
  using assms
proof (induction w arbitrary: acc)
  case (Cons c w)
  then have "split_words acc ((c # w) @ s) = split_words (c # acc) (w @ s)"
    by (subst split_words.simps) (simp add: white_space_len_plain Let_def)
  with Cons show ?case by simp
qed simp

lemma split_whitespace_plain: "plain_word w \<Longrightarrow> split_whitespace w = [w]"
  using split_words_plain [of w "[]" "[]"]
  by (simp add: split_whitespace_def plain_word_def split_words.simps [of "rev w" "[]"])

lemma split_whitespace_words: "\<forall>w \<in> set ws. plain_word w \<Longrightarrow> split_whitespace (str_join '' '' ws) = ws"
proof (induction ws rule: induct_list012)
  case (3 w v ws)
  let ?rest = "str_join '' '' (v # ws)"
  have "split_whitespace (w @ '' '' @ ?rest) = split_words (rev w) (CHR '' '' # ?rest)"
    using 3(3) split_words_plain [of w "[]" "CHR '' '' # ?rest"] by (simp add: split_whitespace_def plain_word_def)
  also have "\<dots> = w # split_whitespace ?rest"
    using 3(3) by (subst split_words.simps) (simp add: split_whitespace_def plain_word_def)
  finally show ?case using 3 by simp
qed (simp_all add: split_whitespace_plain, simp add: split_whitespace_def split_words.simps [of "[]"])

end
