(* ===== verification/Memdx_Response.thy ===== *)
theory Memdx_Response
  imports Memdx_Crud Rust_Text
begin

text \<open>
  Response decoding (\<^verbatim>\<open>memdx/response.rs\<close>, the error decoders of \<^verbatim>\<open>memdx/ops_core.rs\<close> and
  \<^verbatim>\<open>memdx/ops_crud.rs\<close>): for every operation, the result or the error a response packet stands for.
  Decoders take the run-time environment of the extended-frame decoder. \<^verbatim>\<open>Vec\<close> capacity hints have no
  counterpart.
\<close>

section \<open>Client responses\<close>

record ClientResponse =
  cr_packet :: ResponsePacket
  cr_response_context :: "ResponseContext option"

section \<open>Reading through a cursor\<close>

text \<open>
  \<^verbatim>\<open>byteorder\<close>'s readers on a \<^verbatim>\<open>Cursor\<close> report a short read as an I/O error instead of panicking.
\<close>

definition io_eof :: Error where
  "io_eof = error_from_io ''failed to fill whole buffer''"

definition read_exact :: "nat \<Rightarrow> bytes \<Rightarrow> (Error, bytes \<times> bytes) result" where
  "read_exact n bs = (if length bs < n then Err io_eof else Ok (take n bs, drop n bs))"

definition read_u8 :: "bytes \<Rightarrow> (Error, u8 \<times> bytes) result" where
  "read_u8 bs = and_then (read_exact 1 bs) (\<lambda>(b, bs). Ok (b ! 0, bs))"

definition read_u16 :: "bytes \<Rightarrow> (Error, u16 \<times> bytes) result" where
  "read_u16 bs = and_then (read_exact 2 bs) (\<lambda>(b, bs). Ok (u16_from_be b, bs))"

definition read_u32 :: "bytes \<Rightarrow> (Error, u32 \<times> bytes) result" where
  "read_u32 bs = and_then (read_exact 4 bs) (\<lambda>(b, bs). Ok (u32_from_be b, bs))"

definition read_u64 :: "bytes \<Rightarrow> (Error, u64 \<times> bytes) result" where
  "read_u64 bs = and_then (read_exact 8 bs) (\<lambda>(b, bs). Ok (u64_from_be b, bs))"

lemmas cursor_defs = read_exact_def read_u8_def read_u16_def read_u32_def read_u64_def

section \<open>Server errors\<close>

definition decode_error_context :: "ResponsePacket \<Rightarrow> ServerErrorKind \<Rightarrow> ServerError" where
  "decode_error_context resp kind =
    (let base_cause = server_error_new kind (rp_op_code resp) (rp_status resp) (rp_opaque resp) in
     case rp_value resp of
       Some value \<Rightarrow>
         if rp_status resp = Status.NotMyVbucket then with_config value base_cause
         else with_context value base_cause
     | None \<Rightarrow> base_cause)"

definition decode_error :: "ResponsePacket \<Rightarrow> Error" where
  "decode_error resp =
    (let status = rp_status resp;
         base = (\<lambda>kind. error_from_server (decode_error_context resp kind)) in
     if status = Status.NotMyVbucket then base ServerErrorKind.NotMyVbucket
     else if status = Status.TmpFail then base ServerErrorKind.TmpFail
     else if status = Status.NoBucket then base ServerErrorKind.NoBucket
     else if status = Status.AuthStale then base ServerErrorKind.AuthStale
     else if status = Status.InvalidArgs then
       with_source (SrcServer (decode_error_context resp ServerErrorKind.InvalidArgs))
         (new_invalid_argument_error
           ''the server rejected the request because one or more arguments were invalid'' None)
     else base (ServerErrorKind.UnknownStatus status))"

text \<open>The error of a status that has a kind of its own, with the value as context if there is one.\<close>

definition status_error :: "ResponsePacket \<Rightarrow> ServerErrorKind \<Rightarrow> Error" where
  "status_error resp kind =
    (let err = server_error_new kind (rp_op_code resp) (rp_status resp) (rp_opaque resp) in
     error_from_server
       (case rp_value resp of Some value \<Rightarrow> with_context value err | None \<Rightarrow> err))"

definition decode_common_status :: "ResponsePacket \<Rightarrow> (Error, unit) result" where
  "decode_common_status resp =
    (let status = rp_status resp in
     if status = Status.CollectionUnknown then Err (status_error resp ServerErrorKind.UnknownCollectionID)
     else if status = Status.AccessError then Err (status_error resp ServerErrorKind.Access)
     else if status = Status.NoBucket then Err (status_error resp ServerErrorKind.NoBucket)
     else if status = Status.RateLimitedMaxCommands then
       Err (status_error resp ServerErrorKind.RateLimitedMaxCommands)
     else if status = Status.RateLimitedMaxConnections then
       Err (status_error resp ServerErrorKind.RateLimitedMaxConnections)
     else if status = Status.RateLimitedNetworkEgress then
       Err (status_error resp ServerErrorKind.RateLimitedNetworkEgress)
     else if status = Status.RateLimitedNetworkIngress then
       Err (status_error resp ServerErrorKind.RateLimitedNetworkIngress)
     else if status = Status.RateLimitedScopeSizeLimitExceeded then
       Err (status_error resp ServerErrorKind.RateLimitedScopeSizeLimitExceeded)
     else Ok ())"

definition decode_common_mutation_status :: "ResponsePacket \<Rightarrow> (Error, unit) result" where
  "decode_common_mutation_status resp =
    (let status = rp_status resp in
     if status = Status.DurabilityInvalidLevel then Err (status_error resp ServerErrorKind.DurabilityInvalid)
     else if status = Status.SyncWriteAmbiguous then Err (status_error resp ServerErrorKind.SyncWriteAmbiguous)
     else if status = Status.SyncWriteInProgress then Err (status_error resp ServerErrorKind.SyncWriteInProgress)
     else if status = Status.SyncWriteRecommitInProgress then
       Err (status_error resp ServerErrorKind.SyncWriteRecommitInProgress)
     else if status = Status.DurabilityImpossible then
       Err (status_error resp ServerErrorKind.DurabilityImpossible)
     else decode_common_status resp)"

definition decode_common_mutation_error :: "ResponsePacket \<Rightarrow> Error" where
  "decode_common_mutation_error resp =
    (case decode_common_mutation_status resp of Err e \<Rightarrow> e | _ \<Rightarrow> decode_error resp)"

definition decode_common_error :: "ResponsePacket \<Rightarrow> Error" where
  "decode_common_error resp =
    (case decode_common_status resp of Err e \<Rightarrow> e | _ \<Rightarrow> decode_error resp)"

text \<open>\<^verbatim>\<open>ServerError::new(kind, packet.op_code, status, packet.opaque).into()\<close>.\<close>

definition bare_error :: "ResponsePacket \<Rightarrow> ServerErrorKind \<Rightarrow> Error" where
  "bare_error packet kind =
    error_from_server (server_error_new kind (rp_op_code packet) (rp_status packet) (rp_opaque packet))"

section \<open>Core responses\<close>

record HelloResponse =
  hr_enabled_features :: "HelloFeature list"

fun read_features :: "bytes \<Rightarrow> HelloFeature list" where
  "read_features (a # b # bs) = hello_feature_from_u16 (u16_from_be [a, b]) # read_features bs"
| "read_features _ = []"

definition hello_response :: "ClientResponse \<Rightarrow> (Error, HelloResponse) result" where
  "hello_response resp =
    (let packet = cr_packet resp in
     if rp_status packet \<noteq> Status.Success then Err (decode_error packet)
     else
       case rp_value packet of
         Some value \<Rightarrow>
           if length value mod 2 \<noteq> 0 then Err (new_protocol_error ''invalid hello features length'')
           else Ok \<lparr>hr_enabled_features = read_features value\<rparr>
       | None \<Rightarrow> Ok \<lparr>hr_enabled_features = []\<rparr>)"

definition get_error_map_response :: "ClientResponse \<Rightarrow> (Error, bytes) result" where
  "get_error_map_response resp =
    (let packet = cr_packet resp in
     if rp_status packet \<noteq> Status.Success then Err (decode_error packet)
     else Ok (unwrap_or [] (rp_value packet)))"

definition select_bucket_response :: "ClientResponse \<Rightarrow> (Error, unit) result" where
  "select_bucket_response resp =
    (let packet = cr_packet resp; status = rp_status packet in
     if status \<noteq> Status.Success then
       if status = Status.AccessError \<or> status = Status.KeyNotFound then
         Err (bare_error packet ServerErrorKind.UnknownBucketName)
       else Err (decode_error packet)
     else Ok ())"

record SASLAuthResponse =
  sar_needs_more_steps :: bool
  sar_payload :: bytes

definition sasl_auth_response :: "ClientResponse \<Rightarrow> (Error, SASLAuthResponse) result" where
  "sasl_auth_response resp =
    (let packet = cr_packet resp; status = rp_status packet in
     if status = Status.AuthContinue then
       Ok \<lparr>sar_needs_more_steps = True, sar_payload = unwrap_or [] (rp_value packet)\<rparr>
     else if status \<noteq> Status.Success then Err (decode_error packet)
     else Ok \<lparr>sar_needs_more_steps = False, sar_payload = unwrap_or [] (rp_value packet)\<rparr>)"

definition sasl_step_response :: "ClientResponse \<Rightarrow> (Error, SASLAuthResponse) result" where
  "sasl_step_response resp =
    (let packet = cr_packet resp in
     if rp_status packet \<noteq> Status.Success then Err (decode_error packet)
     else Ok \<lparr>sar_needs_more_steps = False, sar_payload = unwrap_or [] (rp_value packet)\<rparr>)"

text \<open>
  \<^verbatim>\<open>String::from_utf8\<close> accepts well-formed UTF-8 (no overlong forms, no surrogates, nothing above
  U+10FFFF); \<^verbatim>\<open>str::split\<close> on a space yields one more piece than there are spaces.
\<close>

definition utf8_cont :: "u8 \<Rightarrow> bool" where
  "utf8_cont b \<longleftrightarrow> 0x80 \<le> b \<and> b \<le> 0xBF"

fun utf8_valid :: "bytes \<Rightarrow> bool" where
  "utf8_valid [] = True"
| "utf8_valid (a # bs) =
    (if a \<le> 0x7F then utf8_valid bs
     else if 0xC2 \<le> a \<and> a \<le> 0xDF then
       (case bs of b # r \<Rightarrow> utf8_cont b \<and> utf8_valid r | _ \<Rightarrow> False)
     else if 0xE0 \<le> a \<and> a \<le> 0xEF then
       (case bs of b # c # r \<Rightarrow>
          utf8_cont b \<and> (a = 0xE0 \<longrightarrow> 0xA0 \<le> b) \<and> (a = 0xED \<longrightarrow> b \<le> 0x9F) \<and> utf8_cont c \<and> utf8_valid r
        | _ \<Rightarrow> False)
     else if 0xF0 \<le> a \<and> a \<le> 0xF4 then
       (case bs of b # c # d # r \<Rightarrow>
          utf8_cont b \<and> (a = 0xF0 \<longrightarrow> 0x90 \<le> b) \<and> (a = 0xF4 \<longrightarrow> b \<le> 0x8F)
          \<and> utf8_cont c \<and> utf8_cont d \<and> utf8_valid r
        | _ \<Rightarrow> False)
     else False)"

fun auth_mechanisms :: "string list \<Rightarrow> (Error, AuthMechanism list) result" where
  "auth_mechanisms [] = Ok []"
| "auth_mechanisms (item # items) =
    and_then (auth_mechanism_try_from item) (\<lambda>m.
    and_then (auth_mechanisms items) (\<lambda>ms. Ok (m # ms)))"

definition sasl_list_mechs_response :: "ClientResponse \<Rightarrow> (Error, AuthMechanism list) result" where
  "sasl_list_mechs_response resp =
    (let packet = cr_packet resp; status = rp_status packet in
     if status \<noteq> Status.Success then
       if status = Status.KeyNotFound then Err (bare_error packet ServerErrorKind.ConfigNotSet)
       else Err (decode_error packet)
     else
       let value = unwrap_or [] (rp_value packet) in
       if \<not> utf8_valid value then
         Err (with_source (SrcLib ''FromUtf8Error'')
               (new_protocol_error ''failed to parse authentication mechanism list''))
       else auth_mechanisms (split_char (CHR '' '') (from_utf8 value)))"

definition get_cluster_config_response :: "ClientResponse \<Rightarrow> (Error, bytes) result" where
  "get_cluster_config_response resp =
    (let packet = cr_packet resp in
     if rp_status packet \<noteq> Status.Success then Err (decode_error packet)
     else Ok (unwrap_or [] (rp_value packet)))"

record BootstrapResult =
  br_hello :: "HelloResponse option"
  br_error_map :: "bytes option"
  br_cluster_config :: "bytes option"

section \<open>Shared parts of document responses\<close>

record MutationToken =
  mt_vbuuid :: u64
  mt_seqno :: u64

definition mutation_token_try_from :: "bytes \<Rightarrow> (Error, MutationToken) result" where
  "mutation_token_try_from value =
    (if length value \<noteq> 16 then Err (new_protocol_error ''bad extras length'')
     else Ok \<lparr>mt_vbuuid = u64_from_be (take 8 value), mt_seqno = u64_from_be (drop 8 value)\<rparr>)"

definition mutation_token_of :: "ResponsePacket \<Rightarrow> (Error, MutationToken option) result" where
  "mutation_token_of packet =
    (case rp_extras packet of
       Some extras \<Rightarrow> and_then (mutation_token_try_from extras) (\<lambda>t. Ok (Some t))
     | None \<Rightarrow> Ok None)"

definition server_duration_of :: "rust_env \<Rightarrow> ResponsePacket \<Rightarrow> (Error, Duration option) result" where
  "server_duration_of env packet =
    (case rp_framing_extras packet of
       Some f \<Rightarrow> decode_res_ext_frames env f
     | None \<Rightarrow> Ok None)"

definition parse_flags :: "bytes option \<Rightarrow> (Error, u32) result" where
  "parse_flags extras =
    (case extras of
       Some extras \<Rightarrow>
         if length extras \<noteq> 4 then Err (new_protocol_error ''bad extras length reading flags'')
         else Ok (u32_from_be extras)
     | None \<Rightarrow> Err (new_protocol_error ''no extras in response''))"

text \<open>The responses of the mutations have the same three fields, those of the reads the same five.\<close>

record MutationResponse =
  mres_cas :: u64
  mres_mutation_token :: "MutationToken option"
  mres_server_duration :: "Duration option"

definition mutation_result :: "rust_env \<Rightarrow> ResponsePacket \<Rightarrow> (Error, MutationResponse) result" where
  "mutation_result env packet =
    and_then (mutation_token_of packet) (\<lambda>mutation_token.
    and_then (server_duration_of env packet) (\<lambda>server_duration.
    Ok \<lparr>mres_cas = unwrap_or 0 (rp_cas packet), mres_mutation_token = mutation_token,
        mres_server_duration = server_duration\<rparr>))"

record GetResponse =
  gres_cas :: u64
  gres_flags :: u32
  gres_value :: bytes
  gres_datatype :: u8
  gres_server_duration :: "Duration option"

definition get_result :: "rust_env \<Rightarrow> ResponsePacket \<Rightarrow> (Error, GetResponse) result" where
  "get_result env packet =
    and_then (parse_flags (rp_extras packet)) (\<lambda>flags.
    and_then (server_duration_of env packet) (\<lambda>server_duration.
    Ok \<lparr>gres_cas = unwrap_or 0 (rp_cas packet), gres_flags = flags,
        gres_value = unwrap_or [] (rp_value packet), gres_datatype = rp_datatype packet,
        gres_server_duration = server_duration\<rparr>))"

record CounterResponse =
  ctr_cas :: u64
  ctr_value :: u64
  ctr_mutation_token :: "MutationToken option"
  ctr_server_duration :: "Duration option"

definition counter_result :: "rust_env \<Rightarrow> ResponsePacket \<Rightarrow> (Error, CounterResponse) result" where
  "counter_result env packet =
    and_then
      (case rp_value packet of
         Some val \<Rightarrow>
           if length val \<noteq> 8 then Err (new_protocol_error ''bad counter value length in response'')
           else Ok (u64_from_be val)
       | None \<Rightarrow> Ok 0) (\<lambda>value.
    and_then (mutation_token_of packet) (\<lambda>mutation_token.
    and_then (server_duration_of env packet) (\<lambda>server_duration.
    Ok \<lparr>ctr_cas = unwrap_or 0 (rp_cas packet), ctr_value = value,
        ctr_mutation_token = mutation_token, ctr_server_duration = server_duration\<rparr>)))"

section \<open>Document responses\<close>

definition set_response :: "rust_env \<Rightarrow> ClientResponse \<Rightarrow> (Error, MutationResponse) result" where
  "set_response env resp =
    (let packet = cr_packet resp; status = rp_status packet in
     if status = Status.TooBig then Err (bare_error packet ServerErrorKind.TooBig)
     else if status = Status.Locked then Err (bare_error packet ServerErrorKind.Locked)
     else if status = Status.KeyExists then Err (bare_error packet ServerErrorKind.CasMismatch)
     else if status = Status.Success then mutation_result env packet
     else Err (decode_common_mutation_error packet))"

definition get_response :: "rust_env \<Rightarrow> ClientResponse \<Rightarrow> (Error, GetResponse) result" where
  "get_response env resp =
    (let packet = cr_packet resp; status = rp_status packet in
     if status = Status.KeyNotFound then Err (bare_error packet ServerErrorKind.KeyNotFound)
     else if status \<noteq> Status.Success then Err (decode_common_error packet)
     else get_result env packet)"

record GetMetaResponse =
  gm_cas :: u64
  gm_flags :: u32
  gm_value :: bytes
  gm_datatype :: u8
  gm_server_duration :: "Duration option"
  gm_expiry :: u32
  gm_seq_no :: u64
  gm_deleted :: bool

definition get_meta_response :: "rust_env \<Rightarrow> ClientResponse \<Rightarrow> (Error, GetMetaResponse) result" where
  "get_meta_response env resp =
    (let packet = cr_packet resp; status = rp_status packet in
     if status = Status.KeyNotFound then Err (bare_error packet ServerErrorKind.KeyNotFound)
     else if status \<noteq> Status.Success then Err (decode_common_error packet)
     else
       and_then (server_duration_of env packet) (\<lambda>server_duration.
       case rp_extras packet of
         Some extras \<Rightarrow>
           if length extras \<noteq> 21 then Err (new_protocol_error ''bad extras length'')
           else
             and_then (read_u32 extras) (\<lambda>(deleted, extras).
             and_then (read_u32 extras) (\<lambda>(flags, extras).
             and_then (read_u32 extras) (\<lambda>(expiry, extras).
             and_then (read_u64 extras) (\<lambda>(seq_no, extras).
             and_then (read_u8 extras) (\<lambda>(datatype, extras).
             Ok \<lparr>gm_cas = unwrap_or 0 (rp_cas packet), gm_flags = flags,
                 gm_value = unwrap_or [] (rp_value packet), gm_datatype = datatype,
                 gm_server_duration = server_duration, gm_expiry = expiry, gm_seq_no = seq_no,
                 gm_deleted = (deleted \<noteq> 0)\<rparr>)))))
       | None \<Rightarrow> Err (new_protocol_error ''no extras in response'')))"

definition delete_response :: "rust_env \<Rightarrow> ClientResponse \<Rightarrow> (Error, MutationResponse) result" where
  "delete_response env resp =
    (let packet = cr_packet resp; status = rp_status packet in
     if status = Status.KeyNotFound then Err (bare_error packet ServerErrorKind.KeyNotFound)
     else if status = Status.Locked then Err (bare_error packet ServerErrorKind.Locked)
     else if status = Status.KeyExists then Err (bare_error packet ServerErrorKind.CasMismatch)
     else if status = Status.Success then mutation_result env packet
     else Err (decode_common_mutation_error packet))"

definition get_and_lock_response :: "rust_env \<Rightarrow> ClientResponse \<Rightarrow> (Error, GetResponse) result" where
  "get_and_lock_response env resp =
    (let packet = cr_packet resp; status = rp_status packet in
     if status = Status.KeyNotFound then Err (bare_error packet ServerErrorKind.KeyNotFound)
     else if status = Status.Locked then Err (bare_error packet ServerErrorKind.Locked)
     else if status \<noteq> Status.Success then Err (decode_common_error packet)
     else get_result env packet)"

definition get_and_touch_response :: "rust_env \<Rightarrow> ClientResponse \<Rightarrow> (Error, GetResponse) result" where
  "get_and_touch_response env resp =
    (let packet = cr_packet resp; status = rp_status packet in
     if status = Status.KeyNotFound then Err (bare_error packet ServerErrorKind.KeyNotFound)
     else if status = Status.Locked then Err (bare_error packet ServerErrorKind.Locked)
     else if status \<noteq> Status.Success then Err (decode_common_error packet)
     else get_result env packet)"

definition unlock_response :: "rust_env \<Rightarrow> ClientResponse \<Rightarrow> (Error, Duration option) result" where
  "unlock_response env resp =
    (let packet = cr_packet resp; status = rp_status packet in
     if status = Status.KeyNotFound then Err (bare_error packet ServerErrorKind.KeyNotFound)
     else if status = Status.Locked then Err (bare_error packet ServerErrorKind.CasMismatch)
     else if status = Status.NotLocked then Err (bare_error packet ServerErrorKind.NotLocked)
     else if status \<noteq> Status.Success then Err (decode_common_error packet)
     else server_duration_of env packet)"

record TouchResponse =
  tres_cas :: u64
  tres_server_duration :: "Duration option"

definition touch_response :: "rust_env \<Rightarrow> ClientResponse \<Rightarrow> (Error, TouchResponse) result" where
  "touch_response env resp =
    (let packet = cr_packet resp; status = rp_status packet in
     if status = Status.KeyNotFound then Err (bare_error packet ServerErrorKind.KeyNotFound)
     else if status = Status.Locked then Err (bare_error packet ServerErrorKind.Locked)
     else if status \<noteq> Status.Success then Err (decode_common_error packet)
     else if (case rp_extras packet of Some extras \<Rightarrow> extras \<noteq> [] | None \<Rightarrow> False) then
       Err (new_protocol_error ''bad extras length'')
     else
       and_then (server_duration_of env packet) (\<lambda>server_duration.
       Ok \<lparr>tres_cas = unwrap_or 0 (rp_cas packet), tres_server_duration = server_duration\<rparr>))"

definition add_response :: "rust_env \<Rightarrow> ClientResponse \<Rightarrow> (Error, MutationResponse) result" where
  "add_response env resp =
    (let packet = cr_packet resp; status = rp_status packet in
     if status = Status.TooBig then Err (bare_error packet ServerErrorKind.TooBig)
     else if status = Status.Locked then Err (bare_error packet ServerErrorKind.Locked)
     else if status = Status.KeyExists then Err (bare_error packet ServerErrorKind.KeyExists)
     else if status = Status.Success then mutation_result env packet
     else Err (decode_common_mutation_error packet))"

definition replace_response :: "rust_env \<Rightarrow> ClientResponse \<Rightarrow> (Error, MutationResponse) result" where
  "replace_response env resp =
    (let packet = cr_packet resp; status = rp_status packet in
     if status = Status.TooBig then Err (bare_error packet ServerErrorKind.TooBig)
     else if status = Status.KeyNotFound then Err (bare_error packet ServerErrorKind.KeyNotFound)
     else if status = Status.Locked then Err (bare_error packet ServerErrorKind.Locked)
     else if status = Status.KeyExists then Err (bare_error packet ServerErrorKind.CasMismatch)
     else if status = Status.Success then mutation_result env packet
     else Err (decode_common_mutation_error packet))"

definition append_response :: "rust_env \<Rightarrow> ClientResponse \<Rightarrow> (Error, MutationResponse) result" where
  "append_response env resp =
    and_then (expect (cr_response_context resp)) (\<lambda>context.
    let cas = rc_cas context; packet = cr_packet resp; status = rp_status packet in
    if status = Status.TooBig then Err (bare_error packet ServerErrorKind.TooBig)
    else if status = Status.NotStored then Err (bare_error packet ServerErrorKind.NotStored)
    else if status = Status.Locked then Err (bare_error packet ServerErrorKind.Locked)
    else if status = Status.KeyExists \<and> cas \<noteq> None then Err (bare_error packet ServerErrorKind.CasMismatch)
    else if status = Status.Success then mutation_result env packet
    else Err (decode_common_mutation_error packet))"

definition prepend_response :: "rust_env \<Rightarrow> ClientResponse \<Rightarrow> (Error, MutationResponse) result" where
  "prepend_response env resp =
    and_then (expect (cr_response_context resp)) (\<lambda>context.
    let cas = rc_cas context; packet = cr_packet resp; status = rp_status packet in
    if status = Status.TooBig then Err (bare_error packet ServerErrorKind.TooBig)
    else if status = Status.NotStored then Err (bare_error packet ServerErrorKind.NotStored)
    else if status = Status.Locked then Err (bare_error packet ServerErrorKind.Locked)
    else if status = Status.KeyExists \<and> cas \<noteq> None then Err (bare_error packet ServerErrorKind.CasMismatch)
    else if status = Status.Success then mutation_result env packet
    else Err (decode_common_mutation_error packet))"

definition increment_response :: "rust_env \<Rightarrow> ClientResponse \<Rightarrow> (Error, CounterResponse) result" where
  "increment_response env resp =
    (let packet = cr_packet resp; status = rp_status packet in
     if status = Status.KeyNotFound then Err (bare_error packet ServerErrorKind.KeyNotFound)
     else if status = Status.Locked then Err (bare_error packet ServerErrorKind.Locked)
     else if status = Status.BadDelta then Err (bare_error packet ServerErrorKind.BadDelta)
     else if status = Status.Success then counter_result env packet
     else Err (decode_common_mutation_error packet))"

definition decrement_response :: "rust_env \<Rightarrow> ClientResponse \<Rightarrow> (Error, CounterResponse) result" where
  "decrement_response env resp =
    (let packet = cr_packet resp; status = rp_status packet in
     if status = Status.KeyNotFound then Err (bare_error packet ServerErrorKind.KeyNotFound)
     else if status = Status.Locked then Err (bare_error packet ServerErrorKind.Locked)
     else if status = Status.BadDelta then Err (bare_error packet ServerErrorKind.BadDelta)
     else if status = Status.Success then counter_result env packet
     else Err (decode_common_mutation_error packet))"

section \<open>Sub-document responses\<close>

definition response_subdoc_info :: "ClientResponse \<Rightarrow> (Error, SubdocRequestInfo) result" where
  "response_subdoc_info resp =
    and_then (expect (cr_response_context resp)) (\<lambda>context. expect (rc_subdoc_info context))"

definition subdoc_error :: "SubdocErrorKind \<Rightarrow> u8 option \<Rightarrow> ServerErrorKind" where
  "subdoc_error kind op_index = ServerErrorKind.Subdoc (SubdocError kind op_index)"

definition lookup_in_err_kind :: "Status \<Rightarrow> SubdocErrorKind option" where
  "lookup_in_err_kind res_status =
    (if res_status = Status.Success then None
     else if res_status = Status.SubDocDocTooDeep then Some SubdocErrorKind.DocTooDeep
     else if res_status = Status.SubDocNotJSON then Some SubdocErrorKind.NotJSON
     else if res_status = Status.SubDocPathNotFound then Some SubdocErrorKind.PathNotFound
     else if res_status = Status.SubDocPathMismatch then Some SubdocErrorKind.PathMismatch
     else if res_status = Status.SubDocPathInvalid then Some SubdocErrorKind.PathInvalid
     else if res_status = Status.SubDocPathTooBig then Some SubdocErrorKind.PathTooBig
     else if res_status = Status.SubDocXattrUnknownVAttr then Some SubdocErrorKind.XattrUnknownVAttr
     else Some (SubdocErrorKind.UnknownStatus res_status))"

definition bad_value_length :: Error where
  "bad_value_length = new_protocol_error ''bad value length''"

text \<open>One turn of the result loop: a result, the next operation index and the remaining bytes.\<close>

definition lookup_in_result_step ::
    "rust_env \<Rightarrow> ResponsePacket \<Rightarrow> u8 \<Rightarrow> bytes \<Rightarrow> (Error, SubDocResult \<times> u8 \<times> bytes) result" where
  "lookup_in_result_step env packet op_index cursor =
    (if length cursor < 6 then Err bad_value_length
     else
       and_then (read_u16 cursor) (\<lambda>(res_status, cursor).
       let res_status = status_from_u16 res_status in
       and_then (read_u32 cursor) (\<lambda>(res_value_len, cursor).
       if length cursor < unat res_value_len then Err bad_value_length
       else
         and_then
           (if res_value_len > 0
            then and_then (read_exact (unat res_value_len) cursor) (\<lambda>(v, cursor). Ok (Some v, cursor))
            else Ok (None, cursor)) (\<lambda>(value, cursor).
         let err = map_option (\<lambda>kind. bare_error packet (subdoc_error kind (Some op_index)))
                     (lookup_in_err_kind res_status) in
         and_then (add_u8 env op_index 1) (\<lambda>op_index.
         Ok (\<lparr>sdr_err = err, sdr_value = value\<rparr>, op_index, cursor))))))"

lemma lookup_in_result_step_shorter:
  "lookup_in_result_step env packet op_index cursor = Ok (r, op_index', cursor')
    \<Longrightarrow> length cursor' < length cursor"
  by (auto simp: lookup_in_result_step_def cursor_defs Let_def res_simps split: if_splits)

function lookup_in_results ::
    "rust_env \<Rightarrow> ResponsePacket \<Rightarrow> u8 \<Rightarrow> SubDocResult list \<Rightarrow> bytes \<Rightarrow> (Error, SubDocResult list) result" where
  "lookup_in_results env packet op_index results cursor =
    (if cursor = [] then Ok results
     else
       case lookup_in_result_step env packet op_index cursor of
         Ok (r, op_index', cursor') \<Rightarrow> lookup_in_results env packet op_index' (results @ [r]) cursor'
       | Err e \<Rightarrow> Err e
       | Panic \<Rightarrow> Panic)"
  by pat_completeness auto
termination
  by (relation "measure (\<lambda>(env, packet, op_index, results, cursor). length cursor)")
     (auto dest: lookup_in_result_step_shorter)

declare lookup_in_results.simps [simp del]

record LookupInResponse =
  lres_cas :: u64
  lres_ops :: "SubDocResult list"
  lres_doc_is_deleted :: bool
  lres_server_duration :: "Duration option"

definition lookup_in_response :: "rust_env \<Rightarrow> ClientResponse \<Rightarrow> (Error, LookupInResponse) result" where
  "lookup_in_response env resp =
    and_then (response_subdoc_info resp) (\<lambda>subdoc_info.
    let packet = cr_packet resp; cas = rp_cas packet; status = rp_status packet in
    if status = Status.KeyNotFound then Err (bare_error packet ServerErrorKind.KeyNotFound)
    else if status = Status.Locked then Err (bare_error packet ServerErrorKind.Locked)
    else if status = Status.SubDocInvalidCombo then
      Err (bare_error packet (subdoc_error SubdocErrorKind.InvalidCombo None))
    else if status = Status.SubDocInvalidXattrOrder then
      Err (bare_error packet (subdoc_error SubdocErrorKind.InvalidXattrOrder None))
    else if status = Status.SubDocXattrInvalidKeyCombo then
      Err (bare_error packet (subdoc_error SubdocErrorKind.XattrInvalidKeyCombo None))
    else if status = Status.SubDocXattrInvalidFlagCombo then
      Err (bare_error packet (subdoc_error SubdocErrorKind.XattrInvalidFlagCombo None))
    else
      let doc_is_deleted =
        (status = Status.SubDocSuccessDeleted \<or> status = Status.SubDocMultiPathFailureDeleted) in
      if \<not> doc_is_deleted \<and> status \<noteq> Status.Success \<and> status \<noteq> Status.SubDocMultiPathFailure then
        Err (decode_common_error packet)
      else
        case rp_value packet of
          None \<Rightarrow> Err (new_protocol_error ''missing value'')
        | Some value \<Rightarrow>
            and_then (lookup_in_results env packet 0 [] value) (\<lambda>results.
            and_then (server_duration_of env packet) (\<lambda>server_duration.
            Ok \<lparr>lres_cas = unwrap_or 0 cas, lres_ops = results, lres_doc_is_deleted = doc_is_deleted,
                lres_server_duration = server_duration\<rparr>)))"

definition mutate_in_err_kind :: "Status \<Rightarrow> SubdocErrorKind" where
  "mutate_in_err_kind res_status =
    (if res_status = Status.SubDocDocTooDeep then SubdocErrorKind.DocTooDeep
     else if res_status = Status.SubDocNotJSON then SubdocErrorKind.NotJSON
     else if res_status = Status.SubDocPathNotFound then SubdocErrorKind.PathNotFound
     else if res_status = Status.SubDocPathMismatch then SubdocErrorKind.PathMismatch
     else if res_status = Status.SubDocPathInvalid then SubdocErrorKind.PathInvalid
     else if res_status = Status.SubDocPathTooBig then SubdocErrorKind.PathTooBig
     else if res_status = Status.SubDocPathExists then SubdocErrorKind.PathExists
     else if res_status = Status.SubDocCantInsert then SubdocErrorKind.CantInsert
     else if res_status = Status.SubDocBadRange then SubdocErrorKind.BadRange
     else if res_status = Status.SubDocBadDelta then SubdocErrorKind.BadDelta
     else if res_status = Status.SubDocValueTooDeep then SubdocErrorKind.ValueTooDeep
     else SubdocErrorKind.UnknownStatus res_status)"

text \<open>
  The status chain of mutate-in: \<open>Ok (Some kind)\<close> is an error kind, \<open>Ok None\<close> goes on, \<open>Err\<close> is the early
  return of a malformed multi-path failure.
\<close>

definition mutate_in_kind ::
    "ResponsePacket \<Rightarrow> SubdocRequestInfo \<Rightarrow> (Error, ServerErrorKind option) result" where
  "mutate_in_kind packet subdoc_info =
    (let cas = rp_cas packet; status = rp_status packet in
     if status = Status.KeyNotFound then Ok (Some ServerErrorKind.KeyNotFound)
     else if status = Status.KeyExists \<and> cas \<noteq> None then Ok (Some ServerErrorKind.CasMismatch)
     else if status = Status.KeyExists then Ok (Some ServerErrorKind.KeyExists)
     else if status = Status.Locked then Ok (Some ServerErrorKind.Locked)
     else if status = Status.TooBig then Ok (Some ServerErrorKind.TooBig)
     else if status = Status.SubDocInvalidCombo then
       Ok (Some (subdoc_error SubdocErrorKind.InvalidCombo None))
     else if status = Status.SubDocInvalidXattrOrder then
       Ok (Some (subdoc_error SubdocErrorKind.InvalidXattrOrder None))
     else if status = Status.SubDocXattrInvalidKeyCombo then
       Ok (Some (subdoc_error SubdocErrorKind.XattrInvalidKeyCombo None))
     else if status = Status.SubDocXattrInvalidFlagCombo then
       Ok (Some (subdoc_error SubdocErrorKind.XattrInvalidFlagCombo None))
     else if status = Status.SubDocXattrUnknownMacro then
       Ok (Some (subdoc_error SubdocErrorKind.XattrUnknownMacro None))
     else if status = Status.SubDocXattrUnknownVattrMacro then
       Ok (Some (subdoc_error SubdocErrorKind.XattrUnknownVattrMacro None))
     else if status = Status.SubDocXattrCannotModifyVAttr then
       Ok (Some (subdoc_error SubdocErrorKind.XattrCannotModifyVAttr None))
     else if status = Status.SubDocCanOnlyReviveDeletedDocuments then
       Ok (Some (subdoc_error SubdocErrorKind.CanOnlyReviveDeletedDocuments None))
     else if status = Status.SubDocDeletedDocumentCantHaveValue then
       Ok (Some (subdoc_error SubdocErrorKind.DeletedDocumentCantHaveValue None))
     else if status = Status.NotStored then
       Ok (Some (if flags_contains (sri_flags subdoc_info) DocFlag_AddDoc
                 then ServerErrorKind.KeyExists else ServerErrorKind.NotStored))
     else if status = Status.SubDocMultiPathFailure then
       (case rp_value packet of
          Some value \<Rightarrow>
            if length value \<noteq> 3 then Err bad_value_length
            else
              and_then (read_u8 value) (\<lambda>(op_index, cursor).
              and_then (read_u16 cursor) (\<lambda>(res_status, cursor).
              Ok (Some (subdoc_error (mutate_in_err_kind (status_from_u16 res_status)) (Some op_index)))))
        | None \<Rightarrow> Err bad_value_length)
     else Ok None)"

definition empty_result :: SubDocResult where
  "empty_result = \<lparr>sdr_err = None, sdr_value = None\<rparr>"

definition mutate_in_result_step ::
    "SubDocResult list \<Rightarrow> bytes \<Rightarrow> (Error, SubDocResult list \<times> bytes) result" where
  "mutate_in_result_step results cursor =
    (if length cursor < 3 then Err bad_value_length
     else
       and_then (read_u8 cursor) (\<lambda>(op_index, cursor).
       let len = (word_of_nat (length results) :: u8);
           results = (if op_index > len
                      then results @ replicate (unat op_index - unat len) empty_result else results) in
       and_then (read_u16 cursor) (\<lambda>(op_status, cursor).
       if status_from_u16 op_status = Status.Success then
         and_then (read_u32 cursor) (\<lambda>(val_length, cursor).
         and_then (read_exact (unat val_length) cursor) (\<lambda>(value, cursor).
         Ok (results @ [\<lparr>sdr_err = None, sdr_value = Some value\<rparr>], cursor)))
       else Err (new_protocol_error ''subdoc mutatein op illegally provided an error''))))"

lemma mutate_in_result_step_shorter:
  "mutate_in_result_step results cursor = Ok (results', cursor') \<Longrightarrow> length cursor' < length cursor"
  by (auto simp: mutate_in_result_step_def cursor_defs Let_def res_simps split: if_splits)

function mutate_in_results :: "SubDocResult list \<Rightarrow> bytes \<Rightarrow> (Error, SubDocResult list) result" where
  "mutate_in_results results cursor =
    (if cursor = [] then Ok results
     else
       case mutate_in_result_step results cursor of
         Ok (results', cursor') \<Rightarrow> mutate_in_results results' cursor'
       | Err e \<Rightarrow> Err e
       | Panic \<Rightarrow> Panic)"
  by pat_completeness auto
termination
  by (relation "measure (\<lambda>(results, cursor). length cursor)")
     (auto dest: mutate_in_result_step_shorter)

declare mutate_in_results.simps [simp del]

definition pad_results :: "u8 \<Rightarrow> SubDocResult list \<Rightarrow> SubDocResult list" where
  "pad_results op_count results = results @ replicate (unat op_count - length results) empty_result"

record MutateInResponse =
  mir_res_cas :: u64
  mir_res_ops :: "SubDocResult list"
  mir_res_doc_is_deleted :: bool
  mir_res_mutation_token :: "MutationToken option"
  mir_res_server_duration :: "Duration option"

definition mutate_in_response :: "rust_env \<Rightarrow> ClientResponse \<Rightarrow> (Error, MutateInResponse) result" where
  "mutate_in_response env resp =
    and_then (response_subdoc_info resp) (\<lambda>subdoc_info.
    let packet = cr_packet resp; cas = rp_cas packet; status = rp_status packet in
    and_then (mutate_in_kind packet subdoc_info) (\<lambda>kind.
    case kind of
      Some kind \<Rightarrow> Err (bare_error packet kind)
    | None \<Rightarrow>
        let doc_is_deleted = (status = Status.SubDocSuccessDeleted) in
        if \<not> doc_is_deleted \<and> status \<noteq> Status.Success \<and> status \<noteq> Status.SubDocMultiPathFailure then
          Err (decode_common_mutation_error packet)
        else
          and_then (case rp_value packet of
                      Some value \<Rightarrow> mutate_in_results [] value
                    | None \<Rightarrow> Ok []) (\<lambda>results.
          let results = pad_results (sri_op_count subdoc_info) results in
          and_then (mutation_token_of packet) (\<lambda>mutation_token.
          and_then (server_duration_of env packet) (\<lambda>server_duration.
          Ok \<lparr>mir_res_cas = unwrap_or 0 cas, mir_res_ops = results,
              mir_res_doc_is_deleted = doc_is_deleted, mir_res_mutation_token = mutation_token,
              mir_res_server_duration = server_duration\<rparr>)))))"

section \<open>Utility responses\<close>

record GetCollectionIdResponse =
  gci_manifest_rev :: u64
  gci_collection_id :: u32

definition get_collection_id_response ::
    "ClientResponse \<Rightarrow> (Error, GetCollectionIdResponse) result" where
  "get_collection_id_response resp =
    and_then (expect (cr_response_context resp)) (\<lambda>context.
    and_then (expect (rc_scope_name context)) (\<lambda>scope_name.
    and_then (expect (rc_collection_name context)) (\<lambda>collection_name.
    let packet = cr_packet resp; status = rp_status packet;
        resource = (\<lambda>kind. Err (error_from_resource (resource_error_new
          (server_error_new kind (rp_op_code packet) (rp_status packet) (rp_opaque packet))
          scope_name collection_name))) in
    if status = Status.ScopeUnknown then resource ServerErrorKind.UnknownScopeName
    else if status = Status.CollectionUnknown then resource ServerErrorKind.UnknownCollectionName
    else if status \<noteq> Status.Success then Err (decode_error packet)
    else
      case rp_extras packet of
        None \<Rightarrow> Err (new_protocol_error ''no extras in response'')
      | Some extras \<Rightarrow>
          if length extras \<noteq> 12 then Err (new_protocol_error ''invalid extras length'')
          else
            and_then (read_u64 extras) (\<lambda>(manifest_rev, extras).
            and_then (read_u32 extras) (\<lambda>(collection_id, extras).
            Ok \<lparr>gci_manifest_rev = manifest_rev, gci_collection_id = collection_id\<rparr>)))))"

definition ping_response :: "ClientResponse \<Rightarrow> (Error, unit) result" where
  "ping_response resp =
    (let packet = cr_packet resp in
     if rp_status packet \<noteq> Status.Success then Err (decode_error packet) else Ok ())"

end
