(* ===== verification/Memdx_Replies.thy ===== *)
theory Memdx_Replies
  imports Memdx_Response
begin

text \<open>
  What responses mean for the caller: every failed status turns into an error that names the packet,
  decoding never panics on the context its own request installed, and the sub-document results come
  out at the positions the server gave them.
\<close>

section \<open>Replies to document operations\<close>

primrec outcome :: "('e, 'a) result \<Rightarrow> ('e, unit) result" where
  "outcome (Ok x) = Ok ()"
| "outcome (Err e) = Err e"
| "outcome Panic = Panic"

lemma outcome_simps [simp]:
  "outcome r = Panic \<longleftrightarrow> r = Panic" "outcome r = Err e \<longleftrightarrow> r = Err e"
  by (cases r; simp)+

text \<open>The decoder that the operation's pending handle runs on the response.\<close>

primrec crud_reply :: "rust_env \<Rightarrow> CrudRequest \<Rightarrow> ClientResponse \<Rightarrow> (Error, unit) result" where
  "crud_reply env (CrudSet _) resp = outcome (set_response env resp)"
| "crud_reply env (CrudGet _) resp = outcome (get_response env resp)"
| "crud_reply env (CrudGetMeta _) resp = outcome (get_meta_response env resp)"
| "crud_reply env (CrudDelete _) resp = outcome (delete_response env resp)"
| "crud_reply env (CrudGetAndLock _) resp = outcome (get_and_lock_response env resp)"
| "crud_reply env (CrudGetAndTouch _) resp = outcome (get_and_touch_response env resp)"
| "crud_reply env (CrudUnlock _) resp = outcome (unlock_response env resp)"
| "crud_reply env (CrudTouch _) resp = outcome (touch_response env resp)"
| "crud_reply env (CrudAdd _) resp = outcome (add_response env resp)"
| "crud_reply env (CrudReplace _) resp = outcome (replace_response env resp)"
| "crud_reply env (CrudAppend _) resp = outcome (append_response env resp)"
| "crud_reply env (CrudPrepend _) resp = outcome (prepend_response env resp)"
| "crud_reply env (CrudIncrement _) resp = outcome (increment_response env resp)"
| "crud_reply env (CrudDecrement _) resp = outcome (decrement_response env resp)"
| "crud_reply env (CrudLookupIn _) resp = outcome (lookup_in_response env resp)"
| "crud_reply env (CrudMutateIn _) resp = outcome (mutate_in_response env resp)"

lemmas crud_response_defs =
  set_response_def get_response_def get_meta_response_def delete_response_def
  get_and_lock_response_def get_and_touch_response_def unlock_response_def touch_response_def
  add_response_def replace_response_def append_response_def prepend_response_def
  increment_response_def decrement_response_def lookup_in_response_def mutate_in_response_def

text \<open>The context an operation dispatches with is the one its decoder looks up.\<close>

definition context_fits :: "CrudRequest \<Rightarrow> ResponseContext option \<Rightarrow> bool" where
  "context_fits r ctx =
    (case r of
       CrudAppend q \<Rightarrow> ctx \<noteq> None
     | CrudPrepend q \<Rightarrow> ctx \<noteq> None
     | CrudLookupIn q \<Rightarrow> (\<exists>c i. ctx = Some c \<and> rc_subdoc_info c = Some i)
     | CrudMutateIn q \<Rightarrow> (\<exists>c i. ctx = Some c \<and> rc_subdoc_info c = Some i)
     | _ \<Rightarrow> True)"

lemma crud_call_context: "crud_call self r = Ok (p, ctx) \<Longrightarrow> context_fits r ctx"
  by (cases r) (auto simp: context_fits_def crud_op_defs Let_def res_simps split: if_splits)

section \<open>Errors name their packet\<close>

definition server_cause :: "Error \<Rightarrow> ServerError option" where
  "server_cause e =
    (case err_kind e of
       ErrorKind.Server s \<Rightarrow> Some s
     | ErrorKind.Resource r \<Rightarrow> Some (re_cause r)
     | _ \<Rightarrow> (case err_source e of Some (SrcServer s) \<Rightarrow> Some s | _ \<Rightarrow> None))"

definition blames :: "ResponsePacket \<Rightarrow> Error \<Rightarrow> bool" where
  "blames packet e =
    (case server_cause e of
       Some s \<Rightarrow> se_op_code s = rp_op_code packet \<and> se_status s = rp_status packet
         \<and> se_opaque s = rp_opaque packet
     | None \<Rightarrow> False)"

lemma decode_error_context_sel [simp]:
  "se_op_code (decode_error_context packet k) = rp_op_code packet"
  "se_status (decode_error_context packet k) = rp_status packet"
  "se_opaque (decode_error_context packet k) = rp_opaque packet"
  "se_kind (decode_error_context packet k) = k"
  by (simp_all add: decode_error_context_def Let_def split: option.split)

lemma blames_server [simp]: "blames packet (error_from_server s) \<longleftrightarrow>
    se_op_code s = rp_op_code packet \<and> se_status s = rp_status packet \<and> se_opaque s = rp_opaque packet"
  by (simp add: blames_def server_cause_def)

lemma blames_bare [simp]: "blames packet (bare_error packet k)"
  by (simp add: bare_error_def)

lemma blames_status [simp]: "blames packet (status_error packet k)"
  by (simp add: status_error_def Let_def split: option.split)

lemma blames_decode_error [simp]: "blames packet (decode_error packet)"
  by (simp add: decode_error_def Let_def)
     (simp add: blames_def server_cause_def with_source_def new_invalid_argument_error_def)

lemma common_status_Err: "decode_common_status packet = Err e \<Longrightarrow> blames packet e"
  by (auto simp: decode_common_status_def Let_def split: if_splits)

lemma common_mutation_status_Err: "decode_common_mutation_status packet = Err e \<Longrightarrow> blames packet e"
  by (auto simp: decode_common_mutation_status_def Let_def common_status_Err split: if_splits)

lemma blames_common [simp]:
  "blames packet (decode_common_error packet)" "blames packet (decode_common_mutation_error packet)"
  by (auto simp: decode_common_error_def decode_common_mutation_error_def common_status_Err
      common_mutation_status_Err split: result.split)

text \<open>Statuses that an operation may treat as something other than a failure of this packet.\<close>

definition may_succeed :: "CrudRequest \<Rightarrow> Status \<Rightarrow> bool" where
  "may_succeed r status =
    (status = Status.Success \<or>
     (case r of
        CrudLookupIn _ \<Rightarrow> status \<in> {Status.SubDocMultiPathFailure, Status.SubDocSuccessDeleted,
                                   Status.SubDocMultiPathFailureDeleted}
      | CrudMutateIn _ \<Rightarrow> status \<in> {Status.SubDocMultiPathFailure, Status.SubDocSuccessDeleted}
      | _ \<Rightarrow> False))"

definition answer :: "ResponsePacket \<Rightarrow> ResponseContext option \<Rightarrow> ClientResponse" where
  "answer packet ctx = \<lparr>cr_packet = packet, cr_response_context = ctx\<rparr>"

lemma answer_sel [simp]: "cr_packet (answer p c) = p" "cr_response_context (answer p c) = c"
  by (simp_all add: answer_def)

lemma mutate_in_kind_fails:
  assumes "rp_status packet \<noteq> Status.SubDocMultiPathFailure"
  shows "\<exists>k. mutate_in_kind packet info = Ok k"
  using assms by (simp add: mutate_in_kind_def Let_def)

lemma failed_status_Err:
  assumes "context_fits r ctx" and "\<not> may_succeed r (rp_status packet)"
  shows "\<exists>e. crud_reply env r (answer packet ctx) = Err e \<and> blames packet e"
proof (cases r)
  case (CrudMutateIn q)
  obtain c i where c: "ctx = Some c" "rc_subdoc_info c = Some i"
    using assms(1) CrudMutateIn by (auto simp: context_fits_def)
  have "rp_status packet \<noteq> Status.SubDocMultiPathFailure"
    using assms(2) CrudMutateIn by (simp add: may_succeed_def)
  then obtain k where "mutate_in_kind packet i = Ok k" using mutate_in_kind_fails by blast
  with CrudMutateIn c assms(2) show ?thesis
    by (cases k) (auto simp: mutate_in_response_def response_subdoc_info_def may_succeed_def Let_def)
next
  case (CrudLookupIn q)
  with assms show ?thesis
    by (auto simp: lookup_in_response_def response_subdoc_info_def may_succeed_def context_fits_def
        Let_def)
qed (use assms in \<open>auto simp: crud_response_defs may_succeed_def context_fits_def Let_def\<close>)

section \<open>Release builds do not panic\<close>

lemma add_u8_release: "\<not> overflow_checks env \<Longrightarrow> add_u8 env a b = Ok (a + b)"
  by (simp add: add_u8_def)

lemma decode_res_ext_frames_not_Panic:
  "\<not> overflow_checks env \<Longrightarrow> decode_res_ext_frames env f \<noteq> Panic"
  by (auto simp: decode_res_ext_frames_def iter_ext_frames_def decode_ext_frame_def add_u8_release
      decode_server_duration_ext_frame_def Let_def res_simps split: if_splits option.splits)

lemma server_duration_of_not_Panic:
  "\<not> overflow_checks env \<Longrightarrow> server_duration_of env packet \<noteq> Panic"
  by (simp add: server_duration_of_def decode_res_ext_frames_not_Panic split: option.split)

lemma lookup_in_results_not_Panic:
  "\<not> overflow_checks env \<Longrightarrow> lookup_in_results env packet op_index results cursor \<noteq> Panic"
proof (induction env packet op_index results cursor rule: lookup_in_results.induct)
  case (1 env packet op_index results cursor)
  have "lookup_in_result_step env packet op_index cursor \<noteq> Panic"
    using "1.prems" by (auto simp: lookup_in_result_step_def cursor_defs add_u8_release Let_def res_simps
        split: if_splits)
  with 1 show ?case
    by (subst lookup_in_results.simps) (auto split: result.split)
qed

lemma mutate_in_results_not_Panic: "mutate_in_results results cursor \<noteq> Panic"
proof (induction results cursor rule: mutate_in_results.induct)
  case (1 results cursor)
  have "mutate_in_result_step results cursor \<noteq> Panic"
    by (auto simp: mutate_in_result_step_def cursor_defs Let_def res_simps split: if_splits)
  with 1 show ?case
    by (subst mutate_in_results.simps) (auto split: result.split)
qed

lemma mutate_in_kind_not_Panic: "mutate_in_kind packet info \<noteq> Panic"
  by (auto simp: mutate_in_kind_def cursor_defs Let_def res_simps split: option.split)

lemma mutation_token_of_not_Panic: "mutation_token_of packet \<noteq> Panic"
  by (auto simp: mutation_token_of_def mutation_token_try_from_def split: option.split)

lemma common_results_not_Panic:
  assumes "\<not> overflow_checks env"
  shows "mutation_result env packet \<noteq> Panic" "get_result env packet \<noteq> Panic"
    "counter_result env packet \<noteq> Panic"
  using server_duration_of_not_Panic [OF assms, of packet] mutation_token_of_not_Panic [of packet]
  by (auto simp: mutation_result_def get_result_def counter_result_def parse_flags_def res_simps
      split: option.splits if_splits)

lemma get_meta_response_not_Panic:
  assumes "\<not> overflow_checks env"
  shows "get_meta_response env resp \<noteq> Panic"
  using server_duration_of_not_Panic [OF assms, of "cr_packet resp"]
  by (auto simp: get_meta_response_def cursor_defs Let_def res_simps split: option.splits if_splits)

lemma subdoc_responses_not_Panic:
  assumes "\<not> overflow_checks env" and "cr_response_context resp = Some c" "rc_subdoc_info c = Some i"
  shows "lookup_in_response env resp \<noteq> Panic" "mutate_in_response env resp \<noteq> Panic"
  using assms server_duration_of_not_Panic [OF assms(1), of "cr_packet resp"]
    lookup_in_results_not_Panic [OF assms(1)] mutate_in_results_not_Panic mutate_in_kind_not_Panic
    mutation_token_of_not_Panic
  by (auto simp: lookup_in_response_def mutate_in_response_def response_subdoc_info_def Let_def
      res_simps split: option.splits if_splits)

lemma crud_reply_not_Panic:
  assumes "\<not> overflow_checks env" and "context_fits r ctx"
  shows "crud_reply env r (answer packet ctx) \<noteq> Panic"
proof (cases r)
  case (CrudLookupIn q)
  then show ?thesis
    using assms subdoc_responses_not_Panic(1) by (auto simp: context_fits_def)
next
  case (CrudMutateIn q)
  then show ?thesis
    using assms subdoc_responses_not_Panic(2) by (auto simp: context_fits_def)
next
  case (CrudGetMeta q)
  then show ?thesis using get_meta_response_not_Panic [OF assms(1)] by simp
qed (use assms(2) common_results_not_Panic [OF assms(1)] server_duration_of_not_Panic [OF assms(1)] in
      \<open>auto simp: crud_response_defs context_fits_def Let_def res_simps\<close>)

section \<open>Sub-document results\<close>

text \<open>A lookup entry on the wire: status, value length, value.\<close>

definition lookup_entry :: "Status \<times> bytes \<Rightarrow> bytes" where
  "lookup_entry e =
    (case e of (st, v) \<Rightarrow> u16_to_be (status_to_u16 st) @ u32_to_be (word_of_nat (length v)) @ v)"

definition lookup_result :: "ResponsePacket \<Rightarrow> nat \<Rightarrow> Status \<times> bytes \<Rightarrow> SubDocResult" where
  "lookup_result packet i e =
    (case e of (st, v) \<Rightarrow>
      \<lparr>sdr_err = map_option (\<lambda>k. bare_error packet (subdoc_error k (Some (word_of_nat i))))
                  (lookup_in_err_kind st),
       sdr_value = nonempty v\<rparr>)"

definition lookup_entry_fits :: "Status \<times> bytes \<Rightarrow> bool" where
  "lookup_entry_fits e \<longleftrightarrow> status_canonical (fst e) \<and> length (snd e) < 2 ^ 32"

lemma lookup_in_result_step_entry:
  assumes "lookup_entry_fits e" and "i < 255"
  shows "lookup_in_result_step env packet (word_of_nat i) (lookup_entry e @ rest) =
    Ok (lookup_result packet i e, word_of_nat (Suc i), rest)"
proof -
  obtain st v where e: "e = (st, v)" by (cases e)
  have v: "unat (word_of_nat (length v) :: u32) = length v"
    using assms(1) by (simp add: lookup_entry_fits_def e unat_of_nat)
  then have z: "(word_of_nat (length v) :: u32) > 0 \<longleftrightarrow> v \<noteq> []"
    by (simp add: word_less_nat_alt)
  have a: "add_u8 env (word_of_nat i) 1 = (Ok (word_of_nat (Suc i)) :: (Error, u8) result)"
    using assms(2) by (simp add: add_u8_def unat_of_nat add.commute)
  have st: "status_from_u16 (status_to_u16 st) = st"
    using assms(1) by (simp add: lookup_entry_fits_def e status_from_to_u16)
  show ?thesis
    using v z a st
    by (auto simp: lookup_in_result_step_def lookup_entry_def lookup_result_def e cursor_defs be_simps
        nonempty_def Let_def)
qed

lemma lookup_in_results_entries:
  assumes "list_all lookup_entry_fits es" and "i + length es \<le> 255"
  shows "lookup_in_results env packet (word_of_nat i) results (concat (map lookup_entry es)) =
    Ok (results @ map (\<lambda>(j, e). lookup_result packet j e) (enumerate i es))"
  using assms
proof (induction es arbitrary: i results)
  case Nil
  then show ?case by (simp add: lookup_in_results.simps)
next
  case (Cons e es)
  have "lookup_entry e @ concat (map lookup_entry es) \<noteq> []"
    by (cases e) (auto simp: lookup_entry_def dest: arg_cong [where f = length])
  moreover have "lookup_in_result_step env packet (word_of_nat i)
      (lookup_entry e @ concat (map lookup_entry es))
      = Ok (lookup_result packet i e, word_of_nat (Suc i), concat (map lookup_entry es))"
    using Cons.prems by (intro lookup_in_result_step_entry) auto
  ultimately show ?case
    using Cons.prems Cons.IH [of "Suc i" "results @ [lookup_result packet i e]"]
    by (subst lookup_in_results.simps) (simp del: of_nat_Suc)
qed

text \<open>A mutation entry on the wire: operation index, success status, value length, value.\<close>

definition mutate_entry :: "nat \<times> bytes \<Rightarrow> bytes" where
  "mutate_entry e =
    (case e of (i, v) \<Rightarrow>
      [word_of_nat i] @ u16_to_be (status_to_u16 Status.Success) @ u32_to_be (word_of_nat (length v)) @ v)"

definition value_result :: "bytes \<Rightarrow> SubDocResult" where
  "value_result v = \<lparr>sdr_err = None, sdr_value = Some v\<rparr>"

definition result_at :: "SubDocResult list \<Rightarrow> nat \<Rightarrow> SubDocResult" where
  "result_at rs j = (if j < length rs then rs ! j else empty_result)"

definition mutate_entries_fit :: "nat \<Rightarrow> nat \<Rightarrow> (nat \<times> bytes) list \<Rightarrow> bool" where
  "mutate_entries_fit lo hi es \<longleftrightarrow>
    sorted_wrt (<) (map fst es) \<and> list_all (\<lambda>(i, v). lo \<le> i \<and> i < hi \<and> length v < 2 ^ 32) es"

lemma mutate_in_result_step_entry:
  assumes "length rs \<le> i" and "i < 256" and "length v < 2 ^ 32"
  shows "mutate_in_result_step rs (mutate_entry (i, v) @ rest) =
    Ok (rs @ replicate (i - length rs) empty_result @ [value_result v], rest)"
proof -
  have u: "unat (word_of_nat i :: u8) = i" "unat (word_of_nat (length rs) :: u8) = length rs"
    "unat (word_of_nat (length v) :: u32) = length v"
    using assms by (simp_all add: unat_of_nat)
  then have g: "(word_of_nat i :: u8) > word_of_nat (length rs) \<longleftrightarrow> length rs < i"
    by (simp add: word_less_nat_alt)
  have st: "status_from_u16 (status_to_u16 Status.Success) = Status.Success"
    by (simp add: status_from_u16_def)
  show ?thesis
    using u g st assms(1)
    by (auto simp: mutate_in_result_step_def mutate_entry_def value_result_def cursor_defs be_simps
        Let_def simp del: status_to_u16.simps)
qed

lemma mutate_entry_nonempty [simp]: "mutate_entry e \<noteq> []"
  by (cases e) (simp add: mutate_entry_def)

lemma mutate_in_results_entries:
  assumes "mutate_entries_fit (length rs) 256 es"
  shows "\<exists>rs'. mutate_in_results rs (concat (map mutate_entry es)) = Ok rs'
    \<and> length rs' = (if es = [] then length rs else Suc (fst (last es)))
    \<and> (\<forall>j. result_at rs' j = (if j < length rs then rs ! j
         else case map_of es j of Some v \<Rightarrow> value_result v | None \<Rightarrow> empty_result))"
  using assms
proof (induction es arbitrary: rs)
  case Nil
  then show ?case by (simp add: mutate_in_results.simps result_at_def)
next
  case (Cons e es)
  obtain i v where e: "e = (i, v)" by (cases e)
  let ?rs = "rs @ replicate (i - length rs) empty_result @ [value_result v]"
  have i: "length rs \<le> i" "i < 256" "length v < 2 ^ 32"
    using Cons.prems by (simp_all add: e mutate_entries_fit_def)
  have "mutate_entries_fit (length ?rs) 256 es"
    using Cons.prems i by (auto simp: e mutate_entries_fit_def list_all_iff)
  then obtain rs' where rs': "mutate_in_results ?rs (concat (map mutate_entry es)) = Ok rs'"
      "length rs' = (if es = [] then length ?rs else Suc (fst (last es)))"
      "\<And>j. result_at rs' j = (if j < length ?rs then ?rs ! j
         else case map_of es j of Some v \<Rightarrow> value_result v | None \<Rightarrow> empty_result)"
    using Cons.IH by blast
  have notin: "map_of es j = None" if "j \<le> i" for j
    using Cons.prems that by (auto simp: e mutate_entries_fit_def map_of_eq_None_iff)
  have "mutate_in_results rs (concat (map mutate_entry (e # es))) = Ok rs'"
    using rs'(1) mutate_in_result_step_entry [OF i]
    by (subst mutate_in_results.simps) (simp add: e)
  moreover have "length rs' = Suc (fst (last (e # es)))"
    using rs'(2) i by (simp add: e)
  moreover have "result_at rs' j = (if j < length rs then rs ! j
         else case map_of (e # es) j of Some v \<Rightarrow> value_result v | None \<Rightarrow> empty_result)" for j
    using rs'(3) [of j] i notin by (auto simp: e nth_append)
  ultimately show ?case by auto
qed

section \<open>Feature and mechanism lists\<close>

lemma read_features_encoded:
  "list_all hello_feature_canonical fs \<Longrightarrow>
    read_features (concat (map (\<lambda>f. u16_to_be (hello_feature_to_u16 f)) fs)) = fs"
proof (induction fs)
  case (Cons f fs)
  have "length (u16_to_be (hello_feature_to_u16 f)) = Suc (Suc 0)" by simp
  then obtain a b where ab: "u16_to_be (hello_feature_to_u16 f) = [a, b]"
    by (auto simp only: length_Suc_conv length_0_conv)
  then have "u16_from_be [a, b] = hello_feature_to_u16 f"
    using u16_from_to_be [of "hello_feature_to_u16 f"] by simp
  with Cons ab show ?case by (simp add: hello_feature_from_to_u16)
qed simp

lemma length_concat_features:
  "length (concat (map (\<lambda>f. u16_to_be (hello_feature_to_u16 f)) fs)) = 2 * length fs"
  by (induction fs) simp_all

primrec join_mechs :: "AuthMechanism \<Rightarrow> AuthMechanism list \<Rightarrow> string" where
  "join_mechs m [] = auth_mechanism_name m"
| "join_mechs m (n # ms) = auth_mechanism_name m @ '' '' @ join_mechs n ms"

lemma auth_mechanism_name_no_space: "CHR '' '' \<notin> set (auth_mechanism_name m)"
  by (cases m) simp_all

lemma from_utf8_Nil [simp]: "from_utf8 [] = []"
  by (simp add: from_utf8_def)

lemma auth_mechanisms_join: "auth_mechanisms (split_char (CHR '' '') (join_mechs m ms)) = Ok (m # ms)"
  by (induction ms arbitrary: m)
     (simp_all add: split_char_append [OF auth_mechanism_name_no_space] split_char_none [OF auth_mechanism_name_no_space])

lemma utf8_valid_ascii: "list_all (\<lambda>b. b \<le> 0x7F) bs \<Longrightarrow> utf8_valid bs"
  by (induction bs) simp_all

lemma list_all_as_bytes_append: "as_bytes (a @ b) = as_bytes a @ as_bytes b"
  by (simp add: as_bytes_def)

lemma join_mechs_ascii: "list_all (\<lambda>b. b \<le> 0x7F) (as_bytes (join_mechs m ms))"
proof (induction ms arbitrary: m)
  case Nil
  show ?case by (cases m) (simp_all add: as_bytes_def)
next
  case (Cons n ms)
  moreover have "list_all (\<lambda>b. b \<le> 0x7F) (as_bytes (auth_mechanism_name m @ '' ''))"
    by (cases m) (simp_all add: as_bytes_def)
  ultimately show ?case
    using list_all_as_bytes_append [of "'' ''" "join_mechs n ms"] by (simp add: list_all_as_bytes_append)
qed

section \<open>Properties\<close>

definition sample_packet :: "Status \<Rightarrow> bytes option \<Rightarrow> ResponsePacket" where
  "sample_packet st v =
    (response_packet_new Magic.Res OpCode.Get 0 st 7)\<lparr>rp_cas := Some 9, rp_value := v\<rparr>"

definition sample_get :: GetRequest where
  "sample_get = get_request_new 0 [0x61] 1"

lemma sample_get_call:
  "\<exists>p. crud_call \<lparr>collections_enabled = False, durability_enabled = False,
      preserve_expiry_enabled = False, ext_frames_enabled = False\<rparr> (CrudGet sample_get) = Ok (p, None)"
  by (simp add: get_op_def crud_header_def encode_req_ext_frames_def req_frames_def sample_get_def
      get_request_new_def encode_collection_and_key_def key_limits)

definition sample_mutate_in :: MutateInRequest where
  "sample_mutate_in =
    \<lparr>kr_collection_id = 0, kr_key = [0x61], kr_vbucket_id = 1, kr_on_behalf_of = None,
     mr_durability_level = None, mr_durability_level_timeout = None, mir_flags = 0, mir_ops = [],
     mir_expiry = None, mir_preserve_expiry = None, mir_cas = None\<rparr>"

lemma sample_mutate_in_call:
  "\<exists>p ctx. crud_call \<lparr>collections_enabled = False, durability_enabled = False,
      preserve_expiry_enabled = False, ext_frames_enabled = False\<rparr> (CrudMutateIn sample_mutate_in)
      = Ok (p, ctx) \<and> rq_cas p = None"
  by (simp add: mutate_in_def crud_header_def encode_req_ext_frames_def req_frames_def
      sample_mutate_in_def encode_collection_and_key_def key_limits)

definition key_exists_frame :: RequestPacket where
  "key_exists_frame =
    (request_packet_new Magic.Res OpCode.SubDocMultiMutation 0)\<lparr>rq_vbucket_id := Some 2\<rparr>"

lemma key_exists_frame_fits: "frame_fits key_exists_frame"
  by (simp add: key_exists_frame_def frame_fits_def encodable_def request_packet_new_def opt_len_def)



text \<open>
  In a build without overflow checks, decoding any response with the context that the operation
  itself dispatched never panics.
\<close>

theorem crud_reply_never_panics:
  assumes "crud_call self r = Ok (p, ctx)" and "\<not> overflow_checks env"
  shows "crud_reply env r (answer packet ctx) \<noteq> Panic"
  using crud_reply_not_Panic [OF assms(2) crud_call_context [OF assms(1)]] .

theorem crud_reply_never_panics_witness:
  "crud_reply (sample_env\<lparr>overflow_checks := False\<rparr>) (CrudGet sample_get)
     (answer (sample_packet Status.Success None) None) \<noteq> Panic"
proof -
  obtain p where "crud_call \<lparr>collections_enabled = False, durability_enabled = False,
      preserve_expiry_enabled = False, ext_frames_enabled = False\<rparr> (CrudGet sample_get) = Ok (p, None)"
    using sample_get_call by blast
  then show ?thesis by (rule crud_reply_never_panics) simp
qed

text \<open>
  A not-my-vbucket response to any document operation is an error of that kind that hands over
  the cluster configuration in the response's value.
\<close>

lemma not_my_vbucket_carries_config:
  assumes "crud_call self r = Ok (p, ctx)" and "rp_status packet = Status.NotMyVbucket"
    and "rp_value packet = Some config"
  shows "\<exists>e. crud_reply env r (answer packet ctx) = Err e
    \<and> has_server_config e = Some config \<and> is_server_error_kind ServerErrorKind.NotMyVbucket e"
  using crud_call_context [OF assms(1)] assms(2,3)
  by (cases r)
     (auto simp: crud_response_defs context_fits_def response_subdoc_info_def mutate_in_kind_def Let_def
        decode_common_error_def decode_common_mutation_error_def decode_common_status_def
        decode_common_mutation_status_def decode_error_def decode_error_context_def error_inspect_defs)

text \<open>
  The results of a lookup with at most 255 entries come out in order, one per entry, each with
  the entry's value, and with an error of the entry's status and position exactly when that status is
  not success.
\<close>

theorem lookup_in_results_in_order:
  assumes "list_all lookup_entry_fits es" and "length es \<le> 255"
  shows "lookup_in_results env packet 0 [] (concat (map lookup_entry es)) =
    Ok (map (\<lambda>(j, e). lookup_result packet j e) (enumerate 0 es))"
  using lookup_in_results_entries [OF assms(1), of 0 env packet "[]"] assms(2) by simp

theorem lookup_in_results_in_order_witness:
  "lookup_in_results sample_env (sample_packet Status.Success None) 0 []
      (concat (map lookup_entry [(Status.Success, [0x31]), (Status.SubDocPathNotFound, [])])) =
    Ok [\<lparr>sdr_err = None, sdr_value = Some [0x31]\<rparr>,
        \<lparr>sdr_err = Some (bare_error (sample_packet Status.Success None)
            (subdoc_error SubdocErrorKind.PathNotFound (Some 1))), sdr_value = None\<rparr>]"
  using lookup_in_results_in_order [of "[(Status.Success, [0x31]), (Status.SubDocPathNotFound, [])]"
      sample_env "sample_packet Status.Success None"]
  by (simp add: lookup_entry_fits_def status_canonical_def lookup_result_def lookup_in_err_kind_def
      nonempty_def)

text \<open>
  The results of a mutate-in have one entry per operation of the request: the values the server
  sent, at the operation indexes it gave in increasing order, and empty results everywhere else.
\<close>

theorem mutate_in_results_at_index:
  assumes "mutate_entries_fit 0 (unat op_count) es"
  shows "\<exists>rs. mutate_in_results [] (concat (map mutate_entry es)) = Ok rs
    \<and> length (pad_results op_count rs) = unat op_count
    \<and> (\<forall>j. result_at (pad_results op_count rs) j =
         (case map_of es j of Some v \<Rightarrow> value_result v | None \<Rightarrow> empty_result))"
proof -
  have b: "unat op_count < 256" using unat_less_2p [of op_count] by simp
  then have "mutate_entries_fit (length ([] :: SubDocResult list)) 256 es"
    using assms by (auto simp: mutate_entries_fit_def list_all_iff)
  from mutate_in_results_entries [OF this] obtain rs where
    rs: "mutate_in_results [] (concat (map mutate_entry es)) = Ok rs"
      "length rs = (if es = [] then 0 else Suc (fst (last es)))"
      "\<And>j. result_at rs j = (case map_of es j of Some v \<Rightarrow> value_result v | None \<Rightarrow> empty_result)"
    by auto
  have "last es \<in> set es" if "es \<noteq> []" using that by simp
  then have "length rs \<le> unat op_count"
    using assms rs(2) by (fastforce simp: mutate_entries_fit_def list_all_iff)
  then have "length (pad_results op_count rs) = unat op_count" by (simp add: pad_results_def)
  moreover have "result_at (pad_results op_count rs) j = result_at rs j" for j
    by (auto simp: pad_results_def result_at_def nth_append)
  ultimately show ?thesis using rs by auto
qed

theorem mutate_in_results_at_index_witness:
  "\<exists>rs. mutate_in_results [] (concat (map mutate_entry [(1, [0x35])])) = Ok rs
    \<and> length (pad_results 3 rs) = 3
    \<and> (\<forall>j. result_at (pad_results 3 rs) j =
         (case map_of [(1, [0x35])] j of Some v \<Rightarrow> value_result v | None \<Rightarrow> empty_result))"
  using mutate_in_results_at_index [of 3 "[(1, [0x35])]"] by (simp add: mutate_entries_fit_def)

text \<open>
  A key-exists status of a mutate-in response that carries a CAS is reported as a CAS mismatch
  whatever CAS the request had. Every decoded packet carries a CAS.
\<close>

theorem mutate_in_key_exists_is_cas_mismatch:
  assumes "crud_call self (CrudMutateIn r) = Ok (p, ctx)"
    and "snd (decode buf) = Ok (Some packet)" and "rp_status packet = Status.KeyExists"
  shows "mutate_in_response env (answer packet ctx) = Err (bare_error packet ServerErrorKind.CasMismatch)"
proof -
  have "rp_cas packet \<noteq> None"
    using assms(2) by (auto simp: decode_eq Let_def res_simps frame_packet_def split: if_splits)
  then show ?thesis
    using crud_call_context [OF assms(1)] assms(3)
    by (auto simp: mutate_in_response_def response_subdoc_info_def mutate_in_kind_def context_fits_def)
qed

theorem mutate_in_key_exists_is_cas_mismatch_witness:
  "\<exists>p ctx packet.
     crud_call \<lparr>collections_enabled = False, durability_enabled = False,
         preserve_expiry_enabled = False, ext_frames_enabled = False\<rparr>
       (CrudMutateIn sample_mutate_in) = Ok (p, ctx)
     \<and> rq_cas p = None
     \<and> snd (decode (request_frame key_exists_frame)) = Ok (Some packet)
     \<and> mutate_in_response sample_env (answer packet ctx)
       = Err (bare_error packet ServerErrorKind.CasMismatch)"
proof -
  let ?s = "\<lparr>collections_enabled = False, durability_enabled = False,
         preserve_expiry_enabled = False, ext_frames_enabled = False\<rparr>"
  obtain p ctx where call: "crud_call ?s (CrudMutateIn sample_mutate_in) = Ok (p, ctx)" "rq_cas p = None"
    using sample_mutate_in_call by blast
  have st: "rp_status (echo key_exists_frame) = Status.KeyExists"
    by (simp add: echo_def key_exists_frame_def status_from_u16_def request_packet_new_def)
  have dec: "snd (decode (request_frame key_exists_frame)) = Ok (Some (echo key_exists_frame))"
    using decode_request_frame [OF key_exists_frame_fits, of "[]"] by simp
  from mutate_in_key_exists_is_cas_mismatch [OF call(1) dec st] call dec show ?thesis by blast
qed

text \<open>
  The features a server echoes in the encoding of the hello request are read back as the same
  list.
\<close>

theorem hello_features_round_trip:
  assumes "list_all hello_feature_canonical fs"
  shows "hello_response (answer (sample_packet Status.Success (rq_value (fst (hello fs)))) ctx)
    = Ok \<lparr>hr_enabled_features = fs\<rparr>"
  using read_features_encoded [OF assms] length_concat_features [of fs]
  by (simp add: hello_response_def hello_def sample_packet_def response_packet_new_def)

theorem hello_features_round_trip_witness:
  "hello_response (answer (sample_packet Status.Success
      (rq_value (fst (hello [HelloFeature.Json, HelloFeature.DataType])))) None)
    = Ok \<lparr>hr_enabled_features = [HelloFeature.Json, HelloFeature.DataType]\<rparr>"
  using hello_features_round_trip [of "[HelloFeature.Json, HelloFeature.DataType]" None]
  by (simp add: hello_feature_canonical_def)

text \<open>
  A space separated list of mechanism names is read back as the list of mechanisms; an empty
  list is refused.
\<close>

theorem sasl_mechs_round_trip:
  "sasl_list_mechs_response (answer (sample_packet Status.Success (Some (as_bytes (join_mechs m ms)))) ctx)
     = Ok (m # ms)
   \<and> sasl_list_mechs_response (answer (sample_packet Status.Success None) ctx)
     = Err (new_protocol_error ''unsupported auth mechanism '')"
  using auth_mechanisms_join [of m ms] utf8_valid_ascii [OF join_mechs_ascii [of m ms]]
  by (simp add: sasl_list_mechs_response_def sample_packet_def response_packet_new_def
      auth_mechanism_try_from_def)

end
