(* ===== verification/Transition.thy ===== *)
theory Transition
  imports Main
begin

text \<open>
  Reachability of a step relation and the invariant rule, shared by the state machines of the
  development. A component interprets the locale with its own initial states, steps and invariant.
\<close>

inductive reachable :: "('s \<Rightarrow> bool) \<Rightarrow> ('s \<Rightarrow> 's \<Rightarrow> bool) \<Rightarrow> 's \<Rightarrow> bool" for init step where
  start: "init s \<Longrightarrow> reachable init step s"
| trans: "reachable init step s \<Longrightarrow> step s t \<Longrightarrow> reachable init step t"

lemma reachable_steps: "reachable init step s \<Longrightarrow> step\<^sup>*\<^sup>* s t \<Longrightarrow> reachable init step t"
  by (erule rtranclp_induct) (auto intro: reachable.trans)

locale invariant_system =
  fixes init :: "'s \<Rightarrow> bool" and step :: "'s \<Rightarrow> 's \<Rightarrow> bool" and inv :: "'s \<Rightarrow> bool"
  assumes init_inv: "init s \<Longrightarrow> inv s"
    and step_inv: "inv s \<Longrightarrow> step s t \<Longrightarrow> inv t"
begin

lemma reachable_inv: "reachable init step s \<Longrightarrow> inv s"
  by (induction rule: reachable.induct) (auto intro: init_inv step_inv)

lemma steps_inv: "step\<^sup>*\<^sup>* s t \<Longrightarrow> inv s \<Longrightarrow> inv t"
  by (induction rule: rtranclp_induct) (auto intro: step_inv)

end

end
