(* ===== verification/Memdx_Client.thy ===== *)
theory Memdx_Client
  imports Memdx_Replies Transition
begin

text \<open>
  The protocol client (\<^verbatim>\<open>memdx/client.rs\<close>, \<^verbatim>\<open>memdx/pendingop.rs\<close>): requests are registered under a
  fresh opaque together with the sender of a channel, the read loop removes the handler of a response
  and sends the response on its channel, and cancelling, dropping, closing and write failures remove
  handlers too.

  The code runs in several tasks that share the handler map under a lock. Each definition below is
  what one task does between two points at which another may run; \<open>client_step\<close> interleaves them.
  The channels of \<^verbatim>\<open>tokio\<close>, the socket and the Snappy decoder are not modelled: whether a send finds
  its receiver, what a receive or a write returns and the decompression function are arguments. Three
  fields only record history: the senders ever registered (a channel is identified by its position),
  the messages handed to a channel, and the channels whose handler was removed without a message.
\<close>

section \<open>State\<close>

type_synonym message = "(Error, ClientResponse) result"

record SenderContext =
  sc_sender :: nat
  sc_is_persistent :: bool
  sc_context :: "ResponseContext option"

type_synonym OpaqueMap = "(u32 \<times> SenderContext) list"

definition map_insert :: "u32 \<Rightarrow> SenderContext \<Rightarrow> OpaqueMap \<Rightarrow> OpaqueMap" where
  "map_insert k v m = (k, v) # filter (\<lambda>e. fst e \<noteq> k) m"

definition map_remove :: "u32 \<Rightarrow> OpaqueMap \<Rightarrow> OpaqueMap" where
  "map_remove k m = filter (\<lambda>e. fst e \<noteq> k) m"

text \<open>Where the read loop stands between its lock regions.\<close>

datatype Reader = Idle | Taken ResponsePacket SenderContext | Sending ResponsePacket SenderContext | Stopped

record ReadLoopOptions =
  ro_disable_decompression :: bool
  ro_has_orphan_handler :: bool
  ro_decompress_vec :: "bytes \<Rightarrow> bytes option"

record Client =
  cl_current_opaque :: u32
  cl_opaque_map :: OpaqueMap
  cl_closed :: bool
  cl_reader :: Reader
  cl_orphans :: "ResponsePacket list"
  cl_unsolicited :: "ResponsePacket list"
  cl_read_close_notified :: bool
  cl_registered :: "SenderContext list"
  cl_sent :: "(nat \<times> message) list"
  cl_abandoned :: "nat list"

definition client_new :: Client where
  "client_new =
    \<lparr>cl_current_opaque = 1, cl_opaque_map = [], cl_closed = False, cl_reader = Idle, cl_orphans = [],
     cl_unsolicited = [], cl_read_close_notified = False, cl_registered = [], cl_sent = [],
     cl_abandoned = []\<rparr>"

section \<open>Handlers\<close>

definition send_message :: "nat \<Rightarrow> message \<Rightarrow> Client \<Rightarrow> Client" where
  "send_message ch msg cl = cl\<lparr>cl_sent := cl_sent cl @ [(ch, msg)]\<rparr>"

definition register_handler :: "SenderContext \<Rightarrow> Client \<Rightarrow> u32 \<times> Client" where
  "register_handler response_context cl =
    (let opaque = cl_current_opaque cl in
     (opaque, cl\<lparr>cl_current_opaque := opaque + 1,
                 cl_opaque_map := map_insert opaque response_context (cl_opaque_map cl)\<rparr>))"

definition drain_opaque_map :: "Client \<Rightarrow> Client" where
  "drain_opaque_map cl =
    fold (\<lambda>(_, v). send_message (sc_sender v) (Err (new_cancelled_error CancellationErrorKind.ClosedInFlight)))
      (cl_opaque_map cl) (cl\<lparr>cl_opaque_map := []\<rparr>)"

definition on_read_loop_close :: "Client \<Rightarrow> Client" where
  "on_read_loop_close cl =
    (drain_opaque_map cl)\<lparr>cl_reader := Stopped, cl_read_close_notified := True\<rparr>"

section \<open>Read loop\<close>

text \<open>\<open>read_next\<close> handles what the stream yields: the end, a decoding error, or a packet.\<close>

definition read_next ::
    "ReadLoopOptions \<Rightarrow> (Error, ResponsePacket) result option \<Rightarrow> Client \<Rightarrow> Client" where
  "read_next opts next cl =
    (case next of
       Some (Ok packet) \<Rightarrow>
         if rp_magic packet = Magic.ServerReq then
           cl\<lparr>cl_unsolicited := cl_unsolicited cl @ [packet]\<rparr>
         else
           let opaque = rp_opaque packet in
           (case map_of (cl_opaque_map cl) opaque of
              Some context \<Rightarrow>
                cl\<lparr>cl_opaque_map := map_remove opaque (cl_opaque_map cl),
                   cl_reader := Taken packet context\<rparr>
            | None \<Rightarrow>
                if ro_has_orphan_handler opts then cl\<lparr>cl_orphans := cl_orphans cl @ [packet]\<rparr> else cl)
     | _ \<Rightarrow> on_read_loop_close cl)"

definition read_decompress ::
    "ReadLoopOptions \<Rightarrow> ResponsePacket \<Rightarrow> (Error, ResponsePacket) result" where
  "read_decompress opts packet =
    (case rp_value packet of
       Some value \<Rightarrow>
         if \<not> ro_disable_decompression opts \<and> rp_datatype packet AND datatype_flag_to_u8 Compressed \<noteq> 0
         then
           (case ro_decompress_vec opts value of
              Some v \<Rightarrow>
                Ok (packet\<lparr>rp_datatype := rp_datatype packet AND NOT (datatype_flag_to_u8 Compressed),
                           rp_value := Some v\<rparr>)
            | None \<Rightarrow> Err (with_source (SrcLib ''snap'') new_decompression_error))
         else Ok packet
     | None \<Rightarrow> Ok packet)"

definition read_prepare :: "ReadLoopOptions \<Rightarrow> ResponsePacket \<Rightarrow> SenderContext \<Rightarrow> Client \<Rightarrow> Client" where
  "read_prepare opts packet context cl =
    (case read_decompress opts packet of
       Ok packet \<Rightarrow>
         (if sc_is_persistent context
          then cl\<lparr>cl_opaque_map := map_insert (rp_opaque packet) context (cl_opaque_map cl)\<rparr>
          else cl)\<lparr>cl_reader := Sending packet context\<rparr>
     | Err e \<Rightarrow> (send_message (sc_sender context) (Err e) cl)\<lparr>cl_reader := Idle\<rparr>
     | Panic \<Rightarrow> cl)"

definition read_send :: "bool \<Rightarrow> ResponsePacket \<Rightarrow> SenderContext \<Rightarrow> Client \<Rightarrow> Client" where
  "read_send send_ok packet context cl =
    (let resp = \<lparr>cr_packet = packet, cr_response_context = sc_context context\<rparr>;
         cl = send_message (sc_sender context) (Ok resp) cl in
     if send_ok then cl\<lparr>cl_reader := Idle\<rparr> else on_read_loop_close cl)"

text \<open>A turn of the loop that no other task interrupts.\<close>

definition read_turn ::
    "ReadLoopOptions \<Rightarrow> (Error, ResponsePacket) result option \<Rightarrow> bool \<Rightarrow> Client \<Rightarrow> Client" where
  "read_turn opts next send_ok cl =
    (let cl = read_next opts next cl;
         cl = (case cl_reader cl of Taken packet context \<Rightarrow> read_prepare opts packet context cl | _ \<Rightarrow> cl) in
     case cl_reader cl of Sending packet context \<Rightarrow> read_send send_ok packet context cl | _ \<Rightarrow> cl)"

section \<open>Dispatch\<close>

record ClientPendingOp =
  po_opaque :: u32
  po_channel :: nat
  po_is_persistent :: bool
  po_completed :: bool

text \<open>Up to the write, and from its result on. The channel is the next unused position.\<close>

definition dispatch_register ::
    "RequestPacket \<Rightarrow> bool \<Rightarrow> ResponseContext option \<Rightarrow> Client \<Rightarrow> (RequestPacket \<times> u32 \<times> nat) \<times> Client" where
  "dispatch_register packet is_persistent response_context cl =
    (let ch = length (cl_registered cl);
         sc = \<lparr>sc_sender = ch, sc_is_persistent = is_persistent, sc_context = response_context\<rparr>;
         (opaque, cl) = register_handler sc cl in
     ((packet\<lparr>rq_opaque := Some opaque\<rparr>, opaque, ch), cl\<lparr>cl_registered := cl_registered cl @ [sc]\<rparr>))"

text \<open>Removing a handler without telling its channel.\<close>

definition remove_handler :: "u32 \<Rightarrow> Client \<Rightarrow> SenderContext option \<times> Client" where
  "remove_handler opaque cl =
    (map_of (cl_opaque_map cl) opaque, cl\<lparr>cl_opaque_map := map_remove opaque (cl_opaque_map cl)\<rparr>)"

definition abandon :: "SenderContext option \<Rightarrow> Client \<Rightarrow> Client" where
  "abandon sc cl =
    (case sc of Some sc \<Rightarrow> cl\<lparr>cl_abandoned := cl_abandoned cl @ [sc_sender sc]\<rparr> | None \<Rightarrow> cl)"

definition dispatch_finish ::
    "(Error, unit) result \<Rightarrow> OpCode \<Rightarrow> u32 \<Rightarrow> nat \<Rightarrow> bool \<Rightarrow> Client \<Rightarrow> (Error, ClientPendingOp) result \<times> Client" where
  "dispatch_finish written op_code opaque ch is_persistent cl =
    (case written of
       Ok _ \<Rightarrow> (Ok \<lparr>po_opaque = opaque, po_channel = ch, po_is_persistent = is_persistent,
                    po_completed = False\<rparr>, cl)
     | Err e \<Rightarrow>
         let (sc, cl) = remove_handler opaque cl in
         (Err (new_dispatch_error opaque op_code e), abandon sc cl)
     | Panic \<Rightarrow> (Panic, cl))"

definition dispatch ::
    "(RequestPacket \<Rightarrow> (Error, unit) result) \<Rightarrow> RequestPacket \<Rightarrow> bool \<Rightarrow> ResponseContext option \<Rightarrow> Client
      \<Rightarrow> (Error, ClientPendingOp) result \<times> Client" where
  "dispatch write packet is_persistent response_context cl =
    (let ((packet, opaque, ch), cl) = dispatch_register packet is_persistent response_context cl in
     dispatch_finish (write packet) (rq_op_code packet) opaque ch is_persistent cl)"

text \<open>\<open>display\<close> is the text of an error, \<^verbatim>\<open>e.to_string()\<close>.\<close>

definition close ::
    "(Error \<Rightarrow> string) \<Rightarrow> (Error, unit) result \<Rightarrow> Client \<Rightarrow> (Error, unit) result \<times> Client" where
  "close display writer_closed cl =
    (if cl_closed cl then (Ok (), cl)
     else
       let cl = drain_opaque_map (cl\<lparr>cl_closed := True\<rparr>) in
       case writer_closed of
         Err e \<Rightarrow> (Err (new_close_error (display e) e), cl)
       | Ok _ \<Rightarrow> (Ok (), cl)
       | Panic \<Rightarrow> (Panic, cl))"

section \<open>Pending operations\<close>

definition recv :: "message option \<Rightarrow> ClientPendingOp \<Rightarrow> message \<times> ClientPendingOp" where
  "recv received op =
    (case received of
       Some r \<Rightarrow> (r, if po_is_persistent op then op else op\<lparr>po_completed := True\<rparr>)
     | None \<Rightarrow> (Err (new_cancelled_error CancellationErrorKind.RequestCancelled), op))"

definition cancel_op :: "ClientPendingOp \<Rightarrow> Client \<Rightarrow> SenderContext option \<times> Client" where
  "cancel_op op cl = (if po_completed op then (None, cl) else remove_handler (po_opaque op) cl)"

definition cancel :: "CancellationErrorKind \<Rightarrow> ClientPendingOp \<Rightarrow> Client \<Rightarrow> bool \<times> Client" where
  "cancel e op cl =
    (case cancel_op op cl of
       (Some context, cl) \<Rightarrow> (True, send_message (sc_sender context) (Err (new_cancelled_error e)) cl)
     | (None, cl) \<Rightarrow> (False, cl))"

definition drop_op :: "ClientPendingOp \<Rightarrow> Client \<Rightarrow> Client" where
  "drop_op op cl = (let (sc, cl) = cancel_op op cl in abandon sc cl)"

text \<open>
  \<^verbatim>\<open>StandardPendingOp::recv\<close> decodes what it receives. A future run with a deadline is given its
  outcome, or \<open>None\<close> when the deadline passed first; \<open>late\<close> is what the channel yields afterwards.
\<close>

definition standard_recv ::
    "(ClientResponse \<Rightarrow> (Error, 'a) result) \<Rightarrow> message option \<Rightarrow> ClientPendingOp
      \<Rightarrow> (Error, 'a) result \<times> ClientPendingOp" where
  "standard_recv try_from received op =
    (let (r, op) = recv received op in (and_then r try_from, op))"

definition run_op_future_with_deadline ::
    "(ClientResponse \<Rightarrow> (Error, 'a) result) \<Rightarrow> (Error, ClientPendingOp) result option
      \<Rightarrow> message option option \<Rightarrow> message option \<Rightarrow> Client \<Rightarrow> (Error, 'a) result \<times> Client" where
  "run_op_future_with_deadline try_from fut in_time late cl =
    (case fut of
       None \<Rightarrow> (Err (new_cancelled_error CancellationErrorKind.Timeout), cl)
     | Some (Err e) \<Rightarrow> (Err e, cl)
     | Some Panic \<Rightarrow> (Panic, cl)
     | Some (Ok op) \<Rightarrow>
         (case in_time of
            Some received \<Rightarrow>
              let (res, op) = standard_recv try_from received op in (res, drop_op op cl)
          | None \<Rightarrow>
              let (cancelled, cl) = cancel CancellationErrorKind.Timeout op cl in
              if cancelled then (Err (new_cancelled_error CancellationErrorKind.Timeout), drop_op op cl)
              else
                let (res, op) = standard_recv try_from late op in (res, drop_op op cl)))"

section \<open>Interleaving\<close>

text \<open>
  The steps the tasks of one client can take in any order. Operations on a pending operation are
  allowed for any channel that was registered, at any time and with either value of its completed
  flag, which includes every order in which the code can run them. Write failures likewise.
\<close>

definition channel_opaque :: "nat \<Rightarrow> u32" where
  "channel_opaque ch = word_of_nat (Suc ch)"

inductive client_step :: "ReadLoopOptions \<Rightarrow> Client \<Rightarrow> Client \<Rightarrow> bool" for opts where
  registers: "client_step opts cl (snd (dispatch_register packet is_persistent context cl))"
| write_fails: "ch < length (cl_registered cl) \<Longrightarrow>
    client_step opts cl (snd (dispatch_finish (Err e) op_code (channel_opaque ch) ch persistent cl))"
| cancels: "po_channel op < length (cl_registered cl) \<Longrightarrow> po_opaque op = channel_opaque (po_channel op) \<Longrightarrow>
    client_step opts cl (snd (cancel k op cl))"
| drops: "po_channel op < length (cl_registered cl) \<Longrightarrow> po_opaque op = channel_opaque (po_channel op) \<Longrightarrow>
    client_step opts cl (drop_op op cl)"
| reads: "cl_reader cl = Idle \<Longrightarrow> client_step opts cl (read_next opts next cl)"
| prepares: "cl_reader cl = Taken packet context \<Longrightarrow> client_step opts cl (read_prepare opts packet context cl)"
| sends: "cl_reader cl = Sending packet context \<Longrightarrow> client_step opts cl (read_send ok packet context cl)"
| read_cancelled: "cl_reader cl = Idle \<Longrightarrow> client_step opts cl (on_read_loop_close cl)"
| closes: "client_step opts cl (snd (close display w cl))"

inductive_cases client_stepE: "client_step opts cl cl'"

abbreviation client_reachable :: "ReadLoopOptions \<Rightarrow> Client \<Rightarrow> bool" where
  "client_reachable opts \<equiv> reachable (\<lambda>cl. cl = client_new) (client_step opts)"

section \<open>Invariant\<close>

text \<open>
  Stated over the fields it concerns: the registered senders \<open>g\<close>, the handler map \<open>m\<close>, the reader \<open>r\<close>
  and the messages \<open>l\<close> handed to channels.
\<close>

definition map_channels :: "OpaqueMap \<Rightarrow> nat list" where
  "map_channels m = map (\<lambda>e. sc_sender (snd e)) m"

definition messages :: "nat \<Rightarrow> (nat \<times> message) list \<Rightarrow> message list" where
  "messages ch l = map snd (filter (\<lambda>x. fst x = ch) l)"

fun in_hand :: "Reader \<Rightarrow> (ResponsePacket \<times> SenderContext) option" where
  "in_hand (Taken p sc) = Some (p, sc)"
| "in_hand (Sending p sc) = Some (p, sc)"
| "in_hand _ = None"

definition holds :: "Reader \<Rightarrow> nat \<Rightarrow> bool" where
  "holds r ch = (case in_hand r of Some (p, sc) \<Rightarrow> sc_sender sc = ch | None \<Rightarrow> False)"

text \<open>A sender is the registered one of its channel; a one-shot channel is not persistent.\<close>

definition known :: "SenderContext list \<Rightarrow> SenderContext \<Rightarrow> bool" where
  "known g sc \<longleftrightarrow> sc_sender sc < length g \<and> g ! sc_sender sc = sc"

definition one_shot :: "SenderContext list \<Rightarrow> nat \<Rightarrow> bool" where
  "one_shot g ch \<longleftrightarrow> ch < length g \<and> \<not> sc_is_persistent (g ! ch)"

definition message_ok :: "SenderContext list \<Rightarrow> nat \<Rightarrow> message \<Rightarrow> bool" where
  "message_ok g ch msg =
    (ch < length g \<and>
     (case msg of
        Ok resp \<Rightarrow> rp_opaque (cr_packet resp) = channel_opaque ch
          \<and> cr_response_context resp = sc_context (g ! ch)
      | Err e \<Rightarrow> is_cancellation_error e \<or> err_kind e = ErrorKind.Decompression
      | Panic \<Rightarrow> False))"

definition entries_ok :: "SenderContext list \<Rightarrow> OpaqueMap \<Rightarrow> bool" where
  "entries_ok g m = list_all (\<lambda>(oq, sc). known g sc \<and> oq = channel_opaque (sc_sender sc)) m"

definition hand_ok :: "SenderContext list \<Rightarrow> Reader \<Rightarrow> bool" where
  "hand_ok g r =
    (case in_hand r of
       Some (p, sc) \<Rightarrow> known g sc \<and> rp_opaque p = channel_opaque (sc_sender sc)
     | None \<Rightarrow> True)"

definition sent_ok :: "SenderContext list \<Rightarrow> (nat \<times> message) list \<Rightarrow> bool" where
  "sent_ok g l = list_all (\<lambda>(ch, msg). message_ok g ch msg) l"

text \<open>
  A one-shot channel has a single token: a handler in the map, a handler in the read loop's hands, or
  a message.
\<close>

definition tokens :: "nat \<Rightarrow> OpaqueMap \<Rightarrow> Reader \<Rightarrow> (nat \<times> message) list \<Rightarrow> nat" where
  "tokens ch m r l =
    length (messages ch l) + count_list (map_channels m) ch + (if holds r ch then 1 else 0)"

definition single_token ::
    "SenderContext list \<Rightarrow> OpaqueMap \<Rightarrow> Reader \<Rightarrow> (nat \<times> message) list \<Rightarrow> bool" where
  "single_token g m r l \<longleftrightarrow> (\<forall>ch. one_shot g ch \<longrightarrow> tokens ch m r l \<le> 1)"

definition client_inv :: "Client \<Rightarrow> bool" where
  "client_inv cl =
    (let g = cl_registered cl in
     cl_current_opaque cl = channel_opaque (length g)
     \<and> entries_ok g (cl_opaque_map cl) \<and> hand_ok g (cl_reader cl) \<and> sent_ok g (cl_sent cl)
     \<and> single_token g (cl_opaque_map cl) (cl_reader cl) (cl_sent cl))"

subsection \<open>Effects on the parts\<close>

lemma messages_append [simp]:
  "messages ch (l @ [(d, msg)]) = messages ch l @ (if d = ch then [msg] else [])"
  by (simp add: messages_def)

lemma messages_broadcast:
  "messages ch (l @ map (\<lambda>d. (d, msg)) chs) = messages ch l @ replicate (count_list chs ch) msg"
proof -
  have "map snd (filter (\<lambda>x. fst x = ch) (map (\<lambda>d. (d, msg)) chs)) = replicate (count_list chs ch) msg"
    by (induction chs) auto
  then show ?thesis by (simp add: messages_def)
qed

lemma map_channels_simps [simp]:
  "map_channels [] = []" "map_channels (e # m) = sc_sender (snd e) # map_channels m"
  by (simp_all add: map_channels_def)

lemma count_map_remove: "count_list (map_channels (map_remove k m)) c \<le> count_list (map_channels m) c"
  by (induction m) (auto simp: map_remove_def)

lemma count_map_remove_found:
  "map_of m k = Some sc \<Longrightarrow>
    count_list (map_channels (map_remove k m)) (sc_sender sc) < count_list (map_channels m) (sc_sender sc)"
  by (induction m) (auto simp: map_remove_def less_Suc_eq_le count_map_remove [unfolded map_remove_def])

lemma entries_ok_remove: "entries_ok g m \<Longrightarrow> entries_ok g (map_remove k m)"
  by (auto simp: entries_ok_def map_remove_def list_all_iff)

lemma entries_ok_found:
  "entries_ok g m \<Longrightarrow> map_of m k = Some sc \<Longrightarrow> known g sc \<and> k = channel_opaque (sc_sender sc)"
  by (auto simp: entries_ok_def list_all_iff dest!: map_of_SomeD)

lemma entries_ok_simps [simp]:
  "entries_ok g []"
  "entries_ok g (e # m) \<longleftrightarrow>
    known g (snd e) \<and> fst e = channel_opaque (sc_sender (snd e)) \<and> entries_ok g m"
  by (auto simp: entries_ok_def)

lemma sent_ok_simps [simp]:
  "sent_ok g []" "sent_ok g (l @ l') \<longleftrightarrow> sent_ok g l \<and> sent_ok g l'"
  "sent_ok g ((ch, msg) # l) \<longleftrightarrow> message_ok g ch msg \<and> sent_ok g l"
  by (auto simp: sent_ok_def)

lemma single_token_mono:
  assumes "single_token g m r l" and "\<And>ch. one_shot g ch \<Longrightarrow> tokens ch m' r' l' \<le> tokens ch m r l"
  shows "single_token g m' r' l'"
  using assms by (auto simp: single_token_def intro: order_trans)

lemma holds_simps [simp]:
  "holds Idle ch = False" "holds Stopped ch = False"
  "holds (Taken p sc) ch = (sc_sender sc = ch)" "holds (Sending p sc) ch = (sc_sender sc = ch)"
  by (simp_all add: holds_def)

lemma hand_ok_simps [simp]:
  "hand_ok g Idle" "hand_ok g Stopped"
  "hand_ok g (Taken p sc) \<longleftrightarrow> known g sc \<and> rp_opaque p = channel_opaque (sc_sender sc)"
  "hand_ok g (Sending p sc) \<longleftrightarrow> known g sc \<and> rp_opaque p = channel_opaque (sc_sender sc)"
  by (simp_all add: hand_ok_def)

lemma tokens_remove: "tokens ch (map_remove k m) r l \<le> tokens ch m r l"
  using count_map_remove [of k m ch] by (simp add: tokens_def)

text \<open>Draining sends one cancellation per handler and touches nothing else.\<close>

definition closed_in_flight :: message where
  "closed_in_flight = Err (new_cancelled_error CancellationErrorKind.ClosedInFlight)"

lemma drain_fold:
  "fold (\<lambda>(_, v). send_message (sc_sender v) msg) es cl =
    cl\<lparr>cl_sent := cl_sent cl @ map (\<lambda>ch. (ch, msg)) (map_channels es)\<rparr>"
  by (induction es arbitrary: cl) (auto simp: send_message_def)

lemma drain_eq:
  "drain_opaque_map cl =
    cl\<lparr>cl_opaque_map := [],
       cl_sent := cl_sent cl @ map (\<lambda>ch. (ch, closed_in_flight)) (map_channels (cl_opaque_map cl))\<rparr>"
  by (simp add: drain_opaque_map_def drain_fold closed_in_flight_def)

lemma cancellation_ok [simp]:
  "message_ok g ch (Err (new_cancelled_error k)) \<longleftrightarrow> ch < length g"
  by (simp add: message_ok_def error_ctor_defs error_inspect_defs)

lemma sent_ok_broadcast:
  "entries_ok g m \<Longrightarrow> sent_ok g (map (\<lambda>ch. (ch, closed_in_flight)) (map_channels m))"
  by (induction m) (auto simp: closed_in_flight_def known_def)

lemma tokens_drain:
  "tokens ch [] r (l @ map (\<lambda>ch. (ch, closed_in_flight)) (map_channels m)) = tokens ch m r l"
  by (simp add: tokens_def messages_broadcast)

subsection \<open>Preservation, operation by operation\<close>

lemma inv_abandon: "client_inv (abandon sc cl) = client_inv cl"
  by (simp add: abandon_def client_inv_def split: option.split)

lemma inv_remove_handler: "client_inv cl \<Longrightarrow> client_inv (snd (remove_handler k cl))"
  by (auto simp: remove_handler_def client_inv_def Let_def entries_ok_remove tokens_remove
      elim: single_token_mono)

lemma inv_drain: "client_inv cl \<Longrightarrow> client_inv (drain_opaque_map cl)"
  by (auto simp: drain_eq client_inv_def Let_def sent_ok_broadcast tokens_drain elim: single_token_mono)

lemma inv_stop: "client_inv cl \<Longrightarrow> client_inv (cl\<lparr>cl_reader := Stopped, cl_read_close_notified := b\<rparr>)"
  by (auto simp: client_inv_def Let_def tokens_def elim: single_token_mono)

lemma inv_read_loop_close: "client_inv cl \<Longrightarrow> client_inv (on_read_loop_close cl)"
  by (simp add: on_read_loop_close_def inv_stop inv_drain)

lemma inv_take:
  assumes "client_inv cl" and "cl_reader cl = Idle" and "map_of (cl_opaque_map cl) (rp_opaque p) = Some sc"
  shows "client_inv (cl\<lparr>cl_opaque_map := map_remove (rp_opaque p) (cl_opaque_map cl), cl_reader := Taken p sc\<rparr>)"
proof -
  have "tokens ch (map_remove (rp_opaque p) (cl_opaque_map cl)) (Taken p sc) (cl_sent cl)
      \<le> tokens ch (cl_opaque_map cl) Idle (cl_sent cl)" for ch
    using count_map_remove [of "rp_opaque p" "cl_opaque_map cl" ch] count_map_remove_found [OF assms(3)]
    by (auto simp: tokens_def)
  then show ?thesis
    using assms entries_ok_found [OF _ assms(3), of "cl_registered cl"]
    by (auto simp: client_inv_def Let_def entries_ok_remove elim: single_token_mono)
qed

lemma inv_read_next:
  assumes "client_inv cl" and "cl_reader cl = Idle"
  shows "client_inv (read_next opts next cl)"
proof -
  have "client_inv (cl\<lparr>cl_orphans := ps\<rparr>)" "client_inv (cl\<lparr>cl_unsolicited := ps\<rparr>)" for ps
    using assms(1) by (simp_all add: client_inv_def)
  then show ?thesis
    using assms inv_take [OF assms] inv_read_loop_close [OF assms(1)]
    by (simp add: read_next_def Let_def split: option.split result.split)
qed

lemma read_decompress_cases:
  obtains (ok) p' where "read_decompress opts p = Ok p'" "rp_opaque p' = rp_opaque p"
  | (err) e where "read_decompress opts p = Err e" "err_kind e = ErrorKind.Decompression"
  by (cases "read_decompress opts p")
     (auto simp: read_decompress_def error_ctor_defs split: option.splits if_splits)

lemma inv_hand_to_message:
  assumes "client_inv cl" and "in_hand (cl_reader cl) = Some (p, sc)"
    and "message_ok (cl_registered cl) (sc_sender sc) msg"
  shows "client_inv ((send_message (sc_sender sc) msg cl)\<lparr>cl_reader := Idle\<rparr>)"
proof -
  have "tokens ch (cl_opaque_map cl) Idle (cl_sent cl @ [(sc_sender sc, msg)])
      \<le> tokens ch (cl_opaque_map cl) (cl_reader cl) (cl_sent cl)" for ch
    using assms(2) by (simp add: tokens_def holds_def)
  then show ?thesis
    using assms by (auto simp: client_inv_def Let_def send_message_def elim: single_token_mono)
qed

lemma inv_reinsert:
  assumes "client_inv cl" and "cl_reader cl = Taken p sc" and "rp_opaque p' = rp_opaque p"
    and "sc_is_persistent sc"
  shows "client_inv (cl\<lparr>cl_opaque_map := map_insert (rp_opaque p') sc (cl_opaque_map cl),
    cl_reader := Sending p' sc\<rparr>)"
proof -
  let ?g = "cl_registered cl" and ?m = "cl_opaque_map cl" and ?l = "cl_sent cl"
  have k: "known ?g sc" "rp_opaque p = channel_opaque (sc_sender sc)"
    using assms(1,2) by (simp_all add: client_inv_def Let_def)
  have "tokens ch ((rp_opaque p', sc) # map_remove (rp_opaque p') ?m) (Sending p' sc) ?l
      \<le> tokens ch ?m (cl_reader cl) ?l" if "one_shot ?g ch" for ch
    using that k(1) assms(2,4) count_map_remove [of "rp_opaque p'" ?m ch]
    by (auto simp: tokens_def one_shot_def known_def)
  then show ?thesis
    using assms k unfolding map_insert_def map_remove_def [symmetric]
    by (auto simp: client_inv_def Let_def entries_ok_remove elim: single_token_mono)
qed

lemma inv_read_prepare:
  assumes "client_inv cl" and "cl_reader cl = Taken p sc"
  shows "client_inv (read_prepare opts p sc cl)"
proof (cases rule: read_decompress_cases [of opts p])
  case (ok p')
  have "client_inv (cl\<lparr>cl_reader := Sending p' sc\<rparr>)"
    using assms ok(2) by (auto simp: client_inv_def Let_def tokens_def elim: single_token_mono)
  with ok assms inv_reinsert [OF assms ok(2)] show ?thesis
    by (simp add: read_prepare_def)
next
  case (err e)
  have "message_ok (cl_registered cl) (sc_sender sc) (Err e)"
    using assms err(2) by (simp add: client_inv_def Let_def message_ok_def known_def)
  with err assms inv_hand_to_message [OF assms(1), of p sc "Err e"] show ?thesis
    by (simp add: read_prepare_def)
qed

lemma inv_read_send:
  assumes "client_inv cl" and "cl_reader cl = Sending p sc"
  shows "client_inv (read_send ok p sc cl)"
proof -
  let ?msg = "Ok \<lparr>cr_packet = p, cr_response_context = sc_context sc\<rparr> :: message"
  have "message_ok (cl_registered cl) (sc_sender sc) ?msg"
    using assms by (auto simp: client_inv_def Let_def message_ok_def known_def)
  then have sent: "client_inv ((send_message (sc_sender sc) ?msg cl)\<lparr>cl_reader := Idle\<rparr>)"
    using assms by (intro inv_hand_to_message [where p = p]) simp_all
  have "on_read_loop_close (send_message (sc_sender sc) ?msg cl)
      = on_read_loop_close ((send_message (sc_sender sc) ?msg cl)\<lparr>cl_reader := Idle\<rparr>)"
    by (simp add: on_read_loop_close_def drain_eq)
  with inv_read_loop_close [OF sent] sent show ?thesis
    by (simp add: read_send_def Let_def)
qed

text \<open>Registering: the facts about earlier channels carry over, the new one starts without tokens.\<close>

lemma known_extend: "known g sc \<Longrightarrow> known (g @ [x]) sc"
  by (auto simp: known_def nth_append)

lemma extend_ok:
  "entries_ok g m \<Longrightarrow> entries_ok (g @ [x]) m" "hand_ok g r \<Longrightarrow> hand_ok (g @ [x]) r"
  "sent_ok g l \<Longrightarrow> sent_ok (g @ [x]) l"
proof -
  show "entries_ok g m \<Longrightarrow> entries_ok (g @ [x]) m"
    by (auto simp: entries_ok_def list_all_iff known_extend)
  show "hand_ok g r \<Longrightarrow> hand_ok (g @ [x]) r"
    by (auto simp: hand_ok_def known_extend split: option.splits)
  show "sent_ok g l \<Longrightarrow> sent_ok (g @ [x]) l"
    by (auto simp: sent_ok_def message_ok_def list_all_iff nth_append split: result.split)
qed

lemma fresh_no_tokens:
  assumes "entries_ok g m" and "hand_ok g r" and "sent_ok g l"
  shows "tokens (length g) m r l = 0"
proof -
  have "length g \<notin> set (map_channels m)"
    using assms(1) by (auto simp: entries_ok_def list_all_iff known_def map_channels_def)
  moreover have "\<not> holds r (length g)"
    using assms(2) by (auto simp: hand_ok_def holds_def known_def split: option.splits)
  moreover have "messages (length g) l = []"
    using assms(3) by (auto simp: sent_ok_def message_ok_def list_all_iff messages_def filter_empty_conv)
  ultimately show ?thesis by (simp add: tokens_def count_list_0_iff)
qed

lemma tokens_insert:
  "tokens ch (map_insert k sc m) r l \<le> (if sc_sender sc = ch then 1 else 0) + tokens ch m r l"
  using tokens_remove [of ch k m r l] by (simp add: tokens_def map_insert_def map_remove_def)

lemma inv_register:
  assumes "client_inv cl"
  shows "client_inv (snd (dispatch_register packet persistent context cl))"
proof -
  let ?g = "cl_registered cl" and ?m = "cl_opaque_map cl" and ?r = "cl_reader cl" and ?l = "cl_sent cl"
  let ?k = "cl_current_opaque cl"
  let ?sc = "\<lparr>sc_sender = length ?g, sc_is_persistent = persistent, sc_context = context\<rparr>"
  have k: "?k = channel_opaque (length ?g)" using assms by (simp add: client_inv_def Let_def)
  have ok: "entries_ok ?g ?m" "hand_ok ?g ?r" "sent_ok ?g ?l" "single_token ?g ?m ?r ?l"
    using assms by (simp_all add: client_inv_def Let_def)
  have "tokens ch (map_insert ?k ?sc ?m) ?r ?l \<le> 1" if "one_shot (?g @ [?sc]) ch" for ch
  proof (cases "ch = length ?g")
    case True
    then show ?thesis
      using tokens_insert [of ch ?k ?sc ?m ?r ?l] fresh_no_tokens [OF ok(1-3)] by simp
  next
    case False
    then have "one_shot ?g ch" using that by (auto simp: one_shot_def nth_append split: if_splits)
    then show ?thesis
      using False tokens_insert [of ch ?k ?sc ?m ?r ?l] ok(4) by (fastforce simp: single_token_def)
  qed
  then have "single_token (?g @ [?sc]) (map_insert ?k ?sc ?m) ?r ?l" by (simp add: single_token_def)
  moreover have "entries_ok (?g @ [?sc]) (map_insert ?k ?sc ?m)"
    using extend_ok(1) [OF entries_ok_remove [OF ok(1), of ?k]] k
    by (simp add: map_insert_def map_remove_def known_def)
  ultimately show ?thesis
    using extend_ok(2,3) [OF _ , of ?g] ok k
    by (simp add: client_inv_def Let_def dispatch_register_def register_handler_def extend_ok
        channel_opaque_def add.commute)
qed

lemma inv_send_cancelled:
  assumes "client_inv cl" and "map_of (cl_opaque_map cl) k = Some sc"
  shows "client_inv (send_message (sc_sender sc) (Err (new_cancelled_error e))
    (cl\<lparr>cl_opaque_map := map_remove k (cl_opaque_map cl)\<rparr>))"
proof -
  have "tokens ch (map_remove k (cl_opaque_map cl)) (cl_reader cl)
      (cl_sent cl @ [(sc_sender sc, Err (new_cancelled_error e))])
      \<le> tokens ch (cl_opaque_map cl) (cl_reader cl) (cl_sent cl)" for ch
    using count_map_remove [of k "cl_opaque_map cl" ch] count_map_remove_found [OF assms(2)]
    by (auto simp: tokens_def)
  then show ?thesis
    using assms(1) entries_ok_found [OF _ assms(2), of "cl_registered cl"]
    by (auto simp: client_inv_def Let_def send_message_def entries_ok_remove known_def
        elim: single_token_mono)
qed

lemma inv_cancel: "client_inv cl \<Longrightarrow> client_inv (snd (cancel e op cl))"
  using inv_send_cancelled [of cl "po_opaque op"] inv_remove_handler [of cl "po_opaque op"]
  by (auto simp: cancel_def cancel_op_def remove_handler_def split: option.split)

lemma inv_drop: "client_inv cl \<Longrightarrow> client_inv (drop_op op cl)"
  using inv_remove_handler [of cl "po_opaque op"]
  by (simp add: drop_op_def cancel_op_def remove_handler_def inv_abandon)

lemma inv_finish: "client_inv cl \<Longrightarrow> client_inv (snd (dispatch_finish w op_code oq ch p cl))"
  using inv_remove_handler [of cl oq]
  by (simp add: dispatch_finish_def remove_handler_def inv_abandon split: result.split)

lemma inv_close: "client_inv cl \<Longrightarrow> client_inv (snd (close display w cl))"
proof -
  assume "client_inv cl"
  then have "client_inv (cl\<lparr>cl_closed := True\<rparr>)" by (simp add: client_inv_def)
  with \<open>client_inv cl\<close> show ?thesis
    by (auto simp: close_def Let_def inv_drain split: result.split)
qed

lemmas client_inv_intros = inv_register inv_finish inv_cancel inv_drop inv_read_next inv_read_prepare
  inv_read_send inv_read_loop_close inv_close

lemma client_inv_step: "client_inv cl \<Longrightarrow> client_step opts cl cl' \<Longrightarrow> client_inv cl'"
  by (erule client_stepE) (auto intro: client_inv_intros)

lemma client_inv_new: "client_inv client_new"
  by (simp add: client_inv_def client_new_def channel_opaque_def single_token_def tokens_def messages_def)

interpretation client: invariant_system "\<lambda>cl. cl = client_new" "client_step opts" client_inv for opts
  by unfold_locales (auto intro: client_inv_new client_inv_step)

section \<open>No request is forgotten\<close>

text \<open>
  While opaques have not wrapped around, every registered channel has a token or was abandoned.
\<close>

definition accounted :: "Client \<Rightarrow> bool" where
  "accounted cl \<longleftrightarrow>
    (\<forall>ch < length (cl_registered cl).
       0 < tokens ch (cl_opaque_map cl) (cl_reader cl) (cl_sent cl) \<or> ch \<in> set (cl_abandoned cl))"

definition live_inv :: "Client \<Rightarrow> bool" where
  "live_inv cl \<longleftrightarrow> client_inv cl \<and> (length (cl_registered cl) \<le> 2 ^ 32 \<longrightarrow> accounted cl)"

lemma channel_opaque_inject:
  assumes "a < 2 ^ 32" and "b < 2 ^ 32"
  shows "channel_opaque a = channel_opaque b \<longleftrightarrow> a = b"
proof
  assume "channel_opaque a = channel_opaque b"
  then have "(word_of_nat a :: u32) = word_of_nat b" by (simp add: channel_opaque_def)
  then have "unat (word_of_nat a :: u32) = unat (word_of_nat b :: u32)" by simp
  with assms show "a = b" by (simp add: unat_of_nat)
qed simp

lemma count_map_remove_other:
  "entries_ok g m \<Longrightarrow> channel_opaque ch \<noteq> k \<Longrightarrow>
    count_list (map_channels (map_remove k m)) ch = count_list (map_channels m) ch"
  by (induction m) (auto simp: map_remove_def)

lemma map_remove_absent: "map_of m k = None \<Longrightarrow> map_remove k m = m"
  by (force simp: map_of_eq_None_iff map_remove_def filter_id_conv)

text \<open>A removal only affects the channel whose handler it found.\<close>

lemma tokens_remove_other:
  assumes "entries_ok g m" and "length g \<le> 2 ^ 32" and "ch < length g"
    and "\<And>sc. map_of m k = Some sc \<Longrightarrow> sc_sender sc \<noteq> ch"
  shows "tokens ch (map_remove k m) r l = tokens ch m r l"
proof (cases "map_of m k")
  case None
  then show ?thesis by (simp add: map_remove_absent)
next
  case (Some sc)
  then have "known g sc" and k: "k = channel_opaque (sc_sender sc)"
    using entries_ok_found [OF assms(1) Some] by auto
  then have "channel_opaque ch \<noteq> k"
    using assms(2,3) assms(4) [OF Some] by (simp add: known_def channel_opaque_inject)
  then show ?thesis
    using count_map_remove_other [OF assms(1)] by (simp add: tokens_def)
qed

lemma accounted_remove:
  assumes "client_inv cl" and "accounted cl" and "length (cl_registered cl) \<le> 2 ^ 32"
  shows "accounted (abandon (map_of (cl_opaque_map cl) k)
    (cl\<lparr>cl_opaque_map := map_remove k (cl_opaque_map cl)\<rparr>))"
proof -
  have e: "entries_ok (cl_registered cl) (cl_opaque_map cl)"
    using assms(1) by (simp add: client_inv_def Let_def)
  show ?thesis
    using assms(2) tokens_remove_other [OF e assms(3), of _ k]
    by (auto simp: accounted_def abandon_def split: option.split) (metis less_irrefl)
qed

lemma accounted_cancelled:
  assumes "client_inv cl" and "accounted cl" and "length (cl_registered cl) \<le> 2 ^ 32"
    and "map_of (cl_opaque_map cl) k = Some sc"
  shows "accounted (send_message (sc_sender sc) msg
    (cl\<lparr>cl_opaque_map := map_remove k (cl_opaque_map cl)\<rparr>))"
proof -
  have e: "entries_ok (cl_registered cl) (cl_opaque_map cl)"
    using assms(1) by (simp add: client_inv_def Let_def)
  have "0 < tokens ch (map_remove k (cl_opaque_map cl)) (cl_reader cl) (cl_sent cl @ [(sc_sender sc, msg)])
      \<or> ch \<in> set (cl_abandoned cl)" if "ch < length (cl_registered cl)" for ch
  proof (cases "sc_sender sc = ch")
    case True
    then show ?thesis by (simp add: tokens_def)
  next
    case False
    then have "tokens ch (map_remove k (cl_opaque_map cl)) (cl_reader cl) (cl_sent cl)
        = tokens ch (cl_opaque_map cl) (cl_reader cl) (cl_sent cl)"
      using assms(4) by (intro tokens_remove_other [OF e assms(3) that]) simp
    then show ?thesis
      using False that assms(2) by (simp add: accounted_def tokens_def)
  qed
  then show ?thesis by (simp add: accounted_def send_message_def)
qed

lemma accounted_drain: "accounted (drain_opaque_map cl) = accounted cl"
  by (simp add: accounted_def drain_eq tokens_drain)

lemma accounted_read_loop_close:
  assumes "accounted cl" and "in_hand (cl_reader cl) = None"
  shows "accounted (on_read_loop_close cl)"
proof -
  have "accounted (drain_opaque_map cl)" using assms(1) by (simp add: accounted_drain)
  then show ?thesis
    using assms(2) by (simp add: on_read_loop_close_def accounted_def drain_eq tokens_def holds_def)
qed

lemma accounted_take:
  assumes "client_inv cl" and "accounted cl" and "length (cl_registered cl) \<le> 2 ^ 32"
    and "cl_reader cl = Idle" and "map_of (cl_opaque_map cl) k = Some sc"
  shows "accounted (cl\<lparr>cl_opaque_map := map_remove k (cl_opaque_map cl), cl_reader := Taken p sc\<rparr>)"
proof -
  have e: "entries_ok (cl_registered cl) (cl_opaque_map cl)"
    using assms(1) by (simp add: client_inv_def Let_def)
  have "0 < tokens ch (map_remove k (cl_opaque_map cl)) (Taken p sc) (cl_sent cl)
      \<or> ch \<in> set (cl_abandoned cl)" if "ch < length (cl_registered cl)" for ch
  proof (cases "sc_sender sc = ch")
    case False
    then have "tokens ch (map_remove k (cl_opaque_map cl)) Idle (cl_sent cl)
        = tokens ch (cl_opaque_map cl) Idle (cl_sent cl)"
      using assms(5) by (intro tokens_remove_other [OF e assms(3) that]) simp
    then show ?thesis
      using False that assms(2,4) by (auto simp: accounted_def tokens_def)
  qed (simp add: tokens_def)
  then show ?thesis by (simp add: accounted_def)
qed

lemma accounted_hand_to_message:
  assumes "accounted cl" and "in_hand (cl_reader cl) = Some (p, sc)"
  shows "accounted ((send_message (sc_sender sc) msg cl)\<lparr>cl_reader := Idle\<rparr>)"
proof -
  have "tokens ch (cl_opaque_map cl) Idle (cl_sent cl @ [(sc_sender sc, msg)])
      = tokens ch (cl_opaque_map cl) (cl_reader cl) (cl_sent cl)" for ch
    using assms(2) by (simp add: tokens_def holds_def)
  then show ?thesis
    using assms(1) by (simp add: accounted_def send_message_def)
qed

lemma accounted_reinsert:
  assumes "client_inv cl" and "accounted cl" and "length (cl_registered cl) \<le> 2 ^ 32"
    and "cl_reader cl = Taken p sc" and "rp_opaque p' = rp_opaque p"
  shows "accounted (cl\<lparr>cl_opaque_map := map_insert (rp_opaque p') sc (cl_opaque_map cl),
    cl_reader := Sending p' sc\<rparr>)"
proof -
  let ?m = "cl_opaque_map cl" and ?k = "rp_opaque p'"
  have e: "entries_ok (cl_registered cl) ?m" and k: "?k = channel_opaque (sc_sender sc)" "known (cl_registered cl) sc"
    using assms by (simp_all add: client_inv_def Let_def)
  have "0 < tokens ch (map_insert ?k sc ?m) (Sending p' sc) (cl_sent cl) \<or> ch \<in> set (cl_abandoned cl)"
    if "ch < length (cl_registered cl)" for ch
  proof (cases "sc_sender sc = ch")
    case False
    then have "channel_opaque ch \<noteq> ?k"
      using k that assms(3) by (simp add: known_def channel_opaque_inject)
    then have "count_list (map_channels (map_remove ?k ?m)) ch = count_list (map_channels ?m) ch"
      by (rule count_map_remove_other [OF e])
    then show ?thesis
      using False that assms(2,4) by (auto simp: accounted_def tokens_def map_insert_def map_remove_def)
  qed (simp add: tokens_def)
  then show ?thesis by (simp add: accounted_def)
qed

lemma accounted_register:
  assumes "client_inv cl" and "accounted cl" and "length (cl_registered cl) < 2 ^ 32"
  shows "accounted (snd (dispatch_register packet persistent context cl))"
proof -
  let ?g = "cl_registered cl" and ?m = "cl_opaque_map cl" and ?k = "cl_current_opaque cl"
  let ?sc = "\<lparr>sc_sender = length ?g, sc_is_persistent = persistent, sc_context = context\<rparr>"
  have e: "entries_ok ?g ?m" and k: "?k = channel_opaque (length ?g)"
    using assms(1) by (simp_all add: client_inv_def Let_def)
  have "0 < tokens ch (map_insert ?k ?sc ?m) (cl_reader cl) (cl_sent cl) \<or> ch \<in> set (cl_abandoned cl)"
    if "ch < Suc (length ?g)" for ch
  proof (cases "ch = length ?g")
    case True
    then show ?thesis by (simp add: tokens_def map_insert_def)
  next
    case False
    then have "channel_opaque ch \<noteq> ?k"
      using k that assms(3) by (simp add: channel_opaque_inject)
    then have "count_list (map_channels (map_remove ?k ?m)) ch = count_list (map_channels ?m) ch"
      by (rule count_map_remove_other [OF e])
    then show ?thesis
      using False that assms(2) by (auto simp: accounted_def tokens_def map_insert_def map_remove_def)
  qed
  then show ?thesis
    by (simp add: accounted_def dispatch_register_def register_handler_def Let_def)
qed

lemma accounted_read_next:
  assumes "client_inv cl" and "accounted cl" and "length (cl_registered cl) \<le> 2 ^ 32"
    and "cl_reader cl = Idle"
  shows "accounted (read_next opts next cl)"
proof -
  have "accounted (cl\<lparr>cl_orphans := ps\<rparr>)" "accounted (cl\<lparr>cl_unsolicited := ps\<rparr>)" for ps
    using assms(2) by (simp_all add: accounted_def)
  then show ?thesis
    using assms accounted_take [OF assms] accounted_read_loop_close [OF assms(2)]
    by (simp add: read_next_def Let_def split: option.split result.split)
qed

lemma accounted_read_prepare:
  assumes "client_inv cl" and "accounted cl" and "length (cl_registered cl) \<le> 2 ^ 32"
    and "cl_reader cl = Taken p sc"
  shows "accounted (read_prepare opts p sc cl)"
proof (cases rule: read_decompress_cases [of opts p])
  case (ok p')
  have "accounted (cl\<lparr>cl_reader := Sending p' sc\<rparr>)"
    using assms(2,4) by (simp add: accounted_def tokens_def)
  with ok assms accounted_reinsert [OF assms ok(2)] show ?thesis by (simp add: read_prepare_def)
next
  case (err e)
  with assms accounted_hand_to_message [OF assms(2), of p sc "Err e"] show ?thesis
    by (simp add: read_prepare_def)
qed

lemma accounted_read_send:
  assumes "accounted cl" and "cl_reader cl = Sending p sc"
  shows "accounted (read_send ok p sc cl)"
proof -
  let ?msg = "Ok \<lparr>cr_packet = p, cr_response_context = sc_context sc\<rparr> :: message"
  let ?cl = "(send_message (sc_sender sc) ?msg cl)\<lparr>cl_reader := Idle\<rparr>"
  have sent: "accounted ?cl" using assms by (intro accounted_hand_to_message) simp_all
  have "on_read_loop_close (send_message (sc_sender sc) ?msg cl) = on_read_loop_close ?cl"
    by (simp add: on_read_loop_close_def drain_eq)
  with sent accounted_read_loop_close [OF sent] show ?thesis by (simp add: read_send_def Let_def)
qed

lemma registered_unchanged:
  "cl_registered (snd (dispatch_finish w oc oq ch per cl)) = cl_registered cl"
  "cl_registered (snd (cancel e op cl)) = cl_registered cl"
  "cl_registered (drop_op op cl) = cl_registered cl"
  "cl_registered (on_read_loop_close cl) = cl_registered cl"
  "cl_registered (read_next opts next cl) = cl_registered cl"
  "cl_registered (read_prepare opts p sc cl) = cl_registered cl"
  "cl_registered (read_send ok p sc cl) = cl_registered cl"
  "cl_registered (snd (close display w cl)) = cl_registered cl"
  by (simp_all add: dispatch_finish_def remove_handler_def abandon_def cancel_def cancel_op_def drop_op_def
      on_read_loop_close_def drain_eq read_next_def read_prepare_def read_send_def close_def
      send_message_def Let_def split: option.split result.split)

lemma accounted_finish:
  "client_inv cl \<Longrightarrow> accounted cl \<Longrightarrow> length (cl_registered cl) \<le> 2 ^ 32 \<Longrightarrow>
    accounted (snd (dispatch_finish w oc oq ch per cl))"
  by (auto simp: dispatch_finish_def remove_handler_def intro: accounted_remove split: result.split)

lemma accounted_cancel:
  "client_inv cl \<Longrightarrow> accounted cl \<Longrightarrow> length (cl_registered cl) \<le> 2 ^ 32 \<Longrightarrow>
    accounted (snd (cancel e op cl))"
  by (auto simp: cancel_def cancel_op_def remove_handler_def map_remove_absent
      intro: accounted_cancelled split: option.split)

lemma accounted_drop:
  "client_inv cl \<Longrightarrow> accounted cl \<Longrightarrow> length (cl_registered cl) \<le> 2 ^ 32 \<Longrightarrow> accounted (drop_op op cl)"
  by (auto simp: drop_op_def cancel_op_def remove_handler_def abandon_def [of None] intro: accounted_remove)

lemma accounted_close: "accounted cl \<Longrightarrow> accounted (snd (close display w cl))"
proof -
  assume a: "accounted cl"
  then have "accounted (drain_opaque_map (cl\<lparr>cl_closed := True\<rparr>))"
    by (simp only: accounted_drain) (simp add: accounted_def)
  with a show ?thesis by (simp add: close_def Let_def split: result.split)
qed

lemma live_inv_step:
  assumes "live_inv cl" and "client_step opts cl cl'"
  shows "live_inv cl'"
proof -
  have i: "client_inv cl" "client_inv cl'"
    using assms client_inv_step by (auto simp: live_inv_def)
  have "accounted cl'" if "length (cl_registered cl') \<le> 2 ^ 32"
    using assms(2)
  proof (cases rule: client_step.cases)
    case (registers packet is_persistent ctx)
    then have "length (cl_registered cl) < 2 ^ 32"
      using that by (simp add: dispatch_register_def register_handler_def Let_def)
    with registers i(1) assms(1) show ?thesis by (auto simp: live_inv_def intro: accounted_register)
  next
    case (reads nxt)
    then show ?thesis
      using that i(1) assms(1) by (auto simp: live_inv_def registered_unchanged intro: accounted_read_next)
  next
    case (prepares packet ctx)
    then show ?thesis
      using that i(1) assms(1) by (auto simp: live_inv_def registered_unchanged intro: accounted_read_prepare)
  qed (use that i(1) assms(1) in \<open>auto simp: live_inv_def registered_unchanged intro: accounted_finish
      accounted_cancel accounted_drop accounted_read_send accounted_read_loop_close accounted_close\<close>)
  with i(2) show ?thesis by (simp add: live_inv_def)
qed

lemma live_inv_new: "live_inv client_new"
  by (simp add: live_inv_def client_inv_new) (simp add: accounted_def client_new_def)

interpretation live: invariant_system "\<lambda>cl. cl = client_new" "client_step opts" live_inv for opts
  by unfold_locales (auto intro: live_inv_new live_inv_step)

section \<open>Properties\<close>

definition sample_opts :: ReadLoopOptions where
  "sample_opts = \<lparr>ro_disable_decompression = False, ro_has_orphan_handler = True, ro_decompress_vec = Some\<rparr>"

definition sample_client :: Client where
  "sample_client = snd (dispatch_register (fst ping) False None client_new)"

lemma sample_client_eq:
  "sample_client = client_new\<lparr>cl_current_opaque := 2,
     cl_opaque_map := [(1, \<lparr>sc_sender = 0, sc_is_persistent = False, sc_context = None\<rparr>)],
     cl_registered := [\<lparr>sc_sender = 0, sc_is_persistent = False, sc_context = None\<rparr>]\<rparr>"
  by (simp add: sample_client_def dispatch_register_def register_handler_def client_new_def map_insert_def
      Let_def)

lemma sample_client_reachable: "client_reachable sample_opts sample_client"
proof -
  have "client_reachable sample_opts client_new" by (rule reachable.start) simp
  then show ?thesis unfolding sample_client_def by (rule reachable.trans) (rule registers)
qed

definition sample_answer :: ResponsePacket where
  "sample_answer = response_packet_new Magic.Res OpCode.Noop 0 Status.Success 1"

definition answered_client :: Client where
  "answered_client = read_turn sample_opts (Some (Ok sample_answer)) True sample_client"

lemma answered_client_eq:
  "answered_client = sample_client\<lparr>cl_opaque_map := [],
     cl_sent := [(0, Ok \<lparr>cr_packet = sample_answer, cr_response_context = None\<rparr>)]\<rparr>"
  by (simp add: answered_client_def read_turn_def read_next_def read_prepare_def read_send_def
      read_decompress_def send_message_def sample_client_eq sample_answer_def response_packet_new_def
      client_new_def map_remove_def Let_def)

text \<open>An uninterrupted turn of the read loop is made of the steps.\<close>

lemma read_turn_reachable:
  assumes "client_reachable opts cl" and "cl_reader cl = Idle"
  shows "client_reachable opts (read_turn opts nxt ok cl)"
proof -
  let ?a = "read_next opts nxt cl"
  let ?b = "case cl_reader ?a of Taken p sc \<Rightarrow> read_prepare opts p sc ?a | _ \<Rightarrow> ?a"
  have "client_reachable opts ?a" by (rule reachable.trans [OF assms(1) reads [OF assms(2)]])
  then have "client_reachable opts ?b"
    by (auto intro: reachable.trans prepares split: Reader.split)
  then have "client_reachable opts (case cl_reader ?b of Sending p sc \<Rightarrow> read_send ok p sc ?b | _ \<Rightarrow> ?b)"
    by (auto intro: reachable.trans sends split: Reader.split)
  then show ?thesis by (simp add: read_turn_def Let_def)
qed

lemma answered_client_reachable: "client_reachable sample_opts answered_client"
  unfolding answered_client_def
  by (rule read_turn_reachable [OF sample_client_reachable]) (simp add: sample_client_eq client_new_def)

text \<open>
  C3. However the tasks of a client interleave, the channel of a request that is not persistent is
  handed at most one message, and none while its handler is still registered.
\<close>

theorem at_most_one_message:
  assumes "client_reachable opts cl" and "one_shot (cl_registered cl) ch"
  shows "length (messages ch (cl_sent cl)) + count_list (map_channels (cl_opaque_map cl)) ch \<le> 1"
  using client.reachable_inv [OF assms(1)] assms(2)
  by (fastforce simp: client_inv_def Let_def single_token_def tokens_def)

theorem at_most_one_message_witness:
  "length (messages 0 (cl_sent answered_client))
     + count_list (map_channels (cl_opaque_map answered_client)) 0 \<le> 1
   \<and> messages 0 (cl_sent answered_client) \<noteq> []"
proof -
  have "one_shot (cl_registered answered_client) 0"
    by (simp add: one_shot_def answered_client_eq sample_client_eq)
  from at_most_one_message [OF answered_client_reachable this] show ?thesis
    by (simp add: answered_client_eq messages_def)
qed

text \<open>
  C4. A response is only ever handed to the channel of the request with the same opaque (the
  opaques being handed out from one upwards), together with the context that request registered; any
  other message is a cancellation or a decompression error.
\<close>

theorem messages_match_requests:
  assumes "client_reachable opts cl" and "(ch, msg) \<in> set (cl_sent cl)"
  shows "case msg of
      Ok resp \<Rightarrow> ch < length (cl_registered cl) \<and> rp_opaque (cr_packet resp) = word_of_nat (Suc ch)
        \<and> cr_response_context resp = sc_context (cl_registered cl ! ch)
    | Err e \<Rightarrow> is_cancellation_error e \<or> err_kind e = ErrorKind.Decompression
    | Panic \<Rightarrow> False"
  using client.reachable_inv [OF assms(1)] assms(2)
  by (auto simp: client_inv_def Let_def sent_ok_def list_all_iff message_ok_def channel_opaque_def
      split: result.splits)

theorem messages_match_requests_witness:
  "rp_opaque sample_answer = word_of_nat (Suc 0) \<and> (None :: ResponseContext option)
     = sc_context (cl_registered answered_client ! 0)"
  using messages_match_requests [OF answered_client_reachable,
      of 0 "Ok \<lparr>cr_packet = sample_answer, cr_response_context = None\<rparr>"]
  by (simp add: answered_client_eq)

text \<open>
  C5. Until opaques wrap around, no request is forgotten: each registered channel still has its
  handler, is in the read loop's hands, has been handed a message, or was given up by its own caller
  or by a failed write.
\<close>

theorem no_request_forgotten:
  assumes "client_reachable opts cl" and "length (cl_registered cl) \<le> 2 ^ 32"
    and "ch < length (cl_registered cl)"
  shows "ch \<in> set (map_channels (cl_opaque_map cl)) \<or> holds (cl_reader cl) ch
    \<or> messages ch (cl_sent cl) \<noteq> [] \<or> ch \<in> set (cl_abandoned cl)"
  using live.reachable_inv [OF assms(1)] assms(2,3)
  by (auto simp: live_inv_def accounted_def tokens_def count_list_0_iff [symmetric] split: if_splits)

theorem no_request_forgotten_witness:
  "0 \<in> set (map_channels (cl_opaque_map sample_client)) \<or> holds (cl_reader sample_client) 0
    \<or> messages 0 (cl_sent sample_client) \<noteq> [] \<or> 0 \<in> set (cl_abandoned sample_client)"
  by (rule no_request_forgotten [OF sample_client_reachable]) (simp_all add: sample_client_eq)

text \<open>
  C6. The first close, at a moment when the read loop is not delivering, leaves no handler behind:
  every request ever registered has by then been handed a message or was given up.
\<close>

theorem close_answers_everything:
  assumes "client_reachable opts cl" and "length (cl_registered cl) \<le> 2 ^ 32"
    and "\<not> cl_closed cl" and "in_hand (cl_reader cl) = None"
  shows "cl_opaque_map (snd (close display w cl)) = []
    \<and> (\<forall>ch < length (cl_registered cl). messages ch (cl_sent (snd (close display w cl))) \<noteq> []
         \<or> ch \<in> set (cl_abandoned (snd (close display w cl))))"
proof -
  let ?cl = "snd (close display w cl)"
  have "live_inv cl" by (rule live.reachable_inv [OF assms(1)])
  then have "accounted ?cl" using assms(2) by (simp add: live_inv_def accounted_close)
  moreover have "cl_opaque_map ?cl = []" "cl_reader ?cl = cl_reader cl"
    using assms(3) by (simp_all add: close_def drain_eq Let_def split: result.split)
  moreover have "\<not> holds (cl_reader cl) ch" for ch using assms(4) by (simp add: holds_def)
  ultimately show ?thesis
    by (simp add: accounted_def tokens_def registered_unchanged)
qed

theorem close_answers_everything_witness:
  "cl_opaque_map (snd (close (\<lambda>_. []) (Ok ()) sample_client)) = []
    \<and> messages 0 (cl_sent (snd (close (\<lambda>_. []) (Ok ()) sample_client))) \<noteq> []"
  using close_answers_everything [OF sample_client_reachable, of "\<lambda>_. []" "Ok ()"]
  by (simp add: sample_client_eq client_new_def close_def drain_eq messages_def)

text \<open>
  When an operation's deadline passes before a response, the caller sees a timeout exactly when
  the handler was still registered; otherwise the message that was already taken for it is awaited
  and decoded. Either way no handler is left under its opaque.
\<close>

theorem deadline_outcome:
  assumes "\<not> po_completed op"
  shows "case run_op_future_with_deadline try_from (Some (Ok op)) None late cl of (res, cl') \<Rightarrow>
     map_of (cl_opaque_map cl') (po_opaque op) = None
     \<and> res = (if map_of (cl_opaque_map cl) (po_opaque op) \<noteq> None
              then Err (new_cancelled_error CancellationErrorKind.Timeout)
              else case late of
                  Some r \<Rightarrow> and_then r try_from
                | None \<Rightarrow> Err (new_cancelled_error CancellationErrorKind.RequestCancelled))"
proof -
  have gone: "map_of (map_remove k m) k = None" for k m
    by (auto simp: map_remove_def map_of_eq_None_iff)
  show ?thesis
    using assms
    by (auto simp: run_op_future_with_deadline_def cancel_def cancel_op_def remove_handler_def drop_op_def
        abandon_def standard_recv_def recv_def send_message_def gone map_remove_absent Let_def
        split: option.split)
qed

theorem deadline_outcome_witness:
  "case run_op_future_with_deadline (\<lambda>_. Ok ()) (Some (Ok \<lparr>po_opaque = 1, po_channel = 0,
       po_is_persistent = False, po_completed = False\<rparr>)) None None sample_client of (res, cl') \<Rightarrow>
     map_of (cl_opaque_map cl') 1 = None
     \<and> res = Err (new_cancelled_error CancellationErrorKind.Timeout)"
  using deadline_outcome [where op = "\<lparr>po_opaque = 1, po_channel = 0, po_is_persistent = False,
      po_completed = False\<rparr>" and try_from = "\<lambda>_. Ok ()" and late = None and cl = sample_client]
  by (simp add: sample_client_eq)

text \<open>
  A response whose receiver has gone away in the meantime stops the read loop: every other
  request that is still registered is cancelled.
\<close>

theorem lost_receiver_stops_client:
  "case read_send False packet sc cl of cl' \<Rightarrow>
     cl_reader cl' = Stopped \<and> cl_opaque_map cl' = []
     \<and> cl_sent cl' = cl_sent cl
         @ [(sc_sender sc, Ok \<lparr>cr_packet = packet, cr_response_context = sc_context sc\<rparr>)]
         @ map (\<lambda>ch. (ch, Err (new_cancelled_error CancellationErrorKind.ClosedInFlight)))
             (map_channels (cl_opaque_map cl))"
  by (simp add: read_send_def on_read_loop_close_def drain_eq send_message_def closed_in_flight_def Let_def)

end
