(* ===== verification/Core_Error.thy ===== *)
theory Core_Error
  imports Memdx_Client
begin

text \<open>
  Errors of the core crate (\<^verbatim>\<open>couchbase-core/src/error.rs\<close>) and the retry bookkeeping they carry
  (\<^verbatim>\<open>RetryRequest\<close> of \<^verbatim>\<open>retry.rs\<close>). The errors of the HTTP based services are kept to what the code
  modelled here inspects: the kind of the transport error, the kind of a query server error and the
  status code of a search server error.
\<close>

section \<open>Service errors\<close>

datatype HttpErrorKind =
  Connection string | Decoding string | HttpMessage string | SendRequest string

datatype QueryServerErrorKind =
    ParsingFailure | Internal | AuthenticationFailure | CasMismatch | DocNotFound | DocExists
  | PlanningFailure | IndexFailure | PreparedStatementFailure | DMLFailure | Timeout | IndexExists
  | IndexNotFound | WriteInReadOnlyMode | ScopeNotFound | CollectionNotFound
  | InvalidArgument string string | BuildAlreadyInProgress | Unknown

datatype QueryErrorKind = QueryServer QueryServerErrorKind | QueryHttp HttpErrorKind | QueryOther string

datatype SearchErrorKind = SearchServer nat | SearchHttp HttpErrorKind | SearchOther string

datatype AnalyticsErrorKind = AnalyticsHttp HttpErrorKind | AnalyticsOther string

datatype MgmtErrorKind = MgmtHttp HttpErrorKind | MgmtOther string

datatype ServiceType = Memd | Mgmt | Query | Search | Eventing | Analytics | OtherService string

section \<open>Retry bookkeeping\<close>

datatype RetryReason =
    KvNotMyVbucket | KvInvalidVbucketMap | KvTemporaryFailure | KvCollectionOutdated
  | KvErrorMapRetryIndicated | KvLocked | KvSyncWriteInProgress | KvSyncWriteRecommitInProgress
  | ServiceNotAvailable | SocketClosedWhileInFlight | SocketNotAvailable
  | QueryPreparedStatementFailure | QueryIndexNotFound | SearchTooManyRequests
  | HttpSendRequestFailed | NotReady

record RetryRequest =
  rr_operation :: string
  rr_is_idempotent :: bool
  rr_retry_attempts :: u32
  rr_retry_reasons :: "RetryReason set"
  rr_unique_id :: "string option"

definition retry_request_new :: "string \<Rightarrow> bool \<Rightarrow> RetryRequest" where
  "retry_request_new operation is_idempotent =
    \<lparr>rr_operation = operation, rr_is_idempotent = is_idempotent, rr_retry_attempts = 0,
     rr_retry_reasons = {}, rr_unique_id = None\<rparr>"

section \<open>Core errors\<close>

record MemdxError =
  me_source :: Error
  me_dispatched_to :: "string option"
  me_dispatched_from :: "string option"
  me_doc_id :: "bytes option"
  me_bucket_name :: "string option"
  me_scope_name :: "string option"
  me_collection_name :: "string option"

definition memdx_error_new :: "Error \<Rightarrow> MemdxError" where
  "memdx_error_new source =
    \<lparr>me_source = source, me_dispatched_to = None, me_dispatched_from = None, me_doc_id = None,
     me_bucket_name = None, me_scope_name = None, me_collection_name = None\<rparr>"

datatype CoreErrorKind =
    Memdx MemdxError
  | AnalyticsError AnalyticsErrorKind
  | QueryError QueryErrorKind
  | SearchError SearchErrorKind
  | HttpError HttpErrorKind
  | MgmtError MgmtErrorKind
  | VbucketMapOutdated
  | InvalidArgument string "string option"
  | EndpointNotKnown string
  | InvalidVbucket u16 nat
  | InvalidReplica u32 nat
  | NoEndpointsAvailable
  | Shutdown
  | NoBucket
  | IllegalState string
  | NoVbucketMap
  | NoServerAssigned u16
  | CollectionManifestOutdated u64 u64
  | Message string
  | ServiceNotAvailable ServiceType
  | FeatureNotAvailable string string
  | Compression string
  | Internal string

record CoreError =
  ce_kind :: CoreErrorKind
  ce_retry_info :: "RetryRequest option"

definition core_error_new :: "CoreErrorKind \<Rightarrow> CoreError" where
  "core_error_new kind = \<lparr>ce_kind = kind, ce_retry_info = None\<rparr>"

definition is_memdx_error :: "CoreError \<Rightarrow> Error option" where
  "is_memdx_error e = (case ce_kind e of CoreErrorKind.Memdx err \<Rightarrow> Some (me_source err) | _ \<Rightarrow> None)"

definition set_retry_info :: "RetryRequest \<Rightarrow> CoreError \<Rightarrow> CoreError" where
  "set_retry_info retry_info e = e\<lparr>ce_retry_info := Some retry_info\<rparr>"

definition new_contextual_memdx_error :: "MemdxError \<Rightarrow> CoreError" where
  "new_contextual_memdx_error e = core_error_new (CoreErrorKind.Memdx e)"

definition core_message_error :: "string \<Rightarrow> CoreError" where
  "core_message_error msg = core_error_new (CoreErrorKind.Message msg)"

lemma core_error_new_sel [simp]:
  "ce_kind (core_error_new k) = k" "ce_retry_info (core_error_new k) = None"
  by (simp_all add: core_error_new_def)

lemma is_memdx_error_simps [simp]:
  "is_memdx_error (new_contextual_memdx_error m) = Some (me_source m)"
  by (simp add: is_memdx_error_def new_contextual_memdx_error_def)

end
