(* ===== verification/Routing.thy ===== *)
theory Routing
  imports Core_Error
begin

text \<open>
  Key to server routing (\<^verbatim>\<open>vbucketmap.rs\<close>, \<^verbatim>\<open>vbucketrouter.rs\<close>). The CRC-32 of a key and the JSON decoder
  of a cluster configuration are arguments. Map entries are server indexes, negative when no server
  is assigned.
\<close>

section \<open>Vbucket map\<close>

record VbucketMap =
  vm_entries :: "int list list"
  vm_num_replicas :: nat

definition vbucket_map_new :: "int list list \<Rightarrow> nat \<Rightarrow> (CoreError, VbucketMap) result" where
  "vbucket_map_new entries num_replicas =
    (if entries = [] then Err (core_message_error ''vbucket map must have at least a single entry'')
     else Ok \<lparr>vm_entries = entries, vm_num_replicas = num_replicas\<rparr>)"

definition vbucket_map_is_valid :: "VbucketMap \<Rightarrow> bool" where
  "vbucket_map_is_valid self = (case vm_entries self of entry # _ \<Rightarrow> entry \<noteq> [] | [] \<Rightarrow> False)"

text \<open>The remainder is taken modulo the number of entries cut to 16 bits; a zero divisor panics.\<close>

definition vbucket_by_key :: "(bytes \<Rightarrow> u32) \<Rightarrow> VbucketMap \<Rightarrow> bytes \<Rightarrow> (CoreError, u16) result" where
  "vbucket_by_key crc32 self key =
    (let checksum = crc32 key;
         mid_bits = (ucast (drop_bit 16 checksum) :: u16) AND 0x7fff;
         n = (word_of_nat (length (vm_entries self)) :: u16) in
     if n = 0 then Panic else Ok (mid_bits mod n))"

definition node_by_vbucket :: "VbucketMap \<Rightarrow> u16 \<Rightarrow> u32 \<Rightarrow> (CoreError, int) result" where
  "node_by_vbucket self vb_id vb_server_idx =
    (let num_servers = (word_of_nat (vm_num_replicas self) :: u32) + 1 in
     if vb_server_idx > num_servers then
       Err (core_error_new (CoreErrorKind.InvalidReplica vb_server_idx (unat num_servers)))
     else if unat vb_id < length (vm_entries self) then
       let idx = vm_entries self ! unat vb_id in
       if unat vb_server_idx < length idx then Ok (idx ! unat vb_server_idx) else Ok (- 1)
     else Err (core_error_new (CoreErrorKind.InvalidVbucket vb_id (length (vm_entries self)))))"

section \<open>Router\<close>

record VbucketRoutingInfo =
  ri_vbucket_info :: "VbucketMap option"
  ri_server_list :: "string list"
  ri_bucket_selected :: bool

text \<open>
  The router holds the routing information in a cell that a new configuration replaces; each
  operation loads it once.
\<close>

record StdVbucketRouter =
  sr_routing_info :: VbucketRoutingInfo

definition vbucket_router_new :: "VbucketRoutingInfo \<Rightarrow> StdVbucketRouter" where
  "vbucket_router_new info = \<lparr>sr_routing_info = info\<rparr>"

definition update_vbucket_info :: "VbucketRoutingInfo \<Rightarrow> StdVbucketRouter \<Rightarrow> StdVbucketRouter" where
  "update_vbucket_info info self = self\<lparr>sr_routing_info := info\<rparr>"

definition get_vbucket_info :: "VbucketRoutingInfo \<Rightarrow> (CoreError, VbucketMap) result" where
  "get_vbucket_info info =
    (case ri_vbucket_info info of
       Some i \<Rightarrow> Ok i
     | None \<Rightarrow> Err (core_error_new CoreErrorKind.NoVbucketMap))"

definition dispatch_by_key ::
    "(bytes \<Rightarrow> u32) \<Rightarrow> StdVbucketRouter \<Rightarrow> bytes \<Rightarrow> u32 \<Rightarrow> (CoreError, string \<times> u16) result" where
  "dispatch_by_key crc32 self key vbucket_server_idx =
    (let info = sr_routing_info self in
     if \<not> ri_bucket_selected info then Err (core_error_new CoreErrorKind.NoBucket)
     else
       and_then (get_vbucket_info info) (\<lambda>vbucket_info.
       and_then (vbucket_by_key crc32 vbucket_info key) (\<lambda>vb_id.
       and_then (node_by_vbucket vbucket_info vb_id vbucket_server_idx) (\<lambda>idx.
       if idx \<ge> 0 \<and> nat idx < length (ri_server_list info)
       then Ok (ri_server_list info ! nat idx, vb_id)
       else Err (core_error_new (CoreErrorKind.NoServerAssigned vb_id))))))"

definition dispatch_to_vbucket :: "StdVbucketRouter \<Rightarrow> u16 \<Rightarrow> (CoreError, string) result" where
  "dispatch_to_vbucket self vb_id =
    (let info = sr_routing_info self in
     if \<not> ri_bucket_selected info then Err (core_error_new CoreErrorKind.NoBucket)
     else
       and_then (get_vbucket_info info) (\<lambda>vbucket_info.
       and_then (node_by_vbucket vbucket_info vb_id 0) (\<lambda>idx.
       if idx > 0 \<and> nat idx < length (ri_server_list info)
       then Ok (ri_server_list info ! nat idx)
       else Err (core_error_new (CoreErrorKind.NoServerAssigned vb_id)))))"

section \<open>Routing an operation\<close>

text \<open>\<^verbatim>\<open>str::replace\<close> for a non-empty pattern: left to right, without overlaps.\<close>

function str_replace :: "string \<Rightarrow> string \<Rightarrow> string \<Rightarrow> string" where
  "str_replace pat new s =
    (if pat = [] \<or> s = [] then s
     else if take (length pat) s = pat then new @ str_replace pat new (drop (length pat) s)
     else hd s # str_replace pat new (tl s))"
  by pat_completeness auto
termination
  by (relation "measure (\<lambda>(pat, new, s). length s)") auto

declare str_replace.simps [simp del]

text \<open>
  The result for the caller, and the configuration with its source that is handed to the
  not-my-vbucket handler, if any.
\<close>

definition orchestrate_memd_routing ::
    "(bytes \<Rightarrow> u32) \<Rightarrow> (string \<Rightarrow> 'cfg option) \<Rightarrow> StdVbucketRouter \<Rightarrow> bytes \<Rightarrow> u32
      \<Rightarrow> (string \<Rightarrow> u16 \<Rightarrow> (CoreError, 'r) result) \<Rightarrow> (CoreError, 'r) result \<times> ('cfg \<times> string) option" where
  "orchestrate_memd_routing crc32 parse_terse vb key vb_server_idx operation =
    (case dispatch_by_key crc32 vb key vb_server_idx of
       Err e \<Rightarrow> (Err e, None)
     | Panic \<Rightarrow> (Panic, None)
     | Ok (endpoint, vb_id) \<Rightarrow>
         (case operation endpoint vb_id of
            Ok r \<Rightarrow> (Ok r, None)
          | Panic \<Rightarrow> (Panic, None)
          | Err err \<Rightarrow>
              (case is_memdx_error err of
                 None \<Rightarrow> (Err err, None)
               | Some memdx_err \<Rightarrow>
                   if \<not> is_server_error_kind ServerErrorKind.NotMyVbucket memdx_err then (Err err, None)
                   else
                     (case has_server_config memdx_err of
                        None \<Rightarrow> (Err err, None)
                      | Some config \<Rightarrow>
                          if config = [] then (Err err, None)
                          else
                            let value = (if utf8_valid config then from_utf8 config else []);
                                config = str_replace ''$HOST'' endpoint value in
                            (case parse_terse config of
                               Some config_json \<Rightarrow> (Err err, Some (config_json, endpoint))
                             | None \<Rightarrow> (Err err, None))))))"

section \<open>Facts\<close>

text \<open>The vbucket of a key: fifteen middle bits of its checksum, modulo the number of vbuckets.\<close>

definition key_vbucket :: "(bytes \<Rightarrow> u32) \<Rightarrow> VbucketMap \<Rightarrow> bytes \<Rightarrow> nat" where
  "key_vbucket crc32 m key =
    unat ((ucast (drop_bit 16 (crc32 key)) :: u16) AND 0x7fff) mod length (vm_entries m)"

definition map_sized :: "VbucketMap \<Rightarrow> bool" where
  "map_sized m \<longleftrightarrow> vm_entries m \<noteq> [] \<and> length (vm_entries m) < 2 ^ 16 \<and> vm_num_replicas m < 2 ^ 32 - 1"

lemma vbucket_by_key_Ok:
  assumes "map_sized m"
  obtains vb where "vbucket_by_key crc32 m key = Ok vb" and "unat vb = key_vbucket crc32 m key"
    and "unat vb < length (vm_entries m)"
proof -
  let ?n = "word_of_nat (length (vm_entries m)) :: u16"
  let ?mid = "(ucast (drop_bit 16 (crc32 key)) :: u16) AND 0x7fff"
  have n: "unat ?n = length (vm_entries m)" using assms by (simp add: map_sized_def unat_of_nat)
  then have "?n \<noteq> 0" using assms by (metis length_0_conv map_sized_def unat_0)
  then have ok: "vbucket_by_key crc32 m key = Ok (?mid mod ?n)" by (simp add: vbucket_by_key_def Let_def)
  have v: "unat (?mid mod ?n) = key_vbucket crc32 m key"
    unfolding unat_mod n key_vbucket_def ..
  moreover have "key_vbucket crc32 m key < length (vm_entries m)"
    using assms by (simp add: key_vbucket_def map_sized_def)
  ultimately have "unat (?mid mod ?n) < length (vm_entries m)" by (simp only: v)
  with ok v show ?thesis by (rule that)
qed

text \<open>The server a map assigns to a vbucket and replica number.\<close>

definition assigned :: "VbucketMap \<Rightarrow> nat \<Rightarrow> nat \<Rightarrow> string list \<Rightarrow> string option" where
  "assigned m vb i servers =
    (let row = vm_entries m ! vb in
     if i < length row \<and> 0 \<le> row ! i \<and> nat (row ! i) < length servers
     then Some (servers ! nat (row ! i)) else None)"

lemma unat_num_servers:
  "vm_num_replicas m < 2 ^ 32 - 1 \<Longrightarrow>
    unat ((word_of_nat (vm_num_replicas m) :: u32) + 1) = Suc (vm_num_replicas m)"
proof -
  assume "vm_num_replicas m < 2 ^ 32 - 1"
  then have "unat (word_of_nat (Suc (vm_num_replicas m)) :: u32) = Suc (vm_num_replicas m)"
    by (simp only: unat_of_nat) simp
  then show ?thesis by (simp add: add.commute)
qed

lemma node_by_vbucket_Ok:
  assumes "vm_num_replicas m < 2 ^ 32 - 1" and "unat i \<le> Suc (vm_num_replicas m)"
    and "unat vb < length (vm_entries m)"
  shows "node_by_vbucket m vb i = Ok (let row = vm_entries m ! unat vb in
    if unat i < length row then row ! unat i else - 1)"
proof -
  have "\<not> i > (word_of_nat (vm_num_replicas m) :: u32) + 1"
    using assms(2) unat_num_servers [OF assms(1)] by (simp add: word_less_nat_alt)
  with assms(3) show ?thesis by (simp add: node_by_vbucket_def Let_def)
qed

section \<open>Properties\<close>

definition sample_map :: VbucketMap where
  "sample_map = \<lparr>vm_entries = [[0, 1], [1, 0]], vm_num_replicas = 1\<rparr>"

definition sample_router :: StdVbucketRouter where
  "sample_router = vbucket_router_new \<lparr>ri_vbucket_info = Some sample_map,
     ri_server_list = [''endpoint1'', ''endpoint2''], ri_bucket_selected = True\<rparr>"

text \<open>
  C32. With a bucket selected and a map of fewer than 65536 vbuckets, routing a key to one of the
  servers the map has for each vbucket succeeds exactly when the map assigns a listed server, and
  returns that server with the vbucket the key hashes to.
\<close>

theorem dispatch_by_key_correct:
  assumes "ri_bucket_selected (sr_routing_info r)" and "ri_vbucket_info (sr_routing_info r) = Some m"
    and "map_sized m" and "unat i \<le> vm_num_replicas m"
  shows "\<exists>vb. unat vb = key_vbucket crc32 m key \<and> unat vb < length (vm_entries m)
    \<and> dispatch_by_key crc32 r key i =
      (case assigned m (unat vb) (unat i) (ri_server_list (sr_routing_info r)) of
         Some server \<Rightarrow> Ok (server, vb)
       | None \<Rightarrow> Err (core_error_new (CoreErrorKind.NoServerAssigned vb)))"
proof -
  obtain vb where vb: "vbucket_by_key crc32 m key = Ok vb" "unat vb = key_vbucket crc32 m key"
      "unat vb < length (vm_entries m)"
    using vbucket_by_key_Ok [OF assms(3)] .
  have node: "node_by_vbucket m vb i = Ok (let row = vm_entries m ! unat vb in
      if unat i < length row then row ! unat i else - 1)"
    using assms(3,4) vb(3) by (intro node_by_vbucket_Ok) (simp_all add: map_sized_def)
  show ?thesis
    using assms(1,2) vb node
    by (intro exI [of _ vb]) (auto simp: dispatch_by_key_def get_vbucket_info_def assigned_def Let_def)
qed

theorem dispatch_by_key_correct_witness:
  "\<exists>vb. unat vb = key_vbucket (\<lambda>_. 0x00030000) sample_map [0x6b] \<and> unat vb < 2
    \<and> dispatch_by_key (\<lambda>_. 0x00030000) sample_router [0x6b] 0 = Ok (''endpoint2'', vb)"
proof -
  have "key_vbucket (\<lambda>_. 0x00030000) sample_map [0x6b] = 1"
    by (simp add: key_vbucket_def sample_map_def numeral_2_eq_2 [symmetric])
  then show ?thesis
    using dispatch_by_key_correct [of sample_router sample_map 0 "\<lambda>_. 0x00030000" "[0x6b]"]
    by (auto simp: sample_router_def vbucket_router_new_def map_sized_def assigned_def)
       (auto simp: sample_map_def)
qed

text \<open>
  Routing by vbucket id never reaches the first server of the list: a vbucket whose active
  copy is on server zero is reported as unassigned, although routing a key of that vbucket finds it.
\<close>

theorem dispatch_to_vbucket_skips_first_server:
  assumes "ri_bucket_selected (sr_routing_info r)" and "ri_vbucket_info (sr_routing_info r) = Some m"
    and "map_sized m" and "vm_entries m ! key_vbucket crc32 m key = 0 # row"
    and "ri_server_list (sr_routing_info r) = server # servers"
  shows "\<exists>vb. dispatch_by_key crc32 r key 0 = Ok (server, vb)
    \<and> dispatch_to_vbucket r vb = Err (core_error_new (CoreErrorKind.NoServerAssigned vb))"
proof -
  obtain vb where vb: "vbucket_by_key crc32 m key = Ok vb" "unat vb = key_vbucket crc32 m key"
      "unat vb < length (vm_entries m)"
    using vbucket_by_key_Ok [OF assms(3)] .
  have "node_by_vbucket m vb 0 = Ok 0"
    using node_by_vbucket_Ok [of m 0 vb] assms(3,4) vb(2,3) by (simp add: map_sized_def)
  then show ?thesis
    using assms vb(1)
    by (intro exI [of _ vb]) (simp add: dispatch_by_key_def dispatch_to_vbucket_def get_vbucket_info_def)
qed

theorem dispatch_to_vbucket_skips_first_server_witness:
  "\<exists>vb. dispatch_by_key (\<lambda>_. 0) sample_router [0x6b] 0 = Ok (''endpoint1'', vb)
    \<and> dispatch_to_vbucket sample_router vb = Err (core_error_new (CoreErrorKind.NoServerAssigned vb))"
  by (rule dispatch_to_vbucket_skips_first_server [of _ sample_map _ _ "[1]" _ "[''endpoint2'']"])
     (simp_all add: sample_router_def vbucket_router_new_def map_sized_def key_vbucket_def sample_map_def)

text \<open>
  A routed operation's own error is always what the caller gets; the configuration handed to
  the not-my-vbucket handler is the one in that error, with the host placeholder replaced by the
  endpoint, and there is one exactly when the error is of that kind and its payload decodes.
\<close>

lemma routing_reports_config:
  assumes "dispatch_by_key crc32 vb key i = Ok (endpoint, vb_id)" and "operation endpoint vb_id = Err err"
  shows "case orchestrate_memd_routing crc32 parse_terse vb key i operation of (res, handed) \<Rightarrow>
     res = Err err
     \<and> (handed = Some (cfg, source) \<longleftrightarrow>
        source = endpoint \<and> (\<exists>e config. is_memdx_error err = Some e
          \<and> is_server_error_kind ServerErrorKind.NotMyVbucket e
          \<and> has_server_config e = Some config \<and> config \<noteq> []
          \<and> parse_terse (str_replace ''$HOST'' endpoint (if utf8_valid config then from_utf8 config else []))
            = Some cfg))"
  using assms
  by (auto simp: orchestrate_memd_routing_def Let_def split: option.split)

end
