(* ===== verification/Config.thy ===== *)
theory Config
  imports Routing
begin

text \<open>
  Cluster configurations: the terse JSON form as \<^verbatim>\<open>serde\<close> delivers it (\<^verbatim>\<open>cbconfig/mod.rs\<close>), its
  translation into the client's own form (\<^verbatim>\<open>configparser.rs\<close>, \<^verbatim>\<open>parsedconfig.rs\<close>), the choice of the
  network (\<^verbatim>\<open>networktypeheuristic.rs\<close>) and the settings each component of the agent gets from it
  (\<^verbatim>\<open>componentconfigs.rs\<close>). TLS settings and credentials are opaque. A \<^verbatim>\<open>HashMap\<close> is a partial function;
  where the code iterates over one, the order in which it does is an argument.
\<close>

section \<open>Terse configurations\<close>

record VBucketServerMap =
  hash_algorithm :: string
  num_replicas :: nat
  server_list :: "string list"
  vbucket_map :: "int list list"

record ConfigDDocs =
  dd_uri :: string

record TerseExtNodePorts =
  tp_kv :: "u16 option"
  tp_capi :: "u16 option"
  tp_mgmt :: "u16 option"
  tp_n1ql :: "u16 option"
  tp_fts :: "u16 option"
  tp_cbas :: "u16 option"
  tp_eventing :: "u16 option"
  tp_gsi :: "u16 option"
  tp_backup :: "u16 option"
  tp_kv_ssl :: "u16 option"
  tp_capi_ssl :: "u16 option"
  tp_mgmt_ssl :: "u16 option"
  tp_n1ql_ssl :: "u16 option"
  tp_fts_ssl :: "u16 option"
  tp_cbas_ssl :: "u16 option"
  tp_eventing_ssl :: "u16 option"
  tp_gsi_ssl :: "u16 option"
  tp_backup_ssl :: "u16 option"

definition terse_ports_default :: TerseExtNodePorts where
  "terse_ports_default =
    \<lparr>tp_kv = None, tp_capi = None, tp_mgmt = None, tp_n1ql = None, tp_fts = None, tp_cbas = None,
     tp_eventing = None, tp_gsi = None, tp_backup = None, tp_kv_ssl = None, tp_capi_ssl = None,
     tp_mgmt_ssl = None, tp_n1ql_ssl = None, tp_fts_ssl = None, tp_cbas_ssl = None,
     tp_eventing_ssl = None, tp_gsi_ssl = None, tp_backup_ssl = None\<rparr>"

record TerseExtNodeAltAddresses =
  alt_ports :: TerseExtNodePorts
  alt_hostname :: "string option"

record TerseNodePorts =
  direct :: "u16 option"
  proxy :: "u16 option"

record TerseNodeConfig =
  tn_couchbase_api_base :: "string option"
  tn_hostname :: "string option"
  tn_ports :: "TerseNodePorts option"

record TerseNodeExtConfig =
  services :: "TerseExtNodePorts option"
  this_node :: "bool option"
  ext_hostname :: "string option"
  alternate_addresses :: "string \<rightharpoonup> TerseExtNodeAltAddresses"

record TerseConfig =
  tc_rev :: int
  tc_rev_epoch :: "int option"
  tc_name :: "string option"
  tc_node_locator :: "string option"
  tc_uuid :: "string option"
  tc_uri :: "string option"
  tc_streaming_uri :: "string option"
  tc_bucket_capabilities_ver :: "string option"
  tc_bucket_capabilities :: "string list option"
  tc_collections_manifest_uuid :: "string option"
  tc_ddocs :: "ConfigDDocs option"
  tc_vbucket_server_map :: "VBucketServerMap option"
  tc_nodes :: "TerseNodeConfig list option"
  tc_nodes_ext :: "TerseNodeExtConfig list"
  tc_cluster_capabilities_ver :: "int list"
  tc_cluster_capabilities :: "string \<rightharpoonup> string list"

section \<open>Parsed configurations\<close>

datatype BucketType = Invalid | Couchbase

record ParsedConfigNodePorts =
  pn_kv :: "u16 option"
  pn_mgmt :: "u16 option"
  pn_analytics :: "u16 option"
  pn_query :: "u16 option"
  pn_search :: "u16 option"

definition no_ports :: ParsedConfigNodePorts where
  "no_ports = \<lparr>pn_kv = None, pn_mgmt = None, pn_analytics = None, pn_query = None, pn_search = None\<rparr>"

record ParsedConfigNodeAddresses =
  na_hostname :: string
  na_non_ssl_ports :: ParsedConfigNodePorts
  na_ssl_ports :: ParsedConfigNodePorts

record ParsedConfigNode =
  has_data :: bool
  addresses :: ParsedConfigNodeAddresses
  alt_addresses :: "string \<rightharpoonup> ParsedConfigNodeAddresses"

datatype ParsedConfigFeature = FtsVectorSearch | Unknown

datatype ParsedConfigBucketFeature =
    CreateAsDeleted | ReplaceBodyWithXattr | RangeScan | ReplicaRead | NonDedupedHistory
  | ReviveDocument | Unknown

definition bucket_feature_from :: "string \<Rightarrow> ParsedConfigBucketFeature" where
  "bucket_feature_from s =
    (if s = ''tombstonedUserXAttrs'' then CreateAsDeleted
     else if s = ''subdoc.ReplaceBodyWithXattr'' then ReplaceBodyWithXattr
     else if s = ''rangeScan'' then RangeScan
     else if s = ''subdoc.ReplicaRead'' then ReplicaRead
     else if s = ''nonDedupedHistory'' then NonDedupedHistory
     else if s = ''subdoc.ReviveDocument'' then ReviveDocument
     else ParsedConfigBucketFeature.Unknown)"

record ParsedConfigBucket =
  bucket_uuid :: string
  bucket_name :: string
  bucket_type :: BucketType
  pb_vbucket_map :: "VbucketMap option"
  pb_features :: "ParsedConfigBucketFeature list"

record ParsedConfig =
  pc_rev_id :: int
  pc_rev_epoch :: int
  pc_source_hostname :: string
  pc_bucket :: "ParsedConfigBucket option"
  pc_nodes :: "ParsedConfigNode list"
  pc_features :: "ParsedConfigFeature list"

definition parsed_config_default :: ParsedConfig where
  "parsed_config_default =
    \<lparr>pc_rev_id = - 1, pc_rev_epoch = 0, pc_source_hostname = [], pc_bucket = None, pc_nodes = [],
     pc_features = []\<rparr>"

definition is_versioned :: "ParsedConfig \<Rightarrow> bool" where
  "is_versioned self \<longleftrightarrow> pc_rev_epoch self > 0 \<and> pc_rev_id self > 0"

section \<open>Parser\<close>

definition parse_config_hostname :: "string option \<Rightarrow> string \<Rightarrow> string" where
  "parse_config_hostname hostname source_hostname =
    (case hostname of
       Some h \<Rightarrow> if CHR '':'' \<in> set h then ''['' @ h @ '']'' else h
     | None \<Rightarrow> source_hostname)"

definition parse_config_hosts_into :: "string \<Rightarrow> TerseExtNodePorts \<Rightarrow> ParsedConfigNodeAddresses" where
  "parse_config_hosts_into hostname ports =
    \<lparr>na_hostname = hostname,
     na_non_ssl_ports = \<lparr>pn_kv = tp_kv ports, pn_mgmt = tp_mgmt ports, pn_analytics = tp_cbas ports,
       pn_query = tp_n1ql ports, pn_search = tp_fts ports\<rparr>,
     na_ssl_ports = \<lparr>pn_kv = tp_kv_ssl ports, pn_mgmt = tp_mgmt_ssl ports,
       pn_analytics = tp_cbas_ssl ports, pn_query = tp_n1ql_ssl ports, pn_search = tp_fts_ssl ports\<rparr>\<rparr>"

definition parse_vbucket_server_map ::
    "VBucketServerMap option \<Rightarrow> (CoreError, VbucketMap option) result" where
  "parse_vbucket_server_map vbucket_server_map =
    (case vbucket_server_map of
       Some m \<Rightarrow>
         if vbucket_map m = [] then Err (core_error_new CoreErrorKind.NoVbucketMap)
         else and_then (vbucket_map_new (vbucket_map m) (num_replicas m)) (\<lambda>vm. Ok (Some vm))
     | None \<Rightarrow> Ok None)"

definition parse_node :: "nat \<Rightarrow> string \<Rightarrow> nat \<Rightarrow> TerseNodeExtConfig \<Rightarrow> ParsedConfigNode" where
  "parse_node len_nodes source_hostname node_idx node =
    (let node_hostname = parse_config_hostname (ext_hostname node) source_hostname in
     \<lparr>has_data = node_idx < len_nodes,
      addresses = parse_config_hosts_into node_hostname
        (unwrap_or terse_ports_default (services node)),
      alt_addresses = (\<lambda>network_type. map_option
        (\<lambda>alt. parse_config_hosts_into (parse_config_hostname (alt_hostname alt) node_hostname) (alt_ports alt))
        (alternate_addresses node network_type))\<rparr>)"

definition parse_bucket ::
    "TerseConfig \<Rightarrow> string \<Rightarrow> (CoreError, ParsedConfigBucket) result" where
  "parse_bucket config name =
    and_then
      (case tc_node_locator config of
         Some locator \<Rightarrow>
           if locator = ''vbucket''
           then and_then (parse_vbucket_server_map (tc_vbucket_server_map config)) (\<lambda>vm. Ok (Couchbase, vm))
           else Ok (Invalid, None)
       | None \<Rightarrow> Ok (Invalid, None))
      (\<lambda>(type, vm). Ok
        \<lparr>bucket_uuid = unwrap_or [] (tc_uuid config), bucket_name = name, bucket_type = type,
         pb_vbucket_map = vm,
         pb_features = filter (\<lambda>feat. feat \<noteq> ParsedConfigBucketFeature.Unknown)
           (map bucket_feature_from (unwrap_or [] (tc_bucket_capabilities config)))\<rparr>)"

definition parse_terse_config :: "TerseConfig \<Rightarrow> string \<Rightarrow> (CoreError, ParsedConfig) result" where
  "parse_terse_config config source_hostname =
    (let len_nodes = (case tc_nodes config of Some nodes \<Rightarrow> length nodes | None \<Rightarrow> 0);
         nodes = map (\<lambda>(node_idx, node). parse_node len_nodes source_hostname node_idx node)
           (enumerate 0 (tc_nodes_ext config)) in
     and_then
       (case tc_name config of
          Some name \<Rightarrow> and_then (parse_bucket config name) (\<lambda>b. Ok (Some b))
        | None \<Rightarrow> Ok None)
       (\<lambda>bucket. Ok
         \<lparr>pc_rev_id = tc_rev config, pc_rev_epoch = unwrap_or 0 (tc_rev_epoch config),
          pc_source_hostname = source_hostname, pc_bucket = bucket, pc_nodes = nodes,
          pc_features = (case tc_cluster_capabilities config ''search'' of
            Some caps \<Rightarrow> if ''vectorSearch'' \<in> set caps then [FtsVectorSearch] else []
          | None \<Rightarrow> [])\<rparr>))"

section \<open>Networks\<close>

record NetworkConfigNode =
  node_id :: string
  nc_hostname :: string
  nc_has_data :: bool
  nc_non_ssl_ports :: ParsedConfigNodePorts
  nc_ssl_ports :: ParsedConfigNodePorts

definition endpoint_node_id :: "string \<Rightarrow> u16 \<Rightarrow> string" where
  "endpoint_node_id hostname port = ''ep-'' @ hostname @ ''-'' @ show_nat (unat port)"

definition network_node :: "string \<Rightarrow> ParsedConfigNode \<Rightarrow> (CoreError, NetworkConfigNode) result" where
  "network_node network_type node =
    and_then (expect (pn_mgmt (na_non_ssl_ports (addresses node)))) (\<lambda>port.
      let ident = endpoint_node_id (na_hostname (addresses node)) port in
      Ok (if network_type = ''default'' then
            \<lparr>node_id = ident, nc_hostname = na_hostname (addresses node), nc_has_data = has_data node,
             nc_non_ssl_ports = na_non_ssl_ports (addresses node),
             nc_ssl_ports = na_ssl_ports (addresses node)\<rparr>
          else case alt_addresses node network_type of
            Some alt_info \<Rightarrow>
              \<lparr>node_id = ident, nc_hostname = na_hostname alt_info, nc_has_data = has_data node,
               nc_non_ssl_ports = na_non_ssl_ports alt_info, nc_ssl_ports = na_ssl_ports alt_info\<rparr>
          | None \<Rightarrow>
              \<lparr>node_id = ident, nc_hostname = [], nc_has_data = has_data node,
               nc_non_ssl_ports = no_ports, nc_ssl_ports = no_ports\<rparr>))"

fun network_nodes :: "string \<Rightarrow> ParsedConfigNode list \<Rightarrow> (CoreError, NetworkConfigNode list) result" where
  "network_nodes network_type [] = Ok []"
| "network_nodes network_type (node # nodes) =
    and_then (network_node network_type node) (\<lambda>n.
    and_then (network_nodes network_type nodes) (\<lambda>ns. Ok (n # ns)))"

definition addresses_group_for_network_type ::
    "string \<Rightarrow> ParsedConfig \<Rightarrow> (CoreError, NetworkConfigNode list) result" where
  "addresses_group_for_network_type network_type self = network_nodes network_type (pc_nodes self)"

definition host_port :: "string \<Rightarrow> u16 \<Rightarrow> string" where
  "host_port host port = host @ '':'' @ show_nat (unat port)"

definition node_contains_address :: "ParsedConfigNodeAddresses \<Rightarrow> string \<Rightarrow> bool" where
  "node_contains_address node addr =
    (let at = (\<lambda>port. case port of Some p \<Rightarrow> host_port (na_hostname node) p = addr | None \<Rightarrow> False) in
     at (pn_kv (na_non_ssl_ports node)) \<or> at (pn_mgmt (na_non_ssl_ports node))
     \<or> at (pn_kv (na_ssl_ports node)) \<or> at (pn_kv (na_ssl_ports node)))"

text \<open>\<open>alt_entries\<close> lists the entries of a node's alternate addresses in iteration order.\<close>

definition identify ::
    "(ParsedConfigNode \<Rightarrow> (string \<times> ParsedConfigNodeAddresses) list) \<Rightarrow> ParsedConfig \<Rightarrow> string" where
  "identify alt_entries config =
    (let source = pc_source_hostname config in
     if \<exists>node\<in>set (pc_nodes config). node_contains_address (addresses node) source then ''default''
     else case List.find (\<lambda>(_, alt_addrs). node_contains_address alt_addrs source)
            (concat (map alt_entries (pc_nodes config))) of
       Some (network_type, _) \<Rightarrow> network_type
     | None \<Rightarrow> ''default'')"

section \<open>Component settings\<close>

record Address =
  host :: string
  port :: u16

record 'tls KvTarget =
  kt_address :: Address
  kt_tls_config :: "'tls option"

type_synonym endpoints = "string \<rightharpoonup> string"

record ('tls, 'auth) AgentComponentConfigs =
  kv_targets :: "string \<rightharpoonup> 'tls KvTarget"
  cc_auth :: 'auth
  selected_bucket :: "string option"
  config_manager_endpoints :: "string list"
  vbucket_routing_info :: VbucketRoutingInfo
  analytics_endpoints :: endpoints
  query_endpoints :: endpoints
  search_endpoints :: endpoints
  vector_search_enabled :: bool
  mgmt_endpoints :: endpoints
  diagnostics_services :: "ServiceType list"
  diagnostics_rev_id :: int

definition node_ports :: "'tls option \<Rightarrow> NetworkConfigNode \<Rightarrow> ParsedConfigNodePorts" where
  "node_ports tls_config node =
    (if tls_config \<noteq> None then nc_ssl_ports node else nc_non_ssl_ports node)"

text \<open>One map per service, filled in the order of the nodes: a later node with the same id replaces an earlier one.\<close>

definition collect ::
    "string \<Rightarrow> (NetworkConfigNode \<Rightarrow> 'v option) \<Rightarrow> NetworkConfigNode list \<Rightarrow> (string \<rightharpoonup> 'v)" where
  "collect prefix entry nodes = foldl (\<lambda>m node. case entry node of
     Some v \<Rightarrow> m(prefix @ node_id node \<mapsto> v) | None \<Rightarrow> m) Map.empty nodes"

definition service_url ::
    "'tls option \<Rightarrow> (ParsedConfigNodePorts \<Rightarrow> u16 option) \<Rightarrow> NetworkConfigNode \<Rightarrow> string option" where
  "service_url tls_config service_port node =
    map_option (\<lambda>p. (if tls_config \<noteq> None then ''https://'' else ''http://'') @ host_port (nc_hostname node) p)
      (service_port (node_ports tls_config node))"

definition kv_data_host :: "'tls option \<Rightarrow> NetworkConfigNode \<Rightarrow> 'tls KvTarget option" where
  "kv_data_host tls_config node =
    map_option (\<lambda>p. \<lparr>kt_address = \<lparr>host = nc_hostname node, port = p\<rparr>, kt_tls_config = tls_config\<rparr>)
      (pn_kv (node_ports tls_config node))"

definition gen_from_config ::
    "ParsedConfig \<Rightarrow> string \<Rightarrow> 'tls option \<Rightarrow> string option \<Rightarrow> 'auth
      \<Rightarrow> (CoreError, ('tls, 'auth) AgentComponentConfigs) result" where
  "gen_from_config config network_type tls_config bucket authenticator =
    and_then (addresses_group_for_network_type network_type config) (\<lambda>nodes.
      let kv_data_node_ids = map (\<lambda>node. ''kv'' @ node_id node) (filter nc_has_data nodes);
          query = collect ''query'' (service_url tls_config pn_query) nodes;
          search = collect ''search'' (service_url tls_config pn_search) nodes in
      Ok \<lparr>kv_targets = collect ''kv'' (kv_data_host tls_config) nodes,
          cc_auth = authenticator,
          selected_bucket = bucket,
          config_manager_endpoints = map (\<lambda>node. ''kv'' @ node_id node) nodes,
          vbucket_routing_info =
            (case pc_bucket config of
               Some info \<Rightarrow> \<lparr>ri_vbucket_info = pb_vbucket_map info, ri_server_list = kv_data_node_ids,
                 ri_bucket_selected = True\<rparr>
             | None \<Rightarrow> \<lparr>ri_vbucket_info = None, ri_server_list = kv_data_node_ids,
                 ri_bucket_selected = False\<rparr>),
          analytics_endpoints = collect ''analytics'' (service_url tls_config pn_analytics) nodes,
          query_endpoints = query,
          search_endpoints = search,
          vector_search_enabled = (FtsVectorSearch \<in> set (pc_features config)),
          mgmt_endpoints = collect ''mgmt'' (service_url tls_config pn_mgmt) nodes,
          diagnostics_services = [ServiceType.Memd]
            @ (if query \<noteq> Map.empty then [ServiceType.Query] else [])
            @ (if search \<noteq> Map.empty then [ServiceType.Search] else []),
          diagnostics_rev_id = pc_rev_id config\<rparr>)"

section \<open>Facts about settings\<close>

lemma network_node_sel:
  assumes "network_node network_type node = Ok n"
  shows "nc_has_data n = has_data node"
    "\<exists>p. pn_mgmt (na_non_ssl_ports (addresses node)) = Some p
      \<and> node_id n = endpoint_node_id (na_hostname (addresses node)) p"
  using assms by (auto simp: network_node_def Let_def res_simps split: if_splits option.splits)

lemma network_node_outcome:
  "network_node network_type node = Panic \<longleftrightarrow> pn_mgmt (na_non_ssl_ports (addresses node)) = None"
  "network_node network_type node \<noteq> Err e"
  by (auto simp: network_node_def Let_def res_simps)

lemma network_nodes_outcome:
  "network_nodes network_type nodes = Panic
    \<longleftrightarrow> (\<exists>node\<in>set nodes. pn_mgmt (na_non_ssl_ports (addresses node)) = None)"
  "network_nodes network_type nodes \<noteq> Err e"
proof (induction nodes)
  case (Cons node nodes)
  { case 1 show ?case using Cons network_node_outcome [of network_type node]
      by (cases "network_node network_type node"; cases "network_nodes network_type nodes") auto
  next
    case 2 show ?case using Cons network_node_outcome [of network_type node]
      by (cases "network_node network_type node"; cases "network_nodes network_type nodes") auto }
qed simp_all

lemma network_nodes_all2:
  "network_nodes network_type nodes = Ok ns \<Longrightarrow> list_all2 (\<lambda>node n. network_node network_type node = Ok n) nodes ns"
  by (induction nodes arbitrary: ns) (auto simp: res_simps)

lemma dom_collect: "dom (collect prefix entry nodes) = {prefix @ node_id n | n. n \<in> set nodes \<and> entry n \<noteq> None}"
proof -
  have "dom (foldl (\<lambda>m n. case entry n of Some v \<Rightarrow> m(prefix @ node_id n \<mapsto> v) | None \<Rightarrow> m) m0 nodes)
    = dom m0 \<union> {prefix @ node_id n | n. n \<in> set nodes \<and> entry n \<noteq> None}" for m0
    by (induction nodes arbitrary: m0) (auto split: option.splits)
  then show ?thesis by (simp add: collect_def)
qed

lemma parse_terse_config_sel:
  assumes "parse_terse_config c source = Ok cfg"
  shows "pc_nodes cfg = map (\<lambda>(i, n). parse_node (length (unwrap_or [] (tc_nodes c))) source i n) (enumerate 0 (tc_nodes_ext c))"
    "\<And>b. pc_bucket cfg = Some b \<Longrightarrow> \<exists>name. tc_name c = Some name \<and> parse_bucket c name = Ok b"
  using assms by (auto simp: parse_terse_config_def Let_def res_simps split: option.splits)

lemma parse_bucket_map:
  assumes "parse_bucket c name = Ok b" and "pb_vbucket_map b = Some vm"
  shows "tc_node_locator c = Some ''vbucket''
    \<and> (\<exists>m. tc_vbucket_server_map c = Some m \<and> vm_entries vm = vbucket_map m \<and> vm_entries vm \<noteq> [])"
  using assms by (auto simp: parse_bucket_def parse_vbucket_server_map_def vbucket_map_new_def res_simps
      split: option.splits if_splits)

lemma filter_prefix:
  assumes "list_all2 (\<lambda>x y. Q y \<longleftrightarrow> P x) xs ys" and "xs = map f (enumerate k zs)"
    and "\<And>i z. P (f (i, z)) \<longleftrightarrow> i < k + n"
  shows "filter Q ys = take n ys"
  using assms
proof (induction zs arbitrary: k n xs ys)
  case (Cons z zs)
  then obtain y ys' where ys: "ys = y # ys'" "Q y \<longleftrightarrow> 0 < n"
    "list_all2 (\<lambda>x y. Q y \<longleftrightarrow> P x) (map f (enumerate (Suc k) zs)) ys'"
    by (auto simp: list_all2_Cons1)
  show ?case
  proof (cases n)
    case 0
    have "\<forall>y\<in>set ys'. \<not> Q y"
    proof
      fix y assume "y \<in> set ys'"
      then obtain j where "j < length ys'" "ys' ! j = y" by (auto simp: in_set_conv_nth)
      with ys(3) 0 Cons.prems(3) show "\<not> Q y"
        by (auto simp: list_all2_conv_all_nth nth_enumerate_eq)
    qed
    with 0 ys show ?thesis by simp
  next
    case (Suc m)
    then have "filter Q ys' = take m ys'"
      using Cons.IH [OF ys(3) refl, of m] Cons.prems(3) by simp
    with Suc ys show ?thesis by simp
  qed
qed simp

lemma data_nodes_first:
  assumes "parse_terse_config c source = Ok cfg" and "network_nodes network_type (pc_nodes cfg) = Ok ns"
  shows "filter nc_has_data ns = take (length (unwrap_or [] (tc_nodes c))) ns"
proof (rule filter_prefix [OF _ parse_terse_config_sel(1) [OF assms(1)]])
  show "list_all2 (\<lambda>x y. nc_has_data y = has_data x) (pc_nodes cfg) ns"
    by (rule list_all2_mono [OF network_nodes_all2 [OF assms(2)]]) (simp add: network_node_sel)
qed (simp add: parse_node_def Let_def)

lemma dispatch_by_key_Ok:
  assumes "dispatch_by_key crc32 (update_vbucket_info info router) key replica = Ok (ep, vb)"
  shows "ri_bucket_selected info" and "\<exists>vm i. ri_vbucket_info info = Some vm \<and> unat vb < length (vm_entries vm)
    \<and> unat replica < length (vm_entries vm ! unat vb) \<and> vm_entries vm ! unat vb ! unat replica = int i
    \<and> i < length (ri_server_list info) \<and> ep = ri_server_list info ! i"
proof -
  from assms show "ri_bucket_selected info"
    by (auto simp: dispatch_by_key_def update_vbucket_info_def split: if_splits)
  from assms obtain vm idx where "ri_vbucket_info info = Some vm" "node_by_vbucket vm vb replica = Ok idx"
    "idx \<ge> 0" "nat idx < length (ri_server_list info)" "ep = ri_server_list info ! nat idx"
    by (auto simp: dispatch_by_key_def update_vbucket_info_def get_vbucket_info_def Let_def res_simps
        split: if_splits option.splits)
  then show "\<exists>vm i. ri_vbucket_info info = Some vm \<and> unat vb < length (vm_entries vm)
    \<and> unat replica < length (vm_entries vm ! unat vb) \<and> vm_entries vm ! unat vb ! unat replica = int i
    \<and> i < length (ri_server_list info) \<and> ep = ri_server_list info ! i"
    by (intro exI [of _ vm] exI [of _ "nat idx"])
       (auto simp: node_by_vbucket_def Let_def split: if_splits)
qed

definition kv_endpoint :: "string \<Rightarrow> TerseNodeExtConfig \<Rightarrow> string option" where
  "kv_endpoint source node =
    map_option (\<lambda>p. ''kv'' @ endpoint_node_id (parse_config_hostname (ext_hostname node) source) p)
      (tp_mgmt (unwrap_or terse_ports_default (services node)))"

lemma kv_endpoint_node:
  assumes "parse_terse_config c source = Ok cfg" and "network_nodes network_type (pc_nodes cfg) = Ok ns"
    and "i < length ns"
  shows "i < length (tc_nodes_ext c) \<and> kv_endpoint source (tc_nodes_ext c ! i) = Some (''kv'' @ node_id (ns ! i))"
proof -
  note nodes = parse_terse_config_sel(1) [OF assms(1)]
  have len: "length ns = length (tc_nodes_ext c)"
    using network_nodes_all2 [OF assms(2)] nodes by (simp add: list_all2_lengthD [symmetric])
  have "network_node network_type (pc_nodes cfg ! i) = Ok (ns ! i)"
    using network_nodes_all2 [OF assms(2)] assms(3) by (simp add: list_all2_conv_all_nth)
  from network_node_sel(2) [OF this] show ?thesis
    using assms(3) len nodes
    by (auto simp: nth_enumerate_eq parse_node_def parse_config_hosts_into_def kv_endpoint_def Let_def)
qed

lemma parse_terse_config_not_Panic: "parse_terse_config c source \<noteq> Panic"
  by (auto simp: parse_terse_config_def parse_bucket_def parse_vbucket_server_map_def vbucket_map_new_def
      Let_def res_simps split: option.splits)

lemma settings_not_Err: "gen_from_config cfg network_type tls_config bucket auth \<noteq> Err e"
  by (simp add: gen_from_config_def addresses_group_for_network_type_def Let_def res_simps network_nodes_outcome)

lemma nodes_without_mgmt:
  "(\<exists>x\<in>set (enumerate k nodes). pn_mgmt (na_non_ssl_ports (addresses (case x of (i, node) \<Rightarrow> parse_node n source i node))) = None)
    \<longleftrightarrow> (\<exists>node\<in>set nodes. case services node of None \<Rightarrow> True | Some ports \<Rightarrow> tp_mgmt ports = None)"
  by (induction nodes arbitrary: k)
     (auto simp: parse_node_def parse_config_hosts_into_def terse_ports_default_def Let_def split: option.split)

section \<open>Properties\<close>

text \<open>
  C29. A key dispatched through the routing table that the agent installs for a cluster configuration
  goes to the server the configuration itself names: the entry of the vbucket map for the key's
  vbucket and replica is an index into both node lists of the configuration, and the endpoint is the
  one derived from that node. It is one of the endpoints the configuration poller uses.
\<close>

theorem config_routes_to_named_node:
  assumes "parse_terse_config c source = Ok cfg"
    and "gen_from_config cfg network_type tls_config bucket auth = Ok configs"
    and "dispatch_by_key crc32 (update_vbucket_info (vbucket_routing_info configs) router) key replica = Ok (ep, vb)"
  shows "\<exists>m i. tc_vbucket_server_map c = Some m \<and> unat vb < length (vbucket_map m)
    \<and> unat replica < length (vbucket_map m ! unat vb) \<and> vbucket_map m ! unat vb ! unat replica = int i
    \<and> i < length (unwrap_or [] (tc_nodes c)) \<and> i < length (tc_nodes_ext c)
    \<and> kv_endpoint source (tc_nodes_ext c ! i) = Some ep \<and> ep \<in> set (config_manager_endpoints configs)"
proof -
  obtain ns where ns: "network_nodes network_type (pc_nodes cfg) = Ok ns"
    and eps: "config_manager_endpoints configs = map (\<lambda>n. ''kv'' @ node_id n) ns"
    and servers: "ri_server_list (vbucket_routing_info configs) = map (\<lambda>n. ''kv'' @ node_id n) (filter nc_has_data ns)"
    and info: "\<And>vm. ri_vbucket_info (vbucket_routing_info configs) = Some vm
      \<Longrightarrow> \<exists>b. pc_bucket cfg = Some b \<and> pb_vbucket_map b = Some vm"
    using assms(2) by (auto simp: gen_from_config_def addresses_group_for_network_type_def Let_def res_simps
        split: option.splits)
  from dispatch_by_key_Ok(2) [OF assms(3)] obtain vm i where
    d: "ri_vbucket_info (vbucket_routing_info configs) = Some vm" "unat vb < length (vm_entries vm)"
      "unat replica < length (vm_entries vm ! unat vb)" "vm_entries vm ! unat vb ! unat replica = int i"
      "i < length (take (length (unwrap_or [] (tc_nodes c))) ns)"
      "ep = ''kv'' @ node_id (ns ! i)"
    unfolding servers data_nodes_first [OF assms(1) ns] by auto
  from info [OF d(1)] parse_terse_config_sel(2) [OF assms(1)] parse_bucket_map
  obtain m where "tc_vbucket_server_map c = Some m" "vm_entries vm = vbucket_map m" by blast
  with d kv_endpoint_node [OF assms(1) ns, of i] eps show ?thesis
    by (intro exI [of _ m] exI [of _ i]) auto
qed

definition sample_ports :: TerseExtNodePorts where
  "sample_ports = terse_ports_default\<lparr>tp_kv := Some 11210, tp_mgmt := Some 8091\<rparr>"

definition sample_node :: "string \<Rightarrow> TerseNodeExtConfig" where
  "sample_node h = \<lparr>services = Some sample_ports, this_node = None, ext_hostname = Some h,
     alternate_addresses = Map.empty\<rparr>"

definition sample_terse :: "int \<Rightarrow> TerseConfig" where
  "sample_terse revision =
    \<lparr>tc_rev = revision, tc_rev_epoch = Some 1, tc_name = Some ''b'', tc_node_locator = Some ''vbucket'',
     tc_uuid = None, tc_uri = None, tc_streaming_uri = None, tc_bucket_capabilities_ver = None,
     tc_bucket_capabilities = None, tc_collections_manifest_uuid = None, tc_ddocs = None,
     tc_vbucket_server_map = Some \<lparr>hash_algorithm = ''CRC'', num_replicas = 0, server_list = [],
       vbucket_map = [[0], [1]]\<rparr>,
     tc_nodes = Some (replicate 2 \<lparr>tn_couchbase_api_base = None, tn_hostname = None, tn_ports = None\<rparr>),
     tc_nodes_ext = [sample_node ''x'', sample_node ''y''],
     tc_cluster_capabilities_ver = [], tc_cluster_capabilities = Map.empty\<rparr>"

definition sample_config_from :: "string \<Rightarrow> int \<Rightarrow> ParsedConfig" where
  "sample_config_from source revision =
    (case parse_terse_config (sample_terse revision) source of Ok cfg \<Rightarrow> cfg | _ \<Rightarrow> parsed_config_default)"

abbreviation sample_config :: "int \<Rightarrow> ParsedConfig" where
  "sample_config \<equiv> sample_config_from ''h''"

lemmas sample_defs = sample_ports_def sample_node_def sample_terse_def terse_ports_default_def


lemma sample_parse: "parse_terse_config (sample_terse revision) source = Ok (sample_config_from source revision)"
  by (simp add: sample_config_from_def parse_terse_config_def parse_bucket_def parse_vbucket_server_map_def
      vbucket_map_new_def sample_defs Let_def)

lemma sample_config_sel:
  "pc_rev_id (sample_config_from source revision) = revision" "pc_rev_epoch (sample_config_from source revision) = 1"
  "pc_bucket (sample_config_from source revision) = Some \<lparr>bucket_uuid = [], bucket_name = ''b'', bucket_type = Couchbase,
     pb_vbucket_map = Some \<lparr>vm_entries = [[0], [1]], vm_num_replicas = 0\<rparr>, pb_features = []\<rparr>"
  by (simp_all add: sample_config_from_def parse_terse_config_def parse_bucket_def parse_vbucket_server_map_def
      vbucket_map_new_def sample_terse_def Let_def)

lemma sample_config_nodes:
  "pc_nodes (sample_config_from source revision) = [parse_node 2 source 0 (sample_node ''x''), parse_node 2 source 1 (sample_node ''y'')]"
  by (simp add: sample_config_from_def parse_terse_config_def parse_bucket_def parse_vbucket_server_map_def
      vbucket_map_new_def sample_terse_def Let_def numeral_2_eq_2)

lemma sample_network:
  "network_nodes ''default'' (pc_nodes (sample_config_from source revision)) = Ok
    [\<lparr>node_id = ''ep-x-8091'', nc_hostname = ''x'', nc_has_data = True,
      nc_non_ssl_ports = no_ports\<lparr>pn_kv := Some 11210, pn_mgmt := Some 8091\<rparr>, nc_ssl_ports = no_ports\<rparr>,
     \<lparr>node_id = ''ep-y-8091'', nc_hostname = ''y'', nc_has_data = True,
      nc_non_ssl_ports = no_ports\<lparr>pn_kv := Some 11210, pn_mgmt := Some 8091\<rparr>, nc_ssl_ports = no_ports\<rparr>]"
  by (simp add: sample_config_nodes network_node_def parse_node_def sample_defs parse_config_hostname_def
      parse_config_hosts_into_def endpoint_node_id_def show_nat.simps char_of_def bit_0 no_ports_def Let_def)

theorem config_routes_to_named_node_witness:
  "\<exists>configs :: (unit, unit) AgentComponentConfigs.
     gen_from_config (sample_config 1) ''default'' (None :: unit option) None () = Ok configs
     \<and> dispatch_by_key (\<lambda>_. 0x10000) (update_vbucket_info (vbucket_routing_info configs)
         (vbucket_router_new \<lparr>ri_vbucket_info = None, ri_server_list = [], ri_bucket_selected = False\<rparr>)) [1] 0
       = Ok (''kvep-y-8091'', 1)
     \<and> kv_endpoint ''h'' (sample_node ''y'') = Some ''kvep-y-8091''"
proof -
  let ?r = "vbucket_router_new \<lparr>ri_vbucket_info = None, ri_server_list = [], ri_bucket_selected = False\<rparr>"
  obtain configs :: "(unit, unit) AgentComponentConfigs" where
    g: "gen_from_config (sample_config 1) ''default'' (None :: unit option) None () = Ok configs"
    and i: "vbucket_routing_info configs = \<lparr>ri_vbucket_info = Some \<lparr>vm_entries = [[0], [1]], vm_num_replicas = 0\<rparr>,
      ri_server_list = [''kvep-x-8091'', ''kvep-y-8091''], ri_bucket_selected = True\<rparr>"
    by (simp add: gen_from_config_def addresses_group_for_network_type_def sample_network sample_config_sel Let_def)
  have d: "dispatch_by_key (\<lambda>_. 0x10000) (update_vbucket_info (vbucket_routing_info configs) ?r) [1] 0
      = Ok (''kvep-y-8091'', 1)"
    by (simp add: i dispatch_by_key_def update_vbucket_info_def vbucket_router_new_def get_vbucket_info_def
        vbucket_by_key_def node_by_vbucket_def Let_def)
  from config_routes_to_named_node [OF sample_parse g d] g d show ?thesis
    by (auto simp: sample_terse_def)
qed

text \<open>
  Computing the component settings never returns an error, and it panics exactly when some node
  of the configuration has no plain management port, for instance a node without a list of services.
\<close>

theorem settings_panic_iff:
  "(gen_from_config cfg network_type tls_config bucket auth = Panic
      \<longleftrightarrow> (\<exists>node\<in>set (pc_nodes cfg). pn_mgmt (na_non_ssl_ports (addresses node)) = None))
    \<and> gen_from_config cfg network_type tls_config bucket auth \<noteq> Err e
    \<and> (and_then (parse_terse_config c source) (\<lambda>cfg. gen_from_config cfg network_type tls_config bucket auth) = Panic
      \<longleftrightarrow> is_ok (parse_terse_config c source) \<and> (\<exists>node\<in>set (tc_nodes_ext c).
        case services node of None \<Rightarrow> True | Some ports \<Rightarrow> tp_mgmt ports = None))"
proof -
  have 1: "gen_from_config cfg network_type tls_config bucket auth = Panic
      \<longleftrightarrow> (\<exists>node\<in>set (pc_nodes cfg). pn_mgmt (na_non_ssl_ports (addresses node)) = None)" for cfg
    by (simp add: gen_from_config_def addresses_group_for_network_type_def Let_def res_simps network_nodes_outcome)
  have "(\<exists>node\<in>set (pc_nodes cfg). pn_mgmt (na_non_ssl_ports (addresses node)) = None)
      \<longleftrightarrow> (\<exists>node\<in>set (tc_nodes_ext c). case services node of None \<Rightarrow> True | Some ports \<Rightarrow> tp_mgmt ports = None)"
    if "parse_terse_config c source = Ok cfg" for cfg
    using parse_terse_config_sel(1) [OF that] by (simp add: nodes_without_mgmt)
  then show ?thesis
    using 1 by (cases "parse_terse_config c source") (simp_all add: parse_terse_config_not_Panic settings_not_Err)
qed

text \<open>
  The network is the default one when the configuration was fetched from an address the cluster
  itself uses. Otherwise it is a network under which some node announces that address, in whatever
  order the alternate addresses are visited, and the default one when there is none.
\<close>

theorem identify_network:
  assumes "\<And>node. node \<in> set (pc_nodes cfg) \<Longrightarrow>
    set (alt_entries node) = {(k, a). alt_addresses node k = Some a}"
  shows "(\<exists>node\<in>set (pc_nodes cfg). node_contains_address (addresses node) (pc_source_hostname cfg))
      \<and> identify alt_entries cfg = ''default''
    \<or> (\<exists>node\<in>set (pc_nodes cfg). \<exists>a. alt_addresses node (identify alt_entries cfg) = Some a
        \<and> node_contains_address a (pc_source_hostname cfg))
    \<or> (\<nexists>node k a. node \<in> set (pc_nodes cfg) \<and> alt_addresses node k = Some a
        \<and> node_contains_address a (pc_source_hostname cfg)) \<and> identify alt_entries cfg = ''default''"
proof (cases "\<exists>node\<in>set (pc_nodes cfg). node_contains_address (addresses node) (pc_source_hostname cfg)")
  case False
  let ?P = "\<lambda>(_, alt_addrs). node_contains_address alt_addrs (pc_source_hostname cfg)"
  let ?es = "concat (map alt_entries (pc_nodes cfg))"
  have es: "set ?es = {(k, a). \<exists>node\<in>set (pc_nodes cfg). alt_addresses node k = Some a}"
    using assms by auto
  show ?thesis
  proof (cases "List.find ?P ?es")
    case None
    with False have "identify alt_entries cfg = ''default''" by (simp add: identify_def)
    moreover have "\<forall>x\<in>set ?es. \<not> ?P x" using None by (simp only: find_None_iff) blast
    ultimately show ?thesis unfolding es by blast
  next
    case (Some x)
    obtain k a where x: "x = (k, a)" by force
    then have "identify alt_entries cfg = k" using Some False by (simp add: identify_def)
    moreover have "(k, a) \<in> set ?es" "node_contains_address a (pc_source_hostname cfg)"
      using Some x by (auto simp: find_Some_iff simp del: set_concat dest: nth_mem)
    ultimately show ?thesis unfolding es by blast
  qed
qed (simp add: identify_def)


definition sample_alt :: ParsedConfigNodeAddresses where
  "sample_alt = \<lparr>na_hostname = ''a'', na_non_ssl_ports = no_ports\<lparr>pn_kv := Some 1\<rparr>, na_ssl_ports = no_ports\<rparr>"

definition sample_external :: ParsedConfig where
  "sample_external = parsed_config_default\<lparr>pc_source_hostname := ''a:1'', pc_nodes :=
    [\<lparr>has_data = True, addresses = parse_config_hosts_into ''x'' sample_ports, alt_addresses = [''external'' \<mapsto> sample_alt]\<rparr>]\<rparr>"

theorem identify_network_witness:
  "identify (\<lambda>_. [(''external'', sample_alt)]) sample_external = ''external''
    \<and> node_contains_address sample_alt ''a:1''"
proof -
  have a: "node_contains_address sample_alt ''a:1''"
    by (simp add: node_contains_address_def sample_alt_def host_port_def show_nat.simps char_of_def bit_0 no_ports_def Let_def)
  have x: "\<not> node_contains_address (parse_config_hosts_into ''x'' sample_ports) ''a:1''"
    by (simp add: node_contains_address_def parse_config_hosts_into_def host_port_def sample_defs)
  have "set [(''external'', sample_alt)] = {(k, a). alt_addresses node k = Some a}"
    if "node \<in> set (pc_nodes sample_external)" for node
    using that by (auto simp: sample_external_def split: if_splits)
  from identify_network [of sample_external "\<lambda>_. [(''external'', sample_alt)]", OF this] a x show ?thesis
    by (simp add: sample_external_def split: if_splits)
qed

end
