(* ===== verification/Config_Manager.thy ===== *)
theory Config_Manager
  imports Config Transition "HOL-Library.Multiset"
begin

text \<open>
  Choosing and installing configurations: the fetcher (\<^verbatim>\<open>configfetcher.rs\<close>, \<^verbatim>\<open>cbconfig/parse.rs\<close>), the
  poller (\<^verbatim>\<open>configwatcher.rs\<close>), the manager that keeps the newest configuration
  (\<^verbatim>\<open>configmanager.rs\<close>) and the part of the agent that applies one (\<^verbatim>\<open>agent.rs\<close>). A manager step is the
  work done while its lock is held; what follows the release of the lock is a separate step, so that
  the tasks that deliver configurations interleave.
\<close>

section \<open>Versions\<close>

datatype ConfigVersion = ConfigVersion (cv_rev_epoch: int) (cv_rev_id: int)

instantiation ConfigVersion :: linorder
begin

definition less_eq_ConfigVersion :: "ConfigVersion \<Rightarrow> ConfigVersion \<Rightarrow> bool" where
  "less_eq_ConfigVersion a b \<longleftrightarrow>
    cv_rev_epoch a < cv_rev_epoch b \<or> cv_rev_epoch a = cv_rev_epoch b \<and> cv_rev_id a \<le> cv_rev_id b"

definition less_ConfigVersion :: "ConfigVersion \<Rightarrow> ConfigVersion \<Rightarrow> bool" where
  "less_ConfigVersion a b \<longleftrightarrow>
    cv_rev_epoch a < cv_rev_epoch b \<or> cv_rev_epoch a = cv_rev_epoch b \<and> cv_rev_id a < cv_rev_id b"

instance
  by standard (auto simp: less_eq_ConfigVersion_def less_ConfigVersion_def ConfigVersion.expand)

end

definition config_version :: "ParsedConfig \<Rightarrow> ConfigVersion" where
  "config_version cfg = ConfigVersion (pc_rev_epoch cfg) (pc_rev_id cfg)"

datatype Ordering = Less | Equal | Greater

definition cmp :: "int \<Rightarrow> int \<Rightarrow> Ordering" where
  "cmp a b = (if a < b then Less else if a = b then Equal else Greater)"

definition partial_cmp :: "ParsedConfig \<Rightarrow> ParsedConfig \<Rightarrow> Ordering option" where
  "partial_cmp self other =
    (case cmp (pc_rev_epoch self) (pc_rev_epoch other) of
       Less \<Rightarrow> Some Less
     | Greater \<Rightarrow> Some Greater
     | Equal \<Rightarrow>
         (case cmp (pc_rev_id self) (pc_rev_id other) of
            Less \<Rightarrow> Some Less
          | Greater \<Rightarrow> Some Greater
          | Equal \<Rightarrow> Some Equal))"

section \<open>Fetcher\<close>

text \<open>
  \<open>json\<close> is the JSON decoder, \<open>utf8_error\<close> the text of the standard library's UTF-8 error. A client
  is represented by what the fetcher asks of it; a request that times out has no answer.
\<close>

definition parse_config_bytes ::
    "(bytes \<Rightarrow> string) \<Rightarrow> (string \<Rightarrow> string + TerseConfig) \<Rightarrow> bytes \<Rightarrow> string \<Rightarrow> (CoreError, TerseConfig) result" where
  "parse_config_bytes utf8_error json config source_hostname =
    (if \<not> utf8_valid config
     then Err (core_message_error (''failed to parse terse config: '' @ utf8_error config))
     else case json (str_replace ''$HOST'' source_hostname (from_utf8 config)) of
       Inl e \<Rightarrow> Err (core_message_error (''failed to parse terse config: '' @ e))
     | Inr config_out \<Rightarrow> Ok config_out)"

record fetch_client =
  remote_hostname :: string
  has_feature :: "HelloFeature \<Rightarrow> bool"
  fc_get_cluster_config :: "ConfigVersion option \<Rightarrow> (MemdxError, bytes) result option"

definition poll_one ::
    "(bytes \<Rightarrow> string) \<Rightarrow> (string \<Rightarrow> string + TerseConfig) \<Rightarrow> (string \<Rightarrow> (CoreError, fetch_client) result)
      \<Rightarrow> string \<Rightarrow> int \<Rightarrow> int \<Rightarrow> (fetch_client \<Rightarrow> bool) \<Rightarrow> (CoreError, ParsedConfig option) result" where
  "poll_one utf8_error json get_endpoint_client endpoint rev_id rev_epoch skip_fetch_cb =
    and_then (get_endpoint_client endpoint) (\<lambda>client.
    if skip_fetch_cb client then Ok None
    else
      let hostname = remote_hostname client;
          known_version = (if rev_id > 0 \<and> has_feature client HelloFeature.ClusterMapKnownVersion
            then Some (ConfigVersion rev_epoch rev_id) else None) in
      case fc_get_cluster_config client known_version of
        None \<Rightarrow> Err (core_message_error ''get cluster config timed out'')
      | Some reply \<Rightarrow>
          and_then (map_err new_contextual_memdx_error reply) (\<lambda>config.
          if config = [] then Ok None
          else
            and_then (parse_config_bytes utf8_error json config hostname) (\<lambda>terse.
            and_then (parse_terse_config terse hostname) (\<lambda>cfg. Ok (Some cfg)))))"

section \<open>Poller\<close>

text \<open>One turn of the loop of \<^verbatim>\<open>ConfigWatcherMemdInner::watch\<close>; \<open>poll\<close> is the fetcher at that turn.\<close>

record WatchState =
  ws_recent_endpoints :: "string list"
  ws_all_endpoints_failed :: bool

datatype WatchAction =
    NoEndpoints
  | SweepDone bool
  | PollFailed string CoreError
  | Polled string "ParsedConfig option"
  | Crashed string

definition watch_start :: WatchState where
  "watch_start = \<lparr>ws_recent_endpoints = [], ws_all_endpoints_failed = True\<rparr>"

definition watch_turn ::
    "string list \<Rightarrow> (string \<Rightarrow> (CoreError, ParsedConfig option) result) \<Rightarrow> WatchState \<Rightarrow> WatchAction \<times> WatchState" where
  "watch_turn endpoints poll ws =
    (if endpoints = [] then (NoEndpoints, ws)
     else case filter (\<lambda>endpoint. endpoint \<notin> set (ws_recent_endpoints ws)) endpoints of
       [] \<Rightarrow> (SweepDone (ws_all_endpoints_failed ws), \<lparr>ws_recent_endpoints = [], ws_all_endpoints_failed = True\<rparr>)
     | endpoint # _ \<Rightarrow>
         let ws = ws\<lparr>ws_recent_endpoints := ws_recent_endpoints ws @ [endpoint]\<rparr> in
         (case poll endpoint of
            Ok parsed_config \<Rightarrow> (Polled endpoint parsed_config, ws\<lparr>ws_all_endpoints_failed := False\<rparr>)
          | Err e \<Rightarrow> (PollFailed endpoint e, ws)
          | Panic \<Rightarrow> (Crashed endpoint, ws)))"

fun watch_turns ::
    "string list \<Rightarrow> (string \<Rightarrow> (CoreError, ParsedConfig option) result) list \<Rightarrow> WatchState
      \<Rightarrow> WatchAction list \<times> WatchState" where
  "watch_turns endpoints [] ws = ([], ws)"
| "watch_turns endpoints (poll # polls) ws =
    (let (a, ws') = watch_turn endpoints poll ws; (acts, ws'') = watch_turns endpoints polls ws' in
     (a # acts, ws''))"

fun polled_endpoint :: "WatchAction \<Rightarrow> string option" where
  "polled_endpoint (PollFailed ep e) = Some ep"
| "polled_endpoint (Polled ep c) = Some ep"
| "polled_endpoint _ = None"

section \<open>Manager\<close>

record ConfigManager =
  cm_latest_config :: ParsedConfig
  cm_latest_version :: ConfigVersion
  cm_on_new_config :: ParsedConfig
  cm_performing_out_of_band_fetch :: bool
  cm_watcher_endpoints :: "string list"

definition config_manager_new :: "string list \<Rightarrow> ParsedConfig \<Rightarrow> ConfigManager" where
  "config_manager_new endpoints first_config =
    \<lparr>cm_latest_config = first_config, cm_latest_version = config_version first_config,
     cm_on_new_config = first_config, cm_performing_out_of_band_fetch = False,
     cm_watcher_endpoints = endpoints\<rparr>"

definition config_manager_reconfigure :: "string list \<Rightarrow> ConfigManager \<Rightarrow> ConfigManager" where
  "config_manager_reconfigure endpoints self = self\<lparr>cm_watcher_endpoints := endpoints\<rparr>"

definition bucket_type_changed :: "ParsedConfigBucket option \<Rightarrow> ParsedConfigBucket option \<Rightarrow> bool" where
  "bucket_type_changed a b =
    (case (a, b) of
       (None, None) \<Rightarrow> False
     | (Some _, None) \<Rightarrow> True
     | (None, Some _) \<Rightarrow> True
     | (Some a_bucket, Some b_bucket) \<Rightarrow> bucket_type a_bucket \<noteq> bucket_type b_bucket)"

definition can_update_config :: "ParsedConfig \<Rightarrow> ParsedConfig \<Rightarrow> bool" where
  "can_update_config new_config old_config =
    (if bucket_type_changed (pc_bucket new_config) (pc_bucket old_config) then True
     else case partial_cmp new_config old_config of
       Some c \<Rightarrow> if c = Less then False else if c = Equal then False else True
     | None \<Rightarrow> False)"

text \<open>\<open>handle_config_locked\<close> is the part of \<^verbatim>\<open>handle_config\<close> under the lock, \<open>send_version\<close> what follows.\<close>

definition handle_config_locked :: "ParsedConfig \<Rightarrow> ConfigManager \<Rightarrow> bool \<times> ConfigManager" where
  "handle_config_locked parsed_config self =
    (if can_update_config parsed_config (cm_latest_config self)
     then (True, self\<lparr>cm_latest_config := parsed_config\<rparr>) else (False, self))"

definition send_version :: "ParsedConfig \<Rightarrow> ConfigManager \<Rightarrow> ConfigManager" where
  "send_version parsed_config self = self\<lparr>cm_latest_version := config_version parsed_config\<rparr>"

definition handle_config :: "ParsedConfig \<Rightarrow> ConfigManager \<Rightarrow> ParsedConfig option \<times> ConfigManager" where
  "handle_config parsed_config self =
    (case handle_config_locked parsed_config self of
       (True, st) \<Rightarrow> (Some parsed_config, send_version parsed_config st)
     | (False, st) \<Rightarrow> (None, st))"

definition out_of_band_config :: "ParsedConfig \<Rightarrow> ConfigManager \<Rightarrow> ParsedConfig option \<times> ConfigManager" where
  "out_of_band_config parsed_config self = handle_config parsed_config self"

definition on_watcher_config :: "ParsedConfig \<Rightarrow> ConfigManager \<Rightarrow> ConfigManager" where
  "on_watcher_config cfg self =
    (case handle_config cfg self of
       (Some new_cfg, st) \<Rightarrow> st\<lparr>cm_on_new_config := new_cfg\<rparr>
     | (None, st) \<Rightarrow> st)"

text \<open>\<^verbatim>\<open>AtomicBool::compare_exchange\<close>: the previous value, as \<open>Ok\<close> if it was the expected one.\<close>

definition compare_exchange :: "bool \<Rightarrow> bool \<Rightarrow> bool \<Rightarrow> (bool, bool) result \<times> bool" where
  "compare_exchange current new cell = (if cell = current then (Ok cell, new) else (Err cell, cell))"

datatype FetchDecision = AlreadyNewer | WaitForOther | FetchNow int int

definition out_of_band_begin :: "int \<Rightarrow> int \<Rightarrow> ConfigManager \<Rightarrow> FetchDecision \<times> ConfigManager" where
  "out_of_band_begin rev_id rev_epoch self =
    (let latest_rev_epoch = pc_rev_epoch (cm_latest_config self);
         latest_rev_id = pc_rev_id (cm_latest_config self) in
     if rev_epoch < latest_rev_epoch \<or> rev_epoch = latest_rev_epoch \<and> rev_id \<le> latest_rev_id
     then (AlreadyNewer, self)
     else
       let (r, flag) = compare_exchange False True (cm_performing_out_of_band_fetch self);
           st = self\<lparr>cm_performing_out_of_band_fetch := flag\<rparr> in
       if r = Ok True then (WaitForOther, st) else (FetchNow latest_rev_id latest_rev_epoch, st))"

definition out_of_band_end ::
    "(CoreError, ParsedConfig option) result \<Rightarrow> ConfigManager \<Rightarrow> (CoreError, ParsedConfig option) result \<times> ConfigManager" where
  "out_of_band_end fetched self =
    (case fetched of
       Panic \<Rightarrow> (Panic, self)
     | Err _ \<Rightarrow> (Ok None, self)
     | Ok None \<Rightarrow> (Ok None, self\<lparr>cm_performing_out_of_band_fetch := False\<rparr>)
     | Ok (Some parsed_config) \<Rightarrow>
         (case handle_config parsed_config self of
            (Some cfg, st) \<Rightarrow> (Ok (Some cfg), st\<lparr>cm_performing_out_of_band_fetch := False\<rparr>)
          | (None, st) \<Rightarrow> (Ok None, st\<lparr>cm_performing_out_of_band_fetch := False\<rparr>)))"

text \<open>An uninterrupted call; waiting for another fetch is a call that does not return (\<open>None\<close>).\<close>

definition perform_out_of_band_fetch ::
    "(string \<Rightarrow> int \<Rightarrow> int \<Rightarrow> (CoreError, ParsedConfig option) result) \<Rightarrow> int \<Rightarrow> int \<Rightarrow> string \<Rightarrow> ConfigManager
      \<Rightarrow> (CoreError, ParsedConfig option) result option \<times> ConfigManager" where
  "perform_out_of_band_fetch poll rev_id rev_epoch endpoint_id self =
    (case out_of_band_begin rev_id rev_epoch self of
       (AlreadyNewer, st) \<Rightarrow> (Some (Ok None), st)
     | (WaitForOther, st) \<Rightarrow> (None, st)
     | (FetchNow known_rev_id known_rev_epoch, st) \<Rightarrow>
         (case out_of_band_end (poll endpoint_id known_rev_id known_rev_epoch) st of (r, st') \<Rightarrow> (Some r, st')))"

section \<open>Agent\<close>

text \<open>
  The agent's own copy of the configuration and the components it reconfigures. The calls to the
  connection manager are recorded in order (\<open>True\<close>: endpoints are only added); \<open>ag_components\<close> are
  the settings last given to the HTTP services and diagnostics.
\<close>

record ('tls, 'auth) Agent =
  ag_latest_config :: ParsedConfig
  ag_network_type :: string
  ag_tls_config :: "'tls option"
  ag_bucket :: "string option"
  ag_authenticator :: 'auth
  ag_cfg_manager :: ConfigManager
  ag_vb_router :: StdVbucketRouter
  ag_update_endpoints :: "((string \<rightharpoonup> 'tls KvTarget) \<times> bool) list"
  ag_components :: "('tls, 'auth) AgentComponentConfigs option"

definition update_state_locked ::
    "('tls, 'auth) Agent \<Rightarrow> (CoreError, unit) result \<times> ('tls, 'auth) Agent" where
  "update_state_locked self =
    (case gen_from_config (ag_latest_config self) (ag_network_type self) (ag_tls_config self) (ag_bucket self)
            (ag_authenticator self) of
       Panic \<Rightarrow> (Panic, self)
     | Err e \<Rightarrow> (Err e, self)
     | Ok configs \<Rightarrow> (Ok (), self
         \<lparr>ag_vb_router := update_vbucket_info (vbucket_routing_info configs) (ag_vb_router self),
          ag_cfg_manager := config_manager_reconfigure (config_manager_endpoints configs) (ag_cfg_manager self),
          ag_update_endpoints := ag_update_endpoints self @ [(kv_targets configs, True), (kv_targets configs, False)],
          ag_components := Some configs\<rparr>))"

definition apply_config ::
    "ParsedConfig \<Rightarrow> ('tls, 'auth) Agent \<Rightarrow> (CoreError, unit) result \<times> ('tls, 'auth) Agent" where
  "apply_config config self = update_state_locked (self\<lparr>ag_latest_config := config\<rparr>)"

definition apply_terse_config ::
    "TerseConfig \<Rightarrow> string \<Rightarrow> ('tls, 'auth) Agent \<Rightarrow> (CoreError, unit) result \<times> ('tls, 'auth) Agent" where
  "apply_terse_config config source_hostname self =
    (case parse_terse_config config source_hostname of
       Panic \<Rightarrow> (Panic, self)
     | Err _ \<Rightarrow> (Ok (), self)
     | Ok parsed_config \<Rightarrow>
         (case out_of_band_config parsed_config (ag_cfg_manager self) of
            (Some cfg, manager) \<Rightarrow> apply_config cfg (self\<lparr>ag_cfg_manager := manager\<rparr>)
          | (None, manager) \<Rightarrow> (Ok (), self\<lparr>ag_cfg_manager := manager\<rparr>)))"

text \<open>
  The server announces a new version in the extras of an unsolicited \<^verbatim>\<open>Set\<close> packet: two big-endian
  signed 64-bit integers, epoch first. \<open>None\<close> is a handler that never returns.
\<close>

definition read_i64 :: "bytes \<Rightarrow> int" where
  "read_i64 bs = sint (u64_from_be (take 8 bs))"

definition unsolicited_packet_handler ::
    "(string \<Rightarrow> int \<Rightarrow> int \<Rightarrow> (CoreError, ParsedConfig option) result) \<Rightarrow> ResponsePacket \<Rightarrow> string
      \<Rightarrow> ('tls, 'auth) Agent \<Rightarrow> (CoreError, unit) result option \<times> ('tls, 'auth) Agent" where
  "unsolicited_packet_handler poll packet endpoint_id self =
    (if rp_op_code packet \<noteq> OpCode.Set then (Some (Ok ()), self)
     else case rp_extras packet of
       None \<Rightarrow> (Some (Ok ()), self)
     | Some ext \<Rightarrow>
         if length ext < 16 then (Some (Ok ()), self)
         else
           (case perform_out_of_band_fetch poll (read_i64 (drop 8 ext)) (read_i64 ext) endpoint_id (ag_cfg_manager self) of
              (None, manager) \<Rightarrow> (None, self\<lparr>ag_cfg_manager := manager\<rparr>)
            | (Some Panic, manager) \<Rightarrow> (Some Panic, self\<lparr>ag_cfg_manager := manager\<rparr>)
            | (Some (Ok (Some config)), manager) \<Rightarrow>
                (case apply_config config (self\<lparr>ag_cfg_manager := manager\<rparr>) of (r, st) \<Rightarrow> (Some r, st))
            | (Some _, manager) \<Rightarrow> (Some (Ok ()), self\<lparr>ag_cfg_manager := manager\<rparr>)))"

section \<open>Interleaved deliveries\<close>

text \<open>
  Configurations arrive from the poller and, out of band, from any number of concurrent operations.
  A delivery that installed a configuration still has to announce its version and to hand it to
  the agent, directly or, for the poller, through a channel that holds the last one published.
  \<open>cs_installed\<close> records the configurations installed in the manager, latest first.
\<close>

datatype task = SendVersion bool ParsedConfig | Publish ParsedConfig | Apply bool ParsedConfig

record config_system =
  cs_manager :: ConfigManager
  cs_tasks :: "task multiset"
  cs_changed :: bool
  cs_applied :: ParsedConfig
  cs_installed :: "ParsedConfig list"

definition config_system_new :: "string list \<Rightarrow> ParsedConfig \<Rightarrow> config_system" where
  "config_system_new endpoints first_config =
    \<lparr>cs_manager = config_manager_new endpoints first_config, cs_tasks = {#}, cs_changed = False,
     cs_applied = first_config, cs_installed = [first_config]\<rparr>"

definition watcher_idle :: "task multiset \<Rightarrow> bool" where
  "watcher_idle ts \<longleftrightarrow> (\<forall>c. SendVersion True c \<notin># ts \<and> Publish c \<notin># ts)"

inductive config_step :: "config_system \<Rightarrow> config_system \<Rightarrow> bool" where
  delivered: "handle_config_locked cfg (cs_manager s) = (True, m) \<Longrightarrow> w \<longrightarrow> watcher_idle (cs_tasks s)
    \<Longrightarrow> config_step s (s\<lparr>cs_manager := m, cs_tasks := add_mset (SendVersion w cfg) (cs_tasks s),
          cs_installed := cfg # cs_installed s\<rparr>)"
| sent: "cs_tasks s = add_mset (SendVersion w cfg) ts
    \<Longrightarrow> config_step s (s\<lparr>cs_manager := send_version cfg (cs_manager s),
          cs_tasks := add_mset (if w then Publish cfg else Apply False cfg) ts\<rparr>)"
| published: "cs_tasks s = add_mset (Publish cfg) ts
    \<Longrightarrow> config_step s (s\<lparr>cs_manager := (cs_manager s)\<lparr>cm_on_new_config := cfg\<rparr>, cs_tasks := ts, cs_changed := True\<rparr>)"
| noticed: "cs_changed s \<Longrightarrow> \<forall>c. Apply True c \<notin># cs_tasks s
    \<Longrightarrow> config_step s (s\<lparr>cs_tasks := add_mset (Apply True (cm_on_new_config (cs_manager s))) (cs_tasks s),
          cs_changed := False\<rparr>)"
| applied: "cs_tasks s = add_mset (Apply w cfg) ts \<Longrightarrow> config_step s (s\<lparr>cs_applied := cfg, cs_tasks := ts\<rparr>)"

inductive_cases config_stepE: "config_step s t"

abbreviation config_reachable :: "config_system \<Rightarrow> bool" where
  "config_reachable \<equiv> reachable (\<lambda>s. \<exists>endpoints first_config. s = config_system_new endpoints first_config) config_step"

definition supersedes :: "ParsedConfig \<Rightarrow> ParsedConfig \<Rightarrow> bool" where
  "supersedes new_config old_config \<longleftrightarrow>
    map_option bucket_type (pc_bucket new_config) \<noteq> map_option bucket_type (pc_bucket old_config)
    \<or> config_version old_config < config_version new_config"

fun advancing :: "ParsedConfig list \<Rightarrow> bool" where
  "advancing (x # y # cs) \<longleftrightarrow> supersedes x y \<and> advancing (y # cs)"
| "advancing _ \<longleftrightarrow> True"

fun task_config :: "task \<Rightarrow> ParsedConfig" where
  "task_config (SendVersion w c) = c"
| "task_config (Publish c) = c"
| "task_config (Apply w c) = c"

definition config_inv :: "config_system \<Rightarrow> bool" where
  "config_inv s \<longleftrightarrow> (\<exists>older. cs_installed s = cm_latest_config (cs_manager s) # older)
    \<and> advancing (cs_installed s) \<and> cs_applied s \<in> set (cs_installed s)
    \<and> cm_on_new_config (cs_manager s) \<in> set (cs_installed s)
    \<and> cm_latest_version (cs_manager s) \<in> config_version ` set (cs_installed s)
    \<and> (\<forall>t. t \<in># cs_tasks s \<longrightarrow> task_config t \<in> set (cs_installed s))"

section \<open>Facts\<close>

lemma partial_cmp_version:
  "partial_cmp a b = Some (if config_version a < config_version b then Less
     else if config_version a = config_version b then Equal else Greater)"
  by (auto simp: partial_cmp_def cmp_def config_version_def less_ConfigVersion_def)

lemma bucket_type_changed_iff:
  "bucket_type_changed a b \<longleftrightarrow> map_option bucket_type a \<noteq> map_option bucket_type b"
  by (auto simp: bucket_type_changed_def split: option.splits)

lemma can_update_config_iff: "can_update_config new_config old_config \<longleftrightarrow> supersedes new_config old_config"
  by (auto simp: can_update_config_def supersedes_def bucket_type_changed_iff partial_cmp_version)

lemma handle_config_locked_True:
  "handle_config_locked cfg m = (True, m')
    \<longleftrightarrow> supersedes cfg (cm_latest_config m) \<and> m' = m\<lparr>cm_latest_config := cfg\<rparr>"
  by (auto simp: handle_config_locked_def can_update_config_iff)

lemma config_inv_step: "config_inv s \<Longrightarrow> config_step s t \<Longrightarrow> config_inv t"
  by (erule config_stepE)
     (auto simp: config_inv_def handle_config_locked_True send_version_def)

lemma config_inv_new: "config_inv (config_system_new endpoints first_config)"
  by (simp add: config_inv_def config_system_new_def config_manager_new_def)

interpretation config: invariant_system
  "\<lambda>s. \<exists>endpoints first_config. s = config_system_new endpoints first_config" config_step config_inv
  by unfold_locales (auto intro: config_inv_new config_inv_step)

lemma advancing_newest:
  assumes "advancing (x # cs)" and "\<And>c. c \<in> set cs \<Longrightarrow> map_option bucket_type (pc_bucket c) = map_option bucket_type (pc_bucket x)"
  shows "\<forall>c\<in>set cs. config_version c < config_version x"
  using assms by (induction cs arbitrary: x) (fastforce simp: supersedes_def)+

lemma handle_config_outcome:
  "handle_config cfg m = (if supersedes cfg (cm_latest_config m)
     then (Some cfg, send_version cfg (m\<lparr>cm_latest_config := cfg\<rparr>)) else (None, m))"
  by (simp add: handle_config_def handle_config_locked_def can_update_config_iff)

lemma apply_config_sel:
  "ag_latest_config (snd (apply_config cfg a)) = cfg"
  "cm_latest_config (ag_cfg_manager (snd (apply_config cfg a))) = cm_latest_config (ag_cfg_manager a)"
  by (simp_all add: apply_config_def update_state_locked_def config_manager_reconfigure_def split: result.splits)

lemma apply_terse_config_installs:
  assumes "parse_terse_config c source = Ok cfg" and "supersedes cfg (cm_latest_config (ag_cfg_manager a))"
    and "gen_from_config cfg (ag_network_type a) (ag_tls_config a) (ag_bucket a) (ag_authenticator a) = Ok configs"
  shows "case apply_terse_config c source a of (r, a') \<Rightarrow>
    r = Ok () \<and> ag_latest_config a' = cfg \<and> sr_routing_info (ag_vb_router a') = vbucket_routing_info configs"
  using assms by (simp add: apply_terse_config_def out_of_band_config_def handle_config_outcome apply_config_def
      update_state_locked_def update_vbucket_info_def)

lemma sample_config_version [simp]: "config_version (sample_config_from source k) = ConfigVersion 1 k"
  by (simp add: config_version_def sample_config_sel)

lemma sample_supersedes: "j < k \<Longrightarrow> supersedes (sample_config_from source k) (sample_config_from source' j)"
  by (simp add: supersedes_def less_ConfigVersion_def sample_config_sel)

lemma sample_reachable:
  "config_reachable \<lparr>cs_manager = (config_manager_new [] (sample_config 1))\<lparr>cm_latest_config := sample_config 3\<rparr>,
     cs_tasks = {#SendVersion False (sample_config 3), SendVersion False (sample_config 2)#}, cs_changed = False,
     cs_applied = sample_config 1, cs_installed = [sample_config 3, sample_config 2, sample_config 1]\<rparr>"
  (is "config_reachable ?s")
proof -
  let ?s0 = "config_system_new [] (sample_config 1)"
  have "config_reachable ?s0" by (rule reachable.start) blast
  moreover have "config_step ?s0 (?s0\<lparr>cs_manager := (cs_manager ?s0)\<lparr>cm_latest_config := sample_config 2\<rparr>,
      cs_tasks := add_mset (SendVersion False (sample_config 2)) (cs_tasks ?s0),
      cs_installed := sample_config 2 # cs_installed ?s0\<rparr>)" (is "config_step _ ?s1")
    by (rule delivered) (simp_all add: handle_config_locked_True sample_supersedes config_system_new_def
        config_manager_new_def)
  moreover have "config_step ?s1 (?s1\<lparr>cs_manager := (cs_manager ?s1)\<lparr>cm_latest_config := sample_config 3\<rparr>,
      cs_tasks := add_mset (SendVersion False (sample_config 3)) (cs_tasks ?s1),
      cs_installed := sample_config 3 # cs_installed ?s1\<rparr>)" (is "config_step _ ?s2")
    by (rule delivered) (simp_all add: handle_config_locked_True sample_supersedes)
  ultimately have "config_reachable ?s2" by (blast intro: reachable.trans)
  then show ?thesis by (simp add: config_system_new_def)
qed

lemma filter_not_taken: "distinct xs \<Longrightarrow> filter (\<lambda>x. x \<notin> set (take k xs)) xs = drop k xs"
proof (induction xs arbitrary: k)
  case (Cons x xs)
  show ?case
  proof (cases k)
    case (Suc j)
    have "filter (\<lambda>y. y \<noteq> x \<and> y \<notin> set (take j xs)) xs = filter (\<lambda>y. y \<notin> set (take j xs)) xs"
      using Cons.prems by (intro filter_cong) auto
    with Suc Cons show ?thesis by simp
  qed simp
qed simp

lemma watch_turn_next:
  assumes "distinct endpoints" and "k < length endpoints" and "ws_recent_endpoints ws = take k endpoints"
    and "poll (endpoints ! k) \<noteq> Panic"
  shows "polled_endpoint (fst (watch_turn endpoints poll ws)) = Some (endpoints ! k)
    \<and> snd (watch_turn endpoints poll ws) = \<lparr>ws_recent_endpoints = take (Suc k) endpoints,
        ws_all_endpoints_failed = (ws_all_endpoints_failed ws \<and> \<not> is_ok (poll (endpoints ! k)))\<rparr>"
proof -
  have "filter (\<lambda>endpoint. endpoint \<notin> set (ws_recent_endpoints ws)) endpoints = endpoints ! k # drop (Suc k) endpoints"
    using assms by (simp add: filter_not_taken Cons_nth_drop_Suc)
  moreover have "endpoints \<noteq> []" using assms(2) by auto
  ultimately show ?thesis
    using assms by (cases "poll (endpoints ! k)") (auto simp: watch_turn_def Let_def take_Suc_conv_app_nth)
qed

lemma watch_turns_next:
  assumes "distinct endpoints" and "k + length polls \<le> length endpoints" and "ws_recent_endpoints ws = take k endpoints"
    and "\<And>p ep. p \<in> set polls \<Longrightarrow> p ep \<noteq> Panic"
  shows "map polled_endpoint (fst (watch_turns endpoints polls ws)) = map Some (take (length polls) (drop k endpoints))
    \<and> snd (watch_turns endpoints polls ws) = \<lparr>ws_recent_endpoints = take (k + length polls) endpoints,
        ws_all_endpoints_failed = (ws_all_endpoints_failed ws
          \<and> (\<forall>(p, ep) \<in> set (zip polls (drop k endpoints)). \<not> is_ok (p ep)))\<rparr>"
  using assms
proof (induction polls arbitrary: k ws)
  case (Cons poll polls)
  have k: "k < length endpoints" using Cons.prems(2) by simp
  note turn = watch_turn_next [OF Cons.prems(1) k Cons.prems(3) Cons.prems(4) [of poll]]
  have d: "drop k endpoints = endpoints ! k # drop (Suc k) endpoints" using k by (simp add: Cons_nth_drop_Suc)
  have "ws_recent_endpoints (snd (watch_turn endpoints poll ws)) = take (Suc k) endpoints" using turn by simp
  note Cons.IH [OF Cons.prems(1) _ this] 
  then show ?case using Cons.prems(2,4) turn d by (auto simp: split_beta)
qed simp

section \<open>Properties\<close>

text \<open>
  C28. Whatever the interleaving of deliveries, every configuration the manager installed either has a
  higher version than the one it replaced or changed the type of the bucket, the agent only ever
  applies installed configurations, and as long as the bucket type stays the same the manager holds
  the newest of them all.
\<close>

theorem configs_only_advance:
  assumes "config_reachable s"
  shows "cs_applied s \<in> set (cs_installed s) \<and> advancing (cs_installed s)
    \<and> (\<exists>older. cs_installed s = cm_latest_config (cs_manager s) # older
        \<and> ((\<forall>c\<in>set older. map_option bucket_type (pc_bucket c)
              = map_option bucket_type (pc_bucket (cm_latest_config (cs_manager s))))
           \<longrightarrow> (\<forall>c\<in>set older. config_version c < config_version (cm_latest_config (cs_manager s)))))"
  using config.reachable_inv [OF assms] unfolding config_inv_def by (metis advancing_newest)

theorem configs_only_advance_witness:
  "advancing [sample_config 3, sample_config 2, sample_config 1]
    \<and> config_version (sample_config 2) < config_version (sample_config 3)"
  using configs_only_advance [OF sample_reachable] by (simp add: less_ConfigVersion_def)

text \<open>
  The agent can end up with an older configuration than the manager, with nothing left to run:
  two deliveries that overlap may reach the agent in the opposite order, because applying a
  configuration does not compare versions.
\<close>

theorem agent_can_fall_behind:
  "\<exists>s. config_reachable s \<and> cs_tasks s = {#} \<and> \<not> cs_changed s
    \<and> pc_bucket (cs_applied s) = pc_bucket (cm_latest_config (cs_manager s))
    \<and> config_version (cs_applied s) < config_version (cm_latest_config (cs_manager s))"
proof -
  have deliver: "config_reachable (s\<lparr>cs_manager := send_version cfg (cs_manager s), cs_applied := cfg, cs_tasks := ts\<rparr>)"
    if "config_reachable s" "cs_tasks s = add_mset (SendVersion False cfg) ts" for s cfg ts
  proof -
    let ?t = "s\<lparr>cs_manager := send_version cfg (cs_manager s), cs_tasks := add_mset (Apply False cfg) ts\<rparr>"
    have "config_step s ?t" using sent [OF that(2)] by simp
    with that(1) have "config_reachable ?t" by (rule reachable.trans)
    moreover have "config_step ?t (?t\<lparr>cs_applied := cfg, cs_tasks := ts\<rparr>)" by (rule applied [where w = False]) simp
    ultimately have "config_reachable (?t\<lparr>cs_applied := cfg, cs_tasks := ts\<rparr>)" by (rule reachable.trans)
    then show ?thesis by simp
  qed
  have "config_reachable (\<lparr>cs_manager = (config_manager_new [] (sample_config 1))\<lparr>cm_latest_config := sample_config 3,
      cm_latest_version := ConfigVersion 1 2\<rparr>, cs_tasks = {#}, cs_changed = False, cs_applied = sample_config 2,
      cs_installed = [sample_config 3, sample_config 2, sample_config 1]\<rparr>)" (is "config_reachable ?s")
    using deliver [OF deliver [OF sample_reachable, where cfg = "sample_config 3"], where cfg = "sample_config 2"]
    by (simp add: send_version_def)
  moreover have "pc_bucket (cs_applied ?s) = pc_bucket (cm_latest_config (cs_manager ?s))"
    "config_version (cs_applied ?s) < config_version (cm_latest_config (cs_manager ?s))"
    "cs_tasks ?s = {#}" "\<not> cs_changed ?s"
    by (simp_all add: sample_config_sel less_ConfigVersion_def)
  ultimately show ?thesis by blast
qed

text \<open>
  Deliveries that do not overlap keep the agent and the manager in step: a configuration taken
  from a not-my-vbucket answer is applied when it supersedes the current one and is otherwise
  ignored, as is one that does not parse. If the settings cannot be computed, routing is unchanged.
\<close>

theorem apply_terse_config_in_step:
  assumes "ag_latest_config a = cm_latest_config (ag_cfg_manager a)"
  shows "case apply_terse_config c source a of (r, a') \<Rightarrow>
      ag_latest_config a' = cm_latest_config (ag_cfg_manager a')
      \<and> ag_latest_config a' = (case parse_terse_config c source of
          Ok cfg \<Rightarrow> if supersedes cfg (ag_latest_config a) then cfg else ag_latest_config a
        | _ \<Rightarrow> ag_latest_config a)
      \<and> (r = Ok () \<or> r = Panic \<and> ag_vb_router a' = ag_vb_router a)"
  using assms
  by (cases "parse_terse_config c source")
     (auto simp: apply_terse_config_def out_of_band_config_def handle_config_outcome apply_config_def
        update_state_locked_def send_version_def config_manager_reconfigure_def parse_terse_config_not_Panic
        settings_not_Err split: result.splits)

definition sample_agent :: "(unit, unit) Agent" where
  "sample_agent =
    \<lparr>ag_latest_config = sample_config 1, ag_network_type = ''default'', ag_tls_config = None, ag_bucket = None,
     ag_authenticator = (), ag_cfg_manager = config_manager_new [] (sample_config 1),
     ag_vb_router = vbucket_router_new \<lparr>ri_vbucket_info = None, ri_server_list = [], ri_bucket_selected = False\<rparr>,
     ag_update_endpoints = [], ag_components = None\<rparr>"

theorem apply_terse_config_in_step_witness:
  "ag_latest_config (snd (apply_terse_config (sample_terse 2) ''h'' sample_agent)) = sample_config 2
    \<and> ag_latest_config (snd (apply_terse_config (sample_terse 0) ''h'' sample_agent)) = sample_config 1"
  using apply_terse_config_in_step [of sample_agent "sample_terse 2" "''h''"]
    apply_terse_config_in_step [of sample_agent "sample_terse 0" "''h''"]
  by (auto simp: sample_parse sample_agent_def config_manager_new_def supersedes_def sample_config_sel
      less_ConfigVersion_def split: prod.splits)

text \<open>
  A version announced by the server is ignored exactly when the manager already has it or a newer
  one. Otherwise the call fetches and returns, even while another fetch is running: the guard that
  is meant to make it wait compares the outcome of the exchange with a value it never has.
\<close>

theorem out_of_band_decision:
  "fst (out_of_band_begin rev_id rev_epoch m) =
      (if ConfigVersion rev_epoch rev_id \<le> config_version (cm_latest_config m) then AlreadyNewer
       else FetchNow (pc_rev_id (cm_latest_config m)) (pc_rev_epoch (cm_latest_config m)))
    \<and> fst (perform_out_of_band_fetch poll rev_id rev_epoch endpoint m) \<noteq> None"
  by (auto simp: out_of_band_begin_def perform_out_of_band_fetch_def compare_exchange_def config_version_def
      less_eq_ConfigVersion_def Let_def split: prod.splits)


text \<open>
  When the server announces a newer version in an unsolicited packet, the handler asks the
  announcing server for the configuration, telling it the version the client has, and a
  configuration that supersedes the current one is installed in the manager, the agent and the
  routing table.
\<close>

theorem announced_config_applied:
  assumes "rp_op_code packet = OpCode.Set" and "rp_extras packet = Some (u64_to_be rev_epoch @ u64_to_be rev_id)"
    and "config_version (cm_latest_config (ag_cfg_manager a)) < ConfigVersion (sint rev_epoch) (sint rev_id)"
    and "poll endpoint (pc_rev_id (cm_latest_config (ag_cfg_manager a))) (pc_rev_epoch (cm_latest_config (ag_cfg_manager a)))
      = Ok (Some cfg)"
    and "supersedes cfg (cm_latest_config (ag_cfg_manager a))"
    and "gen_from_config cfg (ag_network_type a) (ag_tls_config a) (ag_bucket a) (ag_authenticator a) = Ok configs"
  shows "case unsolicited_packet_handler poll packet endpoint a of (r, a') \<Rightarrow>
      r = Some (Ok ()) \<and> ag_latest_config a' = cfg \<and> cm_latest_config (ag_cfg_manager a') = cfg
      \<and> cm_latest_version (ag_cfg_manager a') = config_version cfg
      \<and> ag_vb_router a' = update_vbucket_info (vbucket_routing_info configs) (ag_vb_router a)"
proof -
  have "\<not> ConfigVersion (sint rev_epoch) (sint rev_id) \<le> config_version (cm_latest_config (ag_cfg_manager a))"
    using assms(3) by simp
  then have "out_of_band_begin (sint rev_id) (sint rev_epoch) (ag_cfg_manager a)
    = (FetchNow (pc_rev_id (cm_latest_config (ag_cfg_manager a))) (pc_rev_epoch (cm_latest_config (ag_cfg_manager a))),
       (ag_cfg_manager a)\<lparr>cm_performing_out_of_band_fetch := True\<rparr>)"
    by (auto simp: out_of_band_begin_def compare_exchange_def config_version_def less_eq_ConfigVersion_def Let_def)
  then show ?thesis
    using assms by (simp add: unsolicited_packet_handler_def read_i64_def be_simps perform_out_of_band_fetch_def
        out_of_band_end_def handle_config_outcome send_version_def apply_config_def update_state_locked_def
        config_manager_reconfigure_def)
qed

definition announcement :: ResponsePacket where
  "announcement = (response_packet_new Magic.ServerReq OpCode.Set 0 Status.Success 0)
     \<lparr>rp_extras := Some (u64_to_be 1 @ u64_to_be 5)\<rparr>"

theorem announced_config_applied_witness:
  "case unsolicited_packet_handler (\<lambda>_ known _. Ok (Some (sample_config (known + 4)))) announcement ''e'' sample_agent of
     (r, a') \<Rightarrow> r = Some (Ok ()) \<and> ag_latest_config a' = sample_config 5"
proof -
  obtain configs where g: "gen_from_config (sample_config 5) (ag_network_type sample_agent) (ag_tls_config sample_agent)
      (ag_bucket sample_agent) (ag_authenticator sample_agent) = Ok configs"
    by (simp add: gen_from_config_def addresses_group_for_network_type_def sample_network sample_agent_def Let_def)
  show ?thesis
    using announced_config_applied [of announcement 1 5 sample_agent "\<lambda>_ known _. Ok (Some (sample_config (known + 4)))"
        "''e''" "sample_config 5", OF _ _ _ _ _ g]
    by (simp add: announcement_def sample_agent_def config_manager_new_def sample_config_sel less_ConfigVersion_def
        sample_supersedes response_packet_new_def split: prod.splits)
qed

text \<open>
  The poller asks the endpoints in turn: starting a sweep, it polls each endpoint exactly once, in
  the order of the list, before any of them is polled again, whatever the answers. After a sweep
  it pauses once more only if all of them failed, and the next sweep starts from the first endpoint.
\<close>

theorem poller_sweeps_endpoints:
  assumes "distinct endpoints" and "endpoints \<noteq> []" and "length polls = length endpoints"
    and "\<And>p ep. p \<in> set polls \<Longrightarrow> p ep \<noteq> Panic"
  shows "map polled_endpoint (fst (watch_turns endpoints polls watch_start)) = map Some endpoints
    \<and> watch_turn endpoints poll (snd (watch_turns endpoints polls watch_start))
      = (SweepDone (\<forall>(p, ep) \<in> set (zip polls endpoints). \<not> is_ok (p ep)), watch_start)"
  using watch_turns_next [of endpoints 0 polls watch_start] assms
  by (simp add: watch_start_def watch_turn_def)

theorem poller_sweeps_endpoints_witness:
  "map polled_endpoint (fst (watch_turns [''a'', ''b''] (replicate 2 (\<lambda>_. Ok None)) watch_start)) = [Some ''a'', Some ''b'']"
  using poller_sweeps_endpoints [of "[''a'', ''b'']" "replicate 2 (\<lambda>_. Ok None)"] by simp

end
