(* ===== verification/Retry.thy ===== *)
theory Retry
  imports Core_Error
begin

text \<open>
  Retries (\<^verbatim>\<open>retry.rs\<close>, \<^verbatim>\<open>retrybesteffort.rs\<close>, \<^verbatim>\<open>retryfailfast.rs\<close>) and the server's error map that tells
  whether an unknown status may be retried (\<^verbatim>\<open>errmap.rs\<close>, \<^verbatim>\<open>errmapcomponent.rs\<close>). The JSON decoder of
  the error map and the floating point power of the backoff are arguments. The number of attempts is
  a 32-bit counter.
\<close>

section \<open>Error map\<close>

record ErrMapError =
  eme_name :: string
  eme_description :: string
  eme_attributes :: "string list"

record CfgErrMap =
  cem_version :: int
  cem_revision :: int
  cem_errors :: "(string \<times> ErrMapError) list"

record ErrMap =
  em_version :: int
  em_revision :: int
  em_errors :: "u16 \<Rightarrow> ErrMapError option"

text \<open>\<^verbatim>\<open>u16::from_str_radix(s, 16)\<close>: an optional plus sign and hexadecimal digits, within range.\<close>

definition hex_digit :: "char \<Rightarrow> nat option" where
  "hex_digit c =
    (let n = of_char c :: nat in
     if 48 \<le> n \<and> n \<le> 57 then Some (n - 48)
     else if 97 \<le> n \<and> n \<le> 102 then Some (n - 87)
     else if 65 \<le> n \<and> n \<le> 70 then Some (n - 55)
     else None)"

fun hex_digits :: "nat \<Rightarrow> string \<Rightarrow> (string, nat) result" where
  "hex_digits acc [] = Ok acc"
| "hex_digits acc (c # cs) =
    (case hex_digit c of
       None \<Rightarrow> Err ''invalid digit found in string''
     | Some d \<Rightarrow>
         if acc * 16 + d > 65535 then Err ''number too large to fit in target type''
         else hex_digits (acc * 16 + d) cs)"

definition u16_from_str_radix_16 :: "string \<Rightarrow> (string, u16) result" where
  "u16_from_str_radix_16 s =
    (if s = [] then Err ''cannot parse integer from empty string''
     else if s = ''+'' then Err ''invalid digit found in string''
     else and_then (hex_digits 0 (if hd s = CHR ''+'' then tl s else s)) (\<lambda>n. Ok (word_of_nat n)))"

fun insert_error_codes ::
    "(u16 \<Rightarrow> ErrMapError option) \<Rightarrow> (string \<times> ErrMapError) list
      \<Rightarrow> (CoreError, u16 \<Rightarrow> ErrMapError option) result" where
  "insert_error_codes errors [] = Ok errors"
| "insert_error_codes errors ((code, err) # rest) =
    and_then (map_err (\<lambda>e. core_message_error (''failed to parse error code: '' @ e))
                (u16_from_str_radix_16 code)) (\<lambda>code.
      insert_error_codes (errors(code \<mapsto> err)) rest)"

definition parse_error_map ::
    "(bytes \<Rightarrow> (string, CfgErrMap) result) \<Rightarrow> bytes \<Rightarrow> (CoreError, ErrMap) result" where
  "parse_error_map from_slice map_bytes =
    and_then (map_err (\<lambda>e. core_message_error (''failed to deserialize error map: '' @ e))
                (from_slice map_bytes)) (\<lambda>cfg_err_map.
    and_then (insert_error_codes Map.empty (cem_errors cfg_err_map)) (\<lambda>errors.
    Ok \<lparr>em_version = cem_version cfg_err_map, em_revision = cem_revision cfg_err_map,
        em_errors = errors\<rparr>))"

text \<open>
  One turn of the update loop: \<open>current\<close> is what was loaded, \<open>cell\<close> what the shared cell holds at the
  moment of the write, \<open>unchanged\<close> whether it is still the loaded map. The result is the new content
  and whether the loop goes on.
\<close>

definition on_err_map_turn ::
    "ErrMap \<Rightarrow> ErrMap option \<Rightarrow> bool \<Rightarrow> ErrMap option \<Rightarrow> ErrMap option \<times> bool" where
  "on_err_map_turn new_err_map current unchanged cell =
    (case current of
       Some cem \<Rightarrow>
         if em_revision new_err_map \<le> em_revision cem then (cell, False)
         else if unchanged then (Some new_err_map, True)
         else (cell, False)
     | None \<Rightarrow> (Some new_err_map, False))"

text \<open>The loop of a caller that no other caller disturbs.\<close>

function on_err_map_loop :: "ErrMap \<Rightarrow> ErrMap option \<Rightarrow> ErrMap option" where
  "on_err_map_loop new_err_map cell =
    (case on_err_map_turn new_err_map cell True cell of
       (cell', again) \<Rightarrow> if again then on_err_map_loop new_err_map cell' else cell')"
  by pat_completeness auto
termination
  by (relation "measure (\<lambda>(n, c). if c = Some n then 0 else 1)")
     (auto simp: on_err_map_turn_def split: option.splits if_splits)

declare on_err_map_loop.simps [simp del]

definition on_err_map ::
    "(bytes \<Rightarrow> (string, CfgErrMap) result) \<Rightarrow> bytes \<Rightarrow> ErrMap option \<Rightarrow> ErrMap option" where
  "on_err_map from_slice err_map cell =
    (case parse_error_map from_slice err_map of
       Ok err_map \<Rightarrow> on_err_map_loop err_map cell
     | _ \<Rightarrow> cell)"

definition should_retry :: "ErrMap option \<Rightarrow> Status \<Rightarrow> bool" where
  "should_retry cell status =
    (case cell of
       Some err_map \<Rightarrow>
         (case em_errors err_map (status_to_u16 status) of
            Some err_data \<Rightarrow>
              list_ex (\<lambda>attr. attr = ''retry-now'' \<or> attr = ''retry-later'' \<or> attr = ''auto-retry'')
                (eme_attributes err_data)
          | None \<Rightarrow> False)
     | None \<Rightarrow> False)"

section \<open>Reasons\<close>

primrec allows_non_idempotent_retry :: "RetryReason \<Rightarrow> bool" where
  "allows_non_idempotent_retry RetryReason.KvInvalidVbucketMap = True"
| "allows_non_idempotent_retry RetryReason.KvNotMyVbucket = True"
| "allows_non_idempotent_retry RetryReason.KvTemporaryFailure = True"
| "allows_non_idempotent_retry RetryReason.KvCollectionOutdated = True"
| "allows_non_idempotent_retry RetryReason.KvErrorMapRetryIndicated = True"
| "allows_non_idempotent_retry RetryReason.KvLocked = True"
| "allows_non_idempotent_retry RetryReason.ServiceNotAvailable = True"
| "allows_non_idempotent_retry RetryReason.SocketNotAvailable = True"
| "allows_non_idempotent_retry RetryReason.KvSyncWriteInProgress = True"
| "allows_non_idempotent_retry RetryReason.KvSyncWriteRecommitInProgress = True"
| "allows_non_idempotent_retry RetryReason.QueryPreparedStatementFailure = True"
| "allows_non_idempotent_retry RetryReason.QueryIndexNotFound = True"
| "allows_non_idempotent_retry RetryReason.SearchTooManyRequests = True"
| "allows_non_idempotent_retry RetryReason.HttpSendRequestFailed = True"
| "allows_non_idempotent_retry RetryReason.NotReady = True"
| "allows_non_idempotent_retry RetryReason.SocketClosedWhileInFlight = False"

definition always_retry :: "RetryReason \<Rightarrow> bool" where
  "always_retry reason \<longleftrightarrow>
    reason = RetryReason.KvInvalidVbucketMap \<or> reason = RetryReason.KvNotMyVbucket
    \<or> reason = RetryReason.KvCollectionOutdated"

definition server_error_to_retry_reason :: "ErrMap option \<Rightarrow> ServerError \<Rightarrow> RetryReason option" where
  "server_error_to_retry_reason cell e =
    (case se_kind e of
       ServerErrorKind.NotMyVbucket \<Rightarrow> Some RetryReason.KvNotMyVbucket
     | ServerErrorKind.TmpFail \<Rightarrow> Some RetryReason.KvTemporaryFailure
     | ServerErrorKind.UnknownCollectionID \<Rightarrow> Some RetryReason.KvCollectionOutdated
     | ServerErrorKind.UnknownCollectionName \<Rightarrow> Some RetryReason.KvCollectionOutdated
     | ServerErrorKind.Locked \<Rightarrow> Some RetryReason.KvLocked
     | ServerErrorKind.SyncWriteInProgress \<Rightarrow> Some RetryReason.KvSyncWriteInProgress
     | ServerErrorKind.SyncWriteRecommitInProgress \<Rightarrow> Some RetryReason.KvSyncWriteRecommitInProgress
     | ServerErrorKind.UnknownStatus status \<Rightarrow>
         if should_retry cell status then Some RetryReason.KvErrorMapRetryIndicated else None
     | _ \<Rightarrow> None)"

definition http_reason :: "HttpErrorKind \<Rightarrow> RetryReason option" where
  "http_reason error =
    (case error of SendRequest _ \<Rightarrow> Some RetryReason.HttpSendRequestFailed | _ \<Rightarrow> None)"

definition retry_reason :: "ErrMap option \<Rightarrow> CoreErrorKind \<Rightarrow> RetryReason option" where
  "retry_reason cell kind =
    (case kind of
       CoreErrorKind.Memdx err \<Rightarrow>
         (case err_kind (me_source err) of
            ErrorKind.Server e \<Rightarrow> server_error_to_retry_reason cell e
          | ErrorKind.Resource e \<Rightarrow> server_error_to_retry_reason cell (re_cause e)
          | ErrorKind.Cancelled e \<Rightarrow>
              if e = CancellationErrorKind.ClosedInFlight
              then Some RetryReason.SocketClosedWhileInFlight else None
          | ErrorKind.Dispatch _ _ \<Rightarrow> Some RetryReason.SocketNotAvailable
          | _ \<Rightarrow> None)
     | CoreErrorKind.NoVbucketMap \<Rightarrow> Some RetryReason.KvInvalidVbucketMap
     | CoreErrorKind.ServiceNotAvailable _ \<Rightarrow> Some RetryReason.ServiceNotAvailable
     | CoreErrorKind.QueryError e \<Rightarrow>
         (case e of
            QueryServer k \<Rightarrow>
              if k = QueryServerErrorKind.PreparedStatementFailure
              then Some RetryReason.QueryPreparedStatementFailure
              else if k = QueryServerErrorKind.IndexNotFound then Some RetryReason.QueryIndexNotFound
              else None
          | QueryHttp error \<Rightarrow> http_reason error
          | QueryOther _ \<Rightarrow> None)
     | CoreErrorKind.SearchError e \<Rightarrow>
         (case e of
            SearchServer status_code \<Rightarrow>
              if status_code = 429 then Some RetryReason.SearchTooManyRequests else None
          | SearchHttp error \<Rightarrow> http_reason error
          | SearchOther _ \<Rightarrow> None)
     | CoreErrorKind.AnalyticsError e \<Rightarrow>
         (case e of AnalyticsHttp error \<Rightarrow> http_reason error | AnalyticsOther _ \<Rightarrow> None)
     | CoreErrorKind.MgmtError e \<Rightarrow>
         (case e of MgmtHttp error \<Rightarrow> http_reason error | MgmtOther _ \<Rightarrow> None)
     | _ \<Rightarrow> None)"

text \<open>A protocol error also leaves its opaque in the request as identifier.\<close>

definition error_to_retry_reason ::
    "ErrMap option \<Rightarrow> RetryRequest \<Rightarrow> CoreError \<Rightarrow> RetryReason option \<times> RetryRequest" where
  "error_to_retry_reason cell retry_info err =
    (retry_reason cell (ce_kind err),
     case is_memdx_error err of
       Some e \<Rightarrow> retry_info\<lparr>rr_unique_id := map_option (\<lambda>oq. show_nat (unat oq)) (has_opaque e)\<rparr>
     | None \<Rightarrow> retry_info)"

section \<open>Strategies\<close>

type_synonym RetryStrategy = "RetryRequest \<Rightarrow> RetryReason \<Rightarrow> Duration option"

definition fail_fast :: RetryStrategy where
  "fail_fast request reason = None"

definition best_effort :: "(u32 \<Rightarrow> Duration) \<Rightarrow> RetryStrategy" where
  "best_effort backoff request reason =
    (if rr_is_idempotent request \<or> allows_non_idempotent_retry reason
     then Some (backoff (rr_retry_attempts request)) else None)"

text \<open>
  \<open>factor\<close> is \<^verbatim>\<open>backoff_factor.powi(retry_attempts) as u128\<close>, below \<open>2 ^ 128\<close>. The division panics when the
  minimum is below one millisecond.
\<close>

definition exponential_backoff :: "(u32 \<Rightarrow> nat) \<Rightarrow> Duration \<Rightarrow> Duration \<Rightarrow> u32 \<Rightarrow> ('e, Duration) result" where
  "exponential_backoff factor min_d max_d retry_attempts =
    (if as_millis min_d = 0 then Panic
     else if (2 ^ 128 - 1) div as_millis min_d < factor retry_attempts then Ok max_d
     else
       let val = as_millis min_d * factor retry_attempts in
       if val > 2 ^ 64 - 1 then Ok max_d
       else
         let backoff = from_millis val;
             backoff = (if backoff > max_d then max_d else backoff);
             backoff = (if backoff < min_d then min_d else backoff) in
         Ok backoff)"

definition controlled_backoff :: "u32 \<Rightarrow> Duration" where
  "controlled_backoff retry_attempts =
    from_millis
      (if retry_attempts = 0 then 1
       else if retry_attempts = 1 then 10
       else if retry_attempts = 2 then 50
       else if retry_attempts = 3 then 100
       else if retry_attempts = 4 then 500
       else 1000)"

section \<open>Retry loop\<close>

definition add_retry_attempt :: "RetryReason \<Rightarrow> RetryRequest \<Rightarrow> RetryRequest" where
  "add_retry_attempt reason request =
    request\<lparr>rr_retry_attempts := rr_retry_attempts request + 1,
            rr_retry_reasons := insert reason (rr_retry_reasons request)\<rparr>"

definition maybe_retry ::
    "RetryStrategy \<Rightarrow> RetryRequest \<Rightarrow> RetryReason \<Rightarrow> Duration option \<times> RetryRequest" where
  "maybe_retry strategy request reason =
    (if always_retry reason then
       let request = add_retry_attempt reason request in
       (Some (controlled_backoff (rr_retry_attempts request)), request)
     else
       case strategy request reason of
         Some duration \<Rightarrow> (Some duration, add_retry_attempt reason request)
       | None \<Rightarrow> (None, request))"

definition retry_decision ::
    "RetryStrategy \<Rightarrow> ErrMap option \<Rightarrow> RetryRequest \<Rightarrow> CoreError \<Rightarrow> Duration option \<times> RetryRequest" where
  "retry_decision strategy cell retry_info err =
    (case error_to_retry_reason cell retry_info err of
       (Some reason, retry_info) \<Rightarrow> maybe_retry strategy retry_info reason
     | (None, retry_info) \<Rightarrow> (None, retry_info))"

text \<open>
  \<open>operation n\<close> is what the n-th call returns and \<open>cell n\<close> the error map at that time; the loop returns
  its result and the pauses it slept, and has no value when it never ends.
\<close>

partial_function (option) orchestrate_retries ::
    "RetryStrategy \<Rightarrow> (nat \<Rightarrow> ErrMap option) \<Rightarrow> (nat \<Rightarrow> (CoreError, 'r) result) \<Rightarrow> nat \<Rightarrow> RetryRequest
      \<Rightarrow> Duration list \<Rightarrow> ((CoreError, 'r) result \<times> Duration list) option" where
  "orchestrate_retries strategy cell operation n retry_info slept =
    (case operation n of
       Ok r \<Rightarrow> Some (Ok r, slept)
     | Panic \<Rightarrow> Some (Panic, slept)
     | Err err \<Rightarrow>
         (case retry_decision strategy (cell n) retry_info err of
            (Some duration, retry_info) \<Rightarrow>
              orchestrate_retries strategy cell operation (Suc n) retry_info (slept @ [duration])
          | (None, retry_info) \<Rightarrow>
              Some (Err (if rr_retry_attempts retry_info > 0 then set_retry_info retry_info err else err),
                    slept)))"

text \<open>A call inside the loop that never ends is the result \<open>Ok None\<close>, which ends the loop; \<open>returned\<close> makes it the
  value \<open>None\<close> again.\<close>

fun awaited :: "(CoreError, 'r) result option \<Rightarrow> (CoreError, 'r option) result" where
  "awaited None = Ok None"
| "awaited (Some r) = and_then r (\<lambda>x. Ok (Some x))"

fun returned :: "(CoreError, 'r option) result \<Rightarrow> (CoreError, 'r) result option" where
  "returned (Ok None) = None"
| "returned (Ok (Some x)) = Some (Ok x)"
| "returned (Err e) = Some (Err e)"
| "returned Panic = Some Panic"

section \<open>Facts\<close>

lemma on_err_map_loop_eq:
  "on_err_map_loop new cell =
    (case cell of
       Some cem \<Rightarrow> if em_revision new \<le> em_revision cem then cell else Some new
     | None \<Rightarrow> Some new)"
proof (cases cell)
  case None
  then show ?thesis by (subst on_err_map_loop.simps) (simp add: on_err_map_turn_def)
next
  case (Some cem)
  have "on_err_map_loop new (Some new) = Some new"
    by (simp add: on_err_map_loop.simps [of new "Some new"] on_err_map_turn_def)
  then show ?thesis
    using Some by (subst on_err_map_loop.simps) (simp add: on_err_map_turn_def)
qed

lemma retry_decision_sel:
  "rr_is_idempotent (snd (retry_decision strategy cell info err)) = rr_is_idempotent info"
  "rr_retry_attempts (snd (retry_decision strategy cell info err)) =
    (if fst (retry_decision strategy cell info err) = None then rr_retry_attempts info
     else rr_retry_attempts info + 1)"
  by (auto simp: retry_decision_def error_to_retry_reason_def maybe_retry_def add_retry_attempt_def Let_def
      split: option.split)

definition best_effort_retries :: "bool \<Rightarrow> ErrMap option \<Rightarrow> CoreError \<Rightarrow> bool" where
  "best_effort_retries idempotent cell err =
    (case retry_reason cell (ce_kind err) of
       Some reason \<Rightarrow> idempotent \<or> allows_non_idempotent_retry reason
     | None \<Rightarrow> False)"

lemma always_retry_allowed: "always_retry reason \<Longrightarrow> allows_non_idempotent_retry reason"
  by (auto simp: always_retry_def)

lemma not_my_vbucket_decision:
  assumes "is_memdx_error err = Some e" and "is_server_error_kind ServerErrorKind.NotMyVbucket e"
  shows "fst (retry_decision strategy cell info err) = Some (controlled_backoff (rr_retry_attempts info + 1))"
proof -
  obtain m where m: "ce_kind err = CoreErrorKind.Memdx m" "e = me_source m"
    using assms(1) by (auto simp: is_memdx_error_def split: CoreErrorKind.splits)
  then have "retry_reason cell (ce_kind err) = Some RetryReason.KvNotMyVbucket"
    using assms(2) by (auto simp: retry_reason_def server_error_to_retry_reason_def is_server_error_kind_def
        split: ErrorKind.splits)
  then show ?thesis
    using assms(1) by (simp add: retry_decision_def error_to_retry_reason_def maybe_retry_def always_retry_def
        add_retry_attempt_def Let_def)
qed

lemma best_effort_decision:
  "fst (retry_decision (best_effort backoff) cell info err) \<noteq> None
    \<longleftrightarrow> best_effort_retries (rr_is_idempotent info) cell err"
  by (auto simp: retry_decision_def error_to_retry_reason_def maybe_retry_def best_effort_def
      best_effort_retries_def Let_def always_retry_allowed split: option.splits)

lemma orchestrate_retry_step:
  assumes "operation n = Err err" and "fst (retry_decision strategy (cell n) info err) = Some d"
  shows "orchestrate_retries strategy cell operation n info slept =
    orchestrate_retries strategy cell operation (Suc n) (snd (retry_decision strategy (cell n) info err))
      (slept @ [d])"
  using assms
  by (subst orchestrate_retries.simps) (auto split: prod.split option.split)

lemma orchestrate_retry_stop:
  assumes "operation n = Err err" and "retry_decision strategy (cell n) info err = (None, info')"
  shows "orchestrate_retries strategy cell operation n info slept =
    Some (Err (if rr_retry_attempts info' > 0 then set_retry_info info' err else err), slept)"
  using assms by (subst orchestrate_retries.simps) simp

lemma retries_from:
  assumes "operation (n + k) = Ok r"
    and "\<And>i. i < k \<Longrightarrow> \<exists>e. operation (n + i) = Err e
      \<and> best_effort_retries (rr_is_idempotent info) (cell (n + i)) e"
  shows "\<exists>slept'. orchestrate_retries (best_effort backoff) cell operation n info slept
    = Some (Ok r, slept @ slept') \<and> length slept' = k"
  using assms
proof (induction k arbitrary: n info slept)
  case 0
  then show ?case by (subst orchestrate_retries.simps) simp
next
  case (Suc k)
  obtain e where e: "operation n = Err e" "best_effort_retries (rr_is_idempotent info) (cell n) e"
    using Suc.prems(2) [of 0] by auto
  obtain d where d: "fst (retry_decision (best_effort backoff) (cell n) info e) = Some d"
    using best_effort_decision [of backoff "cell n" info e] e(2) by auto
  let ?info = "snd (retry_decision (best_effort backoff) (cell n) info e)"
  have "\<exists>slept'. orchestrate_retries (best_effort backoff) cell operation (Suc n) ?info (slept @ [d])
      = Some (Ok r, (slept @ [d]) @ slept') \<and> length slept' = k"
  proof (rule Suc.IH)
    show "operation (Suc n + k) = Ok r" using Suc.prems(1) by simp
    show "\<exists>e. operation (Suc n + i) = Err e \<and> best_effort_retries (rr_is_idempotent ?info) (cell (Suc n + i)) e"
      if "i < k" for i
      using Suc.prems(2) [of "Suc i"] that by (simp add: retry_decision_sel)
  qed
  then show ?case
    using orchestrate_retry_step [where operation = operation and n = n and cell = cell, OF e(1) d, of slept]
    by auto
qed

text \<open>
  What a loop that ends has done: one pause before each further call, and an error that is the last
  call's, with the number of attempts attached when there were any.
\<close>

definition loop_outcome ::
    "(nat \<Rightarrow> (CoreError, 'r) result) \<Rightarrow> nat \<Rightarrow> u32 \<Rightarrow> Duration list
      \<Rightarrow> (CoreError, 'r) result \<times> Duration list \<Rightarrow> bool" where
  "loop_outcome operation n attempts slept out \<longleftrightarrow>
    (\<exists>extra. snd out = slept @ extra \<and>
      (case fst out of
         Err e \<Rightarrow> \<exists>err. operation (n + length extra) = Err err \<and>
           (if attempts + word_of_nat (length extra) = 0 then e = err
            else \<exists>info. e = set_retry_info info err
              \<and> rr_retry_attempts info = attempts + word_of_nat (length extra))
       | Ok r \<Rightarrow> operation (n + length extra) = Ok r
       | Panic \<Rightarrow> operation (n + length extra) = Panic))"

lemma loop_outcome_now:
  "operation n = Ok r \<Longrightarrow> loop_outcome operation n attempts slept (Ok r, slept)"
  "operation n = Panic \<Longrightarrow> loop_outcome operation n attempts slept (Panic, slept)"
  "operation n = Err err \<Longrightarrow> rr_retry_attempts info = attempts \<Longrightarrow>
    loop_outcome operation n attempts slept
      (Err (if rr_retry_attempts info > 0 then set_retry_info info err else err), slept)"
  by (auto simp: loop_outcome_def word_gt_0)

lemma loop_outcome_later:
  assumes "loop_outcome operation (Suc n) (attempts + 1) (slept @ [d]) out"
  shows "loop_outcome operation n attempts slept out"
proof -
  from assms obtain extra where "snd out = slept @ d # extra"
    and *: "case fst out of
         Err e \<Rightarrow> \<exists>err. operation (Suc n + length extra) = Err err \<and>
           (if attempts + 1 + word_of_nat (length extra) = 0 then e = err
            else \<exists>info. e = set_retry_info info err
              \<and> rr_retry_attempts info = attempts + 1 + word_of_nat (length extra))
       | Ok r \<Rightarrow> operation (Suc n + length extra) = Ok r
       | Panic \<Rightarrow> operation (Suc n + length extra) = Panic"
    by (auto simp: loop_outcome_def)
  then show ?thesis
    unfolding loop_outcome_def
    by (intro exI [of _ "d # extra"]) (auto simp: add.assoc split: result.splits if_splits)
qed

lemma retries_outcome:
  assumes "orchestrate_retries strategy cell operation n info slept = Some out"
  shows "loop_outcome operation n (rr_retry_attempts info) slept out"
proof (rule orchestrate_retries.raw_induct [OF _ assms, where
      P = "\<lambda>strategy cell operation n info slept out.
        loop_outcome operation n (rr_retry_attempts info) slept out"])
  fix orch and strategy :: RetryStrategy and cell :: "nat \<Rightarrow> ErrMap option"
    and operation :: "nat \<Rightarrow> (CoreError, 'a) result" and n :: nat and info slept out
  assume IH: "\<And>strategy cell operation n info slept out.
      orch strategy cell operation n info slept = Some out \<Longrightarrow>
      loop_outcome operation n (rr_retry_attempts info) slept out"
    and body: "(case operation n of
       Ok r \<Rightarrow> Some (Ok r, slept)
     | Err err \<Rightarrow>
         (case retry_decision strategy (cell n) info err of
            (Some duration, retry_info) \<Rightarrow>
              orch strategy cell operation (Suc n) retry_info (slept @ [duration])
          | (None, retry_info) \<Rightarrow>
              Some (Err (if rr_retry_attempts retry_info > 0 then set_retry_info retry_info err else err),
                    slept))
     | Panic \<Rightarrow> Some (Panic, slept)) = Some out"
  show "loop_outcome operation n (rr_retry_attempts info) slept out"
  proof (cases "operation n")
    case (Err err)
    obtain d info' where dec: "retry_decision strategy (cell n) info err = (d, info')"
      by (cases "retry_decision strategy (cell n) info err")
    note sel = retry_decision_sel(2) [of strategy "cell n" info err, unfolded dec]
    show ?thesis
    proof (cases d)
      case None
      then show ?thesis
        using body Err dec sel loop_outcome_now(3) [where operation = operation and n = n, OF Err, of info']
        by auto
    next
      case (Some w)
      then have "orch strategy cell operation (Suc n) info' (slept @ [w]) = Some out"
        using body Err dec by simp
      then have "loop_outcome operation (Suc n) (rr_retry_attempts info') (slept @ [w]) out" by (rule IH)
      moreover have "rr_retry_attempts info' = rr_retry_attempts info + 1" using sel Some by simp
      ultimately show ?thesis by (simp only: loop_outcome_later)
    qed
  qed (use body in \<open>auto intro: loop_outcome_now\<close>)
qed

section \<open>Properties\<close>

definition in_flight_error :: CoreError where
  "in_flight_error = new_contextual_memdx_error
     (memdx_error_new (new_cancelled_error CancellationErrorKind.ClosedInFlight))"

definition locked_error :: CoreError where
  "locked_error = new_contextual_memdx_error (memdx_error_new (error_from_server
     (server_error_new ServerErrorKind.Locked OpCode.Set Status.Locked 7)))"

text \<open>
  C33. Under the best-effort strategy an operation that fails a finite number of times with errors
  that may be retried for it, and then succeeds, ends with that success after one pause per failure.
\<close>

theorem retries_until_success:
  assumes "operation k = Ok r"
    and "\<And>i. i < k \<Longrightarrow> \<exists>e. operation i = Err e \<and> best_effort_retries (rr_is_idempotent info) (cell i) e"
  shows "\<exists>slept. orchestrate_retries (best_effort backoff) cell operation 0 info [] = Some (Ok r, slept)
    \<and> length slept = k"
  using retries_from [of operation 0 k r info cell backoff "[]"] assms by simp

theorem retries_until_success_witness:
  "\<exists>slept. orchestrate_retries (best_effort (\<lambda>_. 1)) (\<lambda>_. None)
      (\<lambda>n. if n < 3 then Err locked_error else Ok (42 :: nat)) 0 (retry_request_new ''set'' False) []
      = Some (Ok 42, slept) \<and> length slept = 3"
proof -
  have "best_effort_retries False None locked_error"
    by (simp add: best_effort_retries_def retry_reason_def locked_error_def new_contextual_memdx_error_def
        memdx_error_new_def server_error_to_retry_reason_def)
  then show ?thesis
    by (intro retries_until_success [where k = 3]) (simp_all add: retry_request_new_def)
qed

text \<open>
  A request that is not idempotent is never sent again after the connection closed while it was
  in flight: the best-effort strategy returns the error at once.
\<close>

theorem in_flight_not_repeated:
  assumes "\<not> rr_is_idempotent info" and "operation n = Err e" and "is_memdx_error e = Some m"
    and "err_kind m = ErrorKind.Cancelled CancellationErrorKind.ClosedInFlight"
  shows "\<exists>info'. orchestrate_retries (best_effort backoff) cell operation n info slept
    = Some (Err (if rr_retry_attempts info > 0 then set_retry_info info' e else e), slept)"
proof -
  have "retry_reason (cell n) (ce_kind e) = Some RetryReason.SocketClosedWhileInFlight"
    using assms(3,4) by (auto simp: is_memdx_error_def retry_reason_def split: CoreErrorKind.splits)
  then have "\<not> best_effort_retries (rr_is_idempotent info) (cell n) e"
    using assms(1) by (simp add: best_effort_retries_def)
  then obtain info' where dec: "retry_decision (best_effort backoff) (cell n) info e = (None, info')"
    using best_effort_decision [of backoff "cell n" info e]
    by (cases "retry_decision (best_effort backoff) (cell n) info e") auto
  then have "rr_retry_attempts info' = rr_retry_attempts info"
    using retry_decision_sel(2) [of "best_effort backoff" "cell n" info e] by simp
  with orchestrate_retry_stop [where operation = operation and n = n and cell = cell, OF assms(2) dec]
  show ?thesis by auto
qed

theorem in_flight_not_repeated_witness:
  "\<exists>info'. orchestrate_retries (best_effort (\<lambda>_. 1)) (\<lambda>_. None)
      (\<lambda>n. if n = 0 then Err in_flight_error else Ok ()) 0 (retry_request_new ''set'' False) []
    = Some (Err (if rr_retry_attempts (retry_request_new ''set'' False) > 0
                 then set_retry_info info' in_flight_error else in_flight_error), [])"
  by (rule in_flight_not_repeated [where m = "new_cancelled_error CancellationErrorKind.ClosedInFlight"])
     (simp_all add: retry_request_new_def in_flight_error_def memdx_error_new_def error_ctor_defs)

text \<open>
  Whatever the strategy, a retry loop that ends with an error returns the error of its last
  call, having slept exactly once before each call after the first; the error carries the number of
  retries unless there were none.
\<close>

theorem retry_loop_error:
  assumes "orchestrate_retries strategy cell operation 0 (retry_request_new name idempotent) []
    = Some (Err e, slept)"
  shows "\<exists>err. operation (length slept) = Err err \<and>
    (if (word_of_nat (length slept) :: u32) = 0 then e = err
     else \<exists>info. e = set_retry_info info err \<and> rr_retry_attempts info = word_of_nat (length slept))"
  using retries_outcome [OF assms] by (auto simp: loop_outcome_def retry_request_new_def)

theorem retry_loop_error_witness:
  "\<exists>err. (\<lambda>n :: nat. Err in_flight_error :: (CoreError, unit) result) 0 = Err err
    \<and> in_flight_error = err"
proof -
  have "orchestrate_retries fail_fast (\<lambda>_. None) (\<lambda>n. Err in_flight_error :: (CoreError, unit) result) 0
      (retry_request_new ''get'' True) [] = Some (Err in_flight_error, [])"
    by (subst orchestrate_retries.simps)
       (simp add: retry_decision_def error_to_retry_reason_def retry_reason_def maybe_retry_def
          always_retry_def fail_fast_def in_flight_error_def new_contextual_memdx_error_def
          memdx_error_new_def error_ctor_defs is_memdx_error_def retry_request_new_def)
  from retry_loop_error [OF this] show ?thesis by simp
qed

text \<open>
  With a minimum of at least a millisecond that does not exceed the maximum, every exponential
  backoff lies between the two, however large the factor grows.
\<close>

theorem exponential_backoff_bounded:
  assumes "1 \<le> as_millis min_d" and "min_d \<le> max_d"
  shows "\<exists>d. exponential_backoff factor min_d max_d n = Ok d \<and> min_d \<le> d \<and> d \<le> max_d"
  using assms by (auto simp: exponential_backoff_def Let_def)

theorem exponential_backoff_bounded_witness:
  "\<exists>d. exponential_backoff (\<lambda>n. 2 ^ unat n) (from_millis 1) (from_millis 1000) 200 = Ok d
    \<and> from_millis 1 \<le> d \<and> d \<le> from_millis 1000"
  by (rule exponential_backoff_bounded) (simp_all add: as_millis_def from_millis_def)

text \<open>
  An undisturbed error map update keeps the map with the higher revision and the present one on
  a tie; but when another update gets in between, a newer map is discarded.
\<close>

theorem error_map_update:
  "on_err_map_loop new (Some old)
     = (if em_revision old < em_revision new then Some new else Some old)
   \<and> on_err_map_loop new None = Some new
   \<and> on_err_map_turn new (Some old) False (Some other) = (Some other, False)"
  by (simp add: on_err_map_loop_eq on_err_map_turn_def not_le)

end
