(* ===== verification/Collections.thy ===== *)
theory Collections
  imports Core_Error
begin

text \<open>
  Collection id resolution (\<^verbatim>\<open>collectionresolver.rs\<close>, \<^verbatim>\<open>collection_resolver_cached.rs\<close>): a lock-free fast
  cache in front of a locked map whose entries may be pending while one task asks the server. Each
  definition is one locked region; what the inner resolver answers is an argument. A panic inside a
  region poisons the lock, after which every region panics.
\<close>

section \<open>Cache state\<close>

record CollectionCacheEntry =
  cc_collection_id :: u32
  cc_manifest_rev :: u64
  cc_pending :: "nat option"

text \<open>
  Two fields record history: the identity of the next \<^verbatim>\<open>Notify\<close>, and those whose waiters were
  woken.
\<close>

record CollectionResolverCached =
  cr_fast_cache :: "string \<Rightarrow> (u32 \<times> u64) option"
  cr_slow_map :: "string \<Rightarrow> CollectionCacheEntry option"
  cr_poisoned :: bool
  cr_next_notify :: nat
  cr_notified :: "nat set"

definition collection_resolver_new :: CollectionResolverCached where
  "collection_resolver_new =
    \<lparr>cr_fast_cache = Map.empty, cr_slow_map = Map.empty, cr_poisoned = False, cr_next_notify = 0,
     cr_notified = {}\<rparr>"

definition full_key_path :: "string \<Rightarrow> string \<Rightarrow> string" where
  "full_key_path scope_name collection_name = scope_name @ ''.'' @ collection_name"

definition rebuild_fast_cache_locked ::
    "(string \<Rightarrow> CollectionCacheEntry option) \<Rightarrow> string \<Rightarrow> (u32 \<times> u64) option" where
  "rebuild_fast_cache_locked slow_map path =
    (case slow_map path of
       Some entry \<Rightarrow>
         if cc_collection_id entry > 0 then Some (cc_collection_id entry, cc_manifest_rev entry) else None
     | None \<Rightarrow> None)"

definition notify_waiters :: "nat option \<Rightarrow> CollectionResolverCached \<Rightarrow> CollectionResolverCached" where
  "notify_waiters p st =
    (case p of Some n \<Rightarrow> st\<lparr>cr_notified := insert n (cr_notified st)\<rparr> | None \<Rightarrow> st)"

section \<open>Operations\<close>

datatype SlowTurn = Found u32 u64 | Wait nat | MustResolve

definition slow_begin ::
    "string \<Rightarrow> CollectionResolverCached \<Rightarrow> (CoreError, SlowTurn) result \<times> CollectionResolverCached" where
  "slow_begin path st =
    (if cr_poisoned st then (Panic, st)
     else
       case cr_slow_map st path of
         Some entry \<Rightarrow>
           (case cc_pending entry of
              Some p \<Rightarrow> (Ok (Wait p), st)
            | None \<Rightarrow> (Ok (Found (cc_collection_id entry) (cc_manifest_rev entry)), st))
       | None \<Rightarrow>
           (Ok MustResolve,
            st\<lparr>cr_slow_map := (cr_slow_map st)(path \<mapsto>
                 \<lparr>cc_collection_id = 0, cc_manifest_rev = 0, cc_pending = Some (cr_next_notify st)\<rparr>),
               cr_next_notify := Suc (cr_next_notify st)\<rparr>))"

text \<open>
  How the spawned task of the inner resolver ends. A task that panicked or was aborted is a join
  error, which returns early and leaves the entry pending.
\<close>

datatype TaskResult = JoinError string | Resolved u32 u64 | Failed CoreError

fun task_result :: "string \<Rightarrow> (CoreError, u32 \<times> u64) result \<Rightarrow> TaskResult" where
  "task_result panic_text (Ok (i, r)) = Resolved i r"
| "task_result panic_text (Err e) = Failed e"
| "task_result panic_text Panic = JoinError panic_text"

definition slow_finish ::
    "string \<Rightarrow> TaskResult \<Rightarrow> CollectionResolverCached
      \<Rightarrow> (CoreError, u32 \<times> u64) result \<times> CollectionResolverCached" where
  "slow_finish path resp st =
    (case resp of
       JoinError e \<Rightarrow>
         (Err (core_message_error (''failed to join resolve collection id task: '' @ e)), st)
     | Resolved collection_id manifest_rev \<Rightarrow>
         if cr_poisoned st then (Panic, st)
         else
           (case cr_slow_map st path of
              None \<Rightarrow> (Panic, st\<lparr>cr_poisoned := True\<rparr>)
            | Some entry \<Rightarrow>
                let slow_map = (cr_slow_map st)(path \<mapsto>
                      \<lparr>cc_collection_id = collection_id, cc_manifest_rev = manifest_rev, cc_pending = None\<rparr>) in
                (Ok (collection_id, manifest_rev),
                 notify_waiters (cc_pending entry)
                   (st\<lparr>cr_slow_map := slow_map, cr_fast_cache := rebuild_fast_cache_locked slow_map\<rparr>)))
     | Failed e \<Rightarrow>
         if cr_poisoned st then (Panic, st)
         else
           (case cr_slow_map st path of
              None \<Rightarrow> (Panic, st\<lparr>cr_poisoned := True\<rparr>)
            | Some entry \<Rightarrow>
                (Err e, notify_waiters (cc_pending entry)
                   (st\<lparr>cr_slow_map := (cr_slow_map st)(path := None)\<rparr>))))"

definition invalidate_cached ::
    "string \<Rightarrow> CollectionResolverCached \<Rightarrow> (CoreError, unit) result \<times> CollectionResolverCached" where
  "invalidate_cached path st =
    (if cr_poisoned st then (Panic, st)
     else
       let slow_map = (cr_slow_map st)(path := None) in
       (Ok (), st\<lparr>cr_slow_map := slow_map, cr_fast_cache := rebuild_fast_cache_locked slow_map\<rparr>))"

text \<open>
  A whole resolution that no other task disturbs; \<open>resolve\<close> is the inner resolver, \<open>panic_text\<close> the text
  of the join error should it panic. Without other
  tasks no entry stays pending, so a wait has no answer here.
\<close>

definition resolve_collection_id ::
    "string \<Rightarrow> (string \<Rightarrow> string \<Rightarrow> (CoreError, u32 \<times> u64) result) \<Rightarrow> string \<Rightarrow> string
      \<Rightarrow> CollectionResolverCached \<Rightarrow> (CoreError, u32 \<times> u64) result option \<times> CollectionResolverCached" where
  "resolve_collection_id panic_text resolve scope_name collection_name st =
    (let path = full_key_path scope_name collection_name in
     case cr_fast_cache st path of
       Some hit \<Rightarrow> (Some (Ok hit), st)
     | None \<Rightarrow>
         (case slow_begin path st of
            (Ok (Found i r), st) \<Rightarrow> (Some (Ok (i, r)), st)
          | (Ok (Wait _), st) \<Rightarrow> (None, st)
          | (Ok MustResolve, st) \<Rightarrow>
              (case slow_finish path (task_result panic_text (resolve scope_name collection_name)) st of
                 (r, st) \<Rightarrow> (Some r, st))
          | (Err e, st) \<Rightarrow> (Some (Err e), st)
          | (Panic, st) \<Rightarrow> (Some Panic, st)))"

section \<open>Running an operation on a collection\<close>

definition is_unknown_collection :: "CoreError \<Rightarrow> bool" where
  "is_unknown_collection err =
    (case is_memdx_error err of
       Some e \<Rightarrow> is_server_error_kind ServerErrorKind.UnknownCollectionID e
         \<or> is_server_error_kind ServerErrorKind.UnknownCollectionName e
     | None \<Rightarrow> False)"

definition invalidate_collection_id ::
    "CoreError \<Rightarrow> string \<Rightarrow> string \<Rightarrow> CollectionResolverCached
      \<Rightarrow> (CoreError, 'r) result \<times> CollectionResolverCached" where
  "invalidate_collection_id err scope_name collection_name st =
    (if is_unknown_collection err then
       (case invalidate_cached (full_key_path scope_name collection_name) st of
          (Panic, st) \<Rightarrow> (Panic, st)
        | (_, st) \<Rightarrow> (Err err, st))
     else (Err err, st))"

definition orchestrate_memd_collection_id ::
    "string \<Rightarrow> (string \<Rightarrow> string \<Rightarrow> (CoreError, u32 \<times> u64) result) \<Rightarrow> string \<Rightarrow> string
      \<Rightarrow> (u32 \<Rightarrow> (CoreError, 'r) result) \<Rightarrow> CollectionResolverCached
      \<Rightarrow> (CoreError, 'r) result option \<times> CollectionResolverCached" where
  "orchestrate_memd_collection_id panic_text resolve scope_name collection_name operation st =
    (if (scope_name = ''_default'' \<and> collection_name = ''_default'')
        \<or> (scope_name = [] \<and> collection_name = []) then (Some (operation 0), st)
     else
       case resolve_collection_id panic_text resolve scope_name collection_name st of
         (None, st) \<Rightarrow> (None, st)
       | (Some Panic, st) \<Rightarrow> (Some Panic, st)
       | (Some (Err e), st) \<Rightarrow>
           (case invalidate_collection_id e scope_name collection_name st of (r, st) \<Rightarrow> (Some r, st))
       | (Some (Ok (collection_id, _)), st) \<Rightarrow>
           (case operation collection_id of
              Ok r \<Rightarrow> (Some (Ok r), st)
            | Panic \<Rightarrow> (Some Panic, st)
            | Err err \<Rightarrow>
                (case invalidate_collection_id err scope_name collection_name st of (r, st) \<Rightarrow> (Some r, st))))"

section \<open>Interleaving\<close>

text \<open>
  Locked regions of any number of tasks in any order. The state is paired with the answers the inner
  resolver has given so far.
\<close>

type_synonym answers = "(string \<times> u32 \<times> u64) set"

inductive cache_step ::
    "CollectionResolverCached \<times> answers \<Rightarrow> CollectionResolverCached \<times> answers \<Rightarrow> bool" where
  begins: "cache_step (st, h) (snd (slow_begin path st), h)"
| resolved: "cache_step (st, h) (snd (slow_finish path (Resolved i r) st), insert (path, i, r) h)"
| failed: "cache_step (st, h) (snd (slow_finish path (Failed e) st), h)"
| invalidated: "cache_step (st, h) (snd (invalidate_cached path st), h)"

definition fast_ok :: "answers \<Rightarrow> (string \<Rightarrow> (u32 \<times> u64) option) \<Rightarrow> bool" where
  "fast_ok h f \<longleftrightarrow> (\<forall>path i r. f path = Some (i, r) \<longrightarrow> (path, i, r) \<in> h)"

definition entry_ok :: "answers \<Rightarrow> string \<Rightarrow> CollectionCacheEntry \<Rightarrow> bool" where
  "entry_ok h path e =
    (if cc_pending e = None then (path, cc_collection_id e, cc_manifest_rev e) \<in> h
     else cc_collection_id e = 0)"

definition slow_ok :: "answers \<Rightarrow> (string \<Rightarrow> CollectionCacheEntry option) \<Rightarrow> bool" where
  "slow_ok h m \<longleftrightarrow> (\<forall>path e. m path = Some e \<longrightarrow> entry_ok h path e)"

definition cache_inv :: "CollectionResolverCached \<times> answers \<Rightarrow> bool" where
  "cache_inv s = (case s of (st, h) \<Rightarrow> fast_ok h (cr_fast_cache st) \<and> slow_ok h (cr_slow_map st))"

lemma notify_waiters_sel [simp]:
  "cr_fast_cache (notify_waiters p st) = cr_fast_cache st"
  "cr_slow_map (notify_waiters p st) = cr_slow_map st"
  "cr_poisoned (notify_waiters p st) = cr_poisoned st"
  by (simp_all add: notify_waiters_def split: option.split)

lemma rebuild_ok: "slow_ok h m \<Longrightarrow> fast_ok h (rebuild_fast_cache_locked m)"
  by (fastforce simp: fast_ok_def slow_ok_def entry_ok_def rebuild_fast_cache_locked_def
      split: option.splits if_splits)

lemma slow_ok_update:
  "slow_ok h m \<Longrightarrow> entry_ok h path e \<Longrightarrow> slow_ok h (m(path \<mapsto> e))"
  "slow_ok h m \<Longrightarrow> slow_ok h (m(path := None))"
  by (auto simp: slow_ok_def)

lemma answers_grow:
  "fast_ok h f \<Longrightarrow> fast_ok (insert a h) f" "slow_ok h m \<Longrightarrow> slow_ok (insert a h) m"
  by (auto simp: fast_ok_def slow_ok_def entry_ok_def)

lemma cache_inv_begin: "cache_inv (st, h) \<Longrightarrow> cache_inv (snd (slow_begin path st), h)"
  by (auto simp: cache_inv_def slow_begin_def entry_ok_def intro!: slow_ok_update split: option.splits)

lemma cache_inv_resolved:
  "cache_inv (st, h) \<Longrightarrow> cache_inv (snd (slow_finish path (Resolved i r) st), insert (path, i, r) h)"
  by (auto simp: cache_inv_def slow_finish_def Let_def entry_ok_def answers_grow
      intro!: rebuild_ok slow_ok_update split: option.split)

lemma cache_inv_failed: "cache_inv (st, h) \<Longrightarrow> cache_inv (snd (slow_finish path (Failed e) st), h)"
  by (auto simp: cache_inv_def slow_finish_def intro!: slow_ok_update split: option.split)

lemma cache_inv_invalidated: "cache_inv (st, h) \<Longrightarrow> cache_inv (snd (invalidate_cached path st), h)"
  by (auto simp: cache_inv_def invalidate_cached_def Let_def intro!: rebuild_ok slow_ok_update)

inductive_cases cache_stepE: "cache_step s t"

lemma cache_inv_step: "cache_inv s \<Longrightarrow> cache_step s t \<Longrightarrow> cache_inv t"
  by (erule cache_stepE)
     (auto intro: cache_inv_begin cache_inv_resolved cache_inv_failed cache_inv_invalidated)

abbreviation cache_reachable :: "CollectionResolverCached \<times> answers \<Rightarrow> bool" where
  "cache_reachable \<equiv> reachable (\<lambda>s. s = (collection_resolver_new, {})) cache_step"

lemma cache_inv_new: "cache_inv (collection_resolver_new, {})"
  by (simp add: cache_inv_def fast_ok_def slow_ok_def collection_resolver_new_def)

interpretation collections: invariant_system "\<lambda>s. s = (collection_resolver_new, {})" cache_step cache_inv
  by unfold_locales (auto intro: cache_inv_new cache_inv_step)

lemma invalidate_forgets:
  assumes "\<not> cr_poisoned st"
  shows "fst (invalidate_cached path st) = Ok ()"
    "cr_fast_cache (snd (invalidate_cached path st)) path = None"
    "cr_slow_map (snd (invalidate_cached path st)) path = None"
  using assms by (simp_all add: invalidate_cached_def rebuild_fast_cache_locked_def Let_def)

lemma finish_not_poisoned:
  assumes "\<not> cr_poisoned (snd (slow_finish path t st))"
  shows "\<not> cr_poisoned st"
  using assms by (auto simp: slow_finish_def split: TaskResult.splits option.splits)

section \<open>Properties\<close>

definition begun :: CollectionResolverCached where
  "begun = snd (slow_begin ''s.c'' collection_resolver_new)"

definition cached :: CollectionResolverCached where
  "cached = snd (slow_finish ''s.c'' (Resolved 8 3) begun)"

lemma cached_reachable: "cache_reachable (cached, {(''s.c'', 8, 3)})"
proof -
  have "cache_reachable (collection_resolver_new, {})" by (rule reachable.start) simp
  then have "cache_reachable (begun, {})" unfolding begun_def by (rule reachable.trans) (rule begins)
  then show ?thesis unfolding cached_def by (rule reachable.trans) (rule resolved)
qed

definition unknown_error :: CoreError where
  "unknown_error = new_contextual_memdx_error (memdx_error_new (error_from_server
     (server_error_new ServerErrorKind.UnknownCollectionID OpCode.Get Status.CollectionUnknown 7)))"

text \<open>
  C34. Whatever the interleaving, an id served from the fast cache or from a finished entry of the
  slow map is one that the inner resolver returned for that very collection.
\<close>

theorem cached_ids_are_answers:
  assumes "cache_reachable (st, h)"
  shows "(\<forall>i r. cr_fast_cache st path = Some (i, r) \<longrightarrow> (path, i, r) \<in> h)
    \<and> (\<forall>i r. fst (slow_begin path st) = Ok (Found i r) \<longrightarrow> (path, i, r) \<in> h)"
  using collections.reachable_inv [OF assms]
  by (auto simp: cache_inv_def fast_ok_def slow_ok_def entry_ok_def slow_begin_def
      split: option.splits if_splits)

theorem cached_ids_are_answers_witness:
  "cr_fast_cache cached ''s.c'' = Some (8, 3) \<and> (''s.c'', 8, 3) \<in> {(''s.c'', 8 :: u32, 3 :: u64)}"
proof -
  have "cr_fast_cache cached ''s.c'' = Some (8, 3)"
    by (simp add: cached_def begun_def slow_finish_def slow_begin_def collection_resolver_new_def
        rebuild_fast_cache_locked_def Let_def)
  with cached_ids_are_answers [OF cached_reachable, of "''s.c''"] show ?thesis by blast
qed

text \<open>
  Invalidating a collection while its first resolution is in flight makes the resolving task
  panic when the answer arrives, whatever the answer, and the poisoned lock makes every later lookup
  that misses the fast cache and every later invalidation panic too.
\<close>

theorem invalidate_in_flight_poisons:
  assumes "\<not> cr_poisoned st" and "cr_slow_map st path = None" and "t = Resolved i r \<or> t = Failed e"
  shows "fst (slow_begin path st) = Ok MustResolve
    \<and> (let st' = snd (slow_finish path t (snd (invalidate_cached path (snd (slow_begin path st))))) in
       fst (slow_finish path t (snd (invalidate_cached path (snd (slow_begin path st))))) = Panic
       \<and> (\<forall>p. fst (slow_begin p st') = Panic \<and> fst (invalidate_cached p st') = Panic))"
  using assms
  by (auto simp: slow_begin_def invalidate_cached_def slow_finish_def Let_def)

theorem invalidate_in_flight_poisons_witness:
  "fst (slow_finish ''s.c'' (Resolved 8 3) (snd (invalidate_cached ''s.c'' begun))) = Panic"
  using invalidate_in_flight_poisons [of collection_resolver_new "''s.c''" "Resolved 8 3" 8 3]
  by (simp add: collection_resolver_new_def begun_def Let_def)

text \<open>
  An operation that fails because its collection is unknown returns that error and leaves no
  cached id for the collection, so that the next attempt asks the server again. The default
  collection is never looked up.
\<close>

theorem unknown_collection_forgotten:
  assumes "\<not> cr_poisoned (snd (resolve_collection_id panic_text resolve s c st))"
    and "fst (resolve_collection_id panic_text resolve s c st) = Some (Ok (cid, mrev))"
    and "operation cid = Err err" and "is_unknown_collection err"
    and "(s, c) \<notin> {(''_default'', ''_default''), ([], [])}"
  shows "case orchestrate_memd_collection_id panic_text resolve s c operation st of (res, st') \<Rightarrow>
      res = Some (Err err) \<and> cr_fast_cache st' (full_key_path s c) = None
      \<and> cr_slow_map st' (full_key_path s c) = None
      \<and> orchestrate_memd_collection_id panic_text resolve ''_default'' ''_default'' operation st'
        = (Some (operation 0), st')"
proof -
  obtain st1 where st1: "resolve_collection_id panic_text resolve s c st = (Some (Ok (cid, mrev)), st1)"
    "\<not> cr_poisoned st1"
    using assms(1,2) by (cases "resolve_collection_id panic_text resolve s c st") auto
  obtain st2 where st2: "invalidate_cached (full_key_path s c) st1 = (Ok (), st2)"
    "cr_fast_cache st2 (full_key_path s c) = None" "cr_slow_map st2 (full_key_path s c) = None"
    using invalidate_forgets [OF st1(2), of "full_key_path s c"]
    by (cases "invalidate_cached (full_key_path s c) st1") auto
  show ?thesis
    using assms(3-5) st1 st2
    by (auto simp: orchestrate_memd_collection_id_def invalidate_collection_id_def)
qed

theorem unknown_collection_forgotten_witness:
  "case orchestrate_memd_collection_id [] (\<lambda>_ _. Ok (8, 3)) ''s'' ''c'' (\<lambda>_. Err unknown_error) cached of
     (res, st') \<Rightarrow> res = (Some (Err unknown_error) :: (CoreError, unit) result option)
       \<and> cr_fast_cache st' ''s.c'' = None"
proof -
  have r: "resolve_collection_id [] (\<lambda>_ _. Ok (8, 3)) ''s'' ''c'' cached = (Some (Ok (8, 3)), cached)"
    by (simp add: resolve_collection_id_def full_key_path_def cached_def begun_def slow_finish_def
        slow_begin_def collection_resolver_new_def rebuild_fast_cache_locked_def Let_def)
  have p: "\<not> cr_poisoned cached"
    by (simp add: cached_def begun_def slow_finish_def slow_begin_def collection_resolver_new_def Let_def)
  have "is_unknown_collection unknown_error"
    by (simp add: is_unknown_collection_def unknown_error_def memdx_error_new_def error_inspect_defs)
  then show ?thesis
    using unknown_collection_forgotten [of "[]" "\<lambda>_ _. Ok (8, 3)" "''s''" "''c''" cached 8 3
        "\<lambda>_. Err unknown_error :: (CoreError, unit) result" unknown_error] r p
    by (auto simp: full_key_path_def split: prod.splits)
qed

end
