(* ===== verification/Crud_Component.thy ===== *)
theory Crud_Component
  imports Config_Manager Retry Collections
begin

text \<open>
  Running a document operation on a connection: the key-value client that wraps a memdx client
  (\<^verbatim>\<open>kvclient.rs\<close>, \<^verbatim>\<open>kvclient_ops.rs\<close>), the choice of a client for an endpoint
  (\<^verbatim>\<open>kv_orchestration.rs\<close>), and the context that the CRUD component adds to errors
  (\<^verbatim>\<open>crudcomponent.rs\<close>). The pool that supplies clients is an argument, and so is the exchange of packets
  with the server.
\<close>

section \<open>Error context\<close>

definition with_dispatched_to :: "string \<Rightarrow> MemdxError \<Rightarrow> MemdxError" where
  "with_dispatched_to addr e = e\<lparr>me_dispatched_to := Some addr\<rparr>"

definition with_dispatched_from :: "string \<Rightarrow> MemdxError \<Rightarrow> MemdxError" where
  "with_dispatched_from addr e = e\<lparr>me_dispatched_from := Some addr\<rparr>"

definition set_doc_id :: "bytes \<Rightarrow> MemdxError \<Rightarrow> MemdxError" where
  "set_doc_id doc_id e = e\<lparr>me_doc_id := Some doc_id\<rparr>"

definition set_bucket_name :: "string \<Rightarrow> MemdxError \<Rightarrow> MemdxError" where
  "set_bucket_name name e = e\<lparr>me_bucket_name := Some name\<rparr>"

definition set_scope_name :: "string \<Rightarrow> MemdxError \<Rightarrow> MemdxError" where
  "set_scope_name name e = e\<lparr>me_scope_name := Some name\<rparr>"

definition set_collection_name :: "string \<Rightarrow> MemdxError \<Rightarrow> MemdxError" where
  "set_collection_name name e = e\<lparr>me_collection_name := Some name\<rparr>"

section \<open>Key-value client\<close>

text \<open>\<open>kc_cli_closes\<close> counts the calls that close the memdx client underneath.\<close>

record KvClient =
  kc_remote_addr :: string
  kc_local_addr :: string
  kc_supported_features :: "HelloFeature list"
  kc_selected_bucket :: "string option"
  kc_closed :: bool
  kc_cli_closes :: nat

definition kv_has_feature :: "KvClient \<Rightarrow> HelloFeature \<Rightarrow> bool" where
  "kv_has_feature self feature = (feature \<in> set (kc_supported_features self))"

definition kv_close :: "KvClient \<Rightarrow> KvClient" where
  "kv_close self =
    (case compare_exchange False True (kc_closed self) of (r, flag) \<Rightarrow>
       let self = self\<lparr>kc_closed := flag\<rparr> in
       if r \<noteq> Ok False then self else self\<lparr>kc_cli_closes := kc_cli_closes self + 1\<rparr>)"

definition ops_crud :: "KvClient \<Rightarrow> OpsCrud" where
  "ops_crud self =
    \<lparr>collections_enabled = kv_has_feature self HelloFeature.Collections,
     durability_enabled = kv_has_feature self HelloFeature.SyncReplication,
     preserve_expiry_enabled = kv_has_feature self HelloFeature.PreserveExpiry,
     ext_frames_enabled = kv_has_feature self HelloFeature.AltRequests\<rparr>"

definition kv_error :: "KvClient \<Rightarrow> Error \<Rightarrow> MemdxError" where
  "kv_error self e =
    with_dispatched_from (kc_local_addr self) (with_dispatched_to (kc_remote_addr self) (memdx_error_new e))"

definition handle_dispatch_side_result ::
    "KvClient \<Rightarrow> (Error, 'a) result \<Rightarrow> (MemdxError, 'a) result \<times> KvClient" where
  "handle_dispatch_side_result self result =
    (case result of
       Ok v \<Rightarrow> (Ok v, self)
     | Panic \<Rightarrow> (Panic, self)
     | Err e \<Rightarrow>
         (Err (kv_error self e),
          case err_kind e of ErrorKind.Dispatch _ _ \<Rightarrow> kv_close self | _ \<Rightarrow> self))"

definition handle_response_side_result ::
    "KvClient \<Rightarrow> (Error, 'a) result \<Rightarrow> (MemdxError, 'a) result \<times> KvClient" where
  "handle_response_side_result self result =
    (case result of
       Ok v \<Rightarrow> (Ok v, self)
     | Panic \<Rightarrow> (Panic, self)
     | Err e \<Rightarrow>
         (Err (kv_error self e),
          case err_kind e of
            ErrorKind.Server se \<Rightarrow> if se_kind se = ServerErrorKind.AuthStale then kv_close self else self
          | _ \<Rightarrow> self))"

text \<open>
  An operation of the client: build and dispatch the request, wait for the response, decode it.
  \<open>dispatch_packet\<close> is the outcome of handing the packet to the memdx client and, when that
  succeeds, of waiting for the response.
\<close>

definition kv_client_op ::
    "rust_env \<Rightarrow> (RequestPacket \<Rightarrow> ResponseContext option \<Rightarrow> (Error, (Error, ClientResponse) result) result)
      \<Rightarrow> CrudRequest \<Rightarrow> KvClient \<Rightarrow> (MemdxError, unit) result \<times> KvClient" where
  "kv_client_op env dispatch_packet req self =
    (case handle_dispatch_side_result self
            (and_then (crud_call (ops_crud self) req) (\<lambda>(packet, ctx). dispatch_packet packet ctx)) of
       (Ok received, self) \<Rightarrow> handle_response_side_result self (and_then received (crud_reply env req))
     | (Err e, self) \<Rightarrow> (Err e, self)
     | (Panic, self) \<Rightarrow> (Panic, self))"

section \<open>Choosing a client\<close>

text \<open>
  \<open>clients n\<close> is the n-th answer of the connection manager for the endpoint. The loop has no value if
  it never ends.
\<close>

partial_function (option) orchestrate_endpoint_kv_client ::
    "(nat \<Rightarrow> (CoreError, 'client) result) \<Rightarrow> (nat \<Rightarrow> 'client \<Rightarrow> (CoreError, 'r) result) \<Rightarrow> nat
      \<Rightarrow> (CoreError, 'r) result option" where
  "orchestrate_endpoint_kv_client clients operation n =
    (case clients n of
       Err e \<Rightarrow> Some (Err e)
     | Panic \<Rightarrow> Some Panic
     | Ok client \<Rightarrow>
         (case operation n client of
            Ok r \<Rightarrow> Some (Ok r)
          | Panic \<Rightarrow> Some Panic
          | Err e \<Rightarrow>
              (case is_memdx_error e of
                 Some memdx_err \<Rightarrow>
                   if is_dispatch_error memdx_err
                   then orchestrate_endpoint_kv_client clients operation (Suc n)
                   else Some (Err e)
               | None \<Rightarrow> Some (Err e))))"

section \<open>CRUD component\<close>

definition update_memdx_err :: "string option \<Rightarrow> MemdxError \<Rightarrow> bytes \<Rightarrow> string \<Rightarrow> string \<Rightarrow> MemdxError" where
  "update_memdx_err client_bucket e key scope_name collection_name =
    set_scope_name scope_name (set_collection_name collection_name
      (set_bucket_name (unwrap_or [] client_bucket) (set_doc_id key e)))"

text \<open>The closure each operation passes on: run it on the client and add the document to the error.\<close>

definition crud_operation ::
    "rust_env \<Rightarrow> (RequestPacket \<Rightarrow> ResponseContext option \<Rightarrow> (Error, (Error, ClientResponse) result) result)
      \<Rightarrow> CrudRequest \<Rightarrow> bytes \<Rightarrow> string \<Rightarrow> string \<Rightarrow> KvClient \<Rightarrow> (CoreError, unit) result \<times> KvClient" where
  "crud_operation env dispatch_packet req key scope_name collection_name client =
    (case kv_client_op env dispatch_packet req client of (r, client') \<Rightarrow>
       (map_err (\<lambda>e. new_contextual_memdx_error
          (update_memdx_err (kc_selected_bucket client) e key scope_name collection_name)) r, client'))"

section \<open>Facts\<close>

lemmas error_context_defs = with_dispatched_to_def with_dispatched_from_def set_doc_id_def set_bucket_name_def
  set_scope_name_def set_collection_name_def update_memdx_err_def kv_error_def memdx_error_new_def

lemma error_context_source [simp]:
  "me_source (update_memdx_err b e k s c) = me_source e" "me_source (kv_error self err) = err"
  by (simp_all add: error_context_defs)

lemma kv_close_sel [simp]: "kc_closed (kv_close self)"
  by (auto simp: kv_close_def compare_exchange_def Let_def)

lemma kv_close_idem: "kv_close (kv_close self) = kv_close self"
  by (cases self) (auto simp: kv_close_def compare_exchange_def Let_def)

text \<open>A dispatch error is worth another client; anything else ends the search.\<close>

definition dispatch_failed :: "(CoreError, 'r) result \<Rightarrow> bool" where
  "dispatch_failed r = (case r of
     Err e \<Rightarrow> (case is_memdx_error e of Some m \<Rightarrow> is_dispatch_error m | None \<Rightarrow> False) | _ \<Rightarrow> False)"

lemma orchestrate_endpoint_step:
  assumes "clients n = Ok client"
  shows "orchestrate_endpoint_kv_client clients operation n =
    (if dispatch_failed (operation n client) then orchestrate_endpoint_kv_client clients operation (Suc n)
     else Some (operation n client))"
  using assms by (subst orchestrate_endpoint_kv_client.simps)
    (auto simp: dispatch_failed_def split: result.splits option.splits)

lemma orchestrate_endpoint_skip:
  assumes "\<And>i. i < k \<Longrightarrow> \<exists>c. clients (n + i) = Ok c \<and> dispatch_failed (operation (n + i) c)"
  shows "orchestrate_endpoint_kv_client clients operation n = orchestrate_endpoint_kv_client clients operation (n + k)"
  using assms
proof (induction k arbitrary: n)
  case (Suc k)
  from Suc.prems [of 0] have "orchestrate_endpoint_kv_client clients operation n
      = orchestrate_endpoint_kv_client clients operation (Suc n)"
    by (auto simp: orchestrate_endpoint_step)
  also have "\<dots> = orchestrate_endpoint_kv_client clients operation (Suc n + k)"
  proof (rule Suc.IH)
    show "\<exists>c. clients (Suc n + i) = Ok c \<and> dispatch_failed (operation (Suc n + i) c)" if "i < k" for i
      using Suc.prems [of "Suc i"] that by simp
  qed
  finally show ?case by simp
qed simp

section \<open>Properties\<close>

text \<open>
  As long as the clients of an endpoint fail to dispatch, the operation is tried on the next one;
  the first outcome that is not a dispatch error, good or bad, is the result.
\<close>

theorem dispatch_error_tries_next_client:
  assumes "\<And>i. i < k \<Longrightarrow> \<exists>c. clients i = Ok c \<and> dispatch_failed (operation i c)"
    and "clients k = Ok client" and "\<not> dispatch_failed (operation k client)"
  shows "orchestrate_endpoint_kv_client clients operation 0 = Some (operation k client)"
  using orchestrate_endpoint_skip [of k clients 0 operation] assms
  by (simp add: orchestrate_endpoint_step)

theorem dispatch_error_tries_next_client_witness:
  "orchestrate_endpoint_kv_client (\<lambda>n. Ok n) (\<lambda>n _. if n = 0
       then Err (new_contextual_memdx_error (memdx_error_new (new_dispatch_error 1 OpCode.Get (new_message_error ''c''))))
       else Ok 7) 0 = Some (Ok (7 :: nat))"
  by (rule HOL.trans [OF dispatch_error_tries_next_client [where k = 1 and client = 1]])
     (auto simp: dispatch_failed_def memdx_error_new_def error_inspect_defs new_dispatch_error_def)

end
