(* ===== verification/Compression.thy ===== *)
theory Compression
  imports Memdx_Client Core_Error
begin

text \<open>
  Compression of document values (\<^verbatim>\<open>compressionmanager.rs\<close>, \<^verbatim>\<open>CompressionMode\<close> of \<^verbatim>\<open>options/agent.rs\<close>). The
  snappy encoder is an argument: its output, or the text of its error. So is the floating-point test
  \<^verbatim>\<open>compressed_len as f64 / len as f64 > min_ratio\<close>, and the type of the ratio with it.
\<close>

section \<open>Compressor\<close>

datatype 'ratio CompressionMode = Enabled nat 'ratio | Disabled

record 'ratio StdCompressor =
  sc_compression_enabled :: bool
  sc_compression_min_size :: nat
  sc_compression_min_ratio :: 'ratio

text \<open>\<open>zero\<close> is the ratio \<open>0.0\<close> of a compressor that is switched off.\<close>

primrec std_compressor_new :: "'ratio \<Rightarrow> 'ratio CompressionMode \<Rightarrow> 'ratio StdCompressor" where
  "std_compressor_new zero (Enabled min_size min_ratio) =
    \<lparr>sc_compression_enabled = True, sc_compression_min_size = min_size, sc_compression_min_ratio = min_ratio\<rparr>"
| "std_compressor_new zero Disabled =
    \<lparr>sc_compression_enabled = False, sc_compression_min_size = 0, sc_compression_min_ratio = zero\<rparr>"

definition compress ::
    "(bytes \<Rightarrow> (string, bytes) result) \<Rightarrow> (nat \<Rightarrow> nat \<Rightarrow> 'ratio \<Rightarrow> bool) \<Rightarrow> bool \<Rightarrow> DataTypeFlag \<Rightarrow> bytes
      \<Rightarrow> 'ratio StdCompressor \<Rightarrow> (CoreError, bytes \<times> u8) result" where
  "compress compress_vec ratio_above connection_supports_snappy datatype input self =
    (if \<not> connection_supports_snappy \<or> \<not> sc_compression_enabled self
     then Ok (input, datatype_flag_to_u8 datatype)
     else
       let datatype = datatype_flag_to_u8 datatype in
       if datatype AND datatype_flag_to_u8 Compressed \<noteq> 0 then Ok (input, datatype)
       else
         let packet_size = length input in
         if packet_size \<le> sc_compression_min_size self then Ok (input, datatype)
         else
           and_then (map_err (\<lambda>e. core_error_new (CoreErrorKind.Compression e)) (compress_vec input))
             (\<lambda>compressed_value.
              if ratio_above (length compressed_value) packet_size (sc_compression_min_ratio self)
              then Ok (input, datatype)
              else Ok (compressed_value, datatype OR datatype_flag_to_u8 Compressed)))"

section \<open>Facts\<close>

text \<open>
  A codec pair: the decoder of the read loop undoes the encoder. This is what the snappy library
  documents.
\<close>

definition undoes :: "(bytes \<Rightarrow> bytes option) \<Rightarrow> (bytes \<Rightarrow> (string, bytes) result) \<Rightarrow> bool" where
  "undoes decompress_vec compress_vec \<longleftrightarrow> (\<forall>v c. compress_vec v = Ok c \<longrightarrow> decompress_vec c = Some v)"

text \<open>Either the input is sent as it is, or compressed and marked; the second only as configured.\<close>

lemma compress_cases:
  assumes "compress compress_vec ratio_above snappy datatype input self = Ok (v, d)"
  obtains (plain) "v = input" "d = datatype_flag_to_u8 datatype"
  | (compressed) "snappy" "sc_compression_enabled self" "datatype \<noteq> Compressed"
      "length input > sc_compression_min_size self" "compress_vec input = Ok v"
      "\<not> ratio_above (length v) (length input) (sc_compression_min_ratio self)"
      "d = datatype_flag_to_u8 datatype OR datatype_flag_to_u8 Compressed"
  using assms
  by (cases "datatype"; cases "compress_vec input")
     (auto simp: compress_def Let_def split: if_splits)

lemma datatype_bits:
  "datatype \<noteq> Compressed \<Longrightarrow> datatype_flag_to_u8 datatype AND datatype_flag_to_u8 Compressed = 0"
  "(datatype_flag_to_u8 datatype OR datatype_flag_to_u8 Compressed) AND datatype_flag_to_u8 Compressed \<noteq> 0"
  "datatype \<noteq> Compressed \<Longrightarrow>
    (datatype_flag_to_u8 datatype OR datatype_flag_to_u8 Compressed) AND NOT (datatype_flag_to_u8 Compressed)
      = datatype_flag_to_u8 datatype"
  by (cases "datatype"; simp)+

text \<open>What the read loop makes of a response that carries a value the compressor produced.\<close>

lemma read_decompress_compress:
  assumes "compress compress_vec ratio_above snappy datatype input self = Ok (v, d)"
    and "datatype \<noteq> Compressed" and "undoes (ro_decompress_vec opts) compress_vec"
    and "\<not> ro_disable_decompression opts"
    and "rp_value packet = Some v" and "rp_datatype packet = d"
  shows "read_decompress opts packet =
    Ok (packet\<lparr>rp_value := Some input, rp_datatype := datatype_flag_to_u8 datatype\<rparr>)"
  using assms(1)
proof (cases rule: compress_cases)
  case plain
  then show ?thesis
    using assms(2,5,6) datatype_bits(1) [of "datatype"] by (simp add: read_decompress_def)
next
  case compressed
  then have "ro_decompress_vec opts v = Some input" using assms(3) by (auto simp: undoes_def)
  then show ?thesis
    using compressed(7) assms(2,4-6) datatype_bits(2,3) [of "datatype"] by (simp add: read_decompress_def)
qed

end
