(* ===== verification/Crud_Operations.thy ===== *)
theory Crud_Operations
  imports Crud_Component Compression
begin

text \<open>
  The document operations of the core crate, from the options of the caller (\<^verbatim>\<open>options/crud.rs\<close>) to the
  results (\<^verbatim>\<open>results/kv.rs\<close>): the methods of the key-value client (\<^verbatim>\<open>kvclient_ops.rs\<close>), the closure each
  operation of \<^verbatim>\<open>crudcomponent.rs\<close> runs on a client, and \<^verbatim>\<open>orchestrate_simple_crud\<close> around it. The builder
  methods of the options are record updates.
\<close>

section \<open>Options\<close>

record KeyOptions =
  ko_key :: bytes
  ko_scope_name :: string
  ko_collection_name :: string
  ko_retry_strategy :: RetryStrategy

type_synonym GetOptions = KeyOptions
type_synonym GetMetaOptions = KeyOptions

text \<open>The default strategy is \<^verbatim>\<open>FailFastRetryStrategy\<close>.\<close>

definition get_options_new :: "bytes \<Rightarrow> string \<Rightarrow> string \<Rightarrow> GetOptions" where
  "get_options_new key scope_name collection_name =
    \<lparr>ko_key = key, ko_scope_name = scope_name, ko_collection_name = collection_name,
     ko_retry_strategy = fail_fast\<rparr>"

record UpsertOptions = KeyOptions +
  uo_value :: bytes
  uo_flags :: u32
  uo_datatype :: DataTypeFlag
  uo_expiry :: "u32 option"
  uo_preserve_expiry :: "bool option"
  uo_cas :: "u64 option"
  uo_durability_level :: "DurabilityLevel option"

definition upsert_options_new :: "bytes \<Rightarrow> string \<Rightarrow> string \<Rightarrow> bytes \<Rightarrow> UpsertOptions" where
  "upsert_options_new key scope_name collection_name value =
    \<lparr>ko_key = key, ko_scope_name = scope_name, ko_collection_name = collection_name,
     ko_retry_strategy = fail_fast, uo_value = value, uo_flags = 0, uo_datatype = None_flag, uo_expiry = None, uo_preserve_expiry = None, uo_cas = None, uo_durability_level = None\<rparr>"

text \<open>\<open>ReplaceOptions\<close> has the fields of \<open>UpsertOptions\<close>, \<open>PrependOptions\<close> those of \<open>AppendOptions\<close> and \<open>DecrementOptions\<close> those of \<open>IncrementOptions\<close>.\<close>

type_synonym ReplaceOptions = UpsertOptions

record DeleteOptions = KeyOptions +
  do_cas :: "u64 option"
  do_durability_level :: "DurabilityLevel option"

definition delete_options_new :: "bytes \<Rightarrow> string \<Rightarrow> string \<Rightarrow> DeleteOptions" where
  "delete_options_new key scope_name collection_name =
    \<lparr>ko_key = key, ko_scope_name = scope_name, ko_collection_name = collection_name,
     ko_retry_strategy = fail_fast, do_cas = None, do_durability_level = None\<rparr>"

record GetAndLockOptions = KeyOptions +
  glo_lock_time :: u32
  glo_collection_id :: "u32 option"

definition get_and_lock_options_new :: "bytes \<Rightarrow> string \<Rightarrow> string \<Rightarrow> u32 \<Rightarrow> GetAndLockOptions" where
  "get_and_lock_options_new key scope_name collection_name lock_time =
    \<lparr>ko_key = key, ko_scope_name = scope_name, ko_collection_name = collection_name,
     ko_retry_strategy = fail_fast, glo_lock_time = lock_time, glo_collection_id = None\<rparr>"

record GetAndTouchOptions = KeyOptions +
  gto_expiry :: u32

definition get_and_touch_options_new :: "bytes \<Rightarrow> string \<Rightarrow> string \<Rightarrow> u32 \<Rightarrow> GetAndTouchOptions" where
  "get_and_touch_options_new key scope_name collection_name expiry =
    \<lparr>ko_key = key, ko_scope_name = scope_name, ko_collection_name = collection_name,
     ko_retry_strategy = fail_fast, gto_expiry = expiry\<rparr>"

record UnlockOptions = KeyOptions +
  ulo_cas :: u64

definition unlock_options_new :: "bytes \<Rightarrow> string \<Rightarrow> string \<Rightarrow> u64 \<Rightarrow> UnlockOptions" where
  "unlock_options_new key scope_name collection_name cas =
    \<lparr>ko_key = key, ko_scope_name = scope_name, ko_collection_name = collection_name,
     ko_retry_strategy = fail_fast, ulo_cas = cas\<rparr>"

record TouchOptions = KeyOptions +
  tco_expiry :: u32

definition touch_options_new :: "bytes \<Rightarrow> string \<Rightarrow> string \<Rightarrow> u32 \<Rightarrow> TouchOptions" where
  "touch_options_new key scope_name collection_name expiry =
    \<lparr>ko_key = key, ko_scope_name = scope_name, ko_collection_name = collection_name,
     ko_retry_strategy = fail_fast, tco_expiry = expiry\<rparr>"

record AddOptions = KeyOptions +
  ao_value :: bytes
  ao_flags :: u32
  ao_datatype :: DataTypeFlag
  ao_expiry :: "u32 option"
  ao_durability_level :: "DurabilityLevel option"

definition add_options_new :: "bytes \<Rightarrow> string \<Rightarrow> string \<Rightarrow> bytes \<Rightarrow> AddOptions" where
  "add_options_new key scope_name collection_name value =
    \<lparr>ko_key = key, ko_scope_name = scope_name, ko_collection_name = collection_name,
     ko_retry_strategy = fail_fast, ao_value = value, ao_flags = 0, ao_datatype = None_flag, ao_expiry = None, ao_durability_level = None\<rparr>"

record AppendOptions = KeyOptions +
  apo_value :: bytes
  apo_cas :: "u64 option"
  apo_durability_level :: "DurabilityLevel option"

definition append_options_new :: "bytes \<Rightarrow> string \<Rightarrow> string \<Rightarrow> bytes \<Rightarrow> AppendOptions" where
  "append_options_new key scope_name collection_name value =
    \<lparr>ko_key = key, ko_scope_name = scope_name, ko_collection_name = collection_name,
     ko_retry_strategy = fail_fast, apo_value = value, apo_cas = None, apo_durability_level = None\<rparr>"

type_synonym PrependOptions = AppendOptions

record IncrementOptions = KeyOptions +
  io_initial :: "u64 option"
  io_delta :: u64
  io_expiry :: "u32 option"
  io_durability_level :: "DurabilityLevel option"

definition increment_options_new :: "bytes \<Rightarrow> u64 \<Rightarrow> string \<Rightarrow> string \<Rightarrow> IncrementOptions" where
  "increment_options_new key delta scope_name collection_name =
    \<lparr>ko_key = key, ko_scope_name = scope_name, ko_collection_name = collection_name,
     ko_retry_strategy = fail_fast, io_initial = None, io_delta = delta, io_expiry = None, io_durability_level = None\<rparr>"

type_synonym DecrementOptions = IncrementOptions

record LookupInOptions = KeyOptions +
  lo_ops :: "LookupInOp list"
  lo_flags :: SubdocDocFlag

definition lookup_in_options_new :: "bytes \<Rightarrow> string \<Rightarrow> string \<Rightarrow> LookupInOp list \<Rightarrow> LookupInOptions" where
  "lookup_in_options_new key scope_name collection_name ops =
    \<lparr>ko_key = key, ko_scope_name = scope_name, ko_collection_name = collection_name,
     ko_retry_strategy = fail_fast, lo_ops = ops, lo_flags = 0\<rparr>"

record MutateInOptions = KeyOptions +
  mo_ops :: "MutateInOp list"
  mo_flags :: SubdocDocFlag
  mo_expiry :: "u32 option"
  mo_preserve_expiry :: "bool option"
  mo_cas :: "u64 option"
  mo_durability_level :: "DurabilityLevel option"

definition mutate_in_options_new :: "bytes \<Rightarrow> string \<Rightarrow> string \<Rightarrow> MutateInOp list \<Rightarrow> MutateInOptions" where
  "mutate_in_options_new key scope_name collection_name ops =
    \<lparr>ko_key = key, ko_scope_name = scope_name, ko_collection_name = collection_name,
     ko_retry_strategy = fail_fast, mo_ops = ops, mo_flags = 0, mo_expiry = None, mo_preserve_expiry = None, mo_cas = None, mo_durability_level = None\<rparr>"

section \<open>Results\<close>

text \<open>The token of \<^verbatim>\<open>mutationtoken.rs\<close> adds the vbucket to the token of the response.\<close>

record KvMutationToken =
  kmt_vbid :: u16
  kmt_vbuuid :: u64
  kmt_seqno :: u64

record GetResult =
  gr_value :: bytes
  gr_flags :: u32
  gr_datatype :: u8
  gr_cas :: u64

type_synonym GetAndLockResult = GetResult
type_synonym GetAndTouchResult = GetResult
type_synonym UnlockResult = unit
type_synonym TouchResult = u64

record GetMetaResult =
  gmr_cas :: u64
  gmr_flags :: u32
  gmr_value :: bytes
  gmr_datatype :: u8
  gmr_server_duration :: "Duration option"
  gmr_expiry :: u32
  gmr_seq_no :: u64
  gmr_deleted :: bool

text \<open>The results of upsert, delete, add, replace, append and prepend have the same two fields.\<close>

record MutationResult =
  mur_cas :: u64
  mur_mutation_token :: "KvMutationToken option"

record CounterResult =
  cor_cas :: u64
  cor_value :: u64
  cor_mutation_token :: "KvMutationToken option"

record KvSubDocResult =
  ksr_err :: "MemdxError option"
  ksr_value :: "bytes option"

record LookupInResult =
  lir_res_value :: "KvSubDocResult list"
  lir_res_cas :: u64
  lir_res_doc_is_deleted :: bool

record MutateInResult =
  mir_result_value :: "KvSubDocResult list"
  mir_result_cas :: u64
  mir_result_mutation_token :: "KvMutationToken option"

section \<open>Methods of the key-value client\<close>

text \<open>Handing a packet to the memdx client and, when that succeeds, waiting for its response.\<close>

type_synonym exchange = "RequestPacket \<Rightarrow> ResponseContext option \<Rightarrow> (Error, (Error, ClientResponse) result) result"

definition kv_call ::
    "exchange \<Rightarrow> (OpsCrud \<Rightarrow> (Error, dispatch_call) result) \<Rightarrow> (ClientResponse \<Rightarrow> (Error, 'r) result)
      \<Rightarrow> KvClient \<Rightarrow> (MemdxError, 'r) result \<times> KvClient" where
  "kv_call exchange call read_reply self =
    (case handle_dispatch_side_result self
            (and_then (call (ops_crud self)) (\<lambda>(packet, ctx). exchange packet ctx)) of
       (Ok received, self) \<Rightarrow> handle_response_side_result self (and_then received read_reply)
     | (Err e, self) \<Rightarrow> (Err e, self)
     | (Panic, self) \<Rightarrow> (Panic, self))"

definition kv_set :: "rust_env \<Rightarrow> exchange \<Rightarrow> SetRequest \<Rightarrow> KvClient \<Rightarrow> (MemdxError, MutationResponse) result \<times> KvClient" where
  "kv_set env exchange req = kv_call exchange (\<lambda>ops. set_op ops req) (set_response env)"

definition kv_get :: "rust_env \<Rightarrow> exchange \<Rightarrow> GetRequest \<Rightarrow> KvClient \<Rightarrow> (MemdxError, GetResponse) result \<times> KvClient" where
  "kv_get env exchange req = kv_call exchange (\<lambda>ops. get_op ops req) (get_response env)"

definition kv_get_meta :: "rust_env \<Rightarrow> exchange \<Rightarrow> GetMetaRequest \<Rightarrow> KvClient \<Rightarrow> (MemdxError, GetMetaResponse) result \<times> KvClient" where
  "kv_get_meta env exchange req = kv_call exchange (\<lambda>ops. get_meta ops req) (get_meta_response env)"

definition kv_delete :: "rust_env \<Rightarrow> exchange \<Rightarrow> DeleteRequest \<Rightarrow> KvClient \<Rightarrow> (MemdxError, MutationResponse) result \<times> KvClient" where
  "kv_delete env exchange req = kv_call exchange (\<lambda>ops. delete_op ops req) (delete_response env)"

definition kv_get_and_lock :: "rust_env \<Rightarrow> exchange \<Rightarrow> GetAndLockRequest \<Rightarrow> KvClient \<Rightarrow> (MemdxError, GetResponse) result \<times> KvClient" where
  "kv_get_and_lock env exchange req = kv_call exchange (\<lambda>ops. get_and_lock ops req) (get_and_lock_response env)"

definition kv_get_and_touch :: "rust_env \<Rightarrow> exchange \<Rightarrow> GetAndTouchRequest \<Rightarrow> KvClient \<Rightarrow> (MemdxError, GetResponse) result \<times> KvClient" where
  "kv_get_and_touch env exchange req = kv_call exchange (\<lambda>ops. get_and_touch ops req) (get_and_touch_response env)"

definition kv_unlock :: "rust_env \<Rightarrow> exchange \<Rightarrow> UnlockRequest \<Rightarrow> KvClient \<Rightarrow> (MemdxError, Duration option) result \<times> KvClient" where
  "kv_unlock env exchange req = kv_call exchange (\<lambda>ops. unlock_op ops req) (unlock_response env)"

definition kv_touch :: "rust_env \<Rightarrow> exchange \<Rightarrow> TouchRequest \<Rightarrow> KvClient \<Rightarrow> (MemdxError, TouchResponse) result \<times> KvClient" where
  "kv_touch env exchange req = kv_call exchange (\<lambda>ops. touch_op ops req) (touch_response env)"

definition kv_add :: "rust_env \<Rightarrow> exchange \<Rightarrow> AddRequest \<Rightarrow> KvClient \<Rightarrow> (MemdxError, MutationResponse) result \<times> KvClient" where
  "kv_add env exchange req = kv_call exchange (\<lambda>ops. add_op ops req) (add_response env)"

definition kv_replace :: "rust_env \<Rightarrow> exchange \<Rightarrow> ReplaceRequest \<Rightarrow> KvClient \<Rightarrow> (MemdxError, MutationResponse) result \<times> KvClient" where
  "kv_replace env exchange req = kv_call exchange (\<lambda>ops. replace_op ops req) (replace_response env)"

definition kv_append :: "rust_env \<Rightarrow> exchange \<Rightarrow> AppendRequest \<Rightarrow> KvClient \<Rightarrow> (MemdxError, MutationResponse) result \<times> KvClient" where
  "kv_append env exchange req = kv_call exchange (\<lambda>ops. append_op ops req) (append_response env)"

definition kv_prepend :: "rust_env \<Rightarrow> exchange \<Rightarrow> PrependRequest \<Rightarrow> KvClient \<Rightarrow> (MemdxError, MutationResponse) result \<times> KvClient" where
  "kv_prepend env exchange req = kv_call exchange (\<lambda>ops. prepend_op ops req) (prepend_response env)"

definition kv_increment :: "rust_env \<Rightarrow> exchange \<Rightarrow> IncrementRequest \<Rightarrow> KvClient \<Rightarrow> (MemdxError, CounterResponse) result \<times> KvClient" where
  "kv_increment env exchange req = kv_call exchange (\<lambda>ops. increment_op ops req) (increment_response env)"

definition kv_decrement :: "rust_env \<Rightarrow> exchange \<Rightarrow> DecrementRequest \<Rightarrow> KvClient \<Rightarrow> (MemdxError, CounterResponse) result \<times> KvClient" where
  "kv_decrement env exchange req = kv_call exchange (\<lambda>ops. decrement_op ops req) (decrement_response env)"

definition kv_lookup_in :: "rust_env \<Rightarrow> exchange \<Rightarrow> LookupInRequest \<Rightarrow> KvClient \<Rightarrow> (MemdxError, LookupInResponse) result \<times> KvClient" where
  "kv_lookup_in env exchange req = kv_call exchange (\<lambda>ops. lookup_in ops req) (lookup_in_response env)"

definition kv_mutate_in :: "rust_env \<Rightarrow> exchange \<Rightarrow> MutateInRequest \<Rightarrow> KvClient \<Rightarrow> (MemdxError, MutateInResponse) result \<times> KvClient" where
  "kv_mutate_in env exchange req = kv_call exchange (\<lambda>ops. mutate_in ops req) (mutate_in_response env)"

definition kv_get_collection_id ::
    "exchange \<Rightarrow> string \<Rightarrow> string \<Rightarrow> KvClient \<Rightarrow> (MemdxError, GetCollectionIdResponse) result \<times> KvClient" where
  "kv_get_collection_id exchange scope_name collection_name =
    kv_call exchange (\<lambda>_. Ok (get_collection_id scope_name collection_name)) get_collection_id_response"

section \<open>Operations on a client\<close>

text \<open>The parts every operation shares: the error of the client gets the document, a token its vbucket.\<close>

definition doc_error :: "KeyOptions \<Rightarrow> KvClient \<Rightarrow> MemdxError \<Rightarrow> CoreError" where
  "doc_error opts client e = new_contextual_memdx_error
    (update_memdx_err (kc_selected_bucket client) e (ko_key opts) (ko_scope_name opts) (ko_collection_name opts))"

definition map_response ::
    "KeyOptions \<Rightarrow> KvClient \<Rightarrow> ('r \<Rightarrow> 's) \<Rightarrow> (MemdxError, 'r) result \<times> KvClient \<Rightarrow> (CoreError, 's) result \<times> KvClient" where
  "map_response opts client finish res =
    (case res of (r, client') \<Rightarrow>
       (and_then (map_err (doc_error opts client) r) (\<lambda>resp. Ok (finish resp)), client'))"

definition with_vbucket :: "u16 \<Rightarrow> MutationToken option \<Rightarrow> KvMutationToken option" where
  "with_vbucket vbucket_id =
    map_option (\<lambda>t. \<lparr>kmt_vbid = vbucket_id, kmt_vbuuid = mt_vbuuid t, kmt_seqno = mt_seqno t\<rparr>)"

definition mutation_of :: "u16 \<Rightarrow> MutationResponse \<Rightarrow> MutationResult" where
  "mutation_of vbucket_id resp =
    \<lparr>mur_cas = mres_cas resp, mur_mutation_token = with_vbucket vbucket_id (mres_mutation_token resp)\<rparr>"

definition counter_of :: "u16 \<Rightarrow> CounterResponse \<Rightarrow> CounterResult" where
  "counter_of vbucket_id resp =
    \<lparr>cor_cas = ctr_cas resp, cor_value = ctr_value resp,
     cor_mutation_token = with_vbucket vbucket_id (ctr_mutation_token resp)\<rparr>"

definition document_of :: "GetResponse \<Rightarrow> GetResult" where
  "document_of resp =
    \<lparr>gr_value = gres_value resp, gr_flags = gres_flags resp, gr_datatype = gres_datatype resp, gr_cas = gres_cas resp\<rparr>"

definition sub_results :: "KeyOptions \<Rightarrow> KvClient \<Rightarrow> SubDocResult list \<Rightarrow> KvSubDocResult list" where
  "sub_results opts client = map (\<lambda>r.
    \<lparr>ksr_err = map_option (\<lambda>e. update_memdx_err (kc_selected_bucket client) (memdx_error_new e) (ko_key opts)
        (ko_scope_name opts) (ko_collection_name opts)) (sdr_err r),
     ksr_value = sdr_value r\<rparr>)"

text \<open>
  What the component takes from its surroundings: the run-time environment, the compressor of the
  configuration and the snappy encoder.
\<close>

record 'ratio Codec =
  cd_env :: rust_env
  cd_mode :: "'ratio CompressionMode"
  cd_zero :: 'ratio
  cd_compress_vec :: "bytes \<Rightarrow> (string, bytes) result"
  cd_ratio_above :: "nat \<Rightarrow> nat \<Rightarrow> 'ratio \<Rightarrow> bool"

definition compress_for :: "'ratio Codec \<Rightarrow> KvClient \<Rightarrow> DataTypeFlag \<Rightarrow> bytes \<Rightarrow> (CoreError, bytes \<times> u8) result" where
  "compress_for cd client datatype value =
    compress (cd_compress_vec cd) (cd_ratio_above cd) (kv_has_feature client HelloFeature.Snappy) datatype value
      (std_compressor_new (cd_zero cd) (cd_mode cd))"

definition with_compressed ::
    "'ratio Codec \<Rightarrow> KvClient \<Rightarrow> DataTypeFlag \<Rightarrow> bytes \<Rightarrow> (bytes \<Rightarrow> u8 \<Rightarrow> (CoreError, 's) result \<times> KvClient)
      \<Rightarrow> (CoreError, 's) result \<times> KvClient" where
  "with_compressed cd client datatype value send =
    (case compress_for cd client datatype value of
       Ok (value, datatype) \<Rightarrow> send value datatype
     | Err e \<Rightarrow> (Err e, client)
     | Panic \<Rightarrow> (Panic, client))"

definition upsert_on ::
    "'ratio Codec \<Rightarrow> exchange \<Rightarrow> UpsertOptions \<Rightarrow> u32 \<Rightarrow> u16 \<Rightarrow> KvClient \<Rightarrow> (CoreError, MutationResult) result \<times> KvClient" where
  "upsert_on cd exchange opts collection_id vbucket_id client =
    with_compressed cd client (uo_datatype opts) (uo_value opts) (\<lambda>value datatype.
    map_response (KeyOptions.truncate opts) client (mutation_of vbucket_id)
      (kv_set (cd_env cd) exchange
        \<lparr>kr_collection_id = collection_id, kr_key = ko_key opts,
         kr_vbucket_id = vbucket_id, kr_on_behalf_of = None,
         mr_durability_level = uo_durability_level opts, mr_durability_level_timeout = None,
         set_flags = uo_flags opts, set_value = value, set_datatype = datatype,
         set_expiry = uo_expiry opts, set_preserve_expiry = uo_preserve_expiry opts,
         set_cas = uo_cas opts\<rparr> client))"

definition get_on ::
    "'ratio Codec \<Rightarrow> exchange \<Rightarrow> GetOptions \<Rightarrow> u32 \<Rightarrow> u16 \<Rightarrow> KvClient \<Rightarrow> (CoreError, GetResult) result \<times> KvClient" where
  "get_on cd exchange opts collection_id vbucket_id client =
    map_response opts client document_of
      (kv_get (cd_env cd) exchange
        \<lparr>kr_collection_id = collection_id, kr_key = ko_key opts,
         kr_vbucket_id = vbucket_id, kr_on_behalf_of = None\<rparr> client)"

definition get_meta_on ::
    "'ratio Codec \<Rightarrow> exchange \<Rightarrow> GetMetaOptions \<Rightarrow> u32 \<Rightarrow> u16 \<Rightarrow> KvClient \<Rightarrow> (CoreError, GetMetaResult) result \<times> KvClient" where
  "get_meta_on cd exchange opts collection_id vbucket_id client =
    map_response opts client (\<lambda>resp. \<lparr>gmr_cas = gm_cas resp, gmr_flags = gm_flags resp, gmr_value = gm_value resp,
        gmr_datatype = gm_datatype resp, gmr_server_duration = gm_server_duration resp, gmr_expiry = gm_expiry resp,
        gmr_seq_no = gm_seq_no resp, gmr_deleted = gm_deleted resp\<rparr>)
      (kv_get_meta (cd_env cd) exchange
        \<lparr>kr_collection_id = collection_id, kr_key = ko_key opts,
         kr_vbucket_id = vbucket_id, kr_on_behalf_of = None\<rparr> client)"

definition delete_on ::
    "'ratio Codec \<Rightarrow> exchange \<Rightarrow> DeleteOptions \<Rightarrow> u32 \<Rightarrow> u16 \<Rightarrow> KvClient \<Rightarrow> (CoreError, MutationResult) result \<times> KvClient" where
  "delete_on cd exchange opts collection_id vbucket_id client =
    map_response (KeyOptions.truncate opts) client (mutation_of vbucket_id)
      (kv_delete (cd_env cd) exchange
        \<lparr>kr_collection_id = collection_id, kr_key = ko_key opts,
         kr_vbucket_id = vbucket_id, kr_on_behalf_of = None,
         mr_durability_level = do_durability_level opts, mr_durability_level_timeout = None,
         del_cas = do_cas opts\<rparr> client)"

definition get_and_lock_on ::
    "'ratio Codec \<Rightarrow> exchange \<Rightarrow> GetAndLockOptions \<Rightarrow> u32 \<Rightarrow> u16 \<Rightarrow> KvClient \<Rightarrow> (CoreError, GetAndLockResult) result \<times> KvClient" where
  "get_and_lock_on cd exchange opts collection_id vbucket_id client =
    map_response (KeyOptions.truncate opts) client document_of
      (kv_get_and_lock (cd_env cd) exchange
        \<lparr>kr_collection_id = collection_id, kr_key = ko_key opts,
         kr_vbucket_id = vbucket_id, kr_on_behalf_of = None,
         gal_lock_time = glo_lock_time opts\<rparr> client)"

definition get_and_touch_on ::
    "'ratio Codec \<Rightarrow> exchange \<Rightarrow> GetAndTouchOptions \<Rightarrow> u32 \<Rightarrow> u16 \<Rightarrow> KvClient \<Rightarrow> (CoreError, GetAndTouchResult) result \<times> KvClient" where
  "get_and_touch_on cd exchange opts collection_id vbucket_id client =
    map_response (KeyOptions.truncate opts) client document_of
      (kv_get_and_touch (cd_env cd) exchange
        \<lparr>kr_collection_id = collection_id, kr_key = ko_key opts,
         kr_vbucket_id = vbucket_id, kr_on_behalf_of = None, gat_expiry = gto_expiry opts\<rparr> client)"

definition unlock_on ::
    "'ratio Codec \<Rightarrow> exchange \<Rightarrow> UnlockOptions \<Rightarrow> u32 \<Rightarrow> u16 \<Rightarrow> KvClient \<Rightarrow> (CoreError, UnlockResult) result \<times> KvClient" where
  "unlock_on cd exchange opts collection_id vbucket_id client =
    map_response (KeyOptions.truncate opts) client (\<lambda>_. ())
      (kv_unlock (cd_env cd) exchange
        \<lparr>kr_collection_id = collection_id, kr_key = ko_key opts,
         kr_vbucket_id = vbucket_id, kr_on_behalf_of = None, unl_cas = ulo_cas opts\<rparr> client)"

definition touch_on ::
    "'ratio Codec \<Rightarrow> exchange \<Rightarrow> TouchOptions \<Rightarrow> u32 \<Rightarrow> u16 \<Rightarrow> KvClient \<Rightarrow> (CoreError, TouchResult) result \<times> KvClient" where
  "touch_on cd exchange opts collection_id vbucket_id client =
    map_response (KeyOptions.truncate opts) client tres_cas
      (kv_touch (cd_env cd) exchange
        \<lparr>kr_collection_id = collection_id, kr_key = ko_key opts,
         kr_vbucket_id = vbucket_id, kr_on_behalf_of = None, tch_expiry = tco_expiry opts\<rparr> client)"

definition add_on ::
    "'ratio Codec \<Rightarrow> exchange \<Rightarrow> AddOptions \<Rightarrow> u32 \<Rightarrow> u16 \<Rightarrow> KvClient \<Rightarrow> (CoreError, MutationResult) result \<times> KvClient" where
  "add_on cd exchange opts collection_id vbucket_id client =
    with_compressed cd client (ao_datatype opts) (ao_value opts) (\<lambda>value datatype.
    map_response (KeyOptions.truncate opts) client (mutation_of vbucket_id)
      (kv_add (cd_env cd) exchange
        \<lparr>kr_collection_id = collection_id, kr_key = ko_key opts,
         kr_vbucket_id = vbucket_id, kr_on_behalf_of = None,
         mr_durability_level = ao_durability_level opts, mr_durability_level_timeout = None,
         add_flags = ao_flags opts, add_value = value, add_datatype = datatype,
         add_expiry = ao_expiry opts\<rparr> client))"

definition replace_on ::
    "'ratio Codec \<Rightarrow> exchange \<Rightarrow> ReplaceOptions \<Rightarrow> u32 \<Rightarrow> u16 \<Rightarrow> KvClient \<Rightarrow> (CoreError, MutationResult) result \<times> KvClient" where
  "replace_on cd exchange opts collection_id vbucket_id client =
    with_compressed cd client (uo_datatype opts) (uo_value opts) (\<lambda>value datatype.
    map_response (KeyOptions.truncate opts) client (mutation_of vbucket_id)
      (kv_replace (cd_env cd) exchange
        \<lparr>kr_collection_id = collection_id, kr_key = ko_key opts,
         kr_vbucket_id = vbucket_id, kr_on_behalf_of = None,
         mr_durability_level = uo_durability_level opts, mr_durability_level_timeout = None,
         set_flags = uo_flags opts, set_value = value, set_datatype = datatype,
         set_expiry = uo_expiry opts, set_preserve_expiry = uo_preserve_expiry opts,
         set_cas = uo_cas opts\<rparr> client))"

definition append_on ::
    "'ratio Codec \<Rightarrow> exchange \<Rightarrow> AppendOptions \<Rightarrow> u32 \<Rightarrow> u16 \<Rightarrow> KvClient \<Rightarrow> (CoreError, MutationResult) result \<times> KvClient" where
  "append_on cd exchange opts collection_id vbucket_id client =
    with_compressed cd client None_flag (apo_value opts) (\<lambda>value datatype.
    map_response (KeyOptions.truncate opts) client (mutation_of vbucket_id)
      (kv_append (cd_env cd) exchange
        \<lparr>kr_collection_id = collection_id, kr_key = ko_key opts,
         kr_vbucket_id = vbucket_id, kr_on_behalf_of = None,
         mr_durability_level = apo_durability_level opts, mr_durability_level_timeout = None,
         app_value = value, app_datatype = datatype, app_cas = apo_cas opts\<rparr> client))"

definition prepend_on ::
    "'ratio Codec \<Rightarrow> exchange \<Rightarrow> PrependOptions \<Rightarrow> u32 \<Rightarrow> u16 \<Rightarrow> KvClient \<Rightarrow> (CoreError, MutationResult) result \<times> KvClient" where
  "prepend_on cd exchange opts collection_id vbucket_id client =
    with_compressed cd client None_flag (apo_value opts) (\<lambda>value datatype.
    map_response (KeyOptions.truncate opts) client (mutation_of vbucket_id)
      (kv_prepend (cd_env cd) exchange
        \<lparr>kr_collection_id = collection_id, kr_key = ko_key opts,
         kr_vbucket_id = vbucket_id, kr_on_behalf_of = None,
         mr_durability_level = apo_durability_level opts, mr_durability_level_timeout = None,
         app_value = value, app_datatype = datatype, app_cas = apo_cas opts\<rparr> client))"

definition increment_on ::
    "'ratio Codec \<Rightarrow> exchange \<Rightarrow> IncrementOptions \<Rightarrow> u32 \<Rightarrow> u16 \<Rightarrow> KvClient \<Rightarrow> (CoreError, CounterResult) result \<times> KvClient" where
  "increment_on cd exchange opts collection_id vbucket_id client =
    map_response (KeyOptions.truncate opts) client (counter_of vbucket_id)
      (kv_increment (cd_env cd) exchange
        \<lparr>kr_collection_id = collection_id, kr_key = ko_key opts,
         kr_vbucket_id = vbucket_id, kr_on_behalf_of = None,
         mr_durability_level = io_durability_level opts, mr_durability_level_timeout = None,
         inc_initial = io_initial opts, inc_delta = io_delta opts,
         inc_expiry = io_expiry opts\<rparr> client)"

definition decrement_on ::
    "'ratio Codec \<Rightarrow> exchange \<Rightarrow> DecrementOptions \<Rightarrow> u32 \<Rightarrow> u16 \<Rightarrow> KvClient \<Rightarrow> (CoreError, CounterResult) result \<times> KvClient" where
  "decrement_on cd exchange opts collection_id vbucket_id client =
    map_response (KeyOptions.truncate opts) client (counter_of vbucket_id)
      (kv_decrement (cd_env cd) exchange
        \<lparr>kr_collection_id = collection_id, kr_key = ko_key opts,
         kr_vbucket_id = vbucket_id, kr_on_behalf_of = None,
         mr_durability_level = io_durability_level opts, mr_durability_level_timeout = None,
         inc_initial = io_initial opts, inc_delta = io_delta opts,
         inc_expiry = io_expiry opts\<rparr> client)"

definition lookup_in_on ::
    "'ratio Codec \<Rightarrow> exchange \<Rightarrow> LookupInOptions \<Rightarrow> u32 \<Rightarrow> u16 \<Rightarrow> KvClient \<Rightarrow> (CoreError, LookupInResult) result \<times> KvClient" where
  "lookup_in_on cd exchange opts collection_id vbucket_id client =
    map_response (KeyOptions.truncate opts) client (\<lambda>resp. \<lparr>lir_res_value = sub_results (KeyOptions.truncate opts) client (lres_ops resp),
        lir_res_cas = lres_cas resp, lir_res_doc_is_deleted = lres_doc_is_deleted resp\<rparr>)
      (kv_lookup_in (cd_env cd) exchange
        \<lparr>kr_collection_id = collection_id, kr_key = ko_key opts,
         kr_vbucket_id = vbucket_id, kr_on_behalf_of = None, lir_flags = lo_flags opts,
         lir_ops = lo_ops opts\<rparr> client)"

definition mutate_in_on ::
    "'ratio Codec \<Rightarrow> exchange \<Rightarrow> MutateInOptions \<Rightarrow> u32 \<Rightarrow> u16 \<Rightarrow> KvClient \<Rightarrow> (CoreError, MutateInResult) result \<times> KvClient" where
  "mutate_in_on cd exchange opts collection_id vbucket_id client =
    map_response (KeyOptions.truncate opts) client (\<lambda>resp. \<lparr>mir_result_value = sub_results (KeyOptions.truncate opts) client (mir_res_ops resp),
        mir_result_cas = mir_res_cas resp,
        mir_result_mutation_token = with_vbucket vbucket_id (mir_res_mutation_token resp)\<rparr>)
      (kv_mutate_in (cd_env cd) exchange
        \<lparr>kr_collection_id = collection_id, kr_key = ko_key opts,
         kr_vbucket_id = vbucket_id, kr_on_behalf_of = None,
         mr_durability_level = mo_durability_level opts, mr_durability_level_timeout = None,
         mir_flags = mo_flags opts, mir_ops = mo_ops opts, mir_expiry = mo_expiry opts,
         mir_preserve_expiry = mo_preserve_expiry opts, mir_cas = mo_cas opts\<rparr> client)"

section \<open>Orchestration\<close>

text \<open>
  What the attempts of a call find: the n-th attempt sees a cache of collections, the answer of the
  inner resolver, a routing table, an error map, and for an endpoint a sequence of clients; the
  exchange of a packet on the i-th client of the n-th attempt. Other tasks change these between
  attempts, so they are independent of one another.
\<close>

record 'cfg World =
  w_crc32 :: "bytes \<Rightarrow> u32"
  w_parse_terse :: "string \<Rightarrow> 'cfg option"
  w_panic_text :: string
  w_cache :: "nat \<Rightarrow> CollectionResolverCached"
  w_resolve :: "nat \<Rightarrow> string \<Rightarrow> string \<Rightarrow> (CoreError, u32 \<times> u64) result"
  w_router :: "nat \<Rightarrow> StdVbucketRouter"
  w_err_map :: "nat \<Rightarrow> ErrMap option"
  w_clients :: "nat \<Rightarrow> string \<Rightarrow> nat \<Rightarrow> (CoreError, KvClient) result"
  w_exchange :: "nat \<Rightarrow> nat \<Rightarrow> exchange"

definition crud_attempt ::
    "'cfg World \<Rightarrow> KeyOptions \<Rightarrow> (exchange \<Rightarrow> u32 \<Rightarrow> u16 \<Rightarrow> KvClient \<Rightarrow> (CoreError, 'r) result \<times> KvClient) \<Rightarrow> nat
      \<Rightarrow> (CoreError, 'r option) result" where
  "crud_attempt w opts operation n =
    (case fst (orchestrate_memd_collection_id (w_panic_text w) (w_resolve w n) (ko_scope_name opts)
        (ko_collection_name opts)
        (\<lambda>collection_id.
           fst (orchestrate_memd_routing (w_crc32 w) (w_parse_terse w) (w_router w n) (ko_key opts) 0
             (\<lambda>endpoint vb_id.
                awaited (orchestrate_endpoint_kv_client (w_clients w n endpoint)
                  (\<lambda>i client. fst (operation (w_exchange w n i) collection_id vb_id client)) 0))))
        (w_cache w n)) of
       Some r \<Rightarrow> r
     | None \<Rightarrow> Ok None)"

definition orchestrate_simple_crud ::
    "'cfg World \<Rightarrow> KeyOptions \<Rightarrow> RetryRequest \<Rightarrow> (exchange \<Rightarrow> u32 \<Rightarrow> u16 \<Rightarrow> KvClient \<Rightarrow> (CoreError, 'r) result \<times> KvClient)
      \<Rightarrow> (CoreError, 'r) result option" where
  "orchestrate_simple_crud w opts retry_info operation =
    (case orchestrate_retries (ko_retry_strategy opts) (w_err_map w) (crud_attempt w opts operation) 0 retry_info [] of
       Some (r, _) \<Rightarrow> returned r
     | None \<Rightarrow> None)"

text \<open>The sixteen operations.\<close>

definition crud_upsert :: "'ratio Codec \<Rightarrow> 'cfg World \<Rightarrow> UpsertOptions \<Rightarrow> (CoreError, MutationResult) result option" where
  "crud_upsert cd w opts = orchestrate_simple_crud w (KeyOptions.truncate opts) (retry_request_new ''upsert'' False)
     (\<lambda>exchange. upsert_on cd exchange opts)"

definition crud_get :: "'ratio Codec \<Rightarrow> 'cfg World \<Rightarrow> GetOptions \<Rightarrow> (CoreError, GetResult) result option" where
  "crud_get cd w opts = orchestrate_simple_crud w opts (retry_request_new ''get'' True)
     (\<lambda>exchange. get_on cd exchange opts)"

definition crud_get_meta :: "'ratio Codec \<Rightarrow> 'cfg World \<Rightarrow> GetMetaOptions \<Rightarrow> (CoreError, GetMetaResult) result option" where
  "crud_get_meta cd w opts = orchestrate_simple_crud w opts (retry_request_new ''get_meta'' True)
     (\<lambda>exchange. get_meta_on cd exchange opts)"

definition crud_delete :: "'ratio Codec \<Rightarrow> 'cfg World \<Rightarrow> DeleteOptions \<Rightarrow> (CoreError, MutationResult) result option" where
  "crud_delete cd w opts = orchestrate_simple_crud w (KeyOptions.truncate opts) (retry_request_new ''delete'' False)
     (\<lambda>exchange. delete_on cd exchange opts)"

definition crud_get_and_lock :: "'ratio Codec \<Rightarrow> 'cfg World \<Rightarrow> GetAndLockOptions \<Rightarrow> (CoreError, GetAndLockResult) result option" where
  "crud_get_and_lock cd w opts = orchestrate_simple_crud w (KeyOptions.truncate opts) (retry_request_new ''get_and_lock'' False)
     (\<lambda>exchange. get_and_lock_on cd exchange opts)"

definition crud_get_and_touch :: "'ratio Codec \<Rightarrow> 'cfg World \<Rightarrow> GetAndTouchOptions \<Rightarrow> (CoreError, GetAndTouchResult) result option" where
  "crud_get_and_touch cd w opts = orchestrate_simple_crud w (KeyOptions.truncate opts) (retry_request_new ''get_and_touch'' False)
     (\<lambda>exchange. get_and_touch_on cd exchange opts)"

definition crud_unlock :: "'ratio Codec \<Rightarrow> 'cfg World \<Rightarrow> UnlockOptions \<Rightarrow> (CoreError, UnlockResult) result option" where
  "crud_unlock cd w opts = orchestrate_simple_crud w (KeyOptions.truncate opts) (retry_request_new ''unlock'' False)
     (\<lambda>exchange. unlock_on cd exchange opts)"

definition crud_touch :: "'ratio Codec \<Rightarrow> 'cfg World \<Rightarrow> TouchOptions \<Rightarrow> (CoreError, TouchResult) result option" where
  "crud_touch cd w opts = orchestrate_simple_crud w (KeyOptions.truncate opts) (retry_request_new ''touch'' False)
     (\<lambda>exchange. touch_on cd exchange opts)"

definition crud_add :: "'ratio Codec \<Rightarrow> 'cfg World \<Rightarrow> AddOptions \<Rightarrow> (CoreError, MutationResult) result option" where
  "crud_add cd w opts = orchestrate_simple_crud w (KeyOptions.truncate opts) (retry_request_new ''add'' False)
     (\<lambda>exchange. add_on cd exchange opts)"

definition crud_replace :: "'ratio Codec \<Rightarrow> 'cfg World \<Rightarrow> ReplaceOptions \<Rightarrow> (CoreError, MutationResult) result option" where
  "crud_replace cd w opts = orchestrate_simple_crud w (KeyOptions.truncate opts) (retry_request_new ''replace'' False)
     (\<lambda>exchange. replace_on cd exchange opts)"

definition crud_append :: "'ratio Codec \<Rightarrow> 'cfg World \<Rightarrow> AppendOptions \<Rightarrow> (CoreError, MutationResult) result option" where
  "crud_append cd w opts = orchestrate_simple_crud w (KeyOptions.truncate opts) (retry_request_new ''append'' False)
     (\<lambda>exchange. append_on cd exchange opts)"

definition crud_prepend :: "'ratio Codec \<Rightarrow> 'cfg World \<Rightarrow> PrependOptions \<Rightarrow> (CoreError, MutationResult) result option" where
  "crud_prepend cd w opts = orchestrate_simple_crud w (KeyOptions.truncate opts) (retry_request_new ''prepend'' False)
     (\<lambda>exchange. prepend_on cd exchange opts)"

definition crud_increment :: "'ratio Codec \<Rightarrow> 'cfg World \<Rightarrow> IncrementOptions \<Rightarrow> (CoreError, CounterResult) result option" where
  "crud_increment cd w opts = orchestrate_simple_crud w (KeyOptions.truncate opts) (retry_request_new ''increment'' False)
     (\<lambda>exchange. increment_on cd exchange opts)"

definition crud_decrement :: "'ratio Codec \<Rightarrow> 'cfg World \<Rightarrow> DecrementOptions \<Rightarrow> (CoreError, CounterResult) result option" where
  "crud_decrement cd w opts = orchestrate_simple_crud w (KeyOptions.truncate opts) (retry_request_new ''decrement'' False)
     (\<lambda>exchange. decrement_on cd exchange opts)"

definition crud_lookup_in :: "'ratio Codec \<Rightarrow> 'cfg World \<Rightarrow> LookupInOptions \<Rightarrow> (CoreError, LookupInResult) result option" where
  "crud_lookup_in cd w opts = orchestrate_simple_crud w (KeyOptions.truncate opts) (retry_request_new ''lookup_in'' True)
     (\<lambda>exchange. lookup_in_on cd exchange opts)"

definition crud_mutate_in :: "'ratio Codec \<Rightarrow> 'cfg World \<Rightarrow> MutateInOptions \<Rightarrow> (CoreError, MutateInResult) result option" where
  "crud_mutate_in cd w opts = orchestrate_simple_crud w (KeyOptions.truncate opts) (retry_request_new ''mutate_in'' False)
     (\<lambda>exchange. mutate_in_on cd exchange opts)"

section \<open>Collection identifiers\<close>

text \<open>\<open>orchestrate_kv_client\<close> is the same loop, over the clients of any endpoint.\<close>

abbreviation orchestrate_kv_client ::
    "(nat \<Rightarrow> (CoreError, 'client) result) \<Rightarrow> (nat \<Rightarrow> 'client \<Rightarrow> (CoreError, 'r) result) \<Rightarrow> nat
      \<Rightarrow> (CoreError, 'r) result option" where
  "orchestrate_kv_client \<equiv> orchestrate_endpoint_kv_client"

definition collection_error :: "string \<Rightarrow> string \<Rightarrow> KvClient \<Rightarrow> MemdxError \<Rightarrow> CoreError" where
  "collection_error scope_name collection_name client e = new_contextual_memdx_error
    (set_scope_name scope_name (set_collection_name collection_name
      (set_bucket_name (unwrap_or [] (kc_selected_bucket client)) e)))"

definition get_collection_id_on ::
    "exchange \<Rightarrow> string \<Rightarrow> string \<Rightarrow> KvClient \<Rightarrow> (CoreError, GetCollectionIdResponse) result" where
  "get_collection_id_on exchange scope_name collection_name client =
    map_err (collection_error scope_name collection_name client)
      (fst (kv_get_collection_id exchange scope_name collection_name client))"

definition unknown_collection_name :: "CoreError \<Rightarrow> bool" where
  "unknown_collection_name err =
    (case is_memdx_error err of
       Some e \<Rightarrow> is_server_error_kind ServerErrorKind.UnknownCollectionName e
     | None \<Rightarrow> False)"

text \<open>\<open>attempts n\<close> is the outcome of the n-th turn, with no value if it never ends.\<close>

partial_function (option) get_collection_id_loop ::
    "RetryStrategy \<Rightarrow> (nat \<Rightarrow> ErrMap option) \<Rightarrow> (nat \<Rightarrow> (CoreError, 'r) result option) \<Rightarrow> nat \<Rightarrow> RetryRequest
      \<Rightarrow> (CoreError, 'r) result option" where
  "get_collection_id_loop strategy cell attempts n retry_info =
    (case attempts n of
       None \<Rightarrow> None
     | Some (Ok r) \<Rightarrow> Some (Ok r)
     | Some Panic \<Rightarrow> Some Panic
     | Some (Err err) \<Rightarrow>
         if unknown_collection_name err then Some (Err err)
         else
           (case retry_decision strategy (cell n) retry_info err of
              (Some _, retry_info) \<Rightarrow> get_collection_id_loop strategy cell attempts (Suc n) retry_info
            | (None, retry_info) \<Rightarrow>
                Some (Err (if rr_retry_attempts retry_info > 0 then set_retry_info retry_info err else err))))"

definition crud_get_collection_id ::
    "RetryStrategy \<Rightarrow> (nat \<Rightarrow> ErrMap option) \<Rightarrow> (nat \<Rightarrow> nat \<Rightarrow> (CoreError, KvClient) result) \<Rightarrow> (nat \<Rightarrow> nat \<Rightarrow> exchange)
      \<Rightarrow> string \<Rightarrow> string \<Rightarrow> (CoreError, GetCollectionIdResponse) result option" where
  "crud_get_collection_id strategy cell clients exchange scope_name collection_name =
    get_collection_id_loop strategy cell
      (\<lambda>n. orchestrate_kv_client (clients n)
         (\<lambda>i client. get_collection_id_on (exchange n i) scope_name collection_name client) 0)
      0 (retry_request_new ''get_collection_id'' True)"

section \<open>Facts\<close>

text \<open>A response of the server as the read loop hands it over.\<close>

definition received :: "ReadLoopOptions \<Rightarrow> ResponsePacket \<Rightarrow> ResponseContext option \<Rightarrow> (Error, ClientResponse) result" where
  "received ropts packet ctx =
    and_then (read_decompress ropts packet) (\<lambda>packet. Ok \<lparr>cr_packet = packet, cr_response_context = ctx\<rparr>)"

lemma kv_call_Ok:
  "fst (kv_call exchange call read_reply self) = Ok r \<longleftrightarrow>
    (\<exists>packet ctx resp. call (ops_crud self) = Ok (packet, ctx) \<and> exchange packet ctx = Ok (Ok resp) \<and> read_reply resp = Ok r)"
  by (cases "call (ops_crud self)")
     (force simp: kv_call_def handle_dispatch_side_result_def handle_response_side_result_def res_simps
       split: prod.splits result.splits)+

lemma kv_call_outcome:
  assumes "\<And>resp. crud_reply env req resp = outcome (read_reply resp)"
  shows "kv_client_op env exchange req self =
    (case kv_call exchange (\<lambda>ops. crud_call ops req) read_reply self of (r, self') \<Rightarrow> (outcome r, self'))"
proof -
  have "and_then x (crud_reply env req) = outcome (and_then x read_reply)" for x
    by (cases x) (simp_all add: assms)
  then show ?thesis
    by (auto simp: kv_client_op_def kv_call_def handle_dispatch_side_result_def handle_response_side_result_def
        split: result.splits prod.splits)
qed

lemma map_response_Ok:
  "fst (map_response opts client finish res) = Ok x \<longleftrightarrow> (\<exists>r. fst res = Ok r \<and> x = finish r)"
  by (cases "fst res") (auto simp: map_response_def res_simps split: prod.splits)

lemma with_compressed_Ok:
  "fst (with_compressed cd client t v send) = Ok x \<longleftrightarrow>
    (\<exists>v' t'. compress_for cd client t v = Ok (v', t') \<and> fst (send v' t') = Ok x)"
  by (auto simp: with_compressed_def split: result.splits prod.splits)

text \<open>A call that succeeds got its result from one operation, on a client of the endpoint the key is routed to.\<close>

lemma endpoint_Ok:
  assumes "orchestrate_endpoint_kv_client clients operation n = Some (Ok r)"
  shows "\<exists>i client. clients i = Ok client \<and> operation i client = Ok r"
  using orchestrate_endpoint_kv_client.raw_induct [OF _ assms, where
      P = "\<lambda>clients operation n out. \<forall>r. out = Ok r \<longrightarrow> (\<exists>i client. clients i = Ok client \<and> operation i client = Ok r)"]
  by (fastforce split: result.splits option.splits if_splits)

lemma awaited_Ok: "awaited x = Ok (Some r) \<longleftrightarrow> x = Some (Ok r)"
  by (cases x rule: awaited.cases) (auto simp: res_simps)

lemma returned_Ok: "returned x = Some (Ok r) \<longleftrightarrow> x = Ok (Some r)"
  by (cases x rule: returned.cases) auto

lemma routing_Ok:
  "fst (orchestrate_memd_routing crc32 parse_terse vb key i operation) = Ok r \<longleftrightarrow>
    (\<exists>endpoint vb_id. dispatch_by_key crc32 vb key i = Ok (endpoint, vb_id) \<and> operation endpoint vb_id = Ok r)"
  by (auto simp: orchestrate_memd_routing_def Let_def split: result.splits option.splits)

lemma collection_Ok:
  assumes "fst (orchestrate_memd_collection_id panic_text resolve s c operation st) = Some (Ok r)"
  shows "\<exists>collection_id. operation collection_id = Ok r"
  using assms
  by (auto simp: orchestrate_memd_collection_id_def invalidate_collection_id_def
      split: if_splits prod.splits result.splits option.splits)

lemma simple_crud_Ok:
  assumes "orchestrate_simple_crud w opts retry_info operation = Some (Ok r)"
  shows "\<exists>n i endpoint client collection_id vb_id.
    dispatch_by_key (w_crc32 w) (w_router w n) (ko_key opts) 0 = Ok (endpoint, vb_id)
    \<and> w_clients w n endpoint i = Ok client
    \<and> fst (operation (w_exchange w n i) collection_id vb_id client) = Ok r"
proof -
  obtain slept where "orchestrate_retries (ko_retry_strategy opts) (w_err_map w) (crud_attempt w opts operation) 0
      retry_info [] = Some (Ok (Some r), slept)"
    using assms by (auto simp: orchestrate_simple_crud_def returned_Ok split: option.splits)
  from retries_outcome [OF this] obtain n where "crud_attempt w opts operation n = Ok (Some r)"
    by (auto simp: loop_outcome_def)
  then show ?thesis
    by (fastforce simp: crud_attempt_def routing_Ok awaited_Ok split: option.splits
        dest!: collection_Ok endpoint_Ok)
qed

text \<open>The same call without the value of its result.\<close>

definition value_dropped :: "('e, 'r) result \<times> 'c \<Rightarrow> ('e, unit) result \<times> 'c" where
  "value_dropped res = (outcome (fst res), snd res)"

lemma map_response_outcome:
  assumes "\<And>resp. crud_reply env req resp = outcome (read_reply resp)"
  shows "value_dropped (map_response opts client finish (kv_call exchange (\<lambda>ops. crud_call ops req) read_reply client))
    = crud_operation env exchange req (ko_key opts) (ko_scope_name opts) (ko_collection_name opts) client"
proof -
  have "outcome (and_then (map_err f r) (\<lambda>resp. Ok (finish resp))) = map_err f (outcome r)" for f :: "MemdxError \<Rightarrow> CoreError" and r
    by (cases r) simp_all
  then show ?thesis
    by (simp add: value_dropped_def map_response_def crud_operation_def kv_call_outcome [OF assms] doc_error_def [abs_def]
        split: prod.splits)
qed

lemma value_dropped_compressed:
  "compress_for cd client t v = Ok (v', t') \<Longrightarrow> with_compressed cd client t v send = send v' t'"
  by (simp add: with_compressed_def)

section \<open>The document of an upsert\<close>

lemma upsert_sends:
  assumes "fst (upsert_on cd exchange opts collection_id vbucket_id client) = Ok r"
  shows "\<exists>packet ctx resp v d. exchange packet ctx = Ok (Ok resp)
    \<and> compress_for cd client (uo_datatype opts) (uo_value opts) = Ok (v, d)
    \<and> rq_op_code packet = OpCode.Set \<and> rq_value packet = Some v \<and> rq_datatype packet = d
    \<and> rq_extras packet = Some (u32_to_be (uo_flags opts) @ u32_to_be (unwrap_or 0 (uo_expiry opts)))"
proof -
  let ?req = "\<lambda>v d. \<lparr>kr_collection_id = collection_id, kr_key = ko_key opts, kr_vbucket_id = vbucket_id,
    kr_on_behalf_of = None, mr_durability_level = uo_durability_level opts, mr_durability_level_timeout = None,
    set_flags = uo_flags opts, set_value = v, set_datatype = d, set_expiry = uo_expiry opts,
    set_preserve_expiry = uo_preserve_expiry opts, set_cas = uo_cas opts\<rparr>"
  obtain v d where v: "compress_for cd client (uo_datatype opts) (uo_value opts) = Ok (v, d)"
    and "fst (map_response (KeyOptions.truncate opts) client (mutation_of vbucket_id)
      (kv_set (cd_env cd) exchange (?req v d) client)) = Ok r"
    using assms unfolding upsert_on_def with_compressed_Ok by blast
  then obtain packet ctx resp where
    sent: "set_op (ops_crud client) (?req v d) = Ok (packet, ctx)" "exchange packet ctx = Ok (Ok resp)"
    unfolding map_response_Ok kv_set_def kv_call_Ok by blast
  have "rq_op_code packet = OpCode.Set \<and> rq_value packet = Some v \<and> rq_datatype packet = d
    \<and> rq_extras packet = Some (u32_to_be (uo_flags opts) @ u32_to_be (unwrap_or 0 (uo_expiry opts)))"
    using sent(1) by (auto simp: set_op_def res_simps)
  then show ?thesis using v sent(2) by blast
qed

text \<open>The server answers a read with the document a packet stored: value, datatype and the flags in the extras.\<close>

definition returns_document :: "RequestPacket \<Rightarrow> ResponsePacket \<Rightarrow> bool" where
  "returns_document packet reply \<longleftrightarrow> rp_status reply = Status.Success \<and> rp_value reply = rq_value packet
    \<and> rp_datatype reply = rq_datatype packet \<and> rp_extras reply = map_option (take 4) (rq_extras packet)"

lemma take_flags [simp]: "take 4 (u32_to_be flags @ xs) = u32_to_be flags"
  by simp

lemma get_reads:
  assumes "compress_for cd client' t value = Ok (v, d)" and "t \<noteq> Compressed"
    and "undoes (ro_decompress_vec ropts) (cd_compress_vec cd)" and "\<not> ro_disable_decompression ropts"
    and "rq_value packet = Some v" and "rq_datatype packet = d" and "rq_extras packet = Some (u32_to_be flags @ xs)"
    and "returns_document packet reply" and "server_duration_of (cd_env cd) reply = Ok dur"
    and "get_op (ops_crud client) (get_request_new collection_id (ko_key opts) vbucket_id) = Ok call"
  shows "fst (get_on cd (\<lambda>_ ctx. Ok (received ropts reply ctx)) opts collection_id vbucket_id client) =
    Ok \<lparr>gr_value = value, gr_flags = flags, gr_datatype = datatype_flag_to_u8 t, gr_cas = unwrap_or 0 (rp_cas reply)\<rparr>"
proof -
  have read: "read_decompress ropts reply = Ok (reply\<lparr>rp_value := Some value, rp_datatype := datatype_flag_to_u8 t\<rparr>)"
    by (rule read_decompress_compress [OF assms(1) [unfolded compress_for_def] assms(2-4)])
       (use assms(5,6,8) in \<open>simp_all add: returns_document_def\<close>)
  obtain p ctx where call: "call = (p, ctx)" by (cases call)
  have dur: "server_duration_of (cd_env cd) (reply\<lparr>rp_value := x, rp_datatype := y\<rparr>) = Ok dur" for x y
    using assms(9) by (simp add: server_duration_of_def)
  show ?thesis
    using assms(7,8,10) dur
    by (simp add: get_on_def kv_get_def kv_call_def map_response_def handle_dispatch_side_result_def
        handle_response_side_result_def get_request_new_def received_def read call get_response_def get_result_def
        parse_flags_def document_of_def returns_document_def be_simps Let_def split: prod.splits)
qed

text \<open>The first attempt finds the collection in the cache and a client for the endpoint of the key.\<close>

definition first_client :: "'cfg World \<Rightarrow> KeyOptions \<Rightarrow> u32 \<Rightarrow> u16 \<Rightarrow> KvClient \<Rightarrow> bool" where
  "first_client w opts collection_id vb_id client \<longleftrightarrow>
    (if (ko_scope_name opts = ''_default'' \<and> ko_collection_name opts = ''_default'')
        \<or> (ko_scope_name opts = [] \<and> ko_collection_name opts = [])
     then collection_id = 0
     else \<exists>revision. cr_fast_cache (w_cache w 0) (full_key_path (ko_scope_name opts) (ko_collection_name opts))
       = Some (collection_id, revision))
    \<and> (\<exists>endpoint. dispatch_by_key (w_crc32 w) (w_router w 0) (ko_key opts) 0 = Ok (endpoint, vb_id)
        \<and> w_clients w 0 endpoint 0 = Ok client)"

lemma simple_crud_first:
  assumes "first_client w opts collection_id vb_id client"
    and "fst (operation (w_exchange w 0 0) collection_id vb_id client) = Ok r"
  shows "orchestrate_simple_crud w opts retry_info operation = Some (Ok r)"
proof -
  obtain endpoint where e: "dispatch_by_key (w_crc32 w) (w_router w 0) (ko_key opts) 0 = Ok (endpoint, vb_id)"
    "w_clients w 0 endpoint 0 = Ok client"
    using assms(1) by (auto simp: first_client_def)
  have "orchestrate_endpoint_kv_client (w_clients w 0 endpoint)
      (\<lambda>i client. fst (operation (w_exchange w 0 i) collection_id vb_id client)) 0 = Some (Ok r)"
    using e(2) assms(2) by (simp add: orchestrate_endpoint_step dispatch_failed_def)
  then have "crud_attempt w opts operation 0 = Ok (Some r)"
    using assms(1) e by (auto simp: crud_attempt_def first_client_def orchestrate_memd_collection_id_def
        resolve_collection_id_def orchestrate_memd_routing_def Let_def split: if_splits)
  then show ?thesis
    by (simp add: orchestrate_simple_crud_def orchestrate_retries.simps)
qed


definition sample_codec :: "unit Codec" where
  "sample_codec = \<lparr>cd_env = sample_env, cd_mode = Enabled 2 (), cd_zero = (), cd_compress_vec = (\<lambda>v. Ok (7 # v)),
     cd_ratio_above = (\<lambda>_ _ _. False)\<rparr>"

definition snappy_client :: KvClient where
  "snappy_client = \<lparr>kc_remote_addr = ''r'', kc_local_addr = ''l'', kc_supported_features = [HelloFeature.Snappy],
     kc_selected_bucket = Some ''b'', kc_closed = False, kc_cli_closes = 0\<rparr>"

definition replying_world :: "ResponsePacket \<Rightarrow> unit World" where
  "replying_world reply = \<lparr>w_crc32 = (\<lambda>_. 0), w_parse_terse = Map.empty, w_panic_text = [],
     w_cache = (\<lambda>_. collection_resolver_new), w_resolve = (\<lambda>_ _ _. Panic), w_router = (\<lambda>_. sample_router),
     w_err_map = Map.empty, w_clients = (\<lambda>_ _ _. Ok snappy_client),
     w_exchange = (\<lambda>_ _ _ ctx. Ok (received \<lparr>ro_disable_decompression = False, ro_has_orphan_handler = False,
       ro_decompress_vec = (\<lambda>v. Some (tl v))\<rparr> reply ctx))\<rparr>"

definition document_reply :: "RequestPacket \<Rightarrow> ResponsePacket" where
  "document_reply packet = (sample_packet Status.Success (rq_value packet))
     \<lparr>rp_datatype := rq_datatype packet, rp_extras := map_option (take 4) (rq_extras packet)\<rparr>"

lemma sample_route: "dispatch_by_key (\<lambda>_. 0) sample_router key 0 = Ok (''endpoint1'', 0)"
  by (simp add: sample_router_def sample_map_def dispatch_by_key_def vbucket_router_new_def get_vbucket_info_def
      vbucket_by_key_def node_by_vbucket_def Let_def)

lemma replying_first:
  "first_client (replying_world reply) (get_options_new key [] []) 0 0 snappy_client"
  by (simp add: first_client_def replying_world_def get_options_new_def sample_route)

lemma snappy_header:
  "crud_header (ops_crud snappy_client) None None None \<lparr>kr_collection_id = 0, kr_key = [0x61], kr_vbucket_id = 0,
     kr_on_behalf_of = None, \<dots> = z\<rparr> = Ok (Magic.Req, None, [0x61])"
  by (simp add: crud_header_def ops_crud_def snappy_client_def kv_has_feature_def encode_req_ext_frames_def
      encode_collection_and_key_def req_frames_def key_limits Let_def)

lemma snappy_compress: "compress_for sample_codec snappy_client None_flag [1, 2, 3] = Ok ([7, 1, 2, 3], 2)"
  by (simp add: compress_for_def compress_def sample_codec_def snappy_client_def kv_has_feature_def)

lemma snappy_upsert:
  "crud_upsert sample_codec (replying_world (sample_packet Status.Success None)) (upsert_options_new [0x61] [] [] [1, 2, 3])
    = Some (Ok \<lparr>mur_cas = 9, mur_mutation_token = None\<rparr>)"
proof -
  let ?w = "replying_world (sample_packet Status.Success None)"
  let ?opts = "upsert_options_new [0x61] [] [] [1, 2, 3]"
  have "first_client ?w (KeyOptions.truncate ?opts) 0 0 snappy_client"
    using replying_first by (simp add: KeyOptions.defs upsert_options_new_def get_options_new_def)
  moreover have "w_exchange ?w 0 0 p ctx = Ok (Ok \<lparr>cr_packet = sample_packet Status.Success None, cr_response_context = ctx\<rparr>)"
    for p ctx by (simp add: replying_world_def received_def read_decompress_def sample_packet_def)
  then have "fst (upsert_on sample_codec (w_exchange ?w 0 0) ?opts 0 0 snappy_client)
      = Ok \<lparr>mur_cas = 9, mur_mutation_token = None\<rparr>"
    by (simp add: upsert_on_def upsert_options_new_def with_compressed_def snappy_compress map_response_Ok kv_set_def
        kv_call_Ok set_op_def snappy_header set_response_def mutation_result_def mutation_token_of_def
        server_duration_of_def mutation_of_def with_vbucket_def sample_packet_def response_packet_new_def unwrap_or_def Let_def)
  ultimately show ?thesis
    unfolding crud_upsert_def by (rule simple_crud_first)
qed


section \<open>Operations as requests\<close>

text \<open>
  An operation runs one request of its kind: on the key of its options, the resolved collection and the
  routed vbucket, with the outcome of \<open>crud_operation\<close>.
\<close>

definition runs_request ::
    "('q \<Rightarrow> CrudRequest) \<Rightarrow> 'ratio Codec \<Rightarrow> exchange \<Rightarrow> KeyOptions \<Rightarrow> u32 \<Rightarrow> u16 \<Rightarrow> KvClient
      \<Rightarrow> (CoreError, 'r) result \<times> KvClient \<Rightarrow> bool" where
  "runs_request C cd exchange opts collection_id vbucket_id client res \<longleftrightarrow>
    (\<exists>req. crud_key_request (C req) = get_request_new collection_id (ko_key opts) vbucket_id
      \<and> value_dropped res = crud_operation (cd_env cd) exchange (C req) (ko_key opts) (ko_scope_name opts)
          (ko_collection_name opts) client)"

lemma runs_requestI:
  assumes "crud_key_request (C req) = get_request_new collection_id (ko_key opts) vbucket_id"
    and "\<And>resp. crud_reply (cd_env cd) (C req) resp = outcome (read_reply resp)"
  shows "runs_request C cd exchange opts collection_id vbucket_id client
    (map_response opts client finish (kv_call exchange (\<lambda>ops. crud_call ops (C req)) read_reply client))"
  unfolding runs_request_def by (intro exI [of _ req] conjI assms(1) map_response_outcome assms(2))

text \<open>The value goes through the compressor first, whose error ends the operation.\<close>

definition runs_compressed ::
    "('q \<Rightarrow> CrudRequest) \<Rightarrow> 'ratio Codec \<Rightarrow> exchange \<Rightarrow> KeyOptions \<Rightarrow> u32 \<Rightarrow> u16 \<Rightarrow> KvClient \<Rightarrow> DataTypeFlag \<Rightarrow> bytes
      \<Rightarrow> (CoreError, 'r) result \<times> KvClient \<Rightarrow> bool" where
  "runs_compressed C cd exchange opts collection_id vbucket_id client t v res \<longleftrightarrow>
    (case compress_for cd client t v of
       Ok _ \<Rightarrow> runs_request C cd exchange opts collection_id vbucket_id client res
     | Err e \<Rightarrow> res = (Err e, client)
     | Panic \<Rightarrow> res = (Panic, client))"

lemma runs_compressedI:
  assumes "\<And>v' t'. runs_request C cd exchange opts collection_id vbucket_id client (send v' t')"
  shows "runs_compressed C cd exchange opts collection_id vbucket_id client t v (with_compressed cd client t v send)"
  using assms by (auto simp: runs_compressed_def with_compressed_def split: result.splits)

lemma get_runs: "runs_request CrudGet cd exchange opts collection_id vbucket_id client
    (get_on cd exchange opts collection_id vbucket_id client)"
  unfolding get_on_def kv_get_def crud_call.simps [symmetric]
  by (rule runs_requestI) (simp_all add: get_request_new_def KeyRequest.defs KeyOptions.defs)

lemma get_meta_runs: "runs_request CrudGetMeta cd exchange opts collection_id vbucket_id client
    (get_meta_on cd exchange opts collection_id vbucket_id client)"
  unfolding get_meta_on_def kv_get_meta_def crud_call.simps [symmetric]
  by (rule runs_requestI) (simp_all add: get_request_new_def KeyRequest.defs KeyOptions.defs)

lemma delete_runs: "runs_request CrudDelete cd exchange (KeyOptions.truncate opts) collection_id vbucket_id client
    (delete_on cd exchange opts collection_id vbucket_id client)"
  unfolding delete_on_def kv_delete_def crud_call.simps [symmetric]
  by (rule runs_requestI) (simp_all add: get_request_new_def KeyRequest.defs KeyOptions.defs)

lemma get_and_lock_runs: "runs_request CrudGetAndLock cd exchange (KeyOptions.truncate opts) collection_id vbucket_id client
    (get_and_lock_on cd exchange opts collection_id vbucket_id client)"
  unfolding get_and_lock_on_def kv_get_and_lock_def crud_call.simps [symmetric]
  by (rule runs_requestI) (simp_all add: get_request_new_def KeyRequest.defs KeyOptions.defs)

lemma get_and_touch_runs: "runs_request CrudGetAndTouch cd exchange (KeyOptions.truncate opts) collection_id vbucket_id client
    (get_and_touch_on cd exchange opts collection_id vbucket_id client)"
  unfolding get_and_touch_on_def kv_get_and_touch_def crud_call.simps [symmetric]
  by (rule runs_requestI) (simp_all add: get_request_new_def KeyRequest.defs KeyOptions.defs)

lemma unlock_runs: "runs_request CrudUnlock cd exchange (KeyOptions.truncate opts) collection_id vbucket_id client
    (unlock_on cd exchange opts collection_id vbucket_id client)"
  unfolding unlock_on_def kv_unlock_def crud_call.simps [symmetric]
  by (rule runs_requestI) (simp_all add: get_request_new_def KeyRequest.defs KeyOptions.defs)

lemma touch_runs: "runs_request CrudTouch cd exchange (KeyOptions.truncate opts) collection_id vbucket_id client
    (touch_on cd exchange opts collection_id vbucket_id client)"
  unfolding touch_on_def kv_touch_def crud_call.simps [symmetric]
  by (rule runs_requestI) (simp_all add: get_request_new_def KeyRequest.defs KeyOptions.defs)

lemma increment_runs: "runs_request CrudIncrement cd exchange (KeyOptions.truncate opts) collection_id vbucket_id client
    (increment_on cd exchange opts collection_id vbucket_id client)"
  unfolding increment_on_def kv_increment_def crud_call.simps [symmetric]
  by (rule runs_requestI) (simp_all add: get_request_new_def KeyRequest.defs KeyOptions.defs)

lemma decrement_runs: "runs_request CrudDecrement cd exchange (KeyOptions.truncate opts) collection_id vbucket_id client
    (decrement_on cd exchange opts collection_id vbucket_id client)"
  unfolding decrement_on_def kv_decrement_def crud_call.simps [symmetric]
  by (rule runs_requestI) (simp_all add: get_request_new_def KeyRequest.defs KeyOptions.defs)

lemma lookup_in_runs: "runs_request CrudLookupIn cd exchange (KeyOptions.truncate opts) collection_id vbucket_id client
    (lookup_in_on cd exchange opts collection_id vbucket_id client)"
  unfolding lookup_in_on_def kv_lookup_in_def crud_call.simps [symmetric]
  by (rule runs_requestI) (simp_all add: get_request_new_def KeyRequest.defs KeyOptions.defs)

lemma mutate_in_runs: "runs_request CrudMutateIn cd exchange (KeyOptions.truncate opts) collection_id vbucket_id client
    (mutate_in_on cd exchange opts collection_id vbucket_id client)"
  unfolding mutate_in_on_def kv_mutate_in_def crud_call.simps [symmetric]
  by (rule runs_requestI) (simp_all add: get_request_new_def KeyRequest.defs KeyOptions.defs)

lemma upsert_runs: "runs_compressed CrudSet cd exchange (KeyOptions.truncate u) collection_id vbucket_id client (uo_datatype u) (uo_value u)
    (upsert_on cd exchange u collection_id vbucket_id client)"
  unfolding upsert_on_def kv_set_def crud_call.simps [symmetric]
  by (intro runs_compressedI runs_requestI) (simp_all add: get_request_new_def KeyRequest.defs KeyOptions.defs)

lemma add_runs: "runs_compressed CrudAdd cd exchange (KeyOptions.truncate a) collection_id vbucket_id client (ao_datatype a) (ao_value a)
    (add_on cd exchange a collection_id vbucket_id client)"
  unfolding add_on_def kv_add_def crud_call.simps [symmetric]
  by (intro runs_compressedI runs_requestI) (simp_all add: get_request_new_def KeyRequest.defs KeyOptions.defs)

lemma replace_runs: "runs_compressed CrudReplace cd exchange (KeyOptions.truncate u) collection_id vbucket_id client (uo_datatype u) (uo_value u)
    (replace_on cd exchange u collection_id vbucket_id client)"
  unfolding replace_on_def kv_replace_def crud_call.simps [symmetric]
  by (intro runs_compressedI runs_requestI) (simp_all add: get_request_new_def KeyRequest.defs KeyOptions.defs)

lemma append_runs: "runs_compressed CrudAppend cd exchange (KeyOptions.truncate p) collection_id vbucket_id client None_flag (apo_value p)
    (append_on cd exchange p collection_id vbucket_id client)"
  unfolding append_on_def kv_append_def crud_call.simps [symmetric]
  by (intro runs_compressedI runs_requestI) (simp_all add: get_request_new_def KeyRequest.defs KeyOptions.defs)

lemma prepend_runs: "runs_compressed CrudPrepend cd exchange (KeyOptions.truncate p) collection_id vbucket_id client None_flag (apo_value p)
    (prepend_on cd exchange p collection_id vbucket_id client)"
  unfolding prepend_on_def kv_prepend_def crud_call.simps [symmetric]
  by (intro runs_compressedI runs_requestI) (simp_all add: get_request_new_def KeyRequest.defs KeyOptions.defs)


section \<open>Lost connections\<close>

definition lost_in_flight :: "CoreError \<Rightarrow> bool" where
  "lost_in_flight err \<longleftrightarrow> (case is_memdx_error err of
     Some m \<Rightarrow> err_kind m = ErrorKind.Cancelled CancellationErrorKind.ClosedInFlight | None \<Rightarrow> False)"

lemma lost_retry: "lost_in_flight err \<Longrightarrow> best_effort_retries idempotent cell err \<longleftrightarrow> idempotent"
  by (auto simp: lost_in_flight_def is_memdx_error_def best_effort_retries_def retry_reason_def
      split: CoreErrorKind.splits option.splits)

lemma retries_lost_mutation:
  assumes "operation 0 = Err err" and "lost_in_flight err"
  shows "orchestrate_retries (best_effort backoff) cell operation 0 (retry_request_new name False) [] = Some (Err err, [])"
proof -
  obtain info where "retry_decision (best_effort backoff) (cell 0) (retry_request_new name False) err = (None, info)"
    using best_effort_decision [of backoff "cell 0" "retry_request_new name False" err] lost_retry [OF assms(2)]
    by (cases "retry_decision (best_effort backoff) (cell 0) (retry_request_new name False) err")
       (auto simp: retry_request_new_def)
  moreover have "rr_retry_attempts info = 0"
    using retry_decision_sel(2) [of "best_effort backoff" "cell 0" "retry_request_new name False" err] calculation
    by (simp add: retry_request_new_def)
  ultimately show ?thesis
    using orchestrate_retry_stop [where operation = operation and n = 0 and cell = cell, OF assms(1)] by simp
qed

lemma retries_lost_read:
  assumes "operation k = Ok r" and "\<And>i. i < k \<Longrightarrow> \<exists>e. operation i = Err e \<and> lost_in_flight e"
  shows "\<exists>slept. orchestrate_retries (best_effort backoff) cell operation 0 (retry_request_new name True) [] = Some (Ok r, slept)"
proof -
  have "\<exists>e. operation (0 + i) = Err e \<and> best_effort_retries True (cell (0 + i)) e" if "i < k" for i
    using assms(2) [OF that] by (auto simp: lost_retry)
  then show ?thesis
    using retries_from [of operation 0 k r "retry_request_new name True" cell backoff "[]"] assms(1)
    by (auto simp: retry_request_new_def)
qed

text \<open>
  C14. When connections close while a request is in flight, the best-effort strategy repeats a get until
  an attempt succeeds, and returns the error of an upsert after its first attempt: a write whose effect
  is unknown is never sent twice.
\<close>

theorem lost_connection_repeats_reads_only:
  assumes "ko_retry_strategy uopts = best_effort backoff"
    and "crud_attempt w (KeyOptions.truncate uopts) (\<lambda>ex. upsert_on cd ex uopts) 0 = Err err" and "lost_in_flight err"
    and "ko_retry_strategy gopts = best_effort backoff"
    and "\<And>i. i < k \<Longrightarrow> \<exists>e. crud_attempt w gopts (\<lambda>ex. get_on cd ex gopts) i = Err e \<and> lost_in_flight e"
    and "crud_attempt w gopts (\<lambda>ex. get_on cd ex gopts) k = Ok (Some doc)"
  shows "crud_upsert cd w uopts = Some (Err err) \<and> crud_get cd w gopts = Some (Ok doc)"
proof (rule conjI)
  show "crud_upsert cd w uopts = Some (Err err)"
    using retries_lost_mutation [where cell = "w_err_map w" and operation = "crud_attempt w (KeyOptions.truncate uopts) (\<lambda>ex. upsert_on cd ex uopts)"
        and backoff = backoff and name = "''upsert''", OF assms(2,3)] assms(1)
    by (simp add: crud_upsert_def orchestrate_simple_crud_def KeyOptions.defs)
  obtain slept where "orchestrate_retries (best_effort backoff) (w_err_map w)
      (crud_attempt w gopts (\<lambda>ex. get_on cd ex gopts)) 0 (retry_request_new ''get'' True) [] = Some (Ok (Some doc), slept)"
    using retries_lost_read [where cell = "w_err_map w" and operation = "crud_attempt w gopts (\<lambda>ex. get_on cd ex gopts)",
        OF assms(6,5)] by blast
  then show "crud_get cd w gopts = Some (Ok doc)"
    using assms(4) by (simp add: crud_get_def orchestrate_simple_crud_def)
qed

lemma routing_fst:
  "fst (orchestrate_memd_routing crc32 parse_terse vb key i operation) =
    and_then (dispatch_by_key crc32 vb key i) (\<lambda>(endpoint, vb_id). operation endpoint vb_id)"
  by (auto simp: orchestrate_memd_routing_def Let_def split: result.splits option.splits prod.splits)

lemma crud_attempt_default:
  assumes "ko_scope_name opts = []" and "ko_collection_name opts = []"
    and "dispatch_by_key (w_crc32 w) (w_router w n) (ko_key opts) 0 = Ok (endpoint, vb_id)"
    and "w_clients w n endpoint 0 = Ok client"
    and "fst (operation (w_exchange w n 0) 0 vb_id client) = r" and "\<not> dispatch_failed r"
  shows "crud_attempt w opts operation n = and_then r (\<lambda>x. Ok (Some x))"
  using assms by (simp add: crud_attempt_def orchestrate_memd_collection_id_def routing_fst orchestrate_endpoint_step)

definition losing_world :: "ResponsePacket \<Rightarrow> unit World" where
  "losing_world reply = (replying_world reply)\<lparr>w_exchange := (\<lambda>n i p ctx.
     if n = 0 then Ok (Err (new_cancelled_error CancellationErrorKind.ClosedInFlight))
     else w_exchange (replying_world reply) n i p ctx)\<rparr>"

definition sample_reply :: ResponsePacket where
  "sample_reply = (sample_packet Status.Success (Some [5]))\<lparr>rp_extras := Some (u32_to_be 1)\<rparr>"

definition effort_options :: "'x KeyOptions_scheme \<Rightarrow> 'x KeyOptions_scheme" where
  "effort_options opts = opts\<lparr>ko_retry_strategy := best_effort (\<lambda>_. 1)\<rparr>"

lemma losing_call:
  assumes "call (ops_crud snappy_client) = Ok (p, ctx)"
  shows "fst (map_response opts snappy_client finish (kv_call (w_exchange (losing_world reply) 0 0) call read_reply snappy_client))
    = Err (doc_error opts snappy_client (kv_error snappy_client (new_cancelled_error CancellationErrorKind.ClosedInFlight)))"
  using assms by (auto simp: losing_world_def kv_call_def handle_dispatch_side_result_def handle_response_side_result_def
      map_response_def split: prod.splits)

lemma lost_doc_error:
  "lost_in_flight (doc_error opts c (kv_error c (new_cancelled_error CancellationErrorKind.ClosedInFlight)))"
  "\<not> dispatch_failed (Err (doc_error opts c (kv_error c (new_cancelled_error CancellationErrorKind.ClosedInFlight))))"
  by (simp_all add: lost_in_flight_def doc_error_def error_inspect_defs dispatch_failed_def new_cancelled_error_def)

theorem lost_connection_repeats_reads_only_witness:
  "(\<exists>err. crud_upsert sample_codec (losing_world sample_reply) (effort_options (upsert_options_new [0x61] [] [] [1])) = Some (Err err))
    \<and> crud_get sample_codec (losing_world sample_reply) (effort_options (get_options_new [0x61] [] []))
      = Some (Ok \<lparr>gr_value = [5], gr_flags = 1, gr_datatype = 0, gr_cas = 9\<rparr>)"
proof -
  let ?w = "losing_world sample_reply"
  let ?u = "effort_options (upsert_options_new [0x61] [] [] [1])" and ?g = "effort_options (get_options_new [0x61] [] [])"
  let ?err = "\<lambda>opts. doc_error opts snappy_client (kv_error snappy_client (new_cancelled_error CancellationErrorKind.ClosedInFlight))"
  have world: "w_crc32 ?w = (\<lambda>_. 0)" "w_router ?w n = sample_router" "w_clients ?w n e i = Ok snappy_client"
    "w_exchange ?w (Suc n) i = (\<lambda>_ ctx. Ok (Ok \<lparr>cr_packet = sample_reply, cr_response_context = ctx\<rparr>))" for n e i
    by (simp_all add: losing_world_def replying_world_def received_def read_decompress_def sample_reply_def sample_packet_def
        response_packet_new_def)
  have "compress_for sample_codec snappy_client None_flag [1] = Ok ([1], 0)"
    by (simp add: compress_for_def compress_def sample_codec_def snappy_client_def kv_has_feature_def)
  then have up: "fst (upsert_on sample_codec (w_exchange ?w 0 0) ?u 0 0 snappy_client) = Err (?err (KeyOptions.truncate ?u))"
    by (simp add: upsert_on_def with_compressed_def effort_options_def upsert_options_new_def kv_set_def)
       (rule losing_call, simp add: set_op_def snappy_header)
  have get0: "fst (get_on sample_codec (w_exchange ?w 0 0) ?g 0 0 snappy_client) = Err (?err ?g)"
    by (simp add: get_on_def effort_options_def get_options_new_def kv_get_def)
       (rule losing_call, simp add: get_op_def snappy_header)
  have get1: "fst (get_on sample_codec (w_exchange ?w 1 0) ?g 0 0 snappy_client)
      = Ok \<lparr>gr_value = [5], gr_flags = 1, gr_datatype = 0, gr_cas = 9\<rparr>"
    using world(4) [of 0 0]
    by (simp add: get_on_def effort_options_def get_options_new_def kv_get_def map_response_Ok kv_call_Ok get_op_def snappy_header
        get_response_def get_result_def parse_flags_def document_of_def sample_reply_def sample_packet_def response_packet_new_def
        server_duration_of_def be_simps unwrap_or_def Let_def)
  note attempt = crud_attempt_default [where w = ?w, unfolded world, OF _ _ sample_route refl]
  have "crud_attempt ?w (KeyOptions.truncate ?u) (\<lambda>ex. upsert_on sample_codec ex ?u) 0 = Err (?err (KeyOptions.truncate ?u))"
    using attempt [where opts = "KeyOptions.truncate ?u" and operation = "\<lambda>ex. upsert_on sample_codec ex ?u" and n = 0, OF _ _ up lost_doc_error(2)] by (simp add: effort_options_def upsert_options_new_def KeyOptions.defs)
  moreover have "crud_attempt ?w ?g (\<lambda>ex. get_on sample_codec ex ?g) 0 = Err (?err ?g)"
    using attempt [where opts = ?g and operation = "\<lambda>ex. get_on sample_codec ex ?g" and n = 0, OF _ _ get0 lost_doc_error(2)] by (simp add: effort_options_def get_options_new_def)
  moreover have "crud_attempt ?w ?g (\<lambda>ex. get_on sample_codec ex ?g) 1
      = Ok (Some \<lparr>gr_value = [5], gr_flags = 1, gr_datatype = 0, gr_cas = 9\<rparr>)"
    using attempt [where opts = ?g and operation = "\<lambda>ex. get_on sample_codec ex ?g" and n = 1, OF _ _ get1] by (simp add: effort_options_def get_options_new_def dispatch_failed_def)
  ultimately show ?thesis
    using lost_connection_repeats_reads_only [where k = 1 and w = ?w and uopts = ?u and gopts = ?g and cd = sample_codec
        and backoff = "\<lambda>_. 1"] lost_doc_error(1)
    by (auto simp: effort_options_def)
qed

section \<open>Resolving a collection\<close>

text \<open>
  Asking a server for a collection identifier returns what the server says, under every retry
  strategy and without another attempt: the identifier and the manifest revision, or, for a collection
  the server does not know, the error that names the collection.
\<close>

theorem collection_id_answer:
  assumes "clients 0 0 = Ok client"
    and "exchange 0 0 = (\<lambda>_ ctx. Ok (Ok \<lparr>cr_packet = packet, cr_response_context = ctx\<rparr>))"
  shows "(rp_status packet = Status.CollectionUnknown \<longrightarrow>
      (\<exists>m. crud_get_collection_id strategy cell clients exchange scope_name collection_name =
          Some (Err (new_contextual_memdx_error m))
        \<and> is_server_error_kind ServerErrorKind.UnknownCollectionName (me_source m)
        \<and> me_scope_name m = Some scope_name \<and> me_collection_name m = Some collection_name))
    \<and> (rp_status packet = Status.Success \<and> rp_extras packet = Some (u64_to_be revision @ u32_to_be i) \<longrightarrow>
      crud_get_collection_id strategy cell clients exchange scope_name collection_name =
        Some (Ok \<lparr>gci_manifest_rev = revision, gci_collection_id = i\<rparr>))"
proof -
  let ?r = "get_collection_id_on (exchange 0 0) scope_name collection_name client"
  have turn: "crud_get_collection_id strategy cell clients exchange scope_name collection_name = Some ?r"
    if "\<not> dispatch_failed ?r" "\<And>e. ?r = Err e \<Longrightarrow> unknown_collection_name e" "?r \<noteq> Panic"
    using that assms(1) unfolding crud_get_collection_id_def
    by (subst get_collection_id_loop.simps) (auto simp: orchestrate_endpoint_step split: result.splits)
  have run: "?r = map_err (collection_error scope_name collection_name client)
      (map_err (kv_error client) (get_collection_id_response \<lparr>cr_packet = packet,
        cr_response_context = snd (get_collection_id scope_name collection_name)\<rparr>))"
    by (auto simp: get_collection_id_on_def kv_get_collection_id_def kv_call_def assms(2) handle_dispatch_side_result_def
        handle_response_side_result_def get_collection_id_def split: result.splits)
  have unknown: "?r = Err (collection_error scope_name collection_name client (kv_error client (error_from_resource
      (resource_error_new (server_error_new ServerErrorKind.UnknownCollectionName (rp_op_code packet) (rp_status packet)
        (rp_opaque packet)) scope_name collection_name))))" if "rp_status packet = Status.CollectionUnknown"
    using that by (simp add: run get_collection_id_response_def get_collection_id_def expect_def)
  have found: "?r = Ok \<lparr>gci_manifest_rev = revision, gci_collection_id = i\<rparr>"
    if "rp_status packet = Status.Success" "rp_extras packet = Some (u64_to_be revision @ u32_to_be i)"
    using that by (simp add: run get_collection_id_response_def get_collection_id_def expect_def cursor_defs be_simps)
  have name: "unknown_collection_name e" "\<not> dispatch_failed (Err e)"
    "\<exists>m. e = new_contextual_memdx_error m \<and> is_server_error_kind ServerErrorKind.UnknownCollectionName (me_source m)
        \<and> me_scope_name m = Some scope_name \<and> me_collection_name m = Some collection_name"
    if "?r = Err e" "rp_status packet = Status.CollectionUnknown" for e
    using that unknown
    by (auto simp: collection_error_def unknown_collection_name_def dispatch_failed_def error_inspect_defs error_context_defs
        error_from_resource_def resource_error_new_def server_error_new_def is_server_error_kind_def)
  show ?thesis
    using turn name unknown found by (auto simp: dispatch_failed_def)
qed

theorem collection_id_answer_witness:
  "crud_get_collection_id fail_fast (\<lambda>_. None) (\<lambda>_ _. Ok snappy_client)
      (\<lambda>_ _ _ ctx. Ok (Ok \<lparr>cr_packet = (sample_packet Status.Success None)\<lparr>rp_extras := Some (u64_to_be 3 @ u32_to_be 8)\<rparr>,
         cr_response_context = ctx\<rparr>)) ''s'' ''c''
    = Some (Ok \<lparr>gci_manifest_rev = 3, gci_collection_id = 8\<rparr>)
   \<and> (\<exists>m. crud_get_collection_id fail_fast (\<lambda>_. None) (\<lambda>_ _. Ok snappy_client)
      (\<lambda>_ _ _ ctx. Ok (Ok \<lparr>cr_packet = sample_packet Status.CollectionUnknown None, cr_response_context = ctx\<rparr>)) ''s'' ''c''
     = Some (Err (new_contextual_memdx_error m)) \<and> me_collection_name m = Some ''c'')"
  using collection_id_answer [where clients = "\<lambda>_ _. Ok snappy_client" and exchange = "\<lambda>_ _ _ ctx. Ok (Ok
        \<lparr>cr_packet = (sample_packet Status.Success None)\<lparr>rp_extras := Some (u64_to_be 3 @ u32_to_be 8)\<rparr>, cr_response_context = ctx\<rparr>)"
      and revision = 3 and i = 8, OF refl refl, of fail_fast "\<lambda>_. None" "''s''" "''c''"]
    collection_id_answer [where clients = "\<lambda>_ _. Ok snappy_client" and exchange = "\<lambda>_ _ _ ctx. Ok (Ok
        \<lparr>cr_packet = sample_packet Status.CollectionUnknown None, cr_response_context = ctx\<rparr>)", OF refl refl,
      of fail_fast "\<lambda>_. None" "''s''" "''c''"]
  by (auto simp: sample_packet_def response_packet_new_def)
end
