(* ===== verification/Json_Scanner.thy ===== *)
theory Json_Scanner
  imports Core_Error
begin

text \<open>
  The push-down scanner that finds the end of a JSON value in the response of an HTTP service
  (\<^verbatim>\<open>httpx/scanner.rs\<close>). The function pointer that holds the current state is a constructor of
  \<open>StepFn\<close>, the vector of open containers is a list with the innermost first.
\<close>

section \<open>Bytes\<close>

definition is_ascii_whitespace :: "u8 \<Rightarrow> bool" where
  "is_ascii_whitespace c \<longleftrightarrow> c = 0x20 \<or> c = 0x09 \<or> c = 0x0a \<or> c = 0x0c \<or> c = 0x0d"

definition is_ascii_digit :: "u8 \<Rightarrow> bool" where
  "is_ascii_digit c \<longleftrightarrow> 0x30 \<le> c \<and> c \<le> 0x39"

definition is_ascii_hexdigit :: "u8 \<Rightarrow> bool" where
  "is_ascii_hexdigit c \<longleftrightarrow> is_ascii_digit c \<or> 0x41 \<le> c \<and> c \<le> 0x46 \<or> 0x61 \<le> c \<and> c \<le> 0x66"

text \<open>The UTF-8 text of the character with code \<open>c\<close>, below 256.\<close>

definition byte_as_char :: "u8 \<Rightarrow> string" where
  "byte_as_char c = from_utf8 (if c < 0x80 then [c] else [0xc0 OR drop_bit 6 c, 0x80 OR (c AND 0x3f)])"

definition quote_char :: "u8 \<Rightarrow> string" where
  "quote_char c =
    (if c = 0x27 then [CHR 0x27, CHR 0x5c, CHR 0x27, CHR 0x27]
     else if c = 0x22 then [CHR 0x27, CHR 0x22, CHR 0x27]
     else [CHR 0x27] @ byte_as_char c @ [CHR 0x27])"

section \<open>State\<close>

datatype ScanState =
    Continue | BeginLiteral | BeginObject | ObjectKey | ObjectValue | EndObject | BeginArray
  | ArrayValue | EndArray | SkipSpace | End | ScanError

datatype ParseState = ObjectKey | ObjectValue | ArrayValue

datatype StepFn =
    StBeginValue | StBeginValueOrEmpty | StBeginStringOrEmpty | StBeginString | StEndValue | StEndTop
  | StInString | StInStringEsc | StInStringEscU | StInStringEscU1 | StInStringEscU12 | StInStringEscU123
  | StNeg | St1 | St0 | StDot | StDot0 | StE | StESign | StE0
  | StT | StTr | StTru | StF | StFa | StFal | StFals | StN | StNu | StNul | StError

record Scanner =
  sc_step :: StepFn
  sc_end_top :: bool
  sc_parse_state :: "ParseState list"
  sc_err :: "HttpErrorKind option"
  sc_bytes :: u64

definition scanner_new :: Scanner where
  "scanner_new = \<lparr>sc_step = StBeginValue, sc_end_top = False, sc_parse_state = [], sc_err = None, sc_bytes = 0\<rparr>"

definition scanner_reset :: "Scanner \<Rightarrow> Scanner" where
  "scanner_reset s = s\<lparr>sc_step := StBeginValue, sc_parse_state := [], sc_err := None, sc_end_top := False\<rparr>"

definition incr_bytes :: "int \<Rightarrow> Scanner \<Rightarrow> Scanner" where
  "incr_bytes incr s = s\<lparr>sc_bytes := sc_bytes s + word_of_int incr\<rparr>"

definition goto :: "StepFn \<Rightarrow> ScanState \<Rightarrow> Scanner \<Rightarrow> ScanState \<times> Scanner" where
  "goto st r s = (r, s\<lparr>sc_step := st\<rparr>)"

definition scan_error :: "u8 \<Rightarrow> string \<Rightarrow> Scanner \<Rightarrow> ScanState \<times> Scanner" where
  "scan_error c ctx s =
    (ScanError, s\<lparr>sc_step := StError,
       sc_err := Some (HttpMessage (''invalid character '' @ quote_char c @ '' '' @ ctx))\<rparr>)"

definition push_parse_state :: "ParseState \<Rightarrow> ScanState \<Rightarrow> Scanner \<Rightarrow> ScanState \<times> Scanner" where
  "push_parse_state new_parse_state success_state s =
    (success_state, s\<lparr>sc_parse_state := new_parse_state # sc_parse_state s\<rparr>)"

definition pop_parse_state :: "Scanner \<Rightarrow> Scanner" where
  "pop_parse_state s =
    (let s = s\<lparr>sc_parse_state := tl (sc_parse_state s)\<rparr> in
     if sc_parse_state s = [] then s\<lparr>sc_step := StEndTop, sc_end_top := True\<rparr>
     else s\<lparr>sc_step := StEndValue\<rparr>)"

section \<open>State functions\<close>

definition state_end_top :: "u8 \<Rightarrow> Scanner \<Rightarrow> ScanState \<times> Scanner" where
  "state_end_top c s =
    (End, if \<not> is_ascii_whitespace c then snd (scan_error c ''after top-level value'' s) else s)"

definition state_end_value :: "u8 \<Rightarrow> Scanner \<Rightarrow> ScanState \<times> Scanner" where
  "state_end_value c s =
    (case sc_parse_state s of
       [] \<Rightarrow> state_end_top c (s\<lparr>sc_step := StEndTop, sc_end_top := True\<rparr>)
     | ps # outer \<Rightarrow>
         if is_ascii_whitespace c then goto StEndValue SkipSpace s
         else
           (case ps of
              ParseState.ObjectKey \<Rightarrow>
                if c = 0x3a
                then goto StBeginValue ScanState.ObjectKey (s\<lparr>sc_parse_state := ParseState.ObjectValue # outer\<rparr>)
                else scan_error c ''after object key'' s
            | ParseState.ObjectValue \<Rightarrow>
                if c = 0x2c
                then goto StBeginString ScanState.ObjectValue (s\<lparr>sc_parse_state := ParseState.ObjectKey # outer\<rparr>)
                else if c = 0x7d then (EndObject, pop_parse_state s)
                else scan_error c ''after object key:value pair'' s
            | ParseState.ArrayValue \<Rightarrow>
                if c = 0x2c then goto StBeginValue ScanState.ArrayValue s
                else if c = 0x5d then (EndArray, pop_parse_state s)
                else scan_error c ''after array element'' s))"

definition state_begin_value :: "u8 \<Rightarrow> Scanner \<Rightarrow> ScanState \<times> Scanner" where
  "state_begin_value c s =
    (if is_ascii_whitespace c then (SkipSpace, s)
     else if c = 0x7b then
       push_parse_state ParseState.ObjectKey BeginObject (s\<lparr>sc_step := StBeginStringOrEmpty\<rparr>)
     else if c = 0x5b then
       push_parse_state ParseState.ArrayValue BeginArray (s\<lparr>sc_step := StBeginValueOrEmpty\<rparr>)
     else if c = 0x22 then goto StInString BeginLiteral s
     else if c = 0x2d then goto StNeg BeginLiteral s
     else if c = 0x30 then goto St0 BeginLiteral s
     else if c = 0x74 then goto StT BeginLiteral s
     else if c = 0x66 then goto StF BeginLiteral s
     else if c = 0x6e then goto StN BeginLiteral s
     else if is_ascii_digit c then goto St1 BeginLiteral s
     else scan_error c ''looking for beginning of value'' s)"

definition state_begin_value_or_empty :: "u8 \<Rightarrow> Scanner \<Rightarrow> ScanState \<times> Scanner" where
  "state_begin_value_or_empty c s =
    (if is_ascii_whitespace c then (SkipSpace, s)
     else if c = 0x5d then state_end_value c s
     else state_begin_value c s)"

definition state_begin_string :: "u8 \<Rightarrow> Scanner \<Rightarrow> ScanState \<times> Scanner" where
  "state_begin_string c s =
    (if is_ascii_whitespace c then (SkipSpace, s)
     else if c = 0x22 then goto StInString BeginLiteral s
     else scan_error c ''looking for beginning of object key string'' s)"

text \<open>The caller makes sure that some container is open when it gets here (see \<open>scanner_step\<close>).\<close>

definition state_begin_string_or_empty :: "u8 \<Rightarrow> Scanner \<Rightarrow> ScanState \<times> Scanner" where
  "state_begin_string_or_empty c s =
    (if is_ascii_whitespace c then (SkipSpace, s)
     else if c = 0x7d then
       state_end_value c (s\<lparr>sc_parse_state := ParseState.ObjectValue # tl (sc_parse_state s)\<rparr>)
     else state_begin_string c s)"

definition state_in_string :: "u8 \<Rightarrow> Scanner \<Rightarrow> ScanState \<times> Scanner" where
  "state_in_string c s =
    (if c = 0x22 then goto StEndValue Continue s
     else if c = 0x5c then goto StInStringEsc Continue s
     else if c < 0x20 then scan_error c ''in string literal'' s
     else (Continue, s))"

definition state_in_string_esc :: "u8 \<Rightarrow> Scanner \<Rightarrow> ScanState \<times> Scanner" where
  "state_in_string_esc c s =
    (if c \<in> {0x62, 0x66, 0x6e, 0x72, 0x74, 0x5c, 0x2f, 0x22} then goto StInString Continue s
     else if c = 0x75 then goto StInStringEscU Continue s
     else scan_error c ''in string escape code'' s)"

definition hex_escape :: "StepFn \<Rightarrow> u8 \<Rightarrow> Scanner \<Rightarrow> ScanState \<times> Scanner" where
  "hex_escape st c s =
    (if is_ascii_hexdigit c then goto st Continue s
     else scan_error c (''in '' @ [CHR 0x5c] @ ''u hexadecimal character escape'') s)"

definition state_in_string_esc_u :: "u8 \<Rightarrow> Scanner \<Rightarrow> ScanState \<times> Scanner" where
  "state_in_string_esc_u = hex_escape StInStringEscU1"

definition state_in_string_esc_u1 :: "u8 \<Rightarrow> Scanner \<Rightarrow> ScanState \<times> Scanner" where
  "state_in_string_esc_u1 = hex_escape StInStringEscU12"

definition state_in_string_esc_u12 :: "u8 \<Rightarrow> Scanner \<Rightarrow> ScanState \<times> Scanner" where
  "state_in_string_esc_u12 = hex_escape StInStringEscU123"

definition state_in_string_esc_u123 :: "u8 \<Rightarrow> Scanner \<Rightarrow> ScanState \<times> Scanner" where
  "state_in_string_esc_u123 = hex_escape StInString"

definition state_neg :: "u8 \<Rightarrow> Scanner \<Rightarrow> ScanState \<times> Scanner" where
  "state_neg c s =
    (if c = 0x30 then goto St0 Continue s
     else if is_ascii_digit c then goto St1 Continue s
     else scan_error c ''in numeric literal'' s)"

definition state0 :: "u8 \<Rightarrow> Scanner \<Rightarrow> ScanState \<times> Scanner" where
  "state0 c s =
    (if c = 0x2e then goto StDot Continue s
     else if c = 0x65 \<or> c = 0x45 then goto StE Continue s
     else state_end_value c s)"

definition state1 :: "u8 \<Rightarrow> Scanner \<Rightarrow> ScanState \<times> Scanner" where
  "state1 c s = (if is_ascii_digit c then goto St1 Continue s else state0 c s)"

definition state_dot :: "u8 \<Rightarrow> Scanner \<Rightarrow> ScanState \<times> Scanner" where
  "state_dot c s =
    (if is_ascii_digit c then goto StDot0 Continue s
     else scan_error c ''after decimal point in numeric literal'' s)"

definition state_dot0 :: "u8 \<Rightarrow> Scanner \<Rightarrow> ScanState \<times> Scanner" where
  "state_dot0 c s =
    (if is_ascii_digit c then (Continue, s)
     else if c = 0x65 \<or> c = 0x45 then goto StE Continue s
     else state_end_value c s)"

definition state_e_sign :: "u8 \<Rightarrow> Scanner \<Rightarrow> ScanState \<times> Scanner" where
  "state_e_sign c s =
    (if is_ascii_digit c then goto StE0 Continue s
     else scan_error c ''in exponent of numeric literal'' s)"

definition state_e :: "u8 \<Rightarrow> Scanner \<Rightarrow> ScanState \<times> Scanner" where
  "state_e c s = (if c = 0x2b \<or> c = 0x2d then goto StESign Continue s else state_e_sign c s)"

definition state_e0 :: "u8 \<Rightarrow> Scanner \<Rightarrow> ScanState \<times> Scanner" where
  "state_e0 c s = (if is_ascii_digit c then (Continue, s) else state_end_value c s)"

definition expect_letter :: "u8 \<Rightarrow> StepFn \<Rightarrow> string \<Rightarrow> u8 \<Rightarrow> Scanner \<Rightarrow> ScanState \<times> Scanner" where
  "expect_letter l st ctx c s = (if c = l then goto st Continue s else scan_error c ctx s)"

definition state_t :: "u8 \<Rightarrow> Scanner \<Rightarrow> ScanState \<times> Scanner" where
  "state_t = expect_letter 0x72 StTr (''in literal true (expecting '' @ [CHR 0x27, CHR ''r'', CHR 0x27] @ '')'')"

definition state_tr :: "u8 \<Rightarrow> Scanner \<Rightarrow> ScanState \<times> Scanner" where
  "state_tr = expect_letter 0x75 StTru (''in literal true (expecting '' @ [CHR 0x27, CHR ''u'', CHR 0x27] @ '')'')"

definition state_tru :: "u8 \<Rightarrow> Scanner \<Rightarrow> ScanState \<times> Scanner" where
  "state_tru = expect_letter 0x65 StEndValue (''in literal true (expecting '' @ [CHR 0x27, CHR ''e'', CHR 0x27] @ '')'')"

definition state_f :: "u8 \<Rightarrow> Scanner \<Rightarrow> ScanState \<times> Scanner" where
  "state_f = expect_letter 0x61 StFa (''in literal false (expecting '' @ [CHR 0x27, CHR ''a'', CHR 0x27] @ '')'')"

definition state_fa :: "u8 \<Rightarrow> Scanner \<Rightarrow> ScanState \<times> Scanner" where
  "state_fa = expect_letter 0x6c StFal (''in literal false (expecting '' @ [CHR 0x27, CHR ''l'', CHR 0x27] @ '')'')"

definition state_fal :: "u8 \<Rightarrow> Scanner \<Rightarrow> ScanState \<times> Scanner" where
  "state_fal = expect_letter 0x73 StFals (''in literal false (expecting '' @ [CHR 0x27, CHR ''s'', CHR 0x27] @ '')'')"

definition state_fals :: "u8 \<Rightarrow> Scanner \<Rightarrow> ScanState \<times> Scanner" where
  "state_fals = expect_letter 0x65 StEndValue (''in literal false (expecting '' @ [CHR 0x27, CHR ''e'', CHR 0x27] @ '')'')"

definition state_n :: "u8 \<Rightarrow> Scanner \<Rightarrow> ScanState \<times> Scanner" where
  "state_n = expect_letter 0x75 StNu (''in literal null (expecting '' @ [CHR 0x27, CHR ''u'', CHR 0x27] @ '')'')"

definition state_nu :: "u8 \<Rightarrow> Scanner \<Rightarrow> ScanState \<times> Scanner" where
  "state_nu = expect_letter 0x6c StNul (''in literal null (expecting '' @ [CHR 0x27, CHR ''l'', CHR 0x27] @ '')'')"

definition state_nul :: "u8 \<Rightarrow> Scanner \<Rightarrow> ScanState \<times> Scanner" where
  "state_nul = expect_letter 0x6c StEndValue (''in literal null (expecting '' @ [CHR 0x27, CHR ''l'', CHR 0x27] @ '')'')"

definition state_error :: "u8 \<Rightarrow> Scanner \<Rightarrow> ScanState \<times> Scanner" where
  "state_error c s = (ScanError, s)"

section \<open>Stepping\<close>

primrec step_fn :: "StepFn \<Rightarrow> u8 \<Rightarrow> Scanner \<Rightarrow> ScanState \<times> Scanner" where
  "step_fn StBeginValue = state_begin_value"
| "step_fn StBeginValueOrEmpty = state_begin_value_or_empty"
| "step_fn StBeginStringOrEmpty = state_begin_string_or_empty"
| "step_fn StBeginString = state_begin_string"
| "step_fn StEndValue = state_end_value"
| "step_fn StEndTop = state_end_top"
| "step_fn StInString = state_in_string"
| "step_fn StInStringEsc = state_in_string_esc"
| "step_fn StInStringEscU = state_in_string_esc_u"
| "step_fn StInStringEscU1 = state_in_string_esc_u1"
| "step_fn StInStringEscU12 = state_in_string_esc_u12"
| "step_fn StInStringEscU123 = state_in_string_esc_u123"
| "step_fn StNeg = state_neg"
| "step_fn St1 = state1"
| "step_fn St0 = state0"
| "step_fn StDot = state_dot"
| "step_fn StDot0 = state_dot0"
| "step_fn StE = state_e"
| "step_fn StESign = state_e_sign"
| "step_fn StE0 = state_e0"
| "step_fn StT = state_t"
| "step_fn StTr = state_tr"
| "step_fn StTru = state_tru"
| "step_fn StF = state_f"
| "step_fn StFa = state_fa"
| "step_fn StFal = state_fal"
| "step_fn StFals = state_fals"
| "step_fn StN = state_n"
| "step_fn StNu = state_nu"
| "step_fn StNul = state_nul"
| "step_fn StError = state_error"

text \<open>Indexing the vector of open containers when there is none is a panic.\<close>

definition scanner_step :: "u8 \<Rightarrow> Scanner \<Rightarrow> (HttpErrorKind, ScanState \<times> Scanner) result" where
  "scanner_step c s =
    (if sc_step s = StBeginStringOrEmpty \<and> c = 0x7d \<and> sc_parse_state s = [] then Panic
     else Ok (step_fn (sc_step s) c s))"

definition scanner_eof :: "Scanner \<Rightarrow> (HttpErrorKind, ScanState \<times> Scanner) result" where
  "scanner_eof s =
    (if sc_err s \<noteq> None then Ok (ScanError, s)
     else if sc_end_top s then Ok (End, s)
     else scanner_step 0x20 s)"

fun valid_loop :: "bytes \<Rightarrow> Scanner \<Rightarrow> (HttpErrorKind, bool) result" where
  "valid_loop [] s = and_then (scanner_eof s) (\<lambda>(r, _). Ok (r \<noteq> ScanError))"
| "valid_loop (c # cs) s =
    and_then (scanner_step c (incr_bytes 1 s)) (\<lambda>(r, s). if r = ScanError then Ok False else valid_loop cs s)"

definition valid :: "bytes \<Rightarrow> (HttpErrorKind, bool) result" where
  "valid data = valid_loop data scanner_new"

end
