(* ===== verification/Json_Grammar.thy ===== *)
theory Json_Grammar
  imports Json_Scanner
begin

text \<open>
  The grammar of JSON texts over bytes and the language of the scanner of \<open>Json_Scanner\<close>: where a scan
  of a value ends, and that it ends exactly behind a value of the grammar. White space is what the
  scanner takes for it, which includes the form feed; string contents are not checked to be UTF-8.
\<close>

section \<open>Grammar\<close>

definition blanks :: "bytes \<Rightarrow> bool" where
  "blanks w \<longleftrightarrow> (\<forall>c\<in>set w. is_ascii_whitespace c)"

definition digits :: "bytes \<Rightarrow> bool" where
  "digits d \<longleftrightarrow> (\<forall>c\<in>set d. is_ascii_digit c)"

inductive string_body :: "bytes \<Rightarrow> bool" where
  body_end: "string_body []"
| body_plain: "\<not> c < 0x20 \<Longrightarrow> c \<noteq> 0x22 \<Longrightarrow> c \<noteq> 0x5c \<Longrightarrow> string_body s \<Longrightarrow> string_body (c # s)"
| body_escape: "c \<in> {0x62, 0x66, 0x6e, 0x72, 0x74, 0x5c, 0x2f, 0x22} \<Longrightarrow> string_body s \<Longrightarrow> string_body (0x5c # c # s)"
| body_unicode: "list_all is_ascii_hexdigit [a, b, c, d] \<Longrightarrow> string_body s
    \<Longrightarrow> string_body (0x5c # 0x75 # a # b # c # d # s)"

inductive exponent :: "bytes \<Rightarrow> bool" where
  no_exponent: "exponent []"
| exponent: "x = 0x65 \<or> x = 0x45 \<Longrightarrow> sg \<in> {[], [0x2b], [0x2d]} \<Longrightarrow> digits d \<Longrightarrow> d \<noteq> [] \<Longrightarrow> exponent (x # sg @ d)"

inductive fraction :: "bytes \<Rightarrow> bool" where
  no_fraction: "exponent e \<Longrightarrow> fraction e"
| fraction: "digits d \<Longrightarrow> d \<noteq> [] \<Longrightarrow> exponent e \<Longrightarrow> fraction (0x2e # d @ e)"

inductive magnitude :: "bytes \<Rightarrow> bool" where
  zero: "fraction f \<Longrightarrow> magnitude (0x30 # f)"
| nonzero: "is_ascii_digit c \<Longrightarrow> c \<noteq> 0x30 \<Longrightarrow> digits d \<Longrightarrow> fraction f \<Longrightarrow> magnitude (c # d @ f)"

inductive json_number :: "bytes \<Rightarrow> bool" where
  positive: "magnitude v \<Longrightarrow> json_number v"
| negative: "magnitude v \<Longrightarrow> json_number (0x2d # v)"

inductive json_value :: "bytes \<Rightarrow> bool" and json_elements :: "bytes \<Rightarrow> bool" and json_members :: "bytes \<Rightarrow> bool" where
  json_string: "string_body s \<Longrightarrow> json_value (0x22 # s @ [0x22])"
| json_num: "json_number v \<Longrightarrow> json_value v"
| json_true: "json_value [0x74, 0x72, 0x75, 0x65]"
| json_false: "json_value [0x66, 0x61, 0x6c, 0x73, 0x65]"
| json_null: "json_value [0x6e, 0x75, 0x6c, 0x6c]"
| json_empty_array: "blanks w \<Longrightarrow> json_value (0x5b # w @ [0x5d])"
| json_array: "json_elements es \<Longrightarrow> json_value (0x5b # es @ [0x5d])"
| json_empty_object: "blanks w \<Longrightarrow> json_value (0x7b # w @ [0x7d])"
| json_object: "json_members ms \<Longrightarrow> json_value (0x7b # ms @ [0x7d])"
| last_element: "blanks w \<Longrightarrow> json_value v \<Longrightarrow> blanks w' \<Longrightarrow> json_elements (w @ v @ w')"
| more_elements: "blanks w \<Longrightarrow> json_value v \<Longrightarrow> blanks w' \<Longrightarrow> json_elements es
    \<Longrightarrow> json_elements (w @ v @ w' @ 0x2c # es)"
| last_member: "blanks w \<Longrightarrow> string_body k \<Longrightarrow> blanks w1 \<Longrightarrow> blanks w2 \<Longrightarrow> json_value v \<Longrightarrow> blanks w3
    \<Longrightarrow> json_members (w @ 0x22 # k @ 0x22 # w1 @ 0x3a # w2 @ v @ w3)"
| more_members: "blanks w \<Longrightarrow> string_body k \<Longrightarrow> blanks w1 \<Longrightarrow> blanks w2 \<Longrightarrow> json_value v \<Longrightarrow> blanks w3
    \<Longrightarrow> json_members ms \<Longrightarrow> json_members (w @ 0x22 # k @ 0x22 # w1 @ 0x3a # w2 @ v @ w3 @ 0x2c # ms)"

section \<open>Length of a scan\<close>

text \<open>
  The control part of a scanner step, and the number of bytes after which a scan from a state ends
  with a value: before the byte that reports the end of the text, or behind the one that closes the
  outermost container. \<open>None\<close> is a syntax error or the end of the input inside a value.
\<close>

definition scanner_at :: "StepFn \<Rightarrow> ParseState list \<Rightarrow> Scanner" where
  "scanner_at q outer = \<lparr>sc_step = q, sc_end_top = False, sc_parse_state = outer, sc_err = None, sc_bytes = 0\<rparr>"

definition ctl :: "StepFn \<Rightarrow> ParseState list \<Rightarrow> u8 \<Rightarrow> ScanState \<times> StepFn \<times> ParseState list" where
  "ctl q outer c = (case step_fn q c (scanner_at q outer) of (r, s) \<Rightarrow> (r, sc_step s, sc_parse_state s))"

fun scan_len :: "StepFn \<Rightarrow> ParseState list \<Rightarrow> bytes \<Rightarrow> nat option" where
  "scan_len q outer [] = (if fst (ctl q outer 0x20) = End then Some 0 else None)"
| "scan_len q outer (c # b) =
    (case ctl q outer c of (r, q', outer') \<Rightarrow>
       if r = End then Some 0
       else if r = ScanError then None
       else if (r = EndObject \<or> r = EndArray) \<and> outer' = [] then Some 1
       else map_option Suc (scan_len q' outer' b))"

section \<open>Control of each state\<close>

lemmas scanner_defs = goto_def scan_error_def push_parse_state_def pop_parse_state_def state_end_top_def
  state_end_value_def state_begin_value_def state_begin_value_or_empty_def state_begin_string_def
  state_begin_string_or_empty_def state_in_string_def state_in_string_esc_def hex_escape_def
  state_in_string_esc_u_def state_in_string_esc_u1_def state_in_string_esc_u12_def state_in_string_esc_u123_def
  state_neg_def state0_def state1_def state_dot_def state_dot0_def state_e_sign_def state_e_def state_e0_def
  expect_letter_def state_t_def state_tr_def state_tru_def state_f_def state_fa_def state_fal_def
  state_fals_def state_n_def state_nu_def state_nul_def state_error_def

lemma scan_end_top [simp]: "scan_len StEndValue [] b = Some 0"
  by (cases b) (simp_all add: ctl_def scanner_at_def scanner_defs)

lemma scan_end_value:
  "scan_len StEndValue (ps # outer) [] = None"
  "scan_len StEndValue (ps # outer) (c # b) =
    (if is_ascii_whitespace c then map_option Suc (scan_len StEndValue (ps # outer) b)
     else case ps of
       ParseState.ObjectKey \<Rightarrow>
         if c = 0x3a then map_option Suc (scan_len StBeginValue (ParseState.ObjectValue # outer) b) else None
     | ParseState.ObjectValue \<Rightarrow>
         if c = 0x2c then map_option Suc (scan_len StBeginString (ParseState.ObjectKey # outer) b)
         else if c = 0x7d then map_option Suc (scan_len StEndValue outer b) else None
     | ParseState.ArrayValue \<Rightarrow>
         if c = 0x2c then map_option Suc (scan_len StBeginValue (ParseState.ArrayValue # outer) b)
         else if c = 0x5d then map_option Suc (scan_len StEndValue outer b) else None)"
  by (cases outer; simp add: ctl_def scanner_at_def scanner_defs is_ascii_whitespace_def Let_def split: ParseState.split)+

lemma scan_begin_value:
  "scan_len StBeginValue outer [] = None"
  "scan_len StBeginValue outer (c # b) =
    (if is_ascii_whitespace c then map_option Suc (scan_len StBeginValue outer b)
     else if c = 0x7b then map_option Suc (scan_len StBeginStringOrEmpty (ParseState.ObjectKey # outer) b)
     else if c = 0x5b then map_option Suc (scan_len StBeginValueOrEmpty (ParseState.ArrayValue # outer) b)
     else if c = 0x22 then map_option Suc (scan_len StInString outer b)
     else if c = 0x2d then map_option Suc (scan_len StNeg outer b)
     else if c = 0x30 then map_option Suc (scan_len St0 outer b)
     else if c = 0x74 then map_option Suc (scan_len StT outer b)
     else if c = 0x66 then map_option Suc (scan_len StF outer b)
     else if c = 0x6e then map_option Suc (scan_len StN outer b)
     else if is_ascii_digit c then map_option Suc (scan_len St1 outer b)
     else None)"
  by (simp_all add: ctl_def scanner_at_def scanner_defs is_ascii_whitespace_def)

lemma scan_begin_value_or_empty:
  "scan_len StBeginValueOrEmpty (ParseState.ArrayValue # outer) [] = None"
  "scan_len StBeginValueOrEmpty (ParseState.ArrayValue # outer) (c # b) =
    (if is_ascii_whitespace c then map_option Suc (scan_len StBeginValueOrEmpty (ParseState.ArrayValue # outer) b)
     else if c = 0x5d then map_option Suc (scan_len StEndValue outer b)
     else scan_len StBeginValue (ParseState.ArrayValue # outer) (c # b))"
  by (cases outer; simp add: ctl_def scanner_at_def scanner_defs is_ascii_whitespace_def Let_def)+

lemma scan_begin_string:
  "scan_len StBeginString outer [] = None"
  "scan_len StBeginString outer (c # b) =
    (if is_ascii_whitespace c then map_option Suc (scan_len StBeginString outer b)
     else if c = 0x22 then map_option Suc (scan_len StInString outer b) else None)"
  by (simp_all add: ctl_def scanner_at_def scanner_defs is_ascii_whitespace_def)

lemma scan_begin_string_or_empty:
  "scan_len StBeginStringOrEmpty (ps # outer) [] = None"
  "scan_len StBeginStringOrEmpty (ps # outer) (c # b) =
    (if is_ascii_whitespace c then map_option Suc (scan_len StBeginStringOrEmpty (ps # outer) b)
     else if c = 0x7d then map_option Suc (scan_len StEndValue outer b)
     else scan_len StBeginString (ps # outer) (c # b))"
  by (cases outer; simp add: ctl_def scanner_at_def scanner_defs is_ascii_whitespace_def Let_def)+

lemma scan_in_string:
  "scan_len StInString outer [] = None"
  "scan_len StInString outer (c # b) =
    (if c = 0x22 then map_option Suc (scan_len StEndValue outer b)
     else if c = 0x5c then map_option Suc (scan_len StInStringEsc outer b)
     else if c < 0x20 then None else map_option Suc (scan_len StInString outer b))"
  "scan_len StInStringEsc outer [] = None"
  "scan_len StInStringEsc outer (c # b) =
    (if c \<in> {0x62, 0x66, 0x6e, 0x72, 0x74, 0x5c, 0x2f, 0x22} then map_option Suc (scan_len StInString outer b)
     else if c = 0x75 then map_option Suc (scan_len StInStringEscU outer b) else None)"
  by (simp_all add: ctl_def scanner_at_def scanner_defs)

lemma scan_hex:
  "scan_len StInStringEscU outer [] = None"
  "scan_len StInStringEscU outer (c # b) =
    (if is_ascii_hexdigit c then map_option Suc (scan_len StInStringEscU1 outer b) else None)"
  "scan_len StInStringEscU1 outer [] = None"
  "scan_len StInStringEscU1 outer (c # b) =
    (if is_ascii_hexdigit c then map_option Suc (scan_len StInStringEscU12 outer b) else None)"
  "scan_len StInStringEscU12 outer [] = None"
  "scan_len StInStringEscU12 outer (c # b) =
    (if is_ascii_hexdigit c then map_option Suc (scan_len StInStringEscU123 outer b) else None)"
  "scan_len StInStringEscU123 outer [] = None"
  "scan_len StInStringEscU123 outer (c # b) =
    (if is_ascii_hexdigit c then map_option Suc (scan_len StInString outer b) else None)"
  by (simp_all add: ctl_def scanner_at_def scanner_defs)

lemma end_value_any: "state_end_value c (scanner_at q outer) = state_end_value c (scanner_at StEndValue outer)"
  by (cases outer)
    (simp_all add: scanner_at_def state_end_value_def state_end_top_def goto_def scan_error_def pop_parse_state_def Let_def
      split: ParseState.split)

lemma scan_len_same: "ctl q outer c = ctl q' outer c \<Longrightarrow> scan_len q outer (c # b) = scan_len q' outer (c # b)"
  by simp

lemma ctl_end_value: "step_fn q c (scanner_at q outer) = state_end_value c (scanner_at q outer) \<Longrightarrow> ctl q outer c = ctl StEndValue outer c"
  by (simp add: ctl_def end_value_any [of c q])

lemma scan_len_nil_same: "ctl q outer 0x20 = ctl StEndValue outer 0x20 \<Longrightarrow> scan_len q outer [] = scan_len StEndValue outer []"
  by simp

lemma scan_number_prefix:
  "scan_len StNeg outer [] = None"
  "scan_len StNeg outer (c # b) =
    (if c = 0x30 then map_option Suc (scan_len St0 outer b)
     else if is_ascii_digit c then map_option Suc (scan_len St1 outer b) else None)"
  "scan_len StDot outer [] = None"
  "scan_len StDot outer (c # b) = (if is_ascii_digit c then map_option Suc (scan_len StDot0 outer b) else None)"
  "scan_len StE outer [] = None"
  "scan_len StE outer (c # b) =
    (if c = 0x2b \<or> c = 0x2d then map_option Suc (scan_len StESign outer b) else scan_len StESign outer (c # b))"
  "scan_len StESign outer [] = None"
  "scan_len StESign outer (c # b) = (if is_ascii_digit c then map_option Suc (scan_len StE0 outer b) else None)"
  by (simp_all add: ctl_def scanner_at_def goto_def scan_error_def state_neg_def state_dot_def state_e_def state_e_sign_def
      is_ascii_digit_def)

lemma scan_number_nil:
  "scan_len St0 outer [] = scan_len StEndValue outer []" "scan_len St1 outer [] = scan_len StEndValue outer []"
  "scan_len StDot0 outer [] = scan_len StEndValue outer []" "scan_len StE0 outer [] = scan_len StEndValue outer []"
  by (rule scan_len_nil_same, rule ctl_end_value,
      simp add: state0_def state1_def state_dot0_def state_e0_def is_ascii_digit_def)+

lemma scan_number_St0:
  "scan_len St0 outer (c # b) =
    (if c = 0x2e then map_option Suc (scan_len StDot outer b)
     else if c = 0x65 \<or> c = 0x45 then map_option Suc (scan_len StE outer b) else scan_len StEndValue outer (c # b))"
  using scan_len_same [OF ctl_end_value, of St0 c outer b]
  by (simp add: state0_def goto_def) (simp add: ctl_def scanner_at_def state0_def goto_def)

lemma scan_number_St1:
  "scan_len St1 outer (c # b) =
    (if is_ascii_digit c then map_option Suc (scan_len St1 outer b) else scan_len St0 outer (c # b))"
proof (cases "is_ascii_digit c \<or> c = 0x2e \<or> c = 0x65 \<or> c = 0x45")
  case True
  then show ?thesis by (auto simp: ctl_def scanner_at_def state1_def state0_def goto_def)
next
  case False
  then have "scan_len St1 outer (c # b) = scan_len StEndValue outer (c # b)"
    by (intro scan_len_same ctl_end_value) (simp add: state1_def state0_def)
  with False show ?thesis by (simp only: scan_number_St0) simp
qed

lemma scan_number_St_frac:
  "scan_len StDot0 outer (c # b) =
    (if is_ascii_digit c then map_option Suc (scan_len StDot0 outer b)
     else if c = 0x65 \<or> c = 0x45 then map_option Suc (scan_len StE outer b) else scan_len StEndValue outer (c # b))"
  using scan_len_same [OF ctl_end_value, of StDot0 c outer b]
  by (simp add: state_dot0_def goto_def) (simp add: ctl_def scanner_at_def state_dot0_def goto_def)

lemma scan_number_St_exp:
  "scan_len StE0 outer (c # b) =
    (if is_ascii_digit c then map_option Suc (scan_len StE0 outer b) else scan_len StEndValue outer (c # b))"
  using scan_len_same [OF ctl_end_value, of StE0 c outer b]
  by (simp add: state_e0_def) (simp add: ctl_def scanner_at_def state_e0_def)

lemmas scan_number = scan_number_prefix scan_number_nil scan_number_St0 scan_number_St1 scan_number_St_frac
  scan_number_St_exp

lemma scan_letters:
  "scan_len StT outer (c # b) = (if c = 0x72 then map_option Suc (scan_len StTr outer b) else None)"
  "scan_len StTr outer (c # b) = (if c = 0x75 then map_option Suc (scan_len StTru outer b) else None)"
  "scan_len StTru outer (c # b) = (if c = 0x65 then map_option Suc (scan_len StEndValue outer b) else None)"
  "scan_len StF outer (c # b) = (if c = 0x61 then map_option Suc (scan_len StFa outer b) else None)"
  "scan_len StFa outer (c # b) = (if c = 0x6c then map_option Suc (scan_len StFal outer b) else None)"
  "scan_len StFal outer (c # b) = (if c = 0x73 then map_option Suc (scan_len StFals outer b) else None)"
  "scan_len StFals outer (c # b) = (if c = 0x65 then map_option Suc (scan_len StEndValue outer b) else None)"
  "scan_len StN outer (c # b) = (if c = 0x75 then map_option Suc (scan_len StNu outer b) else None)"
  "scan_len StNu outer (c # b) = (if c = 0x6c then map_option Suc (scan_len StNul outer b) else None)"
  "scan_len StNul outer (c # b) = (if c = 0x6c then map_option Suc (scan_len StEndValue outer b) else None)"
  "scan_len StT outer [] = None" "scan_len StTr outer [] = None" "scan_len StTru outer [] = None"
  "scan_len StF outer [] = None" "scan_len StFa outer [] = None" "scan_len StFal outer [] = None"
  "scan_len StFals outer [] = None" "scan_len StN outer [] = None" "scan_len StNu outer [] = None"
  "scan_len StNul outer [] = None"
  by (simp_all add: ctl_def scanner_at_def scanner_defs)

declare scan_len.simps [simp del]


lemmas scan_rules = scan_begin_value scan_begin_value_or_empty scan_begin_string scan_begin_string_or_empty
  scan_in_string scan_hex scan_number scan_letters

section \<open>Values are accepted\<close>

text \<open>The length of a scan that first passes over \<open>k\<close> bytes.\<close>

definition advance :: "nat \<Rightarrow> nat option \<Rightarrow> nat option" where
  "advance k = map_option (\<lambda>m. k + m)"

lemma advance_simps [simp]:
  "advance 0 x = x" "map_option Suc (advance k x) = advance (Suc k) x" "advance k (advance j x) = advance (k + j) x"
  "advance k (Some m) = Some (k + m)" "advance k None = None"
  by (cases x; simp add: advance_def)+

lemma map_option_Suc: "map_option Suc x = advance 1 x"
  by (cases x) (simp_all add: advance_def)

lemma advance_eq_Some: "advance k x = Some n \<longleftrightarrow> (\<exists>m. x = Some m \<and> n = k + m)"
  by (cases x) (auto simp: advance_def)

lemma byte_facts [simp]:
  "is_ascii_digit c \<Longrightarrow> \<not> is_ascii_whitespace c" "is_ascii_digit 0x30"
  "\<not> is_ascii_whitespace 0x22" "\<not> is_ascii_whitespace 0x2c" "\<not> is_ascii_whitespace 0x3a" "\<not> is_ascii_whitespace 0x5b"
  "\<not> is_ascii_whitespace 0x5d" "\<not> is_ascii_whitespace 0x7b" "\<not> is_ascii_whitespace 0x7d" "\<not> is_ascii_whitespace 0x2d"
  "\<not> is_ascii_whitespace 0x30" "\<not> is_ascii_whitespace 0x74" "\<not> is_ascii_whitespace 0x66" "\<not> is_ascii_whitespace 0x6e"
  by (auto simp: is_ascii_digit_def is_ascii_whitespace_def)

lemma blanks_simps [simp]:
  "blanks []" "blanks (c # w) \<longleftrightarrow> is_ascii_whitespace c \<and> blanks w" "blanks (v @ w) \<longleftrightarrow> blanks v \<and> blanks w"
  by (auto simp: blanks_def)

lemma digits_simps [simp]: "digits []" "digits (c # d) \<longleftrightarrow> is_ascii_digit c \<and> digits d"
  by (auto simp: digits_def)

lemma scan_blanks:
  assumes "blanks w"
  shows "scan_len StBeginValue outer (w @ r) = advance (length w) (scan_len StBeginValue outer r)"
    "scan_len StBeginString outer (w @ r) = advance (length w) (scan_len StBeginString outer r)"
    "scan_len StEndValue (ps # outer) (w @ r) = advance (length w) (scan_len StEndValue (ps # outer) r)"
    "scan_len StBeginValueOrEmpty (ParseState.ArrayValue # outer) (w @ r)
      = advance (length w) (scan_len StBeginValueOrEmpty (ParseState.ArrayValue # outer) r)"
    "scan_len StBeginStringOrEmpty (ps # outer) (w @ r)
      = advance (length w) (scan_len StBeginStringOrEmpty (ps # outer) r)"
  using assms by (induction w) (simp_all add: scan_rules scan_end_value)

lemma scan_string_body:
  "string_body s \<Longrightarrow> scan_len StInString outer (s @ 0x22 # r) = advance (Suc (length s)) (scan_len StEndValue outer r)"
  by (induction rule: string_body.induct) (simp_all add: scan_in_string scan_hex map_option_Suc)

text \<open>A number ends where no byte follows that could belong to one.\<close>

definition number_stops :: "bytes \<Rightarrow> bool" where
  "number_stops r = (case r of [] \<Rightarrow> True
     | c # _ \<Rightarrow> \<not> is_ascii_digit c \<and> c \<noteq> 0x2e \<and> c \<noteq> 0x65 \<and> c \<noteq> 0x45)"

lemma number_stopsD:
  assumes "number_stops r"
  shows "scan_len St0 outer r = scan_len StEndValue outer r" "scan_len St1 outer r = scan_len StEndValue outer r"
    "scan_len StDot0 outer r = scan_len StEndValue outer r" "scan_len StE0 outer r = scan_len StEndValue outer r"
  using assms by (cases r; simp add: number_stops_def scan_number)+

lemma scan_digits:
  assumes "digits d"
  shows "scan_len StE0 outer (d @ r) = advance (length d) (scan_len StE0 outer r)"
    "scan_len StDot0 outer (d @ r) = advance (length d) (scan_len StDot0 outer r)"
    "scan_len St1 outer (d @ r) = advance (length d) (scan_len St1 outer r)"
  using assms by (induction d) (simp_all add: scan_number)

lemma exponent_start: "exponent e \<Longrightarrow> e = [] \<or> (\<exists>x t. e = x # t \<and> (x = 0x65 \<or> x = 0x45))"
  by (cases rule: exponent.cases) auto

lemma not_digit [simp]: "\<not> is_ascii_digit 0x65" "\<not> is_ascii_digit 0x45" "\<not> is_ascii_digit 0x2e"
  "\<not> is_ascii_digit 0x2b" "\<not> is_ascii_digit 0x2d"
  by (simp_all add: is_ascii_digit_def)

lemma scan_exponent:
  assumes "exponent e" and "number_stops r"
  shows "scan_len St0 outer (e @ r) = advance (length e) (scan_len StEndValue outer r)"
    "scan_len StDot0 outer (e @ r) = advance (length e) (scan_len StEndValue outer r)"
proof -
  have "scan_len St0 outer (e @ r) = advance (length e) (scan_len StEndValue outer r)
    \<and> scan_len StDot0 outer (e @ r) = advance (length e) (scan_len StEndValue outer r)"
    using assms(1)
  proof cases
    case (exponent x sg d)
    then obtain c d' where d: "d = c # d'" "is_ascii_digit c" "digits d'" by (cases d) auto
    have sign: "c \<noteq> 0x2b \<and> c \<noteq> 0x2d" using d(2) by (auto simp: is_ascii_digit_def)
    have "scan_len StE outer (sg @ d @ r) = advance (length (sg @ d)) (scan_len StEndValue outer r)"
      using exponent(3) d sign assms(2)
      by (auto simp: scan_number scan_digits number_stopsD map_option_Suc)
    with exponent(1,2) show ?thesis by (auto simp: scan_number map_option_Suc)
  qed (use assms(2) in \<open>simp add: number_stopsD\<close>)
  then show "scan_len St0 outer (e @ r) = advance (length e) (scan_len StEndValue outer r)"
    "scan_len StDot0 outer (e @ r) = advance (length e) (scan_len StEndValue outer r)" by simp_all
qed

lemma scan_fraction:
  assumes "fraction f" and "number_stops r"
  shows "scan_len St0 outer (f @ r) = advance (length f) (scan_len StEndValue outer r)"
  using assms
proof (induction rule: fraction.induct)
  case (fraction d e)
  then obtain c d' where "d = c # d'" "is_ascii_digit c" "digits d'" by (cases d) auto
  with fraction show ?case by (simp add: scan_number scan_digits scan_exponent map_option_Suc)
qed (simp add: scan_exponent)

lemma fraction_St1:
  assumes "fraction f" and "number_stops r"
  shows "scan_len St1 outer (f @ r) = scan_len St0 outer (f @ r)"
  using assms by (cases rule: fraction.cases)
    (auto dest!: exponent_start simp: scan_number number_stopsD)

lemma scan_json_number:
  assumes "json_number v" and "number_stops r"
  shows "scan_len StBeginValue outer (v @ r) = advance (length v) (scan_len StEndValue outer r)"
proof -
  have m: "scan_len StBeginValue outer (m @ r) = advance (length m) (scan_len StEndValue outer r)
      \<and> scan_len StNeg outer (m @ r) = advance (length m) (scan_len StEndValue outer r)" if "magnitude m" for m
    using that
  proof cases
    case (nonzero c d f)
    then have "c \<notin> {0x7b, 0x5b, 0x22, 0x2d, 0x74, 0x66, 0x6e}" by (auto simp: is_ascii_digit_def)
    with nonzero assms(2) show ?thesis
      by (simp add: scan_begin_value scan_number scan_digits fraction_St1 scan_fraction map_option_Suc)
  qed (use assms(2) in \<open>simp_all add: scan_begin_value scan_number scan_fraction map_option_Suc\<close>)
  from assms(1) show ?thesis
    by cases (simp_all add: m scan_begin_value map_option_Suc)
qed

text \<open>A value starts with a byte that is neither white space nor a closing bracket.\<close>

lemma json_value_start: "json_value v \<Longrightarrow> \<exists>c t. v = c # t \<and> \<not> is_ascii_whitespace c \<and> c \<noteq> 0x5d"
  by (erule json_value.cases)
    (auto elim!: json_number.cases magnitude.cases simp: is_ascii_digit_def is_ascii_whitespace_def)

lemma number_stops_blanks: "blanks w \<Longrightarrow> c = 0x2c \<or> c = 0x5d \<or> c = 0x7d \<Longrightarrow> number_stops (w @ c # r)"
  by (cases w) (auto simp: number_stops_def is_ascii_whitespace_def is_ascii_digit_def)

lemma scan_value_or_empty:
  assumes "json_value v"
  shows "scan_len StBeginValueOrEmpty (ParseState.ArrayValue # outer) (v @ r)
    = scan_len StBeginValue (ParseState.ArrayValue # outer) (v @ r)"
  using json_value_start [OF assms] by (auto simp: scan_begin_value_or_empty)

lemma scan_key:
  assumes "string_body k" and "blanks w1" and "blanks w2"
  shows "scan_len StInString (ParseState.ObjectKey # outer) (k @ 0x22 # w1 @ 0x3a # w2 @ r)
    = advance (length k + length w1 + length w2 + 2) (scan_len StBeginValue (ParseState.ObjectValue # outer) r)"
  using assms by (simp add: scan_string_body scan_blanks scan_end_value map_option_Suc add.assoc)

lemma json_value_scanned:
  "json_value v \<Longrightarrow> (json_number v \<longrightarrow> number_stops r) \<Longrightarrow>
    scan_len StBeginValue outer (v @ r) = advance (length v) (scan_len StEndValue outer r)"
  and json_elements_scanned:
  "json_elements es \<Longrightarrow> \<forall>q\<in>{StBeginValue, StBeginValueOrEmpty}.
    scan_len q (ParseState.ArrayValue # outer) (es @ 0x5d # r) = advance (Suc (length es)) (scan_len StEndValue outer r)"
  and json_members_scanned:
  "json_members ms \<Longrightarrow> \<forall>q\<in>{StBeginString, StBeginStringOrEmpty}.
    scan_len q (ParseState.ObjectKey # outer) (ms @ 0x7d # r) = advance (Suc (length ms)) (scan_len StEndValue outer r)"
proof (induction arbitrary: outer r and outer r and outer r rule: json_value_json_elements_json_members.inducts)
  case (json_string s)
  then show ?case by (simp add: scan_begin_value scan_string_body map_option_Suc)
next
  case (json_num v)
  then show ?case by (simp add: scan_json_number)
next
  case (last_element w v w')
  then show ?case
    by (simp add: scan_blanks scan_value_or_empty number_stops_blanks scan_end_value map_option_Suc
      add.assoc)
next
  case (more_elements w v w' es)
  then show ?case
    by (simp add: scan_blanks scan_value_or_empty number_stops_blanks scan_end_value map_option_Suc
      add.assoc)
next
  case (last_member w k w1 w2 v w3)
  then show ?case
    by (simp add: scan_blanks scan_key scan_begin_string scan_begin_string_or_empty number_stops_blanks scan_end_value map_option_Suc
      add.assoc)
next
  case (more_members w k w1 w2 v w3 ms)
  then show ?case
    by (simp add: scan_blanks scan_key scan_begin_string scan_begin_string_or_empty number_stops_blanks scan_end_value map_option_Suc
      add.assoc)
qed (simp_all add: scan_begin_value scan_letters scan_blanks scan_begin_value_or_empty scan_begin_string_or_empty map_option_Suc)

section \<open>What is accepted is a value\<close>

text \<open>\<open>takes P f b n\<close>: a scan of length \<open>n\<close> passes over a prefix that satisfies \<open>P\<close> and goes on as \<open>f\<close>.\<close>

definition takes :: "(bytes \<Rightarrow> bool) \<Rightarrow> (bytes \<Rightarrow> nat option) \<Rightarrow> bytes \<Rightarrow> nat \<Rightarrow> bool" where
  "takes P f b n \<longleftrightarrow> (\<exists>v r m. b = v @ r \<and> P v \<and> f r = Some m \<and> n = length v + m)"

lemma takesI: "b = v @ r \<Longrightarrow> P v \<Longrightarrow> f r = Some m \<Longrightarrow> n = length v + m \<Longrightarrow> takes P f b n"
  by (auto simp: takes_def)

lemma takes_nothing: "f b = Some n \<Longrightarrow> P [] \<Longrightarrow> takes P f b n"
  by (rule takesI [of _ "[]"]) simp_all

lemma takes_Cons: "takes P f b n \<Longrightarrow> (\<And>v. P v \<Longrightarrow> Q (c # v)) \<Longrightarrow> takes Q f (c # b) (Suc n)"
  unfolding takes_def by (metis append_Cons length_Cons add_Suc)

lemma takes_prefix:
  assumes "takes P f r m" and "\<And>v. P v \<Longrightarrow> Q (p @ v)" and "b = p @ r" and "n = length p + m"
  shows "takes Q f b n"
proof -
  obtain v t k where "r = v @ t" "P v" "f t = Some k" "m = length v + k" using assms(1) by (auto simp: takes_def)
  with assms(2-) show ?thesis by (intro takesI [of _ "p @ v" t]) simp_all
qed

lemma takes_append:
  assumes "takes P f b n" and "\<And>v r m. b = v @ r \<Longrightarrow> P v \<Longrightarrow> f r = Some m \<Longrightarrow> takes Q g r m"
    and "\<And>v u. P v \<Longrightarrow> Q u \<Longrightarrow> R (v @ u)"
  shows "takes R g b n"
proof -
  obtain v r m where v: "b = v @ r" "P v" "f r = Some m" "n = length v + m" using assms(1) by (auto simp: takes_def)
  obtain u t k where u: "r = u @ t" "Q u" "g t = Some k" "m = length u + k"
    using assms(2) [OF v(1-3)] by (auto simp: takes_def)
  from u v assms(3) [OF v(2) u(2)] show ?thesis by (intro takesI [of _ "v @ u" t _ _ k]) simp_all
qed

lemma takes_mono: "takes P f b n \<Longrightarrow> (\<And>v. P v \<Longrightarrow> Q v) \<Longrightarrow> takes Q f b n"
  by (auto simp: takes_def)

lemma map_Suc_eq_Some: "map_option Suc x = Some n \<longleftrightarrow> (\<exists>m. x = Some m \<and> n = Suc m)"
  by (cases x) auto

lemma takes_digits:
  "scan_len StE0 outer b = Some n \<Longrightarrow> takes digits (scan_len StEndValue outer) b n"
  by (induction b arbitrary: n)
    (auto simp: scan_number map_Suc_eq_Some intro: takes_nothing takes_Cons split: if_splits)

lemma takes_exponent:
  "scan_len StE outer b = Some n \<Longrightarrow> x = 0x65 \<or> x = 0x45 \<Longrightarrow> takes exponent (scan_len StEndValue outer) (x # b) (Suc n)"
proof -
  assume x: "x = 0x65 \<or> x = 0x45"
  have sign: "takes (\<lambda>d. digits d \<and> d \<noteq> []) (scan_len StEndValue outer) b n" if "scan_len StESign outer b = Some n" for b n
    using that by (cases b) (auto simp: scan_number map_Suc_eq_Some intro!: takes_Cons [OF takes_digits] split: if_splits)
  assume "scan_len StE outer b = Some n"
  then consider "scan_len StESign outer b = Some n" | c b' m where "b = c # b'" "c = 0x2b \<or> c = 0x2d"
      "scan_len StESign outer b' = Some m" "n = Suc m"
    by (cases b) (auto simp: scan_number map_Suc_eq_Some split: if_splits)
  then show ?thesis
  proof cases
    case 1
    show ?thesis by (rule takes_Cons [OF sign [OF 1]]) (use x exponent.exponent [of x "[]"] in auto)
  next
    case 2
    have "takes (\<lambda>v. \<exists>d. v = c # d \<and> digits d \<and> d \<noteq> []) (scan_len StEndValue outer) b n"
      unfolding 2 by (rule takes_Cons [OF sign [OF 2(3)]]) auto
    then show ?thesis by (rule takes_Cons) (use x 2(2) exponent.exponent [of x "[c]"] in auto)
  qed
qed

lemma digits_split_Cons:
  "is_ascii_digit c \<Longrightarrow> digits d \<Longrightarrow> P e \<Longrightarrow> \<exists>d' e'. c # d @ e = d' @ e' \<and> digits d' \<and> d' \<noteq> [] \<and> P e'"
  by (rule exI [of _ "c # d"]) auto

lemma takes_fraction_digits:
  "scan_len StDot0 outer b = Some n
    \<Longrightarrow> takes (\<lambda>v. \<exists>d e. v = d @ e \<and> digits d \<and> exponent e) (scan_len StEndValue outer) b n"
proof (induction b arbitrary: n)
  case Nil
  then show ?case by (intro takes_nothing) (auto simp: scan_number intro: no_exponent exI [of _ "[]"])
next
  case (Cons c b)
  consider m where "is_ascii_digit c" "scan_len StDot0 outer b = Some m" "n = Suc m"
    | m where "c = 0x65 \<or> c = 0x45" "scan_len StE outer b = Some m" "n = Suc m"
    | "scan_len StEndValue outer (c # b) = Some n"
    using Cons.prems by (auto simp: scan_number map_Suc_eq_Some split: if_splits)
  then show ?case
  proof cases
    case 1
    show ?thesis unfolding 1(3)
      by (rule takes_Cons [OF Cons.IH [OF 1(2)]]) (use digits_split_Cons [OF 1(1), of _ exponent] in blast)
  next
    case 2
    with takes_exponent [OF 2(2,1)] show ?thesis by (auto elim!: takes_mono intro: exI [of _ "[]"])
  next
    case 3
    then show ?thesis by (intro takes_nothing) (auto intro: no_exponent exI [of _ "[]"])
  qed
qed

lemma takes_fraction: "scan_len St0 outer b = Some n \<Longrightarrow> takes fraction (scan_len StEndValue outer) b n"
proof -
  have dot: "takes fraction (scan_len StEndValue outer) (0x2e # b) (Suc n)" if "scan_len StDot outer b = Some n" for b n
  proof -
    from that obtain c b' m where b: "b = c # b'" "is_ascii_digit c" "scan_len StDot0 outer b' = Some m" "n = Suc m"
      by (cases b) (auto simp: scan_number map_Suc_eq_Some split: if_splits)
    have "takes (\<lambda>v. \<exists>d e. v = d @ e \<and> digits d \<and> d \<noteq> [] \<and> exponent e) (scan_len StEndValue outer) b n"
      unfolding b by (rule takes_Cons [OF takes_fraction_digits [OF b(3)]]) (use b(2) digits_split_Cons [of c _ exponent] in blast)
    then show ?thesis by (rule takes_Cons) (auto intro: fraction.fraction)
  qed
  assume "scan_len St0 outer b = Some n"
  then show ?thesis
    by (cases b)
      (auto simp: scan_number map_Suc_eq_Some split: if_splits
        intro: dot takes_nothing no_fraction no_exponent takes_mono [OF takes_exponent])
qed

lemma takes_digits_fraction:
  "scan_len St1 outer b = Some n
    \<Longrightarrow> takes (\<lambda>v. \<exists>d f. v = d @ f \<and> digits d \<and> fraction f) (scan_len StEndValue outer) b n"
proof (induction b arbitrary: n)
  case Nil
  then show ?case by (intro takes_nothing) (auto simp: scan_number intro: no_fraction no_exponent exI [of _ "[]"])
next
  case (Cons c b)
  consider m where "is_ascii_digit c" "scan_len St1 outer b = Some m" "n = Suc m" | "scan_len St0 outer (c # b) = Some n"
    using Cons.prems by (auto simp: scan_number_St1 map_Suc_eq_Some split: if_splits)
  then show ?case
  proof cases
    case 1
    show ?thesis unfolding 1(3)
      by (rule takes_Cons [OF Cons.IH [OF 1(2)]]) (use digits_split_Cons [OF 1(1), of _ fraction] in blast)
  next
    case 2
    from takes_fraction [OF 2] show ?thesis by (auto elim!: takes_mono intro: exI [of _ "[]"])
  qed
qed

lemma takes_nonzero:
  "is_ascii_digit c \<Longrightarrow> c \<noteq> 0x30 \<Longrightarrow> scan_len St1 outer b = Some n \<Longrightarrow> takes magnitude (scan_len StEndValue outer) (c # b) (Suc n)"
  by (rule takes_Cons [OF takes_digits_fraction]) (auto intro: magnitude.nonzero)

lemma takes_zero: "scan_len St0 outer b = Some n \<Longrightarrow> takes magnitude (scan_len StEndValue outer) (0x30 # b) (Suc n)"
  by (rule takes_Cons [OF takes_fraction]) (auto intro: magnitude.zero)

lemma takes_magnitude: "scan_len StNeg outer b = Some n \<Longrightarrow> takes magnitude (scan_len StEndValue outer) b n"
  by (cases b) (auto simp: scan_number_prefix map_Suc_eq_Some split: if_splits intro: takes_zero takes_nonzero)

lemma hex_next:
  "scan_len StInStringEscU outer b = Some n
    \<Longrightarrow> \<exists>c d e f b' m. b = c # d # e # f # b' \<and> list_all is_ascii_hexdigit [c, d, e, f] \<and> scan_len StInString outer b' = Some m
      \<and> n = 4 + m"
proof -
  have step: "\<exists>c b' m. b = c # b' \<and> is_ascii_hexdigit c \<and> scan_len q' outer b' = Some m \<and> n = Suc m"
    if "scan_len q outer b = Some n" "(q, q') \<in> {(StInStringEscU, StInStringEscU1), (StInStringEscU1, StInStringEscU12),
      (StInStringEscU12, StInStringEscU123), (StInStringEscU123, StInString)}" for q q' b n
    using that by (cases b) (auto simp: scan_hex map_Suc_eq_Some split: if_splits)
  assume "scan_len StInStringEscU outer b = Some n"
  from step [OF this, of StInStringEscU1] obtain c b1 m1
    where 1: "b = c # b1" "is_ascii_hexdigit c" "scan_len StInStringEscU1 outer b1 = Some m1" "n = Suc m1" by auto
  from step [OF 1(3), of StInStringEscU12] obtain d b2 m2
    where 2: "b1 = d # b2" "is_ascii_hexdigit d" "scan_len StInStringEscU12 outer b2 = Some m2" "m1 = Suc m2" by auto
  from step [OF 2(3), of StInStringEscU123] obtain e b3 m3
    where 3: "b2 = e # b3" "is_ascii_hexdigit e" "scan_len StInStringEscU123 outer b3 = Some m3" "m2 = Suc m3" by auto
  from step [OF 3(3), of StInString] obtain f b4 m4
    where 4: "b3 = f # b4" "is_ascii_hexdigit f" "scan_len StInString outer b4 = Some m4" "m3 = Suc m4" by auto
  from 1 2 3 4 show ?thesis by (intro exI [of _ c] exI [of _ d] exI [of _ e] exI [of _ f] exI [of _ b4] exI [of _ m4]) simp
qed

lemma takes_string:
  "scan_len StInString outer b = Some n
    \<Longrightarrow> takes (\<lambda>v. \<exists>k. v = k @ [0x22] \<and> string_body k) (scan_len StEndValue outer) b n"
proof (induction b arbitrary: n rule: length_induct)
  case hyp: (1 b)
  let ?P = "\<lambda>v. \<exists>k. v = k @ [0x22] \<and> string_body k"
  let ?f = "scan_len StEndValue outer"
  have IH: "takes ?P ?f r m" if "scan_len StInString outer r = Some m" "length r < length b" for r m
    using hyp that by blast
  have prefix: "takes ?P ?f b n"
    if "b = p @ r" "scan_len StInString outer r = Some m" "p \<noteq> []" "n = length p + m"
      "\<And>k. string_body k \<Longrightarrow> string_body (p @ k)" for p r m
    by (rule takes_prefix [OF IH [OF that(2)], of _ p]) (use that in \<open>auto intro: exI\<close>)
  from hyp(2) obtain c b' where b: "b = c # b'" by (cases b) (auto simp: scan_in_string)
  consider (quote) "c = 0x22" | (plain) m where "\<not> c < 0x20" "c \<noteq> 0x22" "c \<noteq> 0x5c" "scan_len StInString outer b' = Some m" "n = Suc m"
    | (esc) m where "c = 0x5c" "scan_len StInStringEsc outer b' = Some m" "n = Suc m"
    using hyp(2) b by (auto simp: scan_in_string map_Suc_eq_Some split: if_splits)
  then show ?case
  proof cases
    case quote
    with hyp(2) b show ?thesis
      by (intro takesI [of _ "[0x22]" b' _ _ "n - 1"]) (auto simp: scan_in_string map_Suc_eq_Some intro: body_end)
  next
    case plain
    then show ?thesis by (intro prefix [of "[c]"]) (auto simp: b intro: body_plain)
  next
    case esc
    then obtain d b2 where b2: "b' = d # b2" by (cases b') (auto simp: scan_in_string)
    show ?thesis
    proof (cases "d \<in> {0x62, 0x66, 0x6e, 0x72, 0x74, 0x5c, 0x2f, 0x22}")
      case True
      with esc b b2 show ?thesis
        by (intro prefix [of "[c, d]" b2 "n - 2"]) (auto simp: scan_in_string map_Suc_eq_Some intro: body_escape)
    next
      case False
      with esc b2 obtain d1 d2 d3 d4 b3 m where d: "d = 0x75" "b2 = d1 # d2 # d3 # d4 # b3"
          "list_all is_ascii_hexdigit [d1, d2, d3, d4]" "scan_len StInString outer b3 = Some m" "n = 6 + m"
        by (auto simp: scan_in_string scan_hex map_Suc_eq_Some neq_Nil_conv split: if_splits
            dest!: hex_next)
      with esc b b2 show ?thesis
        by (intro prefix [of "[c, d, d1, d2, d3, d4]" b3 m]) (auto intro: body_unicode)
    qed
  qed
qed

lemma takes_end_value:
  "scan_len StEndValue (ps # outer) b = Some n
    \<Longrightarrow> \<exists>w c r m. b = w @ c # r \<and> blanks w \<and> \<not> is_ascii_whitespace c \<and> scan_len StEndValue (ps # outer) (c # r) = Some m
      \<and> n = length w + m"
proof (induction b arbitrary: n)
  case (Cons c b)
  show ?case
  proof (cases "is_ascii_whitespace c")
    case True
    with Cons.prems obtain m where m: "scan_len StEndValue (ps # outer) b = Some m" "n = Suc m"
      by (auto simp: scan_end_value map_Suc_eq_Some)
    from Cons.IH [OF m(1)] obtain w d r k where "b = w @ d # r" "blanks w" "\<not> is_ascii_whitespace d"
        "scan_len StEndValue (ps # outer) (d # r) = Some k" "m = length w + k" by blast
    with True m show ?thesis by (intro exI [of _ "c # w"] exI [of _ d] exI [of _ r] exI [of _ k]) simp
  next
    case False
    with Cons.prems show ?thesis by (intro exI [of _ "[]"] exI [of _ c] exI [of _ b] exI [of _ n]) simp
  qed
qed (simp add: scan_end_value)

lemma letters4:
  obtains "b = []" | c where "b = [c]" | c d where "b = [c, d]" | c d e where "b = [c, d, e]" | c d e f r where "b = c # d # e # f # r"
  by (cases b; cases "tl b"; cases "tl (tl b)"; cases "tl (tl (tl b))") auto

lemma takes_letters:
  "scan_len StT outer b = Some n \<Longrightarrow> takes (\<lambda>v. v = [0x72, 0x75, 0x65]) (scan_len StEndValue outer) b n"
  "scan_len StF outer b = Some n \<Longrightarrow> takes (\<lambda>v. v = [0x61, 0x6c, 0x73, 0x65]) (scan_len StEndValue outer) b n"
  "scan_len StN outer b = Some n \<Longrightarrow> takes (\<lambda>v. v = [0x75, 0x6c, 0x6c]) (scan_len StEndValue outer) b n"
proof -
  have step: "takes (\<lambda>v. v = l # w) f b n" if "b \<noteq> []" "hd b = l" "takes (\<lambda>v. v = w) f (tl b) (n - 1)" "0 < n" for l w f b and n :: nat
    using that by (cases b; cases n) (auto intro: takes_Cons)
  have stop: "takes (\<lambda>v. v = []) f b n" if "f b = Some n" for f b n using that by (rule takes_nothing) simp
  note rules = scan_letters map_Suc_eq_Some neq_Nil_conv
  show "takes (\<lambda>v. v = [0x72, 0x75, 0x65]) (scan_len StEndValue outer) b n" if "scan_len StT outer b = Some n"
    using that by (cases b rule: letters4)
      (auto simp: rules split: if_splits intro!: step stop)
  show "takes (\<lambda>v. v = [0x61, 0x6c, 0x73, 0x65]) (scan_len StEndValue outer) b n" if "scan_len StF outer b = Some n"
    using that by (cases b rule: letters4)
      (auto simp: rules split: if_splits intro!: step stop)
  show "takes (\<lambda>v. v = [0x75, 0x6c, 0x6c]) (scan_len StEndValue outer) b n" if "scan_len StN outer b = Some n"
    using that by (cases b rule: letters4)
      (auto simp: rules split: if_splits intro!: step stop)
qed

section \<open>Claims of the joint induction\<close>

definition value_claim :: "bytes \<Rightarrow> bool" where
  "value_claim b \<longleftrightarrow> (\<forall>outer n. scan_len StBeginValue outer b = Some n \<longrightarrow>
     takes (\<lambda>v. \<exists>w x. v = w @ x \<and> blanks w \<and> json_value x) (scan_len StEndValue outer) b n)"

definition elements_claim :: "bytes \<Rightarrow> bool" where
  "elements_claim b \<longleftrightarrow> (\<forall>outer n. scan_len StBeginValue (ParseState.ArrayValue # outer) b = Some n \<longrightarrow>
     takes (\<lambda>v. \<exists>es. v = es @ [0x5d] \<and> json_elements es) (scan_len StEndValue outer) b n)"

definition elements_or_empty_claim :: "bytes \<Rightarrow> bool" where
  "elements_or_empty_claim b \<longleftrightarrow> (\<forall>outer n. scan_len StBeginValueOrEmpty (ParseState.ArrayValue # outer) b = Some n \<longrightarrow>
     takes (\<lambda>v. \<exists>es. v = es @ [0x5d] \<and> (blanks es \<or> json_elements es)) (scan_len StEndValue outer) b n)"

definition members_claim :: "bytes \<Rightarrow> bool" where
  "members_claim b \<longleftrightarrow> (\<forall>outer n. scan_len StBeginString (ParseState.ObjectKey # outer) b = Some n \<longrightarrow>
     takes (\<lambda>v. \<exists>ms. v = ms @ [0x7d] \<and> json_members ms) (scan_len StEndValue outer) b n)"

definition members_or_empty_claim :: "bytes \<Rightarrow> bool" where
  "members_or_empty_claim b \<longleftrightarrow> (\<forall>outer n. scan_len StBeginStringOrEmpty (ParseState.ObjectKey # outer) b = Some n \<longrightarrow>
     takes (\<lambda>v. \<exists>ms. v = ms @ [0x7d] \<and> (blanks ms \<or> json_members ms)) (scan_len StEndValue outer) b n)"

lemma no_blanks: "json_value x \<Longrightarrow> \<exists>w y. x = w @ y \<and> blanks w \<and> json_value y"
  by (metis append_Nil blanks_simps(1))

lemma value_claimD:
  assumes "value_claim b" and "scan_len StBeginValue outer b = Some n"
  obtains w x r m where "b = w @ x @ r" "blanks w" "json_value x" "scan_len StEndValue outer r = Some m" "n = length w + length x + m"
proof -
  have "takes (\<lambda>v. \<exists>w x. v = w @ x \<and> blanks w \<and> json_value x) (scan_len StEndValue outer) b n"
    using assms by (simp add: value_claim_def)
  with that show thesis by (auto simp: takes_def)
qed

lemma elements_claimD:
  "elements_claim b \<Longrightarrow> scan_len StBeginValue (ParseState.ArrayValue # outer) b = Some n
    \<Longrightarrow> takes (\<lambda>v. \<exists>es. v = es @ [0x5d] \<and> json_elements es) (scan_len StEndValue outer) b n"
  by (simp add: elements_claim_def)

lemma members_claimD:
  "members_claim b \<Longrightarrow> scan_len StBeginString (ParseState.ObjectKey # outer) b = Some n
    \<Longrightarrow> takes (\<lambda>v. \<exists>ms. v = ms @ [0x7d] \<and> json_members ms) (scan_len StEndValue outer) b n"
  by (simp add: members_claim_def)

lemma value_nil: "value_claim []"
  by (simp add: value_claim_def scan_begin_value)

lemma value_step:
  assumes "value_claim b" "elements_or_empty_claim b" "members_or_empty_claim b"
  shows "value_claim (c # b)"
  unfolding value_claim_def
proof (intro allI impI)
  fix outer n
  assume scan: "scan_len StBeginValue outer (c # b) = Some n"
  let ?f = "scan_len StEndValue outer"
  let ?Q = "\<lambda>v. \<exists>w x. v = w @ x \<and> blanks w \<and> json_value x"
  have one: "takes ?Q ?f (c # b) (Suc m)" if "takes P ?f b m" "\<And>v. P v \<Longrightarrow> json_value (c # v)" for P m
    using that(1) by (rule takes_Cons) (use that(2) in \<open>auto intro: no_blanks\<close>)
  have number: "takes ?Q ?f (c # b) n" if "takes json_number ?f (c # b) n"
    using that by (rule takes_mono) (auto intro: json_num no_blanks)
  consider (blank) m where "is_ascii_whitespace c" "scan_len StBeginValue outer b = Some m" "n = Suc m"
    | (object) m where "c = 0x7b" "scan_len StBeginStringOrEmpty (ParseState.ObjectKey # outer) b = Some m" "n = Suc m"
    | (array) m where "c = 0x5b" "scan_len StBeginValueOrEmpty (ParseState.ArrayValue # outer) b = Some m" "n = Suc m"
    | (string) m where "c = 0x22" "scan_len StInString outer b = Some m" "n = Suc m"
    | (neg) m where "c = 0x2d" "scan_len StNeg outer b = Some m" "n = Suc m"
    | (zero) m where "c = 0x30" "scan_len St0 outer b = Some m" "n = Suc m"
    | (true) m where "c = 0x74" "scan_len StT outer b = Some m" "n = Suc m"
    | (false) m where "c = 0x66" "scan_len StF outer b = Some m" "n = Suc m"
    | (null) m where "c = 0x6e" "scan_len StN outer b = Some m" "n = Suc m"
    | (digit) m where "is_ascii_digit c" "c \<noteq> 0x30" "scan_len St1 outer b = Some m" "n = Suc m"
    using scan by (auto simp: scan_begin_value map_Suc_eq_Some split: if_splits)
  then show "takes ?Q ?f (c # b) n"
  proof cases
    case blank
    then have "takes ?Q ?f b m" using assms(1) by (simp add: value_claim_def)
    then show ?thesis unfolding blank(3)
      by (rule takes_Cons) (use blank(1) in \<open>metis append_Cons blanks_simps(2)\<close>)
  next
    case object
    show ?thesis unfolding object(3)
      by (rule one, rule assms(3) [unfolded members_or_empty_claim_def, rule_format, OF object(2)])
        (auto simp: object(1) intro: json_empty_object json_object)
  next
    case array
    show ?thesis unfolding array(3)
      by (rule one, rule assms(2) [unfolded elements_or_empty_claim_def, rule_format, OF array(2)])
        (auto simp: array(1) intro: json_empty_array json_array)
  next
    case string
    show ?thesis unfolding string(3) by (rule one [OF takes_string [OF string(2)]]) (auto simp: string(1) intro: json_string)
  next
    case neg
    show ?thesis
      by (rule number, unfold neg(1,3), rule takes_Cons [OF takes_magnitude [OF neg(2)]]) (rule negative)
  next
    case zero
    show ?thesis
      by (rule number, unfold zero(1,3), rule takes_mono [OF takes_zero [OF zero(2)]]) (rule positive)
  next
    case digit
    show ?thesis
      by (rule number, unfold digit(4), rule takes_mono [OF takes_nonzero [OF digit(1-3)]]) (rule positive)
  next
    case true
    show ?thesis unfolding true(3) by (rule one [OF takes_letters(1) [OF true(2)]]) (auto simp: true(1) intro: json_true)
  next
    case false
    show ?thesis unfolding false(3) by (rule one [OF takes_letters(2) [OF false(2)]]) (auto simp: false(1) intro: json_false)
  next
    case null
    show ?thesis unfolding null(3) by (rule one [OF takes_letters(3) [OF null(2)]]) (auto simp: null(1) intro: json_null)
  qed
qed

lemma elements_step:
  assumes "value_claim b" and "\<And>r. length r < length b \<Longrightarrow> elements_claim r"
  shows "elements_claim b"
  unfolding elements_claim_def
proof (intro allI impI)
  fix outer n
  let ?f = "scan_len StEndValue outer"
  let ?Q = "\<lambda>v. \<exists>es. v = es @ [0x5d] \<and> json_elements es"
  assume "scan_len StBeginValue (ParseState.ArrayValue # outer) b = Some n"
  from value_claimD [OF assms(1) this] obtain w x r m where v: "b = w @ x @ r" "blanks w" "json_value x"
      "scan_len StEndValue (ParseState.ArrayValue # outer) r = Some m" "n = length w + length x + m" .
  from takes_end_value [OF v(4)] obtain w' c r' k where e: "r = w' @ c # r'" "blanks w'" "\<not> is_ascii_whitespace c"
      "scan_len StEndValue (ParseState.ArrayValue # outer) (c # r') = Some k" "m = length w' + k" by blast
  from e(3,4) consider (comma) j where "c = 0x2c" "scan_len StBeginValue (ParseState.ArrayValue # outer) r' = Some j" "k = Suc j"
    | (close) j where "c = 0x5d" "?f r' = Some j" "k = Suc j"
    by (auto simp: scan_end_value map_Suc_eq_Some split: if_splits)
  then show "takes ?Q ?f b n"
  proof cases
    case comma
    have "takes ?Q ?f r' j" using assms(2) [of r'] comma v(1) e(1) by (auto simp: elements_claim_def)
    then show ?thesis
      by (rule takes_prefix [of _ _ _ _ _ "w @ x @ w' @ [0x2c]"])
        (use v e comma more_elements [OF v(2,3) e(2)] in auto)
  next
    case close
    with v e last_element [OF v(2,3) e(2)] show ?thesis by (intro takesI [of _ "w @ x @ w' @ [0x5d]" r' _ _ j]) auto
  qed
qed

lemma json_elements_blank: "json_elements es \<Longrightarrow> is_ascii_whitespace c \<Longrightarrow> json_elements (c # es)"
proof (erule json_elements.cases)
  fix w v w'
  assume "is_ascii_whitespace c" "es = w @ v @ w'" "blanks w" "json_value v" "blanks w'"
  then show "json_elements (c # es)" using last_element [of "c # w" v w'] by simp
next
  fix w v w' es'
  assume "is_ascii_whitespace c" "es = w @ v @ w' @ 0x2c # es'" "blanks w" "json_value v" "blanks w'" "json_elements es'"
  then show "json_elements (c # es)" using more_elements [of "c # w" v w' es'] by simp
qed

lemma elements_or_empty_step:
  assumes "elements_claim b" and "\<And>r. length r < length b \<Longrightarrow> elements_or_empty_claim r"
  shows "elements_or_empty_claim b"
proof (cases b)
  case (Cons c b')
  have tl: "elements_or_empty_claim b'" using assms(2) Cons by simp
  show ?thesis unfolding elements_or_empty_claim_def
  proof (intro allI impI)
    fix outer n
    let ?f = "scan_len StEndValue outer"
    let ?Q = "\<lambda>v. \<exists>es. v = es @ [0x5d] \<and> (blanks es \<or> json_elements es)"
    assume "scan_len StBeginValueOrEmpty (ParseState.ArrayValue # outer) b = Some n"
    then consider (blank) m where "is_ascii_whitespace c"
        "scan_len StBeginValueOrEmpty (ParseState.ArrayValue # outer) b' = Some m" "n = Suc m"
      | (close) m where "c = 0x5d" "?f b' = Some m" "n = Suc m"
      | (elements) "scan_len StBeginValue (ParseState.ArrayValue # outer) b = Some n"
      unfolding Cons by (auto simp: scan_begin_value_or_empty map_Suc_eq_Some split: if_splits)
    then show "takes ?Q ?f b n"
    proof cases
      case blank
      then have "takes ?Q ?f b' m" using tl by (simp add: elements_or_empty_claim_def)
      then show ?thesis unfolding Cons blank(3)
        by (rule takes_Cons) (use blank(1) in \<open>auto intro: json_elements_blank\<close>)
    next
      case close
      then show ?thesis by (intro takesI [of _ "[0x5d]" b' _ _ m]) (auto simp: Cons)
    next
      case elements
      then show ?thesis by (rule takes_mono [OF elements_claimD [OF assms(1)]]) auto
    qed
  qed
qed (simp add: elements_or_empty_claim_def scan_begin_value_or_empty)

lemma json_members_blank: "json_members ms \<Longrightarrow> is_ascii_whitespace c \<Longrightarrow> json_members (c # ms)"
proof (erule json_members.cases)
  fix w k w1 w2 v w3
  assume "is_ascii_whitespace c" "ms = w @ 0x22 # k @ 0x22 # w1 @ 0x3a # w2 @ v @ w3" "blanks w" "string_body k" "blanks w1"
    "blanks w2" "json_value v" "blanks w3"
  then show "json_members (c # ms)" using last_member [of "c # w" k w1 w2 v w3] by simp
next
  fix w k w1 w2 v w3 ms'
  assume "is_ascii_whitespace c" "ms = w @ 0x22 # k @ 0x22 # w1 @ 0x3a # w2 @ v @ w3 @ 0x2c # ms'" "blanks w" "string_body k"
    "blanks w1" "blanks w2" "json_value v" "blanks w3" "json_members ms'"
  then show "json_members (c # ms)" using more_members [of "c # w" k w1 w2 v w3 ms'] by simp
qed

text \<open>From the opening quote of a key to the byte that follows its value.\<close>

lemma takes_member:
  assumes "scan_len StInString (ParseState.ObjectKey # outer) b = Some n" and "\<And>r. length r < length b \<Longrightarrow> value_claim r"
  obtains k w1 w2 v w3 c r m where "b = k @ 0x22 # w1 @ 0x3a # w2 @ v @ w3 @ c # r" "string_body k" "blanks w1" "blanks w2"
    "json_value v" "blanks w3" "\<not> is_ascii_whitespace c" "scan_len StEndValue (ParseState.ObjectValue # outer) (c # r) = Some m"
    "n = length k + length w1 + length w2 + length v + length w3 + 2 + m"
proof -
  from takes_string [OF assms(1)] obtain k r1 m1 where k: "b = k @ 0x22 # r1" "string_body k"
      "scan_len StEndValue (ParseState.ObjectKey # outer) r1 = Some m1" "n = length k + 1 + m1"
    by (auto simp: takes_def)
  from takes_end_value [OF k(3)] obtain w1 c1 r2 m2 where w1: "r1 = w1 @ c1 # r2" "blanks w1" "\<not> is_ascii_whitespace c1"
      "scan_len StEndValue (ParseState.ObjectKey # outer) (c1 # r2) = Some m2" "m1 = length w1 + m2" by blast
  then obtain m3 where c1: "c1 = 0x3a" "scan_len StBeginValue (ParseState.ObjectValue # outer) r2 = Some m3" "m2 = Suc m3"
    by (auto simp: scan_end_value map_Suc_eq_Some split: if_splits)
  have "value_claim r2" using assms(2) k(1) w1(1) by simp
  from value_claimD [OF this c1(2)] obtain w2 v r3 m4 where v: "r2 = w2 @ v @ r3" "blanks w2" "json_value v"
      "scan_len StEndValue (ParseState.ObjectValue # outer) r3 = Some m4" "m3 = length w2 + length v + m4" .
  from takes_end_value [OF v(4)] obtain w3 c r m where w3: "r3 = w3 @ c # r" "blanks w3" "\<not> is_ascii_whitespace c"
      "scan_len StEndValue (ParseState.ObjectValue # outer) (c # r) = Some m" "m4 = length w3 + m" by blast
  show thesis by (rule that [of k w1 w2 v w3 c r m]) (use k w1 c1 v w3 in simp_all)
qed

lemma members_step:
  assumes "\<And>r. length r < length b \<Longrightarrow> value_claim r" and "\<And>r. length r < length b \<Longrightarrow> members_claim r"
  shows "members_claim b"
proof (cases b)
  case (Cons c b')
  show ?thesis unfolding members_claim_def
  proof (intro allI impI)
    fix outer n
    let ?f = "scan_len StEndValue outer"
    let ?Q = "\<lambda>v. \<exists>ms. v = ms @ [0x7d] \<and> json_members ms"
    assume "scan_len StBeginString (ParseState.ObjectKey # outer) b = Some n"
    then consider (blank) m where "is_ascii_whitespace c" "scan_len StBeginString (ParseState.ObjectKey # outer) b' = Some m" "n = Suc m"
      | (key) m where "c = 0x22" "scan_len StInString (ParseState.ObjectKey # outer) b' = Some m" "n = Suc m"
      unfolding Cons by (auto simp: scan_begin_string map_Suc_eq_Some split: if_splits)
    then show "takes ?Q ?f b n"
    proof cases
      case blank
      from members_claimD [OF assms(2) this(2)] have "takes ?Q ?f b' m" by (simp add: Cons)
      then show ?thesis unfolding Cons blank(3)
        by (rule takes_Cons) (use blank(1) in \<open>auto intro: json_members_blank\<close>)
    next
      case key
      have claims: "value_claim r" if "length r < length b'" for r using assms(1) [of r] that Cons by simp
      from takes_member [OF key(2) claims] obtain k w1 w2 v w3 e r j where
        b': "b' = k @ 0x22 # w1 @ 0x3a # w2 @ v @ w3 @ e # r" and parts: "string_body k" "blanks w1" "blanks w2" "json_value v" "blanks w3"
        and e: "\<not> is_ascii_whitespace e" "scan_len StEndValue (ParseState.ObjectValue # outer) (e # r) = Some j"
        and m: "m = length k + length w1 + length w2 + length v + length w3 + 2 + j" .
      let ?p = "[] @ 0x22 # k @ 0x22 # w1 @ 0x3a # w2 @ v @ w3"
      from e consider (comma) i where "e = 0x2c" "scan_len StBeginString (ParseState.ObjectKey # outer) r = Some i" "j = Suc i"
        | (close) i where "e = 0x7d" "?f r = Some i" "j = Suc i"
        by (auto simp: scan_end_value map_Suc_eq_Some split: if_splits)
      then show ?thesis
      proof cases
        case comma
        from members_claimD [OF assms(2) comma(2)] have "takes ?Q ?f r i" by (simp add: Cons b')
        then show ?thesis
          by (rule takes_prefix [of _ _ _ _ _ "?p @ [0x2c]"])
            (use Cons b' key comma m more_members [OF _ parts, of "[]"] in auto)
      next
        case close
        with Cons b' key m last_member [OF _ parts, of "[]"] show ?thesis
          by (intro takesI [of _ "?p @ [0x7d]" r _ _ i]) auto
      qed
    qed
  qed
qed (simp add: members_claim_def scan_begin_string)

lemma members_or_empty_step:
  assumes "members_claim b" and "\<And>r. length r < length b \<Longrightarrow> members_or_empty_claim r"
  shows "members_or_empty_claim b"
proof (cases b)
  case (Cons c b')
  have tl: "members_or_empty_claim b'" using assms(2) Cons by simp
  show ?thesis unfolding members_or_empty_claim_def
  proof (intro allI impI)
    fix outer n
    let ?f = "scan_len StEndValue outer"
    let ?Q = "\<lambda>v. \<exists>ms. v = ms @ [0x7d] \<and> (blanks ms \<or> json_members ms)"
    assume "scan_len StBeginStringOrEmpty (ParseState.ObjectKey # outer) b = Some n"
    then consider (blank) m where "is_ascii_whitespace c"
        "scan_len StBeginStringOrEmpty (ParseState.ObjectKey # outer) b' = Some m" "n = Suc m"
      | (close) m where "c = 0x7d" "?f b' = Some m" "n = Suc m"
      | (members) "scan_len StBeginString (ParseState.ObjectKey # outer) b = Some n"
      unfolding Cons by (auto simp: scan_begin_string_or_empty map_Suc_eq_Some split: if_splits)
    then show "takes ?Q ?f b n"
    proof cases
      case blank
      then have "takes ?Q ?f b' m" using tl by (simp add: members_or_empty_claim_def)
      then show ?thesis unfolding Cons blank(3)
        by (rule takes_Cons) (use blank(1) in \<open>auto intro: json_members_blank\<close>)
    next
      case close
      then show ?thesis by (intro takesI [of _ "[0x7d]" b' _ _ m]) (auto simp: Cons)
    next
      case members
      then show ?thesis by (rule takes_mono [OF members_claimD [OF assms(1)]]) auto
    qed
  qed
qed (simp add: members_or_empty_claim_def scan_begin_string_or_empty)

lemma all_claims:
  "value_claim b \<and> elements_claim b \<and> elements_or_empty_claim b \<and> members_claim b \<and> members_or_empty_claim b"
proof (induction b rule: length_induct)
  case (1 b)
  have v: "value_claim b"
  proof (cases b)
    case (Cons c b')
    with 1 show ?thesis using value_step [of b' c] by simp
  qed (simp add: value_nil)
  have IH: "value_claim r" "elements_claim r" "elements_or_empty_claim r" "members_claim r" "members_or_empty_claim r"
    if "length r < length b" for r using 1 that by simp_all
  have e: "elements_claim b" by (rule elements_step [OF v IH(2)])
  have m: "members_claim b" by (rule members_step [OF IH(1) IH(4)])
  show ?case using v e m elements_or_empty_step [OF e IH(3)] members_or_empty_step [OF m IH(5)] by simp
qed

text \<open>
  A scan from the state that begins a value ends with a value exactly behind an optional run of
  white space and a value of the grammar.
\<close>

lemma scan_value_sound:
  assumes "scan_len StBeginValue [] b = Some n"
  shows "\<exists>w v r. b = w @ v @ r \<and> blanks w \<and> json_value v \<and> n = length w + length v"
proof -
  have "value_claim b" using all_claims by blast
  from value_claimD [OF this assms] obtain w v r m where "b = w @ v @ r" "blanks w" "json_value v"
      "scan_len StEndValue [] r = Some m" "n = length w + length v + m" .
  then have "b = w @ v @ r \<and> blanks w \<and> json_value v \<and> n = length w + length v" by simp
  then show ?thesis by blast
qed

theorem scan_accepts_json_values:
  "scan_len StBeginValue [] b = Some (length b) \<longleftrightarrow> (\<exists>w v. b = w @ v \<and> blanks w \<and> json_value v)"
proof
  assume "scan_len StBeginValue [] b = Some (length b)"
  from scan_value_sound [OF this] obtain w v r where
    "b = w @ v @ r" "blanks w" "json_value v" "length b = length w + length v" by blast
  then show "\<exists>w v. b = w @ v \<and> blanks w \<and> json_value v" by (intro exI [of _ w] exI [of _ v]) simp
next
  assume "\<exists>w v. b = w @ v \<and> blanks w \<and> json_value v"
  then obtain w v where "b = w @ v" "blanks w" "json_value v" by blast
  with json_value_scanned [of v "[]" "[]"] show "scan_len StBeginValue [] b = Some (length b)"
    by (simp add: scan_blanks number_stops_def)
qed

end
