(* ===== verification/Json_Decoder.thy ===== *)
theory Json_Decoder
  imports Json_Grammar
begin

text \<open>
  The decoder that cuts JSON values and tokens out of the chunks of a response body
  (\<^verbatim>\<open>httpx/decoder.rs\<close>). The stream of chunks is the list of the items it still has to deliver: a
  transport error or some bytes; a stream that has delivered all of them is at its end. The proofs
  relate a decoder to the \<open>view\<close> of it that forgets where one chunk ends and the next begins.
\<close>

section \<open>State\<close>

datatype TokenState =
    TopValue | ArrayStart | ArrayValue | ArrayComma | ObjectStart | ObjectKey | ObjectColon | ObjectValue | ObjectComma

datatype Token = Delim u8 | TokenString string | Value bytes

record Decoder =
  dec_r :: "(HttpErrorKind + bytes) list"
  dec_buf :: bytes
  dec_scanp :: nat
  dec_scanned :: nat
  dec_scan :: Scanner
  dec_err :: "HttpErrorKind option"
  dec_token_state :: TokenState
  dec_token_stack :: "TokenState list"

definition decoder_new :: "(HttpErrorKind + bytes) list \<Rightarrow> Decoder" where
  "decoder_new r =
    \<lparr>dec_r = r, dec_buf = [], dec_scanp = 0, dec_scanned = 0, dec_scan = scanner_new, dec_err = None,
     dec_token_state = TopValue, dec_token_stack = []\<rparr>"

definition buffered :: "Decoder \<Rightarrow> bytes" where
  "buffered d = drop (dec_scanp d) (dec_buf d)"

definition input_offset :: "Decoder \<Rightarrow> nat" where
  "input_offset d = dec_scanned d + dec_scanp d"

definition advance_scanp :: "nat \<Rightarrow> Decoder \<Rightarrow> Decoder" where
  "advance_scanp n d = d\<lparr>dec_scanp := dec_scanp d + n\<rparr>"

definition unexpected_eof :: HttpErrorKind where
  "unexpected_eof = HttpMessage ''unexpected EOF''"

section \<open>Reading the stream\<close>

definition refill :: "Decoder \<Rightarrow> (HttpErrorKind, unit) result option \<times> Decoder" where
  "refill d =
    (let d = (if 0 < dec_scanp d
              then d\<lparr>dec_scanned := dec_scanned d + dec_scanp d, dec_buf := drop (dec_scanp d) (dec_buf d), dec_scanp := 0\<rparr>
              else d)
     in case dec_r d of
          [] \<Rightarrow> (None, d)
        | Inr b # r \<Rightarrow> (Some (Ok ()), d\<lparr>dec_r := r, dec_buf := dec_buf d @ b\<rparr>)
        | Inl e # r \<Rightarrow> (Some (Err e), d\<lparr>dec_r := r\<rparr>))"

lemma refill_shorter: "(x, d') = refill d \<Longrightarrow> x = Some r \<Longrightarrow> length (dec_r d') < length (dec_r d)"
  by (auto simp: refill_def Let_def split: list.splits sum.splits if_splits)

text \<open>The scan of the bytes in the buffer: a value found, a syntax error, or no byte left.\<close>

datatype ScanOutcome = Found nat Scanner | Failed Scanner | Exhausted nat Scanner | Panicked

fun scan_buffer :: "bytes \<Rightarrow> nat \<Rightarrow> Scanner \<Rightarrow> ScanOutcome" where
  "scan_buffer [] scanp s = Exhausted scanp s"
| "scan_buffer (c # b) scanp s =
    (case scanner_step c (incr_bytes 1 s) of
       Ok (r, s) \<Rightarrow>
         if r = End then Found scanp (incr_bytes (-1) s)
         else if r = EndObject \<or> r = EndArray then
           (case scanner_step 0x20 s of
              Ok (r, s) \<Rightarrow> if r = End then Found (scanp + 1) s else scan_buffer b (scanp + 1) s
            | _ \<Rightarrow> Panicked)
         else if r = ScanError then Failed s
         else scan_buffer b (scanp + 1) s
     | _ \<Rightarrow> Panicked)"

text \<open>The stream has ended: the value must be complete, or nothing but white space may be left.\<close>

definition read_value_eof :: "nat \<Rightarrow> Decoder \<Rightarrow> (HttpErrorKind, nat) result \<times> Decoder" where
  "read_value_eof scanp d =
    (case scanner_step 0x20 (dec_scan d) of
       Ok (r, s) \<Rightarrow>
         let d = d\<lparr>dec_scan := s\<rparr> in
         if r = End then (Ok (scanp - dec_scanp d), d)
         else
           let d = (if \<exists>b\<in>set (dec_buf d). \<not> is_ascii_whitespace b then d\<lparr>dec_err := Some unexpected_eof\<rparr> else d)
           in (case dec_err d of Some e \<Rightarrow> (Err e, d) | None \<Rightarrow> (Ok (scanp - dec_scanp d), d))
     | _ \<Rightarrow> (Panic, d))"

function (sequential) read_value_loop ::
  "nat \<Rightarrow> (HttpErrorKind, unit) result option \<Rightarrow> Decoder \<Rightarrow> (HttpErrorKind, nat) result \<times> Decoder" where
  "read_value_loop scanp res d =
    (case scan_buffer (drop scanp (dec_buf d)) scanp (dec_scan d) of
       Found p s \<Rightarrow> (Ok (p - dec_scanp d), d\<lparr>dec_scan := s\<rparr>)
     | Failed s \<Rightarrow>
         (case sc_err s of
            None \<Rightarrow> (Panic, d\<lparr>dec_scan := s\<rparr>)
          | Some e \<Rightarrow> (Err e, d\<lparr>dec_scan := s, dec_err := Some e\<rparr>))
     | Panicked \<Rightarrow> (Panic, d)
     | Exhausted p s \<Rightarrow>
         (case res of
            Some (Err e) \<Rightarrow> (Err e, d\<lparr>dec_scan := s, dec_err := Some e\<rparr>)
          | _ \<Rightarrow>
              (case refill (d\<lparr>dec_scan := s\<rparr>) of
                 (None, d') \<Rightarrow> read_value_eof (dec_scanp d' + (p - dec_scanp d)) d'
               | (Some r, d') \<Rightarrow> read_value_loop (dec_scanp d' + (p - dec_scanp d)) (Some r) d')))"
  by pat_completeness auto
termination
  by (relation "measure (\<lambda>(_, _, d). length (dec_r d))", simp) (drule (1) refill_shorter, simp)+

declare read_value_loop.simps [simp del]

definition read_value :: "Decoder \<Rightarrow> (HttpErrorKind, nat) result \<times> Decoder" where
  "read_value d = read_value_loop (dec_scanp d) None (d\<lparr>dec_scan := scanner_reset (dec_scan d)\<rparr>)"

text \<open>The next byte that is not white space, left in the buffer.\<close>

function (sequential) peek_loop ::
  "(HttpErrorKind, unit) result option \<Rightarrow> Decoder \<Rightarrow> (HttpErrorKind, u8) result option \<times> Decoder" where
  "peek_loop res d =
    (case dropWhile is_ascii_whitespace (drop (dec_scanp d) (dec_buf d)) of
       c # rest \<Rightarrow> (Some (Ok c), d\<lparr>dec_scanp := length (dec_buf d) - length (c # rest)\<rparr>)
     | [] \<Rightarrow>
         (case res of
            Some (Err e) \<Rightarrow> (Some (Err e), d)
          | _ \<Rightarrow>
              (case refill d of
                 (None, d') \<Rightarrow> (None, d')
               | (Some r, d') \<Rightarrow> peek_loop (Some r) d')))"
  by pat_completeness auto
termination
  by (relation "measure (\<lambda>(_, d). length (dec_r d))", simp) (drule (1) refill_shorter, simp)+

declare peek_loop.simps [simp del]

definition peek :: "Decoder \<Rightarrow> (HttpErrorKind, u8) result option \<times> Decoder" where
  "peek d = peek_loop None d"

definition peek_or_eof :: "Decoder \<Rightarrow> (HttpErrorKind, u8) result \<times> Decoder" where
  "peek_or_eof d = (case peek d of (Some r, d) \<Rightarrow> (r, d) | (None, d) \<Rightarrow> (Err unexpected_eof, d))"

section \<open>Values\<close>

text \<open>
  A method that takes \<^verbatim>\<open>&mut self\<close> returns its result with the new state; \<open>dec_then\<close> goes on with the
  next call when the result is a success.
\<close>

definition dec_then ::
  "('e, 'a) result \<times> 's \<Rightarrow> ('a \<Rightarrow> 's \<Rightarrow> ('e, 'b) result \<times> 's) \<Rightarrow> ('e, 'b) result \<times> 's" where
  "dec_then m f = (case m of (Ok x, d) \<Rightarrow> f x d | (Err e, d) \<Rightarrow> (Err e, d) | (Panic, d) \<Rightarrow> (Panic, d))"

definition expect_separator :: "u8 \<Rightarrow> TokenState \<Rightarrow> string \<Rightarrow> Decoder \<Rightarrow> (HttpErrorKind, unit) result \<times> Decoder" where
  "expect_separator sep ts msg d =
    dec_then (peek_or_eof d) (\<lambda>c d.
      if c \<noteq> sep then (Err (HttpMessage msg), d)
      else (Ok (), (advance_scanp 1 d)\<lparr>dec_token_state := ts\<rparr>))"

definition token_prepare_for_decode :: "Decoder \<Rightarrow> (HttpErrorKind, unit) result \<times> Decoder" where
  "token_prepare_for_decode d =
    (case dec_token_state d of
       ArrayComma \<Rightarrow> expect_separator 0x2c ArrayValue ''expected comma after array element'' d
     | ObjectColon \<Rightarrow> expect_separator 0x3a ObjectValue ''expected colon after object key'' d
     | _ \<Rightarrow> (Ok (), d))"

definition token_value_allowed :: "Decoder \<Rightarrow> bool" where
  "token_value_allowed d \<longleftrightarrow> dec_token_state d \<in> {TopValue, ArrayStart, ArrayValue, ObjectValue}"

definition token_value_end :: "Decoder \<Rightarrow> Decoder" where
  "token_value_end d =
    (case dec_token_state d of
       ArrayStart \<Rightarrow> d\<lparr>dec_token_state := ArrayComma\<rparr>
     | ArrayValue \<Rightarrow> d\<lparr>dec_token_state := ArrayComma\<rparr>
     | ObjectValue \<Rightarrow> d\<lparr>dec_token_state := ObjectComma\<rparr>
     | _ \<Rightarrow> d)"

definition trim_ascii :: "bytes \<Rightarrow> bytes" where
  "trim_ascii b = rev (dropWhile is_ascii_whitespace (rev (dropWhile is_ascii_whitespace b)))"

definition decode :: "Decoder \<Rightarrow> (HttpErrorKind, bytes) result \<times> Decoder" where
  "decode d =
    (case dec_err d of
       Some e \<Rightarrow> (Err e, d)
     | None \<Rightarrow>
         dec_then (token_prepare_for_decode d) (\<lambda>_ d.
           if \<not> token_value_allowed d then (Err (HttpMessage ''not at beginning of value''), d)
           else dec_then (read_value d) (\<lambda>n d.
             (Ok (trim_ascii (take n (drop (dec_scanp d) (dec_buf d)))), token_value_end (advance_scanp n d)))))"

section \<open>Tokens\<close>

definition token_error :: "u8 \<Rightarrow> Decoder \<Rightarrow> (HttpErrorKind, Token) result \<times> Decoder" where
  "token_error c d =
    (Err (HttpMessage (''invalid character '' @ quote_char c @
       (case dec_token_state d of
          TopValue \<Rightarrow> '' looking for beginning of value''
        | ArrayStart \<Rightarrow> '' looking for beginning of value''
        | ArrayValue \<Rightarrow> '' looking for beginning of value''
        | ObjectValue \<Rightarrow> '' looking for beginning of value''
        | ArrayComma \<Rightarrow> '' after array element''
        | ObjectKey \<Rightarrow> '' looking for beginning of object key string''
        | ObjectColon \<Rightarrow> '' after object key''
        | ObjectComma \<Rightarrow> '' after object key:value pair''
        | ObjectStart \<Rightarrow> ''''))), d)"

definition push_token :: "TokenState \<Rightarrow> u8 \<Rightarrow> Decoder \<Rightarrow> (HttpErrorKind, Token) result \<times> Decoder" where
  "push_token ts c d =
    (if \<not> token_value_allowed d then token_error c d
     else (Ok (Delim c), (advance_scanp 1 d)\<lparr>dec_token_stack := dec_token_state d # dec_token_stack d, dec_token_state := ts\<rparr>))"

definition pop_token :: "TokenState \<Rightarrow> TokenState \<Rightarrow> u8 \<Rightarrow> Decoder \<Rightarrow> (HttpErrorKind, Token) result \<times> Decoder" where
  "pop_token ts ts' c d =
    (if dec_token_state d \<noteq> ts \<and> dec_token_state d \<noteq> ts' then token_error c d
     else
       (case dec_token_stack d of
          [] \<Rightarrow> (Panic, advance_scanp 1 d)
        | t # outer \<Rightarrow>
            (Ok (Delim c), token_value_end ((advance_scanp 1 d)\<lparr>dec_token_state := t, dec_token_stack := outer\<rparr>))))"

lemma refill_state: "dec_token_state (snd (refill d)) = dec_token_state d"
  by (auto simp: refill_def Let_def split: list.split sum.split)

lemma peek_loop_state: "dec_token_state (snd (peek_loop res d)) = dec_token_state d"
proof (induction res d rule: peek_loop.induct)
  case (1 res d)
  show ?case
    using 1 refill_state [of d]
    by (subst peek_loop.simps) (auto split: list.split option.split result.split prod.split)
qed

lemma peek_or_eof_state: "peek_or_eof d = (r, d') \<Longrightarrow> dec_token_state d' = dec_token_state d"
  using peek_loop_state [of None d] by (auto simp: peek_or_eof_def peek_def split: option.splits prod.splits)

text \<open>
  Parsing the text of a string literal is \<^verbatim>\<open>serde_json\<close>'s, a parameter: the string, or the text of
  the error. \<open>None\<close> in the second component of \<open>token_at\<close> is the \<^verbatim>\<open>continue\<close> of the loop.
\<close>

definition token_key ::
  "(bytes \<Rightarrow> string + string) \<Rightarrow> Decoder \<Rightarrow> (HttpErrorKind, Token) result \<times> Decoder" where
  "token_key from_slice d =
    dec_then (decode (d\<lparr>dec_token_state := TopValue\<rparr>)) (\<lambda>decoded d.
      case from_slice decoded of
        Inl e \<Rightarrow> (Err (HttpMessage e), d)
      | Inr x \<Rightarrow> (Ok (TokenString x), d\<lparr>dec_token_state := ObjectColon\<rparr>))"

definition token_value :: "u8 \<Rightarrow> Decoder \<Rightarrow> (HttpErrorKind, Token) result \<times> Decoder" where
  "token_value c d =
    (if \<not> token_value_allowed d then token_error c d
     else dec_then (decode d) (\<lambda>decoded d. (Ok (Value decoded), d)))"

function (sequential) token ::
  "(bytes \<Rightarrow> string + string) \<Rightarrow> Decoder \<Rightarrow> (HttpErrorKind, Token) result \<times> Decoder" where
  "token from_slice d =
    (case peek_or_eof d of
       (Err e, d') \<Rightarrow> (Err e, d')
     | (Panic, d') \<Rightarrow> (Panic, d')
     | (Ok c, d') \<Rightarrow>
         if c = 0x5b then push_token ArrayStart c d'
         else if c = 0x5d then pop_token ArrayStart ArrayComma c d'
         else if c = 0x7b then push_token ObjectStart c d'
         else if c = 0x7d then pop_token ObjectStart ObjectComma c d'
         else if c = 0x3a then
           if dec_token_state d' \<noteq> ObjectColon then token_error c d'
           else token from_slice ((advance_scanp 1 d')\<lparr>dec_token_state := ObjectValue\<rparr>)
         else if c = 0x2c then
           if dec_token_state d' = ArrayComma then token from_slice ((advance_scanp 1 d')\<lparr>dec_token_state := ArrayValue\<rparr>)
           else if dec_token_state d' = ObjectComma then token from_slice ((advance_scanp 1 d')\<lparr>dec_token_state := ObjectKey\<rparr>)
           else token_error c d'
         else if c = 0x22 then
           if dec_token_state d' = ObjectStart \<or> dec_token_state d' = ObjectKey then token_key from_slice d'
           else token_value c d'
         else token_value c d')"
  by pat_completeness auto
termination
  by (relation "measure (\<lambda>(_, d). if dec_token_state d \<in> {ObjectColon, ArrayComma, ObjectComma} then 1 else 0)")
    (auto dest!: sym [THEN peek_or_eof_state])

declare token.simps [simp del]

definition more_tokens :: "Decoder \<Rightarrow> bool \<times> Decoder" where
  "more_tokens d =
    (case peek d of
       (Some (Ok c), d) \<Rightarrow> (c \<noteq> 0x5d \<and> c \<noteq> 0x7d, d)
     | (_, d) \<Rightarrow> (False, d))"

end
