(* ===== verification/Json_View.thy ===== *)
theory Json_View
  imports Json_Decoder
begin

text \<open>
  What a JSON decoder does, told on the bytes of the response body and not on its chunks: every
  operation of the decoder is a function of its \<open>view\<close>, the bytes still to be read with the transport
  error that follows them. The scanner never panics, \<open>decode\<close> returns exactly the values of the grammar.
\<close>

section \<open>Panic freedom of the scanner\<close>

definition scanner_ok :: "Scanner \<Rightarrow> bool" where
  "scanner_ok s \<longleftrightarrow>
    (sc_step s \<in> {StBeginStringOrEmpty, StBeginValueOrEmpty} \<longrightarrow> sc_parse_state s \<noteq> [])
    \<and> (sc_step s = StError \<longrightarrow> sc_err s \<noteq> None)"

lemma scanner_ok_init [simp]: "scanner_ok scanner_new" "scanner_ok (scanner_reset s)"
  by (simp_all add: scanner_ok_def scanner_new_def scanner_reset_def)

lemma scanner_ok_incr [simp]: "scanner_ok (incr_bytes i s) = scanner_ok s"
  by (simp add: scanner_ok_def incr_bytes_def)

lemma end_value_ok: "scanner_ok (snd (state_end_value c s))"
  by (auto simp: scanner_ok_def state_end_value_def state_end_top_def goto_def scan_error_def pop_parse_state_def Let_def
      split: list.split ParseState.split)

lemma end_value_err: "fst (state_end_value c s) = ScanError \<Longrightarrow> sc_err (snd (state_end_value c s)) \<noteq> None"
  by (auto simp: state_end_value_def state_end_top_def goto_def scan_error_def split: list.splits ParseState.splits if_splits)

lemmas value_state_defs = state_begin_value_def state_begin_value_or_empty_def state_begin_string_def
  state_begin_string_or_empty_def goto_def scan_error_def push_parse_state_def

lemma step_fn_ok:
  assumes "scanner_ok s"
  shows "scanner_ok (snd (step_fn (sc_step s) c s))"
    and "fst (step_fn (sc_step s) c s) = ScanError \<Longrightarrow> sc_err (snd (step_fn (sc_step s) c s)) \<noteq> None"
proof -
  have "scanner_ok (snd (step_fn q c s))
      \<and> (fst (step_fn q c s) = ScanError \<longrightarrow> sc_err (snd (step_fn q c s)) \<noteq> None)" if "q = sc_step s" for q
    using assms end_value_ok end_value_err that
    by (cases q)
      (auto simp: scanner_ok_def value_state_defs state_end_top_def
        state_in_string_def state_in_string_esc_def hex_escape_def state_in_string_esc_u_def state_in_string_esc_u1_def
        state_in_string_esc_u12_def state_in_string_esc_u123_def state_neg_def state0_def state1_def state_dot_def
        state_dot0_def state_e_sign_def state_e_def state_e0_def expect_letter_def state_t_def state_tr_def state_tru_def
        state_f_def state_fa_def state_fal_def state_fals_def state_n_def state_nu_def state_nul_def state_error_def
        simp del: not_None_eq)
  then show "scanner_ok (snd (step_fn (sc_step s) c s))"
    and "fst (step_fn (sc_step s) c s) = ScanError \<Longrightarrow> sc_err (snd (step_fn (sc_step s) c s)) \<noteq> None" by simp_all
qed

lemma scanner_step_ok:
  assumes "scanner_ok s"
  obtains r s' where "scanner_step c s = Ok (r, s')" "scanner_ok s'" "r = ScanError \<Longrightarrow> sc_err s' \<noteq> None"
proof -
  obtain r s' where step: "step_fn (sc_step s) c s = (r, s')" by fastforce
  with assms step_fn_ok [OF assms, of c] that [of r s'] show thesis
    by (auto simp: scanner_step_def scanner_ok_def simp del: not_None_eq)
qed

section \<open>Scanning a buffer piece by piece\<close>

primrec shift_outcome :: "nat \<Rightarrow> ScanOutcome \<Rightarrow> ScanOutcome" where
  "shift_outcome k (Found p s) = Found (p + k) s"
| "shift_outcome k (Failed s) = Failed s"
| "shift_outcome k (Exhausted p s) = Exhausted (p + k) s"
| "shift_outcome k Panicked = Panicked"

lemma scan_buffer_shift: "scan_buffer b (p + k) s = shift_outcome k (scan_buffer b p s)"
proof (induction b p s rule: scan_buffer.induct)
  case (2 c b p s)
  show ?case
  proof (cases "scanner_step c (incr_bytes 1 s)")
    case (Ok x)
    obtain r s' where x: "x = (r, s')" by fastforce
    show ?thesis
    proof (cases "r = EndObject \<or> r = EndArray")
      case True
      with Ok x 2(1) show ?thesis by (auto split: result.split)
    next
      case False
      with Ok x 2(2) show ?thesis by auto
    qed
  qed simp_all
qed simp

lemma scan_buffer_append:
  "scan_buffer (a @ b) p s = (case scan_buffer a p s of Exhausted q s' \<Rightarrow> scan_buffer b q s' | out \<Rightarrow> out)"
  by (induction a p s rule: scan_buffer.induct) (auto split: result.split prod.split)

lemma scan_buffer_Exhausted: "scan_buffer b p s = Exhausted q s' \<Longrightarrow> q = p + length b"
  by (induction b p s rule: scan_buffer.induct) (auto split: result.splits prod.splits if_splits)

lemma scan_buffer_Found: "scan_buffer b p s = Found q s' \<Longrightarrow> p \<le> q \<and> q \<le> p + length b"
  by (induction b p s rule: scan_buffer.induct) (fastforce split: result.splits prod.splits if_splits)+

lemma scan_buffer_ok:
  assumes "scanner_ok s"
  shows "scan_buffer b p s \<noteq> Panicked" and "scan_buffer b p s = Failed s' \<Longrightarrow> sc_err s' \<noteq> None"
    and "scan_buffer b p s = Exhausted q s' \<Longrightarrow> scanner_ok s'"
proof -
  have "scan_buffer b p s \<noteq> Panicked \<and> (\<forall>s'. scan_buffer b p s = Failed s' \<longrightarrow> sc_err s' \<noteq> None)
    \<and> (\<forall>q s'. scan_buffer b p s = Exhausted q s' \<longrightarrow> scanner_ok s')"
    using assms
  proof (induction b p s rule: scan_buffer.induct)
    case (2 c b p s)
    from 2(3) have "scanner_ok (incr_bytes 1 s)" by simp
    then obtain r s1 where 1: "scanner_step c (incr_bytes 1 s) = Ok (r, s1)" "scanner_ok s1" "r = ScanError \<longrightarrow> sc_err s1 \<noteq> None"
      by (rule scanner_step_ok [where c = c]) blast
    from 1(2) obtain r' s2 where 2: "scanner_step 0x20 s1 = Ok (r', s2)" "scanner_ok s2"
      by (rule scanner_step_ok [where c = "0x20"])
    show ?case
      using 1 2 "2.IH"(1) [OF 1(1) refl _ _ 2(1) refl] "2.IH"(2) [OF 1(1) refl]
      by (simp del: not_None_eq)
  qed simp
  then show "scan_buffer b p s \<noteq> Panicked" and "scan_buffer b p s = Failed s' \<Longrightarrow> sc_err s' \<noteq> None"
    and "scan_buffer b p s = Exhausted q s' \<Longrightarrow> scanner_ok s'" by simp_all
qed

section \<open>The view of a decoder\<close>

text \<open>The bytes that the stream delivers before its first error, and what it delivers from there on.\<close>

definition chunk_bytes :: "(HttpErrorKind + bytes) list \<Rightarrow> bytes" where
  "chunk_bytes r = concat (map projr (takeWhile (\<lambda>x. \<not> isl x) r))"

definition chunk_tail :: "(HttpErrorKind + bytes) list \<Rightarrow> (HttpErrorKind + bytes) list" where
  "chunk_tail r = dropWhile (\<lambda>x. \<not> isl x) r"

lemma chunk_simps [simp]:
  "chunk_bytes [] = []" "chunk_bytes (Inr b # r) = b @ chunk_bytes r" "chunk_bytes (Inl e # r) = []"
  "chunk_tail [] = []" "chunk_tail (Inr b # r) = chunk_tail r" "chunk_tail (Inl e # r) = Inl e # r"
  by (simp_all add: chunk_bytes_def chunk_tail_def)

record View =
  v_input :: bytes
  v_tail :: "(HttpErrorKind + bytes) list"
  v_offset :: nat
  v_scan :: Scanner
  v_err :: "HttpErrorKind option"
  v_token_state :: TokenState
  v_token_stack :: "TokenState list"

definition view :: "Decoder \<Rightarrow> View" where
  "view d =
    \<lparr>v_input = drop (dec_scanp d) (dec_buf d) @ chunk_bytes (dec_r d), v_tail = chunk_tail (dec_r d),
     v_offset = input_offset d, v_scan = dec_scan d, v_err = dec_err d,
     v_token_state = dec_token_state d, v_token_stack = dec_token_stack d\<rparr>"

text \<open>Reading past a transport error makes the bytes behind it the ones to be read next.\<close>

definition past_error :: "View \<Rightarrow> View" where
  "past_error v = v\<lparr>v_input := v_input v @ chunk_bytes (tl (v_tail v)), v_tail := chunk_tail (tl (v_tail v))\<rparr>"

definition in_range :: "Decoder \<Rightarrow> bool" where
  "in_range d \<longleftrightarrow> dec_scanp d \<le> length (dec_buf d)"

lemma view_sel [simp]:
  "v_scan (view d) = dec_scan d" "v_err (view d) = dec_err d" "v_token_state (view d) = dec_token_state d"
  "v_token_stack (view d) = dec_token_stack d" "v_tail (view d) = chunk_tail (dec_r d)"
  by (simp_all add: view_def)

lemma view_input: "v_input (view d) = drop (dec_scanp d) (dec_buf d) @ chunk_bytes (dec_r d)"
  by (simp add: view_def)

lemma view_upd [simp]:
  "view (d\<lparr>dec_scan := s\<rparr>) = (view d)\<lparr>v_scan := s\<rparr>" "view (d\<lparr>dec_err := e\<rparr>) = (view d)\<lparr>v_err := e\<rparr>"
  "view (d\<lparr>dec_token_state := t\<rparr>) = (view d)\<lparr>v_token_state := t\<rparr>"
  "view (d\<lparr>dec_token_stack := ts\<rparr>) = (view d)\<lparr>v_token_stack := ts\<rparr>"
  by (simp_all add: view_def input_offset_def)

lemma refill_cases:
  assumes "in_range d"
  obtains (eof) d' where "refill d = (None, d')" "dec_r d = []" "dec_r d' = []" "dec_buf d' = drop (dec_scanp d) (dec_buf d)"
      "dec_scanp d' = 0" "view d' = view d" "in_range d'"
    | (chunk) b r d' where "refill d = (Some (Ok ()), d')" "dec_r d = Inr b # r" "dec_r d' = r"
      "dec_buf d' = drop (dec_scanp d) (dec_buf d) @ b" "dec_scanp d' = 0" "view d' = view d" "in_range d'"
    | (failed) e r d' where "refill d = (Some (Err e), d')" "dec_r d = Inl e # r" "dec_r d' = r"
      "dec_buf d' = drop (dec_scanp d) (dec_buf d)" "dec_scanp d' = 0" "view d' = past_error (view d)" "in_range d'"
proof -
  obtain x d' where r: "refill d = (x, d')" by fastforce
  show thesis
  proof (cases "dec_r d")
    case Nil
    with r show thesis
      by (intro eof [of d']) (auto simp: refill_def Let_def view_def input_offset_def in_range_def split: if_splits)
  next
    case (Cons y ys)
    show thesis
    proof (cases y)
      case (Inl e)
      with r Cons show thesis
        by (intro failed [of e d' ys])
          (auto simp: refill_def Let_def view_def past_error_def input_offset_def in_range_def split: if_splits)
    next
      case (Inr b)
      with r Cons show thesis
        by (intro chunk [of d' b ys])
          (auto simp: refill_def Let_def view_def input_offset_def in_range_def split: if_splits)
    qed
  qed
qed

section \<open>Reading a value\<close>

definition view_eof :: "nat \<Rightarrow> View \<Rightarrow> (HttpErrorKind, nat) result \<times> View" where
  "view_eof n v =
    (case scanner_step 0x20 (v_scan v) of
       Ok (r, s) \<Rightarrow>
         if r = End then (Ok n, v\<lparr>v_scan := s\<rparr>)
         else if \<not> blanks (v_input v) then (Err unexpected_eof, v\<lparr>v_scan := s, v_err := Some unexpected_eof\<rparr>)
         else ((case v_err v of Some e \<Rightarrow> Err e | None \<Rightarrow> Ok n), v\<lparr>v_scan := s\<rparr>)
     | _ \<Rightarrow> (Panic, v))"

definition view_read_from :: "nat \<Rightarrow> View \<Rightarrow> (HttpErrorKind, nat) result \<times> View" where
  "view_read_from n v =
    (case scan_buffer (drop n (v_input v)) n (v_scan v) of
       Found p s \<Rightarrow> (Ok p, v\<lparr>v_scan := s\<rparr>)
     | Failed s \<Rightarrow> (case sc_err s of None \<Rightarrow> Panic | Some e \<Rightarrow> Err e, v\<lparr>v_scan := s, v_err := sc_err s\<rparr>)
     | Panicked \<Rightarrow> (Panic, v)
     | Exhausted p s \<Rightarrow>
         (case v_tail v of
            [] \<Rightarrow> view_eof p (v\<lparr>v_scan := s\<rparr>)
          | e # _ \<Rightarrow> (Err (projl e), (past_error v)\<lparr>v_scan := s, v_err := Some (projl e)\<rparr>)))"

definition view_read_value :: "View \<Rightarrow> (HttpErrorKind, nat) result \<times> View" where
  "view_read_value v = view_read_from 0 (v\<lparr>v_scan := scanner_reset (v_scan v)\<rparr>)"

lemma read_value_eof_view:
  assumes "dec_r d = []" and "dec_scanp d = 0" and "in_range d"
  shows "apsnd view (read_value_eof n d) = view_eof n (view d)" and "in_range (snd (read_value_eof n d))"
    "dec_scanp (snd (read_value_eof n d)) = 0" "dec_buf (snd (read_value_eof n d)) = dec_buf d"
  using assms
  by (auto simp: read_value_eof_def view_eof_def view_input Let_def blanks_def in_range_def split: result.split option.split)

lemma view_eof_Ok: "view_eof m v = (Ok n, v') \<Longrightarrow> n = m"
  by (auto simp: view_eof_def split: result.splits prod.splits if_splits option.splits)

lemma view_read_from_step:
  assumes "scan_buffer a n (v_scan v) = Exhausted q s" and "drop n (v_input v) = a @ b" and "scanner_ok s"
  shows "view_read_from n v = view_read_from q (v\<lparr>v_scan := s\<rparr>)"
proof -
  have "q = length a + n" using scan_buffer_Exhausted [OF assms(1)] by simp
  then have "drop q (v_input v) = drop (length a) (drop n (v_input v))" by (simp only: drop_drop)
  then have "drop q (v_input v) = b" by (simp add: assms(2))
  then show ?thesis
    using assms scan_buffer_ok(1) [OF assms(3), of b q]
    by (simp add: view_read_from_def scan_buffer_append past_error_def split: ScanOutcome.split list.split)
qed

lemma read_value_loop_view:
  assumes "in_range d" and "scanner_ok (dec_scan d)" and "dec_scanp d \<le> p" and "p \<le> length (dec_buf d)"
    and "\<forall>e. res \<noteq> Some (Err e)" and "read_value_loop p res d = (x, d')"
  shows "(x, view d') = view_read_from (p - dec_scanp d) (view d) \<and> in_range d'
    \<and> (\<forall>n. x = Ok n \<longrightarrow> dec_scanp d' + n \<le> length (dec_buf d'))"
  using assms
proof (induction "length (dec_r d)" arbitrary: d p res rule: less_induct)
  case less
  let ?n = "p - dec_scanp d"
  let ?buf = "drop p (dec_buf d)"
  have input: "drop ?n (v_input (view d)) = ?buf @ chunk_bytes (dec_r d)" using less.prems(1,3,4)
    by (simp add: view_input in_range_def)
  have shift: "scan_buffer ?buf p s = shift_outcome (dec_scanp d) (scan_buffer ?buf ?n s)" for s
    using scan_buffer_shift [of ?buf ?n "dec_scanp d" s] less.prems(3) by simp
  note ok = scan_buffer_ok [OF less.prems(2)]
  show ?case
  proof (cases "scan_buffer ?buf ?n (dec_scan d)")
    case (Found q s)
    with less.prems show ?thesis
      using scan_buffer_Found [OF Found]
      by (auto simp: read_value_loop.simps [of p] shift view_read_from_def input scan_buffer_append in_range_def)
  next
    case (Failed s)
    with less.prems ok(2) [OF Failed] show ?thesis
      by (auto simp: read_value_loop.simps [of p] shift view_read_from_def input scan_buffer_append in_range_def)
  next
    case Panicked
    with ok(1) show ?thesis by blast
  next
    case (Exhausted q s)
    have q: "dec_scanp d + q = length (dec_buf d)" using scan_buffer_Exhausted [OF Exhausted] less.prems(3,4) by simp
    have s: "scanner_ok s" using ok(3) [OF Exhausted] .
    let ?d = "d\<lparr>dec_scan := s\<rparr>"
    have range: "in_range ?d" using less.prems(1) by (simp add: in_range_def)
    have loop: "read_value_loop p res d = (case refill ?d of (None, d') \<Rightarrow> read_value_eof (dec_scanp d' + q) d'
        | (Some r, d') \<Rightarrow> read_value_loop (dec_scanp d' + q) (Some r) d')"
      using less.prems(5) by (auto simp: read_value_loop.simps [of p] shift Exhausted split: option.split result.split prod.split)
    from range show ?thesis
    proof (cases rule: refill_cases)
      case (eof d1)
      then show ?thesis using less.prems(6) read_value_eof_view [OF eof(3,5,7), of q] q
        by (auto simp: loop view_read_from_def input scan_buffer_append Exhausted apsnd_def map_prod_def
            split: prod.splits dest: view_eof_Ok [OF sym])
    next
      case (chunk b r d1)
      have s1: "dec_scan d1 = s" using arg_cong [OF chunk(6), of v_scan] by simp
      have "(x, view d') = view_read_from (q - dec_scanp d1) (view d1) \<and> in_range d'
          \<and> (\<forall>n. x = Ok n \<longrightarrow> dec_scanp d' + n \<le> length (dec_buf d'))"
        by (rule less.hyps [of d1 q "Some (Ok ())"]) (use chunk q s s1 less.prems(6) loop in auto)
      then show ?thesis using chunk view_read_from_step [of ?buf ?n "view d" q s, OF _ input s] Exhausted by simp
    next
      case (failed e r d1)
      then show ?thesis using less.prems(6) q
        by (auto simp: loop read_value_loop.simps [of q] view_read_from_def input scan_buffer_append Exhausted in_range_def
            past_error_def)
    qed
  qed
qed

lemma read_value_view:
  assumes "in_range d" and "read_value d = (x, d')"
  shows "(x, view d') = view_read_value (view d)" and "in_range d'"
    and "\<And>n. x = Ok n \<Longrightarrow> dec_scanp d' + n \<le> length (dec_buf d')"
  using read_value_loop_view [of "d\<lparr>dec_scan := scanner_reset (dec_scan d)\<rparr>" "dec_scanp d" None x d'] assms
  by (simp_all add: read_value_def view_read_value_def in_range_def)

section \<open>Peeking\<close>

text \<open>White space is dropped in front of the byte that is found; it stays when the input ends without one.\<close>

definition view_peek :: "View \<Rightarrow> (HttpErrorKind, u8) result option \<times> View" where
  "view_peek v =
    (case dropWhile is_ascii_whitespace (v_input v) of
       c # rest \<Rightarrow>
         (Some (Ok c), v\<lparr>v_input := c # rest, v_offset := v_offset v + (length (v_input v) - length (c # rest))\<rparr>)
     | [] \<Rightarrow>
         (case v_tail v of
            [] \<Rightarrow> (None, v)
          | e # _ \<Rightarrow> (Some (Err (projl e)), past_error v)))"

lemma dropWhile_drop: "dropWhile P xs = drop (length xs - length (dropWhile P xs)) xs"
  by (metis append_eq_conv_conj length_append diff_add_inverse2 takeWhile_dropWhile_id)

lemma peek_loop_view:
  assumes "in_range d" and "\<forall>e. res \<noteq> Some (Err e)" and "peek_loop res d = (x, d')"
  shows "(x, view d') = view_peek (view d) \<and> in_range d'"
  using assms
proof (induction "length (dec_r d)" arbitrary: d res rule: less_induct)
  case less
  let ?buf = "drop (dec_scanp d) (dec_buf d)"
  show ?case
  proof (cases "dropWhile is_ascii_whitespace ?buf")
    case (Cons c rest)
    define k where "k = length ?buf - length (c # rest)"
    have k: "drop k ?buf = c # rest"
      unfolding k_def Cons [symmetric] by (rule dropWhile_drop [symmetric])
    have le: "length (c # rest) \<le> length ?buf" using length_dropWhile_le [of is_ascii_whitespace ?buf] Cons by simp
    have pos: "length (dec_buf d) - length (c # rest) = dec_scanp d + k"
      using le less.prems(1) by (simp add: k_def in_range_def)
    have "\<exists>y\<in>set ?buf. \<not> is_ascii_whitespace y" using Cons by (metis dropWhile_eq_Nil_conv list.distinct(1))
    then have all: "dropWhile is_ascii_whitespace (?buf @ t) = c # rest @ t" for t by (auto simp: dropWhile_append Cons)
    from less.prems(3) have "x = Some (Ok c)" "d' = d\<lparr>dec_scanp := dec_scanp d + k\<rparr>"
      using pos by (simp_all add: peek_loop.simps [of res] Cons)
    moreover have "dec_scanp d + k \<le> length (dec_buf d)" using le less.prems(1) by (simp add: k_def in_range_def)
    ultimately show ?thesis
      using k le by (simp add: view_peek_def view_def all input_offset_def in_range_def k_def)
  next
    case Nil
    have loop: "peek_loop res d = (case refill d of (None, d') \<Rightarrow> (None, d') | (Some r, d') \<Rightarrow> peek_loop (Some r) d')"
      using less.prems(2) by (auto simp: peek_loop.simps [of res] Nil split: option.split result.split)
    from less.prems(1) show ?thesis
    proof (cases rule: refill_cases)
      case (eof d1)
      with less.prems(3) show ?thesis by (simp add: loop view_peek_def view_input Nil)
    next
      case (chunk b r d1)
      have "(x, view d') = view_peek (view d1) \<and> in_range d'"
        by (rule less.hyps [of d1 "Some (Ok ())"]) (use chunk less.prems(3) loop in auto)
      with chunk show ?thesis by simp
    next
      case (failed e r d1)
      with less.prems(3) show ?thesis
        by (simp add: loop view_peek_def view_input Nil peek_loop.simps [of "Some (Err e)"])
    qed
  qed
qed

lemma peek_view:
  assumes "in_range d" and "peek d = (x, d')"
  shows "(x, view d') = view_peek (view d)" and "in_range d'"
  using peek_loop_view [OF assms(1), of None x d'] assms(2) by (simp_all add: peek_def)

section \<open>The operations are functions of the view\<close>

text \<open>
  \<open>follows f g\<close>: the operation \<open>f\<close> of the decoder does on every decoder what \<open>g\<close> does on its view.
\<close>

definition follows :: "(Decoder \<Rightarrow> 'a \<times> Decoder) \<Rightarrow> (View \<Rightarrow> 'a \<times> View) \<Rightarrow> bool" where
  "follows f g \<longleftrightarrow> (\<forall>d. in_range d \<longrightarrow> (case f d of (x, d') \<Rightarrow> (x, view d') = g (view d) \<and> in_range d'))"

lemma followsD: "follows f g \<Longrightarrow> in_range d \<Longrightarrow> f d = (x, d') \<Longrightarrow> g (view d) = (x, view d') \<and> in_range d'"
  by (auto simp: follows_def split: prod.splits)

lemma followsI:
  "(\<And>d x d'. in_range d \<Longrightarrow> f d = (x, d') \<Longrightarrow> g (view d) = (x, view d') \<and> in_range d') \<Longrightarrow> follows f g"
  by (fastforce simp: follows_def split: prod.splits)

lemma follows_bind:
  assumes "follows f g" and "\<And>x. follows (h x) (k x)"
  shows "follows (\<lambda>d. dec_then (f d) h) (\<lambda>v. dec_then (g v) k)"
proof (rule followsI)
  fix d x d'
  assume "in_range d" and "dec_then (f d) h = (x, d')"
  moreover obtain y d1 where f: "f d = (y, d1)" by fastforce
  ultimately show "dec_then (g (view d)) k = (x, view d') \<and> in_range d'"
    using followsD [OF assms(1) _ f] followsD [OF assms(2)] by (cases y) (auto simp: dec_then_def)
qed

lemma follows_return: "(\<And>d. in_range d \<Longrightarrow> view (f d) = g (view d) \<and> in_range (f d)) \<Longrightarrow> follows (\<lambda>d. (x, f d)) (\<lambda>v. (x, g v))"
  by (simp add: follows_def)

lemma follows_if:
  assumes "\<And>d. P d = Q (view d)" and "follows f g" and "follows h k"
  shows "follows (\<lambda>d. if P d then f d else h d) (\<lambda>v. if Q v then g v else k v)"
  using assms by (simp add: follows_def)

lemma follows_unique: "follows f g \<Longrightarrow> in_range d \<Longrightarrow> in_range d' \<Longrightarrow> view d = view d'
    \<Longrightarrow> fst (f d) = fst (f d') \<and> view (snd (f d)) = view (snd (f d'))"
  using followsD [of f g d "fst (f d)" "snd (f d)"] followsD [of f g d' "fst (f d')" "snd (f d')"] by simp

definition view_advance :: "nat \<Rightarrow> View \<Rightarrow> View" where
  "view_advance n v = v\<lparr>v_input := drop n (v_input v), v_offset := v_offset v + n\<rparr>"

lemma view_advance_scanp:
  "dec_scanp d + n \<le> length (dec_buf d) \<Longrightarrow> view (advance_scanp n d) = view_advance n (view d) \<and> in_range (advance_scanp n d)"
  by (simp add: view_def view_advance_def advance_scanp_def input_offset_def in_range_def add.commute)

definition view_peek_or_eof :: "View \<Rightarrow> (HttpErrorKind, u8) result \<times> View" where
  "view_peek_or_eof v = (case view_peek v of (Some r, v) \<Rightarrow> (r, v) | (None, v) \<Rightarrow> (Err unexpected_eof, v))"

definition view_expect_separator :: "u8 \<Rightarrow> TokenState \<Rightarrow> string \<Rightarrow> View \<Rightarrow> (HttpErrorKind, unit) result \<times> View" where
  "view_expect_separator sep ts msg v =
    dec_then (view_peek_or_eof v) (\<lambda>c v.
      if c \<noteq> sep then (Err (HttpMessage msg), v)
      else (Ok (), (view_advance 1 v)\<lparr>v_token_state := ts\<rparr>))"

definition view_prepare :: "View \<Rightarrow> (HttpErrorKind, unit) result \<times> View" where
  "view_prepare v =
    (case v_token_state v of
       ArrayComma \<Rightarrow> view_expect_separator 0x2c ArrayValue ''expected comma after array element'' v
     | ObjectColon \<Rightarrow> view_expect_separator 0x3a ObjectValue ''expected colon after object key'' v
     | _ \<Rightarrow> (Ok (), v))"

definition view_value_end :: "View \<Rightarrow> View" where
  "view_value_end v =
    (case v_token_state v of
       ArrayStart \<Rightarrow> v\<lparr>v_token_state := ArrayComma\<rparr>
     | ArrayValue \<Rightarrow> v\<lparr>v_token_state := ArrayComma\<rparr>
     | ObjectValue \<Rightarrow> v\<lparr>v_token_state := ObjectComma\<rparr>
     | _ \<Rightarrow> v)"

definition view_decode :: "View \<Rightarrow> (HttpErrorKind, bytes) result \<times> View" where
  "view_decode v =
    (case v_err v of
       Some e \<Rightarrow> (Err e, v)
     | None \<Rightarrow>
         dec_then (view_prepare v) (\<lambda>_ v.
           if v_token_state v \<notin> {TopValue, ArrayStart, ArrayValue, ObjectValue}
           then (Err (HttpMessage ''not at beginning of value''), v)
           else dec_then (view_read_value v) (\<lambda>n v.
             (Ok (trim_ascii (take n (v_input v))), view_value_end (view_advance n v)))))"

text \<open>A byte that was peeked at is in the buffer.\<close>

lemma peek_loop_buffered: "peek_loop res d = (Some (Ok c), d') \<Longrightarrow> in_range d \<Longrightarrow> dec_scanp d' < length (dec_buf d')"
proof (induction "length (dec_r d)" arbitrary: d res rule: less_induct)
  case less
  show ?case
  proof (cases "dropWhile is_ascii_whitespace (drop (dec_scanp d) (dec_buf d))")
    case (Cons a list)
    have "length (a # list) \<le> length (dec_buf d)"
      using length_dropWhile_le [of is_ascii_whitespace "drop (dec_scanp d) (dec_buf d)"] Cons by simp
    with less.prems Cons show ?thesis by (auto simp: peek_loop.simps [of res])
  next
    case Nil
    obtain y d1 where "refill d = (y, d1)" by fastforce
    with less.prems(1) have "peek_loop y d1 = (Some (Ok c), d')" "refill d = (y, d1)" "y \<noteq> None"
      by (auto simp: peek_loop.simps [of res] Nil split: option.splits result.splits)
    with less.hyps [of d1 y] refill_shorter [of y d1 d] refill_cases [OF less.prems(2)] show ?thesis by fastforce
  qed
qed

lemma peek_or_eof_follows: "follows peek_or_eof view_peek_or_eof"
  by (rule followsI) (auto simp: peek_or_eof_def view_peek_or_eof_def split: option.splits prod.splits dest: peek_view [rotated])

lemma peek_or_eof_advance:
  assumes "in_range d" and "peek_or_eof d = (Ok c, d')"
  shows "view (advance_scanp 1 d') = view_advance 1 (view d')" and "in_range (advance_scanp 1 d')"
  using assms peek_loop_buffered [of None d c d'] view_advance_scanp [of d' 1]
  by (auto simp: peek_or_eof_def peek_def split: option.splits prod.splits)

lemma expect_separator_follows: "follows (expect_separator sep ts msg) (view_expect_separator sep ts msg)"
proof (rule followsI)
  fix d x d'
  assume d: "in_range d" and r: "expect_separator sep ts msg d = (x, d')"
  obtain y d1 where p: "peek_or_eof d = (y, d1)" by fastforce
  show "view_expect_separator sep ts msg (view d) = (x, view d') \<and> in_range d'"
    using followsD [OF peek_or_eof_follows d p] r p peek_or_eof_advance [OF d, of _ d1]
    by (cases y) (auto simp: expect_separator_def view_expect_separator_def dec_then_def in_range_def split: if_splits)
qed

lemma prepare_follows: "follows token_prepare_for_decode view_prepare"
  using expect_separator_follows
  by (simp add: follows_def token_prepare_for_decode_def view_prepare_def split: TokenState.split)

lemma value_end_view: "view (token_value_end d) = view_value_end (view d)" "in_range (token_value_end d) = in_range d"
  by (simp_all add: token_value_end_def view_value_end_def in_range_def split: TokenState.split)

lemma read_decoded_follows:
  "follows (\<lambda>d. dec_then (read_value d) (\<lambda>n d.
       (Ok (trim_ascii (take n (drop (dec_scanp d) (dec_buf d)))), token_value_end (advance_scanp n d))))
     (\<lambda>v. dec_then (view_read_value v) (\<lambda>n v. (Ok (trim_ascii (take n (v_input v))), view_value_end (view_advance n v))))"
proof (rule followsI)
  fix d x d'
  let ?k = "\<lambda>n d. (Ok (trim_ascii (take n (drop (dec_scanp d) (dec_buf d)))), token_value_end (advance_scanp n d))"
  assume d: "in_range d" and r: "dec_then (read_value d) ?k = (x, d')"
  obtain y d1 where y: "read_value d = (y, d1)" by fastforce
  note rv = read_value_view [OF d y]
  show "dec_then (view_read_value (view d)) (\<lambda>n v. (Ok (trim_ascii (take n (v_input v))), view_value_end (view_advance n v)))
      = (x, view d') \<and> in_range d'"
  proof (cases y)
    case (Ok n)
    have "dec_scanp d1 + n \<le> length (dec_buf d1)" using rv(3) Ok .
    with r y rv(1) [symmetric] Ok view_advance_scanp [of d1 n] show ?thesis
      by (auto simp: dec_then_def value_end_view view_input)
  qed (use r y rv(1) [symmetric] rv(2) in \<open>auto simp: dec_then_def\<close>)
qed

lemma decode_follows: "follows decode view_decode"
proof -
  let ?f = "\<lambda>d. dec_then (token_prepare_for_decode d) (\<lambda>_ d.
       if \<not> token_value_allowed d then (Err (HttpMessage ''not at beginning of value''), d)
       else dec_then (read_value d) (\<lambda>n d.
         (Ok (trim_ascii (take n (drop (dec_scanp d) (dec_buf d)))), token_value_end (advance_scanp n d))))"
  have "follows ?f (\<lambda>v. dec_then (view_prepare v) (\<lambda>_ v.
      if v_token_state v \<notin> {TopValue, ArrayStart, ArrayValue, ObjectValue}
      then (Err (HttpMessage ''not at beginning of value''), v)
      else dec_then (view_read_value v) (\<lambda>n v. (Ok (trim_ascii (take n (v_input v))), view_value_end (view_advance n v)))))"
    by (intro follows_bind prepare_follows follows_if follows_return read_decoded_follows) (simp_all add: token_value_allowed_def)
  then show ?thesis
    by (simp add: follows_def decode_def view_decode_def split: option.split)
qed

section \<open>Independence of the chunks\<close>

text \<open>\<open>determined f\<close>: what \<open>f\<close> returns, and the view of the decoder that it leaves, depend on the view only.\<close>

definition determined :: "(Decoder \<Rightarrow> 'a \<times> Decoder) \<Rightarrow> bool" where
  "determined f \<longleftrightarrow> (\<forall>d d'. in_range d \<longrightarrow> in_range d' \<longrightarrow> view d = view d' \<longrightarrow>
     fst (f d) = fst (f d') \<and> view (snd (f d)) = view (snd (f d')) \<and> in_range (snd (f d)))"

lemma follows_determined: "follows f g \<Longrightarrow> determined f"
  unfolding determined_def using follows_unique [of f g] followsD [of f g] by (metis prod.collapse)

lemma determinedD:
  assumes "determined f" "in_range d" "in_range d'" "view d = view d'" "f d = (x, d1)" "f d' = (y, d2)"
  shows "x = y \<and> view d1 = view d2 \<and> in_range d1 \<and> in_range d2"
  using assms unfolding determined_def by (metis fst_conv snd_conv)

lemma decode_determined: "determined decode"
  by (rule follows_determined [OF decode_follows])

lemma in_range_upd [simp]:
  "in_range (d\<lparr>dec_token_state := t\<rparr>) = in_range d" "in_range (d\<lparr>dec_token_stack := ts\<rparr>) = in_range d"
  "in_range (d\<lparr>dec_scan := s\<rparr>) = in_range d" "in_range (d\<lparr>dec_err := e\<rparr>) = in_range d"
  by (simp_all add: in_range_def)

text \<open>The states that agree on what the operations of the decoder can see.\<close>

definition agree :: "Decoder \<Rightarrow> Decoder \<Rightarrow> bool" where
  "agree d d' \<longleftrightarrow> in_range d \<and> in_range d' \<and> view d = view d'"

definition agree_result :: "('a \<times> Decoder) \<Rightarrow> ('a \<times> Decoder) \<Rightarrow> bool" where
  "agree_result p q \<longleftrightarrow> fst p = fst q \<and> agree (snd p) (snd q)"

lemma agree_sel:
  assumes "agree d d'"
  shows "dec_token_state d = dec_token_state d'" "dec_token_stack d = dec_token_stack d'"
    "dec_err d = dec_err d'" "dec_scan d = dec_scan d'"
  using assms view_sel by (metis agree_def)+

lemma determined_agree: "determined f \<Longrightarrow> agree d d' \<Longrightarrow> agree_result (f d) (f d')"
  unfolding determined_def agree_def agree_result_def by metis

lemma agree_bind:
  "agree_result p q \<Longrightarrow> (\<And>x d d'. agree d d' \<Longrightarrow> agree_result (h x d) (h x d')) \<Longrightarrow> agree_result (dec_then p h) (dec_then q h)"
  by (cases p; cases q; cases "fst p") (auto simp: agree_result_def dec_then_def)

lemma agree_pair [simp]: "agree_result (x, d) (y, d') \<longleftrightarrow> x = y \<and> agree d d'"
  by (simp add: agree_result_def)

lemma agree_upd [simp]:
  "agree d d' \<Longrightarrow> agree (d\<lparr>dec_token_state := t\<rparr>) (d'\<lparr>dec_token_state := t\<rparr>)"
  "agree d d' \<Longrightarrow> agree (d\<lparr>dec_token_stack := ts\<rparr>) (d'\<lparr>dec_token_stack := ts\<rparr>)"
  by (simp_all add: agree_def)

lemma agree_value_end [simp]: "agree d d' \<Longrightarrow> agree (token_value_end d) (token_value_end d')"
  by (simp add: agree_def value_end_view)

lemma token_error_agree: "agree d d' \<Longrightarrow> agree_result (token_error c d) (token_error c d')"
  by (simp add: token_error_def agree_sel [of d d'])

lemma token_value_agree: "agree d d' \<Longrightarrow> agree_result (token_value c d) (token_value c d')"
  by (auto simp: token_value_def token_value_allowed_def agree_sel [of d d'] token_error_agree
      intro!: agree_bind determined_agree [OF decode_determined])

lemma token_key_agree: "agree d d' \<Longrightarrow> agree_result (token_key fs d) (token_key fs d')"
  unfolding token_key_def
  by (intro agree_bind determined_agree [OF decode_determined]) (auto split: sum.split)

lemma push_token_agree:
  "agree d d' \<Longrightarrow> agree (advance_scanp 1 d) (advance_scanp 1 d') \<Longrightarrow> agree_result (push_token ts c d) (push_token ts c d')"
  by (auto simp: push_token_def token_value_allowed_def agree_sel [of d d'] token_error_agree)

lemma pop_token_agree:
  "agree d d' \<Longrightarrow> agree (advance_scanp 1 d) (advance_scanp 1 d') \<Longrightarrow> agree_result (pop_token ts ts' c d) (pop_token ts ts' c d')"
  by (auto simp: pop_token_def agree_sel [of d d'] token_error_agree split: list.split)

lemma peek_agree:
  assumes "agree d d'" and "peek_or_eof d = (r, d1)" and "peek_or_eof d' = (r', d2)"
  shows "r' = r" "agree d1 d2" "\<And>c. r = Ok c \<Longrightarrow> agree (advance_scanp 1 d1) (advance_scanp 1 d2)"
proof -
  note d = assms(1) [unfolded agree_def]
  have "r = r' \<and> view d1 = view d2 \<and> in_range d1 \<and> in_range d2"
    using determinedD [OF follows_determined [OF peek_or_eof_follows] _ _ _ assms(2,3)] d by blast
  then show *: "r' = r" "agree d1 d2" by (auto simp: agree_def)
  show "agree (advance_scanp 1 d1) (advance_scanp 1 d2)" if "r = Ok c" for c
    using peek_or_eof_advance [of d c d1] peek_or_eof_advance [of d' c d2] assms(2,3) that * d
    by (auto simp: agree_def)
qed

lemma token_agree: "agree d d' \<Longrightarrow> agree_result (token fs d) (token fs d')"
proof (induction fs d arbitrary: d' rule: token.induct)
  case (1 fs d)
  obtain r d1 d2 where p: "peek_or_eof d = (r, d1)" "peek_or_eof d' = (r, d2)"
    using peek_agree(1) [OF 1(4)] by (metis surj_pair)
  note a = peek_agree [OF 1(4) p]
  show ?case
  proof (cases r)
    case (Ok c)
    note st = agree_sel(1) [OF a(2)]
    have adv: "agree (advance_scanp 1 d1) (advance_scanp 1 d2)" using a(3) [OF Ok] .
    note IH = 1(1-3) [OF p(1) [symmetric] Ok]
    show ?thesis
      unfolding token.simps [of fs d] token.simps [of fs d'] p Ok result.case prod.case
      using a(2) adv st IH
      by (simp add: token_error_agree token_value_agree token_key_agree push_token_agree pop_token_agree)
  qed (use a p in \<open>simp_all add: token.simps [of fs d] token.simps [of fs d']\<close>)
qed

section \<open>Values of the grammar\<close>

text \<open>The control part of a step depends on the state function and the open containers only.\<close>

lemma end_value_ctl:
  "(case state_end_value c s of (r, s') \<Rightarrow> (r, sc_step s', sc_parse_state s'))
    = (case state_end_value c (scanner_at q (sc_parse_state s)) of (r, s') \<Rightarrow> (r, sc_step s', sc_parse_state s'))"
  by (cases "sc_parse_state s")
    (simp_all add: scanner_at_def state_end_value_def state_end_top_def goto_def scan_error_def pop_parse_state_def Let_def
      split: ParseState.split)

lemma step_fn_ctl:
  assumes "sc_step s = q"
  shows "(case step_fn q c s of (r, s') \<Rightarrow> (r, sc_step s', sc_parse_state s')) = ctl q (sc_parse_state s) c"
proof -
  have tl: "(case state_end_value c (s\<lparr>sc_parse_state := ps\<rparr>) of (r, s') \<Rightarrow> (r, sc_step s', sc_parse_state s'))
    = (case state_end_value c ((scanner_at q outer)\<lparr>sc_parse_state := ps\<rparr>) of (r, s') \<Rightarrow> (r, sc_step s', sc_parse_state s'))" for ps outer
    using end_value_ctl [of c "s\<lparr>sc_parse_state := ps\<rparr>" q] by (simp add: scanner_at_def)
  note sev = end_value_ctl [of c s q]
  show ?thesis
    using assms sev tl
    by (cases q)
      (auto simp: ctl_def value_state_defs state_end_top_def scanner_at_def
        state_in_string_def state_in_string_esc_def hex_escape_def state_in_string_esc_u_def state_in_string_esc_u1_def
        state_in_string_esc_u12_def state_in_string_esc_u123_def state_neg_def state0_def state1_def state_dot_def
        state_dot0_def state_e_sign_def state_e_def state_e0_def expect_letter_def state_t_def state_tr_def state_tru_def
        state_f_def state_fa_def state_fal_def state_fals_def state_n_def state_nu_def state_nul_def state_error_def)
qed

text \<open>After a closing bracket the scanner expects more of the enclosing container, or the end.\<close>

lemma ctl_closed:
  "ctl q outer c = (r, q', outer') \<Longrightarrow> r = EndObject \<or> r = EndArray \<Longrightarrow> q' = (if outer' = [] then StEndTop else StEndValue)"
  by (cases q)
    (auto simp: ctl_def scanner_at_def scanner_defs Let_def split: list.splits ParseState.splits if_splits)

lemma space_step:
  "ctl StEndTop outer 0x20 = (End, StEndTop, outer)"
  "ps \<noteq> [] \<Longrightarrow> ctl StEndValue ps 0x20 = (SkipSpace, StEndValue, ps)"
  by (simp add: ctl_def scanner_at_def scanner_defs is_ascii_whitespace_def)
    (cases ps; simp add: ctl_def scanner_at_def scanner_defs is_ascii_whitespace_def)

lemma scan_buffer_len:
  assumes "scanner_ok s"
  shows "case scan_buffer b p s of
      Found k s' \<Rightarrow> scan_len (sc_step s) (sc_parse_state s) b = Some (k - p)
    | Failed s' \<Rightarrow> scan_len (sc_step s) (sc_parse_state s) b = None
    | Exhausted k s' \<Rightarrow> scan_len (sc_step s) (sc_parse_state s) b
        = (if fst (ctl (sc_step s') (sc_parse_state s') 0x20) = End then Some (length b) else None)
    | Panicked \<Rightarrow> False"
  using assms
proof (induction b arbitrary: p s)
  case (Cons c b)
  let ?s = "incr_bytes 1 s"
  have ok: "scanner_ok ?s" using Cons.prems by simp
  obtain r s1 where step: "scanner_step c ?s = Ok (r, s1)" "scanner_ok s1" using ok by (rule scanner_step_ok [where c = c])
  then have "step_fn (sc_step ?s) c ?s = (r, s1)" by (simp add: scanner_step_def split: if_splits)
  with step_fn_ctl [OF refl, of ?s c] have c: "ctl (sc_step s) (sc_parse_state s) c = (r, sc_step s1, sc_parse_state s1)"
    by (simp add: incr_bytes_def)
  note len = scan_len.simps(2) [of "sc_step s" "sc_parse_state s" c b, unfolded c prod.case]
  obtain r2 s2 where step2: "scanner_step 0x20 s1 = Ok (r2, s2)" "scanner_ok s2"
    using step(2) by (rule scanner_step_ok [where c = "0x20"])
  then have "step_fn (sc_step s1) 0x20 s1 = (r2, s2)" by (simp add: scanner_step_def split: if_splits)
  with step_fn_ctl [OF refl, of s1 "0x20"]
  have c2: "ctl (sc_step s1) (sc_parse_state s1) 0x20 = (r2, sc_step s2, sc_parse_state s2)" by simp
  show ?case
  proof (cases "r = EndObject \<or> r = EndArray")
    case True
    with ctl_closed [OF c] c2 space_step [of "sc_parse_state s1"]
    have "sc_parse_state s1 = [] \<and> r2 = End \<or> sc_parse_state s1 \<noteq> [] \<and> r2 = SkipSpace \<and> sc_step s2 = sc_step s1
        \<and> sc_parse_state s2 = sc_parse_state s1" by (auto split: if_splits)
    with True step step2 len Cons.IH [OF step2(2), of "p + 1"] scan_buffer_Found [of b "p + 1" s2] show ?thesis
      by (auto split: ScanOutcome.splits)
  next
    case False
    with step len Cons.IH [OF step(2), of "p + 1"] scan_buffer_Found [of b "p + 1" s1] show ?thesis
      by (auto split: ScanOutcome.splits)
  qed
qed (simp add: scan_len.simps)

lemma exponent_last: "exponent e \<Longrightarrow> e \<noteq> [] \<Longrightarrow> is_ascii_digit (last e)"
  by (erule exponent.cases) (auto simp: digits_def)

lemma fraction_last: "fraction f \<Longrightarrow> f \<noteq> [] \<Longrightarrow> is_ascii_digit (last f)"
  by (erule fraction.cases) (auto simp: digits_def last_append exponent_last)

lemma magnitude_last: "magnitude m \<Longrightarrow> m \<noteq> [] \<and> is_ascii_digit (last m)"
  by (erule magnitude.cases) (auto simp: digits_def last_append fraction_last)

lemma json_value_last: "json_value v \<Longrightarrow> \<not> is_ascii_whitespace (last v)"
  by (erule json_value.cases)
    (auto elim!: json_number.cases dest!: magnitude_last simp: last_append is_ascii_whitespace_def is_ascii_digit_def)

lemma dropWhile_blanks: "blanks w \<Longrightarrow> dropWhile is_ascii_whitespace (w @ v) = dropWhile is_ascii_whitespace v"
  by (induction w) simp_all

lemma trim_value:
  assumes "blanks w" and "json_value v"
  shows "trim_ascii (w @ v) = v"
proof -
  obtain c t where v: "v = c # t" "\<not> is_ascii_whitespace c" using json_value_start [OF assms(2)] by auto
  have "rev v \<noteq> []" using v(1) by simp
  moreover have "\<not> is_ascii_whitespace (hd (rev v))" using json_value_last [OF assms(2)] by (metis hd_rev)
  ultimately have "dropWhile is_ascii_whitespace (rev v) = rev v" by (cases "rev v") auto
  with v assms(1) show ?thesis by (simp add: trim_ascii_def dropWhile_blanks)
qed

lemma trim_blanks: "blanks w \<Longrightarrow> trim_ascii w = []"
proof -
  assume "blanks w"
  then have "dropWhile is_ascii_whitespace w = []" by (simp add: blanks_def)
  then show ?thesis by (simp only: trim_ascii_def) simp
qed

text \<open>The bytes that a decoder has still to hand out before a transport error or the end of the stream.\<close>

definition unread :: "Decoder \<Rightarrow> bytes" where
  "unread d = v_input (view d)"

definition at_value :: "Decoder \<Rightarrow> bool" where
  "at_value d \<longleftrightarrow> in_range d \<and> dec_err d = None \<and> token_value_allowed d"

lemma reset_sel [simp]: "sc_step (scanner_reset s) = StBeginValue" "sc_parse_state (scanner_reset s) = []"
  by (simp_all add: scanner_reset_def)

lemma view_decode_at_value:
  assumes "at_value d"
  shows "view_decode (view d) = dec_then (view_read_value (view d)) (\<lambda>n v.
    (Ok (trim_ascii (take n (v_input v))), view_value_end (view_advance n v)))"
  using assms by (auto simp: at_value_def view_decode_def view_prepare_def token_value_allowed_def dec_then_def)

lemma decode_step:
  assumes "at_value d"
  obtains d' where "decode d = (fst (view_decode (view d)), d')" "in_range d'" "view d' = snd (view_decode (view d))"
  using followsD [OF decode_follows, of d "fst (decode d)" "snd (decode d)"] assms that
  by (metis at_value_def fst_conv prod.collapse snd_conv)

lemma view_end [simp]:
  "v_input (view_value_end v) = v_input v" "v_input (view_advance n v) = drop n (v_input v)"
  by (simp_all add: view_value_end_def view_advance_def split: TokenState.split)

text \<open>Where a value ends is where the grammar ends it, unless the stream fails right behind it.\<close>

lemma eof_step:
  assumes "scan_buffer b p (scanner_reset s) = Exhausted k s'"
  obtains s2 where "scanner_step 0x20 s' = Ok (fst (ctl (sc_step s') (sc_parse_state s') 0x20), s2)"
proof -
  have "scanner_ok s'" using scan_buffer_ok(3) [OF _ assms] by simp
  then obtain r s2 where st: "scanner_step 0x20 s' = Ok (r, s2)" by (rule scanner_step_ok [where c = "0x20"])
  then have "step_fn (sc_step s') 0x20 s' = (r, s2)" by (simp add: scanner_step_def split: if_splits)
  then have "fst (ctl (sc_step s') (sc_parse_state s') 0x20) = r" using step_fn_ctl [OF refl, of s' "0x20"]
    by (metis (no_types, lifting) case_prod_conv fst_conv)
  with st that show thesis by simp
qed

lemma view_read_found:
  assumes "scan_len StBeginValue [] (v_input v) = Some n" and "n = length (v_input v) \<Longrightarrow> v_tail v = []"
  shows "\<exists>s. view_read_value v = (Ok n, v\<lparr>v_scan := s\<rparr>)"
proof -
  let ?s = "scanner_reset (v_scan v)"
  note len = scan_buffer_len [of ?s "v_input v" 0]
  show ?thesis
  proof (cases "scan_buffer (v_input v) 0 ?s")
    case (Found k s')
    with len assms(1) show ?thesis by (auto simp: view_read_value_def view_read_from_def)
  next
    case (Exhausted k s')
    with len assms scan_buffer_Exhausted [OF Exhausted] have
      k: "k = n" "v_tail v = []" "fst (ctl (sc_step s') (sc_parse_state s') 0x20) = End" by (auto split: if_splits)
    obtain s2 where "scanner_step 0x20 s' = Ok (End, s2)" using eof_step [OF Exhausted] k(3) by metis
    with Exhausted k(1,2) show ?thesis by (auto simp: view_read_value_def view_read_from_def view_eof_def)
  qed (use len assms in auto)
qed

lemma view_read_Ok:
  assumes "view_read_value v = (Ok n, v')"
  shows "v_input v' = v_input v \<and> (scan_len StBeginValue [] (v_input v) = Some n
    \<or> blanks (v_input v) \<and> n = length (v_input v) \<and> v_tail v = [])"
proof -
  let ?s = "scanner_reset (v_scan v)"
  note len = scan_buffer_len [of ?s "v_input v" 0]
  show ?thesis
  proof (cases "scan_buffer (v_input v) 0 ?s")
    case (Found k s')
    with len assms show ?thesis by (auto simp: view_read_value_def view_read_from_def)
  next
    case (Exhausted k s')
    obtain s2 where st: "scanner_step 0x20 s' = Ok (fst (ctl (sc_step s') (sc_parse_state s') 0x20), s2)"
      using eof_step [OF Exhausted] .
    from Exhausted assms st len scan_buffer_Exhausted [OF Exhausted] show ?thesis
      by (auto simp: view_read_value_def view_read_from_def view_eof_def split: list.splits if_splits option.splits)
  qed (use len assms in \<open>auto simp: view_read_value_def view_read_from_def split: option.splits\<close>)
qed

lemma decode_of_value:
  assumes "at_value d" and "unread d = w @ v @ r" and "blanks w" and "json_value v" and "json_number v \<longrightarrow> number_stops r"
    and "r = [] \<longrightarrow> chunk_tail (dec_r d) = []"
  shows "\<exists>d'. decode d = (Ok v, d') \<and> unread d' = r \<and> in_range d' \<and> dec_err d' = None
    \<and> dec_token_state d' = dec_token_state (token_value_end d) \<and> dec_token_stack d' = dec_token_stack d
    \<and> chunk_tail (dec_r d') = chunk_tail (dec_r d)"
proof -
  have in_eq: "v_input (view d) = w @ v @ r" using assms(2) by (simp add: unread_def)
  have "scan_len StBeginValue [] (v_input (view d)) = Some (length w + length v)"
    using json_value_scanned [OF assms(4,5), of "[]"] assms(3) by (simp add: in_eq scan_blanks)
  then obtain s where rv: "view_read_value (view d) = (Ok (length w + length v), (view d)\<lparr>v_scan := s\<rparr>)"
    using view_read_found [of "view d"] assms(6) in_eq by auto
  have vd: "view_decode (view d) = (Ok v, view_value_end (view_advance (length w + length v) ((view d)\<lparr>v_scan := s\<rparr>)))"
    using trim_value [OF assms(3,4)] by (simp add: view_decode_at_value [OF assms(1)] rv dec_then_def in_eq)
  obtain d' where d': "decode d = (Ok v, d')" "in_range d'"
      "view d' = view_value_end (view_advance (length w + length v) ((view d)\<lparr>v_scan := s\<rparr>))"
    using decode_step [OF assms(1)] vd by auto
  have "unread d' = r" using d'(3) in_eq by (simp add: unread_def)
  moreover have "dec_err d' = None \<and> dec_token_state d' = dec_token_state (token_value_end d) \<and> dec_token_stack d' = dec_token_stack d
      \<and> chunk_tail (dec_r d') = chunk_tail (dec_r d)"
    unfolding view_sel [symmetric] d'(3) using assms(1)
    by (simp add: view_value_end_def view_advance_def token_value_end_def at_value_def split: TokenState.split)
  ultimately show ?thesis using d'(1,2) by blast
qed

lemma decode_Ok_value:
  assumes "at_value d" and "decode d = (Ok x, d')"
  shows "(\<exists>w. unread d = w @ x @ unread d' \<and> blanks w \<and> json_value x)
    \<or> x = [] \<and> blanks (unread d) \<and> unread d' = [] \<and> chunk_tail (dec_r d) = []"
proof -
  from decode_step [OF assms(1)] assms(2) have vd: "view_decode (view d) = (Ok x, view d')" by (metis prod.collapse prod.inject)
  then obtain n v where n: "view_read_value (view d) = (Ok n, v)" "x = trim_ascii (take n (v_input v))"
      "view d' = view_value_end (view_advance n v)"
    by (auto simp: view_decode_at_value [OF assms(1)] dec_then_def split: prod.splits result.splits)
  then have un: "unread d' = drop n (v_input v)" by (simp add: unread_def)
  note rv = view_read_Ok [OF n(1)]
  from rv show ?thesis
  proof (elim conjE disjE)
    assume "scan_len StBeginValue [] (v_input (view d)) = Some n" and same: "v_input v = v_input (view d)"
    from scan_value_sound [OF this(1)] obtain w y r where "v_input (view d) = w @ y @ r" "blanks w" "json_value y"
        "n = length w + length y" by blast
    with n un same trim_value [of w y] show ?thesis by (auto simp: unread_def)
  next
    assume "blanks (v_input (view d))" "n = length (v_input (view d))" "v_tail (view d) = []" "v_input v = v_input (view d)"
    with n un show ?thesis by (simp add: unread_def trim_blanks)
  qed
qed

section \<open>What the decoder promises\<close>

text \<open>C8. The decoder refines a reader of one flat byte string: decoding a value from a decoder, wherever
  the chunks of the response end, gives the result and the state that the reader of the concatenated bytes gives.\<close>

theorem decode_refines_view:
  assumes "in_range d"
  shows "view_decode (view d) = (fst (decode d), view (snd (decode d)))"
  using followsD [OF decode_follows assms, of "fst (decode d)" "snd (decode d)"] by simp

theorem decode_refines_view_witness:
  "in_range (decoder_new [Inr [0x5b], Inr [0x5d]])
    \<and> view_decode (view (decoder_new [Inr [0x5b], Inr [0x5d]]))
      = (fst (decode (decoder_new [Inr [0x5b], Inr [0x5d]])), view (snd (decode (decoder_new [Inr [0x5b], Inr [0x5d]]))))"
  using decode_refines_view [of "decoder_new [Inr [0x5b], Inr [0x5d]]"] by (simp add: in_range_def decoder_new_def)

text \<open>Two decoders that have the same bytes in front of them, however these are cut into chunks, hand out
  the same token and are again in front of the same bytes.\<close>

theorem tokens_chunk_independent:
  assumes "in_range d" and "in_range d'" and "view d = view d'"
  shows "fst (token fs d) = fst (token fs d') \<and> view (snd (token fs d)) = view (snd (token fs d'))
    \<and> in_range (snd (token fs d)) \<and> in_range (snd (token fs d'))"
  using token_agree [of d d' fs] assms by (simp add: agree_def agree_result_def)

theorem tokens_chunk_independent_witness:
  "fst (token (\<lambda>_. Inr ''k'') (decoder_new [Inr [0x5b], Inr [0x31]])) = fst (token (\<lambda>_. Inr ''k'') (decoder_new [Inr [0x5b, 0x31]]))"
  using tokens_chunk_independent [of "decoder_new [Inr [0x5b], Inr [0x31]]" "decoder_new [Inr [0x5b, 0x31]]" "\<lambda>_. Inr ''k''"]
  by (simp add: in_range_def decoder_new_def view_def input_offset_def)

text \<open>Where a value is expected and the unread bytes are white space followed by a JSON value and a rest
  (that does not continue a number), decoding returns exactly the bytes of that value, without the white
  space, and leaves the rest unread; the stream may be cut into chunks anywhere, also inside the value.\<close>

theorem decode_finds_value:
  assumes "at_value d" and "unread d = w @ v @ r" and "blanks w" and "json_value v" and "json_number v \<longrightarrow> number_stops r"
    and "r = [] \<longrightarrow> chunk_tail (dec_r d) = []"
  shows "\<exists>d'. decode d = (Ok v, d') \<and> unread d' = r \<and> in_range d' \<and> dec_err d' = None
    \<and> dec_token_state d' = dec_token_state (token_value_end d) \<and> chunk_tail (dec_r d') = chunk_tail (dec_r d)"
  using decode_of_value [OF assms] by blast

lemma json_one: "json_value [0x31]"
  using magnitude.nonzero [of "0x31" "[]" "[]", OF _ _ _ no_fraction [OF no_exponent]]
  by (auto simp: is_ascii_digit_def intro!: json_num positive)

lemma json_array_one: "json_value [0x5b, 0x31, 0x5d]"
  using json_array [of "[0x31]"] last_element [of "[]" "[0x31]" "[]"] json_one by simp

lemma not_number_array: "\<not> json_number (0x5b # b)"
  by (auto elim!: json_number.cases magnitude.cases simp: is_ascii_digit_def)

theorem decode_finds_value_witness:
  "\<exists>d'. decode (decoder_new [Inr [0x20, 0x5b], Inr [0x31], Inr [0x5d, 0x2c]]) = (Ok [0x5b, 0x31, 0x5d], d') \<and> unread d' = [0x2c]"
proof -
  let ?d = "decoder_new [Inr [0x20, 0x5b], Inr [0x31], Inr [0x5d, 0x2c]]"
  have "at_value ?d" by (simp add: at_value_def decoder_new_def in_range_def token_value_allowed_def)
  moreover have "unread ?d = [0x20] @ [0x5b, 0x31, 0x5d] @ [0x2c]" by (simp add: unread_def view_input decoder_new_def)
  ultimately show ?thesis
    using decode_finds_value [of ?d "[0x20]" "[0x5b, 0x31, 0x5d]" "[0x2c]"] json_array_one not_number_array
    by (auto simp: is_ascii_whitespace_def)
qed

text \<open>What decoding returns is a JSON value of the grammar, taken from the front of the unread bytes with
  only white space skipped; the one exception is the end of the stream, where an empty result is returned.\<close>

theorem decode_returns_values_only:
  assumes "at_value d" and "decode d = (Ok x, d')"
  shows "(\<exists>w. unread d = w @ x @ unread d' \<and> blanks w \<and> json_value x)
    \<or> x = [] \<and> blanks (unread d) \<and> unread d' = [] \<and> chunk_tail (dec_r d) = []"
  by (rule decode_Ok_value [OF assms])

theorem decode_returns_values_only_witness:
  "\<exists>x d'. decode (decoder_new [Inr [0x5b, 0x31], Inr [0x5d]]) = (Ok x, d') \<and> json_value x"
proof -
  let ?d = "decoder_new [Inr [0x5b, 0x31], Inr [0x5d]]"
  have at: "at_value ?d" by (simp add: at_value_def decoder_new_def in_range_def token_value_allowed_def)
  have un: "unread ?d = [0x5b, 0x31, 0x5d]" by (simp add: unread_def view_input decoder_new_def)
  obtain d' where d': "decode ?d = (Ok [0x5b, 0x31, 0x5d], d')"
    using decode_of_value [OF at, of "[]" "[0x5b, 0x31, 0x5d]" "[]"] un json_array_one not_number_array
    by (auto simp: decoder_new_def)
  from decode_returns_values_only [OF at d'] d' show ?thesis by auto
qed

end
