(* ===== verification/Json_Streamer.thy ===== *)
theory Json_Streamer
  imports Json_View
begin

text \<open>
  The streamer that turns the JSON object of a service's response into rows and metadata
  (\<^verbatim>\<open>httpx/raw_json_row_streamer.rs\<close>). Parsing and printing of JSON trees is \<^verbatim>\<open>serde_json\<close>'s: the
  parameters \<open>from_str\<close> (the text of a string literal), \<open>from_value\<close> (the text of a value) and \<open>to_vec\<close>
  (the attributes that were collected), each with the text of its error. The loops of \<^verbatim>\<open>begin\<close> and
  \<^verbatim>\<open>next\<close> return an option, \<open>None\<close> if they were to run forever.
\<close>

section \<open>State\<close>

datatype RowStreamState = RowsStart | RowsRows | RowsPostRows | RowsEnd

datatype RawJsonRowItem = Row bytes | Metadata bytes

record 'v RawJsonRowStreamer =
  rs_stream :: Decoder
  rs_rows_attrib :: string
  rs_attribs :: "string \<rightharpoonup> 'v"
  rs_state :: RowStreamState

definition streamer_new :: "Decoder \<Rightarrow> string \<Rightarrow> 'v RawJsonRowStreamer" where
  "streamer_new stream rows_attrib =
    \<lparr>rs_stream = stream, rs_rows_attrib = rows_attrib, rs_attribs = Map.empty, rs_state = RowsStart\<rparr>"

definition on_stream ::
  "(Decoder \<Rightarrow> 'a \<times> Decoder) \<Rightarrow> 'v RawJsonRowStreamer \<Rightarrow> 'a \<times> 'v RawJsonRowStreamer" where
  "on_stream f s = (case f (rs_stream s) of (x, d) \<Rightarrow> (x, s\<lparr>rs_stream := d\<rparr>))"

definition read_attribute ::
  "(bytes \<Rightarrow> string + 'v) \<Rightarrow> string \<Rightarrow> 'v RawJsonRowStreamer \<Rightarrow> (HttpErrorKind, unit) result \<times> 'v RawJsonRowStreamer" where
  "read_attribute from_value key s =
    dec_then (on_stream decode s) (\<lambda>value s.
      case from_value value of
        Inl e \<Rightarrow> (Err (HttpMessage (''failed to parse value: '' @ e)), s)
      | Inr x \<Rightarrow> (Ok (), s\<lparr>rs_attribs := (rs_attribs s)(key \<mapsto> x)\<rparr>))"

section \<open>Prelude\<close>

text \<open>One turn of the loop of \<^verbatim>\<open>begin\<close>: \<open>True\<close> goes on, \<open>False\<close> leaves the loop.\<close>

definition begin_rows_open ::
  "(bytes \<Rightarrow> string + string) \<Rightarrow> 'v RawJsonRowStreamer \<Rightarrow> (HttpErrorKind, bool) result \<times> 'v RawJsonRowStreamer" where
  "begin_rows_open from_str s =
    (case on_stream more_tokens s of
       (True, s) \<Rightarrow> (Ok False, s\<lparr>rs_state := RowsRows\<rparr>)
     | (False, s) \<Rightarrow>
         dec_then (on_stream (token from_str) s) (\<lambda>t s.
           if t = Delim 0x5d then (Ok True, s\<lparr>rs_state := RowsPostRows\<rparr>)
           else (Err (HttpMessage ''expected closing ] for the result''), s)))"

definition begin_rows ::
  "(bytes \<Rightarrow> string + string) \<Rightarrow> 'v RawJsonRowStreamer \<Rightarrow> (HttpErrorKind, bool) result \<times> 'v RawJsonRowStreamer" where
  "begin_rows from_str s =
    dec_then (on_stream (token from_str) s) (\<lambda>t s.
      if t = Delim 0x5b then begin_rows_open from_str (s\<lparr>rs_state := RowsRows\<rparr>)
      else if t = Value [0x6e, 0x75, 0x6c, 0x6c] then (Ok True, s)
      else (Err (HttpMessage ''expected an opening bracket for the rows''), s))"

definition begin_step ::
  "(bytes \<Rightarrow> string + string) \<Rightarrow> (bytes \<Rightarrow> string + 'v) \<Rightarrow> 'v RawJsonRowStreamer
    \<Rightarrow> (HttpErrorKind, bool) result \<times> 'v RawJsonRowStreamer" where
  "begin_step from_str from_value s =
    (case on_stream more_tokens s of
       (False, s) \<Rightarrow> (Ok False, s\<lparr>rs_state := RowsEnd\<rparr>)
     | (True, s) \<Rightarrow>
         dec_then (on_stream (token from_str) s) (\<lambda>t s.
           case t of
             TokenString key \<Rightarrow>
               if key = rs_rows_attrib s then begin_rows from_str s
               else dec_then (read_attribute from_value key s) (\<lambda>_ s. (Ok True, s))
           | _ \<Rightarrow> (Err (HttpMessage ''expected a string key for the result''), s)))"

partial_function (option) begin_loop ::
  "(bytes \<Rightarrow> string + string) \<Rightarrow> (bytes \<Rightarrow> string + 'v) \<Rightarrow> 'v RawJsonRowStreamer
    \<Rightarrow> ((HttpErrorKind, unit) result \<times> 'v RawJsonRowStreamer) option" where
  "begin_loop from_str from_value s =
    (case begin_step from_str from_value s of
       (Ok continue, s) \<Rightarrow> if continue then begin_loop from_str from_value s else Some (Ok (), s)
     | (Err e, s) \<Rightarrow> Some (Err e, s)
     | (Panic, s) \<Rightarrow> Some (Panic, s))"

definition begin_stream ::
  "(bytes \<Rightarrow> string + string) \<Rightarrow> (bytes \<Rightarrow> string + 'v) \<Rightarrow> 'v RawJsonRowStreamer
    \<Rightarrow> ((HttpErrorKind, unit) result \<times> 'v RawJsonRowStreamer) option" where
  "begin_stream from_str from_value s =
    (if rs_state s \<noteq> RowsStart then Some (Err (HttpMessage ''unexpected parsing state during begin''), s)
     else
       case on_stream (token from_str) s of
         (Ok first, s) \<Rightarrow>
           if first \<noteq> Delim 0x7b then Some (Err (HttpMessage ''expected an opening brace for the result''), s)
           else begin_loop from_str from_value s
       | (Err e, s) \<Rightarrow> Some (Err e, s)
       | (Panic, s) \<Rightarrow> Some (Panic, s))"

definition has_more_rows :: "'v RawJsonRowStreamer \<Rightarrow> bool \<times> 'v RawJsonRowStreamer" where
  "has_more_rows s = (if rs_state s \<noteq> RowsRows then (False, s) else on_stream more_tokens s)"

definition encode_attribs ::
  "((string \<rightharpoonup> 'v) \<Rightarrow> string + bytes) \<Rightarrow> string \<Rightarrow> 'v RawJsonRowStreamer \<Rightarrow> (HttpErrorKind, bytes) result" where
  "encode_attribs to_vec what s =
    (case to_vec (rs_attribs s) of Inl e \<Rightarrow> Err (HttpMessage (what @ e)) | Inr b \<Rightarrow> Ok b)"

definition read_prelude ::
  "(bytes \<Rightarrow> string + string) \<Rightarrow> (bytes \<Rightarrow> string + 'v) \<Rightarrow> ((string \<rightharpoonup> 'v) \<Rightarrow> string + bytes)
    \<Rightarrow> 'v RawJsonRowStreamer \<Rightarrow> ((HttpErrorKind, bytes) result \<times> 'v RawJsonRowStreamer) option" where
  "read_prelude from_str from_value to_vec s =
    map_option (\<lambda>r. dec_then r (\<lambda>_ s. (encode_attribs to_vec ''failed to read prelude: '' s, s)))
      (begin_stream from_str from_value s)"

definition epilog :: "((string \<rightharpoonup> 'v) \<Rightarrow> string + bytes) \<Rightarrow> 'v RawJsonRowStreamer \<Rightarrow> (HttpErrorKind, bytes) result" where
  "epilog to_vec s = encode_attribs to_vec ''failed to read epilogue: '' s"

section \<open>Rows and metadata\<close>

definition next_row ::
  "(bytes \<Rightarrow> string + string) \<Rightarrow> 'v RawJsonRowStreamer \<Rightarrow> (HttpErrorKind, RawJsonRowItem) result \<times> 'v RawJsonRowStreamer" where
  "next_row from_str s =
    dec_then (on_stream decode s) (\<lambda>row s.
      case on_stream more_tokens s of
        (True, s) \<Rightarrow> (Ok (Row row), s)
      | (False, s) \<Rightarrow>
          dec_then (on_stream (token from_str) s) (\<lambda>t s.
            if t = Delim 0x5d then (Ok (Row row), s\<lparr>rs_state := RowsPostRows\<rparr>)
            else (Err (HttpMessage ''expected closing ] for the result''), s)))"

text \<open>One turn of the loop behind the rows: \<open>None\<close> goes on with the next attribute.\<close>

definition post_step ::
  "(bytes \<Rightarrow> string + string) \<Rightarrow> (bytes \<Rightarrow> string + 'v) \<Rightarrow> ((string \<rightharpoonup> 'v) \<Rightarrow> string + bytes)
    \<Rightarrow> 'v RawJsonRowStreamer \<Rightarrow> (HttpErrorKind, RawJsonRowItem option) result \<times> 'v RawJsonRowStreamer" where
  "post_step from_str from_value to_vec s =
    dec_then (on_stream (token from_str) s) (\<lambda>t s.
      case t of
        TokenString key \<Rightarrow> dec_then (read_attribute from_value key s) (\<lambda>_ s. (Ok None, s))
      | Delim c \<Rightarrow>
          if c = 0x7d then
            let s = s\<lparr>rs_state := RowsEnd\<rparr> in
            dec_then (encode_attribs to_vec ''failed to encode metadata: '' s, s) (\<lambda>b s. (Ok (Some (Metadata b)), s))
          else (Err (HttpMessage ''expected a string key for the result''), s)
      | _ \<Rightarrow> (Err (HttpMessage ''expected a string key for the result''), s))"

partial_function (option) next_loop ::
  "(bytes \<Rightarrow> string + string) \<Rightarrow> (bytes \<Rightarrow> string + 'v) \<Rightarrow> ((string \<rightharpoonup> 'v) \<Rightarrow> string + bytes)
    \<Rightarrow> 'v RawJsonRowStreamer \<Rightarrow> ((HttpErrorKind, RawJsonRowItem) result \<times> 'v RawJsonRowStreamer) option" where
  "next_loop from_str from_value to_vec s =
    (if rs_state s = RowsPostRows then
       (case post_step from_str from_value to_vec s of
          (Ok r, s) \<Rightarrow>
            (case r of
               None \<Rightarrow> next_loop from_str from_value to_vec s
             | Some item \<Rightarrow> Some (Ok item, s))
        | (Err e, s) \<Rightarrow> Some (Err e, s)
        | (Panic, s) \<Rightarrow> Some (Panic, s))
     else Some (next_row from_str s))"

definition next_item ::
  "(bytes \<Rightarrow> string + string) \<Rightarrow> (bytes \<Rightarrow> string + 'v) \<Rightarrow> ((string \<rightharpoonup> 'v) \<Rightarrow> string + bytes)
    \<Rightarrow> 'v RawJsonRowStreamer \<Rightarrow> ((HttpErrorKind, RawJsonRowItem) result option \<times> 'v RawJsonRowStreamer) option" where
  "next_item from_str from_value to_vec s =
    (if rs_state s = RowsEnd then Some (None, s)
     else map_option (apfst Some) (next_loop from_str from_value to_vec s))"

text \<open>The first \<open>n\<close> items of \<^verbatim>\<open>into_stream\<close>.\<close>

fun row_items ::
  "(bytes \<Rightarrow> string + string) \<Rightarrow> (bytes \<Rightarrow> string + 'v) \<Rightarrow> ((string \<rightharpoonup> 'v) \<Rightarrow> string + bytes) \<Rightarrow> nat
    \<Rightarrow> 'v RawJsonRowStreamer \<Rightarrow> ((HttpErrorKind, RawJsonRowItem) result option list \<times> 'v RawJsonRowStreamer) option" where
  "row_items from_str from_value to_vec 0 s = Some ([], s)"
| "row_items from_str from_value to_vec (Suc n) s =
    (case next_item from_str from_value to_vec s of
       None \<Rightarrow> None
     | Some (item, s') \<Rightarrow> map_option (apfst ((#) item)) (row_items from_str from_value to_vec n s'))"

section \<open>Operations of the decoder on known text\<close>

text \<open>
  \<open>decoder_at d u ts stk rest\<close>: the decoder is good for reading, has the bytes \<open>u\<close> in front of it before the
  stream ends or fails as \<open>rest\<close> says, and is in token state \<open>ts\<close> inside the containers \<open>stk\<close>.
\<close>

definition decoder_at ::
  "Decoder \<Rightarrow> bytes \<Rightarrow> TokenState \<Rightarrow> TokenState list \<Rightarrow> (HttpErrorKind + bytes) list \<Rightarrow> bool" where
  "decoder_at d u ts stk rest \<longleftrightarrow> in_range d \<and> dec_err d = None \<and> unread d = u \<and> dec_token_state d = ts
    \<and> dec_token_stack d = stk \<and> chunk_tail (dec_r d) = rest"

lemma decoder_at_view:
  "decoder_at d u ts stk rest \<longleftrightarrow> in_range d \<and> v_err (view d) = None \<and> v_input (view d) = u \<and> v_token_state (view d) = ts
    \<and> v_token_stack (view d) = stk \<and> v_tail (view d) = rest"
  by (simp add: decoder_at_def unread_def)

lemma decoder_at_upd:
  "decoder_at d u ts stk rest \<Longrightarrow> decoder_at (d\<lparr>dec_token_state := ts'\<rparr>) u ts' stk rest"
  "decoder_at d u ts stk rest \<Longrightarrow> decoder_at (d\<lparr>dec_token_stack := stk'\<rparr>) u ts stk' rest"
  by (simp_all add: decoder_at_view)

lemma view_peek_text:
  assumes "blanks w" and "\<not> is_ascii_whitespace c" and "v_input v = w @ c # r"
  shows "view_peek v = (Some (Ok c), v\<lparr>v_input := c # r, v_offset := v_offset v + length w\<rparr>)"
  using assms by (simp add: view_peek_def dropWhile_blanks)

lemma peek_at:
  assumes "decoder_at d (w @ c # r) ts stk rest" and "blanks w" and "\<not> is_ascii_whitespace c"
  shows "\<exists>d'. peek d = (Some (Ok c), d') \<and> decoder_at d' (c # r) ts stk rest"
proof -
  obtain x d' where p: "peek d = (x, d')" by fastforce
  from assms(1) have "in_range d" "v_input (view d) = w @ c # r" by (simp_all add: decoder_at_view)
  with peek_view [OF _ p] view_peek_text [OF assms(2,3)] assms(1) p show ?thesis by (auto simp: decoder_at_view simp del: view_sel)
qed

lemma peek_or_eof_at:
  assumes "decoder_at d (w @ c # r) ts stk rest" and "blanks w" and "\<not> is_ascii_whitespace c"
  shows "\<exists>d'. peek_or_eof d = (Ok c, d') \<and> decoder_at d' (c # r) ts stk rest \<and> decoder_at (advance_scanp 1 d') r ts stk rest"
proof -
  obtain d' where p: "peek d = (Some (Ok c), d')" and at: "decoder_at d' (c # r) ts stk rest" using peek_at [OF assms] by blast
  then have e: "peek_or_eof d = (Ok c, d')" by (simp add: peek_or_eof_def)
  have "in_range d" using assms(1) by (simp add: decoder_at_def)
  from peek_or_eof_advance [OF this e] at have "decoder_at (advance_scanp 1 d') r ts stk rest"
    by (simp add: decoder_at_view view_advance_def del: view_sel)
  with e at show ?thesis by blast
qed

lemma more_at:
  assumes "decoder_at d (w @ c # r) ts stk rest" and "blanks w" and "\<not> is_ascii_whitespace c"
  shows "\<exists>d'. more_tokens d = (c \<noteq> 0x5d \<and> c \<noteq> 0x7d, d') \<and> decoder_at d' (c # r) ts stk rest"
  using peek_at [OF assms] by (auto simp: more_tokens_def)

lemma more_at_end:
  assumes "decoder_at d w ts stk rest" and "blanks w"
  shows "\<exists>d'. more_tokens d = (False, d')"
proof -
  obtain x d' where p: "peek d = (x, d')" by fastforce
  from assms have "in_range d" "v_input (view d) = w" by (simp_all add: decoder_at_view)
  with peek_view(1) [OF _ p] dropWhile_blanks [OF assms(2), of "[]"] p show ?thesis
    by (auto simp: more_tokens_def view_peek_def simp del: dropWhile_eq_Nil_conv split: list.splits)
qed

primrec ended :: "TokenState \<Rightarrow> TokenState" where
  "ended TopValue = TopValue" | "ended ArrayStart = ArrayComma" | "ended ArrayValue = ArrayComma"
| "ended ArrayComma = ArrayComma" | "ended ObjectStart = ObjectStart" | "ended ObjectKey = ObjectKey"
| "ended ObjectColon = ObjectColon" | "ended ObjectValue = ObjectComma" | "ended ObjectComma = ObjectComma"

lemma ended_state: "dec_token_state (token_value_end d) = ended (dec_token_state d)"
  by (simp add: token_value_end_def split: TokenState.split)

lemma decode_at:
  assumes "decoder_at d (w @ v @ r) ts stk rest" and "blanks w" and "json_value v" and "json_number v \<longrightarrow> number_stops r"
    and "r = [] \<longrightarrow> rest = []" and "ts \<in> {TopValue, ArrayStart, ArrayValue, ObjectValue}"
  shows "\<exists>d'. decode d = (Ok v, d') \<and> decoder_at d' r (ended ts) stk rest"
  using decode_of_value [of d w v r] assms by (auto simp: decoder_at_def at_value_def token_value_allowed_def ended_state)

text \<open>In front of an element or a member value the separator is read first.\<close>

lemma expect_separator_at:
  assumes "decoder_at d (w @ sep # r) ts stk rest" and "blanks w" and "\<not> is_ascii_whitespace sep"
  shows "\<exists>d'. expect_separator sep ts' msg d = (Ok (), d') \<and> decoder_at d' r ts' stk rest"
  using peek_or_eof_at [OF assms] by (auto simp: expect_separator_def dec_then_def intro: decoder_at_upd)

lemma decode_separated_at:
  assumes "decoder_at d (w @ sep # w' @ v @ r) ts stk rest" and "blanks w" and "blanks w'" and "json_value v"
    and "json_number v \<longrightarrow> number_stops r" and "r = [] \<longrightarrow> rest = []" and "(ts, sep) = (ArrayComma, 0x2c) \<or> (ts, sep) = (ObjectColon, 0x3a)"
  shows "\<exists>d'. decode d = (Ok v, d') \<and> decoder_at d' r (if ts = ArrayComma then ArrayComma else ObjectComma) stk rest"
proof -
  let ?ts = "if ts = ArrayComma then ArrayValue else ObjectValue"
  have "\<exists>d1. token_prepare_for_decode d = (Ok (), d1) \<and> decoder_at d1 (w' @ v @ r) ?ts stk rest"
    using expect_separator_at [OF assms(1,2)] assms(1,7) by (auto simp: token_prepare_for_decode_def decoder_at_def)
  then obtain d1 where p: "token_prepare_for_decode d = (Ok (), d1)" and d1: "decoder_at d1 (w' @ v @ r) ?ts stk rest" by blast
  have "decode d = decode d1"
    using p d1 assms(1,7) by (auto simp: decode_def dec_then_def decoder_at_def token_prepare_for_decode_def)
  with decode_at [OF d1 assms(3-6)] assms(7) show ?thesis by auto
qed

lemma token_key_at:
  assumes "decoder_at d (w @ 0x22 # k @ 0x22 # r) ts stk rest" and "blanks w" and "string_body k" and "r \<noteq> []"
    and "ts = ObjectStart \<or> ts = ObjectKey" and "fs (0x22 # k @ [0x22]) = Inr name"
  shows "\<exists>d'. token fs d = (Ok (TokenString name), d') \<and> decoder_at d' r ObjectColon stk rest"
proof -
  obtain d1 where d1: "peek_or_eof d = (Ok 0x22, d1)" "decoder_at d1 (0x22 # k @ 0x22 # r) ts stk rest"
    using peek_or_eof_at [OF assms(1,2)] by auto
  have "json_value (0x22 # k @ [0x22])" using assms(3) by (rule json_string)
  moreover have "\<not> json_number (0x22 # k @ [0x22])" by (auto elim!: json_number.cases magnitude.cases simp: is_ascii_digit_def)
  moreover have "decoder_at (d1\<lparr>dec_token_state := TopValue\<rparr>) ([] @ (0x22 # k @ [0x22]) @ r) TopValue stk rest"
    using decoder_at_upd(1) [OF d1(2)] by simp
  ultimately obtain d2 where "decode (d1\<lparr>dec_token_state := TopValue\<rparr>) = (Ok (0x22 # k @ [0x22]), d2)" "decoder_at d2 r TopValue stk rest"
    using decode_at [of _ "[]" "0x22 # k @ [0x22]" r TopValue stk rest] assms(4) by auto
  with d1 assms(5,6) decoder_at_upd(1) show ?thesis
    by (fastforce simp: token.simps [of fs d] token_key_def dec_then_def decoder_at_def)
qed

text \<open>A separator in front of a token is skipped.\<close>

lemma token_separated:
  assumes "decoder_at d (w @ sep # r) ts stk rest" and "blanks w"
    and "(ts, sep, ts') \<in> {(ArrayComma, 0x2c, ArrayValue), (ObjectComma, 0x2c, ObjectKey), (ObjectColon, 0x3a, ObjectValue)}"
  shows "\<exists>d'. token fs d = token fs d' \<and> decoder_at d' r ts' stk rest"
proof -
  have "\<not> is_ascii_whitespace sep" using assms(3) by auto
  from peek_or_eof_at [OF assms(1,2) this] obtain d1 where d1: "peek_or_eof d = (Ok sep, d1)" "decoder_at d1 (sep # r) ts stk rest"
      "decoder_at (advance_scanp 1 d1) r ts stk rest" by blast
  have "token fs d = token fs ((advance_scanp 1 d1)\<lparr>dec_token_state := ts'\<rparr>)"
    using d1 assms(3) by (auto simp: token.simps [of fs d] decoder_at_def)
  with decoder_at_upd(1) [OF d1(3)] show ?thesis by blast
qed

lemma token_open_at:
  assumes "decoder_at d (w @ c # r) ts stk rest" and "blanks w" and "ts \<in> {TopValue, ArrayStart, ArrayValue, ObjectValue}"
    and "(c, ts') = (0x5b, ArrayStart) \<or> (c, ts') = (0x7b, ObjectStart)"
  shows "\<exists>d'. token fs d = (Ok (Delim c), d') \<and> decoder_at d' r ts' (ts # stk) rest"
proof -
  have "\<not> is_ascii_whitespace c" using assms(4) by auto
  from peek_or_eof_at [OF assms(1,2) this] obtain d1 where d1: "peek_or_eof d = (Ok c, d1)" "decoder_at d1 (c # r) ts stk rest"
      "decoder_at (advance_scanp 1 d1) r ts stk rest" by blast
  then show ?thesis using assms(3,4) decoder_at_upd
    by (fastforce simp: token.simps [of fs d] push_token_def token_value_allowed_def decoder_at_def)
qed

lemma token_close_at:
  assumes "decoder_at d (w @ c # r) ts (t # stk) rest" and "blanks w"
    and "c = 0x5d \<and> ts \<in> {ArrayStart, ArrayComma} \<or> c = 0x7d \<and> ts \<in> {ObjectStart, ObjectComma}"
  shows "\<exists>d'. token fs d = (Ok (Delim c), d') \<and> decoder_at d' r (ended t) stk rest"
proof -
  have "\<not> is_ascii_whitespace c" using assms(3) by auto
  from peek_or_eof_at [OF assms(1,2) this] obtain d1 where d1: "peek_or_eof d = (Ok c, d1)" "decoder_at d1 (c # r) ts (t # stk) rest"
      "decoder_at (advance_scanp 1 d1) r ts (t # stk) rest" by blast
  have "decoder_at (token_value_end ((advance_scanp 1 d1)\<lparr>dec_token_state := t, dec_token_stack := stk\<rparr>)) r (ended t) stk rest"
    using d1(3) by (auto simp: decoder_at_def token_value_end_def in_range_def unread_def view_input split: TokenState.split)
  with d1 assms(3) show ?thesis by (auto simp: token.simps [of fs d] pop_token_def decoder_at_def)
qed

section \<open>Responses\<close>

text \<open>
  The text of a response: an object whose attributes are given with the white space around their
  parts, one of them holding the array of rows.
\<close>

record attr =
  a_pre :: bytes
  a_key :: bytes
  a_colon1 :: bytes
  a_colon2 :: bytes
  a_value :: bytes
  a_post :: bytes

definition quoted :: "bytes \<Rightarrow> bytes" where
  "quoted k = 0x22 # k @ [0x22]"

definition attr_text :: "attr \<Rightarrow> bytes" where
  "attr_text a = a_pre a @ quoted (a_key a) @ a_colon1 a @ 0x3a # a_colon2 a @ a_value a @ a_post a"

definition attr_ok :: "attr \<Rightarrow> bool" where
  "attr_ok a \<longleftrightarrow> blanks (a_pre a) \<and> string_body (a_key a) \<and> blanks (a_colon1 a) \<and> blanks (a_colon2 a)
    \<and> json_value (a_value a) \<and> blanks (a_post a)"

text \<open>What \<^verbatim>\<open>serde_json\<close> makes of an attribute.\<close>

definition attr_means :: "(bytes \<Rightarrow> string + string) \<Rightarrow> (bytes \<Rightarrow> string + 'v) \<Rightarrow> attr \<Rightarrow> string \<times> 'v \<Rightarrow> bool" where
  "attr_means fs fv a p \<longleftrightarrow> fs (quoted (a_key a)) = Inr (fst p) \<and> fv (a_value a) = Inr (snd p)"

definition insert_attrs :: "(string \<rightharpoonup> 'v) \<Rightarrow> (string \<times> 'v) list \<Rightarrow> string \<rightharpoonup> 'v" where
  "insert_attrs m ps = foldl (\<lambda>m (k, x). m(k \<mapsto> x)) m ps"

definition separator :: "TokenState \<Rightarrow> bytes \<Rightarrow> bool" where
  "separator ts l \<longleftrightarrow> ts = ObjectStart \<and> l = [] \<or> ts = ObjectComma \<and> (\<exists>w. blanks w \<and> l = w @ [0x2c])"

definition closes :: "bytes \<Rightarrow> bool" where
  "closes r \<longleftrightarrow> (\<exists>c t. r = c # t \<and> (c = 0x2c \<or> c = 0x5d \<or> c = 0x7d))"

lemma closes_stops: "closes r \<Longrightarrow> blanks w \<Longrightarrow> number_stops (w @ r) \<and> w @ r \<noteq> []"
  by (auto simp: closes_def intro: number_stops_blanks)

lemma key_read:
  assumes "separator ts l" and "decoder_at d (l @ w @ quoted k @ r) ts stk rest" and "blanks w" and "string_body k"
    and "r \<noteq> []" and "fs (quoted k) = Inr name"
  shows "\<exists>d'. token fs d = (Ok (TokenString name), d') \<and> decoder_at d' r ObjectColon stk rest"
proof (cases "ts = ObjectStart")
  case True
  with assms show ?thesis using token_key_at [of d w k r ts stk rest fs name] by (auto simp: separator_def quoted_def)
next
  case False
  then obtain w0 where w0: "ts = ObjectComma" "blanks w0" "l = w0 @ [0x2c]" using assms(1) by (auto simp: separator_def)
  with assms(2) obtain d1 where d1: "token fs d = token fs d1" "decoder_at d1 (w @ quoted k @ r) ObjectKey stk rest"
    using token_separated [of d w0 "0x2c" "w @ quoted k @ r" ts stk rest ObjectKey fs] by auto
  then show ?thesis using token_key_at [of d1 w k r ObjectKey stk rest fs name] assms(3-) by (auto simp: quoted_def)
qed

lemma key_more:
  assumes "separator ts l" and "decoder_at d (l @ w @ quoted k @ r) ts stk rest" and "blanks w"
  shows "\<exists>d' l' w'. more_tokens d = (True, d') \<and> separator ts l' \<and> blanks w' \<and> decoder_at d' (l' @ w' @ quoted k @ r) ts stk rest"
proof (cases "ts = ObjectStart")
  case True
  with assms have "decoder_at d (w @ 0x22 # k @ 0x22 # r) ts stk rest" by (auto simp: separator_def quoted_def)
  from more_at [OF this assms(3)] True show ?thesis
    by (auto simp: separator_def quoted_def intro!: exI [of _ "[]"])
next
  case False
  then obtain w0 where w0: "ts = ObjectComma" "blanks w0" "l = w0 @ [0x2c]" using assms(1) by (auto simp: separator_def)
  with assms(2) have "decoder_at d (w0 @ 0x2c # w @ quoted k @ r) ts stk rest" by simp
  from more_at [OF this w0(2)] obtain d' where "more_tokens d = (True, d')" "decoder_at d' (0x2c # w @ quoted k @ r) ts stk rest" by auto
  with w0(1) assms(3) show ?thesis by (intro exI [of _ d'] exI [of _ "[0x2c]"] exI [of _ w]) (auto simp: separator_def)
qed

lemma read_attribute_at:
  assumes "decoder_at (rs_stream s) (a_colon1 a @ 0x3a # a_colon2 a @ a_value a @ a_post a @ r) ObjectColon stk rest"
    and "attr_ok a" and "closes r" and "fv (a_value a) = Inr x"
  shows "\<exists>d'. read_attribute fv key s = (Ok (), s\<lparr>rs_stream := d', rs_attribs := (rs_attribs s)(key \<mapsto> x)\<rparr>)
    \<and> decoder_at d' (a_post a @ r) ObjectComma stk rest"
proof -
  obtain d' where "decode (rs_stream s) = (Ok (a_value a), d')" "decoder_at d' (a_post a @ r) ObjectComma stk rest"
    using decode_separated_at [OF assms(1)] assms(2) closes_stops [OF assms(3), of "a_post a"] by (auto simp: attr_ok_def)
  with assms(4) show ?thesis by (auto simp: read_attribute_def on_stream_def dec_then_def)
qed

section \<open>The prelude of a response\<close>

lemma begin_attr:
  assumes "separator ts l" and "decoder_at (rs_stream s) (l @ attr_text a @ 0x2c # r) ts stk rest" and "attr_ok a"
    and "attr_means fs fv a (name, x)" and "name \<noteq> rs_rows_attrib s"
  shows "\<exists>d' l'. begin_loop fs fv s = begin_loop fs fv (s\<lparr>rs_stream := d', rs_attribs := (rs_attribs s)(name \<mapsto> x)\<rparr>)
    \<and> separator ObjectComma l' \<and> decoder_at d' (l' @ r) ObjectComma stk rest"
proof -
  let ?r = "a_colon1 a @ 0x3a # a_colon2 a @ a_value a @ a_post a @ 0x2c # r"
  have ok: "blanks (a_pre a)" "string_body (a_key a)" "blanks (a_post a)" using assms(3) by (simp_all add: attr_ok_def)
  have "decoder_at (rs_stream s) (l @ a_pre a @ quoted (a_key a) @ ?r) ts stk rest" using assms(2) by (simp add: attr_text_def)
  from key_more [OF assms(1) this ok(1)] obtain d1 l1 w1 where m: "more_tokens (rs_stream s) = (True, d1)" "separator ts l1" "blanks w1"
      "decoder_at d1 (l1 @ w1 @ quoted (a_key a) @ ?r) ts stk rest" by blast
  from key_read [OF m(2,4,3) ok(2)] assms(4) obtain d2 where t: "token fs d1 = (Ok (TokenString name), d2)"
      "decoder_at d2 ?r ObjectColon stk rest" by (auto simp: attr_means_def)
  let ?s = "s\<lparr>rs_stream := d2\<rparr>"
  from t(2) have "decoder_at (rs_stream ?s) ?r ObjectColon stk rest" by simp
  from read_attribute_at [OF this assms(3), of fv x name] assms(4) obtain d3 where
    v: "read_attribute fv name ?s = (Ok (), s\<lparr>rs_stream := d3, rs_attribs := (rs_attribs s)(name \<mapsto> x)\<rparr>)"
      "decoder_at d3 (a_post a @ 0x2c # r) ObjectComma stk rest" by (auto simp: attr_means_def closes_def)
  have "begin_step fs fv s = (Ok True, s\<lparr>rs_stream := d3, rs_attribs := (rs_attribs s)(name \<mapsto> x)\<rparr>)"
    using m(1) t(1) v(1) assms(5) by (simp add: begin_step_def on_stream_def dec_then_def)
  then have "begin_loop fs fv s = begin_loop fs fv (s\<lparr>rs_stream := d3, rs_attribs := (rs_attribs s)(name \<mapsto> x)\<rparr>)"
    by (subst begin_loop.simps) simp
  moreover have "separator ObjectComma (a_post a @ [0x2c])" using ok(3) by (auto simp: separator_def)
  moreover have "decoder_at d3 ((a_post a @ [0x2c]) @ r) ObjectComma stk rest" using v(2) by simp
  ultimately show ?thesis by blast
qed

lemma begin_attrs:
  assumes "list_all2 (attr_means fs fv) xs ps" and "list_all attr_ok xs" and "\<forall>p\<in>set ps. fst p \<noteq> rs_rows_attrib s"
    and "separator ts l" and "decoder_at (rs_stream s) (l @ concat (map (\<lambda>a. attr_text a @ [0x2c]) xs) @ r) ts stk rest"
  shows "\<exists>d' ts' l'. begin_loop fs fv s = begin_loop fs fv (s\<lparr>rs_stream := d', rs_attribs := insert_attrs (rs_attribs s) ps\<rparr>)
    \<and> separator ts' l' \<and> decoder_at d' (l' @ r) ts' stk rest"
  using assms
proof (induction xs ps arbitrary: s ts l rule: list_all2_induct)
  case Nil
  then show ?case by (intro exI [of _ "rs_stream s"]) (auto simp: insert_attrs_def)
next
  case (Cons a xs p ps)
  obtain name x where p: "p = (name, x)" by fastforce
  have "decoder_at (rs_stream s) (l @ attr_text a @ 0x2c # concat (map (\<lambda>a. attr_text a @ [0x2c]) xs) @ r) ts stk rest"
    using Cons.prems(4) by simp
  from begin_attr [OF Cons.prems(3) this, of fs fv name x] Cons.hyps Cons.prems(1,2) p obtain d1 l1 where
    1: "begin_loop fs fv s = begin_loop fs fv (s\<lparr>rs_stream := d1, rs_attribs := (rs_attribs s)(name \<mapsto> x)\<rparr>)"
      "separator ObjectComma l1" "decoder_at d1 (l1 @ concat (map (\<lambda>a. attr_text a @ [0x2c]) xs) @ r) ObjectComma stk rest" by auto
  let ?s = "s\<lparr>rs_stream := d1, rs_attribs := (rs_attribs s)(name \<mapsto> x)\<rparr>"
  have "\<exists>d' ts' l'. begin_loop fs fv ?s = begin_loop fs fv (?s\<lparr>rs_stream := d', rs_attribs := insert_attrs (rs_attribs ?s) ps\<rparr>)
      \<and> separator ts' l' \<and> decoder_at d' (l' @ r) ts' stk rest"
    by (rule Cons.IH [of _ ObjectComma l1]) (use Cons.prems 1 in auto)
  with 1(1) p show ?case by (simp add: insert_attrs_def)
qed

section \<open>Rows\<close>

type_synonym row = "bytes \<times> bytes \<times> bytes"

definition row_value :: "row \<Rightarrow> bytes" where
  "row_value r = fst (snd r)"

fun rows_text :: "row list \<Rightarrow> bytes" where
  "rows_text [] = []"
| "rows_text [(w, v, w')] = w @ v @ w'"
| "rows_text ((w, v, w') # rs) = w @ v @ w' @ 0x2c # rows_text rs"

definition row_ok :: "row \<Rightarrow> bool" where
  "row_ok = (\<lambda>(w, v, w'). blanks w \<and> json_value v \<and> blanks w')"

definition row_lead :: "TokenState \<Rightarrow> bytes \<Rightarrow> bool" where
  "row_lead ts l \<longleftrightarrow> ts = ArrayStart \<and> l = [] \<or> ts = ArrayComma \<and> l = [0x2c]"

lemma row_decoded:
  assumes "row_lead ts l" and "decoder_at d (l @ w @ v @ w' @ r) ts stk rest" and "row_ok (w, v, w')" and "closes r"
  shows "\<exists>d'. decode d = (Ok v, d') \<and> decoder_at d' (w' @ r) ArrayComma stk rest"
  using assms(1) unfolding row_lead_def
proof (elim disjE conjE)
  assume "ts = ArrayStart" "l = []"
  with assms closes_stops [OF assms(4), of w'] show ?thesis
    using decode_at [of d w v "w' @ r" ts stk rest] by (auto simp: row_ok_def)
next
  assume "ts = ArrayComma" "l = [0x2c]"
  with assms closes_stops [OF assms(4), of w'] show ?thesis
    using decode_separated_at [of d "[]" "0x2c" w v "w' @ r" ts stk rest] by (auto simp: row_ok_def)
qed

lemma next_row_comma:
  assumes "row_lead ts l" and "decoder_at (rs_stream s) (l @ w @ v @ w' @ 0x2c # r) ts stk rest" and "row_ok (w, v, w')"
  shows "\<exists>d'. next_row fs s = (Ok (Row v), s\<lparr>rs_stream := d'\<rparr>) \<and> decoder_at d' (0x2c # r) ArrayComma stk rest"
proof -
  from row_decoded [OF assms] obtain d1 where d1: "decode (rs_stream s) = (Ok v, d1)" "decoder_at d1 (w' @ 0x2c # r) ArrayComma stk rest"
    by (auto simp: closes_def)
  from more_at [OF d1(2)] assms(3) obtain d2 where "more_tokens d1 = (True, d2)" "decoder_at d2 (0x2c # r) ArrayComma stk rest"
    by (auto simp: row_ok_def)
  with d1(1) show ?thesis by (auto simp: next_row_def on_stream_def dec_then_def)
qed

lemma next_row_close:
  assumes "row_lead ts l" and "decoder_at (rs_stream s) (l @ w @ v @ w' @ 0x5d # r) ts (ObjectValue # stk) rest" and "row_ok (w, v, w')"
  shows "\<exists>d'. next_row fs s = (Ok (Row v), s\<lparr>rs_stream := d', rs_state := RowsPostRows\<rparr>) \<and> decoder_at d' r ObjectComma stk rest"
proof -
  from row_decoded [OF assms] obtain d1 where d1: "decode (rs_stream s) = (Ok v, d1)"
      "decoder_at d1 (w' @ 0x5d # r) ArrayComma (ObjectValue # stk) rest"
    by (auto simp: closes_def)
  from more_at [OF d1(2)] assms(3) obtain d2 where d2: "more_tokens d1 = (False, d2)"
      "decoder_at d2 (0x5d # r) ArrayComma (ObjectValue # stk) rest" by (auto simp: row_ok_def)
  from token_close_at [of d2 "[]" "0x5d" r ArrayComma ObjectValue stk rest fs] d2(2) obtain d3 where
    "token fs d2 = (Ok (Delim 0x5d), d3)" "decoder_at d3 r ObjectComma stk rest" by auto
  with d1(1) d2(1) show ?thesis by (auto simp: next_row_def on_stream_def dec_then_def)
qed

lemma next_item_row:
  "rs_state s = RowsRows \<Longrightarrow> next_row fs s = (Ok x, s') \<Longrightarrow> next_item fs fv tv s = Some (Some (Ok x), s')"
  by (simp add: next_item_def next_loop.simps [of fs fv tv s])

lemma rows_delivered:
  assumes "rows \<noteq> []" and "list_all row_ok rows" and "rs_state s = RowsRows" and "row_lead ts l"
    and "decoder_at (rs_stream s) (l @ rows_text rows @ 0x5d # r) ts (ObjectValue # stk) rest"
  shows "\<exists>d'. row_items fs fv tv (length rows) s
      = Some (map (\<lambda>v. Some (Ok (Row v))) (map row_value rows), s\<lparr>rs_stream := d', rs_state := RowsPostRows\<rparr>)
    \<and> decoder_at d' r ObjectComma stk rest"
  using assms
proof (induction rows arbitrary: s ts l rule: rows_text.induct)
  case (2 w v w')
  with next_row_close [of ts l s w v w' r stk rest fs] show ?case
    by (auto simp: next_item_row row_value_def)
next
  case (3 w v w' x xs)
  have txt_eq: "rows_text ((w, v, w') # x # xs) = w @ v @ w' @ 0x2c # rows_text (x # xs)" by simp
  from next_row_comma [of ts l s w v w' "rows_text (x # xs) @ 0x5d # r" "ObjectValue # stk" rest fs] 3(3,5,6)
  obtain d1 where d1: "next_row fs s = (Ok (Row v), s\<lparr>rs_stream := d1\<rparr>)"
      "decoder_at d1 (0x2c # rows_text (x # xs) @ 0x5d # r) ArrayComma (ObjectValue # stk) rest" by (auto simp: txt_eq)
  let ?s = "s\<lparr>rs_stream := d1\<rparr>"
  have "\<exists>d'. row_items fs fv tv (length (x # xs)) ?s
      = Some (map (\<lambda>v. Some (Ok (Row v))) (map row_value (x # xs)), ?s\<lparr>rs_stream := d', rs_state := RowsPostRows\<rparr>)
    \<and> decoder_at d' r ObjectComma stk rest"
    by (rule 3(1) [of _ ArrayComma "[0x2c]"]) (use 3 d1 in \<open>auto simp: row_lead_def\<close>)
  then obtain d' where d': "row_items fs fv tv (length (x # xs)) ?s
      = Some (map (\<lambda>v. Some (Ok (Row v))) (map row_value (x # xs)), ?s\<lparr>rs_stream := d', rs_state := RowsPostRows\<rparr>)"
    "decoder_at d' r ObjectComma stk rest" by blast
  with next_item_row [OF 3(4) d1(1)] show ?case by (intro exI [of _ d']) (simp add: row_value_def)
qed simp

section \<open>The attributes behind the rows\<close>

lemma post_attr:
  assumes "blanks e" and "decoder_at (rs_stream s) (e @ 0x2c # attr_text a @ r) ObjectComma stk rest" and "attr_ok a" and "closes r"
    and "attr_means fs fv a (name, x)" and "rs_state s = RowsPostRows"
  shows "\<exists>d'. next_loop fs fv tv s = next_loop fs fv tv (s\<lparr>rs_stream := d', rs_attribs := (rs_attribs s)(name \<mapsto> x)\<rparr>)
    \<and> decoder_at d' (a_post a @ r) ObjectComma stk rest"
proof -
  let ?r = "a_colon1 a @ 0x3a # a_colon2 a @ a_value a @ a_post a @ r"
  have ok: "blanks (a_pre a)" "string_body (a_key a)" using assms(3) by (simp_all add: attr_ok_def)
  have "separator ObjectComma (e @ [0x2c])" using assms(1) by (auto simp: separator_def)
  moreover have "decoder_at (rs_stream s) ((e @ [0x2c]) @ a_pre a @ quoted (a_key a) @ ?r) ObjectComma stk rest"
    using assms(2) by (simp add: attr_text_def)
  ultimately obtain d2 where t: "token fs (rs_stream s) = (Ok (TokenString name), d2)" "decoder_at d2 ?r ObjectColon stk rest"
    using key_read [of ObjectComma "e @ [0x2c]" "rs_stream s" "a_pre a" "a_key a" ?r stk rest fs name] ok assms(5)
    by (auto simp: attr_means_def)
  let ?s = "s\<lparr>rs_stream := d2\<rparr>"
  from t(2) have "decoder_at (rs_stream ?s) ?r ObjectColon stk rest" by simp
  from read_attribute_at [OF this assms(3,4), of fv x name] assms(5) obtain d3 where
    v: "read_attribute fv name ?s = (Ok (), s\<lparr>rs_stream := d3, rs_attribs := (rs_attribs s)(name \<mapsto> x)\<rparr>)"
      "decoder_at d3 (a_post a @ r) ObjectComma stk rest" by (auto simp: attr_means_def)
  have "post_step fs fv tv s = (Ok None, s\<lparr>rs_stream := d3, rs_attribs := (rs_attribs s)(name \<mapsto> x)\<rparr>)"
    using t(1) v(1) by (simp add: post_step_def on_stream_def dec_then_def)
  with assms(6) have "next_loop fs fv tv s = next_loop fs fv tv (s\<lparr>rs_stream := d3, rs_attribs := (rs_attribs s)(name \<mapsto> x)\<rparr>)"
    by (subst next_loop.simps) simp
  with v(2) show ?thesis by blast
qed

lemma post_attrs:
  assumes "list_all2 (attr_means fs fv) xs ps" and "list_all attr_ok xs" and "rs_state s = RowsPostRows" and "blanks e"
    and "decoder_at (rs_stream s) (e @ concat (map (\<lambda>a. 0x2c # attr_text a) xs) @ 0x7d # z) ObjectComma stk rest"
  shows "\<exists>d' e'. next_loop fs fv tv s = next_loop fs fv tv (s\<lparr>rs_stream := d', rs_attribs := insert_attrs (rs_attribs s) ps\<rparr>)
    \<and> blanks e' \<and> decoder_at d' (e' @ 0x7d # z) ObjectComma stk rest"
  using assms
proof (induction xs ps arbitrary: s e rule: list_all2_induct)
  case Nil
  then show ?case by (intro exI [of _ "rs_stream s"] exI [of _ e]) (simp add: insert_attrs_def)
next
  case (Cons a xs p ps)
  obtain name x where p: "p = (name, x)" by fastforce
  let ?r = "concat (map (\<lambda>a. 0x2c # attr_text a) xs) @ 0x7d # z"
  have "closes ?r" by (cases xs) (auto simp: closes_def)
  moreover have "decoder_at (rs_stream s) (e @ 0x2c # attr_text a @ ?r) ObjectComma stk rest" using Cons.prems(4) by simp
  ultimately obtain d1 where
    1: "next_loop fs fv tv s = next_loop fs fv tv (s\<lparr>rs_stream := d1, rs_attribs := (rs_attribs s)(name \<mapsto> x)\<rparr>)"
      "decoder_at d1 (a_post a @ ?r) ObjectComma stk rest"
    using post_attr [of e s a ?r stk rest fs fv name x tv] Cons.hyps Cons.prems(1-3) p by auto
  let ?s = "s\<lparr>rs_stream := d1, rs_attribs := (rs_attribs s)(name \<mapsto> x)\<rparr>"
  have "\<exists>d' e'. next_loop fs fv tv ?s = next_loop fs fv tv (?s\<lparr>rs_stream := d', rs_attribs := insert_attrs (rs_attribs ?s) ps\<rparr>)
      \<and> blanks e' \<and> decoder_at d' (e' @ 0x7d # z) ObjectComma stk rest"
    by (rule Cons.IH [of _ "a_post a"]) (use Cons.prems 1 in \<open>auto simp: attr_ok_def\<close>)
  with 1(1) p show ?case by (simp add: insert_attrs_def)
qed

lemma metadata_item:
  assumes "blanks e" and "decoder_at (rs_stream s) (e @ 0x7d # z) ObjectComma (TopValue # stk) rest"
    and "rs_state s = RowsPostRows" and "tv (rs_attribs s) = Inr b"
  shows "\<exists>d'. next_loop fs fv tv s = Some (Ok (Metadata b), s\<lparr>rs_stream := d', rs_state := RowsEnd\<rparr>)"
proof -
  from token_close_at [OF assms(2,1)] obtain d' where "token fs (rs_stream s) = (Ok (Delim 0x7d), d')" by auto
  with assms(4) have "post_step fs fv tv s = (Ok (Some (Metadata b)), s\<lparr>rs_stream := d', rs_state := RowsEnd\<rparr>)"
    by (simp add: post_step_def on_stream_def dec_then_def encode_attribs_def Let_def)
  with assms(3) show ?thesis by (intro exI [of _ d']) (simp add: next_loop.simps [of fs fv tv s])
qed

section \<open>Whole responses\<close>

definition rows_attr :: "attr \<Rightarrow> row list \<Rightarrow> attr" where
  "rows_attr ra rows = ra\<lparr>a_value := 0x5b # rows_text rows @ [0x5d]\<rparr>"

definition response_text :: "bytes \<Rightarrow> attr list \<Rightarrow> attr \<Rightarrow> row list \<Rightarrow> attr list \<Rightarrow> bytes \<Rightarrow> bytes" where
  "response_text w pre ra rows post z =
    w @ 0x7b # concat (map (\<lambda>a. attr_text a @ [0x2c]) pre) @ attr_text (rows_attr ra rows)
      @ concat (map (\<lambda>a. 0x2c # attr_text a) post) @ 0x7d # z"

definition rows_attr_ok :: "(bytes \<Rightarrow> string + string) \<Rightarrow> string \<Rightarrow> attr \<Rightarrow> bool" where
  "rows_attr_ok fs name ra \<longleftrightarrow> blanks (a_pre ra) \<and> string_body (a_key ra) \<and> blanks (a_colon1 ra) \<and> blanks (a_colon2 ra)
    \<and> blanks (a_post ra) \<and> fs (quoted (a_key ra)) = Inr name"

lemma begin_rows_found:
  assumes "separator ts l" and "rows_attr_ok fs (rs_rows_attrib s) ra" and "rows \<noteq> []" and "list_all row_ok rows"
    and "decoder_at (rs_stream s) (l @ attr_text (rows_attr ra rows) @ r) ts stk rest"
  shows "\<exists>d' rows'. begin_loop fs fv s = Some (Ok (), s\<lparr>rs_stream := d', rs_state := RowsRows\<rparr>)
    \<and> list_all row_ok rows' \<and> length rows' = length rows \<and> map row_value rows' = map row_value rows
    \<and> decoder_at d' (rows_text rows' @ 0x5d # a_post ra @ r) ArrayStart (ObjectValue # stk) rest"
proof -
  obtain w v w' xs where rows: "rows = (w, v, w') # xs" using assms(3) by (metis list.exhaust prod_cases3)
  have ok: "blanks w" "json_value v" "blanks w'" "list_all row_ok xs" using assms(4) rows by (auto simp: row_ok_def)
  obtain c t where v: "v = c # t" "\<not> is_ascii_whitespace c" "c \<noteq> 0x5d" using json_value_start [OF ok(2)] by blast
  have c: "c \<noteq> 0x7d" using ok(2) v(1)
    by (auto elim!: json_value.cases json_number.cases magnitude.cases simp: is_ascii_digit_def)
  let ?rows' = "([], v, w') # xs"
  obtain u where u: "rows_text rows = w @ v @ u" "rows_text ?rows' = v @ u" using rows by (cases xs) auto
  let ?in = "u @ 0x5d # a_post ra @ r"
  let ?r = "a_colon1 ra @ 0x3a # a_colon2 ra @ 0x5b # w @ v @ ?in"
  note ra = assms(2) [unfolded rows_attr_ok_def]
  have "decoder_at (rs_stream s) (l @ a_pre ra @ quoted (a_key ra) @ ?r) ts stk rest"
    using assms(5) by (simp add: attr_text_def rows_attr_def u)
  from key_more [OF assms(1) this] ra obtain d1 l1 w1 where m: "more_tokens (rs_stream s) = (True, d1)" "separator ts l1" "blanks w1"
      "decoder_at d1 (l1 @ w1 @ quoted (a_key ra) @ ?r) ts stk rest" by blast
  from key_read [OF m(2,4,3)] ra obtain d2 where t: "token fs d1 = (Ok (TokenString (rs_rows_attrib s)), d2)"
      "decoder_at d2 ?r ObjectColon stk rest" by auto
  from token_separated [OF t(2), of ObjectValue fs] ra obtain d3 where d3: "token fs d2 = token fs d3"
      "decoder_at d3 (a_colon2 ra @ 0x5b # w @ v @ ?in) ObjectValue stk rest" by auto
  from token_open_at [OF d3(2), of ArrayStart fs] ra obtain d4 where d4: "token fs d3 = (Ok (Delim 0x5b), d4)"
      "decoder_at d4 (w @ v @ ?in) ArrayStart (ObjectValue # stk) rest" by auto
  from more_at [of d4 w c "t @ ?in" ArrayStart "ObjectValue # stk" rest] d4(2) ok(1) v c obtain d5 where d5: "more_tokens d4 = (True, d5)"
      "decoder_at d5 (v @ ?in) ArrayStart (ObjectValue # stk) rest" by auto
  have "begin_step fs fv s = (Ok False, s\<lparr>rs_stream := d5, rs_state := RowsRows\<rparr>)"
    using m(1) t(1) d3(1) d4(1) d5(1) by (simp add: begin_step_def begin_rows_def begin_rows_open_def on_stream_def dec_then_def)
  then have "begin_loop fs fv s = Some (Ok (), s\<lparr>rs_stream := d5, rs_state := RowsRows\<rparr>)" by (simp add: begin_loop.simps [of fs fv s])
  moreover have "list_all row_ok ?rows'" using ok by (simp add: row_ok_def)
  moreover have "decoder_at d5 (rows_text ?rows' @ 0x5d # a_post ra @ r) ArrayStart (ObjectValue # stk) rest" using d5(2) u by simp
  ultimately show ?thesis using rows by (intro exI [of _ d5] exI [of _ ?rows']) (simp add: row_value_def)
qed

text \<open>The end of the streamer's work: the metadata, and nothing behind it.\<close>

lemma items_after_rows:
  assumes "list_all2 (attr_means fs fv) xs ps" and "list_all attr_ok xs" and "rs_state s = RowsPostRows" and "blanks e"
    and "decoder_at (rs_stream s) (e @ concat (map (\<lambda>a. 0x2c # attr_text a) xs) @ 0x7d # z) ObjectComma (TopValue # stk) rest"
    and "tv (insert_attrs (rs_attribs s) ps) = Inr b"
  shows "\<exists>s'. row_items fs fv tv 2 s = Some ([Some (Ok (Metadata b)), None], s')"
proof -
  from post_attrs [OF assms(1-5), of tv] obtain d' e' where
    1: "next_loop fs fv tv s = next_loop fs fv tv (s\<lparr>rs_stream := d', rs_attribs := insert_attrs (rs_attribs s) ps\<rparr>)"
      "blanks e'" "decoder_at d' (e' @ 0x7d # z) ObjectComma (TopValue # stk) rest" by blast
  let ?s = "s\<lparr>rs_stream := d', rs_attribs := insert_attrs (rs_attribs s) ps\<rparr>"
  from metadata_item [of e' ?s z stk rest tv b fs fv] 1 assms(3,6) obtain d2 where
    "next_loop fs fv tv s = Some (Ok (Metadata b), ?s\<lparr>rs_stream := d2, rs_state := RowsEnd\<rparr>)" by auto
  with assms(3) show ?thesis by (simp add: numeral_2_eq_2 next_item_def)
qed

lemma row_items_append:
  "row_items fs fv tv n s = Some (xs, s') \<Longrightarrow> row_items fs fv tv m s' = Some (ys, s'')
    \<Longrightarrow> row_items fs fv tv (n + m) s = Some (xs @ ys, s'')"
  by (induction n arbitrary: s xs) (auto split: option.splits)

lemma streamer_new_sel [simp]:
  "rs_rows_attrib (streamer_new d name) = name" "rs_attribs (streamer_new d name) = Map.empty"
  by (simp_all add: streamer_new_def)

lemma decoder_new_at: "decoder_at (decoder_new (map Inr chunks)) (concat chunks) TopValue [] []"
proof -
  have "chunk_bytes (map Inr chunks) = concat chunks" "chunk_tail (map Inr chunks :: (HttpErrorKind + bytes) list) = []"
    by (induction chunks) simp_all
  then show ?thesis by (simp add: decoder_at_def decoder_new_def in_range_def unread_def view_input)
qed

lemma begin_stream_opened:
  assumes "decoder_at d (w @ 0x7b # r) TopValue stk rest" and "blanks w"
  shows "\<exists>d'. begin_stream fs fv (streamer_new d name) = begin_loop fs fv ((streamer_new d name)\<lparr>rs_stream := d'\<rparr>)
    \<and> decoder_at d' r ObjectStart (TopValue # stk) rest"
  using token_open_at [OF assms, of ObjectStart fs] by (auto simp: begin_stream_def streamer_new_def on_stream_def)

text \<open>Reading the prelude of a response stops in front of its rows; from there the rows come, and the metadata.\<close>

lemma prelude_read:
  assumes "concat chunks = response_text w pre ra rows post z" and "blanks w" and "rows_attr_ok fs name ra"
    and "rows \<noteq> []" and "list_all row_ok rows" and "list_all attr_ok pre"
    and "list_all2 (attr_means fs fv) pre ps" and "name \<notin> fst ` set ps"
  shows "\<exists>s rows'. begin_stream fs fv (streamer_new (decoder_new (map Inr chunks)) name) = Some (Ok (), s)
    \<and> rs_state s = RowsRows \<and> rs_attribs s = insert_attrs Map.empty ps
    \<and> list_all row_ok rows' \<and> length rows' = length rows \<and> map row_value rows' = map row_value rows
    \<and> decoder_at (rs_stream s) (rows_text rows' @ 0x5d # a_post ra @ concat (map (\<lambda>a. 0x2c # attr_text a) post) @ 0x7d # z)
        ArrayStart [ObjectValue, TopValue] []"
proof -
  let ?S = "streamer_new (decoder_new (map Inr chunks)) name"
  let ?post = "concat (map (\<lambda>a. 0x2c # attr_text a) post) @ 0x7d # z"
  have "decoder_at (decoder_new (map Inr chunks)) (response_text w pre ra rows post z) TopValue [] []"
    using decoder_new_at [of chunks] assms(1) by simp
  from begin_stream_opened [OF this [unfolded response_text_def] assms(2)] obtain d1 where
    1: "begin_stream fs fv ?S = begin_loop fs fv (?S\<lparr>rs_stream := d1\<rparr>)"
      "decoder_at d1 ([] @ concat (map (\<lambda>a. attr_text a @ [0x2c]) pre) @ attr_text (rows_attr ra rows) @ ?post) ObjectStart [TopValue] []"
    by (metis append_Nil)
  let ?s1 = "?S\<lparr>rs_stream := d1\<rparr>"
  have "\<exists>d' ts' l'. begin_loop fs fv ?s1 = begin_loop fs fv (?s1\<lparr>rs_stream := d', rs_attribs := insert_attrs (rs_attribs ?s1) ps\<rparr>)
      \<and> separator ts' l' \<and> decoder_at d' (l' @ attr_text (rows_attr ra rows) @ ?post) ts' [TopValue] []"
    by (rule begin_attrs [OF assms(7,6)]) (use 1(2) assms(8) in \<open>force simp: separator_def\<close>)+
  then obtain d2 ts l where 2: "begin_loop fs fv ?s1 = begin_loop fs fv (?s1\<lparr>rs_stream := d2, rs_attribs := insert_attrs Map.empty ps\<rparr>)"
      "separator ts l" "decoder_at d2 (l @ attr_text (rows_attr ra rows) @ ?post) ts [TopValue] []" by auto
  let ?s2 = "?s1\<lparr>rs_stream := d2, rs_attribs := insert_attrs Map.empty ps\<rparr>"
  from begin_rows_found [OF 2(2), of fs ?s2 ra rows ?post "[TopValue]" "[]" fv] 2(3) assms(3-5) obtain d3 rows' where
    3: "begin_loop fs fv ?s2 = Some (Ok (), ?s2\<lparr>rs_stream := d3, rs_state := RowsRows\<rparr>)" "list_all row_ok rows'"
      "length rows' = length rows" "map row_value rows' = map row_value rows"
      "decoder_at d3 (rows_text rows' @ 0x5d # a_post ra @ ?post) ArrayStart [ObjectValue, TopValue] []" by auto
  then show ?thesis
    using 1(1) 2(1) by (intro exI [of _ "?s2\<lparr>rs_stream := d3, rs_state := RowsRows\<rparr>"] exI [of _ rows']) simp
qed

lemma rows_and_metadata:
  assumes "rows \<noteq> []" and "list_all row_ok rows" and "blanks e" and "list_all attr_ok post"
    and "list_all2 (attr_means fs fv) post qs" and "rs_state s = RowsRows"
    and "decoder_at (rs_stream s) (rows_text rows @ 0x5d # e @ concat (map (\<lambda>a. 0x2c # attr_text a) post) @ 0x7d # z)
        ArrayStart [ObjectValue, TopValue] []"
    and "tv (insert_attrs (rs_attribs s) qs) = Inr b"
  shows "\<exists>s'. row_items fs fv tv (length rows + 2) s
    = Some (map (\<lambda>v. Some (Ok (Row v))) (map row_value rows) @ [Some (Ok (Metadata b)), None], s')"
proof -
  let ?post = "concat (map (\<lambda>a. 0x2c # attr_text a) post) @ 0x7d # z"
  from rows_delivered [OF assms(1,2), of s ArrayStart "[]" "e @ ?post" "[TopValue]" "[]" fs fv tv] assms(6,7) obtain d4 where
    4: "row_items fs fv tv (length rows) s = Some (map (\<lambda>v. Some (Ok (Row v))) (map row_value rows), s\<lparr>rs_stream := d4, rs_state := RowsPostRows\<rparr>)"
      "decoder_at d4 (e @ ?post) ObjectComma [TopValue] []" by (auto simp: row_lead_def)
  obtain s' where "row_items fs fv tv 2 (s\<lparr>rs_stream := d4, rs_state := RowsPostRows\<rparr>) = Some ([Some (Ok (Metadata b)), None], s')"
    using items_after_rows [OF assms(5,4), of "s\<lparr>rs_stream := d4, rs_state := RowsPostRows\<rparr>" e z "[]" "[]" tv b] 4(2) assms(3,8)
    by auto
  from row_items_append [OF 4(1) this] show ?thesis by blast
qed


lemma string_body_plain: "list_all (\<lambda>c. \<not> c < 0x20 \<and> c \<noteq> 0x22 \<and> c \<noteq> 0x5c) k \<Longrightarrow> string_body k"
  by (induction k) (auto intro: body_end body_plain)


section \<open>Termination\<close>

text \<open>What is left of a stream: its bytes, and one for each transport error.\<close>

definition item_size :: "HttpErrorKind + bytes \<Rightarrow> nat" where
  "item_size x = (case x of Inl _ \<Rightarrow> 1 | Inr b \<Rightarrow> length b)"

definition view_size :: "View \<Rightarrow> nat" where
  "view_size v = length (v_input v) + sum_list (map item_size (v_tail v))"

definition left_over :: "Decoder \<Rightarrow> nat" where
  "left_over d = view_size (view d)"

definition shrinks :: "(Decoder \<Rightarrow> 'a \<times> Decoder) \<Rightarrow> bool" where
  "shrinks f \<longleftrightarrow> (\<forall>d. in_range d \<longrightarrow> in_range (snd (f d)) \<and> left_over (snd (f d)) \<le> left_over d)"

lemma chunk_size: "sum_list (map item_size r) = length (chunk_bytes r) + sum_list (map item_size (chunk_tail r))"
proof (induction r)
  case (Cons x r)
  then show ?case by (cases x) (simp_all add: item_size_def)
qed simp

lemma past_error_size: "v_tail v \<noteq> [] \<Longrightarrow> \<not> isl (hd (v_tail v)) \<or> view_size (past_error v) < view_size v"
  using chunk_size [of "tl (v_tail v)"]
  by (cases "v_tail v") (auto simp: view_size_def past_error_def item_size_def split: sum.split)

lemma view_tail_error: "v_tail (view d) = x # t \<Longrightarrow> isl x"
  by (auto simp: view_def chunk_tail_def dropWhile_eq_Cons_conv)

lemma past_error_le: "v_tail (view d) \<noteq> [] \<Longrightarrow> view_size (past_error (view d)) \<le> view_size (view d)"
  using past_error_size [of "view d"] view_tail_error [of d] by (cases "v_tail (view d)") (auto simp del: view_sel)

lemma peek_or_eof_shrinks: "shrinks peek_or_eof"
  unfolding shrinks_def
proof (intro allI impI)
  fix d
  assume d: "in_range d"
  have "view_peek_or_eof (view d) = (fst (peek_or_eof d), view (snd (peek_or_eof d))) \<and> in_range (snd (peek_or_eof d))"
    by (rule followsD [OF peek_or_eof_follows d]) simp
  moreover have "view_size (snd (view_peek_or_eof (view d))) \<le> view_size (view d)"
    using past_error_le [of d] length_dropWhile_le [of is_ascii_whitespace "v_input (view d)"]
    by (auto simp: view_peek_or_eof_def view_peek_def view_size_def split: list.split simp del: view_sel)
  ultimately show "in_range (snd (peek_or_eof d)) \<and> left_over (snd (peek_or_eof d)) \<le> left_over d"
    by (simp add: left_over_def)
qed

lemma shrinksD: "shrinks f \<Longrightarrow> in_range d \<Longrightarrow> f d = (x, d') \<Longrightarrow> in_range d' \<and> left_over d' \<le> left_over d"
  by (metis shrinks_def snd_conv)

lemma shrinks_bind:
  assumes "shrinks f" and "\<And>x. shrinks (h x)"
  shows "shrinks (\<lambda>d. dec_then (f d) h)"
  unfolding shrinks_def
proof (intro allI impI)
  fix d
  assume d: "in_range d"
  obtain x d1 where f: "f d = (x, d1)" by fastforce
  note d1 = shrinksD [OF assms(1) d f]
  show "in_range (snd (dec_then (f d) h)) \<and> left_over (snd (dec_then (f d) h)) \<le> left_over d"
    using f d1 assms(2) [unfolded shrinks_def, rule_format, of d1] by (cases x) (auto simp: dec_then_def intro: le_trans)
qed

lemma view_read_size:
  assumes "\<forall>x t. v_tail v = x # t \<longrightarrow> isl x"
  shows "view_size (snd (view_read_value v)) \<le> view_size v"
proof -
  have eof: "view_size (snd (view_eof n u)) = view_size u" for n u
    by (auto simp: view_eof_def view_size_def split: result.split)
  have "view_size (past_error v) \<le> view_size v" if "v_tail v \<noteq> []"
    using past_error_size [OF that] assms that by (cases "v_tail v") auto
  then show ?thesis
    by (auto simp: view_read_value_def view_read_from_def eof split: ScanOutcome.split list.split)
      (auto simp: view_size_def past_error_def)
qed

lemma left_over_end: "left_over (token_value_end d) = left_over d"
  by (simp add: left_over_def value_end_view view_size_def view_value_end_def split: TokenState.split)

lemma read_value_shrinks: "shrinks read_value"
  unfolding shrinks_def left_over_def
  using read_value_view view_read_size view_tail_error by (metis prod.collapse snd_conv)

lemma advance_left_over:
  "dec_scanp d + n \<le> length (dec_buf d) \<Longrightarrow> in_range (advance_scanp n d) \<and> left_over (advance_scanp n d) + n = left_over d"
  using view_advance_scanp [of d n] by (simp add: left_over_def view_size_def view_advance_def view_input)

lemma peeked_advance:
  assumes "in_range d" and "peek_or_eof d = (Ok c, d')"
  shows "in_range (advance_scanp 1 d')" and "left_over (advance_scanp 1 d') < left_over d"
proof -
  have "dec_scanp d' + 1 \<le> length (dec_buf d')"
    using assms peek_loop_buffered [of None d c d'] by (auto simp: peek_or_eof_def peek_def split: option.splits prod.splits)
  from advance_left_over [OF this] shrinksD [OF peek_or_eof_shrinks assms]
  show "in_range (advance_scanp 1 d')" "left_over (advance_scanp 1 d') < left_over d" by simp_all
qed

lemma left_over_upd [simp]:
  "left_over (d\<lparr>dec_token_state := t\<rparr>) = left_over d" "left_over (d\<lparr>dec_token_stack := ts\<rparr>) = left_over d"
  by (simp_all add: left_over_def view_size_def)

lemma expect_separator_shrinks: "shrinks (expect_separator sep ts msg)"
  unfolding shrinks_def
proof (intro allI impI)
  fix d
  assume d: "in_range d"
  obtain r d1 where p: "peek_or_eof d = (r, d1)" by fastforce
  show "in_range (snd (expect_separator sep ts msg d)) \<and> left_over (snd (expect_separator sep ts msg d)) \<le> left_over d"
    using p shrinksD [OF peek_or_eof_shrinks d p] peeked_advance [OF d]
    by (cases r) (auto simp: expect_separator_def dec_then_def less_imp_le)
qed

lemma prepare_shrinks: "shrinks token_prepare_for_decode"
  using expect_separator_shrinks by (simp add: shrinks_def token_prepare_for_decode_def split: TokenState.split)

lemma read_decoded_shrinks:
  "shrinks (\<lambda>d. dec_then (read_value d) (\<lambda>n d.
     (Ok (trim_ascii (take n (drop (dec_scanp d) (dec_buf d)))), token_value_end (advance_scanp n d))))"
  unfolding shrinks_def
proof (intro allI impI)
  fix d
  assume d: "in_range d"
  obtain r d1 where p: "read_value d = (r, d1)" by fastforce
  let ?f = "\<lambda>n d. (Ok (trim_ascii (take n (drop (dec_scanp d) (dec_buf d)))), token_value_end (advance_scanp n d))"
  show "in_range (snd (dec_then (read_value d) ?f)) \<and> left_over (snd (dec_then (read_value d) ?f)) \<le> left_over d"
    using p shrinksD [OF read_value_shrinks d p] read_value_view(3) [OF d p] advance_left_over [of d1]
    by (cases r) (fastforce simp: dec_then_def left_over_end value_end_view)+
qed

lemma decode_shrinks: "shrinks decode"
proof -
  let ?k = "\<lambda>d. dec_then (read_value d) (\<lambda>n d.
     (Ok (trim_ascii (take n (drop (dec_scanp d) (dec_buf d)))), token_value_end (advance_scanp n d)))"
  have "shrinks (\<lambda>d. if \<not> token_value_allowed d then (Err (HttpMessage ''not at beginning of value''), d) else ?k d)"
    using read_decoded_shrinks by (simp add: shrinks_def)
  from shrinks_bind [OF prepare_shrinks this] show ?thesis by (simp add: shrinks_def decode_def split: option.split)
qed

lemma view_read_tail: "view_read_value v = (Ok n, v') \<Longrightarrow> v_tail v' = v_tail v"
  by (auto simp: view_read_value_def view_read_from_def view_eof_def
      split: ScanOutcome.splits list.splits if_splits option.splits result.splits prod.splits)

lemma view_end_tail [simp]: "v_tail (view_value_end v) = v_tail v" "v_tail (view_advance n v) = v_tail v"
  by (simp_all add: view_value_end_def view_advance_def split: TokenState.split)

text \<open>A value that was decoded where a byte of it had been seen has used up some of the input.\<close>

lemma decode_uses:
  assumes "in_range d" and "decode d = (Ok x, d')" and "token_value_allowed d" and "unread d = c # r" and "\<not> is_ascii_whitespace c"
  shows "left_over d' < left_over d"
proof -
  have at: "at_value d" using assms by (auto simp: at_value_def decode_def split: option.splits)
  from decode_Ok_value [OF this assms(2)] assms(4,5) obtain w where "unread d = w @ x @ unread d'" "json_value x" by auto
  then have "length (unread d') < length (unread d)" using json_value_start [of x] by auto
  moreover have "view_decode (view d) = (Ok x, view d')" using followsD [OF decode_follows assms(1,2)] by simp
  then obtain n v where "view_read_value (view d) = (Ok n, v)" "view d' = view_value_end (view_advance n v)"
    by (auto simp: view_decode_at_value [OF at] dec_then_def split: prod.splits result.splits)
  with view_read_tail [of "view d" n v] have "v_tail (view d') = v_tail (view d)" by (simp del: view_sel)
  ultimately show ?thesis by (simp add: left_over_def view_size_def unread_def del: view_sel)
qed

lemma token_key_uses:
  assumes "in_range d" and "unread d = c # r" and "\<not> is_ascii_whitespace c" and "token_key fs d = (Ok t, d')"
  shows "left_over d' < left_over d"
proof -
  let ?d = "d\<lparr>dec_token_state := TopValue\<rparr>"
  obtain x d1 where 1: "decode ?d = (Ok x, d1)" "left_over d' = left_over d1"
    using assms(4) by (auto simp: token_key_def dec_then_def split: prod.splits result.splits sum.splits)
  have "left_over d1 < left_over ?d"
    by (rule decode_uses [OF _ 1(1)]) (use assms in \<open>auto simp: token_value_allowed_def unread_def view_input\<close>)
  with 1(2) show ?thesis by simp
qed

lemma token_value_uses:
  assumes "in_range d" and "unread d = c # r" and "\<not> is_ascii_whitespace c" and "token_value b d = (Ok t, d')"
  shows "left_over d' < left_over d"
  using assms decode_uses [of d _ d' c r]
  by (auto simp: token_value_def dec_then_def token_error_def split: if_splits prod.splits result.splits)

lemma push_token_uses:
  "push_token ts c d = (Ok t, d') \<Longrightarrow> left_over d' = left_over (advance_scanp 1 d)"
  by (auto simp: push_token_def token_error_def split: if_splits)

lemma pop_token_uses:
  "pop_token ts ts' c d = (Ok t, d') \<Longrightarrow> left_over d' = left_over (advance_scanp 1 d)"
  by (auto simp: pop_token_def token_error_def left_over_end split: if_splits list.splits)

lemma peeked_unread:
  assumes "in_range d" and "peek_or_eof d = (Ok c, d')"
  shows "\<exists>r. unread d' = c # r" and "\<not> is_ascii_whitespace c"
proof -
  have "view_peek_or_eof (view d) = (Ok c, view d')" using followsD [OF peek_or_eof_follows assms] by simp
  then have "view_peek (view d) = (Some (Ok c), view d')" by (auto simp: view_peek_or_eof_def split: option.splits prod.splits)
  then obtain r where r: "dropWhile is_ascii_whitespace (v_input (view d)) = c # r" "unread d' = c # r"
    by (auto simp: view_peek_def unread_def split: list.splits) (metis View.select_convs(1) View.surjective View.update_convs(1,3))
  then show "\<exists>r. unread d' = c # r" "\<not> is_ascii_whitespace c"
    by (auto simp: dropWhile_eq_Cons_conv)
qed

lemma token_uses: "in_range d \<Longrightarrow> token fs d = (Ok t, d') \<Longrightarrow> left_over d' < left_over d"
proof (induction fs d arbitrary: d' rule: token.induct)
  case (1 fs d)
  obtain c d1 where p: "peek_or_eof d = (Ok c, d1)"
    using 1(5) by (auto simp: token.simps [of fs d] split: prod.splits result.splits)
  obtain r where un: "unread d1 = c # r" "\<not> is_ascii_whitespace c" using peeked_unread [OF 1(4) p] by blast
  have d1: "in_range d1" "left_over d1 \<le> left_over d" using shrinksD [OF peek_or_eof_shrinks 1(4) p] by simp_all
  note adv = peeked_advance [OF 1(4) p]
  note IH = 1(1-3) [OF p [symmetric] refl]
  have loop: "left_over d' < left_over d" if "left_over d' < left_over ((advance_scanp 1 d1)\<lparr>dec_token_state := ts\<rparr>)" for ts
    using that adv(2) by simp
  have used: "left_over d' < left_over d" if "left_over d' < left_over d1" using that d1(2) by simp
  have one: "left_over d' < left_over d" if "left_over d' = left_over (advance_scanp 1 d1)" using that adv(2) by simp
  note r = 1(5) [unfolded token.simps [of fs d] p prod.case result.case]
  show ?case
    using r adv(1) IH
    by (auto split: if_splits simp: token_error_def
        intro: loop one push_token_uses pop_token_uses used token_key_uses [OF d1(1) un] token_value_uses [OF d1(1) un])
qed

lemma token_in_range: "in_range d \<Longrightarrow> token fs d = (x, d') \<Longrightarrow> in_range d'"
  using token_agree [of d d fs] by (simp add: agree_def agree_result_def)

lemma more_shrinks: "shrinks more_tokens"
proof -
  have "more_tokens d = (case peek_or_eof d of (Ok c, d) \<Rightarrow> (c \<noteq> 0x5d \<and> c \<noteq> 0x7d, d) | (_, d) \<Rightarrow> (False, d))" for d
    by (auto simp: more_tokens_def peek_or_eof_def split: option.split prod.split result.split)
  then have "snd (more_tokens d) = snd (peek_or_eof d)" for d by (auto split: prod.split result.split)
  then show ?thesis using peek_or_eof_shrinks by (simp add: shrinks_def)
qed

text \<open>A turn of either loop that goes on has read a key, and so made the rest of the response shorter.\<close>

lemma on_stream_more:
  assumes "in_range (rs_stream s)" and "on_stream more_tokens s = (b, s')"
  shows "in_range (rs_stream s') \<and> left_over (rs_stream s') \<le> left_over (rs_stream s)"
  using assms shrinksD [OF more_shrinks assms(1)] by (auto simp: on_stream_def split: prod.splits)

lemma on_stream_token:
  assumes "in_range (rs_stream s)" and "on_stream (token fs) s = (Ok t, s')"
  shows "in_range (rs_stream s') \<and> left_over (rs_stream s') < left_over (rs_stream s)"
  using assms token_uses [of "rs_stream s" fs t] token_in_range [of "rs_stream s" fs "Ok t"]
  by (auto simp: on_stream_def split: prod.splits)

lemma read_attribute_shrinks:
  assumes "in_range (rs_stream s)" and "read_attribute fv key s = (Ok (), s')"
  shows "in_range (rs_stream s') \<and> left_over (rs_stream s') \<le> left_over (rs_stream s)"
  using assms shrinksD [OF decode_shrinks assms(1)]
  by (auto simp: read_attribute_def on_stream_def dec_then_def split: prod.splits result.splits sum.splits)

lemma dec_then_Ok: "dec_then m f = (Ok y, s') \<longleftrightarrow> (\<exists>x s. m = (Ok x, s) \<and> f x s = (Ok y, s'))"
  by (cases m; cases "fst m") (auto simp: dec_then_def)

lemma begin_rows_shrinks:
  assumes "in_range (rs_stream s)" and "begin_rows fs s = (Ok True, s')"
  shows "in_range (rs_stream s') \<and> left_over (rs_stream s') \<le> left_over (rs_stream s)"
proof -
  obtain t s1 where 1: "on_stream (token fs) s = (Ok t, s1)"
    and k: "(if t = Delim 0x5b then begin_rows_open fs (s1\<lparr>rs_state := RowsRows\<rparr>)
      else if t = Value [0x6e, 0x75, 0x6c, 0x6c] then (Ok True, s1)
      else (Err (HttpMessage ''expected an opening bracket for the rows''), s1)) = (Ok True, s')"
    using assms(2) by (auto simp: begin_rows_def dec_then_Ok)
  note s1 = on_stream_token [OF assms(1) 1]
  show ?thesis
  proof (cases "t = Delim 0x5b")
    case True
    let ?s = "s1\<lparr>rs_state := RowsRows\<rparr>"
    obtain b s2 where m: "on_stream more_tokens ?s = (b, s2)" by fastforce
    have "in_range (rs_stream ?s)" using s1 by simp
    from on_stream_more [OF this m] have s2: "in_range (rs_stream s2)" "left_over (rs_stream s2) \<le> left_over (rs_stream s1)" by simp_all
    from k True m obtain t' s3 where "on_stream (token fs) s2 = (Ok t', s3)" "s' = s3\<lparr>rs_state := RowsPostRows\<rparr>"
      by (auto simp: begin_rows_open_def dec_then_Ok split: bool.splits if_splits)
    with on_stream_token [OF s2(1)] s1 s2(2) show ?thesis by fastforce
  qed (use k s1 in \<open>auto split: if_splits\<close>)
qed

lemma begin_step_shrinks:
  assumes "in_range (rs_stream s)" and "begin_step fs fv s = (Ok True, s')"
  shows "in_range (rs_stream s') \<and> left_over (rs_stream s') < left_over (rs_stream s)"
proof -
  obtain b s1 where m: "on_stream more_tokens s = (b, s1)" by fastforce
  note s1 = on_stream_more [OF assms(1) m]
  from assms(2) m obtain key s2 where t: "on_stream (token fs) s1 = (Ok (TokenString key), s2)"
    and k: "(if key = rs_rows_attrib s2 then begin_rows fs s2 else dec_then (read_attribute fv key s2) (\<lambda>_ s. (Ok True, s))) = (Ok True, s')"
    by (auto simp: begin_step_def dec_then_Ok split: bool.split_asm) (auto split: Token.split_asm)
  have s2: "in_range (rs_stream s2)" "left_over (rs_stream s2) < left_over (rs_stream s)"
    using on_stream_token [OF _ t] s1 by fastforce+
  have "in_range (rs_stream s') \<and> left_over (rs_stream s') \<le> left_over (rs_stream s2)"
    using k begin_rows_shrinks [OF s2(1)] read_attribute_shrinks [OF s2(1)] by (auto simp: dec_then_Ok split: if_splits)
  with s2(2) show ?thesis by simp
qed

lemma begin_loop_returns: "in_range (rs_stream s) \<Longrightarrow> \<exists>r. begin_loop fs fv s = Some r"
proof (induction "left_over (rs_stream s)" arbitrary: s rule: less_induct)
  case less
  obtain x s1 where s1: "begin_step fs fv s = (x, s1)" by fastforce
  with less begin_step_shrinks [OF less.prems] show ?case
    by (cases x) (auto simp: begin_loop.simps [of fs fv s])
qed

lemma post_step_shrinks:
  assumes "in_range (rs_stream s)" and "post_step fs fv tv s = (Ok None, s')"
  shows "in_range (rs_stream s') \<and> left_over (rs_stream s') < left_over (rs_stream s)"
proof -
  from assms(2) obtain key s1 where t: "on_stream (token fs) s = (Ok (TokenString key), s1)" "read_attribute fv key s1 = (Ok (), s')"
    by (auto simp: post_step_def dec_then_Ok Let_def) (auto simp: dec_then_Ok Let_def split: Token.split_asm if_split_asm)
  from on_stream_token [OF assms(1) t(1)] read_attribute_shrinks [OF _ t(2)] show ?thesis by fastforce
qed

lemma next_loop_returns: "in_range (rs_stream s) \<Longrightarrow> \<exists>r. next_loop fs fv tv s = Some r"
proof (induction "left_over (rs_stream s)" arbitrary: s rule: less_induct)
  case less
  obtain x s1 where s1: "post_step fs fv tv s = (x, s1)" by fastforce
  with less post_step_shrinks [OF less.prems] show ?case
    by (cases x) (auto simp: next_loop.simps [of fs fv tv s] split: option.split)
qed

lemma decoder_at_new: "decoder_at (decoder_new r) (chunk_bytes r) TopValue [] (chunk_tail r)"
  by (simp add: decoder_at_def decoder_new_def in_range_def unread_def view_input)

lemma begin_stream_returns: "in_range (rs_stream s) \<Longrightarrow> \<exists>r. begin_stream fs fv s = Some r"
proof -
  assume range: "in_range (rs_stream s)"
  obtain x s1 where "on_stream (token fs) s = (x, s1)" by fastforce
  with on_stream_token [OF range] begin_loop_returns [of s1 fs fv] show ?thesis
    by (cases x) (auto simp: begin_stream_def)
qed

lemma cut_prelude:
  assumes "chunk_bytes r = w @ 0x7b # u" and "blanks w" and "blanks u"
  shows "\<exists>s. begin_stream fs fv (streamer_new (decoder_new r) name) = Some (Ok (), s) \<and> rs_attribs s = Map.empty
    \<and> next_item fs fv tv s = Some (None, s)"
proof -
  have "decoder_at (decoder_new r) (w @ 0x7b # u) TopValue [] (chunk_tail r)" using decoder_at_new [of r] assms(1) by simp
  from begin_stream_opened [OF this assms(2)] obtain d1 where
    1: "begin_stream fs fv (streamer_new (decoder_new r) name) = begin_loop fs fv ((streamer_new (decoder_new r) name)\<lparr>rs_stream := d1\<rparr>)"
      "decoder_at d1 u ObjectStart [TopValue] (chunk_tail r)" by blast
  from more_at_end [OF 1(2) assms(3)] obtain d2 where "more_tokens d1 = (False, d2)" by blast
  then show ?thesis using 1(1)
    by (simp add: begin_loop.simps [of fs fv "(streamer_new (decoder_new r) name)\<lparr>rs_stream := d1\<rparr>"]
        begin_step_def on_stream_def next_item_def)
qed

text \<open>The decoder stays readable through every call, whatever the call returns.\<close>

definition keeps :: "('v RawJsonRowStreamer \<Rightarrow> 'a \<times> 'v RawJsonRowStreamer) \<Rightarrow> bool" where
  "keeps f \<longleftrightarrow> (\<forall>s. in_range (rs_stream s) \<longrightarrow> in_range (rs_stream (snd (f s))))"

lemma keepsD: "keeps f \<Longrightarrow> in_range (rs_stream s) \<Longrightarrow> f s = (x, s') \<Longrightarrow> in_range (rs_stream s')"
  by (auto simp: keeps_def dest!: spec [of _ s])

lemma keeps_bind: "keeps f \<Longrightarrow> (\<And>x. keeps (h x)) \<Longrightarrow> keeps (\<lambda>s. dec_then (f s) h)"
  unfolding keeps_def dec_then_def by (auto split: prod.split result.split)

lemma keeps_more: "(\<And>b. keeps (h b)) \<Longrightarrow> keeps (\<lambda>s. case on_stream more_tokens s of (b, s) \<Rightarrow> h b s)"
  unfolding keeps_def using on_stream_more by (fastforce split: prod.split)

lemma keeps_decode: "keeps (on_stream decode)"
  using decode_shrinks by (auto simp: keeps_def shrinks_def on_stream_def split: prod.split)

lemma keeps_token: "keeps (on_stream (token fs))"
  using token_in_range by (fastforce simp: keeps_def on_stream_def split: prod.split)

lemma keeps_read_attribute: "keeps (read_attribute fv key)"
  unfolding read_attribute_def by (rule keeps_bind [OF keeps_decode]) (auto simp: keeps_def split: sum.split)

lemma begin_step_keeps: "keeps (begin_step fs fv)"
proof -
  have rows_open: "keeps (begin_rows_open fs)"
    unfolding begin_rows_open_def
    by (rule keeps_more) (auto simp: keeps_def split: bool.split intro!: keeps_bind [OF keeps_token, unfolded keeps_def, rule_format])
  have rows: "keeps (begin_rows fs)"
    unfolding begin_rows_def
    by (rule keeps_bind [OF keeps_token]) (auto simp: keeps_def intro!: rows_open [unfolded keeps_def, rule_format])
  have attribute: "keeps (\<lambda>s. dec_then (read_attribute fv key s) (\<lambda>_ s. (Ok True, s)))" for key
    by (rule keeps_bind [OF keeps_read_attribute]) (simp add: keeps_def)
  have key: "keeps (\<lambda>s. dec_then (on_stream (token fs) s) (\<lambda>t s. case t of
      TokenString key \<Rightarrow> if key = rs_rows_attrib s then begin_rows fs s else dec_then (read_attribute fv key s) (\<lambda>_ s. (Ok True, s))
    | _ \<Rightarrow> (Err (HttpMessage ''expected a string key for the result''), s)))"
    by (rule keeps_bind [OF keeps_token]) (use rows attribute in \<open>auto simp: keeps_def split: Token.split\<close>)
  show ?thesis
    unfolding begin_step_def by (rule keeps_more) (use key in \<open>auto simp: keeps_def split: bool.split\<close>)
qed

lemma next_row_keeps: "keeps (next_row fs)"
  unfolding next_row_def
proof (rule keeps_bind [OF keeps_decode], rule keeps_more)
  fix row and b :: bool
  have "keeps (\<lambda>s. dec_then (on_stream (token fs) s) (\<lambda>t s.
      if t = Delim 0x5d then (Ok (Row row), s\<lparr>rs_state := RowsPostRows\<rparr>)
      else (Err (HttpMessage ''expected closing ] for the result''), s)))"
    by (rule keeps_bind [OF keeps_token]) (simp add: keeps_def)
  then show "keeps (\<lambda>s. case b of True \<Rightarrow> (Ok (Row row), s) | False \<Rightarrow>
      dec_then (on_stream (token fs) s) (\<lambda>t s.
        if t = Delim 0x5d then (Ok (Row row), s\<lparr>rs_state := RowsPostRows\<rparr>)
        else (Err (HttpMessage ''expected closing ] for the result''), s)))"
    by (cases b) (simp_all add: keeps_def)
qed

lemma post_step_keeps: "keeps (post_step fs fv tv)"
  unfolding post_step_def
proof (rule keeps_bind [OF keeps_token])
  have attribute: "keeps (\<lambda>s. dec_then (read_attribute fv key s) (\<lambda>_ s. (Ok None, s)))" for key
    by (rule keeps_bind [OF keeps_read_attribute]) (simp add: keeps_def)
  show "keeps (\<lambda>s. case t of
      Delim c \<Rightarrow>
        if c = 0x7d then let s = s\<lparr>rs_state := RowsEnd\<rparr> in
          dec_then (encode_attribs tv ''failed to encode metadata: '' s, s) (\<lambda>b s. (Ok (Some (Metadata b)), s))
        else (Err (HttpMessage ''expected a string key for the result''), s)
    | TokenString key \<Rightarrow> dec_then (read_attribute fv key s) (\<lambda>_ s. (Ok None, s))
    | Value _ \<Rightarrow> (Err (HttpMessage ''expected a string key for the result''), s))" for t
    using attribute by (cases t) (auto simp: keeps_def Let_def dec_then_def split: result.split)
qed

lemma begin_loop_keeps: "in_range (rs_stream s) \<Longrightarrow> begin_loop fs fv s = Some (x, s') \<Longrightarrow> in_range (rs_stream s')"
proof (induction "left_over (rs_stream s)" arbitrary: s rule: less_induct)
  case less
  obtain r s1 where s1: "begin_step fs fv s = (r, s1)" by fastforce
  have "in_range (rs_stream s1)" by (rule keepsD [OF begin_step_keeps less.prems(1) s1])
  with less s1 begin_step_shrinks [OF less.prems(1)] show ?case
    by (cases r) (auto simp: begin_loop.simps [of fs fv s] split: if_splits)
qed

lemma next_loop_keeps: "in_range (rs_stream s) \<Longrightarrow> next_loop fs fv tv s = Some (x, s') \<Longrightarrow> in_range (rs_stream s')"
proof (induction "left_over (rs_stream s)" arbitrary: s rule: less_induct)
  case less
  obtain r s1 where s1: "post_step fs fv tv s = (r, s1)" by fastforce
  have "in_range (rs_stream s1)" by (rule keepsD [OF post_step_keeps less.prems(1) s1])
  moreover have "in_range (rs_stream (snd (next_row fs s)))" by (rule keepsD [OF next_row_keeps less.prems(1), of fs "fst (next_row fs s)"]) simp
  ultimately show ?case
    using less.hyps [of s1] less.prems s1 post_step_shrinks [OF less.prems(1), of fs fv tv s1]
    by (cases r) (auto simp: next_loop.simps [of fs fv tv s] split: if_splits option.splits)
qed

text \<open>C30. Reading a response never runs forever, whatever bytes and errors its stream delivers: the loop that
  reads the prelude and the loops behind each item return, and so does every later call.\<close>

theorem streaming_returns:
  assumes "in_range (rs_stream s)"
  shows "(\<exists>x s1. begin_stream fs fv s = Some (x, s1) \<and> in_range (rs_stream s1))
    \<and> (\<exists>x s2. next_item fs fv tv s = Some (x, s2) \<and> in_range (rs_stream s2))"
proof
  obtain x s1 where t: "on_stream (token fs) s = (x, s1)" by fastforce
  have s1: "in_range (rs_stream s1)" by (rule keepsD [OF keeps_token assms t])
  with t begin_loop_returns [OF s1, of fs fv] begin_loop_keeps [OF s1, of fs fv] assms
  show "\<exists>x s1. begin_stream fs fv s = Some (x, s1) \<and> in_range (rs_stream s1)"
    by (cases x) (auto simp: begin_stream_def)
  show "\<exists>x s2. next_item fs fv tv s = Some (x, s2) \<and> in_range (rs_stream s2)"
    using next_loop_returns [OF assms, of fs fv tv] next_loop_keeps [OF assms, of fs fv tv] assms
    by (auto simp: next_item_def)
qed

theorem streaming_returns_witness:
  "\<exists>x s1. begin_stream (\<lambda>k. Inr ''r'') (\<lambda>v. Inr v) (streamer_new (decoder_new [Inr [0x7b], Inl (HttpMessage ''reset'')]) ''r'') = Some (x, s1)"
  using streaming_returns [of "streamer_new (decoder_new [Inr [0x7b], Inl (HttpMessage ''reset'')]) ''r''" "\<lambda>k. Inr ''r''" "\<lambda>v. Inr v" "\<lambda>m. Inr []"]
  by (auto simp: in_range_def streamer_new_def decoder_new_def)

text \<open>A response that breaks off behind its opening brace, because the stream ends or because the transport
  fails, is reported as complete: reading the prelude succeeds with no attributes, and the first item is
  the end of the rows. The error is lost.\<close>

theorem cut_response_is_complete:
  assumes "chunk_bytes r = w @ 0x7b # u" and "blanks w" and "blanks u"
  shows "\<exists>s. begin_stream fs fv (streamer_new (decoder_new r) name) = Some (Ok (), s) \<and> rs_attribs s = Map.empty
    \<and> next_item fs fv tv s = Some (None, s)"
  by (rule cut_prelude [OF assms])

theorem cut_response_is_complete_witness:
  "\<exists>s. begin_stream (\<lambda>k. Inr ''r'') (\<lambda>v. Inr v) (streamer_new (decoder_new [Inr [0x7b], Inl (HttpMessage ''reset'')]) ''r'') = Some (Ok (), s)
    \<and> next_item (\<lambda>k. Inr ''r'') (\<lambda>v. Inr v) (\<lambda>m. Inr []) s = Some (None, s)"
  using cut_response_is_complete [of "[Inr [0x7b], Inl (HttpMessage ''reset'')]" "[]" "[]" "\<lambda>k. Inr ''r''" "\<lambda>v. Inr v" "''r''" "\<lambda>m. Inr []"]
  by auto

end
