(* ===== verification/Kv_Babysitter.thy ===== *)
theory Kv_Babysitter
  imports Config_Manager
begin

text \<open>
  The babysitter that keeps one connection of a pool alive (\<^verbatim>\<open>kvclient_babysitter.rs\<close>): the state behind its
  lock, the client it publishes without the lock, and its tasks (builders, watchers of a closing client,
  callers of \<^verbatim>\<open>get_client\<close>, re-authentications). A step is a region between two awaits or lock operations;
  opening a connection, its success or failure and its closing are steps of the environment. A client is
  named by the build that made it, as its identifier is drawn once per build.
\<close>

section \<open>State\<close>

datatype Authenticator = PasswordAuthenticator string string | CertificateAuthenticator | JwtAuthenticator string

datatype ConnectionState = Connected | Disconnected | Connecting | Disconnecting

record 'tls KvClientBabysitterClientConfig =
  dc_target :: "'tls KvTarget"
  dc_auth :: Authenticator
  dc_selected_bucket :: "string option"

record ConnectionError =
  connect_error :: CoreError
  connect_error_time :: nat

record 'tls BsClient =
  bc_id :: nat
  bc_config :: "'tls KvClientBabysitterClientConfig"

datatype 'tls Builder =
    Throttle | Sleep nat | Connect "'tls KvClientBabysitterClientConfig" | Created "'tls BsClient" | Failing CoreError
  | Installed "'tls BsClient" | Stored "'tls BsClient" | Announced "'tls BsClient"

datatype Closer = Watching | Notified | Cleared | Reported

datatype Purpose = GetClient | Reauth string

datatype 'tls Caller =
    AtFast | AtSlow | AtSubscribe | Subscribed nat | Waiting nat | Answered "(CoreError, 'tls BsClient) result"

datatype 'tls Closing = Open | Cancelled | Took "'tls BsClient option" | Closed

record 'tls Babysitter =
  bs_id :: string
  bs_on_demand_connect :: bool
  bs_connect_throttle_period :: nat
  bs_desired_config :: "'tls KvClientBabysitterClientConfig"
  bs_connect_err :: "ConnectionError option"
  bs_client :: "'tls BsClient option"
  bs_current_state :: ConnectionState
  bs_is_building :: bool
  bs_fast_client :: "'tls BsClient option"
  bs_watch :: "nat \<times> 'tls BsClient option"
  bs_shutdown :: bool
  bs_events :: "(string \<times> 'tls BsClient option) list"
  bs_builds :: nat
  bs_builders :: "nat \<Rightarrow> 'tls Builder option"
  bs_closers :: "nat \<Rightarrow> Closer option"
  bs_callers :: "nat \<Rightarrow> (Purpose \<times> 'tls Caller) option"
  bs_closing :: "'tls Closing"
  bs_alive :: "nat set"
  bs_now :: nat

section \<open>Building a client\<close>

definition begin_client_build :: "'tls Babysitter \<Rightarrow> 'tls Babysitter" where
  "begin_client_build s =
    s\<lparr>bs_builds := Suc (bs_builds s), bs_builders := (bs_builders s)(bs_builds s := Some Throttle),
      bs_closers := (bs_closers s)(bs_builds s := Some Watching)\<rparr>"

definition maybe_begin_client :: "'tls Babysitter \<Rightarrow> bool \<times> 'tls Babysitter" where
  "maybe_begin_client s =
    (if bs_is_building s then (False, s)
     else (True, begin_client_build (s\<lparr>bs_is_building := True\<rparr>)))"

definition babysitter_new ::
  "string \<Rightarrow> bool \<Rightarrow> nat \<Rightarrow> 'tls KvClientBabysitterClientConfig \<Rightarrow> 'tls Babysitter" where
  "babysitter_new ident on_demand_connect throttle config =
    (let s = \<lparr>bs_id = ident, bs_on_demand_connect = on_demand_connect, bs_connect_throttle_period = throttle,
              bs_desired_config = config, bs_connect_err = None, bs_client = None, bs_current_state = Disconnected,
              bs_is_building = False, bs_fast_client = None, bs_watch = (0, None), bs_shutdown = False, bs_events = [],
              bs_builds = 0, bs_builders = (\<lambda>_. None), bs_closers = (\<lambda>_. None), bs_callers = (\<lambda>_. None),
              bs_closing = Open, bs_alive = {}, bs_now = 0\<rparr>
     in if on_demand_connect then s else snd (maybe_begin_client s))"

text \<open>How long a new attempt has to wait after the last error.\<close>

definition throttle_delay :: "'tls Babysitter \<Rightarrow> nat" where
  "throttle_delay s =
    (case bs_connect_err s of
       None \<Rightarrow> 0
     | Some e \<Rightarrow>
         let elapsed = bs_now s - connect_error_time e in
         if elapsed < bs_connect_throttle_period s then bs_connect_throttle_period s - elapsed else 0)"

definition set_builder :: "nat \<Rightarrow> 'tls Builder option \<Rightarrow> 'tls Babysitter \<Rightarrow> 'tls Babysitter" where
  "set_builder b pc s = s\<lparr>bs_builders := (bs_builders s)(b := pc)\<rparr>"

definition maybe_throttle_on_error :: "nat \<Rightarrow> 'tls Babysitter \<Rightarrow> 'tls Babysitter" where
  "maybe_throttle_on_error b s = set_builder b (Some (Sleep (bs_now s + throttle_delay s))) s"

definition build_attempt :: "nat \<Rightarrow> 'tls Babysitter \<Rightarrow> 'tls Babysitter" where
  "build_attempt b s = set_builder b (Some (Connect (bs_desired_config s))) (s\<lparr>bs_current_state := Connecting\<rparr>)"

definition build_created :: "nat \<Rightarrow> 'tls KvClientBabysitterClientConfig \<Rightarrow> 'tls Babysitter \<Rightarrow> 'tls Babysitter" where
  "build_created b config s =
    set_builder b (Some (Created \<lparr>bc_id = b, bc_config = config\<rparr>)) (s\<lparr>bs_alive := insert b (bs_alive s)\<rparr>)"

definition build_install :: "nat \<Rightarrow> 'tls BsClient \<Rightarrow> 'tls Babysitter \<Rightarrow> 'tls Babysitter" where
  "build_install b client s =
    set_builder b (Some (Installed client))
      (s\<lparr>bs_is_building := False, bs_current_state := Connected, bs_client := Some client\<rparr>)"

definition build_store :: "nat \<Rightarrow> 'tls BsClient \<Rightarrow> 'tls Babysitter \<Rightarrow> 'tls Babysitter" where
  "build_store b client s = set_builder b (Some (Stored client)) (s\<lparr>bs_fast_client := Some client\<rparr>)"

text \<open>A watch channel keeps its value when it is sent to without a receiver.\<close>

definition listening :: "'tls Caller \<Rightarrow> bool" where
  "listening c = (case c of Subscribed _ \<Rightarrow> True | Waiting _ \<Rightarrow> True | _ \<Rightarrow> False)"

definition has_receivers :: "'tls Babysitter \<Rightarrow> bool" where
  "has_receivers s \<longleftrightarrow> (\<exists>w p c. bs_callers s w = Some (p, c) \<and> listening c)"

definition build_announce :: "nat \<Rightarrow> 'tls BsClient \<Rightarrow> 'tls Babysitter \<Rightarrow> 'tls Babysitter" where
  "build_announce b client s =
    set_builder b (Some (Announced client))
      (if has_receivers s then s\<lparr>bs_watch := (Suc (fst (bs_watch s)), Some client)\<rparr> else s)"

definition build_report :: "nat \<Rightarrow> 'tls BsClient \<Rightarrow> 'tls Babysitter \<Rightarrow> 'tls Babysitter" where
  "build_report b client s = set_builder b None (s\<lparr>bs_events := bs_events s @ [(bs_id s, Some client)]\<rparr>)"

definition build_failed :: "nat \<Rightarrow> CoreError \<Rightarrow> 'tls Babysitter \<Rightarrow> 'tls Babysitter" where
  "build_failed b e s =
    set_builder b (if ce_kind e = Shutdown then None else Some (Failing e)) (s\<lparr>bs_fast_client := None\<rparr>)"

definition build_record_error :: "nat \<Rightarrow> CoreError \<Rightarrow> 'tls Babysitter \<Rightarrow> 'tls Babysitter" where
  "build_record_error b e s =
    set_builder b (Some Throttle)
      (s\<lparr>bs_is_building := False, bs_current_state := Disconnected,
         bs_connect_err := Some \<lparr>connect_error = e, connect_error_time = bs_now s\<rparr>\<rparr>)"

section \<open>A client that closes\<close>

definition set_closer :: "nat \<Rightarrow> Closer option \<Rightarrow> 'tls Babysitter \<Rightarrow> 'tls Babysitter" where
  "set_closer b pc s = s\<lparr>bs_closers := (bs_closers s)(b := pc)\<rparr>"

text \<open>The notification of a closed connection; there is one receiver per build and it listens once.\<close>

definition notify_close :: "nat \<Rightarrow> 'tls Babysitter \<Rightarrow> 'tls Babysitter" where
  "notify_close b s = (if bs_closers s b = Some Watching then set_closer b (Some Notified) s else s)"

definition closer_clear :: "nat \<Rightarrow> 'tls Babysitter \<Rightarrow> 'tls Babysitter" where
  "closer_clear b s =
    (let s = s\<lparr>bs_is_building := False\<rparr> in
     case bs_client s of
       None \<Rightarrow> set_closer b None s
     | Some cli \<Rightarrow>
         if bc_id cli \<noteq> b then set_closer b None s
         else set_closer b (Some Cleared) (s\<lparr>bs_client := None, bs_fast_client := None\<rparr>))"

definition closer_report :: "nat \<Rightarrow> 'tls Babysitter \<Rightarrow> 'tls Babysitter" where
  "closer_report b s = set_closer b (Some Reported) (s\<lparr>bs_events := bs_events s @ [(bs_id s, None)]\<rparr>)"

definition closer_restart :: "nat \<Rightarrow> 'tls Babysitter \<Rightarrow> 'tls Babysitter" where
  "closer_restart b s =
    (let s = set_closer b None s in if bs_on_demand_connect s then s else snd (maybe_begin_client s))"

section \<open>Callers\<close>

definition set_caller :: "nat \<Rightarrow> (Purpose \<times> 'tls Caller) option \<Rightarrow> 'tls Babysitter \<Rightarrow> 'tls Babysitter" where
  "set_caller w c s = s\<lparr>bs_callers := (bs_callers s)(w := c)\<rparr>"

definition try_fast :: "nat \<Rightarrow> Purpose \<Rightarrow> 'tls Babysitter \<Rightarrow> 'tls Babysitter" where
  "try_fast w p s =
    set_caller w (Some (p, case bs_fast_client s of Some c \<Rightarrow> Answered (Ok c) | None \<Rightarrow> AtSlow)) s"

definition try_slow :: "nat \<Rightarrow> Purpose \<Rightarrow> 'tls Babysitter \<Rightarrow> 'tls Babysitter" where
  "try_slow w p s =
    set_caller w (Some (p, case bs_client s of Some c \<Rightarrow> Answered (Ok c) | None \<Rightarrow> AtSubscribe)) s"

text \<open>Only \<^verbatim>\<open>get_client\<close> starts a build; a re-authentication just waits for a client.\<close>

definition subscribe :: "nat \<Rightarrow> Purpose \<Rightarrow> 'tls Babysitter \<Rightarrow> 'tls Babysitter" where
  "subscribe w p s =
    set_caller w (Some (p, case p of GetClient \<Rightarrow> Subscribed (fst (bs_watch s)) | Reauth _ \<Rightarrow> Waiting (fst (bs_watch s)))) s"

definition begin_wait :: "nat \<Rightarrow> Purpose \<Rightarrow> nat \<Rightarrow> 'tls Babysitter \<Rightarrow> 'tls Babysitter" where
  "begin_wait w p seen s = set_caller w (Some (p, Waiting seen)) (snd (maybe_begin_client s))"

definition client_changed :: "nat \<Rightarrow> Purpose \<Rightarrow> 'tls Babysitter \<Rightarrow> 'tls Babysitter" where
  "client_changed w p s =
    set_caller w (Some (p, case snd (bs_watch s) of Some c \<Rightarrow> Answered (Ok c) | None \<Rightarrow> Waiting (fst (bs_watch s)))) s"

definition caller_shutdown :: "nat \<Rightarrow> Purpose \<Rightarrow> 'tls Babysitter \<Rightarrow> 'tls Babysitter" where
  "caller_shutdown w p s =
    set_caller w (Some (p, Answered (Err (core_message_error ''client babysitter shutdown'')))) s"

text \<open>A re-authentication that fails closes the client itself, which is no notification to the babysitter.\<close>

definition reauth_failed :: "nat \<Rightarrow> 'tls BsClient \<Rightarrow> 'tls Babysitter \<Rightarrow> 'tls Babysitter" where
  "reauth_failed w client s = set_caller w None (s\<lparr>bs_alive := bs_alive s - {bc_id client}\<rparr>)"

section \<open>Reconfiguration and shutdown\<close>

definition update_auth :: "nat \<Rightarrow> Authenticator \<Rightarrow> 'tls Babysitter \<Rightarrow> 'tls Babysitter" where
  "update_auth w authenticator s =
    (let s = s\<lparr>bs_desired_config := (bs_desired_config s)\<lparr>dc_auth := authenticator\<rparr>\<rparr> in
     case authenticator of
       JwtAuthenticator token \<Rightarrow> set_caller w (Some (Reauth token, AtFast)) s
     | _ \<Rightarrow> s)"

definition update_target :: "'tls KvTarget \<Rightarrow> 'tls Babysitter \<Rightarrow> 'tls Babysitter" where
  "update_target target s = s\<lparr>bs_desired_config := (bs_desired_config s)\<lparr>dc_target := target\<rparr>\<rparr>"

definition close_cancel :: "'tls Babysitter \<Rightarrow> 'tls Babysitter" where
  "close_cancel s = s\<lparr>bs_shutdown := True, bs_closing := Cancelled\<rparr>"

definition close_take :: "'tls Babysitter \<Rightarrow> 'tls Babysitter" where
  "close_take s = s\<lparr>bs_fast_client := None, bs_client := None, bs_closing := Took (bs_client s)\<rparr>"

definition close_finish :: "bool \<Rightarrow> 'tls BsClient option \<Rightarrow> 'tls Babysitter \<Rightarrow> 'tls Babysitter" where
  "close_finish close_ok taken s =
    (let s = s\<lparr>bs_closing := Closed, bs_alive := bs_alive s - (case taken of None \<Rightarrow> {} | Some c \<Rightarrow> {bc_id c})\<rparr> in
     if taken \<noteq> None \<and> \<not> close_ok then s else s\<lparr>bs_events := bs_events s @ [(bs_id s, None)]\<rparr>)"

record EndpointDiagnostics =
  ed_id :: string
  ed_has_client :: bool
  ed_remote_address :: Address
  ed_namespace :: "string option"
  ed_state :: ConnectionState

definition endpoint_diagnostics :: "'tls Babysitter \<Rightarrow> EndpointDiagnostics" where
  "endpoint_diagnostics s =
    \<lparr>ed_id = bs_id s, ed_has_client = (bs_client s \<noteq> None), ed_remote_address = kt_address (dc_target (bs_desired_config s)),
     ed_namespace = dc_selected_bucket (bs_desired_config s), ed_state = bs_current_state s\<rparr>"

section \<open>Steps\<close>

text \<open>The handles of a client that the babysitter itself keeps. The receiver of a build also wakes up when the
  last handle of its client, and with it the last sender of the notification, is gone.\<close>

definition referenced :: "nat \<Rightarrow> 'tls Babysitter \<Rightarrow> bool" where
  "referenced b s \<longleftrightarrow>
    bs_builders s b \<noteq> None \<or> (\<exists>c. bc_id c = b \<and> Some c \<in> {bs_client s, bs_fast_client s, snd (bs_watch s)})"

inductive bs_step :: "'tls Babysitter \<Rightarrow> 'tls Babysitter \<Rightarrow> bool" where
  tick: "bs_step s (s\<lparr>bs_now := bs_now s + k\<rparr>)"
| throttle: "bs_builders s b = Some Throttle \<Longrightarrow> bs_step s (maybe_throttle_on_error b s)"
| throttle_shutdown: "bs_builders s b = Some (Sleep t) \<Longrightarrow> bs_now s < t \<Longrightarrow> bs_shutdown s \<Longrightarrow> bs_step s (set_builder b None s)"
| attempt: "bs_builders s b = Some (Sleep t) \<Longrightarrow> t \<le> bs_now s \<Longrightarrow> bs_step s (build_attempt b s)"
| created: "bs_builders s b = Some (Connect cfg) \<Longrightarrow> bs_step s (build_created b cfg s)"
| failed: "bs_builders s b = Some (Connect cfg) \<Longrightarrow> ce_kind e = Shutdown \<longrightarrow> bs_shutdown s \<Longrightarrow> bs_step s (build_failed b e s)"
| record_error: "bs_builders s b = Some (Failing e) \<Longrightarrow> bs_step s (build_record_error b e s)"
| install: "bs_builders s b = Some (Created c) \<Longrightarrow> bs_step s (build_install b c s)"
| store: "bs_builders s b = Some (Installed c) \<Longrightarrow> bs_step s (build_store b c s)"
| announce: "bs_builders s b = Some (Stored c) \<Longrightarrow> bs_step s (build_announce b c s)"
| report: "bs_builders s b = Some (Announced c) \<Longrightarrow> bs_step s (build_report b c s)"
| attempt_closes: "bs_builders s b = Some (Connect cfg) \<Longrightarrow> bs_step s (notify_close b s)"
| client_closes: "b \<in> bs_alive s \<Longrightarrow> bs_step s (notify_close b (s\<lparr>bs_alive := bs_alive s - {b}\<rparr>))"
| client_dropped: "\<not> referenced b s \<Longrightarrow> bs_step s (notify_close b s)"
| clear: "bs_closers s b = Some Notified \<Longrightarrow> bs_step s (closer_clear b s)"
| report_close: "bs_closers s b = Some Cleared \<Longrightarrow> bs_step s (closer_report b s)"
| restart: "bs_closers s b = Some Reported \<Longrightarrow> bs_step s (closer_restart b s)"
| closer_shutdown: "bs_closers s b = Some Watching \<Longrightarrow> bs_shutdown s \<Longrightarrow> bs_step s (set_closer b None s)"
| call: "bs_callers s w = None \<Longrightarrow> bs_step s (set_caller w (Some (GetClient, AtFast)) s)"
| fast: "bs_callers s w = Some (p, AtFast) \<Longrightarrow> bs_step s (try_fast w p s)"
| slow: "bs_callers s w = Some (p, AtSlow) \<Longrightarrow> bs_step s (try_slow w p s)"
| subscribe: "bs_callers s w = Some (p, AtSubscribe) \<Longrightarrow> bs_step s (subscribe w p s)"
| begin_wait: "bs_callers s w = Some (p, Subscribed v) \<Longrightarrow> bs_step s (begin_wait w p v s)"
| changed: "bs_callers s w = Some (p, Waiting v) \<Longrightarrow> v < fst (bs_watch s) \<Longrightarrow> bs_step s (client_changed w p s)"
| give_up: "bs_callers s w = Some (p, Waiting v) \<Longrightarrow> bs_shutdown s \<Longrightarrow> bs_step s (caller_shutdown w p s)"
| reauth_ok: "bs_callers s w = Some (Reauth tok, Answered r) \<Longrightarrow> bs_step s (set_caller w None s)"
| reauth_failed: "bs_callers s w = Some (Reauth tok, Answered (Ok c)) \<Longrightarrow> bs_step s (reauth_failed w c s)"
| update_auth: "bs_callers s w = None \<Longrightarrow> bs_step s (update_auth w a s)"
| update_target: "bs_step s (update_target t s)"
| close_cancel: "bs_closing s = Open \<Longrightarrow> bs_step s (close_cancel s)"
| close_take: "bs_closing s = Cancelled \<Longrightarrow> bs_step s (close_take s)"
| close_finish: "bs_closing s = Took c \<Longrightarrow> bs_step s (close_finish close_ok c s)"

definition bs_init :: "'tls Babysitter \<Rightarrow> bool" where
  "bs_init s \<longleftrightarrow> (\<exists>ident on_demand throttle config. s = babysitter_new ident on_demand throttle config)"

section \<open>Waiting callers\<close>

fun pending :: "'tls Builder \<Rightarrow> bool" where
  "pending Throttle = True" | "pending (Sleep _) = True" | "pending (Connect _) = True"
| "pending (Created _) = True" | "pending (Failing _) = True" | "pending _ = False"

fun will_announce :: "'tls Builder \<Rightarrow> bool" where
  "will_announce (Installed _) = True" | "will_announce (Stored _) = True" | "will_announce pc = pending pc"

definition has_builder :: "('tls Builder \<Rightarrow> bool) \<Rightarrow> 'tls Babysitter \<Rightarrow> bool" where
  "has_builder P s \<longleftrightarrow> (\<exists>b pc. bs_builders s b = Some pc \<and> P pc)"

lemma pending_will_announce: "pending pc \<Longrightarrow> will_announce pc"
  by (cases pc) auto

lemma has_builder_cong: "bs_builders s = bs_builders t \<Longrightarrow> has_builder P s = has_builder P t"
  by (simp add: has_builder_def)

lemma has_builder_set: "P pc \<Longrightarrow> has_builder P (set_builder b (Some pc) s)"
  by (auto simp: has_builder_def set_builder_def)

lemma has_builder_keep:
  "has_builder P s \<Longrightarrow> bs_builders s b = Some pc \<Longrightarrow> \<not> P pc \<Longrightarrow> has_builder P (set_builder b x s)"
  by (auto simp: has_builder_def set_builder_def) (metis option.inject)

definition bs_inv :: "'tls Babysitter \<Rightarrow> bool" where
  "bs_inv s \<longleftrightarrow>
    (bs_is_building s \<and> \<not> bs_shutdown s \<longrightarrow> has_builder pending s)
    \<and> (\<forall>w v. bs_callers s w = Some (GetClient, Waiting v) \<longrightarrow>
         bs_shutdown s \<or> v < fst (bs_watch s) \<or> has_builder will_announce s)
    \<and> (\<forall>w p v. bs_callers s w = Some (p, Subscribed v) \<or> bs_callers s w = Some (p, Waiting v) \<longrightarrow> v \<le> fst (bs_watch s))
    \<and> (0 < fst (bs_watch s) \<longrightarrow> snd (bs_watch s) \<noteq> None)
    \<and> (\<forall>b\<ge>bs_builds s. bs_builders s b = None)"

lemma set_simps [simp]:
  "bs_is_building (set_builder b x s) = bs_is_building s" "bs_shutdown (set_builder b x s) = bs_shutdown s"
  "bs_callers (set_builder b x s) = bs_callers s" "bs_watch (set_builder b x s) = bs_watch s"
  "bs_builds (set_builder b x s) = bs_builds s" "bs_builders (set_builder b x s) = (bs_builders s)(b := x)"
  "bs_is_building (set_closer b y s) = bs_is_building s" "bs_shutdown (set_closer b y s) = bs_shutdown s"
  "bs_callers (set_closer b y s) = bs_callers s" "bs_watch (set_closer b y s) = bs_watch s"
  "bs_builds (set_closer b y s) = bs_builds s" "bs_builders (set_closer b y s) = bs_builders s"
  "bs_is_building (set_caller w c s) = bs_is_building s" "bs_shutdown (set_caller w c s) = bs_shutdown s"
  "bs_callers (set_caller w c s) = (bs_callers s)(w := c)" "bs_watch (set_caller w c s) = bs_watch s"
  "bs_builds (set_caller w c s) = bs_builds s" "bs_builders (set_caller w c s) = bs_builders s"
  by (simp_all add: set_builder_def set_closer_def set_caller_def)

lemma begin_sel [simp]:
  "bs_is_building (begin_client_build s) = bs_is_building s" "bs_shutdown (begin_client_build s) = bs_shutdown s"
  "bs_callers (begin_client_build s) = bs_callers s" "bs_watch (begin_client_build s) = bs_watch s"
  "bs_builds (begin_client_build s) = Suc (bs_builds s)"
  "bs_builders (begin_client_build s) = (bs_builders s)(bs_builds s := Some Throttle)"
  by (simp_all add: begin_client_build_def)

lemma has_builder_frame [simp]:
  "has_builder P (set_closer b y s) = has_builder P s" "has_builder P (set_caller w c s) = has_builder P s"
  "has_builder P (s\<lparr>bs_now := n\<rparr>) = has_builder P s" "has_builder P (s\<lparr>bs_current_state := cs\<rparr>) = has_builder P s"
  "has_builder P (s\<lparr>bs_is_building := ib\<rparr>) = has_builder P s" "has_builder P (s\<lparr>bs_client := cl\<rparr>) = has_builder P s"
  "has_builder P (s\<lparr>bs_fast_client := fc\<rparr>) = has_builder P s" "has_builder P (s\<lparr>bs_events := ev\<rparr>) = has_builder P s"
  "has_builder P (s\<lparr>bs_alive := al\<rparr>) = has_builder P s" "has_builder P (s\<lparr>bs_watch := wv\<rparr>) = has_builder P s"
  "has_builder P (s\<lparr>bs_desired_config := dc\<rparr>) = has_builder P s" "has_builder P (s\<lparr>bs_shutdown := sd\<rparr>) = has_builder P s"
  "has_builder P (s\<lparr>bs_closing := cg\<rparr>) = has_builder P s" "has_builder P (s\<lparr>bs_connect_err := ce\<rparr>) = has_builder P s"
  by (simp_all add: has_builder_def)

lemma bs_invD:
  assumes "bs_inv s"
  shows "bs_is_building s \<Longrightarrow> \<not> bs_shutdown s \<Longrightarrow> has_builder pending s"
    and "bs_callers s w = Some (GetClient, Waiting v) \<Longrightarrow> bs_shutdown s \<or> v < fst (bs_watch s) \<or> has_builder will_announce s"
    and "bs_callers s w = Some (p, Subscribed v) \<Longrightarrow> v \<le> fst (bs_watch s)"
    and "bs_callers s w = Some (p, Waiting v) \<Longrightarrow> v \<le> fst (bs_watch s)"
    and "0 < fst (bs_watch s) \<Longrightarrow> snd (bs_watch s) \<noteq> None"
    and "bs_builds s \<le> b \<Longrightarrow> bs_builders s b = None"
  using assms unfolding bs_inv_def by blast+

lemma bs_inv_fresh: "bs_inv s \<Longrightarrow> bs_builders s b = Some pc \<Longrightarrow> b < bs_builds s"
  using bs_invD(6) by (metis not_le option.distinct(1))

lemma bs_invI:
  assumes "bs_is_building s \<Longrightarrow> \<not> bs_shutdown s \<Longrightarrow> has_builder pending s"
    and "\<And>w v. bs_callers s w = Some (GetClient, Waiting v) \<Longrightarrow> bs_shutdown s \<or> v < fst (bs_watch s) \<or> has_builder will_announce s"
    and "\<And>w p v. bs_callers s w = Some (p, Subscribed v) \<Longrightarrow> v \<le> fst (bs_watch s)"
    and "\<And>w p v. bs_callers s w = Some (p, Waiting v) \<Longrightarrow> v \<le> fst (bs_watch s)"
    and "0 < fst (bs_watch s) \<Longrightarrow> snd (bs_watch s) \<noteq> None"
    and "\<And>b. bs_builds s \<le> b \<Longrightarrow> bs_builders s b = None"
  shows "bs_inv s"
  using assms unfolding bs_inv_def by blast

text \<open>A builder that moves on while it still has to announce a client.\<close>

lemma builder_moves:
  assumes "bs_inv s" and "bs_builders s b = Some pc" and "will_announce pc'"
    and "pending pc' \<or> \<not> bs_is_building t \<or> \<not> pending pc"
    and "bs_builders t = bs_builders s" "bs_shutdown t = bs_shutdown s" "bs_callers t = bs_callers s" "bs_watch t = bs_watch s"
      "bs_builds t = bs_builds s" "bs_is_building t \<longrightarrow> bs_is_building s"
  shows "bs_inv (set_builder b (Some pc') t)"
proof -
  note fresh = bs_inv_fresh [OF assms(1,2)]
  have wa: "has_builder will_announce (set_builder b (Some pc') t)" using assms(3) by (rule has_builder_set)
  have pe: "has_builder pending (set_builder b (Some pc') t)" if "bs_is_building t" "\<not> bs_shutdown t"
  proof (cases "pending pc'")
    case False
    then have "\<not> pending pc" using assms(4) that by simp
    moreover have "has_builder pending t" using bs_invD(1) [OF assms(1)] assms(5,6,10) that has_builder_cong [of t s] by simp
    ultimately show ?thesis using assms(2,5) by (intro has_builder_keep) auto
  qed (rule has_builder_set)
  show ?thesis
    by (rule bs_invI) (use bs_invD [OF assms(1)] assms(6-9) wa pe fresh assms(5) in auto)
qed

lemma maybe_begin_inv:
  assumes "bs_inv s"
  shows "bs_inv (snd (maybe_begin_client s))"
    and "bs_shutdown s \<or> has_builder will_announce (snd (maybe_begin_client s))"
proof -
  have new: "has_builder P (begin_client_build t)" if "P Throttle" for P and t :: "'a Babysitter"
    using that by (auto simp: has_builder_def begin_client_build_def)
  show "bs_inv (snd (maybe_begin_client s))"
  proof (cases "bs_is_building s")
    case False
    let ?t = "begin_client_build (s\<lparr>bs_is_building := True\<rparr>)"
    have "bs_inv ?t"
      by (rule bs_invI) (use new [of pending "s\<lparr>bs_is_building := True\<rparr>"] new [of will_announce "s\<lparr>bs_is_building := True\<rparr>"] bs_invD [OF assms] in auto)
    with False show ?thesis by (simp add: maybe_begin_client_def)
  qed (use assms in \<open>simp add: maybe_begin_client_def\<close>)
  show "bs_shutdown s \<or> has_builder will_announce (snd (maybe_begin_client s))"
    using bs_invD(1) [OF assms] new [of will_announce] pending_will_announce
    by (cases "bs_is_building s") (auto simp: maybe_begin_client_def has_builder_def)
qed

lemma builder_gone:
  assumes "bs_inv s" and "bs_builders s b = Some pc" and "bs_shutdown s \<or> \<not> will_announce pc"
    and "bs_builders t = bs_builders s" "bs_shutdown t = bs_shutdown s" "bs_callers t = bs_callers s" "bs_watch t = bs_watch s"
      "bs_builds t = bs_builds s" "bs_is_building t = bs_is_building s"
  shows "bs_inv (set_builder b None t)"
proof -
  have keep: "has_builder P (set_builder b None t)" if "has_builder P s" "\<not> P pc" for P
    using that assms(2,4) has_builder_cong [of t s P] by (intro has_builder_keep) auto
  have "\<not> pending pc" if "\<not> bs_shutdown s" using assms(3) that pending_will_announce by blast
  then show ?thesis
    by (intro bs_invI)
      (use assms(3-9) in \<open>auto intro: keep bs_invD(1) [OF assms(1)] bs_invD(6) [OF assms(1)] dest: bs_invD(2-5) [OF assms(1)]\<close>)
qed

text \<open>Steps that leave the builders alone.\<close>

lemma inv_frame:
  assumes "bs_inv s" and "bs_builders t = bs_builders s" and "bs_shutdown s \<longrightarrow> bs_shutdown t" and "bs_watch t = bs_watch s"
    and "bs_builds t = bs_builds s" and "bs_is_building t \<longrightarrow> bs_is_building s"
    and "\<And>w v. bs_callers t w = Some (GetClient, Waiting v) \<Longrightarrow> bs_callers s w = Some (GetClient, Waiting v)"
    and "\<And>w p v. bs_callers t w = Some (p, Subscribed v) \<or> bs_callers t w = Some (p, Waiting v) \<Longrightarrow>
      v \<le> fst (bs_watch s)"
  shows "bs_inv t"
  by (rule bs_invI)
    (use assms(2-6) has_builder_cong [of t s] bs_invD(1,5,6) [OF assms(1)] in
      \<open>auto dest: assms(7) [THEN bs_invD(2) [OF assms(1)]] assms(8) [OF disjI1] assms(8) [OF disjI2]\<close>)

lemma receivers:
  "bs_callers s w = Some (p, Waiting v) \<Longrightarrow> has_receivers s" "bs_callers s w = Some (p, Subscribed v) \<Longrightarrow> has_receivers s"
  unfolding has_receivers_def by (rule exI, rule exI, rule exI, rule conjI, assumption, simp add: listening_def)+

lemma announce_inv:
  assumes "bs_inv s" and "bs_builders s b = Some (Stored c)"
  shows "bs_inv (build_announce b c s)"
proof (cases "has_receivers s")
  case True
  have pend: "has_builder pending (set_builder b (Some (Announced c)) (s\<lparr>bs_watch := wv\<rparr>))" if "has_builder pending s" for wv
    using that assms(2) has_builder_keep [of pending "s\<lparr>bs_watch := wv\<rparr>" b "Stored c"] by simp
  show ?thesis
    unfolding build_announce_def using True bs_inv_fresh [OF assms]
    by (intro bs_invI) (use bs_invD [OF assms(1)] pend in \<open>auto intro: le_SucI simp: less_Suc_eq_le\<close>)
next
  case False
  have none: "bs_callers s w \<noteq> Some (p, Waiting v)" "bs_callers s w \<noteq> Some (p, Subscribed v)" for w p v
    using False receivers by blast+
  have pend: "has_builder pending (set_builder b (Some (Announced c)) s)" if "has_builder pending s"
    using that assms(2) has_builder_keep [of pending s b "Stored c"] by simp
  show ?thesis
    unfolding build_announce_def using False bs_inv_fresh [OF assms] none
    by (intro bs_invI) (use bs_invD [OF assms(1)] pend in auto)
qed

lemma init_inv: "bs_init s \<Longrightarrow> bs_inv s"
proof -
  assume "bs_init s"
  then obtain ident od th cf where s: "s = babysitter_new ident od th cf" by (auto simp: bs_init_def)
  let ?s0 = "babysitter_new ident True th cf"
  have i0: "bs_inv (?s0\<lparr>bs_on_demand_connect := od\<rparr>)" by (simp add: bs_inv_def babysitter_new_def Let_def)
  then show ?thesis
  proof (cases od)
    case False
    have "s = snd (maybe_begin_client (?s0\<lparr>bs_on_demand_connect := od\<rparr>))"
      using False s by (simp add: babysitter_new_def Let_def)
    then show ?thesis using maybe_begin_inv(1) [OF i0] by simp
  qed (use s i0 in \<open>simp add: babysitter_new_def Let_def\<close>)
qed

lemma caller_inv:
  assumes "bs_inv s"
    and "\<And>v. c = Some (GetClient, Waiting v) \<Longrightarrow> bs_shutdown s \<or> v < fst (bs_watch s) \<or> has_builder will_announce s"
    and "\<And>p v. c = Some (p, Subscribed v) \<or> c = Some (p, Waiting v) \<Longrightarrow> v \<le> fst (bs_watch s)"
  shows "bs_inv (set_caller w c s)"
  by (rule bs_invI)
    (use bs_invD(1,5,6) [OF assms(1)] in
      \<open>auto split: if_splits dest: assms(2) assms(3) [OF disjI1] assms(3) [OF disjI2] bs_invD(2-4) [OF assms(1)]\<close>)

lemma step_inv:
  assumes "bs_inv s" and "bs_step s t"
  shows "bs_inv t"
  using assms(2)
proof (cases rule: bs_step.cases)
  case (throttle b)
  then show ?thesis unfolding maybe_throttle_on_error_def by (auto intro!: builder_moves [OF assms(1)])
next
  case (throttle_shutdown b t)
  then show ?thesis by (auto intro!: builder_gone [OF assms(1)])
next
  case (attempt b t)
  then show ?thesis unfolding build_attempt_def by (auto intro!: builder_moves [OF assms(1)])
next
  case (created b cfg)
  then show ?thesis unfolding build_created_def by (auto intro!: builder_moves [OF assms(1)])
next
  case (failed b cfg e)
  then show ?thesis unfolding build_failed_def
    by (auto intro!: builder_moves [OF assms(1)] builder_gone [OF assms(1)])
next
  case (record_error b e)
  then show ?thesis unfolding build_record_error_def by (auto intro!: builder_moves [OF assms(1)])
next
  case (install b c)
  then show ?thesis unfolding build_install_def by (auto intro!: builder_moves [OF assms(1)])
next
  case (store b c)
  then show ?thesis unfolding build_store_def by (auto intro!: builder_moves [OF assms(1)])
next
  case (announce b c)
  then show ?thesis using announce_inv [OF assms(1)] by simp
next
  case (report b c)
  then show ?thesis unfolding build_report_def by (auto intro!: builder_gone [OF assms(1)])
next
  case (restart b)
  have "bs_inv (set_closer b None s)" by (rule inv_frame [OF assms(1)]) (auto dest: bs_invD(3,4) [OF assms(1)])
  with restart show ?thesis using maybe_begin_inv(1) by (auto simp: closer_restart_def Let_def)
next
  case (begin_wait w p v)
  let ?t = "snd (maybe_begin_client s)"
  have keep: "bs_shutdown ?t = bs_shutdown s" "bs_watch ?t = bs_watch s" by (simp_all add: maybe_begin_client_def)
  have "bs_inv (set_caller w (Some (p, Waiting v)) ?t)"
    by (rule caller_inv [OF maybe_begin_inv(1) [OF assms(1)]])
      (use maybe_begin_inv(2) [OF assms(1)] keep bs_invD(3) [OF assms(1)] begin_wait in auto)
  with begin_wait show ?thesis by (simp add: begin_wait_def)
next
  case (changed w p v)
  with bs_invD(5) [OF assms(1)] show ?thesis by (auto simp: client_changed_def intro!: caller_inv [OF assms(1)])
qed (auto simp: notify_close_def closer_clear_def closer_report_def try_fast_def try_slow_def subscribe_def client_changed_def
    caller_shutdown_def reauth_failed_def update_auth_def update_target_def close_cancel_def close_take_def close_finish_def Let_def
    split: if_splits option.splits Purpose.splits Authenticator.splits
    intro!: inv_frame [OF assms(1)] caller_inv [OF assms(1)] dest: bs_invD(3,4) [OF assms(1)])

interpretation bs: invariant_system bs_init bs_step bs_inv
  by unfold_locales (auto intro: init_inv step_inv)

text \<open>A builder that is left to run, its next connection attempt succeeding, announces a client to whoever listens.\<close>

definition announces :: "'tls Babysitter \<Rightarrow> bool" where
  "announces s \<longleftrightarrow> (\<exists>t c. bs_step\<^sup>*\<^sup>* s t \<and> bs_callers t = bs_callers s \<and> bs_watch t = (Suc (fst (bs_watch s)), Some c))"

lemma announces_step:
  "bs_step s t \<Longrightarrow> bs_callers t = bs_callers s \<Longrightarrow> bs_watch t = bs_watch s \<Longrightarrow> announces t \<Longrightarrow> announces s"
  unfolding announces_def by (metis converse_rtranclp_into_rtranclp)

lemma has_receivers_cong: "bs_callers t = bs_callers s \<Longrightarrow> has_receivers t = has_receivers s"
  by (simp add: has_receivers_def)

lemma stored_announces: "bs_builders s b = Some (Stored c) \<Longrightarrow> has_receivers s \<Longrightarrow> announces s"
  unfolding announces_def
  by (rule exI [of _ "build_announce b c s"], rule exI [of _ c], intro conjI, rule r_into_rtranclp, rule announce)
    (simp_all add: build_announce_def)

lemma installed_announces: "bs_builders s b = Some (Installed c) \<Longrightarrow> has_receivers s \<Longrightarrow> announces s"
  by (rule announces_step [OF store])
    (auto simp: build_store_def intro!: stored_announces [of _ b c] has_receivers_cong [THEN iffD2, of _ s])

lemma created_announces: "bs_builders s b = Some (Created c) \<Longrightarrow> has_receivers s \<Longrightarrow> announces s"
  by (rule announces_step [OF install])
    (auto simp: build_install_def intro!: installed_announces [of _ b c] has_receivers_cong [THEN iffD2, of _ s])

lemma connect_announces: "bs_builders s b = Some (Connect cfg) \<Longrightarrow> has_receivers s \<Longrightarrow> announces s"
  by (rule announces_step [OF created])
    (auto simp: build_created_def intro!: created_announces [of _ b] has_receivers_cong [THEN iffD2, of _ s])

lemma sleep_announces: "bs_builders s b = Some (Sleep t) \<Longrightarrow> has_receivers s \<Longrightarrow> announces s"
proof -
  assume b: "bs_builders s b = Some (Sleep t)" and r: "has_receivers s"
  let ?s = "s\<lparr>bs_now := bs_now s + t\<rparr>"
  have "announces ?s"
    by (rule announces_step [OF attempt [of _ b t]])
      (use b r in \<open>auto simp: build_attempt_def intro!: connect_announces [of _ b] has_receivers_cong [THEN iffD2, of _ s]\<close>)
  then show ?thesis by (rule announces_step [OF tick [of s t], rotated 2]) simp_all
qed

lemma throttle_announces: "bs_builders s b = Some Throttle \<Longrightarrow> has_receivers s \<Longrightarrow> announces s"
  by (rule announces_step [OF throttle])
    (auto simp: maybe_throttle_on_error_def intro!: sleep_announces [of _ b] has_receivers_cong [THEN iffD2, of _ s])

lemma failing_announces: "bs_builders s b = Some (Failing e) \<Longrightarrow> has_receivers s \<Longrightarrow> announces s"
  by (rule announces_step [OF record_error])
    (auto simp: build_record_error_def intro!: throttle_announces [of _ b] has_receivers_cong [THEN iffD2, of _ s])

lemma builder_announces: "has_builder will_announce s \<Longrightarrow> has_receivers s \<Longrightarrow> announces s"
proof -
  assume "has_builder will_announce s" and r: "has_receivers s"
  then obtain b pc where "bs_builders s b = Some pc" "will_announce pc" by (auto simp: has_builder_def)
  with r show ?thesis
    by (cases pc) (auto intro: stored_announces installed_announces created_announces connect_announces sleep_announces
        throttle_announces failing_announces)
qed

text \<open>C10. However the tasks of a babysitter interleave, a call of \<^verbatim>\<open>get_client\<close> that waits for a connection never waits in
  vain: unless the babysitter was shut down, a new client has already been announced to it or some task is
  still building one, and as soon as an attempt succeeds the call is answered with a client.\<close>

theorem get_client_never_stuck:
  assumes "reachable bs_init bs_step s" and "bs_callers s w = Some (GetClient, Waiting v)" and "\<not> bs_shutdown s"
  shows "(v < fst (bs_watch s) \<or> has_builder will_announce s)
    \<and> (\<exists>t c. bs_step\<^sup>*\<^sup>* s t \<and> bs_callers t w = Some (GetClient, Answered (Ok c)))"
proof -
  have inv: "bs_inv s" using bs.reachable_inv [OF assms(1)] .
  have answered: "\<exists>t c. bs_step\<^sup>*\<^sup>* u t \<and> bs_callers t w = Some (GetClient, Answered (Ok c))"
    if "bs_callers u w = Some (GetClient, Waiting v)" "v < fst (bs_watch u)" "snd (bs_watch u) = Some c" for u :: "'a Babysitter" and c
  proof (rule exI [of _ "client_changed w GetClient u"], rule exI [of _ c], rule conjI)
    show "bs_step\<^sup>*\<^sup>* u (client_changed w GetClient u)" using that(1,2) by (intro r_into_rtranclp changed)
    show "bs_callers (client_changed w GetClient u) w = Some (GetClient, Answered (Ok c))"
      using that(3) by (simp add: client_changed_def)
  qed
  have *: "v < fst (bs_watch s) \<or> has_builder will_announce s" using bs_invD(2) [OF inv assms(2)] assms(3) by simp
  moreover have "\<exists>t c. bs_step\<^sup>*\<^sup>* s t \<and> bs_callers t w = Some (GetClient, Answered (Ok c))"
  proof (cases "v < fst (bs_watch s)")
    case True
    then obtain c where "snd (bs_watch s) = Some c" using bs_invD(5) [OF inv] by auto
    with True assms(2) answered show ?thesis by blast
  next
    case False
    then have "announces s" using * receivers(1) [OF assms(2)] builder_announces by blast
    then obtain u c where u: "bs_step\<^sup>*\<^sup>* s u" "bs_callers u = bs_callers s" "bs_watch u = (Suc (fst (bs_watch s)), Some c)"
      by (auto simp: announces_def)
    have "v < fst (bs_watch u)" using u(3) bs_invD(4) [OF inv assms(2)] by simp
    with answered [of u c] u(2,3) assms(2) obtain t c' where "bs_step\<^sup>*\<^sup>* u t" "bs_callers t w = Some (GetClient, Answered (Ok c'))" by auto
    with u(1) show ?thesis by (meson rtranclp_trans)
  qed
  ultimately show ?thesis by blast
qed

text \<open>The first call of \<^verbatim>\<open>get_client\<close> on a babysitter that connects on demand.\<close>

definition demo_config :: "unit KvClientBabysitterClientConfig" where
  "demo_config = \<lparr>dc_target = \<lparr>kt_address = \<lparr>host = ''a'', port = 11210\<rparr>, kt_tls_config = None\<rparr>,
     dc_auth = PasswordAuthenticator ''user'' ''password'', dc_selected_bucket = None\<rparr>"

definition demo_waiting :: "unit Babysitter" where
  "demo_waiting = begin_wait 0 GetClient 0 (subscribe 0 GetClient (try_slow 0 GetClient (try_fast 0 GetClient
     (set_caller 0 (Some (GetClient, AtFast)) (babysitter_new ''b'' True 5 demo_config)))))"

lemmas babysitter_eval =
  babysitter_new_def Let_def maybe_begin_client_def begin_client_build_def set_builder_def set_closer_def set_caller_def
  try_fast_def try_slow_def subscribe_def begin_wait_def

lemma demo_waiting_caller: "bs_callers demo_waiting 0 = Some (GetClient, Waiting 0)" "\<not> bs_shutdown demo_waiting"
  by (simp_all add: demo_waiting_def babysitter_eval)

lemma demo_waiting_steps: "bs_step\<^sup>*\<^sup>* (babysitter_new ''b'' True 5 demo_config) demo_waiting"
proof -
  let ?s0 = "babysitter_new ''b'' True 5 demo_config"
  let ?s1 = "set_caller 0 (Some (GetClient, AtFast)) ?s0" let ?s2 = "try_fast 0 GetClient ?s1"
  let ?s3 = "try_slow 0 GetClient ?s2" let ?s4 = "subscribe 0 GetClient ?s3"
  have 1: "bs_step\<^sup>*\<^sup>* ?s0 ?s1" by (rule r_into_rtranclp, rule call) (simp add: babysitter_eval)
  have 2: "bs_step\<^sup>*\<^sup>* ?s0 ?s2" by (rule rtranclp.rtrancl_into_rtrancl [OF 1 fast]) (simp add: babysitter_eval)
  have 3: "bs_step\<^sup>*\<^sup>* ?s0 ?s3" by (rule rtranclp.rtrancl_into_rtrancl [OF 2 slow]) (simp add: babysitter_eval)
  have 4: "bs_step\<^sup>*\<^sup>* ?s0 ?s4" by (rule rtranclp.rtrancl_into_rtrancl [OF 3 bs_step.subscribe]) (simp add: babysitter_eval)
  show ?thesis unfolding demo_waiting_def
    by (rule rtranclp.rtrancl_into_rtrancl [OF 4 bs_step.begin_wait]) (simp add: babysitter_eval)
qed

lemma demo_waiting_reachable: "reachable bs_init bs_step demo_waiting"
  by (rule reachable_steps [OF reachable.start demo_waiting_steps]) (auto simp: bs_init_def)

theorem get_client_never_stuck_witness:
  "bs_callers demo_waiting 0 = Some (GetClient, Waiting 0) \<and> \<not> bs_shutdown demo_waiting
    \<and> (\<exists>t c. bs_step\<^sup>*\<^sup>* demo_waiting t \<and> bs_callers t 0 = Some (GetClient, Answered (Ok c)))"
  using get_client_never_stuck [OF demo_waiting_reachable demo_waiting_caller] demo_waiting_caller by blast

section \<open>A client closed behind the babysitter's back\<close>

text \<open>The client \<open>c\<close> is installed and nothing is under way: no task builds another one, no notification is on its way for
  it, and no caller is past the point where it would find the client.\<close>

definition settled :: "'tls BsClient \<Rightarrow> 'tls Babysitter \<Rightarrow> bool" where
  "settled c s \<longleftrightarrow> bs_client s = Some c \<and> bs_fast_client s = Some c \<and> bs_builders s = (\<lambda>_. None)
    \<and> (\<forall>b. bs_closers s b \<in> {None, Some Watching} \<or> (bs_closers s b = Some Notified \<and> b \<noteq> bc_id c))
    \<and> (\<forall>w p k. bs_callers s w = Some (p, k) \<longrightarrow> k \<noteq> AtSubscribe \<and> (\<forall>v. k \<noteq> Subscribed v))"

definition dead_installed :: "'tls BsClient \<Rightarrow> 'tls Babysitter \<Rightarrow> bool" where
  "dead_installed c s \<longleftrightarrow> bs_shutdown s \<or> (settled c s \<and> bc_id c \<notin> bs_alive s \<and> bs_closing s = Open)"

lemma settled_update:
  assumes "settled c s" and "bs_client t = bs_client s" "bs_fast_client t = bs_fast_client s" "bs_builders t = bs_builders s"
    and "bs_closers t = bs_closers s"
    and "\<And>w p k. bs_callers t w = Some (p, k) \<Longrightarrow> bs_callers s w = Some (p, k) \<or> (k \<noteq> AtSubscribe \<and> (\<forall>v. k \<noteq> Subscribed v))"
  shows "settled c t"
  using assms unfolding settled_def by metis

lemma dead_installed_step:
  assumes "dead_installed c s" and "bs_step s t"
  shows "dead_installed c t"
proof (cases "bs_shutdown s")
  case True
  have "bs_shutdown t"
    using assms(2) True
    by cases (auto simp: maybe_throttle_on_error_def build_attempt_def build_created_def build_failed_def build_record_error_def
        build_install_def build_store_def build_announce_def build_report_def notify_close_def closer_clear_def closer_report_def
        closer_restart_def maybe_begin_client_def try_fast_def try_slow_def subscribe_def begin_wait_def client_changed_def
        caller_shutdown_def reauth_failed_def update_auth_def update_target_def close_cancel_def close_take_def close_finish_def Let_def
        split: option.splits if_splits Authenticator.splits)
  then show ?thesis by (simp add: dead_installed_def)
next
  case False
  then have st: "settled c s" "bc_id c \<notin> bs_alive s" "bs_closing s = Open" using assms(1) by (simp_all add: dead_installed_def)
  have no_builder: "bs_builders s b = None" for b using st(1) by (simp add: settled_def)
  have not_past: "bs_callers s w \<noteq> Some (p, AtSubscribe)" "bs_callers s w \<noteq> Some (p, Subscribed v)" for w p v
    using st(1) unfolding settled_def by blast+
  have closer: "bs_closers s b \<noteq> Some Cleared" "bs_closers s b \<noteq> Some Reported" "bs_closers s (bc_id c) \<noteq> Some Notified" for b
    using st(1) unfolding settled_def by (metis Closer.distinct insertE option.distinct(1) option.inject singletonD)+
  have ref: "referenced (bc_id c) s" using st(1) by (auto simp: referenced_def settled_def)
  have inst: "bs_client s = Some c" "bs_fast_client s = Some c" using st(1) by (simp_all add: settled_def)
  show ?thesis
    using assms(2)
  proof (cases rule: bs_step.cases)
    case (client_closes b)
    with st have "b \<noteq> bc_id c" by auto
    with client_closes st show ?thesis
      by (auto simp: dead_installed_def settled_def notify_close_def set_closer_def)
  next
    case (client_dropped b)
    with ref have "b \<noteq> bc_id c" by auto
    with client_dropped st show ?thesis
      by (auto simp: dead_installed_def settled_def notify_close_def set_closer_def)
  next
    case (clear b)
    with closer have "b \<noteq> bc_id c" by auto
    with clear st show ?thesis
      by (auto simp: dead_installed_def settled_def closer_clear_def set_closer_def Let_def)
  next
    case (fast w p)
    with st inst show ?thesis
      by (auto simp: dead_installed_def try_fast_def set_caller_def intro!: settled_update [OF st(1)] split: if_splits)
  next
    case (slow w p)
    with st inst show ?thesis
      by (auto simp: dead_installed_def try_slow_def set_caller_def intro!: settled_update [OF st(1)] split: if_splits)
  qed (use False st no_builder not_past closer in
      \<open>auto simp: dead_installed_def client_changed_def caller_shutdown_def reauth_failed_def update_auth_def update_target_def
        close_cancel_def set_caller_def set_closer_def Let_def
        intro!: settled_update [OF st(1)] split: if_splits option.splits Authenticator.splits\<close>)
qed

text \<open>A re-authentication that fails closes the client but leaves it installed: if nothing else is under way, then in every
  later state, up to the shutdown of the babysitter, the closed client is still the one every call of
  \<^verbatim>\<open>get_client\<close> is answered with, and no task will ever replace it.\<close>

theorem failed_reauth_keeps_dead_client:
  assumes "settled c s" and "bs_closing s = Open" and "bs_callers s w = Some (Reauth tok, Answered (Ok c))"
    and "bs_step\<^sup>*\<^sup>* (reauth_failed w c s) t" and "\<not> bs_shutdown t"
  shows "bs_step s (reauth_failed w c s) \<and> bs_client t = Some c \<and> bs_fast_client t = Some c \<and> bc_id c \<notin> bs_alive t
    \<and> bs_builders t = (\<lambda>_. None) \<and> bs_callers (try_fast v GetClient t) v = Some (GetClient, Answered (Ok c))"
proof -
  have "settled c (reauth_failed w c s)"
    by (rule settled_update [OF assms(1)]) (auto simp: reauth_failed_def set_caller_def split: if_splits)
  then have "dead_installed c (reauth_failed w c s)"
    using assms(2) by (simp add: dead_installed_def reauth_failed_def set_caller_def)
  with assms(4) have "dead_installed c t" by (induction rule: rtranclp_induct) (auto intro: dead_installed_step)
  then show ?thesis
    using assms(3,5) by (auto simp: dead_installed_def settled_def try_fast_def set_caller_def intro: bs_step.reauth_failed)
qed

definition demo_reauth :: "unit Babysitter" where
  "demo_reauth = (let client = \<lparr>bc_id = 0, bc_config = demo_config\<rparr> in
     try_fast 0 (Reauth ''token'') (update_auth 0 (JwtAuthenticator ''token'') (build_report 0 client (build_announce 0 client
       (build_store 0 client (build_install 0 client (build_created 0 demo_config (build_attempt 0 (maybe_throttle_on_error 0
         (babysitter_new ''b'' False 5 demo_config))))))))))"

lemmas babysitter_build_eval =
  maybe_throttle_on_error_def throttle_delay_def build_attempt_def build_created_def build_install_def build_store_def
  build_announce_def build_report_def has_receivers_def update_auth_def

lemma demo_reauth_reachable: "reachable bs_init bs_step demo_reauth"
proof -
  let ?c = "\<lparr>bc_id = 0, bc_config = demo_config\<rparr>"
  let ?s0 = "babysitter_new ''b'' False 5 demo_config"
  let ?s1 = "maybe_throttle_on_error 0 ?s0" let ?s2 = "build_attempt 0 ?s1" let ?s3 = "build_created 0 demo_config ?s2"
  let ?s4 = "build_install 0 ?c ?s3" let ?s5 = "build_store 0 ?c ?s4" let ?s6 = "build_announce 0 ?c ?s5"
  let ?s7 = "build_report 0 ?c ?s6" let ?s8 = "update_auth 0 (JwtAuthenticator ''token'') ?s7"
  note eval = babysitter_eval babysitter_build_eval
  have 0: "reachable bs_init bs_step ?s0" by (rule reachable.start) (auto simp: bs_init_def)
  have 1: "reachable bs_init bs_step ?s1" by (rule reachable.trans [OF 0 bs_step.throttle]) (simp add: eval)
  have 2: "reachable bs_init bs_step ?s2" by (rule reachable.trans [OF 1 attempt [of _ _ 0]]) (simp_all add: eval)
  have 3: "reachable bs_init bs_step ?s3" by (rule reachable.trans [OF 2 created]) (simp add: eval)
  have 4: "reachable bs_init bs_step ?s4" by (rule reachable.trans [OF 3 install]) (simp add: eval)
  have 5: "reachable bs_init bs_step ?s5" by (rule reachable.trans [OF 4 store]) (simp add: eval)
  have 6: "reachable bs_init bs_step ?s6" by (rule reachable.trans [OF 5 announce]) (simp add: eval)
  have 7: "reachable bs_init bs_step ?s7" by (rule reachable.trans [OF 6 report]) (simp add: eval)
  have 8: "reachable bs_init bs_step ?s8" by (rule reachable.trans [OF 7 bs_step.update_auth]) (simp add: eval)
  show ?thesis unfolding demo_reauth_def Let_def
    by (rule reachable.trans [OF 8 fast]) (simp add: eval)
qed

lemma demo_reauth_settled:
  "settled \<lparr>bc_id = 0, bc_config = demo_config\<rparr> demo_reauth" "bs_closing demo_reauth = Open" "\<not> bs_shutdown demo_reauth"
  "bs_callers demo_reauth 0 = Some (Reauth ''token'', Answered (Ok \<lparr>bc_id = 0, bc_config = demo_config\<rparr>))"
  by (simp_all add: demo_reauth_def settled_def babysitter_eval babysitter_build_eval fun_eq_iff)

theorem failed_reauth_keeps_dead_client_witness:
  "reachable bs_init bs_step demo_reauth \<and>
    (let c = \<lparr>bc_id = 0, bc_config = demo_config\<rparr>; t = reauth_failed 0 c demo_reauth in
     bs_step demo_reauth t \<and> bs_fast_client t = Some c \<and> bc_id c \<notin> bs_alive t)"
  using failed_reauth_keeps_dead_client [OF demo_reauth_settled(1,2,4) rtranclp.rtrancl_refl] demo_reauth_settled(3) demo_reauth_reachable
  by (simp add: Let_def reauth_failed_def set_caller_def)

text \<open>A closed connection does not change the state that diagnostics report.\<close>

lemma closed_client_still_connected:
  assumes "ed_state (endpoint_diagnostics s) = Connected" and "bs_client s = Some c"
  shows "ed_state (endpoint_diagnostics (closer_clear (bc_id c) s)) = Connected
    \<and> \<not> ed_has_client (endpoint_diagnostics (closer_clear (bc_id c) s))"
  using assms by (simp add: endpoint_diagnostics_def closer_clear_def set_closer_def)

end
