(* ===== verification/Kv_Pool.thy ===== *)
theory Kv_Pool
  imports Kv_Babysitter
begin

text \<open>
  A pool of babysat connections to one endpoint (\<^verbatim>\<open>kvclientpool.rs\<close>): the babysitters behind the lock, the
  clients published without it, the task that turns reports of the babysitters into that list, and the round
  robin of \<^verbatim>\<open>get_client\<close>. The channel from the babysitters to the pool is \<open>kp_events\<close>; babysitters that were drained
  by \<^verbatim>\<open>close\<close> go on closing their clients in \<open>kp_drained\<close>.
\<close>

section \<open>State\<close>

record 'tls KvClientPoolEntry =
  pe_babysitter :: "'tls Babysitter"
  pe_client :: "'tls BsClient option"

record 'tls KvClientPool =
  kp_shutdown :: bool
  kp_client_idx :: u64
  kp_fast_map :: "'tls BsClient list"
  kp_babysitters :: "'tls KvClientPoolEntry list"
  kp_events :: "(string \<times> 'tls BsClient option) list"
  kp_drained :: "'tls Babysitter list"

text \<open>One babysitter per identifier drawn; there are as many as \<^verbatim>\<open>num_connections\<close>.\<close>

definition pool_new ::
  "string list \<Rightarrow> bool \<Rightarrow> nat \<Rightarrow> 'tls KvClientBabysitterClientConfig \<Rightarrow> 'tls KvClientPool" where
  "pool_new ids on_demand_connect throttle config =
    \<lparr>kp_shutdown = False, kp_client_idx = 0, kp_fast_map = [],
     kp_babysitters = map (\<lambda>ident. \<lparr>pe_babysitter = babysitter_new ident on_demand_connect throttle config, pe_client = None\<rparr>) ids,
     kp_events = [], kp_drained = []\<rparr>"

section \<open>Reports of the babysitters\<close>

fun set_entry_client :: "string \<Rightarrow> 'tls BsClient option \<Rightarrow> 'tls KvClientPoolEntry list \<Rightarrow> 'tls KvClientPoolEntry list" where
  "set_entry_client ident client [] = []"
| "set_entry_client ident client (e # es) =
    (if bs_id (pe_babysitter e) = ident then e\<lparr>pe_client := client\<rparr> # es else e # set_entry_client ident client es)"

fun entry_clients :: "'tls KvClientPoolEntry list \<Rightarrow> 'tls BsClient list" where
  "entry_clients [] = []"
| "entry_clients (e # es) = (case pe_client e of Some client \<Rightarrow> client # entry_clients es | None \<Rightarrow> entry_clients es)"

definition handle_state_change :: "string \<times> 'tls BsClient option \<Rightarrow> 'tls KvClientPool \<Rightarrow> 'tls KvClientPool" where
  "handle_state_change change p =
    (let es = set_entry_client (fst change) (snd change) (kp_babysitters p)
     in p\<lparr>kp_babysitters := es, kp_fast_map := entry_clients es\<rparr>)"

section \<open>Picking a client\<close>

text \<open>A pick is a client of the published list or the babysitter whose \<^verbatim>\<open>get_client\<close> is awaited. The remainder by
  the length of an empty vector panics.\<close>

datatype 'tls Pick = FromFastMap "'tls BsClient" | FromBabysitter nat

definition get_client_slow :: "'tls KvClientPool \<Rightarrow> (CoreError, 'tls Pick) result \<times> 'tls KvClientPool" where
  "get_client_slow p =
    (let idx = kp_client_idx p; n = length (kp_babysitters p); p = p\<lparr>kp_client_idx := idx + 1\<rparr>
     in (if n = 0 then Panic else Ok (FromBabysitter (unat idx mod n)), p))"

definition pool_get_client :: "'tls KvClientPool \<Rightarrow> (CoreError, 'tls Pick) result \<times> 'tls KvClientPool" where
  "pool_get_client p =
    (let n = length (kp_fast_map p)
     in if n > 0 then
          let idx = kp_client_idx p
          in (Ok (FromFastMap (kp_fast_map p ! (unat idx mod n))), p\<lparr>kp_client_idx := idx + 1\<rparr>)
        else get_client_slow p)"

fun pool_get_clients :: "nat \<Rightarrow> 'tls KvClientPool \<Rightarrow> (CoreError, 'tls Pick) result list \<times> 'tls KvClientPool" where
  "pool_get_clients 0 p = ([], p)"
| "pool_get_clients (Suc k) p =
    (let (r, p) = pool_get_client p; (rs, p) = pool_get_clients k p in (r # rs, p))"

section \<open>Reconfiguration and shutdown\<close>

definition pool_endpoint_diagnostics :: "'tls KvClientPool \<Rightarrow> EndpointDiagnostics list" where
  "pool_endpoint_diagnostics p = map (\<lambda>e. endpoint_diagnostics (pe_babysitter e)) (kp_babysitters p)"

definition map_babysitters :: "('tls Babysitter \<Rightarrow> 'tls Babysitter) \<Rightarrow> 'tls KvClientPool \<Rightarrow> 'tls KvClientPool" where
  "map_babysitters f p =
    p\<lparr>kp_babysitters := map (\<lambda>e. e\<lparr>pe_babysitter := f (pe_babysitter e)\<rparr>) (kp_babysitters p)\<rparr>"

text \<open>A ping of all clients calls \<^verbatim>\<open>get_client\<close> of every babysitter; \<open>w\<close> names the calls.\<close>

definition pool_ping_all_clients :: "nat \<Rightarrow> 'tls KvClientPool \<Rightarrow> 'tls KvClientPool" where
  "pool_ping_all_clients w = map_babysitters (set_caller w (Some (GetClient, AtFast)))"

definition pool_update_auth :: "nat \<Rightarrow> Authenticator \<Rightarrow> 'tls KvClientPool \<Rightarrow> 'tls KvClientPool" where
  "pool_update_auth w authenticator = map_babysitters (update_auth w authenticator)"

definition pool_update_target :: "'tls KvTarget \<Rightarrow> 'tls KvClientPool \<Rightarrow> 'tls KvClientPool" where
  "pool_update_target target = map_babysitters (update_target target)"

definition pool_close_swap :: "'tls KvClientPool \<Rightarrow> 'tls KvClientPool" where
  "pool_close_swap p = p\<lparr>kp_shutdown := True, kp_fast_map := []\<rparr>"

definition pool_close_drain :: "'tls KvClientPool \<Rightarrow> 'tls KvClientPool" where
  "pool_close_drain p =
    p\<lparr>kp_babysitters := [], kp_drained := kp_drained p @ map (\<lambda>e. close_cancel (pe_babysitter e)) (kp_babysitters p)\<rparr>"

definition pool_close :: "'tls KvClientPool \<Rightarrow> 'tls KvClientPool" where
  "pool_close p = pool_close_drain (pool_close_swap p)"

section \<open>Steps\<close>

text \<open>A step of one babysitter sends its reports into the channel of the pool.\<close>

definition babysitter_moves :: "nat \<Rightarrow> 'tls Babysitter \<Rightarrow> 'tls KvClientPool \<Rightarrow> 'tls KvClientPool" where
  "babysitter_moves i b p =
    (let e = kp_babysitters p ! i in
     p\<lparr>kp_babysitters := (kp_babysitters p)[i := e\<lparr>pe_babysitter := b\<rparr>],
       kp_events := kp_events p @ drop (length (bs_events (pe_babysitter e))) (bs_events b)\<rparr>)"

inductive pool_step :: "'tls KvClientPool \<Rightarrow> 'tls KvClientPool \<Rightarrow> bool" where
  babysitter: "i < length (kp_babysitters p) \<Longrightarrow> bs_step (pe_babysitter (kp_babysitters p ! i)) b \<Longrightarrow>
    pool_step p (babysitter_moves i b p)"
| handle: "kp_events p = ev # evs \<Longrightarrow> pool_step p (handle_state_change ev (p\<lparr>kp_events := evs\<rparr>))"
| get: "pool_step p (snd (pool_get_client p))"
| auth: "pool_step p (pool_update_auth w a p)"
| target: "pool_step p (pool_update_target t p)"
| close_swap: "\<not> kp_shutdown p \<Longrightarrow> pool_step p (pool_close_swap p)"
| close_drain: "kp_shutdown p \<Longrightarrow> pool_step p (pool_close_drain p)"

definition pool_init :: "nat \<Rightarrow> 'tls KvClientPool \<Rightarrow> bool" where
  "pool_init n p \<longleftrightarrow> (\<exists>ids on_demand throttle config. p = pool_new ids on_demand throttle config \<and> length ids = n)"

section \<open>Bounds\<close>

text \<open>What an open pool keeps: as many babysitters as connections were asked for, and the published list is the
  clients that the entries record.\<close>

definition pool_inv :: "nat \<Rightarrow> 'tls KvClientPool \<Rightarrow> bool" where
  "pool_inv n p \<longleftrightarrow> kp_shutdown p \<or> (length (kp_babysitters p) = n \<and> kp_fast_map p = entry_clients (kp_babysitters p))"

lemma set_entry_client_length [simp]: "length (set_entry_client i c es) = length es"
  by (induction es) auto

lemma entry_clients_cong: "map pe_client es = map pe_client es' \<Longrightarrow> entry_clients es = entry_clients es'"
  by (induction es es' rule: list_induct2' ) (auto split: option.splits)

lemma entry_clients_length: "length (entry_clients es) \<le> length es"
  by (induction es) (auto split: option.splits)

lemma map_babysitters_sel [simp]:
  "length (kp_babysitters (map_babysitters f p)) = length (kp_babysitters p)"
  "entry_clients (kp_babysitters (map_babysitters f p)) = entry_clients (kp_babysitters p)"
  "kp_shutdown (map_babysitters f p) = kp_shutdown p" "kp_fast_map (map_babysitters f p) = kp_fast_map p"
  "kp_client_idx (map_babysitters f p) = kp_client_idx p"
  by (auto simp: map_babysitters_def intro!: entry_clients_cong)

lemma babysitter_moves_sel [simp]:
  "length (kp_babysitters (babysitter_moves i b p)) = length (kp_babysitters p)"
  "kp_shutdown (babysitter_moves i b p) = kp_shutdown p" "kp_fast_map (babysitter_moves i b p) = kp_fast_map p"
  by (simp_all add: babysitter_moves_def Let_def)

lemma babysitter_moves_clients:
  "i < length (kp_babysitters p) \<Longrightarrow> entry_clients (kp_babysitters (babysitter_moves i b p)) = entry_clients (kp_babysitters p)"
  by (auto simp: babysitter_moves_def Let_def map_update intro!: entry_clients_cong) (metis list_update_id map_update)

lemma pool_get_client_keeps [simp]:
  "kp_shutdown (snd (pool_get_client p)) = kp_shutdown p" "kp_fast_map (snd (pool_get_client p)) = kp_fast_map p"
  "kp_babysitters (snd (pool_get_client p)) = kp_babysitters p"
  "kp_client_idx (snd (pool_get_client p)) = kp_client_idx p + 1"
  by (simp_all add: pool_get_client_def get_client_slow_def Let_def)

lemma pool_init_inv: "pool_init n p \<Longrightarrow> pool_inv n p"
proof -
  have "entry_clients (map (\<lambda>i. \<lparr>pe_babysitter = f i, pe_client = None\<rparr>) ids) = []"
    for f :: "string \<Rightarrow> 'a Babysitter" and ids
    by (induction ids) auto
  then show "pool_init n p \<Longrightarrow> pool_inv n p" by (auto simp: pool_init_def pool_new_def pool_inv_def)
qed

lemma pool_step_inv: "pool_step p q \<Longrightarrow> pool_inv n p \<Longrightarrow> pool_inv n q"
  by (induction rule: pool_step.induct)
    (auto simp: pool_inv_def handle_state_change_def pool_update_auth_def pool_update_target_def pool_close_swap_def pool_close_drain_def
      Let_def babysitter_moves_clients)

interpretation pool: invariant_system "pool_init n" pool_step "pool_inv n" for n
  by unfold_locales (auto intro: pool_init_inv pool_step_inv)

text \<open>C31. Whatever the babysitters, the reports and the reconfigurations of a pool do, as long as it is open and was made for
  at least one connection, \<^verbatim>\<open>get_client\<close> indexes within its vectors and does not panic: it returns a client that
  a babysitter reported, or waits for a babysitter only when no client is published.\<close>

theorem pool_get_client_in_range:
  assumes "reachable (pool_init n) pool_step p" and "\<not> kp_shutdown p" and "0 < n"
  shows "(\<exists>e \<in> set (kp_babysitters p). \<exists>c. pe_client e = Some c \<and> fst (pool_get_client p) = Ok (FromFastMap c))
    \<or> (kp_fast_map p = [] \<and> (\<exists>i < n. fst (pool_get_client p) = Ok (FromBabysitter i)))"
proof -
  have inv: "length (kp_babysitters p) = n" "kp_fast_map p = entry_clients (kp_babysitters p)"
    using pool.reachable_inv [OF assms(1)] assms(2) by (auto simp: pool_inv_def)
  have src: "c \<in> set (entry_clients es) \<Longrightarrow> \<exists>e \<in> set es. pe_client e = Some c" for c and es :: "'a KvClientPoolEntry list"
    by (induction es) (auto split: option.splits)
  show ?thesis
  proof (cases "kp_fast_map p = []")
    case True
    with inv(1) assms(3) show ?thesis by (simp add: pool_get_client_def get_client_slow_def Let_def)
  next
    case False
    then have "kp_fast_map p ! (unat (kp_client_idx p) mod length (kp_fast_map p)) \<in> set (entry_clients (kp_babysitters p))"
      using inv(2) by (metis length_greater_0_conv mod_less_divisor nth_mem)
    from src [OF this] False show ?thesis by (auto simp: pool_get_client_def Let_def)
  qed
qed

definition demo_pool :: "unit KvClientPool" where
  "demo_pool = pool_new [''b''] True 5 demo_config"

lemma demo_pool_reachable: "reachable (pool_init 1) pool_step demo_pool"
  by (rule reachable.start) (auto simp: pool_init_def demo_pool_def intro!: exI [of _ "[''b'']"])

theorem pool_get_client_in_range_witness:
  "\<exists>i < 1. fst (pool_get_client demo_pool) = Ok (FromBabysitter i)"
  using pool_get_client_in_range [OF demo_pool_reachable] by (simp add: demo_pool_def pool_new_def)

section \<open>Round robin\<close>

lemma picks_in_order:
  assumes "kp_fast_map p \<noteq> []" and "unat (kp_client_idx p) + k \<le> 2 ^ 64"
  shows "fst (pool_get_clients k p)
    = map (\<lambda>i. Ok (FromFastMap (kp_fast_map p ! ((unat (kp_client_idx p) + i) mod length (kp_fast_map p))))) [0..<k]"
  using assms
proof (induction k arbitrary: p)
  case (Suc k)
  let ?q = "snd (pool_get_client p)"
  have first: "fst (pool_get_client p) = Ok (FromFastMap (kp_fast_map p ! (unat (kp_client_idx p) mod length (kp_fast_map p))))"
    using Suc.prems(1) by (simp add: pool_get_client_def Let_def)
  have rest: "fst (pool_get_clients k ?q)
    = map (\<lambda>i. Ok (FromFastMap (kp_fast_map p ! ((unat (kp_client_idx p) + Suc i) mod length (kp_fast_map p))))) [0..<k]"
  proof (cases k)
    case (Suc k')
    with Suc.prems(2) have "unat (kp_client_idx p + 1) = unat (kp_client_idx p) + 1"
      by (simp add: unat_word_ariths)
    with Suc.IH [of ?q] Suc.prems show ?thesis by simp
  qed simp
  show ?case
    using first rest by (simp add: case_prod_beta Let_def map_upt_Suc del: upt_Suc)
qed simp

text \<open>While the published list stays the same, as many calls of \<^verbatim>\<open>get_client\<close> in a row as it has clients are
  answered with every client exactly once, in the order of the list from some position on; the counter may not
  overflow meanwhile.\<close>

theorem pool_round_robin:
  assumes "kp_fast_map p \<noteq> []" and "unat (kp_client_idx p) + length (kp_fast_map p) \<le> 2 ^ 64"
  shows "fst (pool_get_clients (length (kp_fast_map p)) p)
    = map (\<lambda>c. Ok (FromFastMap c)) (rotate (unat (kp_client_idx p)) (kp_fast_map p))"
  using picks_in_order [OF assms] assms(1) by (auto intro!: nth_equalityI simp: nth_rotate)

definition demo_round :: "unit KvClientPool" where
  "demo_round = demo_pool\<lparr>kp_fast_map := [\<lparr>bc_id = 0, bc_config = demo_config\<rparr>, \<lparr>bc_id = 1, bc_config = demo_config\<rparr>],
     kp_client_idx := 3\<rparr>"

lemma demo_round_sel:
  "kp_fast_map demo_round = [\<lparr>bc_id = 0, bc_config = demo_config\<rparr>, \<lparr>bc_id = 1, bc_config = demo_config\<rparr>]"
  "unat (kp_client_idx demo_round) = 3"
  by (simp_all add: demo_round_def)

theorem pool_round_robin_witness:
  "fst (pool_get_clients (length (kp_fast_map demo_round)) demo_round)
    = [Ok (FromFastMap \<lparr>bc_id = 1, bc_config = demo_config\<rparr>), Ok (FromFastMap \<lparr>bc_id = 0, bc_config = demo_config\<rparr>)]"
proof -
  have "rotate 3 (kp_fast_map demo_round) = [\<lparr>bc_id = 1, bc_config = demo_config\<rparr>, \<lparr>bc_id = 0, bc_config = demo_config\<rparr>]"
    by (simp add: demo_round_sel numeral_3_eq_3)
  moreover have "unat (kp_client_idx demo_round) + length (kp_fast_map demo_round) \<le> 2 ^ 64" by (simp add: demo_round_sel)
  ultimately show ?thesis using pool_round_robin [of demo_round] by (simp add: demo_round_sel(2) del: length_Cons) (simp add: demo_round_sel)
qed

text \<open>A closed pool has no babysitter left, and a call that still reaches it panics.\<close>

lemma closed_pool_panics: "fst (pool_get_client (pool_close p)) = Panic"
  by (simp add: pool_close_def pool_close_swap_def pool_close_drain_def pool_get_client_def get_client_slow_def)

section \<open>Reports out of order\<close>

lemma events_extend: "bs_step s t \<Longrightarrow> \<exists>xs. bs_events t = bs_events s @ xs"
  by (cases rule: bs_step.cases, assumption)
    (auto simp: maybe_throttle_on_error_def build_attempt_def build_created_def build_failed_def build_record_error_def
      build_install_def build_store_def build_announce_def build_report_def notify_close_def closer_clear_def closer_report_def
      closer_restart_def maybe_begin_client_def begin_client_build_def try_fast_def try_slow_def subscribe_def begin_wait_def
      client_changed_def caller_shutdown_def reauth_failed_def update_auth_def update_target_def close_cancel_def close_take_def
      close_finish_def set_builder_def set_closer_def set_caller_def Let_def split: option.splits if_splits Authenticator.splits)

lemma babysitter_runs:
  assumes "bs_step\<^sup>*\<^sup>* b b'" and "kp_babysitters p = [e]" and "pe_babysitter e = b" and "bs_events b = []" and "kp_events p = []"
  shows "pool_step\<^sup>*\<^sup>* p (p\<lparr>kp_babysitters := [e\<lparr>pe_babysitter := b'\<rparr>], kp_events := bs_events b'\<rparr>)"
  using assms(1)
proof (induction rule: rtranclp_induct)
  case base
  have "p\<lparr>kp_babysitters := [e\<lparr>pe_babysitter := b\<rparr>], kp_events := bs_events b\<rparr> = p" using assms(2-5) by simp
  then show ?case by simp
next
  case (step y z)
  let ?p = "\<lambda>y. p\<lparr>kp_babysitters := [e\<lparr>pe_babysitter := y\<rparr>], kp_events := bs_events y\<rparr>"
  have "pool_step (?p y) (babysitter_moves 0 z (?p y))" by (rule pool_step.babysitter) (use step(2) in simp_all)
  moreover have "babysitter_moves 0 z (?p y) = ?p z" using events_extend [OF step(2)] by (auto simp: babysitter_moves_def)
  ultimately show ?case using step(3) by (metis (lifting) rtranclp.rtrancl_into_rtrancl)
qed

text \<open>A connection of an on-demand pool that is lost right after it was announced: the task that saw it close reports
  before the task that built it.\<close>

definition demo_client :: "unit BsClient" where
  "demo_client = \<lparr>bc_id = 0, bc_config = demo_config\<rparr>"

definition demo_stored :: "unit Babysitter" where
  "demo_stored = build_store 0 demo_client (build_install 0 demo_client (build_created 0 demo_config (build_attempt 0
     (maybe_throttle_on_error 0 demo_waiting))))"

definition demo_closed :: "unit Babysitter" where
  "demo_closed = (let announced = build_announce 0 demo_client demo_stored
     in notify_close 0 (announced\<lparr>bs_alive := bs_alive announced - {0}\<rparr>))"

definition demo_late :: "unit Babysitter" where
  "demo_late = client_changed 0 GetClient (build_report 0 demo_client (closer_restart 0 (closer_report 0 (closer_clear 0 demo_closed))))"

lemmas demo_eval = babysitter_eval maybe_throttle_on_error_def throttle_delay_def build_attempt_def build_created_def build_install_def
  build_store_def build_report_def notify_close_def closer_clear_def closer_report_def closer_restart_def client_changed_def
  demo_waiting_def demo_client_def

lemma demo_stored_announced:
  "build_announce 0 demo_client demo_stored =
    set_builder 0 (Some (Announced demo_client)) (demo_stored\<lparr>bs_watch := (Suc (fst (bs_watch demo_stored)), Some demo_client)\<rparr>)"
proof -
  have "has_receivers demo_stored" by (rule receivers(1) [of _ 0 GetClient 0]) (simp add: demo_stored_def demo_eval)
  then show ?thesis by (simp add: build_announce_def)
qed

lemma demo_closed_eq:
  "demo_closed = demo_stored\<lparr>bs_watch := (1, Some demo_client), bs_alive := {}, bs_builders := [0 \<mapsto> Announced demo_client],
     bs_closers := [0 \<mapsto> Notified]\<rparr>"
  by (simp add: demo_closed_def demo_stored_announced) (simp add: demo_stored_def demo_eval)

lemma demo_late_sel:
  "bs_events demo_late = [(''b'', None), (''b'', Some demo_client)]" "bs_id demo_late = ''b''"
  "bs_client demo_late = None" "bs_builders demo_late = (\<lambda>_. None)" "bs_closers demo_late = (\<lambda>_. None)" "bs_alive demo_late = {}"
  by (simp_all add: demo_late_def demo_closed_eq demo_stored_def demo_eval)

lemma demo_late_steps: "bs_step\<^sup>*\<^sup>* demo_waiting demo_late"
proof -
  let ?s1 = "maybe_throttle_on_error 0 demo_waiting" let ?s2 = "build_attempt 0 ?s1" let ?s3 = "build_created 0 demo_config ?s2"
  let ?s4 = "build_install 0 demo_client ?s3" let ?s6 = "build_announce 0 demo_client demo_stored"
  let ?s8 = "closer_clear 0 demo_closed" let ?s9 = "closer_report 0 ?s8"
  let ?s10 = "closer_restart 0 ?s9" let ?s11 = "build_report 0 demo_client ?s10"
  note into = rtranclp.rtrancl_into_rtrancl and closed = demo_closed_eq demo_stored_def
  have 1: "bs_step\<^sup>*\<^sup>* demo_waiting ?s1" by (rule r_into_rtranclp, rule throttle) (simp add: demo_eval)
  have 2: "bs_step\<^sup>*\<^sup>* demo_waiting ?s2" by (rule into [OF 1 attempt [of _ _ 0]]) (simp_all add: demo_eval)
  have 3: "bs_step\<^sup>*\<^sup>* demo_waiting ?s3" by (rule into [OF 2 created]) (simp add: demo_eval)
  have 4: "bs_step\<^sup>*\<^sup>* demo_waiting ?s4" by (rule into [OF 3 install]) (simp add: demo_eval)
  have 5: "bs_step\<^sup>*\<^sup>* demo_waiting demo_stored" unfolding demo_stored_def by (rule into [OF 4 store]) (simp add: demo_eval)
  have 6: "bs_step\<^sup>*\<^sup>* demo_waiting ?s6" by (rule into [OF 5 announce]) (simp add: demo_stored_def demo_eval)
  have 7: "bs_step\<^sup>*\<^sup>* demo_waiting demo_closed" unfolding demo_closed_def Let_def
    by (rule into [OF 6 client_closes]) (simp add: demo_stored_announced, simp add: demo_stored_def demo_eval)
  have 8: "bs_step\<^sup>*\<^sup>* demo_waiting ?s8" by (rule into [OF 7 clear]) (simp add: closed)
  have 9: "bs_step\<^sup>*\<^sup>* demo_waiting ?s9" by (rule into [OF 8 report_close]) (simp add: closed demo_eval)
  have 10: "bs_step\<^sup>*\<^sup>* demo_waiting ?s10" by (rule into [OF 9 restart]) (simp add: closed demo_eval)
  have 11: "bs_step\<^sup>*\<^sup>* demo_waiting ?s11" by (rule into [OF 10 report]) (simp add: closed demo_eval)
  show ?thesis unfolding demo_late_def by (rule into [OF 11 changed [of _ _ _ 0]]) (simp_all add: closed demo_eval)
qed

text \<open>The reports of a babysitter can reach the pool in the wrong order: the pool then publishes a closed client of a babysitter
  that has none and has nothing under way, and \<^verbatim>\<open>get_client\<close> is answered with that client.\<close>

theorem late_report_publishes_dead_client:
  "\<exists>(p :: unit KvClientPool) e c. reachable (pool_init 1) pool_step p \<and> \<not> kp_shutdown p \<and> kp_babysitters p = [e] \<and> kp_events p = []
    \<and> bs_client (pe_babysitter e) = None \<and> bs_builders (pe_babysitter e) = (\<lambda>_. None) \<and> bs_closers (pe_babysitter e) = (\<lambda>_. None)
    \<and> bs_alive (pe_babysitter e) = {} \<and> fst (pool_get_client p) = Ok (FromFastMap c)"
proof -
  let ?c = demo_client and ?b = "babysitter_new ''b'' True 5 demo_config"
  let ?e = "\<lparr>pe_babysitter = ?b, pe_client = None\<rparr>"
  let ?p1 = "demo_pool\<lparr>kp_babysitters := [?e\<lparr>pe_babysitter := demo_late\<rparr>], kp_events := bs_events demo_late\<rparr>"
  let ?p2 = "handle_state_change (''b'', None) (?p1\<lparr>kp_events := [(''b'', Some ?c)]\<rparr>)"
  let ?p3 = "handle_state_change (''b'', Some ?c) (?p2\<lparr>kp_events := []\<rparr>)"
  have "pool_step\<^sup>*\<^sup>* demo_pool ?p1"
    by (rule babysitter_runs [OF rtranclp_trans [OF demo_waiting_steps demo_late_steps]])
      (simp_all add: demo_pool_def pool_new_def babysitter_eval)
  from reachable_steps [OF demo_pool_reachable this] have 1: "reachable (pool_init 1) pool_step ?p1" .
  have 2: "reachable (pool_init 1) pool_step ?p2" by (rule reachable.trans [OF 1 handle]) (simp add: demo_late_sel)
  have 3: "reachable (pool_init 1) pool_step ?p3"
    by (rule reachable.trans [OF 2 handle]) (simp add: handle_state_change_def Let_def)
  show ?thesis
    by (rule exI [of _ ?p3], rule exI [of _ "\<lparr>pe_babysitter = demo_late, pe_client = Some ?c\<rparr>"], rule exI [of _ ?c])
      (use 3 in \<open>simp add: handle_state_change_def Let_def demo_late_sel pool_get_client_def demo_pool_def pool_new_def\<close>)
qed

end
