(* ===== verification/Kv_Endpoints.thy ===== *)
theory Kv_Endpoints
  imports Kv_Pool
begin

text \<open>
  The manager of the pools of all endpoints (\<^verbatim>\<open>kvendpointclientmanager.rs\<close>) and how the agent reconfigures it
  together with the router (\<^verbatim>\<open>AgentInner::update_state_locked\<close>). Pools are shared between the locked and the
  published map, so they live in a store and the maps hold their addresses. The endpoints of an update are a
  list in the order in which the hash map is walked.
\<close>

section \<open>State\<close>

record 'tls KvEndpointClientManager =
  em_on_demand_connect :: bool
  em_num_pool_connections :: nat
  em_connect_throttle_period :: nat
  em_auth :: Authenticator
  em_selected_bucket :: "string option"
  em_slow :: "string \<rightharpoonup> nat"
  em_fast :: "string \<rightharpoonup> nat"
  em_pools :: "nat \<rightharpoonup> 'tls KvClientPool"
  em_next :: nat

definition change_pool :: "nat \<Rightarrow> ('tls KvClientPool \<Rightarrow> 'tls KvClientPool) \<Rightarrow> 'tls KvEndpointClientManager \<Rightarrow> 'tls KvEndpointClientManager" where
  "change_pool h f m = m\<lparr>em_pools := (em_pools m)(h := map_option f (em_pools m h))\<rparr>"

section \<open>Changing the endpoints\<close>

definition new_pool :: "(nat \<Rightarrow> nat \<Rightarrow> string) \<Rightarrow> 'tls KvTarget \<Rightarrow> 'tls KvEndpointClientManager \<Rightarrow> 'tls KvClientPool" where
  "new_pool uuid target m =
    pool_new (map (uuid (em_next m)) [0..<em_num_pool_connections m]) (em_on_demand_connect m) (em_connect_throttle_period m)
      \<lparr>dc_target = target, dc_auth = em_auth m, dc_selected_bucket = em_selected_bucket m\<rparr>"

definition add_pool :: "(nat \<Rightarrow> nat \<Rightarrow> string) \<Rightarrow> 'tls KvTarget \<Rightarrow> 'tls KvEndpointClientManager \<Rightarrow> 'tls KvEndpointClientManager" where
  "add_pool uuid t m = m\<lparr>em_pools := (em_pools m)(em_next m \<mapsto> new_pool uuid t m), em_next := Suc (em_next m)\<rparr>"

fun update_loop ::
  "(nat \<Rightarrow> nat \<Rightarrow> string) \<Rightarrow> (string \<times> 'tls KvTarget) list \<Rightarrow> (string \<rightharpoonup> nat) \<Rightarrow> (string \<rightharpoonup> nat) \<Rightarrow> 'tls KvEndpointClientManager
    \<Rightarrow> (string \<rightharpoonup> nat) \<times> (string \<rightharpoonup> nat) \<times> 'tls KvEndpointClientManager" where
  "update_loop uuid [] old_pools new_pools m = (old_pools, new_pools, m)"
| "update_loop uuid ((endpoint, target) # endpoints) old_pools new_pools m =
    (case old_pools endpoint of
       Some h \<Rightarrow>
         update_loop uuid endpoints (old_pools(endpoint := None)) (new_pools(endpoint \<mapsto> h)) (change_pool h (pool_update_target target) m)
     | None \<Rightarrow>
         update_loop uuid endpoints old_pools (new_pools(endpoint \<mapsto> em_next m)) (add_pool uuid target m))"

text \<open>\<open>olds\<close> is the order in which the pools that are left over are walked.\<close>

fun close_pools :: "string list \<Rightarrow> (string \<rightharpoonup> nat) \<Rightarrow> 'tls KvEndpointClientManager \<Rightarrow> 'tls KvEndpointClientManager" where
  "close_pools [] old_pools m = m"
| "close_pools (endpoint # olds) old_pools m =
    close_pools olds old_pools (case old_pools endpoint of None \<Rightarrow> m | Some h \<Rightarrow> change_pool h pool_close m)"

text \<open>Everything up to the publication of the new map happens while the old one is still published.\<close>

definition update_endpoints_prepare ::
  "(nat \<Rightarrow> nat \<Rightarrow> string) \<Rightarrow> string list \<Rightarrow> (string \<times> 'tls KvTarget) list \<Rightarrow> bool \<Rightarrow> 'tls KvEndpointClientManager
    \<Rightarrow> (string \<rightharpoonup> nat) \<times> 'tls KvEndpointClientManager" where
  "update_endpoints_prepare uuid olds endpoints add_only m =
    (let (old_pools, new_pools, m) = update_loop uuid endpoints (em_slow m) Map.empty m
     in if add_only then (new_pools ++ old_pools, m) else (new_pools, close_pools olds old_pools m))"

definition update_endpoints_publish :: "(string \<rightharpoonup> nat) \<times> 'tls KvEndpointClientManager \<Rightarrow> 'tls KvEndpointClientManager" where
  "update_endpoints_publish x = (snd x)\<lparr>em_slow := fst x, em_fast := fst x\<rparr>"

definition update_endpoints ::
  "(nat \<Rightarrow> nat \<Rightarrow> string) \<Rightarrow> string list \<Rightarrow> (string \<times> 'tls KvTarget) list \<Rightarrow> bool \<Rightarrow> 'tls KvEndpointClientManager
    \<Rightarrow> 'tls KvEndpointClientManager" where
  "update_endpoints uuid olds endpoints add_only m = update_endpoints_publish (update_endpoints_prepare uuid olds endpoints add_only m)"

definition endpoint_manager_new ::
  "(nat \<Rightarrow> nat \<Rightarrow> string) \<Rightarrow> bool \<Rightarrow> nat \<Rightarrow> nat \<Rightarrow> Authenticator \<Rightarrow> string option \<Rightarrow> (string \<times> 'tls KvTarget) list
    \<Rightarrow> 'tls KvEndpointClientManager" where
  "endpoint_manager_new uuid on_demand_connect num_pool_connections throttle authenticator bucket endpoints =
    update_endpoints uuid [] endpoints False
      \<lparr>em_on_demand_connect = on_demand_connect, em_num_pool_connections = num_pool_connections,
       em_connect_throttle_period = throttle, em_auth = authenticator, em_selected_bucket = bucket,
       em_slow = Map.empty, em_fast = Map.empty, em_pools = Map.empty, em_next = 0\<rparr>"

section \<open>Clients and credentials\<close>

definition invalid_endpoint :: CoreError where
  "invalid_endpoint = core_message_error ''invalid endpoint''"

definition pick_from ::
  "nat \<Rightarrow> 'tls KvEndpointClientManager \<Rightarrow> (CoreError, 'tls Pick) result \<times> 'tls KvEndpointClientManager" where
  "pick_from h m =
    (case em_pools m h of
       Some p \<Rightarrow> (let (r, p') = pool_get_client p in (r, m\<lparr>em_pools := (em_pools m)(h \<mapsto> p')\<rparr>))
     | None \<Rightarrow> (Err invalid_endpoint, m))"

text \<open>\<open>first\<close> is the endpoint that a walk of the published map meets first.\<close>

definition manager_get_client ::
  "string option \<Rightarrow> 'tls KvEndpointClientManager \<Rightarrow> (CoreError, 'tls Pick) result \<times> 'tls KvEndpointClientManager" where
  "manager_get_client first m =
    (case Option.bind first (em_fast m) of Some h \<Rightarrow> pick_from h m | None \<Rightarrow> (Err invalid_endpoint, m))"

definition get_endpoint_client ::
  "string \<Rightarrow> 'tls KvEndpointClientManager \<Rightarrow> (CoreError, 'tls Pick) result \<times> 'tls KvEndpointClientManager" where
  "get_endpoint_client endpoint m =
    (case em_fast m endpoint of Some h \<Rightarrow> pick_from h m | None \<Rightarrow> (Err invalid_endpoint, m))"

fun update_auth_loop :: "nat \<Rightarrow> Authenticator \<Rightarrow> string list \<Rightarrow> 'tls KvEndpointClientManager \<Rightarrow> 'tls KvEndpointClientManager" where
  "update_auth_loop w authenticator [] m = m"
| "update_auth_loop w authenticator (endpoint # endpoints) m =
    update_auth_loop w authenticator endpoints
      (case em_slow m endpoint of None \<Rightarrow> m | Some h \<Rightarrow> change_pool h (pool_update_auth w authenticator) m)"

definition manager_update_auth :: "nat \<Rightarrow> Authenticator \<Rightarrow> string list \<Rightarrow> 'tls KvEndpointClientManager \<Rightarrow> 'tls KvEndpointClientManager" where
  "manager_update_auth w authenticator order m = update_auth_loop w authenticator order (m\<lparr>em_auth := authenticator\<rparr>)"

fun manager_ping_all_clients :: "nat \<Rightarrow> string list \<Rightarrow> 'tls KvEndpointClientManager \<Rightarrow> 'tls KvEndpointClientManager" where
  "manager_ping_all_clients w [] m = m"
| "manager_ping_all_clients w (endpoint # order) m =
    manager_ping_all_clients w order
      (case em_fast m endpoint of None \<Rightarrow> m | Some h \<Rightarrow> change_pool h (pool_ping_all_clients w) m)"

definition manager_endpoint_diagnostics :: "string list \<Rightarrow> 'tls KvEndpointClientManager \<Rightarrow> EndpointDiagnostics list" where
  "manager_endpoint_diagnostics order m =
    concat (map pool_endpoint_diagnostics (List.map_filter (\<lambda>e. Option.bind (em_fast m e) (em_pools m)) order))"

fun get_client_per_endpoint ::
  "string list \<Rightarrow> 'tls KvEndpointClientManager \<Rightarrow> (CoreError, 'tls Pick list) result \<times> 'tls KvEndpointClientManager" where
  "get_client_per_endpoint [] m = (Ok [], m)"
| "get_client_per_endpoint (endpoint # order) m =
    (case get_endpoint_client endpoint m of
       (Ok client, m) \<Rightarrow> (let (clients, m) = get_client_per_endpoint order m in (and_then clients (\<lambda>cs. Ok (client # cs)), m))
     | (Err e, m) \<Rightarrow> (Err e, m)
     | (Panic, m) \<Rightarrow> (Panic, m))"

section \<open>What an update does\<close>

text \<open>An open pool all of whose connections have the target \<open>t\<close> and the credentials and bucket of the manager.\<close>

definition serves :: "'tls KvEndpointClientManager \<Rightarrow> 'tls KvTarget \<Rightarrow> 'tls KvClientPool \<Rightarrow> bool" where
  "serves m t p \<longleftrightarrow> \<not> kp_shutdown p \<and> map (\<lambda>e. bs_desired_config (pe_babysitter e)) (kp_babysitters p)
    = replicate (em_num_pool_connections m) \<lparr>dc_target = t, dc_auth = em_auth m, dc_selected_bucket = em_selected_bucket m\<rparr>"

definition serves_at :: "'tls KvEndpointClientManager \<Rightarrow> nat \<Rightarrow> 'tls KvTarget \<Rightarrow> bool" where
  "serves_at m h t \<longleftrightarrow> (\<exists>p. em_pools m h = Some p \<and> serves m t p)"

text \<open>Every endpoint has an open pool of its own.\<close>

definition pools_wf :: "(string \<rightharpoonup> nat) \<Rightarrow> 'tls KvEndpointClientManager \<Rightarrow> bool" where
  "pools_wf M m \<longleftrightarrow> inj_on M (dom M) \<and> (\<forall>e h. M e = Some h \<longrightarrow> h < em_next m \<and> (\<exists>t. serves_at m h t))"

definition manager_inv :: "'tls KvEndpointClientManager \<Rightarrow> bool" where
  "manager_inv m \<longleftrightarrow> em_fast m = em_slow m \<and> pools_wf (em_slow m) m"

definition same_settings :: "'tls KvEndpointClientManager \<Rightarrow> 'tls KvEndpointClientManager \<Rightarrow> bool" where
  "same_settings m m' \<longleftrightarrow> em_num_pool_connections m' = em_num_pool_connections m \<and> em_auth m' = em_auth m
    \<and> em_selected_bucket m' = em_selected_bucket m \<and> em_slow m' = em_slow m \<and> em_fast m' = em_fast m"

lemma serves_cong: "same_settings m m' \<Longrightarrow> serves m' t p = serves m t p"
  by (simp add: same_settings_def serves_def)

lemma same_settings_refl [simp]: "same_settings m m"
  by (simp add: same_settings_def)

lemma same_settings_trans: "same_settings m m' \<Longrightarrow> same_settings m' m'' \<Longrightarrow> same_settings m m''"
  by (simp add: same_settings_def)

lemma change_pool_sel [simp]:
  "same_settings m (change_pool h f m)" "em_next (change_pool h f m) = em_next m"
  "em_pools (change_pool h f m) = (em_pools m)(h := map_option f (em_pools m h))"
  by (simp_all add: change_pool_def same_settings_def)

lemma babysitter_new_config: "bs_desired_config (babysitter_new i od th cfg) = cfg"
  by (simp add: babysitter_new_def Let_def maybe_begin_client_def begin_client_build_def)

lemma new_pool_serves: "serves m t (new_pool uuid t m)"
  by (simp add: serves_def new_pool_def pool_new_def babysitter_new_config comp_def map_replicate_const)

lemma update_target_serves: "serves m t p \<Longrightarrow> serves m t' (pool_update_target t' p)"
proof -
  assume a: "serves m t p"
  let ?f = "\<lambda>c :: 'a KvClientBabysitterClientConfig. c\<lparr>dc_target := t'\<rparr>"
  have "map (\<lambda>e. bs_desired_config (pe_babysitter e)) (kp_babysitters (pool_update_target t' p))
    = map ?f (map (\<lambda>e. bs_desired_config (pe_babysitter e)) (kp_babysitters p))"
    by (simp add: pool_update_target_def map_babysitters_def update_target_def)
  with a show ?thesis by (simp add: serves_def pool_update_target_def)
qed

lemma update_auth_serves: "serves m t p \<Longrightarrow> serves (m\<lparr>em_auth := a\<rparr>) t (pool_update_auth w a p)"
proof -
  assume s: "serves m t p"
  let ?f = "\<lambda>c :: 'a KvClientBabysitterClientConfig. c\<lparr>dc_auth := a\<rparr>"
  have "map (\<lambda>e. bs_desired_config (pe_babysitter e)) (kp_babysitters (pool_update_auth w a p))
    = map ?f (map (\<lambda>e. bs_desired_config (pe_babysitter e)) (kp_babysitters p))"
    by (auto simp: pool_update_auth_def map_babysitters_def update_auth_def set_caller_def Let_def split: Authenticator.split)
  with s show ?thesis by (simp add: serves_def pool_update_auth_def)
qed

lemma pools_wfD:
  assumes "pools_wf M m"
  shows "M e = Some h \<Longrightarrow> h < em_next m" and "M e = Some h \<Longrightarrow> \<exists>t. serves_at m h t"
    and "M e = Some h \<Longrightarrow> M e' = Some h \<Longrightarrow> e = e'"
  using assms unfolding pools_wf_def inj_on_def by (blast, blast, metis domI)

lemma pools_wfI:
  assumes "\<And>e h. M e = Some h \<Longrightarrow> h < em_next m" and "\<And>e h. M e = Some h \<Longrightarrow> \<exists>t. serves_at m h t"
    and "\<And>e e' h. M e = Some h \<Longrightarrow> M e' = Some h \<Longrightarrow> e = e'"
  shows "pools_wf M m"
  using assms unfolding pools_wf_def inj_on_def by (metis domD)

lemma update_target_wf:
  assumes "pools_wf M m" and "M e = Some h"
  shows "pools_wf M (change_pool h (pool_update_target t) m)" and "serves_at (change_pool h (pool_update_target t) m) h t"
proof -
  obtain p t0 where p: "em_pools m h = Some p" "serves m t0 p" using pools_wfD(2) [OF assms] by (auto simp: serves_at_def)
  show at: "serves_at (change_pool h (pool_update_target t) m) h t"
    using p update_target_serves by (auto simp: serves_at_def serves_cong [OF change_pool_sel(1)])
  have "\<exists>t'. serves_at (change_pool h (pool_update_target t) m) h' t'" if "M e' = Some h'" for e' h'
    using at pools_wfD(2) [OF assms(1) that] by (cases "h' = h") (auto simp: serves_at_def serves_cong [OF change_pool_sel(1)])
  then show "pools_wf M (change_pool h (pool_update_target t) m)"
    using pools_wfD(1,3) [OF assms(1)] by (intro pools_wfI) auto
qed

lemma add_pool_sel [simp]:
  "same_settings m (add_pool uuid t m)" "em_next (add_pool uuid t m) = Suc (em_next m)"
  "em_pools (add_pool uuid t m) = (em_pools m)(em_next m \<mapsto> new_pool uuid t m)"
  by (simp_all add: add_pool_def same_settings_def)

lemma add_pool_wf:
  assumes "pools_wf M m" and "M e = None"
  shows "pools_wf (M(e \<mapsto> em_next m)) (add_pool uuid t m)" and "serves_at (add_pool uuid t m) (em_next m) t"
proof -
  show at: "serves_at (add_pool uuid t m) (em_next m) t"
    by (simp add: serves_at_def serves_cong [OF add_pool_sel(1)] new_pool_serves)
  show "pools_wf (M(e \<mapsto> em_next m)) (add_pool uuid t m)"
    using at pools_wfD [OF assms(1)]
    by (intro pools_wfI) (auto simp: serves_at_def serves_cong [OF add_pool_sel(1)] less_SucI split: if_splits; blast?)+
qed

text \<open>The loop seen from outside: which endpoints end up where, and which pools it touches.\<close>

definition loop_result where
  "loop_result eps old new m old' new' m' \<longleftrightarrow>
    same_settings m m' \<and> em_next m \<le> em_next m' \<and> dom old' \<inter> dom new' = {} \<and> pools_wf (old' ++ new') m'
    \<and> dom new' = dom new \<union> fst ` set eps \<and> old' = old |` (- fst ` set eps)
    \<and> (\<forall>e h. (old ++ new) e = Some h \<longrightarrow> (old' ++ new') e = Some h \<and> (e \<notin> fst ` set eps \<longrightarrow> em_pools m' h = em_pools m h))
    \<and> (\<forall>(e, t) \<in> set eps. \<exists>h. new' e = Some h \<and> serves_at m' h t)"

lemma loop_resultD:
  assumes "loop_result eps old new m old' new' m'"
  shows "same_settings m m'" "em_next m \<le> em_next m'" "dom old' \<inter> dom new' = {}" "pools_wf (old' ++ new') m'"
    "dom new' = dom new \<union> fst ` set eps" "old' = old |` (- fst ` set eps)"
    "\<forall>(e, t) \<in> set eps. \<exists>h. new' e = Some h \<and> serves_at m' h t"
  using assms unfolding loop_result_def by iprover+

lemma loop_result_keeps:
  assumes "loop_result eps old new m old' new' m'" and "(old ++ new) e = Some h"
  shows "(old' ++ new') e = Some h" and "e \<notin> fst ` set eps \<Longrightarrow> em_pools m' h = em_pools m h"
  using assms unfolding loop_result_def by metis+

lemma loop_result_step:
  assumes rest: "loop_result eps old1 new1 m1 old' new' m'"
    and settings: "same_settings m m1" "em_next m \<le> em_next m1"
    and maps: "old1 = old |` (- {e})" "dom new1 = insert e (dom new)" "e \<notin> fst ` set eps"
    and keep: "\<And>e' h. (old ++ new) e' = Some h \<Longrightarrow> (old1 ++ new1) e' = Some h \<and> (e' \<noteq> e \<longrightarrow> em_pools m1 h = em_pools m h)"
    and here: "new1 e = Some h" "serves_at m1 h t"
  shows "loop_result ((e, t) # eps) old new m old' new' m'"
proof -
  note r = loop_resultD [OF rest]
  have at: "(old1 ++ new1) e = Some h" using here(1) by (rule map_add_find_right)
  have "(old' ++ new') e = Some h" and same: "em_pools m' h = em_pools m1 h" using loop_result_keeps [OF rest at] maps(3) by simp_all
  moreover have "e \<in> dom new'" unfolding r(5) maps(2) by simp
  ultimately have "new' e = Some h" by (auto simp: map_add_def)
  moreover have "serves_at m' h t" using here(2) same serves_cong [OF r(1)] by (auto simp: serves_at_def)
  ultimately have "\<forall>(e, t) \<in> set ((e, t) # eps). \<exists>h. new' e = Some h \<and> serves_at m' h t" using r(7) by simp
  moreover have "old' = old |` (- fst ` set ((e, t) # eps))" unfolding r(6) maps(1) by (auto simp: restrict_map_def fun_eq_iff)
  moreover have "dom new' = dom new \<union> fst ` set ((e, t) # eps)" unfolding r(5) maps(2) by auto
  moreover have "(old' ++ new') e' = Some h' \<and> (e' \<notin> fst ` set ((e, t) # eps) \<longrightarrow> em_pools m' h' = em_pools m h')"
    if "(old ++ new) e' = Some h'" for e' h'
    using keep [OF that] loop_result_keeps [OF rest, of e' h'] by (metis fst_conv image_insert insertCI list.simps(15))
  ultimately show ?thesis
    using r(3,4) same_settings_trans [OF settings(1) r(1)] le_trans [OF settings(2) r(2)] unfolding loop_result_def
    by iprover
qed

lemma update_loop_result:
  assumes "distinct (map fst eps)" and "fst ` set eps \<inter> dom new = {}" and "dom old \<inter> dom new = {}" and "pools_wf (old ++ new) m"
  shows "case update_loop uuid eps old new m of (old', new', m') \<Rightarrow> loop_result eps old new m old' new' m'"
  using assms
proof (induction uuid eps old new m rule: update_loop.induct)
  case (1 uuid old new m)
  then show ?case by (auto simp: loop_result_def)
next
  case (2 uuid e t eps old new m)
  from 2(3-6) have e: "e \<notin> fst ` set eps" "new e = None" and distinct: "distinct (map fst eps)" by (auto simp: image_iff)
  show ?case
  proof (cases "old e")
    case None
    let ?m = "add_pool uuid t m" and ?new = "new(e \<mapsto> em_next m)"
    have M: "old ++ ?new = (old ++ new)(e \<mapsto> em_next m)" by simp
    have Me: "(old ++ new) e = None" using None e(2) by (simp add: map_add_None)
    note wf = add_pool_wf [OF 2(6) Me, of uuid t, folded M]
    have IH: "case update_loop uuid eps old ?new ?m of (old', new', m') \<Rightarrow> loop_result eps old ?new ?m old' new' m'"
      by (rule 2(1) [OF None distinct _ _ wf(1)]) (use 2(4,5) e None in \<open>auto simp del: fun_upd_apply\<close>)
    have fresh: "old e' \<noteq> Some (em_next m)" "new e' \<noteq> Some (em_next m)" for e'
      using pools_wfD(1) [OF 2(6), of e' "em_next m"] 2(5) by (cases "new e'"; force simp: map_add_def)+
    have "loop_result ((e, t) # eps) old new m old' new' m'" if "loop_result eps old ?new ?m old' new' m'" for old' new' m'
      by (rule loop_result_step [OF that, where h = "em_next m"])
        (use None Me e wf(2) fresh in \<open>auto simp: restrict_map_def fun_eq_iff M\<close>)
    with IH None show ?thesis by (auto split: prod.splits)
  next
    case (Some h)
    let ?m = "change_pool h (pool_update_target t) m" and ?old = "old(e := None)" and ?new = "new(e \<mapsto> h)"
    have M: "?old ++ ?new = old ++ new" using Some e(2) by (auto simp: map_add_def fun_eq_iff split: option.split)
    have Me: "(old ++ new) e = Some h" using Some e(2) by (simp add: map_add_def)
    note wf = update_target_wf [OF 2(6) Me, of t]
    have only: "(old ++ new) e' = Some h \<Longrightarrow> e' = e" for e' using pools_wfD(3) [OF 2(6) _ Me] .
    have IH: "case update_loop uuid eps ?old ?new ?m of (old', new', m') \<Rightarrow> loop_result eps ?old ?new ?m old' new' m'"
      by (rule 2(2) [OF Some distinct _ _ wf(1) [folded M]]) (use 2(4,5) e in \<open>auto simp del: fun_upd_apply\<close>)
    have "loop_result ((e, t) # eps) old new m old' new' m'" if "loop_result eps ?old ?new ?m old' new' m'" for old' new' m'
      by (rule loop_result_step [OF that, where h = h])
        (use Some e wf(2) only in \<open>auto simp: restrict_map_def fun_eq_iff M map_add_def split: option.splits\<close>)
    with IH Some show ?thesis by (auto split: prod.splits)
  qed
qed

lemma close_pools_sel:
  "same_settings m (close_pools olds old m) \<and> em_next (close_pools olds old m) = em_next m"
  by (induction olds arbitrary: m) (auto split: option.splits intro: same_settings_trans [OF change_pool_sel(1)])

lemma pool_close_idem: "pool_close (pool_close p) = pool_close p"
  by (simp add: pool_close_def pool_close_drain_def pool_close_swap_def)

lemma close_pools_effect:
  "em_pools (close_pools olds old m) h
    = (if \<exists>e \<in> set olds. old e = Some h then map_option pool_close (em_pools m h) else em_pools m h)"
  by (induction olds arbitrary: m) (auto split: option.splits simp: pool_close_idem option.map_comp comp_def)

lemma prepare_result:
  assumes "manager_inv m" and "distinct (map fst endpoints)"
  obtains old' new' m' where "loop_result endpoints (em_slow m) Map.empty m old' new' m'"
    "update_endpoints_prepare uuid olds endpoints add_only m
      = (if add_only then (new' ++ old', m') else (new', close_pools olds old' m'))"
proof -
  obtain old' new' m' where u: "update_loop uuid endpoints (em_slow m) Map.empty m = (old', new', m')" by (metis prod_cases3)
  have "loop_result endpoints (em_slow m) Map.empty m old' new' m'"
    using update_loop_result [OF assms(2), of Map.empty "em_slow m" m uuid] assms(1) u by (simp add: manager_inv_def)
  then show thesis using that u by (simp add: update_endpoints_prepare_def)
qed

text \<open>Before the new map is published the pools of its endpoints are open already, and in add-only mode no pool is closed.\<close>

lemma prepare_pools:
  assumes "manager_inv m" and "distinct (map fst endpoints)"
    and "update_endpoints_prepare uuid olds endpoints add_only m = (new_pools, m')"
  shows "same_settings m m'" and "pools_wf new_pools m'"
    and "dom new_pools = fst ` set endpoints \<union> (if add_only then dom (em_slow m) else {})"
    and "\<forall>(e, t) \<in> set endpoints. \<exists>h. new_pools e = Some h \<and> serves_at m' h t"
    and "em_slow m e = Some h \<Longrightarrow> e \<in> fst ` set endpoints \<or> add_only \<Longrightarrow> new_pools e = Some h"
    and "em_slow m e = Some h \<Longrightarrow> e \<notin> fst ` set endpoints \<Longrightarrow> add_only \<Longrightarrow> em_pools m' h = em_pools m h"
    and "em_slow m e = Some h \<Longrightarrow> e \<notin> fst ` set endpoints \<Longrightarrow> \<not> add_only \<Longrightarrow> e \<in> set olds \<Longrightarrow>
      em_pools m' h = map_option pool_close (em_pools m h)"
proof -
  obtain old1 new1 m1 where l: "loop_result endpoints (em_slow m) Map.empty m old1 new1 m1"
    and u: "(new_pools, m') = (if add_only then (new1 ++ old1, m1) else (new1, close_pools olds old1 m1))"
    using prepare_result [OF assms(1,2), of uuid olds add_only] assms(3) by metis
  note r = loop_resultD [OF l]
  have new1: "dom new1 = fst ` set endpoints" using r(5) by simp
  have kept: "(old1 ++ new1) e = Some h" "e \<notin> fst ` set endpoints \<Longrightarrow> em_pools m1 h = em_pools m h" if "em_slow m e = Some h" for e h
    using loop_result_keeps [OF l, of e h] that by simp_all
  have comm: "new1 ++ old1 = old1 ++ new1" using r(3) by (rule map_add_comm [symmetric])
  have both: "(old1 ++ new1) e = Some h" if "new1 e = Some h" for e h using that by (rule map_add_find_right)
  have closed_same: "em_pools (close_pools olds old1 m1) h = em_pools m1 h" if "new1 e = Some h" for e h
  proof -
    have "old1 e' \<noteq> Some h" for e'
      using pools_wfD(3) [OF r(4)] r(3) that both by (metis IntI domI empty_iff map_add_dom_app_simps(3))
    then show ?thesis by (simp add: close_pools_effect)
  qed
  have serves_same: "serves_at (close_pools olds old1 m1) h t = serves_at m1 h t" if "new1 e = Some h" for e h t
    using closed_same [OF that] by (simp add: serves_at_def serves_cong [OF conjunct1 [OF close_pools_sel]])
  show "same_settings m m'" using u r(1) close_pools_sel [of m1 olds old1] by (auto split: if_splits intro: same_settings_trans)
  show "pools_wf new_pools m'"
  proof (cases add_only)
    case False
    have "\<exists>t. serves_at (close_pools olds old1 m1) h t" "h < em_next (close_pools olds old1 m1)" if "new1 e = Some h" for e h
      using serves_same [OF that] pools_wfD(1,2) [OF r(4) both [OF that]] close_pools_sel [of m1 olds old1] by simp_all
    moreover have "e = e'" if "new1 e = Some h" "new1 e' = Some h" for e e' h
      using pools_wfD(3) [OF r(4) both [OF that(1)] both [OF that(2)]] .
    ultimately show ?thesis using False u by (intro pools_wfI) auto
  qed (use u r(4) comm in simp)
  show "dom new_pools = fst ` set endpoints \<union> (if add_only then dom (em_slow m) else {})"
    using u new1 r(6) by (auto split: if_splits)
  show "\<forall>(e, t) \<in> set endpoints. \<exists>h. new_pools e = Some h \<and> serves_at m' h t"
    using u comm r(7) serves_same by (cases add_only) (fastforce simp: map_add_find_right)+
  show "new_pools e = Some h" if "em_slow m e = Some h" "e \<in> fst ` set endpoints \<or> add_only"
  proof (cases add_only)
    case False
    then have "e \<in> dom new1" using that(2) new1 by simp
    then show ?thesis using kept(1) [OF that(1)] False u by (auto simp: map_add_def)
  qed (use u kept(1) [OF that(1)] comm in simp)
  show "em_pools m' h = em_pools m h" if "em_slow m e = Some h" "e \<notin> fst ` set endpoints" add_only
    using u kept(2) [OF that(1,2)] that(3) by simp
  show "em_pools m' h = map_option pool_close (em_pools m h)"
    if "em_slow m e = Some h" "e \<notin> fst ` set endpoints" "\<not> add_only" "e \<in> set olds"
    using u kept(2) [OF that(1,2)] that r(6) by (auto simp: close_pools_effect restrict_map_def)
qed

text \<open>C11. Updating the endpoints publishes exactly the given endpoints (in add-only mode also those there were); each
  given endpoint has an open pool of its own, all of whose connections have the new target and the manager's
  credentials and bucket; an endpoint that stays keeps its pool, a pool that is only kept is not touched, and a pool
  that is dropped is closed.\<close>

theorem update_endpoints_correct:
  assumes "manager_inv m" and "distinct (map fst endpoints)" and "dom (em_slow m) \<subseteq> set olds"
    and "m' = update_endpoints uuid olds endpoints add_only m"
  shows "manager_inv m' \<and> dom (em_fast m') = fst ` set endpoints \<union> (if add_only then dom (em_fast m) else {})
    \<and> (\<forall>(e, t) \<in> set endpoints. \<exists>h. em_fast m' e = Some h \<and> serves_at m' h t)
    \<and> (\<forall>e h. em_fast m e = Some h \<longrightarrow>
        (if e \<in> fst ` set endpoints then em_fast m' e = Some h
         else if add_only then em_fast m' e = Some h \<and> em_pools m' h = em_pools m h
         else em_fast m' e = None \<and> em_pools m' h = map_option pool_close (em_pools m h)))"
proof -
  obtain new_pools m1 where u: "update_endpoints_prepare uuid olds endpoints add_only m = (new_pools, m1)" by (cases rule: prod.exhaust)
  note p = prepare_pools [OF assms(1,2) u]
  have m': "m' = m1\<lparr>em_slow := new_pools, em_fast := new_pools\<rparr>"
    using assms(4) u by (simp add: update_endpoints_def update_endpoints_publish_def)
  have fast: "em_fast m = em_slow m" using assms(1) by (simp add: manager_inv_def)
  have wf: "pools_wf new_pools m'" "serves_at m' h t = serves_at m1 h t" for h t
    using p(2) by (simp_all add: m' pools_wf_def serves_at_def serves_def)
  have "e \<in> set olds" "e \<notin> fst ` set endpoints \<Longrightarrow> \<not> add_only \<Longrightarrow> new_pools e = None" if "em_slow m e = Some h" for e h
    using that assms(3) p(3) by auto
  with p(3-7) wf fast show ?thesis by (auto simp: manager_inv_def m')
qed

definition demo_endpoints :: "(string \<times> unit KvTarget) list" where
  "demo_endpoints = [(''kv-a'', \<lparr>kt_address = \<lparr>host = ''a'', port = 11210\<rparr>, kt_tls_config = None\<rparr>),
     (''kv-b'', \<lparr>kt_address = \<lparr>host = ''b'', port = 11210\<rparr>, kt_tls_config = None\<rparr>)]"

definition empty_manager :: "nat \<Rightarrow> 'tls KvEndpointClientManager" where
  "empty_manager n = \<lparr>em_on_demand_connect = True, em_num_pool_connections = n, em_connect_throttle_period = 5,
     em_auth = PasswordAuthenticator ''user'' ''password'', em_selected_bucket = None, em_slow = Map.empty, em_fast = Map.empty,
     em_pools = Map.empty, em_next = 0\<rparr>"

lemma empty_manager_inv: "manager_inv (empty_manager n)"
  by (simp add: manager_inv_def pools_wf_def empty_manager_def)

theorem update_endpoints_correct_witness:
  "let m' = update_endpoints (\<lambda>_ _. ''id'') [] demo_endpoints False (empty_manager 2)
   in manager_inv m' \<and> dom (em_fast m') = {''kv-a'', ''kv-b''}"
  using update_endpoints_correct [where m = "empty_manager 2" and endpoints = demo_endpoints and olds = "[]"
      and uuid = "\<lambda>_ _. ''id''" and add_only = False, OF empty_manager_inv]
  by (auto simp: Let_def demo_endpoints_def empty_manager_def)

section \<open>Reconfiguring the agent\<close>

text \<open>The phases of \<^verbatim>\<open>update_state_locked\<close> that other tasks can see: the endpoints are added, the router is replaced, and only then
  are the endpoints that are gone dropped. The agent holds its own lock throughout.\<close>

type_synonym 'tls settings = "('tls, Authenticator) AgentComponentConfigs"

datatype 'tls Phase =
    Idle | Adding "string \<rightharpoonup> nat" "'tls settings" | Routing "'tls settings" | Removing "'tls settings"
  | Publishing "string \<rightharpoonup> nat" "'tls settings"

record 'tls AgentConns =
  cn_manager :: "'tls KvEndpointClientManager"
  cn_router :: StdVbucketRouter
  cn_phase :: "'tls Phase"

definition servers :: "StdVbucketRouter \<Rightarrow> string set" where
  "servers r = set (ri_server_list (sr_routing_info r))"

text \<open>The settings name only servers that have a target, and \<open>endpoints\<close> walks the targets.\<close>

definition walks :: "(string \<times> 'tls KvTarget) list \<Rightarrow> 'tls settings \<Rightarrow> bool" where
  "walks endpoints configs \<longleftrightarrow> distinct (map fst endpoints) \<and> map_of endpoints = kv_targets configs"

definition complete_settings :: "'tls settings \<Rightarrow> bool" where
  "complete_settings configs \<longleftrightarrow> set (ri_server_list (vbucket_routing_info configs)) \<subseteq> dom (kv_targets configs)"

text \<open>What the tasks of a pool do by themselves leaves its settings alone.\<close>

definition keeps_settings :: "'tls KvClientPool \<Rightarrow> 'tls KvClientPool \<Rightarrow> bool" where
  "keeps_settings p q \<longleftrightarrow> kp_shutdown q = kp_shutdown p
    \<and> map (\<lambda>e. bs_desired_config (pe_babysitter e)) (kp_babysitters q) = map (\<lambda>e. bs_desired_config (pe_babysitter e)) (kp_babysitters p)"

inductive conn_step :: "'tls AgentConns \<Rightarrow> 'tls AgentConns \<Rightarrow> bool" where
  adding: "cn_phase c = Idle \<Longrightarrow> complete_settings configs \<Longrightarrow> walks endpoints configs \<Longrightarrow>
    update_endpoints_prepare uuid olds endpoints True (cn_manager c) = (new_pools, m) \<Longrightarrow>
    conn_step c (c\<lparr>cn_manager := m, cn_phase := Adding new_pools configs\<rparr>)"
| added: "cn_phase c = Adding new_pools configs \<Longrightarrow>
    conn_step c (c\<lparr>cn_manager := update_endpoints_publish (new_pools, cn_manager c), cn_phase := Routing configs\<rparr>)"
| routed: "cn_phase c = Routing configs \<Longrightarrow>
    conn_step c (c\<lparr>cn_router := update_vbucket_info (vbucket_routing_info configs) (cn_router c), cn_phase := Removing configs\<rparr>)"
| removing: "cn_phase c = Removing configs \<Longrightarrow> walks endpoints configs \<Longrightarrow> dom (em_slow (cn_manager c)) \<subseteq> set olds \<Longrightarrow>
    update_endpoints_prepare uuid olds endpoints False (cn_manager c) = (new_pools, m) \<Longrightarrow>
    conn_step c (c\<lparr>cn_manager := m, cn_phase := Publishing new_pools configs\<rparr>)"
| removed: "cn_phase c = Publishing new_pools configs \<Longrightarrow>
    conn_step c (c\<lparr>cn_manager := update_endpoints_publish (new_pools, cn_manager c), cn_phase := Idle\<rparr>)"
| reauth: "cn_phase c = Idle \<Longrightarrow> dom (em_slow (cn_manager c)) \<subseteq> set order \<Longrightarrow> distinct order \<Longrightarrow>
    conn_step c (c\<lparr>cn_manager := manager_update_auth w a order (cn_manager c)\<rparr>)"
| pool: "em_pools (cn_manager c) h = Some p \<Longrightarrow> pool_step p q \<Longrightarrow> keeps_settings p q \<Longrightarrow>
    conn_step c (c\<lparr>cn_manager := (cn_manager c)\<lparr>em_pools := (em_pools (cn_manager c))(h \<mapsto> q)\<rparr>\<rparr>)"

definition conn_init :: "nat \<Rightarrow> 'tls AgentConns \<Rightarrow> bool" where
  "conn_init n c \<longleftrightarrow> (\<exists>uuid on_demand throttle a bucket endpoints configs. complete_settings configs \<and> walks endpoints configs
    \<and> c = \<lparr>cn_manager = endpoint_manager_new uuid on_demand n throttle a bucket endpoints,
           cn_router = vbucket_router_new (vbucket_routing_info configs), cn_phase = Idle\<rparr>)"

lemma keeps_serves: "keeps_settings p q \<Longrightarrow> serves m t p \<Longrightarrow> serves m t q"
  by (simp add: keeps_settings_def serves_def)

definition pool_works :: "nat \<Rightarrow> 'tls KvClientPool \<Rightarrow> 'tls KvEndpointClientManager \<Rightarrow> 'tls KvEndpointClientManager" where
  "pool_works h q m = m\<lparr>em_pools := (em_pools m)(h \<mapsto> q)\<rparr>"

lemma pool_works_serves:
  "em_pools m h = Some p \<Longrightarrow> keeps_settings p q \<Longrightarrow> serves_at m h' t \<Longrightarrow> serves_at (pool_works h q m) h' t"
  by (auto simp: serves_at_def pool_works_def serves_def keeps_settings_def)

lemma pool_works_sel [simp]:
  "em_slow (pool_works h q m) = em_slow m" "em_fast (pool_works h q m) = em_fast m" "em_next (pool_works h q m) = em_next m"
  "em_num_pool_connections (pool_works h q m) = em_num_pool_connections m"
  by (simp_all add: pool_works_def)

lemma pools_wf_mono:
  "pools_wf M m \<Longrightarrow> em_next m' = em_next m \<Longrightarrow> (\<And>h t. serves_at m h t \<Longrightarrow> \<exists>t'. serves_at m' h t') \<Longrightarrow> pools_wf M m'"
  unfolding pools_wf_def by metis

text \<open>Re-authentication reaches every pool once.\<close>

lemma update_auth_loop_sel:
  "same_settings m (update_auth_loop w a order m) \<and> em_next (update_auth_loop w a order m) = em_next m"
proof (induction order arbitrary: m)
  case (Cons e order)
  have "em_slow (change_pool h f m) = em_slow m" for h f by (simp add: change_pool_def)
  then show ?case
    using Cons [of m] Cons [of "change_pool (the (em_slow m e)) (pool_update_auth w a) m"]
    by (auto split: option.splits intro: same_settings_trans [OF change_pool_sel(1)])
qed simp

lemma update_auth_loop_effect:
  assumes "inj_on (em_slow m) (dom (em_slow m))" and "distinct order"
  shows "em_pools (update_auth_loop w a order m) h
    = (if \<exists>e \<in> set order. em_slow m e = Some h then map_option (pool_update_auth w a) (em_pools m h) else em_pools m h)"
  using assms
proof (induction order arbitrary: m)
  case (Cons e order)
  have once: "e' = e" if "em_slow m e = Some h" "em_slow m e' = Some h" for e'
    using Cons.prems(1) that by (auto simp: inj_on_def dom_def)
  show ?case
    using Cons.IH [of m] Cons.IH [of "change_pool (the (em_slow m e)) (pool_update_auth w a) m"] Cons.prems once
    by (cases "em_slow m e") (auto simp: change_pool_def)
qed simp

lemma update_auth_inv:
  assumes "manager_inv m" and "dom (em_slow m) \<subseteq> set order" and "distinct order"
  shows "manager_inv (manager_update_auth w a order m)"
    and "em_slow (manager_update_auth w a order m) = em_slow m" "em_num_pool_connections (manager_update_auth w a order m) = em_num_pool_connections m"
proof -
  let ?m = "m\<lparr>em_auth := a\<rparr>" and ?m' = "manager_update_auth w a order m"
  have sel: "same_settings ?m ?m'" "em_next ?m' = em_next m"
    using update_auth_loop_sel [of ?m w a order] by (simp_all add: manager_update_auth_def)
  show "em_slow ?m' = em_slow m" "em_num_pool_connections ?m' = em_num_pool_connections m"
    using sel(1) by (simp_all add: same_settings_def)
  have wf: "pools_wf (em_slow m) m" using assms(1) by (simp add: manager_inv_def)
  have "\<exists>t. serves_at ?m' h t" if slow: "em_slow m e = Some h" for e h
  proof -
    obtain p t where p: "em_pools m h = Some p" "serves m t p" using pools_wfD(2) [OF wf slow] by (auto simp: serves_at_def)
    have "e \<in> set order" using that assms(2) by auto
    then have "em_pools ?m' h = Some (pool_update_auth w a p)"
      using update_auth_loop_effect [of ?m order w a h] wf assms(3) that p(1) by (auto simp: manager_update_auth_def pools_wf_def)
    then show ?thesis using update_auth_serves [OF p(2), of a w] serves_cong [OF sel(1)] by (auto simp: serves_at_def)
  qed
  then show "manager_inv ?m'"
    using sel assms(1) wf by (auto simp: manager_inv_def same_settings_def pools_wf_def)
qed

section \<open>A routed endpoint has a pool\<close>

definition served :: "string set \<Rightarrow> 'tls KvEndpointClientManager \<Rightarrow> bool" where
  "served es m \<longleftrightarrow> (\<forall>e \<in> es. \<exists>h t. em_fast m e = Some h \<and> serves_at m h t)"

fun phase_inv :: "'tls Phase \<Rightarrow> StdVbucketRouter \<Rightarrow> 'tls KvEndpointClientManager \<Rightarrow> bool" where
  "phase_inv Idle r m \<longleftrightarrow> manager_inv m"
| "phase_inv (Adding new_pools configs) r m \<longleftrightarrow>
    pools_wf new_pools m \<and> em_slow m \<subseteq>\<^sub>m new_pools \<and> complete_settings configs \<and> dom (kv_targets configs) \<subseteq> dom new_pools"
| "phase_inv (Routing configs) r m \<longleftrightarrow>
    manager_inv m \<and> complete_settings configs \<and> dom (kv_targets configs) \<subseteq> dom (em_slow m)"
| "phase_inv (Removing configs) r m \<longleftrightarrow> manager_inv m \<and> servers r \<subseteq> dom (kv_targets configs)"
| "phase_inv (Publishing new_pools configs) r m \<longleftrightarrow> pools_wf new_pools m \<and> servers r \<subseteq> dom new_pools"

definition conn_inv :: "nat \<Rightarrow> 'tls AgentConns \<Rightarrow> bool" where
  "conn_inv n c \<longleftrightarrow> em_fast (cn_manager c) = em_slow (cn_manager c) \<and> em_num_pool_connections (cn_manager c) = n
    \<and> served (servers (cn_router c)) (cn_manager c) \<and> phase_inv (cn_phase c) (cn_router c) (cn_manager c)"

lemma served_wf: "pools_wf (em_fast m) m \<Longrightarrow> es \<subseteq> dom (em_fast m) \<Longrightarrow> served es m"
  unfolding served_def pools_wf_def by blast

lemma walks_dom: "walks endpoints configs \<Longrightarrow> dom (kv_targets configs) = fst ` set endpoints"
  by (metis walks_def dom_map_of_conv_image_fst)

lemma publish_sel [simp]:
  "em_slow (update_endpoints_publish (new_pools, m)) = new_pools" "em_fast (update_endpoints_publish (new_pools, m)) = new_pools"
  "em_num_pool_connections (update_endpoints_publish (new_pools, m)) = em_num_pool_connections m"
  "serves_at (update_endpoints_publish (new_pools, m)) = serves_at m"
  "pools_wf M (update_endpoints_publish (new_pools, m)) = pools_wf M m"
  "manager_inv (update_endpoints_publish (new_pools, m)) = pools_wf new_pools m"
  by (simp_all add: update_endpoints_publish_def fun_eq_iff serves_at_def serves_def pools_wf_def manager_inv_def)

lemma prepare_keeps_served:
  assumes "manager_inv m" and "distinct (map fst endpoints)" and "served es m"
    and "update_endpoints_prepare uuid olds endpoints add_only m = (new_pools, m')"
    and "es \<subseteq> fst ` set endpoints \<or> add_only"
  shows "served es m'" and "es \<subseteq> dom new_pools" and "add_only \<Longrightarrow> em_slow m' \<subseteq>\<^sub>m new_pools"
proof -
  note p = prepare_pools [OF assms(1,2,4)]
  have sel: "em_fast m = em_slow m" "em_slow m' = em_slow m" "em_fast m' = em_slow m"
    using assms(1) p(1) by (simp_all add: manager_inv_def same_settings_def)
  have new: "new_pools e = Some h" if "e \<in> es" "em_slow m e = Some h" for e h using p(5) [OF that(2)] that(1) assms(5) by blast
  then show "served es m'" using assms(3) pools_wfD(2) [OF p(2)] unfolding served_def sel by blast
  show "es \<subseteq> dom new_pools" using new assms(3) unfolding served_def sel by blast
  show "em_slow m' \<subseteq>\<^sub>m new_pools" if add_only
    using p(5) that unfolding sel map_le_def by (metis domD)
qed

lemma conn_init_inv:
  assumes "conn_init n c"
  shows "conn_inv n c"
proof -
  obtain uuid on_demand throttle a bucket endpoints and configs :: "'a settings"
    where c: "complete_settings configs" "walks endpoints configs"
      "c = \<lparr>cn_manager = endpoint_manager_new uuid on_demand n throttle a bucket endpoints,
             cn_router = vbucket_router_new (vbucket_routing_info configs), cn_phase = Idle\<rparr>"
    using assms by (auto simp: conn_init_def)
  let ?m0 = "\<lparr>em_on_demand_connect = on_demand, em_num_pool_connections = n, em_connect_throttle_period = throttle, em_auth = a,
    em_selected_bucket = bucket, em_slow = Map.empty, em_fast = Map.empty, em_pools = Map.empty, em_next = 0\<rparr> :: 'a KvEndpointClientManager"
  have inv0: "manager_inv ?m0" by (simp add: manager_inv_def pools_wf_def)
  have d: "distinct (map fst endpoints)" using c(2) by (simp add: walks_def)
  obtain new_pools m' where u: "update_endpoints_prepare uuid [] endpoints False ?m0 = (new_pools, m')" by (cases rule: prod.exhaust)
  note p = prepare_pools [OF inv0 d u]
  have m: "cn_manager c = update_endpoints_publish (new_pools, m')" by (simp add: c(3) endpoint_manager_new_def update_endpoints_def u)
  have "served (dom new_pools) (cn_manager c)" unfolding m by (rule served_wf) (simp_all add: p(2))
  moreover have "servers (cn_router c) \<subseteq> dom new_pools"
    using c(1) p(3) walks_dom [OF c(2)] by (simp add: c(3) servers_def vbucket_router_new_def complete_settings_def)
  ultimately have "served (servers (cn_router c)) (cn_manager c)" unfolding served_def by blast
  moreover have "em_num_pool_connections m' = n" using p(1) by (simp add: same_settings_def)
  ultimately show ?thesis using p(2) m by (simp add: conn_inv_def) (simp add: c(3))
qed

lemma conn_step_inv: "conn_step c d \<Longrightarrow> conn_inv n c \<Longrightarrow> conn_inv n d"
proof (induction rule: conn_step.induct)
  case (adding c configs endpoints uuid olds new_pools m)
  from adding have inv: "manager_inv (cn_manager c)" "served (servers (cn_router c)) (cn_manager c)" by (simp_all add: conn_inv_def)
  have d: "distinct (map fst endpoints)" using adding(3) by (simp add: walks_def)
  note p = prepare_pools [OF inv(1) d adding(4)] and k = prepare_keeps_served [OF inv(1) d inv(2) adding(4)]
  show ?case
    using p(1-3) k(1,3) adding(2,5) walks_dom [OF adding(3)] by (auto simp: conn_inv_def same_settings_def)
next
  case (added c new_pools configs)
  then have wf: "pools_wf new_pools (cn_manager c)" and le: "em_slow (cn_manager c) \<subseteq>\<^sub>m new_pools"
    and s: "served (servers (cn_router c)) (cn_manager c)" and f: "em_fast (cn_manager c) = em_slow (cn_manager c)"
    by (simp_all add: conn_inv_def)
  have "servers (cn_router c) \<subseteq> dom new_pools" using s le f unfolding served_def map_le_def by (metis domI domIff subsetI)
  then have "served (servers (cn_router c)) (update_endpoints_publish (new_pools, cn_manager c))" by (intro served_wf) (simp_all add: wf)
  with added show ?case by (simp add: conn_inv_def)
next
  case (routed c configs)
  then have inv: "manager_inv (cn_manager c)" "complete_settings configs" "dom (kv_targets configs) \<subseteq> dom (em_slow (cn_manager c))"
    by (simp_all add: conn_inv_def)
  have sub: "servers (update_vbucket_info (vbucket_routing_info configs) (cn_router c)) \<subseteq> dom (kv_targets configs)"
    using inv(2) by (simp add: servers_def update_vbucket_info_def complete_settings_def)
  have "served (servers (update_vbucket_info (vbucket_routing_info configs) (cn_router c))) (cn_manager c)"
    using inv sub by (intro served_wf) (auto simp: manager_inv_def)
  with routed inv sub show ?case by (simp add: conn_inv_def)
next
  case (removing c configs endpoints olds uuid new_pools m)
  then have inv: "manager_inv (cn_manager c)" "served (servers (cn_router c)) (cn_manager c)" "servers (cn_router c) \<subseteq> dom (kv_targets configs)"
    by (simp_all add: conn_inv_def)
  have d: "distinct (map fst endpoints)" using removing(2) by (simp add: walks_def)
  note p = prepare_pools [OF inv(1) d removing(4)] and k = prepare_keeps_served [OF inv(1) d inv(2) removing(4)]
  show ?case
    using p(1,2) k(1,2) inv(3) removing(5) walks_dom [OF removing(2)] by (simp add: conn_inv_def same_settings_def)
next
  case (removed c new_pools configs)
  then have wf: "pools_wf new_pools (cn_manager c)" "servers (cn_router c) \<subseteq> dom new_pools" by (simp_all add: conn_inv_def)
  then have "served (servers (cn_router c)) (update_endpoints_publish (new_pools, cn_manager c))" by (intro served_wf) simp_all
  with removed wf show ?case by (simp add: conn_inv_def)
next
  case (reauth c order w a)
  then have inv: "manager_inv (cn_manager c)" "served (servers (cn_router c)) (cn_manager c)" by (simp_all add: conn_inv_def)
  note u = update_auth_inv [OF inv(1) reauth(2,3), of w a]
  have "servers (cn_router c) \<subseteq> dom (em_fast (cn_manager c))" using inv(2) unfolding served_def by blast
  then have "served (servers (cn_router c)) (manager_update_auth w a order (cn_manager c))"
    using u(1,2) inv(1) by (intro served_wf) (simp_all add: manager_inv_def)
  with u reauth show ?case by (simp add: conn_inv_def manager_inv_def)
next
  case (pool c h p q)
  let ?m = "pool_works h q (cn_manager c)"
  note keep = pool_works_serves [OF pool(1,3)]
  have wf: "pools_wf M (cn_manager c) \<Longrightarrow> pools_wf M ?m" for M by (erule pools_wf_mono) (use keep in auto)
  have "served (servers (cn_router c)) ?m" using pool(4) keep unfolding conn_inv_def served_def by (metis pool_works_sel(2))
  moreover have "phase_inv (cn_phase c) (cn_router c) ?m"
    using pool(4) wf by (cases "cn_phase c") (auto simp: conn_inv_def manager_inv_def)
  ultimately show ?case using pool(4) unfolding pool_works_def [symmetric] by (simp add: conn_inv_def)
qed

interpretation conns: invariant_system "conn_init n" conn_step "conn_inv n" for n
  by unfold_locales (auto intro: conn_init_inv conn_step_inv)

lemma serves_picks:
  assumes "em_fast m e = Some h" and "serves_at m h t" and "0 < em_num_pool_connections m"
  shows "\<exists>pick. fst (get_endpoint_client e m) = Ok pick"
proof -
  obtain p where p: "em_pools m h = Some p" "serves m t p" using assms(2) by (auto simp: serves_at_def)
  have "length (map (\<lambda>e. bs_desired_config (pe_babysitter e)) (kp_babysitters p)) = em_num_pool_connections m"
    using p(2) by (simp only: serves_def length_replicate)
  with assms(3) have "kp_babysitters p \<noteq> []" by auto
  then have "\<exists>pick. fst (pool_get_client p) = Ok pick" by (simp add: pool_get_client_def get_client_slow_def Let_def)
  with assms(1) p(1) show ?thesis by (simp add: get_endpoint_client_def pick_from_def case_prod_beta Let_def)
qed

lemma dispatch_names_server: "dispatch_by_key crc32 r key i = Ok (endpoint, vb) \<Longrightarrow> endpoint \<in> servers r"
  by (auto simp: dispatch_by_key_def servers_def Let_def res_simps split: if_splits)


definition demo_settings :: "unit settings" where
  "demo_settings = \<lparr>kv_targets = map_of demo_endpoints, cc_auth = PasswordAuthenticator ''user'' ''password'', selected_bucket = None,
     config_manager_endpoints = [''kv-a'', ''kv-b''],
     vbucket_routing_info = \<lparr>ri_vbucket_info = Some sample_map, ri_server_list = [''kv-a'', ''kv-b''], ri_bucket_selected = True\<rparr>,
     analytics_endpoints = Map.empty, query_endpoints = Map.empty, search_endpoints = Map.empty, vector_search_enabled = False,
     mgmt_endpoints = Map.empty, diagnostics_services = [], diagnostics_rev_id = 1\<rparr>"

definition demo_conns :: "unit AgentConns" where
  "demo_conns = \<lparr>cn_manager = endpoint_manager_new (\<lambda>_ _. ''id'') True 2 5 (PasswordAuthenticator ''user'' ''password'') None demo_endpoints,
     cn_router = vbucket_router_new (vbucket_routing_info demo_settings), cn_phase = Idle\<rparr>"

lemma demo_settings_ok: "complete_settings demo_settings" "walks demo_endpoints demo_settings"
  by (simp_all add: complete_settings_def walks_def demo_settings_def demo_endpoints_def)

lemma demo_conns_reachable: "reachable (conn_init 2) conn_step demo_conns"
  unfolding demo_conns_def conn_init_def
  by (rule reachable.start, intro exI conjI) (rule demo_settings_ok(1), rule demo_settings_ok(2), rule refl)

lemma demo_dispatch: "dispatch_by_key (\<lambda>_. 0x00030000) (cn_router demo_conns) [0x6b] 0 = Ok (''kv-b'', 1)"
  by (simp add: demo_conns_def vbucket_router_new_def demo_settings_def dispatch_by_key_def get_vbucket_info_def vbucket_by_key_def
      node_by_vbucket_def sample_map_def Let_def)


text \<open>Between closing the pools of dropped endpoints and publishing the new map the closed pools are still handed out: a request
  that was routed to such an endpoint before and asks for its client now panics.\<close>

theorem dropped_endpoint_panics:
  assumes "manager_inv m" and "distinct (map fst endpoints)" and "em_fast m e = Some h" and "e \<notin> fst ` set endpoints" and "e \<in> set olds"
    and "update_endpoints_prepare uuid olds endpoints False m = (new_pools, m')"
  shows "fst (get_endpoint_client e m') = Panic"
proof -
  note p = prepare_pools [OF assms(1,2,6)]
  have slow: "em_slow m e = Some h" using assms(1,3) by (simp add: manager_inv_def)
  then obtain q where "em_pools m h = Some q"
    using pools_wfD(2) [of "em_slow m" m e h] assms(1) by (auto simp: manager_inv_def serves_at_def)
  then have "em_pools m' h = Some (pool_close q)" using p(7) [OF slow assms(4) _ assms(5)] by simp
  moreover have "em_fast m' e = Some h" using p(1) assms(3) by (simp add: same_settings_def)
  ultimately show ?thesis using closed_pool_panics [of q] by (simp add: get_endpoint_client_def pick_from_def case_prod_beta Let_def)
qed

theorem dropped_endpoint_panics_witness:
  "fst (get_endpoint_client ''kv-a''
     (snd (update_endpoints_prepare (\<lambda>_ _. ''id'') [''kv-a'', ''kv-b''] [] False (cn_manager demo_conns)))) = Panic"
proof -
  have inv: "manager_inv (cn_manager demo_conns)"
    using conns.reachable_inv [OF demo_conns_reachable] by (simp add: conn_inv_def demo_conns_def)
  obtain h where h: "em_fast (cn_manager demo_conns) ''kv-a'' = Some h"
    by (simp add: demo_conns_def endpoint_manager_new_def update_endpoints_def update_endpoints_publish_def update_endpoints_prepare_def
        demo_endpoints_def add_pool_def)
  show ?thesis
    by (rule dropped_endpoint_panics [OF inv _ h _ _ prod.collapse [symmetric]]) simp_all
qed

end
