(* ===== verification/Decimal.thy ===== *)
theory Decimal
  imports Prelude
begin

text \<open>
  Decimal numbers as text: \<^verbatim>\<open>FromStr\<close> of the unsigned integer types (an optional plus sign, digits, and a bound) and its
  agreement with the printed form.
\<close>

definition digit_value :: "char \<Rightarrow> nat" where
  "digit_value c = of_char c - 48"

definition is_digit :: "char \<Rightarrow> bool" where
  "is_digit c \<longleftrightarrow> c \<in> set ''0123456789''"

definition parse_uint :: "nat \<Rightarrow> string \<Rightarrow> (string, nat) result" where
  "parse_uint width s =
    (if s = [] then Err ''cannot parse integer from empty string''
     else
       let ds = (case s of CHR ''+'' # d # r \<Rightarrow> d # r | _ \<Rightarrow> s) in
       if list_all is_digit ds then
         let n = foldl (\<lambda>n c. 10 * n + digit_value c) 0 ds in
         if n < 2 ^ width then Ok n else Err ''number too large to fit in target type''
       else Err ''invalid digit found in string'')"

definition parse_u16 :: "string \<Rightarrow> (string, u16) result" where
  "parse_u16 s = and_then (parse_uint 16 s) (\<lambda>n. Ok (word_of_nat n))"

definition parse_u32 :: "string \<Rightarrow> (string, u32) result" where
  "parse_u32 s = and_then (parse_uint 32 s) (\<lambda>n. Ok (word_of_nat n))"

lemma digit_char:
  assumes "m < 10"
  shows "is_digit (char_of (48 + m))" and "digit_value (char_of (48 + m)) = m"
proof -
  have "m = 0 \<or> m = 1 \<or> m = 2 \<or> m = 3 \<or> m = 4 \<or> m = 5 \<or> m = 6 \<or> m = 7 \<or> m = 8 \<or> m = 9" using assms by arith
  then show "is_digit (char_of (48 + m))" by (elim disjE) (simp_all add: is_digit_def char_of_def bit_0)
  show "digit_value (char_of (48 + m)) = m" using assms by (simp add: digit_value_def)
qed

lemma show_nat_digits: "list_all is_digit (show_nat n) \<and> show_nat n \<noteq> []"
proof (induction n rule: show_nat.induct)
  case (1 n)
  then show ?case using digit_char(1) by (subst (1 2) show_nat.simps) auto
qed

lemma show_nat_value: "foldl (\<lambda>n c. 10 * n + digit_value c) 0 (show_nat n) = n"
proof (induction n rule: show_nat.induct)
  case (1 n)
  then show ?case using digit_char(2) by (subst show_nat.simps) auto
qed

lemma parse_uint_show:
  assumes "n < 2 ^ width"
  shows "parse_uint width (show_nat n) = Ok n"
proof -
  obtain d ds where s: "show_nat n = d # ds" using show_nat_digits by (metis neq_Nil_conv)
  then have "d \<noteq> CHR ''+''" using show_nat_digits [of n] by (auto simp: is_digit_def)
  then have "(case d # ds of CHR ''+'' # d # r \<Rightarrow> d # r | _ \<Rightarrow> d # ds) = d # ds" by (simp split: char.splits bool.splits)
  then show ?thesis using assms show_nat_digits [of n] show_nat_value [of n] s by (simp add: parse_uint_def Let_def)
qed

lemma parse_u16_show: "parse_u16 (show_nat (unat p)) = Ok p"
  using parse_uint_show [of "unat p" 16] unat_less_2p [of p] by (simp add: parse_u16_def)

lemma parse_u32_show: "parse_u32 (show_nat (unat p)) = Ok p"
  using parse_uint_show [of "unat p" 32] unat_less_2p [of p] by (simp add: parse_u32_def)

end
