(* ===== verification/Connstr.thy ===== *)
theory Connstr
  imports Decimal
begin

text \<open>
  Connection strings (\<^verbatim>\<open>couchbase-connstr/src/lib.rs\<close>): the parser, the printer and the resolution of the hosts.
  The parser runs two regular expressions of the regex crate, which is an argument of the model; what is used of it is its
  documented rule that the leftmost match is taken and, among the matches there, the one a backtracking
  search finds first. The decoder of URL-encoded pairs, the test for an IP address and the DNS lookup are arguments too.
\<close>

section \<open>Data\<close>

record ConnSpecAddress =
  ca_host :: string
  ca_port :: "u16 option"

record ConnSpec =
  cs_scheme :: "string option"
  cs_hosts :: "ConnSpecAddress list"
  cs_options :: "string \<rightharpoonup> string list"

record ConnAddress =
  addr_host :: string
  addr_port :: u16

record SrvRecord =
  srv_proto :: string
  srv_scheme :: string
  srv_host :: string

datatype ConnErrorKind = ParseError string | InvalidArgumentError string string | IoError string | ResolveError string

abbreviation default_legacy_http_port :: u16 where "default_legacy_http_port \<equiv> 8091"
abbreviation default_legacy_https_port :: u16 where "default_legacy_https_port \<equiv> 18091"
abbreviation default_memd_port :: u16 where "default_memd_port \<equiv> 11210"
abbreviation default_ssl_memd_port :: u16 where "default_ssl_memd_port \<equiv> 11207"
abbreviation default_couchbase2_port :: u16 where "default_couchbase2_port \<equiv> 18098"

section \<open>Regular expressions\<close>

datatype cls = NoneOf string | OneOf string

datatype re = Lit string | Single cls | Many cls | Seq re re | Alt re re | Opt re | Group nat re

fun in_cls :: "cls \<Rightarrow> char \<Rightarrow> bool" where
  "in_cls (NoneOf cs) c \<longleftrightarrow> c \<notin> set cs"
| "in_cls (OneOf cs) c \<longleftrightarrow> c \<in> set cs"

text \<open>All matches at the start of a text, in the order in which a backtracking search meets them: the rest of the text and the
  groups. Repetition is greedy.\<close>

fun parses :: "re \<Rightarrow> string \<Rightarrow> (string \<times> (nat \<times> string) list) list" where
  "parses (Lit l) s = (if take (length l) s = l then [(drop (length l) s, [])] else [])"
| "parses (Single k) s = (case s of c # r \<Rightarrow> if in_cls k c then [(r, [])] else [] | [] \<Rightarrow> [])"
| "parses (Many k) s = map (\<lambda>n. (drop n s, [])) (rev [0..<Suc (length (takeWhile (in_cls k) s))])"
| "parses (Seq a b) s = concat (map (\<lambda>(r, g). map (\<lambda>(r', g'). (r', g @ g')) (parses b r)) (parses a s))"
| "parses (Alt a b) s = parses a s @ parses b s"
| "parses (Opt a) s = parses a s @ [(s, [])]"
| "parses (Group n a) s = map (\<lambda>(r, g). (r, (n, take (length s - length r) s) # g)) (parses a s)"

fun search :: "re \<Rightarrow> string \<Rightarrow> (string \<times> (nat \<times> string) list) option" where
  "search r s =
    (case parses r s of m # _ \<Rightarrow> Some m | [] \<Rightarrow> (case s of [] \<Rightarrow> None | _ # s' \<Rightarrow> search r s'))"

declare search.simps [simp del]

text \<open>Successive matches; a match that consumes nothing is followed by a search one character later.\<close>

function find_all :: "re \<Rightarrow> string \<Rightarrow> (nat \<times> string) list list" where
  "find_all r s =
    (case search r s of
       None \<Rightarrow> []
     | Some (rest, g) \<Rightarrow>
         g # (if length rest < length s then find_all r rest else if s = [] then [] else find_all r (tl s)))"
  by pat_completeness auto
termination by (relation "measure (\<lambda>(r, s). length s)") auto

declare find_all.simps [simp del]

definition regex_crate :: "(re \<Rightarrow> string \<Rightarrow> (nat \<rightharpoonup> string) option) \<Rightarrow> (re \<Rightarrow> string \<Rightarrow> (nat \<rightharpoonup> string) list) \<Rightarrow> bool" where
  "regex_crate captures captures_iter \<longleftrightarrow>
    (\<forall>r s. captures r s = map_option (\<lambda>m. map_of (snd m)) (search r s)) \<and> (\<forall>r s. captures_iter r s = map map_of (find_all r s))"

section \<open>Parsing\<close>

abbreviation dot :: cls where "dot \<equiv> NoneOf ''\<newline>''"

definition parts_matcher :: re where
  "parts_matcher =
    Seq (Opt (Group 1 (Seq (Group 2 (Many dot)) (Lit ''://''))))
   (Seq (Opt (Group 3 (Seq (Group 4 (Many (NoneOf ''/?:'')))
          (Seq (Opt (Group 5 (Seq (Lit '':'') (Group 6 (Many (NoneOf ''/?:@'')))))) (Lit ''@'')))))
   (Seq (Group 7 (Many (NoneOf ''/?'')))
   (Seq (Opt (Group 8 (Seq (Lit ''/'') (Group 9 (Many (NoneOf ''?''))))))
        (Opt (Group 10 (Seq (Lit ''?'') (Group 11 (Many dot))))))))"

definition host_matcher :: re where
  "host_matcher =
    Seq (Group 1 (Alt
          (Group 2 (Seq (Lit ''['') (Seq (Seq (Single (NoneOf '']'')) (Many (NoneOf '']''))) (Seq (Single (OneOf '']'')) (Many (OneOf '']''))))))
          (Group 3 (Seq (Single (NoneOf '';,:'')) (Many (NoneOf '';,:''))))))
   (Seq (Opt (Group 4 (Seq (Lit '':'') (Group 5 (Many (OneOf ''0123456789''))))))
        (Opt (Group 6 (Lit '';,''))))"

fun parse_hosts :: "(nat \<rightharpoonup> string) list \<Rightarrow> (ConnErrorKind, ConnSpecAddress list) result" where
  "parse_hosts [] = Ok []"
| "parse_hosts (host_info # infos) =
    and_then (expect (host_info 1)) (\<lambda>host.
    and_then (case host_info 5 of
         None \<Rightarrow> Ok None
       | Some port \<Rightarrow> map_err (\<lambda>e. ParseError (''failed to parse port: '' @ e)) (and_then (parse_u16 port) (\<lambda>p. Ok (Some p)))) (\<lambda>port.
    and_then (parse_hosts infos) (\<lambda>addresses.
    Ok (\<lparr>ca_host = host, ca_port = port\<rparr> # addresses))))"

definition collect_options :: "(string \<times> string) list \<Rightarrow> (string \<rightharpoonup> string list)" where
  "collect_options pairs = foldl (\<lambda>acc (k, v). acc(k \<mapsto> unwrap_or [] (acc k) @ [v])) Map.empty pairs"

definition parse ::
  "(re \<Rightarrow> string \<Rightarrow> (nat \<rightharpoonup> string) option) \<Rightarrow> (re \<Rightarrow> string \<Rightarrow> (nat \<rightharpoonup> string) list) \<Rightarrow> (string \<Rightarrow> (string \<times> string) list)
    \<Rightarrow> string \<Rightarrow> (ConnErrorKind, ConnSpec) result" where
  "parse captures captures_iter form_urlencoded conn_str =
    (case captures parts_matcher conn_str of
       None \<Rightarrow> Ok \<lparr>cs_scheme = None, cs_hosts = [], cs_options = Map.empty\<rparr>
     | Some parts \<Rightarrow>
         and_then (case parts 7 of Some hosts \<Rightarrow> parse_hosts (captures_iter host_matcher hosts) | None \<Rightarrow> Ok []) (\<lambda>hosts.
         Ok \<lparr>cs_scheme = parts 2, cs_hosts = hosts,
             cs_options = (case parts 11 of Some options \<Rightarrow> collect_options (form_urlencoded options) | None \<Rightarrow> Map.empty)\<rparr>))"

section \<open>Printing\<close>

fun join :: "string \<Rightarrow> string list \<Rightarrow> string" where
  "join sep [] = []"
| "join sep [x] = x"
| "join sep (x # xs) = x @ sep @ join sep xs"

definition show_address :: "ConnSpecAddress \<Rightarrow> string" where
  "show_address a = (case ca_port a of Some p \<Rightarrow> ca_host a @ '':'' @ show_nat (unat p) | None \<Rightarrow> ca_host a)"

definition show_scheme :: "string option \<Rightarrow> string" where
  "show_scheme scheme = (case scheme of Some s \<Rightarrow> s @ ''://'' | None \<Rightarrow> [])"

text \<open>\<open>order\<close> is the order in which the hash map of the options is walked.\<close>

definition show_options :: "string list \<Rightarrow> (string \<rightharpoonup> string list) \<Rightarrow> string" where
  "show_options order options =
    (let url_options = foldl (\<lambda>acc k.
           let values = join ''&'' (map (\<lambda>v. k @ ''='' @ v) (unwrap_or [] (options k)))
           in if acc = [] then values else acc @ ''&'' @ values) [] order
     in if url_options = [] then [] else ''?'' @ url_options)"

definition show_conn_spec :: "string list \<Rightarrow> ConnSpec \<Rightarrow> string" where
  "show_conn_spec order spec =
    show_scheme (cs_scheme spec) @ join '','' (map show_address (cs_hosts spec)) @ show_options order (cs_options spec)"

section \<open>Resolution\<close>

record ResolvedConnSpec =
  rc_use_ssl :: bool
  rc_memd_hosts :: "ConnAddress list"
  rc_http_hosts :: "ConnAddress list"
  rc_couchbase2_host :: "ConnAddress option"
  rc_srv_record :: "SrvRecord option"
  rc_options :: "string \<rightharpoonup> string list"

definition host_is_ip_address :: "(string \<Rightarrow> bool) \<Rightarrow> string \<Rightarrow> bool" where
  "host_is_ip_address parses_as_ip_addr host \<longleftrightarrow> take 1 host = ''['' \<or> parses_as_ip_addr host"

definition srv_record :: "(string \<Rightarrow> bool) \<Rightarrow> ConnSpec \<Rightarrow> SrvRecord option" where
  "srv_record parses_as_ip_addr self =
    (case cs_scheme self of
       Some scheme \<Rightarrow>
         (case cs_hosts self of
            [a] \<Rightarrow>
              if scheme \<noteq> ''couchbase'' \<and> scheme \<noteq> ''couchbases'' \<or> ca_port a \<noteq> None then None
              else if host_is_ip_address parses_as_ip_addr (ca_host a) then None
              else Some \<lparr>srv_proto = ''tcp'', srv_scheme = scheme, srv_host = ca_host a\<rparr>
          | _ \<Rightarrow> None)
     | None \<Rightarrow> None)"

definition handle_couchbase2_scheme :: "ConnSpec \<Rightarrow> (ConnErrorKind, ResolvedConnSpec) result" where
  "handle_couchbase2_scheme spec =
    (if length (cs_hosts spec) > 1
     then Err (InvalidArgumentError ''couchbase2 scheme can only be used with a single host'' ''scheme'')
     else
       let host = (case cs_hosts spec of
             [] \<Rightarrow> \<lparr>addr_host = ''127.0.0.1'', addr_port = default_couchbase2_port\<rparr>
           | a # _ \<Rightarrow> \<lparr>addr_host = ca_host a, addr_port = (case ca_port a of Some p \<Rightarrow> p | None \<Rightarrow> default_couchbase2_port)\<rparr>)
       in Ok \<lparr>rc_use_ssl = True, rc_memd_hosts = [], rc_http_hosts = [], rc_couchbase2_host = Some host, rc_srv_record = None,
             rc_options = cs_options spec\<rparr>)"

definition default_ports :: "bool \<Rightarrow> u16 \<times> u16" where
  "default_ports use_ssl =
    (if use_ssl then (default_ssl_memd_port, default_legacy_https_port) else (default_memd_port, default_legacy_http_port))"

fun resolve_hosts ::
  "bool \<Rightarrow> u16 \<Rightarrow> bool \<Rightarrow> ConnSpecAddress list \<Rightarrow> ConnAddress list \<Rightarrow> ConnAddress list
    \<Rightarrow> (ConnErrorKind, ConnAddress list \<times> ConnAddress list) result" where
  "resolve_hosts use_ssl default_port has_explicit_scheme [] memd_hosts http_hosts = Ok (memd_hosts, http_hosts)"
| "resolve_hosts use_ssl default_port has_explicit_scheme (address # addresses) memd_hosts http_hosts =
    (case ca_port address of
       Some port \<Rightarrow>
         if port = default_legacy_http_port then
           Err (InvalidArgumentError ''couchbase://host:8091 not supported for couchbase:// scheme. Use couchbase://host'' ''port'')
         else if \<not> has_explicit_scheme \<and> ca_port address \<noteq> Some default_port then
           Err (InvalidArgumentError ''ambiguous port without scheme'' ''port'')
         else
           resolve_hosts use_ssl default_port has_explicit_scheme addresses
             (memd_hosts @ [\<lparr>addr_host = ca_host address, addr_port = port\<rparr>]) http_hosts
     | None \<Rightarrow>
         let (memd_port, http_port) = default_ports use_ssl
         in resolve_hosts use_ssl default_port has_explicit_scheme addresses
              (memd_hosts @ [\<lparr>addr_host = ca_host address, addr_port = memd_port\<rparr>])
              (http_hosts @ [\<lparr>addr_host = ca_host address, addr_port = http_port\<rparr>]))"

definition resolve_with ::
  "(string \<Rightarrow> bool) \<Rightarrow> (string \<Rightarrow> string \<Rightarrow> string \<Rightarrow> (ConnErrorKind, ConnAddress list) result) \<Rightarrow> ConnSpec \<Rightarrow> u16 \<Rightarrow> bool \<Rightarrow> bool
    \<Rightarrow> (ConnErrorKind, ResolvedConnSpec) result" where
  "resolve_with parses_as_ip_addr lookup_srv spec default_port has_explicit_scheme use_ssl =
    (let resolved = (\<lambda>memd http srv. \<lparr>rc_use_ssl = use_ssl, rc_memd_hosts = memd, rc_http_hosts = http, rc_couchbase2_host = None,
           rc_srv_record = srv, rc_options = cs_options spec\<rparr>);
         srv = (case srv_record parses_as_ip_addr spec of
             None \<Rightarrow> Ok None
           | Some r \<Rightarrow> (case lookup_srv (srv_scheme r) (srv_proto r) (srv_host r) of
                 Ok records \<Rightarrow> Ok (Some (resolved records [] (Some r)))
               | Err _ \<Rightarrow> Ok None
               | Panic \<Rightarrow> Panic))
     in and_then srv (\<lambda>found.
        case found of
          Some r \<Rightarrow> Ok r
        | None \<Rightarrow>
            if cs_hosts spec = [] then
              let (memd_port, http_port) = default_ports use_ssl
              in Ok (resolved [\<lparr>addr_host = ''127.0.0.1'', addr_port = memd_port\<rparr>] [\<lparr>addr_host = ''127.0.0.1'', addr_port = http_port\<rparr>] None)
            else
              and_then (resolve_hosts use_ssl default_port has_explicit_scheme (cs_hosts spec) [] []) (\<lambda>(memd, http).
              Ok (resolved memd http None))))"

definition resolve ::
  "(string \<Rightarrow> bool) \<Rightarrow> (string \<Rightarrow> string \<Rightarrow> string \<Rightarrow> (ConnErrorKind, ConnAddress list) result) \<Rightarrow> ConnSpec
    \<Rightarrow> (ConnErrorKind, ResolvedConnSpec) result" where
  "resolve parses_as_ip_addr lookup_srv spec =
    (let go = resolve_with parses_as_ip_addr lookup_srv spec in
     case cs_scheme spec of
       Some scheme \<Rightarrow>
         if scheme = ''couchbase'' then go default_memd_port True False
         else if scheme = ''couchbases'' then go default_ssl_memd_port True True
         else if scheme = ''couchbase2'' then handle_couchbase2_scheme spec
         else if scheme = [] then go default_memd_port False False
         else Err (InvalidArgumentError ''unrecognized scheme'' ''scheme'')
     | None \<Rightarrow> go default_memd_port False False)"

section \<open>The first match of a pattern\<close>

definition starts :: "re \<Rightarrow> string \<Rightarrow> string \<Rightarrow> (nat \<times> string) list \<Rightarrow> bool" where
  "starts a s r g \<longleftrightarrow> (\<exists>ms. parses a s = (r, g) # ms)"

definition stops :: "cls \<Rightarrow> string \<Rightarrow> bool" where
  "stops k r \<longleftrightarrow> r = [] \<or> \<not> in_cls k (hd r)"

lemma starts_Lit: "starts (Lit l) (l @ r) r []"
  by (simp add: starts_def)

lemma starts_Single: "in_cls k c \<Longrightarrow> starts (Single k) (c # r) r []"
  by (simp add: starts_def)

lemma takeWhile_stops: "list_all (in_cls k) p \<Longrightarrow> stops k r \<Longrightarrow> takeWhile (in_cls k) (p @ r) = p"
  by (induction p) (auto simp: stops_def takeWhile_eq_Nil_iff)

lemma starts_Many: "list_all (in_cls k) p \<Longrightarrow> stops k r \<Longrightarrow> starts (Many k) (p @ r) r []"
  by (simp add: starts_def takeWhile_stops)

lemma starts_Group: "starts a (p @ r) r g \<Longrightarrow> starts (Group n a) (p @ r) r ((n, p) # g)"
  by (auto simp: starts_def)

lemma starts_Seq: "starts a s r g \<Longrightarrow> starts b r r' g' \<Longrightarrow> starts (Seq a b) s r' (g @ g')"
  by (auto simp: starts_def)

lemma starts_Opt: "starts a s r g \<Longrightarrow> starts (Opt a) s r g"
  by (auto simp: starts_def)

lemma starts_Opt_skip: "parses a s = [] \<Longrightarrow> starts (Opt a) s s []"
  by (simp add: starts_def)

lemma starts_Alt1: "starts a s r g \<Longrightarrow> starts (Alt a b) s r g"
  by (auto simp: starts_def)

lemma starts_Alt2: "parses a s = [] \<Longrightarrow> starts b s r g \<Longrightarrow> starts (Alt a b) s r g"
  by (auto simp: starts_def)

lemma parses_Group_Nil [simp]: "parses a s = [] \<Longrightarrow> parses (Group n a) s = []"
  by simp

text \<open>Where a match can end.\<close>

definition consumes :: "re \<Rightarrow> string \<Rightarrow> string \<Rightarrow> bool" where
  "consumes a s r \<longleftrightarrow> r \<in> fst ` set (parses a s)"

lemma consumes_iff: "consumes a s r \<longleftrightarrow> (\<exists>g. (r, g) \<in> set (parses a s))"
  by (force simp: consumes_def)

lemma consumes_Seq: "consumes (Seq a b) s r \<longleftrightarrow> (\<exists>r'. consumes a s r' \<and> consumes b r' r)"
proof
  assume "\<exists>r'. consumes a s r' \<and> consumes b r' r"
  then obtain r' g g' where "(r', g) \<in> set (parses a s)" "(r, g') \<in> set (parses b r')" by (auto simp: consumes_iff)
  then have "(r, g @ g') \<in> set (parses (Seq a b) s)" by (auto intro!: bexI [of _ "(r', g)"] image_eqI [of _ _ "(r, g')"])
  then show "consumes (Seq a b) s r" by (auto simp only: consumes_iff)
qed (auto simp: consumes_iff)

lemma consumes_simps [simp]:
  "consumes (Lit l) s r \<longleftrightarrow> s = l @ r"
  "consumes (Seq a b) s r \<longleftrightarrow> (\<exists>r'. consumes a s r' \<and> consumes b r' r)"
  "consumes (Group n a) s r \<longleftrightarrow> consumes a s r"
  "consumes (Opt a) s r \<longleftrightarrow> consumes a s r \<or> r = s"
  "consumes (Alt a b) s r \<longleftrightarrow> consumes a s r \<or> consumes b s r"
  "consumes (Single k) s r \<longleftrightarrow> (\<exists>c. s = c # r \<and> in_cls k c)"
proof -
  show "consumes (Alt a b) s r \<longleftrightarrow> consumes a s r \<or> consumes b s r" by (auto simp: consumes_def)
  show "consumes (Single k) s r \<longleftrightarrow> (\<exists>c. s = c # r \<and> in_cls k c)" by (auto simp: consumes_def split: list.split)
  show "consumes (Lit l) s r \<longleftrightarrow> s = l @ r" by (auto simp: consumes_def) (metis append_take_drop_id)
  show "consumes (Seq a b) s r \<longleftrightarrow> (\<exists>r'. consumes a s r' \<and> consumes b r' r)" by (rule consumes_Seq)
  show "consumes (Group n a) s r \<longleftrightarrow> consumes a s r" by (simp add: consumes_def image_image case_prod_beta)
  show "consumes (Opt a) s r \<longleftrightarrow> consumes a s r \<or> r = s" by (auto simp: consumes_def)
qed

lemma consumes_Many: "consumes (Many k) s r \<Longrightarrow> \<exists>p. s = p @ r \<and> list_all (in_cls k) p"
proof -
  assume "consumes (Many k) s r"
  then obtain n where n: "n \<le> length (takeWhile (in_cls k) s)" "r = drop n s"
    by (auto simp: consumes_def less_Suc_eq_le simp del: upt_Suc)
  have "take n s = take n (takeWhile (in_cls k) s)"
    using n(1) by (subst takeWhile_eq_take) (simp add: min_def)
  then have "list_all (in_cls k) (take n s)" by (auto simp: list_all_iff dest!: in_set_takeD set_takeWhileD)
  with n(2) show ?thesis by (metis append_take_drop_id)
qed

lemma parses_Nil: "parses a s = [] \<longleftrightarrow> (\<forall>r. \<not> consumes a s r)"
  by (cases "parses a s") (auto simp: consumes_def)

lemma concat_rev_upt:
  "m \<le> N \<Longrightarrow> (\<And>n. m < n \<Longrightarrow> n \<le> N \<Longrightarrow> f n = []) \<Longrightarrow>
    concat (map f (rev [0..<Suc N])) = f m @ concat (map f (rev [0..<m]))"
proof (induction N)
  case (Suc N)
  show ?case
  proof (cases "m = Suc N")
    case False
    then have "f (Suc N) = []" "m \<le> N" using Suc.prems by auto
    with Suc show ?thesis by simp
  qed simp
qed simp

section \<open>The parts of a connection string\<close>

definition no_sep :: "string \<Rightarrow> bool" where
  "no_sep s \<longleftrightarrow> (\<forall>n. take 3 (drop n s) \<noteq> ''://'')"

abbreviation scheme_re :: re where
  "scheme_re \<equiv> Group 1 (Seq (Group 2 (Many dot)) (Lit ''://''))"

lemma parses_scheme_body:
  "parses (Seq (Group 2 (Many dot)) (Lit ''://'')) s =
    concat (map (\<lambda>n. if take 3 (drop n s) = ''://'' then [(drop 3 (drop n s), [(2, take n s)])] else [])
      (rev [0..<Suc (length (takeWhile (in_cls dot) s))]))"
proof -
  have "n < Suc (length (takeWhile (in_cls dot) s)) \<Longrightarrow> length s - (length s - n) = n" for n
    using length_takeWhile_le [of "in_cls dot" s] by simp
  then show ?thesis by (auto simp: comp_def numeral_3_eq_3 intro!: arg_cong [of _ _ concat] map_cong)
qed

lemma no_scheme: "no_sep s \<Longrightarrow> parses scheme_re s = []"
  by (simp only: parses_scheme_body parses.simps(7)) (simp add: no_sep_def)

lemma scheme_found:
  assumes "CHR ''\<newline>'' \<notin> set sc" and "no_sep t"
  shows "starts scheme_re (sc @ ''://'' @ t) t [(1, sc @ ''://''), (2, sc)]"
proof -
  let ?s = "sc @ ''://'' @ t" and ?N = "length (takeWhile (in_cls dot) (sc @ ''://'' @ t))"
  let ?f = "\<lambda>n. if take 3 (drop n ?s) = ''://'' then [(drop 3 (drop n ?s), [(2 :: nat, take n ?s)])] else []"
  have "takeWhile (in_cls dot) ?s = sc @ takeWhile (in_cls dot) (''://'' @ t)"
    using assms(1) by (intro takeWhile_append2) auto
  then have le: "length sc \<le> ?N" by simp
  have later: "?f n = []" if less: "length sc < n" for n
  proof -
    obtain k where n: "n = length sc + Suc k" using less less_iff_Suc_add by auto
    have "drop n ?s = drop k (''//'' @ t)" by (simp add: n)
    moreover have "take 3 (drop k (''//'' @ t)) \<noteq> ''://''"
    proof (cases k)
      case (Suc k')
      then show ?thesis using assms(2) by (cases k') (auto simp: no_sep_def numeral_3_eq_3)
    qed (simp add: numeral_3_eq_3)
    ultimately show ?thesis by simp
  qed
  have "parses (Seq (Group 2 (Many dot)) (Lit ''://'')) ?s = ?f (length sc) @ concat (map ?f (rev [0..<length sc]))"
    unfolding parses_scheme_body by (rule concat_rev_upt [OF le later])
  then have "starts (Seq (Group 2 (Many dot)) (Lit ''://'')) ((sc @ ''://'') @ t) t [(2, sc)]"
    by (simp add: starts_def numeral_3_eq_3)
  from starts_Group [OF this, of 1] show ?thesis by simp
qed

lemma at_before_path:
  assumes "h @ rest = p @ CHR ''@'' # z" and "CHR ''/'' \<notin> set p" "CHR ''?'' \<notin> set p"
    and "rest = [] \<or> hd rest = CHR ''/'' \<or> hd rest = CHR ''?''"
  shows "CHR ''@'' \<in> set h"
proof -
  consider us where "h = p @ us" "us @ rest = CHR ''@'' # z" | us where "p = h @ us" "rest = us @ CHR ''@'' # z"
    using assms(1) by (auto simp: append_eq_append_conv2)
  then show ?thesis
  proof cases
    case (1 us)
    with assms(4) show ?thesis by (cases us) auto
  next
    case (2 us)
    with assms(2-4) show ?thesis by (cases us) auto
  qed
qed

abbreviation user_re :: re where
  "user_re \<equiv> Group 3 (Seq (Group 4 (Many (NoneOf ''/?:'')))
      (Seq (Opt (Group 5 (Seq (Lit '':'') (Group 6 (Many (NoneOf ''/?:@'')))))) (Lit ''@'')))"

lemma no_user:
  assumes "CHR ''@'' \<notin> set h" and "rest = [] \<or> hd rest = CHR ''/'' \<or> hd rest = CHR ''?''"
  shows "parses user_re (h @ rest) = []"
  unfolding parses_Nil
proof (intro allI notI)
  fix r
  assume "consumes user_re (h @ rest) r"
  then obtain r1 r2 where 1: "consumes (Many (NoneOf ''/?:'')) (h @ rest) r1"
    and 2: "consumes (Many (NoneOf ''/?:@'')) r2 (CHR ''@'' # r) \<and> r1 = CHR '':'' # r2 \<or> r1 = CHR ''@'' # r"
    by auto
  obtain p where p: "h @ rest = p @ r1" "list_all (in_cls (NoneOf ''/?:'')) p" using consumes_Many [OF 1] by auto
  obtain q where "r1 = q @ CHR ''@'' # r" "CHR ''/'' \<notin> set q" "CHR ''?'' \<notin> set q"
  proof (cases "r1 = CHR ''@'' # r")
    case False
    with 2 obtain q where "r1 = CHR '':'' # q @ CHR ''@'' # r" "list_all (in_cls (NoneOf ''/?:@'')) q"
      using consumes_Many by blast
    then show thesis by (intro that [of "CHR '':'' # q"]) (auto simp: list_all_iff)
  qed (use that [of "[]"] in simp)
  then have "h @ rest = (p @ q) @ CHR ''@'' # r" "CHR ''/'' \<notin> set (p @ q)" "CHR ''?'' \<notin> set (p @ q)"
    using p by (auto simp: list_all_iff)
  from at_before_path [OF this assms(2)] assms(1) show False by simp
qed

text \<open>The parts of a text without user information and path.\<close>

lemma parts_found:
  assumes sc: "\<And>sc. scheme = Some sc \<Longrightarrow> CHR ''\<newline>'' \<notin> set sc"
    and sep: "no_sep (h @ rest)" and h: "\<forall>c \<in> set h. c \<notin> set ''/?@''"
    and rest: "rest = (case query of None \<Rightarrow> [] | Some q \<Rightarrow> CHR ''?'' # q)" and q: "\<And>q. query = Some q \<Longrightarrow> CHR ''\<newline>'' \<notin> set q"
  shows "\<exists>g. search parts_matcher (show_scheme scheme @ h @ rest) = Some ([], g) \<and> map_of g 2 = scheme \<and> map_of g 7 = Some h \<and> map_of g 11 = query"
proof -
  obtain g1 where g1: "starts (Opt scheme_re) (show_scheme scheme @ h @ rest) (h @ rest) g1" "map_of g1 2 = scheme" "fst ` set g1 \<subseteq> {1, 2}"
  proof (cases scheme)
    case None
    then show thesis using that [of "[]"] starts_Opt_skip [OF no_scheme [OF sep]] by (simp add: show_scheme_def)
  next
    case (Some sc)
    then show thesis using that starts_Opt [OF scheme_found [OF sc sep]] by (simp add: show_scheme_def)
  qed
  have r: "rest = [] \<or> hd rest = CHR ''/'' \<or> hd rest = CHR ''?''" "rest = [] \<or> hd rest = CHR ''?''" using rest by (auto split: option.splits)
  have g3: "starts (Opt user_re) (h @ rest) (h @ rest) []"
    by (rule starts_Opt_skip, rule no_user) (use h r(1) in auto)
  have g7: "starts (Group 7 (Many (NoneOf ''/?''))) (h @ rest) rest [(7, h)]"
    by (rule starts_Group, rule starts_Many) (use h r(2) in \<open>auto simp: list_all_iff stops_def\<close>)
  have g8: "starts (Opt (Group 8 (Seq (Lit ''/'') (Group 9 (Many (NoneOf ''?'')))))) rest rest []"
    by (rule starts_Opt_skip) (use r(2) in \<open>auto simp: parses_Nil simp del: parses.simps\<close>)
  obtain g10 where g10: "starts (Opt (Group 10 (Seq (Lit ''?'') (Group 11 (Many dot))))) rest [] g10" "map_of g10 11 = query" "map_of g10 2 = None"
  proof (cases query)
    case None
    then have "starts (Opt (Group 10 (Seq (Lit ''?'') (Group 11 (Many dot))))) rest [] []"
      using rest starts_Opt_skip [of "Group 10 (Seq (Lit ''?'') (Group 11 (Many dot)))" "[]"] by simp
    with None show thesis using that [of "[]"] by simp
  next
    case (Some y)
    have "starts (Many dot) (y @ []) [] []" by (rule starts_Many) (use q [OF Some] in \<open>auto simp: list_all_iff stops_def\<close>)
    from starts_Seq [OF starts_Lit starts_Group [OF this, of 11], of "''?''"]
    have "starts (Seq (Lit ''?'') (Group 11 (Many dot))) ((''?'' @ y) @ []) [] [(11, y)]" by simp
    from starts_Opt [OF starts_Group [OF this, of 10]] show thesis using that [of "[(10, ''?'' @ y), (11, y)]"] Some rest by simp
  qed
  let ?g = "g1 @ [] @ [(7, h)] @ [] @ g10"
  have "starts parts_matcher (show_scheme scheme @ h @ rest) [] ?g"
    unfolding parts_matcher_def by (rule starts_Seq [OF g1(1) starts_Seq [OF g3 starts_Seq [OF g7 starts_Seq [OF g8 g10(1)]]]])
  then have "search parts_matcher (show_scheme scheme @ h @ rest) = Some ([], ?g)"
    by (subst search.simps) (auto simp: starts_def)
  moreover have "map_of g1 7 = None" "map_of g1 11 = None" using g1(3) by (auto simp: map_of_eq_None_iff)
  moreover have "map_of ?g 2 = scheme" using g1(2) g10(3) by (cases scheme) (auto simp: map_add_def)
  ultimately show ?thesis using g10(2) by (intro exI [of _ ?g]) (auto simp: map_add_def split: option.splits)
qed

section \<open>The hosts\<close>

definition wf_host :: "string \<Rightarrow> bool" where
  "wf_host h \<longleftrightarrow> (h \<noteq> [] \<and> hd h \<noteq> CHR ''['' \<and> (\<forall>c \<in> set h. c \<notin> set '';,:''))
    \<or> (\<exists>i. h = ''['' @ i @ '']'' \<and> i \<noteq> [] \<and> CHR '']'' \<notin> set i)"

abbreviation bracket_re :: re where
  "bracket_re \<equiv> Group 2 (Seq (Lit ''['') (Seq (Seq (Single (NoneOf '']'')) (Many (NoneOf '']''))) (Seq (Single (OneOf '']'')) (Many (OneOf '']'')))))"

abbreviation name_re :: re where
  "name_re \<equiv> Group 3 (Seq (Single (NoneOf '';,:'')) (Many (NoneOf '';,:'')))"

lemma starts_Plus:
  "p \<noteq> [] \<Longrightarrow> list_all (in_cls k) p \<Longrightarrow> stops k r \<Longrightarrow> starts (Seq (Single k) (Many k)) (p @ r) r []"
  using starts_Seq [OF starts_Single starts_Many, of k "hd p" k "tl p" r] by (cases p) auto

lemma host_name_found:
  assumes "wf_host h" and "r = [] \<or> hd r = CHR '':'' \<or> hd r = CHR '',''"
  shows "\<exists>g. starts (Group 1 (Alt bracket_re name_re)) (h @ r) r ((1, h) # g) \<and> map_of g 5 = None"
proof (cases "hd h = CHR ''[''")
  case True
  then obtain i where i: "h = ''['' @ i @ '']''" "i \<noteq> []" "CHR '']'' \<notin> set i" using assms(1) by (auto simp: wf_host_def)
  have "starts (Seq (Single (NoneOf '']'')) (Many (NoneOf '']''))) (i @ '']'' @ r) ('']'' @ r) []"
    by (rule starts_Plus) (use i in \<open>auto simp: list_all_iff stops_def\<close>)
  moreover have "starts (Seq (Single (OneOf '']'')) (Many (OneOf '']''))) ('']'' @ r) r []"
    by (rule starts_Plus) (use assms(2) in \<open>auto simp: stops_def\<close>)
  ultimately have "starts (Seq (Lit ''['') (Seq (Seq (Single (NoneOf '']'')) (Many (NoneOf '']''))) (Seq (Single (OneOf '']'')) (Many (OneOf '']'')))))
      (''['' @ i @ '']'' @ r) r ([] @ [] @ [])"
    by (intro starts_Seq [OF starts_Lit] starts_Seq)
  then have "starts bracket_re (h @ r) r [(2, h)]" using starts_Group [of _ h r "[]" 2] by (simp add: i(1))
  from starts_Group [OF starts_Alt1 [OF this]] show ?thesis by (intro exI [of _ "[(2, h)]"]) simp
next
  case False
  then have h: "h \<noteq> []" "\<forall>c \<in> set h. c \<notin> set '';,:''" using assms(1) by (auto simp: wf_host_def)
  have "parses bracket_re (h @ r) = []" using False h(1) by (cases h) (auto simp: parses_Nil simp del: parses.simps)
  moreover have "starts name_re (h @ r) r [(3, h)]"
    by (rule starts_Group, rule starts_Plus) (use h assms(2) in \<open>auto simp: list_all_iff stops_def\<close>)
  ultimately have "starts (Alt bracket_re name_re) (h @ r) r [(3, h)]" by (rule starts_Alt2)
  from starts_Group [OF this] show ?thesis by (intro exI [of _ "[(3, h)]"]) simp
qed

lemma digit_cls: "in_cls (OneOf ''0123456789'') = is_digit"
  by (simp only: fun_eq_iff is_digit_def in_cls.simps simp_thms)

lemma host_found:
  assumes "wf_host h" and "\<And>d. port = Some d \<Longrightarrow> list_all is_digit d" and "r = [] \<or> hd r = CHR '',''"
  shows "\<exists>g. starts host_matcher (h @ (case port of None \<Rightarrow> [] | Some d \<Rightarrow> CHR '':'' # d) @ r) r g \<and> map_of g 1 = Some h \<and> map_of g 5 = port"
proof -
  let ?p = "case port of None \<Rightarrow> [] | Some d \<Rightarrow> CHR '':'' # d"
  have ends: "?p @ r = [] \<or> hd (?p @ r) = CHR '':'' \<or> hd (?p @ r) = CHR '',''" using assms(3) by (cases port) auto
  obtain g where g: "starts (Group 1 (Alt bracket_re name_re)) (h @ ?p @ r) (?p @ r) ((1, h) # g)" "map_of g 5 = None"
    using host_name_found [OF assms(1) ends] by auto
  obtain g' where g': "starts (Opt (Group 4 (Seq (Lit '':'') (Group 5 (Many (OneOf ''0123456789'')))))) (?p @ r) r g'" "map_of g' 5 = port"
  proof (cases port)
    case None
    have "parses (Group 4 (Seq (Lit '':'') (Group 5 (Many (OneOf ''0123456789''))))) r = []"
      using assms(3) by (auto simp: parses_Nil simp del: parses.simps)
    then show thesis using that [of "[]"] starts_Opt_skip None by simp
  next
    case (Some d)
    have "starts (Group 5 (Many (OneOf ''0123456789''))) (d @ r) r [(5, d)]"
    proof (rule starts_Group, rule starts_Many)
      show "list_all (in_cls (OneOf ''0123456789'')) d" using assms(2) [OF Some] by (simp only: digit_cls)
      show "stops (OneOf ''0123456789'') r" using assms(3) by (auto simp: stops_def)
    qed
    from starts_Seq [OF starts_Lit this, of "'':''"]
    have "starts (Seq (Lit '':'') (Group 5 (Many (OneOf ''0123456789'')))) (('':'' @ d) @ r) r [(5, d)]" by simp
    from starts_Opt [OF starts_Group [OF this, of 4]] show thesis using that [of "[(4, '':'' @ d), (5, d)]"] Some by simp
  qed
  have "parses (Group 6 (Lit '';,'')) r = []" using assms(3) by (auto simp: parses_Nil simp del: parses.simps)
  then have "starts (Opt (Group 6 (Lit '';,''))) r r []" by (rule starts_Opt_skip)
  from starts_Seq [OF g(1) starts_Seq [OF g'(1) this]]
  have "starts host_matcher (h @ ?p @ r) r ((1, h) # g @ g')" by (simp add: host_matcher_def)
  then show ?thesis using g(2) g'(2) by (intro exI [of _ "(1, h) # g @ g'"]) (auto simp: map_add_def split: option.splits)
qed

definition wf_address :: "ConnSpecAddress \<Rightarrow> bool" where
  "wf_address a \<longleftrightarrow> wf_host (ca_host a) \<and> (\<forall>c \<in> set (ca_host a). c \<notin> set ''/?@'')"

lemma address_found:
  assumes "wf_address a" and "r = [] \<or> hd r = CHR '',''"
  shows "\<exists>g. starts host_matcher (show_address a @ r) r g \<and> map_of g 1 = Some (ca_host a)
    \<and> map_of g 5 = map_option (\<lambda>p. show_nat (unat p)) (ca_port a)"
  using host_found [of "ca_host a" "map_option (\<lambda>p. show_nat (unat p)) (ca_port a)" r] assms show_nat_digits
  by (auto simp: wf_address_def show_address_def split: option.splits)

lemma find_all_found: "starts m s r g \<Longrightarrow> length r < length s \<Longrightarrow> find_all m s = g # find_all m r"
  by (subst find_all.simps) (auto simp: starts_def search.simps [of m s])

lemma find_all_skip:
  assumes "parses m (c # s) = []" and "starts m s r g" and "length r < length s"
  shows "find_all m (c # s) = find_all m s"
proof -
  have "search m (c # s) = search m s" "search m s = Some (r, g)"
    using assms(1,2) by (simp_all add: search.simps [of m "c # s"] search.simps [of m s] starts_def) auto
  then show ?thesis using assms(3) by (simp add: find_all.simps [of m "c # s"] find_all.simps [of m s])
qed

lemma comma_skipped: "parses host_matcher (CHR '','' # s) = []"
  by (auto simp: parses_Nil host_matcher_def simp del: parses.simps)

lemma wf_host_Nil: "\<not> wf_host []"
  by (simp add: wf_host_def)

lemma wf_address_nonempty: "wf_address a \<Longrightarrow> show_address a \<noteq> []"
  using wf_host_Nil unfolding wf_address_def show_address_def by (cases "ca_port a") (simp_all, metis)

lemma hosts_found:
  assumes "list_all wf_address hs"
  shows "map (\<lambda>g. (map_of g 1, map_of g 5)) (find_all host_matcher (join '','' (map show_address hs)))
    = map (\<lambda>a. (Some (ca_host a), map_option (\<lambda>p. show_nat (unat p)) (ca_port a))) hs"
  using assms
proof (induction hs)
  case Nil
  have "search host_matcher [] = None" by (simp add: search.simps host_matcher_def)
  then show ?case by (simp add: find_all.simps)
next
  case (Cons a hs)
  have a: "wf_address a" and hs: "list_all wf_address hs" using Cons.prems by simp_all
  let ?t = "join '','' (map show_address hs)"
  let ?r = "if hs = [] then [] else CHR '','' # ?t"
  have whole: "join '','' (map show_address (a # hs)) = show_address a @ ?r" by (cases hs) auto
  obtain g where g: "starts host_matcher (show_address a @ ?r) ?r g" "map_of g 1 = Some (ca_host a)"
      "map_of g 5 = map_option (\<lambda>p. show_nat (unat p)) (ca_port a)"
    using address_found [OF a, of ?r] by (cases "hs = []") auto
  have "find_all host_matcher ?r = find_all host_matcher ?t"
  proof (cases hs)
    case (Cons b bs)
    let ?r' = "if bs = [] then [] else CHR '','' # join '','' (map show_address bs)"
    have t: "?t = show_address b @ ?r'" using Cons by (cases bs) auto
    have "wf_address b" using hs Cons by simp
    then obtain g' where "starts host_matcher ?t ?r' g'" using address_found [of b ?r'] t by (cases "bs = []") auto
    moreover have "length ?r' < length ?t" using wf_address_nonempty [OF \<open>wf_address b\<close>] t by simp
    ultimately show ?thesis using find_all_skip [OF comma_skipped] Cons by simp
  qed simp
  moreover have "find_all host_matcher (show_address a @ ?r) = g # find_all host_matcher ?r"
    using wf_address_nonempty [OF a] by (intro find_all_found [OF g(1)]) simp
  ultimately show ?case using Cons.IH [OF hs] g(2,3) whole by simp
qed

lemma parse_hosts_found:
  "map (\<lambda>i. (i 1, i 5)) infos = map (\<lambda>a. (Some (ca_host a), map_option (\<lambda>p. show_nat (unat p)) (ca_port a))) hs \<Longrightarrow> parse_hosts infos = Ok hs"
proof (induction hs arbitrary: infos)
  case (Cons a hs)
  then obtain i infos' where i: "infos = i # infos'" "i 1 = Some (ca_host a)" "i 5 = map_option (\<lambda>p. show_nat (unat p)) (ca_port a)"
      "parse_hosts infos' = Ok hs"
    by (cases infos) auto
  then show ?case by (cases "ca_port a") (simp_all add: parse_u16_show)
qed simp

section \<open>Round trip\<close>

lemma no_sep_Cons: "no_sep (c # s) \<longleftrightarrow> take 3 (c # s) \<noteq> ''://'' \<and> no_sep s"
proof -
  have "no_sep s" if "no_sep (c # s)" using that unfolding no_sep_def by (metis drop_Suc_Cons)
  moreover have "take 3 (c # s) \<noteq> ''://''" if "no_sep (c # s)" using that unfolding no_sep_def by (metis drop0)
  moreover have "no_sep (c # s)" if "take 3 (c # s) \<noteq> ''://''" "no_sep s"
    unfolding no_sep_def
  proof
    fix n
    show "take 3 (drop n (c # s)) \<noteq> ''://''" using that by (cases n) (auto simp: no_sep_def)
  qed
  ultimately show ?thesis by blast
qed

lemma no_sep_hosts:
  "CHR ''/'' \<notin> set h \<Longrightarrow> rest = [] \<or> hd rest = CHR ''?'' \<Longrightarrow> no_sep rest \<Longrightarrow> no_sep (h @ rest)"
proof (induction h)
  case (Cons c h)
  have "take 3 (c # h @ rest) \<noteq> ''://''"
    using Cons.prems(1,2) by (cases h; cases rest) (auto simp: numeral_3_eq_3)
  with Cons show ?case by (simp add: no_sep_Cons)
qed simp

lemma join_chars: "c \<in> set (join sep xs) \<Longrightarrow> c \<in> set sep \<or> (\<exists>x \<in> set xs. c \<in> set x)"
  by (induction sep xs rule: join.induct) auto

lemma digit_no_delimiter: "is_digit c \<Longrightarrow> c \<notin> set ''/?@''"
  unfolding is_digit_def by auto

lemma show_address_chars: "wf_address a \<Longrightarrow> c \<in> set (show_address a) \<Longrightarrow> c \<notin> set ''/?@''"
  using show_nat_digits digit_no_delimiter
  by (cases "ca_port a") (auto simp: wf_address_def show_address_def list_all_iff)

text \<open>C37. A printed connection specification is parsed back: for a scheme without a line break, hosts that are names, IPv4 addresses or
  bracketed IPv6 addresses, with or without a port, and a query without a line break and without \<^verbatim>\<open>://\<close>, the parser returns the
  scheme and the hosts in order with their ports, and collects the options that the URL decoder finds in the query.\<close>

theorem parse_printed:
  assumes "regex_crate captures captures_iter"
    and "\<forall>sc. scheme = Some sc \<longrightarrow> CHR ''\<newline>'' \<notin> set sc" and "list_all wf_address hosts"
    and "\<forall>q. query = Some q \<longrightarrow> CHR ''\<newline>'' \<notin> set q \<and> no_sep q"
  shows "parse captures captures_iter form_urlencoded
      (show_scheme scheme @ join '','' (map show_address hosts) @ (case query of None \<Rightarrow> [] | Some q \<Rightarrow> ''?'' @ q))
    = Ok \<lparr>cs_scheme = scheme, cs_hosts = hosts,
          cs_options = (case query of None \<Rightarrow> Map.empty | Some q \<Rightarrow> collect_options (form_urlencoded q))\<rparr>"
proof -
  let ?h = "join '','' (map show_address hosts)" and ?rest = "case query of None \<Rightarrow> [] | Some q \<Rightarrow> CHR ''?'' # q"
  have h: "\<forall>c \<in> set ?h. c \<notin> set ''/?@''"
  proof
    fix c assume "c \<in> set ?h"
    from join_chars [OF this] show "c \<notin> set ''/?@''" using assms(3) show_address_chars by (auto simp only: list_all_iff set_map) auto
  qed
  have "no_sep ?rest" using assms(4) by (cases query) (auto simp: no_sep_Cons, simp add: no_sep_def)
  then have sep: "no_sep (?h @ ?rest)" using h by (intro no_sep_hosts) (auto split: option.splits)
  obtain g where g: "search parts_matcher (show_scheme scheme @ ?h @ ?rest) = Some ([], g)" "map_of g 2 = scheme" "map_of g 7 = Some ?h" "map_of g 11 = query"
    using parts_found [of scheme ?h ?rest query] assms(2,4) sep h by auto
  have cap: "captures parts_matcher (show_scheme scheme @ ?h @ ?rest) = Some (map_of g)"
      "captures_iter host_matcher ?h = map map_of (find_all host_matcher ?h)"
    using assms(1) g(1) by (simp_all add: regex_crate_def)
  have "parse_hosts (captures_iter host_matcher ?h) = Ok hosts"
    using hosts_found [OF assms(3)] by (intro parse_hosts_found) (simp add: cap(2) comp_def)
  moreover have "(case query of None \<Rightarrow> [] | Some q \<Rightarrow> ''?'' @ q) = ?rest" by (simp split: option.split)
  ultimately show ?thesis using g(2-4) cap(1) by (simp add: parse_def split: option.split)
qed

definition regex_captures :: "re \<Rightarrow> string \<Rightarrow> (nat \<rightharpoonup> string) option" where
  "regex_captures r s = map_option (\<lambda>m. map_of (snd m)) (search r s)"

definition regex_captures_iter :: "re \<Rightarrow> string \<Rightarrow> (nat \<rightharpoonup> string) list" where
  "regex_captures_iter r s = map map_of (find_all r s)"

lemma regex_crate_instance: "regex_crate regex_captures regex_captures_iter"
  by (simp add: regex_crate_def regex_captures_def regex_captures_iter_def)

definition two_hosts :: "ConnSpecAddress list" where
  "two_hosts = [\<lparr>ca_host = ''a.b'', ca_port = None\<rparr>, \<lparr>ca_host = ''[::1]'', ca_port = Some 11207\<rparr>]"

lemma two_hosts_wf: "list_all wf_address two_hosts"
  by (auto simp: two_hosts_def wf_address_def wf_host_def intro!: exI [of _ "''::1''"])

theorem parse_printed_witness:
  "parse regex_captures regex_captures_iter (\<lambda>_. [(''x'', ''1''), (''x'', ''2'')]) ''couchbases://a.b,[::1]:11207?x=1&x=2''
    = Ok \<lparr>cs_scheme = Some ''couchbases'', cs_hosts = two_hosts, cs_options = [''x'' \<mapsto> [''1'', ''2'']]\<rparr>"
proof -
  have q: "no_sep ''x=1&x=2''" by (simp add: no_sep_Cons) (simp add: no_sep_def)
  have t: "show_scheme (Some ''couchbases'') @ join '','' (map show_address two_hosts) @ ''?'' @ ''x=1&x=2''
      = ''couchbases://a.b,[::1]:11207?x=1&x=2''"
    by (simp add: show_scheme_def two_hosts_def show_address_def show_nat.simps char_of_def bit_0)
  have "parse regex_captures regex_captures_iter (\<lambda>_. [(''x'', ''1''), (''x'', ''2'')])
      (show_scheme (Some ''couchbases'') @ join '','' (map show_address two_hosts) @ ''?'' @ ''x=1&x=2'')
    = Ok \<lparr>cs_scheme = Some ''couchbases'', cs_hosts = two_hosts, cs_options = [''x'' \<mapsto> [''1'', ''2'']]\<rparr>"
    using parse_printed [OF regex_crate_instance _ two_hosts_wf, of "Some ''couchbases''" "Some ''x=1&x=2''" "\<lambda>_. [(''x'', ''1''), (''x'', ''2'')]"] q
    by (simp add: collect_options_def)
  then show ?thesis unfolding t .
qed

section \<open>Resolved hosts\<close>

text \<open>What is wrong with an address, if anything.\<close>

definition rejected :: "bool \<Rightarrow> ConnSpecAddress \<Rightarrow> ConnErrorKind option" where
  "rejected explicit a =
    (if ca_port a = Some default_legacy_http_port
     then Some (InvalidArgumentError ''couchbase://host:8091 not supported for couchbase:// scheme. Use couchbase://host'' ''port'')
     else if \<not> explicit \<and> ca_port a \<noteq> None \<and> ca_port a \<noteq> Some default_memd_port
     then Some (InvalidArgumentError ''ambiguous port without scheme'' ''port'')
     else None)"

definition memd_address :: "bool \<Rightarrow> ConnSpecAddress \<Rightarrow> ConnAddress" where
  "memd_address use_ssl a = \<lparr>addr_host = ca_host a, addr_port = unwrap_or (fst (default_ports use_ssl)) (ca_port a)\<rparr>"

definition http_address :: "bool \<Rightarrow> ConnSpecAddress \<Rightarrow> ConnAddress" where
  "http_address use_ssl a = \<lparr>addr_host = ca_host a, addr_port = snd (default_ports use_ssl)\<rparr>"

definition resolved_hosts :: "ConnSpec \<Rightarrow> bool \<Rightarrow> bool \<Rightarrow> (ConnErrorKind, ResolvedConnSpec) result" where
  "resolved_hosts spec explicit use_ssl =
    (case List.map_filter (rejected explicit) (cs_hosts spec) of
       e # _ \<Rightarrow> Err e
     | [] \<Rightarrow> Ok \<lparr>rc_use_ssl = use_ssl, rc_memd_hosts = map (memd_address use_ssl) (cs_hosts spec),
           rc_http_hosts = map (http_address use_ssl) (filter (\<lambda>a. ca_port a = None) (cs_hosts spec)),
           rc_couchbase2_host = None, rc_srv_record = None, rc_options = cs_options spec\<rparr>)"

lemma resolve_hosts_eq:
  assumes "explicit \<or> default_port = default_memd_port"
  shows "resolve_hosts use_ssl default_port explicit hs memd http =
    (case List.map_filter (rejected explicit) hs of
       e # _ \<Rightarrow> Err e
     | [] \<Rightarrow> Ok (memd @ map (memd_address use_ssl) hs, http @ map (http_address use_ssl) (filter (\<lambda>a. ca_port a = None) hs)))"
  using assms
  by (induction hs arbitrary: memd http)
    (auto simp: List.map_filter_simps rejected_def memd_address_def http_address_def default_ports_def split: option.splits list.split)

lemma resolve_with_eq:
  assumes "explicit \<or> default_port = default_memd_port" and "cs_hosts spec \<noteq> []"
    and "\<forall>r. srv_record is_ip spec = Some r \<longrightarrow> (\<exists>e. lookup_srv (srv_scheme r) (srv_proto r) (srv_host r) = Err e)"
  shows "resolve_with is_ip lookup_srv spec default_port explicit use_ssl = resolved_hosts spec explicit use_ssl"
  using assms(2,3) resolve_hosts_eq [OF assms(1), of use_ssl "cs_hosts spec" "[]" "[]"]
  by (cases "srv_record is_ip spec") (auto simp: resolve_with_def resolved_hosts_def Let_def split: list.split)

text \<open>Resolving without a usable DNS record: the first address with the legacy HTTP port, or with a port other than the default one when there
  is no scheme, is the error; otherwise every address is a key-value host, in order, with its own port or the default one of the scheme,
  and exactly the addresses without a port are also HTTP hosts with the default port.\<close>

theorem resolve_correct:
  assumes "cs_scheme spec \<in> {None, Some [], Some ''couchbase'', Some ''couchbases''}" and "cs_hosts spec \<noteq> []"
    and "\<forall>r. srv_record is_ip spec = Some r \<longrightarrow> (\<exists>e. lookup_srv (srv_scheme r) (srv_proto r) (srv_host r) = Err e)"
  shows "resolve is_ip lookup_srv spec =
    (let use_ssl = (cs_scheme spec = Some ''couchbases''); explicit = (cs_scheme spec \<notin> {None, Some []}) in
     case List.map_filter (rejected explicit) (cs_hosts spec) of
       e # _ \<Rightarrow> Err e
     | [] \<Rightarrow> Ok \<lparr>rc_use_ssl = use_ssl, rc_memd_hosts = map (memd_address use_ssl) (cs_hosts spec),
           rc_http_hosts = map (http_address use_ssl) (filter (\<lambda>a. ca_port a = None) (cs_hosts spec)),
           rc_couchbase2_host = None, rc_srv_record = None, rc_options = cs_options spec\<rparr>)"
  using assms(1) resolve_with_eq [OF _ assms(2,3)]
  by (auto simp: resolve_def Let_def resolved_hosts_def [symmetric])

theorem resolve_correct_witness:
  "resolve (\<lambda>_. False) (\<lambda>_ _ _. Err (IoError ''down'')) \<lparr>cs_scheme = Some ''couchbases'', cs_hosts = two_hosts, cs_options = Map.empty\<rparr>
    = Ok \<lparr>rc_use_ssl = True,
          rc_memd_hosts = [\<lparr>addr_host = ''a.b'', addr_port = 11207\<rparr>, \<lparr>addr_host = ''[::1]'', addr_port = 11207\<rparr>],
          rc_http_hosts = [\<lparr>addr_host = ''a.b'', addr_port = 18091\<rparr>], rc_couchbase2_host = None, rc_srv_record = None, rc_options = Map.empty\<rparr>"
  using resolve_correct [of "\<lparr>cs_scheme = Some ''couchbases'', cs_hosts = two_hosts, cs_options = Map.empty\<rparr>" "\<lambda>_. False" "\<lambda>_ _ _. Err (IoError ''down'')"]
  by (simp add: two_hosts_def List.map_filter_simps rejected_def memd_address_def http_address_def default_ports_def)

definition resolved_wf :: "ResolvedConnSpec \<Rightarrow> bool" where
  "resolved_wf r \<longleftrightarrow>
    (rc_couchbase2_host r \<noteq> None \<longrightarrow> rc_use_ssl r \<and> rc_memd_hosts r = [] \<and> rc_http_hosts r = [] \<and> rc_srv_record r = None)
    \<and> (rc_couchbase2_host r = None \<and> rc_srv_record r = None \<longrightarrow>
        rc_memd_hosts r \<noteq> [] \<and> (\<forall>a \<in> set (rc_memd_hosts r). addr_port a \<noteq> 8091)
        \<and> (\<forall>a \<in> set (rc_http_hosts r). addr_port a = (if rc_use_ssl r then 18091 else 8091)
             \<and> \<lparr>addr_host = addr_host a, addr_port = (if rc_use_ssl r then 11207 else 11210)\<rparr> \<in> set (rc_memd_hosts r)))"

lemma resolved_hosts_wf:
  assumes "resolved_hosts spec explicit use_ssl = Ok r" and "cs_hosts spec \<noteq> []"
  shows "resolved_wf r \<and> rc_couchbase2_host r = None \<and> rc_options r = cs_options spec"
proof -
  have none: "rejected explicit a = None" if "a \<in> set (cs_hosts spec)" for a
    using assms(1) that by (auto simp: resolved_hosts_def List.map_filter_def filter_empty_conv split: list.splits)
  have "unwrap_or (fst (default_ports use_ssl)) (ca_port a) \<noteq> 8091" if "a \<in> set (cs_hosts spec)" for a
    using none [OF that] by (cases "ca_port a") (auto simp: rejected_def default_ports_def split: if_splits)
  with assms show ?thesis
    by (auto simp: resolved_wf_def resolved_hosts_def memd_address_def http_address_def default_ports_def image_iff
        split: list.splits intro!: bexI)
qed

lemma resolve_with_wf:
  assumes "resolve_with is_ip lookup_srv spec default_port explicit use_ssl = Ok r" and "explicit \<or> default_port = default_memd_port"
  shows "resolved_wf r \<and> rc_couchbase2_host r = None \<and> rc_options r = cs_options spec"
proof -
  consider (srv) x l where "srv_record is_ip spec = Some x" "lookup_srv (srv_scheme x) (srv_proto x) (srv_host x) = Ok l"
    | (none) "cs_hosts spec = []" "srv_record is_ip spec = None"
    | (hosts) "cs_hosts spec \<noteq> []" "\<forall>x. srv_record is_ip spec = Some x \<longrightarrow> (\<exists>e. lookup_srv (srv_scheme x) (srv_proto x) (srv_host x) = Err e)"
  proof (cases "srv_record is_ip spec")
    case (Some x)
    then have "cs_hosts spec \<noteq> []" by (auto simp: srv_record_def split: option.splits list.splits)
    with Some assms(1) that show thesis
      by (cases "lookup_srv (srv_scheme x) (srv_proto x) (srv_host x)") (auto simp: resolve_with_def Let_def)
  qed (use that in auto)
  then show ?thesis
  proof cases
    case hosts
    with assms(1) resolve_with_eq [OF assms(2) hosts] show ?thesis using resolved_hosts_wf by simp
  qed (use assms(1) in \<open>auto simp: resolve_with_def Let_def resolved_wf_def default_ports_def split: if_splits\<close>)
qed

text \<open>C38. Every resolved specification has the shape its consumers rely on: a \<^verbatim>\<open>couchbase2\<close> host comes only from that scheme, excludes key-value and
  HTTP hosts and means TLS; otherwise, unless the hosts come from a DNS record, there is at least one key-value host, every HTTP host is
  also a key-value host, each with the default port of the transport, and no key-value host has the legacy HTTP port.\<close>

theorem resolved_well_formed:
  assumes "resolve is_ip lookup_srv spec = Ok r"
  shows "(rc_couchbase2_host r \<noteq> None \<longleftrightarrow> cs_scheme spec = Some ''couchbase2'') \<and> rc_options r = cs_options spec
    \<and> (rc_couchbase2_host r \<noteq> None \<longrightarrow> rc_use_ssl r \<and> rc_memd_hosts r = [] \<and> rc_http_hosts r = [] \<and> rc_srv_record r = None)
    \<and> (rc_couchbase2_host r = None \<and> rc_srv_record r = None \<longrightarrow>
        rc_memd_hosts r \<noteq> [] \<and> (\<forall>a \<in> set (rc_memd_hosts r). addr_port a \<noteq> 8091)
        \<and> (\<forall>a \<in> set (rc_http_hosts r). addr_port a = (if rc_use_ssl r then 18091 else 8091)
             \<and> \<lparr>addr_host = addr_host a, addr_port = (if rc_use_ssl r then 11207 else 11210)\<rparr> \<in> set (rc_memd_hosts r)))"
proof (cases "cs_scheme spec = Some ''couchbase2''")
  case True
  with assms show ?thesis by (auto simp: resolve_def handle_couchbase2_scheme_def Let_def split: if_splits)
next
  case False
  with assms obtain default_port explicit use_ssl
    where "resolve_with is_ip lookup_srv spec default_port explicit use_ssl = Ok r" "explicit \<or> default_port = default_memd_port"
    by (auto simp: resolve_def Let_def split: if_splits option.splits)
  from resolve_with_wf [OF this] False show ?thesis unfolding resolved_wf_def by blast
qed

theorem resolved_well_formed_witness:
  "\<exists>r. resolve (\<lambda>_. False) (\<lambda>_ _ _. Err (IoError ''down'')) \<lparr>cs_scheme = Some ''couchbase'', cs_hosts = [], cs_options = Map.empty\<rparr> = Ok r
    \<and> rc_memd_hosts r \<noteq> []"
proof -
  obtain r where r: "resolve (\<lambda>_. False) (\<lambda>_ _ _. Err (IoError ''down'')) \<lparr>cs_scheme = Some ''couchbase'', cs_hosts = [], cs_options = Map.empty\<rparr> = Ok r"
      "rc_srv_record r = None"
    by (simp add: resolve_def resolve_with_def srv_record_def Let_def default_ports_def)
  with resolved_well_formed [OF r(1)] show ?thesis by simp
qed

end
