(* ===== verification/Scram.thy ===== *)
theory Scram
  imports Memdx_Replies Decimal
begin

text \<open>
  The SCRAM client (\<^verbatim>\<open>scram/mod.rs\<close>). The keyed and the plain hash and the base64 engine are arguments; a key that a
  MAC refuses is \<open>None\<close>. The specification it is compared with is the server side of RFC 5802.
\<close>

section \<open>Client\<close>

record ScramClient =
  sc_user :: bytes
  sc_pass :: bytes
  sc_client_nonce :: bytes
  sc_server_nonce :: bytes
  sc_salted_pass :: bytes
  sc_auth_msg :: bytes

datatype ScramError =
    ScramFieldCount nat | ScramInvalidNonce bytes | ScramInvalidSalt bytes | ScramInvalidIterations bytes | ScramNonceMismatch
  | ScramSaltEncoding | ScramIterationCount string | ScramMacKey string | ScramServerError string | ScramUnsupportedFinal bytes
  | ScramBadSignature bytes | ScramNonceGeneration

type_synonym mac = "bytes \<Rightarrow> bytes \<Rightarrow> bytes option"

definition scram_client_new :: "bytes \<Rightarrow> bytes \<Rightarrow> bytes option \<Rightarrow> ScramClient" where
  "scram_client_new user pass client_nonce =
    \<lparr>sc_user = user, sc_pass = pass, sc_client_nonce = unwrap_or [] client_nonce, sc_server_nonce = [], sc_salted_pass = [],
     sc_auth_msg = []\<rparr>"

text \<open>\<open>fresh\<close> is what the generator of nonces returns.\<close>

definition step1 :: "(ScramError, bytes) result \<Rightarrow> ScramClient \<Rightarrow> (ScramError, bytes) result \<times> ScramClient" where
  "step1 fresh self =
    (case (if sc_client_nonce self = [] then and_then fresh (\<lambda>n. Ok (self\<lparr>sc_client_nonce := n\<rparr>)) else Ok self) of
       Panic \<Rightarrow> (Panic, self)
     | Err e \<Rightarrow> (Err e, self)
     | Ok self \<Rightarrow>
         let self = self\<lparr>sc_auth_msg := sc_auth_msg self @ as_bytes ''n='' @ sc_user self @ as_bytes '',r='' @ sc_client_nonce self\<rparr>
         in (Ok (as_bytes ''n,,'' @ sc_auth_msg self), self))"

fun split_byte :: "u8 \<Rightarrow> bytes \<Rightarrow> bytes list" where
  "split_byte sep [] = [[]]"
| "split_byte sep (c # cs) =
    (if c = sep then [] # split_byte sep cs
     else case split_byte sep cs of [] \<Rightarrow> [[c]] | p # ps \<Rightarrow> (c # p) # ps)"

abbreviation comma :: u8 where "comma \<equiv> 0x2c"

definition starts_with :: "bytes \<Rightarrow> bytes \<Rightarrow> bool" where
  "starts_with prefix bs \<longleftrightarrow> take (length prefix) bs = prefix"

definition xor_bytes :: "bytes \<Rightarrow> bytes \<Rightarrow> bytes" where
  "xor_bytes xs ys = map2 xor xs ys"

definition keyed :: "mac \<Rightarrow> string \<Rightarrow> bytes \<Rightarrow> bytes \<Rightarrow> (ScramError, bytes) result" where
  "keyed mac what key msg = (case mac key msg of None \<Rightarrow> Err (ScramMacKey what) | Some d \<Rightarrow> Ok d)"

text \<open>\<^verbatim>\<open>copy_from_slice\<close> panics when the lengths differ.\<close>

fun salt_loop :: "mac \<Rightarrow> bytes \<Rightarrow> nat \<Rightarrow> bytes \<Rightarrow> bytes \<Rightarrow> (ScramError, bytes) result" where
  "salt_loop mac pass 0 ui hi = Ok hi"
| "salt_loop mac pass (Suc n) ui hi =
    and_then (keyed mac ''password'' pass ui) (\<lambda>d.
    if length d \<noteq> length ui then Panic else salt_loop mac pass n d (xor_bytes hi d))"

definition salt_password :: "mac \<Rightarrow> bytes \<Rightarrow> u32 \<Rightarrow> ScramClient \<Rightarrow> (ScramError, ScramClient) result" where
  "salt_password mac salt iter_count self =
    and_then (keyed mac ''salted password'' (sc_pass self) (salt @ [0, 0, 0, 1])) (\<lambda>ui.
    and_then (salt_loop mac (sc_pass self) (unat iter_count - 1) ui ui) (\<lambda>hi.
    Ok (self\<lparr>sc_salted_pass := hi\<rparr>)))"

definition server_signature :: "mac \<Rightarrow> (bytes \<Rightarrow> bytes) \<Rightarrow> ScramClient \<Rightarrow> (ScramError, bytes) result" where
  "server_signature mac b64 self =
    and_then (keyed mac ''salted password'' (sc_salted_pass self) (as_bytes ''Server Key'')) (\<lambda>server_key.
    and_then (keyed mac ''server key'' server_key (sc_auth_msg self)) (\<lambda>signature. Ok (b64 signature)))"

definition client_proof :: "mac \<Rightarrow> (bytes \<Rightarrow> bytes) \<Rightarrow> (bytes \<Rightarrow> bytes) \<Rightarrow> ScramClient \<Rightarrow> (ScramError, bytes) result" where
  "client_proof mac hash b64 self =
    and_then (keyed mac ''salted password'' (sc_salted_pass self) (as_bytes ''Client Key'')) (\<lambda>client_key.
    and_then (keyed mac ''stored key'' (hash client_key) (sc_auth_msg self)) (\<lambda>signature.
    Ok (b64 (xor_bytes client_key signature))))"

definition read_server_first ::
  "(bytes \<Rightarrow> bytes option) \<Rightarrow> bytes \<Rightarrow> ScramClient \<Rightarrow> (ScramError, bytes \<times> u32) result \<times> ScramClient" where
  "read_server_first b64_decode input self =
    (let fields = split_byte comma input in
     if length fields \<noteq> 3 then (Err (ScramFieldCount (length fields)), self)
     else if \<not> starts_with (as_bytes ''r='') (fields ! 0) then (Err (ScramInvalidNonce (fields ! 0)), self)
     else if \<not> starts_with (as_bytes ''s='') (fields ! 1) then (Err (ScramInvalidSalt (fields ! 1)), self)
     else if \<not> starts_with (as_bytes ''i='') (fields ! 2) then (Err (ScramInvalidIterations (fields ! 2)), self)
     else
       let self = self\<lparr>sc_server_nonce := drop 2 (fields ! 0)\<rparr> in
       if \<not> starts_with (sc_client_nonce self) (sc_server_nonce self) then (Err ScramNonceMismatch, self)
       else
         (case b64_decode (drop 2 (fields ! 1)) of
            None \<Rightarrow> (Err ScramSaltEncoding, self)
          | Some salt \<Rightarrow>
              let count = drop 2 (fields ! 2) in
              if \<not> utf8_valid count then (Err (ScramIterationCount ''Utf8Error''), self)
              else (and_then (map_err ScramIterationCount (parse_u32 (from_utf8 count))) (\<lambda>n. Ok (salt, n)), self)))"

definition step2 ::
  "mac \<Rightarrow> (bytes \<Rightarrow> bytes) \<Rightarrow> (bytes \<Rightarrow> bytes) \<Rightarrow> (bytes \<Rightarrow> bytes option) \<Rightarrow> bytes \<Rightarrow> ScramClient
    \<Rightarrow> (ScramError, bytes) result \<times> ScramClient" where
  "step2 mac hash b64 b64_decode input self =
    (case read_server_first b64_decode input (self\<lparr>sc_auth_msg := sc_auth_msg self @ [comma] @ input\<rparr>) of
       (Panic, self) \<Rightarrow> (Panic, self)
     | (Err e, self) \<Rightarrow> (Err e, self)
     | (Ok (salt, iter_count), self) \<Rightarrow>
         (case salt_password mac salt iter_count self of
            Panic \<Rightarrow> (Panic, self)
          | Err e \<Rightarrow> (Err e, self)
          | Ok self \<Rightarrow>
              let self = self\<lparr>sc_auth_msg := sc_auth_msg self @ as_bytes '',c=biws,r='' @ sc_server_nonce self\<rparr> in
              (and_then (client_proof mac hash b64 self) (\<lambda>proof.
                 Ok (as_bytes ''c=biws,r='' @ sc_server_nonce self @ as_bytes '',p='' @ proof)), self)))"

definition step3 :: "mac \<Rightarrow> (bytes \<Rightarrow> bytes) \<Rightarrow> bytes \<Rightarrow> ScramClient \<Rightarrow> (ScramError, unit) result" where
  "step3 mac b64 input self =
    (let fields = split_byte comma input;
         isv = length fields = 1 \<and> starts_with (as_bytes ''v='') (fields ! 0);
         ise = length fields = 1 \<and> starts_with (as_bytes ''e='') (fields ! 0) in
     if ise then (if utf8_valid (drop 2 (fields ! 0)) then Err (ScramServerError (from_utf8 (drop 2 (fields ! 0)))) else Panic)
     else if \<not> isv then Err (ScramUnsupportedFinal input)
     else
       and_then (server_signature mac b64 self) (\<lambda>signature.
       if signature \<noteq> drop 2 (fields ! 0) then Err (ScramBadSignature (drop 2 (fields ! 0))) else Ok ()))"

section \<open>The server side of RFC 5802\<close>

fun rfc_u :: "(bytes \<Rightarrow> bytes \<Rightarrow> bytes) \<Rightarrow> bytes \<Rightarrow> bytes \<Rightarrow> nat \<Rightarrow> bytes" where
  "rfc_u h pass salt 0 = h pass (salt @ [0, 0, 0, 1])"
| "rfc_u h pass salt (Suc n) = h pass (rfc_u h pass salt n)"

fun rfc_hi :: "(bytes \<Rightarrow> bytes \<Rightarrow> bytes) \<Rightarrow> bytes \<Rightarrow> bytes \<Rightarrow> nat \<Rightarrow> bytes" where
  "rfc_hi h pass salt 0 = rfc_u h pass salt 0"
| "rfc_hi h pass salt (Suc n) = xor_bytes (rfc_hi h pass salt n) (rfc_u h pass salt (Suc n))"

record ScramCredentials =
  cr_salt :: bytes
  cr_iterations :: nat
  cr_stored_key :: bytes
  cr_server_key :: bytes

definition rfc_credentials :: "(bytes \<Rightarrow> bytes \<Rightarrow> bytes) \<Rightarrow> (bytes \<Rightarrow> bytes) \<Rightarrow> bytes \<Rightarrow> bytes \<Rightarrow> nat \<Rightarrow> ScramCredentials" where
  "rfc_credentials h hash pass salt i =
    (let salted = rfc_hi h pass salt (i - 1) in
     \<lparr>cr_salt = salt, cr_iterations = i, cr_stored_key = hash (h salted (as_bytes ''Client Key'')),
      cr_server_key = h salted (as_bytes ''Server Key'')\<rparr>)"

definition rfc_server_first :: "(bytes \<Rightarrow> bytes) \<Rightarrow> ScramCredentials \<Rightarrow> bytes \<Rightarrow> bytes" where
  "rfc_server_first b64 cr nonce =
    as_bytes ''r='' @ nonce @ as_bytes '',s='' @ b64 (cr_salt cr) @ as_bytes '',i='' @ as_bytes (show_nat (cr_iterations cr))"

text \<open>The server recovers the client key from the proof, compares it with the stored key and signs the exchange.\<close>

definition rfc_server_final ::
  "(bytes \<Rightarrow> bytes \<Rightarrow> bytes) \<Rightarrow> (bytes \<Rightarrow> bytes) \<Rightarrow> (bytes \<Rightarrow> bytes) \<Rightarrow> (bytes \<Rightarrow> bytes option) \<Rightarrow> ScramCredentials
    \<Rightarrow> bytes \<Rightarrow> bytes \<Rightarrow> bytes \<Rightarrow> bytes option" where
  "rfc_server_final h hash b64 b64_decode cr nonce client_first client_final =
    (case split_byte comma client_final of
       [c, r, p] \<Rightarrow>
         if c = as_bytes ''c=biws'' \<and> r = as_bytes ''r='' @ nonce \<and> starts_with (as_bytes ''p='') p \<and> starts_with (as_bytes ''n,,'') client_first then
           (case b64_decode (drop 2 p) of
              None \<Rightarrow> None
            | Some proof \<Rightarrow>
                let auth = drop 3 client_first @ [comma] @ rfc_server_first b64 cr nonce @ [comma] @ c @ [comma] @ r in
                if hash (xor_bytes proof (h (cr_stored_key cr) auth)) = cr_stored_key cr
                then Some (as_bytes ''v='' @ b64 (h (cr_server_key cr) auth)) else None)
         else None
     | _ \<Rightarrow> None)"

section \<open>The exchange\<close>

definition hmac_like :: "mac \<Rightarrow> (bytes \<Rightarrow> bytes \<Rightarrow> bytes) \<Rightarrow> bool" where
  "hmac_like mac h \<longleftrightarrow> (\<forall>k m. mac k m = Some (h k m)) \<and> (\<exists>size. \<forall>k m. length (h k m) = size)"

definition base64_like :: "(bytes \<Rightarrow> bytes) \<Rightarrow> (bytes \<Rightarrow> bytes option) \<Rightarrow> bool" where
  "base64_like b64 b64_decode \<longleftrightarrow> (\<forall>x. b64_decode (b64 x) = Some x \<and> comma \<notin> set (b64 x))"

lemma split_byte_none: "sep \<notin> set p \<Longrightarrow> split_byte sep p = [p]"
  by (induction p) auto

lemma split_byte_prefix: "sep \<notin> set p \<Longrightarrow> split_byte sep (p @ sep # s) = p # split_byte sep s"
  by (induction p) auto

lemma split_byte_not_Nil [simp]: "split_byte sep s \<noteq> []"
  by (induction s) (auto split: list.splits)

lemma split_byte_single: "split_byte sep s = [p] \<Longrightarrow> p = s"
  by (induction s arbitrary: p) (auto split: if_splits list.splits)

lemma split_byte_singletons: "length (split_byte sep s) = 1 \<longleftrightarrow> split_byte sep s = [s]"
  using split_byte_single [of sep s] by (auto simp: length_Suc_conv)

lemma starts_with_append [simp]: "starts_with p (p @ s)"
  by (simp add: starts_with_def)

lemma xor_bytes_length [simp]: "length (xor_bytes a b) = min (length a) (length b)"
  by (simp add: xor_bytes_def)

lemma xor_bytes_cancel: "length a = length b \<Longrightarrow> xor_bytes (xor_bytes a b) b = a"
  by (rule nth_equalityI) (simp_all add: xor_bytes_def xor.assoc)

lemma as_bytes_append: "as_bytes (a @ b) = as_bytes a @ as_bytes b"
  by (simp add: as_bytes_def)

lemma digits_no_comma: "comma \<notin> set (as_bytes (show_nat n))"
proof -
  have "(word_of_nat (of_char c) :: u8) \<noteq> comma" if "is_digit c" for c
    using that by (auto simp: is_digit_def)
  then show ?thesis using show_nat_digits [of n] by (auto simp: as_bytes_def list_all_iff)
qed

lemma digits_utf8: "utf8_valid (as_bytes (show_nat n))"
proof (rule utf8_valid_ascii)
  have "(word_of_nat (of_char c) :: u8) \<le> 0x7F" if "is_digit c" for c
    using that by (auto simp: is_digit_def)
  then show "list_all (\<lambda>b. b \<le> 0x7F) (as_bytes (show_nat n))" using show_nat_digits [of n] by (auto simp: as_bytes_def list_all_iff)
qed

lemma salt_loop_hi:
  assumes "hmac_like mac h"
  shows "salt_loop mac pass n (rfc_u h pass salt k) (rfc_hi h pass salt k) = Ok (rfc_hi h pass salt (k + n))"
proof (induction n arbitrary: k)
  case (Suc n)
  obtain size where h: "mac a b = Some (h a b)" "length (h a b) = size" for a b using assms by (auto simp: hmac_like_def)
  have u: "length (rfc_u h pass salt k) = size" for k by (cases k) (simp_all add: h)
  show ?case using Suc.IH [of "Suc k"] by (simp add: keyed_def h u)
qed simp

lemma salt_password_hi:
  assumes "hmac_like mac h"
  shows "salt_password mac salt i c = Ok (c\<lparr>sc_salted_pass := rfc_hi h (sc_pass c) salt (unat i - 1)\<rparr>)"
  using salt_loop_hi [OF assms, of "sc_pass c" "unat i - 1" salt 0] assms
  by (simp add: salt_password_def keyed_def hmac_like_def)

lemma server_first_read:
  assumes "base64_like b64 b64_decode" and "comma \<notin> set nonce" and "starts_with (sc_client_nonce c) nonce" and "i < 2 ^ 32"
  shows "read_server_first b64_decode (rfc_server_first b64 \<lparr>cr_salt = salt, cr_iterations = i, cr_stored_key = k, cr_server_key = k'\<rparr> nonce) c
    = (Ok (salt, word_of_nat i), c\<lparr>sc_server_nonce := nonce\<rparr>)"
proof -
  have b: "b64_decode (b64 salt) = Some salt" "comma \<notin> set (b64 salt)" using assms(1) by (simp_all add: base64_like_def)
  have i: "as_bytes (show_nat i) = as_bytes (show_nat (unat (word_of_nat i :: u32)))" using assms(4) by (simp add: unat_of_nat)
  let ?n = "as_bytes (show_nat i)"
  have "split_byte comma (rfc_server_first b64 \<lparr>cr_salt = salt, cr_iterations = i, cr_stored_key = k, cr_server_key = k'\<rparr> nonce)
      = [as_bytes ''r='' @ nonce, as_bytes ''s='' @ b64 salt, as_bytes ''i='' @ ?n]"
    using split_byte_prefix [of comma "as_bytes ''r='' @ nonce" "as_bytes ''s='' @ b64 salt @ comma # as_bytes ''i='' @ ?n"]
      split_byte_prefix [of comma "as_bytes ''s='' @ b64 salt" "as_bytes ''i='' @ ?n"] split_byte_none [of comma "as_bytes ''i='' @ ?n"]
      assms(2) b(2) digits_no_comma [of i]
    by (simp add: rfc_server_first_def as_bytes_def)
  moreover have "parse_u32 (from_utf8 ?n) = Ok (word_of_nat i)" unfolding i by (simp add: parse_u32_show)
  ultimately show ?thesis
    using assms(3) b(1) digits_utf8 [of i] starts_with_append [of "as_bytes ''r=''"] starts_with_append [of "as_bytes ''s=''"]
      starts_with_append [of "as_bytes ''i=''"]
    by (simp add: read_server_first_def Let_def as_bytes_def eval_nat_numeral)
qed

text \<open>The third step accepts exactly one text.\<close>

lemma step3_accepts:
  assumes "server_signature mac b64 c = Ok sig" and "comma \<notin> set sig"
  shows "step3 mac b64 input c = Ok () \<longleftrightarrow> input = as_bytes ''v='' @ sig"
proof
  assume ok: "step3 mac b64 input c = Ok ()"
  then have "length (split_byte comma input) = 1" by (auto simp: step3_def Let_def split: if_splits)
  then have s: "split_byte comma input = [input]" by (simp only: split_byte_singletons)
  then have "starts_with (as_bytes ''v='') input" and "drop 2 input = sig"
    using ok assms(1) by (auto simp: step3_def Let_def split: if_splits)
  then show "input = as_bytes ''v='' @ sig"
    using append_take_drop_id [of 2 input] by (simp add: starts_with_def as_bytes_def numeral_2_eq_2)
next
  assume input: "input = as_bytes ''v='' @ sig"
  then have "split_byte comma input = [input]" using split_byte_none [of comma input] assms(2) by (simp add: as_bytes_def)
  then show "step3 mac b64 input c = Ok ()"
    using assms(1) input by (simp add: step3_def Let_def starts_with_def as_bytes_def)
qed

lemma rfc_server_final_accepts:
  assumes "split_byte comma client_final = [as_bytes ''c=biws'', as_bytes ''r='' @ nonce, as_bytes ''p='' @ enc]"
    and "b64_decode enc = Some pf"
    and "auth = drop 3 client_first @ [comma] @ rfc_server_first b64 cr nonce @ [comma] @ as_bytes ''c=biws'' @ [comma] @ as_bytes ''r='' @ nonce"
    and "starts_with (as_bytes ''n,,'') client_first" and "hash (xor_bytes pf (h (cr_stored_key cr) auth)) = cr_stored_key cr"
  shows "rfc_server_final h hash b64 b64_decode cr nonce client_first client_final = Some (as_bytes ''v='' @ b64 (h (cr_server_key cr) auth))"
proof -
  have "drop 2 (as_bytes ''p='' @ enc) = enc" by (simp add: as_bytes_def)
  then show ?thesis using assms by (simp add: rfc_server_final_def Let_def)
qed

lemma scram_exchange:
  assumes "hmac_like mac h" and "base64_like b64 b64_decode" and "i < 2 ^ 32"
    and "cr = rfc_credentials h hash pass salt i"
    and "step1 fresh (scram_client_new user pass client_nonce) = (Ok client_first, c1)"
    and "nonce = sc_client_nonce c1 @ server_part" and "comma \<notin> set nonce"
    and "step2 mac hash b64 b64_decode (rfc_server_first b64 cr nonce) c1 = (r, c2)"
  shows "\<exists>client_final server_final. r = Ok client_final
    \<and> rfc_server_final h hash b64 b64_decode cr nonce client_first client_final = Some server_final
    \<and> (\<forall>input. step3 mac b64 input c2 = Ok () \<longleftrightarrow> input = server_final)"
proof -
  let ?bare = "as_bytes ''n='' @ user @ as_bytes '',r='' @ sc_client_nonce c1"
  have pass: "sc_pass c1 = pass" and msg: "sc_auth_msg c1 = ?bare" and first: "client_first = as_bytes ''n,,'' @ ?bare"
    using assms(5) by (cases fresh; auto simp: step1_def scram_client_new_def Let_def split: if_splits)+
  let ?salted = "rfc_hi h pass salt (i - 1)" and ?first = "rfc_server_first b64 cr nonce"
  let ?ck = "h ?salted (as_bytes ''Client Key'')" and ?sk = "h ?salted (as_bytes ''Server Key'')"
  let ?auth = "?bare @ [comma] @ ?first @ as_bytes '',c=biws,r='' @ nonce"
  let ?proof = "xor_bytes ?ck (h (hash ?ck) ?auth)"
  let ?final = "as_bytes ''c=biws,r='' @ nonce @ as_bytes '',p='' @ b64 ?proof"
  let ?v = "as_bytes ''v='' @ b64 (h ?sk ?auth)"
  have cr: "cr = \<lparr>cr_salt = salt, cr_iterations = i, cr_stored_key = hash ?ck, cr_server_key = ?sk\<rparr>"
    using assms(4) by (simp add: rfc_credentials_def Let_def)
  have mac: "keyed mac what k m = Ok (h k m)" for what k m using assms(1) by (simp add: hmac_like_def keyed_def)
  have b64: "b64_decode (b64 x) = Some x" "comma \<notin> set (b64 x)" for x using assms(2) by (simp_all add: base64_like_def)
  have i: "unat (word_of_nat i :: u32) = i" using assms(3) by (simp add: unat_of_nat)
  have nonce: "starts_with (sc_client_nonce c1) nonce" "comma \<notin> set nonce" using assms(6,7) by simp_all
  have read: "read_server_first b64_decode ?first (c1\<lparr>sc_auth_msg := ?bare @ [comma] @ ?first\<rparr>)
      = (Ok (salt, word_of_nat i), c1\<lparr>sc_auth_msg := ?bare @ [comma] @ ?first, sc_server_nonce := nonce\<rparr>)"
    unfolding cr by (rule server_first_read [OF assms(2) nonce(2) _ assms(3), THEN trans]) (simp_all add: nonce)
  define c where "c = c1\<lparr>sc_auth_msg := ?auth, sc_server_nonce := nonce, sc_salted_pass := ?salted\<rparr>"
  have c2: "r = Ok ?final" "c2 = c"
    using assms(8) read by (auto simp: step2_def msg pass c_def salt_password_hi [OF assms(1)] i client_proof_def mac Let_def)
  have "length ?ck = length (h (hash ?ck) ?auth)" using assms(1) by (auto simp: hmac_like_def)
  then have accepted: "rfc_server_final h hash b64 b64_decode cr nonce client_first ?final = Some ?v"
  proof -
    have split: "split_byte comma ?final = [as_bytes ''c=biws'', as_bytes ''r='' @ nonce, as_bytes ''p='' @ b64 ?proof]"
      using split_byte_prefix [of comma "as_bytes ''c=biws''" "as_bytes ''r='' @ nonce @ comma # as_bytes ''p='' @ b64 ?proof"]
        split_byte_prefix [of comma "as_bytes ''r='' @ nonce" "as_bytes ''p='' @ b64 ?proof"]
        split_byte_none [of comma "as_bytes ''p='' @ b64 ?proof"] nonce(2) b64(2) [of ?proof]
      by (simp add: as_bytes_def)
    have auth: "drop 3 client_first @ [comma] @ ?first @ [comma] @ as_bytes ''c=biws'' @ [comma] @ as_bytes ''r='' @ nonce = ?auth"
      by (simp add: first as_bytes_def)
    show ?thesis
      using rfc_server_final_accepts [where b64_decode = b64_decode and pf = ?proof and h = h and hash = hash and cr = cr, OF split _ auth [symmetric]] b64(1)
        xor_bytes_cancel [OF \<open>length ?ck = length (h (hash ?ck) ?auth)\<close>]
      by (simp add: first cr)
  qed
  have sig: "server_signature mac b64 c = Ok (b64 (h ?sk ?auth))" by (simp add: server_signature_def c_def mac)
  have "step3 mac b64 input c = Ok () \<longleftrightarrow> input = ?v" for input
    using step3_accepts [OF sig b64(2)] .
  then show ?thesis using c2 accepted by blast
qed

text \<open>C24. Against a server that follows RFC 5802 the client authenticates itself and recognises the server: from the first message on, the
  second message carries a proof that a server with the credentials of the same password accepts, and the third step
  accepts the final message of that server and no other text.\<close>

theorem scram_authenticates:
  assumes "hmac_like mac h" and "base64_like b64 b64_decode" and "i < 2 ^ 32"
    and "cr = rfc_credentials h hash pass salt i"
    and "step1 fresh (scram_client_new user pass client_nonce) = (Ok client_first, c1)"
    and "nonce = sc_client_nonce c1 @ server_part" and "comma \<notin> set nonce"
    and "step2 mac hash b64 b64_decode (rfc_server_first b64 cr nonce) c1 = (r, c2)"
  shows "\<exists>client_final server_final. r = Ok client_final
    \<and> rfc_server_final h hash b64 b64_decode cr nonce client_first client_final = Some server_final
    \<and> (\<forall>input. step3 mac b64 input c2 = Ok () \<longleftrightarrow> input = server_final)"
  by (rule scram_exchange [OF assms])

text \<open>A keyed hash of one byte and an encoding without commas, for concrete inputs.\<close>

definition sum_hash :: "bytes \<Rightarrow> bytes \<Rightarrow> bytes" where
  "sum_hash k m = [sum_list k + 3 * sum_list m]"

fun escaped :: "bytes \<Rightarrow> bytes" where
  "escaped [] = []"
| "escaped (b # r) = (if b = comma then [0, 0] else if b = 0 then [0, 1] else [b]) @ escaped r"

fun unescaped :: "bytes \<Rightarrow> bytes option" where
  "unescaped [] = Some []"
| "unescaped [b] = (if b = 0 then None else Some [b])"
| "unescaped (b # c # r) =
    (if b = 0 then map_option (Cons (if c = 0 then comma else 0)) (unescaped r) else map_option (Cons b) (unescaped (c # r)))"

lemma unescaped_plain: "b \<noteq> 0 \<Longrightarrow> unescaped (b # r) = map_option (Cons b) (unescaped r)"
  by (cases r) simp_all

lemma escaped_base64_like: "base64_like escaped unescaped"
proof -
  have "unescaped (escaped x) = Some x \<and> comma \<notin> set (escaped x)" for x
    by (induction x) (auto simp: unescaped_plain)
  then show ?thesis by (simp add: base64_like_def)
qed

lemma sum_hash_hmac_like: "hmac_like (\<lambda>k m. Some (sum_hash k m)) sum_hash"
  by (auto simp: hmac_like_def sum_hash_def)

abbreviation sample_scram :: ScramClient where
  "sample_scram \<equiv> scram_client_new (as_bytes ''u'') (as_bytes ''pw'') (Some (as_bytes ''ab''))"

abbreviation sample_step2 :: "(ScramError, bytes) result \<times> ScramClient" where
  "sample_step2 \<equiv> step2 (\<lambda>k m. Some (sum_hash k m)) (\<lambda>x. x) escaped unescaped
    (rfc_server_first escaped (rfc_credentials sum_hash (\<lambda>x. x) (as_bytes ''pw'') [7] 3) (as_bytes ''abcd''))
    (sample_scram\<lparr>sc_auth_msg := as_bytes ''n=u,r=ab''\<rparr>)"

theorem scram_authenticates_witness:
  "\<exists>client_final server_final. fst sample_step2 = Ok client_final
    \<and> rfc_server_final sum_hash (\<lambda>x. x) escaped unescaped (rfc_credentials sum_hash (\<lambda>x. x) (as_bytes ''pw'') [7] 3) (as_bytes ''abcd'')
        (as_bytes ''n,,n=u,r=ab'') client_final = Some server_final
    \<and> (\<forall>input. step3 (\<lambda>k m. Some (sum_hash k m)) escaped input (snd sample_step2) = Ok () \<longleftrightarrow> input = server_final)"
proof (rule scram_authenticates [OF sum_hash_hmac_like escaped_base64_like])
  show "(3 :: nat) < 2 ^ 32" by simp
  show "step1 (Err ScramNonceGeneration) sample_scram = (Ok (as_bytes ''n,,n=u,r=ab''), sample_scram\<lparr>sc_auth_msg := as_bytes ''n=u,r=ab''\<rparr>)"
    by (simp add: step1_def scram_client_new_def Let_def as_bytes_def)
  show "as_bytes ''abcd'' = sc_client_nonce (sample_scram\<lparr>sc_auth_msg := as_bytes ''n=u,r=ab''\<rparr>) @ as_bytes ''cd''"
    by (simp add: scram_client_new_def as_bytes_def)
  show "comma \<notin> set (as_bytes ''abcd'')" by (simp add: as_bytes_def)
qed (rule refl, simp)

end
