(* ===== verification/Memdx_Sasl.thy ===== *)
theory Memdx_Sasl
  imports Scram
begin

text \<open>
  Authentication and bootstrap of a connection (\<^verbatim>\<open>memdx/op_auth_sasl*.rs\<close>, \<^verbatim>\<open>memdx/op_bootstrap.rs\<close>). The server
  is an argument: given the requests so far, the newest last, it says what running that request gives (its response, or the
  error of dispatching it or of waiting for it until the deadline). A function of the code becomes a function of the requests sent so far that
  returns its result and the requests sent then. The hash functions of the three SCRAM mechanisms, the base64 engine and the nonce are
  the fields of a record.
\<close>

section \<open>Conversations\<close>

type_synonym server = "dispatch_call list \<Rightarrow> (Error, ClientResponse) result"
type_synonym 'a talk = "dispatch_call list \<Rightarrow> (Error, 'a) result \<times> dispatch_call list"

definition run_op :: "server \<Rightarrow> dispatch_call \<Rightarrow> (ClientResponse \<Rightarrow> (Error, 'a) result) \<Rightarrow> 'a talk" where
  "run_op server call try_from sent = (and_then (server (sent @ [call])) try_from, sent @ [call])"

definition andThen :: "'a talk \<Rightarrow> ('a \<Rightarrow> 'b talk) \<Rightarrow> 'b talk" where
  "andThen m f sent = (case m sent of (Ok a, sent) \<Rightarrow> f a sent | (Err e, sent) \<Rightarrow> (Err e, sent) | (Panic, sent) \<Rightarrow> (Panic, sent))"

definition orElse :: "'a talk \<Rightarrow> (Error \<Rightarrow> 'a talk) \<Rightarrow> 'a talk" where
  "orElse m f sent = (case m sent of (Err e, sent) \<Rightarrow> f e sent | (Ok a, sent) \<Rightarrow> (Ok a, sent) | (Panic, sent) \<Rightarrow> (Panic, sent))"

definition finish :: "(Error, 'a) result \<Rightarrow> 'a talk" where
  "finish r sent = (r, sent)"

record SaslEnv =
  sx_mac :: "AuthMechanism \<Rightarrow> mac"
  sx_hash :: "AuthMechanism \<Rightarrow> bytes \<Rightarrow> bytes"
  sx_b64 :: "bytes \<Rightarrow> bytes"
  sx_b64_decode :: "bytes \<Rightarrow> bytes option"
  sx_nonce :: "(ScramError, bytes) result"

section \<open>Mechanisms\<close>

datatype Credentials = UserPass string string | JwtToken string

definition user_pass :: "Credentials \<Rightarrow> (Error, string \<times> string) result" where
  "user_pass self = (case self of UserPass username password \<Rightarrow> Ok (username, password)
    | _ \<Rightarrow> Err (new_invalid_argument_error ''credentials do not contain username/password'' None))"

definition jwt :: "Credentials \<Rightarrow> (Error, string) result" where
  "jwt self = (case self of JwtToken token \<Rightarrow> Ok token
    | _ \<Rightarrow> Err (new_invalid_argument_error ''credentials do not contain jwt'' None))"

definition not_accepted :: Error where
  "not_accepted = new_protocol_error ''server did not accept auth when the client expected''"

definition sasl_auth_plain :: "server \<Rightarrow> string \<Rightarrow> string \<Rightarrow> unit talk" where
  "sasl_auth_plain server username password =
    andThen (run_op server (sasl_auth AuthMechanism.Plain ([0] @ as_bytes username @ [0] @ as_bytes password)) sasl_auth_response) (\<lambda>resp.
    finish (if sar_needs_more_steps resp then Err not_accepted else Ok ()))"

definition sasl_auth_oauth_bearer :: "server \<Rightarrow> string \<Rightarrow> unit talk" where
  "sasl_auth_oauth_bearer server token =
    andThen (run_op server
        (sasl_auth AuthMechanism.OAuthBearer (as_bytes ''n,,'' @ [1] @ as_bytes ''auth=Bearer '' @ as_bytes token @ [1, 1]))
        sasl_auth_response) (\<lambda>resp.
    finish (if sar_needs_more_steps resp then Err not_accepted else Ok ()))"

definition scram_failure :: "string \<Rightarrow> ScramError \<Rightarrow> Error" where
  "scram_failure msg e = with_source (SrcLib ''ScramError'') (new_protocol_error msg)"

text \<open>\<open>mech\<close> selects the hash functions of the client; the mechanism named in the requests is fixed.\<close>

definition sasl_auth_scram :: "SaslEnv \<Rightarrow> server \<Rightarrow> AuthMechanism \<Rightarrow> ScramClient \<Rightarrow> unit talk" where
  "sasl_auth_scram env server mech client =
    (let (payload, client) = step1 (sx_nonce env) client in
     andThen (finish (map_err (scram_failure ''failed to perform initial sasl step'') payload)) (\<lambda>payload.
     andThen (run_op server (sasl_auth AuthMechanism.ScramSha512 payload) sasl_auth_response) (\<lambda>resp.
     if \<not> sar_needs_more_steps resp then finish (Ok ())
     else
       andThen (finish (map_err (scram_failure ''failed to perform second sasl step'')
          (fst (step2 (sx_mac env mech) (sx_hash env mech) (sx_b64 env) (sx_b64_decode env) (sar_payload resp) client)))) (\<lambda>payload.
       andThen (run_op server (sasl_step AuthMechanism.ScramSha512 payload) sasl_step_response) (\<lambda>resp.
       finish (if sar_needs_more_steps resp then Err not_accepted else Ok ()))))))"

definition sasl_auth_by_name :: "SaslEnv \<Rightarrow> server \<Rightarrow> Credentials \<Rightarrow> AuthMechanism \<Rightarrow> unit talk" where
  "sasl_auth_by_name env server credentials auth_mechanism =
    (let scram = andThen (finish (user_pass credentials)) (\<lambda>(username, password).
           sasl_auth_scram env server auth_mechanism (scram_client_new (as_bytes username) (as_bytes password) None)) in
     case auth_mechanism of
       AuthMechanism.Plain \<Rightarrow> andThen (finish (user_pass credentials)) (\<lambda>(username, password). sasl_auth_plain server username password)
     | AuthMechanism.ScramSha1 \<Rightarrow> scram
     | AuthMechanism.ScramSha256 \<Rightarrow> scram
     | AuthMechanism.ScramSha512 \<Rightarrow> scram
     | AuthMechanism.OAuthBearer \<Rightarrow> andThen (finish (jwt credentials)) (\<lambda>token. sasl_auth_oauth_bearer server token))"

record SASLAuthAutoOptions =
  sa_credentials :: Credentials
  sa_enabled_mechs :: "AuthMechanism list"

definition sasl_auth_auto :: "SaslEnv \<Rightarrow> server \<Rightarrow> SASLAuthAutoOptions \<Rightarrow> unit talk" where
  "sasl_auth_auto env server opts =
    (case sa_enabled_mechs opts of
       [] \<Rightarrow> finish (Err (new_invalid_argument_error ''no enabled mechanisms'' (Some ''enabled_mechanisms'')))
     | default_mech # _ \<Rightarrow>
         andThen (run_op server sasl_list_mechs sasl_list_mechs_response) (\<lambda>server_mechs.
         orElse (sasl_auth_by_name env server (sa_credentials opts) default_mech) (\<lambda>e.
         if is_cancellation_error e then finish (Err e)
         else if default_mech \<in> set server_mechs then finish (Err e)
         else
           (case find (\<lambda>item. item \<in> set server_mechs) (sa_enabled_mechs opts) of
              None \<Rightarrow> finish (Err (new_message_error ''no supported mechanisms found''))
            | Some mech \<Rightarrow> sasl_auth_by_name env server (sa_credentials opts) mech))))"

section \<open>Bootstrap\<close>

record BootstrapOptions =
  bo_hello :: "HelloFeature list option"
  bo_get_error_map :: "u16 option"
  bo_auth :: "SASLAuthAutoOptions option"
  bo_select_bucket :: "string option"
  bo_get_cluster_config :: "(u64 \<times> u64) option option"

text \<open>A request that may be left out and whose failure is only logged.\<close>

definition optional_op :: "('a \<Rightarrow> 'b talk) \<Rightarrow> 'a option \<Rightarrow> 'b option talk" where
  "optional_op f req =
    (case req of
       None \<Rightarrow> finish (Ok None)
     | Some r \<Rightarrow> orElse (andThen (f r) (\<lambda>v. finish (Ok (Some v)))) (\<lambda>_. finish (Ok None)))"

text \<open>A request that may be left out and whose failure ends the bootstrap.\<close>

definition required_op :: "('a \<Rightarrow> unit talk) \<Rightarrow> 'a option \<Rightarrow> unit talk" where
  "required_op f req = (case req of None \<Rightarrow> finish (Ok ()) | Some r \<Rightarrow> f r)"

definition bootstrap :: "SaslEnv \<Rightarrow> server \<Rightarrow> BootstrapOptions \<Rightarrow> BootstrapResult talk" where
  "bootstrap env server opts =
    andThen (optional_op (\<lambda>req. run_op server (hello req) hello_response) (bo_hello opts)) (\<lambda>hello_result.
    andThen (optional_op (\<lambda>req. run_op server (get_error_map req) get_error_map_response) (bo_get_error_map opts)) (\<lambda>error_map.
    andThen (required_op (sasl_auth_auto env server) (bo_auth opts)) (\<lambda>_.
    andThen (required_op (\<lambda>req. run_op server (select_bucket req) select_bucket_response) (bo_select_bucket opts)) (\<lambda>_.
    andThen (optional_op (\<lambda>req. run_op server (get_cluster_config req) get_cluster_config_response) (bo_get_cluster_config opts)) (\<lambda>cluster_config.
    finish (Ok \<lparr>br_hello = hello_result, br_error_map = error_map, br_cluster_config = cluster_config\<rparr>))))))"

section \<open>What is sent\<close>

definition only_sends :: "(dispatch_call \<Rightarrow> bool) \<Rightarrow> 'a talk \<Rightarrow> bool" where
  "only_sends P m \<longleftrightarrow> (\<forall>sent. \<exists>new. snd (m sent) = sent @ new \<and> list_all P new)"

named_theorems sends

lemma only_sends_finish [sends]: "only_sends P (finish r)"
  by (simp add: only_sends_def finish_def)

lemma only_sends_run_op [sends]: "P call \<Longrightarrow> only_sends P (run_op server call try_from)"
  by (simp add: only_sends_def run_op_def)

lemma only_sends_andThen [sends]:
  assumes "only_sends P m" and "\<And>a. only_sends P (f a)"
  shows "only_sends P (andThen m f)"
  unfolding only_sends_def
proof
  fix sent
  obtain r s where m: "m sent = (r, s)" by (cases "m sent") auto
  obtain new where new: "s = sent @ new" "list_all P new" using assms(1) m unfolding only_sends_def by (metis snd_conv)
  show "\<exists>new. snd (andThen m f sent) = sent @ new \<and> list_all P new"
  proof (cases r)
    case (Ok a)
    obtain rest where "snd (f a s) = s @ rest" "list_all P rest" using assms(2) unfolding only_sends_def by metis
    then show ?thesis using m new Ok by (auto simp: andThen_def)
  qed (use m new in \<open>auto simp: andThen_def\<close>)
qed

lemma only_sends_orElse [sends]:
  assumes "only_sends P m" and "\<And>e. only_sends P (f e)"
  shows "only_sends P (orElse m f)"
  unfolding only_sends_def
proof
  fix sent
  obtain r s where m: "m sent = (r, s)" by (cases "m sent") auto
  obtain new where new: "s = sent @ new" "list_all P new" using assms(1) m unfolding only_sends_def by (metis snd_conv)
  show "\<exists>new. snd (orElse m f sent) = sent @ new \<and> list_all P new"
  proof (cases r)
    case (Err e)
    obtain rest where "snd (f e s) = s @ rest" "list_all P rest" using assms(2) unfolding only_sends_def by metis
    then show ?thesis using m new Err by (auto simp: orElse_def)
  qed (use m new in \<open>auto simp: orElse_def\<close>)
qed

lemma only_sends_optional [sends]: "(\<And>r. req = Some r \<Longrightarrow> only_sends P (f r)) \<Longrightarrow> only_sends P (optional_op f req)"
  by (cases req) (auto simp: optional_op_def intro!: sends)

lemma only_sends_required [sends]: "(\<And>r. req = Some r \<Longrightarrow> only_sends P (f r)) \<Longrightarrow> only_sends P (required_op f req)"
  by (cases req) (auto simp: required_op_def intro!: sends)

lemma only_sends_mono: "only_sends P m \<Longrightarrow> (\<And>c. P c \<Longrightarrow> Q c) \<Longrightarrow> only_sends Q m"
  unfolding only_sends_def by (meson list.pred_mono_strong)

text \<open>The mechanism a request names.\<close>

definition names_mech :: "AuthMechanism \<Rightarrow> dispatch_call \<Rightarrow> bool" where
  "names_mech mech call \<longleftrightarrow> (\<exists>payload. call = sasl_auth mech payload \<or> call = sasl_step mech payload)"

text \<open>The mechanism that is sent for a chosen one.\<close>

definition sent_mech :: "AuthMechanism \<Rightarrow> AuthMechanism" where
  "sent_mech mech = (if mech \<in> {AuthMechanism.ScramSha1, AuthMechanism.ScramSha256} then AuthMechanism.ScramSha512 else mech)"

lemma sends_plain [sends]: "only_sends (names_mech AuthMechanism.Plain) (sasl_auth_plain server username password)"
  unfolding sasl_auth_plain_def by (intro sends) (auto simp: names_mech_def)

lemma sends_oauth [sends]: "only_sends (names_mech AuthMechanism.OAuthBearer) (sasl_auth_oauth_bearer server token)"
  unfolding sasl_auth_oauth_bearer_def by (intro sends) (auto simp: names_mech_def)

lemma sends_scram [sends]: "only_sends (names_mech AuthMechanism.ScramSha512) (sasl_auth_scram env server mech client)"
  unfolding sasl_auth_scram_def by (cases "step1 (sx_nonce env) client") (auto intro!: sends, auto simp: names_mech_def)

lemma sends_by_name: "only_sends (names_mech (sent_mech mech)) (sasl_auth_by_name env server credentials mech)"
  by (cases mech) (auto simp: sasl_auth_by_name_def sent_mech_def split: prod.splits intro!: sends)

definition auth_call :: "SASLAuthAutoOptions \<Rightarrow> dispatch_call \<Rightarrow> bool" where
  "auth_call opts call \<longleftrightarrow> call = sasl_list_mechs \<or> (\<exists>mech \<in> set (sa_enabled_mechs opts). names_mech (sent_mech mech) call)"

lemma sends_auto [sends]: "only_sends (auth_call opts) (sasl_auth_auto env server opts)"
proof (cases "sa_enabled_mechs opts")
  case Nil
  then show ?thesis by (auto simp: sasl_auth_auto_def intro: sends)
next
  case (Cons d ms)
  have by_name: "only_sends (auth_call opts) (sasl_auth_by_name env server (sa_credentials opts) m)" if "m \<in> set (d # ms)" for m
    using that Cons unfolding auth_call_def by (fastforce intro: only_sends_mono [OF sends_by_name])
  have list: "auth_call opts sasl_list_mechs" by (simp add: auth_call_def)
  have found: "m \<in> set (d # ms)" if "find (\<lambda>item. item \<in> set server_mechs) (d # ms) = Some m" for m server_mechs
    using that by (metis find_Some_iff nth_mem)
  show ?thesis
    by (auto simp: sasl_auth_auto_def Cons list simp del: find.simps split: option.split intro!: sends by_name dest: found)
qed

lemma names_mech_key: "names_mech mech call \<Longrightarrow> rq_key (fst call) = Some (as_bytes (auth_mechanism_name mech))"
  by (auto simp: names_mech_def sasl_auth_def sasl_step_def)

lemma names_mech_unique: "names_mech m call \<Longrightarrow> names_mech m' call \<Longrightarrow> m = m'"
  by (drule names_mech_key, drule names_mech_key, cases m; cases m') (simp_all add: as_bytes_def)

text \<open>A password or token is offered in the clear only by a request that names the mechanism.\<close>

lemma plain_not_named:
  assumes "AuthMechanism.Plain \<notin> set (sa_enabled_mechs opts)" and "auth_call opts call"
  shows "\<not> names_mech AuthMechanism.Plain call"
proof
  assume plain: "names_mech AuthMechanism.Plain call"
  then have "call \<noteq> sasl_list_mechs" using names_mech_key by (fastforce simp: sasl_list_mechs_def request_packet_new_def)
  then obtain mech where "mech \<in> set (sa_enabled_mechs opts)" "names_mech (sent_mech mech) call" using assms(2) by (auto simp: auth_call_def)
  then have "mech \<in> set (sa_enabled_mechs opts)" "sent_mech mech = AuthMechanism.Plain" using names_mech_unique [OF plain, of "sent_mech mech"] by auto
  then show False using assms(1) by (auto simp: sent_mech_def split: if_splits)
qed

section \<open>Acceptance\<close>

definition accepted :: "server \<Rightarrow> dispatch_call list \<Rightarrow> bool" where
  "accepted server sent \<longleftrightarrow> (\<exists>pre call post mech resp. sent = pre @ call # post \<and> names_mech mech call
    \<and> server (pre @ [call]) = Ok resp \<and> rp_status (cr_packet resp) = Status.Success)"

lemma accepted_append: "accepted server sent \<Longrightarrow> accepted server (sent @ rest)"
  unfolding accepted_def by (metis append.assoc append_Cons)

lemma accepted_last:
  "names_mech mech call \<Longrightarrow> server (pre @ [call]) = Ok resp \<Longrightarrow> rp_status (cr_packet resp) = Status.Success \<Longrightarrow> accepted server (pre @ [call])"
  unfolding accepted_def by (metis append.right_neutral)

lemma accepted_second:
  "names_mech mech call \<Longrightarrow> server (pre @ [c, call]) = Ok resp \<Longrightarrow> rp_status (cr_packet resp) = Status.Success \<Longrightarrow> accepted server (pre @ [c, call])"
  using accepted_last [of mech call server "pre @ [c]"] by simp

lemma andThen_Ok: "andThen m f sent = (Ok b, sent') \<longleftrightarrow> (\<exists>a s. m sent = (Ok a, s) \<and> f a s = (Ok b, sent'))"
  by (auto simp: andThen_def split: prod.splits result.splits)

lemma orElse_Ok: "orElse m f sent = (Ok b, sent') \<longleftrightarrow> m sent = (Ok b, sent') \<or> (\<exists>e s. m sent = (Err e, s) \<and> f e s = (Ok b, sent'))"
  by (auto simp: orElse_def split: prod.splits result.splits)

lemma run_op_Ok: "run_op server call try_from sent = (Ok a, sent') \<longleftrightarrow> sent' = sent @ [call] \<and> (\<exists>resp. server sent' = Ok resp \<and> try_from resp = Ok a)"
  by (cases "server (sent @ [call])") (auto simp: run_op_def)

lemma finish_Ok: "finish r sent = (Ok a, sent') \<longleftrightarrow> r = Ok a \<and> sent' = sent"
  by (auto simp: finish_def)

lemmas talk_Ok = andThen_Ok orElse_Ok run_op_Ok finish_Ok

lemma sasl_auth_done: "sasl_auth_response resp = Ok a \<Longrightarrow> \<not> sar_needs_more_steps a \<Longrightarrow> rp_status (cr_packet resp) = Status.Success"
  by (auto simp: sasl_auth_response_def Let_def split: if_splits)

lemma sasl_step_done: "sasl_step_response resp = Ok a \<Longrightarrow> rp_status (cr_packet resp) = Status.Success"
  by (auto simp: sasl_step_response_def Let_def split: if_splits)

lemma names_mech_simps [simp]: "names_mech mech (sasl_auth mech payload)" "names_mech mech (sasl_step mech payload)"
  by (auto simp: names_mech_def)

lemma by_name_accepted:
  assumes "sasl_auth_by_name env server credentials mech sent = (Ok (), sent')"
  shows "accepted server sent'"
proof -
  have scram: "accepted server sent'" if "sasl_auth_scram env server m c sent = (Ok (), sent')" for m c
    using that
    by (cases "step1 (sx_nonce env) c")
      (auto simp: sasl_auth_scram_def talk_Ok split: if_splits dest: sasl_auth_done sasl_step_done intro: accepted_last [OF names_mech_simps(1)] accepted_second [OF names_mech_simps(2)])
  show ?thesis
    using assms scram
    by (cases mech)
      (auto simp: sasl_auth_by_name_def sasl_auth_plain_def sasl_auth_oauth_bearer_def talk_Ok split: if_splits prod.splits dest: sasl_auth_done
        intro: accepted_last [OF names_mech_simps(1)])
qed

lemma auto_accepted: "sasl_auth_auto env server opts sent = (Ok (), sent') \<Longrightarrow> accepted server sent'"
  by (auto simp: sasl_auth_auto_def talk_Ok split: list.splits if_splits option.splits dest: by_name_accepted)

section \<open>Bootstrap\<close>

definition bucket_call :: "dispatch_call \<Rightarrow> bool" where
  "bucket_call call \<longleftrightarrow> rq_op_code (fst call) \<in> {OpCode.SelectBucket, OpCode.GetClusterConfig}"

lemma bucket_call_simps [simp]:
  "\<not> bucket_call (hello fs)" "\<not> bucket_call (get_error_map v)" "\<not> bucket_call sasl_list_mechs" "\<not> bucket_call (sasl_auth m p)"
  "\<not> bucket_call (sasl_step m p)" "bucket_call (select_bucket b)" "bucket_call (get_cluster_config k)"
  by (simp_all add: bucket_call_def hello_def get_error_map_def sasl_list_mechs_def sasl_auth_def sasl_step_def select_bucket_def
      get_cluster_config_def request_packet_new_def)

lemma auth_call_no_bucket: "auth_call opts call \<Longrightarrow> \<not> bucket_call call"
  by (auto simp: auth_call_def names_mech_def)

text \<open>In a conversation that starts without bucket requests, each one is preceded by an acceptance.\<close>

definition guarded :: "server \<Rightarrow> 'a talk \<Rightarrow> bool" where
  "guarded server m \<longleftrightarrow> (\<forall>sent r pre call post. list_all (\<lambda>c. \<not> bucket_call c) sent \<longrightarrow> m sent = (r, pre @ call # post)
    \<longrightarrow> bucket_call call \<longrightarrow> accepted server pre)"

lemma no_bucket_in:
  "only_sends (\<lambda>c. \<not> bucket_call c) m \<Longrightarrow> list_all (\<lambda>c. \<not> bucket_call c) sent \<Longrightarrow> m sent = (x, s) \<Longrightarrow> list_all (\<lambda>c. \<not> bucket_call c) s"
  unfolding only_sends_def by (metis list_all_append snd_conv)

lemma guarded_andThen:
  assumes "only_sends (\<lambda>c. \<not> bucket_call c) m" and "\<And>a. guarded server (f a)"
  shows "guarded server (andThen m f)"
  unfolding guarded_def
proof (intro allI impI)
  fix sent r pre call post
  assume sent: "list_all (\<lambda>c. \<not> bucket_call c) sent" and run: "andThen m f sent = (r, pre @ call # post)" and call: "bucket_call call"
  obtain x s where m: "m sent = (x, s)" by (cases "m sent") auto
  note s = no_bucket_in [OF assms(1) sent m]
  show "accepted server pre"
  proof (cases x)
    case (Ok a)
    then have "f a s = (r, pre @ call # post)" using run m by (simp add: andThen_def)
    then show ?thesis using assms(2) [of a] s call unfolding guarded_def by blast
  qed (use run m s call in \<open>auto simp: andThen_def\<close>)
qed

lemma guarded_after:
  assumes "only_sends (\<lambda>c. \<not> bucket_call c) m" and "\<And>sent a s. m sent = (Ok a, s) \<Longrightarrow> accepted server s"
    and "\<And>a. only_sends (\<lambda>_. True) (f a)"
  shows "guarded server (andThen m f)"
  unfolding guarded_def
proof (intro allI impI)
  fix sent r pre call post
  assume sent: "list_all (\<lambda>c. \<not> bucket_call c) sent" and run: "andThen m f sent = (r, pre @ call # post)" and call: "bucket_call call"
  obtain x s where m: "m sent = (x, s)" by (cases "m sent") auto
  note s = no_bucket_in [OF assms(1) sent m]
  show "accepted server pre"
  proof (cases x)
    case (Ok a)
    then have "f a s = (r, pre @ call # post)" using run m by (simp add: andThen_def)
    then obtain new where "pre @ call # post = s @ new" using assms(3) [of a] unfolding only_sends_def by (metis snd_conv)
    then obtain us where "pre = s @ us" using s call by (auto simp: append_eq_append_conv2 Cons_eq_append_conv)
    then show ?thesis using assms(2) m Ok accepted_append by blast
  qed (use run m s call in \<open>auto simp: andThen_def\<close>)
qed

lemma required_auth:
  assumes "bo_auth opts = Some auth"
  shows "only_sends (\<lambda>c. \<not> bucket_call c) (required_op (sasl_auth_auto env server) (bo_auth opts))"
    and "required_op (sasl_auth_auto env server) (bo_auth opts) sent = (Ok a, s) \<Longrightarrow> accepted server s"
  using only_sends_mono [OF sends_auto auth_call_no_bucket] assms by (auto simp: required_op_def auto_accepted)

text \<open>C25. No bucket before authentication: whatever the server answers, a bootstrap that was given credentials selects a bucket or asks
  for a configuration only after the server has answered an authentication request with success.\<close>

theorem bucket_after_auth:
  assumes "bootstrap env server opts [] = (r, pre @ call # post)" and "bo_auth opts = Some auth"
    and "rq_op_code (fst call) \<in> {OpCode.SelectBucket, OpCode.GetClusterConfig}"
  shows "accepted server pre"
proof -
  have "guarded server (bootstrap env server opts)"
    unfolding bootstrap_def
    by (intro guarded_andThen guarded_after [OF required_auth [OF assms(2)]] sends) simp_all
  then show ?thesis using assms(1,3) unfolding guarded_def bucket_call_def by (metis list.pred_inject(1))
qed

text \<open>A bootstrap fails only for the two steps that matter: a failing hello, error map or configuration request leaves its result
  empty, and an error that is returned is the error of the authentication or of the bucket selection.\<close>

theorem bootstrap_error:
  assumes "fst (bootstrap env server opts sent) = Err e"
  shows "(\<exists>auth s. bo_auth opts = Some auth \<and> fst (sasl_auth_auto env server auth s) = Err e)
    \<or> (\<exists>bucket s. bo_select_bucket opts = Some bucket \<and> fst (run_op server (select_bucket bucket) select_bucket_response s) = Err e)"
proof -
  have then_Err: "fst (andThen m f s) = Err e \<longleftrightarrow> fst (m s) = Err e \<or> (\<exists>a s'. m s = (Ok a, s') \<and> fst (f a s') = Err e)"
    for m :: "'x talk" and f :: "'x \<Rightarrow> 'y talk" and s
    by (auto simp: andThen_def split: prod.splits result.splits)
  have optional: "fst (optional_op g req s) \<noteq> Err e" for g :: "'x \<Rightarrow> 'y talk" and req s
    by (auto simp: optional_op_def finish_def orElse_def split: option.splits prod.splits result.splits)
  have required: "fst (required_op g req s) = Err e \<Longrightarrow> \<exists>r. req = Some r \<and> fst (g r s) = Err e" for g :: "'x \<Rightarrow> unit talk" and req s
    by (auto simp: required_op_def finish_def split: option.splits)
  show ?thesis
    using assms unfolding bootstrap_def
    by (fastforce simp: then_Err optional finish_def dest: required)
qed

section \<open>Logging in\<close>

definition reply :: "OpCode \<Rightarrow> Status \<Rightarrow> bytes \<Rightarrow> (Error, ClientResponse) result" where
  "reply op_code status value =
    Ok \<lparr>cr_packet = (response_packet_new Magic.Res op_code 0 status 0)\<lparr>rp_value := Some value\<rparr>, cr_response_context = None\<rparr>"

text \<open>A server with one account that follows RFC 5802: it lists its mechanisms, extends the nonce of the first message and checks the proof.\<close>

definition first_nonce :: "bytes \<Rightarrow> bytes" where
  "first_nonce client_first = drop 2 (split_byte comma client_first ! 3)"

definition rfc_server ::
  "(bytes \<Rightarrow> bytes \<Rightarrow> bytes) \<Rightarrow> (bytes \<Rightarrow> bytes) \<Rightarrow> (bytes \<Rightarrow> bytes) \<Rightarrow> (bytes \<Rightarrow> bytes option) \<Rightarrow> ScramCredentials \<Rightarrow> bytes \<Rightarrow> bytes \<Rightarrow> server" where
  "rfc_server h hash b64 b64_decode cr server_part mechs sent =
    (case map (\<lambda>call. unwrap_or [] (rq_value (fst call))) sent of
       [_] \<Rightarrow> reply OpCode.SASLListMechs Status.Success mechs
     | [_, first] \<Rightarrow> reply OpCode.SASLAuth Status.AuthContinue (rfc_server_first b64 cr (first_nonce first @ server_part))
     | [_, first, final] \<Rightarrow>
         (case rfc_server_final h hash b64 b64_decode cr (first_nonce first @ server_part) first final of
            Some v \<Rightarrow> reply OpCode.SASLStep Status.Success v
          | None \<Rightarrow> reply OpCode.SASLStep Status.AuthError [])
     | _ \<Rightarrow> reply OpCode.Noop Status.AuthError [])"

lemma first_nonce_step1:
  assumes "step1 fresh (scram_client_new user pass client_nonce) = (Ok client_first, c1)"
    and "comma \<notin> set user" and "comma \<notin> set (sc_client_nonce c1)"
  shows "first_nonce client_first = sc_client_nonce c1"
proof -
  have first: "client_first = as_bytes ''n'' @ comma # [] @ comma # (as_bytes ''n='' @ user) @ comma # as_bytes ''r='' @ sc_client_nonce c1"
    using assms(1) by (cases fresh; auto simp: step1_def scram_client_new_def Let_def as_bytes_def split: if_splits)
  have "split_byte comma client_first = [as_bytes ''n'', [], as_bytes ''n='' @ user, as_bytes ''r='' @ sc_client_nonce c1]"
    unfolding first using assms(2,3)
    by (subst split_byte_prefix, simp add: as_bytes_def)+ (simp add: as_bytes_def split_byte_none)
  then show ?thesis by (simp add: first_nonce_def as_bytes_def)
qed

lemma reply_auth [simp]:
  "and_then (reply op Status.AuthContinue v) sasl_auth_response = Ok \<lparr>sar_needs_more_steps = True, sar_payload = v\<rparr>"
  "and_then (reply op Status.Success v) sasl_step_response = Ok \<lparr>sar_needs_more_steps = False, sar_payload = v\<rparr>"
  "and_then (reply op Status.Success v) sasl_auth_response = Ok \<lparr>sar_needs_more_steps = False, sar_payload = v\<rparr>"
  by (simp_all add: reply_def sasl_auth_response_def sasl_step_response_def unwrap_or_def response_packet_new_def)


text \<open>The signature of the server is never checked: who answers the first message with success is taken for the server, with no knowledge of
  the password.\<close>

theorem impostor_accepted:
  assumes "step1 (sx_nonce env) client = (Ok client_first, c1)" and "\<And>sent. server sent = reply op Status.Success v"
  shows "fst (sasl_auth_scram env server mech client sent) = Ok ()"
  using assms by (simp add: sasl_auth_scram_def andThen_def run_op_def finish_def)

text \<open>One mechanism the client does not know in the server's list ends the login before anything is tried.\<close>

theorem unknown_mechanism_blocks_login:
  assumes "sa_enabled_mechs opts = mech # others" and "server (sent @ [sasl_list_mechs]) = Ok resp"
    and "sasl_list_mechs_response resp = Err e"
  shows "sasl_auth_auto env server opts sent = (Err e, sent @ [sasl_list_mechs])"
  using assms by (simp add: sasl_auth_auto_def andThen_def run_op_def)

section \<open>Concrete conversations\<close>

definition sasl_env :: SaslEnv where
  "sasl_env = \<lparr>sx_mac = \<lambda>_ k m. Some (sum_hash k m), sx_hash = \<lambda>_ x. x, sx_b64 = escaped, sx_b64_decode = unescaped,
    sx_nonce = Ok (as_bytes ''ab'')\<rparr>"

definition sample_auth :: "AuthMechanism \<Rightarrow> SASLAuthAutoOptions" where
  "sample_auth mech = \<lparr>sa_credentials = UserPass ''u'' ''pw'', sa_enabled_mechs = [mech]\<rparr>"

definition sample_bootstrap :: BootstrapOptions where
  "sample_bootstrap = \<lparr>bo_hello = None, bo_get_error_map = None, bo_auth = Some (sample_auth AuthMechanism.Plain), bo_select_bucket = Some ''b'',
    bo_get_cluster_config = None\<rparr>"

abbreviation sample_plain :: dispatch_call where
  "sample_plain \<equiv> sasl_auth AuthMechanism.Plain ([0] @ as_bytes ''u'' @ [0] @ as_bytes ''pw'')"

lemma sample_listing:
  "and_then (reply op Status.Success (as_bytes (auth_mechanism_name mech))) sasl_list_mechs_response = Ok [mech]"
proof -
  have "utf8_valid (as_bytes (auth_mechanism_name mech))" by (cases mech) (simp_all add: as_bytes_def)
  moreover have "split_char (CHR '' '') (auth_mechanism_name mech) = [auth_mechanism_name mech]" by (cases mech) simp_all
  ultimately show ?thesis by (simp add: reply_def sasl_list_mechs_response_def response_packet_new_def unwrap_or_def)
qed

theorem bucket_after_auth_witness:
  "accepted (\<lambda>_. reply OpCode.Noop Status.Success (as_bytes ''PLAIN'')) [sasl_list_mechs, sample_plain]"
proof (rule bucket_after_auth)
  have "and_then (reply op Status.Success v) select_bucket_response = Ok ()" for op v
    by (simp add: reply_def select_bucket_response_def response_packet_new_def)
  then show "bootstrap sasl_env (\<lambda>_. reply OpCode.Noop Status.Success (as_bytes ''PLAIN'')) sample_bootstrap []
      = (Ok \<lparr>br_hello = None, br_error_map = None, br_cluster_config = None\<rparr>, [sasl_list_mechs, sample_plain] @ select_bucket ''b'' # [])"
    using sample_listing [of OpCode.Noop AuthMechanism.Plain]
    by (simp add: bootstrap_def sample_bootstrap_def sample_auth_def optional_op_def required_op_def finish_def andThen_def orElse_def run_op_def
        sasl_auth_auto_def sasl_auth_by_name_def sasl_auth_plain_def user_pass_def)
qed (simp_all add: sample_bootstrap_def select_bucket_def request_packet_new_def)

theorem bootstrap_error_witness:
  "(\<exists>auth s. bo_auth sample_bootstrap = Some auth \<and> fst (sasl_auth_auto sasl_env (\<lambda>_. Err (new_cancelled_error CancellationErrorKind.Timeout)) auth s)
       = Err (new_cancelled_error CancellationErrorKind.Timeout))
    \<or> (\<exists>bucket s. bo_select_bucket sample_bootstrap = Some bucket
       \<and> fst (run_op (\<lambda>_. Err (new_cancelled_error CancellationErrorKind.Timeout)) (select_bucket bucket) select_bucket_response s)
         = Err (new_cancelled_error CancellationErrorKind.Timeout))"
  by (rule bootstrap_error [where sent = "[]"])
    (simp add: bootstrap_def sample_bootstrap_def sample_auth_def optional_op_def required_op_def finish_def andThen_def run_op_def sasl_auth_auto_def)


end
