(* ===== verification/Kv_Client.thy ===== *)
theory Kv_Client
  imports Crud_Component Kv_Babysitter Memdx_Sasl
begin

text \<open>
  Creating a key-value client (\<^verbatim>\<open>kvclient.rs\<close>, the bootstrap and selection parts of \<^verbatim>\<open>kvclient_ops.rs\<close>, \<^verbatim>\<open>authenticator.rs\<close>,
  \<^verbatim>\<open>util.rs\<close>): the requests of the bootstrap are derived from the options, the connection is made, and the features and the
  bucket of the client follow from what the server answers. What connecting gives (the two socket addresses) is an argument.
\<close>

section \<open>Addresses\<close>

text \<open>\<^verbatim>\<open>split_host_port\<close>; positions are those of one-byte characters.\<close>

definition rfind :: "char \<Rightarrow> string \<Rightarrow> nat option" where
  "rfind c s = (if c \<in> set s then Some (length s - 1 - length (takeWhile (\<lambda>d. d \<noteq> c) (rev s))) else None)"

definition find_char :: "char \<Rightarrow> string \<Rightarrow> nat option" where
  "find_char c s = (if c \<in> set s then Some (length (takeWhile (\<lambda>d. d \<noteq> c) s)) else None)"

definition addr_err :: "string \<Rightarrow> string \<Rightarrow> (CoreError, 'a) result" where
  "addr_err addr why = Err (core_message_error (''invalid address '' @ [CHR 0x27] @ addr @ [CHR 0x27] @ '': '' @ why))"

definition split_host_port :: "string \<Rightarrow> (CoreError, string \<times> string) result" where
  "split_host_port hostport =
    (case rfind (CHR '':'') hostport of
       None \<Rightarrow> Err (core_message_error ''missing port in address'')
     | Some i \<Rightarrow>
         (case hostport of
            CHR ''['' # stripped \<Rightarrow>
              (case find_char (CHR '']'') hostport of
                 None \<Rightarrow> Err (core_message_error (''missing '' @ [CHR 0x27] @ '']'' @ [CHR 0x27] @ '' in address''))
               | Some bracket \<Rightarrow>
                   if bracket + 1 = length hostport then addr_err hostport ''missing port in address''
                   else if bracket + 1 \<noteq> i then
                     if hostport ! (bracket + 1) = CHR '':'' then addr_err hostport ''too many colons in address''
                     else addr_err hostport ''missing port in address''
                   else if CHR ''['' \<in> set stripped \<or> CHR '']'' \<in> set (drop (bracket + 1) hostport) then
                     addr_err hostport (''unexpected '' @ [CHR 0x27] @ ''['' @ [CHR 0x27] @ '' or '' @ [CHR 0x27] @ '']'' @ [CHR 0x27] @ '' in address'')
                   else Ok (take (bracket - 1) (drop 1 hostport), drop (i + 1) hostport))
          | _ \<Rightarrow>
              if CHR '':'' \<in> set (take i hostport) then addr_err hostport ''too many colons in address''
              else Ok (take i hostport, drop (i + 1) hostport)))"

definition hostname_from_addr_str :: "string \<Rightarrow> string" where
  "hostname_from_addr_str addr = (case split_host_port addr of Ok (h, _) \<Rightarrow> h | _ \<Rightarrow> addr)"

definition get_hostname_from_host_port :: "string \<Rightarrow> (CoreError, string) result" where
  "get_hostname_from_host_port addr =
    and_then (split_host_port addr) (\<lambda>(h, _). Ok (if CHR '':'' \<in> set h then ''['' @ h @ '']'' else h))"

definition show_core_address :: "Address \<Rightarrow> string" where
  "show_core_address self = host self @ '':'' @ show_nat (unat (port self))"

section \<open>Options\<close>

record KvClientBootstrapOptions =
  kb_client_name :: string
  kb_disable_error_map :: bool
  kb_disable_mutation_tokens :: bool
  kb_disable_server_durations :: bool
  kb_on_err_map_fetched :: bool
  kb_auth_mechanisms :: "AuthMechanism list"

definition bootstrap_options_eq :: "KvClientBootstrapOptions \<Rightarrow> KvClientBootstrapOptions \<Rightarrow> bool" where
  "bootstrap_options_eq self other \<longleftrightarrow>
    kb_client_name self = kb_client_name other \<and> kb_disable_error_map self = kb_disable_error_map other
    \<and> kb_disable_server_durations self = kb_disable_server_durations other
    \<and> kb_disable_mutation_tokens self = kb_disable_mutation_tokens other"

record 'tls KvClientOptions =
  ko_address :: "'tls KvTarget"
  ko_authenticator :: Authenticator
  ko_selected_bucket :: "string option"
  ko_bootstrap_options :: KvClientBootstrapOptions

definition password_auth_mechanisms :: "bool \<Rightarrow> AuthMechanism list" where
  "password_auth_mechanisms tls_enabled =
    (if tls_enabled then [AuthMechanism.Plain] else [AuthMechanism.ScramSha512, AuthMechanism.ScramSha256, AuthMechanism.ScramSha1])"

definition jwt_auth_mechanisms :: "AuthMechanism list" where
  "jwt_auth_mechanisms = [AuthMechanism.OAuthBearer]"

definition requested_features :: "KvClientBootstrapOptions \<Rightarrow> HelloFeature list" where
  "requested_features opts =
    [HelloFeature.DataType, HelloFeature.Xattr, HelloFeature.Xerror, HelloFeature.Snappy, HelloFeature.SnappyEverywhere, HelloFeature.Json,
     HelloFeature.UnorderedExec, HelloFeature.SyncReplication, HelloFeature.ReplaceBodyWithXattr, HelloFeature.SelectBucket,
     HelloFeature.CreateAsDeleted, HelloFeature.AltRequests, HelloFeature.Collections, HelloFeature.ClusterMapKnownVersion,
     HelloFeature.DedupeNotMyVbucketClustermap, HelloFeature.ClusterMapChangeNotificationBrief, HelloFeature.Duplex, HelloFeature.PreserveExpiry]
    @ (if kb_disable_mutation_tokens opts then [] else [HelloFeature.SeqNo])
    @ (if kb_disable_server_durations opts then [] else [HelloFeature.Durations])"

definition credentials_of :: "Authenticator \<Rightarrow> Credentials option" where
  "credentials_of authenticator =
    (case authenticator of
       PasswordAuthenticator username password \<Rightarrow> Some (UserPass username password)
     | CertificateAuthenticator \<Rightarrow> None
     | JwtAuthenticator token \<Rightarrow> Some (JwtToken token))"

definition enabled_mechs :: "'tls KvClientOptions \<Rightarrow> AuthMechanism list" where
  "enabled_mechs opts =
    (if kb_auth_mechanisms (ko_bootstrap_options opts) \<noteq> [] then kb_auth_mechanisms (ko_bootstrap_options opts)
     else
       (case ko_authenticator opts of
          PasswordAuthenticator _ _ \<Rightarrow> password_auth_mechanisms (kt_tls_config (ko_address opts) \<noteq> None)
        | JwtAuthenticator _ \<Rightarrow> jwt_auth_mechanisms
        | _ \<Rightarrow> []))"

definition bootstrap_options :: "'tls KvClientOptions \<Rightarrow> BootstrapOptions" where
  "bootstrap_options opts =
    (let b = ko_bootstrap_options opts in
     \<lparr>bo_hello = (if kb_client_name b \<noteq> [] then Some (requested_features b) else None),
      bo_get_error_map = (if kb_disable_error_map b then None else Some 2),
      bo_auth = map_option (\<lambda>c. \<lparr>sa_credentials = c, sa_enabled_mechs = enabled_mechs opts\<rparr>) (credentials_of (ko_authenticator opts)),
      bo_select_bucket = ko_selected_bucket opts,
      bo_get_cluster_config = None\<rparr>)"

definition should_bootstrap :: "'tls KvClientOptions \<Rightarrow> bool" where
  "should_bootstrap opts \<longleftrightarrow>
    (let b = bootstrap_options opts in bo_hello b \<noteq> None \<or> bo_auth b \<noteq> None \<or> bo_get_error_map b \<noteq> None)"

section \<open>Creation\<close>

text \<open>Besides the result: the client object that was made (a failing bootstrap leaves a closed one), the requests sent and the error
  maps handed to the handler.\<close>

record NewClient =
  nc_result :: "(CoreError, KvClient) result"
  nc_client :: "KvClient option"
  nc_sent :: "dispatch_call list"
  nc_error_maps :: "bytes list"

definition kv_client_new :: "SaslEnv \<Rightarrow> server \<Rightarrow> (Error, string \<times> string) result \<Rightarrow> 'tls KvClientOptions \<Rightarrow> NewClient" where
  "kv_client_new env server connect opts =
    (case connect of
       Panic \<Rightarrow> \<lparr>nc_result = Panic, nc_client = None, nc_sent = [], nc_error_maps = []\<rparr>
     | Err e \<Rightarrow>
         \<lparr>nc_result = Err (new_contextual_memdx_error
            (with_dispatched_to (show_core_address (kt_address (ko_address opts))) (memdx_error_new e))),
          nc_client = None, nc_sent = [], nc_error_maps = []\<rparr>
     | Ok (remote_addr, local_addr) \<Rightarrow>
         let kv_cli = \<lparr>kc_remote_addr = remote_addr, kc_local_addr = local_addr, kc_supported_features = [],
                kc_selected_bucket = None, kc_closed = False, kc_cli_closes = 0\<rparr> in
         if should_bootstrap opts then
           let kv_cli = kv_cli\<lparr>kc_selected_bucket := ko_selected_bucket opts\<rparr> in
           (case bootstrap env server (bootstrap_options opts) [] of
              (Panic, sent) \<Rightarrow> \<lparr>nc_result = Panic, nc_client = Some kv_cli, nc_sent = sent, nc_error_maps = []\<rparr>
            | (Err e, sent) \<Rightarrow>
                \<lparr>nc_result = Err (new_contextual_memdx_error (kv_error kv_cli e)), nc_client = Some (kv_close kv_cli), nc_sent = sent,
                 nc_error_maps = []\<rparr>
            | (Ok res, sent) \<Rightarrow>
                let kv_cli = (case br_hello res of Some h \<Rightarrow> kv_cli\<lparr>kc_supported_features := hr_enabled_features h\<rparr> | None \<Rightarrow> kv_cli) in
                \<lparr>nc_result = Ok kv_cli, nc_client = Some kv_cli, nc_sent = sent,
                 nc_error_maps = (case br_error_map res of Some m \<Rightarrow> if kb_on_err_map_fetched (ko_bootstrap_options opts) then [m] else [] | None \<Rightarrow> [])\<rparr>)
         else \<lparr>nc_result = Ok kv_cli, nc_client = Some kv_cli, nc_sent = [], nc_error_maps = []\<rparr>)"

section \<open>Selecting a bucket later\<close>

text \<open>The bucket is claimed under the lock, the request runs without it, and a failure gives the claim back.\<close>

definition select_begin :: "string \<Rightarrow> KvClient \<Rightarrow> (CoreError, unit) result \<times> KvClient" where
  "select_begin bucket self =
    (if kc_selected_bucket self \<noteq> None
     then (Err (core_error_new (CoreErrorKind.InvalidArgument ''cannot select bucket when a bucket is already selected'' (Some ''bucket_name''))), self)
     else (Ok (), self\<lparr>kc_selected_bucket := Some bucket\<rparr>))"

text \<open>\<open>dispatched\<close> is what handing over the request gave and, if that succeeded, what the response was.\<close>

definition kv_select_request :: "(Error, (Error, unit) result) result \<Rightarrow> KvClient \<Rightarrow> (MemdxError, unit) result \<times> KvClient" where
  "kv_select_request dispatched self =
    (case handle_dispatch_side_result self dispatched of
       (Ok received, self) \<Rightarrow> handle_response_side_result self received
     | (Err e, self) \<Rightarrow> (Err e, self)
     | (Panic, self) \<Rightarrow> (Panic, self))"

definition select_finish :: "(Error, (Error, unit) result) result \<Rightarrow> KvClient \<Rightarrow> (CoreError, unit) result \<times> KvClient" where
  "select_finish dispatched self =
    (case kv_select_request dispatched self of
       (Ok _, self) \<Rightarrow> (Ok (), self)
     | (Err e, self) \<Rightarrow> (Err (core_error_new (CoreErrorKind.Memdx e)), self\<lparr>kc_selected_bucket := None\<rparr>)
     | (Panic, self) \<Rightarrow> (Panic, self))"

definition reconfigure_authenticator :: "server \<Rightarrow> Credentials \<Rightarrow> dispatch_call list \<Rightarrow> (MemdxError, unit) result \<times> dispatch_call list" where
  "reconfigure_authenticator server credentials sent =
    (case credentials of
       UserPass _ _ \<Rightarrow> (Panic, sent)
     | JwtToken token \<Rightarrow> (case sasl_auth_oauth_bearer server token sent of (r, sent) \<Rightarrow> (map_err memdx_error_new r, sent)))"

section \<open>Host and port\<close>

lemma takeWhile_neq: "c \<notin> set l \<Longrightarrow> takeWhile (\<lambda>d. d \<noteq> c) l = l"
  by (auto simp: takeWhile_eq_all_conv)

lemma rfind_last: "c \<notin> set r \<Longrightarrow> rfind c (l @ c # r) = Some (length l)"
  by (simp add: rfind_def takeWhile_tail takeWhile_neq)

lemma find_char_first: "c \<notin> set l \<Longrightarrow> find_char c (l @ c # r) = Some (length l)"
  by (simp add: find_char_def takeWhile_tail takeWhile_neq)

text \<open>An address that was put together from a host and a port comes apart again: a name without colons and brackets as it is, an IPv6
  literal between brackets without them.\<close>

theorem split_host_port_joined:
  assumes "CHR '':'' \<notin> set prt" and "\<forall>c \<in> {CHR ''['', CHR '']''}. c \<notin> set h \<and> c \<notin> set prt"
  shows "(CHR '':'' \<notin> set h \<longrightarrow> split_host_port (h @ '':'' @ prt) = Ok (h, prt)) \<and> split_host_port (''['' @ h @ '']:'' @ prt) = Ok (h, prt)"
proof -
  have bracketed: "split_host_port (''['' @ h @ '']:'' @ prt) = Ok (h, prt)"
    using assms rfind_last [of "CHR '':''" prt "''['' @ h @ '']''"] find_char_first [of "CHR '']''" "''['' @ h" "'':'' @ prt"]
    by (simp add: split_host_port_def)
  have plain: "split_host_port (h @ '':'' @ prt) = Ok (h, prt)" if "CHR '':'' \<notin> set h"
    using that assms rfind_last [of "CHR '':''" prt h] by (cases h) (auto simp: split_host_port_def split: list.split char.split bool.split)
  show ?thesis using bracketed plain by blast
qed

theorem split_host_port_joined_witness:
  "(CHR '':'' \<notin> set ''::1'' \<longrightarrow> split_host_port (''::1'' @ '':'' @ ''11210'') = Ok (''::1'', ''11210''))
    \<and> split_host_port (''['' @ ''::1'' @ '']:'' @ ''11210'') = Ok (''::1'', ''11210'')"
  by (rule split_host_port_joined) auto

section \<open>Properties of a new client\<close>

lemma bootstrap_Ok:
  assumes "bootstrap env server opts [] = (Ok res, sent)"
  shows "bo_select_bucket opts = Some b \<Longrightarrow> bo_get_cluster_config opts = None \<Longrightarrow>
      \<exists>pre resp. sent = pre @ [select_bucket b] \<and> server sent = Ok resp \<and> rp_status (cr_packet resp) = Status.Success"
  using assms
  by (auto simp: bootstrap_def talk_Ok required_op_def optional_op_def select_bucket_response_def Let_def split: if_splits)

lemma names_no_mech [simp]:
  "\<not> names_mech m (hello fs)" "\<not> names_mech m (get_error_map v)" "\<not> names_mech m (select_bucket b)" "\<not> names_mech m (get_cluster_config k)"
  by (auto simp: names_mech_def hello_def get_error_map_def sasl_auth_def sasl_step_def select_bucket_def get_cluster_config_def request_packet_new_def)

text \<open>C23. No downgrade to clear-text passwords: without TLS and with the default mechanisms, whatever the server lists or answers, a new
  client with a password never sends a request that names the PLAIN mechanism.\<close>

theorem no_plain_downgrade:
  assumes "ko_authenticator opts = PasswordAuthenticator username password" and "kt_tls_config (ko_address opts) = None"
    and "kb_auth_mechanisms (ko_bootstrap_options opts) = []"
  shows "list_all (\<lambda>call. \<not> names_mech AuthMechanism.Plain call) (nc_sent (kv_client_new env server connect opts))"
    (is "list_all ?no _")
proof -
  have mechs: "AuthMechanism.Plain \<notin> set (enabled_mechs opts)"
    using assms by (simp add: enabled_mechs_def password_auth_mechanisms_def)
  have auth: "only_sends ?no (sasl_auth_auto env server auth)" if "bo_auth (bootstrap_options opts) = Some auth" for auth
    by (rule only_sends_mono [OF sends_auto], rule plain_not_named [of auth]) (use that mechs in \<open>auto simp: bootstrap_options_def Let_def\<close>)
  have "only_sends ?no (bootstrap env server (bootstrap_options opts))"
    unfolding bootstrap_def by (intro sends auth) simp_all
  then have "list_all ?no (snd (bootstrap env server (bootstrap_options opts) []))"
    unfolding only_sends_def by (metis append_Nil)
  then show ?thesis by (auto simp: kv_client_new_def Let_def split: result.split prod.split)
qed


text \<open>While a selection runs no other one starts; a failed one leaves the client without a bucket and free for the next, a successful one keeps
  the bucket for good.\<close>

theorem select_exclusive:
  assumes "select_begin b self = (Ok (), self')" and "kc_selected_bucket later = kc_selected_bucket self'"
  shows "(\<exists>e. select_begin b' later = (Err e, later))
    \<and> (\<forall>r later'. select_finish dispatched later = (r, later') \<longrightarrow>
         (case r of Ok _ \<Rightarrow> kc_selected_bucket later' = Some b | Err _ \<Rightarrow> fst (select_begin b' later') = Ok () | Panic \<Rightarrow> True))"
proof -
  have bucket: "kc_selected_bucket later = Some b" using assms by (auto simp: select_begin_def split: if_splits)
  have keeps: "kc_selected_bucket (kv_close c) = kc_selected_bucket c" for c by (simp add: kv_close_def Let_def split: prod.split)
  have "kc_selected_bucket c = Some b" if "kv_select_request dispatched later = (x, c)" for x c
    using that bucket keeps
    by (auto simp: kv_select_request_def handle_dispatch_side_result_def handle_response_side_result_def
        split: prod.splits result.splits ErrorKind.splits if_splits)
  then show ?thesis using bucket by (auto simp: select_begin_def select_finish_def split: prod.splits result.splits)
qed

text \<open>Without a client name, an error map and credentials nothing is bootstrapped, and the bucket the options name is not selected.\<close>

theorem certificate_client_without_bucket:
  assumes "ko_authenticator opts = CertificateAuthenticator" and "kb_client_name (ko_bootstrap_options opts) = []"
    and "kb_disable_error_map (ko_bootstrap_options opts)" and "connect = Ok addrs"
  shows "\<exists>kv. nc_result (kv_client_new env server connect opts) = Ok kv \<and> kc_selected_bucket kv = None \<and> nc_sent (kv_client_new env server connect opts) = []"
  using assms by (cases addrs) (simp add: kv_client_new_def should_bootstrap_def bootstrap_options_def credentials_of_def Let_def)

section \<open>Concrete clients\<close>

definition sample_kv_options :: "unit option \<Rightarrow> unit KvClientOptions" where
  "sample_kv_options tls =
    \<lparr>ko_address = \<lparr>kt_address = \<lparr>host = ''h'', port = 11210\<rparr>, kt_tls_config = tls\<rparr>,
     ko_authenticator = PasswordAuthenticator ''u'' ''pw'', ko_selected_bucket = Some ''b'',
     ko_bootstrap_options = \<lparr>kb_client_name = ''c'', kb_disable_error_map = False, kb_disable_mutation_tokens = False,
       kb_disable_server_durations = False, kb_on_err_map_fetched = True, kb_auth_mechanisms = []\<rparr>\<rparr>"

definition sample_server :: server where
  "sample_server sent = (if length sent = 1 then reply OpCode.Hello Status.Success [0, 4] else reply OpCode.Noop Status.Success (as_bytes ''PLAIN''))"

definition sample_kv :: KvClient where
  "sample_kv = \<lparr>kc_remote_addr = ''r'', kc_local_addr = ''l'', kc_supported_features = [HelloFeature.SeqNo], kc_selected_bucket = Some ''b'',
    kc_closed = False, kc_cli_closes = 0\<rparr>"

theorem no_plain_downgrade_witness:
  "list_all (\<lambda>call. \<not> names_mech AuthMechanism.Plain call) (nc_sent (kv_client_new sasl_env sample_server (Ok (''r'', ''l'')) (sample_kv_options None)))"
  by (rule no_plain_downgrade) (simp_all add: sample_kv_options_def)

lemma sample_kv_new: "nc_result (kv_client_new sasl_env sample_server (Ok (''r'', ''l'')) (sample_kv_options (Some ()))) = Ok sample_kv"
proof -
  have "and_then (reply op Status.Success v) get_error_map_response = Ok v" "and_then (reply op Status.Success v) select_bucket_response = Ok ()" for op v
    by (simp_all add: reply_def get_error_map_response_def select_bucket_response_def response_packet_new_def unwrap_or_def)
  moreover have "and_then (reply op Status.Success [0, 4]) hello_response = Ok \<lparr>hr_enabled_features = [HelloFeature.SeqNo]\<rparr>" for op
    by (simp add: reply_def hello_response_def response_packet_new_def u16_from_be_def from_be_def hello_feature_from_u16_def)
  ultimately show ?thesis
    using sample_listing [of OpCode.Noop AuthMechanism.Plain]
    by (simp add: kv_client_new_def sample_kv_options_def should_bootstrap_def bootstrap_options_def credentials_of_def Let_def bootstrap_def
        enabled_mechs_def password_auth_mechanisms_def optional_op_def required_op_def finish_def andThen_def orElse_def run_op_def
        sasl_auth_auto_def sasl_auth_by_name_def sasl_auth_plain_def user_pass_def sample_server_def sample_kv_def)
qed


end
