(* ===== verification/Agent_Manager.thy ===== *)
theory Agent_Manager
  imports Prelude Core_Error Transition
begin

text \<open>
  One agent per bucket, made on demand (\<^verbatim>\<open>ondemand_agentmanager.rs\<close>). Calls run in several tasks; a step is what one of them does
  between two awaits, with the locks it holds meanwhile. Agents are shared objects, so they live in a store and the maps hold their names. The
  notifications of \<^verbatim>\<open>tokio\<close> wake the tasks that wait at that moment and are not remembered. What creating an agent returns is left open.
\<close>

section \<open>State\<close>

record 'opts ManagedAgent =
  oa_bucket :: "string option"
  oa_opts :: 'opts

datatype Call =
    AtFast | AtSlow | GotNotif nat | Notified_by nat | Creating nat | Created_agent nat nat | Loaded | Returned nat | CallFailed CoreError

record 'opts AgentManager =
  am_opts :: 'opts
  am_store :: "nat \<Rightarrow> 'opts ManagedAgent option"
  am_cluster_agent :: nat
  am_fast_map :: "string \<rightharpoonup> nat"
  am_slow_map :: "string \<rightharpoonup> nat"
  am_notif_map :: "string \<rightharpoonup> nat"
  am_fresh :: nat
  am_calls :: "nat \<Rightarrow> (string \<times> Call) option"

section \<open>Operations\<close>

text \<open>\<^verbatim>\<open>new\<close> after the cluster agent was created.\<close>

definition agent_manager_new :: "'opts \<Rightarrow> 'opts AgentManager" where
  "agent_manager_new opts =
    \<lparr>am_opts = opts, am_store = [0 \<mapsto> \<lparr>oa_bucket = None, oa_opts = opts\<rparr>], am_cluster_agent = 0, am_fast_map = Map.empty,
     am_slow_map = Map.empty, am_notif_map = Map.empty, am_fresh = 1, am_calls = \<lambda>_. None\<rparr>"

definition set_call :: "nat \<Rightarrow> string \<Rightarrow> Call \<Rightarrow> 'opts AgentManager \<Rightarrow> 'opts AgentManager" where
  "set_call c b pc s = s\<lparr>am_calls := (am_calls s)(c \<mapsto> (b, pc))\<rparr>"

definition get_bucket_agent_fast :: "nat \<Rightarrow> string \<Rightarrow> 'opts AgentManager \<Rightarrow> 'opts AgentManager" where
  "get_bucket_agent_fast c b s =
    (case am_fast_map s b of Some agent \<Rightarrow> set_call c b (Returned agent) s | None \<Rightarrow> set_call c b AtSlow s)"

definition load_begin :: "nat \<Rightarrow> string \<Rightarrow> 'opts AgentManager \<Rightarrow> 'opts AgentManager" where
  "load_begin c b s =
    (if am_slow_map s b \<noteq> None then set_call c b Loaded s
     else
       (case am_notif_map s b of
          Some notif \<Rightarrow> set_call c b (GotNotif notif) s
        | None \<Rightarrow>
            let notif = am_fresh s in
            set_call c b (Creating notif) (s\<lparr>am_fresh := notif + 1, am_notif_map := (am_notif_map s)(b \<mapsto> notif)\<rparr>)))"

definition await_notified :: "nat \<Rightarrow> string \<Rightarrow> nat \<Rightarrow> 'opts AgentManager \<Rightarrow> 'opts AgentManager" where
  "await_notified c b notif s = set_call c b (Notified_by notif) s"

text \<open>\<^verbatim>\<open>Agent::new\<close> with the options of the manager and the name of the bucket; an error leaves the function at once.\<close>

definition create_agent :: "nat \<Rightarrow> string \<Rightarrow> nat \<Rightarrow> 'opts AgentManager \<Rightarrow> 'opts AgentManager" where
  "create_agent c b notif s =
    (let agent = am_fresh s in
     set_call c b (Created_agent notif agent)
       (s\<lparr>am_fresh := agent + 1, am_store := (am_store s)(agent \<mapsto> \<lparr>oa_bucket = Some b, oa_opts = am_opts s\<rparr>)\<rparr>))"

definition create_agent_failed :: "nat \<Rightarrow> string \<Rightarrow> CoreError \<Rightarrow> 'opts AgentManager \<Rightarrow> 'opts AgentManager" where
  "create_agent_failed c b e s = set_call c b (CallFailed e) s"

definition notify_bucket_waiters :: "nat \<Rightarrow> (nat \<Rightarrow> (string \<times> Call) option) \<Rightarrow> nat \<Rightarrow> (string \<times> Call) option" where
  "notify_bucket_waiters notif calls c =
    (case calls c of Some (b, Notified_by n) \<Rightarrow> if n = notif then Some (b, Loaded) else calls c | _ \<Rightarrow> calls c)"

definition load_finish :: "nat \<Rightarrow> string \<Rightarrow> nat \<Rightarrow> nat \<Rightarrow> 'opts AgentManager \<Rightarrow> 'opts AgentManager" where
  "load_finish c b notif agent s =
    (let s = s\<lparr>am_slow_map := (am_slow_map s)(b \<mapsto> agent), am_notif_map := (am_notif_map s)(b := None)\<rparr> in
     set_call c b Loaded (s\<lparr>am_calls := notify_bucket_waiters notif (am_calls s)\<rparr>))"

definition rebuild_fast_map :: "nat \<Rightarrow> string \<Rightarrow> 'opts AgentManager \<Rightarrow> 'opts AgentManager" where
  "rebuild_fast_map c b s = set_call c b AtFast (s\<lparr>am_fast_map := am_slow_map s\<rparr>)"

definition reconfigure_agent :: "'opts \<Rightarrow> nat set \<Rightarrow> 'opts AgentManager \<Rightarrow> 'opts AgentManager" where
  "reconfigure_agent opts agents s =
    s\<lparr>am_store := \<lambda>a. if a \<in> agents then map_option (\<lambda>g. g\<lparr>oa_opts := opts\<rparr>) (am_store s a) else am_store s a\<rparr>"

definition reconfigure_cluster :: "'opts \<Rightarrow> 'opts AgentManager \<Rightarrow> 'opts AgentManager" where
  "reconfigure_cluster opts s = reconfigure_agent opts {am_cluster_agent s} s"

definition reconfigure_buckets :: "'opts \<Rightarrow> 'opts AgentManager \<Rightarrow> 'opts AgentManager" where
  "reconfigure_buckets opts s = reconfigure_agent opts (ran (am_slow_map s)) s"

section \<open>Interleaving\<close>

inductive am_step :: "'opts AgentManager \<Rightarrow> 'opts AgentManager \<Rightarrow> bool" where
  call: "am_calls s c = None \<Longrightarrow> am_step s (set_call c b AtFast s)"
| fast: "am_calls s c = Some (b, AtFast) \<Longrightarrow> am_step s (get_bucket_agent_fast c b s)"
| slow: "am_calls s c = Some (b, AtSlow) \<Longrightarrow> am_step s (load_begin c b s)"
| wait: "am_calls s c = Some (b, GotNotif n) \<Longrightarrow> am_step s (await_notified c b n s)"
| create: "am_calls s c = Some (b, Creating n) \<Longrightarrow> am_step s (create_agent c b n s)"
| fail: "am_calls s c = Some (b, Creating n) \<Longrightarrow> am_step s (create_agent_failed c b e s)"
| finish: "am_calls s c = Some (b, Created_agent n a) \<Longrightarrow> am_step s (load_finish c b n a s)"
| rebuild: "am_calls s c = Some (b, Loaded) \<Longrightarrow> am_step s (rebuild_fast_map c b s)"
| cluster: "am_step s (reconfigure_cluster opts s)"
| buckets: "am_step s (reconfigure_buckets opts s)"

inductive_cases am_stepE: "am_step s t"

abbreviation am_reachable :: "'opts AgentManager \<Rightarrow> bool" where
  "am_reachable \<equiv> reachable (\<lambda>s. \<exists>opts. s = agent_manager_new opts) am_step"

lemmas am_defs = get_bucket_agent_fast_def load_begin_def await_notified_def create_agent_def create_agent_failed_def load_finish_def
  rebuild_fast_map_def reconfigure_cluster_def reconfigure_buckets_def reconfigure_agent_def set_call_def

section \<open>One agent per bucket\<close>

fun works_on :: "Call \<Rightarrow> nat option" where
  "works_on (Creating n) = Some n"
| "works_on (Created_agent n _) = Some n"
| "works_on _ = None"

text \<open>Who creates an agent holds the entry of the bucket, alone, and the bucket has no agent yet.\<close>

definition worker :: "'opts AgentManager \<Rightarrow> nat \<Rightarrow> string \<Rightarrow> nat \<Rightarrow> bool" where
  "worker s c b n \<longleftrightarrow> (\<exists>pc. am_calls s c = Some (b, pc) \<and> works_on pc = Some n)"

definition creators_ok :: "'opts AgentManager \<Rightarrow> bool" where
  "creators_ok s \<longleftrightarrow> (\<forall>c b n. worker s c b n \<longrightarrow> am_notif_map s b = Some n \<and> am_slow_map s b = None)
    \<and> (\<forall>c c' b b' n. worker s c b n \<longrightarrow> worker s c' b' n \<longrightarrow> c = c')"

definition agents_ok :: "'opts AgentManager \<Rightarrow> bool" where
  "agents_ok s \<longleftrightarrow> am_fast_map s \<subseteq>\<^sub>m am_slow_map s
    \<and> (\<forall>c b a. am_calls s c = Some (b, Returned a) \<longrightarrow> am_slow_map s b = Some a)
    \<and> (\<forall>b a. am_slow_map s b = Some a \<longrightarrow> (\<exists>g. am_store s a = Some g \<and> oa_bucket g = Some b))
    \<and> (\<forall>c b n a. am_calls s c = Some (b, Created_agent n a) \<longrightarrow> (\<exists>g. am_store s a = Some g \<and> oa_bucket g = Some b))"

definition fresh_ok :: "'opts AgentManager \<Rightarrow> bool" where
  "fresh_ok s \<longleftrightarrow> (\<forall>b n. am_notif_map s b = Some n \<longrightarrow> n < am_fresh s) \<and> (\<forall>a \<ge> am_fresh s. am_store s a = None)
    \<and> (\<forall>b b' n. am_notif_map s b = Some n \<longrightarrow> am_notif_map s b' = Some n \<longrightarrow> b = b')"

definition am_inv :: "'opts AgentManager \<Rightarrow> bool" where
  "am_inv s \<longleftrightarrow> creators_ok s \<and> agents_ok s \<and> fresh_ok s"

lemma am_init: "am_inv (agent_manager_new opts)"
  by (auto simp: am_inv_def creators_ok_def agents_ok_def fresh_ok_def agent_manager_new_def worker_def)

lemma fresh_step: "am_step s t \<Longrightarrow> fresh_ok s \<Longrightarrow> fresh_ok t"
  by (erule am_stepE) (auto simp: fresh_ok_def am_defs Let_def less_Suc_eq split: option.splits if_splits)

lemma worker_set_call [simp]: "worker (set_call c b pc s) d e n \<longleftrightarrow> (if d = c then e = b \<and> works_on pc = Some n else worker s d e n)"
  by (auto simp: worker_def set_call_def)

lemma set_call_maps [simp]:
  "am_notif_map (set_call c b pc s) = am_notif_map s" "am_slow_map (set_call c b pc s) = am_slow_map s" "am_fast_map (set_call c b pc s) = am_fast_map s"
  "am_store (set_call c b pc s) = am_store s" "am_fresh (set_call c b pc s) = am_fresh s"
  by (simp_all add: set_call_def)

lemma set_call_calls: "am_calls (set_call c b pc s) d = (if d = c then Some (b, pc) else am_calls s d)"
  by (simp add: set_call_def)

lemma worker_cong [simp]:
  "worker (s\<lparr>am_fresh := f\<rparr>) = worker s" "worker (s\<lparr>am_notif_map := m\<rparr>) = worker s" "worker (s\<lparr>am_store := st\<rparr>) = worker s"
  "worker (s\<lparr>am_fast_map := m'\<rparr>) = worker s" "worker (s\<lparr>am_slow_map := m'\<rparr>) = worker s"
  by (simp_all add: worker_def fun_eq_iff)

lemma notify_waiters_keeps: "notify_bucket_waiters n calls c = Some (b, pc) \<Longrightarrow> pc \<noteq> Loaded \<Longrightarrow> calls c = Some (b, pc)"
  by (auto simp: notify_bucket_waiters_def split: option.splits prod.splits Call.splits if_splits)

lemma notify_waiters_other: "calls c = Some (b, pc) \<Longrightarrow> (\<forall>n. pc \<noteq> Notified_by n) \<Longrightarrow> notify_bucket_waiters n calls c = Some (b, pc)"
  by (auto simp: notify_bucket_waiters_def split: Call.splits)

lemma worker_notify: "worker (s\<lparr>am_slow_map := x, am_notif_map := y, am_calls := notify_bucket_waiters n (am_calls s)\<rparr>) = worker s"
proof -
  have "notify_bucket_waiters n (am_calls s) c = Some (b, pc) \<and> works_on pc = Some m \<longleftrightarrow> am_calls s c = Some (b, pc) \<and> works_on pc = Some m" for c b pc m
    using notify_waiters_keeps [of n "am_calls s" c b pc] notify_waiters_other [of "am_calls s" c b pc n] by (cases pc) auto
  then show ?thesis by (simp add: worker_def fun_eq_iff)
qed

lemma creators_idle: "creators_ok s \<Longrightarrow> works_on pc = None \<Longrightarrow> creators_ok (set_call c b pc s)"
  unfolding creators_ok_def by auto

lemma creators_finish:
  assumes "creators_ok s" and "am_calls s c = Some (b, Created_agent n a)"
  shows "creators_ok (load_finish c b n a s)"
proof -
  have own: "worker s c b n" using assms(2) by (simp add: worker_def)
  then have notif: "am_notif_map s b = Some n" using assms(1) unfolding creators_ok_def by blast
  have other: "d = b \<Longrightarrow> False" if "worker s c' d m" "c' \<noteq> c" for c' d m
    using assms(1) own that unfolding creators_ok_def by (metis option.inject)
  have w: "worker (load_finish c b n a s) d e m \<longleftrightarrow> worker s d e m \<and> d \<noteq> c" for d e m
    by (simp add: load_finish_def Let_def worker_notify)
  show ?thesis using assms(1) other unfolding creators_ok_def w by (auto simp: load_finish_def Let_def)
qed

lemma creators_begin:
  assumes "creators_ok s" and "fresh_ok s"
  shows "creators_ok (load_begin c b s)"
proof (cases "am_slow_map s b = None \<and> am_notif_map s b = None")
  case True
  have less: "m < am_fresh s" and other: "b' \<noteq> b" if "worker s d b' m" for d b' m
    using assms that True unfolding creators_ok_def fresh_ok_def by (blast, fastforce)
  have other': "\<not> worker s d b m" "\<not> worker s d b' (am_fresh s)" for d b' m using less other by blast+
  show ?thesis
    using assms(1) True other' unfolding creators_ok_def load_begin_def by (simp add: Let_def) (metis other)
next
  case False
  then show ?thesis using assms(1) by (auto simp: load_begin_def Let_def intro: creators_idle split: option.splits)
qed

lemma creators_create:
  assumes "creators_ok s" and "am_calls s c = Some (b, Creating n)"
  shows "creators_ok (create_agent c b n s)"
proof -
  have "worker s c b n" using assms(2) by (simp add: worker_def)
  then have "worker (create_agent c b n s) = worker s"
    using assms(2) by (auto simp: fun_eq_iff create_agent_def Let_def worker_def [of s c])
  then show ?thesis using assms(1) unfolding creators_ok_def by (simp add: create_agent_def Let_def)
qed

lemma creators_step:
  assumes "am_step s t" and "fresh_ok s" and "creators_ok s"
  shows "creators_ok t"
  using assms(1)
proof (cases rule: am_step.cases)
  case (fast c b)
  then show ?thesis using assms(3) by (auto simp: get_bucket_agent_fast_def split: option.splits intro: creators_idle)
next
  case (rebuild c b)
  have "creators_ok (s\<lparr>am_fast_map := am_slow_map s\<rparr>)" using assms(3) by (simp add: creators_ok_def)
  then show ?thesis using rebuild by (simp add: rebuild_fast_map_def creators_idle)
next
  case (cluster opts)
  then show ?thesis using assms(3) by (simp add: creators_ok_def reconfigure_cluster_def reconfigure_agent_def)
next
  case (buckets opts)
  then show ?thesis using assms(3) by (simp add: creators_ok_def reconfigure_buckets_def reconfigure_agent_def)
qed (use assms(2,3) in \<open>simp_all add: await_notified_def create_agent_failed_def creators_idle creators_begin creators_finish creators_create\<close>)

lemma agents_finish:
  assumes "agents_ok s" and "creators_ok s" and "am_calls s c = Some (b, Created_agent n a)"
  shows "agents_ok (load_finish c b n a s)"
proof -
  have "am_slow_map s b = None" using assms(2,3) unfolding creators_ok_def worker_def by (metis works_on.simps(2))
  then have grows: "am_slow_map s \<subseteq>\<^sub>m am_slow_map (load_finish c b n a s)" by (auto simp: load_finish_def Let_def map_le_def)
  have calls: "am_calls s d = Some (e, pc)" if "am_calls (load_finish c b n a s) d = Some (e, pc)" "pc \<noteq> Loaded" for d e pc
    using that by (auto simp: load_finish_def set_call_def Let_def split: if_splits dest: notify_waiters_keeps)
  show ?thesis
    unfolding agents_ok_def
  proof (intro conjI allI impI)
    show "am_fast_map (load_finish c b n a s) \<subseteq>\<^sub>m am_slow_map (load_finish c b n a s)"
      using assms(1) grows map_le_trans unfolding agents_ok_def by (auto simp: load_finish_def Let_def)
  next
    fix d e a' assume "am_calls (load_finish c b n a s) d = Some (e, Returned a')"
    then have "am_slow_map s e = Some a'" using calls assms(1) unfolding agents_ok_def by blast
    then show "am_slow_map (load_finish c b n a s) e = Some a'" using grows by (metis domI map_le_def)
  next
    fix e a' assume "am_slow_map (load_finish c b n a s) e = Some a'"
    then show "\<exists>g. am_store (load_finish c b n a s) a' = Some g \<and> oa_bucket g = Some e"
      using assms(1,3) unfolding agents_ok_def by (auto simp: load_finish_def Let_def split: if_splits)
  next
    fix d e m a' assume "am_calls (load_finish c b n a s) d = Some (e, Created_agent m a')"
    then have "am_calls s d = Some (e, Created_agent m a')" using calls by blast
    then show "\<exists>g. am_store (load_finish c b n a s) a' = Some g \<and> oa_bucket g = Some e"
      using assms(1) unfolding agents_ok_def by (auto simp: load_finish_def Let_def)
  qed
qed

lemma agents_idle:
  "agents_ok s \<Longrightarrow> (\<forall>a. pc = Returned a \<longrightarrow> am_slow_map s b = Some a) \<Longrightarrow> (\<forall>n a. pc \<noteq> Created_agent n a) \<Longrightarrow> agents_ok (set_call c b pc s)"
  unfolding agents_ok_def by (auto simp: set_call_def)

lemma fast_in_slow: "agents_ok s \<Longrightarrow> am_fast_map s b = Some a \<Longrightarrow> am_slow_map s b = Some a"
  unfolding agents_ok_def map_le_def by (metis domI)

lemma agents_create:
  assumes "agents_ok s" and "fresh_ok s"
  shows "agents_ok (create_agent c b n s)"
proof -
  let ?store = "(am_store s)(am_fresh s \<mapsto> \<lparr>oa_bucket = Some b, oa_opts = am_opts s\<rparr>)"
  have "am_store s (am_fresh s) = None" using assms(2) by (simp add: fresh_ok_def)
  then have "?store a = Some g" if "am_store s a = Some g" for a g using that by auto
  then have "agents_ok (s\<lparr>am_fresh := am_fresh s + 1, am_store := ?store\<rparr>)"
    using assms(1) unfolding agents_ok_def by (simp del: fun_upd_apply) blast
  then show ?thesis unfolding agents_ok_def create_agent_def by (simp add: Let_def set_call_def)
qed

lemma agents_reconfigure: "agents_ok s \<Longrightarrow> agents_ok (reconfigure_agent opts A s)"
  unfolding agents_ok_def reconfigure_agent_def by fastforce

lemma agents_step:
  assumes "am_step s t" and "creators_ok s" and "fresh_ok s" and "agents_ok s"
  shows "agents_ok t"
  using assms(1)
proof (cases rule: am_step.cases)
  case (fast c b)
  then show ?thesis
    using assms(4) fast_in_slow [OF assms(4), of b] by (auto simp: get_bucket_agent_fast_def split: option.splits intro!: agents_idle)
next
  case (slow c b)
  have "agents_ok (s\<lparr>am_fresh := f, am_notif_map := m\<rparr>)" for f m using assms(4) by (simp add: agents_ok_def)
  then show ?thesis using slow assms(4) by (auto simp: load_begin_def Let_def split: option.splits intro!: agents_idle)
next
  case (rebuild c b)
  have "agents_ok (s\<lparr>am_fast_map := am_slow_map s\<rparr>)" using assms(4) by (simp add: agents_ok_def)
  then show ?thesis using rebuild by (simp add: rebuild_fast_map_def agents_idle)
qed (use assms(2-4) in \<open>simp_all add: await_notified_def create_agent_failed_def agents_idle agents_finish agents_create reconfigure_cluster_def
    reconfigure_buckets_def agents_reconfigure\<close>)

interpretation am: invariant_system "\<lambda>s. \<exists>opts. s = agent_manager_new opts" am_step am_inv
proof
  show "am_inv s" if "\<exists>opts. s = agent_manager_new opts" for s using that by (elim exE) (simp add: am_init)
  show "am_inv t" if "am_inv s" "am_step s t" for s t
    using that unfolding am_inv_def by (blast intro: creators_step agents_step fresh_step)
qed

text \<open>C39. All calls for a bucket get the same agent: in every interleaving of calls and reconfigurations, two calls that have returned an agent for the
  same bucket returned the same one, it was created for that bucket, and it is the one the manager keeps.\<close>

theorem one_agent_per_bucket:
  assumes "am_reachable s" and "am_calls s c = Some (b, Returned a)" and "am_calls s c' = Some (b, Returned a')"
  shows "a = a' \<and> am_slow_map s b = Some a \<and> (\<exists>g. am_store s a = Some g \<and> oa_bucket g = Some b)"
proof -
  have "agents_ok s" using am.reachable_inv [OF assms(1)] by (simp add: am_inv_def)
  then have "am_slow_map s b = Some a" "am_slow_map s b = Some a'" "\<exists>g. am_store s a = Some g \<and> oa_bucket g = Some b"
    using assms(2,3) unfolding agents_ok_def by blast+
  then show ?thesis by auto
qed

text \<open>The agent of a bucket stays.\<close>

theorem bucket_agent_stays:
  assumes "am_reachable s" and "am_step\<^sup>*\<^sup>* s t" and "am_slow_map s b = Some a"
  shows "am_slow_map t b = Some a"
  using assms(2)
proof (induction rule: rtranclp_induct)
  case (step u v)
  have "creators_ok u" using am.reachable_inv [OF reachable_steps [OF assms(1) step.hyps(1)]] by (simp add: am_inv_def)
  then have "am_slow_map u d = None" if "am_calls u c = Some (d, Created_agent n x)" for c d n x
    using that unfolding creators_ok_def worker_def by (metis works_on.simps(2))
  then show ?case using step.hyps(2) step.IH by (elim am_stepE) (fastforce simp: am_defs Let_def split: option.splits if_splits)+
qed (rule assms(3))

section \<open>Calls that never return\<close>

text \<open>A bucket is blocked when its entry is taken and nobody works on it.\<close>

definition blocked :: "string \<Rightarrow> 'opts AgentManager \<Rightarrow> bool" where
  "blocked b s \<longleftrightarrow> am_notif_map s b \<noteq> None \<and> am_slow_map s b = None \<and> am_fast_map s b = None
    \<and> (\<forall>c pc. am_calls s c = Some (b, pc) \<longrightarrow> (\<forall>a. pc \<noteq> Returned a) \<and> works_on pc = None)"

lemma blocked_set_call:
  "blocked b s \<Longrightarrow> (e = b \<longrightarrow> (\<forall>a. pc \<noteq> Returned a) \<and> works_on pc = None) \<Longrightarrow> blocked b (set_call c e pc s)"
  unfolding blocked_def by (auto simp: set_call_def)

lemma blocked_step:
  assumes "am_step s t" and "blocked b s"
  shows "blocked b t"
  using assms(1)
proof (cases rule: am_step.cases)
  case (fast c e)
  then show ?thesis using assms(2) by (auto simp: get_bucket_agent_fast_def blocked_def set_call_def split: option.splits if_splits)
next
  case (slow c e)
  then show ?thesis using assms(2) by (auto simp: load_begin_def Let_def blocked_def set_call_def split: option.splits if_splits)
next
  case (create c e n)
  then have "e \<noteq> b" using assms(2) unfolding blocked_def by (metis option.distinct(1) works_on.simps(1))
  then show ?thesis using create assms(2) by (auto simp: create_agent_def Let_def blocked_def set_call_def)
next
  case (finish c e n a)
  then have "e \<noteq> b" using assms(2) unfolding blocked_def by (metis option.distinct(1) works_on.simps(2))
  moreover have "(\<forall>x. pc \<noteq> Returned x) \<and> works_on pc = None" if "notify_bucket_waiters n (am_calls s) d = Some (b, pc)" for d pc
  proof (cases "pc = Loaded")
    case False
    then show ?thesis using notify_waiters_keeps [OF that] assms(2) unfolding blocked_def by blast
  qed simp
  ultimately show ?thesis using finish assms(2) unfolding blocked_def by (simp add: load_finish_def Let_def set_call_def)
next
  case (rebuild c e)
  then show ?thesis using assms(2) by (auto simp: rebuild_fast_map_def blocked_def set_call_def)
qed (use assms(2) in \<open>auto simp: await_notified_def create_agent_failed_def reconfigure_cluster_def reconfigure_buckets_def reconfigure_agent_def
    blocked_def set_call_def\<close>)

text \<open>A failed creation blocks its bucket for good: the entry of the notification map is left behind, so after an error of creating the agent of a
  bucket no call for that bucket returns an agent, in any continuation.\<close>

theorem failed_creation_blocks_bucket:
  assumes "am_reachable s" and "am_calls s c = Some (b, Creating n)" and "am_step\<^sup>*\<^sup>* (create_agent_failed c b e s) t"
  shows "am_calls t c' \<noteq> Some (b, Returned a)"
proof -
  have inv: "creators_ok s" "agents_ok s" "fresh_ok s" using am.reachable_inv [OF assms(1)] by (simp_all add: am_inv_def)
  have own: "worker s c b n" using assms(2) by (simp add: worker_def)
  then have maps: "am_notif_map s b = Some n" "am_slow_map s b = None" and alone: "worker s c' b m \<Longrightarrow> c' = c" for c' m
    using inv(1) unfolding creators_ok_def by (blast, blast, metis option.inject)
  have "am_fast_map s b = None" using fast_in_slow [OF inv(2), of b] maps(2) by (cases "am_fast_map s b") auto
  moreover have "\<not> am_calls s c' = Some (b, Returned a)" for c' a using inv(2) maps(2) unfolding agents_ok_def by fastforce
  moreover have "works_on pc = None" if "am_calls s c' = Some (b, pc)" "c' \<noteq> c" for c' pc
    using alone that by (cases "works_on pc") (auto simp: worker_def)
  ultimately have blocked0: "blocked b (create_agent_failed c b e s)"
    using maps unfolding blocked_def create_agent_failed_def by (auto simp: set_call_def)
  from assms(3) have "blocked b t" by (induction rule: rtranclp_induct) (use blocked0 in \<open>auto intro: blocked_step\<close>)
  then show ?thesis by (auto simp: blocked_def)
qed

text \<open>A notification is not remembered: a call that has looked up the entry and is about to wait when the agent is finished waits for ever.\<close>

definition lost :: "nat \<Rightarrow> string \<Rightarrow> nat \<Rightarrow> 'opts AgentManager \<Rightarrow> bool" where
  "lost c b n s \<longleftrightarrow> (am_calls s c = Some (b, GotNotif n) \<or> am_calls s c = Some (b, Notified_by n))
    \<and> (\<forall>c' b'. \<not> worker s c' b' n) \<and> n < am_fresh s"

lemma lost_set_call:
  "lost c b n s \<Longrightarrow> d \<noteq> c \<or> (e = b \<and> pc = Notified_by n) \<Longrightarrow> works_on pc \<noteq> Some n \<Longrightarrow> lost c b n (set_call d e pc s)"
  unfolding lost_def by (auto simp: set_call_calls)

lemma lost_step:
  assumes "am_step s t" and "lost c b n s"
  shows "lost c b n t"
  using assms(1)
proof (cases rule: am_step.cases)
  case (fast d e)
  then have "d \<noteq> c" using assms(2) by (auto simp: lost_def)
  then show ?thesis using fast assms(2) by (auto simp: get_bucket_agent_fast_def intro!: lost_set_call split: option.splits)
next
  case (slow d e)
  then have "d \<noteq> c" using assms(2) by (auto simp: lost_def)
  moreover have "lost c b n (s\<lparr>am_fresh := am_fresh s + 1, am_notif_map := m\<rparr>)" for m using assms(2) by (auto simp: lost_def)
  moreover have "n \<noteq> am_fresh s" using assms(2) by (auto simp: lost_def)
  ultimately show ?thesis using slow assms(2) by (auto simp: load_begin_def Let_def intro!: lost_set_call split: option.splits)
next
  case (wait d e m)
  moreover have "d \<noteq> c \<or> (e = b \<and> m = n)" using wait assms(2) by (auto simp: lost_def)
  ultimately show ?thesis using assms(2) by (auto simp: await_notified_def lost_set_call)
next
  case (create d e m)
  then have "worker s d e m" by (simp add: worker_def)
  then have "d \<noteq> c" "m \<noteq> n" using create assms(2) by (auto simp: lost_def)
  moreover have "lost c b n (s\<lparr>am_fresh := am_fresh s + 1, am_store := st\<rparr>)" for st using assms(2) by (auto simp: lost_def)
  ultimately show ?thesis using create by (simp add: create_agent_def Let_def lost_set_call)
next
  case (finish d e m a)
  then have "worker s d e m" by (simp add: worker_def)
  then have d: "d \<noteq> c" "m \<noteq> n" using finish assms(2) by (auto simp: lost_def)
  have "lost c b n (s\<lparr>am_slow_map := x, am_notif_map := y, am_calls := notify_bucket_waiters m (am_calls s)\<rparr>)" for x y
    using assms(2) d(2) unfolding lost_def worker_notify by (auto simp: notify_bucket_waiters_def)
  then show ?thesis using finish d by (simp add: load_finish_def Let_def lost_set_call)
next
  case (rebuild d e)
  then have "d \<noteq> c" using assms(2) by (auto simp: lost_def)
  moreover have "lost c b n (s\<lparr>am_fast_map := am_slow_map s\<rparr>)" using assms(2) by (auto simp: lost_def)
  ultimately show ?thesis using rebuild by (simp add: rebuild_fast_map_def lost_set_call)
next
  case (fail d e m x)
  moreover have "d \<noteq> c" using fail assms(2) by (auto simp: lost_def)
  ultimately show ?thesis using assms(2) by (simp add: create_agent_failed_def lost_set_call)
next
  case (call d e)
  moreover have "d \<noteq> c" using call assms(2) by (auto simp: lost_def)
  ultimately show ?thesis using assms(2) by (simp add: lost_set_call)
qed (use assms(2) in \<open>auto simp: lost_def reconfigure_cluster_def reconfigure_buckets_def reconfigure_agent_def\<close>)

theorem notification_lost:
  assumes "am_reachable s" and "am_calls s c = Some (b, Created_agent n a)" and "am_calls s c' = Some (b, GotNotif n)"
    and "am_step\<^sup>*\<^sup>* (load_finish c b n a s) t"
  shows "am_calls t c' = Some (b, GotNotif n) \<or> am_calls t c' = Some (b, Notified_by n)"
proof -
  have inv: "creators_ok s" "fresh_ok s" using am.reachable_inv [OF assms(1)] by (simp_all add: am_inv_def)
  have own: "worker s c b n" using assms(2) by (simp add: worker_def)
  then have "n < am_fresh s" using inv unfolding creators_ok_def fresh_ok_def by blast
  moreover have "\<not> worker (load_finish c b n a s) d e n" for d e
    using inv(1) own unfolding creators_ok_def by (auto simp: load_finish_def Let_def worker_notify)
  ultimately have lost0: "lost c' b n (load_finish c b n a s)"
    using assms(2,3) by (auto simp: lost_def load_finish_def Let_def set_call_def notify_bucket_waiters_def)
  from assms(4) have "lost c' b n t" by (induction rule: rtranclp_induct) (use lost0 in \<open>auto intro: lost_step\<close>)
  then show ?thesis by (simp add: lost_def)
qed

text \<open>Reconfiguring does not reach the options the manager creates agents with: an agent made later has the old ones.\<close>

theorem late_agent_has_old_options:
  assumes "am_reachable s" and "am_calls s c = Some (b, Creating n)"
  shows "am_store (create_agent c b n (reconfigure_buckets new s)) (am_fresh s) = Some \<lparr>oa_bucket = Some b, oa_opts = am_opts s\<rparr>"
  by (simp add: create_agent_def reconfigure_buckets_def reconfigure_agent_def Let_def)

section \<open>A run\<close>

text \<open>A first call creates the agent, a second one finds it in the fast map.\<close>

definition am_run :: "(nat AgentManager \<Rightarrow> nat AgentManager) list \<Rightarrow> nat AgentManager" where
  "am_run fs = fold (\<lambda>f. f) fs (agent_manager_new 0)"

lemma am_reach_creating:
  "am_reachable (am_run [set_call 0 ''b'' AtFast, get_bucket_agent_fast 0 ''b'', load_begin 0 ''b''])"
  "am_calls (am_run [set_call 0 ''b'' AtFast, get_bucket_agent_fast 0 ''b'', load_begin 0 ''b'']) 0 = Some (''b'', Creating 1)"
proof -
  let ?s0 = "agent_manager_new 0 :: nat AgentManager" let ?s1 = "set_call 0 ''b'' AtFast ?s0" let ?s2 = "get_bucket_agent_fast 0 ''b'' ?s1"
  have "am_reachable ?s0" by (rule reachable.start) blast
  then have "am_reachable ?s1" by (rule reachable.trans) (rule am_step.call, simp add: agent_manager_new_def)
  then have "am_reachable ?s2" by (rule reachable.trans) (rule am_step.fast, simp add: set_call_def)
  then have "am_reachable (load_begin 0 ''b'' ?s2)" by (rule reachable.trans) (rule am_step.slow, simp add: am_defs agent_manager_new_def)
  then show "am_reachable (am_run [set_call 0 ''b'' AtFast, get_bucket_agent_fast 0 ''b'', load_begin 0 ''b''])" by (simp add: am_run_def)
  show "am_calls (am_run [set_call 0 ''b'' AtFast, get_bucket_agent_fast 0 ''b'', load_begin 0 ''b'']) 0 = Some (''b'', Creating 1)"
    by (simp add: am_run_def am_defs agent_manager_new_def Let_def)
qed

theorem failed_creation_blocks_bucket_witness:
  "am_calls (create_agent_failed 0 ''b'' (core_message_error ''down'')
      (am_run [set_call 0 ''b'' AtFast, get_bucket_agent_fast 0 ''b'', load_begin 0 ''b''])) 1 \<noteq> Some (''b'', Returned 2)"
  by (rule failed_creation_blocks_bucket [OF am_reach_creating rtranclp.rtrancl_refl])

abbreviation am_creating :: "nat AgentManager" where
  "am_creating \<equiv> am_run [set_call 0 ''b'' AtFast, get_bucket_agent_fast 0 ''b'', load_begin 0 ''b'']"

definition am_served :: "nat AgentManager" where
  "am_served = get_bucket_agent_fast 1 ''b'' (set_call 1 ''b'' AtFast (get_bucket_agent_fast 0 ''b'' (rebuild_fast_map 0 ''b''
    (load_finish 0 ''b'' 1 2 (create_agent 0 ''b'' 1 am_creating)))))"

lemma am_served_reachable: "am_reachable am_served"
proof -
  let ?s4 = "create_agent 0 ''b'' 1 am_creating" let ?s5 = "load_finish 0 ''b'' 1 2 ?s4" let ?s6 = "rebuild_fast_map 0 ''b'' ?s5"
  let ?s7 = "get_bucket_agent_fast 0 ''b'' ?s6" let ?s8 = "set_call 1 ''b'' AtFast ?s7"
  note defs = am_run_def am_defs agent_manager_new_def Let_def notify_bucket_waiters_def
  have "am_reachable ?s4" by (rule reachable.trans [OF am_reach_creating(1)]) (rule am_step.create, rule am_reach_creating(2))
  then have "am_reachable ?s5" by (rule reachable.trans) (rule am_step.finish, simp add: defs)
  then have "am_reachable ?s6" by (rule reachable.trans) (rule am_step.rebuild, simp add: defs)
  then have "am_reachable ?s7" by (rule reachable.trans) (rule am_step.fast, simp add: defs)
  then have "am_reachable ?s8" by (rule reachable.trans) (rule am_step.call, simp add: defs)
  then show ?thesis unfolding am_served_def by (rule reachable.trans) (rule am_step.fast, simp add: defs)
qed

theorem one_agent_per_bucket_witness:
  "2 = (2 :: nat) \<and> am_slow_map am_served ''b'' = Some 2 \<and> (\<exists>g. am_store am_served 2 = Some g \<and> oa_bucket g = Some ''b'')"
  by (rule one_agent_per_bucket [OF am_served_reachable, of 0 _ _ 1])
    (simp_all add: am_served_def am_run_def am_defs agent_manager_new_def Let_def notify_bucket_waiters_def)

end
