(* ===== verification/Durations.thy ===== *)
theory Durations
  imports Decimal
begin

text \<open>
  Durations in the notation of Go (\<^verbatim>\<open>helpers/durations.rs\<close>): the parser and the printer. Durations are counted in nanoseconds; the 64-bit
  integers of the code are natural numbers with their bound written out, and \<open>checks\<close> says whether the build panics on overflow or wraps. The
  product of a fraction with its unit is computed in floating point: \<open>frac f unit e\<close> is what \<open>f \<cdot> (unit / 10\<^sup>e)\<close> gives there as an
  integer, or \<open>None\<close> when it is above the range. The scale itself, a power of ten with exponent at most 20, is exact.
\<close>

section \<open>Parsing\<close>

abbreviation u64_max :: nat where "u64_max \<equiv> 2 ^ 64 - 1"

definition micro :: string where "micro = [CHR 0xC2, CHR 0xB5]"
definition greek_mu :: string where "greek_mu = [CHR 0xCE, CHR 0xBC]"

definition unit_map :: "string \<rightharpoonup> nat" where
  "unit_map = map_of
    [(''ns'', 1), (''us'', 1000), (micro @ ''s'', 1000), (greek_mu @ ''s'', 1000), (''ms'', 1000000), (''s'', 1000000000),
     (''m'', 60000000000), (''h'', 3600000000000)]"

definition quote :: "string \<Rightarrow> string" where
  "quote s = [CHR 0x22] @ s @ [CHR 0x22]"

definition wrap_u64 :: "bool \<Rightarrow> nat \<Rightarrow> ('e, nat) result" where
  "wrap_u64 checks n = (if n \<le> u64_max then Ok n else if checks then Panic else Ok (n mod 2 ^ 64))"

fun leading_int :: "bool \<Rightarrow> nat \<Rightarrow> string \<Rightarrow> (string, nat \<times> string) result" where
  "leading_int checks x [] = Ok (x, [])"
| "leading_int checks x (c # s) =
    (if \<not> is_digit c then Ok (x, c # s)
     else if x > u64_max div 10 then Err ''bad [0-9]*''
     else
       (case wrap_u64 checks (x * 10 + digit_value c) of
          Ok y \<Rightarrow> leading_int checks y s
        | Err e \<Rightarrow> Err e
        | Panic \<Rightarrow> Panic))"

fun leading_fraction :: "bool \<Rightarrow> nat \<Rightarrow> nat \<Rightarrow> bool \<Rightarrow> string \<Rightarrow> (string, nat \<times> nat \<times> string) result" where
  "leading_fraction checks x e overflow [] = Ok (x, e, [])"
| "leading_fraction checks x e overflow (c # s) =
    (if \<not> is_digit c then Ok (x, e, c # s)
     else if overflow then leading_fraction checks x e overflow s
     else if x > (u64_max - 1) div 10 then leading_fraction checks x e True s
     else
       (case wrap_u64 checks (x * 10 + digit_value c) of
          Ok y \<Rightarrow> leading_fraction checks y (e + 1) overflow s
        | Err m \<Rightarrow> Err m
        | Panic \<Rightarrow> Panic))"

definition number_char :: "char \<Rightarrow> bool" where
  "number_char c \<longleftrightarrow> is_digit c \<or> c = CHR ''.''"

text \<open>The optional fraction: its digits, their number, the rest, and whether there was a digit.\<close>

definition duration_fraction :: "bool \<Rightarrow> string \<Rightarrow> (string, nat \<times> nat \<times> string \<times> bool) result" where
  "duration_fraction checks s =
    (if s \<noteq> [] \<and> hd s = CHR ''.'' then
       and_then (leading_fraction checks 0 0 False (tl s)) (\<lambda>(f, e, r). Ok (f, e, r, length (tl s) \<noteq> length r))
     else Ok (0, 0, s, False))"

text \<open>The unit and what number, fraction and unit amount to.\<close>

definition duration_unit ::
  "bool \<Rightarrow> (nat \<Rightarrow> nat \<Rightarrow> nat \<Rightarrow> nat option) \<Rightarrow> string \<Rightarrow> nat \<Rightarrow> nat \<Rightarrow> nat \<Rightarrow> string \<Rightarrow> (string, nat \<times> string) result" where
  "duration_unit checks frac orig v f e s =
    (let u = takeWhile (\<lambda>c. \<not> number_char c) s; rest = dropWhile (\<lambda>c. \<not> number_char c) s in
     if u = [] then Err (''missing unit in duration '' @ quote orig)
     else
       (case unit_map u of
          None \<Rightarrow> Err (''unknown unit '' @ quote u @ '' in duration '' @ quote orig)
        | Some unit \<Rightarrow>
            if v > u64_max div unit then Err (''invalid duration '' @ quote orig)
            else if f > 0 then
              (case frac f unit e of
                 None \<Rightarrow> Err (''invalid duration '' @ quote orig)
               | Some vf \<Rightarrow> and_then (wrap_u64 checks (v * unit + vf)) (\<lambda>v. Ok (v, rest)))
            else Ok (v * unit, rest)))"

text \<open>One turn of the loop: a number, an optional fraction and a unit; the nanoseconds and the rest.\<close>

definition duration_part ::
  "bool \<Rightarrow> (nat \<Rightarrow> nat \<Rightarrow> nat \<Rightarrow> nat option) \<Rightarrow> string \<Rightarrow> string \<Rightarrow> (string, nat \<times> string) result" where
  "duration_part checks frac orig s =
    (if s = [] \<or> \<not> number_char (hd s) then Err (''invalid duration '' @ quote orig)
     else
       and_then (leading_int checks 0 s) (\<lambda>(v, s1).
       and_then (duration_fraction checks s1) (\<lambda>(f, e, s2, after).
       if length s = length s1 \<and> \<not> after then Err (''invalid duration '' @ quote orig)
       else duration_unit checks frac orig v f e s2)))"

lemma leading_int_length: "leading_int checks x s = Ok (v, r) \<Longrightarrow> length r \<le> length s"
  by (induction checks x s rule: leading_int.induct) (fastforce split: if_splits result.splits)+

lemma leading_fraction_length: "leading_fraction checks x e overflow s = Ok (v, e', r) \<Longrightarrow> length r \<le> length s"
  by (induction checks x e overflow s rule: leading_fraction.induct) (fastforce split: if_splits result.splits)+

lemma and_then_Ok: "and_then r f = Ok b \<longleftrightarrow> (\<exists>a. r = Ok a \<and> f a = Ok b)"
  by (cases r) auto

lemma duration_unit_length:
  assumes "duration_unit checks frac orig v f e s = Ok (x, r)"
  shows "length r < length s"
proof -
  have "takeWhile (\<lambda>c. \<not> number_char c) s \<noteq> []" "r = dropWhile (\<lambda>c. \<not> number_char c) s"
    using assms by (auto simp: duration_unit_def Let_def and_then_Ok split: if_splits option.splits)
  moreover have "length s = length (takeWhile (\<lambda>c. \<not> number_char c) s) + length (dropWhile (\<lambda>c. \<not> number_char c) s)"
    by (metis length_append takeWhile_dropWhile_id)
  ultimately show ?thesis by (cases "takeWhile (\<lambda>c. \<not> number_char c) s") auto
qed

lemma duration_part_length:
  assumes "duration_part checks frac orig s = Ok (v, r)"
  shows "length r < length s"
proof -
  obtain v1 s1 f e s2 after where 1: "leading_int checks 0 s = Ok (v1, s1)" and 2: "duration_fraction checks s1 = Ok (f, e, s2, after)"
      and 3: "duration_unit checks frac orig v1 f e s2 = Ok (v, r)"
    using assms unfolding duration_part_def by (auto simp: and_then_Ok split: if_splits)
  have "length s2 \<le> length s1"
    using 2 by (auto simp: duration_fraction_def and_then_Ok dest!: leading_fraction_length split: if_splits)
  then show ?thesis using leading_int_length [OF 1] duration_unit_length [OF 3] by simp
qed

function duration_loop :: "bool \<Rightarrow> (nat \<Rightarrow> nat \<Rightarrow> nat \<Rightarrow> nat option) \<Rightarrow> string \<Rightarrow> nat \<Rightarrow> string \<Rightarrow> (string, nat) result" where
  "duration_loop checks frac orig d s =
    (if s = [] then Ok d
     else
       (case duration_part checks frac orig s of
          Err e \<Rightarrow> Err e
        | Panic \<Rightarrow> Panic
        | Ok (v, rest) \<Rightarrow> if d + v \<le> u64_max then duration_loop checks frac orig (d + v) rest else Err (''invalid duration '' @ quote orig)))"
  by pat_completeness auto
termination
  by (relation "measure (\<lambda>(_, _, _, _, s). length s)") (auto dest: duration_part_length)

declare duration_loop.simps [simp del]

definition parse_duration_from_golang_string :: "bool \<Rightarrow> (nat \<Rightarrow> nat \<Rightarrow> nat \<Rightarrow> nat option) \<Rightarrow> string \<Rightarrow> (string, nat) result" where
  "parse_duration_from_golang_string checks frac orig =
    (if orig \<noteq> [] \<and> hd orig = CHR ''-'' then Err (''invalid negative duration '' @ quote orig)
     else
       let s = (if orig \<noteq> [] \<and> hd orig = CHR ''+'' then tl orig else orig) in
       if s = ''0'' then Ok 0
       else if s = [] then Err (''invalid duration '' @ quote orig)
       else duration_loop checks frac orig 0 s)"

section \<open>Printing\<close>

text \<open>The printer fills a buffer of 32 bytes from its end; \<open>buf\<close> is the part that is filled.\<close>

fun fmt_frac_loop :: "nat \<Rightarrow> bool \<Rightarrow> string \<Rightarrow> nat \<Rightarrow> bool \<times> string \<times> nat" where
  "fmt_frac_loop 0 print buf v = (print, buf, v)"
| "fmt_frac_loop (Suc n) print buf v =
    (let digit = v mod 10; print = print \<or> digit \<noteq> 0 in
     fmt_frac_loop n print (if print then char_of (48 + digit) # buf else buf) (v div 10))"

definition fmt_frac :: "string \<Rightarrow> nat \<Rightarrow> nat \<Rightarrow> string \<times> nat" where
  "fmt_frac buf v prec = (case fmt_frac_loop prec False buf v of (print, buf, v) \<Rightarrow> (if print then CHR ''.'' # buf else buf, v))"

fun fmt_int_loop :: "string \<Rightarrow> nat \<Rightarrow> string" where
  "fmt_int_loop buf v = (if v > 0 then fmt_int_loop (char_of (48 + v mod 10) # buf) (v div 10) else buf)"

declare fmt_int_loop.simps [simp del]

definition fmt_int :: "string \<Rightarrow> nat \<Rightarrow> string" where
  "fmt_int buf v = (if v = 0 then CHR ''0'' # buf else fmt_int_loop buf v)"

definition duration_to_golang_string :: "nat \<Rightarrow> string" where
  "duration_to_golang_string nanos =
    (let u = nanos mod 2 ^ 64 in
     if u < 1000000000 then
       if u = 0 then ''0s''
       else
         let (prec, unit) = (if u < 1000 then (0, ''ns'') else if u < 1000000 then (3, micro @ ''s'') else (6, ''ms''));
             (buf, u) = fmt_frac unit u prec in
         fmt_int buf u
     else
       let (buf, u) = fmt_frac ''s'' u 9;
           buf = fmt_int buf (u mod 60);
           u = u div 60 in
       if u > 0 then
         let buf = fmt_int (CHR ''m'' # buf) (u mod 60);
             u = u div 60 in
         if u > 0 then fmt_int (CHR ''h'' # buf) u else buf
       else buf)"

section \<open>Digits\<close>

abbreviation digits_value :: "nat \<Rightarrow> string \<Rightarrow> nat" where
  "digits_value x ds \<equiv> foldl (\<lambda>n c. 10 * n + digit_value c) x ds"

lemma digits_value_ge: "x \<le> digits_value x ds"
proof (induction ds arbitrary: x)
  case (Cons c ds)
  have "x \<le> 10 * x + digit_value c" by simp
  also have "\<dots> \<le> digits_value (10 * x + digit_value c) ds" by (rule Cons.IH)
  finally show ?case by simp
qed simp

lemma wrap_u64_Ok [simp]: "n < 2 ^ 64 \<Longrightarrow> wrap_u64 checks n = Ok n"
  by (simp add: wrap_u64_def)

lemma leading_int_digits:
  "list_all is_digit ds \<Longrightarrow> digits_value x ds < 2 ^ 64 \<Longrightarrow> r = [] \<or> \<not> is_digit (hd r) \<Longrightarrow> leading_int checks x (ds @ r) = Ok (digits_value x ds, r)"
proof (induction ds arbitrary: x)
  case Nil
  then show ?case by (cases r) auto
next
  case (Cons c ds)
  have "10 * x + digit_value c < 2 ^ 64" using Cons.prems(2) digits_value_ge [of "10 * x + digit_value c" ds] by simp
  moreover from this have "x \<le> u64_max div 10" by simp
  ultimately show ?case using Cons by (simp add: mult.commute)
qed

lemma leading_fraction_digits:
  "list_all is_digit ds \<Longrightarrow> digits_value x ds < 2 ^ 63 \<Longrightarrow> r = [] \<or> \<not> is_digit (hd r) \<Longrightarrow>
    leading_fraction checks x e False (ds @ r) = Ok (digits_value x ds, e + length ds, r)"
proof (induction ds arbitrary: x e)
  case Nil
  then show ?case by (cases r) auto
next
  case (Cons c ds)
  have "10 * x + digit_value c < 2 ^ 63" using Cons.prems(2) digits_value_ge [of "10 * x + digit_value c" ds] by simp
  moreover from this have "x \<le> (u64_max - 1) div 10" by simp
  ultimately show ?case using Cons by (simp add: mult.commute)
qed

lemma fmt_int_show: "fmt_int buf v = show_nat v @ buf"
proof -
  have "v > 0 \<Longrightarrow> fmt_int_loop buf v = show_nat v @ buf" for buf
  proof (induction v arbitrary: buf rule: less_induct)
    case (less v)
    have zero: "fmt_int_loop b 0 = b" for b by (simp add: fmt_int_loop.simps)
    show ?case
      using less zero by (cases "v < 10") (simp_all add: fmt_int_loop.simps [of _ v] show_nat.simps [of v])
  qed
  then show ?thesis by (cases "v = 0") (simp_all add: fmt_int_def show_nat.simps [of 0] char_of_def bit_0)
qed

lemma fmt_frac_loop_digits:
  "\<exists>ds. fmt_frac_loop n print buf v = (print \<or> v mod 10 ^ n \<noteq> 0, ds @ buf, v div 10 ^ n) \<and> list_all is_digit ds \<and> length ds \<le> n
    \<and> digits_value 0 ds * 10 ^ (n - length ds) = v mod 10 ^ n \<and> (print \<longrightarrow> length ds = n) \<and> (\<not> print \<longrightarrow> v mod 10 ^ n = 0 \<longrightarrow> ds = [])"
proof (induction n arbitrary: print buf v)
  case (Suc n)
  let ?digit = "v mod 10" let ?print = "print \<or> ?digit \<noteq> 0"
  obtain ds where ds: "fmt_frac_loop n ?print (if ?print then char_of (48 + ?digit) # buf else buf) (v div 10)
        = (?print \<or> v div 10 mod 10 ^ n \<noteq> 0, ds @ (if ?print then char_of (48 + ?digit) # buf else buf), v div 10 div 10 ^ n)"
      "list_all is_digit ds" "length ds \<le> n" "digits_value 0 ds * 10 ^ (n - length ds) = v div 10 mod 10 ^ n" "?print \<longrightarrow> length ds = n"
      "\<not> ?print \<longrightarrow> v div 10 mod 10 ^ n = 0 \<longrightarrow> ds = []"
    using Suc.IH [of ?print "if ?print then char_of (48 + ?digit) # buf else buf" "v div 10"] by (elim exE conjE) metis
  have m: "v mod 10 ^ Suc n = 10 * (v div 10 mod 10 ^ n) + v mod 10" by (simp add: mod_mult2_eq)
  have q: "v div 10 div 10 ^ n = v div 10 ^ Suc n" by (simp add: div_mult2_eq)
  show ?case
  proof (cases ?print)
    case True
    have len: "length ds = n" and val: "digits_value 0 ds = v div 10 mod 10 ^ n" using ds(4,5) True by auto
    have "list_all is_digit (ds @ [char_of (48 + ?digit)])" "digits_value 0 (ds @ [char_of (48 + ?digit)]) = v mod 10 ^ Suc n"
      using ds(2) val digit_char [of ?digit] m by simp_all
    then show ?thesis
      using ds(1) len True q m by (intro exI [of _ "ds @ [char_of (48 + ?digit)]"]) auto
  next
    case False
    have "10 ^ (Suc n - length ds) = 10 * (10 :: nat) ^ (n - length ds)" using ds(3) by (simp add: Suc_diff_le)
    then show ?thesis
      using ds False q m by (intro exI [of _ ds]) (auto simp: Let_def)
  qed
qed simp

lemma fmt_frac_digits:
  "\<exists>ds. fmt_frac buf v prec = ((if v mod 10 ^ prec = 0 then [] else CHR ''.'' # ds) @ buf, v div 10 ^ prec)
    \<and> list_all is_digit ds \<and> length ds \<le> prec \<and> digits_value 0 ds * 10 ^ (prec - length ds) = v mod 10 ^ prec \<and> (v mod 10 ^ prec \<noteq> 0 \<longrightarrow> ds \<noteq> [])"
proof -
  obtain ds where "fmt_frac_loop prec False buf v = (v mod 10 ^ prec \<noteq> 0, ds @ buf, v div 10 ^ prec)" "list_all is_digit ds" "length ds \<le> prec"
      "digits_value 0 ds * 10 ^ (prec - length ds) = v mod 10 ^ prec" "v mod 10 ^ prec = 0 \<longrightarrow> ds = []"
    using fmt_frac_loop_digits [of prec False buf v] by auto
  then show ?thesis by (intro exI [of _ ds]) (auto simp: fmt_frac_def)
qed

section \<open>Round trip\<close>

text \<open>Floating point is exact as long as the numbers fit into its mantissa.\<close>

definition frac_exact :: "(nat \<Rightarrow> nat \<Rightarrow> nat \<Rightarrow> nat option) \<Rightarrow> bool" where
  "frac_exact frac \<longleftrightarrow> (\<forall>f unit e. 10 ^ e dvd unit \<longrightarrow> f * (unit div 10 ^ e) < 2 ^ 53 \<longrightarrow> frac f unit e = Some (f * (unit div 10 ^ e)))"

definition unit_text :: "string \<Rightarrow> bool" where
  "unit_text u \<longleftrightarrow> u \<noteq> [] \<and> list_all (\<lambda>c. \<not> number_char c) u"

lemma show_nat_hd: "\<exists>d ds. show_nat n = d # ds \<and> is_digit d"
  using show_nat_digits [of n] by (cases "show_nat n") auto

lemma unit_split:
  assumes "unit_text u" and "r = [] \<or> number_char (hd r)"
  shows "takeWhile (\<lambda>c. \<not> number_char c) (u @ r) = u" and "dropWhile (\<lambda>c. \<not> number_char c) (u @ r) = r"
proof -
  have u: "\<forall>c \<in> set u. \<not> number_char c" using assms(1) by (simp add: unit_text_def list_all_iff)
  then show "takeWhile (\<lambda>c. \<not> number_char c) (u @ r) = u" using assms(2) by (cases r) (auto simp: takeWhile_append takeWhile_eq_all_conv)
  show "dropWhile (\<lambda>c. \<not> number_char c) (u @ r) = r" using u assms(2) by (cases r) (auto simp: dropWhile_append)
qed

lemma digits_show: "digits_value 0 (show_nat n) = n"
  by (rule show_nat_value)

lemma factor_le: "v * m \<le> b \<Longrightarrow> 0 < m \<Longrightarrow> v \<le> (b :: nat)"
  by (cases m) auto

lemma duration_part_plain:
  assumes "unit_text u" and "unit_map u = Some unit" and "v * unit \<le> u64_max" and "0 < unit" and "r = [] \<or> number_char (hd r)"
  shows "duration_part checks frac orig (show_nat v @ u @ r) = Ok (v * unit, r)"
proof -
  obtain d ds where s: "show_nat v = d # ds" "is_digit d" using show_nat_hd by blast
  obtain c cs where u: "u = c # cs" "\<not> number_char c" using assms(1) by (cases u) (auto simp: unit_text_def)
  have "v * unit \<le> u64_max" using assms(3) by simp
  then have v: "v < 2 ^ 64" using factor_le assms(4) by fastforce
  have int: "leading_int checks 0 (show_nat v @ u @ r) = Ok (v, u @ r)"
    using leading_int_digits [of "show_nat v" 0 "u @ r" checks] show_nat_digits [of v] v u by (simp add: digits_show number_char_def)
  have le: "v \<le> u64_max div unit" using assms(3,4) by (simp add: less_eq_div_iff_mult_less_eq)
  have "show_nat v @ u @ r \<noteq> []" "number_char (hd (show_nat v @ u @ r))" "hd (u @ r) \<noteq> CHR ''.''" "length (show_nat v @ u @ r) \<noteq> length (u @ r)"
    using s u by (auto simp: number_char_def)
  moreover have "duration_unit checks frac orig v 0 0 (u @ r) = Ok (v * unit, r)"
    using unit_split [OF assms(1,5)] le assms(2) u by (simp add: duration_unit_def Let_def)
  ultimately show ?thesis using int by (simp add: duration_part_def duration_fraction_def)
qed

lemma duration_part_frac:
  assumes "unit_text u" and "unit_map u = Some unit" and "v * unit + f * (unit div 10 ^ length ds) \<le> u64_max" and "0 < unit"
    and "list_all is_digit ds" and "ds \<noteq> []" and "digits_value 0 ds = f" and "10 ^ length ds dvd unit" and "f * (unit div 10 ^ length ds) < 2 ^ 53"
    and "frac_exact frac" and "f < 2 ^ 63"
  shows "duration_part checks frac orig (show_nat v @ CHR ''.'' # ds @ u) = Ok (v * unit + f * (unit div 10 ^ length ds), [])"
proof -
  obtain d' ds' where s: "show_nat v = d' # ds'" "is_digit d'" using show_nat_hd by blast
  obtain c cs where u: "u = c # cs" "\<not> number_char c" using assms(1) by (cases u) (auto simp: unit_text_def)
  have "v * unit \<le> u64_max" using assms(3) by simp
  then have v: "v < 2 ^ 64" using factor_le assms(4) by fastforce
  have int: "leading_int checks 0 (show_nat v @ CHR ''.'' # ds @ u) = Ok (v, CHR ''.'' # ds @ u)"
    using leading_int_digits [of "show_nat v" 0 "CHR ''.'' # ds @ u" checks] show_nat_digits [of v] v by (simp add: digits_show is_digit_def)
  have fraction: "leading_fraction checks 0 0 False (ds @ u) = Ok (f, length ds, u)"
    using leading_fraction_digits [of ds 0 u checks 0] assms(5,7,11) u by (simp add: number_char_def)
  have "v * unit \<le> u64_max" using assms(3) by simp
  then have le: "v \<le> u64_max div unit" using assms(4) by (simp add: less_eq_div_iff_mult_less_eq)
  have fr: "frac f unit (length ds) = Some (f * (unit div 10 ^ length ds))" using assms(8-10) by (simp add: frac_exact_def)
  have "show_nat v @ CHR ''.'' # ds @ u \<noteq> []" "number_char (hd (show_nat v @ CHR ''.'' # ds @ u))"
      "length (show_nat v @ CHR ''.'' # ds @ u) \<noteq> length (CHR ''.'' # ds @ u)"
    using s by (auto simp: number_char_def)
  moreover have "wrap_u64 checks (v * unit + f * (unit div 10 ^ length ds)) = (Ok (v * unit + f * (unit div 10 ^ length ds)) :: (string, nat) result)"
    using assms(3) by (simp add: wrap_u64_def)
  then have "duration_unit checks frac orig v f (length ds) u = Ok (v * unit + f * (unit div 10 ^ length ds), [])"
    using le assms(2) u fr unfolding duration_unit_def Let_def unit_split [OF assms(1), of "[]", unfolded append_Nil2, OF disjI1, OF refl] by auto
  ultimately show ?thesis
    using int fraction by (simp add: duration_part_def duration_fraction_def)
qed

lemma units:
  "unit_text ''ns''" "unit_text (micro @ ''s'')" "unit_text ''ms''" "unit_text ''s''" "unit_text ''m''" "unit_text ''h''"
  "unit_map ''ns'' = Some 1" "unit_map (micro @ ''s'') = Some 1000" "unit_map ''ms'' = Some 1000000" "unit_map ''s'' = Some 1000000000"
  "unit_map ''m'' = Some 60000000000" "unit_map ''h'' = Some 3600000000000"
  by (simp_all add: unit_text_def unit_map_def micro_def greek_mu_def number_char_def is_digit_def)

text \<open>A number with the decimal places of its unit, as the printer writes it.\<close>

lemma duration_part_printed:
  assumes "unit_text u" and "unit_map u = Some (10 ^ prec)" and "prec \<le> 9" and "w * 10 ^ prec + v mod 10 ^ prec < 2 ^ 64" and "frac_exact frac"
  shows "duration_part checks frac orig (fmt_int (fst (fmt_frac u v prec)) w) = Ok (w * 10 ^ prec + v mod 10 ^ prec, [])"
proof -
  obtain ds where buf: "fst (fmt_frac u v prec) = (if v mod 10 ^ prec = 0 then [] else CHR ''.'' # ds) @ u"
    and ds: "list_all is_digit ds" "length ds \<le> prec" "digits_value 0 ds * 10 ^ (prec - length ds) = v mod 10 ^ prec" "v mod 10 ^ prec \<noteq> 0 \<longrightarrow> ds \<noteq> []"
    using fmt_frac_digits [of u v prec] by auto
  show ?thesis
  proof (cases "v mod 10 ^ prec = 0")
    case True
    then show ?thesis
      using duration_part_plain [OF assms(1,2), of w "[]" checks frac orig] assms(4) by (simp add: fmt_int_show buf)
  next
    case False
    have div: "(10 :: nat) ^ prec div 10 ^ length ds = 10 ^ (prec - length ds)" "(10 :: nat) ^ length ds dvd 10 ^ prec"
      using ds(2) by (simp_all add: power_diff le_imp_power_dvd)
    have "(10 :: nat) ^ prec \<le> 10 ^ 9" using assms(3) by (intro power_increasing) simp_all
    moreover have "v mod 10 ^ prec < 10 ^ prec" by simp
    ultimately have m: "v mod 10 ^ prec < 10 ^ 9" by (rule less_le_trans [rotated])
    have f: "digits_value 0 ds \<le> v mod 10 ^ prec" unfolding ds(3) [symmetric] by simp
    show ?thesis
      using duration_part_frac [OF assms(1,2), of w "digits_value 0 ds" ds frac checks orig] ds(1,3,4) False div m f assms(4,5)
      by (simp add: fmt_int_show buf)
  qed
qed

lemma duration_loop_last:
  assumes "duration_part checks frac orig s = Ok (v, [])" and "d + v \<le> u64_max"
  shows "duration_loop checks frac orig d s = Ok (d + v)"
proof -
  have "s \<noteq> []" using duration_part_length [OF assms(1)] by auto
  then show ?thesis using assms by (simp add: duration_loop.simps [of _ _ _ _ s] duration_loop.simps [of _ _ _ _ "[]"])
qed

lemma duration_loop_next:
  assumes "duration_part checks frac orig s = Ok (v, r)" and "d + v \<le> u64_max"
  shows "duration_loop checks frac orig d s = duration_loop checks frac orig (d + v) r"
proof -
  have "s \<noteq> []" using duration_part_length [OF assms(1)] by auto
  then show ?thesis using assms by (simp add: duration_loop.simps [of _ _ _ _ s])
qed

lemma fmt_int_number: "number_char (hd (fmt_int buf n))" and fmt_int_nonempty: "fmt_int buf n \<noteq> []"
  using show_nat_hd [of n] by (auto simp: fmt_int_show number_char_def)

lemma fmt_int_not_zero: "buf \<noteq> [] \<Longrightarrow> fmt_int buf n \<noteq> ''0''"
  using show_nat_digits [of n] by (cases "show_nat n") (auto simp: fmt_int_show)

lemma parse_printed_loop:
  assumes "buf \<noteq> []"
  shows "parse_duration_from_golang_string checks frac (fmt_int buf n) = duration_loop checks frac (fmt_int buf n) 0 (fmt_int buf n)"
proof -
  have "hd (fmt_int buf n) \<noteq> CHR ''-''" "hd (fmt_int buf n) \<noteq> CHR ''+''" using fmt_int_number [of buf n] by (auto simp: number_char_def is_digit_def)
  then show ?thesis using fmt_int_nonempty [of buf n] fmt_int_not_zero [OF assms, of n] by (simp add: parse_duration_from_golang_string_def Let_def)
qed

lemma fmt_frac_rest: "snd (fmt_frac buf v prec) = v div 10 ^ prec" and fmt_frac_nonempty: "buf \<noteq> [] \<Longrightarrow> fst (fmt_frac buf v prec) \<noteq> []"
  using fmt_frac_digits [of buf v prec] by auto

text \<open>Seconds with nine places, then minutes, then hours, each after the sum \<open>d\<close> of the larger units.\<close>

lemma parse_seconds:
  assumes "frac_exact frac" and "d + (w * 10 ^ 9 + v mod 10 ^ 9) < 2 ^ 64"
  shows "duration_loop checks frac orig d (fmt_int (fst (fmt_frac ''s'' v 9)) w) = Ok (d + (w * 10 ^ 9 + v mod 10 ^ 9))"
  using duration_part_printed [of "''s''" 9 w v frac checks orig] assms units(4,10)
  by (intro duration_loop_last) simp_all

lemma parse_unit:
  assumes "unit_text u" and "unit_map u = Some unit" and "0 < unit" and "d + w * unit < 2 ^ 64" and "number_char (hd r)"
  shows "duration_loop checks frac orig d (fmt_int (u @ r) w) = duration_loop checks frac orig (d + w * unit) r"
  using duration_part_plain [OF assms(1,2), of w r checks frac orig] assms(3-5) by (intro duration_loop_next) (simp_all add: fmt_int_show)

lemma parse_small:
  assumes "frac_exact frac" and "unit_text u" and "unit_map u = Some (10 ^ prec)" and "prec \<le> 9" and "n < 2 ^ 64"
  shows "parse_duration_from_golang_string checks frac (fmt_int (fst (fmt_frac u n prec)) (snd (fmt_frac u n prec))) = Ok n"
proof -
  have n: "n div 10 ^ prec * 10 ^ prec + n mod 10 ^ prec = n" by (rule div_mult_mod_eq)
  have "u \<noteq> []" using assms(2) by (simp add: unit_text_def)
  then show ?thesis
    using duration_loop_last [OF duration_part_printed [OF assms(2-4) _ assms(1)], of "n div 10 ^ prec" n 0] assms(5) n
    by (simp add: parse_printed_loop fmt_frac_nonempty fmt_frac_rest)
qed

lemma printed_small:
  assumes "0 < n" and "n < 1000000000"
  shows "duration_to_golang_string n =
    (let (prec, unit) = (if n < 1000 then (0, ''ns'') else if n < 1000000 then (3, micro @ ''s'') else (6, ''ms'')) in
     fmt_int (fst (fmt_frac unit n prec)) (snd (fmt_frac unit n prec)))"
proof -
  have "n mod 2 ^ 64 = n" using assms(2) by simp
  then show ?thesis using assms unfolding duration_to_golang_string_def by (simp only: Let_def case_prod_beta if_True) simp
qed

lemma round_trip_small:
  assumes "frac_exact frac" and "n < 1000000000"
  shows "parse_duration_from_golang_string checks frac (duration_to_golang_string n) = Ok n"
proof -
  have bound: "n < 2 ^ 64" using assms(2) by simp
  consider "n = 0" | "0 < n" "n < 1000" | "1000 \<le> n" "n < 1000000" | "1000000 \<le> n" by linarith
  then show ?thesis
  proof cases
    case 1
    have "fmt_frac ''s'' 0 9 = (''s'', 0)" using fmt_frac_digits [of "''s''" 0 9] by auto
    then have "fmt_int (fst (fmt_frac ''s'' 0 9)) (snd (fmt_frac ''s'' 0 9)) = duration_to_golang_string 0"
      by (simp add: fmt_int_def duration_to_golang_string_def)
    then show ?thesis using parse_small [OF assms(1) units(4), of 9 0 checks] units(10) 1 by simp
  next
    case 2
    then show ?thesis using parse_small [OF assms(1) units(1), of 0 n checks] units(7) printed_small [of n] bound by simp
  next
    case 3
    then show ?thesis using parse_small [OF assms(1) units(2), of 3 n checks] units(8) printed_small [of n] bound by simp
  next
    case 4
    then show ?thesis using parse_small [OF assms(1) units(3), of 6 n checks] units(9) printed_small [of n] bound assms(2) by simp
  qed
qed

lemma printed_large:
  assumes "1000000000 \<le> n" and "n < 2 ^ 64"
  shows "duration_to_golang_string n =
    (let S = n div 10 ^ 9; s = fmt_int (fst (fmt_frac ''s'' n 9)) (S mod 60); m = fmt_int (''m'' @ s) (S div 60 mod 60) in
     if 0 < S div 60 then if 0 < S div 60 div 60 then fmt_int (''h'' @ m) (S div 60 div 60) else m else s)"
proof -
  have "n mod 2 ^ 64 = n" "\<not> n < 1000000000" using assms by simp_all
  then show ?thesis unfolding duration_to_golang_string_def by (simp add: Let_def case_prod_beta fmt_frac_rest)
qed

lemma hms_sum:
  "(n :: nat) = S * 10 ^ 9 + a \<Longrightarrow> S = M * 60 + b \<Longrightarrow> M = H * 60 + c \<Longrightarrow> H * 3600000000000 + c * 60000000000 + (b * 10 ^ 9 + a) = n"
  by (simp add: algebra_simps)

lemma round_trip_large:
  assumes "frac_exact frac" and "1000000000 \<le> n" and "n < 2 ^ 64"
  shows "parse_duration_from_golang_string checks frac (duration_to_golang_string n) = Ok n"
proof -
  define S M H where "S = n div 10 ^ 9" and "M = S div 60" and "H = M div 60"
  define b where "b = fst (fmt_frac ''s'' n 9)"
  define s where "s = fmt_int b (S mod 60)"
  define m where "m = fmt_int (''m'' @ s) (M mod 60)"
  define h where "h = fmt_int (''h'' @ m) H"
  define hd md sd where "hd = H * 3600000000000" and "md = (M mod 60) * 60000000000" and "sd = (S mod 60) * 10 ^ 9 + n mod 10 ^ 9"
  have "n = S * 10 ^ 9 + n mod 10 ^ 9" unfolding S_def by (rule div_mult_mod_eq [symmetric])
  moreover have "S = M * 60 + S mod 60" unfolding M_def by (rule div_mult_mod_eq [symmetric])
  moreover have "M = H * 60 + M mod 60" unfolding H_def by (rule div_mult_mod_eq [symmetric])
  ultimately have sum: "hd + md + sd = n"
    using hms_sum [of n S "n mod 10 ^ 9" M "S mod 60" H "M mod 60"] unfolding hd_def md_def sd_def by simp
  have printed: "duration_to_golang_string n = (if 0 < M then if 0 < H then h else m else s)"
    using printed_large [OF assms(2,3)] unfolding Let_def h_def m_def s_def b_def H_def M_def S_def .
  have sec: "duration_loop checks frac orig d s = Ok (d + sd)" if "d + sd < 2 ^ 64" for orig d
    using parse_seconds [OF assms(1), of d "S mod 60" n checks orig] that unfolding s_def b_def sd_def by simp
  have min: "duration_loop checks frac orig d m = duration_loop checks frac orig (d + md) s" if "d + md < 2 ^ 64" for orig d
    using parse_unit [OF units(5,11) _ _ fmt_int_number [of b "S mod 60"], of d "M mod 60" checks frac orig] that
    unfolding m_def md_def s_def by simp
  have hour: "duration_loop checks frac orig d h = duration_loop checks frac orig (d + hd) m" if "d + hd < 2 ^ 64" for orig d
    using parse_unit [OF units(6,12) _ _ fmt_int_number [of "''m'' @ s" "M mod 60"], of d H checks frac orig] that
    unfolding h_def hd_def m_def by simp
  have "b \<noteq> []" unfolding b_def by (rule fmt_frac_nonempty) simp
  then have loops: "parse_duration_from_golang_string checks frac s = duration_loop checks frac s 0 s"
      "parse_duration_from_golang_string checks frac m = duration_loop checks frac m 0 m"
      "parse_duration_from_golang_string checks frac h = duration_loop checks frac h 0 h"
    unfolding s_def m_def h_def by (simp_all add: parse_printed_loop)
  have "M = 0 \<Longrightarrow> hd = 0 \<and> md = 0" "H = 0 \<Longrightarrow> hd = 0" by (auto simp: hd_def md_def H_def)
  then show ?thesis
    using printed loops hour [of 0 h] min [of hd h] min [of 0 m] sec [of "hd + md" h] sec [of md m] sec [of 0 s] sum assms(3) by auto
qed

text \<open>What is printed can be read: every duration that fits 64 bits of nanoseconds is printed as a text that the parser turns back into the same
  duration, with or without overflow checks, provided that floating point is exact on integers below \<open>2\<^sup>5\<^sup>3\<close>.\<close>

theorem duration_round_trip:
  assumes "frac_exact frac" and "n < 2 ^ 64"
  shows "parse_duration_from_golang_string checks frac (duration_to_golang_string n) = Ok n"
  using round_trip_small [OF assms(1), of n checks] round_trip_large [OF assms(1) _ assms(2), of checks] by (cases "n < 1000000000") simp_all

theorem duration_round_trip_witness:
  "parse_duration_from_golang_string True (\<lambda>f unit e. Some (f * unit div 10 ^ e)) (duration_to_golang_string 18367001000000) = Ok 18367001000000"
  by (rule duration_round_trip) (simp_all add: frac_exact_def div_mult_swap)

section \<open>The buffer\<close>

lemma show_nat_length: "n < 10 ^ Suc k \<Longrightarrow> length (show_nat n) \<le> Suc k"
proof (induction k arbitrary: n)
  case (Suc k)
  then show ?case using Suc.IH [of "n div 10"] by (cases "n < 10") (simp_all add: show_nat.simps [of n] less_mult_imp_div_less)
qed (simp add: show_nat.simps)

lemma fmt_frac_length: "length (fst (fmt_frac buf v prec)) \<le> 1 + prec + length buf"
  using fmt_frac_digits [of buf v prec] by auto

lemma fmt_int_length: "n < 10 ^ Suc k \<Longrightarrow> length (fmt_int buf n) \<le> Suc k + length buf"
  using show_nat_length [of n k] by (simp add: fmt_int_show)

text \<open>The buffer is large enough: no duration needs more than 24 of the 32 bytes the printer has, so that its write position never falls below
  zero.\<close>

theorem duration_text_fits: "length (duration_to_golang_string n) \<le> 24"
proof -
  define u where "u = n mod 2 ^ 64"
  have u: "u < 2 ^ 64" and n: "duration_to_golang_string n = duration_to_golang_string u"
    by (simp_all add: u_def duration_to_golang_string_def)
  consider "u = 0" | "0 < u" "u < 1000000000" | "1000000000 \<le> u" by linarith
  then have "length (duration_to_golang_string u) \<le> 24"
  proof cases
    case 1
    then show ?thesis by (simp add: duration_to_golang_string_def)
  next
    case 2
    have "length (fmt_int (fst (fmt_frac unit u prec)) (snd (fmt_frac unit u prec))) \<le> 24" if "u div 10 ^ prec < 1000" "prec \<le> 6" "length unit \<le> 3" for unit prec
      using fmt_int_length [of "u div 10 ^ prec" 2 "fst (fmt_frac unit u prec)"] fmt_frac_length [of unit u prec] that
      by (simp add: fmt_frac_rest)
    note small = this [of 0 "''ns''"] this [of 3 "micro @ ''s''"] this [of 6 "''ms''"]
    show ?thesis using small printed_small [OF 2] 2(2) by (simp add: micro_def split: if_splits)
  next
    case 3
    define S where "S = u div 10 ^ 9"
    define b where "b = fst (fmt_frac ''s'' u 9)"
    define s where "s = fmt_int b (S mod 60)"
    define m where "m = fmt_int (''m'' @ s) (S div 60 mod 60)"
    have "length b \<le> 11" using fmt_frac_length [of "''s''" u 9] by (simp add: b_def)
    moreover have "S mod 60 < 10 ^ Suc 1" "S div 60 mod 60 < 10 ^ Suc 1" using mod_less_divisor [of 60 S] mod_less_divisor [of 60 "S div 60"] by auto
    moreover have "S div 60 div 60 < 10 ^ Suc 6" using u by (simp add: S_def div_mult2_eq [symmetric] less_mult_imp_div_less)
    ultimately have "length s \<le> 13" "length m \<le> 16" "length (fmt_int (''h'' @ m) (S div 60 div 60)) \<le> 24"
      using fmt_int_length [of "S mod 60" 1 b] fmt_int_length [of "S div 60 mod 60" 1 "''m'' @ s"]
        fmt_int_length [of "S div 60 div 60" 6 "''h'' @ m"]
      by (simp_all add: s_def m_def)
    then show ?thesis using printed_large [OF 3 u] by (simp add: Let_def s_def m_def b_def S_def)
  qed
  then show ?thesis by (simp add: n)
qed

text \<open>The guard of \<^verbatim>\<open>leading_int\<close> is one digit short: a number just above the range is not reported, it overflows.\<close>

theorem leading_int_overflows:
  "leading_int True 0 ''18446744073709551616'' = Panic" "leading_int False 0 ''18446744073709551616'' = Ok (0, [])"
  by (simp_all add: is_digit_def digit_value_def wrap_u64_def)

end
