(* ===== verification/Orphan_Reporter.thy ===== *)
theory Orphan_Reporter
  imports Memdx_Extframe Memdx_Codec Transition "HOL-Library.Multiset"
begin

text \<open>
  The reporter of orphaned responses (\<^verbatim>\<open>orphan_reporter.rs\<close>): the slowest responses of each interval are kept in a bounded
  heap. A handler counts, looks at the heap under the read lock and, if that is worth it, changes it under the write lock; the reporting task takes the
  count and then the heap. These regions are the steps. The binary heap is represented by the list of its items in ascending order; which of
  several items with the least duration is removed first is not fixed by the library and here it is the oldest. The texts of the report are left out.
\<close>

section \<open>State\<close>

record OrphanContext =
  oc_client_id :: string
  oc_local_addr :: string
  oc_peer_addr :: string

record OrphanLogItem =
  ol_connection_id :: string
  ol_operation_id :: u32
  ol_remote_socket :: string
  ol_local_socket :: string
  ol_server_duration :: Duration
  ol_total_server_duration :: Duration
  ol_operation_name :: OpCode

datatype Handling = Counted OrphanLogItem | Needed OrphanLogItem

text \<open>\<open>re_seen\<close> records the durations that were decided upon since the heap was last taken, \<open>re_arrived\<close> the number of responses ever counted.\<close>

record OrphanReport =
  or_count :: nat
  or_items :: "OrphanLogItem list"
  or_seen :: "Duration multiset"

record OrphanReporter =
  re_total_count :: nat
  re_heap :: "OrphanLogItem list"
  re_sample_size :: nat
  re_taking :: "nat option"
  re_reports :: "OrphanReport list"
  re_handlers :: "nat \<Rightarrow> Handling option"
  re_seen :: "Duration multiset"
  re_arrived :: nat

definition orphan_reporter_new :: "nat \<Rightarrow> OrphanReporter" where
  "orphan_reporter_new sample_size =
    \<lparr>re_total_count = 0, re_heap = [], re_sample_size = sample_size, re_taking = None, re_reports = [], re_handlers = \<lambda>_. None, re_seen = {#},
     re_arrived = 0\<rparr>"

section \<open>Operations\<close>

definition server_dur :: "rust_env \<Rightarrow> ResponsePacket \<Rightarrow> (Error, Duration) result" where
  "server_dur env msg =
    (case rp_framing_extras msg of
       None \<Rightarrow> Ok 0
     | Some f \<Rightarrow> (case decode_res_ext_frames env f of Ok d \<Rightarrow> Ok (unwrap_or 0 d) | Err _ \<Rightarrow> Ok 0 | Panic \<Rightarrow> Panic))"

definition log_item :: "Duration \<Rightarrow> ResponsePacket \<Rightarrow> OrphanContext \<Rightarrow> OrphanLogItem" where
  "log_item d msg ctx =
    \<lparr>ol_connection_id = oc_client_id ctx, ol_operation_id = rp_opaque msg, ol_remote_socket = oc_peer_addr ctx, ol_local_socket = oc_local_addr ctx,
     ol_server_duration = d, ol_total_server_duration = d, ol_operation_name = rp_op_code msg\<rparr>"

definition heap_push :: "OrphanLogItem \<Rightarrow> OrphanLogItem list \<Rightarrow> OrphanLogItem list" where
  "heap_push item h = insort_key ol_total_server_duration item h"

definition set_handler :: "nat \<Rightarrow> Handling option \<Rightarrow> OrphanReporter \<Rightarrow> OrphanReporter" where
  "set_handler k st s = s\<lparr>re_handlers := (re_handlers s)(k := st)\<rparr>"

definition count_orphan :: "nat \<Rightarrow> OrphanLogItem \<Rightarrow> OrphanReporter \<Rightarrow> OrphanReporter" where
  "count_orphan k item s =
    set_handler k (Some (Counted item)) (s\<lparr>re_total_count := (re_total_count s + 1) mod 2 ^ 64, re_arrived := re_arrived s + 1\<rparr>)"

definition needs_write :: "OrphanLogItem \<Rightarrow> OrphanReporter \<Rightarrow> bool" where
  "needs_write item s \<longleftrightarrow>
    length (re_heap s) < re_sample_size s
    \<or> (case re_heap s of [] \<Rightarrow> False | m # _ \<Rightarrow> ol_total_server_duration item > ol_total_server_duration m)"

definition read_heap :: "nat \<Rightarrow> OrphanLogItem \<Rightarrow> OrphanReporter \<Rightarrow> OrphanReporter" where
  "read_heap k item s =
    (if needs_write item s then set_handler k (Some (Needed item)) s
     else set_handler k None (s\<lparr>re_seen := add_mset (ol_total_server_duration item) (re_seen s)\<rparr>))"

definition write_heap :: "nat \<Rightarrow> OrphanLogItem \<Rightarrow> OrphanReporter \<Rightarrow> OrphanReporter" where
  "write_heap k item s =
    (let h = re_heap s;
         h' = (if length h < re_sample_size s then heap_push item h
               else (case h of [] \<Rightarrow> h | m # r \<Rightarrow> if ol_total_server_duration item > ol_total_server_duration m then heap_push item r else h)) in
     set_handler k None (s\<lparr>re_heap := h', re_seen := add_mset (ol_total_server_duration item) (re_seen s)\<rparr>))"

definition tick_count :: "OrphanReporter \<Rightarrow> OrphanReporter" where
  "tick_count s =
    (let n = re_total_count s; s = s\<lparr>re_total_count := 0\<rparr> in if n = 0 then s else s\<lparr>re_taking := Some n\<rparr>)"

definition create_log_object :: "OrphanLogItem list \<Rightarrow> OrphanLogItem list" where
  "create_log_object heap_items = rev heap_items"

definition tick_report :: "nat \<Rightarrow> OrphanReporter \<Rightarrow> OrphanReporter" where
  "tick_report n s =
    s\<lparr>re_taking := None, re_heap := [], re_seen := {#},
      re_reports := re_reports s @ [\<lparr>or_count = n, or_items = create_log_object (re_heap s), or_seen = re_seen s\<rparr>]\<rparr>"

section \<open>Interleaving\<close>

inductive orphan_step :: "OrphanReporter \<Rightarrow> OrphanReporter \<Rightarrow> bool" where
  arrive: "re_handlers s k = None \<Longrightarrow> orphan_step s (count_orphan k item s)"
| looks: "re_handlers s k = Some (Counted item) \<Longrightarrow> orphan_step s (read_heap k item s)"
| changes: "re_handlers s k = Some (Needed item) \<Longrightarrow> orphan_step s (write_heap k item s)"
| tick: "re_taking s = None \<Longrightarrow> orphan_step s (tick_count s)"
| report: "re_taking s = Some n \<Longrightarrow> orphan_step s (tick_report n s)"

inductive_cases orphan_stepE: "orphan_step s t"

section \<open>The largest durations\<close>

abbreviation durations :: "OrphanLogItem list \<Rightarrow> Duration multiset" where
  "durations h \<equiv> mset (map ol_total_server_duration h)"

text \<open>\<open>largest n D K\<close>: \<open>K\<close> consists of \<open>n\<close> elements of \<open>D\<close> (of all if there are fewer) and none that is left out is larger.\<close>

definition largest :: "nat \<Rightarrow> 'a :: linorder multiset \<Rightarrow> 'a multiset \<Rightarrow> bool" where
  "largest n D K \<longleftrightarrow> K \<subseteq># D \<and> size K = min n (size D) \<and> (\<forall>x \<in># D - K. \<forall>y \<in># K. x \<le> y)"

lemma largest_empty: "largest n {#} {#}"
  by (simp add: largest_def)

lemma largest_add:
  assumes "largest n D K" and "size K < n"
  shows "largest n (add_mset x D) (add_mset x K)"
proof -
  obtain E where "D = K + E" using assms(1) by (auto simp: largest_def mset_subset_eq_exists_conv)
  moreover from this have "size E = 0" using assms by (auto simp: largest_def min_def split: if_splits)
  ultimately show ?thesis using assms by (simp add: largest_def)
qed

lemma largest_keep:
  assumes "largest n D K" and "size K = n" and "\<forall>y \<in># K. x \<le> y"
  shows "largest n (add_mset x D) K"
proof -
  obtain E where D: "D = K + E" using assms(1) by (auto simp: largest_def mset_subset_eq_exists_conv)
  have "add_mset x (K + E) - K = add_mset x E" by (metis add_diff_cancel_left' union_mset_add_mset_right)
  then show ?thesis using assms D by (auto simp: largest_def mset_subset_eq_exists_conv intro: exI [of _ "add_mset x E"])
qed

lemma largest_replace:
  assumes "largest n D (add_mset m K)" and "Suc (size K) = n" and "\<forall>y \<in># K. m \<le> y" and "m < x"
  shows "largest n (add_mset x D) (add_mset x K)"
proof -
  obtain E where D: "D = add_mset m K + E" using assms(1) by (auto simp: largest_def mset_subset_eq_exists_conv)
  have "add_mset x (add_mset m K + E) - add_mset x K = add_mset m E" by simp
  moreover have "\<forall>e \<in># E. e \<le> m" using assms(1) D by (auto simp: largest_def)
  ultimately show ?thesis using assms D by (auto simp: largest_def mset_subset_eq_exists_conv)
qed

section \<open>Invariant\<close>

definition heap_ok :: "OrphanReporter \<Rightarrow> bool" where
  "heap_ok s \<longleftrightarrow> sorted (map ol_total_server_duration (re_heap s)) \<and> largest (re_sample_size s) (re_seen s) (durations (re_heap s))"

definition report_ok :: "nat \<Rightarrow> OrphanReport \<Rightarrow> bool" where
  "report_ok n r \<longleftrightarrow> sorted (rev (map ol_total_server_duration (or_items r))) \<and> largest n (or_seen r) (durations (or_items r))"

definition counts_ok :: "OrphanReporter \<Rightarrow> bool" where
  "counts_ok s \<longleftrightarrow> (sum_list (map or_count (re_reports s)) + unwrap_or 0 (re_taking s) + re_total_count s) mod 2 ^ 64 = re_arrived s mod 2 ^ 64"

definition orphan_inv :: "nat \<Rightarrow> OrphanReporter \<Rightarrow> bool" where
  "orphan_inv n s \<longleftrightarrow> re_sample_size s = n \<and> heap_ok s \<and> list_all (report_ok n) (re_reports s) \<and> counts_ok s"

lemma heap_size: "heap_ok s \<Longrightarrow> length (re_heap s) \<le> re_sample_size s"
  by (auto simp: heap_ok_def largest_def)

lemma durations_push: "image_mset ol_total_server_duration (mset (heap_push item h)) = add_mset (ol_total_server_duration item) (durations h)"
  by (simp add: heap_push_def)

lemma sorted_push: "sorted (map ol_total_server_duration h) \<Longrightarrow> sorted (map ol_total_server_duration (heap_push item h))"
  by (simp add: heap_push_def sorted_insort_key)

lemma heap_min: "sorted (map f (m # r)) \<Longrightarrow> \<forall>y \<in># mset (map f r). f m \<le> y"
  by auto

lemma heap_above:
  assumes "sorted (map f (m # r))" and "(d :: 'a :: linorder) \<le> f m"
  shows "\<forall>y \<in># mset (map f (m # r)). d \<le> y"
  using assms order_trans [of d "f m"] by auto

lemma write_heap_fields:
  "re_sample_size (write_heap k item s) = re_sample_size s"
  "re_seen (write_heap k item s) = add_mset (ol_total_server_duration item) (re_seen s)"
  "re_heap (write_heap k item s) =
    (if length (re_heap s) < re_sample_size s then heap_push item (re_heap s)
     else (case re_heap s of [] \<Rightarrow> []
       | m # r \<Rightarrow> if ol_total_server_duration item > ol_total_server_duration m then heap_push item r else m # r))"
  by (simp_all add: write_heap_def set_handler_def Let_def split: list.split)

lemma write_heap_ok:
  assumes "heap_ok s"
  shows "heap_ok (write_heap k item s)"
proof (cases "length (re_heap s) < re_sample_size s")
  case True
  have "largest (re_sample_size s) (add_mset (ol_total_server_duration item) (re_seen s)) (add_mset (ol_total_server_duration item) (durations (re_heap s)))"
    using assms True by (intro largest_add) (simp_all add: heap_ok_def)
  then show ?thesis using assms True by (simp add: heap_ok_def write_heap_fields sorted_push durations_push)
next
  case full: False
  then have size: "length (re_heap s) = re_sample_size s" using heap_size [OF assms] by simp
  show ?thesis
  proof (cases "re_heap s")
    case Nil
    have "largest (re_sample_size s) (add_mset (ol_total_server_duration item) (re_seen s)) {#}"
      using assms size Nil by (intro largest_keep) (simp_all add: heap_ok_def)
    then show ?thesis using full Nil by (simp add: heap_ok_def write_heap_fields)
  next
    case (Cons m r)
    have sorted: "sorted (map ol_total_server_duration (m # r))" and top: "largest (re_sample_size s) (re_seen s) (durations (m # r))"
      using assms by (simp_all add: heap_ok_def Cons)
    show ?thesis
    proof (cases "ol_total_server_duration m < ol_total_server_duration item")
      case True
      have "largest (re_sample_size s) (add_mset (ol_total_server_duration item) (re_seen s)) (add_mset (ol_total_server_duration item) (durations r))"
        using top size Cons True heap_min [OF sorted] by (intro largest_replace [of _ _ "ol_total_server_duration m"]) simp_all
      then show ?thesis using sorted full Cons True by (simp add: heap_ok_def write_heap_fields sorted_push durations_push)
    next
      case False
      have "largest (re_sample_size s) (add_mset (ol_total_server_duration item) (re_seen s)) (durations (m # r))"
        using top size Cons False by (intro largest_keep heap_above [OF sorted]) simp_all
      then show ?thesis using sorted full Cons False by (simp add: heap_ok_def write_heap_fields)
    qed
  qed
qed

lemma read_heap_ok: "heap_ok s \<Longrightarrow> heap_ok (read_heap k item s)"
proof (cases "needs_write item s")
  case False
  assume ok: "heap_ok s"
  have size: "length (re_heap s) = re_sample_size s" using False heap_size [OF ok] by (simp add: needs_write_def)
  have "\<forall>y \<in># durations (re_heap s). ol_total_server_duration item \<le> y"
    using ok False heap_above [of ol_total_server_duration "hd (re_heap s)" "tl (re_heap s)" "ol_total_server_duration item"]
    by (cases "re_heap s") (simp_all add: needs_write_def heap_ok_def)
  then show ?thesis
    using ok size False largest_keep [of "re_sample_size s" "re_seen s" "durations (re_heap s)" "ol_total_server_duration item"]
    by (simp add: heap_ok_def read_heap_def set_handler_def)
qed (simp add: heap_ok_def read_heap_def set_handler_def)

lemma heap_ok_cong:
  "heap_ok s \<Longrightarrow> re_heap t = re_heap s \<Longrightarrow> re_seen t = re_seen s \<Longrightarrow> re_sample_size t = re_sample_size s \<Longrightarrow> heap_ok t"
  by (simp add: heap_ok_def)

lemma mod_count: "(a + b) mod m = c mod m \<Longrightarrow> (a + Suc b mod m) mod m = Suc c mod (m :: nat)"
  by (metis add_Suc_right mod_Suc_eq mod_add_right_eq)

lemma counts_step:
  assumes "orphan_step s t" and "counts_ok s"
  shows "counts_ok t"
  using assms(1)
proof (cases rule: orphan_step.cases)
  case (arrive k item)
  then show ?thesis
    using assms(2) mod_count [of "sum_list (map or_count (re_reports s)) + unwrap_or 0 (re_taking s)" "re_total_count s" "2 ^ 64" "re_arrived s"]
    unfolding counts_ok_def count_orphan_def set_handler_def by simp
next
  case tick
  then show ?thesis using assms(2) unfolding counts_ok_def tick_count_def by (auto simp: Let_def unwrap_or_def)
next
  case (report n)
  then show ?thesis using assms(2) unfolding counts_ok_def tick_report_def by (simp add: unwrap_or_def)
qed (use assms(2) in \<open>auto simp: counts_ok_def read_heap_def write_heap_def set_handler_def Let_def\<close>)

lemma report_made: "heap_ok s \<Longrightarrow> report_ok (re_sample_size s) \<lparr>or_count = n, or_items = create_log_object (re_heap s), or_seen = re_seen s\<rparr>"
  by (simp add: heap_ok_def report_ok_def create_log_object_def rev_map)

lemma orphan_inv_step:
  assumes "orphan_inv n s" and "orphan_step s t"
  shows "orphan_inv n t"
proof -
  have ok: "heap_ok s" "list_all (report_ok n) (re_reports s)" "re_sample_size s = n" using assms(1) by (auto simp: orphan_inv_def)
  have size: "re_sample_size t = n"
    using assms(2) ok(3) by (elim orphan_stepE) (auto simp: count_orphan_def read_heap_def write_heap_def tick_count_def tick_report_def set_handler_def Let_def)
  have heap: "heap_ok t"
    using assms(2)
  proof (cases rule: orphan_step.cases)
    case (report c)
    then show ?thesis by (simp add: heap_ok_def tick_report_def largest_empty)
  next
    case (arrive k item)
    then show ?thesis by (intro heap_ok_cong [OF ok(1)]) (simp_all add: count_orphan_def set_handler_def)
  next
    case tick
    then show ?thesis by (intro heap_ok_cong [OF ok(1)]) (simp_all add: tick_count_def Let_def)
  qed (use ok(1) in \<open>simp_all add: read_heap_ok write_heap_ok\<close>)
  have reports: "list_all (report_ok n) (re_reports t)"
    using assms(2)
  proof (cases rule: orphan_step.cases)
    case (report c)
    then show ?thesis using ok report_made [OF ok(1), of c] by (simp add: tick_report_def)
  qed (use ok(2) in \<open>simp_all add: count_orphan_def read_heap_def write_heap_def tick_count_def set_handler_def Let_def\<close>)
  show ?thesis using size heap reports counts_step [OF assms(2)] assms(1) by (simp add: orphan_inv_def)
qed

interpretation orphans: invariant_system "\<lambda>s. s = orphan_reporter_new n" orphan_step "orphan_inv n" for n
proof
  show "orphan_inv n s" if "s = orphan_reporter_new n" for s
    using that by (simp add: orphan_inv_def orphan_reporter_new_def heap_ok_def counts_ok_def largest_empty unwrap_or_def)
  show "orphan_inv n t" if "orphan_inv n s" "orphan_step s t" for s t using that by (rule orphan_inv_step)
qed

text \<open>C40. A report holds the slowest responses: in every interleaving of handlers and reports, the items of a report are ordered from the slowest to the
  fastest, there are as many as the sample size allows, none of the durations decided upon in that interval that were left out exceeds one of them, and the
  counts of all reports and of the responses still to be reported add up to the responses seen (modulo \<open>2\<^sup>6\<^sup>4\<close>).\<close>

theorem reports_hold_slowest:
  assumes "reachable (\<lambda>s. s = orphan_reporter_new n) orphan_step s"
  shows "(\<forall>r \<in> set (re_reports s). sorted (rev (map ol_total_server_duration (or_items r)))
      \<and> largest n (or_seen r) (mset (map ol_total_server_duration (or_items r))))
    \<and> (sum_list (map or_count (re_reports s)) + unwrap_or 0 (re_taking s) + re_total_count s) mod 2 ^ 64 = re_arrived s mod 2 ^ 64"
  using orphans.reachable_inv [OF assms] by (auto simp: orphan_inv_def report_ok_def counts_ok_def list_all_iff)

definition sample_item :: "Duration \<Rightarrow> OrphanLogItem" where
  "sample_item d = \<lparr>ol_connection_id = [], ol_operation_id = 0, ol_remote_socket = [], ol_local_socket = [], ol_server_duration = d,
    ol_total_server_duration = d, ol_operation_name = OpCode.Get\<rparr>"

text \<open>Two responses and a sample of one.\<close>

definition sample_reported :: OrphanReporter where
  "sample_reported = tick_report 2 (tick_count (write_heap 1 (sample_item 9) (read_heap 1 (sample_item 9) (write_heap 0 (sample_item 5) (read_heap 0 (sample_item 5)
    (count_orphan 1 (sample_item 9) (count_orphan 0 (sample_item 5) (orphan_reporter_new 1))))))))"

lemmas orphan_defs = orphan_reporter_new_def count_orphan_def read_heap_def write_heap_def tick_count_def tick_report_def set_handler_def needs_write_def
  heap_push_def create_log_object_def sample_item_def Let_def

lemma sample_reported_reachable: "reachable (\<lambda>s. s = orphan_reporter_new 1) orphan_step sample_reported"
proof -
  let ?s0 = "orphan_reporter_new 1" let ?s1 = "count_orphan 0 (sample_item 5) ?s0" let ?s2 = "count_orphan 1 (sample_item 9) ?s1"
  let ?s3 = "read_heap 0 (sample_item 5) ?s2" let ?s4 = "write_heap 0 (sample_item 5) ?s3" let ?s5 = "read_heap 1 (sample_item 9) ?s4"
  let ?s6 = "write_heap 1 (sample_item 9) ?s5" let ?R = "reachable (\<lambda>s. s = orphan_reporter_new 1) orphan_step"
  have "?R ?s0" by (rule reachable.start) simp
  then have "?R ?s1" by (rule reachable.trans) (rule orphan_step.arrive, simp add: orphan_defs)
  then have "?R ?s2" by (rule reachable.trans) (rule orphan_step.arrive, simp add: orphan_defs)
  then have "?R ?s3" by (rule reachable.trans) (rule orphan_step.looks, simp add: orphan_defs)
  then have "?R ?s4" by (rule reachable.trans) (rule orphan_step.changes, simp add: orphan_defs)
  then have "?R ?s5" by (rule reachable.trans) (rule orphan_step.looks, simp add: orphan_defs)
  then have "?R ?s6" by (rule reachable.trans) (rule orphan_step.changes, simp add: orphan_defs)
  then have "?R (tick_count ?s6)" by (rule reachable.trans) (rule orphan_step.tick, simp add: orphan_defs)
  then show ?thesis unfolding sample_reported_def by (rule reachable.trans) (rule orphan_step.report, simp add: orphan_defs)
qed

theorem reports_hold_slowest_witness:
  "length (re_reports sample_reported) = 1
    \<and> list_all (\<lambda>r. largest 1 (or_seen r) (mset (map ol_total_server_duration (or_items r)))) (re_reports sample_reported)
    \<and> (sum_list (map or_count (re_reports sample_reported)) + unwrap_or 0 (re_taking sample_reported) + re_total_count sample_reported) mod 2 ^ 64
      = re_arrived sample_reported mod 2 ^ 64"
proof -
  have "length (re_reports sample_reported) = 1" by (simp add: sample_reported_def orphan_defs)
  with reports_hold_slowest [OF sample_reported_reachable] show ?thesis by (simp add: list_all_iff)
qed

end
