(* ===== verification/Http_Client.thy ===== *)
theory Http_Client
  imports Core_Error
begin

text \<open>
  The HTTP transport below the query, search, analytics and management services: requests
  (\<^verbatim>\<open>httpx/request.rs\<close>), responses (\<^verbatim>\<open>httpx/response.rs\<close>) and the client that puts a request on the wire
  (\<^verbatim>\<open>httpx/client.rs\<close>). What \<^verbatim>\<open>reqwest\<close> does with a finished request is the argument \<open>send\<close>, a function
  on the state of the world; the base64 engine is an argument too.
\<close>

section \<open>Requests\<close>

datatype Method = GET | POST | PUT | DELETE

datatype OboPasswordOrDomain = OboPassword string | OboDomain string

record OnBehalfOfInfo =
  obo_username :: string
  obo_password_or_domain :: OboPasswordOrDomain

datatype Auth = BasicAuth string string | BearerAuth string | OnBehalfOf OnBehalfOfInfo

record Request =
  hq_method :: Method
  hq_uri :: string
  hq_auth :: "Auth option"
  hq_user_agent :: "string option"
  hq_content_type :: "string option"
  hq_body :: "bytes option"
  hq_headers :: "string \<rightharpoonup> string"
  hq_unique_id :: "string option"

definition http_request_new :: "Method \<Rightarrow> string \<Rightarrow> Request" where
  "http_request_new method uri =
    \<lparr>hq_method = method, hq_uri = uri, hq_auth = None, hq_user_agent = None, hq_content_type = None,
     hq_body = None, hq_headers = Map.empty, hq_unique_id = None\<rparr>"

definition add_header :: "string \<Rightarrow> string \<Rightarrow> Request \<Rightarrow> Request" where
  "add_header key v req = req\<lparr>hq_headers := (hq_headers req)(key \<mapsto> v)\<rparr>"

text \<open>
  The clients of the services build their requests alike, from the node they talk to: its address, the
  credentials for it and the name of the program. The headers are those of the search and the
  management client, in the order in which the map is visited.
\<close>

record ServiceClient =
  sv_user_agent :: string
  sv_endpoint :: string
  sv_auth :: Auth

definition new_request ::
    "ServiceClient \<Rightarrow> Method \<Rightarrow> string \<Rightarrow> string \<Rightarrow> OnBehalfOfInfo option \<Rightarrow> (string \<times> string) list \<Rightarrow> bytes option \<Rightarrow> Request"
  where
  "new_request self method path content_type on_behalf_of headers body =
    (let auth = (case on_behalf_of of
           Some obo \<Rightarrow> OnBehalfOf \<lparr>obo_username = obo_username obo, obo_password_or_domain = obo_password_or_domain obo\<rparr>
         | None \<Rightarrow> sv_auth self);
         req = (http_request_new method (sv_endpoint self @ ''/'' @ path))
           \<lparr>hq_auth := Some auth, hq_user_agent := Some (sv_user_agent self), hq_content_type := Some content_type,
            hq_body := body\<rparr>
     in fold (\<lambda>(key, v). add_header key v) headers req)"

section \<open>Responses\<close>

text \<open>A response: its status, and what the stream of its body delivers; \<^verbatim>\<open>bytes()\<close> collects the stream.\<close>

record HttpResponse =
  hp_status :: nat
  hp_body :: "(HttpErrorKind + bytes) list"

fun http_bytes :: "(HttpErrorKind + bytes) list \<Rightarrow> (HttpErrorKind, bytes) result" where
  "http_bytes [] = Ok []"
| "http_bytes (Inl e # _) = Err e"
| "http_bytes (Inr b # cs) = and_then (http_bytes cs) (\<lambda>r. Ok (b @ r))"

definition is_success :: "nat \<Rightarrow> bool" where
  "is_success status \<longleftrightarrow> 200 \<le> status \<and> status < 300"

section \<open>The client\<close>

record WireRequest =
  wr_method :: Method
  wr_uri :: string
  wr_headers :: "(string \<times> string) list"
  wr_body :: "bytes option"

record SendFailure =
  sf_is_connect :: bool
  sf_is_request :: bool
  sf_text :: string

definition basic_auth :: "(string \<Rightarrow> string) \<Rightarrow> string \<Rightarrow> string \<Rightarrow> string \<times> string" where
  "basic_auth b64 username password = (''authorization'', ''Basic '' @ b64 (username @ '':'' @ password))"

definition auth_headers :: "(string \<Rightarrow> string) \<Rightarrow> Auth \<Rightarrow> (string \<times> string) list" where
  "auth_headers b64 auth =
    (case auth of
       BasicAuth username password \<Rightarrow> [basic_auth b64 username password]
     | BearerAuth token \<Rightarrow> [(''authorization'', ''Bearer '' @ token)]
     | OnBehalfOf obo \<Rightarrow>
         (case obo_password_or_domain obo of
            OboPassword password \<Rightarrow> [basic_auth b64 (obo_username obo) password]
          | OboDomain domain \<Rightarrow> [(''cb-on-behalf-of'', b64 (obo_username obo @ '':'' @ domain))]))"

definition wire_request :: "(string \<Rightarrow> string) \<Rightarrow> Request \<Rightarrow> WireRequest" where
  "wire_request b64 req =
    \<lparr>wr_method = hq_method req, wr_uri = hq_uri req,
     wr_headers = (case hq_content_type req of Some content_type \<Rightarrow> [(''content-type'', content_type)] | None \<Rightarrow> [])
       @ (case hq_user_agent req of Some user_agent \<Rightarrow> [(''user-agent'', user_agent)] | None \<Rightarrow> [])
       @ (case hq_auth req of Some auth \<Rightarrow> auth_headers b64 auth | None \<Rightarrow> []),
     wr_body = hq_body req\<rparr>"

definition http_execute ::
    "(string \<Rightarrow> string) \<Rightarrow> (WireRequest \<Rightarrow> 'w \<Rightarrow> (SendFailure, HttpResponse) result \<times> 'w)
      \<Rightarrow> Request \<Rightarrow> 'w \<Rightarrow> (HttpErrorKind, HttpResponse) result \<times> 'w" where
  "http_execute b64 send req w =
    (case send (wire_request b64 req) w of (r, w) \<Rightarrow>
       (map_err (\<lambda>err.
          if sf_is_connect err then HttpErrorKind.Connection (sf_text err)
          else if sf_is_request err then HttpErrorKind.SendRequest (sf_text err)
          else HttpErrorKind.HttpMessage (sf_text err)) r, w))"

section \<open>Facts\<close>

lemma fold_add_header_sel [simp]:
  "hq_method (fold (\<lambda>(key, v). add_header key v) hs req) = hq_method req"
  "hq_uri (fold (\<lambda>(key, v). add_header key v) hs req) = hq_uri req"
  "hq_auth (fold (\<lambda>(key, v). add_header key v) hs req) = hq_auth req"
  "hq_user_agent (fold (\<lambda>(key, v). add_header key v) hs req) = hq_user_agent req"
  "hq_content_type (fold (\<lambda>(key, v). add_header key v) hs req) = hq_content_type req"
  "hq_body (fold (\<lambda>(key, v). add_header key v) hs req) = hq_body req"
  by (induction hs arbitrary: req) (auto simp: add_header_def split: prod.splits)

text \<open>Of a request the client sends method, address, body, content type, name of the program and credentials,
  whatever headers were added to it.\<close>

theorem added_headers_not_sent:
  "wire_request b64 (new_request self method path content_type on_behalf_of headers body) =
   \<lparr>wr_method = method, wr_uri = sv_endpoint self @ ''/'' @ path,
    wr_headers = [(''content-type'', content_type), (''user-agent'', sv_user_agent self)]
      @ auth_headers b64 (case on_behalf_of of Some obo \<Rightarrow> OnBehalfOf obo | None \<Rightarrow> sv_auth self),
    wr_body = body\<rparr>"
  by (simp add: wire_request_def new_request_def http_request_new_def auth_headers_def Let_def
      split: option.split OboPasswordOrDomain.split)

text \<open>A request on behalf of a user of a domain carries no credentials: those of the program are replaced by
  the name of the user, not accompanied by it.\<close>

theorem domain_user_sends_no_credentials:
  assumes "on_behalf_of = Some obo" and "obo_password_or_domain obo = OboDomain domain"
  shows "''authorization'' \<notin>
    fst ` set (wr_headers (wire_request b64 (new_request self method path content_type on_behalf_of headers body)))"
  using assms by (simp add: added_headers_not_sent auth_headers_def)

end
