(* ===== verification/Query_Options.thy ===== *)
theory Query_Options
  imports Http_Client Durations
begin

text \<open>
  The options of a query and the JSON object they are sent as (\<^verbatim>\<open>queryx/query_options.rs\<close>, the body of
  \<^verbatim>\<open>Query::query\<close> in \<^verbatim>\<open>queryx/query.rs\<close>). The type of JSON values is that of \<^verbatim>\<open>serde_json\<close>; a floating point
  number is kept as its bits, an object as an association list. Hash maps are association lists in the order
  of iteration.
\<close>

section \<open>JSON values\<close>

datatype JsonNumber = PosInt u64 | NegInt u64 | Float u64

datatype Json =
    JNull
  | JBool bool
  | JNumber JsonNumber
  | JString string
  | JArray "Json list"
  | JObject "(string \<times> Json) list"

text \<open>\<^verbatim>\<open>Map::insert\<close>, which replaces the value of a key that is present.\<close>

fun obj_insert :: "string \<Rightarrow> Json \<Rightarrow> (string \<times> Json) list \<Rightarrow> (string \<times> Json) list" where
  "obj_insert k v [] = [(k, v)]"
| "obj_insert k v ((k', v') # m) = (if k' = k then (k, v) # m else (k', v') # obj_insert k v m)"

definition json_map :: "(string \<times> Json) list \<Rightarrow> Json" where
  "json_map kvs = JObject (fold (\<lambda>(k, v). obj_insert k v) kvs [])"

definition json_u32 :: "u32 \<Rightarrow> Json" where
  "json_u32 n = JNumber (PosInt (ucast n))"

definition json_u64 :: "u64 \<Rightarrow> Json" where
  "json_u64 n = JNumber (PosInt n)"

definition json_duration :: "nat \<Rightarrow> Json" where
  "json_duration d = JString (duration_to_golang_string d)"

section \<open>Options\<close>

datatype ScanConsistency = NotBounded | RequestPlus | AtPlus

datatype ProfileMode = ProfileOff | Phases | Timings

datatype QueryCompression = Zip | Rle | Lzma | Lzo | NoCompression

datatype QueryDurabilityLevel = NoDurability | Majority | MajorityAndPersistActive | PersistToMajority

datatype QueryEncoding = Utf8

datatype QueryFormat = JsonFormat | Xml | Csv | Tsv

datatype ReplicaLevel = ReplicaOff | ReplicaOn

record CredsJson =
  cj_user :: string
  cj_pass :: string

record ScanVectorEntry =
  sve_seq_no :: u64
  sve_vb_uuid :: string

record QueryOptions =
  qo_args :: "(Json list) option"
  qo_atr_collection :: "string option"
  qo_auto_execute :: "bool option"
  qo_client_context_id :: "string option"
  qo_compression :: "QueryCompression option"
  qo_controls :: "bool option"
  qo_creds :: "(CredsJson list) option"
  qo_durability_level :: "QueryDurabilityLevel option"
  qo_encoded_plan :: "string option"
  qo_encoding :: "QueryEncoding option"
  qo_format :: "QueryFormat option"
  qo_kv_timeout :: "nat option"
  qo_max_parallelism :: "u32 option"
  qo_memory_quota :: "u32 option"
  qo_metrics :: "bool option"
  qo_namespace :: "string option"
  qo_num_atrs :: "u32 option"
  qo_pipeline_batch :: "u32 option"
  qo_pipeline_cap :: "u32 option"
  qo_prepared :: "string option"
  qo_preserve_expiry :: "bool option"
  qo_pretty :: "bool option"
  qo_profile :: "ProfileMode option"
  qo_query_context :: "string option"
  qo_read_only :: "bool option"
  qo_scan_cap :: "u32 option"
  qo_scan_consistency :: "ScanConsistency option"
  qo_sparse_scan_vector :: "((string \<times> ScanVectorEntry) list) option"
  qo_full_scan_vector :: "(ScanVectorEntry list) option"
  qo_sparse_scan_vectors :: "((string \<times> (string \<times> ScanVectorEntry) list) list) option"
  qo_full_scan_vectors :: "((string \<times> ScanVectorEntry list) list) option"
  qo_scan_wait :: "nat option"
  qo_signature :: "bool option"
  qo_statement :: "string option"
  qo_timeout :: "nat option"
  qo_tx_data :: "(u8 list) option"
  qo_tx_id :: "string option"
  qo_tx_implicit :: "bool option"
  qo_tx_stmt_num :: "u32 option"
  qo_tx_timeout :: "nat option"
  qo_use_cbo :: "bool option"
  qo_use_fts :: "bool option"
  qo_use_replica :: "ReplicaLevel option"
  qo_named_args :: "((string \<times> Json) list) option"
  qo_raw :: "((string \<times> Json) list) option"
  qo_on_behalf_of :: "OnBehalfOfInfo option"

definition query_options_new :: QueryOptions where
  "query_options_new = \<lparr>qo_args = None, qo_atr_collection = None, qo_auto_execute = None, qo_client_context_id = None, qo_compression = None, qo_controls = None, qo_creds = None, qo_durability_level = None, qo_encoded_plan = None, qo_encoding = None, qo_format = None, qo_kv_timeout = None, qo_max_parallelism = None, qo_memory_quota = None, qo_metrics = None, qo_namespace = None, qo_num_atrs = None, qo_pipeline_batch = None, qo_pipeline_cap = None, qo_prepared = None, qo_preserve_expiry = None, qo_pretty = None, qo_profile = None, qo_query_context = None, qo_read_only = None, qo_scan_cap = None, qo_scan_consistency = None, qo_sparse_scan_vector = None, qo_full_scan_vector = None, qo_sparse_scan_vectors = None, qo_full_scan_vectors = None, qo_scan_wait = None, qo_signature = None, qo_statement = None, qo_timeout = None, qo_tx_data = None, qo_tx_id = None, qo_tx_implicit = None, qo_tx_stmt_num = None, qo_tx_timeout = None, qo_use_cbo = None, qo_use_fts = None, qo_use_replica = None, qo_named_args = None, qo_raw = None, qo_on_behalf_of = None\<rparr>"

section \<open>Serialisation\<close>

definition json_scan_consistency :: "ScanConsistency \<Rightarrow> Json" where
  "json_scan_consistency x = JString (case x of NotBounded \<Rightarrow> ''not_bounded'' | RequestPlus \<Rightarrow> ''request_plus'' | AtPlus \<Rightarrow> ''at_plus'')"

definition json_profile_mode :: "ProfileMode \<Rightarrow> Json" where
  "json_profile_mode x = JString (case x of ProfileOff \<Rightarrow> ''off'' | Phases \<Rightarrow> ''phases'' | Timings \<Rightarrow> ''timings'')"

definition json_compression :: "QueryCompression \<Rightarrow> Json" where
  "json_compression x = JString (case x of Zip \<Rightarrow> ''ZIP'' | Rle \<Rightarrow> ''RLE'' | Lzma \<Rightarrow> ''LZMA'' | Lzo \<Rightarrow> ''LZO'' | NoCompression \<Rightarrow> ''NONE'')"

definition json_durability_level :: "QueryDurabilityLevel \<Rightarrow> Json" where
  "json_durability_level x = JString (case x of NoDurability \<Rightarrow> ''none'' | Majority \<Rightarrow> ''majority''
     | MajorityAndPersistActive \<Rightarrow> ''majorityAndPersistActive'' | PersistToMajority \<Rightarrow> ''persistToMajority'')"

definition json_encoding :: "QueryEncoding \<Rightarrow> Json" where
  "json_encoding x = JString ''UTF-8''"

definition json_format :: "QueryFormat \<Rightarrow> Json" where
  "json_format x = JString (case x of JsonFormat \<Rightarrow> ''JSON'' | Xml \<Rightarrow> ''XML'' | Csv \<Rightarrow> ''CSV'' | Tsv \<Rightarrow> ''TSV'')"

definition json_replica_level :: "ReplicaLevel \<Rightarrow> Json" where
  "json_replica_level x = JString (case x of ReplicaOff \<Rightarrow> ''off'' | ReplicaOn \<Rightarrow> ''on'')"

definition json_creds :: "CredsJson \<Rightarrow> Json" where
  "json_creds c = JObject ((if cj_user c = [] then [] else [(''user'', JString (cj_user c))])
     @ (if cj_pass c = [] then [] else [(''pass'', JString (cj_pass c))]))"

definition json_scan_vector_entry :: "ScanVectorEntry \<Rightarrow> Json" where
  "json_scan_vector_entry e = JArray [json_u64 (sve_seq_no e), JString (sve_vb_uuid e)]"

definition json_sparse_vectors :: "(string \<times> ScanVectorEntry) list \<Rightarrow> Json" where
  "json_sparse_vectors m = json_map (map (apsnd json_scan_vector_entry) m)"

definition json_full_vectors :: "ScanVectorEntry list \<Rightarrow> Json" where
  "json_full_vectors es = JArray (map json_scan_vector_entry es)"

text \<open>The entries in the order in which they are written; an option that is not set has no entry.\<close>

definition option_entries :: "QueryOptions \<Rightarrow> (string \<times> Json option) list" where
  "option_entries opts =
    [(''args'', map_option JArray (qo_args opts)),
     (''atr_collection'', map_option JString (qo_atr_collection opts)),
     (''auto_execute'', map_option JBool (qo_auto_execute opts)),
     (''client_context_id'', map_option JString (qo_client_context_id opts)),
     (''compression'', map_option json_compression (qo_compression opts)),
     (''controls'', map_option JBool (qo_controls opts)),
     (''creds'', map_option (\<lambda>cs. JArray (map json_creds cs)) (qo_creds opts)),
     (''durability_level'', map_option json_durability_level (qo_durability_level opts)),
     (''encoded_plan'', map_option JString (qo_encoded_plan opts)),
     (''encoding'', map_option json_encoding (qo_encoding opts)),
     (''format'', map_option json_format (qo_format opts)),
     (''kvtimeout'', map_option json_duration (qo_kv_timeout opts)),
     (''max_parallelism'', map_option json_u32 (qo_max_parallelism opts)),
     (''memory_quota'', map_option json_u32 (qo_memory_quota opts)),
     (''metrics'', map_option JBool (qo_metrics opts)),
     (''namespace'', map_option JString (qo_namespace opts)),
     (''num_atrs'', map_option json_u32 (qo_num_atrs opts)),
     (''pipeline_batch'', map_option json_u32 (qo_pipeline_batch opts)),
     (''pipeline_cap'', map_option json_u32 (qo_pipeline_cap opts)),
     (''prepared'', map_option JString (qo_prepared opts)),
     (''preserve_expiry'', map_option JBool (qo_preserve_expiry opts)),
     (''pretty'', map_option JBool (qo_pretty opts)),
     (''profile'', map_option json_profile_mode (qo_profile opts)),
     (''query_context'', map_option JString (qo_query_context opts)),
     (''readonly'', map_option JBool (qo_read_only opts)),
     (''scan_cap'', map_option json_u32 (qo_scan_cap opts)),
     (''scan_consistency'', map_option json_scan_consistency (qo_scan_consistency opts)),
     (''scan_vector'', map_option json_sparse_vectors (qo_sparse_scan_vector opts)),
     (''scan_vector'', map_option json_full_vectors (qo_full_scan_vector opts)),
     (''scan_vectors'', map_option (\<lambda>m. json_map (map (apsnd json_sparse_vectors) m)) (qo_sparse_scan_vectors opts)),
     (''scan_vectors'', map_option (\<lambda>m. json_map (map (apsnd json_full_vectors) m)) (qo_full_scan_vectors opts)),
     (''scan_wait'', map_option json_duration (qo_scan_wait opts)),
     (''signature'', map_option JBool (qo_signature opts)),
     (''statement'', map_option JString (qo_statement opts)),
     (''timeout'', map_option json_duration (qo_timeout opts)),
     (''txdata'', map_option (\<lambda>bs. JArray (map (\<lambda>b. json_u32 (ucast b)) bs)) (qo_tx_data opts)),
     (''txid'', map_option JString (qo_tx_id opts)),
     (''tximplicit'', map_option JBool (qo_tx_implicit opts)),
     (''txstmtnum'', map_option json_u32 (qo_tx_stmt_num opts)),
     (''txtimeout'', map_option json_duration (qo_tx_timeout opts)),
     (''use_cbo'', map_option JBool (qo_use_cbo opts)),
     (''use_fts'', map_option JBool (qo_use_fts opts)),
     (''use_replica'', map_option json_replica_level (qo_use_replica opts))]"

definition serialize_if_not_none :: "string \<times> Json option \<Rightarrow> (string \<times> Json) list \<Rightarrow> (string \<times> Json) list" where
  "serialize_if_not_none e obj = (case e of (name, Some v) \<Rightarrow> obj_insert name v obj | (_, None) \<Rightarrow> obj)"

definition named_arg_key :: "string \<Rightarrow> string" where
  "named_arg_key k = (if k \<noteq> [] \<and> hd k = CHR ''$'' then k else ''$'' @ k)"

definition insert_named_args :: "QueryOptions \<Rightarrow> (string \<times> Json) list \<Rightarrow> (string \<times> Json) list" where
  "insert_named_args opts obj =
    (case qo_named_args opts of Some args \<Rightarrow> fold (\<lambda>(k, v). obj_insert (named_arg_key k) v) args obj | None \<Rightarrow> obj)"

definition insert_raw :: "QueryOptions \<Rightarrow> (string \<times> Json) list \<Rightarrow> (string \<times> Json) list" where
  "insert_raw opts obj = (case qo_raw opts of Some raw \<Rightarrow> fold (\<lambda>(k, v). obj_insert k v) raw obj | None \<Rightarrow> obj)"

definition serialize_options :: "QueryOptions \<Rightarrow> (string \<times> Json) list" where
  "serialize_options opts = insert_raw opts (insert_named_args opts (fold serialize_if_not_none (option_entries opts) []))"

text \<open>The object of a request: an identifier is added if there is none, and named and raw values are put in once more.\<close>

definition query_object :: "string \<Rightarrow> QueryOptions \<Rightarrow> (string \<times> Json) list" where
  "query_object client_context_id opts =
    (let obj = serialize_options opts;
         obj = (if map_of obj ''client_context_id'' = None
                then obj_insert ''client_context_id'' (JString client_context_id) obj else obj)
     in insert_raw opts (insert_named_args opts obj))"

section \<open>Facts\<close>

lemma map_of_obj_insert [simp]: "map_of (obj_insert k v m) = (map_of m)(k \<mapsto> v)"
  by (induction k v m rule: obj_insert.induct) (auto simp: fun_upd_twist)

lemma map_of_fold_insert:
  "map_of (fold (\<lambda>(k, v). obj_insert (f k) v) kvs obj) = map_of obj ++ map_of (rev (map (apfst f) kvs))"
  by (induction kvs arbitrary: obj) (auto simp: map_add_def fun_eq_iff split: option.split)

lemma map_of_insert_raw:
  "map_of (insert_raw opts obj) = map_of obj ++ map_of (rev (unwrap_or [] (qo_raw opts)))"
  using map_of_fold_insert [of "\<lambda>k. k"]
  by (simp add: insert_raw_def apfst_def map_prod_def split: option.split)

lemma map_of_insert_named_args:
  "map_of (insert_named_args opts obj) = map_of obj ++ map_of (rev (map (apfst named_arg_key) (unwrap_or [] (qo_named_args opts))))"
  by (simp add: insert_named_args_def map_of_fold_insert split: option.split)

text \<open>The value of an option under the name it is sent with.\<close>

definition option_value :: "QueryOptions \<Rightarrow> string \<Rightarrow> Json option" where
  "option_value opts key = map_of (rev (concat (map (\<lambda>(k, v). case v of Some x \<Rightarrow> [(k, x)] | None \<Rightarrow> []) (option_entries opts)))) key"

lemma map_of_serialize_entries:
  "map_of (fold serialize_if_not_none es obj) =
    map_of obj ++ map_of (rev (concat (map (\<lambda>(k, v). case v of Some x \<Rightarrow> [(k, x)] | None \<Rightarrow> []) es)))"
  by (induction es arbitrary: obj)
    (auto simp: serialize_if_not_none_def map_add_def fun_eq_iff split: option.split prod.split)

lemma named_arg_key_dollar: "hd (named_arg_key k) = CHR ''$''" "named_arg_key k \<noteq> []"
  by (auto simp: named_arg_key_def)

lemma named_args_keep:
  assumes "hd key \<noteq> CHR ''$''"
  shows "map_of (map (apfst named_arg_key) args) key = None"
  using assms named_arg_key_dollar(1) by (auto simp: map_of_eq_None_iff)

lemma map_of_rev_distinct: "distinct (map fst xs) \<Longrightarrow> map_of (rev xs) = map_of xs"
proof (induction xs)
  case (Cons x xs)
  then have "map_of xs (fst x) = None" by (simp add: map_of_eq_None_iff)
  then show ?case using Cons by (cases x) (auto simp: map_add_def fun_eq_iff split: option.split)
qed simp

text \<open>The value of one option, without going through all the others.\<close>

lemma option_value_filter:
  "option_value opts key =
    map_of (rev (concat (map (\<lambda>(k, v). case v of Some x \<Rightarrow> [(k, x)] | None \<Rightarrow> []) (filter (\<lambda>e. fst e = key) (option_entries opts))))) key"
proof -
  have "map_of (rev (concat (map (\<lambda>(k, v). case v of Some x \<Rightarrow> [(k, x)] | None \<Rightarrow> []) es))) key =
      map_of (rev (concat (map (\<lambda>(k, v). case v of Some x \<Rightarrow> [(k, x)] | None \<Rightarrow> []) (filter (\<lambda>e. fst e = key) es)))) key"
    for es :: "(string \<times> Json option) list"
    by (induction es) (auto simp: map_add_def split: option.split)
  then show ?thesis by (simp only: option_value_def)
qed

lemma client_context_id_value:
  "option_value opts ''client_context_id'' = map_option JString (qo_client_context_id opts)"
  by (simp add: option_value_filter option_entries_def split: option.split)

text \<open>
  C18. Everything the caller asked for is in the body of a query: a raw value wins over all others, then
  comes a named argument, under its name with a dollar sign in front, then an option under its name in the
  protocol; the body has the identifier of the caller, or the generated one, and nothing else.
\<close>

theorem query_object_fields:
  assumes "distinct (map fst (unwrap_or [] (qo_raw opts)))"
    and "distinct (map (named_arg_key \<circ> fst) (unwrap_or [] (qo_named_args opts)))"
  shows "map_of (query_object uuid opts) key =
    (case map_of (unwrap_or [] (qo_raw opts)) key of
       Some v \<Rightarrow> Some v
     | None \<Rightarrow>
         (case map_of (map (apfst named_arg_key) (unwrap_or [] (qo_named_args opts))) key of
            Some v \<Rightarrow> Some v
          | None \<Rightarrow>
              if key = ''client_context_id'' \<and> qo_client_context_id opts = None then Some (JString uuid)
              else option_value opts key))"
proof -
  let ?N = "map_of (map (apfst named_arg_key) (unwrap_or [] (qo_named_args opts)))"
  let ?R = "map_of (unwrap_or [] (qo_raw opts))"
  have raw: "map_of (insert_raw opts obj) = map_of obj ++ ?R" for obj
    using assms(1) by (simp add: map_of_insert_raw map_of_rev_distinct)
  have named: "map_of (insert_named_args opts obj) = map_of obj ++ ?N" for obj
    using assms(2) by (simp add: map_of_insert_named_args map_of_rev_distinct comp_def apfst_def map_prod_def case_prod_beta)
  have obj: "map_of (serialize_options opts) = option_value opts ++ ?N ++ ?R"
    by (simp add: serialize_options_def raw named map_of_serialize_entries option_value_def [abs_def])
  have "?N ''client_context_id'' = None" by (simp add: named_args_keep)
  then have id: "map_of (serialize_options opts) ''client_context_id'' = None \<longleftrightarrow>
      qo_client_context_id opts = None \<and> ?R ''client_context_id'' = None"
    by (auto simp: obj map_add_None client_context_id_value)
  show ?thesis
    by (auto simp: query_object_def Let_def raw named obj id map_add_def client_context_id_value split: option.split)
qed

theorem query_object_fields_witness:
  "map_of (query_object ''u'' (query_options_new\<lparr>qo_statement := Some ''SELECT 1'', qo_named_args := Some [(''x'', JNull)],
      qo_raw := Some [(''k'', JBool True)]\<rparr>)) ''$x'' = Some JNull"
  using query_object_fields [of "query_options_new\<lparr>qo_statement := Some ''SELECT 1'', qo_named_args := Some [(''x'', JNull)],
      qo_raw := Some [(''k'', JBool True)]\<rparr>" "''u''" "''$x''"]
  by (simp add: query_options_new_def named_arg_key_def)

end
