(* ===== verification/Query_Error.thy ===== *)
theory Query_Error
  imports Rust_Text Core_Error
begin

text \<open>
  Errors of the query service (\<^verbatim>\<open>queryx/error.rs\<close>): their kinds and inspectors, and the names of bucket,
  scope, collection and index that are read out of the messages of the server. Indexing past the end of
  the pieces of a message panics, as it does in the source. The kinds of server errors are those of the
  core errors; \<open>'v\<close> is the type of JSON values.
\<close>

section \<open>Errors\<close>

record 'v ErrorDesc =
  ed_kind :: QueryServerErrorKind
  ed_code :: u32
  ed_message :: string
  ed_retry :: bool
  ed_reason :: "string \<rightharpoonup> 'v"

record 'v QxServerError =
  qs_kind :: QueryServerErrorKind
  qs_endpoint :: string
  qs_status_code :: nat
  qs_code :: u32
  qs_msg :: string
  qs_statement :: "string option"
  qs_client_context_id :: "string option"
  qs_all_error_descs :: "'v ErrorDesc list"

definition qx_server_error_new :: "QueryServerErrorKind \<Rightarrow> string \<Rightarrow> nat \<Rightarrow> u32 \<Rightarrow> string \<Rightarrow> 'v QxServerError" where
  "qx_server_error_new kind endpoint status_code code msg =
    \<lparr>qs_kind = kind, qs_endpoint = endpoint, qs_status_code = status_code, qs_code = code, qs_msg = msg,
     qs_statement = None, qs_client_context_id = None, qs_all_error_descs = []\<rparr>"

definition with_statement :: "string \<Rightarrow> 'v QxServerError \<Rightarrow> 'v QxServerError" where
  "with_statement statement e = e\<lparr>qs_statement := Some statement\<rparr>"

definition with_client_context_id :: "string \<Rightarrow> 'v QxServerError \<Rightarrow> 'v QxServerError" where
  "with_client_context_id client_context_id e = e\<lparr>qs_client_context_id := Some client_context_id\<rparr>"

definition with_error_descs :: "'v ErrorDesc list \<Rightarrow> 'v QxServerError \<Rightarrow> 'v QxServerError" where
  "with_error_descs error_descs e = e\<lparr>qs_all_error_descs := error_descs\<rparr>"

record 'v QxResourceError =
  qr_cause :: "'v QxServerError"
  qr_bucket_name :: "string option"
  qr_scope_name :: "string option"
  qr_collection_name :: "string option"
  qr_index_name :: "string option"

datatype 'v QxError =
    QxServer "'v QxServerError"
  | QxHttp HttpErrorKind string "string option" "string option"
  | QxResource "'v QxResourceError"
  | QxMessage string "string option" "string option" "string option"
  | QxInvalidArgument string "string option"
  | QxEncoding string

section \<open>Names in messages\<close>

definition unnamed :: "'v QxServerError \<Rightarrow> 'v QxResourceError" where
  "unnamed cause = \<lparr>qr_cause = cause, qr_bucket_name = None, qr_scope_name = None, qr_collection_name = None,
     qr_index_name = None\<rparr>"

text \<open>The word after the first word \<^verbatim>\<open>index\<close>; \<^verbatim>\<open>unwrap\<close> panics when there is none.\<close>

fun index_word :: "string list \<Rightarrow> ('e, string option) result" where
  "index_word [] = Ok None"
| "index_word (field # parts) =
    (if field = ''index'' then (case parts of name # _ \<Rightarrow> Ok (Some name) | [] \<Rightarrow> Panic)
     else index_word parts)"

definition parse_index_not_found_or_exists :: "'v QxServerError \<Rightarrow> ('e, 'v QxResourceError) result" where
  "parse_index_not_found_or_exists cause =
    and_then (index_word (split_whitespace (qs_msg cause))) (\<lambda>name. Ok ((unnamed cause)\<lparr>qr_index_name := name\<rparr>))"

definition piece :: "'a list \<Rightarrow> nat \<Rightarrow> ('e, 'a) result" where
  "piece xs i = (if i < length xs then Ok (xs ! i) else Panic)"

definition parse_resource_not_found :: "'v QxServerError \<Rightarrow> ('e, 'v QxResourceError) result" where
  "parse_resource_not_found cause =
    (case find (\<lambda>f. str_contains ''.'' f \<and> str_contains '':'' f) (split_whitespace (qs_msg cause)) of
       None \<Rightarrow> Ok (unnamed cause)
     | Some p \<Rightarrow>
         (case split_char CHR '':'' p of
            _ # trimmed_path # _ \<Rightarrow>
              let parts = split_char CHR ''.'' trimmed_path; n = length parts in
              if qs_kind cause = QueryServerErrorKind.ScopeNotFound then
                and_then (usize_sub n 1) (\<lambda>last.
                and_then (piece parts last) (\<lambda>scope_name.
                Ok ((unnamed cause)\<lparr>qr_bucket_name := Some (str_join ''.'' (take last parts)),
                      qr_scope_name := Some scope_name\<rparr>)))
              else if qs_kind cause = QueryServerErrorKind.CollectionNotFound then
                and_then (usize_sub n 2) (\<lambda>scope.
                and_then (piece parts scope) (\<lambda>scope_name.
                and_then (piece parts (n - 1)) (\<lambda>collection_name.
                Ok ((unnamed cause)\<lparr>qr_bucket_name := Some (str_join ''.'' (take scope parts)),
                      qr_scope_name := Some scope_name, qr_collection_name := Some collection_name\<rparr>))))
              else Ok (unnamed cause)
          | _ \<Rightarrow> Ok (unnamed cause)))"

definition scope_and_collection :: "string list \<Rightarrow> string option \<times> string option" where
  "scope_and_collection parts =
    (if length parts \<ge> 3 then (Some (parts ! 1), Some (parts ! 2)) else (None, None))"

definition parse_auth_failure :: "'v QxServerError \<Rightarrow> ('e, 'v QxResourceError) result" where
  "parse_auth_failure cause =
    (case find (str_contains '':'') (split_whitespace (qs_msg cause)) of
       None \<Rightarrow> Ok (unnamed cause)
     | Some p \<Rightarrow>
         (case split_char CHR '':'' p of
            _ # trimmed_path # _ \<Rightarrow>
              and_then
                (if str_contains ''`'' trimmed_path then
                   let parts = split_char CHR ''`'' trimmed_path in
                   and_then (piece parts 1) (\<lambda>bucket_name.
                   and_then (piece parts 2) (\<lambda>rest.
                   if rest = [] then Ok (bucket_name, None, None)
                   else Ok (bucket_name, scope_and_collection (split_char CHR ''.'' rest))))
                 else
                   let parts = split_char CHR ''.'' trimmed_path in
                   and_then (piece parts 0) (\<lambda>bucket_name. Ok (bucket_name, scope_and_collection parts)))
                (\<lambda>(bucket_name, scope_name, collection_name).
                 Ok ((unnamed cause)\<lparr>qr_bucket_name := Some bucket_name, qr_scope_name := scope_name,
                       qr_collection_name := collection_name\<rparr>))
          | _ \<Rightarrow> Ok (unnamed cause)))"

definition resource_error :: "'v QxServerError \<Rightarrow> ('e, 'v QxResourceError) result" where
  "resource_error cause =
    (let kind = qs_kind cause in
     if kind = QueryServerErrorKind.CollectionNotFound then parse_resource_not_found cause
     else if kind = QueryServerErrorKind.ScopeNotFound then parse_resource_not_found cause
     else if kind = QueryServerErrorKind.AuthenticationFailure then parse_auth_failure cause
     else if kind = QueryServerErrorKind.IndexNotFound then parse_index_not_found_or_exists cause
     else if kind = QueryServerErrorKind.IndexExists then parse_index_not_found_or_exists cause
     else Ok (unnamed cause))"

section \<open>Inspectors\<close>

text \<open>
  \<open>is_server_kind\<close> stands for the thirteen inspectors that look only at server errors, \<open>is_any_kind\<close> for the four
  that also look into resource errors.
\<close>

definition is_server_kind :: "(QueryServerErrorKind \<Rightarrow> bool) \<Rightarrow> 'v QxError \<Rightarrow> bool" where
  "is_server_kind q e = (case e of QxServer s \<Rightarrow> q (qs_kind s) | _ \<Rightarrow> False)"

definition is_any_kind :: "QueryServerErrorKind \<Rightarrow> 'v QxError \<Rightarrow> bool" where
  "is_any_kind k e = (case e of QxResource r \<Rightarrow> qs_kind (qr_cause r) = k | QxServer s \<Rightarrow> qs_kind s = k | _ \<Rightarrow> False)"

definition is_prepared_statement_failure :: "'v QxError \<Rightarrow> bool" where
  "is_prepared_statement_failure = is_server_kind (\<lambda>k. k = QueryServerErrorKind.PreparedStatementFailure)"

definition is_build_already_in_progress :: "'v QxError \<Rightarrow> bool" where
  "is_build_already_in_progress = is_server_kind (\<lambda>k. k = QueryServerErrorKind.BuildAlreadyInProgress)"

definition is_scope_not_found :: "'v QxError \<Rightarrow> bool" where
  "is_scope_not_found = is_any_kind QueryServerErrorKind.ScopeNotFound"

definition is_collection_not_found :: "'v QxError \<Rightarrow> bool" where
  "is_collection_not_found = is_any_kind QueryServerErrorKind.CollectionNotFound"

definition is_index_not_found :: "'v QxError \<Rightarrow> bool" where
  "is_index_not_found = is_any_kind QueryServerErrorKind.IndexNotFound"

definition is_index_exists :: "'v QxError \<Rightarrow> bool" where
  "is_index_exists = is_any_kind QueryServerErrorKind.IndexExists"

text \<open>What the core error keeps of a query error.\<close>

fun query_error_kind :: "'v QxError \<Rightarrow> QueryErrorKind" where
  "query_error_kind (QxServer e) = QueryServer (qs_kind e)"
| "query_error_kind (QxHttp e _ _ _) = QueryHttp e"
| "query_error_kind (QxResource e) = QueryOther ''resource''"
| "query_error_kind (QxMessage msg _ _ _) = QueryOther msg"
| "query_error_kind (QxInvalidArgument msg _) = QueryOther msg"
| "query_error_kind (QxEncoding msg) = QueryOther msg"

definition core_query_error :: "'v QxError \<Rightarrow> CoreError" where
  "core_query_error e = core_error_new (CoreErrorKind.QueryError (query_error_kind e))"

section \<open>Facts\<close>

lemma usize_sub_Ok [simp]: "usize_sub (Suc n) (Suc 0) = Ok n" "usize_sub (Suc (Suc n)) 2 = Ok n"
  by (simp_all add: usize_sub_def)

lemma unnamed_sel [simp]:
  "qr_cause (unnamed c) = c" "qr_bucket_name (unnamed c) = None" "qr_scope_name (unnamed c) = None"
  "qr_collection_name (unnamed c) = None" "qr_index_name (unnamed c) = None"
  by (simp_all add: unnamed_def)

lemma resource_error_cause: "resource_error cause = Ok r \<Longrightarrow> qr_cause r = cause"
  by (auto simp: resource_error_def parse_resource_not_found_def parse_auth_failure_def parse_index_not_found_or_exists_def
      Let_def res_simps split: if_splits option.splits list.splits prod.splits)

text \<open>A path \<open>namespace:bucket.scope.collection\<close> among words that have no dot and colon.\<close>

definition path_words :: "string list \<Rightarrow> string \<Rightarrow> string list \<Rightarrow> bool" where
  "path_words before path after \<longleftrightarrow> (\<forall>w \<in> set (before @ path # after). plain_word w)
    \<and> (\<forall>w \<in> set before. \<not> (CHR ''.'' \<in> set w \<and> CHR '':'' \<in> set w))"

lemma find_append: "\<forall>x \<in> set xs. \<not> P x \<Longrightarrow> find P (xs @ ys) = find P ys"
  by (induction xs) auto

lemma path_found:
  assumes "path_words before path after" and "CHR ''.'' \<in> set path" and "CHR '':'' \<in> set path"
  shows "find (\<lambda>f. str_contains ''.'' f \<and> str_contains '':'' f) (split_whitespace (str_join '' '' (before @ path # after)))
    = Some path"
  using assms by (simp add: split_whitespace_words path_words_def find_append)

lemma split_path:
  assumes "CHR ''.'' \<notin> set b"
  shows "split_char CHR ''.'' (a @ ''.'' @ b) = split_char CHR ''.'' a @ [b]"
  using split_char_last [OF assms] by simp

section \<open>Properties\<close>

text \<open>
  C22. The names in the message of a missing collection are recovered: when the server names the
  keyspace as \<open>namespace:bucket.scope.collection\<close>, the error carries exactly that bucket, scope and
  collection, also when the name of the bucket has dots in it; likewise for a missing scope.
\<close>

theorem keyspace_names_recovered:
  assumes "qs_msg cause = str_join '' '' (before @ (namespace @ '':'' @ bucket @ ''.'' @ scope @ suffix) # after)"
    and "path_words before (namespace @ '':'' @ bucket @ ''.'' @ scope @ suffix) after"
    and "CHR '':'' \<notin> set namespace" and "CHR '':'' \<notin> set (bucket @ scope @ suffix)" and "CHR ''.'' \<notin> set scope"
    and "suffix = ''.'' @ collection \<and> CHR ''.'' \<notin> set collection \<and> qs_kind cause = QueryServerErrorKind.CollectionNotFound
      \<or> suffix = [] \<and> qs_kind cause = QueryServerErrorKind.ScopeNotFound"
  shows "resource_error cause = Ok \<lparr>qr_cause = cause, qr_bucket_name = Some bucket, qr_scope_name = Some scope,
    qr_collection_name = (if suffix = [] then None else Some collection), qr_index_name = None\<rparr>"
proof -
  let ?path = "namespace @ '':'' @ bucket @ ''.'' @ scope @ suffix"
  have found: "find (\<lambda>f. str_contains ''.'' f \<and> str_contains '':'' f) (split_whitespace (qs_msg cause)) = Some ?path"
    unfolding assms(1) by (rule path_found [OF assms(2)]) simp_all
  have parts: "split_char CHR '':'' ?path = [namespace, bucket @ ''.'' @ scope @ suffix]"
    using assms(3,4) by (simp add: split_char_append split_char_none)
  from assms(6) show ?thesis
  proof
    assume c: "suffix = ''.'' @ collection \<and> CHR ''.'' \<notin> set collection \<and> qs_kind cause = QueryServerErrorKind.CollectionNotFound"
    then have "split_char CHR ''.'' (bucket @ ''.'' @ scope @ suffix) = split_char CHR ''.'' bucket @ [scope, collection]"
      using split_path [of collection "bucket @ ''.'' @ scope"] split_path [OF assms(5), of bucket] by simp
    with c found parts show ?thesis
      by (simp add: resource_error_def parse_resource_not_found_def piece_def nth_append str_join_split unnamed_def usize_sub_def Let_def)
  next
    assume s: "suffix = [] \<and> qs_kind cause = QueryServerErrorKind.ScopeNotFound"
    then have "split_char CHR ''.'' (bucket @ ''.'' @ scope @ suffix) = split_char CHR ''.'' bucket @ [scope]"
      using split_path [OF assms(5), of bucket] by simp
    with s found parts show ?thesis
      by (simp add: resource_error_def parse_resource_not_found_def piece_def nth_append str_join_split unnamed_def usize_sub_def Let_def)
  qed
qed

theorem keyspace_names_recovered_witness:
  "resource_error (qx_server_error_new QueryServerErrorKind.CollectionNotFound ''e'' 404 12003
      ''Keyspace not found: default:my.bucket.s.c'') =
    Ok \<lparr>qr_cause = qx_server_error_new QueryServerErrorKind.CollectionNotFound ''e'' 404 12003
          ''Keyspace not found: default:my.bucket.s.c'' :: unit QxServerError,
        qr_bucket_name = Some ''my.bucket'', qr_scope_name = Some ''s'', qr_collection_name = Some ''c'', qr_index_name = None\<rparr>"
  using keyspace_names_recovered [of "qx_server_error_new QueryServerErrorKind.CollectionNotFound ''e'' 404 12003
      ''Keyspace not found: default:my.bucket.s.c''" "[''Keyspace'', ''not'', ''found:'']" "''default''" "''my.bucket''" "''s''" "''.c''" "[]" "''c''"]
  by (simp add: qx_server_error_new_def path_words_def plain_word_def)

text \<open>A message of the server can crash the client: a name that is cut short makes the reader panic.\<close>

theorem cut_message_panics:
  "resource_error (qx_server_error_new QueryServerErrorKind.IndexNotFound ''e'' 404 12004 ''missing index'' :: 'v QxServerError) = Panic"
  "resource_error (qx_server_error_new QueryServerErrorKind.CollectionNotFound ''e'' 404 12003 ''see a.b:c'' :: 'v QxServerError) = Panic"
proof -
  have "split_whitespace ''missing index'' = [''missing'', ''index'']" "split_whitespace ''see a.b:c'' = [''see'', ''a.b:c'']"
    using split_whitespace_words [of "[''missing'', ''index'']"] split_whitespace_words [of "[''see'', ''a.b:c'']"]
    by (simp_all add: plain_word_def)
  then show "resource_error (qx_server_error_new QueryServerErrorKind.IndexNotFound ''e'' 404 12004 ''missing index'' :: 'v QxServerError) = Panic"
    "resource_error (qx_server_error_new QueryServerErrorKind.CollectionNotFound ''e'' 404 12003 ''see a.b:c'' :: 'v QxServerError) = Panic"
    by (simp_all add: resource_error_def qx_server_error_new_def parse_index_not_found_or_exists_def parse_resource_not_found_def
        usize_sub_def Let_def)
qed

end
