(* ===== verification/Json_Rows.thy ===== *)
theory Json_Rows
  imports Json_Streamer
begin

text \<open>
  What the response readers of the query, search and analytics services do with the row streamer: read the
  prelude, ask whether there are rows, hand them out one by one and end with the metadata.
\<close>

text \<open>Asking for more rows in front of the first one leaves the streamer where it is.\<close>

lemma more_rows_in_front:
  assumes "rows \<noteq> []" and "list_all row_ok rows" and "rs_state s = RowsRows"
    and "decoder_at (rs_stream s) (rows_text rows @ 0x5d # r) ArrayStart stk rest"
  shows "\<exists>d rows'. has_more_rows s = (True, s\<lparr>rs_stream := d\<rparr>) \<and> list_all row_ok rows' \<and> length rows' = length rows
    \<and> map row_value rows' = map row_value rows \<and> decoder_at d (rows_text rows' @ 0x5d # r) ArrayStart stk rest"
proof -
  obtain w v w' xs where rows: "rows = (w, v, w') # xs" using assms(1) by (metis list.exhaust prod_cases3)
  have ok: "blanks w" "json_value v" "blanks w'" "list_all row_ok xs" using assms(2) rows by (auto simp: row_ok_def)
  obtain c t where v: "v = c # t" "\<not> is_ascii_whitespace c" "c \<noteq> 0x5d" using json_value_start [OF ok(2)] by blast
  have c: "c \<noteq> 0x7d" using ok(2) v(1)
    by (auto elim!: json_value.cases json_number.cases magnitude.cases simp: is_ascii_digit_def)
  let ?rows' = "([], v, w') # xs"
  obtain u where u: "rows_text rows = w @ v @ u" "rows_text ?rows' = v @ u" using rows by (cases xs) auto
  from more_at [of "rs_stream s" w c "t @ u @ 0x5d # r" ArrayStart stk rest] assms(4) ok(1) v c u
  obtain d where "more_tokens (rs_stream s) = (True, d)" "decoder_at d (v @ u @ 0x5d # r) ArrayStart stk rest" by auto
  with assms(3) ok u rows show ?thesis
    by (intro exI [of _ d] exI [of _ ?rows']) (simp add: has_more_rows_def on_stream_def row_ok_def row_value_def)
qed

text \<open>
  A well-formed response, however it is cut into chunks: the prelude is read with the attributes in front of the
  rows, there are rows, and the items are the rows in their order, the metadata and the end.
\<close>

lemma rows_response_read:
  assumes "concat chunks = response_text w pre ra rows post z" and "blanks w" and "rows_attr_ok fs name ra"
    and "rows \<noteq> []" and "list_all row_ok rows" and "list_all attr_ok pre"
    and "list_all2 (attr_means fs fv) pre ps" and "name \<notin> fst ` set ps"
    and "list_all attr_ok post" and "list_all2 (attr_means fs fv) post qs"
    and "tv (insert_attrs Map.empty (ps @ qs)) = Inr b"
  shows "\<exists>s s' s''. begin_stream fs fv (streamer_new (decoder_new (map Inr chunks)) name) = Some (Ok (), s)
    \<and> rs_attribs s = insert_attrs Map.empty ps \<and> has_more_rows s = (True, s')
    \<and> row_items fs fv tv (length rows + 2) s'
        = Some (map (\<lambda>v. Some (Ok (Row v))) (map row_value rows) @ [Some (Ok (Metadata b)), None], s'')"
proof -
  let ?post = "concat (map (\<lambda>a. 0x2c # attr_text a) post) @ 0x7d # z"
  obtain s rows1 where s: "begin_stream fs fv (streamer_new (decoder_new (map Inr chunks)) name) = Some (Ok (), s)"
      "rs_state s = RowsRows" "rs_attribs s = insert_attrs Map.empty ps"
    and rows1: "list_all row_ok rows1" "length rows1 = length rows" "map row_value rows1 = map row_value rows"
      "decoder_at (rs_stream s) (rows_text rows1 @ 0x5d # a_post ra @ ?post) ArrayStart [ObjectValue, TopValue] []"
    using prelude_read [OF assms(1-8)] by blast
  have "rows1 \<noteq> []" using rows1(2) assms(4) by auto
  from more_rows_in_front [OF this rows1(1) s(2) rows1(4)] obtain d rows2 where
    more: "has_more_rows s = (True, s\<lparr>rs_stream := d\<rparr>)" and rows2: "list_all row_ok rows2" "length rows2 = length rows"
      "map row_value rows2 = map row_value rows"
      "decoder_at d (rows_text rows2 @ 0x5d # a_post ra @ ?post) ArrayStart [ObjectValue, TopValue] []"
    using rows1(2,3) by auto
  have "rows2 \<noteq> []" using rows2(2) assms(4) by auto
  moreover have "blanks (a_post ra)" using assms(3) by (simp add: rows_attr_ok_def)
  moreover have "tv (insert_attrs (rs_attribs (s\<lparr>rs_stream := d\<rparr>)) qs) = Inr b" using assms(11) s(3) by (simp add: insert_attrs_def)
  ultimately obtain s'' where "row_items fs fv tv (length rows2 + 2) (s\<lparr>rs_stream := d\<rparr>)
      = Some (map (\<lambda>v. Some (Ok (Row v))) (map row_value rows2) @ [Some (Ok (Metadata b)), None], s'')"
    using rows_and_metadata [OF _ rows2(1) _ assms(9,10), of "a_post ra" "s\<lparr>rs_stream := d\<rparr>" z tv b] s(2) rows2(4) by auto
  then show ?thesis using s more rows2(2,3) by auto
qed

end
