(* ===== verification/Query_Reader.thy ===== *)
theory Query_Reader
  imports Query_Error Json_Rows Durations Http_Client
begin

text \<open>
  Reading the response of a query (\<^verbatim>\<open>queryx/query_respreader.rs\<close>, the JSON structures of
  \<^verbatim>\<open>queryx/query_json.rs\<close> and the results of \<^verbatim>\<open>queryx/query_result.rs\<close>): the classification of server
  errors, the reader that hands out rows, and the metadata behind them. The JSON library, the regular
  expressions, Unicode lower case and the text of a status code are parameters, gathered in a record.
  A value \<open>None\<close> of type option around a whole outcome stands for reading forever.
\<close>

section \<open>Structures of the response\<close>

datatype QueryStatus =
    Running | QuerySuccess | QueryErrors | Completed | Stopped | QueryTimeout | QueryClosed | Fatal | Aborted | QueryUnknown

record 'v QueryErrorJson =
  qj_code :: u32
  qj_msg :: string
  qj_reason :: "string \<rightharpoonup> 'v"
  qj_retry :: "bool option"

record QueryMetricsJson =
  mj_elapsed_time :: "string option"
  mj_execution_time :: "string option"
  mj_result_count :: "u64 option"
  mj_result_size :: "u64 option"
  mj_mutation_count :: "u64 option"
  mj_sort_count :: "u64 option"
  mj_error_count :: "u64 option"
  mj_warning_count :: "u64 option"

record QueryWarningJson =
  wj_code :: "u32 option"
  wj_msg :: "string option"

record 'v QueryMetaDataJson =
  dj_prepared :: "string option"
  dj_request_id :: "string option"
  dj_client_context_id :: "string option"
  dj_status :: QueryStatus
  dj_errors :: "'v QueryErrorJson list"
  dj_warnings :: "QueryWarningJson list"
  dj_metrics :: "QueryMetricsJson option"
  dj_profile :: "bytes option"
  dj_signature :: "bytes option"

record Warning =
  wa_code :: u32
  wa_message :: string

record Metrics =
  mx_elapsed_time :: nat
  mx_execution_time :: nat
  mx_result_count :: u64
  mx_result_size :: u64
  mx_mutation_count :: u64
  mx_sort_count :: u64
  mx_error_count :: u64
  mx_warning_count :: u64

record QueryMetaData =
  md_prepared :: "string option"
  md_request_id :: string
  md_client_context_id :: string
  md_status :: QueryStatus
  md_metrics :: "Metrics option"
  md_signature :: "bytes option"
  md_warnings :: "Warning list"
  md_profile :: "bytes option"

section \<open>Libraries\<close>

record 'v QueryEnv =
  qe_overflow_checks :: bool
  qe_frac :: "nat \<Rightarrow> nat \<Rightarrow> nat \<Rightarrow> nat option"
  qe_lower :: "string \<Rightarrow> string"
  qe_is_match :: "string \<Rightarrow> string \<Rightarrow> bool"
  qe_eq_int :: "'v \<Rightarrow> int \<Rightarrow> bool"
  qe_show_status :: "nat \<Rightarrow> string"
  qe_from_str :: "bytes \<Rightarrow> string + string"
  qe_from_value :: "bytes \<Rightarrow> string + 'v"
  qe_to_vec :: "(string \<rightharpoonup> 'v) \<Rightarrow> string + bytes"
  qe_error_response :: "bytes \<Rightarrow> string + 'v QueryErrorJson list"
  qe_early_meta_data :: "bytes \<Rightarrow> string + string option"
  qe_meta_data :: "bytes \<Rightarrow> string + 'v QueryMetaDataJson"

section \<open>Classification of errors\<close>

definition dml_error_kind :: "'v QueryEnv \<Rightarrow> 'v QueryErrorJson \<Rightarrow> QueryServerErrorKind" where
  "dml_error_kind env error =
    (if qj_reason error \<noteq> Map.empty then
       (case qj_reason error ''code'' of
          Some code \<Rightarrow>
            if qe_eq_int env code 12033 then QueryServerErrorKind.CasMismatch
            else if qe_eq_int env code 17014 then QueryServerErrorKind.DocNotFound
            else if qe_eq_int env code 17012 then QueryServerErrorKind.DocExists
            else QueryServerErrorKind.DMLFailure
        | None \<Rightarrow> QueryServerErrorKind.DMLFailure)
     else if str_contains ''cas mismatch'' (qe_lower env (qj_msg error)) then QueryServerErrorKind.CasMismatch
     else QueryServerErrorKind.DMLFailure)"

definition planner_error_kind :: "u32 \<Rightarrow> QueryServerErrorKind" where
  "planner_error_kind err_code =
    (if err_code \<in> {4040, 4050, 4060, 4070, 4080, 4090} then QueryServerErrorKind.PreparedStatementFailure
     else if err_code = 4300 then QueryServerErrorKind.IndexExists
     else QueryServerErrorKind.PlanningFailure)"

definition internal_error_kind :: "'v QueryEnv \<Rightarrow> string \<Rightarrow> QueryServerErrorKind" where
  "internal_error_kind env text =
    (let msg = qe_lower env text in
     if str_contains ''not enough'' msg \<and> str_contains ''replica'' msg then
       QueryServerErrorKind.InvalidArgument ''num_replicas'' ''not enough indexer nodes to create index with replica count''
     else if str_contains ''build already in progress'' msg then QueryServerErrorKind.BuildAlreadyInProgress
     else if qe_is_match env ''.*?ndex .*? already exist.*'' text then QueryServerErrorKind.IndexExists
     else if qe_is_match env ''.*?ndex .*? not exist.*'' text then QueryServerErrorKind.IndexNotFound
     else QueryServerErrorKind.Internal)"

definition data_error_kind :: "'v QueryEnv \<Rightarrow> 'v QueryErrorJson \<Rightarrow> QueryServerErrorKind" where
  "data_error_kind env error =
    (let err_code = qj_code error in
     if err_code = 12003 then QueryServerErrorKind.CollectionNotFound
     else if err_code = 12004 then QueryServerErrorKind.IndexNotFound
     else if err_code = 12009 then dml_error_kind env error
     else if err_code = 12016 then QueryServerErrorKind.IndexNotFound
     else if err_code = 12021 then QueryServerErrorKind.ScopeNotFound
     else QueryServerErrorKind.IndexFailure)"

definition parse_error_kind :: "'v QueryEnv \<Rightarrow> 'v QueryErrorJson \<Rightarrow> QueryServerErrorKind" where
  "parse_error_kind env error =
    (let err_code = qj_code error; err_code_group = err_code div 1000 in
     if err_code_group = 4 then planner_error_kind err_code
     else if err_code_group = 5 then internal_error_kind env (qj_msg error)
     else if err_code_group = 12 then data_error_kind env error
     else if err_code_group = 14 then QueryServerErrorKind.IndexFailure
     else if err_code_group = 10 then QueryServerErrorKind.AuthenticationFailure
     else if err_code = 1000 then QueryServerErrorKind.WriteInReadOnlyMode
     else if err_code = 1080 then QueryServerErrorKind.Timeout
     else if err_code = 3000 then QueryServerErrorKind.ParsingFailure
     else if err_code = 13014 then QueryServerErrorKind.AuthenticationFailure
     else QueryServerErrorKind.Unknown)"

definition error_desc :: "'v QueryEnv \<Rightarrow> 'v QueryErrorJson \<Rightarrow> 'v ErrorDesc" where
  "error_desc env error =
    \<lparr>ed_kind = parse_error_kind env error, ed_code = qj_code error, ed_message = qj_msg error,
     ed_retry = unwrap_or False (qj_retry error), ed_reason = qj_reason error\<rparr>"

definition chosen_desc :: "'v ErrorDesc list \<Rightarrow> ('e, 'v ErrorDesc) result" where
  "chosen_desc error_descs =
    (case find (\<lambda>desc. \<not> ed_retry desc) error_descs of
       Some desc \<Rightarrow> Ok desc
     | None \<Rightarrow> piece error_descs 0)"

definition resource_kinds :: "QueryServerErrorKind list" where
  "resource_kinds = [QueryServerErrorKind.ScopeNotFound, QueryServerErrorKind.CollectionNotFound,
     QueryServerErrorKind.IndexNotFound, QueryServerErrorKind.IndexExists]"

definition parse_errors :: "'v QueryEnv \<Rightarrow> 'v QueryErrorJson list \<Rightarrow> string \<Rightarrow> string \<Rightarrow> string \<Rightarrow> nat \<Rightarrow> ('e, 'v QxError) result" where
  "parse_errors env errors endpoint statement client_context_id status_code =
    (let error_descs = map (error_desc env) errors in
     and_then (chosen_desc error_descs) (\<lambda>desc.
     let server_error = with_statement statement (with_client_context_id client_context_id
           (qx_server_error_new (ed_kind desc) endpoint status_code (ed_code desc) (ed_message desc)));
         server_error = (if length error_descs > 1 then with_error_descs error_descs server_error else server_error) in
     if qs_kind server_error \<in> set resource_kinds
        \<or> qs_kind server_error = QueryServerErrorKind.AuthenticationFailure \<and> qs_code server_error = 13014
     then and_then (resource_error server_error) (\<lambda>r. Ok (QxResource r))
     else Ok (QxServer server_error)))"

section \<open>Metadata\<close>

definition metric_time :: "'v QueryEnv \<Rightarrow> string option \<Rightarrow> ('e, nat) result" where
  "metric_time env text =
    (case text of
       Some t \<Rightarrow>
         (case parse_duration_from_golang_string (qe_overflow_checks env) (qe_frac env) t of
            Ok d \<Rightarrow> Ok d
          | Err _ \<Rightarrow> Ok 0
          | Panic \<Rightarrow> Panic)
     | None \<Rightarrow> Ok 0)"

definition parse_metrics :: "'v QueryEnv \<Rightarrow> QueryMetricsJson option \<Rightarrow> ('e, Metrics option) result" where
  "parse_metrics env metrics =
    (case metrics of
       None \<Rightarrow> Ok None
     | Some m \<Rightarrow>
         and_then (metric_time env (mj_elapsed_time m)) (\<lambda>elapsed_time.
         and_then (metric_time env (mj_execution_time m)) (\<lambda>execution_time.
         Ok (Some \<lparr>mx_elapsed_time = elapsed_time, mx_execution_time = execution_time,
           mx_result_count = unwrap_or 0 (mj_result_count m), mx_result_size = unwrap_or 0 (mj_result_size m),
           mx_mutation_count = unwrap_or 0 (mj_mutation_count m), mx_sort_count = unwrap_or 0 (mj_sort_count m),
           mx_error_count = unwrap_or 0 (mj_error_count m), mx_warning_count = unwrap_or 0 (mj_warning_count m)\<rparr>))))"

definition parse_warnings :: "QueryWarningJson list \<Rightarrow> Warning list" where
  "parse_warnings = map (\<lambda>w. \<lparr>wa_code = unwrap_or 0 (wj_code w), wa_message = unwrap_or [] (wj_msg w)\<rparr>)"

section \<open>Reader\<close>

record 'v QueryRespReader =
  qrr_endpoint :: string
  qrr_statement :: string
  qrr_client_context_id :: string
  qrr_status_code :: nat
  qrr_streamer :: "'v RawJsonRowStreamer"
  qrr_early_meta_data :: "string option"
  qrr_meta_data :: "QueryMetaData option"
  qrr_meta_data_error :: "'v QxError option"

definition parse_metadata :: "'v QueryEnv \<Rightarrow> 'v QueryRespReader \<Rightarrow> 'v QueryMetaDataJson \<Rightarrow> ('v QxError, QueryMetaData) result" where
  "parse_metadata env self metadata =
    (if dj_errors metadata \<noteq> [] then
       and_then (parse_errors env (dj_errors metadata) (qrr_endpoint self) (qrr_statement self) (qrr_client_context_id self)
         (qrr_status_code self)) Err
     else
       and_then (parse_metrics env (dj_metrics metadata)) (\<lambda>metrics.
       Ok \<lparr>md_prepared = dj_prepared metadata, md_request_id = unwrap_or [] (dj_request_id metadata),
           md_client_context_id = unwrap_or [] (dj_client_context_id metadata), md_status = dj_status metadata,
           md_metrics = metrics, md_signature = dj_signature metadata, md_warnings = parse_warnings (dj_warnings metadata),
           md_profile = dj_profile metadata\<rparr>))"

definition read_final_metadata :: "'v QueryEnv \<Rightarrow> 'v QueryRespReader \<Rightarrow> bytes \<Rightarrow> ('v QxError, QueryMetaData) result" where
  "read_final_metadata env self body =
    (case qe_meta_data env body of
       Inl e \<Rightarrow> Err (QxMessage (''failed to parse query metadata from epilog: '' @ e) (Some (qrr_endpoint self))
         (Some (qrr_statement self)) (Some (qrr_client_context_id self)))
     | Inr metadata \<Rightarrow> parse_metadata env self metadata)"

definition read_early_metadata ::
    "'v QueryEnv \<Rightarrow> 'v RawJsonRowStreamer \<Rightarrow> string \<Rightarrow> string \<Rightarrow> string
      \<Rightarrow> (('v QxError, string option) result \<times> 'v RawJsonRowStreamer) option" where
  "read_early_metadata env streamer endpoint statement client_context_id =
    map_option (\<lambda>(r, streamer).
      (and_then (map_err (\<lambda>e. QxHttp e endpoint (Some statement) (Some client_context_id)) r) (\<lambda>prelude.
         case qe_early_meta_data env prelude of
           Inl e \<Rightarrow> Err (QxMessage (''failed to parse metadata from response: '' @ e) (Some endpoint) (Some statement)
             (Some client_context_id))
         | Inr prepared \<Rightarrow> Ok prepared), streamer))
      (read_prelude (qe_from_str env) (qe_from_value env) (qe_to_vec env) streamer)"

definition error_body :: "'v QueryEnv \<Rightarrow> HttpResponse \<Rightarrow> string \<Rightarrow> string \<Rightarrow> string \<Rightarrow> ('v QxError, 'r) result" where
  "error_body env resp endpoint statement client_context_id =
    and_then (map_err (\<lambda>e. QxHttp e endpoint (Some statement) (Some client_context_id)) (http_bytes (hp_body resp))) (\<lambda>body.
    case qe_error_response env body of
      Inl e \<Rightarrow> Err (QxMessage (''non-200 status code received '' @ qe_show_status env (hp_status resp)
        @ '' but parsing error response body failed '' @ e) None None None)
    | Inr [] \<Rightarrow> Err (QxMessage (''Non-200 status code received '' @ qe_show_status env (hp_status resp)
        @ '' but response body contained no errors'') None None None)
    | Inr errors \<Rightarrow> and_then (parse_errors env errors endpoint statement client_context_id (hp_status resp)) Err)"

definition reader_new ::
    "'v QueryEnv \<Rightarrow> HttpResponse \<Rightarrow> string \<Rightarrow> string \<Rightarrow> string \<Rightarrow> ('v QxError, 'v QueryRespReader) result option" where
  "reader_new env resp endpoint statement client_context_id =
    (if hp_status resp \<noteq> 200 then Some (error_body env resp endpoint statement client_context_id)
     else
       (case read_early_metadata env (streamer_new (decoder_new (hp_body resp)) ''results'') endpoint statement
               client_context_id of
          None \<Rightarrow> None
        | Some (Err e, _) \<Rightarrow> Some (Err e)
        | Some (Panic, _) \<Rightarrow> Some Panic
        | Some (Ok early_meta_data, streamer) \<Rightarrow>
            (case has_more_rows streamer of (more_rows, streamer) \<Rightarrow>
               let reader = \<lparr>qrr_endpoint = endpoint, qrr_statement = statement, qrr_client_context_id = client_context_id,
                     qrr_status_code = hp_status resp, qrr_streamer = streamer, qrr_early_meta_data = early_meta_data,
                     qrr_meta_data = None, qrr_meta_data_error = None\<rparr> in
               if more_rows then Some (Ok reader)
               else
                 Some (and_then (map_err (\<lambda>e. QxHttp e endpoint (Some statement) (Some client_context_id))
                         (epilog (qe_to_vec env) streamer)) (\<lambda>text.
                       and_then (read_final_metadata env reader text) (\<lambda>meta.
                       Ok (reader\<lparr>qrr_meta_data := Some meta\<rparr>)))))))"

text \<open>\<open>Some None\<close> is the end of the rows.\<close>

definition reader_next ::
    "'v QueryEnv \<Rightarrow> 'v QueryRespReader \<Rightarrow> (('v QxError, bytes) result option \<times> 'v QueryRespReader) option" where
  "reader_next env self =
    map_option (\<lambda>(item, streamer).
      let self = self\<lparr>qrr_streamer := streamer\<rparr> in
      case item of
        Some (Ok (Row row_data)) \<Rightarrow> (Some (Ok row_data), self)
      | Some (Ok (Metadata metadata)) \<Rightarrow>
          (case read_final_metadata env self metadata of
             Ok meta \<Rightarrow> (None, self\<lparr>qrr_meta_data := Some meta\<rparr>)
           | Err e \<Rightarrow> (Some (Err e), self\<lparr>qrr_meta_data_error := Some e\<rparr>)
           | Panic \<Rightarrow> (Some Panic, self))
      | Some (Err e) \<Rightarrow> (Some (Err (QxHttp e (qrr_endpoint self) (Some (qrr_statement self)) (Some (qrr_client_context_id self)))), self)
      | Some Panic \<Rightarrow> (Some Panic, self)
      | None \<Rightarrow> (None, self))
      (next_item (qe_from_str env) (qe_from_value env) (qe_to_vec env) (qrr_streamer self))"

definition reader_metadata :: "'v QueryRespReader \<Rightarrow> ('v QxError, QueryMetaData) result" where
  "reader_metadata self =
    (case qrr_meta_data_error self of
       Some e \<Rightarrow> Err e
     | None \<Rightarrow>
         (case qrr_meta_data self of
            Some meta \<Rightarrow> Ok meta
          | None \<Rightarrow> Err (QxMessage ''cannot read meta-data until after all rows are read'' None None None)))"

text \<open>The first \<open>n\<close> items a caller reads.\<close>

fun reader_items :: "'v QueryEnv \<Rightarrow> nat \<Rightarrow> 'v QueryRespReader \<Rightarrow> (('v QxError, bytes) result option list \<times> 'v QueryRespReader) option" where
  "reader_items env 0 self = Some ([], self)"
| "reader_items env (Suc n) self =
    (case reader_next env self of
       None \<Rightarrow> None
     | Some (item, self') \<Rightarrow> map_option (apfst ((#) item)) (reader_items env n self'))"

section \<open>Facts\<close>

lemma final_metadata_streamer [simp]:
  "read_final_metadata env (self\<lparr>qrr_streamer := s\<rparr>) b = read_final_metadata env self b"
  by (simp add: read_final_metadata_def parse_metadata_def split: sum.split)

lemma reader_items_of_rows:
  assumes "row_items (qe_from_str env) (qe_from_value env) (qe_to_vec env) (length vs + 2) (qrr_streamer self)
      = Some (map (\<lambda>v. Some (Ok (Row v))) vs @ [Some (Ok (Metadata b)), None], s')"
    and "read_final_metadata env self b = Ok meta"
  shows "\<exists>s''. reader_items env (length vs + 1) self
    = Some (map (\<lambda>v. Some (Ok v)) vs @ [None], self\<lparr>qrr_streamer := s'', qrr_meta_data := Some meta\<rparr>)"
  using assms
proof (induction vs arbitrary: self)
  case Nil
  then show ?case by (auto simp: numeral_2_eq_2 reader_next_def split: option.splits)
next
  case (Cons v vs)
  then obtain s1 where 1: "next_item (qe_from_str env) (qe_from_value env) (qe_to_vec env) (qrr_streamer self) = Some (Some (Ok (Row v)), s1)"
      "row_items (qe_from_str env) (qe_from_value env) (qe_to_vec env) (length vs + 2) s1
        = Some (map (\<lambda>v. Some (Ok (Row v))) vs @ [Some (Ok (Metadata b)), None], s')"
    by (auto split: option.splits)
  have "\<exists>s''. reader_items env (length vs + 1) (self\<lparr>qrr_streamer := s1\<rparr>)
      = Some (map (\<lambda>v. Some (Ok v)) vs @ [None], self\<lparr>qrr_streamer := s1\<rparr>\<lparr>qrr_streamer := s'', qrr_meta_data := Some meta\<rparr>)"
    by (rule Cons.IH) (use 1 Cons.prems(2) in simp_all)
  moreover have "reader_next env self = Some (Some (Ok v), self\<lparr>qrr_streamer := s1\<rparr>)" using 1(1) by (simp add: reader_next_def Let_def)
  ultimately show ?case by auto
qed

text \<open>The reader in front of the first row.\<close>

definition opened_reader ::
    "'v RawJsonRowStreamer \<Rightarrow> string \<Rightarrow> string \<Rightarrow> string \<Rightarrow> string option \<Rightarrow> 'v QueryRespReader" where
  "opened_reader s endpoint statement client_context_id prepared =
    \<lparr>qrr_endpoint = endpoint, qrr_statement = statement, qrr_client_context_id = client_context_id, qrr_status_code = 200,
     qrr_streamer = s, qrr_early_meta_data = prepared, qrr_meta_data = None, qrr_meta_data_error = None\<rparr>"

lemma reader_opened:
  assumes "hp_status resp = 200"
    and "begin_stream (qe_from_str env) (qe_from_value env) (streamer_new (decoder_new (hp_body resp)) ''results'') = Some (Ok (), s)"
    and "has_more_rows s = (True, s')"
    and "qe_to_vec env (rs_attribs s) = Inr prelude" and "qe_early_meta_data env prelude = Inr prepared"
  shows "reader_new env resp endpoint statement client_context_id
      = Some (Ok (opened_reader s' endpoint statement client_context_id prepared))"
  using assms
  by (simp add: reader_new_def read_early_metadata_def read_prelude_def encode_attribs_def dec_then_def opened_reader_def)

section \<open>Properties\<close>


text \<open>Which of several errors is reported.\<close>

definition reported :: "'v ErrorDesc list \<Rightarrow> 'v ErrorDesc \<Rightarrow> bool" where
  "reported descs desc \<longleftrightarrow> (\<exists>before after. descs = before @ desc # after
    \<and> (if ed_retry desc then before = [] \<and> list_all ed_retry after else list_all ed_retry before))"

lemma chosen_desc_reported: "chosen_desc descs = Ok desc \<Longrightarrow> reported descs desc"
proof (cases "find (\<lambda>desc. \<not> ed_retry desc) descs")
  case None
  assume "chosen_desc descs = Ok desc"
  with None have "descs = desc # tl descs" by (cases descs) (auto simp: chosen_desc_def piece_def)
  moreover from None have "\<forall>x \<in> set descs. ed_retry x" by (auto simp: find_None_iff)
  ultimately show ?thesis unfolding reported_def by (metis append_Nil list.set_intros list_all_iff)
next
  case (Some x)
  assume "chosen_desc descs = Ok desc"
  with Some have x: "x = desc" by (simp add: chosen_desc_def)
  from Some obtain i where i: "i < length descs" "\<not> ed_retry (descs ! i)" "x = descs ! i" "\<forall>j < i. ed_retry (descs ! j)"
    by (auto simp: find_Some_iff)
  then have "descs = take i descs @ desc # drop (Suc i) descs" "list_all ed_retry (take i descs)"
    using x by (auto simp: list_all_length id_take_nth_drop)
  with i x show ?thesis unfolding reported_def by auto
qed

lemma chosen_desc_total: "descs \<noteq> [] \<Longrightarrow> \<exists>desc. chosen_desc descs = Ok desc"
  by (cases descs) (auto simp: chosen_desc_def piece_def split: option.splits)

definition qx_cause :: "'v QxError \<Rightarrow> 'v QxServerError option" where
  "qx_cause e = (case e of QxServer s \<Rightarrow> Some s | QxResource r \<Rightarrow> Some (qr_cause r) | _ \<Rightarrow> None)"

lemma parse_errors_cause:
  assumes "parse_errors env errors endpoint statement client_context_id status = Ok e"
  shows "\<exists>desc s. reported (map (error_desc env) errors) desc \<and> qx_cause e = Some s
    \<and> qs_kind s = ed_kind desc \<and> qs_code s = ed_code desc \<and> qs_msg s = ed_message desc \<and> qs_endpoint s = endpoint
    \<and> qs_status_code s = status \<and> qs_statement s = Some statement \<and> qs_client_context_id s = Some client_context_id"
proof -
  obtain desc where desc: "chosen_desc (map (error_desc env) errors) = (Ok desc :: ('a, 'b ErrorDesc) result)"
    using assms by (auto simp: parse_errors_def Let_def res_simps)
  let ?s = "with_statement statement (with_client_context_id client_context_id
           (qx_server_error_new (ed_kind desc) endpoint status (ed_code desc) (ed_message desc)))"
  have "qx_cause e = Some (if length errors > 1 then with_error_descs (map (error_desc env) errors) ?s else ?s)"
    using assms desc resource_error_cause
    by (auto simp: parse_errors_def Let_def res_simps qx_cause_def split: if_splits dest: resource_error_cause)
  then obtain s where "qx_cause e = Some s" "s = ?s \<or> s = with_error_descs (map (error_desc env) errors) ?s"
    by (cases "length errors > 1") auto
  then show ?thesis
    using chosen_desc_reported [OF desc]
    by (intro exI [of _ desc] exI [of _ s]) (auto simp: with_statement_def with_client_context_id_def with_error_descs_def qx_server_error_new_def)
qed

lemma index_word_not_Err: "index_word ws \<noteq> Err x"
  by (induction ws) (auto split: list.split)

lemma resource_error_not_Err: "resource_error cause \<noteq> Err x"
  by (auto simp: resource_error_def parse_resource_not_found_def parse_auth_failure_def parse_index_not_found_or_exists_def
      index_word_not_Err piece_def usize_sub_def Let_def res_simps split: if_splits option.splits list.splits)

lemma parse_errors_not_Err: "parse_errors env errors endpoint statement client_context_id status \<noteq> Err x"
proof -
  have "chosen_desc descs \<noteq> (Err x :: ('a, 'b ErrorDesc) result)" for descs by (auto simp: chosen_desc_def piece_def split: option.split)
  then show ?thesis by (auto simp: parse_errors_def Let_def res_simps resource_error_not_Err split: if_splits)
qed

text \<open>
  C21. A failed query is reported as the server says: when the response has another status than 200 and lists
  errors, creating the reader fails with the first error the server does not mark as retriable, or the first
  one if it marks all, with its code and message and the endpoint, status, statement and context of the request
  (unless reading a name out of the message panics).
\<close>

theorem query_error_reported:
  assumes "hp_status resp \<noteq> 200" and "http_bytes (hp_body resp) = Ok body" and "qe_error_response env body = Inr errors"
    and "errors \<noteq> []" and "reader_new env resp endpoint statement client_context_id \<noteq> Some Panic"
  shows "\<exists>e desc s. reader_new env resp endpoint statement client_context_id = Some (Err e)
    \<and> reported (map (error_desc env) errors) desc \<and> qx_cause e = Some s
    \<and> qs_kind s = ed_kind desc \<and> qs_code s = ed_code desc \<and> qs_msg s = ed_message desc \<and> qs_endpoint s = endpoint
    \<and> qs_status_code s = hp_status resp \<and> qs_statement s = Some statement \<and> qs_client_context_id s = Some client_context_id"
proof -
  have new: "reader_new env resp endpoint statement client_context_id =
      Some (and_then (parse_errors env errors endpoint statement client_context_id (hp_status resp)) Err)"
    using assms(1-4) by (cases errors) (simp_all add: reader_new_def error_body_def)
  obtain e where e: "parse_errors env errors endpoint statement client_context_id (hp_status resp) = (Ok e :: ('a QxError, 'a QxError) result)"
    using assms(5) new by (cases "parse_errors env errors endpoint statement client_context_id (hp_status resp) :: ('a QxError, 'a QxError) result") (auto simp: parse_errors_not_Err)
  from parse_errors_cause [OF this] new e show ?thesis by auto
qed

definition sample_query_env :: "bytes QueryEnv" where
  "sample_query_env = \<lparr>qe_overflow_checks = True, qe_frac = (\<lambda>_ _ _. None), qe_lower = (\<lambda>s. s), qe_is_match = (\<lambda>_ _. False),
     qe_eq_int = (\<lambda>_ _. False), qe_show_status = (\<lambda>_. ''404 Not Found''), qe_from_str = (\<lambda>_. Inr ''results''), qe_from_value = Inr,
     qe_to_vec = (\<lambda>_. Inr [0x7b, 0x7d]),
     qe_error_response = (\<lambda>_. Inr [\<lparr>qj_code = 4050, qj_msg = ''p'', qj_reason = Map.empty, qj_retry = Some True\<rparr>,
       \<lparr>qj_code = 3000, qj_msg = ''q'', qj_reason = Map.empty, qj_retry = None\<rparr>]),
     qe_early_meta_data = (\<lambda>_. Inr (Some ''name'')),
     qe_meta_data = (\<lambda>_. Inr \<lparr>dj_prepared = None, dj_request_id = None, dj_client_context_id = None, dj_status = QuerySuccess,
       dj_errors = [], dj_warnings = [], dj_metrics = None, dj_profile = None, dj_signature = None\<rparr>)\<rparr>"


theorem query_error_reported_witness:
  "\<exists>e s. reader_new sample_query_env \<lparr>hp_status = 404, hp_body = []\<rparr> ''e'' ''s'' ''c'' = Some (Err e)
    \<and> qx_cause e = Some s \<and> qs_endpoint s = ''e'' \<and> qs_status_code s = 404 \<and> qs_client_context_id s = Some ''c''"
proof -
  have "reader_new sample_query_env \<lparr>hp_status = 404, hp_body = []\<rparr> ''e'' ''s'' ''c'' \<noteq> Some Panic"
    by (simp add: reader_new_def error_body_def sample_query_env_def parse_errors_def chosen_desc_def error_desc_def parse_error_kind_def
        planner_error_kind_def resource_kinds_def with_statement_def with_client_context_id_def with_error_descs_def
        qx_server_error_new_def Let_def)
  then show ?thesis
    using query_error_reported [of "\<lparr>hp_status = 404, hp_body = []\<rparr>" "[]" sample_query_env _ "''e''" "''s''" "''c''"]
    by (force simp: sample_query_env_def)
qed
end
