(* ===== verification/Query_Client.thy ===== *)
theory Query_Client
  imports Query_Options Query_Reader
begin

text \<open>
  The client of the query service (\<^verbatim>\<open>queryx/query.rs\<close>, \<^verbatim>\<open>queryx/preparedquery.rs\<close>, \<^verbatim>\<open>queryx/index.rs\<close>): running a
  statement, prepared statements with their cache, and the statements for indexes. An operation is a
  function on the state of the world \<open>'w\<close> that has no value if it never ends. The printer of JSON values,
  the parser of index rows, random identifiers and the HTTP client are gathered in a record.
\<close>

section \<open>Operations on the world\<close>

definition io_then ::
    "(('e, 'a) result \<times> 'w) option \<Rightarrow> ('a \<Rightarrow> 'w \<Rightarrow> (('e, 'b) result \<times> 'w) option) \<Rightarrow> (('e, 'b) result \<times> 'w) option" where
  "io_then m f =
    (case m of
       None \<Rightarrow> None
     | Some (r, w) \<Rightarrow> (case r of Ok x \<Rightarrow> f x w | Err e \<Rightarrow> Some (Err e, w) | Panic \<Rightarrow> Some (Panic, w)))"

lemma io_then_simps [simp]:
  "io_then None f = None" "io_then (Some (Ok x, w)) f = f x w"
  "io_then (Some (Err e, w)) f = Some (Err e, w)" "io_then (Some (Panic, w)) f = Some (Panic, w)"
  by (simp_all add: io_then_def)

lemma io_then_eq_Ok:
  "io_then m f = Some (Ok y, w') \<longleftrightarrow> (\<exists>x w. m = Some (Ok x, w) \<and> f x w = Some (Ok y, w'))"
  by (auto simp: io_then_def split: option.splits result.splits prod.splits)

record Index =
  ix_name :: string
  ix_using :: string
  ix_state :: string
  ix_is_primary :: "bool option"
  ix_keyspace_id :: "string option"
  ix_namespace_id :: "string option"
  ix_index_key :: "string list option"
  ix_condition :: "string option"
  ix_partition :: "string option"
  ix_scope_id :: "string option"
  ix_bucket_id :: "string option"

record 'w QueryService =
  qv_env :: "Json QueryEnv"
  qv_to_vec :: "Json \<Rightarrow> string + bytes"
  qv_to_string :: "Json \<Rightarrow> string + string"
  qv_index :: "bytes \<Rightarrow> string + Index"
  qv_uuid :: "'w \<Rightarrow> string \<times> 'w"
  qv_execute :: "Request \<Rightarrow> 'w \<Rightarrow> (HttpErrorKind, HttpResponse) result \<times> 'w"

section \<open>Running a statement\<close>

definition qx_query ::
    "'w QueryService \<Rightarrow> ServiceClient \<Rightarrow> QueryOptions \<Rightarrow> 'w \<Rightarrow> ((Json QxError, Json QueryRespReader) result \<times> 'w) option" where
  "qx_query svc self opts w =
    (let statement = unwrap_or [] (qo_statement opts) in
     case (case qo_client_context_id opts of Some cid \<Rightarrow> (cid, w) | None \<Rightarrow> qv_uuid svc w) of (client_context_id, w) \<Rightarrow>
       (case qv_to_vec svc (JObject (query_object client_context_id opts)) of
          Inl e \<Rightarrow> Some (Err (QxEncoding (''failed to encode options: '' @ e)), w)
        | Inr body \<Rightarrow>
            (case qv_execute svc (new_request self POST ''query/service'' ''application/json'' (qo_on_behalf_of opts) [] (Some body)) w of
               (r, w) \<Rightarrow>
                 (case r of
                    Err e \<Rightarrow> Some (Err (QxHttp e (sv_endpoint self) (Some statement) (Some client_context_id)), w)
                  | Panic \<Rightarrow> Some (Panic, w)
                  | Ok res \<Rightarrow>
                      map_option (\<lambda>r. (r, w)) (reader_new (qv_env svc) res (sv_endpoint self) statement client_context_id)))))"

definition qx_ping :: "'w QueryService \<Rightarrow> ServiceClient \<Rightarrow> OnBehalfOfInfo option \<Rightarrow> 'w \<Rightarrow> (Json QxError, unit) result \<times> 'w" where
  "qx_ping svc self on_behalf_of w =
    (case qv_execute svc (new_request self GET ''admin/ping'' [] on_behalf_of [] None) w of (r, w) \<Rightarrow>
       (case r of
          Err e \<Rightarrow> (Err (QxHttp e (sv_endpoint self) None None), w)
        | Panic \<Rightarrow> (Panic, w)
        | Ok res \<Rightarrow>
            (if is_success (hp_status res) then (Ok (), w)
             else (Err (QxMessage (''ping failed with status code: '' @ qe_show_status (qv_env svc) (hp_status res))
                    (Some (sv_endpoint self)) None None), w))))"

section \<open>Prepared statements\<close>

text \<open>The cache of prepared names next to the world. The lock on it is released while a query runs.\<close>

record 'w Prepared =
  pp_cache :: "string \<rightharpoonup> string"
  pp_world :: 'w

definition with_world :: "'w Prepared \<Rightarrow> ('r \<times> 'w) option \<Rightarrow> ('r \<times> 'w Prepared) option" where
  "with_world st m = map_option (\<lambda>(r, w). (r, st\<lparr>pp_world := w\<rparr>)) m"

definition prepare_and_execute ::
    "'w QueryService \<Rightarrow> ServiceClient \<Rightarrow> string \<Rightarrow> QueryOptions \<Rightarrow> 'w Prepared
      \<Rightarrow> ((Json QxError, Json QueryRespReader) result \<times> 'w Prepared) option" where
  "prepare_and_execute svc self statement opts st =
    io_then (with_world st (qx_query svc self
        (opts\<lparr>qo_statement := Some (''PREPARE '' @ statement), qo_auto_execute := Some True\<rparr>) (pp_world st)))
      (\<lambda>res st.
         case qrr_early_meta_data res of
           Some prepared \<Rightarrow> Some (Ok res, st\<lparr>pp_cache := (pp_cache st)(statement \<mapsto> prepared)\<rparr>)
         | None \<Rightarrow> Some (Ok res, st))"

definition prepared_query ::
    "'w QueryService \<Rightarrow> ServiceClient \<Rightarrow> QueryOptions \<Rightarrow> 'w Prepared \<Rightarrow> ((Json QxError, Json QueryRespReader) result \<times> 'w Prepared) option"
  where
  "prepared_query svc self opts st =
    (if qo_auto_execute opts = Some True then with_world st (qx_query svc self opts (pp_world st))
     else
       (case qo_statement opts of
          None \<Rightarrow> Some (Err (QxInvalidArgument ''statement must be present if auto_execute is true'' (Some ''statement'')), st)
        | Some statement \<Rightarrow>
            (case pp_cache st statement of
               None \<Rightarrow> prepare_and_execute svc self statement opts st
             | Some cached_statement \<Rightarrow>
                 let opts = opts\<lparr>qo_statement := None, qo_prepared := Some cached_statement\<rparr> in
                 (case with_world st (qx_query svc self opts (pp_world st)) of
                    None \<Rightarrow> None
                  | Some (Ok reader, st) \<Rightarrow> Some (Ok reader, st)
                  | Some (Panic, st) \<Rightarrow> Some (Panic, st)
                  | Some (Err _, st) \<Rightarrow> prepare_and_execute svc self statement opts st))))"

section \<open>Identifiers in statements\<close>

text \<open>\<^verbatim>\<open>str::replace\<close> for a pattern of one character.\<close>

definition replace_char :: "char \<Rightarrow> string \<Rightarrow> string \<Rightarrow> string" where
  "replace_char c t s = concat (map (\<lambda>x. if x = c then t else [x]) s)"

abbreviation backquote :: char where "backquote \<equiv> CHR 0x60"
abbreviation backslash :: char where "backslash \<equiv> CHR 0x5C"

definition encode_identifier :: "string \<Rightarrow> string" where
  "encode_identifier identifier =
    (let out = replace_char backslash [backslash, backslash] identifier;
         out = replace_char backquote [backslash, backquote] out
     in [backquote] @ out @ [backquote])"

definition normalise_default_name :: "string \<Rightarrow> string" where
  "normalise_default_name name = (if name = [] then ''_default'' else name)"

definition build_keyspace :: "string \<Rightarrow> string option \<Rightarrow> string option \<Rightarrow> string" where
  "build_keyspace bucket scope_name collection_name =
    (case (scope_name, collection_name) of
       (Some scope, Some collection) \<Rightarrow>
         encode_identifier bucket @ ''.'' @ encode_identifier scope @ ''.'' @ encode_identifier collection
     | (Some scope, None) \<Rightarrow> encode_identifier bucket @ ''.'' @ encode_identifier scope @ ''._default''
     | (None, Some collection) \<Rightarrow> encode_identifier bucket @ ''._default.'' @ encode_identifier collection
     | (None, None) \<Rightarrow> encode_identifier bucket)"

definition encode_value :: "'w QueryService \<Rightarrow> Json \<Rightarrow> (Json QxError, string) result" where
  "encode_value svc v =
    (case qv_to_string svc v of
       Inl e \<Rightarrow> Err (QxMessage (''failed to encode value: '' @ e) None None None)
     | Inr s \<Rightarrow> Ok s)"

section \<open>Index management\<close>

record KeyspaceOptions =
  ks_bucket_name :: string
  ks_scope_name :: "string option"
  ks_collection_name :: "string option"
  ks_on_behalf_of :: "OnBehalfOfInfo option"

record CreatePrimaryIndexOptions = KeyspaceOptions +
  cpi_index_name :: "string option"
  cpi_num_replicas :: "u32 option"
  cpi_deferred :: "bool option"
  cpi_ignore_if_exists :: "bool option"

record CreateIndexOptions = KeyspaceOptions +
  ci_index_name :: string
  ci_num_replicas :: "u32 option"
  ci_fields :: "string list"
  ci_deferred :: "bool option"
  ci_ignore_if_exists :: "bool option"

record DropPrimaryIndexOptions = KeyspaceOptions +
  dpi_index_name :: "string option"
  dpi_ignore_if_not_exists :: "bool option"

record DropIndexOptions = KeyspaceOptions +
  di_index_name :: string
  di_ignore_if_not_exists :: "bool option"

record WatchIndexesOptions = KeyspaceOptions +
  wi_indexes :: "string list"
  wi_watch_primary :: "bool option"

definition statement_options :: "string \<Rightarrow> OnBehalfOfInfo option \<Rightarrow> QueryOptions" where
  "statement_options qs on_behalf_of = query_options_new\<lparr>qo_statement := Some qs, qo_on_behalf_of := on_behalf_of\<rparr>"

definition where_clause :: "'w QueryService \<Rightarrow> KeyspaceOptions \<Rightarrow> (Json QxError, string) result" where
  "where_clause svc opts =
    (let bucket = JString (ks_bucket_name opts) in
     case (ks_collection_name opts, ks_scope_name opts) of
       (None, None) \<Rightarrow>
         (if ks_bucket_name opts \<noteq> [] then
            and_then (encode_value svc bucket) (\<lambda>encoded_bucket.
            Ok (''(keyspace_id='' @ encoded_bucket @ '' AND bucket_id IS MISSING) OR bucket_id='' @ encoded_bucket))
          else Ok ''1=1'')
     | (Some collection_name, Some scope_name) \<Rightarrow>
         let scope_name = normalise_default_name scope_name;
             collection_name = normalise_default_name collection_name in
         and_then (encode_value svc bucket) (\<lambda>encoded_bucket.
         and_then (encode_value svc (JString scope_name)) (\<lambda>encoded_scope.
         and_then (encode_value svc (JString collection_name)) (\<lambda>encoded_collection.
         let temp_where = ''bucket_id='' @ encoded_bucket @ '' AND scope_id='' @ encoded_scope
               @ '' AND keyspace_id='' @ encoded_collection in
         Ok (if scope_name = ''_default'' \<and> collection_name = ''_default''
             then ''('' @ temp_where @ '') OR (keyspace_id='' @ encoded_bucket @ '' AND bucket_id IS MISSING)''
             else temp_where))))
     | (None, Some scope_name) \<Rightarrow>
         let scope_name = normalise_default_name scope_name in
         and_then (encode_value svc bucket) (\<lambda>encoded_bucket.
         and_then (encode_value svc (JString scope_name)) (\<lambda>encoded_scope.
         Ok (''bucket_id='' @ encoded_bucket @ '' AND scope_id='' @ encoded_scope)))
     | (Some _, None) \<Rightarrow> Err (QxInvalidArgument ''invalid combination of bucket, scope and collection'' None))"

partial_function (option) read_indexes ::
    "(bytes \<Rightarrow> string + Index) \<Rightarrow> Json QueryEnv \<Rightarrow> Json QueryRespReader \<Rightarrow> Index list \<Rightarrow> (Json QxError, Index list) result option" where
  "read_indexes from_slice env res indexes =
    (case reader_next env res of
       None \<Rightarrow> None
     | Some (row, res) \<Rightarrow>
         (case row of
            None \<Rightarrow> Some (Ok indexes)
          | Some r \<Rightarrow>
              (case r of
                 Err e \<Rightarrow> Some (Err e)
               | Panic \<Rightarrow> Some Panic
               | Ok bytes \<Rightarrow>
                   (case from_slice bytes of
                      Inl e \<Rightarrow> Some (Err (QxMessage (''failed to parse index from response: '' @ e) None None None))
                    | Inr index \<Rightarrow> read_indexes from_slice env res (indexes @ [index])))))"

definition indexes_statement :: "string \<Rightarrow> string" where
  "indexes_statement clause =
    ''SELECT '' @ [backquote] @ ''idx'' @ [backquote] @ ''.* FROM system:indexes AS idx WHERE ('' @ clause @ '') AND ''
      @ [backquote] @ ''using'' @ [backquote] @ ''=\"gsi\" ORDER BY is_primary DESC, name ASC''"

definition qx_get_all_indexes ::
    "'w QueryService \<Rightarrow> ServiceClient \<Rightarrow> KeyspaceOptions \<Rightarrow> 'w \<Rightarrow> ((Json QxError, Index list) result \<times> 'w) option" where
  "qx_get_all_indexes svc self opts w =
    io_then (Some (where_clause svc opts, w)) (\<lambda>clause w.
    io_then (qx_query svc self (statement_options (indexes_statement clause) (ks_on_behalf_of opts)) w) (\<lambda>res w.
    map_option (\<lambda>r. (r, w)) (read_indexes (qv_index svc) (qv_env svc) res [])))"

definition with_clause :: "'w QueryService \<Rightarrow> bool option \<Rightarrow> u32 option \<Rightarrow> (Json QxError, string) result" where
  "with_clause svc deferred num_replicas =
    (let entries = (case deferred of Some d \<Rightarrow> [(''defer_build'', JBool d)] | None \<Rightarrow> [])
           @ (case num_replicas of Some n \<Rightarrow> [(''num_replica'', json_u32 n)] | None \<Rightarrow> []) in
     if entries \<noteq> [] then and_then (encode_value svc (json_map entries)) (\<lambda>v. Ok ('' WITH '' @ v)) else Ok [])"

text \<open>How the operations that create and drop end.\<close>

definition created :: "bool option \<Rightarrow> ((Json QxError, 'r) result \<times> 'w) option \<Rightarrow> ((Json QxError, unit) result \<times> 'w) option" where
  "created ignore_if_exists res =
    map_option (\<lambda>(r, w).
      (case r of
         Ok _ \<Rightarrow> Ok ()
       | Panic \<Rightarrow> Panic
       | Err e \<Rightarrow>
           (if is_index_exists e then if unwrap_or False ignore_if_exists then Ok () else Err e
            else if is_build_already_in_progress e then Ok ()
            else Err e), w)) res"

definition dropped :: "bool option \<Rightarrow> ((Json QxError, 'r) result \<times> 'w) option \<Rightarrow> ((Json QxError, unit) result \<times> 'w) option" where
  "dropped ignore_if_not_exists res =
    map_option (\<lambda>(r, w).
      (case r of
         Ok _ \<Rightarrow> Ok ()
       | Panic \<Rightarrow> Panic
       | Err e \<Rightarrow>
           (if is_index_not_found e then if unwrap_or False ignore_if_not_exists then Ok () else Err e else Err e), w)) res"

definition keyspace_of :: "'a KeyspaceOptions_scheme \<Rightarrow> string" where
  "keyspace_of opts = build_keyspace (ks_bucket_name opts) (ks_scope_name opts) (ks_collection_name opts)"

definition create_primary_index ::
    "'w QueryService \<Rightarrow> ServiceClient \<Rightarrow> CreatePrimaryIndexOptions \<Rightarrow> 'w \<Rightarrow> ((Json QxError, unit) result \<times> 'w) option" where
  "create_primary_index svc self opts w =
    io_then (Some (with_clause svc (cpi_deferred opts) (cpi_num_replicas opts), w)) (\<lambda>clause w.
    created (cpi_ignore_if_exists opts) (qx_query svc self
      (statement_options (''CREATE PRIMARY INDEX''
         @ (case cpi_index_name opts of Some index_name \<Rightarrow> '' '' @ encode_identifier index_name | None \<Rightarrow> [])
         @ '' ON '' @ keyspace_of opts @ clause) (ks_on_behalf_of opts)) w))"

definition create_index ::
    "'w QueryService \<Rightarrow> ServiceClient \<Rightarrow> CreateIndexOptions \<Rightarrow> 'w \<Rightarrow> ((Json QxError, unit) result \<times> 'w) option" where
  "create_index svc self opts w =
    io_then (Some (with_clause svc (ci_deferred opts) (ci_num_replicas opts), w)) (\<lambda>clause w.
    created (ci_ignore_if_exists opts) (qx_query svc self
      (statement_options (''CREATE INDEX '' @ encode_identifier (ci_index_name opts) @ '' ON '' @ keyspace_of opts
         @ '' ( '' @ str_join '','' (map encode_identifier (ci_fields opts)) @ '')'' @ clause) (ks_on_behalf_of opts)) w))"

definition drop_statement :: "'a KeyspaceOptions_scheme \<Rightarrow> string \<Rightarrow> string" where
  "drop_statement opts index_name =
    (if ks_scope_name opts \<noteq> None \<or> ks_collection_name opts \<noteq> None
     then ''DROP INDEX '' @ encode_identifier index_name @ '' ON '' @ keyspace_of opts
     else ''DROP INDEX '' @ keyspace_of opts @ ''.'' @ encode_identifier index_name)"

definition drop_primary_index ::
    "'w QueryService \<Rightarrow> ServiceClient \<Rightarrow> DropPrimaryIndexOptions \<Rightarrow> 'w \<Rightarrow> ((Json QxError, unit) result \<times> 'w) option" where
  "drop_primary_index svc self opts w =
    dropped (dpi_ignore_if_not_exists opts) (qx_query svc self
      (statement_options
        (case dpi_index_name opts of
           Some index_name \<Rightarrow> drop_statement opts index_name
         | None \<Rightarrow> ''DROP PRIMARY INDEX ON '' @ keyspace_of opts) (ks_on_behalf_of opts)) w)"

definition drop_index ::
    "'w QueryService \<Rightarrow> ServiceClient \<Rightarrow> DropIndexOptions \<Rightarrow> 'w \<Rightarrow> ((Json QxError, unit) result \<times> 'w) option" where
  "drop_index svc self opts w =
    dropped (di_ignore_if_not_exists opts) (qx_query svc self
      (statement_options (drop_statement opts (di_index_name opts)) (ks_on_behalf_of opts)) w)"

definition index_to_namespace_parts :: "Index \<Rightarrow> string \<times> string \<times> string" where
  "index_to_namespace_parts index =
    (if ix_bucket_id index = None then (unwrap_or [] (ix_keyspace_id index), ''_default'', ''_default'')
     else (unwrap_or [] (ix_bucket_id index), unwrap_or [] (ix_scope_id index), unwrap_or [] (ix_keyspace_id index)))"

definition deferred_item :: "Index \<Rightarrow> string \<times> string" where
  "deferred_item index =
    (case index_to_namespace_parts index of (bucket, scope, collection) \<Rightarrow>
       (build_keyspace bucket (Some scope) (Some collection), ix_name index))"

text \<open>\<^verbatim>\<open>entry(keyspace).or_default().push(name)\<close>.\<close>

fun push_entry :: "string \<times> string \<Rightarrow> (string \<times> string list) list \<Rightarrow> (string \<times> string list) list" where
  "push_entry (k, x) [] = [(k, [x])]"
| "push_entry (k, x) ((k', xs) # m) = (if k' = k then (k', xs @ [x]) # m else (k', xs) # push_entry (k, x) m)"

fun build_indexes ::
    "'w QueryService \<Rightarrow> ServiceClient \<Rightarrow> OnBehalfOfInfo option \<Rightarrow> (string \<times> string list) list \<Rightarrow> 'w
      \<Rightarrow> ((Json QxError, unit) result \<times> 'w) option" where
  "build_indexes svc self on_behalf_of [] w = Some (Ok (), w)"
| "build_indexes svc self on_behalf_of ((keyspace, indexes) # rest) w =
    (case qx_query svc self (statement_options
        (''BUILD INDEX ON '' @ keyspace @ ''('' @ str_join '','' (map encode_identifier indexes) @ '')'') on_behalf_of) w of
       None \<Rightarrow> None
     | Some (r, w) \<Rightarrow>
         (case r of
            Ok _ \<Rightarrow> build_indexes svc self on_behalf_of rest w
          | Panic \<Rightarrow> Some (Panic, w)
          | Err e \<Rightarrow>
              (if is_build_already_in_progress e then build_indexes svc self on_behalf_of rest w else Some (Err e, w))))"

definition deferred_indexes :: "Index list \<Rightarrow> (string \<times> string list) list" where
  "deferred_indexes indexes = fold push_entry (map deferred_item (filter (\<lambda>index. ix_state index = ''deferred'') indexes)) []"

definition build_deferred_indexes ::
    "'w QueryService \<Rightarrow> ServiceClient \<Rightarrow> KeyspaceOptions \<Rightarrow> 'w \<Rightarrow> ((Json QxError, unit) result \<times> 'w) option" where
  "build_deferred_indexes svc self opts w =
    io_then (qx_get_all_indexes svc self opts w) (\<lambda>indexes w.
    build_indexes svc self (ks_on_behalf_of opts) (deferred_indexes indexes) w)"

text \<open>The indexes to check, or nothing if one of them does not exist.\<close>

fun find_indexes :: "Index list \<Rightarrow> string list \<Rightarrow> Index list option" where
  "find_indexes indexes [] = Some []"
| "find_indexes indexes (index_name # names) =
    (case find (\<lambda>idx. ix_name idx = index_name) indexes of
       Some index \<Rightarrow> map_option ((#) index) (find_indexes indexes names)
     | None \<Rightarrow> None)"

definition check_indexes_active :: "Index list \<Rightarrow> string list \<Rightarrow> bool" where
  "check_indexes_active indexes check_list =
    (case find_indexes indexes check_list of
       None \<Rightarrow> False
     | Some check_indexes \<Rightarrow> list_all (\<lambda>index. ix_state index = ''online'') check_indexes)"

definition watch_list :: "WatchIndexesOptions \<Rightarrow> string list" where
  "watch_list opts = wi_indexes opts @ (if unwrap_or False (wi_watch_primary opts) then [''#primary''] else [])"

partial_function (option) watch_loop ::
    "'w QueryService \<Rightarrow> ServiceClient \<Rightarrow> WatchIndexesOptions \<Rightarrow> nat \<Rightarrow> nat list \<Rightarrow> 'w
      \<Rightarrow> ((Json QxError, unit) result \<times> 'w \<times> nat list) option" where
  "watch_loop svc self opts cur_interval slept w =
    (case qx_get_all_indexes svc self (KeyspaceOptions.truncate opts) w of
       None \<Rightarrow> None
     | Some (r, w) \<Rightarrow>
         (case r of
            Err e \<Rightarrow> Some (Err e, w, slept)
          | Panic \<Rightarrow> Some (Panic, w, slept)
          | Ok indexes \<Rightarrow>
              (if check_indexes_active indexes (watch_list opts) then Some (Ok (), w, slept)
               else watch_loop svc self opts (min (cur_interval + 500) 1000) (slept @ [min (cur_interval + 500) 1000]) w)))"

definition watch_indexes ::
    "'w QueryService \<Rightarrow> ServiceClient \<Rightarrow> WatchIndexesOptions \<Rightarrow> 'w \<Rightarrow> ((Json QxError, unit) result \<times> 'w) option" where
  "watch_indexes svc self opts w = map_option (\<lambda>(r, w, _). (r, w)) (watch_loop svc self opts 50 [] w)"

section \<open>Facts\<close>

text \<open>Undoing the escapes of an identifier, up to the closing quote.\<close>

fun read_quoted :: "string \<Rightarrow> (string \<times> string) option" where
  "read_quoted [] = None"
| "read_quoted (c # s) =
    (if c = backquote then Some ([], s)
     else if c = backslash then
       (case s of d # s' \<Rightarrow> map_option (apfst ((#) d)) (read_quoted s') | [] \<Rightarrow> None)
     else map_option (apfst ((#) c)) (read_quoted s))"

definition read_name :: "string \<Rightarrow> (string \<times> string) option" where
  "read_name s =
    (if s \<noteq> [] \<and> hd s = backquote then read_quoted (tl s)
     else Some (takeWhile (\<lambda>c. c \<noteq> CHR ''.'') s, dropWhile (\<lambda>c. c \<noteq> CHR ''.'') s))"

fun read_path :: "nat \<Rightarrow> string \<Rightarrow> string list option" where
  "read_path 0 s = None"
| "read_path (Suc n) s =
    (case read_name s of
       None \<Rightarrow> None
     | Some (name, r) \<Rightarrow>
         if r = [] then Some [name]
         else if hd r = CHR ''.'' then map_option ((#) name) (read_path n (tl r)) else None)"

definition escape_char :: "char \<Rightarrow> string" where
  "escape_char c = (if c = backslash \<or> c = backquote then [backslash, c] else [c])"

lemma encode_identifier_escapes: "encode_identifier s = backquote # concat (map escape_char s) @ [backquote]"
proof -
  have "replace_char backquote [backslash, backquote] (replace_char backslash [backslash, backslash] s) = concat (map escape_char s)"
    by (induction s) (auto simp: replace_char_def escape_char_def)
  then show ?thesis by (simp add: encode_identifier_def)
qed

lemma read_quoted_escaped: "read_quoted (concat (map escape_char s) @ backquote # r) = Some (s, r)"
  by (induction s) (auto simp: escape_char_def)

lemma read_name_encoded [simp]: "read_name (encode_identifier s @ r) = Some (s, r)"
  by (simp add: read_name_def encode_identifier_escapes read_quoted_escaped)

lemma read_name_encoded_last [simp]: "read_name (encode_identifier s) = Some (s, [])"
  using read_name_encoded [of s "[]"] by simp

text \<open>
  C19. Names cannot break out of a statement: whatever characters the names of a bucket, a scope and a collection
  have, reading the keyspace of a statement gives these names back, with the default name for a scope or a
  collection that is missing beside the other, and only the bucket when both are missing.
\<close>

theorem keyspace_round_trip:
  "read_path 3 (build_keyspace bucket scope collection) =
    Some (if scope = None \<and> collection = None then [bucket]
          else [bucket, unwrap_or ''_default'' scope, unwrap_or ''_default'' collection])"
  by (auto simp: build_keyspace_def eval_nat_numeral read_name_def [of "''_default''"] read_name_def [of "CHR ''_'' # s" for s]
      split: option.split)

subsection \<open>Indexes\<close>

lemma find_indexes_Some:
  "find_indexes indexes names = Some ixs \<Longrightarrow>
    list_all2 (\<lambda>name index. find (\<lambda>idx. ix_name idx = name) indexes = Some index) names ixs"
  by (induction names arbitrary: ixs) (auto split: option.splits)

lemma check_indexes_active_online:
  assumes "check_indexes_active indexes names" and "name \<in> set names"
  shows "\<exists>index \<in> set indexes. ix_name index = name \<and> ix_state index = ''online''"
proof -
  obtain ixs where ixs: "find_indexes indexes names = Some ixs" "list_all (\<lambda>index. ix_state index = ''online'') ixs"
    using assms(1) by (auto simp: check_indexes_active_def split: option.splits)
  obtain i where i: "i < length names" "names ! i = name" using assms(2) by (auto simp: in_set_conv_nth)
  have "length ixs = length names" "find (\<lambda>idx. ix_name idx = name) indexes = Some (ixs ! i)"
    using find_indexes_Some [OF ixs(1)] i by (auto simp: list_all2_conv_all_nth)
  then show ?thesis
    using i ixs(2) by (auto simp: find_Some_iff list_all_length intro!: bexI [of _ "ixs ! i"])
qed

definition watch_outcome ::
    "'w QueryService \<Rightarrow> ServiceClient \<Rightarrow> WatchIndexesOptions \<Rightarrow> (Json QxError, unit) result \<times> 'w \<times> nat list \<Rightarrow> bool" where
  "watch_outcome svc self opts out \<longleftrightarrow> fst out \<noteq> Ok ()
    \<or> (\<exists>w0 indexes. qx_get_all_indexes svc self (KeyspaceOptions.truncate opts) w0 = Some (Ok indexes, fst (snd out))
        \<and> check_indexes_active indexes (watch_list opts))"

lemma watch_outcomeI:
  "qx_get_all_indexes svc self (KeyspaceOptions.truncate opts) w0 = Some (Ok indexes, w) \<Longrightarrow>
    check_indexes_active indexes (watch_list opts) \<Longrightarrow> watch_outcome svc self opts (Ok (), w, slept)"
  "watch_outcome svc self opts (Err e, w, slept)" "watch_outcome svc self opts (Panic, w, slept)"
  by (auto simp: watch_outcome_def)

lemma watch_loop_online: "watch_loop svc self opts interval slept w = Some out \<Longrightarrow> watch_outcome svc self opts out"
  by (erule watch_loop.raw_induct [rotated])
    (auto intro: watch_outcomeI split: option.splits prod.splits result.splits if_splits)

text \<open>Watching indexes succeeds only when the server has reported every watched index, and the primary one if
  asked for, as online in one answer.\<close>

theorem watched_indexes_online:
  assumes "watch_indexes svc self opts w = Some (Ok (), w')"
  shows "\<exists>w0 indexes. qx_get_all_indexes svc self (KeyspaceOptions.truncate opts) w0 = Some (Ok indexes, w')
    \<and> (\<forall>name \<in> set (watch_list opts). \<exists>index \<in> set indexes. ix_name index = name \<and> ix_state index = ''online'')"
proof -
  obtain out where "watch_loop svc self opts 50 [] w = Some out" "fst out = Ok ()" "fst (snd out) = w'"
    using assms by (auto simp: watch_indexes_def)
  then show ?thesis
    using watch_loop_online [of svc self opts 50 "[]" w out] check_indexes_active_online by (fastforce simp: watch_outcome_def)
qed

lemma map_of_push_entry:
  "map_of (push_entry (k, x) m) = (map_of m)(k \<mapsto> unwrap_or [] (map_of m k) @ [x])"
  by (induction m) (auto simp: fun_eq_iff)

lemma map_of_fold_push:
  "unwrap_or [] (map_of (fold push_entry items m) k) = unwrap_or [] (map_of m k) @ map snd (filter (\<lambda>i. fst i = k) items)"
proof (induction items arbitrary: m)
  case (Cons i items)
  then show ?case by (cases i) (simp add: map_of_push_entry)
qed simp

text \<open>Every deferred index is built, in the statement for its own keyspace.\<close>

theorem deferred_grouped:
  "unwrap_or [] (map_of (deferred_indexes indexes) keyspace) =
    map ix_name (filter (\<lambda>index. ix_state index = ''deferred'' \<and> fst (deferred_item index) = keyspace) indexes)"
proof -
  have "snd (deferred_item index) = ix_name index" for index by (simp add: deferred_item_def split: prod.split)
  then show ?thesis
    by (simp add: deferred_indexes_def map_of_fold_push filter_map comp_def)
qed

lemma read_indexes_items:
  assumes "reader_items env (length rows + 1) reader = Some (map (\<lambda>v. Some (Ok v)) rows @ [None], reader')"
    and "list_all2 (\<lambda>row index. from_slice row = Inr index) rows indexes"
  shows "read_indexes from_slice env reader acc = Some (Ok (acc @ indexes))"
  using assms(2,1)
proof (induction arbitrary: reader acc rule: list_all2_induct)
  case Nil
  then show ?case by (subst read_indexes.simps) (auto split: option.splits)
next
  case (Cons row rows index indexes)
  then obtain r1 where 1: "reader_next env reader = Some (Some (Ok row), r1)"
      "reader_items env (length rows + 1) r1 = Some (map (\<lambda>v. Some (Ok v)) rows @ [None], reader')"
    by (auto split: option.splits)
  then show ?case using Cons.IH [OF 1(2), of "acc @ [index]"] Cons.hyps(1) by (subst read_indexes.simps) simp
qed

text \<open>The indexes of a response are those of its rows, in their order.\<close>

theorem indexes_listed:
  assumes "where_clause svc opts = Ok clause"
    and "qx_query svc self (statement_options (indexes_statement clause) (ks_on_behalf_of opts)) w = Some (Ok reader, w')"
    and "reader_items (qv_env svc) (length rows + 1) reader = Some (map (\<lambda>v. Some (Ok v)) rows @ [None], reader')"
    and "list_all2 (\<lambda>row index. qv_index svc row = Inr index) rows indexes"
  shows "qx_get_all_indexes svc self opts w = Some (Ok indexes, w')"
  using assms(1,2) read_indexes_items [OF assms(3,4), of "[]"] by (simp add: qx_get_all_indexes_def)

subsection \<open>Prepared statements\<close>

lemma with_world_simps [simp]:
  "with_world st None = None" "with_world st (Some (r, w)) = Some (r, st\<lparr>pp_world := w\<rparr>)"
  by (simp_all add: with_world_def)

text \<open>
  The first execution of a statement prepares it, and the name that the server gives it is used from then
  on: the next call for the statement sends the name instead of the text.
\<close>

theorem prepared_statement_reused:
  assumes "qo_auto_execute opts \<noteq> Some True" and "qo_statement opts = Some statement" and "pp_cache st statement = None"
    and "prepared_query svc self opts st = Some (Ok reader, st')" and "qrr_early_meta_data reader = Some name"
    and "qx_query svc self (opts\<lparr>qo_statement := None, qo_prepared := Some name\<rparr>) (pp_world st') = Some (Ok reader', w')"
  shows "pp_cache st' = (pp_cache st)(statement \<mapsto> name)
    \<and> prepared_query svc self opts st' = Some (Ok reader', st'\<lparr>pp_world := w'\<rparr>)"
proof
  have "prepare_and_execute svc self statement opts st = Some (Ok reader, st')"
    using assms(1-4) by (simp add: prepared_query_def)
  then show c: "pp_cache st' = (pp_cache st)(statement \<mapsto> name)"
    using assms(5) by (auto simp: prepare_and_execute_def io_then_eq_Ok with_world_def dest!: arg_cong [where f = pp_cache] split: option.splits)
  show "prepared_query svc self opts st' = Some (Ok reader', st'\<lparr>pp_world := w'\<rparr>)"
    using assms(1,2,6) c by (simp add: prepared_query_def)
qed

text \<open>
  A cached statement whose execution fails for any reason is executed again under its text, with the cached
  name still among the options.
\<close>

theorem cached_failure_executes_again:
  assumes "qo_auto_execute opts \<noteq> Some True" and "qo_statement opts = Some statement" and "pp_cache st statement = Some name"
    and "qx_query svc self (opts\<lparr>qo_statement := None, qo_prepared := Some name\<rparr>) (pp_world st) = Some (Err e, w)"
  shows "prepared_query svc self opts st =
    prepare_and_execute svc self statement (opts\<lparr>qo_statement := None, qo_prepared := Some name\<rparr>) (st\<lparr>pp_world := w\<rparr>)"
  using assms by (simp add: prepared_query_def)

end
