(* ===== verification/Http_Component.thy ===== *)
theory Http_Component
  imports Http_Client Kv_Babysitter Retry
begin

text \<open>
  What the components of the HTTP services share (\<^verbatim>\<open>httpcomponent.rs\<close> and \<^verbatim>\<open>get_host_port_from_uri\<close> of
  \<^verbatim>\<open>util.rs\<close>): the known endpoints and the authenticator, the choice of an endpoint for a request, and polling
  all endpoints until a change has arrived everywhere. The \<^verbatim>\<open>url\<close> crate and the random number are
  arguments; the endpoints are an association list, in the order in which the hash map is visited.
\<close>

section \<open>Endpoints and credentials\<close>

record ParsedUrl =
  pu_host :: "string option"
  pu_port :: "string option"

definition get_host_port_from_uri :: "(string \<Rightarrow> string + ParsedUrl) \<Rightarrow> string \<Rightarrow> (CoreError, string) result" where
  "get_host_port_from_uri url_parse uri =
    (case url_parse uri of
       Inl e \<Rightarrow> Err (core_message_error (''failed to parse uri: '' @ e))
     | Inr parsed \<Rightarrow>
         (case pu_host parsed of
            Some h \<Rightarrow> Ok (case pu_port parsed of Some p \<Rightarrow> h @ '':'' @ p | None \<Rightarrow> h)
          | None \<Rightarrow> Err (core_message_error (''no host in URI '' @ uri))))"

record HttpComponentState =
  hs_endpoints :: "(string \<times> string) list"
  hs_authenticator :: Authenticator

record HttpComponent =
  hc_service_type :: ServiceType
  hc_user_agent :: string
  hc_state :: HttpComponentState

record HttpEndpointProperties =
  ep_auth :: Auth
  ep_endpoint :: string
  ep_endpoint_id :: "string option"

definition get_credentials :: "Authenticator \<Rightarrow> ServiceType \<Rightarrow> string \<Rightarrow> string \<times> string" where
  "get_credentials authenticator service_type address =
    (case authenticator of PasswordAuthenticator username password \<Rightarrow> (username, password) | _ \<Rightarrow> ([], []))"

definition auth_from_authenticator :: "Authenticator \<Rightarrow> ServiceType \<Rightarrow> string \<Rightarrow> (CoreError, Auth) result" where
  "auth_from_authenticator authenticator service_type hp =
    (case authenticator of
       PasswordAuthenticator _ _ \<Rightarrow>
         (case get_credentials authenticator service_type hp of (username, password) \<Rightarrow> Ok (BasicAuth username password))
     | CertificateAuthenticator \<Rightarrow>
         (case get_credentials authenticator service_type hp of (username, password) \<Rightarrow> Ok (BasicAuth username password))
     | JwtAuthenticator token \<Rightarrow> Ok (BearerAuth token))"

definition http_reconfigure :: "HttpComponentState \<Rightarrow> HttpComponent \<Rightarrow> HttpComponent" where
  "http_reconfigure state self = self\<lparr>hc_state := state\<rparr>"

definition endpoint_auth :: "(string \<Rightarrow> string + ParsedUrl) \<Rightarrow> HttpComponent \<Rightarrow> string \<Rightarrow> (CoreError, Auth) result" where
  "endpoint_auth url_parse self endpoint =
    and_then (get_host_port_from_uri url_parse endpoint) (\<lambda>hp.
    auth_from_authenticator (hs_authenticator (hc_state self)) (hc_service_type self) hp)"

text \<open>The loop keeps the last endpoint with the identifier.\<close>

definition select_specific_endpoint ::
    "(string \<Rightarrow> string + ParsedUrl) \<Rightarrow> HttpComponent \<Rightarrow> string \<Rightarrow> (CoreError, HttpEndpointProperties) result" where
  "select_specific_endpoint url_parse self endpoint_id =
    (case fold (\<lambda>(ep_id, endpoint) found. if ep_id = endpoint_id then Some endpoint else found)
        (hs_endpoints (hc_state self)) None of
       None \<Rightarrow> Err (core_error_new (CoreErrorKind.EndpointNotKnown endpoint_id))
     | Some endpoint \<Rightarrow>
         and_then (endpoint_auth url_parse self endpoint) (\<lambda>auth.
         Ok \<lparr>ep_auth = auth, ep_endpoint = endpoint, ep_endpoint_id = None\<rparr>))"

definition remaining_endpoints :: "HttpComponent \<Rightarrow> string list \<Rightarrow> (string \<times> string) list" where
  "remaining_endpoints self endpoint_ids_to_ignore =
    filter (\<lambda>(ep_id, _). ep_id \<notin> set endpoint_ids_to_ignore) (hs_endpoints (hc_state self))"

text \<open>\<open>pick n\<close> is the random number below \<open>n\<close>.\<close>

definition select_endpoint ::
    "(string \<Rightarrow> string + ParsedUrl) \<Rightarrow> (nat \<Rightarrow> nat) \<Rightarrow> HttpComponent \<Rightarrow> string list
      \<Rightarrow> (CoreError, HttpEndpointProperties option) result" where
  "select_endpoint url_parse pick self endpoint_ids_to_ignore =
    (if hs_endpoints (hc_state self) = [] then Ok None
     else
       let remaining = remaining_endpoints self endpoint_ids_to_ignore in
       if remaining = [] then Ok None
       else
         (case remaining ! pick (length remaining) of (endpoint_id, endpoint) \<Rightarrow>
            and_then (endpoint_auth url_parse self endpoint) (\<lambda>auth.
            Ok (Some \<lparr>ep_auth = auth, ep_endpoint = endpoint, ep_endpoint_id = Some endpoint_id\<rparr>))))"

text \<open>An operation gets the identifier of the endpoint, its address and the credentials; \<open>'w\<close> is the state it works on.\<close>

definition orchestrate_endpoint ::
    "(string \<Rightarrow> string + ParsedUrl) \<Rightarrow> (nat \<Rightarrow> nat) \<Rightarrow> HttpComponent \<Rightarrow> string option
      \<Rightarrow> (string \<Rightarrow> string \<Rightarrow> Auth \<Rightarrow> 'w \<Rightarrow> (CoreError, 'r) result \<times> 'w) \<Rightarrow> 'w \<Rightarrow> (CoreError, 'r) result \<times> 'w" where
  "orchestrate_endpoint url_parse pick self endpoint_id operation w =
    (case endpoint_id of
       Some endpoint_id \<Rightarrow>
         (case select_specific_endpoint url_parse self endpoint_id of
            Ok properties \<Rightarrow> operation endpoint_id (ep_endpoint properties) (ep_auth properties) w
          | Err e \<Rightarrow> (Err e, w)
          | Panic \<Rightarrow> (Panic, w))
     | None \<Rightarrow>
         (case select_endpoint url_parse pick self [] of
            Ok (Some properties) \<Rightarrow>
              operation (unwrap_or [] (ep_endpoint_id properties)) (ep_endpoint properties) (ep_auth properties) w
          | Ok None \<Rightarrow> (Err (core_error_new (CoreErrorKind.ServiceNotAvailable (hc_service_type self))), w)
          | Err e \<Rightarrow> (Err e, w)
          | Panic \<Rightarrow> (Panic, w)))"

record NodeTarget =
  nt_endpoint :: string
  nt_auth :: Auth

fun targets_of :: "(string \<Rightarrow> string + ParsedUrl) \<Rightarrow> HttpComponent \<Rightarrow> (string \<times> string) list \<Rightarrow> (CoreError, NodeTarget list) result" where
  "targets_of url_parse self [] = Ok []"
| "targets_of url_parse self ((_, endpoint) # eps) =
    and_then (endpoint_auth url_parse self endpoint) (\<lambda>auth.
    and_then (targets_of url_parse self eps) (\<lambda>targets.
    Ok (\<lparr>nt_endpoint = endpoint, nt_auth = auth\<rparr> # targets)))"

definition get_all_targets :: "(string \<Rightarrow> string + ParsedUrl) \<Rightarrow> HttpComponent \<Rightarrow> string list \<Rightarrow> (CoreError, NodeTarget list) result" where
  "get_all_targets url_parse self endpoint_ids_to_ignore =
    targets_of url_parse self (remaining_endpoints self endpoint_ids_to_ignore)"

text \<open>
  The component may be reconfigured between two turns, so the turn number selects its state; \<open>poll_fn\<close>
  works on \<open>'w\<close>. The value holds what was slept; \<open>None\<close> is a loop that never ends.
\<close>

partial_function (option) ensure_resource ::
    "(string \<Rightarrow> string + ParsedUrl) \<Rightarrow> (u32 \<Rightarrow> (CoreError, Duration) result) \<Rightarrow> (nat \<Rightarrow> HttpComponent)
      \<Rightarrow> (NodeTarget list \<Rightarrow> 'w \<Rightarrow> ((CoreError, bool) result \<times> 'w) option) \<Rightarrow> nat \<Rightarrow> 'w \<Rightarrow> Duration list
      \<Rightarrow> ((CoreError, unit) result \<times> 'w \<times> Duration list) option" where
  "ensure_resource url_parse backoff component poll_fn attempt_idx w slept =
    (case get_all_targets url_parse (component attempt_idx) [] of
       Err e \<Rightarrow> Some (Err e, w, slept)
     | Panic \<Rightarrow> Some (Panic, w, slept)
     | Ok targets \<Rightarrow>
         (case poll_fn targets w of
            None \<Rightarrow> None
          | Some (r, w) \<Rightarrow>
            (case r of
               Err e \<Rightarrow> Some (Err e, w, slept)
             | Panic \<Rightarrow> Some (Panic, w, slept)
             | Ok success \<Rightarrow>
                 (if success then Some (Ok (), w, slept)
                  else
                    (case backoff (word_of_nat attempt_idx) of
                       Ok sleep \<Rightarrow> ensure_resource url_parse backoff component poll_fn (Suc attempt_idx) w (slept @ [sleep])
                     | Err e \<Rightarrow> Some (Err e, w, slept)
                     | Panic \<Rightarrow> Some (Panic, w, slept))))))"

section \<open>Facts\<close>

definition addressable :: "(string \<Rightarrow> string + ParsedUrl) \<Rightarrow> string \<Rightarrow> bool" where
  "addressable url_parse endpoint \<longleftrightarrow> (case url_parse endpoint of Inr p \<Rightarrow> pu_host p \<noteq> None | Inl _ \<Rightarrow> False)"

fun credentials_for :: "Authenticator \<Rightarrow> Auth" where
  "credentials_for (PasswordAuthenticator username password) = BasicAuth username password"
| "credentials_for CertificateAuthenticator = BasicAuth [] []"
| "credentials_for (JwtAuthenticator token) = BearerAuth token"

lemma endpoint_auth_Ok:
  assumes "addressable url_parse endpoint"
  shows "endpoint_auth url_parse self endpoint = Ok (credentials_for (hs_authenticator (hc_state self)))"
  using assms
  by (cases "hs_authenticator (hc_state self)")
    (auto simp: endpoint_auth_def addressable_def get_host_port_from_uri_def auth_from_authenticator_def
      get_credentials_def split: sum.splits option.splits)

lemma endpoint_auth_not_addressable:
  "\<not> addressable url_parse endpoint \<Longrightarrow> \<exists>e. endpoint_auth url_parse self endpoint = Err e"
  by (auto simp: endpoint_auth_def addressable_def get_host_port_from_uri_def split: sum.splits option.splits)

text \<open>The endpoint of a request is one of the known endpoints that the caller does not want to avoid, whichever
  the random number picks, and it comes with the credentials of the current authenticator; the answer that
  there is none is given exactly when every known endpoint is to be avoided.\<close>

theorem endpoint_selected:
  assumes "\<And>id endpoint. (id, endpoint) \<in> set (hs_endpoints (hc_state self)) \<Longrightarrow> addressable url_parse endpoint"
    and "\<And>n. 0 < n \<Longrightarrow> pick n < n"
  shows "select_endpoint url_parse pick self ignored = Ok None \<and> fst ` set (hs_endpoints (hc_state self)) \<subseteq> set ignored
    \<or> (\<exists>id endpoint. select_endpoint url_parse pick self ignored =
          Ok (Some \<lparr>ep_auth = credentials_for (hs_authenticator (hc_state self)), ep_endpoint = endpoint,
                    ep_endpoint_id = Some id\<rparr>)
        \<and> (id, endpoint) \<in> set (hs_endpoints (hc_state self)) \<and> id \<notin> set ignored)"
proof (cases "remaining_endpoints self ignored = []")
  case True
  then have "fst ` set (hs_endpoints (hc_state self)) \<subseteq> set ignored"
    by (auto simp: remaining_endpoints_def filter_empty_conv)
  then show ?thesis using True by (simp add: select_endpoint_def)
next
  case False
  let ?r = "remaining_endpoints self ignored"
  obtain id endpoint where p: "?r ! pick (length ?r) = (id, endpoint)" by fastforce
  have "pick (length ?r) < length ?r" using assms(2) False by simp
  then have "(id, endpoint) \<in> set ?r" using p by (metis nth_mem)
  then have m: "(id, endpoint) \<in> set (hs_endpoints (hc_state self))" "id \<notin> set ignored"
    by (auto simp: remaining_endpoints_def)
  then have "hs_endpoints (hc_state self) \<noteq> []" by auto
  then show ?thesis
    using m p False endpoint_auth_Ok [OF assms(1) [OF m(1)], of self]
    by (simp add: select_endpoint_def Let_def)
qed

text \<open>All endpoints are polled, each with the current credentials.\<close>

lemma get_all_targets_Ok:
  assumes "\<And>id endpoint. (id, endpoint) \<in> set (hs_endpoints (hc_state self)) \<Longrightarrow> addressable url_parse endpoint"
  shows "get_all_targets url_parse self [] =
    Ok (map (\<lambda>(_, endpoint). \<lparr>nt_endpoint = endpoint, nt_auth = credentials_for (hs_authenticator (hc_state self))\<rparr>)
          (hs_endpoints (hc_state self)))"
proof -
  have "targets_of url_parse self eps =
      Ok (map (\<lambda>(_, endpoint). \<lparr>nt_endpoint = endpoint, nt_auth = credentials_for (hs_authenticator (hc_state self))\<rparr>) eps)"
    if "set eps \<subseteq> set (hs_endpoints (hc_state self))" for eps
    using that
  proof (induction eps)
    case (Cons e eps)
    obtain i x where "e = (i, x)" by fastforce
    then show ?case using Cons endpoint_auth_Ok [of url_parse x self] assms [of i x] by simp
  qed simp
  then show ?thesis by (simp add: get_all_targets_def remaining_endpoints_def)
qed

text \<open>The polls of a call: the targets of the i-th turn, and the state that it finds.\<close>

definition turn_targets :: "(nat \<Rightarrow> HttpComponent) \<Rightarrow> nat \<Rightarrow> NodeTarget list" where
  "turn_targets component i =
    map (\<lambda>(_, endpoint). \<lparr>nt_endpoint = endpoint, nt_auth = credentials_for (hs_authenticator (hc_state (component i)))\<rparr>)
      (hs_endpoints (hc_state (component i)))"

fun turn_world :: "(nat \<Rightarrow> HttpComponent) \<Rightarrow> (NodeTarget list \<Rightarrow> 'w \<Rightarrow> (CoreError, bool) result \<times> 'w) \<Rightarrow> 'w \<Rightarrow> nat \<Rightarrow> 'w" where
  "turn_world component poll_fn w 0 = w"
| "turn_world component poll_fn w (Suc i) =
    snd (poll_fn (turn_targets component i) (turn_world component poll_fn w i))"

definition turn_poll ::
    "(nat \<Rightarrow> HttpComponent) \<Rightarrow> (NodeTarget list \<Rightarrow> 'w \<Rightarrow> (CoreError, bool) result \<times> 'w) \<Rightarrow> 'w \<Rightarrow> nat \<Rightarrow> (CoreError, bool) result" where
  "turn_poll component poll_fn w i = fst (poll_fn (turn_targets component i) (turn_world component poll_fn w i))"

lemma turn_poll_world:
  "poll_fn (turn_targets component i) (turn_world component poll_fn w i) =
    (turn_poll component poll_fn w i, turn_world component poll_fn w (Suc i))"
  by (simp add: turn_poll_def)

lemma ensure_resource_turn:
  assumes "\<And>id endpoint. (id, endpoint) \<in> set (hs_endpoints (hc_state (component n))) \<Longrightarrow> addressable url_parse endpoint"
  shows "ensure_resource url_parse (\<lambda>a. Ok (pause a)) component (\<lambda>ts w. Some (poll_fn ts w)) n (turn_world component poll_fn w n) slept =
    (case turn_poll component poll_fn w n of
       Ok True \<Rightarrow> Some (Ok (), turn_world component poll_fn w (Suc n), slept)
     | Ok False \<Rightarrow> ensure_resource url_parse (\<lambda>a. Ok (pause a)) component (\<lambda>ts w. Some (poll_fn ts w)) (Suc n)
         (turn_world component poll_fn w (Suc n)) (slept @ [pause (word_of_nat n)])
     | Err e \<Rightarrow> Some (Err e, turn_world component poll_fn w (Suc n), slept)
     | Panic \<Rightarrow> Some (Panic, turn_world component poll_fn w (Suc n), slept))"
proof -
  have t: "get_all_targets url_parse (component n) [] = Ok (turn_targets component n)"
    using get_all_targets_Ok [of "component n" url_parse] assms by (simp add: turn_targets_def)
  show ?thesis
    by (subst ensure_resource.simps)
      (simp add: t turn_poll_world del: turn_world.simps split: result.split bool.split)
qed

lemma ensure_resource_turns:
  assumes "\<And>i id endpoint. (id, endpoint) \<in> set (hs_endpoints (hc_state (component i))) \<Longrightarrow> addressable url_parse endpoint"
    and "\<And>i. i < k \<Longrightarrow> turn_poll component poll_fn w (n + i) = Ok False"
  shows "ensure_resource url_parse (\<lambda>a. Ok (pause a)) component (\<lambda>ts w. Some (poll_fn ts w)) n (turn_world component poll_fn w n) slept =
    ensure_resource url_parse (\<lambda>a. Ok (pause a)) component (\<lambda>ts w. Some (poll_fn ts w)) (n + k) (turn_world component poll_fn w (n + k))
      (slept @ map (\<lambda>i. pause (word_of_nat i)) [n..<n + k])"
  using assms(2)
proof (induction k arbitrary: n slept)
  case (Suc k)
  have "turn_poll component poll_fn w n = Ok False" using Suc.prems [of 0] by simp
  then have "ensure_resource url_parse (\<lambda>a. Ok (pause a)) component (\<lambda>ts w. Some (poll_fn ts w)) n (turn_world component poll_fn w n) slept =
      ensure_resource url_parse (\<lambda>a. Ok (pause a)) component (\<lambda>ts w. Some (poll_fn ts w)) (Suc n) (turn_world component poll_fn w (Suc n))
        (slept @ [pause (word_of_nat n)])"
    using ensure_resource_turn [where component = component and n = n and poll_fn = poll_fn and w = w
        and pause = pause and slept = slept, OF assms(1)]
    by (simp del: turn_world.simps)
  also have "\<dots> = ensure_resource url_parse (\<lambda>a. Ok (pause a)) component (\<lambda>ts w. Some (poll_fn ts w)) (Suc n + k)
      (turn_world component poll_fn w (Suc n + k))
      ((slept @ [pause (word_of_nat n)]) @ map (\<lambda>i. pause (word_of_nat i)) [Suc n..<Suc n + k])"
    by (rule Suc.IH) (use Suc.prems [of "Suc i" for i] in simp)
  also have "(slept @ [pause (word_of_nat n)]) @ map (\<lambda>i. pause (word_of_nat i)) [Suc n..<Suc n + k] =
      slept @ map (\<lambda>i. pause (word_of_nat i)) [n..<n + Suc k]"
    by (subst (2) upt_conv_Cons) simp_all
  finally show ?case by (simp del: turn_world.simps upt_Suc)
qed simp

text \<open>A wait that succeeds ends with a successful poll of all endpoints known then.\<close>

definition ensured ::
    "(string \<Rightarrow> string + ParsedUrl) \<Rightarrow> (nat \<Rightarrow> HttpComponent)
      \<Rightarrow> (NodeTarget list \<Rightarrow> 'w \<Rightarrow> ((CoreError, bool) result \<times> 'w) option)
      \<Rightarrow> (CoreError, unit) result \<times> 'w \<times> Duration list \<Rightarrow> bool" where
  "ensured url_parse component poll_fn out \<longleftrightarrow> fst out \<noteq> Ok ()
    \<or> (\<exists>n targets w0. get_all_targets url_parse (component n) [] = Ok targets \<and> poll_fn targets w0 = Some (Ok True, fst (snd out)))"

lemma ensuredI:
  "get_all_targets url_parse (component n) [] = Ok targets \<Longrightarrow> poll_fn targets w0 = Some (Ok True, w) \<Longrightarrow>
    ensured url_parse component poll_fn (Ok (), w, slept)"
  "ensured url_parse component poll_fn (Err e, w, slept)" "ensured url_parse component poll_fn (Panic, w, slept)"
  by (auto simp: ensured_def)

lemma ensure_resource_ensured:
  "ensure_resource url_parse backoff component poll_fn n w slept = Some out \<Longrightarrow> ensured url_parse component poll_fn out"
  by (erule ensure_resource.raw_induct [rotated])
    (auto intro: ensuredI split: option.splits prod.splits result.splits if_splits)

text \<open>Waiting for a resource polls all known endpoints, turn after turn with a pause in between, and reports success
  as soon as a poll succeeds, whatever happens to the set of endpoints meanwhile; an error of a poll ends the
  wait with that error.\<close>

theorem resource_ensured:
  assumes "\<And>i id endpoint. (id, endpoint) \<in> set (hs_endpoints (hc_state (component i))) \<Longrightarrow> addressable url_parse endpoint"
    and "\<And>i. i < k \<Longrightarrow> turn_poll component poll_fn w i = Ok False"
    and "turn_poll component poll_fn w k \<noteq> Ok False"
  shows "ensure_resource url_parse (\<lambda>a. Ok (pause a)) component (\<lambda>ts w. Some (poll_fn ts w)) 0 w [] =
    Some (and_then (turn_poll component poll_fn w k) (\<lambda>_. Ok ()), turn_world component poll_fn w (Suc k),
      map (\<lambda>i. pause (word_of_nat i)) [0..<k])"
  using ensure_resource_turns [where component = component and n = 0 and k = k and poll_fn = poll_fn and w = w
      and slept = "[]" and pause = pause, OF assms(1)] assms(2,3)
    ensure_resource_turn [where component = component and n = k and poll_fn = poll_fn and w = w
      and slept = "map (\<lambda>i. pause (word_of_nat i)) [0..<k]" and pause = pause, OF assms(1)]
  by (auto split: result.splits bool.splits)

section \<open>Witnesses\<close>

definition two_nodes :: HttpComponent where
  "two_nodes = \<lparr>hc_service_type = ServiceType.Query, hc_user_agent = ''rust'',
     hc_state = \<lparr>hs_endpoints = [(''a'', ''http://a:8093''), (''b'', ''http://b:8093'')],
       hs_authenticator = PasswordAuthenticator ''user'' ''pw''\<rparr>\<rparr>"

definition plain_urls :: "string \<Rightarrow> string + ParsedUrl" where
  "plain_urls uri = Inr \<lparr>pu_host = Some (take 1 (drop 7 uri)), pu_port = Some (drop 9 uri)\<rparr>"

theorem endpoint_selected_witness:
  "select_endpoint plain_urls (\<lambda>n. n - 1) two_nodes [''b''] =
    Ok (Some \<lparr>ep_auth = BasicAuth ''user'' ''pw'', ep_endpoint = ''http://a:8093'', ep_endpoint_id = Some ''a''\<rparr>)"
  using endpoint_selected [of two_nodes plain_urls "\<lambda>n. n - 1" "[''b'']"]
  by (auto simp: two_nodes_def addressable_def plain_urls_def)

theorem resource_ensured_witness:
  "ensure_resource plain_urls (\<lambda>a. Ok (unat a)) (\<lambda>_. two_nodes) (\<lambda>targets n. Some (Ok (n = 2), Suc n)) 0 0 [] =
    Some (Ok (), 3, [0, 1])"
proof -
  let ?poll = "\<lambda>(targets :: NodeTarget list) n :: nat. (Ok (n = 2) :: (CoreError, bool) result, Suc n)"
  have w: "turn_world (\<lambda>_. two_nodes) ?poll 0 i = i" for i by (induction i) simp_all
  have "ensure_resource plain_urls (\<lambda>a. Ok (unat a)) (\<lambda>_. two_nodes) (\<lambda>ts w. Some (?poll ts w)) 0 0 [] =
      Some (and_then (turn_poll (\<lambda>_. two_nodes) ?poll 0 2) (\<lambda>_. Ok ()), turn_world (\<lambda>_. two_nodes) ?poll 0 (Suc 2),
        map (\<lambda>i. unat (word_of_nat i :: u32)) [0..<2])"
    by (rule resource_ensured) (auto simp: two_nodes_def addressable_def plain_urls_def turn_poll_def w [unfolded two_nodes_def])
  then show ?thesis by (simp add: turn_poll_def w upt_rec numeral_2_eq_2 numeral_3_eq_3)
qed

end
