(* ===== verification/Http_Calls.thy ===== *)
theory Http_Calls
  imports Http_Component
begin

text \<open>
  A call of an HTTP service as the components make it (\<^verbatim>\<open>orchestrate_mgmt_call\<close> and its siblings in
  \<^verbatim>\<open>querycomponent.rs\<close>, \<^verbatim>\<open>searchcomponent.rs\<close>, \<^verbatim>\<open>analyticscomponent.rs\<close> and \<^verbatim>\<open>mgmtcomponent.rs\<close>): the retry loop around the
  choice of an endpoint around an operation of the client. The world goes from attempt to attempt. A service
  contributes the conversion of its errors to core errors; which of its errors start a call over is the
  contract of the locale \<open>http_service\<close>.
\<close>

section \<open>Attempts\<close>

fun attempt_world :: "(nat \<Rightarrow> 'w \<Rightarrow> 'a \<times> 'w) \<Rightarrow> 'w \<Rightarrow> nat \<Rightarrow> 'w" where
  "attempt_world attempt w 0 = w"
| "attempt_world attempt w (Suc n) = snd (attempt n (attempt_world attempt w n))"

definition nth_attempt :: "(nat \<Rightarrow> 'w \<Rightarrow> 'a \<times> 'w) \<Rightarrow> 'w \<Rightarrow> nat \<Rightarrow> 'a" where
  "nth_attempt attempt w n = fst (attempt n (attempt_world attempt w n))"

text \<open>The loop over attempts that change the world; it slept once before each attempt but the first.\<close>

definition retry_in_world ::
    "RetryStrategy \<Rightarrow> (nat \<Rightarrow> ErrMap option) \<Rightarrow> RetryRequest \<Rightarrow> (nat \<Rightarrow> 'w \<Rightarrow> (CoreError, 'r option) result \<times> 'w) \<Rightarrow> 'w
      \<Rightarrow> ((CoreError, 'r) result \<times> 'w) option" where
  "retry_in_world strategy cell info attempt w =
    (case orchestrate_retries strategy cell (nth_attempt attempt w) 0 info [] of
       None \<Rightarrow> None
     | Some (r, slept) \<Rightarrow> map_option (\<lambda>r. (r, attempt_world attempt w (Suc (length slept)))) (returned r))"

section \<open>Calls\<close>

text \<open>
  What the attempts of a call find: the HTTP component, which may have been reconfigured in between, the random
  number for the choice of an endpoint and the error map.
\<close>

record HttpCalls =
  hx_url_parse :: "string \<Rightarrow> string + ParsedUrl"
  hx_pick :: "nat \<Rightarrow> nat \<Rightarrow> nat"
  hx_http :: "nat \<Rightarrow> HttpComponent"
  hx_err_map :: "nat \<Rightarrow> ErrMap option"

record CallOptions =
  co_endpoint :: "string option"
  co_retry_strategy :: RetryStrategy

definition service_error_to_core ::
    "('e \<Rightarrow> CoreError) \<Rightarrow> 'w \<Rightarrow> (('e, 'r) result \<times> 'w) option \<Rightarrow> (CoreError, 'r option) result \<times> 'w" where
  "service_error_to_core to_core w m =
    (case m of
       None \<Rightarrow> (Ok None, w)
     | Some (r, w) \<Rightarrow> (and_then (map_err to_core r) (\<lambda>x. Ok (Some x)), w))"

definition service_attempt ::
    "('e \<Rightarrow> CoreError) \<Rightarrow> 'z HttpCalls_scheme \<Rightarrow> string option \<Rightarrow> (ServiceClient \<Rightarrow> 'w \<Rightarrow> (('e, 'r) result \<times> 'w) option)
      \<Rightarrow> nat \<Rightarrow> 'w \<Rightarrow> (CoreError, 'r option) result \<times> 'w" where
  "service_attempt to_core self endpoint operation n w =
    orchestrate_endpoint (hx_url_parse self) (hx_pick self n) (hx_http self n) endpoint
      (\<lambda>endpoint_id endpoint auth w. service_error_to_core to_core w
         (operation \<lparr>sv_user_agent = hc_user_agent (hx_http self n), sv_endpoint = endpoint, sv_auth = auth\<rparr> w)) w"

definition orchestrate_service_call ::
    "('e \<Rightarrow> CoreError) \<Rightarrow> 'z HttpCalls_scheme \<Rightarrow> CallOptions \<Rightarrow> RetryRequest
      \<Rightarrow> (ServiceClient \<Rightarrow> 'w \<Rightarrow> (('e, 'r) result \<times> 'w) option) \<Rightarrow> 'w \<Rightarrow> ((CoreError, 'r) result \<times> 'w) option" where
  "orchestrate_service_call to_core self copts retry_info operation w =
    retry_in_world (co_retry_strategy copts) (hx_err_map self) retry_info
      (service_attempt to_core self (co_endpoint copts) operation) w"

section \<open>Facts\<close>

lemma no_endpoint_attempt:
  assumes "hs_endpoints (hc_state (hx_http self n)) = []"
  shows "service_attempt to_core self None operation n w =
    (Err (core_error_new (CoreErrorKind.ServiceNotAvailable (hc_service_type (hx_http self n)))), w)"
  using assms by (simp add: service_attempt_def orchestrate_endpoint_def select_endpoint_def)

lemma no_endpoint_worlds:
  "(\<And>i. i < k \<Longrightarrow> hs_endpoints (hc_state (hx_http self i)) = []) \<Longrightarrow>
    attempt_world (service_attempt to_core self None operation) w k = w"
  by (induction k) (simp_all add: no_endpoint_attempt)

lemma retry_decision_None:
  "retry_reason cell (ce_kind err) = None \<Longrightarrow> \<exists>info'. retry_decision strategy cell info err = (None, info') \<and>
    rr_retry_attempts info' = rr_retry_attempts info"
  by (auto simp: retry_decision_def error_to_retry_reason_def split: option.split)

text \<open>The attempts that find no node send nothing, and the call goes on until it finds one.\<close>

lemma call_waits_for_node:
  assumes "\<And>i. i < k \<Longrightarrow> hs_endpoints (hc_state (hx_http self i)) = []"
    and "service_attempt to_core self None operation k w = (Ok (Some x), w')"
    and "co_endpoint copts = None" and "co_retry_strategy copts = best_effort backoff"
  shows "orchestrate_service_call to_core self copts info operation w = Some (Ok x, w')"
proof -
  let ?op = "service_attempt to_core self None operation"
  have ws: "attempt_world ?op w k = w" by (rule no_endpoint_worlds) (rule assms(1))
  then have "nth_attempt ?op w (0 + k) = Ok (Some x)" using assms(2) by (simp add: nth_attempt_def)
  moreover have "\<exists>e. nth_attempt ?op w (0 + i) = Err e \<and> best_effort_retries (rr_is_idempotent info) (hx_err_map self (0 + i)) e"
    if "i < k" for i
    using assms(1) [OF that]
    by (simp add: nth_attempt_def no_endpoint_attempt best_effort_retries_def retry_reason_def allows_non_idempotent_retry_def)
  ultimately obtain slept where
    "orchestrate_retries (best_effort backoff) (hx_err_map self) (nth_attempt ?op w) 0 info [] = Some (Ok (Some x), slept)"
    "length slept = k"
    using retries_from [of "nth_attempt ?op w" 0 k "Some x" info "hx_err_map self" backoff "[]"] by auto
  then show ?thesis
    using assms(2-4) ws by (simp add: orchestrate_service_call_def retry_in_world_def)
qed

text \<open>A service: its errors in the core, and those of them that may start a call over.\<close>

locale http_service =
  fixes to_core :: "'e \<Rightarrow> CoreError" and repeatable :: "'e \<Rightarrow> bool"
  assumes not_repeatable: "\<not> repeatable e \<Longrightarrow> retry_reason cell (ce_kind (to_core e)) = None"
begin

text \<open>A call that fails for another reason runs exactly once, under every retry strategy.\<close>

lemma call_not_repeated:
  assumes "service_attempt to_core self (co_endpoint copts) operation 0 w = (Err (to_core e), w')"
    and "\<not> repeatable e" and "rr_retry_attempts info = 0"
  shows "orchestrate_service_call to_core self copts info operation w = Some (Err (to_core e), w')"
proof -
  let ?op = "service_attempt to_core self (co_endpoint copts) operation"
  obtain info' where
    d: "retry_decision (co_retry_strategy copts) (hx_err_map self 0) info (to_core e) = (None, info')"
      "rr_retry_attempts info' = rr_retry_attempts info"
    using retry_decision_None [OF not_repeatable [OF assms(2)], of "co_retry_strategy copts" "hx_err_map self 0" info] by blast
  have "orchestrate_retries (co_retry_strategy copts) (hx_err_map self) (nth_attempt ?op w) 0 info [] = Some (Err (to_core e), [])"
    using orchestrate_retry_stop [where operation = "nth_attempt ?op w" and n = 0 and cell = "hx_err_map self", OF _ d(1)]
      assms(1,3) d(2)
    by (simp add: nth_attempt_def)
  then show ?thesis using assms(1) by (simp add: orchestrate_service_call_def retry_in_world_def)
qed

end

end
