(* ===== verification/Query_Component.thy ===== *)
theory Query_Component
  imports Query_Client Http_Calls
begin

text \<open>
  The query component (\<^verbatim>\<open>querycomponent.rs\<close>) and waiting for an index on all nodes
  (\<^verbatim>\<open>queryx/ensure_index_helper.rs\<close>). Every operation chooses an endpoint for each attempt and goes through the
  retry loop; the world goes from attempt to attempt. The options of the component are those of the client
  together with an endpoint and a retry strategy; their conversion (\<^verbatim>\<open>options/query.rs\<close>) drops these two.
\<close>

section \<open>The component\<close>

record 'w QueryComponent = HttpCalls +
  qc_service :: "'w QueryService"

definition component_query ::
    "'w QueryComponent \<Rightarrow> CallOptions \<Rightarrow> QueryOptions \<Rightarrow> 'w \<Rightarrow> ((CoreError, Json QueryRespReader) result \<times> 'w) option" where
  "component_query self copts opts w =
    orchestrate_service_call core_query_error self copts (retry_request_new ''query'' (unwrap_or False (qo_read_only opts)))
      (\<lambda>client. qx_query (qc_service self) client opts) w"

definition component_prepared_query ::
    "'w QueryComponent \<Rightarrow> CallOptions \<Rightarrow> QueryOptions \<Rightarrow> 'w Prepared \<Rightarrow> ((CoreError, Json QueryRespReader) result \<times> 'w Prepared) option" where
  "component_prepared_query self copts opts st =
    orchestrate_service_call core_query_error self copts (retry_request_new ''prepared_query'' (unwrap_or False (qo_read_only opts)))
      (\<lambda>client. prepared_query (qc_service self) client opts) st"

definition component_get_all_indexes ::
    "'w QueryComponent \<Rightarrow> CallOptions \<Rightarrow> KeyspaceOptions \<Rightarrow> 'w \<Rightarrow> ((CoreError, Index list) result \<times> 'w) option" where
  "component_get_all_indexes self copts opts w =
    orchestrate_service_call core_query_error self copts (retry_request_new ''query_get_all_indexes'' True)
      (\<lambda>client. qx_get_all_indexes (qc_service self) client opts) w"

definition component_create_primary_index ::
    "'w QueryComponent \<Rightarrow> CallOptions \<Rightarrow> CreatePrimaryIndexOptions \<Rightarrow> 'w \<Rightarrow> ((CoreError, unit) result \<times> 'w) option" where
  "component_create_primary_index self copts opts w =
    orchestrate_service_call core_query_error self copts (retry_request_new ''query_create_primary_index'' False)
      (\<lambda>client. create_primary_index (qc_service self) client opts) w"

definition component_create_index ::
    "'w QueryComponent \<Rightarrow> CallOptions \<Rightarrow> CreateIndexOptions \<Rightarrow> 'w \<Rightarrow> ((CoreError, unit) result \<times> 'w) option" where
  "component_create_index self copts opts w =
    orchestrate_service_call core_query_error self copts (retry_request_new ''query_create_index'' False)
      (\<lambda>client. create_index (qc_service self) client opts) w"

definition component_drop_primary_index ::
    "'w QueryComponent \<Rightarrow> CallOptions \<Rightarrow> DropPrimaryIndexOptions \<Rightarrow> 'w \<Rightarrow> ((CoreError, unit) result \<times> 'w) option" where
  "component_drop_primary_index self copts opts w =
    orchestrate_service_call core_query_error self copts (retry_request_new ''query_drop_primary_index'' False)
      (\<lambda>client. drop_primary_index (qc_service self) client opts) w"

definition component_drop_index ::
    "'w QueryComponent \<Rightarrow> CallOptions \<Rightarrow> DropIndexOptions \<Rightarrow> 'w \<Rightarrow> ((CoreError, unit) result \<times> 'w) option" where
  "component_drop_index self copts opts w =
    orchestrate_service_call core_query_error self copts (retry_request_new ''query_drop_index'' False)
      (\<lambda>client. drop_index (qc_service self) client opts) w"

definition component_build_deferred_indexes ::
    "'w QueryComponent \<Rightarrow> CallOptions \<Rightarrow> KeyspaceOptions \<Rightarrow> 'w \<Rightarrow> ((CoreError, unit) result \<times> 'w) option" where
  "component_build_deferred_indexes self copts opts w =
    orchestrate_service_call core_query_error self copts (retry_request_new ''query_build_deferred_indexes'' False)
      (\<lambda>client. build_deferred_indexes (qc_service self) client opts) w"

definition component_watch_indexes ::
    "'w QueryComponent \<Rightarrow> CallOptions \<Rightarrow> WatchIndexesOptions \<Rightarrow> 'w \<Rightarrow> ((CoreError, unit) result \<times> 'w) option" where
  "component_watch_indexes self copts opts w =
    orchestrate_service_call core_query_error self copts (retry_request_new ''query_watch_indexes'' True)
      (\<lambda>client. watch_indexes (qc_service self) client opts) w"

section \<open>Waiting for an index\<close>

datatype DesiredState = Created | Deleted

record EnsureIndexHelper =
  eh_user_agent :: string
  eh_on_behalf_of_info :: "OnBehalfOfInfo option"
  eh_index_name :: string
  eh_bucket_name :: string
  eh_scope_name :: "string option"
  eh_collection_name :: "string option"
  eh_confirmed_endpoints :: "string list"

definition helper_new ::
    "string \<Rightarrow> string \<Rightarrow> string \<Rightarrow> string option \<Rightarrow> string option \<Rightarrow> OnBehalfOfInfo option \<Rightarrow> EnsureIndexHelper" where
  "helper_new user_agent index_name bucket scope_name collection_name on_behalf_of_info =
    \<lparr>eh_user_agent = user_agent, eh_on_behalf_of_info = on_behalf_of_info, eh_index_name = index_name,
     eh_bucket_name = bucket, eh_scope_name = scope_name, eh_collection_name = collection_name,
     eh_confirmed_endpoints = []\<rparr>"

definition poll_index ::
    "'w QueryService \<Rightarrow> EnsureIndexHelper \<Rightarrow> NodeTarget \<Rightarrow> 'w \<Rightarrow> ((Json QxError, bool) result \<times> 'w) option" where
  "poll_index svc self target w =
    io_then (qx_get_all_indexes svc
        \<lparr>sv_user_agent = eh_user_agent self, sv_endpoint = nt_endpoint target, sv_auth = nt_auth target\<rparr>
        \<lparr>ks_bucket_name = eh_bucket_name self, ks_scope_name = eh_scope_name self,
         ks_collection_name = eh_collection_name self, ks_on_behalf_of = eh_on_behalf_of_info self\<rparr> w)
      (\<lambda>resp w. Some (Ok (list_ex (\<lambda>index. ix_name index = eh_index_name self) resp), w))"

fun poll_targets ::
    "'w QueryService \<Rightarrow> EnsureIndexHelper \<Rightarrow> DesiredState \<Rightarrow> NodeTarget list \<Rightarrow> 'w \<Rightarrow> ((Json QxError, string list) result \<times> 'w) option" where
  "poll_targets svc self desired_state [] w = Some (Ok [], w)"
| "poll_targets svc self desired_state (target # targets) w =
    io_then (poll_index svc self target w) (\<lambda>exists w.
    io_then (poll_targets svc self desired_state targets w) (\<lambda>success_endpoints w.
    Some (Ok (if (case desired_state of Created \<Rightarrow> exists | Deleted \<Rightarrow> \<not> exists)
              then nt_endpoint target # success_endpoints else success_endpoints), w)))"

definition ensure_poll ::
    "'w QueryService \<Rightarrow> DesiredState \<Rightarrow> NodeTarget list \<Rightarrow> EnsureIndexHelper \<Rightarrow> 'w
      \<Rightarrow> ((Json QxError, bool \<times> EnsureIndexHelper) result \<times> 'w) option" where
  "ensure_poll svc desired_state targets self w =
    (let filtered_targets = filter (\<lambda>target. nt_endpoint target \<notin> set (eh_confirmed_endpoints self)) targets in
     io_then (poll_targets svc self desired_state targets w) (\<lambda>success_endpoints w.
     Some (Ok (length success_endpoints = length filtered_targets,
       self\<lparr>eh_confirmed_endpoints := eh_confirmed_endpoints self @ success_endpoints\<rparr>), w)))"

text \<open>Each turn of the loop polls with a copy of the fresh helper. The backoff of the source is exponential.\<close>

definition component_ensure_index ::
    "'w QueryComponent \<Rightarrow> (u32 \<Rightarrow> (CoreError, Duration) result) \<Rightarrow> EnsureIndexHelper \<Rightarrow> DesiredState \<Rightarrow> 'w
      \<Rightarrow> ((CoreError, unit) result \<times> 'w \<times> Duration list) option" where
  "component_ensure_index self backoff helper desired_state w =
    ensure_resource (hx_url_parse self) backoff (hx_http self)
      (\<lambda>targets w. map_option (\<lambda>(r, w). (and_then (map_err core_query_error r) (\<lambda>(success, _). Ok success), w))
        (ensure_poll (qc_service self) desired_state targets helper w)) 0 w []"

section \<open>Pings\<close>

text \<open>The pings are joined; here they run one after the other.\<close>

fun ping_all :: "'w QueryService \<Rightarrow> string \<Rightarrow> OnBehalfOfInfo option \<Rightarrow> NodeTarget list \<Rightarrow> 'w \<Rightarrow> (CoreError, unit) result list \<times> 'w" where
  "ping_all svc user_agent on_behalf_of [] w = ([], w)"
| "ping_all svc user_agent on_behalf_of (target # targets) w =
    (case qx_ping svc \<lparr>sv_user_agent = user_agent, sv_endpoint = nt_endpoint target, sv_auth = nt_auth target\<rparr> on_behalf_of w of
       (r, w) \<Rightarrow> (case ping_all svc user_agent on_behalf_of targets w of (rs, w) \<Rightarrow> (map_err core_query_error r # rs, w)))"

definition ping_all_endpoints ::
    "'w QueryComponent \<Rightarrow> OnBehalfOfInfo option \<Rightarrow> 'w \<Rightarrow> (CoreError, (CoreError, unit) result list) result \<times> 'w" where
  "ping_all_endpoints self on_behalf_of w =
    (case get_all_targets (hx_url_parse self) (hx_http self 0) [] of
       Err e \<Rightarrow> (Err e, w)
     | Panic \<Rightarrow> (Panic, w)
     | Ok targets \<Rightarrow> apfst Ok (ping_all (qc_service self) (hc_user_agent (hx_http self 0)) on_behalf_of targets w))"

section \<open>Facts\<close>

subsection \<open>Retries\<close>

text \<open>The errors of a query that start it over.\<close>

definition repeatable :: "Json QxError \<Rightarrow> bool" where
  "repeatable e =
    (case e of
       QxServer s \<Rightarrow> qs_kind s = QueryServerErrorKind.PreparedStatementFailure \<or> qs_kind s = QueryServerErrorKind.IndexNotFound
     | QxHttp h _ _ _ \<Rightarrow> (\<exists>msg. h = HttpErrorKind.SendRequest msg)
     | _ \<Rightarrow> False)"

lemma query_retry_reason: "retry_reason cell (ce_kind (core_query_error e)) = None \<longleftrightarrow> \<not> repeatable e"
  by (cases e) (auto simp: retry_reason_def core_query_error_def repeatable_def http_reason_def split: HttpErrorKind.splits)

interpretation query_service: http_service core_query_error repeatable
  by unfold_locales (simp add: query_retry_reason)

text \<open>
  C16. A query that fails runs exactly once, under every retry strategy, unless it failed because the request could
  not be sent, because its prepared statement is not usable or because an index was not found; the caller then
  gets the error of that one run.
\<close>

theorem query_not_repeated:
  assumes "service_attempt core_query_error self (co_endpoint copts) (\<lambda>client. qx_query (qc_service self) client opts) 0 w
      = (Err (core_query_error e), w')"
    and "\<not> repeatable e"
  shows "component_query self copts opts w = Some (Err (core_query_error e), w')"
  using query_service.call_not_repeated [OF assms] by (simp add: component_query_def retry_request_new_def)


subsection \<open>Waiting for an index\<close>

definition confirmed :: "'w QueryService \<Rightarrow> EnsureIndexHelper \<Rightarrow> DesiredState \<Rightarrow> NodeTarget \<Rightarrow> bool" where
  "confirmed svc self desired_state target \<longleftrightarrow>
    (\<exists>w0 w1 indexes. qx_get_all_indexes svc
        \<lparr>sv_user_agent = eh_user_agent self, sv_endpoint = nt_endpoint target, sv_auth = nt_auth target\<rparr>
        \<lparr>ks_bucket_name = eh_bucket_name self, ks_scope_name = eh_scope_name self,
         ks_collection_name = eh_collection_name self, ks_on_behalf_of = eh_on_behalf_of_info self\<rparr> w0 = Some (Ok indexes, w1)
      \<and> (eh_index_name self \<in> ix_name ` set indexes \<longleftrightarrow> desired_state = Created))"

lemma poll_index_confirmed:
  "poll_index svc self target w = Some (Ok found, w') \<Longrightarrow> (desired_state = Created \<longleftrightarrow> found) \<Longrightarrow> confirmed svc self desired_state target"
  unfolding confirmed_def poll_index_def io_then_eq_Ok
  by (elim exE conjE, intro exI conjI, assumption) (force simp: list_ex_iff)

lemma poll_targets_confirmed:
  "poll_targets svc self desired_state targets w = Some (Ok endpoints, w') \<Longrightarrow>
    length endpoints \<le> length targets \<and>
    (length endpoints = length targets \<longrightarrow> list_all (confirmed svc self desired_state) targets)"
proof (induction targets arbitrary: w endpoints)
  case (Cons t ts)
  obtain found w1 eps where f: "poll_index svc self t w = Some (Ok found, w1)"
      "poll_targets svc self desired_state ts w1 = Some (Ok eps, w')"
      "endpoints = (if (case desired_state of Created \<Rightarrow> found | Deleted \<Rightarrow> \<not> found) then nt_endpoint t # eps else eps)"
    using Cons.prems by (auto simp: io_then_eq_Ok)
  from Cons.IH [OF f(2)] f(3) poll_index_confirmed [OF f(1), of desired_state] show ?case
    by (cases desired_state) (auto split: if_splits)
qed simp

text \<open>
  Waiting for an index succeeds only when every query node known at that moment has reported the wanted state of
  the index: present after it was created, absent after it was dropped.
\<close>

theorem index_ensured:
  assumes "component_ensure_index self backoff (helper_new user_agent index_name bucket scope collection obo) desired_state w
      = Some (Ok (), w', slept)"
  shows "\<exists>n targets. get_all_targets (hx_url_parse self) (hx_http self n) [] = Ok targets
    \<and> list_all (confirmed (qc_service self) (helper_new user_agent index_name bucket scope collection obo) desired_state) targets"
proof -
  let ?h = "helper_new user_agent index_name bucket scope collection obo"
  obtain n targets w0 where t: "get_all_targets (hx_url_parse self) (hx_http self n) [] = Ok targets"
      "map_option (\<lambda>(r, w). (and_then (map_err core_query_error r) (\<lambda>(success, _). Ok success), w))
        (ensure_poll (qc_service self) desired_state targets ?h w0) = Some (Ok True, w')"
    using ensure_resource_ensured [OF assms [unfolded component_ensure_index_def]] by (auto simp: ensured_def)
  obtain h where "ensure_poll (qc_service self) desired_state targets ?h w0 = Some (Ok (True, h), w')"
    using t(2) by (auto simp: res_simps) (metis map_err.simps(1) result.exhaust map_err.simps(2,3) result.distinct(1,3) result.inject(1))
  then obtain eps where "poll_targets (qc_service self) ?h desired_state targets w0 = Some (Ok eps, w')" "length eps = length targets"
    by (auto simp: ensure_poll_def io_then_eq_Ok helper_new_def Let_def)
  from poll_targets_confirmed [OF this(1)] this(2) t(1) show ?thesis by blast
qed

text \<open>
  A helper that has confirmed an endpoint never succeeds again while the endpoint is polled and all endpoints have
  the wanted state: all of them are counted, but only the unconfirmed ones are expected.
\<close>

theorem reused_helper_not_done:
  assumes "poll_targets svc self desired_state targets w = Some (Ok endpoints, w')" and "length endpoints = length targets"
    and "target \<in> set targets" and "nt_endpoint target \<in> set (eh_confirmed_endpoints self)"
  shows "\<exists>self'. ensure_poll svc desired_state targets self w = Some (Ok (False, self'), w')"
proof -
  have "length (filter (\<lambda>t. nt_endpoint t \<notin> set (eh_confirmed_endpoints self)) targets) < length targets"
    using assms(3,4) by (auto intro!: length_filter_less)
  then show ?thesis using assms(1,2) by (simp add: ensure_poll_def Let_def)
qed

section \<open>Witnesses\<close>

text \<open>A service with one node from the second attempt on; the node answers the n-th request with the n-th response.\<close>

definition sample_json_env :: "Json QueryEnv" where
  "sample_json_env = \<lparr>qe_overflow_checks = True, qe_frac = (\<lambda>_ _ _. None), qe_lower = (\<lambda>s. s), qe_is_match = (\<lambda>_ _. False),
     qe_eq_int = (\<lambda>_ _. False), qe_show_status = (\<lambda>_. ''500''), qe_from_str = (\<lambda>_. Inr ''results''), qe_from_value = (\<lambda>_. Inr JNull),
     qe_to_vec = (\<lambda>_. Inr [0x7b, 0x7d]), qe_error_response = (\<lambda>_. Inl ''syntax''),
     qe_early_meta_data = (\<lambda>_. Inr None), qe_meta_data = (\<lambda>_. Inl ''syntax'')\<rparr>"

definition sample_service :: "HttpResponse list QueryService" where
  "sample_service = \<lparr>qv_env = sample_json_env, qv_to_vec = (\<lambda>_. Inr []), qv_to_string = (\<lambda>_. Inr []), qv_index = (\<lambda>_. Inl ''syntax''),
     qv_uuid = (\<lambda>w. (''u'', w)), qv_execute = (\<lambda>_ w. (Ok (hd w), tl w))\<rparr>"

definition sample_component :: "HttpResponse list QueryComponent" where
  "sample_component = \<lparr>hx_url_parse = plain_urls, hx_pick = (\<lambda>_ _. 0),
     hx_http = (\<lambda>n. if n = 0 then two_nodes\<lparr>hc_state := \<lparr>hs_endpoints = [], hs_authenticator = JwtAuthenticator ''t''\<rparr>\<rparr> else two_nodes),
     hx_err_map = (\<lambda>_. None), qc_service = sample_service\<rparr>"

lemma sample_attempt:
  "service_attempt core_query_error sample_component None (\<lambda>client. qx_query sample_service client query_options_new) 1 [\<lparr>hp_status = 500, hp_body = []\<rparr>]
    = (Err (core_query_error (QxMessage ''non-200 status code received 500 but parsing error response body failed syntax'' None None None :: Json QxError)), [])"
  by (simp add: service_attempt_def orchestrate_endpoint_def select_endpoint_def remaining_endpoints_def sample_component_def two_nodes_def
      endpoint_auth_def get_host_port_from_uri_def plain_urls_def auth_from_authenticator_def get_credentials_def qx_query_def
      query_options_new_def sample_service_def reader_new_def error_body_def sample_json_env_def service_error_to_core_def Let_def)

theorem query_not_repeated_witness:
  "\<exists>e :: Json QxError. component_query (sample_component\<lparr>hx_http := \<lambda>_. two_nodes\<rparr>)
      \<lparr>co_endpoint = None, co_retry_strategy = best_effort (\<lambda>_. 1)\<rparr> query_options_new [\<lparr>hp_status = 500, hp_body = []\<rparr>]
    = Some (Err (core_query_error e), [])"
proof -
  let ?e = "QxMessage ''non-200 status code received 500 but parsing error response body failed syntax'' None None None :: Json QxError"
  have "service_attempt core_query_error (sample_component\<lparr>hx_http := \<lambda>_. two_nodes\<rparr>) None (\<lambda>client. qx_query sample_service client query_options_new) 0
      [\<lparr>hp_status = 500, hp_body = []\<rparr>] = (Err (core_query_error ?e), [])"
    using sample_attempt by (simp add: service_attempt_def sample_component_def)
  then show ?thesis
    using query_not_repeated [of "sample_component\<lparr>hx_http := \<lambda>_. two_nodes\<rparr>"
        "\<lparr>co_endpoint = None, co_retry_strategy = best_effort (\<lambda>_. 1)\<rparr>" query_options_new
        "[\<lparr>hp_status = 500, hp_body = []\<rparr>]" ?e "[]"]
    by (auto simp: sample_component_def repeatable_def)
qed

definition one_row :: HttpResponse where
  "one_row = \<lparr>hp_status = 200, hp_body = map Inr [[0x7b, 0x22, 0x72], [0x22, 0x3a, 0x5b, 0x31], [0x5d, 0x7d]]\<rparr>"

lemma one_row_opens: "\<exists>reader. reader_new sample_json_env one_row endpoint statement cid = Some (Ok reader)"
proof -
  let ?ra = "\<lparr>a_pre = [], a_key = [0x72], a_colon1 = [], a_colon2 = [], a_value = [], a_post = []\<rparr>"
  have "string_body [0x72]" by (rule string_body_plain) simp
  then obtain s s' where "begin_stream (qe_from_str sample_json_env) (qe_from_value sample_json_env)
      (streamer_new (decoder_new (hp_body one_row)) ''results'') = Some (Ok (), s)" "has_more_rows s = (True, s')"
    using rows_response_read [of "[[0x7b, 0x22, 0x72], [0x22, 0x3a, 0x5b, 0x31], [0x5d, 0x7d]]" "[]" "[]" ?ra "[([], [0x31], [])]" "[]" "[]"
        "qe_from_str sample_json_env" "''results''" "qe_from_value sample_json_env" "[]" "[]" "qe_to_vec sample_json_env" "[0x7b, 0x7d]"] json_one
    by (auto simp: one_row_def response_text_def attr_text_def rows_attr_def quoted_def rows_attr_ok_def row_ok_def sample_json_env_def)
  then show ?thesis
    using reader_opened [of one_row sample_json_env s s' "[0x7b, 0x7d]" None endpoint statement cid] by (auto simp: one_row_def sample_json_env_def)
qed


end
