(* ===== verification/Search_Reader.thy ===== *)
theory Search_Reader
  imports Query_Options Json_Rows Rust_Text
begin

text \<open>
  Reading the response of a search (\<^verbatim>\<open>searchx/search_respreader.rs\<close>, \<^verbatim>\<open>searchx/search_json.rs\<close>,
  \<^verbatim>\<open>searchx/search_result.rs\<close>) and the errors of the service (\<^verbatim>\<open>searchx/error.rs\<close>, the classification in
  \<^verbatim>\<open>searchx/search.rs\<close>). The JSON parsers of the structures, the date parser, UTF-8 decoding and Unicode lower case
  are gathered in a record; a double is its bits and a date a number of nanoseconds with an offset.
\<close>

section \<open>Errors\<close>

datatype SearchServerErrorKind =
    Internal | AuthenticationFailure | IndexExists | IndexNotFound | UnknownIndexType | SourceTypeIncorrect
  | SourceNotFound | NoIndexPartitionsPlanned | NoIndexPartitionsFound | UnsupportedFeature | RateLimitedFailure | Unknown

record SearchServerError =
  sse_kind :: SearchServerErrorKind
  sse_index_name :: string
  sse_error_text :: string
  sse_endpoint :: string
  sse_status_code :: nat

datatype SxError =
    SxServer SearchServerError
  | SxHttp HttpErrorKind string
  | SxMessage string "string option"
  | SxInvalidArgument string "string option"
  | SxEncoding string
  | SxUnsupportedFeature string

fun show_http_error :: "HttpErrorKind \<Rightarrow> string" where
  "show_http_error (Connection msg) = ''connection error '' @ msg"
| "show_http_error (Decoding msg) = ''decoding error: '' @ msg"
| "show_http_error (HttpMessage msg) = msg"
| "show_http_error (SendRequest msg) = ''send request failed error: '' @ msg"

definition decode_error_kind :: "nat \<Rightarrow> string \<Rightarrow> SearchServerErrorKind" where
  "decode_error_kind status body_str =
    (let has = (\<lambda>s. str_contains s body_str) in
     if status = 401 \<or> status = 403 then SearchServerErrorKind.AuthenticationFailure
     else if has ''index not found'' then SearchServerErrorKind.IndexNotFound
     else if has ''index with the same name already exists''
       \<or> has ''current index uuuid'' \<and> has ''did not match input uuid'' then SearchServerErrorKind.IndexExists
     else if has ''unknown indextype'' then SearchServerErrorKind.UnknownIndexType
     else if has ''error obtaining vbucket count for bucket'' \<or> has ''requested resource not found''
       \<or> has ''non existent bucket'' then SearchServerErrorKind.SourceNotFound
     else if has ''failed to connect to or retrieve information from source, sourcetype''
       then SearchServerErrorKind.SourceTypeIncorrect
     else if has ''no planpindexes for indexname'' then SearchServerErrorKind.NoIndexPartitionsPlanned
     else if has ''no local pindexes found'' then SearchServerErrorKind.NoIndexPartitionsFound
     else if status = 500 then SearchServerErrorKind.Internal
     else if status = 429 then
       (if has ''num_concurrent_requests'' \<or> has ''num_queries_per_min'' \<or> has ''ingress_mib_per_min''
          \<or> has ''egress_mib_per_min'' then SearchServerErrorKind.RateLimitedFailure
        else SearchServerErrorKind.Unknown)
     else SearchServerErrorKind.Unknown)"

definition search_common_error :: "string \<Rightarrow> nat \<Rightarrow> string \<Rightarrow> string \<Rightarrow> SxError" where
  "search_common_error index_name status body_str endpoint =
    SxServer \<lparr>sse_kind = decode_error_kind status body_str, sse_index_name = index_name, sse_error_text = body_str,
      sse_endpoint = endpoint, sse_status_code = status\<rparr>"

definition search_error_kind :: "SxError \<Rightarrow> SearchErrorKind" where
  "search_error_kind e =
    (case e of
       SxServer s \<Rightarrow> SearchServer (sse_status_code s)
     | SxHttp h _ \<Rightarrow> SearchHttp h
     | SxMessage msg _ \<Rightarrow> SearchOther msg
     | SxInvalidArgument msg _ \<Rightarrow> SearchOther msg
     | SxEncoding msg \<Rightarrow> SearchOther msg
     | SxUnsupportedFeature feature \<Rightarrow> SearchOther feature)"

definition core_search_error :: "SxError \<Rightarrow> CoreError" where
  "core_search_error e = core_error_new (CoreErrorKind.SearchError (search_error_kind e))"

section \<open>Rows and facets\<close>

type_synonym f64 = "64 word"
type_synonym DateTime = "int \<times> int"

record RowLocation =
  rl_position :: u32
  rl_start :: u32
  rl_end :: u32
  rl_array_positions :: "u32 list option"

record SearchRow =
  srow_index :: "string option"
  srow_id :: string
  srow_score :: f64
  srow_explanation :: "bytes option"
  srow_locations :: "(string \<times> (string \<times> RowLocation list) list) list option"
  srow_fragments :: "(string \<times> string list) list option"
  srow_fields :: "bytes option"

record HitLocation =
  hl_start :: u32
  hl_end :: u32
  hl_position :: u32
  hl_array_positions :: "u32 list option"

record ResultHit =
  hit_index :: string
  hit_id :: string
  hit_score :: f64
  hit_locations :: "(string \<times> (string \<times> HitLocation list) list) list option"
  hit_fragments :: "(string \<times> string list) list option"
  hit_fields :: "bytes option"
  hit_explanation :: "bytes option"

definition hit_location :: "nat \<times> RowLocation \<Rightarrow> HitLocation" where
  "hit_location p =
    (case p of (loc_idx, loc_data) \<Rightarrow>
       \<lparr>hl_start = rl_start loc_data, hl_end = rl_end loc_data, hl_position = word_of_nat loc_idx,
        hl_array_positions = rl_array_positions loc_data\<rparr>)"

definition result_hit :: "SearchRow \<Rightarrow> ResultHit" where
  "result_hit row =
    \<lparr>hit_index = unwrap_or [] (srow_index row), hit_id = srow_id row, hit_score = srow_score row,
     hit_locations = map_option (map (apsnd (map (apsnd (\<lambda>term_data. map hit_location (enumerate 0 term_data))))))
       (srow_locations row),
     hit_fragments = srow_fragments row, hit_fields = srow_fields row, hit_explanation = srow_explanation row\<rparr>"

record TermFacet =
  tf_term :: string
  tf_count :: int

record NumericFacet =
  nf_name :: string
  nf_min :: "f64 option"
  nf_max :: "f64 option"
  nf_count :: int

record DateFacet =
  df_name :: string
  df_start :: string
  df_end :: string
  df_count :: int

record NumericRangeFacetResult =
  nr_name :: string
  nr_min :: f64
  nr_max :: f64
  nr_count :: int

record DateRangeFacetResult =
  dr_name :: string
  dr_start :: DateTime
  dr_end :: DateTime
  dr_count :: int

record SearchFacet =
  fc_field :: string
  fc_total :: int
  fc_missing :: int
  fc_other :: int
  fc_terms :: "TermFacet list option"
  fc_numeric_ranges :: "NumericFacet list option"
  fc_date_ranges :: "DateFacet list option"

record FacetResult =
  fr_field :: string
  fr_total :: int
  fr_missing :: int
  fr_other :: int
  fr_terms :: "TermFacet list option"
  fr_numeric_ranges :: "NumericRangeFacetResult list option"
  fr_date_ranges :: "DateRangeFacetResult list option"

record SearchMetaDataJson =
  sm_errors :: "(string \<times> string) list"
  sm_failed :: u64
  sm_successful :: u64
  sm_total :: u64
  sm_total_hits :: u64
  sm_max_score :: f64
  sm_took :: u64
  sm_facets :: "(string \<times> SearchFacet) list option"

record SearchMetrics =
  sx_failed_partition_count :: u64
  sx_max_score :: f64
  sx_successful_partition_count :: u64
  sx_took :: nat
  sx_total_hits :: u64
  sx_total_partition_count :: u64

record SearchMetaData =
  sd_errors :: "(string \<times> string) list"
  sd_metrics :: SearchMetrics

record SearchEnv =
  se_from_str :: "bytes \<Rightarrow> string + string"
  se_from_value :: "bytes \<Rightarrow> string + Json"
  se_to_vec :: "(string \<rightharpoonup> Json) \<Rightarrow> string + bytes"
  se_row :: "bytes \<Rightarrow> string + SearchRow"
  se_meta_data :: "bytes \<Rightarrow> string + SearchMetaDataJson"
  se_error_response :: "bytes \<Rightarrow> string + string"
  se_parse_date :: "string \<Rightarrow> string + DateTime"
  se_from_utf8 :: "bytes \<Rightarrow> string + string"
  se_lower :: "string \<Rightarrow> string"
  se_show_status :: "nat \<Rightarrow> string"

definition numeric_range :: "NumericFacet \<Rightarrow> NumericRangeFacetResult" where
  "numeric_range v = \<lparr>nr_name = nf_name v, nr_min = unwrap_or 0 (nf_min v), nr_max = unwrap_or 0 (nf_max v), nr_count = nf_count v\<rparr>"

definition parse_date :: "SearchEnv \<Rightarrow> string \<Rightarrow> (SxError, DateTime) result" where
  "parse_date env s =
    (case se_parse_date env s of Inl e \<Rightarrow> Err (SxMessage (''failed to parse date: '' @ e) None) | Inr d \<Rightarrow> Ok d)"

definition date_range :: "SearchEnv \<Rightarrow> DateFacet \<Rightarrow> (SxError, DateRangeFacetResult) result" where
  "date_range env v =
    and_then (parse_date env (df_start v)) (\<lambda>start.
    and_then (parse_date env (df_end v)) (\<lambda>stop.
    Ok \<lparr>dr_name = df_name v, dr_start = start, dr_end = stop, dr_count = df_count v\<rparr>))"

text \<open>\<^verbatim>\<open>collect\<close> into a \<^verbatim>\<open>Result\<close>: the first error wins.\<close>

fun collect_results :: "('a \<Rightarrow> ('e, 'b) result) \<Rightarrow> 'a list \<Rightarrow> ('e, 'b list) result" where
  "collect_results f [] = Ok []"
| "collect_results f (x # xs) = and_then (f x) (\<lambda>y. and_then (collect_results f xs) (\<lambda>ys. Ok (y # ys)))"

definition facet_result :: "SearchEnv \<Rightarrow> SearchFacet \<Rightarrow> (SxError, FacetResult) result" where
  "facet_result env v =
    and_then (case fc_date_ranges v of
        Some ranges \<Rightarrow> and_then (collect_results (date_range env) ranges) (\<lambda>rs. Ok (Some rs))
      | None \<Rightarrow> Ok None) (\<lambda>date_ranges.
    Ok \<lparr>fr_field = fc_field v, fr_total = fc_total v, fr_missing = fc_missing v, fr_other = fc_other v,
        fr_terms = fc_terms v, fr_numeric_ranges = map_option (map numeric_range) (fc_numeric_ranges v),
        fr_date_ranges = date_ranges\<rparr>)"

section \<open>The reader\<close>

record SearchRespReader =
  srr_endpoint :: string
  srr_status_code :: nat
  srr_index_name :: string
  srr_streamer :: "Json RawJsonRowStreamer"
  srr_meta_data :: "SearchMetaData option"
  srr_epilogue_error :: "SxError option"
  srr_facets :: "(string \<times> FacetResult) list option"

definition search_final_metadata ::
    "SearchEnv \<Rightarrow> SearchRespReader \<Rightarrow> bytes \<Rightarrow> (SxError, SearchMetaData \<times> (string \<times> FacetResult) list) result" where
  "search_final_metadata env self epilogue =
    (case se_meta_data env epilogue of
       Inl e \<Rightarrow> Err (SxMessage (''failed to parse metadata: '' @ e) (Some (srr_endpoint self)))
     | Inr json \<Rightarrow>
         let metadata = \<lparr>sd_errors = sm_errors json,
               sd_metrics = \<lparr>sx_failed_partition_count = sm_failed json, sx_max_score = sm_max_score json,
                 sx_successful_partition_count = sm_successful json, sx_took = unat (sm_took json),
                 sx_total_hits = sm_total_hits json, sx_total_partition_count = sm_total json\<rparr>\<rparr> in
         and_then (collect_results (\<lambda>(facet_name, facet_data).
             and_then (facet_result env facet_data) (\<lambda>f. Ok (facet_name, f))) (unwrap_or [] (sm_facets json))) (\<lambda>facets.
         Ok (metadata, facets)))"

definition search_error_body :: "SearchEnv \<Rightarrow> HttpResponse \<Rightarrow> string \<Rightarrow> string \<Rightarrow> (SxError, 'r) result" where
  "search_error_body env resp index_name endpoint =
    and_then (map_err (\<lambda>e. SxHttp e endpoint) (http_bytes (hp_body resp))) (\<lambda>body.
    case se_error_response env body of
      Inl e \<Rightarrow> Err (SxMessage (''non-200 status code received '' @ se_show_status env (hp_status resp)
        @ '' but parsing error response body failed '' @ e) (Some endpoint))
    | Inr err \<Rightarrow> Err (search_common_error index_name (hp_status resp) err endpoint))"

definition search_reader_new ::
    "SearchEnv \<Rightarrow> HttpResponse \<Rightarrow> string \<Rightarrow> string \<Rightarrow> (SxError, SearchRespReader) result option" where
  "search_reader_new env resp index_name endpoint =
    (if hp_status resp \<noteq> 200 then Some (search_error_body env resp index_name endpoint)
     else
       (case read_prelude (se_from_str env) (se_from_value env) (se_to_vec env)
               (streamer_new (decoder_new (hp_body resp)) ''hits'') of
          None \<Rightarrow> None
        | Some (Err e, _) \<Rightarrow> Some (Err (SxHttp e endpoint))
        | Some (Panic, _) \<Rightarrow> Some Panic
        | Some (Ok _, streamer) \<Rightarrow>
            (case has_more_rows streamer of (more_rows, streamer) \<Rightarrow>
               let reader = \<lparr>srr_endpoint = endpoint, srr_status_code = hp_status resp, srr_index_name = index_name,
                     srr_streamer = streamer, srr_meta_data = None, srr_epilogue_error = None, srr_facets = None\<rparr> in
               if more_rows then Some (Ok reader)
               else
                 Some (and_then (map_err (\<lambda>e. SxHttp e endpoint) (epilog (se_to_vec env) streamer)) (\<lambda>text.
                       and_then (search_final_metadata env reader text) (\<lambda>(meta, facets).
                       Ok (reader\<lparr>srr_meta_data := Some meta, srr_facets := Some facets\<rparr>)))))))"

definition search_reader_next ::
    "SearchEnv \<Rightarrow> SearchRespReader \<Rightarrow> ((SxError, ResultHit) result option \<times> SearchRespReader) option" where
  "search_reader_next env self =
    map_option (\<lambda>(item, streamer).
      let self = self\<lparr>srr_streamer := streamer\<rparr> in
      case item of
        Some (Ok (Row row_data)) \<Rightarrow>
          (case se_row env row_data of
             Inl e \<Rightarrow> (Some (Err (SxMessage (''failed to parse row: '' @ e) (Some (srr_endpoint self)))), self)
           | Inr row \<Rightarrow> (Some (Ok (result_hit row)), self))
      | Some (Ok (Metadata metadata)) \<Rightarrow>
          (case search_final_metadata env self metadata of
             Ok (meta, facets) \<Rightarrow> (None, self\<lparr>srr_meta_data := Some meta, srr_facets := Some facets\<rparr>)
           | Err e \<Rightarrow> (Some (Err e), self\<lparr>srr_epilogue_error := Some e\<rparr>)
           | Panic \<Rightarrow> (Some Panic, self))
      | Some (Err e) \<Rightarrow> (Some (Err (SxHttp e (srr_endpoint self))), self)
      | Some Panic \<Rightarrow> (Some Panic, self)
      | None \<Rightarrow> (None, self))
      (next_item (se_from_str env) (se_from_value env) (se_to_vec env) (srr_streamer self))"

definition after_rows :: "string \<Rightarrow> SxError option \<Rightarrow> 'r option \<Rightarrow> (SxError, 'r) result" where
  "after_rows what err x =
    (case err of
       Some e \<Rightarrow> Err e
     | None \<Rightarrow>
         (case x of
            Some v \<Rightarrow> Ok v
          | None \<Rightarrow> Err (SxMessage (''cannot read '' @ what @ '' until after all rows are read'') None)))"

definition search_metadata :: "SearchRespReader \<Rightarrow> (SxError, SearchMetaData) result" where
  "search_metadata self = after_rows ''meta-data'' (srr_epilogue_error self) (srr_meta_data self)"

definition search_facets :: "SearchRespReader \<Rightarrow> (SxError, (string \<times> FacetResult) list) result" where
  "search_facets self = after_rows ''facets'' (srr_epilogue_error self) (srr_facets self)"

fun search_items :: "SearchEnv \<Rightarrow> nat \<Rightarrow> SearchRespReader \<Rightarrow> ((SxError, ResultHit) result option list \<times> SearchRespReader) option" where
  "search_items env 0 self = Some ([], self)"
| "search_items env (Suc n) self =
    (case search_reader_next env self of
       None \<Rightarrow> None
     | Some (item, self') \<Rightarrow> map_option (apfst ((#) item)) (search_items env n self'))"

section \<open>Facts\<close>

lemma search_final_metadata_streamer [simp]:
  "search_final_metadata env (self\<lparr>srr_streamer := s\<rparr>) b = search_final_metadata env self b"
  by (simp add: search_final_metadata_def split: sum.split)

lemma search_items_of_rows:
  assumes "row_items (se_from_str env) (se_from_value env) (se_to_vec env) (length vs + 2) (srr_streamer self)
      = Some (map (\<lambda>v. Some (Ok (Row v))) vs @ [Some (Ok (Metadata b)), None], s')"
    and "search_final_metadata env self b = Ok (meta, facets)" and "list_all2 (\<lambda>v row. se_row env v = Inr row) vs hits"
  shows "\<exists>s''. search_items env (length vs + 1) self
    = Some (map (\<lambda>row. Some (Ok (result_hit row))) hits @ [None],
        self\<lparr>srr_streamer := s'', srr_meta_data := Some meta, srr_facets := Some facets\<rparr>)"
  using assms(3,1,2)
proof (induction arbitrary: self rule: list_all2_induct)
  case Nil
  then show ?case by (auto simp: numeral_2_eq_2 search_reader_next_def split: option.splits)
next
  case (Cons v vs row hits)
  then obtain s1 where 1: "next_item (se_from_str env) (se_from_value env) (se_to_vec env) (srr_streamer self) = Some (Some (Ok (Row v)), s1)"
      "row_items (se_from_str env) (se_from_value env) (se_to_vec env) (length vs + 2) s1
        = Some (map (\<lambda>v. Some (Ok (Row v))) vs @ [Some (Ok (Metadata b)), None], s')"
    by (auto split: option.splits)
  have "\<exists>s''. search_items env (length vs + 1) (self\<lparr>srr_streamer := s1\<rparr>)
      = Some (map (\<lambda>row. Some (Ok (result_hit row))) hits @ [None],
          self\<lparr>srr_streamer := s1\<rparr>\<lparr>srr_streamer := s'', srr_meta_data := Some meta, srr_facets := Some facets\<rparr>)"
    by (rule Cons.IH) (use 1 Cons.prems(2) in simp_all)
  moreover have "search_reader_next env self = Some (Some (Ok (result_hit row)), self\<lparr>srr_streamer := s1\<rparr>)"
    using 1(1) Cons.hyps(1) by (simp add: search_reader_next_def Let_def)
  ultimately show ?case by auto
qed


text \<open>The position that the server reports for a hit is lost: the place in the list is reported instead.\<close>

theorem hit_position_is_index:
  "hl_position (hit_location (i, loc)) = word_of_nat i \<and> hit_location (i, loc\<lparr>rl_position := p\<rparr>) = hit_location (i, loc)"
  by (simp add: hit_location_def)

text \<open>
  Failed queries are classified by a text that was not converted to lower case, unlike those of index
  management: the same message is recognised there and not here.
\<close>

theorem query_error_case_matters:
  "decode_error_kind 400 ''Index not found'' = SearchServerErrorKind.Unknown"
  "decode_error_kind 400 ''index not found'' = SearchServerErrorKind.IndexNotFound"
  by code_simp+

section \<open>Witness\<close>

definition sample_search_env :: SearchEnv where
  "sample_search_env = \<lparr>se_from_str = (\<lambda>_. Inr ''hits''), se_from_value = (\<lambda>_. Inr JNull), se_to_vec = (\<lambda>_. Inr [0x7b, 0x7d]),
     se_row = (\<lambda>_. Inr \<lparr>srow_index = None, srow_id = ''doc'', srow_score = 0, srow_explanation = None, srow_locations = None,
       srow_fragments = None, srow_fields = None\<rparr>),
     se_meta_data = (\<lambda>_. Inr \<lparr>sm_errors = [], sm_failed = 0, sm_successful = 1, sm_total = 1, sm_total_hits = 2, sm_max_score = 0,
       sm_took = 5, sm_facets = None\<rparr>),
     se_error_response = (\<lambda>_. Inl ''syntax''), se_parse_date = (\<lambda>_. Inl ''date''), se_from_utf8 = (\<lambda>_. Inr ''text''),
     se_lower = (\<lambda>s. s), se_show_status = (\<lambda>_. ''400'')\<rparr>"


end
