(* ===== verification/Search_Client.thy ===== *)
theory Search_Client
  imports Search_Reader Http_Calls
begin

text \<open>
  The client and the component of the search service (\<^verbatim>\<open>searchx/search.rs\<close>, \<^verbatim>\<open>searchx/index.rs\<close>,
  \<^verbatim>\<open>searchx/ensure_index_helper.rs\<close>, \<^verbatim>\<open>searchcomponent.rs\<close>). The query, sort, facet and vector parts of a search are kept as
  the JSON values they are sent as. Parsers of responses, the printer of JSON and the clock are gathered in a record.
\<close>

section \<open>Structures\<close>

record SearchQueryOptions =
  sq_collections :: "string list option"
  sq_control :: "Json option"
  sq_explain :: "bool option"
  sq_facets :: "Json option"
  sq_fields :: "string list option"
  sq_from :: "u32 option"
  sq_highlight :: "Json option"
  sq_include_locations :: "bool option"
  sq_query :: "Json option"
  sq_score :: "string option"
  sq_search_after :: "string list option"
  sq_search_before :: "string list option"
  sq_show_request :: "bool option"
  sq_size :: "u32 option"
  sq_sort :: "Json option"
  sq_knn :: "Json option"
  sq_knn_operator :: "Json option"
  sq_raw :: "(string \<times> Json) list option"
  sq_index_name :: string
  sq_scope_name :: "string option"
  sq_bucket_name :: "string option"
  sq_on_behalf_of :: "OnBehalfOfInfo option"

definition json_strings :: "string list \<Rightarrow> Json" where
  "json_strings ss = JArray (map JString ss)"

definition search_option_entries :: "SearchQueryOptions \<Rightarrow> (string \<times> Json option) list" where
  "search_option_entries opts =
    [(''collections'', map_option json_strings (sq_collections opts)),
     (''ctl'', sq_control opts),
     (''explain'', map_option JBool (sq_explain opts)),
     (''facets'', sq_facets opts),
     (''fields'', map_option json_strings (sq_fields opts)),
     (''from'', map_option json_u32 (sq_from opts)),
     (''highlight'', sq_highlight opts),
     (''includeLocations'', map_option JBool (sq_include_locations opts)),
     (''query'', sq_query opts),
     (''score'', map_option JString (sq_score opts)),
     (''search_after'', map_option json_strings (sq_search_after opts)),
     (''search_before'', map_option json_strings (sq_search_before opts)),
     (''showrequest'', map_option JBool (sq_show_request opts)),
     (''size'', map_option json_u32 (sq_size opts)),
     (''sort'', sq_sort opts),
     (''knn'', sq_knn opts),
     (''knn_operator'', sq_knn_operator opts)]"

text \<open>\<^verbatim>\<open>to_vec\<close> of the options writes the raw entries behind the others; a key may occur twice.\<close>

definition search_object :: "SearchQueryOptions \<Rightarrow> (string \<times> Json) list" where
  "search_object opts =
    concat (map (\<lambda>(k, v). case v of Some x \<Rightarrow> [(k, x)] | None \<Rightarrow> []) (search_option_entries opts))
      @ unwrap_or [] (sq_raw opts)"

record SearchIndex =
  si_name :: string
  si_index_type :: string
  si_params :: "(string \<times> Json) list option"
  si_plan_params :: "(string \<times> Json) list option"
  si_prev_index_uuid :: "string option"
  si_source_name :: "string option"
  si_source_params :: "(string \<times> Json) list option"
  si_source_type :: "string option"
  si_source_uuid :: "string option"
  si_uuid :: "string option"

definition index_object :: "SearchIndex \<Rightarrow> (string \<times> Json) list" where
  "index_object i =
    [(''name'', JString (si_name i)), (''type'', JString (si_index_type i))]
      @ concat (map (\<lambda>(k, v). case v of Some x \<Rightarrow> [(k, x)] | None \<Rightarrow> [])
         [(''params'', map_option json_map (si_params i)),
          (''planParams'', map_option json_map (si_plan_params i)),
          (''prevIndexUuid'', map_option JString (si_prev_index_uuid i)),
          (''sourceName'', map_option JString (si_source_name i)),
          (''sourceParams'', map_option json_map (si_source_params i)),
          (''sourceType'', map_option JString (si_source_type i)),
          (''sourceUuid'', map_option JString (si_source_uuid i)),
          (''uuid'', map_option JString (si_uuid i))])"

record SearchIndexOptions =
  xo_index_name :: string
  xo_bucket_name :: "string option"
  xo_scope_name :: "string option"
  xo_on_behalf_of :: "OnBehalfOfInfo option"

record DocumentAnalysis =
  da_status :: string
  da_analyzed :: bytes

record 'w SearchService =
  sc_env :: SearchEnv
  sc_to_vec :: "Json \<Rightarrow> string + bytes"
  sc_index_response :: "bytes \<Rightarrow> string + SearchIndex"
  sc_indexes_response :: "bytes \<Rightarrow> string + (string \<times> SearchIndex) list"
  sc_analysis :: "bytes \<Rightarrow> string + DocumentAnalysis"
  sc_count :: "bytes \<Rightarrow> string + u64"
  sc_now :: "'w \<Rightarrow> nat"
  sc_execute :: "Request \<Rightarrow> 'w \<Rightarrow> (HttpErrorKind, HttpResponse) result \<times> 'w"

section \<open>The client\<close>

definition decode_response_error :: "SearchEnv \<Rightarrow> HttpResponse \<Rightarrow> string \<Rightarrow> string \<Rightarrow> (SxError, 'r) result" where
  "decode_response_error env response index_name endpoint =
    and_then (map_err (\<lambda>e. SxHttp e endpoint) (http_bytes (hp_body response))) (\<lambda>body.
    case se_from_utf8 env body of
      Inl e \<Rightarrow> Err (SxMessage (''could not parse error response: '' @ e) (Some endpoint))
    | Inr s \<Rightarrow> Err (search_common_error index_name (hp_status response) (se_lower env s) endpoint))"

text \<open>A request whose response is an error unless its status is 200.\<close>

definition search_request ::
    "'w SearchService \<Rightarrow> ServiceClient \<Rightarrow> Method \<Rightarrow> string \<Rightarrow> string \<Rightarrow> OnBehalfOfInfo option \<Rightarrow> (string \<times> string) list \<Rightarrow> bytes option
      \<Rightarrow> string \<Rightarrow> (HttpResponse \<Rightarrow> (SxError, 'r) result) \<Rightarrow> 'w \<Rightarrow> (SxError, 'r) result \<times> 'w" where
  "search_request svc self method path content_type on_behalf_of headers body index_name k w =
    (case sc_execute svc (new_request self method path content_type on_behalf_of headers body) w of (r, w) \<Rightarrow>
       (and_then (map_err (\<lambda>e. SxHttp e (sv_endpoint self)) r) (\<lambda>res.
        if hp_status res \<noteq> 200 then decode_response_error (sc_env svc) res index_name (sv_endpoint self) else k res), w))"

definition parse_response :: "(bytes \<Rightarrow> string + 'a) \<Rightarrow> string \<Rightarrow> string \<Rightarrow> HttpResponse \<Rightarrow> (SxError, 'a) result" where
  "parse_response from_slice what endpoint resp =
    (case http_bytes (hp_body resp) of
       Ok body \<Rightarrow>
         (case from_slice body of
            Inr x \<Rightarrow> Ok x
          | Inl e \<Rightarrow> Err (SxMessage (what @ ''could not parse response: '' @ e) (Some endpoint)))
     | Err e \<Rightarrow> Err (SxMessage (what @ ''could not read response: '' @ show_http_error e) (Some endpoint))
     | Panic \<Rightarrow> Panic)"

definition get_uri :: "string \<Rightarrow> string option \<Rightarrow> string option \<Rightarrow> (SxError, string) result" where
  "get_uri index_name bucket scope =
    (case bucket of
       Some b \<Rightarrow>
         (case scope of
            Some s \<Rightarrow> Ok (''api/bucket/'' @ b @ ''/scope/'' @ s @ ''/index/'' @ index_name)
          | None \<Rightarrow> Err (SxInvalidArgument ''must specify both or neither scope and bucket names'' None))
     | None \<Rightarrow> Ok (''api/index/'' @ index_name))"

definition sub_uri :: "string \<Rightarrow> string option \<Rightarrow> string option \<Rightarrow> string \<Rightarrow> (SxError, string) result" where
  "sub_uri index_name bucket scope suffix =
    (case (scope, bucket) of
       (None, None) \<Rightarrow> Ok (''/api/index/'' @ index_name @ ''/'' @ suffix)
     | (Some s, Some b) \<Rightarrow> Ok (''/api/bucket/'' @ b @ ''/scope/'' @ s @ ''/index/'' @ index_name @ ''/'' @ suffix)
     | _ \<Rightarrow> Err (SxInvalidArgument ''must specify both or neither of scope and bucket names'' None))"

definition with_uri :: "(SxError, string) result \<Rightarrow> (string \<Rightarrow> 'w \<Rightarrow> (SxError, 'r) result \<times> 'w) \<Rightarrow> 'w \<Rightarrow> (SxError, 'r) result \<times> 'w" where
  "with_uri uri f w = (case uri of Ok u \<Rightarrow> f u w | Err e \<Rightarrow> (Err e, w) | Panic \<Rightarrow> (Panic, w))"

definition search_query_uri :: "SearchQueryOptions \<Rightarrow> (SxError, string) result" where
  "search_query_uri opts =
    (case sq_bucket_name opts of
       Some b \<Rightarrow>
         (case sq_scope_name opts of
            Some s \<Rightarrow> Ok (''api/bucket/'' @ b @ ''/scope/'' @ s @ ''/index/'' @ sq_index_name opts @ ''/query'')
          | None \<Rightarrow> Err (SxInvalidArgument ''must specify both or neither scope and bucket names'' None))
     | None \<Rightarrow> Ok (''api/index/'' @ sq_index_name opts @ ''/query''))"

definition search_query ::
    "'w SearchService \<Rightarrow> bool \<Rightarrow> ServiceClient \<Rightarrow> SearchQueryOptions \<Rightarrow> 'w \<Rightarrow> ((SxError, SearchRespReader) result \<times> 'w) option" where
  "search_query svc vector_enabled self opts w =
    (if \<not> vector_enabled \<and> (sq_knn opts \<noteq> None \<or> sq_knn_operator opts \<noteq> None)
     then Some (Err (SxUnsupportedFeature ''vector search''), w)
     else
       (case search_query_uri opts of
          Err e \<Rightarrow> Some (Err e, w)
        | Panic \<Rightarrow> Some (Panic, w)
        | Ok req_uri \<Rightarrow>
            (case sc_to_vec svc (JObject (search_object opts)) of
               Inl e \<Rightarrow> Some (Err (SxEncoding (''could not serialize query options: '' @ e)), w)
             | Inr body \<Rightarrow>
                 (case sc_execute svc (new_request self POST req_uri ''application/json'' (sq_on_behalf_of opts) [] (Some body)) w of
                    (r, w) \<Rightarrow>
                      (case r of
                         Err e \<Rightarrow> Some (Err (SxHttp e (sv_endpoint self)), w)
                       | Panic \<Rightarrow> Some (Panic, w)
                       | Ok res \<Rightarrow>
                           map_option (\<lambda>r. (r, w)) (search_reader_new (sc_env svc) res (sq_index_name opts) (sv_endpoint self)))))))"

definition no_cache :: "(string \<times> string) list" where
  "no_cache = [(''cache-control'', ''no-cache'')]"

definition search_upsert_index ::
    "'w SearchService \<Rightarrow> ServiceClient \<Rightarrow> SearchIndex \<Rightarrow> SearchIndexOptions \<Rightarrow> 'w \<Rightarrow> (SxError, unit) result \<times> 'w" where
  "search_upsert_index svc self index opts =
    with_uri (get_uri (si_name index) (xo_bucket_name opts) (xo_scope_name opts)) (\<lambda>req_uri w.
      case sc_to_vec svc (JObject (index_object index)) of
        Inl e \<Rightarrow> (Err (SxEncoding (''could not serialize index: '' @ e)), w)
      | Inr body \<Rightarrow>
          search_request svc self PUT req_uri ''application/json'' (xo_on_behalf_of opts) no_cache (Some body) (si_name index)
            (\<lambda>_. Ok ()) w)"

definition search_delete_index ::
    "'w SearchService \<Rightarrow> ServiceClient \<Rightarrow> SearchIndexOptions \<Rightarrow> 'w \<Rightarrow> (SxError, unit) result \<times> 'w" where
  "search_delete_index svc self opts =
    with_uri (get_uri (xo_index_name opts) (xo_bucket_name opts) (xo_scope_name opts)) (\<lambda>req_uri.
      search_request svc self DELETE req_uri ''application/json'' (xo_on_behalf_of opts) no_cache None (xo_index_name opts) (\<lambda>_. Ok ()))"

definition search_get_index ::
    "'w SearchService \<Rightarrow> ServiceClient \<Rightarrow> SearchIndexOptions \<Rightarrow> 'w \<Rightarrow> (SxError, SearchIndex) result \<times> 'w" where
  "search_get_index svc self opts =
    with_uri (get_uri (xo_index_name opts) (xo_bucket_name opts) (xo_scope_name opts)) (\<lambda>req_uri.
      search_request svc self GET req_uri [] (xo_on_behalf_of opts) [] None (xo_index_name opts)
        (parse_response (sc_index_response svc) ''failed to parse index json: '' (sv_endpoint self)))"

definition search_get_all_indexes ::
    "'w SearchService \<Rightarrow> ServiceClient \<Rightarrow> SearchIndexOptions \<Rightarrow> 'w \<Rightarrow> (SxError, SearchIndex list) result \<times> 'w" where
  "search_get_all_indexes svc self opts =
    with_uri (get_uri [] (xo_bucket_name opts) (xo_scope_name opts)) (\<lambda>req_uri.
      search_request svc self GET req_uri [] (xo_on_behalf_of opts) [] None []
        (\<lambda>res. and_then (parse_response (sc_indexes_response svc) ''failed to parse index json: '' (sv_endpoint self) res)
          (\<lambda>defs. Ok (map snd defs))))"

definition analyze_document ::
    "'w SearchService \<Rightarrow> ServiceClient \<Rightarrow> SearchIndexOptions \<Rightarrow> bytes \<Rightarrow> 'w \<Rightarrow> (SxError, DocumentAnalysis) result \<times> 'w" where
  "analyze_document svc self opts doc_content =
    with_uri (get_uri (xo_index_name opts) (xo_bucket_name opts) (xo_scope_name opts)) (\<lambda>req_uri.
      search_request svc self POST req_uri ''application/json'' (xo_on_behalf_of opts) [] (Some doc_content) (xo_index_name opts)
        (parse_response (sc_analysis svc) ''failed to parse document analysis: '' (sv_endpoint self)))"

definition get_indexed_documents_count ::
    "'w SearchService \<Rightarrow> ServiceClient \<Rightarrow> SearchIndexOptions \<Rightarrow> 'w \<Rightarrow> (SxError, u64) result \<times> 'w" where
  "get_indexed_documents_count svc self opts =
    with_uri (sub_uri (xo_index_name opts) (xo_bucket_name opts) (xo_scope_name opts) ''count'') (\<lambda>req_uri.
      search_request svc self GET req_uri [] (xo_on_behalf_of opts) [] None (xo_index_name opts)
        (parse_response (sc_count svc) ''failed to parse indexed count: '' (sv_endpoint self)))"

definition control_request ::
    "'w SearchService \<Rightarrow> ServiceClient \<Rightarrow> string \<Rightarrow> SearchIndexOptions \<Rightarrow> 'w \<Rightarrow> (SxError, unit) result \<times> 'w" where
  "control_request svc self control opts w =
    (if xo_index_name opts = [] then (Err (SxInvalidArgument ''must specify index name'' None), w)
     else
       with_uri (sub_uri (xo_index_name opts) (xo_bucket_name opts) (xo_scope_name opts) control) (\<lambda>req_uri.
         search_request svc self POST req_uri ''application/json'' (xo_on_behalf_of opts) [] None (xo_index_name opts) (\<lambda>_. Ok ())) w)"

definition pause_ingest :: "'w SearchService \<Rightarrow> ServiceClient \<Rightarrow> SearchIndexOptions \<Rightarrow> 'w \<Rightarrow> (SxError, unit) result \<times> 'w" where
  "pause_ingest svc self = control_request svc self ''ingestControl/pause''"

definition resume_ingest :: "'w SearchService \<Rightarrow> ServiceClient \<Rightarrow> SearchIndexOptions \<Rightarrow> 'w \<Rightarrow> (SxError, unit) result \<times> 'w" where
  "resume_ingest svc self = control_request svc self ''ingestControl/resume''"

definition allow_querying :: "'w SearchService \<Rightarrow> ServiceClient \<Rightarrow> SearchIndexOptions \<Rightarrow> 'w \<Rightarrow> (SxError, unit) result \<times> 'w" where
  "allow_querying svc self = control_request svc self ''queryControl/allow''"

definition disallow_querying :: "'w SearchService \<Rightarrow> ServiceClient \<Rightarrow> SearchIndexOptions \<Rightarrow> 'w \<Rightarrow> (SxError, unit) result \<times> 'w" where
  "disallow_querying svc self = control_request svc self ''queryControl/disallow''"

definition freeze_plan :: "'w SearchService \<Rightarrow> ServiceClient \<Rightarrow> SearchIndexOptions \<Rightarrow> 'w \<Rightarrow> (SxError, unit) result \<times> 'w" where
  "freeze_plan svc self = control_request svc self ''planFreezeControl/freeze''"

definition unfreeze_plan :: "'w SearchService \<Rightarrow> ServiceClient \<Rightarrow> SearchIndexOptions \<Rightarrow> 'w \<Rightarrow> (SxError, unit) result \<times> 'w" where
  "unfreeze_plan svc self = control_request svc self ''planFreezeControl/unfreeze''"

definition refresh_config :: "'w SearchService \<Rightarrow> ServiceClient \<Rightarrow> OnBehalfOfInfo option \<Rightarrow> 'w \<Rightarrow> (SxError, unit) result \<times> 'w" where
  "refresh_config svc self on_behalf_of =
    search_request svc self POST ''/api/cfgRefresh'' ''application/json'' on_behalf_of [] None [] (\<lambda>_. Ok ())"

definition search_ping :: "'w SearchService \<Rightarrow> ServiceClient \<Rightarrow> OnBehalfOfInfo option \<Rightarrow> 'w \<Rightarrow> (SxError, unit) result \<times> 'w" where
  "search_ping svc self on_behalf_of w =
    (case sc_execute svc (new_request self GET ''/api/ping'' [] on_behalf_of [] None) w of (r, w) \<Rightarrow>
       (and_then (map_err (\<lambda>e. SxHttp e (sv_endpoint self)) r) (\<lambda>res.
        if is_success (hp_status res) then Ok ()
        else Err (SxMessage (''ping failed with status code: '' @ se_show_status (sc_env svc) (hp_status res)) (Some (sv_endpoint self)))), w))"

section \<open>The component\<close>

text \<open>Whether the cluster has vector search is part of the state that other tasks change.\<close>

record 'w SearchComponent = HttpCalls +
  sp_service :: "'w SearchService"
  sp_vector_search_enabled :: "'w \<Rightarrow> bool"

definition component_search_query ::
    "'w SearchComponent \<Rightarrow> CallOptions \<Rightarrow> SearchQueryOptions \<Rightarrow> 'w \<Rightarrow> ((CoreError, SearchRespReader) result \<times> 'w) option" where
  "component_search_query self copts opts w =
    (if (sq_knn opts \<noteq> None \<or> sq_knn_operator opts \<noteq> None) \<and> \<not> sp_vector_search_enabled self w
     then Some (Err (core_error_new (CoreErrorKind.FeatureNotAvailable ''Vector Search''
       ''vector queries are available from Couchbase Server 7.6.0 and above'')), w)
     else
       orchestrate_service_call core_search_error self copts (retry_request_new ''search_query'' True)
         (\<lambda>client w. search_query (sp_service self) (sp_vector_search_enabled self w) client opts w) w)"

definition component_search_get_index ::
    "'w SearchComponent \<Rightarrow> CallOptions \<Rightarrow> SearchIndexOptions \<Rightarrow> 'w \<Rightarrow> ((CoreError, SearchIndex) result \<times> 'w) option" where
  "component_search_get_index self copts opts =
    orchestrate_service_call core_search_error self copts (retry_request_new ''search_get_index'' True)
      (\<lambda>client w. Some (search_get_index (sp_service self) client opts w))"

definition component_search_get_all_indexes ::
    "'w SearchComponent \<Rightarrow> CallOptions \<Rightarrow> SearchIndexOptions \<Rightarrow> 'w \<Rightarrow> ((CoreError, SearchIndex list) result \<times> 'w) option" where
  "component_search_get_all_indexes self copts opts =
    orchestrate_service_call core_search_error self copts (retry_request_new ''search_get_all_indexes'' True)
      (\<lambda>client w. Some (search_get_all_indexes (sp_service self) client opts w))"

definition component_search_upsert_index ::
    "'w SearchComponent \<Rightarrow> CallOptions \<Rightarrow> SearchIndex \<Rightarrow> SearchIndexOptions \<Rightarrow> 'w \<Rightarrow> ((CoreError, unit) result \<times> 'w) option" where
  "component_search_upsert_index self copts index opts =
    orchestrate_service_call core_search_error self copts (retry_request_new ''search_upsert_index'' True)
      (\<lambda>client w. Some (search_upsert_index (sp_service self) client index opts w))"

definition component_search_delete_index ::
    "'w SearchComponent \<Rightarrow> CallOptions \<Rightarrow> SearchIndexOptions \<Rightarrow> 'w \<Rightarrow> ((CoreError, unit) result \<times> 'w) option" where
  "component_search_delete_index self copts opts =
    orchestrate_service_call core_search_error self copts (retry_request_new ''search_delete_index'' True)
      (\<lambda>client w. Some (search_delete_index (sp_service self) client opts w))"

definition component_search_analyze_document ::
    "'w SearchComponent \<Rightarrow> CallOptions \<Rightarrow> SearchIndexOptions \<Rightarrow> bytes \<Rightarrow> 'w \<Rightarrow> ((CoreError, DocumentAnalysis) result \<times> 'w) option" where
  "component_search_analyze_document self copts opts doc_content =
    orchestrate_service_call core_search_error self copts (retry_request_new ''search_analyze_document'' True)
      (\<lambda>client w. Some (analyze_document (sp_service self) client opts doc_content w))"

definition component_search_get_indexed_documents_count ::
    "'w SearchComponent \<Rightarrow> CallOptions \<Rightarrow> SearchIndexOptions \<Rightarrow> 'w \<Rightarrow> ((CoreError, u64) result \<times> 'w) option" where
  "component_search_get_indexed_documents_count self copts opts =
    orchestrate_service_call core_search_error self copts (retry_request_new ''search_get_indexed_documents_count'' True)
      (\<lambda>client w. Some (get_indexed_documents_count (sp_service self) client opts w))"

definition component_search_pause_ingest ::
    "'w SearchComponent \<Rightarrow> CallOptions \<Rightarrow> SearchIndexOptions \<Rightarrow> 'w \<Rightarrow> ((CoreError, unit) result \<times> 'w) option" where
  "component_search_pause_ingest self copts opts =
    orchestrate_service_call core_search_error self copts (retry_request_new ''search_pause_ingest'' True)
      (\<lambda>client w. Some (pause_ingest (sp_service self) client opts w))"

definition component_search_resume_ingest ::
    "'w SearchComponent \<Rightarrow> CallOptions \<Rightarrow> SearchIndexOptions \<Rightarrow> 'w \<Rightarrow> ((CoreError, unit) result \<times> 'w) option" where
  "component_search_resume_ingest self copts opts =
    orchestrate_service_call core_search_error self copts (retry_request_new ''search_resume_ingest'' True)
      (\<lambda>client w. Some (resume_ingest (sp_service self) client opts w))"

definition component_search_allow_querying ::
    "'w SearchComponent \<Rightarrow> CallOptions \<Rightarrow> SearchIndexOptions \<Rightarrow> 'w \<Rightarrow> ((CoreError, unit) result \<times> 'w) option" where
  "component_search_allow_querying self copts opts =
    orchestrate_service_call core_search_error self copts (retry_request_new ''search_allow_querying'' True)
      (\<lambda>client w. Some (allow_querying (sp_service self) client opts w))"

definition component_search_disallow_querying ::
    "'w SearchComponent \<Rightarrow> CallOptions \<Rightarrow> SearchIndexOptions \<Rightarrow> 'w \<Rightarrow> ((CoreError, unit) result \<times> 'w) option" where
  "component_search_disallow_querying self copts opts =
    orchestrate_service_call core_search_error self copts (retry_request_new ''search_disallow_querying'' True)
      (\<lambda>client w. Some (disallow_querying (sp_service self) client opts w))"

definition component_search_freeze_plan ::
    "'w SearchComponent \<Rightarrow> CallOptions \<Rightarrow> SearchIndexOptions \<Rightarrow> 'w \<Rightarrow> ((CoreError, unit) result \<times> 'w) option" where
  "component_search_freeze_plan self copts opts =
    orchestrate_service_call core_search_error self copts (retry_request_new ''search_freeze_plan'' True)
      (\<lambda>client w. Some (freeze_plan (sp_service self) client opts w))"

definition component_search_unfreeze_plan ::
    "'w SearchComponent \<Rightarrow> CallOptions \<Rightarrow> SearchIndexOptions \<Rightarrow> 'w \<Rightarrow> ((CoreError, unit) result \<times> 'w) option" where
  "component_search_unfreeze_plan self copts opts =
    orchestrate_service_call core_search_error self copts (retry_request_new ''search_unfreeze_plan'' True)
      (\<lambda>client w. Some (unfreeze_plan (sp_service self) client opts w))"

section \<open>Waiting for an index\<close>

datatype SearchDesiredState = IndexCreated | IndexDeleted

record SearchEnsureHelper =
  sh_user_agent :: string
  sh_on_behalf_of_info :: "OnBehalfOfInfo option"
  sh_bucket_name :: "string option"
  sh_scope_name :: "string option"
  sh_index_name :: string
  sh_confirmed_endpoints :: "string list"
  sh_first_refresh_poll :: "nat option"
  sh_refreshed_endpoints :: "string list"

definition search_helper_new ::
    "string \<Rightarrow> string \<Rightarrow> string option \<Rightarrow> string option \<Rightarrow> OnBehalfOfInfo option \<Rightarrow> SearchEnsureHelper" where
  "search_helper_new user_agent index_name bucket scope_name on_behalf_of_info =
    \<lparr>sh_user_agent = user_agent, sh_on_behalf_of_info = on_behalf_of_info, sh_bucket_name = bucket, sh_scope_name = scope_name,
     sh_index_name = index_name, sh_confirmed_endpoints = [], sh_first_refresh_poll = None, sh_refreshed_endpoints = []\<rparr>"

definition target_client :: "string \<Rightarrow> NodeTarget \<Rightarrow> ServiceClient" where
  "target_client user_agent target = \<lparr>sv_user_agent = user_agent, sv_endpoint = nt_endpoint target, sv_auth = nt_auth target\<rparr>"

definition search_poll_one :: "'w SearchService \<Rightarrow> SearchEnsureHelper \<Rightarrow> NodeTarget \<Rightarrow> 'w \<Rightarrow> (SxError, bool) result \<times> 'w" where
  "search_poll_one svc self target w =
    (case search_get_index svc (target_client (sh_user_agent self) target)
        \<lparr>xo_index_name = sh_index_name self, xo_bucket_name = sh_bucket_name self, xo_scope_name = sh_scope_name self,
         xo_on_behalf_of = sh_on_behalf_of_info self\<rparr> w of (r, w) \<Rightarrow>
       (case r of
          Ok _ \<Rightarrow> Ok True
        | Err (SxServer e) \<Rightarrow> if sse_kind e = SearchServerErrorKind.IndexNotFound then Ok False else Err (SxServer e)
        | Err e \<Rightarrow> Err e
        | Panic \<Rightarrow> Panic, w))"

text \<open>Five seconds, in nanoseconds.\<close>

definition refresh_after :: nat where
  "refresh_after = 5 * 1000000000"

definition maybe_refresh_one :: "'w SearchService \<Rightarrow> NodeTarget \<Rightarrow> SearchEnsureHelper \<Rightarrow> 'w \<Rightarrow> SearchEnsureHelper \<times> 'w" where
  "maybe_refresh_one svc target self w =
    (case sh_first_refresh_poll self of
       None \<Rightarrow> (self\<lparr>sh_first_refresh_poll := Some (sc_now svc w)\<rparr>, w)
     | Some first_refresh_poll \<Rightarrow>
         if first_refresh_poll + refresh_after > sc_now svc w then (self, w)
         else if nt_endpoint target \<in> set (sh_refreshed_endpoints self) then (self, w)
         else (self\<lparr>sh_refreshed_endpoints := sh_refreshed_endpoints self @ [nt_endpoint target]\<rparr>,
               snd (refresh_config svc (target_client (sh_user_agent self) target) None w)))"

definition search_poll_target ::
    "'w SearchService \<Rightarrow> SearchDesiredState \<Rightarrow> NodeTarget \<Rightarrow> SearchEnsureHelper \<Rightarrow> 'w \<Rightarrow> (SxError, bool) result \<times> SearchEnsureHelper \<times> 'w" where
  "search_poll_target svc desired_state target self w =
    (case search_poll_one svc self target w of (r, w) \<Rightarrow>
       (case r of
          Ok exists \<Rightarrow>
            (case desired_state of
               IndexCreated \<Rightarrow>
                 if exists then (Ok True, self, w)
                 else
                   (case maybe_refresh_one svc target self w of (self, w) \<Rightarrow>
                      (case search_poll_one svc self target w of (r, w) \<Rightarrow> (r, self, w)))
             | IndexDeleted \<Rightarrow> (Ok (\<not> exists), self, w))
        | Err e \<Rightarrow> (Err e, self, w)
        | Panic \<Rightarrow> (Panic, self, w)))"

fun search_poll_targets ::
    "'w SearchService \<Rightarrow> SearchDesiredState \<Rightarrow> NodeTarget list \<Rightarrow> SearchEnsureHelper \<Rightarrow> 'w
      \<Rightarrow> (SxError, string list) result \<times> SearchEnsureHelper \<times> 'w" where
  "search_poll_targets svc desired_state [] self w = (Ok [], self, w)"
| "search_poll_targets svc desired_state (target # targets) self w =
    (case search_poll_target svc desired_state target self w of (r, self, w) \<Rightarrow>
       (case r of
          Ok success \<Rightarrow>
            (case search_poll_targets svc desired_state targets self w of (rs, self, w) \<Rightarrow>
               (and_then rs (\<lambda>success_endpoints.
                  Ok (if success then nt_endpoint target # success_endpoints else success_endpoints)), self, w))
        | Err e \<Rightarrow> (Err e, self, w)
        | Panic \<Rightarrow> (Panic, self, w)))"

definition search_ensure_poll ::
    "'w SearchService \<Rightarrow> SearchDesiredState \<Rightarrow> NodeTarget list \<Rightarrow> SearchEnsureHelper \<Rightarrow> 'w
      \<Rightarrow> (SxError, bool) result \<times> SearchEnsureHelper \<times> 'w" where
  "search_ensure_poll svc desired_state targets self w =
    (let filtered_targets = filter (\<lambda>target. nt_endpoint target \<notin> set (sh_confirmed_endpoints self)) targets in
     case search_poll_targets svc desired_state filtered_targets self w of (r, self, w) \<Rightarrow>
       (case r of
          Ok success_endpoints \<Rightarrow>
            (Ok (length success_endpoints = length filtered_targets),
             self\<lparr>sh_confirmed_endpoints := sh_confirmed_endpoints self @ success_endpoints\<rparr>, w)
        | Err e \<Rightarrow> (Err e, self, w)
        | Panic \<Rightarrow> (Panic, self, w)))"

text \<open>Each turn polls with a copy of the fresh helper, and what the copy learned is dropped.\<close>

definition component_search_ensure_index ::
    "'w SearchComponent \<Rightarrow> (u32 \<Rightarrow> (CoreError, Duration) result) \<Rightarrow> SearchEnsureHelper \<Rightarrow> SearchDesiredState \<Rightarrow> 'w
      \<Rightarrow> ((CoreError, unit) result \<times> 'w \<times> Duration list) option" where
  "component_search_ensure_index self backoff helper desired_state w =
    ensure_resource (hx_url_parse self) backoff (hx_http self)
      (\<lambda>targets w. case search_ensure_poll (sp_service self) desired_state targets helper w of
         (r, _, w) \<Rightarrow> Some (map_err core_search_error r, w)) 0 w []"

section \<open>Facts\<close>

subsection \<open>Retries\<close>

definition search_repeatable :: "SxError \<Rightarrow> bool" where
  "search_repeatable e =
    (case e of
       SxServer s \<Rightarrow> sse_status_code s = 429
     | SxHttp h _ \<Rightarrow> (\<exists>msg. h = HttpErrorKind.SendRequest msg)
     | _ \<Rightarrow> False)"

interpretation search_service: http_service core_search_error search_repeatable
  by unfold_locales
    (auto simp: retry_reason_def core_search_error_def search_error_kind_def search_repeatable_def http_reason_def
      split: SxError.splits HttpErrorKind.splits)

text \<open>A search that fails runs once, unless the server is busy or the request could not be sent.\<close>

theorem search_not_repeated:
  assumes "service_attempt core_search_error self (co_endpoint copts)
      (\<lambda>client w. search_query (sp_service self) (sp_vector_search_enabled self w) client opts w) 0 w = (Err (core_search_error e), w')"
    and "\<not> search_repeatable e" and "sq_knn opts = None" and "sq_knn_operator opts = None"
  shows "component_search_query self copts opts w = Some (Err (core_search_error e), w')"
  using search_service.call_not_repeated [OF assms(1,2)] assms(3,4) by (simp add: component_search_query_def retry_request_new_def)

subsection \<open>Waiting for an index\<close>

definition search_confirmed :: "'w SearchService \<Rightarrow> SearchEnsureHelper \<Rightarrow> SearchDesiredState \<Rightarrow> NodeTarget \<Rightarrow> bool" where
  "search_confirmed svc self desired_state target \<longleftrightarrow>
    (\<exists>w. fst (search_poll_one svc self target w) = Ok (desired_state = IndexCreated))"

text \<open>Polling changes of a helper only what it remembers about refreshing.\<close>

definition same_index :: "SearchEnsureHelper \<Rightarrow> SearchEnsureHelper \<Rightarrow> bool" where
  "same_index h h' \<longleftrightarrow> h' = h\<lparr>sh_first_refresh_poll := sh_first_refresh_poll h', sh_refreshed_endpoints := sh_refreshed_endpoints h'\<rparr>"

lemma same_index_refl [simp]: "same_index h h"
  by (simp add: same_index_def)

lemma same_index_trans: "same_index h h' \<Longrightarrow> same_index h' h'' \<Longrightarrow> same_index h h''"
  by (cases h, cases h', cases h'') (simp add: same_index_def)

lemma same_index_poll: "same_index h h' \<Longrightarrow> search_poll_one svc h' target w = search_poll_one svc h target w"
  by (cases h, cases h') (simp add: same_index_def search_poll_one_def)

lemma maybe_refresh_same_index: "same_index self (fst (maybe_refresh_one svc target self w))"
  by (cases self) (simp add: maybe_refresh_one_def same_index_def split: option.split)

lemma poll_target_confirmed:
  assumes "search_poll_target svc desired_state target self w = (r, self', w')"
  shows "same_index self self' \<and> (r = Ok True \<longrightarrow> search_confirmed svc self desired_state target)"
proof -
  obtain r1 w1 where 1: "search_poll_one svc self target w = (r1, w1)" by fastforce
  obtain h w2 where 2: "maybe_refresh_one svc target self w1 = (h, w2)" by fastforce
  have h: "same_index self h" using maybe_refresh_same_index [of self svc target w1] 2 by simp
  show ?thesis
    using assms 1 2 h
    by (cases r1; cases desired_state)
      (auto simp: search_poll_target_def search_confirmed_def same_index_poll [OF h] intro: exI [of _ w] exI [of _ w2] split: if_splits prod.splits)
qed

lemma search_poll_targets_confirmed:
  assumes "search_poll_targets svc desired_state targets self w = (Ok endpoints, self', w')"
  shows "length endpoints \<le> length targets
    \<and> (length endpoints = length targets \<longrightarrow> list_all (search_confirmed svc self desired_state) targets)"
  using assms
proof (induction targets arbitrary: self w endpoints self' w')
  case (Cons t ts)
  obtain r h w1 where 1: "search_poll_target svc desired_state t self w = (r, h, w1)" by (metis prod_cases3)
  obtain rs h2 w2 where 2: "search_poll_targets svc desired_state ts h w1 = (rs, h2, w2)" by (metis prod_cases3)
  obtain success eps where e: "r = Ok success" "rs = Ok eps" "endpoints = (if success then nt_endpoint t # eps else eps)"
    using Cons.prems 1 2 by (auto simp: res_simps split: result.splits)
  have h: "same_index self h" using poll_target_confirmed [OF 1] by simp
  then have "search_confirmed svc h desired_state = search_confirmed svc self desired_state"
    by (simp add: fun_eq_iff search_confirmed_def same_index_poll)
  with Cons.IH [of h w1 eps h2 w2] 2 e poll_target_confirmed [OF 1] show ?case
    by (auto split: if_splits)
qed simp

text \<open>
  Waiting for a search index succeeds only when every search node known at that moment has reported the wanted
  state: the index after it was created, an unknown index after it was dropped.
\<close>

theorem search_index_ensured:
  assumes "component_search_ensure_index self backoff (search_helper_new user_agent index_name bucket scope obo) desired_state w
      = Some (Ok (), w', slept)"
  shows "\<exists>n targets. get_all_targets (hx_url_parse self) (hx_http self n) [] = Ok targets
    \<and> list_all (search_confirmed (sp_service self) (search_helper_new user_agent index_name bucket scope obo) desired_state) targets"
proof -
  let ?h = "search_helper_new user_agent index_name bucket scope obo"
  obtain n targets w0 where t: "get_all_targets (hx_url_parse self) (hx_http self n) [] = Ok targets"
      "(case search_ensure_poll (sp_service self) desired_state targets ?h w0 of (r, _, w) \<Rightarrow> Some (map_err core_search_error r, w))
        = Some (Ok True, w')"
    using ensure_resource_ensured [OF assms [unfolded component_search_ensure_index_def]] by (auto simp: ensured_def)
  obtain r h w1 where p: "search_poll_targets (sp_service self) desired_state targets ?h w0 = (r, h, w1)" by (metis prod_cases3)
  have f: "filter (\<lambda>target. nt_endpoint target \<notin> set (sh_confirmed_endpoints ?h)) targets = targets"
    by (simp add: search_helper_new_def)
  obtain eps where "r = Ok eps" "length eps = length targets"
    using t(2) unfolding search_ensure_poll_def Let_def f p by (cases r) auto
  with p search_poll_targets_confirmed [of "sp_service self" desired_state targets ?h w0 eps h w1] t(1)
  show ?thesis by blast
qed

text \<open>A helper that was not polled before only notes the time when it should refresh a node.\<close>

theorem fresh_helper_does_not_refresh:
  "maybe_refresh_one svc target (search_helper_new user_agent index_name bucket scope obo) w =
    ((search_helper_new user_agent index_name bucket scope obo)\<lparr>sh_first_refresh_poll := Some (sc_now svc w)\<rparr>, w)"
  by (simp add: maybe_refresh_one_def search_helper_new_def)

subsection \<open>Requests\<close>

text \<open>
  An index is sent with the identifier of its source under another name than it is received with.
\<close>

theorem source_uuid_misnamed:
  "map_of (index_object i) ''sourceUUID'' = None \<and> map_of (index_object i) ''sourceUuid'' = map_option JString (si_source_uuid i)"
  by (auto simp: index_object_def split: option.split)

text \<open>The addresses of control requests, counts and pings have an empty path segment in front.\<close>

theorem control_uri_doubles_slash:
  assumes "sub_uri index_name bucket scope suffix = Ok uri"
  shows "\<exists>rest. hq_uri (new_request self method uri content_type obo headers body) = sv_endpoint self @ ''//api/'' @ rest"
  using assms
  by (auto simp: sub_uri_def new_request_def http_request_new_def Let_def split: option.splits)

end
