(* ===== verification/Api_Error.thy ===== *)
theory Api_Error
  imports Crud_Operations Query_Options Query_Error Search_Reader
begin

text \<open>
  Errors of the public crate (\<^verbatim>\<open>couchbase/src/error.rs\<close>, \<^verbatim>\<open>error_context.rs\<close>, \<^verbatim>\<open>service_type.rs\<close>): the kinds an
  application sees, the context that goes with them, and the conversions from the errors of the core
  crate. The texts of core errors (their \<^verbatim>\<open>Display\<close>) and the decoded error context of a response are
  arguments, collected in \<open>ErrorTexts\<close>.
\<close>

section \<open>Kinds\<close>

datatype ApiServiceType = Kv | Mgmt | Query | Search | Eventing | Other string

fun core_service_display :: "ServiceType \<Rightarrow> string" where
  "core_service_display ServiceType.Memd = ''memd''"
| "core_service_display ServiceType.Mgmt = ''mgmt''"
| "core_service_display ServiceType.Query = ''query''"
| "core_service_display ServiceType.Search = ''search''"
| "core_service_display ServiceType.Eventing = ''eventing''"
| "core_service_display ServiceType.Analytics = ''analytics''"
| "core_service_display (OtherService val) = ''unknown('' @ val @ '')''"

fun api_service_display :: "ApiServiceType \<Rightarrow> string" where
  "api_service_display ApiServiceType.Kv = ''kv''"
| "api_service_display ApiServiceType.Mgmt = ''mgmt''"
| "api_service_display ApiServiceType.Query = ''query''"
| "api_service_display ApiServiceType.Search = ''search''"
| "api_service_display ApiServiceType.Eventing = ''eventing''"
| "api_service_display (ApiServiceType.Other val) = ''unknown('' @ val @ '')''"

fun service_type_into :: "ServiceType \<Rightarrow> ApiServiceType" where
  "service_type_into ServiceType.Memd = ApiServiceType.Kv"
| "service_type_into ServiceType.Mgmt = ApiServiceType.Mgmt"
| "service_type_into ServiceType.Query = ApiServiceType.Query"
| "service_type_into ServiceType.Search = ApiServiceType.Search"
| "service_type_into ServiceType.Eventing = ApiServiceType.Eventing"
| "service_type_into s = ApiServiceType.Other (core_service_display s)"

text \<open>The way back; \<^verbatim>\<open>unreachable!\<close> for a service only the core crate knows.\<close>

fun service_type_back :: "ApiServiceType \<Rightarrow> ('e, ServiceType) result" where
  "service_type_back ApiServiceType.Kv = Ok ServiceType.Memd"
| "service_type_back ApiServiceType.Mgmt = Ok ServiceType.Mgmt"
| "service_type_back ApiServiceType.Query = Ok ServiceType.Query"
| "service_type_back ApiServiceType.Search = Ok ServiceType.Search"
| "service_type_back ApiServiceType.Eventing = Ok ServiceType.Eventing"
| "service_type_back (ApiServiceType.Other _) = Panic"

datatype ApiErrorKind =
    OtherFailure string | ServerTimeout | Disconnected | InvalidArgument string "string option"
   | ServiceNotAvailable ApiServiceType | FeatureNotAvailable string "string option" | InternalServerFailure
   | AuthenticationFailure | TemporaryFailure | ParsingFailure | CasMismatch | BucketNotFound
   | CollectionNotFound | ScopeNotFound | EncodingFailure string | DecodingFailure string
   | UnsupportedOperation | IndexNotFound | IndexExists | RateLimitedFailure | QuotaLimitedFailure
   | DocumentNotFound | DocumentUnretrievable | DocumentLocked | ValueTooLarge | DocumentExists
   | DurabilityLevelNotAvailable | DurabilityImpossible | DurabilityAmbiguous | DurabilityWriteInProgress
   | DurableWriteRecommitInProgress | PathNotFound | PathMismatch | PathInvalid | PathTooBig | PathTooDeep
   | ValueTooDeep | ValueInvalid | DocumentNotJSON | NumberTooBig | DeltaInvalid | PathExists
   | XattrUnknownMacro | XattrInvalidKeyCombo | XattrUnknownVirtualAttribute
   | XattrCannotModifyVirtualAttribute | XattrNoAccess | XattrInvalidOrder | XattrInvalidFlagCombo
   | MutationTokenOutdated | DocumentNotLocked | PlanningFailure | IndexFailure | PreparedStatementFailure
   | DMLFailure | CollectionExists | ScopeExists | UserNotFound | GroupNotFound | BucketExists | UserExists
   | GroupExists | BucketNotFlushable

primrec api_kind_display :: "ApiErrorKind \<Rightarrow> string" where
  "api_kind_display (ApiErrorKind.OtherFailure msg) = msg"
| "api_kind_display ApiErrorKind.ServerTimeout = ''server timeout''"
| "api_kind_display ApiErrorKind.Disconnected = ''the client is disconnected (have the parent bucket or cluster been dropped?)''"
| "api_kind_display (ApiErrorKind.InvalidArgument msg arg) = (case arg of Some arg \<Rightarrow> ''invalid argument for '' @ arg @ '': '' @ msg | None \<Rightarrow> ''invalid argument: '' @ msg)"
| "api_kind_display (ApiErrorKind.ServiceNotAvailable service) = ''service not available: '' @ api_service_display service"
| "api_kind_display (ApiErrorKind.FeatureNotAvailable feature msg) = ''feature not available: '' @ feature @ (case msg of Some msg \<Rightarrow> '' ('' @ msg @ '')'' | None \<Rightarrow> [])"
| "api_kind_display ApiErrorKind.InternalServerFailure = ''internal server failure''"
| "api_kind_display ApiErrorKind.AuthenticationFailure = ''authentication failure''"
| "api_kind_display ApiErrorKind.TemporaryFailure = ''temporary failure''"
| "api_kind_display ApiErrorKind.ParsingFailure = ''parsing failure''"
| "api_kind_display ApiErrorKind.CasMismatch = ''cas mismatch''"
| "api_kind_display ApiErrorKind.BucketNotFound = ''bucket not found''"
| "api_kind_display ApiErrorKind.CollectionNotFound = ''collection not found''"
| "api_kind_display ApiErrorKind.ScopeNotFound = ''scope not found''"
| "api_kind_display (ApiErrorKind.EncodingFailure msg) = ''encoding failure: '' @ msg"
| "api_kind_display (ApiErrorKind.DecodingFailure msg) = ''decoding failure: '' @ msg"
| "api_kind_display ApiErrorKind.UnsupportedOperation = ''unsupported operation''"
| "api_kind_display ApiErrorKind.IndexNotFound = ''index not found''"
| "api_kind_display ApiErrorKind.IndexExists = ''index exists''"
| "api_kind_display ApiErrorKind.RateLimitedFailure = ''rate limited failure''"
| "api_kind_display ApiErrorKind.QuotaLimitedFailure = ''quota limited failure''"
| "api_kind_display ApiErrorKind.DocumentNotFound = ''document not found''"
| "api_kind_display ApiErrorKind.DocumentUnretrievable = ''document unretrievable''"
| "api_kind_display ApiErrorKind.DocumentLocked = ''document locked''"
| "api_kind_display ApiErrorKind.ValueTooLarge = ''value too large''"
| "api_kind_display ApiErrorKind.DocumentExists = ''document exists''"
| "api_kind_display ApiErrorKind.DurabilityLevelNotAvailable = ''durability level not available''"
| "api_kind_display ApiErrorKind.DurabilityImpossible = ''durability impossible''"
| "api_kind_display ApiErrorKind.DurabilityAmbiguous = ''durability ambiguous''"
| "api_kind_display ApiErrorKind.DurabilityWriteInProgress = ''durability write in progress''"
| "api_kind_display ApiErrorKind.DurableWriteRecommitInProgress = ''durable write recommit in progress''"
| "api_kind_display ApiErrorKind.PathNotFound = ''path not found''"
| "api_kind_display ApiErrorKind.PathMismatch = ''path mismatch''"
| "api_kind_display ApiErrorKind.PathInvalid = ''path invalid''"
| "api_kind_display ApiErrorKind.PathTooBig = ''path too big''"
| "api_kind_display ApiErrorKind.PathTooDeep = ''path too deep''"
| "api_kind_display ApiErrorKind.ValueTooDeep = ''value too deep''"
| "api_kind_display ApiErrorKind.ValueInvalid = ''value invalid''"
| "api_kind_display ApiErrorKind.DocumentNotJSON = ''document not json''"
| "api_kind_display ApiErrorKind.NumberTooBig = ''number too big''"
| "api_kind_display ApiErrorKind.DeltaInvalid = ''delta invalid''"
| "api_kind_display ApiErrorKind.PathExists = ''path exists''"
| "api_kind_display ApiErrorKind.XattrUnknownMacro = ''xattr unknown macro''"
| "api_kind_display ApiErrorKind.XattrInvalidKeyCombo = ''xattr invalid key combo''"
| "api_kind_display ApiErrorKind.XattrUnknownVirtualAttribute = ''xattr unknown virtual attribute''"
| "api_kind_display ApiErrorKind.XattrCannotModifyVirtualAttribute = ''xattr cannot modify virtual attribute''"
| "api_kind_display ApiErrorKind.XattrNoAccess = ''xattr no access''"
| "api_kind_display ApiErrorKind.XattrInvalidOrder = ''xattr invalid order''"
| "api_kind_display ApiErrorKind.XattrInvalidFlagCombo = ''xattr invalid flag combo''"
| "api_kind_display ApiErrorKind.MutationTokenOutdated = ''mutation token outdated''"
| "api_kind_display ApiErrorKind.DocumentNotLocked = ''document not locked''"
| "api_kind_display ApiErrorKind.PlanningFailure = ''planning failure''"
| "api_kind_display ApiErrorKind.IndexFailure = ''index failure''"
| "api_kind_display ApiErrorKind.PreparedStatementFailure = ''prepared statement failure''"
| "api_kind_display ApiErrorKind.DMLFailure = ''dml failure''"
| "api_kind_display ApiErrorKind.CollectionExists = ''collection exists''"
| "api_kind_display ApiErrorKind.ScopeExists = ''scope exists''"
| "api_kind_display ApiErrorKind.UserNotFound = ''user not found''"
| "api_kind_display ApiErrorKind.GroupNotFound = ''group not found''"
| "api_kind_display ApiErrorKind.BucketExists = ''bucket exists''"
| "api_kind_display ApiErrorKind.UserExists = ''user exists''"
| "api_kind_display ApiErrorKind.GroupExists = ''group exists''"
| "api_kind_display ApiErrorKind.BucketNotFlushable = ''bucket not flushable''"

section \<open>Contexts\<close>

record KeyValueErrorContext =
  kve_key :: string
  kve_opaque :: u32
  kve_op_code :: u8
  kve_status :: u16
  kve_bucket_name :: string
  kve_scope_name :: string
  kve_collection_name :: string
  kve_error_name :: "string option"
  kve_error_desc :: "string option"
  kve_xcontent :: "string option"
  kve_xref :: "string option"
  kve_source_message :: "string option"

definition kv_error_context_new :: "string \<Rightarrow> u32 \<Rightarrow> u8 \<Rightarrow> u16 \<Rightarrow> string \<Rightarrow> string \<Rightarrow> string \<Rightarrow> KeyValueErrorContext" where
  "kv_error_context_new key opaque op_code status bucket scope_name collection_name =
    \<lparr>kve_key = key, kve_opaque = opaque, kve_op_code = op_code, kve_status = status, kve_bucket_name = bucket,
     kve_scope_name = scope_name, kve_collection_name = collection_name, kve_error_name = None,
     kve_error_desc = None, kve_xcontent = None, kve_xref = None, kve_source_message = None\<rparr>"

record QueryErrorDesc =
  qed_kind :: ApiErrorKind
  qed_code :: u32
  qed_message :: string
  qed_retry :: bool
  qed_reason :: "string \<rightharpoonup> Json"

record QueryErrorContext =
  qec_statement :: string
  qec_code :: "u32 option"
  qec_message :: "string option"
  qec_client_context_id :: string
  qec_http_status_code :: "nat option"
  qec_descs :: "QueryErrorDesc list"

record SearchErrorContext =
  sec_index_name :: string
  sec_error_text :: "string option"
  sec_http_status_code :: "nat option"

datatype ExtendedErrorContext =
  KeyValueCtx KeyValueErrorContext | QueryCtx QueryErrorContext | SearchCtx SearchErrorContext

record ErrorContext =
  ec_last_dispatched_from :: "string option"
  ec_last_dispatched_to :: "string option"
  ec_extended_context :: "ExtendedErrorContext option"

definition error_context_new :: ErrorContext where
  "error_context_new = \<lparr>ec_last_dispatched_from = None, ec_last_dispatched_to = None, ec_extended_context = None\<rparr>"

record ApiError =
  ae_kind :: ApiErrorKind
  ae_context :: "ErrorContext option"

definition api_error_new :: "ApiErrorKind \<Rightarrow> ApiError" where
  "api_error_new kind = \<lparr>ae_kind = kind, ae_context = None\<rparr>"

definition other_failure :: "string \<Rightarrow> ApiError" where
  "other_failure msg = api_error_new (ApiErrorKind.OtherFailure msg)"

definition encoding_failure_from_serde :: "string \<Rightarrow> ApiError" where
  "encoding_failure_from_serde e = api_error_new (ApiErrorKind.EncodingFailure (''encoding failed: '' @ e))"

definition decoding_failure_from_serde :: "string \<Rightarrow> ApiError" where
  "decoding_failure_from_serde e = api_error_new (ApiErrorKind.DecodingFailure (''decoding failed: '' @ e))"

definition invalid_argument :: "string \<Rightarrow> string \<Rightarrow> ApiError" where
  "invalid_argument arg msg = api_error_new (ApiErrorKind.InvalidArgument msg (Some arg))"

lemma api_error_sel [simp]:
  "ae_kind (api_error_new k) = k" "ae_kind (other_failure msg) = ApiErrorKind.OtherFailure msg"
  by (simp_all add: api_error_new_def other_failure_def)

section \<open>Key-value errors\<close>

record ErrorTexts =
  et_core :: "CoreError \<Rightarrow> string"
  et_memdx :: "MemdxError \<Rightarrow> string"
  et_source :: "Source \<Rightarrow> string"
  et_server_kind :: "ServerErrorKind \<Rightarrow> string"
  et_subdoc :: "SubdocError \<Rightarrow> string"
  et_query :: "Json QxError \<Rightarrow> string"
  et_query_kind :: "QueryServerErrorKind \<Rightarrow> string"
  et_search :: "SxError \<Rightarrow> string"
  et_search_kind :: "SearchServerErrorKind \<Rightarrow> string"
  et_parse_context :: "bytes \<Rightarrow> (string option \<times> string option) option"

text \<open>
  \<^verbatim>\<open>String::from_utf8_lossy\<close>: each maximal prefix of an ill-formed sequence becomes U+FFFD.
  \<open>utf8_step\<close> gives the number of bytes of the next piece and whether it is well-formed.
\<close>

definition second_ok :: "u8 \<Rightarrow> u8 \<Rightarrow> bool" where
  "second_ok a b \<longleftrightarrow> utf8_cont b \<and> (a = 0xE0 \<longrightarrow> 0xA0 \<le> b) \<and> (a = 0xED \<longrightarrow> b \<le> 0x9F)
    \<and> (a = 0xF0 \<longrightarrow> 0x90 \<le> b) \<and> (a = 0xF4 \<longrightarrow> b \<le> 0x8F)"

fun conts :: "bytes \<Rightarrow> nat \<Rightarrow> nat" where
  "conts (b # bs) (Suc n) = (if utf8_cont b then Suc (conts bs n) else 0)"
| "conts _ _ = 0"

definition utf8_step :: "u8 \<Rightarrow> bytes \<Rightarrow> nat \<times> bool" where
  "utf8_step a bs =
    (let len = (if a \<le> 0x7F then 1 else if 0xC2 \<le> a \<and> a \<le> 0xDF then 2 else if 0xE0 \<le> a \<and> a \<le> 0xEF then 3
                else if 0xF0 \<le> a \<and> a \<le> 0xF4 then 4 else 0 :: nat) in
     if len \<le> 1 then (1, len = 1)
     else case bs of
       b # r \<Rightarrow> if second_ok a b then let n = 2 + conts r (len - 2) in (n, n = len) else (1, False)
     | [] \<Rightarrow> (1, False))"

fun lossy :: "nat \<Rightarrow> bytes \<Rightarrow> bytes" where
  "lossy 0 _ = []"
| "lossy _ [] = []"
| "lossy (Suc n) (a # bs) =
    (case utf8_step a bs of (k, ok) \<Rightarrow>
       (if ok then take k (a # bs) else [0xEF, 0xBF, 0xBD]) @ lossy n (drop k (a # bs)))"

definition from_utf8_lossy :: "bytes \<Rightarrow> string" where
  "from_utf8_lossy bs = from_utf8 (lossy (length bs) bs)"

definition subdoc_error_into :: "ErrorTexts \<Rightarrow> SubdocError \<Rightarrow> ApiErrorKind" where
  "subdoc_error_into texts value =
    (case sde_kind value of
       SubdocErrorKind.PathNotFound \<Rightarrow> ApiErrorKind.PathNotFound
     | SubdocErrorKind.PathMismatch \<Rightarrow> ApiErrorKind.PathMismatch
     | SubdocErrorKind.PathInvalid \<Rightarrow> ApiErrorKind.PathInvalid
     | SubdocErrorKind.PathTooBig \<Rightarrow> ApiErrorKind.PathTooBig
     | SubdocErrorKind.DocTooDeep \<Rightarrow> ApiErrorKind.PathTooDeep
     | SubdocErrorKind.CantInsert \<Rightarrow> ApiErrorKind.ValueInvalid
     | SubdocErrorKind.NotJSON \<Rightarrow> ApiErrorKind.DocumentNotJSON
     | SubdocErrorKind.BadRange \<Rightarrow> ApiErrorKind.NumberTooBig
     | SubdocErrorKind.BadDelta \<Rightarrow> ApiErrorKind.DeltaInvalid
     | SubdocErrorKind.PathExists \<Rightarrow> ApiErrorKind.PathExists
     | SubdocErrorKind.ValueTooDeep \<Rightarrow> ApiErrorKind.ValueTooDeep
     | SubdocErrorKind.XattrInvalidFlagCombo \<Rightarrow> ApiErrorKind.XattrInvalidFlagCombo
     | SubdocErrorKind.XattrInvalidKeyCombo \<Rightarrow> ApiErrorKind.XattrInvalidKeyCombo
     | SubdocErrorKind.XattrUnknownMacro \<Rightarrow> ApiErrorKind.XattrUnknownMacro
     | SubdocErrorKind.XattrUnknownVAttr \<Rightarrow> ApiErrorKind.XattrUnknownVirtualAttribute
     | SubdocErrorKind.XattrCannotModifyVAttr \<Rightarrow> ApiErrorKind.XattrCannotModifyVirtualAttribute
     | SubdocErrorKind.InvalidXattrOrder \<Rightarrow> ApiErrorKind.XattrInvalidOrder
     | SubdocErrorKind.XattrUnknownVattrMacro \<Rightarrow> ApiErrorKind.XattrUnknownVirtualAttribute
     | SubdocErrorKind.InvalidCombo \<Rightarrow> ApiErrorKind.InvalidArgument (et_subdoc texts value) None
     | _ \<Rightarrow> ApiErrorKind.OtherFailure (et_subdoc texts value))"

definition server_error_kind_into :: "ErrorTexts \<Rightarrow> ServerErrorKind \<Rightarrow> ApiErrorKind" where
  "server_error_kind_into texts value =
    (case value of
       ServerErrorKind.KeyExists \<Rightarrow> ApiErrorKind.DocumentExists
     | ServerErrorKind.NotStored \<Rightarrow> ApiErrorKind.DocumentNotFound
     | ServerErrorKind.KeyNotFound \<Rightarrow> ApiErrorKind.DocumentNotFound
     | ServerErrorKind.TmpFail \<Rightarrow> ApiErrorKind.TemporaryFailure
     | ServerErrorKind.CasMismatch \<Rightarrow> ApiErrorKind.CasMismatch
     | ServerErrorKind.Locked \<Rightarrow> ApiErrorKind.DocumentLocked
     | ServerErrorKind.NotLocked \<Rightarrow> ApiErrorKind.DocumentNotLocked
     | ServerErrorKind.TooBig \<Rightarrow> ApiErrorKind.ValueTooLarge
     | ServerErrorKind.UnknownCollectionID \<Rightarrow> ApiErrorKind.CollectionNotFound
     | ServerErrorKind.UnknownBucketName \<Rightarrow> ApiErrorKind.BucketNotFound
     | ServerErrorKind.Access \<Rightarrow> ApiErrorKind.AuthenticationFailure
     | ServerErrorKind.Auth _ \<Rightarrow> ApiErrorKind.AuthenticationFailure
     | ServerErrorKind.UnknownScopeName \<Rightarrow> ApiErrorKind.ScopeNotFound
     | ServerErrorKind.UnknownCollectionName \<Rightarrow> ApiErrorKind.CollectionNotFound
     | ServerErrorKind.RateLimitedScopeSizeLimitExceeded \<Rightarrow> ApiErrorKind.QuotaLimitedFailure
     | ServerErrorKind.RateLimitedNetworkEgress \<Rightarrow> ApiErrorKind.RateLimitedFailure
     | ServerErrorKind.RateLimitedNetworkIngress \<Rightarrow> ApiErrorKind.RateLimitedFailure
     | ServerErrorKind.RateLimitedMaxCommands \<Rightarrow> ApiErrorKind.RateLimitedFailure
     | ServerErrorKind.RateLimitedMaxConnections \<Rightarrow> ApiErrorKind.RateLimitedFailure
     | ServerErrorKind.DurabilityImpossible \<Rightarrow> ApiErrorKind.DurabilityImpossible
     | ServerErrorKind.SyncWriteRecommitInProgress \<Rightarrow> ApiErrorKind.DurableWriteRecommitInProgress
     | ServerErrorKind.SyncWriteInProgress \<Rightarrow> ApiErrorKind.DurabilityWriteInProgress
     | ServerErrorKind.SyncWriteAmbiguous \<Rightarrow> ApiErrorKind.DurabilityAmbiguous
     | ServerErrorKind.DurabilityInvalid \<Rightarrow> ApiErrorKind.DurabilityLevelNotAvailable
     | ServerErrorKind.BadDelta \<Rightarrow> ApiErrorKind.DeltaInvalid
     | ServerErrorKind.RangeError \<Rightarrow> ApiErrorKind.NumberTooBig
     | ServerErrorKind.InternalError \<Rightarrow> ApiErrorKind.InternalServerFailure
     | ServerErrorKind.Busy \<Rightarrow> ApiErrorKind.TemporaryFailure
     | ServerErrorKind.UnknownCommand \<Rightarrow> ApiErrorKind.UnsupportedOperation
     | ServerErrorKind.NotSupported \<Rightarrow> ApiErrorKind.UnsupportedOperation
     | ServerErrorKind.Subdoc error \<Rightarrow> subdoc_error_into texts error
     | _ \<Rightarrow> ApiErrorKind.OtherFailure (et_server_kind texts value))"

text \<open>A server error has no source of its own, so there is never a source message.\<close>

definition parse_kv_server_error ::
    "ErrorTexts \<Rightarrow> ServerError \<Rightarrow> bytes \<Rightarrow> string \<Rightarrow> string \<Rightarrow> string \<Rightarrow> ApiErrorKind \<times> KeyValueErrorContext" where
  "parse_kv_server_error texts e doc_id bucket scope_name collection_name =
    (let ctx = kv_error_context_new (from_utf8_lossy doc_id) (se_opaque e) (opcode_to_u8 (se_op_code e))
           (status_to_u16 (se_status e)) bucket scope_name collection_name;
         ctx = (case se_context e of
                  None \<Rightarrow> ctx
                | Some xerror \<Rightarrow>
                    (case et_parse_context texts xerror of
                       None \<Rightarrow> ctx
                     | Some (txt, error_ref) \<Rightarrow>
                         ctx\<lparr>kve_xcontent := txt, kve_xref := error_ref\<rparr>)) in
     (server_error_kind_into texts (se_kind e), ctx))"

definition memdx_error_into :: "ErrorTexts \<Rightarrow> MemdxError \<Rightarrow> ApiError" where
  "memdx_error_into texts value =
    (let source = me_source value;
         doc_id = unwrap_or [] (me_doc_id value);
         bucket = unwrap_or [] (me_bucket_name value);
         (kind, extended) =
           (case err_kind source of
              ErrorKind.Server e \<Rightarrow>
                apsnd Some (parse_kv_server_error texts e doc_id bucket
                  (unwrap_or [] (me_scope_name value)) (unwrap_or [] (me_collection_name value)))
            | ErrorKind.Resource e \<Rightarrow>
                apsnd Some (parse_kv_server_error texts (re_cause e) doc_id bucket (re_scope_name e) (re_collection_name e))
            | ErrorKind.Io \<Rightarrow>
                (ApiErrorKind.OtherFailure
                  (case err_source source of Some src \<Rightarrow> et_source texts src | None \<Rightarrow> et_memdx texts value), None)
            | ErrorKind.InvalidArgument msg arg \<Rightarrow>
                (ApiErrorKind.InvalidArgument
                  (case err_source source of Some src \<Rightarrow> et_source texts src | None \<Rightarrow> msg) arg, None)
            | _ \<Rightarrow> (ApiErrorKind.OtherFailure (et_memdx texts value), None)) in
     \<lparr>ae_kind = kind,
      ae_context = Some \<lparr>ec_last_dispatched_from = me_dispatched_from value,
        ec_last_dispatched_to = me_dispatched_to value, ec_extended_context = map_option KeyValueCtx extended\<rparr>\<rparr>)"

section \<open>Query and search errors\<close>

definition query_server_kind_into :: "ErrorTexts \<Rightarrow> QueryServerErrorKind \<Rightarrow> ApiErrorKind" where
  "query_server_kind_into texts value =
    (case value of
       QueryServerErrorKind.ParsingFailure \<Rightarrow> ApiErrorKind.ParsingFailure
     | QueryServerErrorKind.Internal \<Rightarrow> ApiErrorKind.InternalServerFailure
     | QueryServerErrorKind.AuthenticationFailure \<Rightarrow> ApiErrorKind.AuthenticationFailure
     | QueryServerErrorKind.CasMismatch \<Rightarrow> ApiErrorKind.CasMismatch
     | QueryServerErrorKind.DocNotFound \<Rightarrow> ApiErrorKind.DocumentNotFound
     | QueryServerErrorKind.DocExists \<Rightarrow> ApiErrorKind.DocumentExists
     | QueryServerErrorKind.PlanningFailure \<Rightarrow> ApiErrorKind.PlanningFailure
     | QueryServerErrorKind.IndexFailure \<Rightarrow> ApiErrorKind.IndexFailure
     | QueryServerErrorKind.PreparedStatementFailure \<Rightarrow> ApiErrorKind.PreparedStatementFailure
     | QueryServerErrorKind.DMLFailure \<Rightarrow> ApiErrorKind.DMLFailure
     | QueryServerErrorKind.Timeout \<Rightarrow> ApiErrorKind.ServerTimeout
     | QueryServerErrorKind.IndexExists \<Rightarrow> ApiErrorKind.IndexExists
     | QueryServerErrorKind.IndexNotFound \<Rightarrow> ApiErrorKind.IndexNotFound
     | QueryServerErrorKind.ScopeNotFound \<Rightarrow> ApiErrorKind.ScopeNotFound
     | QueryServerErrorKind.CollectionNotFound \<Rightarrow> ApiErrorKind.CollectionNotFound
     | QueryServerErrorKind.InvalidArgument argument reason \<Rightarrow> ApiErrorKind.InvalidArgument reason (Some argument)
     | _ \<Rightarrow> ApiErrorKind.OtherFailure (et_query_kind texts value))"

definition parse_query_server_error :: "ErrorTexts \<Rightarrow> Json QxServerError \<Rightarrow> ApiErrorKind \<times> QueryErrorContext" where
  "parse_query_server_error texts e =
    (query_server_kind_into texts (qs_kind e),
     \<lparr>qec_statement = unwrap_or [] (qs_statement e), qec_code = Some (qs_code e), qec_message = Some (qs_msg e),
      qec_client_context_id = unwrap_or [] (qs_client_context_id e),
      qec_http_status_code = Some (qs_status_code e),
      qec_descs = map (\<lambda>d. \<lparr>qed_kind = query_server_kind_into texts (ed_kind d), qed_code = ed_code d,
        qed_message = ed_message d, qed_retry = ed_retry d, qed_reason = ed_reason d\<rparr>) (qs_all_error_descs e)\<rparr>)"

definition dispatched_to :: "string \<Rightarrow> ExtendedErrorContext option \<Rightarrow> ErrorContext" where
  "dispatched_to endpoint extended =
    \<lparr>ec_last_dispatched_from = None, ec_last_dispatched_to = Some endpoint, ec_extended_context = extended\<rparr>"

definition bare_query_context :: "string option \<Rightarrow> string option \<Rightarrow> ExtendedErrorContext" where
  "bare_query_context statement client_context_id = QueryCtx
    \<lparr>qec_statement = unwrap_or [] statement, qec_code = None, qec_message = None,
     qec_client_context_id = unwrap_or [] client_context_id, qec_http_status_code = None, qec_descs = []\<rparr>"

definition query_server_error_into :: "ErrorTexts \<Rightarrow> Json QxServerError \<Rightarrow> ApiError" where
  "query_server_error_into texts e =
    (case parse_query_server_error texts e of (kind, extended) \<Rightarrow>
       \<lparr>ae_kind = kind, ae_context = Some (dispatched_to (qs_endpoint e) (Some (QueryCtx extended)))\<rparr>)"

definition query_error_into :: "ErrorTexts \<Rightarrow> Json QxError \<Rightarrow> ApiError" where
  "query_error_into texts value =
    (case value of
       QxServer e \<Rightarrow> query_server_error_into texts e
     | QxHttp source endpoint statement client_context_id \<Rightarrow>
         \<lparr>ae_kind = ApiErrorKind.OtherFailure (show_http_error source),
          ae_context = Some (dispatched_to endpoint (Some (bare_query_context statement client_context_id)))\<rparr>
     | QxResource e \<Rightarrow> query_server_error_into texts (qr_cause e)
     | QxMessage msg endpoint statement client_context_id \<Rightarrow>
         \<lparr>ae_kind = ApiErrorKind.OtherFailure msg,
          ae_context = Some \<lparr>ec_last_dispatched_from = None, ec_last_dispatched_to = endpoint,
            ec_extended_context = Some (bare_query_context statement client_context_id)\<rparr>\<rparr>
     | QxInvalidArgument msg arg \<Rightarrow> api_error_new (ApiErrorKind.InvalidArgument msg arg)
     | QxEncoding msg \<Rightarrow> other_failure msg)"

definition search_server_kind_into :: "ErrorTexts \<Rightarrow> SearchServerErrorKind \<Rightarrow> ApiErrorKind" where
  "search_server_kind_into texts value =
    (case value of
       SearchServerErrorKind.Internal \<Rightarrow> ApiErrorKind.InternalServerFailure
     | SearchServerErrorKind.AuthenticationFailure \<Rightarrow> ApiErrorKind.AuthenticationFailure
     | SearchServerErrorKind.IndexExists \<Rightarrow> ApiErrorKind.IndexNotFound
     | SearchServerErrorKind.IndexNotFound \<Rightarrow> ApiErrorKind.IndexNotFound
     | SearchServerErrorKind.RateLimitedFailure \<Rightarrow> ApiErrorKind.RateLimitedFailure
     | _ \<Rightarrow> ApiErrorKind.OtherFailure (et_search_kind texts value))"

definition search_error_into :: "ErrorTexts \<Rightarrow> SxError \<Rightarrow> ApiError" where
  "search_error_into texts value =
    (case value of
       SxServer e \<Rightarrow>
         \<lparr>ae_kind = search_server_kind_into texts (sse_kind e),
          ae_context = Some (dispatched_to (sse_endpoint e) (Some (SearchCtx
            \<lparr>sec_index_name = sse_index_name e, sec_error_text = Some (sse_error_text e),
             sec_http_status_code = Some (sse_status_code e)\<rparr>)))\<rparr>
     | SxHttp source endpoint \<Rightarrow>
         \<lparr>ae_kind = ApiErrorKind.OtherFailure (show_http_error source), ae_context = Some (dispatched_to endpoint None)\<rparr>
     | SxMessage msg endpoint \<Rightarrow>
         \<lparr>ae_kind = ApiErrorKind.OtherFailure msg, ae_context = map_option (\<lambda>e. dispatched_to e None) endpoint\<rparr>
     | SxInvalidArgument msg arg \<Rightarrow> api_error_new (ApiErrorKind.InvalidArgument msg arg)
     | SxEncoding msg \<Rightarrow> api_error_new (ApiErrorKind.EncodingFailure msg)
     | SxUnsupportedFeature feature \<Rightarrow> api_error_new (ApiErrorKind.FeatureNotAvailable feature None))"

section \<open>Core errors\<close>

text \<open>
  A core error of this development keeps only the kind of a query, search or management error, so
  what such an error becomes is the argument \<open>service_into\<close>: \<open>query_error_into\<close> or \<open>search_error_into\<close> of the error
  it stands for.
\<close>

definition core_error_into :: "ErrorTexts \<Rightarrow> (CoreErrorKind \<Rightarrow> ApiError) \<Rightarrow> CoreError \<Rightarrow> ApiError" where
  "core_error_into texts service_into value =
    (case ce_kind value of
       CoreErrorKind.Memdx e \<Rightarrow> memdx_error_into texts e
     | QueryError _ \<Rightarrow> service_into (ce_kind value)
     | SearchError _ \<Rightarrow> service_into (ce_kind value)
     | MgmtError _ \<Rightarrow> service_into (ce_kind value)
     | HttpError k \<Rightarrow>
         (case k of
            Connection msg \<Rightarrow> other_failure msg
          | Decoding msg \<Rightarrow> api_error_new (ApiErrorKind.DecodingFailure msg)
          | HttpMessage msg \<Rightarrow> other_failure msg
          | SendRequest _ \<Rightarrow> other_failure (et_core texts value))
     | CoreErrorKind.InvalidArgument msg arg \<Rightarrow> api_error_new (ApiErrorKind.InvalidArgument msg arg)
     | IllegalState msg \<Rightarrow> other_failure msg
     | CoreErrorKind.Message msg \<Rightarrow> other_failure msg
     | CoreErrorKind.ServiceNotAvailable service \<Rightarrow> api_error_new (ApiErrorKind.ServiceNotAvailable (service_type_into service))
     | CoreErrorKind.FeatureNotAvailable feature msg \<Rightarrow> api_error_new (ApiErrorKind.FeatureNotAvailable feature (Some msg))
     | CoreErrorKind.Compression msg \<Rightarrow> other_failure msg
     | CoreErrorKind.Internal msg \<Rightarrow> other_failure msg
     | _ \<Rightarrow> other_failure (et_core texts value))"

end
