(* ===== verification/Subdoc_Specs.thy ===== *)
theory Subdoc_Specs
  imports Api_Error
begin

unbundle bit_operations_syntax

text \<open>
  Sub-document specifications of the public crate (\<^verbatim>\<open>couchbase/src/subdoc/lookup_in_specs.rs\<close>,
  \<^verbatim>\<open>mutate_in_specs.rs\<close>, \<^verbatim>\<open>macros.rs\<close>) and their translation to the operations of the protocol. The
  serializer of serde is an argument; \<^verbatim>\<open>impl Into<Option<..>>\<close> is an option.
\<close>

section \<open>Lookups\<close>

datatype ApiLookupInOpType = Get | Exists | Count

record LookupInSpec =
  lis_op :: ApiLookupInOpType
  lis_path :: string
  lis_is_xattr :: bool

text \<open>\<open>GetSpecOptions\<close>, \<open>ExistsSpecOptions\<close>, \<open>CountSpecOptions\<close>, \<open>ReplaceSpecOptions\<close> and \<open>RemoveSpecOptions\<close> have the same field.\<close>

record GetSpecOptions =
  so_is_xattr :: "bool option"

definition spec_xattr :: "bool \<Rightarrow> GetSpecOptions option \<Rightarrow> bool" where
  "spec_xattr dflt opts = unwrap_or dflt (case opts of Some o' \<Rightarrow> so_is_xattr o' | None \<Rightarrow> None)"

definition lookup_spec_get :: "string \<Rightarrow> GetSpecOptions option \<Rightarrow> LookupInSpec" where
  "lookup_spec_get path opts = \<lparr>lis_op = ApiLookupInOpType.Get, lis_path = path, lis_is_xattr = spec_xattr False opts\<rparr>"

definition lookup_spec_exists :: "string \<Rightarrow> GetSpecOptions option \<Rightarrow> LookupInSpec" where
  "lookup_spec_exists path opts = \<lparr>lis_op = ApiLookupInOpType.Exists, lis_path = path, lis_is_xattr = spec_xattr False opts\<rparr>"

definition lookup_spec_count :: "string \<Rightarrow> GetSpecOptions option \<Rightarrow> LookupInSpec" where
  "lookup_spec_count path opts = \<lparr>lis_op = ApiLookupInOpType.Count, lis_path = path, lis_is_xattr = spec_xattr False opts\<rparr>"

definition lookup_spec_into :: "LookupInSpec \<Rightarrow> LookupInOp" where
  "lookup_spec_into value =
    \<lparr>lio_op = (case lis_op value of
        ApiLookupInOpType.Get \<Rightarrow> if lis_path value = [] then LookupInOpType.GetDoc else LookupInOpType.Get
      | ApiLookupInOpType.Exists \<Rightarrow> LookupInOpType.Exists
      | ApiLookupInOpType.Count \<Rightarrow> LookupInOpType.GetCount),
     lio_flags = (if lis_is_xattr value then XATTR_PATH else 0),
     lio_path = as_bytes (lis_path value)\<rparr>"

datatype LookupInMacros = Document | ExpiryTime | CAS | SeqNo | LastModified | IsDeleted | ValueSizeBytes | RevId

primrec lookup_macro_path :: "LookupInMacros \<Rightarrow> string" where
  "lookup_macro_path Document = ''$document''"
| "lookup_macro_path ExpiryTime = ''$document.exptime''"
| "lookup_macro_path CAS = ''$document.CAS''"
| "lookup_macro_path SeqNo = ''$document.seqno''"
| "lookup_macro_path LastModified = ''$document.last_modified''"
| "lookup_macro_path IsDeleted = ''$document.deleted''"
| "lookup_macro_path ValueSizeBytes = ''$document.value_bytes''"
| "lookup_macro_path RevId = ''$document.revid''"

section \<open>Mutations\<close>

datatype ApiMutateInOpType =
  Insert | Upsert | Replace | Remove | ArrayAppend | ArrayPrepend | ArrayInsert | ArrayAddUnique | Counter

record MutateInSpec =
  mis_op :: ApiMutateInOpType
  mis_path :: string
  mis_value :: bytes
  mis_create_path :: bool
  mis_is_xattr :: bool
  mis_expand_macros :: bool

text \<open>The options of the other operations have this pair of fields.\<close>

record InsertSpecOptions =
  pso_create_path :: "bool option"
  pso_is_xattr :: "bool option"

definition path_options :: "InsertSpecOptions option \<Rightarrow> InsertSpecOptions" where
  "path_options opts = unwrap_or \<lparr>pso_create_path = None, pso_is_xattr = None\<rparr> opts"

definition MUTATE_IN_MACROS :: "bytes list" where
  "MUTATE_IN_MACROS = map (\<lambda>s. as_bytes ([CHR 0x22] @ s @ [CHR 0x22])) [''${Mutation.CAS}'', ''${Mutation.seqno}'', ''${Mutation.value_crc32c}'']"

definition check_is_macro :: "bytes \<Rightarrow> bool" where
  "check_is_macro value \<longleftrightarrow> value \<in> set MUTATE_IN_MACROS"

text \<open>The operations whose value may be a macro, and those whose value is spliced into an array.\<close>

definition macro_spec :: "ApiMutateInOpType \<Rightarrow> string \<Rightarrow> bytes \<Rightarrow> InsertSpecOptions option \<Rightarrow> MutateInSpec" where
  "macro_spec op path value opts =
    \<lparr>mis_op = op, mis_path = path, mis_value = value,
     mis_create_path = unwrap_or False (pso_create_path (path_options opts)),
     mis_is_xattr = unwrap_or (check_is_macro value) (pso_is_xattr (path_options opts)),
     mis_expand_macros = check_is_macro value\<rparr>"

definition plain_spec :: "ApiMutateInOpType \<Rightarrow> string \<Rightarrow> bytes \<Rightarrow> InsertSpecOptions option \<Rightarrow> MutateInSpec" where
  "plain_spec op path value opts =
    \<lparr>mis_op = op, mis_path = path, mis_value = value,
     mis_create_path = unwrap_or False (pso_create_path (path_options opts)),
     mis_is_xattr = unwrap_or False (pso_is_xattr (path_options opts)),
     mis_expand_macros = False\<rparr>"

definition insert_raw :: "string \<Rightarrow> bytes \<Rightarrow> InsertSpecOptions option \<Rightarrow> MutateInSpec" where
  "insert_raw = macro_spec ApiMutateInOpType.Insert"

definition upsert_raw :: "string \<Rightarrow> bytes \<Rightarrow> InsertSpecOptions option \<Rightarrow> MutateInSpec" where
  "upsert_raw = macro_spec ApiMutateInOpType.Upsert"

definition replace_raw :: "string \<Rightarrow> bytes \<Rightarrow> GetSpecOptions option \<Rightarrow> MutateInSpec" where
  "replace_raw path value opts =
    \<lparr>mis_op = ApiMutateInOpType.Replace, mis_path = path, mis_value = value, mis_create_path = False,
     mis_is_xattr = spec_xattr (check_is_macro value) opts, mis_expand_macros = check_is_macro value\<rparr>"

definition spec_remove :: "string \<Rightarrow> GetSpecOptions option \<Rightarrow> MutateInSpec" where
  "spec_remove path opts =
    \<lparr>mis_op = ApiMutateInOpType.Remove, mis_path = path, mis_value = [], mis_create_path = False,
     mis_is_xattr = spec_xattr False opts, mis_expand_macros = False\<rparr>"

definition array_append_raw :: "string \<Rightarrow> bytes \<Rightarrow> InsertSpecOptions option \<Rightarrow> MutateInSpec" where
  "array_append_raw = plain_spec ApiMutateInOpType.ArrayAppend"

definition array_prepend_raw :: "string \<Rightarrow> bytes \<Rightarrow> InsertSpecOptions option \<Rightarrow> MutateInSpec" where
  "array_prepend_raw = plain_spec ApiMutateInOpType.ArrayPrepend"

definition array_insert_raw :: "string \<Rightarrow> bytes \<Rightarrow> InsertSpecOptions option \<Rightarrow> MutateInSpec" where
  "array_insert_raw = plain_spec ApiMutateInOpType.ArrayInsert"

definition array_add_unique_raw :: "string \<Rightarrow> bytes \<Rightarrow> InsertSpecOptions option \<Rightarrow> MutateInSpec" where
  "array_add_unique_raw = macro_spec ApiMutateInOpType.ArrayAddUnique"

text \<open>\<^verbatim>\<open>serde_json::to_vec(..).map_err(Error::encoding_failure_from_serde)?\<close>\<close>

definition encoded :: "('v \<Rightarrow> (string, bytes) result) \<Rightarrow> 'v \<Rightarrow> (bytes \<Rightarrow> (ApiError, 'r) result) \<Rightarrow> (ApiError, 'r) result" where
  "encoded to_vec v k = and_then (map_err encoding_failure_from_serde (to_vec v)) k"

definition spec_insert :: "('v \<Rightarrow> (string, bytes) result) \<Rightarrow> string \<Rightarrow> 'v \<Rightarrow> InsertSpecOptions option \<Rightarrow> (ApiError, MutateInSpec) result" where
  "spec_insert to_vec path value opts = encoded to_vec value (\<lambda>v. Ok (insert_raw path v opts))"

definition spec_upsert :: "('v \<Rightarrow> (string, bytes) result) \<Rightarrow> string \<Rightarrow> 'v \<Rightarrow> InsertSpecOptions option \<Rightarrow> (ApiError, MutateInSpec) result" where
  "spec_upsert to_vec path value opts = encoded to_vec value (\<lambda>v. Ok (upsert_raw path v opts))"

definition spec_replace :: "('v \<Rightarrow> (string, bytes) result) \<Rightarrow> string \<Rightarrow> 'v \<Rightarrow> GetSpecOptions option \<Rightarrow> (ApiError, MutateInSpec) result" where
  "spec_replace to_vec path value opts = encoded to_vec value (\<lambda>v. Ok (replace_raw path v opts))"

definition spec_array_add_unique :: "('v \<Rightarrow> (string, bytes) result) \<Rightarrow> string \<Rightarrow> 'v \<Rightarrow> InsertSpecOptions option \<Rightarrow> (ApiError, MutateInSpec) result" where
  "spec_array_add_unique to_vec path value opts = encoded to_vec value (\<lambda>v. Ok (array_add_unique_raw path v opts))"

text \<open>The brackets of the serialized slice are removed, so that the elements are spliced into the array.\<close>

definition strip_brackets :: "bytes \<Rightarrow> bytes" where
  "strip_brackets value = butlast (drop 1 value)"

definition spec_array_append :: "('v list \<Rightarrow> (string, bytes) result) \<Rightarrow> string \<Rightarrow> 'v list \<Rightarrow> InsertSpecOptions option \<Rightarrow> (ApiError, MutateInSpec) result" where
  "spec_array_append to_vec path value opts = encoded to_vec value (\<lambda>v. Ok (array_append_raw path (strip_brackets v) opts))"

definition spec_array_prepend :: "('v list \<Rightarrow> (string, bytes) result) \<Rightarrow> string \<Rightarrow> 'v list \<Rightarrow> InsertSpecOptions option \<Rightarrow> (ApiError, MutateInSpec) result" where
  "spec_array_prepend to_vec path value opts = encoded to_vec value (\<lambda>v. Ok (array_prepend_raw path (strip_brackets v) opts))"

definition spec_array_insert :: "('v list \<Rightarrow> (string, bytes) result) \<Rightarrow> string \<Rightarrow> 'v list \<Rightarrow> InsertSpecOptions option \<Rightarrow> (ApiError, MutateInSpec) result" where
  "spec_array_insert to_vec path value opts = encoded to_vec value (\<lambda>v. Ok (array_insert_raw path (strip_brackets v) opts))"

text \<open>A delta is an \<^verbatim>\<open>i64\<close>; a negative one is refused, so its negation does not overflow.\<close>

definition spec_increment :: "(int \<Rightarrow> (string, bytes) result) \<Rightarrow> string \<Rightarrow> 64 word \<Rightarrow> InsertSpecOptions option \<Rightarrow> (ApiError, MutateInSpec) result" where
  "spec_increment to_vec path delta opts =
    (if sint delta < 0 then Err (invalid_argument ''delta'' ''only positive delta allowed in subdoc increment'')
     else encoded to_vec (sint delta) (\<lambda>v. Ok (plain_spec ApiMutateInOpType.Counter path v opts)))"

definition spec_decrement :: "(int \<Rightarrow> (string, bytes) result) \<Rightarrow> string \<Rightarrow> 64 word \<Rightarrow> InsertSpecOptions option \<Rightarrow> (ApiError, MutateInSpec) result" where
  "spec_decrement to_vec path delta opts =
    (if sint delta < 0 then Err (invalid_argument ''delta'' ''only positive delta allowed in subdoc increment'')
     else encoded to_vec (sint (- delta)) (\<lambda>v. Ok (plain_spec ApiMutateInOpType.Counter path v opts)))"

definition mutate_spec_op :: "MutateInSpec \<Rightarrow> (ApiError, MutateInOpType) result" where
  "mutate_spec_op value =
    (case mis_op value of
       ApiMutateInOpType.Insert \<Rightarrow>
         if mis_path value = [] then Err (invalid_argument ''path'' ''path cannot be empty for insert operation'')
         else Ok MutateInOpType.DictAdd
     | ApiMutateInOpType.Upsert \<Rightarrow>
         if mis_path value = [] then Err (invalid_argument ''path'' ''path cannot be empty for upsert operation'')
         else Ok MutateInOpType.DictSet
     | ApiMutateInOpType.Replace \<Rightarrow> Ok (if mis_path value = [] then MutateInOpType.SetDoc else MutateInOpType.Replace)
     | ApiMutateInOpType.Remove \<Rightarrow> Ok (if mis_path value = [] then MutateInOpType.DeleteDoc else MutateInOpType.Delete)
     | ApiMutateInOpType.ArrayAppend \<Rightarrow> Ok MutateInOpType.ArrayPushLast
     | ApiMutateInOpType.ArrayPrepend \<Rightarrow> Ok MutateInOpType.ArrayPushFirst
     | ApiMutateInOpType.ArrayInsert \<Rightarrow> Ok MutateInOpType.ArrayInsert
     | ApiMutateInOpType.ArrayAddUnique \<Rightarrow> Ok MutateInOpType.ArrayAddUnique
     | ApiMutateInOpType.Counter \<Rightarrow> Ok MutateInOpType.Counter)"

definition mutate_spec_into :: "MutateInSpec \<Rightarrow> (ApiError, MutateInOp) result" where
  "mutate_spec_into value =
    and_then (mutate_spec_op value) (\<lambda>op_type.
      Ok \<lparr>mio_op = op_type,
          mio_flags = (if mis_is_xattr value then XATTR_PATH else 0) OR (if mis_create_path value then MKDIR_P else 0)
            OR (if mis_expand_macros value then EXPAND_MACROS else 0),
          mio_path = as_bytes (mis_path value), mio_value = mis_value value\<rparr>)"

text \<open>\<^verbatim>\<open>collect::<Result<Vec<_>>>\<close> over the specifications: the first error is returned.\<close>

fun mutate_specs_into :: "MutateInSpec list \<Rightarrow> (ApiError, MutateInOp list) result" where
  "mutate_specs_into [] = Ok []"
| "mutate_specs_into (spec # specs) =
    and_then (mutate_spec_into spec) (\<lambda>op. and_then (mutate_specs_into specs) (\<lambda>ops. Ok (op # ops)))"

section \<open>What is sent\<close>

lemma lookup_spec_xattr [simp]: "lookup_in_is_xattr_op (lookup_spec_into s) = lis_is_xattr s"
  by (simp add: lookup_in_is_xattr_op_def lookup_spec_into_def flags_contains_def XATTR_PATH_def)

lemma mutate_spec_xattr: "mutate_spec_into s = Ok op \<Longrightarrow> mutate_in_is_xattr_op op = mis_is_xattr s"
  by (cases "mis_is_xattr s"; cases "mis_create_path s"; cases "mis_expand_macros s")
    (auto simp: mutate_in_is_xattr_op_def mutate_spec_into_def flags_contains_def XATTR_PATH_def MKDIR_P_def
      EXPAND_MACROS_def res_simps)

lemma mutate_specs_into_Ok:
  "mutate_specs_into specs = Ok ops \<longleftrightarrow> list_all2 (\<lambda>s op. mutate_spec_into s = Ok op) specs ops"
  by (induction specs arbitrary: ops) (auto simp: res_simps list_all2_Cons1)

text \<open>The delta of a counter never has the wrong sign, and decrementing does not overflow.\<close>

lemma decrement_negates: "0 \<le> sint delta \<Longrightarrow> sint (- delta) = - sint (delta :: 64 word)"
  using sint_lt [of delta] by (simp add: sint_word_ariths signed_take_bit_int_eq_self)

end
