(* ===== verification/Mutation_State.thy ===== *)
theory Mutation_State
  imports Crud_Operations Decimal Query_Options "HOL-Library.AList"
begin

text \<open>
  Mutation tokens of an application (\<^verbatim>\<open>couchbase/src/mutation_state.rs\<close>): for each vbucket of each bucket
  the newest token is kept, the whole state is turned into the scan vectors of a query or into a
  nested map for serde, and read back from one. A \<^verbatim>\<open>HashMap\<close> is an association list in the order of its
  iteration; what is stated about it is stated about its entries.
\<close>

section \<open>State\<close>

record ApiMutationToken =
  amt_token :: KvMutationToken
  amt_bucket_name :: string

record MutationStateKey =
  msk_bucket_name :: string
  msk_vbid :: u16

type_synonym MutationState = "(MutationStateKey \<times> KvMutationToken) list"

definition mutation_state_new :: MutationState where
  "mutation_state_new = []"

definition state_key :: "ApiMutationToken \<Rightarrow> MutationStateKey" where
  "state_key t = \<lparr>msk_bucket_name = amt_bucket_name t, msk_vbid = kmt_vbid (amt_token t)\<rparr>"

definition push_token :: "MutationState \<Rightarrow> ApiMutationToken \<Rightarrow> MutationState" where
  "push_token self token =
    (let key = state_key token in
     case map_of self key of
       Some entry \<Rightarrow>
         if kmt_seqno entry < kmt_seqno (amt_token token) then AList.update key (amt_token token) self else self
     | None \<Rightarrow> AList.update key (amt_token token) self)"

definition state_tokens :: "MutationState \<Rightarrow> ApiMutationToken list" where
  "state_tokens self = map (\<lambda>(key, token). \<lparr>amt_token = token, amt_bucket_name = msk_bucket_name key\<rparr>) self"

definition state_from_token :: "ApiMutationToken \<Rightarrow> MutationState" where
  "state_from_token t = push_token mutation_state_new t"

definition state_from_tokens :: "ApiMutationToken list \<Rightarrow> MutationState" where
  "state_from_tokens ts = foldl push_token mutation_state_new ts"

section \<open>Nested maps\<close>

text \<open>\<^verbatim>\<open>buckets.entry(bucket_name).or_default().insert(vbid.to_string(), entry)\<close>\<close>

definition insert_nested :: "(KvMutationToken \<Rightarrow> 'e) \<Rightarrow> MutationStateKey \<times> KvMutationToken
    \<Rightarrow> (string \<times> (string \<times> 'e) list) list \<Rightarrow> (string \<times> (string \<times> 'e) list) list" where
  "insert_nested mk entry buckets =
    (let bucket = case_option [] (\<lambda>b. b) (map_of buckets (msk_bucket_name (fst entry))) in
     AList.update (msk_bucket_name (fst entry))
       (AList.update (show_nat (unat (msk_vbid (fst entry)))) (mk (snd entry)) bucket) buckets)"

definition scan_vectors :: "MutationState \<Rightarrow> (string \<times> (string \<times> ScanVectorEntry) list) list" where
  "scan_vectors self =
    fold (insert_nested (\<lambda>t. \<lparr>sve_seq_no = kmt_seqno t, sve_vb_uuid = show_nat (unat (kmt_vbuuid t))\<rparr>)) self []"

definition serialize_state :: "MutationState \<Rightarrow> (string \<times> (string \<times> (u64 \<times> string)) list) list" where
  "serialize_state self = fold (insert_nested (\<lambda>t. (kmt_seqno t, show_nat (unat (kmt_vbuuid t))))) self []"

definition parse_u64 :: "string \<Rightarrow> (string, u64) result" where
  "parse_u64 s = and_then (parse_uint 64 s) (\<lambda>n. Ok (of_nat n))"

text \<open>The entries of one bucket; the first entry that does not parse ends the visit.\<close>

fun visit_vbuckets :: "string \<Rightarrow> (string \<times> (u64 \<times> string)) list \<Rightarrow> MutationState \<Rightarrow> (string, MutationState) result" where
  "visit_vbuckets bname [] toks = Ok toks"
| "visit_vbuckets bname ((vbid, (seqno, vbuuid)) # vbuckets) toks =
    and_then (parse_u16 vbid) (\<lambda>vbid.
    and_then (parse_u64 vbuuid) (\<lambda>vbuuid.
    visit_vbuckets bname vbuckets
      (AList.update \<lparr>msk_bucket_name = bname, msk_vbid = vbid\<rparr>
        \<lparr>kmt_vbid = vbid, kmt_vbuuid = vbuuid, kmt_seqno = seqno\<rparr> toks)))"

fun visit_map :: "(string \<times> (string \<times> (u64 \<times> string)) list) list \<Rightarrow> MutationState \<Rightarrow> (string, MutationState) result" where
  "visit_map [] toks = Ok toks"
| "visit_map ((bname, vbuckets) # entries) toks =
    and_then (visit_vbuckets bname vbuckets toks) (visit_map entries)"

definition deserialize_state :: "(string \<times> (string \<times> (u64 \<times> string)) list) list \<Rightarrow> (string, MutationState) result" where
  "deserialize_state entries = visit_map entries []"

section \<open>The newest token of each vbucket\<close>

text \<open>Keys are distinct, and a token is kept under its own vbucket.\<close>

definition state_ok :: "MutationState \<Rightarrow> bool" where
  "state_ok st \<longleftrightarrow> distinct (map fst st) \<and> (\<forall>(key, t) \<in> set st. msk_vbid key = kmt_vbid t)"

lemma state_ok_new: "state_ok mutation_state_new"
  by (simp add: state_ok_def mutation_state_new_def)

lemma set_update_subset: "set (AList.update k v xs) \<subseteq> insert (k, v) (set xs)"
  by (induction xs) auto

lemma state_ok_update:
  assumes "state_ok st" "msk_vbid k = kmt_vbid t"
  shows "state_ok (AList.update k t st)"
  using assms set_update_subset [of k t st] by (auto simp: state_ok_def distinct_update)

lemma state_ok_push: "state_ok st \<Longrightarrow> state_ok (push_token st t)"
  by (auto simp: push_token_def Let_def state_key_def state_ok_update split: option.splits)

lemma state_ok_tokens: "state_ok (state_from_tokens ts)"
proof -
  have "state_ok st \<Longrightarrow> state_ok (foldl push_token st ts)" for st
    by (induction ts arbitrary: st) (simp_all add: state_ok_push)
  then show ?thesis by (simp add: state_from_tokens_def state_ok_new)
qed

lemma map_of_push_token:
  "map_of (push_token st t) = (map_of st)(state_key t \<mapsto>
    (case map_of st (state_key t) of
       Some e \<Rightarrow> if kmt_seqno e < kmt_seqno (amt_token t) then amt_token t else e
     | None \<Rightarrow> amt_token t))"
  by (auto simp: push_token_def Let_def update_conv' fun_eq_iff split: option.splits)

text \<open>The reference: the token with the highest sequence number, the earliest of those.\<close>

definition newer :: "KvMutationToken \<Rightarrow> KvMutationToken \<Rightarrow> KvMutationToken" where
  "newer e t = (if kmt_seqno e < kmt_seqno t then t else e)"

fun newest :: "KvMutationToken option \<Rightarrow> KvMutationToken list \<Rightarrow> KvMutationToken option" where
  "newest e [] = e"
| "newest None (t # ts) = newest (Some t) ts"
| "newest (Some e) (t # ts) = newest (Some (newer e t)) ts"

lemma map_of_from_tokens:
  "map_of (foldl push_token st ts) k =
    newest (map_of st k) (map amt_token (filter (\<lambda>t. state_key t = k) ts))"
proof (induction ts arbitrary: st)
  case (Cons t ts)
  show ?case
    by (cases "map_of st (state_key t)") (auto simp: Cons map_of_push_token newer_def)
qed simp

lemma newest_max:
  assumes "newest e ts = Some t"
  shows "(t \<in> set ts \<or> e = Some t) \<and> (\<forall>u \<in> set ts. kmt_seqno u \<le> kmt_seqno t) \<and> (\<forall>u. e = Some u \<longrightarrow> kmt_seqno u \<le> kmt_seqno t)"
  using assms
proof (induction e ts rule: newest.induct)
  case (3 e t' ts)
  then show ?case by (auto simp: newer_def split: if_splits)
qed auto

lemma newest_None: "newest e ts = None \<longleftrightarrow> e = None \<and> ts = []"
  by (induction e ts rule: newest.induct) auto

section \<open>Lookups in nested maps\<close>

definition nested_get :: "(string \<times> (string \<times> 'e) list) list \<Rightarrow> string \<Rightarrow> string \<Rightarrow> 'e option" where
  "nested_get buckets b v = (case map_of buckets b of Some bucket \<Rightarrow> map_of bucket v | None \<Rightarrow> None)"

lemma show_nat_inj: "show_nat m = show_nat n \<longleftrightarrow> m = n"
  using show_nat_value by metis

lemma word_text_inj: "show_nat (unat v) = show_nat (unat w) \<longleftrightarrow> v = w"
  by (simp add: show_nat_inj word_unat_eq_iff)

lemma nested_get_insert:
  "nested_get (insert_nested mk entry buckets) b v =
    (if b = msk_bucket_name (fst entry) \<and> v = show_nat (unat (msk_vbid (fst entry))) then Some (mk (snd entry))
     else nested_get buckets b v)"
  by (auto simp: nested_get_def insert_nested_def Let_def update_conv' split: option.splits)

lemma nested_get_fold:
  assumes "distinct (map fst st)"
  shows "nested_get (fold (insert_nested mk) st buckets) b (show_nat (unat vbid)) =
    (case map_of st \<lparr>msk_bucket_name = b, msk_vbid = vbid\<rparr> of
       Some t \<Rightarrow> Some (mk t) | None \<Rightarrow> nested_get buckets b (show_nat (unat vbid)))"
  using assms
proof (induction st arbitrary: buckets)
  case (Cons e st)
  obtain k t where e: "e = (k, t)" by (cases e)
  have "map_of st k = None" using Cons.prems e by (simp add: map_of_eq_None_iff image_image)
  moreover have "k = \<lparr>msk_bucket_name = b, msk_vbid = vbid\<rparr> \<longleftrightarrow> b = msk_bucket_name k \<and> vbid = msk_vbid k"
    by (cases k) auto
  ultimately show ?case using Cons e
    by (auto simp: nested_get_insert word_text_inj split: option.splits)
qed simp


section \<open>Reading back\<close>

definition plain_entry :: "string \<times> (u64 \<times> string) \<Rightarrow> bool" where
  "plain_entry e \<longleftrightarrow> (\<exists>vbid :: u16. fst e = show_nat (unat vbid)) \<and> (\<exists>vbuuid :: u64. snd (snd e) = show_nat (unat vbuuid))"

definition plain_nested :: "(string \<times> (string \<times> (u64 \<times> string)) list) list \<Rightarrow> bool" where
  "plain_nested ns \<longleftrightarrow> (\<forall>(b, vbs) \<in> set ns. distinct (map fst vbs) \<and> (\<forall>e \<in> set vbs. plain_entry e)) \<and> distinct (map fst ns)"

definition read_entry :: "u16 \<Rightarrow> (u64 \<times> string) \<Rightarrow> KvMutationToken" where
  "read_entry vbid e = \<lparr>kmt_vbid = vbid, kmt_vbuuid = of_nat (foldl (\<lambda>n c. 10 * n + digit_value c) 0 (snd e)), kmt_seqno = fst e\<rparr>"

lemma parse_u64_show: "parse_u64 (show_nat (unat p)) = Ok p"
  using parse_uint_show [of "unat p" 64] unat_less_2p [of p] by (simp add: parse_u64_def)

lemma visit_vbuckets_read:
  assumes "\<forall>e \<in> set vbs. plain_entry e" "distinct (map fst vbs)"
  shows "\<exists>st. visit_vbuckets b vbs toks = Ok st
    \<and> (\<forall>c v. map_of st \<lparr>msk_bucket_name = c, msk_vbid = v\<rparr> =
         (case if c = b then map_of vbs (show_nat (unat v)) else None of
            Some e \<Rightarrow> Some (read_entry v e) | None \<Rightarrow> map_of toks \<lparr>msk_bucket_name = c, msk_vbid = v\<rparr>))"
  using assms
proof (induction vbs arbitrary: toks)
  case (Cons e vbs)
  obtain vbid :: u16 and vbuuid :: u64 and seqno where
    e: "e = (show_nat (unat vbid), (seqno, show_nat (unat vbuuid)))"
    using Cons.prems by (cases e) (auto simp: plain_entry_def)
  have absent: "map_of vbs (show_nat (unat vbid)) = None" using Cons.prems e by (simp add: map_of_eq_None_iff)
  let ?toks = "AList.update \<lparr>msk_bucket_name = b, msk_vbid = vbid\<rparr>
    \<lparr>kmt_vbid = vbid, kmt_vbuuid = vbuuid, kmt_seqno = seqno\<rparr> toks"
  have read: "read_entry vbid (seqno, show_nat (unat vbuuid)) = \<lparr>kmt_vbid = vbid, kmt_vbuuid = vbuuid, kmt_seqno = seqno\<rparr>"
    using show_nat_value by (simp add: read_entry_def)
  obtain st where st: "visit_vbuckets b vbs ?toks = Ok st"
    "\<And>c v. map_of st \<lparr>msk_bucket_name = c, msk_vbid = v\<rparr> =
         (case if c = b then map_of vbs (show_nat (unat v)) else None of
            Some e \<Rightarrow> Some (read_entry v e) | None \<Rightarrow> map_of ?toks \<lparr>msk_bucket_name = c, msk_vbid = v\<rparr>)"
    using Cons.IH [of ?toks] Cons.prems by auto
  have "visit_vbuckets b (e # vbs) toks = Ok st" using st(1) by (simp add: e parse_u16_show parse_u64_show)
  moreover have "map_of st \<lparr>msk_bucket_name = c, msk_vbid = v\<rparr> =
         (case if c = b then map_of (e # vbs) (show_nat (unat v)) else None of
            Some e \<Rightarrow> Some (read_entry v e) | None \<Rightarrow> map_of toks \<lparr>msk_bucket_name = c, msk_vbid = v\<rparr>)" for c v
    using absent st(2) [of c v] by (auto simp: e update_conv' word_text_inj read split: option.split)
  ultimately show ?case by blast
qed simp

lemma visit_map_read:
  assumes "plain_nested ns"
  shows "\<exists>st. visit_map ns toks = Ok st
    \<and> (\<forall>c v. map_of st \<lparr>msk_bucket_name = c, msk_vbid = v\<rparr> =
         (case nested_get ns c (show_nat (unat v)) of
            Some e \<Rightarrow> Some (read_entry v e) | None \<Rightarrow> map_of toks \<lparr>msk_bucket_name = c, msk_vbid = v\<rparr>))"
  using assms
proof (induction ns arbitrary: toks)
  case (Cons n ns)
  obtain b vbs where n: "n = (b, vbs)" by (cases n)
  have absent: "map_of ns b = None" using Cons.prems n by (simp add: plain_nested_def map_of_eq_None_iff)
  obtain st where st: "visit_vbuckets b vbs toks = Ok st"
    "\<And>c v. map_of st \<lparr>msk_bucket_name = c, msk_vbid = v\<rparr> =
         (case if c = b then map_of vbs (show_nat (unat v)) else None of
            Some e \<Rightarrow> Some (read_entry v e) | None \<Rightarrow> map_of toks \<lparr>msk_bucket_name = c, msk_vbid = v\<rparr>)"
    using visit_vbuckets_read [of vbs b toks] Cons.prems n by (auto simp: plain_nested_def)
  obtain st' where st': "visit_map ns st = Ok st'"
    "\<And>c v. map_of st' \<lparr>msk_bucket_name = c, msk_vbid = v\<rparr> =
         (case nested_get ns c (show_nat (unat v)) of
            Some e \<Rightarrow> Some (read_entry v e) | None \<Rightarrow> map_of st \<lparr>msk_bucket_name = c, msk_vbid = v\<rparr>)"
    using Cons.IH [of st] Cons.prems by (auto simp: plain_nested_def)
  have "visit_map (n # ns) toks = Ok st'" using st(1) st'(1) by (simp add: n)
  moreover have "map_of st' \<lparr>msk_bucket_name = c, msk_vbid = v\<rparr> =
         (case nested_get (n # ns) c (show_nat (unat v)) of
            Some e \<Rightarrow> Some (read_entry v e) | None \<Rightarrow> map_of toks \<lparr>msk_bucket_name = c, msk_vbid = v\<rparr>)" for c v
    using absent st(2) [of c v] st'(2) [of c v] by (auto simp: n nested_get_def split: option.split)
  ultimately show ?case by blast
qed (simp add: nested_get_def)

lemma insert_nested_plain:
  assumes ns: "plain_nested ns" and e: "plain_entry (show_nat (unat (msk_vbid (fst e))), mk (snd e))"
  shows "plain_nested (insert_nested mk e ns)"
proof -
  let ?b = "case_option [] (\<lambda>b. b) (map_of ns (msk_bucket_name (fst e)))"
  have "distinct (map fst ?b) \<and> (\<forall>e \<in> set ?b. plain_entry e)"
    using ns by (auto simp: plain_nested_def split: option.splits dest: map_of_SomeD)
  then show ?thesis using ns e
      set_update_subset [of "show_nat (unat (msk_vbid (fst e)))" "mk (snd e)" ?b]
      set_update_subset [of "msk_bucket_name (fst e)" "AList.update (show_nat (unat (msk_vbid (fst e)))) (mk (snd e)) ?b" ns]
    by (fastforce simp: plain_nested_def insert_nested_def Let_def distinct_update)
qed

lemma serialize_plain: "plain_nested (serialize_state st)"
proof -
  let ?mk = "\<lambda>t. (kmt_seqno t, show_nat (unat (kmt_vbuuid t)))"
  have "plain_nested ns \<Longrightarrow> plain_nested (fold (insert_nested ?mk) st ns)" for ns
  proof (induction st arbitrary: ns)
    case (Cons e st)
    have "plain_entry (show_nat (unat (msk_vbid (fst e))), ?mk (snd e))"
      by (auto simp: plain_entry_def)
    then have "plain_nested (insert_nested ?mk e ns)" by (rule insert_nested_plain [OF Cons.prems])
    then show ?case by (simp add: Cons.IH)
  qed simp
  from this [of "[]"] show ?thesis by (simp add: serialize_state_def plain_nested_def)
qed

lemma serialize_get:
  assumes "distinct (map fst st)"
  shows "nested_get (serialize_state st) b (show_nat (unat v)) =
    map_option (\<lambda>t. (kmt_seqno t, show_nat (unat (kmt_vbuuid t)))) (map_of st \<lparr>msk_bucket_name = b, msk_vbid = v\<rparr>)"
  using nested_get_fold [OF assms, of "\<lambda>t. (kmt_seqno t, show_nat (unat (kmt_vbuuid t)))" "[]" b v]
  by (cases "map_of st \<lparr>msk_bucket_name = b, msk_vbid = v\<rparr>") (simp_all add: serialize_state_def nested_get_def)

section \<open>Properties\<close>

text \<open>
  C1. A query that is given a mutation state waits for every write whose token is in it: whatever tokens
  are pushed, in whatever order and for however many buckets, the scan vectors have for the vbucket of
  each token an entry whose sequence number is at least that of the token, and that entry is one of
  the tokens pushed for that vbucket, with its own uuid.
\<close>

theorem scan_vectors_cover_tokens:
  assumes "t \<in> set ts"
  shows "\<exists>u \<in> set ts. state_key u = state_key t \<and> kmt_seqno (amt_token t) \<le> kmt_seqno (amt_token u)
    \<and> nested_get (scan_vectors (state_from_tokens ts)) (amt_bucket_name t) (show_nat (unat (kmt_vbid (amt_token t))))
        = Some \<lparr>sve_seq_no = kmt_seqno (amt_token u), sve_vb_uuid = show_nat (unat (kmt_vbuuid (amt_token u)))\<rparr>"
proof -
  let ?us = "map amt_token (filter (\<lambda>u. state_key u = state_key t) ts)"
  have of: "map_of (state_from_tokens ts) (state_key t) = newest None ?us"
    by (simp add: state_from_tokens_def map_of_from_tokens mutation_state_new_def)
  have mem: "amt_token t \<in> set ?us" using assms by auto
  then obtain e where e: "newest None ?us = Some e" using newest_None [of None ?us] by fastforce
  then obtain u where u: "u \<in> set ts" "state_key u = state_key t" "e = amt_token u"
    using newest_max [of None ?us] by auto
  have le: "kmt_seqno (amt_token t) \<le> kmt_seqno e" using newest_max [OF e] mem by blast
  have "nested_get (scan_vectors (state_from_tokens ts)) (amt_bucket_name t) (show_nat (unat (kmt_vbid (amt_token t))))
      = Some \<lparr>sve_seq_no = kmt_seqno e, sve_vb_uuid = show_nat (unat (kmt_vbuuid e))\<rparr>"
    using state_ok_tokens [of ts] of e
      nested_get_fold [of "state_from_tokens ts" _ "[]" "amt_bucket_name t" "kmt_vbid (amt_token t)"]
    by (simp add: scan_vectors_def state_ok_def state_key_def)
  then show ?thesis using u le by blast
qed

definition sample_token :: "u16 \<Rightarrow> u64 \<Rightarrow> ApiMutationToken" where
  "sample_token vbid seqno = \<lparr>amt_token = \<lparr>kmt_vbid = vbid, kmt_vbuuid = 77, kmt_seqno = seqno\<rparr>, amt_bucket_name = ''b''\<rparr>"

theorem scan_vectors_cover_tokens_witness:
  "\<exists>u \<in> {sample_token 3 9, sample_token 3 4}. state_key u = state_key (sample_token 3 4)
    \<and> kmt_seqno (amt_token (sample_token 3 4)) \<le> kmt_seqno (amt_token u)
    \<and> nested_get (scan_vectors (state_from_tokens [sample_token 3 9, sample_token 3 4])) ''b'' (show_nat (unat (3 :: u16)))
        = Some \<lparr>sve_seq_no = kmt_seqno (amt_token u), sve_vb_uuid = show_nat (unat (kmt_vbuuid (amt_token u)))\<rparr>"
  using scan_vectors_cover_tokens [of "sample_token 3 4" "[sample_token 3 9, sample_token 3 4]"]
  by (simp add: sample_token_def)

text \<open>
  C1. A mutation state survives serialization: what is written for any state built from tokens is read
  back without an error, to a state with the same entries.
\<close>

theorem mutation_state_round_trip:
  "\<exists>st. deserialize_state (serialize_state (state_from_tokens ts)) = Ok st
    \<and> map_of st = map_of (state_from_tokens ts)"
proof -
  let ?st = "state_from_tokens ts"
  have ok: "distinct (map fst ?st)" "\<forall>(key, t) \<in> set ?st. msk_vbid key = kmt_vbid t"
    using state_ok_tokens [of ts] by (auto simp: state_ok_def)
  obtain st where st: "visit_map (serialize_state ?st) [] = Ok st"
    "\<And>c v. map_of st \<lparr>msk_bucket_name = c, msk_vbid = v\<rparr> =
       (case nested_get (serialize_state ?st) c (show_nat (unat v)) of Some e \<Rightarrow> Some (read_entry v e) | None \<Rightarrow> map_of [] \<lparr>msk_bucket_name = c, msk_vbid = v\<rparr>)"
    using visit_map_read [OF serialize_plain, of ?st "[]"] by auto
  have "map_of st k = map_of ?st k" for k
  proof (cases k)
    case (fields c v)
    show ?thesis
    proof (cases "map_of ?st k")
      case None
      then show ?thesis using st(2) ok(1) by (simp add: fields serialize_get)
    next
      case (Some t)
      then have "kmt_vbid t = v" using ok(2) fields by (fastforce dest: map_of_SomeD)
      then show ?thesis using Some st(2) ok(1) by (simp add: fields serialize_get read_entry_def show_nat_value)
    qed
  qed
  then show ?thesis using st(1) by (auto simp: deserialize_state_def)
qed

end
