(* ===== verification/Api_Results.thy ===== *)
theory Api_Results
  imports Subdoc_Specs Mutation_State
begin

unbundle bit_operations_syntax

text \<open>
  Results of key-value operations of the public crate (\<^verbatim>\<open>couchbase/src/results/kv_results.rs\<close>,
  \<^verbatim>\<open>kv_binary_results.rs\<close>), and the transcoders (\<^verbatim>\<open>transcoding/\<close>) that tell from the flags of a document
  which format its value has. Decoders and encoders of serde are arguments.
\<close>

section \<open>Common flags\<close>

datatype DataType = Unknown | Json | Binary | String

definition CF_MASK :: u32 where "CF_MASK = 0xFF000000"
definition CF_FMT_MASK :: u32 where "CF_FMT_MASK = 0x0F000000"
definition CF_FMT_JSON :: u32 where "CF_FMT_JSON = push_bit 24 2"
definition CF_FMT_BINARY :: u32 where "CF_FMT_BINARY = push_bit 24 3"
definition CF_FMT_STRING :: u32 where "CF_FMT_STRING = push_bit 24 4"
definition LF_JSON :: u32 where "LF_JSON = 0"

definition encode_common_flags :: "DataType \<Rightarrow> u32" where
  "encode_common_flags value_type =
    (case value_type of
       DataType.Json \<Rightarrow> 0 OR CF_FMT_JSON
     | DataType.Binary \<Rightarrow> 0 OR CF_FMT_BINARY
     | DataType.String \<Rightarrow> 0 OR CF_FMT_STRING
     | DataType.Unknown \<Rightarrow> 0)"

definition decode_common_flags :: "u32 \<Rightarrow> DataType" where
  "decode_common_flags flags =
    (if flags AND CF_MASK = 0 \<and> flags \<noteq> LF_JSON then DataType.Unknown
     else
       let flags = (if flags AND CF_MASK = 0 then CF_FMT_JSON else flags) in
       if flags AND CF_FMT_MASK = CF_FMT_BINARY then DataType.Binary
       else if flags AND CF_FMT_MASK = CF_FMT_STRING then DataType.String
       else if flags AND CF_FMT_MASK = CF_FMT_JSON then DataType.Json
       else DataType.Unknown)"

definition of_type :: "DataType \<Rightarrow> u32 \<Rightarrow> (ApiError, 'r) result \<Rightarrow> (ApiError, 'r) result" where
  "of_type t flags r =
    (if decode_common_flags flags \<noteq> t then Err (other_failure ''datatype not supported'') else r)"

definition json_encode :: "('v \<Rightarrow> (string, bytes) result) \<Rightarrow> 'v \<Rightarrow> (ApiError, bytes \<times> u32) result" where
  "json_encode to_vec value =
    and_then (map_err other_failure (to_vec value)) (\<lambda>content. Ok (content, encode_common_flags DataType.Json))"

definition json_decode :: "(bytes \<Rightarrow> (string, 'v) result) \<Rightarrow> bytes \<Rightarrow> u32 \<Rightarrow> (ApiError, 'v) result" where
  "json_decode from_slice value flags = of_type DataType.Json flags (map_err other_failure (from_slice value))"

definition raw_binary_encode :: "bytes \<Rightarrow> (ApiError, bytes \<times> u32) result" where
  "raw_binary_encode value = Ok (value, encode_common_flags DataType.Binary)"

definition raw_binary_decode :: "bytes \<Rightarrow> u32 \<Rightarrow> (ApiError, bytes) result" where
  "raw_binary_decode value flags = of_type DataType.Binary flags (Ok value)"

definition raw_json_encode :: "bytes \<Rightarrow> (ApiError, bytes \<times> u32) result" where
  "raw_json_encode value = Ok (value, encode_common_flags DataType.Json)"

definition raw_json_decode :: "bytes \<Rightarrow> u32 \<Rightarrow> (ApiError, bytes) result" where
  "raw_json_decode value flags = of_type DataType.Json flags (Ok value)"

definition raw_string_encode :: "string \<Rightarrow> (ApiError, bytes \<times> u32) result" where
  "raw_string_encode value = Ok (as_bytes value, encode_common_flags DataType.String)"

definition raw_string_decode :: "(bytes \<Rightarrow> string) \<Rightarrow> bytes \<Rightarrow> u32 \<Rightarrow> (ApiError, string) result" where
  "raw_string_decode utf8_error value flags = of_type DataType.String flags
    (if utf8_valid value then Ok (from_utf8 value) else Err (other_failure (''invalid UTF-8: '' @ utf8_error value)))"

section \<open>Results\<close>

text \<open>A \<^verbatim>\<open>DateTime<Utc>\<close> is its number of seconds since the epoch.\<close>

record ApiGetResult =
  agr_content :: bytes
  agr_flags :: u32
  agr_cas :: u64
  agr_expiry_time :: "int option"

definition get_content_as :: "(bytes \<Rightarrow> (string, 'v) result) \<Rightarrow> ApiGetResult \<Rightarrow> (ApiError, 'v) result" where
  "get_content_as from_slice self = json_decode from_slice (agr_content self) (agr_flags self)"

definition get_result_into :: "GetResult \<Rightarrow> ApiGetResult" where
  "get_result_into r = \<lparr>agr_content = gr_value r, agr_flags = gr_flags r, agr_cas = gr_cas r, agr_expiry_time = None\<rparr>"

record ApiExistsResult =
  aer_exists :: bool
  aer_cas :: u64

definition exists_result_into :: "GetMetaResult \<Rightarrow> ApiExistsResult" where
  "exists_result_into r = \<lparr>aer_exists = (\<not> gmr_deleted r), aer_cas = gmr_cas r\<rparr>"

record ApiMutationResult =
  amr_cas :: u64
  amr_mutation_token :: "ApiMutationToken option"

record ApiCounterResult =
  acr_cas :: u64
  acr_mutation_token :: "ApiMutationToken option"
  acr_content :: u64

record LookupInResultEntry =
  lre_value :: "bytes option"
  lre_error :: "ApiError option"
  lre_op :: ApiLookupInOpType

record ApiLookupInResult =
  alr_cas :: u64
  alr_entries :: "LookupInResultEntry list"
  alr_is_deleted :: bool

text \<open>The entry at an index; the second check of the source repeats the first.\<close>

definition lookup_entry :: "ApiLookupInResult \<Rightarrow> nat \<Rightarrow> (ApiError, LookupInResultEntry) result" where
  "lookup_entry self lookup_index =
    (if lookup_index \<ge> length (alr_entries self)
     then Err (invalid_argument ''index'' ''index cannot be >= number of lookups'')
     else Ok (alr_entries self ! lookup_index))"

definition lookup_exists :: "ApiLookupInResult \<Rightarrow> nat \<Rightarrow> (ApiError, bool) result" where
  "lookup_exists self lookup_index =
    and_then (lookup_entry self lookup_index) (\<lambda>entry.
      case lre_error entry of
        Some err \<Rightarrow> if ae_kind err = ApiErrorKind.PathNotFound then Ok False else Err err
      | None \<Rightarrow> Ok True)"

definition lookup_content_as_raw :: "(Json \<Rightarrow> (string, bytes) result) \<Rightarrow> ApiLookupInResult \<Rightarrow> nat \<Rightarrow> (ApiError, bytes) result" where
  "lookup_content_as_raw to_vec self lookup_index =
    and_then (lookup_entry self lookup_index) (\<lambda>entry.
      if lre_op entry = ApiLookupInOpType.Exists then
        and_then (lookup_exists self lookup_index) (\<lambda>res. map_err decoding_failure_from_serde (to_vec (JBool res)))
      else case lre_error entry of
        Some err \<Rightarrow> Err err
      | None \<Rightarrow> Ok (unwrap_or [] (lre_value entry)))"

definition lookup_content_as ::
    "(Json \<Rightarrow> (string, bytes) result) \<Rightarrow> (bytes \<Rightarrow> (string, 'v) result) \<Rightarrow> ApiLookupInResult \<Rightarrow> nat \<Rightarrow> (ApiError, 'v) result" where
  "lookup_content_as to_vec from_slice self lookup_index =
    and_then (lookup_content_as_raw to_vec self lookup_index) (\<lambda>content.
      map_err decoding_failure_from_serde (from_slice content))"

record ApiMutateInResult =
  amir_cas :: u64
  amir_mutation_token :: "ApiMutationToken option"
  amir_entries :: "bytes option list"

definition mutate_content_as_raw :: "ApiMutateInResult \<Rightarrow> nat \<Rightarrow> (ApiError, bytes) result" where
  "mutate_content_as_raw self mutate_index =
    (if mutate_index \<ge> length (amir_entries self)
     then Err (invalid_argument ''index'' ''index cannot be >= number of operations'')
     else Ok (unwrap_or [] (amir_entries self ! mutate_index)))"

definition mutate_content_as :: "(bytes \<Rightarrow> (string, 'v) result) \<Rightarrow> ApiMutateInResult \<Rightarrow> nat \<Rightarrow> (ApiError, 'v) result" where
  "mutate_content_as from_slice self mutate_index =
    and_then (mutate_content_as_raw self mutate_index) (\<lambda>content. map_err decoding_failure_from_serde (from_slice content))"

section \<open>Properties\<close>

lemmas common_flag_defs = CF_MASK_def CF_FMT_MASK_def CF_FMT_JSON_def CF_FMT_BINARY_def CF_FMT_STRING_def LF_JSON_def

lemma decode_encode_flags:
  "decode_common_flags (encode_common_flags t) = (if t = DataType.Unknown then DataType.Json else t)"
  by (cases t) (simp_all add: decode_common_flags_def encode_common_flags_def common_flag_defs Let_def)

lemma decode_format:
  assumes "flags AND CF_MASK \<noteq> 0"
  shows "decode_common_flags flags = DataType.Json \<longleftrightarrow> flags AND CF_FMT_MASK = CF_FMT_JSON"
  using assms by (auto simp: decode_common_flags_def Let_def) (simp_all add: common_flag_defs)

text \<open>The transcoder of each format reads what it wrote, and refuses what another one wrote.\<close>

lemma transcoders_agree:
  "raw_binary_encode value = Ok (content, flags) \<Longrightarrow>
     raw_binary_decode content flags = Ok value \<and> raw_json_decode content flags = Err (other_failure ''datatype not supported'')"
  "raw_string_encode str = Ok (content, flags) \<Longrightarrow> utf8_valid (as_bytes str) \<Longrightarrow>
     raw_string_decode u content flags = Ok str \<and> raw_json_decode content flags = Err (other_failure ''datatype not supported'')"
  "json_encode to_vec v = Ok (content, flags) \<Longrightarrow> from_slice content = Ok v \<Longrightarrow> json_decode from_slice content flags = Ok v"
  by (auto simp: raw_binary_encode_def raw_string_encode_def json_encode_def raw_binary_decode_def raw_string_decode_def
      raw_json_decode_def json_decode_def of_type_def decode_encode_flags res_simps)

end
