(* ===== verification/Projection.thy ===== *)
theory Projection
  imports Api_Results
begin

text \<open>
  Projections of a document (\<^verbatim>\<open>couchbase/src/results/projection.rs\<close>): paths are cut into parts, and the
  values found at them, in the entries of a lookup or in the whole document, are put together to a
  new document. The functions of serde are arguments.
\<close>

section \<open>Paths\<close>

record SubdocPath =
  sp_path :: string
  sp_is_array :: bool

definition after_bracket :: "string \<Rightarrow> string" where
  "after_bracket cs =
    (let r = drop 1 (dropWhile (\<lambda>c. c \<noteq> CHR '']'') cs) in
     case r of c # r' \<Rightarrow> if c = CHR ''.'' then r' else r | [] \<Rightarrow> [])"

lemma after_bracket_length: "length (after_bracket cs) \<le> length cs"
proof -
  let ?r = "drop 1 (dropWhile (\<lambda>c. c \<noteq> CHR '']'') cs)"
  have "length ?r \<le> length cs" using length_dropWhile_le [of "\<lambda>c. c \<noteq> CHR '']''" cs] by simp
  moreover have "length (after_bracket cs) \<le> length ?r" by (cases ?r) (auto simp: after_bracket_def Let_def)
  ultimately show ?thesis by linarith
qed

text \<open>The loop over the characters; \<open>current\<close> is the key read so far.\<close>

function path_loop :: "string \<Rightarrow> string \<Rightarrow> SubdocPath list" where
  "path_loop [] current = (if current \<noteq> [] then [\<lparr>sp_path = current, sp_is_array = False\<rparr>] else [])"
| "path_loop (ch # cs) current =
    (if ch = CHR ''.'' then
       (if current \<noteq> [] then [\<lparr>sp_path = current, sp_is_array = False\<rparr>] else []) @ path_loop cs []
     else if ch = CHR ''['' then \<lparr>sp_path = current, sp_is_array = True\<rparr> # path_loop (after_bracket cs) []
     else path_loop cs (current @ [ch]))"
  by pat_completeness auto
termination
  by (relation "measure (\<lambda>(cs, current). length cs)")
    (auto simp: le_imp_less_Suc after_bracket_length)

definition path_parts :: "string \<Rightarrow> SubdocPath list" where
  "path_parts path_str = path_loop path_str []"

section \<open>Building a document\<close>

text \<open>\<^verbatim>\<open>paths[0]\<close> of an empty path panics.\<close>

fun path_set_value :: "SubdocPath list \<Rightarrow> Json \<Rightarrow> Json \<Rightarrow> (ApiError, Json) result" where
  "path_set_value [] content value = Panic"
| "path_set_value [path] content value =
    Ok (if sp_is_array path then
          (case content of
             JObject obj \<Rightarrow> JObject (obj_insert (sp_path path) (JArray [value]) obj)
           | JArray vec \<Rightarrow> JArray (vec @ [JArray [value]])
           | _ \<Rightarrow> content)
        else
          (case content of
             JArray vec \<Rightarrow> JArray (vec @ [JObject [(sp_path path, value)]])
           | JObject obj \<Rightarrow> JObject (obj_insert (sp_path path) value obj)
           | _ \<Rightarrow> content))"
| "path_set_value (path # p # paths) content value =
    (let child = path_set_value (p # paths) (if sp_is_array path then JArray [] else JObject []) value in
     case content of
       JArray vec \<Rightarrow> and_then child (\<lambda>child.
         Ok (JArray (vec @ [if sp_is_array path then child else JObject [(sp_path path, child)]])))
     | JObject obj \<Rightarrow> and_then child (\<lambda>child. Ok (JObject (obj_insert (sp_path path) child obj)))
     | _ \<Rightarrow> Ok content)"

definition json_get :: "Json \<Rightarrow> string \<Rightarrow> Json option" where
  "json_get v key = (case v of JObject obj \<Rightarrow> map_of obj key | _ \<Rightarrow> None)"

fun resolve_projection_value :: "Json \<Rightarrow> SubdocPath list \<Rightarrow> Json option" where
  "resolve_projection_value current [] = Some current"
| "resolve_projection_value current (part # parts) =
    (case json_get current (sp_path part) of
       Some v \<Rightarrow> resolve_projection_value v parts
     | None \<Rightarrow> None)"

record Serde =
  sd_to_vec :: "Json \<Rightarrow> (string, bytes) result"
  sd_from_slice :: "bytes \<Rightarrow> (string, Json) result"

text \<open>The loop over the specifications; \<^verbatim>\<open>results[i]\<close> past the end panics.\<close>

fun subdoc_entries_loop :: "Serde \<Rightarrow> LookupInSpec list \<Rightarrow> LookupInResultEntry list \<Rightarrow> Json \<Rightarrow> (ApiError, Json) result" where
  "subdoc_entries_loop sd [] results content = Ok content"
| "subdoc_entries_loop sd (spec # specs) [] content = Panic"
| "subdoc_entries_loop sd (spec # specs) (r # results) content =
    (case lre_error r of
       Some err \<Rightarrow>
         if ae_kind err = ApiErrorKind.PathNotFound then subdoc_entries_loop sd specs results content else Err err
     | None \<Rightarrow>
         (case lre_value r of
            None \<Rightarrow> Err (other_failure ''missing subdoc value'')
          | Some value_bytes \<Rightarrow>
              and_then (map_err decoding_failure_from_serde (sd_from_slice sd value_bytes)) (\<lambda>value.
              and_then (path_set_value (path_parts (lis_path spec)) content value) (\<lambda>content.
              subdoc_entries_loop sd specs results content))))"

definition build_from_subdoc_entries :: "Serde \<Rightarrow> LookupInSpec list \<Rightarrow> LookupInResultEntry list \<Rightarrow> (ApiError, bytes) result" where
  "build_from_subdoc_entries sd specs results =
    and_then (subdoc_entries_loop sd specs results (JObject [])) (\<lambda>content.
      map_err decoding_failure_from_serde (sd_to_vec sd content))"

fun full_doc_loop :: "string list \<Rightarrow> Json \<Rightarrow> Json \<Rightarrow> (ApiError, Json) result" where
  "full_doc_loop [] doc content = Ok content"
| "full_doc_loop (projection # projections) doc content =
    (case resolve_projection_value doc (path_parts projection) of
       Some value \<Rightarrow>
         and_then (path_set_value (path_parts projection) content value) (full_doc_loop projections doc)
     | None \<Rightarrow> full_doc_loop projections doc content)"

definition build_from_full_doc :: "Serde \<Rightarrow> ApiLookupInResult \<Rightarrow> string list option \<Rightarrow> (ApiError, bytes) result" where
  "build_from_full_doc sd result projections =
    (case projections of
       None \<Rightarrow> lookup_content_as_raw (sd_to_vec sd) result 0
     | Some projections \<Rightarrow>
         if length (alr_entries result) \<noteq> 1
         then Err (other_failure ''expected exactly one entry for full document'')
         else
           and_then (lookup_content_as (sd_to_vec sd) (sd_from_slice sd) result 0) (\<lambda>doc.
           and_then (full_doc_loop projections doc (JObject [])) (\<lambda>content.
           map_err decoding_failure_from_serde (sd_to_vec sd content))))"

section \<open>Paths of fields\<close>

text \<open>A key without the characters that have a meaning in a path, and a path of such keys.\<close>

definition plain_key :: "string \<Rightarrow> bool" where
  "plain_key k \<longleftrightarrow> k \<noteq> [] \<and> CHR ''.'' \<notin> set k \<and> CHR ''['' \<notin> set k"

definition field_path :: "string list \<Rightarrow> string" where
  "field_path keys = str_join ''.'' keys"

definition field_parts :: "string list \<Rightarrow> SubdocPath list" where
  "field_parts keys = map (\<lambda>k. \<lparr>sp_path = k, sp_is_array = False\<rparr>) keys"

text \<open>The value at a path of fields.\<close>

fun field_at :: "Json \<Rightarrow> string list \<Rightarrow> Json option" where
  "field_at v [] = Some v"
| "field_at v (k # keys) = (case json_get v k of Some u \<Rightarrow> field_at u keys | None \<Rightarrow> None)"

lemma path_loop_plain:
  "CHR ''.'' \<notin> set k \<Longrightarrow> CHR ''['' \<notin> set k \<Longrightarrow> path_loop (k @ cs) current = path_loop cs (current @ k)"
  by (induction k arbitrary: current) auto

lemma path_parts_fields:
  assumes "keys \<noteq> []" "\<forall>k \<in> set keys. plain_key k"
  shows "path_parts (field_path keys) = field_parts keys"
  using assms
proof (induction keys)
  case (Cons k keys)
  have k: "path_loop (k @ cs) [] = path_loop cs k" for cs
    using Cons.prems path_loop_plain [of k cs "[]"] by (simp add: plain_key_def)
  show ?case
  proof (cases keys)
    case Nil
    then show ?thesis using k [of "[]"] Cons.prems by (simp add: path_parts_def field_path_def field_parts_def plain_key_def)
  next
    case (Cons k' ks)
    then have "path_parts (field_path (k # keys)) = path_loop (k @ ''.'' @ field_path keys) []"
      by (simp add: path_parts_def field_path_def)
    also have "\<dots> = \<lparr>sp_path = k, sp_is_array = False\<rparr> # path_parts (field_path keys)"
      using k Cons.prems by (simp add: path_parts_def plain_key_def)
    finally show ?thesis using Cons Cons.IH Cons.prems by (simp add: field_parts_def)
  qed
qed simp

lemma resolve_fields: "resolve_projection_value v (field_parts keys) = field_at v keys"
  by (induction v keys rule: field_at.induct) (simp_all add: field_parts_def split: option.split)

lemma set_fields:
  assumes "keys \<noteq> []"
  shows "\<exists>u. path_set_value (field_parts keys) (JObject obj) v = Ok (JObject (obj_insert (hd keys) u obj))
    \<and> field_at u (tl keys) = Some v"
  using assms
proof (induction keys arbitrary: obj)
  case (Cons k keys)
  show ?case
  proof (cases keys)
    case Nil
    then show ?thesis by (simp add: field_parts_def)
  next
    case (Cons k' ks)
    obtain u where "path_set_value (field_parts keys) (JObject []) v = Ok (JObject (obj_insert k' u [])) \<and> field_at u ks = Some v"
      using Cons.IH [of "[]"] Cons by auto
    then show ?thesis using Cons
      by (intro exI [of _ "JObject (obj_insert k' u [])"]) (simp add: field_parts_def json_get_def)
  qed
qed simp


section \<open>Properties\<close>

text \<open>
  What the server answers to the lookup of a path of fields in a document: the text of the value
  there, or that the path was not found.
\<close>

definition answers :: "Serde \<Rightarrow> Json \<Rightarrow> string list \<Rightarrow> LookupInResultEntry \<Rightarrow> bool" where
  "answers sd doc keys r \<longleftrightarrow>
    (case field_at doc keys of
       Some v \<Rightarrow> lre_error r = None \<and> (\<exists>b. lre_value r = Some b \<and> sd_from_slice sd b = Ok v)
     | None \<Rightarrow> (\<exists>e. lre_error r = Some e \<and> ae_kind e = ApiErrorKind.PathNotFound))"

definition whole_document :: "Serde \<Rightarrow> Json \<Rightarrow> ApiLookupInResult \<Rightarrow> bool" where
  "whole_document sd doc result \<longleftrightarrow>
    (\<exists>b. map lre_op (alr_entries result) = [ApiLookupInOpType.Get] \<and> map lre_error (alr_entries result) = [None]
      \<and> map lre_value (alr_entries result) = [Some b] \<and> sd_from_slice sd b = Ok doc)"

lemma whole_document_content:
  assumes "whole_document sd doc full"
  shows "length (alr_entries full) = 1 \<and> lookup_content_as (sd_to_vec sd) (sd_from_slice sd) full 0 = Ok doc"
proof -
  obtain e b where e: "alr_entries full = [e]" "lre_op e = ApiLookupInOpType.Get" "lre_error e = None"
      "lre_value e = Some b" "sd_from_slice sd b = Ok doc"
    using assms by (auto simp: whole_document_def map_eq_Cons_conv)
  then show ?thesis by (simp add: lookup_content_as_def lookup_content_as_raw_def lookup_entry_def unwrap_or_def)
qed

definition field_paths :: "string list list \<Rightarrow> bool" where
  "field_paths ps \<longleftrightarrow> (\<forall>keys \<in> set ps. keys \<noteq> [] \<and> (\<forall>k \<in> set keys. plain_key k))"

lemma field_paths_Cons [simp]:
  "field_paths (keys # ps) \<longleftrightarrow> keys \<noteq> [] \<and> (\<forall>k \<in> set keys. plain_key k) \<and> field_paths ps"
  by (auto simp: field_paths_def)

lemma loops_agree:
  assumes "field_paths ps" "list_all2 (answers sd doc) ps results"
  shows "subdoc_entries_loop sd (map (\<lambda>keys. lookup_spec_get (field_path keys) None) ps) results content
    = full_doc_loop (map field_path ps) doc content"
  using assms(2,1)
proof (induction ps results arbitrary: content rule: list_all2_induct)
  case (Cons keys ps r results)
  have parts: "path_parts (field_path keys) = field_parts keys" using Cons.prems by (simp add: path_parts_fields)
  show ?case
  proof (cases "field_at doc keys")
    case None
    then show ?thesis using Cons parts by (auto simp: answers_def resolve_fields)
  next
    case (Some v)
    then obtain b where b: "lre_error r = None" "lre_value r = Some b" "sd_from_slice sd b = Ok v"
      using Cons.hyps(1) by (auto simp: answers_def)
    have "subdoc_entries_loop sd (map (\<lambda>keys. lookup_spec_get (field_path keys) None) ps) results
      = full_doc_loop (map field_path ps) doc" using Cons by auto
    then show ?thesis using Some b parts by (simp add: resolve_fields lookup_spec_get_def [of "field_path keys"])
  qed
qed simp

text \<open>
  C1. Whether the fields of a document are looked up one by one or the whole document is fetched and
  cut down, the projected document is the same: the client switches from the one to the other above
  sixteen lookups, and for paths of fields the application cannot tell.
\<close>

theorem projections_agree:
  assumes "field_paths ps" "list_all2 (answers sd doc) ps results" "whole_document sd doc full"
  shows "build_from_subdoc_entries sd (map (\<lambda>keys. lookup_spec_get (field_path keys) None) ps) results
    = build_from_full_doc sd full (Some (map field_path ps))"
  using whole_document_content [OF assms(3)] loops_agree [OF assms(1,2)]
  by (simp add: build_from_subdoc_entries_def build_from_full_doc_def)

definition projected :: "Json \<Rightarrow> string list list \<Rightarrow> (string \<times> Json) list \<Rightarrow> bool" where
  "projected doc ps obj \<longleftrightarrow>
    (\<forall>keys \<in> set ps. field_at (JObject obj) keys = field_at doc keys) \<and> fst ` set obj \<subseteq> hd ` set ps"

lemma obj_insert_keys: "fst ` set (obj_insert k v m) = insert k (fst ` set m)"
  by (induction k v m rule: obj_insert.induct) auto

lemma field_at_hd:
  assumes "keys \<noteq> []" "map_of obj (hd keys) = map_of obj' (hd keys)"
  shows "field_at (JObject obj) keys = field_at (JObject obj') keys"
  using assms by (cases keys) (simp_all add: json_get_def)

lemma full_doc_step:
  assumes "keys \<noteq> []" "\<forall>k \<in> set keys. plain_key k" "hd keys \<notin> fst ` set obj"
  shows "\<exists>obj'. full_doc_loop (field_path keys # ps) doc (JObject obj) = full_doc_loop ps doc (JObject obj')
    \<and> field_at (JObject obj') keys = field_at doc keys
    \<and> fst ` set obj' \<subseteq> insert (hd keys) (fst ` set obj) \<and> (\<forall>k. k \<noteq> hd keys \<longrightarrow> map_of obj' k = map_of obj k)"
proof (cases "field_at doc keys")
  case None
  have "map_of obj (hd keys) = None" using assms(3) by (simp add: map_of_eq_None_iff)
  then have "field_at (JObject obj) keys = None" using assms(1) by (cases keys) (simp_all add: json_get_def)
  then show ?thesis using None assms
    by (intro exI [of _ obj]) (auto simp: path_parts_fields resolve_fields)
next
  case (Some v)
  obtain u where u: "path_set_value (field_parts keys) (JObject obj) v = Ok (JObject (obj_insert (hd keys) u obj))"
      "field_at u (tl keys) = Some v" using set_fields [of keys obj v] assms(1) by auto
  moreover have "field_at (JObject (obj_insert (hd keys) u obj)) keys = Some v"
    using assms(1) u(2) by (cases keys) (simp_all add: json_get_def)
  ultimately show ?thesis using Some assms
    by (intro exI [of _ "obj_insert (hd keys) u obj"]) (simp add: path_parts_fields resolve_fields obj_insert_keys)
qed

lemma disjoint_insert: "A \<subseteq> insert h B \<Longrightarrow> h \<notin> C \<Longrightarrow> B \<inter> C = {} \<Longrightarrow> A \<inter> C = {}"
  by blast

lemma full_doc_loop_projects:
  assumes "field_paths ps" "distinct (map hd ps)" "fst ` set obj \<inter> hd ` set ps = {}"
  shows "\<exists>obj'. full_doc_loop (map field_path ps) doc (JObject obj) = Ok (JObject obj')
    \<and> (\<forall>keys \<in> set ps. field_at (JObject obj') keys = field_at doc keys)
    \<and> (\<forall>k. k \<notin> hd ` set ps \<longrightarrow> map_of obj' k = map_of obj k)
    \<and> fst ` set obj' \<subseteq> fst ` set obj \<union> hd ` set ps"
  using assms
proof (induction ps arbitrary: obj)
  case (Cons keys ps)
  have fresh: "hd keys \<notin> hd ` set ps" using Cons.prems(2) by auto
  obtain obj1 where step:
      "full_doc_loop (map field_path (keys # ps)) doc (JObject obj) = full_doc_loop (map field_path ps) doc (JObject obj1)"
      "field_at (JObject obj1) keys = field_at doc keys"
      "fst ` set obj1 \<subseteq> insert (hd keys) (fst ` set obj)" "\<forall>k. k \<noteq> hd keys \<longrightarrow> map_of obj1 k = map_of obj k"
    using full_doc_step [of keys obj "map field_path ps" doc] Cons.prems by auto
  have "fst ` set obj \<inter> hd ` set ps = {}" using Cons.prems(3) by auto
  then have "fst ` set obj1 \<inter> hd ` set ps = {}" by (rule disjoint_insert [OF step(3) fresh])
  then obtain obj' where obj': "full_doc_loop (map field_path ps) doc (JObject obj1) = Ok (JObject obj')"
      "\<forall>keys \<in> set ps. field_at (JObject obj') keys = field_at doc keys"
      "\<forall>k. k \<notin> hd ` set ps \<longrightarrow> map_of obj' k = map_of obj1 k"
      "fst ` set obj' \<subseteq> fst ` set obj1 \<union> hd ` set ps"
    using Cons.IH [of obj1] Cons.prems by auto
  have "field_at (JObject obj') keys = field_at (JObject obj1) keys"
    using Cons.prems(1) obj'(3) fresh by (intro field_at_hd) auto
  moreover have "fst ` set obj' \<subseteq> fst ` set obj \<union> hd ` set (keys # ps)"
    using subset_trans [OF obj'(4) Un_mono [OF step(3) subset_refl]] by simp
  ultimately show ?case using step(1,2,4) obj'(1,2,3) by (intro exI [of _ obj']) simp
qed simp

text \<open>
  C1. A projection of fields with different first keys has exactly the projected fields: at each
  projected path the new document has what the document has there, or nothing when the document
  has nothing, and it has no other keys.
\<close>

theorem projection_exact:
  assumes "field_paths ps" "distinct (map hd ps)" "whole_document sd doc full"
  shows "\<exists>obj. build_from_full_doc sd full (Some (map field_path ps))
      = map_err decoding_failure_from_serde (sd_to_vec sd (JObject obj)) \<and> projected doc ps obj"
proof -
  obtain obj where "full_doc_loop (map field_path ps) doc (JObject []) = Ok (JObject obj)" "projected doc ps obj"
    using full_doc_loop_projects [OF assms(1,2), of "[]" doc] by (auto simp: projected_def)
  then show ?thesis using whole_document_content [OF assms(3)] by (auto simp: build_from_full_doc_def)
qed

text \<open>
  C1. Of two projected fields below the same key only the last one is kept: the second path replaces the
  object the first one had made.
\<close>

theorem sibling_projection_lost:
  assumes "plain_key a" "plain_key b" "plain_key c"
    and "field_at doc [a, b] = Some x" "field_at doc [a, c] = Some y"
  shows "full_doc_loop [field_path [a, b], field_path [a, c]] doc (JObject []) = Ok (JObject [(a, JObject [(c, y)])])"
proof -
  have "path_parts (field_path [a, k]) = field_parts [a, k]" if "plain_key k" for k
    using that assms(1) by (intro path_parts_fields) auto
  then show ?thesis using assms resolve_fields [of doc "[a, b]"] resolve_fields [of doc "[a, c]"]
    by (simp add: field_parts_def)
qed

text \<open>Above sixteen lookups an index is ignored: the whole array is put into a new array.\<close>

lemma projection_index_ignored:
  assumes "plain_key a" "json_get doc a = Some x"
  shows "full_doc_loop [a @ ''[1]''] doc (JObject []) = Ok (JObject [(a, JArray [x])])"
proof -
  have "path_parts (a @ ''[1]'') = [\<lparr>sp_path = a, sp_is_array = True\<rparr>]"
    using path_loop_plain [of a "''[1]''" "[]"] assms(1) by (simp add: path_parts_def plain_key_def after_bracket_def)
  then show ?thesis using assms(2) by simp
qed

text \<open>A path without a part panics.\<close>

lemma empty_projection_panics: "full_doc_loop ([] # ps) doc content = Panic" "full_doc_loop (''.'' # ps) doc content = Panic"
  by (simp_all add: path_parts_def)

section \<open>Witnesses\<close>

definition sample_doc :: Json where
  "sample_doc = JObject [(''a'', JObject [(''b'', JNull), (''c'', JBool True)]), (''d'', JString ''x'')]"

definition sample_serde :: Serde where
  "sample_serde = \<lparr>sd_to_vec = (\<lambda>v. Ok (if v = JNull then [1] else if v = JString ''x'' then [2] else [3])),
     sd_from_slice = (\<lambda>b. Ok (if b = [1] then JNull else if b = [2] then JString ''x'' else sample_doc))\<rparr>"

definition sample_entry :: "bytes \<Rightarrow> LookupInResultEntry" where
  "sample_entry b = \<lparr>lre_value = Some b, lre_error = None, lre_op = ApiLookupInOpType.Get\<rparr>"

definition sample_full :: ApiLookupInResult where
  "sample_full = \<lparr>alr_cas = 1, alr_entries = [sample_entry [3]], alr_is_deleted = False\<rparr>"

lemma sample_paths: "field_paths [[''a'', ''b''], [''d'']]"
  by (simp add: field_paths_def plain_key_def)

lemma sample_whole: "whole_document sample_serde sample_doc sample_full"
  by (simp add: whole_document_def sample_full_def sample_entry_def sample_serde_def)

theorem projections_agree_witness:
  "build_from_subdoc_entries sample_serde
      (map (\<lambda>keys. lookup_spec_get (field_path keys) None) [[''a'', ''b''], [''d'']]) [sample_entry [1], sample_entry [2]]
    = build_from_full_doc sample_serde sample_full (Some (map field_path [[''a'', ''b''], [''d'']]))"
  by (rule projections_agree [OF sample_paths _ sample_whole])
    (simp add: answers_def sample_doc_def json_get_def sample_entry_def sample_serde_def)

theorem projection_exact_witness:
  "\<exists>obj. build_from_full_doc sample_serde sample_full (Some (map field_path [[''a'', ''b''], [''d'']]))
      = map_err decoding_failure_from_serde (sd_to_vec sample_serde (JObject obj))
    \<and> projected sample_doc [[''a'', ''b''], [''d'']] obj"
  by (rule projection_exact [OF sample_paths _ sample_whole]) simp

theorem sibling_projection_lost_witness:
  "full_doc_loop [field_path [''a'', ''b''], field_path [''a'', ''c'']] sample_doc (JObject [])
    = Ok (JObject [(''a'', JObject [(''c'', JBool True)])])"
  by (rule sibling_projection_lost [where x = JNull]) (simp_all add: plain_key_def sample_doc_def json_get_def)

end
