(* ===== verification/Spec2Isabelle.thy ===== *)
theory Spec2Isabelle
  imports Crud_Operations Json_Streamer Kv_Endpoints Connstr Kv_Client Agent_Manager Durations Orphan_Reporter Query_Component Search_Client Projection
begin

text \<open>
  The core crate of the Couchbase Rust SDK (\<^verbatim>\<open>src/sdk/couchbase-core/src\<close>).

  \<^bold>\<open>The program.\<close> An agent runs document operations against a cluster. An operation looks up the id of its
  collection, picks the server that owns the key's vbucket, takes a connection to that server, encodes
  a packet of the memcached binary protocol (memdx) and waits for the response with the same opaque.
  Errors go back through these layers: a dispatch error tries another connection, an unknown
  collection invalidates the cached id, a not-my-vbucket answer brings a new cluster configuration, and
  the retry loop decides whether to start over. Configurations also arrive from a poller and from
  server notifications; the newest one is kept by a manager and applied to the routing table.

  \<^bold>\<open>Theories and the code they model\<close> (paths below \<^verbatim>\<open>couchbase-core/src\<close>).

  \<^item> \<open>Prelude\<close>: machine integers, byte strings, Rust results with panics as a third outcome,
    big-endian integers. \<open>Framing\<close>: the interface of an incremental frame decoder and what follows
    from it for a byte stream cut into chunks. \<open>Transition\<close>: reachability and the invariant rule.
  \<^item> \<open>Memdx_Codes\<close>, \<open>Memdx_Error\<close>: the enumerations of the protocol (\<^verbatim>\<open>memdx/magic.rs\<close>, \<^verbatim>\<open>opcode.rs\<close>,
    \<^verbatim>\<open>status.rs\<close>, \<^verbatim>\<open>hello_feature.rs\<close>, \<^verbatim>\<open>durability_level.rs\<close> and others) and \<^verbatim>\<open>memdx/error.rs\<close>.
  \<^item> \<open>Memdx_Codec\<close>: \<^verbatim>\<open>memdx/codec.rs\<close>, \<^verbatim>\<open>packet.rs\<close>. The decoder is a function on the receive buffer; it
    interprets the interface of \<open>Framing\<close>. Streams round trip whatever the chunks, and the
    inputs on which the decoder panics are known exactly.
  \<^item> \<open>Memdx_Extframe\<close>: \<^verbatim>\<open>memdx/extframe.rs\<close>, framing extras and the LEB128 collection prefix.
    \<open>Memdx_Subdoc\<close>: \<^verbatim>\<open>memdx/subdoc.rs\<close>.
  \<^item> \<open>Memdx_Request\<close>, \<open>Memdx_Crud\<close>: \<^verbatim>\<open>memdx/request.rs\<close>, \<^verbatim>\<open>ops_core.rs\<close>, \<^verbatim>\<open>ops_util.rs\<close>, \<^verbatim>\<open>ops_crud.rs\<close>. An
    operation is a function from a request to the packet and context it dispatches, or an error.
    \<open>Memdx_Response\<close>: \<^verbatim>\<open>memdx/response.rs\<close>; \<open>Memdx_Replies\<close>: what its decoders guarantee.
  \<^item> \<open>Memdx_Client\<close>: \<^verbatim>\<open>memdx/client.rs\<close>, \<^verbatim>\<open>pendingop.rs\<close>. The state of a connection and a step relation whose
    steps are the stretches of code between two awaits, so that callers, the read loop, cancellation
    and close interleave freely. Its invariants say who may be sent what, and that nobody is forgotten.
  \<^item> \<open>Core_Error\<close>: \<^verbatim>\<open>error.rs\<close>. \<open>Routing\<close>: \<^verbatim>\<open>vbucketmap.rs\<close>, \<^verbatim>\<open>vbucketrouter.rs\<close>. \<open>Retry\<close>: \<^verbatim>\<open>retry.rs\<close>,
    \<^verbatim>\<open>retrybesteffort.rs\<close>, \<^verbatim>\<open>retryfailfast.rs\<close>, \<^verbatim>\<open>errmap.rs\<close>, \<^verbatim>\<open>errmapcomponent.rs\<close>. \<open>Collections\<close>:
    \<^verbatim>\<open>collectionresolver.rs\<close>, \<^verbatim>\<open>collection_resolver_cached.rs\<close>, with the regions under the lock as steps.
  \<^item> \<open>Config\<close>: \<^verbatim>\<open>cbconfig/mod.rs\<close>, \<^verbatim>\<open>configparser.rs\<close>, \<^verbatim>\<open>parsedconfig.rs\<close>, \<^verbatim>\<open>networktypeheuristic.rs\<close>,
    \<^verbatim>\<open>componentconfigs.rs\<close>. \<open>Config_Manager\<close>: \<^verbatim>\<open>configmanager.rs\<close>, \<^verbatim>\<open>configfetcher.rs\<close>, \<^verbatim>\<open>configwatcher.rs\<close>
    and the parts of \<^verbatim>\<open>agent.rs\<close> that apply a configuration.
  \<^item> \<open>Crud_Component\<close>: \<^verbatim>\<open>kvclient.rs\<close>, \<^verbatim>\<open>kvclient_ops.rs\<close>, \<^verbatim>\<open>kv_orchestration.rs\<close>, \<^verbatim>\<open>crudcomponent.rs\<close>, as far as the
    path of one operation needs them. This theory has the properties that span the components.

  \<^bold>\<open>Interfaces.\<close> \<open>Framing\<close> states what a stream decoder promises (progress, and that more input does not change
  a frame already complete) and is interpreted on the codec. \<open>invariant_system\<close> is interpreted on
  the client (twice: safety, and the bookkeeping of live requests), on the collection cache and on the
  configuration system.

  \<^bold>\<open>Conventions.\<close> Errors are values of \<open>result\<close>; a panic is the value \<open>Panic\<close>, so that a theorem about \<open>Ok\<close> also
  excludes panics. Arithmetic that Rust checks only in debug builds depends on a flag of
  \<open>rust_env\<close>. Integers whose width matters are words; \<^verbatim>\<open>i16\<close> and \<^verbatim>\<open>i64\<close> values that are only compared are
  integers. Strings are lists of UTF-8 bytes as characters. The retry loop and the search for a
  client may run forever and are partial functions: \<open>None\<close> is a run that does not end, and the
  properties that they end are stated as such. The only fuel is in \<open>frames\<close> of \<open>Framing\<close>, one more than the
  number of buffered bytes, which suffices because each frame consumes at least one byte.

  \<^bold>\<open>Arguments for code outside the repository.\<close> CRC-32, the JSON decoder, snappy decompression, number parsing and
  the floating-point power are arguments of the definitions that use them; sockets, channels and
  timers of tokio are represented by what they deliver and when.

  \<^bold>\<open>Not modelled.\<close> Opening connections, TLS, authentication and bootstrap; connection pools and the
  endpoint manager; compression; the HTTP based services with their row streaming; diagnostics and
  orphan reporting; the public API crate and the generated bindings; logging and Display texts. The
  next parts to add are the pools, the connection string parser, the streaming decoder of the HTTP
  services, compression, SCRAM and the orphan reporter.
\<close>

section \<open>Properties that span components\<close>

text \<open>
  C2. A document operation that a server refuses because it no longer owns the vbucket is retried
  under every retry strategy, and by then it is routed by the configuration that came with the
  refusal, provided that configuration supersedes the one in use: the error reaches the retry loop
  unchanged in kind, the configuration goes to the manager and the agent, and the routing table is
  the one computed from it.
\<close>

theorem not_my_vbucket_reroutes:
  assumes "dispatch_by_key crc32 (ag_vb_router a) key 0 = Ok (endpoint, vb)"
    and "crud_call (ops_crud client) req = Ok call"
    and "rp_status packet = Status.NotMyVbucket" and "rp_value packet = Some config"
    and "config \<noteq> []" and "utf8_valid config"
    and "parse_terse (str_replace ''$HOST'' endpoint (from_utf8 config)) = Some terse"
    and "ag_latest_config a = cm_latest_config (ag_cfg_manager a)"
    and "parse_terse_config terse endpoint = Ok cfg" and "supersedes cfg (ag_latest_config a)"
    and "gen_from_config cfg (ag_network_type a) (ag_tls_config a) (ag_bucket a) (ag_authenticator a) = Ok configs"
  shows "\<exists>err. orchestrate_memd_routing crc32 parse_terse (ag_vb_router a) key 0
        (\<lambda>_ _. fst (crud_operation env (\<lambda>_ ctx. Ok (Ok (answer packet ctx))) req key scope_name collection_name client))
      = (Err err, Some (terse, endpoint))
    \<and> fst (retry_decision strategy cell retry_info err) = Some (controlled_backoff (rr_retry_attempts retry_info + 1))
    \<and> (case apply_terse_config terse endpoint a of (r, a') \<Rightarrow>
         r = Ok () \<and> ag_latest_config a' = cfg \<and> sr_routing_info (ag_vb_router a') = vbucket_routing_info configs)"
proof -
  obtain p ctx where call: "crud_call (ops_crud client) req = Ok (p, ctx)" using assms(2) by (cases call) simp
  from not_my_vbucket_carries_config [OF call assms(3,4)] obtain e where
    e: "crud_reply env req (answer packet ctx) = Err e" "has_server_config e = Some config"
      "is_server_error_kind ServerErrorKind.NotMyVbucket e" by blast
  let ?err = "new_contextual_memdx_error (update_memdx_err (kc_selected_bucket client) (kv_error client e) key
      scope_name collection_name)"
  let ?op = "\<lambda>_ _. fst (crud_operation env (\<lambda>_ ctx. Ok (Ok (answer packet ctx))) req key scope_name collection_name client)"
  have err: "?op endpoint vb = Err ?err"
    by (simp add: crud_operation_def kv_client_op_def handle_dispatch_side_result_def
        handle_response_side_result_def call e(1) split: prod.splits)
  have "orchestrate_memd_routing crc32 parse_terse (ag_vb_router a) key 0 ?op = (Err ?err, Some (terse, endpoint))"
    using assms(1,5-7) e err by (simp add: orchestrate_memd_routing_def Let_def)
  moreover have "fst (retry_decision strategy cell retry_info ?err) = Some (controlled_backoff (rr_retry_attempts retry_info + 1))"
    using not_my_vbucket_decision [of ?err e] e(3) by simp
  moreover have "case apply_terse_config terse endpoint a of (r, a') \<Rightarrow>
         r = Ok () \<and> ag_latest_config a' = cfg \<and> sr_routing_info (ag_vb_router a') = vbucket_routing_info configs"
    using apply_terse_config_installs [OF assms(9) _ assms(11)] assms(8,10) by simp
  ultimately show ?thesis by (intro exI [of _ ?err] conjI)
qed

definition plain_client :: KvClient where
  "plain_client = \<lparr>kc_remote_addr = ''r'', kc_local_addr = ''l'', kc_supported_features = [],
     kc_selected_bucket = None, kc_closed = False, kc_cli_closes = 0\<rparr>"

definition routed_agent :: "(unit, unit) Agent" where
  "routed_agent = sample_agent\<lparr>ag_vb_router := vbucket_router_new
     \<lparr>ri_vbucket_info = Some \<lparr>vm_entries = [[0], [1]], vm_num_replicas = 0\<rparr>,
      ri_server_list = [''kvep-x-8091'', ''kvep-y-8091''], ri_bucket_selected = True\<rparr>\<rparr>"

lemma routed_agent_sel:
  "ag_latest_config routed_agent = sample_config 1" "cm_latest_config (ag_cfg_manager routed_agent) = sample_config 1"
  "ag_network_type routed_agent = ''default''"
  by (simp_all add: routed_agent_def sample_agent_def config_manager_new_def)

lemma routed_agent_dispatch:
  "dispatch_by_key (\<lambda>_. 0x10000) (ag_vb_router routed_agent) [0x61] 0 = Ok (''kvep-y-8091'', 1)"
  by (simp add: routed_agent_def dispatch_by_key_def vbucket_router_new_def get_vbucket_info_def
      vbucket_by_key_def node_by_vbucket_def Let_def)

theorem not_my_vbucket_reroutes_witness:
  "\<exists>err. orchestrate_memd_routing (\<lambda>_. 0x10000) (\<lambda>_. Some (sample_terse 2)) (ag_vb_router routed_agent) [0x61] 0
        (\<lambda>_ _. fst (crud_operation sample_env (\<lambda>_ ctx. Ok (Ok (answer (sample_packet Status.NotMyVbucket (Some [0x7b])) ctx)))
           (CrudGet sample_get) [0x61] [] [] plain_client))
      = (Err err, Some (sample_terse 2, ''kvep-y-8091''))
    \<and> fst (retry_decision fail_fast None (retry_request_new ''get'' True) err) = Some (controlled_backoff 1)"
proof -
  obtain p where "crud_call (ops_crud plain_client) (CrudGet sample_get) = Ok (p, None)"
    using sample_get_call by (auto simp: ops_crud_def kv_has_feature_def plain_client_def)
  moreover obtain configs where "gen_from_config (sample_config_from ''kvep-y-8091'' 2) (ag_network_type routed_agent)
      (ag_tls_config routed_agent) (ag_bucket routed_agent) (ag_authenticator routed_agent) = Ok configs"
    by (simp add: routed_agent_sel gen_from_config_def addresses_group_for_network_type_def sample_network Let_def)
  moreover have "rp_status (sample_packet Status.NotMyVbucket (Some [0x7b])) = Status.NotMyVbucket"
    "rp_value (sample_packet Status.NotMyVbucket (Some [0x7b])) = Some [0x7b]"
    by (simp_all add: sample_packet_def response_packet_new_def)
  moreover have "supersedes (sample_config_from ''kvep-y-8091'' 2) (ag_latest_config routed_agent)"
    by (simp add: routed_agent_sel sample_supersedes)
  moreover have "rr_retry_attempts (retry_request_new ''get'' True) + 1 = 1" by (simp add: retry_request_new_def)
  ultimately show ?thesis
    using not_my_vbucket_reroutes [of "\<lambda>_. 0x10000" routed_agent "[0x61]" "''kvep-y-8091''" 1 plain_client
        "CrudGet sample_get" "(p, None)" "sample_packet Status.NotMyVbucket (Some [0x7b])" "[0x7b]"
        "\<lambda>_. Some (sample_terse 2)" "sample_terse 2" "sample_config_from ''kvep-y-8091'' 2" configs sample_env "[]" "[]"
        fail_fast None "retry_request_new ''get'' True", OF routed_agent_dispatch]
    by (fastforce simp: routed_agent_sel sample_parse)
qed

text \<open>
  The source that goes with a configuration from a not-my-vbucket answer is an endpoint identifier
  of the routing table, not a host name; a node that the configuration lists without a host name
  gets that identifier as its host.
\<close>

theorem not_my_vbucket_host_is_endpoint_id:
  assumes "orchestrate_memd_routing crc32 parse_terse vb key i operation = (res, Some (terse, source))"
    and "parse_terse_config terse source = Ok cfg"
    and "j < length (tc_nodes_ext terse)" and "ext_hostname (tc_nodes_ext terse ! j) = None"
  shows "na_hostname (addresses (pc_nodes cfg ! j)) \<in> set (ri_server_list (sr_routing_info vb))"
proof -
  obtain v where d: "dispatch_by_key crc32 vb key i = Ok (source, v)"
    using assms(1) by (auto simp: orchestrate_memd_routing_def Let_def split: result.splits prod.splits
        option.splits if_splits)
  then have "source \<in> set (ri_server_list (sr_routing_info vb))"
    by (auto simp: dispatch_by_key_def Let_def res_simps split: if_splits)
  moreover have "na_hostname (addresses (pc_nodes cfg ! j)) = source"
    using assms(3,4) parse_terse_config_sel(1) [OF assms(2)]
    by (simp add: nth_enumerate_eq parse_node_def parse_config_hosts_into_def parse_config_hostname_def Let_def)
  ultimately show ?thesis by simp
qed


definition hostless_terse :: TerseConfig where
  "hostless_terse = (sample_terse 2)\<lparr>tc_nodes_ext := [(sample_node [])\<lparr>ext_hostname := None\<rparr>]\<rparr>"

theorem not_my_vbucket_host_is_endpoint_id_witness:
  "\<exists>cfg. parse_terse_config hostless_terse ''kvep-y-8091'' = Ok cfg
    \<and> na_hostname (addresses (pc_nodes cfg ! 0)) \<in> {''kvep-x-8091'', ''kvep-y-8091''}"
proof -
  let ?e = "new_contextual_memdx_error (memdx_error_new (error_from_server (with_config [0x7b]
    (server_error_new ServerErrorKind.NotMyVbucket OpCode.Get Status.NotMyVbucket 1)))) :: CoreError"
  have "orchestrate_memd_routing (\<lambda>_. 0x10000) (\<lambda>_. Some hostless_terse) (ag_vb_router routed_agent) [0x61] 0
      (\<lambda>_ _. Err ?e :: (CoreError, unit) result) = (Err ?e, Some (hostless_terse, ''kvep-y-8091''))"
    by (simp add: orchestrate_memd_routing_def routed_agent_dispatch memdx_error_new_def error_inspect_defs)
  moreover obtain cfg where "parse_terse_config hostless_terse ''kvep-y-8091'' = Ok cfg"
    by (simp add: parse_terse_config_def parse_bucket_def parse_vbucket_server_map_def vbucket_map_new_def
        hostless_terse_def sample_terse_def Let_def)
  ultimately show ?thesis
    using not_my_vbucket_host_is_endpoint_id [where j = 0 and terse = hostless_terse and vb = "ag_vb_router routed_agent"
        and source = "''kvep-y-8091''" and cfg = cfg]
    by (fastforce simp: hostless_terse_def routed_agent_def vbucket_router_new_def)
qed

end
